(* ===== verification/Soroban_Prelude.thy ===== *)
theory Soroban_Prelude
  imports Main "HOL-Library.Signed_Division"
begin

text \<open>
  Shared vocabulary of the contract models.

  \<^item> \<open>outcome\<close>: what a contract function does. \<open>Ok\<close> is a normal return, \<open>Err\<close> is Rust's
    \<open>Err(e)\<close> with the contract's own error enum, \<open>Trap\<close> is a panic of the guest (arithmetic
    overflow under \<open>overflow-checks = true\<close>, division by zero, a failed \<open>require_auth\<close>, an
    unwrapped \<open>None\<close>, an explicit \<open>panic!\<close>). An invocation that ends in \<open>Err\<close> or \<open>Trap\<close> is rolled
    back by the host, so only \<open>Ok\<close> carries a new state.
  \<^item> Rust integers: \<open>i128\<close> is \<open>int\<close>, the unsigned types are \<open>nat\<close>; every operation that can leave
    the width of its type tests the range, in its checked, saturating or panicking form.
  \<^item> the ledger environment of one invocation (timestamp, sequence number, who authorised, the
    contract's own address), and \<open>require_auth\<close>.
  \<^item> sums of balances over a finite map, shared by every contract that keeps a supply.
  \<^item> locales for contracts as state machines.
\<close>

section \<open>Outcomes of a contract invocation\<close>

named_theorems guard_simps \<open>unfolding rules for the guards at the start of entry points\<close>
named_theorems store_simps \<open>unfolding rules for the storage accessors of a contract\<close>
named_theorems entry_defs \<open>definitions of the entry points of a contract\<close>

datatype trap =
    ArithmeticOverflow
  | DivideByZero
  | AuthFailure
  | UnwrapNone
  | ExplicitPanic string
  | CallFailed

datatype ('e, 'a) outcome = Ok (the_ok: 'a) | Err 'e | Trap trap

text \<open>\<open>and_then\<close> is Rust's \<open>?\<close> operator followed by the rest of the function.\<close>

definition and_then :: "('e, 'a) outcome \<Rightarrow> ('a \<Rightarrow> ('e, 'b) outcome) \<Rightarrow> ('e, 'b) outcome" where
  "and_then m f = (case m of Ok x \<Rightarrow> f x | Err e \<Rightarrow> Err e | Trap t \<Rightarrow> Trap t)"

text \<open>Evaluation inlines \<open>and_then\<close>, so that it computes the first part before the rest.\<close>

declare and_then_def [code_unfold]

lemma and_then_simps [simp]:
  "and_then (Ok x) f = f x"
  "and_then (Err e) f = Err e"
  "and_then (Trap t) f = Trap t"
  by (simp_all add: and_then_def)

lemma and_then_eq_Ok [simp]:
  "and_then m f = Ok y \<longleftrightarrow> (\<exists>x. m = Ok x \<and> f x = Ok y)"
  by (cases m) simp_all

lemma and_then_eq_Err [simp]:
  "and_then m f = Err e \<longleftrightarrow> m = Err e \<or> (\<exists>x. m = Ok x \<and> f x = Err e)"
  by (cases m) auto

lemma and_then_eq_Trap [simp]:
  "and_then m f = Trap t \<longleftrightarrow> m = Trap t \<or> (\<exists>x. m = Ok x \<and> f x = Trap t)"
  by (cases m) auto

lemma and_then_cong [fundef_cong]:
  "m = m' \<Longrightarrow> (\<And>x. m' = Ok x \<Longrightarrow> f x = f' x) \<Longrightarrow> and_then m f = and_then m' f'"
  by (cases m') simp_all

text \<open>Early returns: a guard that fails is a case of the result, not of the success.\<close>

lemma guard_Ok [simp]:
  "(if c then Err e else r) = Ok y \<longleftrightarrow> \<not> c \<and> r = Ok y"
  "(if c then Trap t else r) = Ok y \<longleftrightarrow> \<not> c \<and> r = Ok y"
  "(if c then r else Err e) = Ok y \<longleftrightarrow> c \<and> r = Ok y"
  "(if c then r else Trap t) = Ok y \<longleftrightarrow> c \<and> r = Ok y"
  by auto

lemma and_then_OkE:
  assumes "and_then m f = Ok y"
  obtains x where "m = Ok x" "f x = Ok y"
  using assms by auto

lemma and_then_assoc:
  "and_then (and_then m f) g = and_then m (\<lambda>x. and_then (f x) g)"
  by (cases m) simp_all

text \<open>\<open>ok_or e o\<close> is \<open>o.ok_or(e)\<close>, \<open>unwrap\<close> is \<open>o.unwrap()\<close> / \<open>o.expect(..)\<close>.\<close>

definition ok_or :: "'e \<Rightarrow> 'a option \<Rightarrow> ('e, 'a) outcome" where
  "ok_or e m = (case m of None \<Rightarrow> Err e | Some x \<Rightarrow> Ok x)"

definition unwrap :: "'a option \<Rightarrow> ('e, 'a) outcome" where
  "unwrap m = (case m of None \<Rightarrow> Trap UnwrapNone | Some x \<Rightarrow> Ok x)"

definition unwrap_or :: "'a \<Rightarrow> 'a option \<Rightarrow> 'a" where
  "unwrap_or d m = (case m of None \<Rightarrow> d | Some x \<Rightarrow> x)"

text \<open>\<open>or_trap\<close> turns a failed callee into a trap of the caller (a cross-contract call made
  through a generated client panics when the callee fails).\<close>

definition or_trap :: "'a option \<Rightarrow> ('e, 'a) outcome" where
  "or_trap m = (case m of None \<Rightarrow> Trap CallFailed | Some x \<Rightarrow> Ok x)"

lemma ok_or_simps [simp]:
  "ok_or e None = Err e"
  "ok_or e (Some x) = Ok x"
  by (simp_all add: ok_or_def)

lemma ok_or_eq [simp]:
  "ok_or e m = Ok x \<longleftrightarrow> m = Some x"
  "ok_or e m = Err d \<longleftrightarrow> m = None \<and> d = e"
  "ok_or e m \<noteq> Trap t"
  by (auto simp: ok_or_def split: option.splits)

lemma unwrap_eq [simp]:
  "unwrap m = Ok x \<longleftrightarrow> m = Some x"
  "unwrap m \<noteq> Err d"
  "unwrap m = Trap t \<longleftrightarrow> m = None \<and> t = UnwrapNone"
  by (auto simp: unwrap_def split: option.splits)

lemma unwrap_simps [simp]:
  "unwrap None = Trap UnwrapNone"
  "unwrap (Some x) = Ok x"
  by (simp_all add: unwrap_def)

lemma unwrap_or_simps [simp]:
  "unwrap_or d None = d"
  "unwrap_or d (Some x) = x"
  by (simp_all add: unwrap_or_def)

lemma or_trap_eq [simp]:
  "or_trap m = Ok x \<longleftrightarrow> m = Some x"
  "or_trap m \<noteq> Err d"
  "or_trap m = Trap t \<longleftrightarrow> m = None \<and> t = CallFailed"
  by (auto simp: or_trap_def split: option.splits)

lemma or_trap_simps [simp]:
  "or_trap None = Trap CallFailed"
  "or_trap (Some x) = Ok x"
  by (simp_all add: or_trap_def)

text \<open>\<open>is_ok r\<close> is Rust's \<open>r.is_ok()\<close>.\<close>

definition is_ok :: "('e, 'a) outcome \<Rightarrow> bool" where
  "is_ok r = (case r of Ok _ \<Rightarrow> True | _ \<Rightarrow> False)"

lemma is_ok_iff [simp]: "is_ok r \<longleftrightarrow> (\<exists>x. r = Ok x)"
  by (cases r) (simp_all add: is_ok_def)

lemma is_ok_pair: "is_ok r \<Longrightarrow> r = Ok (fst (the_ok r), snd (the_ok r))"
  by auto

section \<open>Rust integers\<close>

definition i128_max :: int where "i128_max = 170141183460469231731687303715884105727"
definition i128_min :: int where "i128_min = - 170141183460469231731687303715884105728"
definition u128_max :: nat where "u128_max = 340282366920938463463374607431768211455"
definition u64_max :: nat where "u64_max = 18446744073709551615"
definition u32_max :: nat where "u32_max = 4294967295"

definition in_i128 :: "int \<Rightarrow> bool" where
  "in_i128 x \<longleftrightarrow> i128_min \<le> x \<and> x \<le> i128_max"

lemma i128_width: "i128_max = 2 ^ 127 - 1" "i128_min = - (2 ^ 127)"
  by (simp_all add: i128_max_def i128_min_def)

lemma unsigned_width:
  "u128_max = 2 ^ 128 - 1" "u64_max = 2 ^ 64 - 1" "u32_max = 2 ^ 32 - 1"
  by (simp_all add: u128_max_def u64_max_def u32_max_def)

lemma in_i128_0 [simp]: "in_i128 0" and in_i128_1 [simp]: "in_i128 1"
  by (simp_all add: in_i128_def i128_max_def i128_min_def)

lemma in_i128_between:
  "in_i128 a \<Longrightarrow> in_i128 b \<Longrightarrow> a \<le> x \<Longrightarrow> x \<le> b \<Longrightarrow> in_i128 x"
  by (simp add: in_i128_def)

lemma in_i128_le: "in_i128 b \<Longrightarrow> 0 \<le> x \<Longrightarrow> x \<le> b \<Longrightarrow> in_i128 x"
  by (simp add: in_i128_def i128_min_def)

text \<open>Checked forms: \<open>None\<close> on overflow.\<close>

definition checked_add :: "int \<Rightarrow> int \<Rightarrow> int option" where
  "checked_add a b = (if in_i128 (a + b) then Some (a + b) else None)"

definition checked_sub :: "int \<Rightarrow> int \<Rightarrow> int option" where
  "checked_sub a b = (if in_i128 (a - b) then Some (a - b) else None)"

definition checked_mul :: "int \<Rightarrow> int \<Rightarrow> int option" where
  "checked_mul a b = (if in_i128 (a * b) then Some (a * b) else None)"

text \<open>Rust's \<open>/\<close> truncates towards zero, as \<open>sdiv\<close> does.\<close>

definition checked_div :: "int \<Rightarrow> int \<Rightarrow> int option" where
  "checked_div a b = (if b = 0 \<or> \<not> in_i128 (a sdiv b) then None else Some (a sdiv b))"

text \<open>Panicking forms: the plain operators, compiled with overflow checks.\<close>

definition i128_add :: "int \<Rightarrow> int \<Rightarrow> ('e, int) outcome" where
  "i128_add a b = (if in_i128 (a + b) then Ok (a + b) else Trap ArithmeticOverflow)"

definition i128_sub :: "int \<Rightarrow> int \<Rightarrow> ('e, int) outcome" where
  "i128_sub a b = (if in_i128 (a - b) then Ok (a - b) else Trap ArithmeticOverflow)"

definition i128_mul :: "int \<Rightarrow> int \<Rightarrow> ('e, int) outcome" where
  "i128_mul a b = (if in_i128 (a * b) then Ok (a * b) else Trap ArithmeticOverflow)"

definition i128_div :: "int \<Rightarrow> int \<Rightarrow> ('e, int) outcome" where
  "i128_div a b =
     (if b = 0 then Trap DivideByZero
      else if in_i128 (a sdiv b) then Ok (a sdiv b) else Trap ArithmeticOverflow)"

text \<open>Saturating forms and \<open>clamp\<close> (which panics on an empty range).\<close>

definition i128_saturate :: "int \<Rightarrow> int" where
  "i128_saturate x = max i128_min (min i128_max x)"

definition saturating_add :: "int \<Rightarrow> int \<Rightarrow> int" where
  "saturating_add a b = i128_saturate (a + b)"

definition saturating_sub :: "int \<Rightarrow> int \<Rightarrow> int" where
  "saturating_sub a b = i128_saturate (a - b)"

definition saturating_mul :: "int \<Rightarrow> int \<Rightarrow> int" where
  "saturating_mul a b = i128_saturate (a * b)"

definition i128_clamp :: "int \<Rightarrow> int \<Rightarrow> int \<Rightarrow> ('e, int) outcome" where
  "i128_clamp x lo hi =
     (if lo > hi then Trap (ExplicitPanic ''assertion failed: min <= max'')
      else Ok (if x < lo then lo else if x > hi then hi else x))"

text \<open>Unsigned types.\<close>

definition u64_add :: "nat \<Rightarrow> nat \<Rightarrow> ('e, nat) outcome" where
  "u64_add a b = (if a + b \<le> u64_max then Ok (a + b) else Trap ArithmeticOverflow)"

definition u64_sub :: "nat \<Rightarrow> nat \<Rightarrow> ('e, nat) outcome" where
  "u64_sub a b = (if b \<le> a then Ok (a - b) else Trap ArithmeticOverflow)"

definition u64_checked_add :: "nat \<Rightarrow> nat \<Rightarrow> nat option" where
  "u64_checked_add a b = (if a + b \<le> u64_max then Some (a + b) else None)"

definition u64_saturating_sub :: "nat \<Rightarrow> nat \<Rightarrow> nat" where
  "u64_saturating_sub a b = (if b \<le> a then a - b else 0)"

definition u64_saturating_add :: "nat \<Rightarrow> nat \<Rightarrow> nat" where
  "u64_saturating_add a b = min u64_max (a + b)"

definition u32_add :: "nat \<Rightarrow> nat \<Rightarrow> ('e, nat) outcome" where
  "u32_add a b = (if a + b \<le> u32_max then Ok (a + b) else Trap ArithmeticOverflow)"

definition u32_sub :: "nat \<Rightarrow> nat \<Rightarrow> ('e, nat) outcome" where
  "u32_sub a b = (if b \<le> a then Ok (a - b) else Trap ArithmeticOverflow)"

definition u32_checked_add :: "nat \<Rightarrow> nat \<Rightarrow> nat option" where
  "u32_checked_add a b = (if a + b \<le> u32_max then Some (a + b) else None)"

definition u128_checked_add :: "nat \<Rightarrow> nat \<Rightarrow> nat option" where
  "u128_checked_add a b = (if a + b \<le> u128_max then Some (a + b) else None)"

definition u128_checked_mul :: "nat \<Rightarrow> nat \<Rightarrow> nat option" where
  "u128_checked_mul a b = (if a * b \<le> u128_max then Some (a * b) else None)"

definition u128_checked_div :: "nat \<Rightarrow> nat \<Rightarrow> nat option" where
  "u128_checked_div a b = (if b = 0 then None else Some (a div b))"

definition i128_of_u128 :: "nat \<Rightarrow> int option" where
  "i128_of_u128 n = (if int n \<le> i128_max then Some (int n) else None)"

text \<open>Success characterisations, used by every component proof.\<close>

lemma option_chain_Some [simp]:
  "Option.bind m f = Some c \<longleftrightarrow> (\<exists>x. m = Some x \<and> f x = Some c)"
  by (rule bind_eq_Some_conv)

lemma checked_add_Some [simp]: "checked_add a b = Some c \<longleftrightarrow> c = a + b \<and> in_i128 (a + b)"
  and checked_sub_Some [simp]: "checked_sub a b = Some c \<longleftrightarrow> c = a - b \<and> in_i128 (a - b)"
  and checked_mul_Some [simp]: "checked_mul a b = Some c \<longleftrightarrow> c = a * b \<and> in_i128 (a * b)"
  and checked_div_Some [simp]:
    "checked_div a b = Some c \<longleftrightarrow> c = a sdiv b \<and> b \<noteq> 0 \<and> in_i128 (a sdiv b)"
  by (auto simp: checked_add_def checked_sub_def checked_mul_def checked_div_def)

lemma checked_None [simp]:
  "checked_add a b = None \<longleftrightarrow> \<not> in_i128 (a + b)"
  "checked_sub a b = None \<longleftrightarrow> \<not> in_i128 (a - b)"
  "checked_mul a b = None \<longleftrightarrow> \<not> in_i128 (a * b)"
  "checked_div a b = None \<longleftrightarrow> b = 0 \<or> \<not> in_i128 (a sdiv b)"
  by (auto simp: checked_add_def checked_sub_def checked_mul_def checked_div_def)

lemma i128_arith_Ok [simp]:
  "i128_add a b = Ok c \<longleftrightarrow> c = a + b \<and> in_i128 (a + b)"
  "i128_sub a b = Ok c \<longleftrightarrow> c = a - b \<and> in_i128 (a - b)"
  "i128_mul a b = Ok c \<longleftrightarrow> c = a * b \<and> in_i128 (a * b)"
  "i128_div a b = Ok c \<longleftrightarrow> c = a sdiv b \<and> b \<noteq> 0 \<and> in_i128 (a sdiv b)"
  by (auto simp: i128_add_def i128_sub_def i128_mul_def i128_div_def)

lemma i128_arith_Err [simp]:
  "i128_add a b \<noteq> Err e" "i128_sub a b \<noteq> Err e" "i128_mul a b \<noteq> Err e" "i128_div a b \<noteq> Err e"
  by (simp_all add: i128_add_def i128_sub_def i128_mul_def i128_div_def)

lemma i128_arith_Trap [simp]:
  "i128_add a b = Trap t \<longleftrightarrow> \<not> in_i128 (a + b) \<and> t = ArithmeticOverflow"
  "i128_sub a b = Trap t \<longleftrightarrow> \<not> in_i128 (a - b) \<and> t = ArithmeticOverflow"
  "i128_mul a b = Trap t \<longleftrightarrow> \<not> in_i128 (a * b) \<and> t = ArithmeticOverflow"
  "i128_div a b = Trap t \<longleftrightarrow>
     b = 0 \<and> t = DivideByZero \<or> b \<noteq> 0 \<and> \<not> in_i128 (a sdiv b) \<and> t = ArithmeticOverflow"
  by (auto simp: i128_add_def i128_sub_def i128_mul_def i128_div_def)

lemma sdiv_nonneg: "0 \<le> a \<Longrightarrow> 0 < b \<Longrightarrow> a sdiv b = a div b" for a b :: int
  by (cases "a = 0") (simp_all add: signed_divide_int_def)

lemma smod_nonneg: "0 \<le> a \<Longrightarrow> 0 < b \<Longrightarrow> a smod b = a mod b" for a b :: int
  by (cases "a = 0") (simp_all add: signed_modulo_int_def)

lemma sdiv_nonpos: "a \<le> 0 \<Longrightarrow> 0 < b \<Longrightarrow> a sdiv b \<le> 0" for a b :: int
  by (cases "a = 0") (simp_all add: signed_divide_int_def pos_imp_zdiv_nonneg_iff)

lemma smod_smaller: "r \<noteq> 0 \<Longrightarrow> \<bar>l smod r\<bar> < \<bar>r\<bar>" for l r :: int
  by (simp add: signed_modulo_int_def abs_mult)

lemma i128_clamp_Ok:
  "i128_clamp x lo hi = Ok c \<Longrightarrow> lo \<le> c \<and> c \<le> hi"
  by (auto simp: i128_clamp_def split: if_splits)

lemma i128_clamp_noErr [simp]: "i128_clamp x lo hi \<noteq> Err e"
  by (simp add: i128_clamp_def)

lemma unsigned_arith_Ok [simp]:
  "u64_add a b = Ok c \<longleftrightarrow> c = a + b \<and> a + b \<le> u64_max"
  "u64_sub a b = Ok c \<longleftrightarrow> c = a - b \<and> b \<le> a"
  "u32_add a b = Ok c \<longleftrightarrow> c = a + b \<and> a + b \<le> u32_max"
  "u32_sub a b = Ok c \<longleftrightarrow> c = a - b \<and> b \<le> a"
  by (auto simp: u64_add_def u64_sub_def u32_add_def u32_sub_def)

lemma unsigned_arith_noErr [simp]:
  "u64_add a b \<noteq> Err e" "u64_sub a b \<noteq> Err e" "u32_add a b \<noteq> Err e" "u32_sub a b \<noteq> Err e"
  by (simp_all add: u64_add_def u64_sub_def u32_add_def u32_sub_def)

lemma unsigned_arith_Trap [simp]:
  "u64_add a b = Trap t \<longleftrightarrow> u64_max < a + b \<and> t = ArithmeticOverflow"
  "u64_sub a b = Trap t \<longleftrightarrow> a < b \<and> t = ArithmeticOverflow"
  "u32_add a b = Trap t \<longleftrightarrow> u32_max < a + b \<and> t = ArithmeticOverflow"
  "u32_sub a b = Trap t \<longleftrightarrow> a < b \<and> t = ArithmeticOverflow"
  by (auto simp: u64_add_def u64_sub_def u32_add_def u32_sub_def not_le)

lemma unsigned_checked_Some [simp]:
  "u64_checked_add a b = Some c \<longleftrightarrow> c = a + b \<and> a + b \<le> u64_max"
  "u32_checked_add a b = Some c \<longleftrightarrow> c = a + b \<and> a + b \<le> u32_max"
  "u128_checked_add a b = Some c \<longleftrightarrow> c = a + b \<and> a + b \<le> u128_max"
  "u128_checked_mul a b = Some c \<longleftrightarrow> c = a * b \<and> a * b \<le> u128_max"
  "u128_checked_div a b = Some c \<longleftrightarrow> c = a div b \<and> b \<noteq> 0"
  "i128_of_u128 n = Some z \<longleftrightarrow> z = int n \<and> int n \<le> i128_max"
  by (auto simp: u64_checked_add_def u32_checked_add_def u128_checked_add_def
      u128_checked_mul_def u128_checked_div_def i128_of_u128_def)

text \<open>The bundle to switch off where a proof only needs the control flow of a function.\<close>

lemmas arith_outcomes =
  ok_or_eq option_chain_Some checked_add_Some checked_sub_Some checked_mul_Some checked_div_Some i128_arith_Ok
  unsigned_arith_Ok unsigned_checked_Some

text \<open>On non-negative numbers Rust's division is HOL's.\<close>

lemma sdiv_pos [simp]: "0 \<le> a \<Longrightarrow> 0 < b \<Longrightarrow> a sdiv b = a div (b::int)"
  by (cases "a = 0") (simp_all add: signed_divide_int_def)

lemma i128_div_pos:
  "in_i128 a \<Longrightarrow> 0 \<le> a \<Longrightarrow> 0 < b \<Longrightarrow> in_i128 (a div b)"
proof (rule in_i128_le [of a])
  assume "in_i128 a" "0 \<le> a" "0 < b"
  then show "0 \<le> a div b"
    by (simp add: pos_imp_zdiv_nonneg_iff)
  show "a div b \<le> a"
  proof (cases "a = 0")
    case False
    with \<open>0 \<le> a\<close> have "0 < a" by simp
    then show ?thesis
      using \<open>0 < b\<close> by (cases "b = 1") (simp_all add: int_div_less_self order.strict_implies_order)
  qed simp
qed simp

text \<open>Flooring division never exceeds the exact quotient.\<close>

lemma i128_div_mult: "0 < g \<Longrightarrow> 0 \<le> x \<Longrightarrow> in_i128 (g * x) \<Longrightarrow> i128_div (g * x) g = Ok x \<and> in_i128 x"
  using i128_div_pos [of "g * x" g] by (simp add: sdiv_nonneg)

lemma grows: "0 \<le> x \<Longrightarrow> 0 < y \<Longrightarrow> x \<le> y * x" for x y :: int
  using mult_right_mono [of 1 y x] by simp

lemma div_part: "0 < y \<Longrightarrow> 0 < d \<Longrightarrow> y dvd d \<Longrightarrow> 0 < d div y" for d y :: int
  using zdvd_imp_le [of y d] by (simp add: pos_imp_zdiv_pos_iff)

lemma div_mult_le: "0 < b \<Longrightarrow> a div b * b \<le> (a::int)"
  by (metis minus_mod_eq_div_mult pos_mod_sign diff_le_eq le_add_same_cancel1 add.commute)

lemma div_mono_mult: "0 < b \<Longrightarrow> a \<le> c * b \<Longrightarrow> a div b \<le> (c::int)"
  by (metis div_mult_le dual_order.trans mult_le_cancel_right order_less_asym)

lemma le_div_iff_mult: "0 < b \<Longrightarrow> c \<le> a div b \<longleftrightarrow> c * b \<le> (a::int)"
  using div_mult_le [of b a] zdiv_mono1 [of "c * b" a b] by (auto intro: order_trans [OF mult_right_mono])

lemma ceil_div_le_iff: "0 < (d::int) \<Longrightarrow> (n + d - 1) div d \<le> c \<longleftrightarrow> n \<le> c * d"
  using le_div_iff_mult [of d "c + 1" "n + d - 1"] by (auto simp: algebra_simps not_le)

section \<open>Integer square roots\<close>

lemma newton_upper:
  fixes p y :: int
  assumes "0 < p" "0 < y"
  shows "p < ((y + p div y) div 2 + 1) * ((y + p div y) div 2 + 1)"
proof -
  define q where "q = p div y"
  define m where "m = (y + q) div 2 + 1"
  have "p < y * (q + 1)"
    using assms unfolding q_def
    by (metis add.commute distrib_left mult.right_neutral mult_div_mod_eq add_strict_left_mono pos_mod_bound)
  also have "4 * (y * (q + 1)) \<le> (y + (q + 1)) * (y + (q + 1))"
    using zero_le_square [of "y - (q + 1)"] by (simp add: algebra_simps)
  finally have "4 * p < (y + (q + 1)) * (y + (q + 1))"
    by linarith
  moreover have "y + (q + 1) \<le> 2 * m" and "0 \<le> y + (q + 1)"
    using assms by (auto simp: m_def q_def pos_imp_zdiv_nonneg_iff)
  then have "(y + (q + 1)) * (y + (q + 1)) \<le> (2 * m) * (2 * m)"
    by (intro mult_mono) auto
  ultimately have "4 * p < 4 * (m * m)" by simp
  then show ?thesis by (simp add: m_def q_def)
qed

lemma newton_stop:
  fixes p x y :: int
  assumes "0 < p" "0 < x" "y = (x + p div x) div 2" "x \<le> y"
  shows "x * x \<le> p"
proof -
  have "x \<le> p div x" using assms by linarith
  then have "x * x \<le> p div x * x" using assms by simp
  also have "\<dots> \<le> p" using assms by (intro div_mult_le) simp
  finally show ?thesis .
qed

lemma newton_pos:
  fixes p x :: int
  assumes "0 < p" "0 < x"
  shows "0 < (x + p div x) div 2"
proof (cases "x = 1")
  case False
  have "0 \<le> p div x" using assms by (simp add: pos_imp_zdiv_nonneg_iff)
  with False assms have "2 \<le> x + p div x" by linarith
  then show ?thesis by linarith
qed (use assms in simp)

lemma sum_le_prod_Suc:
  fixes y q :: int
  shows "1 \<le> y \<Longrightarrow> 1 \<le> q \<Longrightarrow> y + q \<le> y * q + 1"
  using mult_nonneg_nonneg [of "y - 1" "q - 1"] by (simp add: algebra_simps)

text \<open>A loop of this shape, as \<open>i128\<close> code writes it, returns the integer square root.\<close>

lemma newton_loop_correct:
  fixes loop :: "int \<Rightarrow> int \<Rightarrow> ('e, int) outcome"
  assumes loop: "\<And>x y. loop x y =
     (if y < x then
        and_then (i128_div p y) (\<lambda>q.
        and_then (i128_add y q) (\<lambda>s.
        and_then (i128_div s 2) (\<lambda>y'. loop y y')))
      else Ok x)"
  shows "0 < p \<Longrightarrow> in_i128 (p + 1) \<Longrightarrow> 0 < x \<Longrightarrow> y = (x + p div x) div 2 \<Longrightarrow> x \<le> p \<Longrightarrow> p < (x + 1) * (x + 1) \<Longrightarrow>
    \<exists>r. loop x y = Ok r \<and> 0 < r \<and> r * r \<le> p \<and> p < (r + 1) * (r + 1)"
proof (induction "nat x" arbitrary: x y rule: less_induct)
  case (less x y)
  note pre = less.prems
  show ?case
  proof (cases "y < x")
    case False
    then have "loop x y = Ok x" by (subst loop) simp
    with False pre newton_stop [of p x y] show ?thesis by auto
  next
    case True
    define q where "q = p div y"
    define z where "z = (y + q) div 2"
    have y: "0 < y" using newton_pos [of p x] pre by simp
    have q: "1 \<le> q" using y True pre by (simp add: q_def int_one_le_iff_zero_less pos_imp_zdiv_pos_iff)
    have "y + q \<le> y * q + 1" using y q by (intro sum_le_prod_Suc) auto
    also have "y * q \<le> p" using div_mult_le [of y p] y by (simp add: q_def mult.commute)
    finally have yq: "y + q \<le> p + 1" by simp
    have r: "in_i128 q" "in_i128 (y + q)" "in_i128 z"
      using in_i128_le [OF pre(2)] y q yq by (auto simp: z_def)
    have s1: "i128_div p y = Ok q" and s2: "i128_add y q = Ok (y + q)" and s3: "i128_div (y + q) 2 = Ok z"
      using r y q(1) pre(1) by (simp_all add: q_def z_def)
    have "loop x y = loop y z" by (subst loop) (simp add: True s1 s2 s3)
    moreover have "\<exists>r. loop y z = Ok r \<and> 0 < r \<and> r * r \<le> p \<and> p < (r + 1) * (r + 1)"
    proof (rule less.hyps)
      show "p < (y + 1) * (y + 1)" using newton_upper [of p x] pre by simp
      show "nat y < nat x" "y \<le> p" using True y pre(5) by linarith+
      show "z = (y + p div y) div 2" by (simp only: z_def q_def)
    qed (fact pre(1,2) y)+
    ultimately show ?thesis by simp
  qed
qed

section \<open>Ruling out a trap\<close>

text \<open>
  \<open>never t r\<close>: the outcome \<open>r\<close> is not the trap \<open>t\<close>. The rules follow the structure of the code,
  so a proof is one pass of introduction rules that leaves the arithmetic side conditions.
\<close>

named_theorems never_intros \<open>structural rules for never\<close>

definition never :: "trap \<Rightarrow> ('e, 'a) outcome \<Rightarrow> bool" where
  "never t r \<longleftrightarrow> r \<noteq> Trap t"

lemma never_leaf [never_intros]: "never t (Ok x)" "never t (Err e)"
  by (simp_all add: never_def)

lemma never_Trap [never_intros]: "u \<noteq> t \<Longrightarrow> never t (Trap u)"
  by (simp add: never_def)

lemma never_and_then [never_intros]:
  "never t m \<Longrightarrow> (\<And>x. m = Ok x \<Longrightarrow> never t (f x)) \<Longrightarrow> never t (and_then m f)"
  by (auto simp: never_def)

lemma never_if [never_intros]:
  "(c \<Longrightarrow> never t a) \<Longrightarrow> (\<not> c \<Longrightarrow> never t b) \<Longrightarrow> never t (if c then a else b)"
  by simp

lemma never_option [never_intros]:
  "(m = None \<Longrightarrow> never t a) \<Longrightarrow> (\<And>x. m = Some x \<Longrightarrow> never t (b x)) \<Longrightarrow>
   never t (case m of None \<Rightarrow> a | Some x \<Rightarrow> b x)"
  by (cases m) simp_all

lemma never_prod [never_intros]:
  "(\<And>x y. p = (x, y) \<Longrightarrow> never t (f x y)) \<Longrightarrow> never t (case p of (x, y) \<Rightarrow> f x y)"
  by (cases p) simp

lemma never_ok_or [never_intros]: "never t (ok_or e m)"
  by (simp add: never_def)

lemma never_i128_div [never_intros]: "b \<noteq> 0 \<Longrightarrow> never DivideByZero (i128_div a b)"
  by (simp add: never_def)

lemma never_div0_arith [never_intros]:
  "never DivideByZero (i128_add a b)" "never DivideByZero (i128_sub a b)"
  "never DivideByZero (i128_mul a b)" "never DivideByZero (i128_clamp a b c)"
  "never DivideByZero (u64_add m n)" "never DivideByZero (u64_sub m n)"
  "never DivideByZero (u32_add m n)" "never DivideByZero (u32_sub m n)"
  by (simp_all add: never_def i128_clamp_def)

section \<open>The ledger environment\<close>

text \<open>
  Addresses are opaque in Soroban; contracts only compare them. \<open>auth\<close> says which addresses
  authorised the invocation (the host checks signatures and contract invokers).
\<close>

type_synonym address = nat

record env =
  timestamp :: nat
  sequence :: nat
  auth :: "address \<Rightarrow> bool"
  current_contract :: address

definition require_auth :: "env \<Rightarrow> address \<Rightarrow> ('e, unit) outcome" where
  "require_auth env a = (if auth env a then Ok () else Trap AuthFailure)"

lemma require_auth_Ok [simp]: "require_auth env a = Ok u \<longleftrightarrow> auth env a"
  and require_auth_Err [simp]: "require_auth env a \<noteq> Err e"
  and require_auth_Trap [simp]: "require_auth env a = Trap t \<longleftrightarrow> \<not> auth env a \<and> t = AuthFailure"
  by (auto simp: require_auth_def)

lemma never_require_auth [never_intros]: "t \<noteq> AuthFailure \<Longrightarrow> never t (require_auth env a)"
  by (simp add: never_def)

text \<open>A call into another contract: the calling contract itself counts as authorised.\<close>

definition subcall_env :: "env \<Rightarrow> address \<Rightarrow> env" where
  "subcall_env env callee =
     env\<lparr>auth := (auth env)(current_contract env := True), current_contract := callee\<rparr>"

lemma subcall_env_simps [simp]:
  "timestamp (subcall_env env c) = timestamp env"
  "sequence (subcall_env env c) = sequence env"
  "auth (subcall_env env c) a \<longleftrightarrow> a = current_contract env \<or> auth env a"
  "current_contract (subcall_env env c) = c"
  by (simp_all add: subcall_env_def)

text \<open>The type of the callee \<open>token::Client::transfer\<close> on a world of token contracts.\<close>

type_synonym 'w token_transfer = "address \<Rightarrow> env \<Rightarrow> address \<Rightarrow> address \<Rightarrow> int \<Rightarrow> 'w \<Rightarrow> 'w option"

text \<open>The environment of the concrete runs in the witnesses: everybody signs.\<close>

definition demo_env :: "nat \<Rightarrow> env" where
  "demo_env now = \<lparr>timestamp = now, sequence = 10, auth = (\<lambda>_. True), current_contract = 99\<rparr>"

section \<open>Balance maps\<close>

text \<open>\<open>bal m a\<close> is \<open>storage.get(key).unwrap_or(0)\<close>; \<open>total_bal m\<close> is the sum over all stored entries.\<close>

definition bal :: "('k \<rightharpoonup> int) \<Rightarrow> 'k \<Rightarrow> int" where
  "bal m a = unwrap_or 0 (m a)"

definition total_bal :: "('k \<rightharpoonup> int) \<Rightarrow> int" where
  "total_bal m = (\<Sum>a\<in>dom m. bal m a)"

lemma bal_upd [simp]: "bal (m(a \<mapsto> v)) b = (if a = b then v else bal m b)"
  by (simp add: bal_def)

lemma bal_empty [simp]: "bal Map.empty a = 0"
  by (simp add: bal_def)

lemma total_bal_empty [simp]: "total_bal Map.empty = 0"
  by (simp add: total_bal_def)

lemma bal_not_dom: "a \<notin> dom m \<Longrightarrow> bal m a = 0"
  by (auto simp: bal_def unwrap_or_def split: option.splits)

lemma total_bal_superset:
  "finite A \<Longrightarrow> dom m \<subseteq> A \<Longrightarrow> total_bal m = (\<Sum>a\<in>A. bal m a)"
  unfolding total_bal_def by (rule sum.mono_neutral_left) (auto intro: bal_not_dom)

lemma total_bal_upd [simp]:
  assumes "finite (dom m)"
  shows "total_bal (m(a \<mapsto> v)) = total_bal m - bal m a + v"
proof -
  let ?A = "insert a (dom m)"
  have fin: "finite ?A" using assms by simp
  have "total_bal (m(a \<mapsto> v)) = (\<Sum>b\<in>?A. bal (m(a \<mapsto> v)) b)"
    using fin by (intro total_bal_superset) auto
  also have "\<dots> = v + (\<Sum>b\<in>?A - {a}. bal (m(a \<mapsto> v)) b)"
    using fin by (subst sum.remove [of _ a]) auto
  also have "(\<Sum>b\<in>?A - {a}. bal (m(a \<mapsto> v)) b) = (\<Sum>b\<in>?A - {a}. bal m b)"
    by (intro sum.cong) auto
  also have "v + \<dots> = v + ((\<Sum>b\<in>?A. bal m b) - bal m a)"
    using fin by (subst sum.remove [of ?A a]) auto
  also have "(\<Sum>b\<in>?A. bal m b) = total_bal m"
    using fin by (intro total_bal_superset [symmetric]) auto
  finally show ?thesis by (simp add: fun_upd_def)
qed

lemma bal_del [simp]: "bal (m(a := None)) b = (if a = b then 0 else bal m b)"
  by (simp add: bal_def)

lemma total_bal_del [simp]:
  assumes "finite (dom m)"
  shows "total_bal (m(a := None)) = total_bal m - bal m a"
proof -
  have "total_bal (m(a := None)) = (\<Sum>b\<in>insert a (dom m). bal (m(a \<mapsto> 0)) b)"
    using assms by (subst total_bal_superset [of "insert a (dom m)"]) (auto intro!: sum.cong)
  also have "\<dots> = total_bal (m(a \<mapsto> 0))"
    using assms by (intro total_bal_superset [symmetric]) auto
  finally show ?thesis using assms by (simp del: fun_upd_apply)
qed

lemma total_bal_nonneg: "(\<And>a. 0 \<le> bal m a) \<Longrightarrow> 0 \<le> total_bal m"
  by (simp add: total_bal_def sum_nonneg)

lemma bal_le_total:
  assumes "finite (dom m)" "\<And>a. 0 \<le> bal m a"
  shows "bal m a \<le> total_bal m"
proof (cases "a \<in> dom m")
  case True
  then show ?thesis
    unfolding total_bal_def using assms by (intro member_le_sum) auto
next
  case False
  then show ?thesis using assms(2) by (simp add: bal_not_dom total_bal_nonneg)
qed

text \<open>A quantity of the values of a map, added up; replacing one value changes the sum by the difference.\<close>

definition total_of :: "('v \<Rightarrow> int) \<Rightarrow> ('k \<rightharpoonup> 'v) \<Rightarrow> int" where
  "total_of f m = total_bal (\<lambda>k. map_option f (m k))"

definition value_at :: "('v \<Rightarrow> int) \<Rightarrow> 'v option \<Rightarrow> int" where
  "value_at f v = (case v of None \<Rightarrow> 0 | Some x \<Rightarrow> f x)"

lemma value_at_simps [simp]: "value_at f None = 0" "value_at f (Some x) = f x"
  by (simp_all add: value_at_def)

lemma total_of_empty [simp]: "total_of f Map.empty = 0"
  by (simp add: total_of_def total_bal_def)

lemma total_of_upd:
  assumes "finite (dom m)"
  shows "total_of f (m(k := v)) = total_of f m - value_at f (m k) + value_at f v"
proof -
  let ?m = "\<lambda>k. map_option f (m k)"
  have fin: "finite (dom ?m)" using assms by (simp add: dom_def)
  have eq: "(\<lambda>j. map_option f ((m(k := v)) j)) = ?m(k := map_option f v)" by auto
  have b: "bal ?m k = value_at f (m k)" by (simp add: bal_def value_at_def split: option.split)
  show ?thesis
    unfolding total_of_def eq using total_bal_upd [OF fin, of k] total_bal_del [OF fin, of k]
    by (cases v) (simp_all add: b del: fun_upd_apply)
qed

lemma total_of_nonneg: "(\<And>k x. m k = Some x \<Longrightarrow> 0 \<le> f x) \<Longrightarrow> 0 \<le> total_of f m"
  unfolding total_of_def by (rule total_bal_nonneg) (auto simp: bal_def unwrap_or_def split: option.split)

lemma total_of_ge:
  assumes "finite (dom m)" "m k = Some v" "\<And>j x. m j = Some x \<Longrightarrow> 0 \<le> f x"
  shows "f v \<le> total_of f m"
proof -
  have "0 \<le> total_of f (m(k := None))" by (rule total_of_nonneg) (use assms(3) in \<open>auto split: if_splits\<close>)
  then show ?thesis using total_of_upd [OF assms(1), of f k None] assms(2) by simp
qed

lemma total_of_zero: "(\<And>k x. m k = Some x \<Longrightarrow> f x = 0) \<Longrightarrow> total_of f m = 0"
  unfolding total_of_def total_bal_def
  by (rule sum.neutral) (auto simp: bal_def unwrap_or_def)

lemma total_of_sum: "total_of f m = (\<Sum>k\<in>dom m. value_at f (m k))"
  unfolding total_of_def total_bal_def
  by (intro sum.cong) (auto simp: bal_def value_at_def dom_def split: option.split)

lemma total_of_mono: "(\<And>k x. m k = Some x \<Longrightarrow> f x \<le> g x) \<Longrightarrow> total_of f m \<le> total_of g m"
  unfolding total_of_sum by (rule sum_mono) (auto simp: value_at_def)

lemma total_of_cong: "(\<And>k x. m k = Some x \<Longrightarrow> f x = g x) \<Longrightarrow> total_of f m = total_of g m"
  unfolding total_of_sum by (rule sum.cong) (auto simp: value_at_def)

lemma total_of_add: "total_of (\<lambda>x. f x + g x) m = total_of f m + total_of g m"
  unfolding total_of_sum sum.distrib [symmetric] by (rule sum.cong) (auto simp: value_at_def)

text \<open>Shares rounded down never add up to more than what is shared.\<close>

lemma total_of_floor_le:
  assumes "total_of w m = F" "0 < F"
  shows "total_of (\<lambda>x. A * w x div F) m \<le> A"
proof -
  have "total_of (\<lambda>x. A * w x div F) m * F = (\<Sum>k\<in>dom m. value_at (\<lambda>x. A * w x div F) (m k) * F)"
    unfolding total_of_sum by (rule sum_distrib_right)
  also have "\<dots> \<le> (\<Sum>k\<in>dom m. A * value_at w (m k))"
    by (rule sum_mono) (auto simp: value_at_def div_mult_le [OF assms(2)])
  also have "\<dots> = A * F" unfolding sum_distrib_left [symmetric] total_of_sum [symmetric] assms(1) ..
  finally show ?thesis using assms(2) by simp
qed

section \<open>Contracts as state machines\<close>

text \<open>
  A contract with its initial storage, its step relation (one successful invocation) and an
  invariant. Interpreted for every contract model.
\<close>

locale contract_machine =
  fixes init :: 's and step :: "'s \<Rightarrow> 's \<Rightarrow> bool" and Inv :: "'s \<Rightarrow> bool"
  assumes init_Inv: "Inv init"
    and step_Inv: "Inv s \<Longrightarrow> step s t \<Longrightarrow> Inv t"
begin

lemma run_Inv: "step\<^sup>*\<^sup>* s t \<Longrightarrow> Inv s \<Longrightarrow> Inv t"
  by (induction rule: rtranclp_induct) (auto intro: step_Inv)

lemma reachable_Inv: "step\<^sup>*\<^sup>* init s \<Longrightarrow> Inv s"
  by (rule run_Inv [OF _ init_Inv])

lemma run_preserves:
  assumes "step\<^sup>*\<^sup>* s t" "Inv s" "P s" "\<And>u v. Inv u \<Longrightarrow> P u \<Longrightarrow> step u v \<Longrightarrow> P v"
  shows "P t"
  using assms(1)
proof (induction rule: rtranclp_induct)
  case base
  show ?case by (rule assms(3))
next
  case (step u v)
  then show ?case using assms(4) run_Inv [OF step.hyps(1) assms(2)] by blast
qed

end

text \<open>A machine with a quantity that no step decreases.\<close>

locale monotone_machine = contract_machine init step Inv
  for init :: 's and step :: "'s \<Rightarrow> 's \<Rightarrow> bool" and Inv :: "'s \<Rightarrow> bool" +
  fixes measure_of :: "'s \<Rightarrow> 'm::preorder"
  assumes step_mono: "Inv s \<Longrightarrow> step s t \<Longrightarrow> measure_of s \<le> measure_of t"
begin

lemma run_mono: "step\<^sup>*\<^sup>* s t \<Longrightarrow> Inv s \<Longrightarrow> measure_of s \<le> measure_of t"
  by (induction rule: rtranclp_induct) (auto intro: step_mono run_Inv order_trans)

end

end
