(* ===== verification/Amm_Pool.thy ===== *)
theory Amm_Pool
  imports Soroban_Prelude
begin

text \<open>
  The constant-product pool of \<open>contracts/amm-pool\<close>: storage (\<open>src/storage.rs\<close>,
  \<open>src/types.rs\<close>), the fee, quote and volatility helpers, and every entry point of
  \<open>src/lib.rs\<close>. Each storage key is a field of \<open>amm_state\<close> holding \<open>None\<close> while the key is
  absent; published events are appended to \<open>events\<close>. Entry points that share the name of a
  storage accessor are called \<open>pub_...\<close>.
\<close>

section \<open>Types and storage\<close>

datatype amm_error =
    AlreadyInitialized | NotInitialized | Unauthorized | ZeroAmount | InsufficientLiquidity
  | SlippageExceeded | InsufficientLpBalance | InvalidToken | Overflow | ZeroOutput | InvalidFee
  | InvalidDynamicFeeConfig | PriceImpactExceeded | FeeLimitExceeded | DeadlineExpired

record CollectionStats =
  floor_price :: int
  ceiling_price :: int
  total_volume :: int
  trade_count :: nat
  unique_holders :: nat
  last_update :: nat

record DynamicFeeConfig =
  min_fee_bps :: int
  max_fee_bps :: int
  volatility_multiplier_bps :: int
  utilization_multiplier_bps :: int
  ema_alpha_bps :: int
  volatility_window :: nat
  max_price_impact_bps :: int

record VolatilityState =
  ema_volatility_bps :: int
  last_price :: int
  last_timestamp :: nat

record SwapQuote =
  amount_out :: int
  fee_bps :: int
  price_impact_bps :: int
  volatility_bps :: int
  utilization_bps :: int

datatype amm_event =
    Ev_dynfee_config DynamicFeeConfig
  | Ev_dynfee_off
  | Ev_nft_init address
  | Ev_add_liq int
  | Ev_rm_liq int
  | Ev_swap int
  | Ev_fee_curve int int int int
  | Ev_floor_upd int

record amm_state =
  Admin :: "address option"
  TokenA :: "address option"
  TokenB :: "address option"
  ReserveA :: "int option"
  ReserveB :: "int option"
  TotalLp :: "int option"
  PriceACum :: "int option"
  PriceBCum :: "int option"
  LastTimestamp :: "nat option"
  FeeBps :: "int option"
  NftCollection :: "address option"
  TotalVolume :: "int option"
  TotalFees :: "int option"
  DynFeeConfig :: "DynamicFeeConfig option"
  VolState :: "VolatilityState option"
  Lp :: "address \<rightharpoonup> int"
  NftFloorPrice :: "int option"
  Stats :: "CollectionStats option"
  events :: "amm_event list"

definition empty_pool :: amm_state where
  "empty_pool = \<lparr>Admin = None, TokenA = None, TokenB = None, ReserveA = None, ReserveB = None,
     TotalLp = None, PriceACum = None, PriceBCum = None, LastTimestamp = None, FeeBps = None,
     NftCollection = None, TotalVolume = None, TotalFees = None, DynFeeConfig = None,
     VolState = None, Lp = Map.empty, NftFloorPrice = None, Stats = None, events = []\<rparr>"

definition publish :: "amm_event \<Rightarrow> amm_state \<Rightarrow> amm_state" where
  "publish e s = s\<lparr>events := events s @ [e]\<rparr>"

definition is_initialized :: "amm_state \<Rightarrow> bool" where
  "is_initialized s = (Admin s \<noteq> None)"

definition set_admin :: "address \<Rightarrow> amm_state \<Rightarrow> amm_state" where
  "set_admin a s = s\<lparr>Admin := Some a\<rparr>"
definition get_admin :: "amm_state \<Rightarrow> (amm_error, address) outcome" where
  "get_admin s = ok_or NotInitialized (Admin s)"

definition set_token_a :: "address \<Rightarrow> amm_state \<Rightarrow> amm_state" where
  "set_token_a a s = s\<lparr>TokenA := Some a\<rparr>"
definition get_token_a :: "amm_state \<Rightarrow> (amm_error, address) outcome" where
  "get_token_a s = ok_or NotInitialized (TokenA s)"

definition set_token_b :: "address \<Rightarrow> amm_state \<Rightarrow> amm_state" where
  "set_token_b a s = s\<lparr>TokenB := Some a\<rparr>"
definition get_token_b :: "amm_state \<Rightarrow> (amm_error, address) outcome" where
  "get_token_b s = ok_or NotInitialized (TokenB s)"

definition get_reserve_a :: "amm_state \<Rightarrow> int" where
  "get_reserve_a s = unwrap_or 0 (ReserveA s)"
definition set_reserve_a :: "int \<Rightarrow> amm_state \<Rightarrow> amm_state" where
  "set_reserve_a v s = s\<lparr>ReserveA := Some v\<rparr>"
definition get_reserve_b :: "amm_state \<Rightarrow> int" where
  "get_reserve_b s = unwrap_or 0 (ReserveB s)"
definition set_reserve_b :: "int \<Rightarrow> amm_state \<Rightarrow> amm_state" where
  "set_reserve_b v s = s\<lparr>ReserveB := Some v\<rparr>"
definition get_total_lp :: "amm_state \<Rightarrow> int" where
  "get_total_lp s = unwrap_or 0 (TotalLp s)"
definition set_total_lp :: "int \<Rightarrow> amm_state \<Rightarrow> amm_state" where
  "set_total_lp v s = s\<lparr>TotalLp := Some v\<rparr>"
definition get_price_a_cum :: "amm_state \<Rightarrow> int" where
  "get_price_a_cum s = unwrap_or 0 (PriceACum s)"
definition set_price_a_cum :: "int \<Rightarrow> amm_state \<Rightarrow> amm_state" where
  "set_price_a_cum v s = s\<lparr>PriceACum := Some v\<rparr>"
definition get_price_b_cum :: "amm_state \<Rightarrow> int" where
  "get_price_b_cum s = unwrap_or 0 (PriceBCum s)"
definition set_price_b_cum :: "int \<Rightarrow> amm_state \<Rightarrow> amm_state" where
  "set_price_b_cum v s = s\<lparr>PriceBCum := Some v\<rparr>"
definition get_last_ts :: "amm_state \<Rightarrow> nat" where
  "get_last_ts s = unwrap_or 0 (LastTimestamp s)"
definition set_last_ts :: "nat \<Rightarrow> amm_state \<Rightarrow> amm_state" where
  "set_last_ts v s = s\<lparr>LastTimestamp := Some v\<rparr>"
definition get_fee_bps :: "amm_state \<Rightarrow> int" where
  "get_fee_bps s = unwrap_or 30 (FeeBps s)"
definition set_fee_bps :: "int \<Rightarrow> amm_state \<Rightarrow> amm_state" where
  "set_fee_bps v s = s\<lparr>FeeBps := Some v\<rparr>"

definition get_dynamic_fee_config :: "amm_state \<Rightarrow> DynamicFeeConfig option" where
  "get_dynamic_fee_config s = DynFeeConfig s"
definition set_dynamic_fee_config :: "DynamicFeeConfig \<Rightarrow> amm_state \<Rightarrow> amm_state" where
  "set_dynamic_fee_config c s = s\<lparr>DynFeeConfig := Some c\<rparr>"
definition remove_dynamic_fee_config :: "amm_state \<Rightarrow> amm_state" where
  "remove_dynamic_fee_config s = s\<lparr>DynFeeConfig := None\<rparr>"

definition get_volatility_state :: "env \<Rightarrow> amm_state \<Rightarrow> VolatilityState" where
  "get_volatility_state env s =
     unwrap_or \<lparr>ema_volatility_bps = 0, last_price = 0, last_timestamp = timestamp env\<rparr> (VolState s)"
definition set_volatility_state :: "VolatilityState \<Rightarrow> amm_state \<Rightarrow> amm_state" where
  "set_volatility_state v s = s\<lparr>VolState := Some v\<rparr>"

definition get_lp :: "amm_state \<Rightarrow> address \<Rightarrow> int" where
  "get_lp s a = bal (Lp s) a"
definition set_lp :: "address \<Rightarrow> int \<Rightarrow> amm_state \<Rightarrow> amm_state" where
  "set_lp a v s = s\<lparr>Lp := (Lp s)(a \<mapsto> v)\<rparr>"

definition get_nft_collection :: "amm_state \<Rightarrow> address option" where
  "get_nft_collection s = NftCollection s"
definition set_nft_collection :: "address \<Rightarrow> amm_state \<Rightarrow> amm_state" where
  "set_nft_collection v s = s\<lparr>NftCollection := Some v\<rparr>"
definition get_total_volume :: "amm_state \<Rightarrow> int" where
  "get_total_volume s = unwrap_or 0 (TotalVolume s)"
definition set_total_volume :: "int \<Rightarrow> amm_state \<Rightarrow> amm_state" where
  "set_total_volume v s = s\<lparr>TotalVolume := Some v\<rparr>"
definition get_total_fees :: "amm_state \<Rightarrow> int" where
  "get_total_fees s = unwrap_or 0 (TotalFees s)"
definition set_total_fees :: "int \<Rightarrow> amm_state \<Rightarrow> amm_state" where
  "set_total_fees v s = s\<lparr>TotalFees := Some v\<rparr>"

definition get_collection_stats :: "amm_state \<Rightarrow> CollectionStats option" where
  "get_collection_stats s = Stats s"
definition set_collection_stats :: "CollectionStats \<Rightarrow> amm_state \<Rightarrow> amm_state" where
  "set_collection_stats v s = s\<lparr>Stats := Some v\<rparr>"
definition get_floor_price :: "amm_state \<Rightarrow> int" where
  "get_floor_price s = unwrap_or 0 (NftFloorPrice s)"
definition set_floor_price :: "int \<Rightarrow> amm_state \<Rightarrow> amm_state" where
  "set_floor_price v s = s\<lparr>NftFloorPrice := Some v\<rparr>"

lemmas amm_getters =
  is_initialized_def get_admin_def get_token_a_def get_token_b_def get_reserve_a_def
  get_reserve_b_def get_total_lp_def get_price_a_cum_def get_price_b_cum_def get_last_ts_def
  get_fee_bps_def get_dynamic_fee_config_def get_volatility_state_def get_lp_def
  get_nft_collection_def get_total_volume_def get_total_fees_def get_collection_stats_def
  get_floor_price_def

lemmas amm_setters =
  set_admin_def set_token_a_def set_token_b_def set_reserve_a_def set_reserve_b_def
  set_total_lp_def set_price_a_cum_def set_price_b_cum_def set_last_ts_def set_fee_bps_def
  set_dynamic_fee_config_def remove_dynamic_fee_config_def set_volatility_state_def set_lp_def
  set_nft_collection_def set_total_volume_def set_total_fees_def set_collection_stats_def
  set_floor_price_def publish_def

section \<open>Private helpers\<close>

definition MIN_LIQUIDITY :: int where "MIN_LIQUIDITY = 1000"
definition TWAP_PRECISION :: int where "TWAP_PRECISION = 1000000"
definition PRICE_PRECISION :: int where "PRICE_PRECISION = 10000000"
definition BPS :: int where "BPS = 10000"

lemmas amm_consts = MIN_LIQUIDITY_def TWAP_PRECISION_def PRICE_PRECISION_def BPS_def

definition ensure_initialized :: "amm_state \<Rightarrow> (amm_error, unit) outcome" where
  "ensure_initialized s = (if \<not> is_initialized s then Err NotInitialized else Ok ())"

definition ensure_admin :: "env \<Rightarrow> address \<Rightarrow> amm_state \<Rightarrow> (amm_error, unit) outcome" where
  "ensure_admin env a s =
     and_then (ensure_initialized s) (\<lambda>_.
     and_then (require_auth env a) (\<lambda>_.
     and_then (get_admin s) (\<lambda>stored.
     if stored \<noteq> a then Err Unauthorized else Ok ())))"

definition validate_fee :: "int \<Rightarrow> (amm_error, unit) outcome" where
  "validate_fee fee = (if \<not> (0 \<le> fee \<and> fee < BPS) then Err InvalidFee else Ok ())"

definition validate_dynamic_config :: "DynamicFeeConfig \<Rightarrow> (amm_error, unit) outcome" where
  "validate_dynamic_config c =
     (if min_fee_bps c < 0
         \<or> max_fee_bps c \<ge> BPS
         \<or> min_fee_bps c > max_fee_bps c
         \<or> \<not> (0 \<le> volatility_multiplier_bps c \<and> volatility_multiplier_bps c \<le> BPS)
         \<or> \<not> (0 \<le> utilization_multiplier_bps c \<and> utilization_multiplier_bps c \<le> BPS)
         \<or> \<not> (1 \<le> ema_alpha_bps c \<and> ema_alpha_bps c \<le> BPS)
         \<or> volatility_window c = 0
         \<or> \<not> (1 \<le> max_price_impact_bps c \<and> max_price_impact_bps c \<le> BPS)
      then Err InvalidDynamicFeeConfig else Ok ())"

definition reserves_for_token_in ::
    "address \<Rightarrow> amm_state \<Rightarrow> (amm_error, int \<times> int \<times> bool) outcome" where
  "reserves_for_token_in token_in s =
     and_then (get_token_a s) (\<lambda>token_a.
     and_then (get_token_b s) (\<lambda>token_b.
     if token_in = token_a then Ok (get_reserve_a s, get_reserve_b s, True)
     else if token_in = token_b then Ok (get_reserve_b s, get_reserve_a s, False)
     else Err InvalidToken))"

definition record_swap_metrics ::
    "int \<Rightarrow> int \<Rightarrow> amm_state \<Rightarrow> (amm_error, amm_state) outcome" where
  "record_swap_metrics amount_in fee s =
     and_then (ok_or Overflow (checked_mul amount_in fee)) (\<lambda>m.
     and_then (i128_div m 10000) (\<lambda>fee_amount.
     and_then (ok_or Overflow (checked_add (get_total_volume s) amount_in)) (\<lambda>v.
     let s1 = set_total_volume v s in
     and_then (ok_or Overflow (checked_add (get_total_fees s1) fee_amount)) (\<lambda>f.
     Ok (set_total_fees f s1)))))"

definition decayed_volatility ::
    "env \<Rightarrow> DynamicFeeConfig \<Rightarrow> amm_state \<Rightarrow> (amm_error, int) outcome" where
  "decayed_volatility env c s =
     (let state = get_volatility_state env s;
          elapsed = u64_saturating_sub (timestamp env) (last_timestamp state)
      in if elapsed \<ge> volatility_window c then Ok 0
         else and_then (u64_sub (volatility_window c) elapsed) (\<lambda>left.
              ok_or Overflow
                (Option.bind (checked_mul (ema_volatility_bps state) (int left)) (\<lambda>value.
                 checked_div value (int (volatility_window c))))))"

definition utilization_of :: "int \<Rightarrow> int \<Rightarrow> (amm_error, int) outcome" where
  "utilization_of amount_in reserve_in =
     and_then (ok_or Overflow (checked_add reserve_in amount_in)) (\<lambda>denominator.
     ok_or Overflow
       (Option.bind (checked_mul amount_in BPS) (\<lambda>value. checked_div value denominator)))"

definition effective_fee ::
    "env \<Rightarrow> int \<Rightarrow> int \<Rightarrow> amm_state \<Rightarrow> (amm_error, int \<times> int \<times> int) outcome" where
  "effective_fee env amount_in reserve_in s =
     and_then (utilization_of amount_in reserve_in) (\<lambda>utilization.
     case get_dynamic_fee_config s of
       None \<Rightarrow> Ok (get_fee_bps s, 0, utilization)
     | Some config \<Rightarrow>
         and_then (decayed_volatility env config s) (\<lambda>volatility.
         and_then (ok_or Overflow
           (Option.bind (checked_mul volatility (volatility_multiplier_bps config)) (\<lambda>value.
            checked_div value BPS))) (\<lambda>volatility_fee.
         and_then (ok_or Overflow
           (Option.bind (checked_mul utilization (utilization_multiplier_bps config)) (\<lambda>value.
            checked_div value BPS))) (\<lambda>utilization_fee.
         and_then (ok_or Overflow
           (Option.bind (checked_add (get_fee_bps s) volatility_fee) (\<lambda>value.
            checked_add value utilization_fee))) (\<lambda>sum.
         and_then (i128_clamp sum (min_fee_bps config) (max_fee_bps config)) (\<lambda>fee.
         Ok (fee, volatility, utilization)))))))"

definition constant_product_amount_out ::
    "int \<Rightarrow> int \<Rightarrow> int \<Rightarrow> int \<Rightarrow> (amm_error, int) outcome" where
  "constant_product_amount_out amount_in ra rb fee =
     (if ra = 0 \<or> rb = 0 then Err InsufficientLiquidity
      else
        and_then (i128_sub 10000 fee) (\<lambda>fee_factor.
        and_then (ok_or Overflow (checked_mul amount_in fee_factor)) (\<lambda>x.
        and_then (ok_or Overflow (checked_mul x rb)) (\<lambda>numerator.
        and_then (ok_or Overflow (checked_mul ra 10000)) (\<lambda>y.
        and_then (ok_or Overflow (checked_mul amount_in fee_factor)) (\<lambda>z.
        and_then (ok_or Overflow (checked_add y z)) (\<lambda>denominator.
        i128_div numerator denominator)))))))"

definition build_swap_quote ::
    "env \<Rightarrow> int \<Rightarrow> int \<Rightarrow> int \<Rightarrow> amm_state \<Rightarrow> (amm_error, SwapQuote) outcome" where
  "build_swap_quote env amount_in reserve_in reserve_out s =
     (if amount_in \<le> 0 then Err ZeroAmount
      else if reserve_in \<le> 0 \<or> reserve_out \<le> 0 then Err InsufficientLiquidity
      else
        and_then (effective_fee env amount_in reserve_in s) (\<lambda>(fee, vol, util).
        and_then (constant_product_amount_out amount_in reserve_in reserve_out fee) (\<lambda>out.
        if out = 0 then Err ZeroOutput
        else
          and_then (ok_or Overflow
            (Option.bind (checked_mul amount_in reserve_out) (\<lambda>value.
             checked_div value reserve_in))) (\<lambda>ideal_out.
          and_then
            (if ideal_out = 0 \<or> out \<ge> ideal_out then Ok 0
             else ok_or Overflow
               (Option.bind (checked_sub ideal_out out) (\<lambda>difference.
                Option.bind (checked_mul difference BPS) (\<lambda>value.
                checked_div value ideal_out)))) (\<lambda>impact.
          Ok \<lparr>amount_out = out, fee_bps = fee, price_impact_bps = impact,
              volatility_bps = vol, utilization_bps = util\<rparr>)))))"

definition spot_price :: "int \<Rightarrow> int \<Rightarrow> (amm_error, int) outcome" where
  "spot_price reserve_a reserve_b =
     (if reserve_a \<le> 0 \<or> reserve_b \<le> 0 then Err InsufficientLiquidity
      else ok_or Overflow
        (Option.bind (checked_mul reserve_b PRICE_PRECISION) (\<lambda>value.
         checked_div value reserve_a)))"

text \<open>
  \<open>price.abs_diff(last_price)\<close> is a \<open>u128\<close>; \<open>last_price as u128\<close> reinterprets the two's
  complement bits, so a negative price would become \<open>2 ^ 128 + last_price\<close>.
\<close>

definition as_u128 :: "int \<Rightarrow> nat" where
  "as_u128 x = nat (if x < 0 then 2 ^ 128 + x else x)"

definition update_volatility ::
    "env \<Rightarrow> int \<Rightarrow> int \<Rightarrow> amm_state \<Rightarrow> (amm_error, amm_state) outcome" where
  "update_volatility env reserve_a reserve_b s =
     (case get_dynamic_fee_config s of
        None \<Rightarrow> Ok s
      | Some config \<Rightarrow>
          and_then (spot_price reserve_a reserve_b) (\<lambda>price.
          let state = get_volatility_state env s in
          and_then (decayed_volatility env config s) (\<lambda>recent_volatility.
          and_then
            (if last_price state = 0 then Ok 0
             else and_then (ok_or Overflow
               (Option.bind (u128_checked_mul (nat \<bar>price - last_price state\<bar>) (nat BPS)) (\<lambda>value.
                Option.bind (u128_checked_div value (as_u128 (last_price state))) (\<lambda>value.
                i128_of_u128 value)))) (\<lambda>r. Ok (min r BPS))) (\<lambda>absolute_return.
          and_then (i128_sub BPS (ema_alpha_bps config)) (\<lambda>keep.
          and_then (ok_or Overflow (checked_mul recent_volatility keep)) (\<lambda>retained.
          and_then (ok_or Overflow (checked_mul absolute_return (ema_alpha_bps config))) (\<lambda>latest.
          and_then (ok_or Overflow
            (Option.bind (checked_add retained latest) (\<lambda>value. checked_div value BPS))) (\<lambda>ema.
          Ok (set_volatility_state
                (state\<lparr>ema_volatility_bps := ema, last_price := price,
                       last_timestamp := timestamp env\<rparr>) s)))))))))"

text \<open>The products saturate; the two divisions are plain \<open>/\<close>.\<close>

definition update_twap ::
    "env \<Rightarrow> int \<Rightarrow> int \<Rightarrow> amm_state \<Rightarrow> (amm_error, amm_state) outcome" where
  "update_twap env ra rb s =
     (let now = timestamp env; last = get_last_ts s in
      if now \<le> last \<or> ra = 0 \<or> rb = 0 then Ok (set_last_ts now s)
      else
        let elapsed = int (now - last) in
        and_then (i128_div (saturating_mul rb TWAP_PRECISION) ra) (\<lambda>price_a.
        and_then (i128_div (saturating_mul ra TWAP_PRECISION) rb) (\<lambda>price_b.
        let s1 = set_price_a_cum
                   (saturating_add (get_price_a_cum s) (saturating_mul price_a elapsed)) s;
            s2 = set_price_b_cum
                   (saturating_add (get_price_b_cum s1) (saturating_mul price_b elapsed)) s1
        in Ok (set_last_ts now s2))))"

text \<open>The Babylonian loop of \<open>isqrt\<close>; every \<open>x + product / x\<close> is a checked addition.\<close>

function isqrt_loop :: "int \<Rightarrow> int \<Rightarrow> int \<Rightarrow> (amm_error, int) outcome" where
  "isqrt_loop product x y =
     (if y < x then
        and_then (i128_div product y) (\<lambda>q.
        and_then (i128_add y q) (\<lambda>s.
        and_then (i128_div s 2) (\<lambda>y'. isqrt_loop product y y')))
      else Ok x)"
  by pat_completeness auto
termination
  by (relation "measure (\<lambda>(p, x, y). if y < x then Suc (nat (x - i128_min)) else 0)")
    (auto simp: in_i128_def)

declare isqrt_loop.simps [simp del]

definition isqrt :: "int \<Rightarrow> int \<Rightarrow> (amm_error, int) outcome" where
  "isqrt a b =
     and_then (ok_or Overflow (checked_mul a b)) (\<lambda>product.
     if product = 0 then Ok 0
     else
       let x = product in
       and_then (i128_add x 1) (\<lambda>x1.
       and_then (i128_div x1 2) (\<lambda>y. isqrt_loop product x y)))"

text \<open>
  \<open>execute_swap\<close> in two parts: the checks and the quote, then \<open>commit_swap\<close>, which writes the
  reserves and the bookkeeping and publishes the events.
\<close>

definition commit_swap ::
    "env \<Rightarrow> bool \<Rightarrow> int \<Rightarrow> int \<Rightarrow> int \<Rightarrow> SwapQuote \<Rightarrow> amm_state
     \<Rightarrow> (amm_error, int \<times> amm_state) outcome" where
  "commit_swap env a_to_b reserve_in reserve_out amount_in quote s =
     (let old_reserve_a = get_reserve_a s; old_reserve_b = get_reserve_b s in
      and_then
        (if a_to_b then
           and_then (ok_or Overflow (checked_add reserve_in amount_in)) (\<lambda>ra.
           and_then (ok_or Overflow (checked_sub reserve_out (amount_out quote))) (\<lambda>rb.
           Ok (ra, rb)))
         else
           and_then (ok_or Overflow (checked_sub reserve_out (amount_out quote))) (\<lambda>ra.
           and_then (ok_or Overflow (checked_add reserve_in amount_in)) (\<lambda>rb.
           Ok (ra, rb)))) (\<lambda>(new_reserve_a, new_reserve_b).
      let s1 = set_reserve_b new_reserve_b (set_reserve_a new_reserve_a s) in
      and_then (update_twap env old_reserve_a old_reserve_b s1) (\<lambda>s2.
      and_then (update_volatility env new_reserve_a new_reserve_b s2) (\<lambda>s3.
      and_then (record_swap_metrics amount_in (fee_bps quote) s3) (\<lambda>s4.
      let s5 = publish (Ev_swap (amount_out quote)) s4;
          s6 = (if get_dynamic_fee_config s5 \<noteq> None
                then publish (Ev_fee_curve (fee_bps quote) (volatility_bps quote)
                                (utilization_bps quote) (price_impact_bps quote)) s5
                else s5)
      in Ok (amount_out quote, s6))))))"

definition execute_swap ::
    "env \<Rightarrow> address \<Rightarrow> int \<Rightarrow> int \<Rightarrow> int option \<Rightarrow> nat option \<Rightarrow> amm_state
     \<Rightarrow> (amm_error, int \<times> amm_state) outcome" where
  "execute_swap env token_in amount_in min_out max_fee deadline s =
     (if (case deadline of None \<Rightarrow> False | Some value \<Rightarrow> timestamp env > value)
      then Err DeadlineExpired
      else
        and_then (reserves_for_token_in token_in s) (\<lambda>(reserve_in, reserve_out, a_to_b).
        and_then (build_swap_quote env amount_in reserve_in reserve_out s) (\<lambda>quote.
        if (case max_fee of None \<Rightarrow> False | Some limit \<Rightarrow> fee_bps quote > limit)
        then Err FeeLimitExceeded
        else if amount_out quote < min_out then Err SlippageExceeded
        else if (case get_dynamic_fee_config s of None \<Rightarrow> False
                 | Some config \<Rightarrow> price_impact_bps quote > max_price_impact_bps config)
        then Err PriceImpactExceeded
        else commit_swap env a_to_b reserve_in reserve_out amount_in quote s)))"

section \<open>Entry points\<close>

definition initialize ::
    "env \<Rightarrow> address \<Rightarrow> address \<Rightarrow> address \<Rightarrow> int option \<Rightarrow> amm_state
     \<Rightarrow> (amm_error, unit \<times> amm_state) outcome" where
  "initialize env admin token_a token_b fee s =
     (if is_initialized s then Err AlreadyInitialized
      else
        and_then (require_auth env admin) (\<lambda>_.
        if token_a = token_b then Err InvalidToken
        else
          let configured_fee = unwrap_or 30 fee in
          and_then (validate_fee configured_fee) (\<lambda>_.
          let s1 = set_admin admin s;
              s2 = set_token_a token_a s1;
              s3 = set_token_b token_b s2;
              s4 = set_fee_bps configured_fee s3;
              s5 = set_last_ts (timestamp env) s4
          in Ok ((), s5))))"

definition configure_dynamic_fees ::
    "env \<Rightarrow> address \<Rightarrow> DynamicFeeConfig \<Rightarrow> amm_state \<Rightarrow> (amm_error, unit \<times> amm_state) outcome" where
  "configure_dynamic_fees env admin config s =
     and_then (ensure_admin env admin s) (\<lambda>_.
     and_then (validate_dynamic_config config) (\<lambda>_.
     let s1 = set_dynamic_fee_config config s;
         ra = get_reserve_a s1;
         rb = get_reserve_b s1;
         state = get_volatility_state env s1
     in and_then
          (if last_price state = 0 \<and> ra > 0 \<and> rb > 0 then
             and_then (spot_price ra rb) (\<lambda>p.
             Ok (set_volatility_state
                   (state\<lparr>last_price := p, last_timestamp := timestamp env\<rparr>) s1))
           else Ok s1) (\<lambda>s2.
        Ok ((), publish (Ev_dynfee_config config) s2))))"

definition disable_dynamic_fees ::
    "env \<Rightarrow> address \<Rightarrow> amm_state \<Rightarrow> (amm_error, unit \<times> amm_state) outcome" where
  "disable_dynamic_fees env admin s =
     and_then (ensure_admin env admin s) (\<lambda>_.
     let s1 = remove_dynamic_fee_config s in
     Ok ((), publish Ev_dynfee_off s1))"

definition initialize_nft ::
    "env \<Rightarrow> address \<Rightarrow> address \<Rightarrow> address \<Rightarrow> address \<Rightarrow> int option \<Rightarrow> amm_state
     \<Rightarrow> (amm_error, unit \<times> amm_state) outcome" where
  "initialize_nft env admin token_a token_b nft_collection fee s =
     and_then
       (if \<not> is_initialized s then initialize env admin token_a token_b fee s
        else Ok ((), s)) (\<lambda>(_, s1).
     let s2 = set_nft_collection nft_collection s1;
         stats = \<lparr>floor_price = 0, ceiling_price = 0, total_volume = 0, trade_count = 0,
                  unique_holders = 0, last_update = timestamp env\<rparr>;
         s3 = set_collection_stats stats s2
     in Ok ((), publish (Ev_nft_init nft_collection) s3))"

definition add_liquidity ::
    "env \<Rightarrow> address \<Rightarrow> int \<Rightarrow> int \<Rightarrow> int \<Rightarrow> amm_state \<Rightarrow> (amm_error, int \<times> amm_state) outcome" where
  "add_liquidity env provider amount_a amount_b min_lp s =
     and_then (ensure_initialized s) (\<lambda>_.
     and_then (require_auth env provider) (\<lambda>_.
     if amount_a \<le> 0 \<or> amount_b \<le> 0 then Err ZeroAmount
     else
       let ra = get_reserve_a s; rb = get_reserve_b s; total_lp = get_total_lp s in
       and_then
         (if total_lp = 0 then
            and_then (isqrt amount_a amount_b) (\<lambda>lp.
            if lp \<le> MIN_LIQUIDITY then Err InsufficientLiquidity
            else
              let s1 = set_total_lp MIN_LIQUIDITY s in
              and_then (i128_sub lp MIN_LIQUIDITY) (\<lambda>minted. Ok (minted, s1)))
          else
            and_then (ok_or Overflow (checked_mul amount_a total_lp)) (\<lambda>na.
            and_then (i128_div na ra) (\<lambda>lp_a.
            and_then (ok_or Overflow (checked_mul amount_b total_lp)) (\<lambda>nb.
            and_then (i128_div nb rb) (\<lambda>lp_b.
            Ok (min lp_a lp_b, s)))))) (\<lambda>(lp_minted, s1).
       if lp_minted < min_lp then Err SlippageExceeded
       else
         and_then (i128_add ra amount_a) (\<lambda>ra'.
         let s2 = set_reserve_a ra' s1 in
         and_then (i128_add rb amount_b) (\<lambda>rb'.
         let s3 = set_reserve_b rb' s2 in
         and_then (i128_add (get_total_lp s3) lp_minted) (\<lambda>new_total.
         let s4 = set_total_lp new_total s3 in
         and_then (i128_add (get_lp s4 provider) lp_minted) (\<lambda>lp'.
         let s5 = set_lp provider lp' s4 in
         Ok (lp_minted, publish (Ev_add_liq lp_minted) s5))))))))"

definition remove_liquidity ::
    "env \<Rightarrow> address \<Rightarrow> int \<Rightarrow> int \<Rightarrow> int \<Rightarrow> amm_state
     \<Rightarrow> (amm_error, (int \<times> int) \<times> amm_state) outcome" where
  "remove_liquidity env provider lp_amount min_a min_b s =
     and_then (ensure_initialized s) (\<lambda>_.
     and_then (require_auth env provider) (\<lambda>_.
     if lp_amount \<le> 0 then Err ZeroAmount
     else
       let lp_bal = get_lp s provider in
       if lp_bal < lp_amount then Err InsufficientLpBalance
       else
         let total_lp = get_total_lp s; ra = get_reserve_a s; rb = get_reserve_b s in
         and_then (ok_or Overflow (checked_mul lp_amount ra)) (\<lambda>na.
         and_then (i128_div na total_lp) (\<lambda>out_a.
         and_then (ok_or Overflow (checked_mul lp_amount rb)) (\<lambda>nb.
         and_then (i128_div nb total_lp) (\<lambda>out_b.
         if out_a < min_a \<or> out_b < min_b then Err SlippageExceeded
         else
           and_then (i128_sub lp_bal lp_amount) (\<lambda>lp'.
           let s1 = set_lp provider lp' s in
           and_then (i128_sub total_lp lp_amount) (\<lambda>total'.
           let s2 = set_total_lp total' s1 in
           and_then (i128_sub ra out_a) (\<lambda>ra'.
           let s3 = set_reserve_a ra' s2 in
           and_then (i128_sub rb out_b) (\<lambda>rb'.
           let s4 = set_reserve_b rb' s3 in
           Ok ((out_a, out_b), publish (Ev_rm_liq lp_amount) s4)))))))))))"

definition swap ::
    "env \<Rightarrow> address \<Rightarrow> address \<Rightarrow> int \<Rightarrow> int \<Rightarrow> amm_state \<Rightarrow> (amm_error, int \<times> amm_state) outcome" where
  "swap env trader token_in amount_in min_out s =
     and_then (ensure_initialized s) (\<lambda>_.
     and_then (require_auth env trader) (\<lambda>_.
     execute_swap env token_in amount_in min_out None None s))"

definition swap_with_limits ::
    "env \<Rightarrow> address \<Rightarrow> address \<Rightarrow> int \<Rightarrow> int \<Rightarrow> int \<Rightarrow> nat \<Rightarrow> amm_state
     \<Rightarrow> (amm_error, int \<times> amm_state) outcome" where
  "swap_with_limits env trader token_in amount_in min_out max_fee deadline s =
     and_then (ensure_initialized s) (\<lambda>_.
     and_then (require_auth env trader) (\<lambda>_.
     execute_swap env token_in amount_in min_out (Some max_fee) (Some deadline) s))"

definition update_floor_price ::
    "env \<Rightarrow> address \<Rightarrow> int \<Rightarrow> amm_state \<Rightarrow> (amm_error, unit \<times> amm_state) outcome" where
  "update_floor_price env admin new_floor s =
     and_then (ensure_initialized s) (\<lambda>_.
     and_then (require_auth env admin) (\<lambda>_.
     if new_floor < 0 then Err ZeroAmount
     else
       let s1 = set_floor_price new_floor s;
           s2 = (case get_collection_stats s1 of
                   None \<Rightarrow> s1
                 | Some stats \<Rightarrow>
                     set_collection_stats
                       (stats\<lparr>floor_price := new_floor, last_update := timestamp env\<rparr>) s1)
       in Ok ((), publish (Ev_floor_upd new_floor) s2)))"

subsection \<open>Read-only entry points\<close>

definition get_amount_out :: "env \<Rightarrow> int \<Rightarrow> address \<Rightarrow> amm_state \<Rightarrow> (amm_error, int) outcome" where
  "get_amount_out env amount_in token_in s =
     and_then (ensure_initialized s) (\<lambda>_.
     and_then (reserves_for_token_in token_in s) (\<lambda>(ra, rb, _).
     and_then (build_swap_quote env amount_in ra rb s) (\<lambda>q. Ok (amount_out q))))"

definition quote_dynamic_swap ::
    "env \<Rightarrow> int \<Rightarrow> address \<Rightarrow> amm_state \<Rightarrow> (amm_error, SwapQuote) outcome" where
  "quote_dynamic_swap env amount_in token_in s =
     and_then (ensure_initialized s) (\<lambda>_.
     and_then (reserves_for_token_in token_in s) (\<lambda>(ra, rb, _).
     build_swap_quote env amount_in ra rb s))"

definition get_reserves :: "amm_state \<Rightarrow> (amm_error, int \<times> int) outcome" where
  "get_reserves s = and_then (ensure_initialized s) (\<lambda>_. Ok (get_reserve_a s, get_reserve_b s))"

definition get_lp_balance :: "address \<Rightarrow> amm_state \<Rightarrow> (amm_error, int) outcome" where
  "get_lp_balance addr s = and_then (ensure_initialized s) (\<lambda>_. Ok (get_lp s addr))"

definition pub_get_total_lp :: "amm_state \<Rightarrow> (amm_error, int) outcome" where
  "pub_get_total_lp s = and_then (ensure_initialized s) (\<lambda>_. Ok (get_total_lp s))"

definition get_twap :: "amm_state \<Rightarrow> (amm_error, int \<times> int \<times> nat) outcome" where
  "get_twap s = and_then (ensure_initialized s) (\<lambda>_.
     Ok (get_price_a_cum s, get_price_b_cum s, get_last_ts s))"

definition pub_get_fee_bps :: "amm_state \<Rightarrow> (amm_error, int) outcome" where
  "pub_get_fee_bps s = and_then (ensure_initialized s) (\<lambda>_. Ok (get_fee_bps s))"

definition pub_get_dynamic_fee_config ::
    "amm_state \<Rightarrow> (amm_error, DynamicFeeConfig option) outcome" where
  "pub_get_dynamic_fee_config s =
     and_then (ensure_initialized s) (\<lambda>_. Ok (get_dynamic_fee_config s))"

definition pub_get_volatility_state :: "env \<Rightarrow> amm_state \<Rightarrow> (amm_error, VolatilityState) outcome" where
  "pub_get_volatility_state env s =
     and_then (ensure_initialized s) (\<lambda>_. Ok (get_volatility_state env s))"

definition pub_get_collection_stats :: "amm_state \<Rightarrow> (amm_error, CollectionStats) outcome" where
  "pub_get_collection_stats s =
     and_then (ensure_initialized s) (\<lambda>_. ok_or NotInitialized (get_collection_stats s))"

definition get_pool_metrics :: "amm_state \<Rightarrow> (amm_error, int \<times> int) outcome" where
  "get_pool_metrics s =
     and_then (ensure_initialized s) (\<lambda>_. Ok (get_total_volume s, get_total_fees s))"

definition pub_get_floor_price :: "amm_state \<Rightarrow> (amm_error, int) outcome" where
  "pub_get_floor_price s = and_then (ensure_initialized s) (\<lambda>_. Ok (get_floor_price s))"

definition pub_get_nft_collection :: "amm_state \<Rightarrow> (amm_error, address option) outcome" where
  "pub_get_nft_collection s = and_then (ensure_initialized s) (\<lambda>_. Ok (get_nft_collection s))"

section \<open>The pool as a state machine\<close>

text \<open>
  One successful invocation of a mutating entry point, by any caller, with any arguments, at
  any ledger time. Failed invocations leave the storage unchanged.
\<close>

inductive amm_step :: "amm_state \<Rightarrow> amm_state \<Rightarrow> bool" where
  initialize: "initialize env adm ta tb fee s = Ok (u, t) \<Longrightarrow> amm_step s t"
| initialize_nft: "initialize_nft env adm ta tb nft fee s = Ok (u, t) \<Longrightarrow> amm_step s t"
| configure: "configure_dynamic_fees env adm cfg s = Ok (u, t) \<Longrightarrow> amm_step s t"
| disable: "disable_dynamic_fees env adm s = Ok (u, t) \<Longrightarrow> amm_step s t"
| add: "add_liquidity env p a b min_lp s = Ok (r, t) \<Longrightarrow> amm_step s t"
| remove: "remove_liquidity env p l min_a min_b s = Ok (r2, t) \<Longrightarrow> amm_step s t"
| swap: "swap env p tok a min_out s = Ok (r, t) \<Longrightarrow> amm_step s t"
| swap_limits: "swap_with_limits env p tok a min_out max_fee dl s = Ok (r, t) \<Longrightarrow> amm_step s t"
| floor: "update_floor_price env adm v s = Ok (u, t) \<Longrightarrow> amm_step s t"

end
