(* ===== verification/Amm_Pool_Correct.thy ===== *)
theory Amm_Pool_Correct
  imports Amm_Pool
begin

text \<open>
  Correctness of the constant-product pool: the integer square root, the swap formula, the
  frame of the swap's bookkeeping, the pool invariant with its machine, and the properties of
  the entry points that rest on them.
\<close>

section \<open>Integer square root\<close>

lemma sdiv2_pos: "0 \<le> (s::int) \<Longrightarrow> s sdiv 2 = s div 2"
  by simp

text \<open>AM-GM for the Newton step: the new guess is never below the root.\<close>

lemma isqrt_loop_correct:
  assumes "0 < p" "in_i128 (p + 1)" "0 < x" "y = (x + p div x) div 2" "x \<le> p"
    "p < (x + 1) * (x + 1)"
  shows "\<exists>r. isqrt_loop p x y = Ok r \<and> 0 < r \<and> r * r \<le> p \<and> p < (r + 1) * (r + 1)"
  using newton_loop_correct [where loop = "isqrt_loop p", OF isqrt_loop.simps] assms by blast

lemma isqrt_exact:
  assumes "0 < a" "0 < b" "a * b < i128_max"
  shows "\<exists>r. isqrt a b = Ok r \<and> 0 < r \<and> r * r \<le> a * b \<and> a * b < (r + 1) * (r + 1)"
proof -
  define p where "p = a * b"
  have p: "0 < p" "in_i128 (p + 1)"
    using assms by (simp_all add: p_def in_i128_def i128_min_def)
  then have "in_i128 p" "in_i128 ((p + 1) div 2)"
    by (auto intro: in_i128_le [of "p + 1"])
  note p = p this
  have "isqrt a b = isqrt_loop p p ((p + 1) div 2)"
    using p by (simp add: isqrt_def checked_mul_def i128_add_def i128_div_def flip: p_def)
  moreover have "p < (p + 1) * (p + 1)"
  proof -
    have "(p + 1) * (p + 1) = p * p + 2 * p + 1" by (simp add: algebra_simps)
    moreover have "0 < p * p" using p by simp
    ultimately show ?thesis using p(1) by linarith
  qed
  ultimately show ?thesis
    using isqrt_loop_correct [of p p "(p + 1) div 2"] p by (simp flip: p_def)
qed

text \<open>
  C39. On positive amounts whose product and its successor fit in \<open>i128\<close>, \<open>isqrt\<close> terminates
  without a trap and returns the exact integer square root of the product.
\<close>

theorem isqrt_correct:
  assumes "0 < a" "0 < b" "a * b < i128_max"
  shows "\<exists>r. isqrt a b = Ok r \<and> 0 < r \<and> r * r \<le> a * b \<and> a * b < (r + 1) * (r + 1)"
  using assms by (rule isqrt_exact)

theorem isqrt_correct_witness:
  "\<exists>r. isqrt 4000 9000 = Ok r \<and> 0 < r \<and> r * r \<le> 4000 * 9000 \<and> 4000 * 9000 < (r + 1) * (r + 1)"
  by (rule isqrt_correct) (simp_all add: i128_max_def)

section \<open>The swap formula\<close>

lemma constant_product_Ok:
  assumes "constant_product_amount_out a ra rb fee = Ok out"
  shows "out = (a * (10000 - fee) * rb) sdiv (ra * 10000 + a * (10000 - fee))"
    and "ra \<noteq> 0" "rb \<noteq> 0" "in_i128 out"
  using assms by (auto simp: constant_product_amount_out_def split: if_splits)

text \<open>The output never reaches the reserve, and the product of the reserves never shrinks.\<close>

lemma constant_product_bounds:
  assumes "constant_product_amount_out a ra rb fee = Ok out"
    and "0 < a" "0 < ra" "0 < rb" "0 \<le> fee" "fee < 10000"
  shows "0 \<le> out" "out < rb" "out * (ra + a) \<le> a * rb" "ra * rb \<le> (ra + a) * (rb - out)"
proof -
  define f where "f = 10000 - fee"
  define d where "d = ra * 10000 + a * f"
  have f: "0 < f" "f \<le> 10000" using assms by (auto simp: f_def)
  have d: "0 < d" using assms f by (simp add: d_def add_pos_pos)
  have n: "0 \<le> a * f * rb" using assms f by simp
  have out: "out = (a * f * rb) div d"
    using constant_product_Ok(1) [OF assms(1)] n d by (simp add: f_def d_def)
  show nonneg: "0 \<le> out" using n d by (simp add: out pos_imp_zdiv_nonneg_iff)
  have "a * f * rb < rb * d" using assms by (simp add: d_def algebra_simps)
  then show lt: "out < rb" using d
    by (metis out div_mult_le le_less_trans mult_less_cancel_right_disj less_asym)
  have od: "out * d \<le> a * f * rb" using d by (simp add: out div_mult_le)
  have "out * (a * (10000 - f)) \<le> rb * (a * (10000 - f))"
    using lt assms f by (intro mult_right_mono) auto
  with od have "10000 * (out * (ra + a)) \<le> 10000 * (a * rb)"
    by (simp add: d_def algebra_simps)
  then show le: "out * (ra + a) \<le> a * rb" by linarith
  then show "ra * rb \<le> (ra + a) * (rb - out)" by (simp add: algebra_simps)
qed

section \<open>Fees\<close>

definition config_ok :: "DynamicFeeConfig \<Rightarrow> bool" where
  "config_ok c \<longleftrightarrow> validate_dynamic_config c = Ok ()"

lemma config_ok_iff:
  "config_ok c \<longleftrightarrow> 0 \<le> min_fee_bps c \<and> min_fee_bps c \<le> max_fee_bps c \<and> max_fee_bps c < 10000
     \<and> 0 \<le> volatility_multiplier_bps c \<and> volatility_multiplier_bps c \<le> 10000
     \<and> 0 \<le> utilization_multiplier_bps c \<and> utilization_multiplier_bps c \<le> 10000
     \<and> 1 \<le> ema_alpha_bps c \<and> ema_alpha_bps c \<le> 10000 \<and> 0 < volatility_window c
     \<and> 1 \<le> max_price_impact_bps c \<and> max_price_impact_bps c \<le> 10000"
  by (auto simp: config_ok_def validate_dynamic_config_def BPS_def)

definition fees_ok :: "amm_state \<Rightarrow> bool" where
  "fees_ok s \<longleftrightarrow> 0 \<le> get_fee_bps s \<and> get_fee_bps s < 10000
     \<and> (\<forall>c. DynFeeConfig s = Some c \<longrightarrow> config_ok c)"

lemma effective_fee_bounds:
  assumes "effective_fee env a r s = Ok (fee, vol, util)" "fees_ok s"
  shows "0 \<le> fee" "fee < 10000"
    and "DynFeeConfig s = Some c \<Longrightarrow> min_fee_bps c \<le> fee \<and> fee \<le> max_fee_bps c"
    and "DynFeeConfig s = None \<Longrightarrow> fee = get_fee_bps s"
  using assms
  by (auto simp: effective_fee_def fees_ok_def config_ok_iff get_dynamic_fee_config_def
      split: option.splits dest!: i128_clamp_Ok)

text \<open>The quote: what success of \<open>build_swap_quote\<close> says.\<close>

lemma build_swap_quote_Ok:
  assumes "build_swap_quote env a ri ro s = Ok q"
  shows "0 < a" "0 < ri" "0 < ro" "amount_out q \<noteq> 0"
    and "\<exists>vol util. effective_fee env a ri s = Ok (fee_bps q, vol, util)"
    and "constant_product_amount_out a ri ro (fee_bps q) = Ok (amount_out q)"
  using assms by (auto simp: build_swap_quote_def split: if_splits)

lemma build_swap_quote_bounds:
  assumes "build_swap_quote env a ri ro s = Ok q" "fees_ok s"
  shows "0 < amount_out q" "amount_out q < ro" "amount_out q * (ri + a) \<le> a * ro"
    and "ri * ro \<le> (ri + a) * (ro - amount_out q)" "0 \<le> fee_bps q" "fee_bps q < 10000"
proof -
  note q = build_swap_quote_Ok [OF assms(1)]
  obtain vol util where fee: "effective_fee env a ri s = Ok (fee_bps q, vol, util)" using q(5) by blast
  note f = effective_fee_bounds(1,2) [OF fee assms(2)]
  show "0 \<le> fee_bps q" "fee_bps q < 10000" by (rule f)+
  note b = constant_product_bounds [OF q(6) q(1) q(2) q(3) f]
  show "0 < amount_out q" using b(1) q(4) by simp
  show "amount_out q < ro" "amount_out q * (ri + a) \<le> a * ro"
    "ri * ro \<le> (ri + a) * (ro - amount_out q)" by (rule b)+
qed

section \<open>Frames of the bookkeeping helpers\<close>

text \<open>Everything a swap's bookkeeping may not touch.\<close>

definition same_book :: "amm_state \<Rightarrow> amm_state \<Rightarrow> bool" where
  "same_book s t \<longleftrightarrow> Admin t = Admin s \<and> TokenA t = TokenA s \<and> TokenB t = TokenB s
     \<and> TotalLp t = TotalLp s \<and> Lp t = Lp s \<and> FeeBps t = FeeBps s
     \<and> DynFeeConfig t = DynFeeConfig s \<and> NftCollection t = NftCollection s
     \<and> NftFloorPrice t = NftFloorPrice s \<and> Stats t = Stats s"

lemma pool_same_book_refl [simp]: "same_book s s" by (simp add: same_book_def)

lemma same_book_trans: "same_book s t \<Longrightarrow> same_book t u \<Longrightarrow> same_book s u"
  by (simp add: same_book_def)

lemma update_twap_frame:
  "update_twap env ra rb s = Ok t \<Longrightarrow>
     same_book s t \<and> ReserveA t = ReserveA s \<and> ReserveB t = ReserveB s \<and> VolState t = VolState s
     \<and> TotalVolume t = TotalVolume s \<and> TotalFees t = TotalFees s"
  by (auto simp: update_twap_def same_book_def amm_setters amm_getters Let_def split: if_splits)

lemma update_volatility_frame:
  "update_volatility env ra rb s = Ok t \<Longrightarrow>
     same_book s t \<and> ReserveA t = ReserveA s \<and> ReserveB t = ReserveB s \<and> PriceACum t = PriceACum s
     \<and> PriceBCum t = PriceBCum s \<and> LastTimestamp t = LastTimestamp s
     \<and> TotalVolume t = TotalVolume s \<and> TotalFees t = TotalFees s"
  by (auto simp: update_volatility_def same_book_def set_volatility_state_def Let_def
      simp del: arith_outcomes split: option.splits)

lemma record_swap_metrics_frame:
  "record_swap_metrics a f s = Ok t \<Longrightarrow>
     same_book s t \<and> ReserveA t = ReserveA s \<and> ReserveB t = ReserveB s \<and> PriceACum t = PriceACum s
     \<and> PriceBCum t = PriceBCum s \<and> LastTimestamp t = LastTimestamp s \<and> VolState t = VolState s
     \<and> get_total_volume t = get_total_volume s + a
     \<and> get_total_fees t = get_total_fees s + (a * f) sdiv 10000"
  by (auto simp: record_swap_metrics_def same_book_def set_total_volume_def set_total_fees_def
      get_total_volume_def get_total_fees_def Let_def)


section \<open>What a successful call did\<close>

lemma same_book_publish [simp]: "same_book s (publish e t) \<longleftrightarrow> same_book s t"
  by (simp add: same_book_def publish_def)

lemma reserves_publish [simp]:
  "get_reserve_a (publish e t) = get_reserve_a t" "get_reserve_b (publish e t) = get_reserve_b t"
  "get_total_volume (publish e t) = get_total_volume t" "get_total_fees (publish e t) = get_total_fees t"
  "VolState (publish e t) = VolState t"
  by (simp_all add: amm_getters publish_def)

lemma reserves_for_token_in_Ok:
  assumes "reserves_for_token_in tok s = Ok (ri, ro, dir)"
  shows "if dir then TokenA s = Some tok \<and> ri = get_reserve_a s \<and> ro = get_reserve_b s
         else TokenB s = Some tok \<and> ri = get_reserve_b s \<and> ro = get_reserve_a s"
  using assms by (auto simp: reserves_for_token_in_def amm_getters split: if_splits)

text \<open>The two halves of a swap: the checked reserve update, then the bookkeeping.\<close>

lemma swap_bookkeeping:
  assumes "update_twap env ra rb s1 = Ok s2" "update_volatility env ra' rb' s2 = Ok s3"
    "record_swap_metrics a f s3 = Ok s4"
  shows "same_book s1 s4 \<and> get_reserve_a s4 = get_reserve_a s1 \<and> get_reserve_b s4 = get_reserve_b s1
     \<and> VolState s4 = VolState s3 \<and> get_total_volume s4 = get_total_volume s1 + a
     \<and> get_total_fees s4 = get_total_fees s1 + (a * f) sdiv 10000
     \<and> PriceACum s4 = PriceACum s2 \<and> PriceBCum s4 = PriceBCum s2
     \<and> LastTimestamp s4 = LastTimestamp s2"
  using update_twap_frame [OF assms(1)] update_volatility_frame [OF assms(2)]
    record_swap_metrics_frame [OF assms(3)]
  by (auto simp: same_book_def get_reserve_a_def get_reserve_b_def get_total_volume_def
      get_total_fees_def)

lemma commit_swap_stages:
  assumes "commit_swap env dir ri ro a q s = Ok (out, t)"
    and "ra = (if dir then ri + a else ro - amount_out q)"
    and "rb = (if dir then ro - amount_out q else ri + a)"
  shows "\<exists>s2 s3 s4.
     update_twap env (get_reserve_a s) (get_reserve_b s) (set_reserve_b rb (set_reserve_a ra s)) = Ok s2
     \<and> update_volatility env ra rb s2 = Ok s3 \<and> record_swap_metrics a (fee_bps q) s3 = Ok s4
     \<and> out = amount_out q
     \<and> (t = publish (Ev_swap out) s4 \<or> (\<exists>e. t = publish e (publish (Ev_swap out) s4)))"
  using assms unfolding commit_swap_def Let_def by (cases dir) (auto split: if_splits)

lemma commit_swap_Ok:
  assumes "commit_swap env dir ri ro a q s = Ok (out, t)"
  shows "out = amount_out q" "same_book s t"
    "get_reserve_a t = (if dir then ri + a else ro - out)"
    "get_reserve_b t = (if dir then ro - out else ri + a)"
    "get_total_volume t = get_total_volume s + a"
    "get_total_fees t = get_total_fees s + (a * fee_bps q) sdiv 10000"
proof -
  define ra where "ra = (if dir then ri + a else ro - amount_out q)"
  define rb where "rb = (if dir then ro - amount_out q else ri + a)"
  define s1 where "s1 = set_reserve_b rb (set_reserve_a ra s)"
  obtain s2 s3 s4 where
    b: "update_twap env (get_reserve_a s) (get_reserve_b s) s1 = Ok s2"
      "update_volatility env ra rb s2 = Ok s3" "record_swap_metrics a (fee_bps q) s3 = Ok s4" and
    out: "out = amount_out q" and
    t: "t = publish (Ev_swap out) s4 \<or> (\<exists>e. t = publish e (publish (Ev_swap out) s4))"
    using commit_swap_stages [OF assms ra_def rb_def] unfolding s1_def by blast
  have s1: "same_book s s1" "get_reserve_a s1 = ra" "get_reserve_b s1 = rb"
    "get_total_volume s1 = get_total_volume s" "get_total_fees s1 = get_total_fees s"
    by (simp_all add: s1_def same_book_def amm_getters amm_setters)
  note bk = swap_bookkeeping [OF b]
  show "out = amount_out q" by (rule out)
  show "same_book s t" using t bk s1 by (auto dest: same_book_trans)
  show "get_reserve_a t = (if dir then ri + a else ro - out)" using t bk s1 out by (auto simp: ra_def)
  show "get_reserve_b t = (if dir then ro - out else ri + a)" using t bk s1 out by (auto simp: rb_def)
  show "get_total_volume t = get_total_volume s + a" using t bk s1 by auto
  show "get_total_fees t = get_total_fees s + (a * fee_bps q) sdiv 10000" using t bk s1 by auto
qed

lemma execute_swap_Ok:
  assumes "execute_swap env tok a min_out max_fee dl s = Ok (out, t)"
  obtains ri ro dir q where
    "reserves_for_token_in tok s = Ok (ri, ro, dir)"
    "build_swap_quote env a ri ro s = Ok q"
    "commit_swap env dir ri ro a q s = Ok (out, t)"
    "min_out \<le> amount_out q"
    "\<And>limit. max_fee = Some limit \<Longrightarrow> fee_bps q \<le> limit"
    "\<And>d. dl = Some d \<Longrightarrow> timestamp env \<le> d"
    "\<And>c. DynFeeConfig s = Some c \<Longrightarrow> price_impact_bps q \<le> max_price_impact_bps c"
  using assms
  by (fastforce simp: execute_swap_def get_dynamic_fee_config_def not_less split: option.splits)

lemma swap_Ok:
  "swap env p tok a min_out s = Ok (out, t) \<longleftrightarrow>
     is_initialized s \<and> auth env p \<and> execute_swap env tok a min_out None None s = Ok (out, t)"
  by (auto simp: swap_def ensure_initialized_def)

lemma swap_with_limits_Ok:
  "swap_with_limits env p tok a min_out max_fee dl s = Ok (out, t) \<longleftrightarrow>
     is_initialized s \<and> auth env p
     \<and> execute_swap env tok a min_out (Some max_fee) (Some dl) s = Ok (out, t)"
  by (auto simp: swap_with_limits_def ensure_initialized_def)


text \<open>What a swap does to the reserves, from the bounds of its quote.\<close>

lemma execute_swap_reserves:
  assumes "execute_swap env tok a min_out max_fee dl s = Ok (out, t)" "fees_ok s"
  shows "same_book s t" "0 < a" "0 < out" "min_out \<le> out"
    and "0 < get_reserve_a s" "0 < get_reserve_b s" "0 < get_reserve_a t" "0 < get_reserve_b t"
    and "get_reserve_a s * get_reserve_b s \<le> get_reserve_a t * get_reserve_b t"
    and "get_reserve_a t = get_reserve_a s + a \<and> get_reserve_b t = get_reserve_b s - out
         \<or> get_reserve_b t = get_reserve_b s + a \<and> get_reserve_a t = get_reserve_a s - out"
proof -
  obtain ri ro dir q where
    r: "reserves_for_token_in tok s = Ok (ri, ro, dir)" and
    q: "build_swap_quote env a ri ro s = Ok q" and
    c: "commit_swap env dir ri ro a q s = Ok (out, t)" and m: "min_out \<le> amount_out q"
    using assms(1) by (rule execute_swap_Ok)
  note cs = commit_swap_Ok [OF c]
  note qb = build_swap_quote_bounds [OF q assms(2)]
  note qo = build_swap_quote_Ok [OF q]
  note rs = reserves_for_token_in_Ok [OF r]
  show "same_book s t" by (rule cs)
  show "0 < a" by (rule qo)
  show "0 < out" "min_out \<le> out" using qb(1) cs(1) m by auto
  show "0 < get_reserve_a s" "0 < get_reserve_b s" using rs qo by (auto split: if_splits)
  show "0 < get_reserve_a t" "0 < get_reserve_b t" using cs qo qb by (auto split: if_splits)
  show "get_reserve_a s * get_reserve_b s \<le> get_reserve_a t * get_reserve_b t"
    using cs rs qb(4) by (cases dir) (auto simp: mult.commute)
  show "get_reserve_a t = get_reserve_a s + a \<and> get_reserve_b t = get_reserve_b s - out
        \<or> get_reserve_b t = get_reserve_b s + a \<and> get_reserve_a t = get_reserve_a s - out"
    using cs rs by (cases dir) auto
qed

section \<open>The pool invariant\<close>

text \<open>
  Fees stay legal, no LP balance is negative, and either the pool is empty or both reserves are
  positive and the LP supply is the locked minimum plus the sum of all balances.
\<close>

definition amm_inv :: "amm_state \<Rightarrow> bool" where
  "amm_inv s \<longleftrightarrow> fees_ok s \<and> finite (dom (Lp s)) \<and> (\<forall>a. 0 \<le> get_lp s a)
     \<and> (is_initialized s \<longrightarrow> TokenA s \<noteq> None \<and> TokenB s \<noteq> None \<and> TokenA s \<noteq> TokenB s)
     \<and> (if get_total_lp s = 0
        then get_reserve_a s = 0 \<and> get_reserve_b s = 0 \<and> total_bal (Lp s) = 0
        else 0 < get_reserve_a s \<and> 0 < get_reserve_b s
             \<and> get_total_lp s = MIN_LIQUIDITY + total_bal (Lp s))"

lemma amm_inv_fees: "amm_inv s \<Longrightarrow> fees_ok s"
  by (simp add: amm_inv_def)

lemma amm_inv_supply:
  assumes "amm_inv s"
  shows "0 \<le> get_total_lp s" "get_total_lp s \<noteq> 0 \<Longrightarrow> MIN_LIQUIDITY \<le> get_total_lp s"
    "get_total_lp s \<noteq> 0 \<Longrightarrow> MIN_LIQUIDITY + get_lp s a \<le> get_total_lp s"
proof -
  have n: "0 \<le> total_bal (Lp s)" "get_lp s a \<le> total_bal (Lp s)"
    using assms bal_le_total [of "Lp s" a] total_bal_nonneg [of "Lp s"]
    by (auto simp: amm_inv_def get_lp_def)
  then show "0 \<le> get_total_lp s" "get_total_lp s \<noteq> 0 \<Longrightarrow> MIN_LIQUIDITY \<le> get_total_lp s"
    "get_total_lp s \<noteq> 0 \<Longrightarrow> MIN_LIQUIDITY + get_lp s a \<le> get_total_lp s"
    using assms by (auto simp: amm_inv_def MIN_LIQUIDITY_def split: if_splits)
qed

text \<open>Fields the invariant reads.\<close>

lemma amm_inv_cong:
  assumes "amm_inv s" "same_book s t" "get_reserve_a t = get_reserve_a s"
    "get_reserve_b t = get_reserve_b s"
  shows "amm_inv t"
  using assms by (auto simp: amm_inv_def same_book_def fees_ok_def amm_getters)

lemma amm_inv_swap:
  assumes "execute_swap env tok a min_out max_fee dl s = Ok (out, t)" "amm_inv s"
  shows "amm_inv t"
proof -
  note sw = execute_swap_reserves [OF assms(1) amm_inv_fees [OF assms(2)]]
  have "get_total_lp s \<noteq> 0" using assms(2) sw(5) by (auto simp: amm_inv_def split: if_splits)
  with assms(2) sw show ?thesis
    by (auto simp: amm_inv_def same_book_def fees_ok_def get_fee_bps_def get_lp_def
        get_total_lp_def is_initialized_def)
qed

lemma pool_initialize_Ok:
  assumes "initialize env adm ta tb fee s = Ok (u, t)"
  shows "\<not> is_initialized s" "auth env adm" "ta \<noteq> tb" "0 \<le> unwrap_or 30 fee" "unwrap_or 30 fee < 10000"
    "t = s\<lparr>Admin := Some adm, TokenA := Some ta, TokenB := Some tb, FeeBps := Some (unwrap_or 30 fee),
           LastTimestamp := Some (timestamp env)\<rparr>"
  using assms by (auto simp: initialize_def validate_fee_def BPS_def amm_setters Let_def)

lemma amm_inv_initialize:
  assumes "initialize env adm ta tb fee s = Ok (u, t)" "amm_inv s"
  shows "amm_inv t"
  using pool_initialize_Ok [OF assms(1)] assms(2) by (auto simp: amm_inv_def fees_ok_def amm_getters)

lemma amm_inv_initialize_nft:
  assumes "initialize_nft env adm ta tb nft fee s = Ok (u, t)" "amm_inv s"
  shows "amm_inv t"
proof -
  from assms(1) obtain s1 where
    s1: "(if \<not> is_initialized s then initialize env adm ta tb fee s else Ok ((), s)) = Ok ((), s1)" and
    t: "\<exists>c st e. t = s1\<lparr>NftCollection := c, Stats := st, events := e\<rparr>"
    by (auto simp: initialize_nft_def amm_setters Let_def simp del: guard_Ok)
  from s1 have "amm_inv s1"
    using amm_inv_initialize assms(2) by (auto split: if_splits)
  with t show ?thesis by (auto simp: amm_inv_def fees_ok_def amm_getters)
qed

lemma amm_inv_configure:
  assumes "configure_dynamic_fees env adm cfg s = Ok (u, t)" "amm_inv s"
  shows "amm_inv t"
proof -
  from assms(1) have "\<exists>v e. t = s\<lparr>DynFeeConfig := Some cfg, VolState := v, events := e\<rparr>"
    and "config_ok cfg"
    by (auto simp: configure_dynamic_fees_def config_ok_def amm_setters Let_def simp del: guard_Ok
        split: if_splits) (metis amm_state.surjective amm_state.update_convs(15))+
  with assms(2) show ?thesis by (auto simp: amm_inv_def fees_ok_def amm_getters)
qed

lemma amm_inv_disable:
  assumes "disable_dynamic_fees env adm s = Ok (u, t)" "amm_inv s"
  shows "amm_inv t"
  using assms by (auto simp: disable_dynamic_fees_def amm_inv_def fees_ok_def amm_setters amm_getters Let_def)

lemma amm_inv_floor:
  assumes "update_floor_price env adm v s = Ok (u, t)" "amm_inv s"
  shows "amm_inv t"
  using assms
  by (auto simp: update_floor_price_def amm_inv_def fees_ok_def amm_setters amm_getters Let_def
      split: option.splits)


text \<open>Success of the liquidity operations, as equations on the fields the pool shares depend on.\<close>

lemma add_liquidity_Ok:
  assumes "add_liquidity env p a b min_lp s = Ok (m, t)"
  shows "is_initialized s" "auth env p" "0 < a" "0 < b" "min_lp \<le> m"
    "get_reserve_a t = get_reserve_a s + a" "get_reserve_b t = get_reserve_b s + b"
    "Lp t = (Lp s)(p \<mapsto> get_lp s p + m)"
    "if get_total_lp s = 0
     then isqrt a b = Ok (MIN_LIQUIDITY + m) \<and> 0 < m \<and> get_total_lp t = MIN_LIQUIDITY + m
     else get_reserve_a s \<noteq> 0 \<and> get_reserve_b s \<noteq> 0
          \<and> m = min (a * get_total_lp s sdiv get_reserve_a s) (b * get_total_lp s sdiv get_reserve_b s)
          \<and> get_total_lp t = get_total_lp s + m"
    "FeeBps t = FeeBps s" "DynFeeConfig t = DynFeeConfig s" "Admin t = Admin s"
    "TokenA t = TokenA s" "TokenB t = TokenB s"
  using assms
  by (auto simp: add_liquidity_def ensure_initialized_def amm_setters amm_getters Let_def
      split: if_splits)

lemma remove_liquidity_Ok:
  assumes "remove_liquidity env p l min_a min_b s = Ok ((oa, ob), t)"
  shows "is_initialized s" "auth env p" "0 < l" "l \<le> get_lp s p" "min_a \<le> oa" "min_b \<le> ob"
    "get_total_lp s \<noteq> 0"
    "oa = l * get_reserve_a s sdiv get_total_lp s" "ob = l * get_reserve_b s sdiv get_total_lp s"
    "get_reserve_a t = get_reserve_a s - oa" "get_reserve_b t = get_reserve_b s - ob"
    "get_total_lp t = get_total_lp s - l" "Lp t = (Lp s)(p \<mapsto> get_lp s p - l)"
    "FeeBps t = FeeBps s" "DynFeeConfig t = DynFeeConfig s" "Admin t = Admin s"
    "TokenA t = TokenA s" "TokenB t = TokenB s"
  using assms
  by (auto simp: remove_liquidity_def ensure_initialized_def amm_setters amm_getters Let_def)

lemma amm_inv_add:
  assumes "add_liquidity env p a b min_lp s = Ok (m, t)" "amm_inv s"
  shows "amm_inv t" "0 \<le> m"
proof -
  note ok = add_liquidity_Ok [OF assms(1)]
  note inv = assms(2) [unfolded amm_inv_def]
  show m: "0 \<le> m"
  proof (cases "get_total_lp s = 0")
    case False
    then have "0 < get_reserve_a s" "0 < get_reserve_b s" "0 \<le> get_total_lp s"
      using inv amm_inv_supply(1) [OF assms(2)] by auto
    then show ?thesis using ok(3,4,9) False by (auto simp: pos_imp_zdiv_nonneg_iff)
  qed (use ok(9) in simp)
  have "get_total_lp t \<noteq> 0"
    using ok(9) m amm_inv_supply(1) [OF assms(2)] by (auto simp: MIN_LIQUIDITY_def split: if_splits)
  then show "amm_inv t"
    using inv ok m
    by (auto simp: amm_inv_def fees_ok_def get_fee_bps_def is_initialized_def get_lp_def bal_def
        split: if_splits)
qed

lemma remove_liquidity_out:
  assumes "remove_liquidity env p l min_a min_b s = Ok ((oa, ob), t)" "amm_inv s"
  shows "0 < get_total_lp s" "l < get_total_lp s"
    "0 \<le> oa" "oa < get_reserve_a s" "oa * get_total_lp s \<le> l * get_reserve_a s"
    "0 \<le> ob" "ob < get_reserve_b s" "ob * get_total_lp s \<le> l * get_reserve_b s"
proof -
  note ok = remove_liquidity_Ok [OF assms(1)]
  note inv = assms(2) [unfolded amm_inv_def]
  have r: "0 < get_reserve_a s" "0 < get_reserve_b s" using inv ok(7) by auto
  show T: "0 < get_total_lp s" using amm_inv_supply(1) [OF assms(2)] ok(7) by simp
  show l: "l < get_total_lp s"
    using amm_inv_supply(3) [OF assms(2) ok(7), of p] ok(4) by (simp add: MIN_LIQUIDITY_def)
  have lt: "l * r div get_total_lp s < r" if "0 < r" for r :: int
  proof -
    have "l * r div get_total_lp s * get_total_lp s \<le> l * r" using T by (rule div_mult_le)
    also have "\<dots> < r * get_total_lp s" using l that by (simp add: mult.commute)
    finally show ?thesis using T by (simp add: mult_less_cancel_right)
  qed
  show "0 \<le> oa" "0 \<le> ob" "oa < get_reserve_a s" "ob < get_reserve_b s"
    "oa * get_total_lp s \<le> l * get_reserve_a s" "ob * get_total_lp s \<le> l * get_reserve_b s"
    using ok(3,8,9) r T lt by (auto simp: pos_imp_zdiv_nonneg_iff div_mult_le)
qed

lemma amm_inv_remove:
  assumes "remove_liquidity env p l min_a min_b s = Ok (r, t)" "amm_inv s"
  shows "amm_inv t"
proof -
  obtain oa ob where r: "r = (oa, ob)" by (cases r)
  note ok = remove_liquidity_Ok [OF assms(1) [unfolded r]]
  note out = remove_liquidity_out [OF assms(1) [unfolded r] assms(2)]
  show ?thesis
    using assms(2) ok out
    by (auto simp: amm_inv_def fees_ok_def get_fee_bps_def is_initialized_def get_lp_def bal_def
        split: if_splits)
qed

section \<open>The pool machine\<close>

lemma amm_inv_empty: "amm_inv empty_pool"
  by (simp add: amm_inv_def empty_pool_def fees_ok_def amm_getters)

lemma amm_step_inv: "amm_inv s \<Longrightarrow> amm_step s t \<Longrightarrow> amm_inv t"
  by (erule amm_step.cases)
    (auto simp: swap_Ok swap_with_limits_Ok intro: amm_inv_initialize amm_inv_initialize_nft
      amm_inv_configure amm_inv_disable amm_inv_add(1) amm_inv_remove amm_inv_swap amm_inv_floor)

interpretation amm: contract_machine empty_pool amm_step amm_inv
  by unfold_locales (auto intro: amm_inv_empty amm_step_inv)

section \<open>A concrete run\<close>

text \<open>A concrete run: initialise with tokens 10 and 20, deposit, opt in to dynamic fees, swap.\<close>

definition demo_config :: DynamicFeeConfig where
  "demo_config = \<lparr>min_fee_bps = 5, max_fee_bps = 500, volatility_multiplier_bps = 1000,
     utilization_multiplier_bps = 2000, ema_alpha_bps = 3000, volatility_window = 3600,
     max_price_impact_bps = 5000\<rparr>"

definition demo_pool1 :: amm_state where
  "demo_pool1 = empty_pool\<lparr>Admin := Some 1, TokenA := Some 10, TokenB := Some 20,
     FeeBps := Some 30, LastTimestamp := Some 100\<rparr>"

definition demo_pool2 :: amm_state where
  "demo_pool2 = demo_pool1\<lparr>ReserveA := Some 2000, ReserveB := Some 2000, TotalLp := Some 2000,
     Lp := [2 \<mapsto> 1000], events := [Ev_add_liq 1000]\<rparr>"

definition demo_pool3 :: amm_state where
  "demo_pool3 = demo_pool2\<lparr>DynFeeConfig := Some demo_config,
     VolState := Some \<lparr>ema_volatility_bps = 0, last_price = 10000000, last_timestamp = 120\<rparr>,
     events := [Ev_add_liq 1000, Ev_dynfee_config demo_config]\<rparr>"

lemmas demo_pool_defs = demo_pool1_def demo_pool2_def demo_pool3_def demo_config_def empty_pool_def
  demo_env_def in_i128_def i128_max_def i128_min_def

lemma demo_isqrt: "isqrt 2000 2000 = Ok 2000"
  by code_simp

lemma pool_demo_initialize: "initialize (demo_env 100) 1 10 20 None empty_pool = Ok ((), demo_pool1)"
  by (simp add: initialize_def demo_pool_defs validate_fee_def BPS_def require_auth_def
      amm_setters amm_getters Let_def)

lemma demo_add: "add_liquidity (demo_env 110) 2 2000 2000 0 demo_pool1 = Ok (1000, demo_pool2)"
  by (simp add: add_liquidity_def ensure_initialized_def demo_isqrt MIN_LIQUIDITY_def demo_pool_defs
      require_auth_def i128_add_def i128_sub_def amm_setters amm_getters Let_def)

lemma demo_configure:
  "configure_dynamic_fees (demo_env 120) 1 demo_config demo_pool2 = Ok ((), demo_pool3)"
  by (simp add: configure_dynamic_fees_def ensure_admin_def ensure_initialized_def demo_pool_defs
      validate_dynamic_config_def BPS_def spot_price_def PRICE_PRECISION_def checked_mul_def
      checked_div_def require_auth_def amm_setters amm_getters Let_def)

definition pool_demo_quote :: SwapQuote where
  "pool_demo_quote = \<lparr>amount_out = 94, fee_bps = 125, price_impact_bps = 600, volatility_bps = 0,
     utilization_bps = 476\<rparr>"

lemma pool_demo_quote: "build_swap_quote (demo_env 130) 100 2000 2000 demo_pool3 = Ok pool_demo_quote"
  by (simp add: pool_demo_quote_def build_swap_quote_def effective_fee_def utilization_of_def
      decayed_volatility_def constant_product_amount_out_def u64_sub_def u64_saturating_sub_def
      checked_add_def checked_mul_def checked_div_def checked_sub_def i128_div_def i128_sub_def
      i128_clamp_def BPS_def demo_pool_defs amm_getters Let_def)

lemma demo_decayed: "decayed_volatility (demo_env 130) demo_config demo_pool3 = Ok 0"
  by (simp add: decayed_volatility_def u64_sub_def u64_saturating_sub_def
      checked_mul_def checked_div_def demo_pool_defs amm_getters Let_def)

lemma demo_swap_ok: "is_ok (swap_with_limits (demo_env 130) 3 10 100 1 400 200 demo_pool3)"
proof -
  have "reserves_for_token_in 10 demo_pool3 = Ok (2000, 2000, True)"
    by (simp add: reserves_for_token_in_def demo_pool_defs amm_getters)
  moreover have "is_ok (commit_swap (demo_env 130) True 2000 2000 100 pool_demo_quote demo_pool3)"
    by (simp add: commit_swap_def pool_demo_quote_def update_twap_def update_volatility_def
        decayed_volatility_def spot_price_def record_swap_metrics_def saturating_mul_def
        saturating_add_def i128_saturate_def TWAP_PRECISION_def PRICE_PRECISION_def BPS_def
        as_u128_def u128_max_def u64_saturating_sub_def demo_pool_defs amm_getters amm_setters
        Let_def)
  ultimately show ?thesis
    using pool_demo_quote
    by (auto simp: swap_with_limits_def execute_swap_def ensure_initialized_def amm_getters
        pool_demo_quote_def) (auto simp: demo_pool_defs)
qed

lemma demo_plain_swap_ok: "is_ok (swap (demo_env 130) 3 10 100 1 demo_pool2)"
  by code_simp

lemma demo_remove_ok:
  "is_ok (add_liquidity (demo_env 130) 5 300 500 1 demo_pool2)"
  "is_ok (remove_liquidity (demo_env 131) 5 300 0 0
     (snd (the_ok (add_liquidity (demo_env 130) 5 300 500 1 demo_pool2))))"
  "fst (the_ok (add_liquidity (demo_env 130) 5 300 500 1 demo_pool2)) = 300"
  by code_simp+

lemma demo_pool_reachable:
  "amm_step\<^sup>*\<^sup>* empty_pool demo_pool2" "amm_step\<^sup>*\<^sup>* empty_pool demo_pool3"
  by (meson amm_step.initialize [OF pool_demo_initialize] amm_step.add [OF demo_add]
      amm_step.configure [OF demo_configure] rtranclp.intros)+

section \<open>Properties of reachable pools\<close>

text \<open>
  C8. In every storage state the pool can reach, the LP supply is the locked minimum plus the
  sum of all LP balances, no balance is negative, both reserves are positive whenever LP tokens
  exist, and the base fee is below 100 percent.
\<close>

theorem amm_reachable_solvent:
  assumes "amm_step\<^sup>*\<^sup>* empty_pool s"
  shows "0 \<le> get_lp s a \<and> 0 \<le> get_fee_bps s \<and> get_fee_bps s < BPS \<and>
       ((get_total_lp s = 0 \<and> get_reserve_a s = 0 \<and> get_reserve_b s = 0 \<and> total_bal (Lp s) = 0)
       \<or> (get_total_lp s = MIN_LIQUIDITY + total_bal (Lp s) \<and> 0 < get_reserve_a s \<and> 0 < get_reserve_b s))"
  using amm.reachable_Inv [OF assms]
  by (auto simp: amm_inv_def fees_ok_def BPS_def split: if_splits)


theorem amm_reachable_solvent_witness:
  "0 \<le> get_lp demo_pool2 2 \<and> 0 \<le> get_fee_bps demo_pool2 \<and> get_fee_bps demo_pool2 < BPS \<and>
     ((get_total_lp demo_pool2 = 0 \<and> get_reserve_a demo_pool2 = 0 \<and> get_reserve_b demo_pool2 = 0
       \<and> total_bal (Lp demo_pool2) = 0)
     \<or> (get_total_lp demo_pool2 = MIN_LIQUIDITY + total_bal (Lp demo_pool2)
       \<and> 0 < get_reserve_a demo_pool2 \<and> 0 < get_reserve_b demo_pool2))"
  by (rule amm_reachable_solvent [OF demo_pool_reachable(1)])

text \<open>A swap moves exactly the quoted amounts, keeps both reserves positive, and never lets the
  product of the reserves shrink.\<close>

theorem amm_swap_constant_product:
  assumes "amm_step\<^sup>*\<^sup>* empty_pool s" "swap env p tok a min_out s = Ok (out, t)"
  shows "min_out \<le> out \<and> 0 < out \<and> 0 < get_reserve_a t \<and> 0 < get_reserve_b t
       \<and> get_reserve_a s * get_reserve_b s \<le> get_reserve_a t * get_reserve_b t
       \<and> (if TokenA s = Some tok
          then get_reserve_a t = get_reserve_a s + a \<and> get_reserve_b t = get_reserve_b s - out
          else TokenB s = Some tok
               \<and> get_reserve_b t = get_reserve_b s + a \<and> get_reserve_a t = get_reserve_a s - out)"
proof -
  have inv: "amm_inv s" by (rule amm.reachable_Inv [OF assms(1)])
  have e: "execute_swap env tok a min_out None None s = Ok (out, t)" and init: "is_initialized s"
    using assms(2) by (auto simp: swap_Ok)
  note sw = execute_swap_reserves [OF e amm_inv_fees [OF inv]]
  obtain ri ro dir q where r: "reserves_for_token_in tok s = Ok (ri, ro, dir)" and
    c: "commit_swap env dir ri ro a q s = Ok (out, t)"
    using e by (rule execute_swap_Ok)
  have "TokenA s \<noteq> TokenB s" using inv init by (simp add: amm_inv_def)
  then show ?thesis
    using sw reserves_for_token_in_Ok [OF r] commit_swap_Ok [OF c] by (cases dir) auto
qed

theorem amm_swap_constant_product_witness:
  "\<exists>out t. swap (demo_env 130) 3 10 100 1 demo_pool2 = Ok (out, t) \<and> 0 < out
     \<and> get_reserve_a demo_pool2 * get_reserve_b demo_pool2 \<le> get_reserve_a t * get_reserve_b t"
proof -
  have "swap (demo_env 130) 3 10 100 1 demo_pool2 =
      Ok (fst (the_ok (swap (demo_env 130) 3 10 100 1 demo_pool2)),
          snd (the_ok (swap (demo_env 130) 3 10 100 1 demo_pool2)))"
    by (rule is_ok_pair [OF demo_plain_swap_ok])
  from this amm_swap_constant_product [OF demo_pool_reachable(1) this] show ?thesis by blast
qed

section \<open>LP shares are never diluted\<close>

text \<open>\<open>backed s t\<close>: per LP token, neither reserve is smaller in \<open>t\<close> than in \<open>s\<close>.\<close>

definition backed :: "amm_state \<Rightarrow> amm_state \<Rightarrow> bool" where
  "backed s t \<longleftrightarrow> get_reserve_a s * get_total_lp t \<le> get_reserve_a t * get_total_lp s
               \<and> get_reserve_b s * get_total_lp t \<le> get_reserve_b t * get_total_lp s"

lemma backed_product:
  assumes "backed s t" "amm_inv s" "amm_inv t"
  shows "get_reserve_a s * get_reserve_b s * (get_total_lp t)\<^sup>2
       \<le> get_reserve_a t * get_reserve_b t * (get_total_lp s)\<^sup>2"
proof -
  have "0 \<le> get_total_lp s" "0 \<le> get_total_lp t" by (rule amm_inv_supply(1), fact)+
  moreover have "0 \<le> get_reserve_a s" "0 \<le> get_reserve_b s" "0 \<le> get_reserve_a t" "0 \<le> get_reserve_b t"
    using assms(2,3) by (auto simp: amm_inv_def split: if_splits)
  ultimately have "(get_reserve_a s * get_total_lp t) * (get_reserve_b s * get_total_lp t)
      \<le> (get_reserve_a t * get_total_lp s) * (get_reserve_b t * get_total_lp s)"
    using assms(1) unfolding backed_def by (intro mult_mono [of _ _ "_ * _"]) simp_all
  then show ?thesis by (simp add: power2_eq_square ac_simps)
qed

lemma backed_same:
  "same_book s t \<Longrightarrow> get_reserve_a t = get_reserve_a s \<Longrightarrow> get_reserve_b t = get_reserve_b s \<Longrightarrow> backed s t"
  by (simp add: backed_def same_book_def get_total_lp_def)

lemma backed_add:
  assumes "add_liquidity env p a b min_lp s = Ok (m, t)" "amm_inv s"
  shows "backed s t"
proof (cases "get_total_lp s = 0")
  case True
  with assms(2) show ?thesis by (simp add: backed_def amm_inv_def)
next
  case False
  note ok = add_liquidity_Ok [OF assms(1)]
  define ra rb T where "ra = get_reserve_a s" and "rb = get_reserve_b s" and "T = get_total_lp s"
  have pos: "0 < ra" "0 < rb" "0 < T"
    using assms(2) False amm_inv_supply(1) [OF assms(2)] by (auto simp: amm_inv_def ra_def rb_def T_def)
  have "m \<le> a * T div ra" "m \<le> b * T div rb" and T': "get_total_lp t = T + m"
    using ok(3,4,9) False pos by (auto simp: ra_def rb_def T_def)
  then have "m * ra \<le> a * T" "m * rb \<le> b * T"
    using pos div_mult_le [of ra "a * T"] div_mult_le [of rb "b * T"]
    by (meson dual_order.trans less_imp_le mult_right_mono)+
  then show ?thesis
    using ok(6,7) T' by (simp add: backed_def algebra_simps flip: ra_def rb_def T_def)
qed

lemma backed_remove:
  assumes "remove_liquidity env p l min_a min_b s = Ok (r, t)" "amm_inv s"
  shows "backed s t"
proof -
  obtain oa ob where r: "r = (oa, ob)" by (cases r)
  note ok = remove_liquidity_Ok [OF assms(1) [unfolded r]]
  note out = remove_liquidity_out [OF assms(1) [unfolded r] assms(2)]
  have "(ra - x) * T - ra * (T - l) = l * ra - x * T" for ra x T :: int
    by (simp add: algebra_simps)
  from this [of "get_reserve_a s" oa "get_total_lp s"] this [of "get_reserve_b s" ob "get_total_lp s"]
  show ?thesis using ok(10-12) out(5,8) by (simp add: backed_def)
qed

lemma configure_frame:
  "configure_dynamic_fees env adm cfg s = Ok (u, t) \<Longrightarrow>
     TotalLp t = TotalLp s \<and> ReserveA t = ReserveA s \<and> ReserveB t = ReserveB s"
  by (auto simp: configure_dynamic_fees_def amm_setters Let_def simp del: guard_Ok split: if_splits)

lemma initialize_nft_frame:
  assumes "initialize_nft env adm ta tb nft fee s = Ok (u, t)"
  shows "TotalLp t = TotalLp s \<and> ReserveA t = ReserveA s \<and> ReserveB t = ReserveB s"
proof -
  from assms obtain s1 where
    s1: "(if \<not> is_initialized s then initialize env adm ta tb fee s else Ok ((), s)) = Ok ((), s1)" and
    t: "\<exists>c st e. t = s1\<lparr>NftCollection := c, Stats := st, events := e\<rparr>"
    by (auto simp: initialize_nft_def amm_setters Let_def simp del: guard_Ok)
  have "TotalLp s1 = TotalLp s \<and> ReserveA s1 = ReserveA s \<and> ReserveB s1 = ReserveB s"
    using s1 by (auto dest!: pool_initialize_Ok(6) split: if_splits)
  with t show ?thesis by auto
qed

lemma update_floor_price_frame:
  "update_floor_price env adm v s = Ok (u, t) \<Longrightarrow>
     TotalLp t = TotalLp s \<and> ReserveA t = ReserveA s \<and> ReserveB t = ReserveB s"
  by (auto simp: update_floor_price_def amm_setters amm_getters Let_def split: option.splits)

lemma idle_frame_product:
  "TotalLp t = TotalLp s \<and> ReserveA t = ReserveA s \<and> ReserveB t = ReserveB s \<Longrightarrow>
   get_reserve_a s * get_reserve_b s * (get_total_lp t)\<^sup>2
       \<le> get_reserve_a t * get_reserve_b t * (get_total_lp s)\<^sup>2"
  by (simp add: amm_getters)

lemma swap_product_share:
  assumes "execute_swap env tok a min_out max_fee dl s = Ok (out, t)" "amm_inv s"
  shows "get_reserve_a s * get_reserve_b s * (get_total_lp t)\<^sup>2
       \<le> get_reserve_a t * get_reserve_b t * (get_total_lp s)\<^sup>2"
proof -
  note sw = execute_swap_reserves [OF assms(1) amm_inv_fees [OF assms(2)]]
  have "get_total_lp t = get_total_lp s" using sw(1) by (simp add: same_book_def get_total_lp_def)
  with sw(9) show ?thesis by (simp add: mult_right_mono)
qed

lemma pool_initialize_frame:
  "initialize env adm ta tb fee s = Ok (u, t) \<Longrightarrow>
     TotalLp t = TotalLp s \<and> ReserveA t = ReserveA s \<and> ReserveB t = ReserveB s"
  by (auto dest: pool_initialize_Ok(6))

lemma disable_frame:
  "disable_dynamic_fees env adm s = Ok (u, t) \<Longrightarrow>
     TotalLp t = TotalLp s \<and> ReserveA t = ReserveA s \<and> ReserveB t = ReserveB s"
  by (auto simp: disable_dynamic_fees_def amm_setters Let_def)

text \<open>
  C2. No reachable operation dilutes the LP holders: the product of the reserves per squared LP
  token never decreases, whoever calls whatever.
\<close>

theorem amm_lp_share_monotone:
  assumes "amm_step\<^sup>*\<^sup>* empty_pool s" "amm_step s t"
  shows "get_reserve_a s * get_reserve_b s * (get_total_lp t)\<^sup>2
       \<le> get_reserve_a t * get_reserve_b t * (get_total_lp s)\<^sup>2"
proof -
  have inv: "amm_inv s" by (rule amm.reachable_Inv [OF assms(1)])
  with assms(2) show ?thesis
  proof cases
    case (add env p a b min_lp m)
    then show ?thesis using inv by (auto intro: backed_product backed_add amm_inv_add(1))
  next
    case (remove env p l min_a min_b r)
    then show ?thesis using inv by (auto intro: backed_product backed_remove amm_inv_remove)
  qed (use inv in \<open>auto simp: swap_Ok swap_with_limits_Ok intro: swap_product_share
        idle_frame_product [OF pool_initialize_frame] idle_frame_product [OF initialize_nft_frame]
        idle_frame_product [OF configure_frame] idle_frame_product [OF disable_frame]
        idle_frame_product [OF update_floor_price_frame]\<close>)
qed


theorem amm_lp_share_monotone_witness:
  "get_reserve_a demo_pool2 * get_reserve_b demo_pool2 * (get_total_lp demo_pool3)\<^sup>2
     \<le> get_reserve_a demo_pool3 * get_reserve_b demo_pool3 * (get_total_lp demo_pool2)\<^sup>2"
  by (rule amm_lp_share_monotone [OF demo_pool_reachable(1) amm_step.configure [OF demo_configure]])

section \<open>Quotes and round trips\<close>

text \<open>The preview entry points tell the truth: a swap that succeeds pays exactly what
  \<open>get_amount_out\<close> announces in the same state, at a fee, price impact and time within the
  caller's limits.\<close>

theorem amm_quote_is_execution:
  assumes "swap_with_limits env p tok a min_out max_fee dl s = Ok (out, t)"
  shows "get_amount_out env a tok s = Ok out \<and> min_out \<le> out \<and> timestamp env \<le> dl
       \<and> (\<exists>q. quote_dynamic_swap env a tok s = Ok q \<and> amount_out q = out \<and> fee_bps q \<le> max_fee
              \<and> get_total_fees t = get_total_fees s + (a * fee_bps q) sdiv 10000)
       \<and> get_total_volume t = get_total_volume s + a \<and> Lp t = Lp s \<and> TotalLp t = TotalLp s"
proof -
  have init: "is_initialized s" and
    e: "execute_swap env tok a min_out (Some max_fee) (Some dl) s = Ok (out, t)"
    using assms by (auto simp: swap_with_limits_Ok)
  obtain ri ro dir q where
    r: "reserves_for_token_in tok s = Ok (ri, ro, dir)" and
    q: "build_swap_quote env a ri ro s = Ok q" and
    c: "commit_swap env dir ri ro a q s = Ok (out, t)" and m: "min_out \<le> amount_out q" and
    lim: "fee_bps q \<le> max_fee" "timestamp env \<le> dl"
    using e by (rule execute_swap_Ok) auto
  note cs = commit_swap_Ok [OF c]
  have "get_amount_out env a tok s = Ok out" "quote_dynamic_swap env a tok s = Ok q"
    using init r q cs(1) by (auto simp: get_amount_out_def quote_dynamic_swap_def ensure_initialized_def)
  with cs m lim show ?thesis by (auto simp: same_book_def)
qed

theorem amm_quote_is_execution_witness:
  "\<exists>out. get_amount_out (demo_env 130) 100 10 demo_pool3 = Ok out \<and> 1 \<le> out"
  using amm_quote_is_execution [OF is_ok_pair [OF demo_swap_ok]] by blast

text \<open>
  Depositing and at once withdrawing the minted LP tokens never pays out more than was
  deposited, on either side, once the pool has liquidity.
\<close>

theorem amm_add_remove_no_profit:
  assumes "amm_step\<^sup>*\<^sup>* empty_pool s" "get_total_lp s \<noteq> 0"
    and "add_liquidity env p a b min_lp s = Ok (m, t)"
    and "remove_liquidity env' p m min_a min_b t = Ok ((oa, ob), u)"
  shows "oa \<le> a \<and> ob \<le> b \<and> get_total_lp u = get_total_lp s \<and> get_lp u p = get_lp s p"
proof -
  have inv: "amm_inv s" by (rule amm.reachable_Inv [OF assms(1)])
  note add = add_liquidity_Ok [OF assms(3)]
  note inv' = amm_inv_add(1) [OF assms(3) inv]
  note rem = remove_liquidity_Ok [OF assms(4)]
  note out = remove_liquidity_out [OF assms(4) inv']
  define ra rb T where "ra = get_reserve_a s" and "rb = get_reserve_b s" and "T = get_total_lp s"
  have pos: "0 < ra" "0 < rb" "0 < T"
    using inv assms(2) amm_inv_supply(1) [OF inv] by (auto simp: amm_inv_def ra_def rb_def T_def)
  have "m \<le> a * T div ra" "m \<le> b * T div rb" and T': "get_total_lp t = T + m"
    using add(3,4,9) assms(2) pos by (auto simp: ra_def rb_def T_def)
  then have m: "m * ra \<le> a * T" "m * rb \<le> b * T"
    using pos div_mult_le [of ra "a * T"] div_mult_le [of rb "b * T"]
    by (meson dual_order.trans less_imp_le mult_right_mono)+
  have le: "o' \<le> x" if "o' * (T + m) \<le> m * (r + x)" "m * r \<le> x * T" for o' x r
  proof -
    have "m * (r + x) \<le> x * (T + m)" using that(2) by (simp add: algebra_simps)
    with that(1) have "o' * (T + m) \<le> x * (T + m)" by linarith
    then show ?thesis using pos rem(3) by (simp add: mult_le_cancel_right)
  qed
  have "oa \<le> a" using out(5) m(1) T' add(6) by (intro le [of oa ra a]) (simp_all add: ra_def)
  moreover have "ob \<le> b" using out(8) m(2) T' add(7) by (intro le [of ob rb b]) (simp_all add: rb_def)
  ultimately show ?thesis using rem(12,13) add(8) T' by (auto simp: get_lp_def T_def)
qed

theorem amm_add_remove_no_profit_witness:
  "\<exists>oa ob. (\<exists>m t u. add_liquidity (demo_env 130) 5 300 500 1 demo_pool2 = Ok (m, t)
      \<and> remove_liquidity (demo_env 131) 5 m 0 0 t = Ok ((oa, ob), u)) \<and> oa \<le> 300 \<and> ob \<le> 500"
proof -
  define t where "t = snd (the_ok (add_liquidity (demo_env 130) 5 300 500 1 demo_pool2))"
  have add: "add_liquidity (demo_env 130) 5 300 500 1 demo_pool2 = Ok (300, t)"
    using is_ok_pair [OF demo_remove_ok(1)] demo_remove_ok(3) by (simp add: t_def)
  obtain oa ob u where rem: "remove_liquidity (demo_env 131) 5 300 0 0 t = Ok ((oa, ob), u)"
    using demo_remove_ok(2) by (auto simp: t_def)
  have "get_total_lp demo_pool2 \<noteq> 0" by (simp add: demo_pool_defs amm_getters)
  from amm_add_remove_no_profit [OF demo_pool_reachable(1) this add rem] add rem show ?thesis by blast
qed

section \<open>No division by zero\<close>

lemma never_isqrt:
  assumes "0 < a" "0 < b"
  shows "never DivideByZero (isqrt a b)"
proof (cases "a * b < i128_max")
  case True
  then show ?thesis using isqrt_exact [OF assms] by (auto simp: never_def)
next
  case False
  then have "\<not> in_i128 (a * b + 1)" by (simp add: in_i128_def)
  then show ?thesis by (auto simp: isqrt_def Let_def never_def)
qed

lemma never_effective_fee: "never DivideByZero (effective_fee env a r s)"
  unfolding effective_fee_def utilization_of_def decayed_volatility_def Let_def
  by (intro never_intros)

lemma never_constant_product:
  assumes "0 < a" "0 < ra" "0 \<le> fee" "fee < 10000"
  shows "never DivideByZero (constant_product_amount_out a ra rb fee)"
proof -
  have "0 < ra * 10000 + a * (10000 - fee)" using assms by (intro add_pos_pos) auto
  then show ?thesis
    unfolding constant_product_amount_out_def by (intro never_intros) auto
qed

lemma never_build_swap_quote:
  assumes "fees_ok s"
  shows "never DivideByZero (build_swap_quote env a ri ro s)"
  unfolding build_swap_quote_def
  by (intro never_intros never_effective_fee never_constant_product)
    (auto dest: effective_fee_bounds(1,2) [OF _ assms])

lemma never_commit_swap: "never DivideByZero (commit_swap env dir ri ro a q s)"
  unfolding commit_swap_def update_twap_def update_volatility_def spot_price_def
    decayed_volatility_def record_swap_metrics_def Let_def
  by (intro never_intros) auto

lemma never_execute_swap:
  "fees_ok s \<Longrightarrow> never DivideByZero (execute_swap env tok a min_out max_fee dl s)"
  unfolding execute_swap_def reserves_for_token_in_def get_token_a_def get_token_b_def
  by (intro never_intros never_commit_swap never_build_swap_quote)

lemma never_add_liquidity:
  assumes "amm_inv s"
  shows "never DivideByZero (add_liquidity env p a b min_lp s)"
proof -
  have "get_reserve_a s \<noteq> 0" "get_reserve_b s \<noteq> 0" if "get_total_lp s \<noteq> 0"
    using assms that by (auto simp: amm_inv_def)
  then show ?thesis
    unfolding add_liquidity_def ensure_initialized_def Let_def
    by (intro never_intros never_isqrt) auto
qed

lemma never_remove_liquidity:
  assumes "amm_inv s"
  shows "never DivideByZero (remove_liquidity env p l min_a min_b s)"
proof -
  have "get_total_lp s \<noteq> 0" if "0 < l" "l \<le> get_lp s p"
    using assms that bal_le_total [of "Lp s" p] by (auto simp: amm_inv_def get_lp_def split: if_splits)
  then show ?thesis
    unfolding remove_liquidity_def ensure_initialized_def Let_def
    by (intro never_intros) auto
qed

text \<open>
  In reachable states no liquidity operation, swap or preview divides by zero, although the
  code divides by reserves and by the LP supply without testing them.
\<close>

theorem amm_never_divides_by_zero:
  assumes "amm_step\<^sup>*\<^sup>* empty_pool s"
  shows "add_liquidity env p a b min_lp s \<noteq> Trap DivideByZero
       \<and> remove_liquidity env p l min_a min_b s \<noteq> Trap DivideByZero
       \<and> swap env p tok a min_out s \<noteq> Trap DivideByZero
       \<and> swap_with_limits env p tok a min_out max_fee dl s \<noteq> Trap DivideByZero
       \<and> get_amount_out env a tok s \<noteq> Trap DivideByZero"
proof -
  have inv: "amm_inv s" by (rule amm.reachable_Inv [OF assms])
  note fees = amm_inv_fees [OF inv]
  have "never DivideByZero (swap env p tok a min_out s)"
    "never DivideByZero (swap_with_limits env p tok a min_out max_fee dl s)"
    "never DivideByZero (get_amount_out env a tok s)"
    unfolding swap_def swap_with_limits_def get_amount_out_def ensure_initialized_def
      reserves_for_token_in_def get_token_a_def get_token_b_def
    by (intro never_intros never_execute_swap never_build_swap_quote fees; simp)+
  then show ?thesis
    using never_add_liquidity [OF inv] never_remove_liquidity [OF inv] by (simp add: never_def)
qed

theorem amm_never_divides_by_zero_witness:
  "remove_liquidity (demo_env 140) 2 1000 0 0 demo_pool3 \<noteq> Trap DivideByZero"
  using amm_never_divides_by_zero [OF demo_pool_reachable(2)] by blast

section \<open>Authorisation of the analytics entry points\<close>

text \<open>
  The \<open>admin\<close> argument of \<open>update_floor_price\<close> is never compared with the stored admin: any
  address that signs for itself sets the floor price of an initialised pool. \<open>initialize_nft\<close> on
  an initialised pool asks for no signature at all and replaces the collection and its statistics.
\<close>

theorem amm_analytics_unprotected:
  assumes "is_initialized s"
  shows "(auth env anyone \<and> 0 \<le> v \<longrightarrow>
            (\<exists>t. update_floor_price env anyone v s = Ok ((), t) \<and> get_floor_price t = v))
       \<and> (\<exists>t. initialize_nft env anyone ta tb nft fee s = Ok ((), t)
              \<and> get_nft_collection t = Some nft \<and> NftCollection t = Some nft \<and> Admin t = Admin s)"
  using assms
  by (auto simp: update_floor_price_def initialize_nft_def ensure_initialized_def require_auth_def
      amm_setters amm_getters Let_def split: option.splits)


theorem amm_analytics_unprotected_witness:
  "(\<exists>t. update_floor_price (demo_env 140) 66 5 demo_pool3 = Ok ((), t) \<and> get_floor_price t = 5)
   \<and> Admin demo_pool3 = Some 1"
proof -
  have "is_initialized demo_pool3" by (simp add: demo_pool_defs amm_getters)
  from amm_analytics_unprotected [OF this, of "demo_env 140" 66 5] show ?thesis
    by (simp add: demo_env_def demo_pool3_def demo_pool2_def demo_pool1_def)
qed

section \<open>Volatility stays a percentage\<close>

definition vol_ok :: "amm_state \<Rightarrow> bool" where
  "vol_ok s \<longleftrightarrow> (\<forall>v. VolState s = Some v \<longrightarrow>
      0 \<le> ema_volatility_bps v \<and> ema_volatility_bps v \<le> 10000 \<and> 0 \<le> last_price v)"

lemma vol_ok_state:
  "vol_ok s \<Longrightarrow> 0 \<le> ema_volatility_bps (get_volatility_state env s)
     \<and> ema_volatility_bps (get_volatility_state env s) \<le> 10000
     \<and> 0 \<le> last_price (get_volatility_state env s)"
  by (cases "VolState s") (auto simp: vol_ok_def get_volatility_state_def)

text \<open>Decay scales the stored value by the part of the window that is left.\<close>

lemma decayed_volatility_range:
  assumes "decayed_volatility env c s = Ok v" "vol_ok s"
  shows "0 \<le> v" "v \<le> ema_volatility_bps (get_volatility_state env s)" "v \<le> 10000"
proof -
  define e where "e = ema_volatility_bps (get_volatility_state env s)"
  define w where "w = int (volatility_window c)"
  have e: "0 \<le> e" "e \<le> 10000" using vol_ok_state [OF assms(2)] by (simp_all add: e_def)
  define left where "left = w - int (u64_saturating_sub (timestamp env)
    (last_timestamp (get_volatility_state env s)))"
  have "v = 0 \<or> (0 \<le> left \<and> left \<le> w \<and> 0 < w \<and> v = (e * left) sdiv w)"
    using assms(1)
    by (auto simp: decayed_volatility_def Let_def e_def w_def left_def simp del: guard_Ok split: if_splits)
  moreover have "0 \<le> (e * left) sdiv w \<and> (e * left) sdiv w \<le> e"
    if "0 \<le> left" "left \<le> w" "0 < w"
    using that e by (auto simp: pos_imp_zdiv_nonneg_iff intro!: div_mono_mult mult_left_mono)
  ultimately have "0 \<le> v \<and> v \<le> e" using e by auto
  then show "0 \<le> v" "v \<le> ema_volatility_bps (get_volatility_state env s)" "v \<le> 10000"
    using e by (auto simp: e_def)
qed

lemma spot_price_nonneg: "spot_price ra rb = Ok p \<Longrightarrow> 0 \<le> p"
  by (auto simp: spot_price_def PRICE_PRECISION_def pos_imp_zdiv_nonneg_iff)

text \<open>A weighted average of two percentages is a percentage.\<close>

lemma ema_range:
  fixes r l w :: int
  assumes "0 \<le> r" "r \<le> 10000" "0 \<le> l" "l \<le> 10000" "1 \<le> w" "w \<le> 10000"
  shows "0 \<le> (r * (10000 - w) + l * w) div 10000 \<and> (r * (10000 - w) + l * w) div 10000 \<le> 10000"
proof -
  define a b where "a = r * (10000 - w)" and "b = l * w"
  have "a \<le> 10000 * (10000 - w)" unfolding a_def using assms by (intro mult_right_mono) auto
  then have "a \<le> 100000000 - 10000 * w" by (simp add: right_diff_distrib)
  moreover have "b \<le> 10000 * w" unfolding b_def using assms by (intro mult_right_mono) auto
  moreover have "0 \<le> a" "0 \<le> b" using assms by (auto simp: a_def b_def)
  ultimately have "0 \<le> a + b" "a + b \<le> 100000000" by linarith+
  then have "0 \<le> (a + b) div 10000" "(a + b) div 10000 \<le> 10000"
    by (simp_all add: pos_imp_zdiv_nonneg_iff div_mono_mult)
  then show ?thesis by (simp add: a_def b_def)
qed

text \<open>The stages of a volatility update.\<close>

lemma update_volatility_stages:
  assumes "update_volatility env ra rb s = Ok t" "DynFeeConfig s = Some c"
  shows "\<exists>price recent absret ema. spot_price ra rb = Ok price
     \<and> decayed_volatility env c s = Ok recent \<and> (0 \<le> absret \<and> absret \<le> BPS)
     \<and> ema = (recent * (BPS - ema_alpha_bps c) + absret * ema_alpha_bps c) sdiv BPS
     \<and> t = set_volatility_state (get_volatility_state env s
           \<lparr>ema_volatility_bps := ema, last_price := price, last_timestamp := timestamp env\<rparr>) s"
proof -
  define st where "st = get_volatility_state env s"
  define ret :: "int \<Rightarrow> (amm_error, int) outcome" where "ret price =
    (if last_price st = 0 then Ok 0
     else and_then (ok_or Overflow
       (Option.bind (u128_checked_mul (nat \<bar>price - last_price st\<bar>) (nat BPS)) (\<lambda>value.
        Option.bind (u128_checked_div value (as_u128 (last_price st))) (\<lambda>value.
        i128_of_u128 value)))) (\<lambda>r. Ok (min r BPS)))" for price
  have ret: "0 \<le> r \<and> r \<le> BPS" if "ret price = Ok r" for price r
    using that by (auto simp: ret_def BPS_def split: if_splits)
  from assms have "and_then (spot_price ra rb) (\<lambda>price.
     and_then (decayed_volatility env c s) (\<lambda>recent. and_then (ret price) (\<lambda>absret.
     and_then (i128_sub BPS (ema_alpha_bps c)) (\<lambda>keep.
     and_then (ok_or Overflow (checked_mul recent keep)) (\<lambda>retained.
     and_then (ok_or Overflow (checked_mul absret (ema_alpha_bps c))) (\<lambda>latest.
     and_then (ok_or Overflow
       (Option.bind (checked_add retained latest) (\<lambda>value. checked_div value BPS))) (\<lambda>ema.
     Ok (set_volatility_state (st\<lparr>ema_volatility_bps := ema, last_price := price,
           last_timestamp := timestamp env\<rparr>) s)))))))) = Ok t"
    by (simp only: update_volatility_def get_dynamic_fee_config_def Let_def ret_def st_def option.case)
  then show ?thesis using ret by (auto simp flip: st_def) blast
qed

lemma update_volatility_vol_ok:
  assumes "update_volatility env ra rb s = Ok t" "vol_ok s" "fees_ok s"
  shows "vol_ok t"
proof (cases "DynFeeConfig s")
  case None
  with assms show ?thesis by (simp add: update_volatility_def get_dynamic_fee_config_def)
next
  case (Some c)
  define st where "st = get_volatility_state env s"
  obtain price recent absret ema where
    p: "spot_price ra rb = Ok price" and r: "decayed_volatility env c s = Ok recent" and
    a: "0 \<le> absret \<and> absret \<le> BPS" and
    e: "ema = (recent * (BPS - ema_alpha_bps c) + absret * ema_alpha_bps c) sdiv BPS" and
    t: "t = set_volatility_state (st\<lparr>ema_volatility_bps := ema, last_price := price,
              last_timestamp := timestamp env\<rparr>) s"
    using update_volatility_stages [OF assms(1) Some] unfolding st_def by blast
  have c: "1 \<le> ema_alpha_bps c" "ema_alpha_bps c \<le> 10000"
    using assms(3) Some by (auto simp: fees_ok_def config_ok_iff)
  have absret: "0 \<le> absret" "absret \<le> 10000" using a by (auto simp: BPS_def)
  with decayed_volatility_range [OF r assms(2)] c
  have "0 \<le> (recent * (10000 - ema_alpha_bps c) + absret * ema_alpha_bps c) div 10000 \<and>
        (recent * (10000 - ema_alpha_bps c) + absret * ema_alpha_bps c) div 10000 \<le> 10000"
    by (intro ema_range) auto
  moreover have "ema = (recent * (10000 - ema_alpha_bps c) + absret * ema_alpha_bps c) div 10000"
    using decayed_volatility_range(1) [OF r assms(2)] absret c
    unfolding e BPS_def by (intro sdiv_pos) auto
  ultimately show ?thesis
    using spot_price_nonneg [OF p] by (simp add: t vol_ok_def set_volatility_state_def)
qed

lemma commit_swap_vol_ok:
  assumes "commit_swap env dir ri ro a q s = Ok (out, t)" "vol_ok s" "fees_ok s"
  shows "vol_ok t"
proof -
  obtain ra rb s2 s3 s4 where
    b: "update_twap env (get_reserve_a s) (get_reserve_b s) (set_reserve_b rb (set_reserve_a ra s)) = Ok s2"
      "update_volatility env ra rb s2 = Ok s3" "record_swap_metrics a (fee_bps q) s3 = Ok s4" and
    t: "t = publish (Ev_swap out) s4 \<or> (\<exists>e. t = publish e (publish (Ev_swap out) s4))"
    using commit_swap_stages [OF assms(1) refl refl] by blast
  have "VolState s2 = VolState s" "same_book (set_reserve_b rb (set_reserve_a ra s)) s2"
    using update_twap_frame [OF b(1)] by (auto simp: set_reserve_a_def set_reserve_b_def)
  then have "vol_ok s2" "fees_ok s2"
    using assms(2,3) by (auto simp: vol_ok_def fees_ok_def same_book_def amm_getters amm_setters)
  then have "vol_ok s3" by (rule update_volatility_vol_ok [OF b(2)])
  then have "vol_ok s4" using record_swap_metrics_frame [OF b(3)] by (simp add: vol_ok_def)
  with t show ?thesis by (auto simp: vol_ok_def)
qed

lemma configure_vol_ok:
  assumes "configure_dynamic_fees env adm cfg s = Ok (u, t)" "vol_ok s"
  shows "vol_ok t"
proof -
  have "VolState t = VolState s \<or> (\<exists>p. 0 \<le> p \<and> VolState t =
      Some (get_volatility_state env s\<lparr>last_price := p, last_timestamp := timestamp env\<rparr>))"
    using assms(1)
    by (auto simp: configure_dynamic_fees_def amm_setters get_volatility_state_def Let_def
        simp del: guard_Ok split: if_splits dest: spot_price_nonneg)
  with vol_ok_state [OF assms(2), of env] assms(2) show ?thesis by (auto simp: vol_ok_def)
qed

lemma other_steps_vol:
  "initialize env adm ta tb fee s = Ok (u, t) \<Longrightarrow> VolState t = VolState s"
  "disable_dynamic_fees env adm s = Ok (u, t) \<Longrightarrow> VolState t = VolState s"
  "add_liquidity env p a b min_lp s = Ok (m, t) \<Longrightarrow> VolState t = VolState s"
  "remove_liquidity env p l min_a min_b s = Ok (r, t) \<Longrightarrow> VolState t = VolState s"
  "update_floor_price env adm v s = Ok (u, t) \<Longrightarrow> VolState t = VolState s"
  by (auto simp: disable_dynamic_fees_def add_liquidity_def remove_liquidity_def
      update_floor_price_def amm_setters Let_def dest: pool_initialize_Ok(6)
      simp del: arith_outcomes split: if_splits option.splits)

lemma initialize_nft_vol:
  assumes "initialize_nft env adm ta tb nft fee s = Ok (u, t)"
  shows "VolState t = VolState s"
  using assms other_steps_vol(1)
  by (fastforce simp: initialize_nft_def amm_setters Let_def simp del: guard_Ok split: if_splits)

lemma amm_step_vol: "amm_inv s \<and> vol_ok s \<Longrightarrow> amm_step s t \<Longrightarrow> amm_inv t \<and> vol_ok t"
proof (intro conjI)
  assume a: "amm_inv s \<and> vol_ok s" "amm_step s t"
  then show "amm_inv t" by (auto intro: amm_step_inv)
  have keep: "vol_ok t" if "VolState t = VolState s" using that a by (simp add: vol_ok_def)
  have sw: "vol_ok t" if "execute_swap env tok x mo mf dl s = Ok (out, t)" for env tok x mo mf dl out
    using that a by (auto elim!: execute_swap_Ok intro: commit_swap_vol_ok amm_inv_fees)
  from a(2) show "vol_ok t"
    by cases (use a keep sw in \<open>auto simp: swap_Ok swap_with_limits_Ok
        dest: other_steps_vol initialize_nft_vol configure_vol_ok\<close>)
qed

interpretation amm_volatility: contract_machine empty_pool amm_step "\<lambda>s. amm_inv s \<and> vol_ok s"
proof (unfold_locales)
  show "amm_inv empty_pool \<and> vol_ok empty_pool"
    by (simp add: amm_inv_empty) (simp add: vol_ok_def empty_pool_def)
qed (rule amm_step_vol)

text \<open>
  The volatility observation is a percentage in every reachable state, it only decays between
  swaps, and the fee a quote charges stays inside the configured bounds (below 100 percent).
\<close>

theorem amm_dynamic_fee_bounded:
  assumes "amm_step\<^sup>*\<^sup>* empty_pool s" "build_swap_quote env a ri ro s = Ok q"
    and "DynFeeConfig s = Some c" "decayed_volatility env c s = Ok v"
  shows "min_fee_bps c \<le> fee_bps q \<and> fee_bps q \<le> max_fee_bps c \<and> fee_bps q < BPS
       \<and> 0 \<le> v \<and> v \<le> ema_volatility_bps (get_volatility_state env s)
       \<and> ema_volatility_bps (get_volatility_state env s) \<le> BPS"
proof -
  have inv: "amm_inv s" "vol_ok s" using amm_volatility.reachable_Inv [OF assms(1)] by auto
  obtain vol util where fee: "effective_fee env a ri s = Ok (fee_bps q, vol, util)"
    using build_swap_quote_Ok(5) [OF assms(2)] by blast
  show ?thesis
    using effective_fee_bounds [OF fee amm_inv_fees [OF inv(1)]] assms(3)
      decayed_volatility_range [OF assms(4) inv(2)] vol_ok_state [OF inv(2), of env]
    by (auto simp: BPS_def)
qed

theorem amm_dynamic_fee_bounded_witness:
  "min_fee_bps demo_config \<le> fee_bps pool_demo_quote \<and> fee_bps pool_demo_quote \<le> max_fee_bps demo_config"
proof -
  have "DynFeeConfig demo_pool3 = Some demo_config" by (simp add: demo_pool3_def)
  from amm_dynamic_fee_bounded [OF demo_pool_reachable(2) pool_demo_quote this demo_decayed]
  show ?thesis by simp
qed

end
