(* ===== verification/Multisig_Wallet.thy ===== *)
theory Multisig_Wallet
  imports Soroban_Prelude
begin

text \<open>
  The M-of-N wallet of \<open>contracts/multisig-wallet\<close>: storage accessors (\<open>src/storage.rs\<close>,
  \<open>src/types.rs\<close>) and every entry point of \<open>src/lib.rs\<close>. The persistent keys
  \<open>OwnerAt(i)\<close>, \<open>IsOwner(a)\<close>, \<open>Transaction(id)\<close> and \<open>Confirmation(id, a)\<close> are finite maps.
\<close>

section \<open>Types and storage\<close>

datatype ms_error =
    AlreadyInitialized | NotInitialized | Unauthorized | OwnerRequired | OwnerExists
  | OwnerNotFound | DuplicateOwner | SelfRemoval | InvalidThreshold | InvalidDelay | InvalidValue
  | EmptyData | DataTooLong | TransactionNotFound | AlreadyConfirmed | NotConfirmed | WrongStatus
  | DelayNotElapsed

datatype TxStatus = Pending | Ready | Executed | Cancelled

record Transaction =
  ident :: nat
  proposer :: address
  target :: address
  value_of :: int
  data :: string
  status :: TxStatus
  confirmations :: nat
  created_at :: nat
  delay :: nat
  execute_after :: nat

datatype ms_event =
    Ev_Init nat nat nat
  | Ev_OwnerAdd address address
  | Ev_OwnerRem address address
  | Ev_ThreshChg address nat
  | Ev_DelayChg address nat nat
  | Ev_Submit nat address
  | Ev_Confirm nat address
  | Ev_Revoke nat address
  | Ev_Execute nat address
  | Ev_Cancel nat address

record ms_state =
  Initialized :: "bool option"
  Threshold :: "nat option"
  MinDelay :: "nat option"
  MaxDelay :: "nat option"
  OwnerCount :: "nat option"
  TxCount :: "nat option"
  OwnerAt :: "nat \<rightharpoonup> address"
  IsOwner :: "address \<rightharpoonup> bool"
  Transactions :: "nat \<rightharpoonup> Transaction"
  Confirmation :: "nat \<times> address \<rightharpoonup> bool"
  events :: "ms_event list"

definition empty_wallet :: ms_state where
  "empty_wallet = \<lparr>Initialized = None, Threshold = None, MinDelay = None, MaxDelay = None,
     OwnerCount = None, TxCount = None, OwnerAt = Map.empty, IsOwner = Map.empty,
     Transactions = Map.empty, Confirmation = Map.empty, events = []\<rparr>"

definition publish :: "ms_event \<Rightarrow> ms_state \<Rightarrow> ms_state" where
  "publish e s = s\<lparr>events := events s @ [e]\<rparr>"

definition is_initialized :: "ms_state \<Rightarrow> bool" where
  "is_initialized s = (Initialized s \<noteq> None)"
definition set_initialized :: "ms_state \<Rightarrow> ms_state" where
  "set_initialized s = s\<lparr>Initialized := Some True\<rparr>"

definition set_threshold :: "nat \<Rightarrow> ms_state \<Rightarrow> ms_state" where
  "set_threshold t s = s\<lparr>Threshold := Some t\<rparr>"
definition get_threshold :: "ms_state \<Rightarrow> nat" where
  "get_threshold s = unwrap_or 1 (Threshold s)"

definition set_min_delay :: "nat \<Rightarrow> ms_state \<Rightarrow> ms_state" where
  "set_min_delay d s = s\<lparr>MinDelay := Some d\<rparr>"
definition get_min_delay :: "ms_state \<Rightarrow> nat" where
  "get_min_delay s = unwrap_or 0 (MinDelay s)"
definition set_max_delay :: "nat \<Rightarrow> ms_state \<Rightarrow> ms_state" where
  "set_max_delay d s = s\<lparr>MaxDelay := Some d\<rparr>"
definition get_max_delay :: "ms_state \<Rightarrow> nat" where
  "get_max_delay s = unwrap_or 0 (MaxDelay s)"

definition get_owner_count :: "ms_state \<Rightarrow> nat" where
  "get_owner_count s = unwrap_or 0 (OwnerCount s)"
definition set_owner_count :: "nat \<Rightarrow> ms_state \<Rightarrow> ms_state" where
  "set_owner_count n s = s\<lparr>OwnerCount := Some n\<rparr>"
definition get_owner_at :: "ms_state \<Rightarrow> nat \<Rightarrow> address option" where
  "get_owner_at s i = OwnerAt s i"
definition set_owner_at :: "nat \<Rightarrow> address \<Rightarrow> ms_state \<Rightarrow> ms_state" where
  "set_owner_at i a s = s\<lparr>OwnerAt := (OwnerAt s)(i \<mapsto> a)\<rparr>"
definition remove_owner_at :: "nat \<Rightarrow> ms_state \<Rightarrow> ms_state" where
  "remove_owner_at i s = s\<lparr>OwnerAt := (OwnerAt s)(i := None)\<rparr>"
definition has_owner :: "ms_state \<Rightarrow> address \<Rightarrow> bool" where
  "has_owner s a = (IsOwner s a \<noteq> None)"
definition set_is_owner :: "address \<Rightarrow> ms_state \<Rightarrow> ms_state" where
  "set_is_owner a s = s\<lparr>IsOwner := (IsOwner s)(a \<mapsto> True)\<rparr>"
definition remove_is_owner :: "address \<Rightarrow> ms_state \<Rightarrow> ms_state" where
  "remove_is_owner a s = s\<lparr>IsOwner := (IsOwner s)(a := None)\<rparr>"

definition get_tx_count :: "ms_state \<Rightarrow> nat" where
  "get_tx_count s = unwrap_or 0 (TxCount s)"
definition set_tx_count :: "nat \<Rightarrow> ms_state \<Rightarrow> ms_state" where
  "set_tx_count n s = s\<lparr>TxCount := Some n\<rparr>"
definition set_tx :: "Transaction \<Rightarrow> ms_state \<Rightarrow> ms_state" where
  "set_tx tx s = s\<lparr>Transactions := (Transactions s)(ident tx \<mapsto> tx)\<rparr>"
definition get_tx :: "ms_state \<Rightarrow> nat \<Rightarrow> (ms_error, Transaction) outcome" where
  "get_tx s i = ok_or TransactionNotFound (Transactions s i)"

definition is_confirmed :: "ms_state \<Rightarrow> nat \<Rightarrow> address \<Rightarrow> bool" where
  "is_confirmed s i a = (Confirmation s (i, a) \<noteq> None)"
definition record_confirmation :: "nat \<Rightarrow> address \<Rightarrow> ms_state \<Rightarrow> ms_state" where
  "record_confirmation i a s = s\<lparr>Confirmation := (Confirmation s)((i, a) \<mapsto> True)\<rparr>"
definition remove_confirmation :: "nat \<Rightarrow> address \<Rightarrow> ms_state \<Rightarrow> ms_state" where
  "remove_confirmation i a s = s\<lparr>Confirmation := (Confirmation s)((i, a) := None)\<rparr>"

lemmas ms_getters =
  is_initialized_def get_threshold_def get_min_delay_def get_max_delay_def get_owner_count_def
  get_owner_at_def has_owner_def get_tx_count_def get_tx_def is_confirmed_def

lemmas ms_setters =
  set_initialized_def set_threshold_def set_min_delay_def set_max_delay_def set_owner_count_def
  set_owner_at_def remove_owner_at_def set_is_owner_def remove_is_owner_def set_tx_count_def
  set_tx_def record_confirmation_def remove_confirmation_def publish_def

section \<open>Private helpers\<close>

definition MAX_DATA_LENGTH :: nat where "MAX_DATA_LENGTH = 256"

definition ensure_initialized :: "ms_state \<Rightarrow> (ms_error, unit) outcome" where
  "ensure_initialized s = (if \<not> is_initialized s then Err NotInitialized else Ok ())"

definition require_owner :: "ms_state \<Rightarrow> address \<Rightarrow> (ms_error, unit) outcome" where
  "require_owner s a = (if \<not> has_owner s a then Err Unauthorized else Ok ())"

text \<open>The common prologue \<open>ensure_initialized; caller.require_auth(); require_owner\<close>.\<close>

definition owner_gate :: "env \<Rightarrow> address \<Rightarrow> ms_state \<Rightarrow> (ms_error, unit) outcome" where
  "owner_gate env a s =
     and_then (ensure_initialized s) (\<lambda>_.
     and_then (require_auth env a) (\<lambda>_. require_owner s a))"

lemma owner_gate_Ok [simp]:
  "owner_gate env a s = Ok u \<longleftrightarrow> is_initialized s \<and> auth env a \<and> has_owner s a"
  by (auto simp: owner_gate_def ensure_initialized_def require_owner_def)

section \<open>Entry points\<close>

text \<open>The two loops of \<open>initialize\<close>: the duplicate check that builds \<open>seen\<close>, then the
  enumeration that stores each owner under its index.\<close>

fun dedup_owners :: "address list \<Rightarrow> address list \<Rightarrow> (ms_error, address list) outcome" where
  "dedup_owners [] seen = Ok seen"
| "dedup_owners (owner # owners) seen =
     (if owner \<in> set seen then Err DuplicateOwner else dedup_owners owners (seen @ [owner]))"

fun persist_owners :: "nat \<Rightarrow> address list \<Rightarrow> ms_state \<Rightarrow> ms_state" where
  "persist_owners i [] s = s"
| "persist_owners i (owner # owners) s =
     persist_owners (Suc i) owners (set_is_owner owner (set_owner_at i owner s))"

definition initialize ::
    "env \<Rightarrow> address list \<Rightarrow> nat \<Rightarrow> nat \<Rightarrow> nat \<Rightarrow> ms_state \<Rightarrow> (ms_error, unit \<times> ms_state) outcome" where
  "initialize env owners threshold min_delay max_delay s =
     (if is_initialized s then Err AlreadyInitialized
      else if owners = [] then Err OwnerRequired
      else if threshold = 0 then Err InvalidThreshold
      else if threshold > length owners then Err InvalidThreshold
      else if min_delay > max_delay then Err InvalidDelay
      else
        and_then (dedup_owners owners []) (\<lambda>seen.
        let s1 = set_owner_count (length seen) s;
            s2 = persist_owners 0 seen s1;
            s3 = set_threshold threshold s2;
            s4 = set_min_delay min_delay s3;
            s5 = set_max_delay max_delay s4;
            s6 = set_tx_count 0 s5;
            s7 = set_initialized s6
        in Ok ((), publish (Ev_Init threshold min_delay max_delay) s7)))"

definition add_owner ::
    "env \<Rightarrow> address \<Rightarrow> address \<Rightarrow> ms_state \<Rightarrow> (ms_error, unit \<times> ms_state) outcome" where
  "add_owner env caller new_owner s =
     and_then (owner_gate env caller s) (\<lambda>_.
     if has_owner s new_owner then Err OwnerExists
     else
       let count = get_owner_count s;
           s1 = set_owner_at count new_owner s;
           s2 = set_is_owner new_owner s1
       in and_then (u32_add count 1) (\<lambda>count'.
          let s3 = set_owner_count count' s2
          in Ok ((), publish (Ev_OwnerAdd caller new_owner) s3)))"

text \<open>The search loop \<open>for i in 0..count\<close> with its \<open>break\<close>.\<close>

fun find_owner :: "ms_state \<Rightarrow> address \<Rightarrow> nat list \<Rightarrow> nat option" where
  "find_owner s owner [] = None"
| "find_owner s owner (i # is) =
     (case get_owner_at s i of
        Some cur \<Rightarrow> if cur = owner then Some i else find_owner s owner is
      | None \<Rightarrow> find_owner s owner is)"

definition remove_owner ::
    "env \<Rightarrow> address \<Rightarrow> address \<Rightarrow> ms_state \<Rightarrow> (ms_error, unit \<times> ms_state) outcome" where
  "remove_owner env caller owner s =
     and_then (owner_gate env caller s) (\<lambda>_.
     if \<not> has_owner s owner then Err OwnerNotFound
     else if caller = owner then Err SelfRemoval
     else
       let count = get_owner_count s in
       and_then (u32_sub count 1) (\<lambda>remaining.
       if remaining < get_threshold s then Err InvalidThreshold
       else
         let idx = find_owner s owner [0..<count];
             s1 = (case idx of
                     None \<Rightarrow> s
                   | Some i \<Rightarrow>
                       let last_idx = remaining;
                           s' = (if i \<noteq> last_idx then
                                   (case get_owner_at s last_idx of
                                      None \<Rightarrow> s
                                    | Some last_owner \<Rightarrow> set_owner_at i last_owner s)
                                 else s)
                       in remove_owner_at last_idx s');
             s2 = remove_is_owner owner s1;
             s3 = set_owner_count remaining s2
         in Ok ((), publish (Ev_OwnerRem caller owner) s3)))"

definition change_threshold ::
    "env \<Rightarrow> address \<Rightarrow> nat \<Rightarrow> ms_state \<Rightarrow> (ms_error, unit \<times> ms_state) outcome" where
  "change_threshold env caller new_threshold s =
     and_then (owner_gate env caller s) (\<lambda>_.
     if new_threshold = 0 then Err InvalidThreshold
     else if new_threshold > get_owner_count s then Err InvalidThreshold
     else Ok ((), publish (Ev_ThreshChg caller new_threshold) (set_threshold new_threshold s)))"

definition update_delays ::
    "env \<Rightarrow> address \<Rightarrow> nat \<Rightarrow> nat \<Rightarrow> ms_state \<Rightarrow> (ms_error, unit \<times> ms_state) outcome" where
  "update_delays env caller min_delay max_delay s =
     and_then (owner_gate env caller s) (\<lambda>_.
     if min_delay > max_delay then Err InvalidDelay
     else Ok ((), publish (Ev_DelayChg caller min_delay max_delay)
                    (set_max_delay max_delay (set_min_delay min_delay s))))"

definition submit_transaction ::
    "env \<Rightarrow> address \<Rightarrow> address \<Rightarrow> int \<Rightarrow> string \<Rightarrow> nat \<Rightarrow> ms_state \<Rightarrow> (ms_error, nat \<times> ms_state) outcome" where
  "submit_transaction env prop targ val dat del s =
     and_then (owner_gate env prop s) (\<lambda>_.
     if val < 0 then Err InvalidValue
     else if dat = [] then Err EmptyData
     else if length dat > MAX_DATA_LENGTH then Err DataTooLong
     else if del < get_min_delay s \<or> del > get_max_delay s then Err InvalidDelay
     else
       let now = timestamp env;
           tid = get_tx_count s;
           tx = \<lparr>ident = tid, proposer = prop, target = targ, value_of = val, data = dat,
                 status = Pending, confirmations = 0, created_at = now, delay = del,
                 execute_after = 0\<rparr>;
           s1 = set_tx tx s
       in and_then (u32_add tid 1) (\<lambda>next.
          let s2 = set_tx_count next s1
          in Ok (tid, publish (Ev_Submit tid prop) s2)))"

definition confirm_transaction ::
    "env \<Rightarrow> address \<Rightarrow> nat \<Rightarrow> ms_state \<Rightarrow> (ms_error, unit \<times> ms_state) outcome" where
  "confirm_transaction env owner tx_id s =
     and_then (owner_gate env owner s) (\<lambda>_.
     and_then (get_tx s tx_id) (\<lambda>tx.
     if status tx \<noteq> Pending then Err WrongStatus
     else if is_confirmed s tx_id owner then Err AlreadyConfirmed
     else
       let s1 = record_confirmation tx_id owner s in
       and_then (u32_add (confirmations tx) 1) (\<lambda>n.
       let tx1 = tx\<lparr>confirmations := n\<rparr> in
       and_then
         (if n \<ge> get_threshold s1 then
            and_then (u64_add (timestamp env) (delay tx1)) (\<lambda>at.
            Ok (tx1\<lparr>status := Ready, execute_after := at\<rparr>))
          else Ok tx1) (\<lambda>tx2.
       let s2 = set_tx tx2 s1
       in Ok ((), publish (Ev_Confirm tx_id owner) s2)))))"

definition revoke_confirmation ::
    "env \<Rightarrow> address \<Rightarrow> nat \<Rightarrow> ms_state \<Rightarrow> (ms_error, unit \<times> ms_state) outcome" where
  "revoke_confirmation env owner tx_id s =
     and_then (owner_gate env owner s) (\<lambda>_.
     and_then (get_tx s tx_id) (\<lambda>tx.
     if status tx \<noteq> Pending \<and> status tx \<noteq> Ready then Err WrongStatus
     else if \<not> is_confirmed s tx_id owner then Err NotConfirmed
     else
       let s1 = remove_confirmation tx_id owner s in
       and_then (u32_sub (confirmations tx) 1) (\<lambda>n.
       let tx1 = tx\<lparr>confirmations := n\<rparr>;
           tx2 = (if status tx1 = Ready \<and> n < get_threshold s1
                  then tx1\<lparr>status := Pending, execute_after := 0\<rparr> else tx1);
           s2 = set_tx tx2 s1
       in Ok ((), publish (Ev_Revoke tx_id owner) s2))))"

definition execute_transaction ::
    "env \<Rightarrow> address \<Rightarrow> nat \<Rightarrow> ms_state \<Rightarrow> (ms_error, unit \<times> ms_state) outcome" where
  "execute_transaction env caller tx_id s =
     and_then (owner_gate env caller s) (\<lambda>_.
     and_then (get_tx s tx_id) (\<lambda>tx.
     if status tx \<noteq> Ready then Err WrongStatus
     else if timestamp env < execute_after tx then Err DelayNotElapsed
     else Ok ((), publish (Ev_Execute tx_id caller) (set_tx (tx\<lparr>status := Executed\<rparr>) s))))"

definition cancel_transaction ::
    "env \<Rightarrow> address \<Rightarrow> nat \<Rightarrow> ms_state \<Rightarrow> (ms_error, unit \<times> ms_state) outcome" where
  "cancel_transaction env caller tx_id s =
     and_then (owner_gate env caller s) (\<lambda>_.
     and_then (get_tx s tx_id) (\<lambda>tx.
     if status tx = Executed \<or> status tx = Cancelled then Err WrongStatus
     else Ok ((), publish (Ev_Cancel tx_id caller) (set_tx (tx\<lparr>status := Cancelled\<rparr>) s))))"

subsection \<open>Read-only entry points\<close>

fun collect_owners :: "ms_state \<Rightarrow> nat list \<Rightarrow> address list \<Rightarrow> address list" where
  "collect_owners s [] out = out"
| "collect_owners s (i # is) out =
     collect_owners s is (case get_owner_at s i of Some a \<Rightarrow> out @ [a] | None \<Rightarrow> out)"

definition get_owners :: "ms_state \<Rightarrow> (ms_error, address list) outcome" where
  "get_owners s = and_then (ensure_initialized s) (\<lambda>_.
     Ok (collect_owners s [0..<get_owner_count s] []))"

definition pub_get_owner_count :: "ms_state \<Rightarrow> (ms_error, nat) outcome" where
  "pub_get_owner_count s = and_then (ensure_initialized s) (\<lambda>_. Ok (get_owner_count s))"
definition is_owner :: "address \<Rightarrow> ms_state \<Rightarrow> (ms_error, bool) outcome" where
  "is_owner a s = and_then (ensure_initialized s) (\<lambda>_. Ok (has_owner s a))"
definition pub_get_threshold :: "ms_state \<Rightarrow> (ms_error, nat) outcome" where
  "pub_get_threshold s = and_then (ensure_initialized s) (\<lambda>_. Ok (get_threshold s))"
definition pub_get_min_delay :: "ms_state \<Rightarrow> (ms_error, nat) outcome" where
  "pub_get_min_delay s = and_then (ensure_initialized s) (\<lambda>_. Ok (get_min_delay s))"
definition pub_get_max_delay :: "ms_state \<Rightarrow> (ms_error, nat) outcome" where
  "pub_get_max_delay s = and_then (ensure_initialized s) (\<lambda>_. Ok (get_max_delay s))"
definition get_transaction :: "nat \<Rightarrow> ms_state \<Rightarrow> (ms_error, Transaction) outcome" where
  "get_transaction i s = and_then (ensure_initialized s) (\<lambda>_. get_tx s i)"
definition get_transaction_count :: "ms_state \<Rightarrow> (ms_error, nat) outcome" where
  "get_transaction_count s = and_then (ensure_initialized s) (\<lambda>_. Ok (get_tx_count s))"
definition pub_is_confirmed :: "nat \<Rightarrow> address \<Rightarrow> ms_state \<Rightarrow> (ms_error, bool) outcome" where
  "pub_is_confirmed i a s = and_then (ensure_initialized s) (\<lambda>_. Ok (is_confirmed s i a))"

section \<open>The wallet as a state machine\<close>

text \<open>
  A configuration is the wallet with the ledger time of its last successful invocation. Ledger
  timestamps never decrease, so each invocation runs at a time no earlier than that.
\<close>

type_synonym ms_config = "nat \<times> ms_state"

inductive ms_call :: "env \<Rightarrow> ms_state \<Rightarrow> ms_state \<Rightarrow> bool" where
  initialize: "initialize env os th mn mx s = Ok (u, t) \<Longrightarrow> ms_call env s t"
| add_owner: "add_owner env c a s = Ok (u, t) \<Longrightarrow> ms_call env s t"
| remove_owner: "remove_owner env c a s = Ok (u, t) \<Longrightarrow> ms_call env s t"
| change_threshold: "change_threshold env c n s = Ok (u, t) \<Longrightarrow> ms_call env s t"
| update_delays: "update_delays env c mn mx s = Ok (u, t) \<Longrightarrow> ms_call env s t"
| submit: "submit_transaction env p tg v d dl s = Ok (i, t) \<Longrightarrow> ms_call env s t"
| confirm: "confirm_transaction env a i s = Ok (u, t) \<Longrightarrow> ms_call env s t"
| revoke: "revoke_confirmation env a i s = Ok (u, t) \<Longrightarrow> ms_call env s t"
| execute: "execute_transaction env a i s = Ok (u, t) \<Longrightarrow> ms_call env s t"
| cancel: "cancel_transaction env a i s = Ok (u, t) \<Longrightarrow> ms_call env s t"

inductive ms_step :: "ms_config \<Rightarrow> ms_config \<Rightarrow> bool" where
  call: "now \<le> timestamp env \<Longrightarrow> ms_call env s t \<Longrightarrow> ms_step (now, s) (timestamp env, t)"

inductive_cases ms_stepE: "ms_step (now, s) c"

end
