(* ===== verification/Multisig_Correct.thy ===== *)
theory Multisig_Correct
  imports Multisig_Wallet
begin

text \<open>
  Correctness of the multisig wallet: the owner registry stays dense and duplicate free with
  \<open>1 \<le> threshold \<le> owner_count\<close>, the confirmation counter of a transaction is the number of
  addresses that confirmed it, the time lock holds for every executed transaction, finished
  transactions never change, and a threshold of distinct confirmations is enough. The last
  section proves what the guards do not give: one owner alone can reconfigure the wallet and
  have any transaction executed.
\<close>

section \<open>The invariant\<close>

definition confirmers :: "ms_state \<Rightarrow> nat \<Rightarrow> address set" where
  "confirmers s i = {a. is_confirmed s i a}"

definition registry_ok :: "ms_state \<Rightarrow> bool" where
  "registry_ok s \<longleftrightarrow>
     (\<forall>i. OwnerAt s i \<noteq> None \<longleftrightarrow> i < get_owner_count s) \<and>
     (\<forall>i j a. OwnerAt s i = Some a \<longrightarrow> OwnerAt s j = Some a \<longrightarrow> i = j) \<and>
     (\<forall>a. has_owner s a \<longleftrightarrow> (\<exists>i. OwnerAt s i = Some a))"

definition threshold_ok :: "ms_state \<Rightarrow> bool" where
  "threshold_ok s \<longleftrightarrow> (is_initialized s \<longrightarrow>
     1 \<le> get_threshold s \<and> get_threshold s \<le> get_owner_count s \<and> get_min_delay s \<le> get_max_delay s)"

definition transaction_ok :: "nat \<Rightarrow> address set \<Rightarrow> nat \<Rightarrow> Transaction \<Rightarrow> bool" where
  "transaction_ok now C i tx \<longleftrightarrow>
     ident tx = i \<and> created_at tx \<le> now \<and> confirmations tx = card C \<and>
     0 \<le> value_of tx \<and> data tx \<noteq> [] \<and> length (data tx) \<le> MAX_DATA_LENGTH \<and>
     (status tx = Pending \<longrightarrow> execute_after tx = 0) \<and>
     (status tx = Ready \<or> status tx = Executed \<longrightarrow>
        1 \<le> confirmations tx \<and> created_at tx + delay tx \<le> execute_after tx) \<and>
     (status tx = Executed \<longrightarrow> execute_after tx \<le> now)"

definition queue_ok :: "nat \<Rightarrow> ms_state \<Rightarrow> bool" where
  "queue_ok now s \<longleftrightarrow>
     (\<forall>i. Transactions s i \<noteq> None \<longleftrightarrow> i < get_tx_count s) \<and>
     (\<forall>i. finite (confirmers s i)) \<and>
     (\<forall>i a. is_confirmed s i a \<longrightarrow> i < get_tx_count s) \<and>
     (\<forall>i tx. Transactions s i = Some tx \<longrightarrow> transaction_ok now (confirmers s i) i tx)"

definition pristine :: "ms_state \<Rightarrow> bool" where
  "pristine s \<longleftrightarrow> (\<not> is_initialized s \<longrightarrow>
     OwnerAt s = Map.empty \<and> IsOwner s = Map.empty \<and> Transactions s = Map.empty \<and>
     Confirmation s = Map.empty)"

fun ms_inv :: "ms_config \<Rightarrow> bool" where
  "ms_inv (now, s) \<longleftrightarrow> registry_ok s \<and> threshold_ok s \<and> queue_ok now s \<and> pristine s"

lemma ms_inv_empty: "ms_inv (0, empty_wallet)"
  by (simp add: empty_wallet_def registry_ok_def threshold_ok_def queue_ok_def pristine_def
      confirmers_def ms_getters)

text \<open>The parts of the invariant read disjoint parts of the storage.\<close>

lemma registry_ok_cong:
  "OwnerAt t = OwnerAt s \<Longrightarrow> IsOwner t = IsOwner s \<Longrightarrow> OwnerCount t = OwnerCount s \<Longrightarrow>
   registry_ok t = registry_ok s"
  by (simp add: registry_ok_def ms_getters)

lemma confirmers_cong: "Confirmation t = Confirmation s \<Longrightarrow> confirmers t = confirmers s"
  by (rule ext) (simp add: confirmers_def is_confirmed_def)

lemma queue_ok_cong:
  "Transactions t = Transactions s \<Longrightarrow> Confirmation t = Confirmation s \<Longrightarrow> TxCount t = TxCount s \<Longrightarrow>
   queue_ok now t = queue_ok now s"
  by (simp add: queue_ok_def confirmers_cong [of t s] ms_getters)

lemma transaction_ok_later: "transaction_ok now C i tx \<Longrightarrow> now \<le> now' \<Longrightarrow> transaction_ok now' C i tx"
  by (auto simp: transaction_ok_def)

lemma queue_ok_later: "queue_ok now s \<Longrightarrow> now \<le> now' \<Longrightarrow> queue_ok now' s"
  unfolding queue_ok_def using transaction_ok_later by blast

text \<open>Replacing one transaction and its confirmations.\<close>

lemma queue_ok_update:
  assumes "queue_ok now s" "Transactions s i = Some tx"
    and "Transactions t = (Transactions s)(i \<mapsto> tx')" "TxCount t = TxCount s"
    and "\<And>j. j \<noteq> i \<Longrightarrow> confirmers t j = confirmers s j" "finite (confirmers t i)"
    and "transaction_ok now (confirmers t i) i tx'"
  shows "queue_ok now t"
proof -
  have i: "i < get_tx_count s" using assms(1,2) by (auto simp: queue_ok_def)
  have cnt: "get_tx_count t = get_tx_count s" using assms(4) by (simp add: get_tx_count_def)
  have conf: "is_confirmed t j a \<Longrightarrow> j < get_tx_count s" for j a
    using assms(1,5) i by (cases "j = i") (auto simp: queue_ok_def confirmers_def set_eq_iff)
  show ?thesis
    unfolding queue_ok_def
  proof (intro conjI allI impI)
    fix j show "(Transactions t j \<noteq> None) = (j < get_tx_count t)"
      using assms(1) i by (auto simp: queue_ok_def assms(3) cnt)
    show "finite (confirmers t j)"
      using assms(1,5,6) by (cases "j = i") (auto simp: queue_ok_def)
    show "is_confirmed t j a \<Longrightarrow> j < get_tx_count t" for a
      using conf by (simp add: cnt)
    show "transaction_ok now (confirmers t j) j x" if "Transactions t j = Some x" for x
      using assms(1,5,7) that by (cases "j = i") (auto simp: queue_ok_def assms(3))
  qed
qed

section \<open>Success of each operation\<close>

lemma add_owner_Ok:
  "add_owner env c a s = Ok (u, t) \<longleftrightarrow>
     owner_gate env c s = Ok () \<and> \<not> has_owner s a \<and> get_owner_count s + 1 \<le> u32_max \<and>
     t = publish (Ev_OwnerAdd c a) (set_owner_count (get_owner_count s + 1)
           (set_is_owner a (set_owner_at (get_owner_count s) a s)))"
  by (auto simp: add_owner_def Let_def)

lemma change_threshold_Ok:
  "change_threshold env c n s = Ok (u, t) \<longleftrightarrow>
     owner_gate env c s = Ok () \<and> n \<noteq> 0 \<and> n \<le> get_owner_count s \<and>
     t = publish (Ev_ThreshChg c n) (set_threshold n s)"
  by (auto simp: change_threshold_def)

lemma update_delays_Ok:
  "update_delays env c mn mx s = Ok (u, t) \<longleftrightarrow>
     owner_gate env c s = Ok () \<and> mn \<le> mx \<and>
     t = publish (Ev_DelayChg c mn mx) (set_max_delay mx (set_min_delay mn s))"
  by (auto simp: update_delays_def)

lemma ms_submit_Ok:
  "submit_transaction env p tg v d dl s = Ok (i, t) \<longleftrightarrow>
     owner_gate env p s = Ok () \<and> 0 \<le> v \<and> d \<noteq> [] \<and> length d \<le> MAX_DATA_LENGTH \<and>
     get_min_delay s \<le> dl \<and> dl \<le> get_max_delay s \<and> i = get_tx_count s \<and> i + 1 \<le> u32_max \<and>
     t = publish (Ev_Submit i p) (set_tx_count (i + 1) (set_tx
           \<lparr>ident = i, proposer = p, target = tg, value_of = v, data = d, status = Pending,
            confirmations = 0, created_at = timestamp env, delay = dl, execute_after = 0\<rparr> s))"
  by (auto simp: submit_transaction_def Let_def)

lemma get_tx_Ok [simp]: "get_tx s i = Ok tx \<longleftrightarrow> Transactions s i = Some tx"
  by (simp add: get_tx_def)

definition confirmed_tx :: "env \<Rightarrow> ms_state \<Rightarrow> Transaction \<Rightarrow> Transaction" where
  "confirmed_tx env s tx =
     (if get_threshold s \<le> confirmations tx + 1
      then tx\<lparr>confirmations := confirmations tx + 1, status := Ready,
              execute_after := timestamp env + delay tx\<rparr>
      else tx\<lparr>confirmations := confirmations tx + 1\<rparr>)"

lemma get_threshold_record [simp]:
  "get_threshold (record_confirmation i a s) = get_threshold s"
  "get_threshold (remove_confirmation i a s) = get_threshold s"
  by (simp_all add: ms_getters ms_setters)

lemma confirm_Ok:
  "confirm_transaction env a i s = Ok (u, t) \<longleftrightarrow>
     owner_gate env a s = Ok () \<and>
     (\<exists>tx. Transactions s i = Some tx \<and> status tx = Pending \<and> \<not> is_confirmed s i a \<and>
        confirmations tx + 1 \<le> u32_max \<and>
        (get_threshold s \<le> confirmations tx + 1 \<longrightarrow> timestamp env + delay tx \<le> u64_max) \<and>
        t = publish (Ev_Confirm i a) (set_tx (confirmed_tx env s tx) (record_confirmation i a s)))"
proof (cases "Transactions s i")
  case None
  then show ?thesis by (simp add: confirm_transaction_def get_tx_def)
next
  case (Some tx)
  then show ?thesis
    by (simp add: confirm_transaction_def confirmed_tx_def Let_def get_tx_def eq_commute [of _ t]
        del: owner_gate_Ok cong: conj_cong)
qed

definition revoked_tx :: "ms_state \<Rightarrow> Transaction \<Rightarrow> Transaction" where
  "revoked_tx s tx =
     (if status tx = Ready \<and> confirmations tx - 1 < get_threshold s
      then tx\<lparr>confirmations := confirmations tx - 1, status := Pending, execute_after := 0\<rparr>
      else tx\<lparr>confirmations := confirmations tx - 1\<rparr>)"

lemma revoke_Ok:
  "revoke_confirmation env a i s = Ok (u, t) \<longleftrightarrow>
     owner_gate env a s = Ok () \<and>
     (\<exists>tx. Transactions s i = Some tx \<and> (status tx = Pending \<or> status tx = Ready) \<and>
        is_confirmed s i a \<and> 1 \<le> confirmations tx \<and>
        t = publish (Ev_Revoke i a) (set_tx (revoked_tx s tx) (remove_confirmation i a s)))"
proof (cases "Transactions s i")
  case None
  then show ?thesis by (simp add: revoke_confirmation_def get_tx_def)
next
  case (Some tx)
  then show ?thesis
    by (simp add: revoke_confirmation_def revoked_tx_def Let_def get_tx_def eq_commute [of _ t]
        del: owner_gate_Ok cong: conj_cong)
qed

lemma ms_execute_Ok:
  "execute_transaction env a i s = Ok (u, t) \<longleftrightarrow>
     owner_gate env a s = Ok () \<and>
     (\<exists>tx. Transactions s i = Some tx \<and> status tx = Ready \<and> execute_after tx \<le> timestamp env \<and>
        t = publish (Ev_Execute i a) (set_tx (tx\<lparr>status := Executed\<rparr>) s))"
  by (auto simp: execute_transaction_def)

lemma ms_cancel_Ok:
  "cancel_transaction env a i s = Ok (u, t) \<longleftrightarrow>
     owner_gate env a s = Ok () \<and>
     (\<exists>tx. Transactions s i = Some tx \<and> status tx \<noteq> Executed \<and> status tx \<noteq> Cancelled \<and>
        t = publish (Ev_Cancel i a) (set_tx (tx\<lparr>status := Cancelled\<rparr>) s))"
  by (auto simp: cancel_transaction_def)

section \<open>Every operation keeps the invariant\<close>

text \<open>Operations that leave the queue alone, and operations that leave the registry alone.\<close>

lemma gate_initialized: "owner_gate env a s = Ok () \<Longrightarrow> is_initialized s"
  by simp

lemma inv_registry_change:
  assumes "ms_inv (now, s)" "now \<le> now'" "is_initialized s" "Initialized t = Initialized s"
    and "Transactions t = Transactions s" "Confirmation t = Confirmation s" "TxCount t = TxCount s"
    and "registry_ok t" "threshold_ok t"
  shows "ms_inv (now', t)"
  using assms queue_ok_cong [of t s now'] queue_ok_later [of now s now']
  by (simp add: pristine_def is_initialized_def)

lemma inv_queue_change:
  assumes "ms_inv (now, s)" "is_initialized s" "Initialized t = Initialized s"
    and "OwnerAt t = OwnerAt s" "IsOwner t = IsOwner s" "OwnerCount t = OwnerCount s"
    and "Threshold t = Threshold s" "MinDelay t = MinDelay s" "MaxDelay t = MaxDelay s"
    and "queue_ok now' t"
  shows "ms_inv (now', t)"
  using assms registry_ok_cong [of t s]
  by (simp add: pristine_def threshold_ok_def ms_getters)

lemma inv_add_owner:
  assumes "ms_inv (now, s)" "now \<le> timestamp env" "add_owner env c a s = Ok (u, t)"
  shows "ms_inv (timestamp env, t)"
proof -
  let ?n = "get_owner_count s"
  have t: "OwnerAt t = (OwnerAt s)(?n \<mapsto> a)" "IsOwner t = (IsOwner s)(a \<mapsto> True)"
    "OwnerCount t = Some (?n + 1)" "Threshold t = Threshold s" "MinDelay t = MinDelay s"
    "MaxDelay t = MaxDelay s" "Initialized t = Initialized s" "Transactions t = Transactions s"
    "Confirmation t = Confirmation s" "TxCount t = TxCount s"
    using assms(3) by (simp_all add: add_owner_Ok ms_setters)
  have g: "is_initialized s" "\<not> has_owner s a" using assms(3) by (simp_all add: add_owner_Ok)
  have reg: "registry_ok s" "threshold_ok s" using assms(1) by simp_all
  have fresh: "OwnerAt s i \<noteq> Some a" "OwnerAt s ?n = None" for i
    using reg(1) g(2) by (auto simp: registry_ok_def)
  have "registry_ok t"
    using reg(1) fresh
    by (auto simp: registry_ok_def t get_owner_count_def has_owner_def less_Suc_eq)
      (metis option.distinct(1))
  moreover have "threshold_ok t"
    using reg(2) g(1) by (simp add: threshold_ok_def t ms_getters)
  ultimately show ?thesis
    using inv_registry_change [OF assms(1,2) g(1)] t by blast
qed

lemma inv_settings:
  assumes "ms_inv (now, s)" "now \<le> timestamp env"
    and "change_threshold env c n s = Ok (u, t) \<or> update_delays env c mn mx s = Ok (u, t)"
  shows "ms_inv (timestamp env, t)"
proof -
  have "registry_ok t = registry_ok s"
    using assms(3) by (intro registry_ok_cong) (auto simp: change_threshold_Ok update_delays_Ok ms_setters)
  moreover have "threshold_ok t"
    using assms(1,3) by (auto simp: threshold_ok_def change_threshold_Ok update_delays_Ok ms_setters ms_getters)
  ultimately show ?thesis
    using assms by (intro inv_registry_change [OF assms(1,2)])
      (auto simp: change_threshold_Ok update_delays_Ok ms_setters)
qed

lemma inv_submit:
  assumes "ms_inv (now, s)" "now \<le> timestamp env" "submit_transaction env p tg v d dl s = Ok (i, t)"
  shows "ms_inv (timestamp env, t)"
proof -
  define tx where "tx = \<lparr>ident = i, proposer = p, target = tg, value_of = v, data = d,
      status = Pending, confirmations = 0, created_at = timestamp env, delay = dl, execute_after = 0\<rparr>"
  have r: "is_initialized s" "0 \<le> v" "d \<noteq> []" "length d \<le> MAX_DATA_LENGTH" "i = get_tx_count s"
    using assms(3) by (simp_all add: ms_submit_Ok)
  have t: "Transactions t = (Transactions s)(i \<mapsto> tx)" "Confirmation t = Confirmation s"
    "TxCount t = Some (i + 1)"
    "OwnerAt t = OwnerAt s" "IsOwner t = IsOwner s" "OwnerCount t = OwnerCount s"
    "Threshold t = Threshold s" "MinDelay t = MinDelay s" "MaxDelay t = MaxDelay s"
    "Initialized t = Initialized s"
    using assms(3) by (simp_all add: ms_submit_Ok ms_setters tx_def)
  have q: "queue_ok (timestamp env) s" using assms(1,2) by (auto intro: queue_ok_later)
  have "is_confirmed s i a \<Longrightarrow> False" for a
    using q r(5) by (auto simp: queue_ok_def)
  then have none: "confirmers s i = {}" by (auto simp: confirmers_def)
  have "transaction_ok (timestamp env) {} i tx"
    using r by (simp add: transaction_ok_def tx_def)
  then have "queue_ok (timestamp env) t"
    using q none r(5)
    unfolding queue_ok_def confirmers_cong [OF t(2)]
    by (auto simp: t is_confirmed_def get_tx_count_def less_Suc_eq)
  then show ?thesis
    by (rule inv_queue_change [OF assms(1) r(1) t(10,4-9)])
qed

lemma inv_replace_tx:
  assumes "ms_inv (now, s)" "now \<le> timestamp env" "is_initialized s" "Transactions s i = Some tx"
    and t: "Transactions t = (Transactions s)(i \<mapsto> tx')" "TxCount t = TxCount s"
      "OwnerAt t = OwnerAt s" "IsOwner t = IsOwner s" "OwnerCount t = OwnerCount s"
      "Threshold t = Threshold s" "MinDelay t = MinDelay s" "MaxDelay t = MaxDelay s"
      "Initialized t = Initialized s"
    and conf: "\<And>j. j \<noteq> i \<Longrightarrow> confirmers t j = confirmers s j" "finite (confirmers t i)"
    and ok: "transaction_ok (timestamp env) (confirmers s i) i tx \<Longrightarrow>
      transaction_ok (timestamp env) (confirmers t i) i tx'"
  shows "ms_inv (timestamp env, t)"
proof -
  have q: "queue_ok (timestamp env) s" using assms(1,2) by (auto intro: queue_ok_later)
  then have "transaction_ok (timestamp env) (confirmers s i) i tx"
    using assms(4) by (simp add: queue_ok_def)
  then have "queue_ok (timestamp env) t"
    by (intro queue_ok_update [OF q assms(4) t(1,2) conf] ok)
  then show ?thesis
    by (rule inv_queue_change [OF assms(1,3) t(9,3-8)])
qed

lemma inv_finite_confirmers: "ms_inv (now, s) \<Longrightarrow> finite (confirmers s i)"
  and inv_ident: "ms_inv (now, s) \<Longrightarrow> Transactions s i = Some tx \<Longrightarrow> ident tx = i"
  by (auto simp: queue_ok_def transaction_ok_def)

lemma confirmers_record:
  assumes "Confirmation t = (Confirmation s)((i, a) \<mapsto> True)"
  shows "confirmers t j = (if j = i then insert a (confirmers s i) else confirmers s j)"
  using assms by (auto simp: confirmers_def is_confirmed_def)

lemma confirmers_remove:
  assumes "Confirmation t = (Confirmation s)((i, a) := None)"
  shows "confirmers t j = (if j = i then confirmers s i - {a} else confirmers s j)"
  using assms by (auto simp: confirmers_def is_confirmed_def)

lemma inv_confirm:
  assumes "ms_inv (now, s)" "now \<le> timestamp env" "confirm_transaction env a i s = Ok (u, t)"
  shows "ms_inv (timestamp env, t)"
proof -
  obtain tx where g: "is_initialized s" "Transactions s i = Some tx" "status tx = Pending"
      "\<not> is_confirmed s i a"
    and t: "t = publish (Ev_Confirm i a) (set_tx (confirmed_tx env s tx) (record_confirmation i a s))"
    using assms(3) by (auto simp: confirm_Ok)
  have id: "ident (confirmed_tx env s tx) = i"
    using inv_ident [OF assms(1) g(2)] by (simp add: confirmed_tx_def)
  have conf: "Confirmation t = (Confirmation s)((i, a) \<mapsto> True)" by (simp add: t ms_setters)
  have new: "a \<notin> confirmers s i" using g(4) by (simp add: confirmers_def)
  note fin = inv_finite_confirmers [OF assms(1), of i]
  show ?thesis
  proof (rule inv_replace_tx [OF assms(1,2) g(1,2), of _ "confirmed_tx env s tx"])
    assume "transaction_ok (timestamp env) (confirmers s i) i tx"
    then show "transaction_ok (timestamp env) (confirmers t i) i (confirmed_tx env s tx)"
      using g(3) new fin by (auto simp: transaction_ok_def confirmed_tx_def confirmers_record [OF conf])
  qed (simp_all add: t id ms_setters confirmers_record [OF conf] confirmers_record fin)
qed

lemma inv_revoke:
  assumes "ms_inv (now, s)" "now \<le> timestamp env" "revoke_confirmation env a i s = Ok (u, t)"
  shows "ms_inv (timestamp env, t)"
proof -
  obtain tx where g: "is_initialized s" "Transactions s i = Some tx"
      "status tx = Pending \<or> status tx = Ready" "is_confirmed s i a"
    and t: "t = publish (Ev_Revoke i a) (set_tx (revoked_tx s tx) (remove_confirmation i a s))"
    using assms(3) by (auto simp: revoke_Ok)
  have id: "ident (revoked_tx s tx) = i"
    using inv_ident [OF assms(1) g(2)] by (simp add: revoked_tx_def)
  have conf: "Confirmation t = (Confirmation s)((i, a) := None)" by (simp add: t ms_setters)
  have old: "a \<in> confirmers s i" using g(4) by (simp add: confirmers_def)
  note fin = inv_finite_confirmers [OF assms(1), of i]
  have thr: "1 \<le> get_threshold s" using assms(1) g(1) by (simp add: threshold_ok_def)
  show ?thesis
  proof (rule inv_replace_tx [OF assms(1,2) g(1,2), of _ "revoked_tx s tx"])
    assume "transaction_ok (timestamp env) (confirmers s i) i tx"
    then show "transaction_ok (timestamp env) (confirmers t i) i (revoked_tx s tx)"
      using g(3) old fin thr
      by (auto simp: transaction_ok_def revoked_tx_def confirmers_remove [OF conf] card_Diff_singleton)
  qed (simp_all add: t id ms_setters confirmers_remove [OF conf] confirmers_remove fin)
qed

lemma inv_finish:
  assumes "ms_inv (now, s)" "now \<le> timestamp env"
    and "execute_transaction env a i s = Ok (u, t) \<or> cancel_transaction env a i s = Ok (u, t)"
  shows "ms_inv (timestamp env, t)"
proof -
  obtain tx st e where g: "is_initialized s" "Transactions s i = Some tx"
      "st = Executed \<and> status tx = Ready \<and> execute_after tx \<le> timestamp env \<or> st = Cancelled"
    and t: "t = publish e (set_tx (tx\<lparr>status := st\<rparr>) s)"
    using assms(3) by (auto simp: ms_execute_Ok ms_cancel_Ok)
  have id: "ident tx = i" using inv_ident [OF assms(1) g(2)] .
  have conf: "confirmers t = confirmers s" by (rule confirmers_cong) (simp add: t ms_setters)
  have t': "Transactions t = (Transactions s)(i \<mapsto> tx\<lparr>status := st\<rparr>)" "TxCount t = TxCount s"
      "OwnerAt t = OwnerAt s" "IsOwner t = IsOwner s" "OwnerCount t = OwnerCount s"
      "Threshold t = Threshold s" "MinDelay t = MinDelay s" "MaxDelay t = MaxDelay s"
      "Initialized t = Initialized s"
    by (simp_all add: t id ms_setters)
  note fin = inv_finite_confirmers [OF assms(1), of i]
  show ?thesis
  proof (rule inv_replace_tx [OF assms(1,2) g(1,2), of _ "tx\<lparr>status := st\<rparr>"])
    assume "transaction_ok (timestamp env) (confirmers s i) i tx"
    then show "transaction_ok (timestamp env) (confirmers t i) i (tx\<lparr>status := st\<rparr>)"
      using g(3) by (auto simp: transaction_ok_def conf)
  qed (simp_all add: t' conf fin)
qed

subsection \<open>Removing an owner: swap with the last index\<close>

definition dense :: "nat \<Rightarrow> (nat \<rightharpoonup> 'a) \<Rightarrow> bool" where
  "dense n m \<longleftrightarrow> (\<forall>i. m i \<noteq> None \<longleftrightarrow> i < n) \<and> (\<forall>i j a. m i = Some a \<longrightarrow> m j = Some a \<longrightarrow> i = j)"

lemma registry_ok_dense:
  "registry_ok s \<longleftrightarrow> dense (get_owner_count s) (OwnerAt s) \<and> (\<forall>a. has_owner s a \<longleftrightarrow> a \<in> ran (OwnerAt s))"
  by (auto simp: registry_ok_def dense_def ran_def)

definition swap_remove :: "nat \<Rightarrow> nat \<Rightarrow> (nat \<rightharpoonup> 'a) \<Rightarrow> (nat \<rightharpoonup> 'a)" where
  "swap_remove i n m = (if i \<noteq> n then m(i := m n) else m)(n := None)"

lemma swap_remove_dense:
  assumes "dense (Suc n) m" "m i = Some a"
  shows "dense n (swap_remove i n m)" "ran (swap_remove i n m) = ran m - {a}"
proof -
  have d: "m j \<noteq> None \<longleftrightarrow> j < Suc n" for j using assms(1) by (simp add: dense_def)
  have inj: "m j = Some b \<Longrightarrow> m k = Some b \<Longrightarrow> j = k" for j k b
    using assms(1) unfolding dense_def by blast
  have i: "i \<le> n" using d [of i] assms(2) by simp
  show "dense n (swap_remove i n m)"
    unfolding dense_def swap_remove_def
    using d i inj by (auto simp: less_Suc_eq split: if_splits)
  show "ran (swap_remove i n m) = ran m - {a}"
  proof (rule set_eqI)
    fix b
    have "b \<in> ran m - {a} \<longleftrightarrow> (\<exists>j. m j = Some b \<and> j \<noteq> i)"
      using inj assms(2) by (auto simp: ran_def)
    also have "\<dots> \<longleftrightarrow> b \<in> ran (swap_remove i n m)"
      using d [of n] i inj
      by (auto simp: ran_def swap_remove_def split: if_splits) (metis option.inject)
    finally show "b \<in> ran (swap_remove i n m) \<longleftrightarrow> b \<in> ran m - {a}" by simp
  qed
qed

lemma find_owner_found:
  "OwnerAt s k = Some a \<Longrightarrow> k \<in> set is \<Longrightarrow>
   \<exists>i. find_owner s a is = Some i \<and> OwnerAt s i = Some a"
  by (induction "is") (auto simp: get_owner_at_def split: option.splits)

lemma remove_owner_Ok:
  assumes "registry_ok s" "remove_owner env c a s = Ok (u, t)"
  shows "owner_gate env c s = Ok () \<and> c \<noteq> a \<and> get_threshold s < get_owner_count s \<and>
    (\<exists>i. OwnerAt s i = Some a \<and>
       OwnerAt t = swap_remove i (get_owner_count s - 1) (OwnerAt s)) \<and>
    IsOwner t = (IsOwner s)(a := None) \<and> OwnerCount t = Some (get_owner_count s - 1) \<and>
    Threshold t = Threshold s \<and> MinDelay t = MinDelay s \<and> MaxDelay t = MaxDelay s \<and>
    Initialized t = Initialized s \<and> Transactions t = Transactions s \<and>
    Confirmation t = Confirmation s \<and> TxCount t = TxCount s"
proof -
  have g: "owner_gate env c s = Ok ()" "has_owner s a" "c \<noteq> a"
    "get_threshold s \<le> get_owner_count s - 1" "1 \<le> get_owner_count s"
    using assms(2) by (auto simp: remove_owner_def Let_def)
  obtain k where "OwnerAt s k = Some a" "k < get_owner_count s"
    using assms(1) g(2) by (auto simp: registry_ok_def)
  then obtain i where i: "find_owner s a [0..<get_owner_count s] = Some i" "OwnerAt s i = Some a"
    using find_owner_found [of s k a "[0..<get_owner_count s]"] by auto
  have "\<exists>b. OwnerAt s (get_owner_count s - 1) = Some b"
    using assms(1) g(5) by (auto simp: registry_ok_def)
  then show ?thesis
    using assms(2) i g
    by (intro conjI exI [of _ i])
      (auto simp: remove_owner_def Let_def swap_remove_def ms_setters get_owner_at_def)
qed

lemma inv_remove_owner:
  assumes "ms_inv (now, s)" "now \<le> timestamp env" "remove_owner env c a s = Ok (u, t)"
  shows "ms_inv (timestamp env, t)"
proof -
  have reg: "registry_ok s" "threshold_ok s" using assms(1) by simp_all
  obtain i where r: "is_initialized s" "get_threshold s < get_owner_count s" "OwnerAt s i = Some a"
      "OwnerAt t = swap_remove i (get_owner_count s - 1) (OwnerAt s)"
      "IsOwner t = (IsOwner s)(a := None)" "OwnerCount t = Some (get_owner_count s - 1)"
      "Threshold t = Threshold s" "MinDelay t = MinDelay s" "MaxDelay t = MaxDelay s"
      "Initialized t = Initialized s" "Transactions t = Transactions s"
      "Confirmation t = Confirmation s" "TxCount t = TxCount s"
    using remove_owner_Ok [OF reg(1) assms(3)] by auto
  have n: "Suc (get_owner_count s - 1) = get_owner_count s" using r(2) by simp
  have d: "dense (Suc (get_owner_count s - 1)) (OwnerAt s)"
    using reg(1) n by (simp add: registry_ok_dense)
  have "registry_ok t"
    using reg(1) swap_remove_dense [OF d r(3)]
    by (auto simp: registry_ok_dense r get_owner_count_def has_owner_def)
  moreover have "threshold_ok t"
    using reg(2) r(1,2) by (simp add: threshold_ok_def r ms_getters)
  ultimately show ?thesis
    using inv_registry_change [OF assms(1,2) r(1)] r by blast
qed

subsection \<open>Initialisation\<close>

lemma dedup_owners_Ok:
  "dedup_owners os seen = Ok r \<Longrightarrow> distinct seen \<Longrightarrow> r = seen @ os \<and> distinct r"
  by (induction os seen rule: dedup_owners.induct) (auto split: if_splits)

lemma persist_owners_fields [simp]:
  "Initialized (persist_owners i os s) = Initialized s"
  "Threshold (persist_owners i os s) = Threshold s"
  "OwnerCount (persist_owners i os s) = OwnerCount s"
  "TxCount (persist_owners i os s) = TxCount s"
  "Transactions (persist_owners i os s) = Transactions s"
  "Confirmation (persist_owners i os s) = Confirmation s"
  by (induction i os s rule: persist_owners.induct) (simp_all add: ms_setters)

lemma persist_owners_at:
  "OwnerAt (persist_owners i os s) k =
     (if i \<le> k \<and> k < i + length os then Some (os ! (k - i)) else OwnerAt s k)"
  by (induction i os s rule: persist_owners.induct) (auto simp: ms_setters nth_Cons')

lemma persist_owners_is:
  "IsOwner (persist_owners i os s) a = (if a \<in> set os then Some True else IsOwner s a)"
  by (induction i os s rule: persist_owners.induct) (auto simp: ms_setters)

lemma ms_inv_initialize:
  assumes "ms_inv (now, s)" "initialize env os th mn mx s = Ok (u, t)"
  shows "ms_inv (timestamp env, t)"
proof -
  have g: "\<not> is_initialized s" "th \<noteq> 0" "th \<le> length os" "mn \<le> mx"
    and d: "distinct os"
    and t: "t = publish (Ev_Init th mn mx) (set_initialized (set_tx_count 0 (set_max_delay mx
        (set_min_delay mn (set_threshold th (persist_owners 0 os (set_owner_count (length os) s)))))))"
    using assms(2) by (auto simp: initialize_def Let_def dest!: dedup_owners_Ok)
  have s: "OwnerAt s = Map.empty" "IsOwner s = Map.empty" "Transactions s = Map.empty"
    "Confirmation s = Map.empty"
    using assms(1) g(1) by (simp_all add: pristine_def)
  have t': "OwnerAt t k = (if k < length os then Some (os ! k) else None)"
    "IsOwner t a = (if a \<in> set os then Some True else None)"
    "Transactions t = Map.empty" "Confirmation t = Map.empty" "OwnerCount t = Some (length os)"
    "TxCount t = Some 0" "Threshold t = Some th" "MinDelay t = Some mn" "MaxDelay t = Some mx"
    "Initialized t = Some True" for k a
    by (simp_all add: t ms_setters persist_owners_at persist_owners_is s)
  have "registry_ok t"
    using d by (auto simp: registry_ok_def t' ms_getters in_set_conv_nth nth_eq_iff_index_eq)
  then show ?thesis
    using g by (simp add: threshold_ok_def queue_ok_def pristine_def confirmers_def t' ms_getters)
qed

section \<open>The wallet as a machine\<close>

lemma ms_call_inv:
  "ms_call env s t \<Longrightarrow> ms_inv (now, s) \<Longrightarrow> now \<le> timestamp env \<Longrightarrow> ms_inv (timestamp env, t)"
  by (induction rule: ms_call.induct)
    (blast intro: ms_inv_initialize inv_add_owner inv_remove_owner inv_settings inv_submit inv_confirm
      inv_revoke inv_finish)+

text \<open>What one call may do to a stored transaction.\<close>

definition tx_frozen_fields :: "Transaction \<Rightarrow> Transaction \<Rightarrow> bool" where
  "tx_frozen_fields tx tx' \<longleftrightarrow>
     ident tx' = ident tx \<and> proposer tx' = proposer tx \<and> target tx' = target tx \<and>
     value_of tx' = value_of tx \<and> data tx' = data tx \<and> created_at tx' = created_at tx \<and>
     delay tx' = delay tx"

definition tx_evolves :: "Transaction \<Rightarrow> Transaction \<Rightarrow> bool" where
  "tx_evolves tx tx' \<longleftrightarrow> tx_frozen_fields tx tx' \<and>
     (status tx \<in> {Executed, Cancelled} \<longrightarrow> tx' = tx)"

lemma tx_evolves_refl: "tx_evolves tx tx"
  and tx_evolves_trans: "tx_evolves tx tx' \<Longrightarrow> tx_evolves tx' tx'' \<Longrightarrow> tx_evolves tx tx''"
  by (auto simp: tx_evolves_def tx_frozen_fields_def)

lemma ms_call_queue:
  assumes "ms_call env s t" "ms_inv (now, s)"
  shows "get_tx_count s \<le> get_tx_count t \<and>
    (\<forall>i tx. Transactions s i = Some tx \<longrightarrow> (\<exists>tx'. Transactions t i = Some tx' \<and> tx_evolves tx tx'))"
  using assms
proof (induction rule: ms_call.induct)
  case (initialize env os th mn mx s u t)
  then have "Transactions s = Map.empty"
    by (auto simp: pristine_def initialize_def split: if_splits)
  moreover have "get_tx_count s = 0"
    using initialize.prems calculation by (auto simp: queue_ok_def)
  ultimately show ?case by simp
next
  case (add_owner env c a s u t)
  then have "Transactions t = Transactions s" "TxCount t = TxCount s"
    by (auto simp: add_owner_Ok ms_setters)
  then show ?case by (auto simp: get_tx_count_def tx_evolves_refl)
next
  case (remove_owner env c a s u t)
  then have "Transactions t = Transactions s" "TxCount t = TxCount s"
    using remove_owner_Ok [of s env c a u t] by auto
  then show ?case by (auto simp: get_tx_count_def tx_evolves_refl)
next
  case (change_threshold env c n s u t)
  then show ?case by (auto simp: change_threshold_Ok ms_setters get_tx_count_def tx_evolves_refl)
next
  case (update_delays env c mn mx s u t)
  then show ?case by (auto simp: update_delays_Ok ms_setters get_tx_count_def tx_evolves_refl)
next
  case (submit env p tg v d dl s i t)
  then have "Transactions s i = None" by (auto simp: ms_submit_Ok queue_ok_def)
  with submit show ?case by (auto simp: ms_submit_Ok ms_setters get_tx_count_def tx_evolves_refl)
next
  case (confirm env a i s u t)
  then obtain tx where "Transactions s i = Some tx" "status tx = Pending"
      "t = publish (Ev_Confirm i a) (set_tx (confirmed_tx env s tx) (record_confirmation i a s))"
    by (auto simp: confirm_Ok)
  moreover have "ident (confirmed_tx env s tx) = i" "tx_evolves tx (confirmed_tx env s tx)"
    using calculation inv_ident [OF confirm.prems calculation(1)]
    by (simp_all add: confirmed_tx_def tx_evolves_def tx_frozen_fields_def)
  ultimately show ?case by (auto simp: ms_setters get_tx_count_def tx_evolves_refl)
next
  case (revoke env a i s u t)
  then obtain tx where "Transactions s i = Some tx" "status tx = Pending \<or> status tx = Ready"
      "t = publish (Ev_Revoke i a) (set_tx (revoked_tx s tx) (remove_confirmation i a s))"
    by (auto simp: revoke_Ok)
  moreover have "ident (revoked_tx s tx) = i" "tx_evolves tx (revoked_tx s tx)"
    using calculation inv_ident [OF revoke.prems calculation(1)]
    by (auto simp: revoked_tx_def tx_evolves_def tx_frozen_fields_def)
  ultimately show ?case by (auto simp: ms_setters get_tx_count_def tx_evolves_refl)
next
  case (execute env a i s u t)
  then obtain tx where "Transactions s i = Some tx" "status tx = Ready"
      "t = publish (Ev_Execute i a) (set_tx (tx\<lparr>status := Executed\<rparr>) s)"
    by (auto simp: ms_execute_Ok)
  moreover have "ident tx = i" "tx_evolves tx (tx\<lparr>status := Executed\<rparr>)"
    using calculation inv_ident [OF execute.prems calculation(1)]
    by (simp_all add: tx_evolves_def tx_frozen_fields_def)
  ultimately show ?case by (auto simp: ms_setters get_tx_count_def tx_evolves_refl)
next
  case (cancel env a i s u t)
  then obtain tx where "Transactions s i = Some tx" "status tx \<noteq> Executed" "status tx \<noteq> Cancelled"
      "t = publish (Ev_Cancel i a) (set_tx (tx\<lparr>status := Cancelled\<rparr>) s)"
    by (auto simp: ms_cancel_Ok)
  moreover have "ident tx = i" "tx_evolves tx (tx\<lparr>status := Cancelled\<rparr>)"
    using calculation inv_ident [OF cancel.prems calculation(1)]
    by (simp_all add: tx_evolves_def tx_frozen_fields_def)
  ultimately show ?case by (auto simp: ms_setters get_tx_count_def tx_evolves_refl)
qed

interpretation wallet: monotone_machine "(0, empty_wallet)" ms_step ms_inv "\<lambda>c. get_tx_count (snd c)"
proof unfold_locales
  show "ms_inv (0, empty_wallet)" by (rule ms_inv_empty)
  show "ms_inv t" if "ms_inv s" "ms_step s t" for s t
    using that(2,1) by (induction rule: ms_step.induct) (rule ms_call_inv)
  show "get_tx_count (snd s) \<le> get_tx_count (snd t)" if "ms_inv s" "ms_step s t" for s t
    using that(2,1) by (induction rule: ms_step.induct) (simp add: ms_call_queue del: ms_inv.simps)
qed

section \<open>A concrete run\<close>

definition demo_tx :: Transaction where
  "demo_tx = \<lparr>ident = 0, proposer = 1, target = 50, value_of = 7, data = ''pay'', status = Pending,
     confirmations = 0, created_at = 5, delay = 10, execute_after = 0\<rparr>"

definition demo_wallet :: ms_state where
  "demo_wallet = \<lparr>Initialized = Some True, Threshold = Some 2, MinDelay = Some 10, MaxDelay = Some 100,
     OwnerCount = Some 3, TxCount = Some 0, OwnerAt = [0 \<mapsto> 1, 1 \<mapsto> 2, 2 \<mapsto> 3],
     IsOwner = [1 \<mapsto> True, 2 \<mapsto> True, 3 \<mapsto> True], Transactions = Map.empty,
     Confirmation = Map.empty, events = [Ev_Init 2 10 100]\<rparr>"

definition demo_submitted :: ms_state where
  "demo_submitted = demo_wallet\<lparr>TxCount := Some 1, Transactions := [0 \<mapsto> demo_tx],
     events := [Ev_Init 2 10 100, Ev_Submit 0 1]\<rparr>"

definition demo_ready :: ms_state where
  "demo_ready = demo_submitted\<lparr>
     Transactions := [0 \<mapsto> demo_tx\<lparr>status := Ready, confirmations := 2, execute_after := 17\<rparr>],
     Confirmation := [(0, 1) \<mapsto> True, (0, 2) \<mapsto> True],
     events := [Ev_Init 2 10 100, Ev_Submit 0 1, Ev_Confirm 0 1, Ev_Confirm 0 2]\<rparr>"

definition demo_executed :: ms_state where
  "demo_executed = demo_ready\<lparr>
     Transactions := [0 \<mapsto> demo_tx\<lparr>status := Executed, confirmations := 2, execute_after := 17\<rparr>],
     events := [Ev_Init 2 10 100, Ev_Submit 0 1, Ev_Confirm 0 1, Ev_Confirm 0 2, Ev_Execute 0 3]\<rparr>"

lemmas demo_wallets = demo_wallet_def demo_submitted_def demo_ready_def demo_executed_def demo_tx_def

lemma ms_demo_initialize: "initialize (demo_env 1) [1, 2, 3] 2 10 100 empty_wallet = Ok ((), demo_wallet)"
  by (simp add: initialize_def empty_wallet_def demo_wallet_def is_initialized_def ms_setters Let_def
      fun_upd_twist numeral_2_eq_2)

lemma demo_submit:
  "submit_transaction (demo_env 5) 1 50 7 ''pay'' 10 demo_wallet = Ok (0, demo_submitted)"
  by (simp add: ms_submit_Ok demo_wallets ms_getters ms_setters demo_env_def MAX_DATA_LENGTH_def u32_max_def)

definition demo_once :: ms_state where
  "demo_once = demo_submitted\<lparr>Transactions := [0 \<mapsto> demo_tx\<lparr>confirmations := 1\<rparr>],
     Confirmation := [(0, 1) \<mapsto> True],
     events := [Ev_Init 2 10 100, Ev_Submit 0 1, Ev_Confirm 0 1]\<rparr>"

lemma demo_confirm:
  "confirm_transaction (demo_env 6) 1 0 demo_submitted = Ok ((), demo_once)"
  "confirm_transaction (demo_env 7) 2 0 demo_once = Ok ((), demo_ready)"
  by (simp_all add: confirm_Ok confirmed_tx_def demo_once_def demo_wallets ms_getters ms_setters
      demo_env_def u32_max_def u64_max_def numeral_2_eq_2)

lemma ms_demo_execute: "execute_transaction (demo_env 20) 3 0 demo_ready = Ok ((), demo_executed)"
  by (simp add: ms_execute_Ok demo_wallets ms_getters ms_setters demo_env_def)

lemma ms_stepI: "ms_call env s t \<Longrightarrow> now \<le> timestamp env \<Longrightarrow> timestamp env = later \<Longrightarrow> ms_step (now, s) (later, t)"
  by (auto intro: ms_step.call)

lemma demo_run_ready: "ms_step\<^sup>*\<^sup>* (0, empty_wallet) (7, demo_ready)"
  and demo_run_executed: "ms_step\<^sup>*\<^sup>* (0, empty_wallet) (20, demo_executed)"
proof -
  have "ms_step\<^sup>*\<^sup>* (0, empty_wallet) (1, demo_wallet)"
    by (rule r_into_rtranclp, rule ms_stepI [OF ms_call.initialize [OF ms_demo_initialize]]) (simp_all add: demo_env_def)
  also have "ms_step\<^sup>*\<^sup>* (1, demo_wallet) (5, demo_submitted)"
    by (rule r_into_rtranclp, rule ms_stepI [OF ms_call.submit [OF demo_submit]]) (simp_all add: demo_env_def)
  also have "ms_step\<^sup>*\<^sup>* (5, demo_submitted) (6, demo_once)"
    by (rule r_into_rtranclp, rule ms_stepI [OF ms_call.confirm [OF demo_confirm(1)]]) (simp_all add: demo_env_def)
  also have "ms_step\<^sup>*\<^sup>* (6, demo_once) (7, demo_ready)"
    by (rule r_into_rtranclp, rule ms_stepI [OF ms_call.confirm [OF demo_confirm(2)]]) (simp_all add: demo_env_def)
  finally have run: "ms_step\<^sup>*\<^sup>* (0, empty_wallet) (7, demo_ready)" .
  then show "ms_step\<^sup>*\<^sup>* (0, empty_wallet) (7, demo_ready)" .
  have "ms_step (7, demo_ready) (20, demo_executed)"
    by (rule ms_stepI [OF ms_call.execute [OF ms_demo_execute]]) (simp_all add: demo_env_def)
  with run show "ms_step\<^sup>*\<^sup>* (0, empty_wallet) (20, demo_executed)" by simp
qed

section \<open>Properties\<close>

lemma collect_owners_eq:
  "collect_owners s is out = out @ List.map_filter (OwnerAt s) is"
  by (induction s "is" out rule: collect_owners.induct)
    (auto simp: get_owner_at_def List.map_filter_simps split: option.splits)

lemma map_filter_total:
  "(\<And>i. i \<in> set is \<Longrightarrow> m i \<noteq> None) \<Longrightarrow> List.map_filter m is = map (\<lambda>i. the (m i)) is"
  by (induction "is") (force simp: List.map_filter_simps split: option.splits)+

lemma registry_owner_list:
  assumes "registry_ok s"
  defines "L \<equiv> collect_owners s [0..<get_owner_count s] []"
  shows "distinct L \<and> length L = get_owner_count s \<and> set L = {a. has_owner s a}"
proof -
  have d: "OwnerAt s i \<noteq> None \<longleftrightarrow> i < get_owner_count s"
    "OwnerAt s i = Some a \<Longrightarrow> OwnerAt s j = Some a \<Longrightarrow> i = j"
    "has_owner s a \<longleftrightarrow> (\<exists>i. OwnerAt s i = Some a)" for i j a
    using assms(1) unfolding registry_ok_def by blast+
  have L: "L = map (\<lambda>i. the (OwnerAt s i)) [0..<get_owner_count s]"
    unfolding L_def collect_owners_eq by (subst map_filter_total) (use d(1) in auto)
  have "inj_on (\<lambda>i. the (OwnerAt s i)) {..<get_owner_count s}"
    by (rule inj_onI) (metis d(1,2) lessThan_iff option.collapse)
  moreover have "set L = {a. has_owner s a}"
    unfolding L using d(1) by (auto simp: d(3) image_iff) (metis option.sel option.distinct(1) atLeastLessThan_iff zero_le)+
  ultimately show ?thesis by (simp add: L distinct_map atLeast0LessThan)
qed

text \<open>
  In every reachable wallet \<open>get_owners\<close> returns the owners, each exactly once and as many as
  \<open>owner_count\<close>, the threshold is between one and that number, and the delay window is not empty.
\<close>

theorem ms_owner_registry:
  assumes "ms_step\<^sup>*\<^sup>* (0, empty_wallet) (now, s)" "is_initialized s"
  shows "\<exists>L. get_owners s = Ok L \<and> distinct L \<and> length L = get_owner_count s \<and>
    set L = {a. is_owner a s = Ok True} \<and>
    1 \<le> get_threshold s \<and> get_threshold s \<le> length L \<and> get_min_delay s \<le> get_max_delay s"
proof -
  have inv: "registry_ok s" "threshold_ok s"
    using wallet.reachable_Inv [OF assms(1)] by simp_all
  show ?thesis
    using registry_owner_list [OF inv(1)] inv(2) assms(2)
    by (simp add: get_owners_def is_owner_def ensure_initialized_def threshold_ok_def)
qed

theorem ms_owner_registry_witness:
  "\<exists>L. get_owners demo_ready = Ok L \<and> distinct L \<and> length L = get_owner_count demo_ready \<and>
    set L = {a. is_owner a demo_ready = Ok True} \<and>
    1 \<le> get_threshold demo_ready \<and> get_threshold demo_ready \<le> length L \<and>
    get_min_delay demo_ready \<le> get_max_delay demo_ready"
  by (rule ms_owner_registry [OF demo_run_ready]) (simp add: demo_wallets is_initialized_def)

text \<open>
  In every reachable wallet the confirmation counter of each transaction is the number of
  distinct addresses whose confirmation is on record, a transaction that is ready or executed has
  at least one, and ids are dense below \<open>get_transaction_count\<close>.
\<close>

theorem ms_confirmations_exact:
  assumes "ms_step\<^sup>*\<^sup>* (0, empty_wallet) (now, s)" "get_transaction i s = Ok tx"
  shows "ident tx = i \<and> i < get_tx_count s \<and> finite {a. pub_is_confirmed i a s = Ok True} \<and>
    confirmations tx = card {a. pub_is_confirmed i a s = Ok True} \<and>
    (status tx \<in> {Ready, Executed} \<longrightarrow> 1 \<le> confirmations tx \<and> created_at tx + delay tx \<le> execute_after tx)"
proof -
  have "queue_ok now s" using wallet.reachable_Inv [OF assms(1)] by simp
  moreover have "Transactions s i = Some tx" "is_initialized s"
    using assms(2) by (auto simp: get_transaction_def ensure_initialized_def)
  moreover have "{a. pub_is_confirmed i a s = Ok True} = confirmers s i"
    using calculation by (simp add: pub_is_confirmed_def ensure_initialized_def confirmers_def)
  moreover have "transaction_ok now (confirmers s i) i tx" "i < get_tx_count s" "finite (confirmers s i)"
    using calculation by (auto simp: queue_ok_def)
  ultimately show ?thesis by (auto simp: transaction_ok_def)
qed

theorem ms_confirmations_exact_witness:
  "let tx = demo_tx\<lparr>status := Ready, confirmations := 2, execute_after := 17\<rparr> in
    ident tx = 0 \<and> 0 < get_tx_count demo_ready \<and>
    finite {a. pub_is_confirmed 0 a demo_ready = Ok True} \<and>
    confirmations tx = card {a. pub_is_confirmed 0 a demo_ready = Ok True} \<and>
    (status tx \<in> {Ready, Executed} \<longrightarrow> 1 \<le> confirmations tx \<and> created_at tx + delay tx \<le> execute_after tx)"
  unfolding Let_def
  by (rule ms_confirmations_exact [OF demo_run_ready])
    (simp add: get_transaction_def ensure_initialized_def is_initialized_def demo_wallets)

text \<open>
  C4. The time lock: in a reachable wallet \<open>execute_transaction\<close> succeeds only for an owner, on a
  ready transaction with a confirmation on record, at least \<open>delay\<close> seconds after its creation;
  it changes nothing but the status of that transaction and the event log.
\<close>

theorem ms_execute_time_lock:
  assumes "ms_step\<^sup>*\<^sup>* (0, empty_wallet) (now, s)" "execute_transaction env caller i s = Ok (u, t)"
  shows "auth env caller \<and> has_owner s caller \<and>
    (\<exists>tx. Transactions s i = Some tx \<and> status tx = Ready \<and> (\<exists>a. is_confirmed s i a) \<and>
      execute_after tx \<le> timestamp env \<and> created_at tx + delay tx \<le> timestamp env \<and>
      t = s\<lparr>Transactions := (Transactions s)(i \<mapsto> tx\<lparr>status := Executed\<rparr>),
            events := events s @ [Ev_Execute i caller]\<rparr>)"
proof -
  obtain tx where tx: "Transactions s i = Some tx" "status tx = Ready"
      "execute_after tx \<le> timestamp env" "auth env caller" "has_owner s caller"
      "t = publish (Ev_Execute i caller) (set_tx (tx\<lparr>status := Executed\<rparr>) s)"
    using assms(2) by (auto simp: ms_execute_Ok)
  have "queue_ok now s" using wallet.reachable_Inv [OF assms(1)] by simp
  then have ok: "transaction_ok now (confirmers s i) i tx" using tx(1) by (simp add: queue_ok_def)
  then have "card (confirmers s i) \<noteq> 0" using tx(2) by (auto simp: transaction_ok_def)
  then have "confirmers s i \<noteq> {}" by auto
  then have "\<exists>a. is_confirmed s i a" by (simp add: confirmers_def)
  then show ?thesis
    using tx ok by (auto simp: transaction_ok_def ms_setters)
qed

theorem ms_execute_time_lock_witness:
  "auth (demo_env 20) 3 \<and> has_owner demo_ready 3 \<and>
    (\<exists>tx. Transactions demo_ready 0 = Some tx \<and> status tx = Ready \<and> (\<exists>a. is_confirmed demo_ready 0 a) \<and>
      execute_after tx \<le> timestamp (demo_env 20) \<and> created_at tx + delay tx \<le> timestamp (demo_env 20) \<and>
      demo_executed = demo_ready\<lparr>Transactions := (Transactions demo_ready)(0 \<mapsto> tx\<lparr>status := Executed\<rparr>),
            events := events demo_ready @ [Ev_Execute 0 3]\<rparr>)"
  by (rule ms_execute_time_lock [OF demo_run_ready ms_demo_execute])

lemma ms_run_evolves:
  assumes "ms_step\<^sup>*\<^sup>* c c'" "ms_inv c" "Transactions (snd c) i = Some tx"
  shows "\<exists>tx'. Transactions (snd c') i = Some tx' \<and> tx_evolves tx tx'"
proof (rule wallet.run_preserves [OF assms(1,2),
      where P = "\<lambda>c. \<exists>tx'. Transactions (snd c) i = Some tx' \<and> tx_evolves tx tx'"])
  show "\<exists>tx'. Transactions (snd c) i = Some tx' \<and> tx_evolves tx tx'"
    using assms(3) by (auto simp: tx_evolves_refl)
  fix u v
  assume u: "ms_inv u" "\<exists>tx'. Transactions (snd u) i = Some tx' \<and> tx_evolves tx tx'" "ms_step u v"
  from u(3,1,2) show "\<exists>tx'. Transactions (snd v) i = Some tx' \<and> tx_evolves tx tx'"
  proof (induction rule: ms_step.induct)
    case (call now env s t)
    then show ?case using ms_call_queue [OF call.hyps(2) call.prems(1)] tx_evolves_trans
      by (metis snd_conv)
  qed
qed

text \<open>
  History is immutable: along any run a transaction keeps its id, proposer, target, value,
  data, creation time and delay, one that is executed or cancelled never changes again at all,
  and the transaction counter never decreases.
\<close>

theorem ms_history_immutable:
  assumes "ms_step\<^sup>*\<^sup>* (0, empty_wallet) (now, s)" "ms_step\<^sup>*\<^sup>* (now, s) (later, t)"
    "Transactions s i = Some tx"
  shows "get_tx_count s \<le> get_tx_count t \<and>
    (\<exists>tx'. Transactions t i = Some tx' \<and> tx_frozen_fields tx tx' \<and>
       (status tx = Executed \<or> status tx = Cancelled \<longrightarrow> tx' = tx))"
proof -
  have inv: "ms_inv (now, s)" using wallet.reachable_Inv [OF assms(1)] .
  show ?thesis
    using ms_run_evolves [OF assms(2) inv, of i tx] assms(3) wallet.run_mono [OF assms(2) inv]
    by (auto simp: tx_evolves_def)
qed

theorem ms_history_immutable_witness:
  "let tx = demo_tx\<lparr>status := Executed, confirmations := 2, execute_after := 17\<rparr> in
    get_tx_count demo_executed \<le> get_tx_count demo_executed \<and>
    (\<exists>tx'. Transactions demo_executed 0 = Some tx' \<and> tx_frozen_fields tx tx' \<and>
       (status tx = Executed \<or> status tx = Cancelled \<longrightarrow> tx' = tx))"
  unfolding Let_def
  by (rule ms_history_immutable [OF demo_run_executed rtranclp.rtrancl_refl])
    (simp add: demo_executed_def)

subsection \<open>A threshold of confirmations is enough\<close>

fun confirm_all :: "env \<Rightarrow> address list \<Rightarrow> nat \<Rightarrow> ms_state \<Rightarrow> (ms_error, unit \<times> ms_state) outcome" where
  "confirm_all env [] i s = Ok ((), s)"
| "confirm_all env (a # as) i s =
     and_then (confirm_transaction env a i s) (\<lambda>(_, s'). confirm_all env as i s')"

definition can_confirm :: "env \<Rightarrow> nat \<Rightarrow> ms_state \<Rightarrow> address \<Rightarrow> bool" where
  "can_confirm env i s a \<longleftrightarrow> auth env a \<and> has_owner s a \<and> \<not> is_confirmed s i a"

lemma confirm_step:
  assumes "is_initialized s" "Transactions s i = Some tx" "ident tx = i" "status tx = Pending"
    "can_confirm env i s a" "confirmations tx + 1 \<le> u32_max" "timestamp env + delay tx \<le> u64_max"
  shows "\<exists>s'. confirm_transaction env a i s = Ok ((), s') \<and> is_initialized s' \<and>
    Transactions s' i = Some (confirmed_tx env s tx) \<and> get_threshold s' = get_threshold s \<and>
    has_owner s' = has_owner s \<and>
    (\<forall>b. b \<noteq> a \<longrightarrow> can_confirm env i s b \<longrightarrow> can_confirm env i s' b)"
proof -
  let ?t = "publish (Ev_Confirm i a) (set_tx (confirmed_tx env s tx) (record_confirmation i a s))"
  have id: "ident (confirmed_tx env s tx) = i" using assms(3) by (simp add: confirmed_tx_def)
  have "confirm_transaction env a i s = Ok ((), ?t)"
    using assms unfolding confirm_Ok by (auto simp: can_confirm_def)
  moreover have "is_initialized ?t" "Transactions ?t i = Some (confirmed_tx env s tx)"
    "get_threshold ?t = get_threshold s" "has_owner ?t = has_owner s"
    "\<forall>b. b \<noteq> a \<longrightarrow> can_confirm env i s b \<longrightarrow> can_confirm env i ?t b"
    using assms(1) by (auto simp: id ms_setters ms_getters can_confirm_def)
  ultimately show ?thesis by blast
qed

lemma confirm_all_ready:
  assumes "is_initialized s" "Transactions s i = Some tx" "ident tx = i" "status tx = Pending"
    "distinct as" "\<forall>a\<in>set as. can_confirm env i s a" "as \<noteq> []"
    "confirmations tx + length as = get_threshold s" "get_threshold s \<le> u32_max"
    "timestamp env + delay tx \<le> u64_max"
  shows "\<exists>s'. confirm_all env as i s = Ok ((), s') \<and> is_initialized s' \<and> has_owner s' = has_owner s \<and>
    Transactions s' i = Some (tx\<lparr>confirmations := get_threshold s, status := Ready,
                                 execute_after := timestamp env + delay tx\<rparr>)"
  using assms
proof (induction as arbitrary: s tx)
  case Nil
  then show ?case by simp
next
  case (Cons a as)
  obtain s1 where s1: "confirm_transaction env a i s = Ok ((), s1)" "is_initialized s1"
      "Transactions s1 i = Some (confirmed_tx env s tx)" "get_threshold s1 = get_threshold s"
      "has_owner s1 = has_owner s" "\<forall>b. b \<noteq> a \<longrightarrow> can_confirm env i s b \<longrightarrow> can_confirm env i s1 b"
    using confirm_step [of s i tx env a] Cons.prems by auto
  show ?case
  proof (cases "as = []")
    case True
    then show ?thesis using s1 Cons.prems by (auto simp: confirmed_tx_def)
  next
    case False
    then have tx1: "confirmed_tx env s tx = tx\<lparr>confirmations := confirmations tx + 1\<rparr>"
      using Cons.prems(8) by (cases as) (auto simp: confirmed_tx_def)
    have "\<exists>s'. confirm_all env as i s1 = Ok ((), s') \<and> is_initialized s' \<and> has_owner s' = has_owner s1 \<and>
      Transactions s' i = Some ((tx\<lparr>confirmations := confirmations tx + 1\<rparr>)
        \<lparr>confirmations := get_threshold s1, status := Ready, execute_after := timestamp env +
           delay (tx\<lparr>confirmations := confirmations tx + 1\<rparr>)\<rparr>)"
      by (rule Cons.IH) (use s1 tx1 False Cons.prems in auto)
    then show ?thesis using s1 by auto
  qed
qed

text \<open>
  The threshold is sufficient: a pending transaction that lacks \<open>k\<close> confirmations to the
  threshold becomes ready when \<open>k\<close> more owners confirm it one after the other, and every owner can
  then execute it as soon as its delay has passed.
\<close>

theorem ms_threshold_suffices:
  assumes "ms_step\<^sup>*\<^sup>* (0, empty_wallet) (now, s)" "is_initialized s"
    "Transactions s i = Some tx" "status tx = Pending"
    "distinct as" "\<forall>a\<in>set as. can_confirm env i s a" "as \<noteq> []"
    "confirmations tx + length as = get_threshold s" "get_threshold s \<le> u32_max"
    "timestamp env + delay tx \<le> u64_max"
    "auth env' c" "has_owner s c" "timestamp env + delay tx \<le> timestamp env'"
  shows "\<exists>s'. confirm_all env as i s = Ok ((), s') \<and>
    get_transaction i s' = Ok (tx\<lparr>confirmations := get_threshold s, status := Ready,
                                   execute_after := timestamp env + delay tx\<rparr>) \<and>
    is_ok (execute_transaction env' c i s')"
proof -
  have "ident tx = i"
    using inv_ident [OF wallet.reachable_Inv [OF assms(1)] assms(3)] .
  then obtain s' where "confirm_all env as i s = Ok ((), s')" "is_initialized s'"
      "has_owner s' = has_owner s" "Transactions s' i = Some (tx\<lparr>confirmations := get_threshold s,
         status := Ready, execute_after := timestamp env + delay tx\<rparr>)"
    using confirm_all_ready [of s i tx as env] assms by auto
  then show ?thesis
    using assms(11-13)
    by (auto simp: get_transaction_def ensure_initialized_def execute_transaction_def)
qed

theorem ms_threshold_suffices_witness:
  "\<exists>s'. confirm_all (demo_env 7) [1, 2] 0 demo_submitted = Ok ((), s') \<and>
    get_transaction 0 s' = Ok (demo_tx\<lparr>confirmations := get_threshold demo_submitted, status := Ready,
                                   execute_after := timestamp (demo_env 7) + delay demo_tx\<rparr>) \<and>
    is_ok (execute_transaction (demo_env 17) 3 0 s')"
proof (rule ms_threshold_suffices)
  have "ms_step\<^sup>*\<^sup>* (0, empty_wallet) (1, demo_wallet)"
    by (rule r_into_rtranclp, rule ms_stepI [OF ms_call.initialize [OF ms_demo_initialize]])
      (simp_all add: demo_env_def)
  also have "ms_step\<^sup>*\<^sup>* (1, demo_wallet) (5, demo_submitted)"
    by (rule r_into_rtranclp, rule ms_stepI [OF ms_call.submit [OF demo_submit]])
      (simp_all add: demo_env_def)
  finally show "ms_step\<^sup>*\<^sup>* (0, empty_wallet) (5, demo_submitted)" .
qed (auto simp: demo_wallets ms_getters can_confirm_def demo_env_def u32_max_def u64_max_def)

subsection \<open>One owner is enough\<close>

text \<open>Five calls, all signed by one owner in one ledger.\<close>

definition lone_owner_run ::
    "env \<Rightarrow> address \<Rightarrow> address \<Rightarrow> int \<Rightarrow> string \<Rightarrow> ms_state \<Rightarrow> (ms_error, unit \<times> ms_state) outcome" where
  "lone_owner_run env a tg v d s =
     and_then (change_threshold env a 1 s) (\<lambda>(_, s1).
     and_then (update_delays env a 0 0 s1) (\<lambda>(_, s2).
     and_then (submit_transaction env a tg v d 0 s2) (\<lambda>(i, s3).
     and_then (confirm_transaction env a i s3) (\<lambda>(_, s4).
     execute_transaction env a i s4))))"

text \<open>
  The documented M-of-N approval does not bind an owner: in every reachable wallet, whatever
  its threshold and delay window, a single owner with no other signature can set both to their
  minimum and have a transaction of its own choice executed in the same ledger.
\<close>

theorem ms_single_owner_executes:
  assumes "ms_step\<^sup>*\<^sup>* (0, empty_wallet) (now, s)" "is_initialized s" "has_owner s a"
    "\<forall>b. auth env b \<longleftrightarrow> b = a" "now \<le> timestamp env" "timestamp env \<le> u64_max"
    "get_tx_count s < u32_max" "0 \<le> v" "d \<noteq> []" "length d \<le> MAX_DATA_LENGTH"
  shows "\<exists>t tx. lone_owner_run env a tg v d s = Ok ((), t) \<and>
    get_transaction (get_tx_count s) t = Ok tx \<and> status tx = Executed \<and> confirmations tx = 1 \<and>
    target tx = tg \<and> value_of tx = v \<and> data tx = d"
proof -
  have inv: "ms_inv (now, s)" using wallet.reachable_Inv [OF assms(1)] .
  have cnt: "1 \<le> get_owner_count s" using inv assms(2) by (simp add: threshold_ok_def)
  have none: "\<not> is_confirmed s (get_tx_count s) a"
    using inv by (auto simp: queue_ok_def)
  let ?i = "get_tx_count s"
  define tx where "tx = \<lparr>ident = ?i, proposer = a, target = tg, value_of = v, data = d,
      status = Pending, confirmations = 0, created_at = timestamp env, delay = 0, execute_after = 0\<rparr>"
  define s1 where "s1 = publish (Ev_ThreshChg a 1) (set_threshold 1 s)"
  define s2 where "s2 = publish (Ev_DelayChg a 0 0) (set_max_delay 0 (set_min_delay 0 s1))"
  define s3 where "s3 = publish (Ev_Submit ?i a) (set_tx_count (?i + 1) (set_tx tx s2))"
  have same: "is_initialized s3" "has_owner s3 a" "\<not> is_confirmed s3 ?i a" "get_threshold s3 = 1"
    "Transactions s3 ?i = Some tx"
    using assms(2,3) none by (simp_all add: s1_def s2_def s3_def ms_setters ms_getters tx_def)
  have c1: "change_threshold env a 1 s = Ok ((), s1)"
    using assms(2-4) cnt unfolding s1_def change_threshold_Ok by simp
  have c2: "update_delays env a 0 0 s1 = Ok ((), s2)"
    using assms(2-4) unfolding s2_def update_delays_Ok
    by (simp add: s1_def ms_setters is_initialized_def has_owner_def)
  have c3: "submit_transaction env a tg v d 0 s2 = Ok (?i, s3)"
    using assms(2-4,7-10) unfolding s3_def ms_submit_Ok
    by (simp add: s1_def s2_def tx_def ms_setters ms_getters)
  obtain s4 where c4: "confirm_transaction env a ?i s3 = Ok ((), s4)" "is_initialized s4"
      "Transactions s4 ?i = Some (confirmed_tx env s3 tx)" "has_owner s4 = has_owner s3"
    using confirm_step [of s3 ?i tx env a] same assms(4,6)
    by (auto simp: tx_def can_confirm_def u32_max_def)
  have tx': "confirmed_tx env s3 tx = tx\<lparr>confirmations := 1, status := Ready,
      execute_after := timestamp env\<rparr>"
    by (simp add: confirmed_tx_def same(4)) (simp add: tx_def)
  have id: "ident (confirmed_tx env s3 tx) = ?i" by (simp add: confirmed_tx_def tx_def)
  have c5: "execute_transaction env a ?i s4 =
      Ok ((), publish (Ev_Execute ?i a) (set_tx (confirmed_tx env s3 tx\<lparr>status := Executed\<rparr>) s4))"
    using c4(2-4) same(2) assms(4) unfolding ms_execute_Ok by (auto simp: tx')
  define s5 where "s5 = publish (Ev_Execute ?i a) (set_tx (confirmed_tx env s3 tx\<lparr>status := Executed\<rparr>) s4)"
  have "lone_owner_run env a tg v d s = Ok ((), s5)"
    using c1 c2 c3 c4(1) c5 by (simp add: lone_owner_run_def s5_def)
  moreover have "get_transaction ?i s5 = Ok (confirmed_tx env s3 tx\<lparr>status := Executed\<rparr>)"
    using c4(2) by (simp add: s5_def get_transaction_def ensure_initialized_def is_initialized_def
        ms_setters id)
  moreover have "target tx = tg" "value_of tx = v" "data tx = d" by (simp_all add: tx_def)
  ultimately show ?thesis by (auto simp: tx')
qed

theorem ms_single_owner_executes_witness:
  "\<exists>t tx. lone_owner_run ((demo_env 30)\<lparr>auth := (\<lambda>b. b = 3)\<rparr>) 3 66 1000000 ''drain'' demo_ready = Ok ((), t) \<and>
    get_transaction (get_tx_count demo_ready) t = Ok tx \<and> status tx = Executed \<and> confirmations tx = 1 \<and>
    target tx = 66 \<and> value_of tx = 1000000 \<and> data tx = ''drain''"
  by (rule ms_single_owner_executes [OF demo_run_ready])
    (simp_all add: demo_wallets ms_getters demo_env_def u32_max_def u64_max_def MAX_DATA_LENGTH_def)

end
