(* ===== verification/Token_Contract.thy ===== *)
theory Token_Contract
  imports Soroban_Prelude
begin

text \<open>
  The SEP-41 fungible token of \<open>contracts/token_contract\<close>: storage accessors
  (\<open>src/storage.rs\<close>, \<open>src/types.rs\<close>) and every entry point of \<open>src/lib.rs\<close>. Balances and
  allowances are finite maps; the allowance map is temporary storage, of which the code relies
  on the explicit expiration ledger only.
\<close>

section \<open>Types and storage\<close>

datatype token_error =
    AlreadyInitialized | NotInitialized | Unauthorized | InsufficientBalance
  | InsufficientAllowance | ZeroAmount | NegativeAmount | AllowanceExpired | InvalidDecimals

record AllowanceValue =
  amount :: int
  expiration_ledger :: nat

datatype token_event =
    Ev_SetAdmin address
  | Ev_Mint address int
  | Ev_Burn address int
  | Ev_Transfer address address int
  | Ev_Approve address address int nat

record token_state =
  Admin :: "address option"
  Decimals :: "nat option"
  Name :: "string option"
  Symbol :: "string option"
  TotalSupply :: "int option"
  Balance :: "address \<rightharpoonup> int"
  Allowance :: "address \<times> address \<rightharpoonup> AllowanceValue"
  events :: "token_event list"

definition empty_token :: token_state where
  "empty_token = \<lparr>Admin = None, Decimals = None, Name = None, Symbol = None, TotalSupply = None,
     Balance = Map.empty, Allowance = Map.empty, events = []\<rparr>"

definition publish :: "token_event \<Rightarrow> token_state \<Rightarrow> token_state" where
  "publish e s = s\<lparr>events := events s @ [e]\<rparr>"

definition is_initialized :: "token_state \<Rightarrow> bool" where
  "is_initialized s = (Admin s \<noteq> None)"
definition set_admin :: "address \<Rightarrow> token_state \<Rightarrow> token_state" where
  "set_admin a s = s\<lparr>Admin := Some a\<rparr>"
definition get_admin :: "token_state \<Rightarrow> (token_error, address) outcome" where
  "get_admin s = ok_or NotInitialized (Admin s)"
definition set_decimals :: "nat \<Rightarrow> token_state \<Rightarrow> token_state" where
  "set_decimals d s = s\<lparr>Decimals := Some d\<rparr>"
definition get_decimals :: "token_state \<Rightarrow> nat" where
  "get_decimals s = unwrap_or 7 (Decimals s)"
definition set_name :: "string \<Rightarrow> token_state \<Rightarrow> token_state" where
  "set_name n s = s\<lparr>Name := Some n\<rparr>"
definition get_name :: "token_state \<Rightarrow> string" where
  "get_name s = unwrap_or [] (Name s)"
definition set_symbol :: "string \<Rightarrow> token_state \<Rightarrow> token_state" where
  "set_symbol n s = s\<lparr>Symbol := Some n\<rparr>"
definition get_symbol :: "token_state \<Rightarrow> string" where
  "get_symbol s = unwrap_or [] (Symbol s)"
definition get_total_supply :: "token_state \<Rightarrow> int" where
  "get_total_supply s = unwrap_or 0 (TotalSupply s)"
definition set_total_supply :: "int \<Rightarrow> token_state \<Rightarrow> token_state" where
  "set_total_supply x s = s\<lparr>TotalSupply := Some x\<rparr>"
definition get_balance :: "token_state \<Rightarrow> address \<Rightarrow> int" where
  "get_balance s a = bal (Balance s) a"
definition set_balance :: "address \<Rightarrow> int \<Rightarrow> token_state \<Rightarrow> token_state" where
  "set_balance a x s = s\<lparr>Balance := (Balance s)(a \<mapsto> x)\<rparr>"

definition get_allowance :: "token_state \<Rightarrow> address \<Rightarrow> address \<Rightarrow> AllowanceValue" where
  "get_allowance s from spender =
     unwrap_or \<lparr>amount = 0, expiration_ledger = 0\<rparr> (Allowance s (from, spender))"
definition set_allowance ::
    "address \<Rightarrow> address \<Rightarrow> int \<Rightarrow> nat \<Rightarrow> token_state \<Rightarrow> token_state" where
  "set_allowance from spender x expiry s =
     (if x = 0 then s\<lparr>Allowance := (Allowance s)((from, spender) := None)\<rparr>
      else s\<lparr>Allowance := (Allowance s)((from, spender) \<mapsto>
             \<lparr>amount = x, expiration_ledger = expiry\<rparr>)\<rparr>)"

lemmas token_getters =
  is_initialized_def get_admin_def get_decimals_def get_name_def get_symbol_def
  get_total_supply_def get_balance_def get_allowance_def

lemmas token_setters =
  set_admin_def set_decimals_def set_name_def set_symbol_def set_total_supply_def
  set_balance_def set_allowance_def publish_def

section \<open>Internal helpers\<close>

definition assert_initialized :: "token_state \<Rightarrow> (token_error, unit) outcome" where
  "assert_initialized s = (if \<not> is_initialized s then Err NotInitialized else Ok ())"

definition assert_admin :: "env \<Rightarrow> address \<Rightarrow> token_state \<Rightarrow> (token_error, unit) outcome" where
  "assert_admin env caller s =
     and_then (assert_initialized s) (\<lambda>_.
     and_then (require_auth env caller) (\<lambda>_.
     and_then (get_admin s) (\<lambda>admin.
     if caller \<noteq> admin then Err Unauthorized else Ok ())))"

definition spend_allowance ::
    "env \<Rightarrow> address \<Rightarrow> address \<Rightarrow> int \<Rightarrow> token_state \<Rightarrow> (token_error, unit \<times> token_state) outcome" where
  "spend_allowance env from spender x s =
     (let allowance = get_allowance s from spender in
      if sequence env > expiration_ledger allowance then Err AllowanceExpired
      else if amount allowance < x then Err InsufficientAllowance
      else
        and_then (i128_sub (amount allowance) x) (\<lambda>left.
        Ok ((), set_allowance from spender left (expiration_ledger allowance) s)))"

section \<open>Entry points\<close>

definition initialize ::
    "env \<Rightarrow> address \<Rightarrow> nat \<Rightarrow> string \<Rightarrow> string \<Rightarrow> token_state \<Rightarrow>
     (token_error, unit \<times> token_state) outcome" where
  "initialize env admin decimals nm symb s =
     (if is_initialized s then Err AlreadyInitialized
      else if decimals > 18 then Err InvalidDecimals
      else
        and_then (require_auth env admin) (\<lambda>_.
        let s1 = set_admin admin s;
            s2 = set_decimals decimals s1;
            s3 = set_name nm s2;
            s4 = set_symbol symb s3
        in Ok ((), set_total_supply 0 s4)))"

definition pub_set_admin ::
    "env \<Rightarrow> address \<Rightarrow> address \<Rightarrow> token_state \<Rightarrow> (token_error, unit \<times> token_state) outcome" where
  "pub_set_admin env admin new_admin s =
     and_then (assert_admin env admin s) (\<lambda>_.
     and_then (require_auth env new_admin) (\<lambda>_.
     Ok ((), publish (Ev_SetAdmin new_admin) (set_admin new_admin s))))"

definition pub_get_admin :: "token_state \<Rightarrow> (token_error, address) outcome" where
  "pub_get_admin s = get_admin s"

definition mint ::
    "env \<Rightarrow> address \<Rightarrow> address \<Rightarrow> int \<Rightarrow> token_state \<Rightarrow> (token_error, unit \<times> token_state) outcome" where
  "mint env admin to x s =
     and_then (assert_admin env admin s) (\<lambda>_.
     if x \<le> 0 then Err ZeroAmount
     else
       let balance = get_balance s to in
       and_then (i128_add balance x) (\<lambda>new_balance.
       let s1 = set_balance to new_balance s;
           supply = get_total_supply s1 in
       and_then (i128_add supply x) (\<lambda>new_supply.
       let s2 = set_total_supply new_supply s1
       in Ok ((), publish (Ev_Mint to x) s2))))"

text \<open>The tail that \<open>burn\<close> and \<open>burn_from\<close> have in common.\<close>

definition burn_balance ::
    "address \<Rightarrow> int \<Rightarrow> token_state \<Rightarrow> (token_error, unit \<times> token_state) outcome" where
  "burn_balance from x s =
     (let balance = get_balance s from in
      if balance < x then Err InsufficientBalance
      else
        and_then (i128_sub balance x) (\<lambda>new_balance.
        let s1 = set_balance from new_balance s;
            supply = get_total_supply s1 in
        and_then (i128_sub supply x) (\<lambda>new_supply.
        let s2 = set_total_supply new_supply s1
        in Ok ((), publish (Ev_Burn from x) s2))))"

definition burn ::
    "env \<Rightarrow> address \<Rightarrow> int \<Rightarrow> token_state \<Rightarrow> (token_error, unit \<times> token_state) outcome" where
  "burn env from x s =
     and_then (assert_initialized s) (\<lambda>_.
     if x \<le> 0 then Err ZeroAmount
     else and_then (require_auth env from) (\<lambda>_. burn_balance from x s))"

definition burn_from ::
    "env \<Rightarrow> address \<Rightarrow> address \<Rightarrow> int \<Rightarrow> token_state \<Rightarrow> (token_error, unit \<times> token_state) outcome" where
  "burn_from env spender from x s =
     and_then (assert_initialized s) (\<lambda>_.
     if x \<le> 0 then Err ZeroAmount
     else
       and_then (require_auth env spender) (\<lambda>_.
       and_then (spend_allowance env from spender x s) (\<lambda>(_, s1). burn_balance from x s1)))"

text \<open>The tail that \<open>transfer\<close> and \<open>transfer_from\<close> have in common: the recipient's balance is
  read after the sender's has been written.\<close>

definition move_balance ::
    "address \<Rightarrow> address \<Rightarrow> int \<Rightarrow> token_state \<Rightarrow> (token_error, unit \<times> token_state) outcome" where
  "move_balance from to x s =
     (let from_balance = get_balance s from in
      if from_balance < x then Err InsufficientBalance
      else
        and_then (i128_sub from_balance x) (\<lambda>new_from.
        let s1 = set_balance from new_from s;
            to_balance = get_balance s1 to in
        and_then (i128_add to_balance x) (\<lambda>new_to.
        let s2 = set_balance to new_to s1
        in Ok ((), publish (Ev_Transfer from to x) s2))))"

definition transfer ::
    "env \<Rightarrow> address \<Rightarrow> address \<Rightarrow> int \<Rightarrow> token_state \<Rightarrow> (token_error, unit \<times> token_state) outcome" where
  "transfer env from to x s =
     and_then (assert_initialized s) (\<lambda>_.
     if x \<le> 0 then Err ZeroAmount
     else and_then (require_auth env from) (\<lambda>_. move_balance from to x s))"

definition transfer_from ::
    "env \<Rightarrow> address \<Rightarrow> address \<Rightarrow> address \<Rightarrow> int \<Rightarrow> token_state \<Rightarrow>
     (token_error, unit \<times> token_state) outcome" where
  "transfer_from env spender from to x s =
     and_then (assert_initialized s) (\<lambda>_.
     if x \<le> 0 then Err ZeroAmount
     else
       and_then (require_auth env spender) (\<lambda>_.
       and_then (spend_allowance env from spender x s) (\<lambda>(_, s1). move_balance from to x s1)))"

definition approve ::
    "env \<Rightarrow> address \<Rightarrow> address \<Rightarrow> int \<Rightarrow> nat \<Rightarrow> token_state \<Rightarrow>
     (token_error, unit \<times> token_state) outcome" where
  "approve env from spender x expiry s =
     and_then (assert_initialized s) (\<lambda>_.
     if x < 0 then Err NegativeAmount
     else
       and_then (require_auth env from) (\<lambda>_.
       let s1 = set_allowance from spender x expiry s
       in Ok ((), publish (Ev_Approve from spender x expiry) s1)))"

definition allowance :: "env \<Rightarrow> address \<Rightarrow> address \<Rightarrow> token_state \<Rightarrow> int" where
  "allowance env from spender s =
     (let a = get_allowance s from spender in
      if sequence env > expiration_ledger a then 0 else amount a)"

definition balance :: "address \<Rightarrow> token_state \<Rightarrow> int" where
  "balance a s = get_balance s a"
definition total_supply :: "token_state \<Rightarrow> int" where
  "total_supply s = get_total_supply s"
definition decimals :: "token_state \<Rightarrow> nat" where
  "decimals s = get_decimals s"
definition pub_name :: "token_state \<Rightarrow> string" where
  "pub_name s = get_name s"
definition pub_symbol :: "token_state \<Rightarrow> string" where
  "pub_symbol s = get_symbol s"
definition pub_is_initialized :: "token_state \<Rightarrow> bool" where
  "pub_is_initialized s = is_initialized s"

section \<open>The token as a state machine\<close>

text \<open>One successful invocation; the environment is kept, since who signed matters.\<close>

inductive token_call :: "env \<Rightarrow> token_state \<Rightarrow> token_state \<Rightarrow> bool" for env where
  initialize: "initialize env a d n y s = Ok (u, t) \<Longrightarrow> token_call env s t"
| set_admin: "pub_set_admin env a b s = Ok (u, t) \<Longrightarrow> token_call env s t"
| mint: "mint env a b x s = Ok (u, t) \<Longrightarrow> token_call env s t"
| burn: "burn env a x s = Ok (u, t) \<Longrightarrow> token_call env s t"
| burn_from: "burn_from env p a x s = Ok (u, t) \<Longrightarrow> token_call env s t"
| transfer: "transfer env a b x s = Ok (u, t) \<Longrightarrow> token_call env s t"
| transfer_from: "transfer_from env p a b x s = Ok (u, t) \<Longrightarrow> token_call env s t"
| approve: "approve env a p x e s = Ok (u, t) \<Longrightarrow> token_call env s t"

definition token_step :: "token_state \<Rightarrow> token_state \<Rightarrow> bool" where
  "token_step s t \<longleftrightarrow> (\<exists>env. token_call env s t)"

end
