(* ===== verification/Token_Interface.thy ===== *)
theory Token_Interface
  imports Soroban_Prelude
begin

text \<open>
  The token interface the other contracts call (\<open>soroban_sdk::token::Client\<close>): a world of token
  contracts with \<open>balance_of\<close> and \<open>transfer_call\<close>. A call of \<open>transfer\<close> either succeeds and moves
  the amount, with the sender's authorisation, or fails and traps the caller. The laws are the
  ones the clients rely on; \<open>Token_Correct\<close> discharges them for the repository's own token.
\<close>

locale sep41 =
  fixes balance_of :: "'w \<Rightarrow> address \<Rightarrow> address \<Rightarrow> int"
    and transfer_call :: "address \<Rightarrow> env \<Rightarrow> address \<Rightarrow> address \<Rightarrow> int \<Rightarrow> 'w \<Rightarrow> 'w option"
  assumes transfer_guard:
      "transfer_call token env from to x w = Some w' \<Longrightarrow>
       0 < x \<and> auth env from \<and> x \<le> balance_of w token from"
    and transfer_effect:
      "transfer_call token env from to x w = Some w' \<Longrightarrow>
       balance_of w' token a =
         balance_of w token a - (if a = from then x else 0) + (if a = to then x else 0)"
    and transfer_frame:
      "transfer_call token env from to x w = Some w' \<Longrightarrow> other \<noteq> token \<Longrightarrow>
       balance_of w' other a = balance_of w other a"
begin

lemma deposit_effect:
  assumes "transfer_call token env from to x w = Some w'" "from \<noteq> to"
  shows "balance_of w' token to = balance_of w token to + x"
    "balance_of w' token from = balance_of w token from - x"
  using transfer_effect [OF assms(1)] assms(2) by simp_all

lemma conservation:
  assumes "transfer_call token env from to x w = Some w'" "finite A" "from \<in> A" "to \<in> A"
  shows "(\<Sum>a\<in>A. balance_of w' token a) = (\<Sum>a\<in>A. balance_of w token a)"
proof -
  have "(\<Sum>a\<in>A. balance_of w' token a) =
      (\<Sum>a\<in>A. balance_of w token a - (if a = from then x else 0) + (if a = to then x else 0))"
    by (intro sum.cong refl transfer_effect [OF assms(1)])
  also have "\<dots> = (\<Sum>a\<in>A. balance_of w token a) - x + x"
    using assms(2-4) by (simp add: sum.distrib sum_subtractf)
  finally show ?thesis by simp
qed

text \<open>One leg into, or out of, the contract \<open>self\<close>, seen from any token \<open>k\<close>.\<close>

lemma leg_in:
  assumes "transfer_call tok env from self x w = Some w'" "from \<noteq> self"
  shows "balance_of w' k self = balance_of w k self + (if tok = k then x else 0)"
  using deposit_effect(1) [OF assms] transfer_frame [OF assms(1), of k self] by auto

lemma leg_out:
  assumes "transfer_call tok env self to x w = Some w'" "to \<noteq> self"
  shows "balance_of w' k self = balance_of w k self - (if tok = k then x else 0)"
  using deposit_effect(2) [OF assms(1)] assms(2) transfer_frame [OF assms(1), of k self] by auto

lemma leg_out_ge:
  assumes "transfer_call tok env self to x w = Some w'"
  shows "balance_of w k self - (if tok = k then x else 0) \<le> balance_of w' k self"
proof (cases "to = self")
  case True
  then show ?thesis
    using transfer_effect [OF assms, of self] transfer_guard [OF assms] transfer_frame [OF assms, of k self] by auto
next
  case False
  then show ?thesis using leg_out [OF assms] by simp
qed

lemma unauthorised_keeps:
  assumes "transfer_call token env from to x w = Some w'" "\<not> auth env a"
  shows "balance_of w t a \<le> balance_of w' t a"
proof (cases "t = token")
  case True
  have "a \<noteq> from" using transfer_guard [OF assms(1)] assms(2) by auto
  then show ?thesis using transfer_effect [OF assms(1), of a] transfer_guard [OF assms(1)] True by simp
next
  case False
  then show ?thesis using transfer_frame [OF assms(1)] by simp
qed

end

text \<open>
  A world in which everybody else may act too. \<open>outside self\<close> is what the world may do without the
  signature of \<open>self\<close>, \<open>world_ok self\<close> what must hold for that to be harmless (with the
  repository's token: \<open>self\<close> has granted no allowance).
\<close>

locale token_host = sep41 balance_of transfer_call
  for balance_of :: "'w \<Rightarrow> address \<Rightarrow> address \<Rightarrow> int"
    and transfer_call :: "address \<Rightarrow> env \<Rightarrow> address \<Rightarrow> address \<Rightarrow> int \<Rightarrow> 'w \<Rightarrow> 'w option" +
  fixes world_ok :: "address \<Rightarrow> 'w \<Rightarrow> bool"
    and outside :: "address \<Rightarrow> 'w \<Rightarrow> 'w \<Rightarrow> bool"
  assumes outside_keeps:
      "world_ok self w \<Longrightarrow> outside self w w' \<Longrightarrow> balance_of w token self \<le> balance_of w' token self"
    and own_balance_nonneg: "world_ok self w \<Longrightarrow> 0 \<le> balance_of w token self"
    and outside_ok: "world_ok self w \<Longrightarrow> outside self w w' \<Longrightarrow> world_ok self w'"
    and transfer_keeps_ok:
      "world_ok self w \<Longrightarrow> transfer_call token env from to x w = Some w' \<Longrightarrow> world_ok self w'"
begin

lemma outside_run_keeps:
  assumes "(outside self)\<^sup>*\<^sup>* w w'" "world_ok self w"
  shows "world_ok self w' \<and> balance_of w token self \<le> balance_of w' token self"
  using assms
proof (induction rule: rtranclp_induct)
  case base
  then show ?case by simp
next
  case (step u v)
  then show ?case using outside_keeps [of self u v token] outside_ok [of self u v] by auto
qed

end

end
