(* ===== verification/Token_Correct.thy ===== *)
theory Token_Correct
  imports Token_Contract Token_Interface
begin

text \<open>
  Correctness of the token: the total supply is the sum of the balances and no arithmetic of a
  transfer can overflow, a transfer succeeds exactly when it should and moves exactly the amount,
  an account that does not sign loses no more than the allowances it has granted, only the admin
  makes the supply grow. The last section interprets the token interface on this model.
\<close>

section \<open>Success of each operation\<close>

lemma token_assert_initialized_Ok [simp]: "assert_initialized s = Ok u \<longleftrightarrow> is_initialized s"
  by (simp add: assert_initialized_def)

lemma token_assert_admin_Ok [simp]:
  "assert_admin env c s = Ok u \<longleftrightarrow> auth env c \<and> Admin s = Some c"
  by (auto simp: assert_admin_def token_getters)

lemma token_initialize_Ok:
  "initialize env a d n y s = Ok (u, t) \<longleftrightarrow>
     Admin s = None \<and> d \<le> 18 \<and> auth env a \<and>
     t = s\<lparr>Admin := Some a, Decimals := Some d, Name := Some n, Symbol := Some y, TotalSupply := Some 0\<rparr>"
  by (auto simp: initialize_def is_initialized_def token_setters Let_def)

lemma set_admin_Ok:
  "pub_set_admin env a b s = Ok (u, t) \<longleftrightarrow>
     auth env a \<and> Admin s = Some a \<and> auth env b \<and>
     t = s\<lparr>Admin := Some b, events := events s @ [Ev_SetAdmin b]\<rparr>"
  by (auto simp: pub_set_admin_def token_setters)

lemma token_mint_Ok:
  "mint env a b x s = Ok (u, t) \<longleftrightarrow>
     auth env a \<and> Admin s = Some a \<and> 0 < x \<and> in_i128 (balance b s + x) \<and>
     in_i128 (total_supply s + x) \<and>
     t = s\<lparr>Balance := (Balance s)(b \<mapsto> balance b s + x), TotalSupply := Some (total_supply s + x),
           events := events s @ [Ev_Mint b x]\<rparr>"
  by (auto simp: mint_def Let_def token_setters token_getters balance_def total_supply_def)

lemma burn_balance_Ok:
  "burn_balance a x s = Ok (u, t) \<longleftrightarrow>
     x \<le> balance a s \<and> in_i128 (balance a s - x) \<and> in_i128 (total_supply s - x) \<and>
     t = s\<lparr>Balance := (Balance s)(a \<mapsto> balance a s - x), TotalSupply := Some (total_supply s - x),
           events := events s @ [Ev_Burn a x]\<rparr>"
  by (auto simp: burn_balance_def Let_def token_setters token_getters balance_def total_supply_def)

definition moved :: "address \<Rightarrow> address \<Rightarrow> int \<Rightarrow> (address \<rightharpoonup> int) \<Rightarrow> (address \<rightharpoonup> int)" where
  "moved a b x m = (let m1 = m(a \<mapsto> bal m a - x) in m1(b \<mapsto> bal m1 b + x))"

lemma bal_moved: "bal (moved a b x m) c = bal m c - (if c = a then x else 0) + (if c = b then x else 0)"
  by (simp add: moved_def Let_def)

lemma total_bal_moved: "finite (dom m) \<Longrightarrow> total_bal (moved a b x m) = total_bal m"
  by (simp add: moved_def Let_def)

lemma move_balance_Ok:
  "move_balance a b x s = Ok (u, t) \<longleftrightarrow>
     x \<le> balance a s \<and> in_i128 (balance a s - x) \<and>
     in_i128 (bal ((Balance s)(a \<mapsto> balance a s - x)) b + x) \<and>
     t = s\<lparr>Balance := moved a b x (Balance s), events := events s @ [Ev_Transfer a b x]\<rparr>"
  by (auto simp: move_balance_def moved_def Let_def token_setters token_getters balance_def)

lemma burn_Ok:
  "burn env a x s = Ok (u, t) \<longleftrightarrow>
     is_initialized s \<and> 0 < x \<and> auth env a \<and> burn_balance a x s = Ok (u, t)"
  by (auto simp: burn_def)

lemma transfer_Ok:
  "transfer env a b x s = Ok (u, t) \<longleftrightarrow>
     is_initialized s \<and> 0 < x \<and> auth env a \<and> move_balance a b x s = Ok (u, t)"
  by (auto simp: transfer_def)

definition spent :: "address \<Rightarrow> address \<Rightarrow> int \<Rightarrow> token_state \<Rightarrow> token_state" where
  "spent a p x s = set_allowance a p (amount (get_allowance s a p) - x)
     (expiration_ledger (get_allowance s a p)) s"

lemma spend_allowance_Ok:
  "spend_allowance env a p x s = Ok (u, t) \<longleftrightarrow>
     sequence env \<le> expiration_ledger (get_allowance s a p) \<and> x \<le> amount (get_allowance s a p) \<and>
     in_i128 (amount (get_allowance s a p) - x) \<and> t = spent a p x s"
  by (auto simp: spend_allowance_def spent_def Let_def)

lemma spent_fields [simp]:
  "Admin (spent a p x s) = Admin s" "Balance (spent a p x s) = Balance s"
  "TotalSupply (spent a p x s) = TotalSupply s" "Decimals (spent a p x s) = Decimals s"
  "balance b (spent a p x s) = balance b s" "total_supply (spent a p x s) = total_supply s"
  by (simp_all add: spent_def set_allowance_def balance_def total_supply_def token_getters)

lemma burn_from_Ok:
  "burn_from env p a x s = Ok (u, t) \<longleftrightarrow>
     is_initialized s \<and> 0 < x \<and> auth env p \<and> spend_allowance env a p x s = Ok ((), spent a p x s) \<and>
     burn_balance a x (spent a p x s) = Ok (u, t)"
  by (auto simp: burn_from_def spend_allowance_Ok)

lemma transfer_from_Ok:
  "transfer_from env p a b x s = Ok (u, t) \<longleftrightarrow>
     is_initialized s \<and> 0 < x \<and> auth env p \<and> spend_allowance env a p x s = Ok ((), spent a p x s) \<and>
     move_balance a b x (spent a p x s) = Ok (u, t)"
  by (auto simp: transfer_from_def spend_allowance_Ok)

lemma token_approve_Ok:
  "approve env a p x e s = Ok (u, t) \<longleftrightarrow>
     is_initialized s \<and> 0 \<le> x \<and> auth env a \<and> t = publish (Ev_Approve a p x e) (set_allowance a p x e s)"
  by (auto simp: approve_def Let_def)

section \<open>The invariant\<close>

definition allowances_ok :: "token_state \<Rightarrow> bool" where
  "allowances_ok s \<longleftrightarrow> finite (dom (Allowance s)) \<and> (\<forall>k v. Allowance s k = Some v \<longrightarrow> 0 < amount v)"

definition ledger_ok :: "token_state \<Rightarrow> bool" where
  "ledger_ok s \<longleftrightarrow> finite (dom (Balance s)) \<and> (\<forall>a. 0 \<le> balance a s) \<and>
     total_supply s = total_bal (Balance s) \<and> total_supply s \<le> i128_max"

definition token_inv :: "token_state \<Rightarrow> bool" where
  "token_inv s \<longleftrightarrow> ledger_ok s \<and> allowances_ok s \<and> (Admin s = None \<longrightarrow> Balance s = Map.empty) \<and>
     decimals s \<le> 18"

lemma token_inv_empty: "token_inv empty_token"
  by (simp add: token_inv_def ledger_ok_def allowances_ok_def empty_token_def balance_def
      total_supply_def decimals_def token_getters i128_max_def)

lemma ledger_ok_cong:
  "Balance t = Balance s \<Longrightarrow> TotalSupply t = TotalSupply s \<Longrightarrow> ledger_ok t = ledger_ok s"
  by (simp add: ledger_ok_def balance_def total_supply_def token_getters)

lemma allowances_ok_cong: "Allowance t = Allowance s \<Longrightarrow> allowances_ok t = allowances_ok s"
  by (simp add: allowances_ok_def)

lemma allowances_ok_set:
  "allowances_ok s \<Longrightarrow> 0 \<le> x \<Longrightarrow> allowances_ok (set_allowance a p x e s)"
  by (auto simp: allowances_ok_def set_allowance_def)

lemma allowances_ok_spent:
  "allowances_ok s \<Longrightarrow> x \<le> amount (get_allowance s a p) \<Longrightarrow> allowances_ok (spent a p x s)"
  unfolding spent_def by (rule allowances_ok_set) simp_all

lemma balance_le_supply: "ledger_ok s \<Longrightarrow> balance a s \<le> total_supply s"
  using bal_le_total [of "Balance s" a] by (simp add: ledger_ok_def balance_def get_balance_def)

lemma ledger_ok_mint:
  assumes "ledger_ok s" "0 < x" "in_i128 (total_supply s + x)"
  shows "ledger_ok (s\<lparr>Balance := (Balance s)(b \<mapsto> balance b s + x),
    TotalSupply := Some (total_supply s + x), events := ev\<rparr>)"
  using assms by (auto simp: ledger_ok_def balance_def total_supply_def token_getters in_i128_def)

lemma ledger_ok_burn:
  assumes "ledger_ok s" "0 < x" "x \<le> balance a s"
  shows "ledger_ok (s\<lparr>Balance := (Balance s)(a \<mapsto> balance a s - x),
    TotalSupply := Some (total_supply s - x), events := ev\<rparr>)"
  using assms by (auto simp: ledger_ok_def balance_def total_supply_def token_getters)

lemma ledger_ok_move:
  assumes "ledger_ok s" "0 < x" "x \<le> balance a s"
  shows "ledger_ok (s\<lparr>Balance := moved a b x (Balance s), events := ev\<rparr>)"
proof -
  have "finite (dom (moved a b x (Balance s)))"
    using assms(1) by (simp add: ledger_ok_def moved_def Let_def)
  then show ?thesis
    using assms by (auto simp: ledger_ok_def balance_def total_supply_def token_getters bal_moved
        total_bal_moved)
qed

lemma token_call_inv: "token_call env s t \<Longrightarrow> token_inv s \<Longrightarrow> token_inv t"
proof (induction rule: token_call.induct)
  case (initialize a d n y s u t)
  then show ?case
    by (simp add: token_initialize_Ok token_inv_def ledger_ok_def allowances_ok_def balance_def
        total_supply_def decimals_def token_getters i128_max_def)
next
  case (set_admin a b s u t)
  then have "ledger_ok t" "allowances_ok t"
    by (auto simp: set_admin_Ok token_inv_def intro: ledger_ok_cong [THEN iffD2] allowances_ok_cong [THEN iffD2])
  then show ?case
    using set_admin by (simp add: set_admin_Ok token_inv_def decimals_def token_getters)
next
  case (mint a b x s u t)
  then show ?case
    using ledger_ok_mint [of s x _ b] allowances_ok_cong [of t s]
    by (simp add: token_mint_Ok token_inv_def decimals_def token_getters)
next
  case (burn a x s u t)
  then show ?case
    using ledger_ok_burn [of s x a] allowances_ok_cong [of t s]
    by (simp add: burn_Ok burn_balance_Ok token_inv_def decimals_def token_getters)
next
  case (burn_from p a x s u t)
  then show ?case
    using ledger_ok_burn [of "spent a p x s" x a] ledger_ok_cong [of "spent a p x s" s]
      allowances_ok_spent [of s x a p] allowances_ok_cong [of t "spent a p x s"]
    by (simp add: burn_from_Ok spend_allowance_Ok burn_balance_Ok token_inv_def decimals_def token_getters)
next
  case (transfer a b x s u t)
  then show ?case
    using ledger_ok_move [of s x a _ b] allowances_ok_cong [of t s]
    by (auto simp: transfer_Ok move_balance_Ok token_inv_def decimals_def token_getters)
next
  case (transfer_from p a b x s u t)
  then show ?case
    using ledger_ok_move [of "spent a p x s" x a _ b] ledger_ok_cong [of "spent a p x s" s]
      allowances_ok_spent [of s x a p] allowances_ok_cong [of t "spent a p x s"]
    by (auto simp: transfer_from_Ok spend_allowance_Ok move_balance_Ok token_inv_def decimals_def token_getters)
next
  case (approve a p x e s u t)
  then have t: "t = publish (Ev_Approve a p x e) (set_allowance a p x e s)" "0 \<le> x"
    by (simp_all add: token_approve_Ok)
  have "allowances_ok t"
    using allowances_ok_set [of s x a p e] approve.prems t allowances_ok_cong [of t "set_allowance a p x e s"]
    by (simp add: publish_def token_inv_def)
  moreover have "ledger_ok t"
    using approve.prems t ledger_ok_cong [of t s]
    by (simp add: publish_def set_allowance_def token_inv_def)
  ultimately show ?case
    using approve.prems t
    by (simp add: publish_def set_allowance_def token_inv_def decimals_def token_getters)
qed

interpretation token: contract_machine empty_token token_step token_inv
  by unfold_locales (auto simp: token_step_def intro: token_inv_empty token_call_inv)

section \<open>What an account that does not sign can lose\<close>

text \<open>The allowances an owner has granted, by spender, and their sum.\<close>

definition grants :: "token_state \<Rightarrow> address \<Rightarrow> address \<rightharpoonup> int" where
  "grants s a = (\<lambda>p. map_option amount (Allowance s (a, p)))"

definition outstanding :: "address \<Rightarrow> token_state \<Rightarrow> int" where
  "outstanding a s = total_bal (grants s a)"

lemma bal_grants [simp]: "bal (grants s a) p = amount (get_allowance s a p)"
  by (simp add: grants_def bal_def get_allowance_def unwrap_or_def split: option.splits)

lemma finite_grants: "allowances_ok s \<Longrightarrow> finite (dom (grants s a))"
  by (rule finite_subset [of _ "snd ` dom (Allowance s)"])
    (force simp: grants_def allowances_ok_def)+

lemma grants_set_allowance:
  "grants (set_allowance a p x e s) b =
     (if b = a then (if x = 0 then (grants s a)(p := None) else (grants s a)(p \<mapsto> x)) else grants s b)"
  by (rule ext) (auto simp: grants_def set_allowance_def)

lemma outstanding_spent:
  assumes "allowances_ok s"
  shows "outstanding b (spent a p x s) = outstanding b s - (if b = a then x else 0)"
  using finite_grants [OF assms, of a]
  by (simp add: outstanding_def spent_def grants_set_allowance del: fun_upd_apply)

lemma outstanding_cong: "Allowance t = Allowance s \<Longrightarrow> outstanding a t = outstanding a s"
  by (simp add: outstanding_def grants_def)

lemma outstanding_nonneg:
  assumes "allowances_ok s" shows "0 \<le> outstanding a s"
  unfolding outstanding_def
proof (rule total_bal_nonneg)
  fix p show "0 \<le> bal (grants s a) p"
    using assms by (auto simp: get_allowance_def allowances_ok_def unwrap_or_def
        split: option.splits intro: less_imp_le)
qed

text \<open>A step that the account \<open>a\<close> did not sign; the quantity no such step lowers is the balance
  less what may still be spent on the owner's behalf.\<close>

definition unsigned_step :: "address \<Rightarrow> token_state \<Rightarrow> token_state \<Rightarrow> bool" where
  "unsigned_step a s t \<longleftrightarrow> (\<exists>env. \<not> auth env a \<and> token_call env s t)"

definition headroom :: "address \<Rightarrow> token_state \<Rightarrow> int" where
  "headroom a s = balance a s - outstanding a s"

lemma headroom_simps:
  "headroom a (s\<lparr>Balance := m, TotalSupply := y, events := ev\<rparr>) = bal m a - outstanding a s"
  "headroom a (s\<lparr>Balance := m, events := ev\<rparr>) = bal m a - outstanding a s"
  by (simp_all add: headroom_def balance_def get_balance_def outstanding_def grants_def)

lemma headroom_step:
  assumes "token_inv s" "token_call env s t" "\<not> auth env a"
  shows "headroom a s \<le> headroom a t"
  using assms(2)
proof cases
  case (initialize b d n y u)
  then show ?thesis using outstanding_cong [of t s] by (simp add: token_initialize_Ok headroom_def balance_def get_balance_def)
next
  case (set_admin b c u)
  then show ?thesis using outstanding_cong [of t s] by (simp add: set_admin_Ok headroom_def balance_def get_balance_def)
next
  case (mint c b x u)
  then show ?thesis by (auto simp: token_mint_Ok headroom_simps) (auto simp: headroom_def balance_def get_balance_def)
next
  case (burn b x u)
  then have "b \<noteq> a" using assms(3) by (auto simp: burn_Ok)
  with burn show ?thesis
    by (auto simp: burn_Ok burn_balance_Ok headroom_simps) (auto simp: headroom_def balance_def get_balance_def)
next
  case (burn_from p b x u)
  have al: "allowances_ok s" using assms(1) by (simp add: token_inv_def)
  from burn_from show ?thesis
    by (auto simp: burn_from_Ok burn_balance_Ok headroom_simps outstanding_spent [OF al])
      (auto simp: headroom_def balance_def get_balance_def)
next
  case (transfer b c x u)
  then have "b \<noteq> a" using assms(3) by (auto simp: transfer_Ok)
  with transfer show ?thesis
    by (auto simp: transfer_Ok move_balance_Ok headroom_simps bal_moved)
      (auto simp: headroom_def balance_def get_balance_def)
next
  case (transfer_from p b c x u)
  have al: "allowances_ok s" using assms(1) by (simp add: token_inv_def)
  from transfer_from show ?thesis
    by (auto simp: transfer_from_Ok move_balance_Ok headroom_simps outstanding_spent [OF al] bal_moved)
      (auto simp: headroom_def balance_def get_balance_def)
next
  case (approve b p x e u)
  then have "b \<noteq> a" using assms(3) by (auto simp: token_approve_Ok)
  with approve show ?thesis
    using outstanding_cong [of t "set_allowance b p x e s" a]
    by (simp add: token_approve_Ok headroom_def publish_def balance_def get_balance_def)
      (simp add: outstanding_def grants_set_allowance, simp add: set_allowance_def)
qed

interpretation unsigned: monotone_machine empty_token "unsigned_step a" token_inv "headroom a" for a
  by unfold_locales
    (auto simp: unsigned_step_def intro: token_inv_empty token_call_inv headroom_step)

section \<open>The token interface on this model\<close>

text \<open>A world of instances of this token, by contract address.\<close>

type_synonym token_world = "address \<Rightarrow> token_state"

definition world_balance :: "token_world \<Rightarrow> address \<Rightarrow> address \<Rightarrow> int" where
  "world_balance w token a = balance a (w token)"

definition world_transfer ::
    "address \<Rightarrow> env \<Rightarrow> address \<Rightarrow> address \<Rightarrow> int \<Rightarrow> token_world \<Rightarrow> token_world option" where
  "world_transfer token env from to x w =
     (case transfer env from to x (w token) of
        Ok (_, t) \<Rightarrow> Some (w(token := t)) | Err _ \<Rightarrow> None | Trap _ \<Rightarrow> None)"

lemma world_transfer_Some:
  "world_transfer token env from to x w = Some w' \<longleftrightarrow>
     (\<exists>t. transfer env from to x (w token) = Ok ((), t) \<and> w' = w(token := t))"
  by (auto simp: world_transfer_def split: outcome.splits)

interpretation repo_token: sep41 world_balance world_transfer
proof unfold_locales
  fix token env "from" "to" x w w'
  assume c: "world_transfer token env from to x w = Some w'"
  then show "0 < x \<and> auth env from \<and> x \<le> world_balance w token from"
    by (auto simp: world_transfer_Some world_balance_def transfer_Ok move_balance_Ok)
  show "world_balance w' token a =
      world_balance w token a - (if a = from then x else 0) + (if a = to then x else 0)" for a
    using c by (auto simp: world_transfer_Some world_balance_def transfer_Ok move_balance_Ok
        balance_def get_balance_def bal_moved)
  show "world_balance w' other a = world_balance w other a" if "other \<noteq> token" for other a
    using c that by (auto simp: world_transfer_Some world_balance_def)
qed

text \<open>Everything the rest of the ledger may do to the tokens without the signature of \<open>self\<close>.\<close>

definition world_ok :: "address \<Rightarrow> token_world \<Rightarrow> bool" where
  "world_ok self w \<longleftrightarrow> (\<forall>tok. token_inv (w tok) \<and> outstanding self (w tok) = 0)"

definition world_outside :: "address \<Rightarrow> token_world \<Rightarrow> token_world \<Rightarrow> bool" where
  "world_outside self w w' \<longleftrightarrow> (\<exists>tok t. unsigned_step self (w tok) t \<and> w' = w(tok := t))"

lemma outstanding_unsigned:
  assumes "token_inv s" "token_call env s t" "\<not> auth env a"
  shows "outstanding a t \<le> outstanding a s"
  using assms(2)
proof cases
  case (burn_from p b x u)
  have "allowances_ok s" using assms(1) by (simp add: token_inv_def)
  then show ?thesis
    using burn_from outstanding_spent [of s a b p x] outstanding_cong [of t "spent b p x s" a]
    by (auto simp: burn_from_Ok burn_balance_Ok)
next
  case (transfer_from p b c x u)
  have "allowances_ok s" using assms(1) by (simp add: token_inv_def)
  then show ?thesis
    using transfer_from outstanding_spent [of s a b p x] outstanding_cong [of t "spent b p x s" a]
    by (auto simp: transfer_from_Ok move_balance_Ok)
next
  case (approve b p x e u)
  then show ?thesis
    using assms(3) outstanding_cong [of t "set_allowance b p x e s" a]
    by (auto simp: token_approve_Ok publish_def outstanding_def grants_set_allowance)
qed (use outstanding_cong [of t s a] in
  \<open>auto simp: token_initialize_Ok set_admin_Ok token_mint_Ok burn_Ok burn_balance_Ok transfer_Ok move_balance_Ok\<close>)

lemma world_ok_unsigned:
  assumes "world_ok self w" "unsigned_step self (w tok) t"
  shows "world_ok self (w(tok := t))" "balance self (w tok) \<le> balance self t"
proof -
  obtain env where env: "token_call env (w tok) t" "\<not> auth env self"
    using assms(2) by (auto simp: unsigned_step_def)
  have pre: "token_inv (w tok)" "outstanding self (w tok) = 0"
    using assms(1) by (simp_all add: world_ok_def)
  have post: "token_inv t" "outstanding self t = 0"
    using token_call_inv [OF env(1) pre(1)] outstanding_unsigned [OF pre(1) env] pre(2)
      outstanding_nonneg [of t self]
    by (auto simp: token_inv_def)
  then show "world_ok self (w(tok := t))" using assms(1) by (simp add: world_ok_def)
  show "balance self (w tok) \<le> balance self t"
    using headroom_step [OF pre(1) env] pre(2) post(2) by (simp add: headroom_def)
qed

interpretation repo_host: token_host world_balance world_transfer world_ok world_outside
proof unfold_locales
  fix self :: address and w w' :: token_world and token env "from" "to" x
  show "world_balance w token self \<le> world_balance w' token self"
    if "world_ok self w" "world_outside self w w'"
    using that world_ok_unsigned(2) [of self w] by (auto simp: world_outside_def world_balance_def)
  show "0 \<le> world_balance w token self" if "world_ok self w"
    using that by (simp add: world_ok_def token_inv_def ledger_ok_def world_balance_def)
  show "world_ok self w'" if "world_ok self w" "world_outside self w w'"
    using that world_ok_unsigned(1) [of self w] by (auto simp: world_outside_def)
  show "world_ok self w'"
    if ok: "world_ok self w" and c: "world_transfer token env from to x w = Some w'"
  proof -
    obtain t where t: "transfer env from to x (w token) = Ok ((), t)" "w' = w(token := t)"
      using c by (auto simp: world_transfer_Some)
    then have "token_inv t"
      using token_call_inv [OF token_call.transfer [OF t(1)]] ok by (simp add: world_ok_def)
    moreover have "outstanding self t = outstanding self (w token)"
      using t(1) by (intro outstanding_cong) (auto simp: transfer_Ok move_balance_Ok)
    ultimately show ?thesis using ok t(2) by (simp add: world_ok_def)
  qed
qed

lemma transfer_fits:
  assumes l: "ledger_ok s" and that: "0 < x" "x \<le> balance a s"
  shows "in_i128 (balance a s - x) \<and> in_i128 (bal ((Balance s)(a \<mapsto> balance a s - x)) b + x)"
proof -
  have "0 \<le> balance a s" using l by (simp add: ledger_ok_def)
  then have "0 \<le> total_supply s" using balance_le_supply [OF l, of a] by simp
  then have sup: "in_i128 (total_supply s)"
    using l by (simp add: ledger_ok_def in_i128_def i128_min_def)
  have nn: "0 \<le> bal (moved a b x (Balance s)) c" for c
    using l that by (auto simp: bal_moved ledger_ok_def balance_def get_balance_def)
  have fin: "finite (dom (moved a b x (Balance s)))" using l by (simp add: ledger_ok_def moved_def Let_def)
  have "bal ((Balance s)(a \<mapsto> balance a s - x)) b + x = bal (moved a b x (Balance s)) b"
    by (simp add: moved_def Let_def balance_def get_balance_def)
  also have "\<dots> \<le> total_supply s"
    using bal_le_total [OF fin nn, of b] l by (simp add: ledger_ok_def total_bal_moved)
  finally have "bal ((Balance s)(a \<mapsto> balance a s - x)) b + x \<le> total_supply s" .
  moreover have "0 \<le> bal ((Balance s)(a \<mapsto> balance a s - x)) b + x"
    using l that by (auto simp: ledger_ok_def balance_def get_balance_def)
  ultimately show ?thesis
    using that balance_le_supply [OF l, of a] by (auto intro: in_i128_le [OF sup])
qed

text \<open>What a contract owns it can always pay out.\<close>

lemma world_transfer_succeeds:
  assumes "world_ok self w" "0 < x" "x \<le> world_balance w tok self" "auth env self"
  shows "\<exists>w'. world_transfer tok env self a x w = Some w'"
proof -
  have ti: "token_inv (w tok)" and le: "x \<le> balance self (w tok)"
    using assms(1,3) by (simp_all add: world_ok_def world_balance_def)
  then have "Token_Contract.is_initialized (w tok)"
    using assms(2) by (auto simp: token_inv_def Token_Contract.is_initialized_def balance_def get_balance_def)
  moreover have "ledger_ok (w tok)" using ti by (simp add: token_inv_def)
  ultimately have "\<exists>t. transfer env self a x (w tok) = Ok ((), t)"
    using transfer_fits [of "w tok" x self a] assms(2,4) le
    by (simp add: transfer_Ok move_balance_Ok del: bal_upd)
  then show ?thesis by (auto simp: world_transfer_Some)
qed

section \<open>A concrete run\<close>

definition demo_token1 :: token_state where
  "demo_token1 = \<lparr>Admin = Some 1, Decimals = Some 7, Name = Some ''Gold'', Symbol = Some ''GLD'',
     TotalSupply = Some 0, Balance = Map.empty, Allowance = Map.empty, events = []\<rparr>"

definition demo_token2 :: token_state where
  "demo_token2 = demo_token1\<lparr>TotalSupply := Some 1000, Balance := [5 \<mapsto> 1000], events := [Ev_Mint 5 1000]\<rparr>"

definition demo_token3 :: token_state where
  "demo_token3 = demo_token2\<lparr>Allowance := [(5, 7) \<mapsto> \<lparr>amount = 300, expiration_ledger = 50\<rparr>],
     events := [Ev_Mint 5 1000, Ev_Approve 5 7 300 50]\<rparr>"

definition demo_token4 :: token_state where
  "demo_token4 = demo_token3\<lparr>Allowance := [(5, 7) \<mapsto> \<lparr>amount = 100, expiration_ledger = 50\<rparr>],
     Balance := [5 \<mapsto> 800, 8 \<mapsto> 200],
     events := [Ev_Mint 5 1000, Ev_Approve 5 7 300 50, Ev_Transfer 5 8 200]\<rparr>"

lemmas demo_tokens = demo_token1_def demo_token2_def demo_token3_def demo_token4_def

lemma demo_token_initialize: "initialize (demo_env 1) 1 7 ''Gold'' ''GLD'' empty_token = Ok ((), demo_token1)"
  by (simp add: token_initialize_Ok empty_token_def demo_token1_def demo_env_def)

lemma demo_token_mint: "mint (demo_env 1) 1 5 1000 demo_token1 = Ok ((), demo_token2)"
  by (simp add: token_mint_Ok demo_tokens demo_env_def balance_def total_supply_def token_getters in_i128_def
      i128_max_def i128_min_def)

lemma demo_token_approve: "approve (demo_env 1) 5 7 300 50 demo_token2 = Ok ((), demo_token3)"
  by (simp add: token_approve_Ok demo_tokens demo_env_def is_initialized_def publish_def set_allowance_def)

lemma demo_token_transfer_from:
  "transfer_from ((demo_env 1)\<lparr>auth := (\<lambda>b. b = 7)\<rparr>) 7 5 8 200 demo_token3 = Ok ((), demo_token4)"
  by (simp add: transfer_from_Ok spend_allowance_Ok move_balance_Ok demo_tokens demo_env_def
      is_initialized_def get_allowance_def spent_def set_allowance_def balance_def get_balance_def
      moved_def in_i128_def i128_max_def i128_min_def Let_def)

lemma token_stepI: "token_call env s t \<Longrightarrow> token_step s t"
  by (auto simp: token_step_def)

lemma demo_token_run: "token_step\<^sup>*\<^sup>* empty_token demo_token3"
proof -
  have "token_step empty_token demo_token1" "token_step demo_token1 demo_token2"
    "token_step demo_token2 demo_token3"
    by (rule token_stepI, rule token_call.intros, rule demo_token_initialize)
      (rule token_stepI, rule token_call.intros, rule demo_token_mint,
       rule token_stepI, rule token_call.intros, rule demo_token_approve)
  then show ?thesis by (meson rtranclp.rtrancl_refl rtranclp.rtrancl_into_rtrancl)
qed

section \<open>A concrete ledger\<close>

text \<open>Token 40 belongs to holder 5, token 41 to holders 5 and 8; the host contract at 99 never signs.\<close>

definition host_env :: "nat \<Rightarrow> env" where
  "host_env now = (demo_env now)\<lparr>auth := (\<lambda>b. b \<noteq> 99)\<rparr>"

lemma host_env_simps [simp]:
  "timestamp (host_env n) = n" "current_contract (host_env n) = 99" "auth (host_env n) a \<longleftrightarrow> a \<noteq> 99"
  by (simp_all add: host_env_def demo_env_def)

definition demo_ledger :: token_world where
  "demo_ledger = (\<lambda>k. if k = 41 then demo_token4 else demo_token2)"

definition demo_ledger_open :: token_world where
  "demo_ledger_open = demo_ledger(40 := demo_token2\<lparr>Balance := [5 \<mapsto> 400, 99 \<mapsto> 600],
     token_state.events := [Ev_Mint 5 1000, Ev_Transfer 5 99 600]\<rparr>)"

lemmas demo_ledger_defs = demo_ledger_def demo_ledger_open_def

lemma demo_ledger_deposit:
  "world_transfer 40 (subcall_env (host_env n) 40) 5 99 600 demo_ledger = Some demo_ledger_open"
  by (auto simp: world_transfer_Some transfer_Ok move_balance_Ok demo_ledger_defs demo_tokens
      Token_Contract.is_initialized_def balance_def get_balance_def moved_def Let_def in_i128_def i128_max_def
      i128_min_def fun_upd_twist)

lemma demo_ledger_ok: "world_ok 99 demo_ledger"
proof -
  have "token_step\<^sup>*\<^sup>* empty_token demo_token2"
    by (meson rtranclp.rtrancl_refl rtranclp.rtrancl_into_rtrancl token_stepI token_call.initialize
        token_call.mint demo_token_initialize demo_token_mint)
  moreover have "token_step\<^sup>*\<^sup>* empty_token demo_token4"
    by (rule rtranclp.rtrancl_into_rtrancl [OF demo_token_run])
      (rule token_stepI, rule token_call.transfer_from, rule demo_token_transfer_from)
  ultimately have "token_inv demo_token2" "token_inv demo_token4" by (simp_all add: token.reachable_Inv)
  moreover have "grants demo_token2 99 = Map.empty" "grants demo_token4 99 = Map.empty"
    by (simp_all add: grants_def demo_tokens fun_eq_iff)
  ultimately show ?thesis by (simp add: world_ok_def demo_ledger_def outstanding_def)
qed

text \<open>A ledger of one funded token, 40, with the history of its transfers.\<close>

definition rich_token :: "(address \<rightharpoonup> int) \<Rightarrow> token_event list \<Rightarrow> token_state" where
  "rich_token b ev = demo_token1\<lparr>TotalSupply := Some 1000000, Balance := b, events := ev\<rparr>"

definition rich_world :: "(address \<rightharpoonup> int) \<Rightarrow> token_event list \<Rightarrow> token_world" where
  "rich_world b ev = (\<lambda>k. if k = 40 then rich_token b ev else demo_token1)"

definition rich_holdings :: "address \<rightharpoonup> int" where
  "rich_holdings = [5 \<mapsto> 600000, 8 \<mapsto> 400000]"

definition rich_ledger :: token_world where
  "rich_ledger = rich_world rich_holdings [Ev_Mint 5 600000, Ev_Mint 8 400000]"

lemma rich_balance: "world_balance (rich_world b ev) 40 a = bal b a"
  by (simp add: world_balance_def rich_world_def rich_token_def balance_def get_balance_def bal_def)

lemma rich_transfer:
  assumes "auth env a" "0 < x" "x \<le> bal b a" "in_i128 (bal b a - x)" "in_i128 (bal (moved a c x b) c)"
  shows "world_transfer 40 env a c x (rich_world b ev) = Some (rich_world (moved a c x b) (ev @ [Ev_Transfer a c x]))"
  using assms
  by (auto simp: world_transfer_Some transfer_Ok move_balance_Ok rich_world_def rich_token_def demo_token1_def
      Token_Contract.is_initialized_def balance_def get_balance_def bal_def moved_def Let_def split: if_splits)

lemma rich_ledger_ok: "world_ok 99 rich_ledger"
proof -
  let ?t = "rich_token [5 \<mapsto> 600000] [Ev_Mint 5 600000]\<lparr>TotalSupply := Some 600000\<rparr>"
  have "token_step empty_token demo_token1" "token_step demo_token1 ?t"
    by (rule token_stepI, rule token_call.initialize, rule demo_token_initialize)
      (rule token_stepI [of "demo_env 1"], rule token_call.mint [of "demo_env 1" 1 5 600000 _ "()"],
       simp add: token_mint_Ok demo_tokens rich_token_def demo_env_def balance_def total_supply_def token_getters
         in_i128_def i128_max_def i128_min_def)
  moreover have "token_step ?t (rich_token rich_holdings [Ev_Mint 5 600000, Ev_Mint 8 400000])"
    by (rule token_stepI [of "demo_env 1"], rule token_call.mint [of "demo_env 1" 1 8 400000 _ "()"])
      (simp add: token_mint_Ok demo_tokens rich_token_def rich_holdings_def demo_env_def balance_def total_supply_def
        token_getters in_i128_def i128_max_def i128_min_def)
  ultimately have "token_inv demo_token1" "token_inv (rich_token rich_holdings [Ev_Mint 5 600000, Ev_Mint 8 400000])"
    by (meson rtranclp.rtrancl_refl rtranclp.rtrancl_into_rtrancl token.reachable_Inv)+
  moreover have "grants demo_token1 99 = Map.empty" "grants (rich_token b ev) 99 = Map.empty" for b ev
    by (simp_all add: grants_def rich_token_def demo_token1_def fun_eq_iff)
  ultimately show ?thesis by (simp add: world_ok_def rich_ledger_def rich_world_def outstanding_def)
qed

section \<open>Properties\<close>

text \<open>
  C9. In every reachable token the total supply is exactly the sum of all balances, no balance is
  negative or exceeds the supply, and the supply fits in \<open>i128\<close>.
\<close>

theorem token_supply_is_sum:
  assumes "token_step\<^sup>*\<^sup>* empty_token s"
  shows "finite (dom (Balance s)) \<and> total_supply s = (\<Sum>a\<in>dom (Balance s). balance a s) \<and>
    (\<forall>a. 0 \<le> balance a s \<and> balance a s \<le> total_supply s) \<and> total_supply s \<le> i128_max"
  using token.reachable_Inv [OF assms] balance_le_supply [of s]
  by (simp add: token_inv_def ledger_ok_def total_bal_def balance_def get_balance_def)

theorem token_supply_is_sum_witness:
  "finite (dom (Balance demo_token3)) \<and>
    total_supply demo_token3 = (\<Sum>a\<in>dom (Balance demo_token3). balance a demo_token3) \<and>
    (\<forall>a. 0 \<le> balance a demo_token3 \<and> balance a demo_token3 \<le> total_supply demo_token3) \<and>
    total_supply demo_token3 \<le> i128_max"
  by (rule token_supply_is_sum [OF demo_token_run])

text \<open>
  In a reachable token a transfer succeeds exactly when the token is initialised, the amount is
  positive, the sender signs and owns the amount: no overflow is possible. It moves exactly the
  amount (nothing, when sender and recipient are the same) and keeps supply and allowances.
\<close>

theorem token_transfer_exact:
  assumes "token_step\<^sup>*\<^sup>* empty_token s"
  shows "(is_ok (transfer env a b x s) \<longleftrightarrow>
      pub_is_initialized s \<and> 0 < x \<and> auth env a \<and> x \<le> balance a s) \<and>
    (\<forall>t. transfer env a b x s = Ok ((), t) \<longrightarrow>
      (\<forall>c. balance c t = balance c s - (if c = a then x else 0) + (if c = b then x else 0)) \<and>
      total_supply t = total_supply s \<and> Allowance t = Allowance s \<and> Admin t = Admin s)"
proof -
  have l: "ledger_ok s" using token.reachable_Inv [OF assms] by (simp add: token_inv_def)
  note fits = transfer_fits [OF l]
  have "is_ok (transfer env a b x s) \<longleftrightarrow>
      is_initialized s \<and> 0 < x \<and> auth env a \<and> x \<le> balance a s"
    using fits [of x a b] by (auto simp: transfer_Ok move_balance_Ok simp del: bal_upd)
  then show ?thesis
    by (auto simp: pub_is_initialized_def transfer_Ok move_balance_Ok balance_def total_supply_def
        token_getters bal_moved)
qed

theorem token_transfer_exact_witness:
  "\<exists>t. transfer (demo_env 1) 5 8 40 demo_token3 = Ok ((), t) \<and>
     balance 5 t = balance 5 demo_token3 - 40 \<and> balance 8 t = balance 8 demo_token3 + 40 \<and>
     total_supply t = total_supply demo_token3"
proof -
  have "is_ok (transfer (demo_env 1) 5 8 40 demo_token3)"
    using token_transfer_exact [OF demo_token_run, of "demo_env 1" 5 8 40]
    by (simp add: demo_tokens pub_is_initialized_def Token_Contract.is_initialized_def balance_def get_balance_def
        demo_env_def)
  then obtain t where t: "transfer (demo_env 1) 5 8 40 demo_token3 = Ok ((), t)"
    using is_ok_pair by fastforce
  moreover have "(\<forall>c. balance c t = balance c demo_token3 - (if c = 5 then 40 else 0) + (if c = 8 then 40 else 0)) \<and>
      total_supply t = total_supply demo_token3"
    using token_transfer_exact [OF demo_token_run, of "demo_env 1" 5 8 40] t by blast
  ultimately show ?thesis by fastforce
qed

text \<open>
  What an account cannot lose: along any run in which \<open>a\<close> signs nothing, its balance falls by no
  more than the allowances it had granted at the start.
\<close>

theorem token_unsigned_loss_bounded:
  assumes "token_step\<^sup>*\<^sup>* empty_token s" "(unsigned_step a)\<^sup>*\<^sup>* s t"
  shows "balance a s - outstanding a s \<le> balance a t"
proof -
  have inv: "token_inv s" "token_inv t"
    using token.reachable_Inv [OF assms(1)] unsigned.run_Inv [OF assms(2)] by simp_all
  have "headroom a s \<le> headroom a t" by (rule unsigned.run_mono [OF assms(2) inv(1)])
  moreover have "0 \<le> outstanding a t" using inv(2) by (simp add: token_inv_def outstanding_nonneg)
  ultimately show ?thesis by (simp add: headroom_def)
qed

theorem token_unsigned_loss_bounded_witness:
  "balance 5 demo_token3 - outstanding 5 demo_token3 \<le> balance 5 demo_token4"
proof (rule token_unsigned_loss_bounded [OF demo_token_run], rule r_into_rtranclp)
  show "unsigned_step 5 demo_token3 demo_token4"
    unfolding unsigned_step_def
    by (intro exI conjI) (rule_tac [2] token_call.transfer_from [OF demo_token_transfer_from], simp)
qed

text \<open>
  \<open>transfer_from\<close> needs an unexpired allowance of the full amount, lowers exactly that
  allowance by exactly the amount, and moves exactly the amount.
\<close>

theorem token_transfer_from_spends:
  assumes "transfer_from env p a b x s = Ok (u, t)"
  shows "auth env p \<and> 0 < x \<and> x \<le> allowance env a p s \<and>
    allowance env a p t = allowance env a p s - x \<and>
    (\<forall>env' c q. (c, q) \<noteq> (a, p) \<longrightarrow> allowance env' c q t = allowance env' c q s) \<and>
    (\<forall>c. balance c t = balance c s - (if c = a then x else 0) + (if c = b then x else 0)) \<and>
    total_supply t = total_supply s"
  using assms
  by (auto simp: transfer_from_Ok spend_allowance_Ok move_balance_Ok allowance_def spent_def
      set_allowance_def get_allowance_def balance_def get_balance_def bal_moved total_supply_def
      get_total_supply_def Let_def)

theorem token_transfer_from_spends_witness:
  "let env = (demo_env 1)\<lparr>auth := (\<lambda>b. b = 7)\<rparr> in
    auth env 7 \<and> (0::int) < 200 \<and> 200 \<le> allowance env 5 7 demo_token3 \<and>
    allowance env 5 7 demo_token4 = allowance env 5 7 demo_token3 - 200 \<and>
    (\<forall>env' c q. (c, q) \<noteq> (5, 7) \<longrightarrow> allowance env' c q demo_token4 = allowance env' c q demo_token3) \<and>
    (\<forall>c. balance c demo_token4 = balance c demo_token3 - (if c = 5 then 200 else 0) + (if c = 8 then 200 else 0)) \<and>
    total_supply demo_token4 = total_supply demo_token3"
  unfolding Let_def by (rule token_transfer_from_spends [OF demo_token_transfer_from])

text \<open>
  The supply of an initialised token grows only by a mint that the current admin
  signed, and the admin changes only with the signatures of the old and of the new one.
\<close>

theorem token_admin_controls_supply:
  assumes "get_admin s = Ok a" "token_call env s t"
    "total_supply s < total_supply t \<or> get_admin t \<noteq> Ok a"
  shows "auth env a \<and> (\<forall>b. get_admin t = Ok b \<longrightarrow> auth env b)"
  using assms(2,1,3)
  by cases
    (auto simp: token_initialize_Ok set_admin_Ok token_mint_Ok burn_Ok burn_from_Ok burn_balance_Ok transfer_Ok
      transfer_from_Ok spend_allowance_Ok move_balance_Ok token_approve_Ok total_supply_def token_getters
      publish_def set_allowance_def split: if_splits)

theorem token_admin_controls_supply_witness:
  "total_supply demo_token1 < total_supply demo_token2 \<and> auth (demo_env 1) 1 \<and> get_admin demo_token2 = Ok 1"
proof -
  have a: "get_admin demo_token1 = Ok 1" by (simp add: get_admin_def demo_token1_def)
  have c: "token_call (demo_env 1) demo_token1 demo_token2" by (rule token_call.mint, rule demo_token_mint)
  have g: "total_supply demo_token1 < total_supply demo_token2"
    by (simp add: total_supply_def get_total_supply_def demo_tokens)
  have "get_admin demo_token2 = Ok 1" by (simp add: get_admin_def demo_tokens)
  with token_admin_controls_supply [OF a c disjI1 [OF g]] g show ?thesis by blast
qed

end
