(* ===== verification/Staking.thy ===== *)
theory Staking
  imports Soroban_Prelude
begin

text \<open>
  The staking vault of \<open>contracts/staking\<close>: storage accessors (\<open>src/storage.rs\<close>,
  \<open>src/types.rs\<close>) and every entry point of \<open>src/lib.rs\<close>. The staked token is another
  contract, reached through \<open>token::Client\<close>; its \<open>transfer\<close> is the parameter \<open>tc\<close> of the
  definitions that call it, a function on the world \<open>w\<close> of token contracts that returns \<open>None\<close>
  when the callee fails.
\<close>

section \<open>Types and storage\<close>

datatype staking_error =
    AlreadyInitialized | NotInitialized | Unauthorized | ZeroAmount | InsufficientBalance
  | InvalidWithdrawalPeriod | NothingToUnstake | RequestNotFound | AlreadyClaimed | MathOverflow

record StakeInfo =
  staked_amount :: int
  shares :: int

record UnstakeRequest =
  req_amount :: int
  unlock_timestamp :: nat
  claimed :: bool

record staking_state =
  Initialized :: "bool option"
  Admin :: "address option"
  Token :: "address option"
  TotalStaked :: "int option"
  TotalShares :: "int option"
  UnstakePeriod :: "nat option"
  Stake :: "address \<rightharpoonup> StakeInfo"
  UnstakeCount :: "address \<rightharpoonup> nat"
  Unstake :: "address \<times> nat \<rightharpoonup> UnstakeRequest"

definition empty_vault :: staking_state where
  "empty_vault = \<lparr>Initialized = None, Admin = None, Token = None, TotalStaked = None,
     TotalShares = None, UnstakePeriod = None, Stake = Map.empty, UnstakeCount = Map.empty,
     Unstake = Map.empty\<rparr>"

definition set_admin :: "address \<Rightarrow> staking_state \<Rightarrow> staking_state" where
  "set_admin a s = s\<lparr>Admin := Some a\<rparr>"
definition get_admin :: "staking_state \<Rightarrow> (staking_error, address) outcome" where
  "get_admin s = ok_or NotInitialized (Admin s)"
definition set_initialized :: "bool \<Rightarrow> staking_state \<Rightarrow> staking_state" where
  "set_initialized b s = s\<lparr>Initialized := Some b\<rparr>"
definition is_initialized :: "staking_state \<Rightarrow> bool" where
  "is_initialized s = unwrap_or False (Initialized s)"
definition set_token :: "address \<Rightarrow> staking_state \<Rightarrow> staking_state" where
  "set_token a s = s\<lparr>Token := Some a\<rparr>"
definition get_token :: "staking_state \<Rightarrow> (staking_error, address) outcome" where
  "get_token s = ok_or NotInitialized (Token s)"
definition set_total_staked :: "int \<Rightarrow> staking_state \<Rightarrow> staking_state" where
  "set_total_staked x s = s\<lparr>TotalStaked := Some x\<rparr>"
definition get_total_staked :: "staking_state \<Rightarrow> int" where
  "get_total_staked s = unwrap_or 0 (TotalStaked s)"
definition set_total_shares :: "int \<Rightarrow> staking_state \<Rightarrow> staking_state" where
  "set_total_shares x s = s\<lparr>TotalShares := Some x\<rparr>"
definition get_total_shares :: "staking_state \<Rightarrow> int" where
  "get_total_shares s = unwrap_or 0 (TotalShares s)"
definition set_unstake_period :: "nat \<Rightarrow> staking_state \<Rightarrow> staking_state" where
  "set_unstake_period p s = s\<lparr>UnstakePeriod := Some p\<rparr>"
definition get_unstake_period :: "staking_state \<Rightarrow> nat" where
  "get_unstake_period s = unwrap_or 604800 (UnstakePeriod s)"
definition set_stake :: "address \<Rightarrow> StakeInfo \<Rightarrow> staking_state \<Rightarrow> staking_state" where
  "set_stake a i s = s\<lparr>Stake := (Stake s)(a \<mapsto> i)\<rparr>"
definition get_stake :: "staking_state \<Rightarrow> address \<Rightarrow> StakeInfo option" where
  "get_stake s a = Stake s a"
definition get_unstake_count :: "staking_state \<Rightarrow> address \<Rightarrow> nat" where
  "get_unstake_count s a = unwrap_or 0 (UnstakeCount s a)"
definition set_unstake_count :: "address \<Rightarrow> nat \<Rightarrow> staking_state \<Rightarrow> staking_state" where
  "set_unstake_count a n s = s\<lparr>UnstakeCount := (UnstakeCount s)(a \<mapsto> n)\<rparr>"
definition set_unstake_request :: "address \<Rightarrow> nat \<Rightarrow> UnstakeRequest \<Rightarrow> staking_state \<Rightarrow> staking_state" where
  "set_unstake_request a i r s = s\<lparr>Unstake := (Unstake s)((a, i) \<mapsto> r)\<rparr>"
definition get_unstake_request :: "staking_state \<Rightarrow> address \<Rightarrow> nat \<Rightarrow> UnstakeRequest option" where
  "get_unstake_request s a i = Unstake s (a, i)"

lemmas staking_getters =
  get_admin_def is_initialized_def get_token_def get_total_staked_def get_total_shares_def
  get_unstake_period_def get_stake_def get_unstake_count_def get_unstake_request_def

lemmas staking_setters =
  set_admin_def set_initialized_def set_token_def set_total_staked_def set_total_shares_def
  set_unstake_period_def set_stake_def set_unstake_count_def set_unstake_request_def

definition ensure_initialized :: "staking_state \<Rightarrow> (staking_error, unit) outcome" where
  "ensure_initialized s = (if \<not> is_initialized s then Err NotInitialized else Ok ())"

section \<open>Entry points\<close>

definition initialize ::
    "env \<Rightarrow> address \<Rightarrow> address \<Rightarrow> nat \<Rightarrow> staking_state \<Rightarrow> (staking_error, unit \<times> staking_state) outcome" where
  "initialize env admin token unstake_period s =
     (if is_initialized s then Err AlreadyInitialized
      else if unstake_period = 0 then Err InvalidWithdrawalPeriod
      else
        and_then (require_auth env admin) (\<lambda>_.
        let s1 = set_admin admin s;
            s2 = set_token token s1;
            s3 = set_unstake_period unstake_period s2
        in Ok ((), set_initialized True s3)))"

definition shares_for :: "int \<Rightarrow> int \<Rightarrow> int \<Rightarrow> (staking_error, int) outcome" where
  "shares_for amount total_staked total_shares =
     (if total_shares = 0 then Ok amount
      else if total_staked \<le> 0 then Err MathOverflow
      else
        and_then (ok_or MathOverflow (checked_mul amount total_shares)) (\<lambda>p.
        i128_div p total_staked))"

definition stake ::
    "'w token_transfer \<Rightarrow> env \<Rightarrow> address \<Rightarrow> int \<Rightarrow> 'w \<times> staking_state \<Rightarrow>
     (staking_error, int \<times> 'w \<times> staking_state) outcome" where
  "stake tc env user amount ws =
     (case ws of (w, s) \<Rightarrow>
      and_then (ensure_initialized s) (\<lambda>_.
      and_then (require_auth env user) (\<lambda>_.
      if amount \<le> 0 then Err ZeroAmount
      else
        let total_staked = get_total_staked s;
            total_shares = get_total_shares s in
        and_then (shares_for amount total_staked total_shares) (\<lambda>new_shares.
        if new_shares \<le> 0 then Err ZeroAmount
        else
          and_then (get_token s) (\<lambda>token.
          and_then (or_trap (tc token (subcall_env env token) user (current_contract env) amount w)) (\<lambda>w1.
          let user_stake = unwrap_or \<lparr>staked_amount = 0, shares = 0\<rparr> (get_stake s user) in
          and_then (ok_or MathOverflow (checked_add (staked_amount user_stake) amount)) (\<lambda>new_amount.
          and_then (ok_or MathOverflow (checked_add (shares user_stake) new_shares)) (\<lambda>user_shares.
          let s1 = set_stake user \<lparr>staked_amount = new_amount, shares = user_shares\<rparr> s in
          and_then (ok_or MathOverflow (checked_add total_staked amount)) (\<lambda>new_total_staked.
          and_then (ok_or MathOverflow (checked_add total_shares new_shares)) (\<lambda>new_total_shares.
          let s2 = set_total_staked new_total_staked s1;
              s3 = set_total_shares new_total_shares s2
          in Ok (new_shares, w1, s3)))))))))))"

definition request_unstake ::
    "env \<Rightarrow> address \<Rightarrow> int \<Rightarrow> staking_state \<Rightarrow> (staking_error, nat \<times> staking_state) outcome" where
  "request_unstake env user sh s =
     and_then (ensure_initialized s) (\<lambda>_.
     and_then (require_auth env user) (\<lambda>_.
     if sh \<le> 0 then Err ZeroAmount
     else
       and_then (ok_or NothingToUnstake (get_stake s user)) (\<lambda>user_stake.
       if shares user_stake < sh then Err InsufficientBalance
       else
         let total_staked = get_total_staked s;
             total_shares = get_total_shares s in
         if total_shares \<le> 0 then Err NothingToUnstake
         else
           and_then (ok_or MathOverflow (checked_mul sh total_staked)) (\<lambda>p.
           and_then (i128_div p total_shares) (\<lambda>amount.
           if amount \<le> 0 then Err ZeroAmount
           else
             and_then (i128_sub (shares user_stake) sh) (\<lambda>left.
             let stake' = \<lparr>staked_amount = saturating_sub (staked_amount user_stake) amount, shares = left\<rparr>;
                 s1 = set_stake user stake' s;
                 s2 = set_total_staked (saturating_sub total_staked amount) s1;
                 s3 = set_total_shares (saturating_sub total_shares sh) s2;
                 count = get_unstake_count s3 user;
                 unstake_period = get_unstake_period s3 in
             and_then (ok_or MathOverflow (u64_checked_add (timestamp env) unstake_period)) (\<lambda>unlock.
             let request = \<lparr>req_amount = amount, unlock_timestamp = unlock, claimed = False\<rparr>;
                 s4 = set_unstake_request user count request s3 in
             and_then (ok_or MathOverflow (u32_checked_add count 1)) (\<lambda>new_count.
             Ok (count, set_unstake_count user new_count s4)))))))))"

definition claim_unstake ::
    "'w token_transfer \<Rightarrow> env \<Rightarrow> address \<Rightarrow> nat \<Rightarrow> 'w \<times> staking_state \<Rightarrow>
     (staking_error, int \<times> 'w \<times> staking_state) outcome" where
  "claim_unstake tc env user request_idx ws =
     (case ws of (w, s) \<Rightarrow>
      and_then (ensure_initialized s) (\<lambda>_.
      and_then (require_auth env user) (\<lambda>_.
      and_then (ok_or RequestNotFound (get_unstake_request s user request_idx)) (\<lambda>request.
      if claimed request then Err AlreadyClaimed
      else
        let now = timestamp env in
        if now < unlock_timestamp request then Err InvalidWithdrawalPeriod
        else
          let s1 = set_unstake_request user request_idx (request\<lparr>claimed := True\<rparr>) s in
          and_then (get_token s1) (\<lambda>token.
          and_then (or_trap (tc token (subcall_env env token) (current_contract env) user
                      (req_amount request) w)) (\<lambda>w1.
          Ok (req_amount request, w1, s1)))))))"

subsection \<open>Read-only entry points\<close>

definition get_stake_info :: "address \<Rightarrow> staking_state \<Rightarrow> (staking_error, StakeInfo) outcome" where
  "get_stake_info user s =
     and_then (ensure_initialized s) (\<lambda>_. ok_or NothingToUnstake (get_stake s user))"
definition pub_get_unstake_request ::
    "address \<Rightarrow> nat \<Rightarrow> staking_state \<Rightarrow> (staking_error, UnstakeRequest) outcome" where
  "pub_get_unstake_request user i s =
     and_then (ensure_initialized s) (\<lambda>_. ok_or RequestNotFound (get_unstake_request s user i))"
definition pub_get_total_staked :: "staking_state \<Rightarrow> (staking_error, int) outcome" where
  "pub_get_total_staked s = and_then (ensure_initialized s) (\<lambda>_. Ok (get_total_staked s))"
definition pub_get_total_shares :: "staking_state \<Rightarrow> (staking_error, int) outcome" where
  "pub_get_total_shares s = and_then (ensure_initialized s) (\<lambda>_. Ok (get_total_shares s))"
definition pub_get_admin :: "staking_state \<Rightarrow> (staking_error, address) outcome" where
  "pub_get_admin s = and_then (ensure_initialized s) (\<lambda>_. get_admin s)"
definition pub_get_unstake_period :: "staking_state \<Rightarrow> (staking_error, nat) outcome" where
  "pub_get_unstake_period s = and_then (ensure_initialized s) (\<lambda>_. Ok (get_unstake_period s))"
definition pub_is_initialized :: "staking_state \<Rightarrow> bool" where
  "pub_is_initialized s = is_initialized s"

end
