(* ===== verification/Staking_Correct.thy ===== *)
theory Staking_Correct
  imports Staking Token_Correct
begin

text \<open>
  Correctness of the staking vault over any token world that keeps the token interface, and then
  over the repository's own token: shares and staked tokens are always in parity, the books add
  up to the individual stakes, the vault's token balance covers every stake and every unclaimed
  request whatever the rest of the ledger does, and a request is paid once, in full, no earlier
  than its unlock time.
\<close>

section \<open>The books of the vault\<close>

definition stakes :: "Staking.staking_state \<Rightarrow> address \<rightharpoonup> int" where
  "stakes s = (\<lambda>a. map_option shares (Stake s a))"

definition pending :: "staking_state \<Rightarrow> address \<times> nat \<rightharpoonup> int" where
  "pending s = (\<lambda>k. map_option (\<lambda>r. if claimed r then 0 else req_amount r) (Unstake s k))"

definition books_ok :: "staking_state \<Rightarrow> bool" where
  "books_ok s \<longleftrightarrow>
     finite (dom (Stake s)) \<and> finite (dom (Unstake s)) \<and>
     (\<forall>a i. Stake s a = Some i \<longrightarrow> staked_amount i = shares i \<and> 0 \<le> shares i) \<and>
     (\<forall>k r. Unstake s k = Some r \<longrightarrow> 0 < req_amount r) \<and>
     (\<forall>a i. Unstake s (a, i) \<noteq> None \<longleftrightarrow> i < get_unstake_count s a) \<and>
     get_total_staked s = total_bal (stakes s) \<and> get_total_shares s = total_bal (stakes s) \<and>
     in_i128 (total_bal (stakes s)) \<and>
     (\<not> Staking.is_initialized s \<longrightarrow> Stake s = Map.empty \<and> Unstake s = Map.empty)"

definition liabilities :: "staking_state \<Rightarrow> int" where
  "liabilities s = get_total_staked s + total_bal (pending s)"

lemma dom_stakes [simp]: "dom (stakes s) = dom (Stake s)"
  and dom_pending [simp]: "dom (pending s) = dom (Unstake s)"
  by (auto simp: stakes_def pending_def)

lemma bal_stakes: "bal (stakes s) a = (case Stake s a of None \<Rightarrow> 0 | Some i \<Rightarrow> shares i)"
  by (simp add: bal_def stakes_def unwrap_or_def split: option.splits)

lemma bal_pending:
  "bal (pending s) k = (case Unstake s k of None \<Rightarrow> 0 | Some r \<Rightarrow> if claimed r then 0 else req_amount r)"
  by (simp add: bal_def pending_def unwrap_or_def split: option.splits)

lemma books_ok_empty: "books_ok empty_vault"
  by (simp add: books_ok_def empty_vault_def stakes_def staking_getters)

lemma request_amount_pos: "books_ok s \<Longrightarrow> Unstake s k = Some r \<Longrightarrow> 0 < req_amount r"
  unfolding books_ok_def by blast

lemma books_nonneg:
  assumes "books_ok s"
  shows "0 \<le> bal (stakes s) a" "0 \<le> bal (pending s) k"
proof -
  show "0 \<le> bal (stakes s) a"
    using assms by (auto simp: bal_stakes books_ok_def split: option.splits)
  show "0 \<le> bal (pending s) k"
    using request_amount_pos [OF assms, of k]
    by (cases "Unstake s k") (auto simp: bal_pending intro: less_imp_le)
qed

lemma pending_nonneg: "books_ok s \<Longrightarrow> 0 \<le> total_bal (pending s)"
  by (intro total_bal_nonneg books_nonneg)

lemma stake_le_total: "books_ok s \<Longrightarrow> bal (stakes s) a \<le> get_total_staked s"
  using bal_le_total [of "stakes s" a] books_nonneg(1) by (auto simp: books_ok_def)

lemma total_staked_nonneg: "books_ok s \<Longrightarrow> 0 \<le> get_total_staked s"
  using total_bal_nonneg [of "stakes s"] books_nonneg(1) by (auto simp: books_ok_def)

section \<open>Success of each operation\<close>

lemma vault_initialize_Ok:
  "Staking.initialize env a tok p s = Ok (u, t) \<longleftrightarrow>
     \<not> Staking.is_initialized s \<and> p \<noteq> 0 \<and> auth env a \<and>
     t = s\<lparr>Initialized := Some True, Staking.staking_state.Admin := Some a, Token := Some tok, UnstakePeriod := Some p\<rparr>"
  by (auto simp: Staking.initialize_def staking_setters Let_def)

lemma shares_for_parity:
  assumes "shares_for x T T = Ok n" "0 \<le> T"
  shows "n = x"
proof (cases "T = 0")
  case False
  then have "n = (x * T) sdiv T" "0 < T" using assms by (auto simp: shares_for_def)
  then show ?thesis by (simp add: signed_divide_int_def abs_mult sgn_mult sgn_mult_abs)
qed (use assms in \<open>simp add: shares_for_def\<close>)

lemma stake_Ok:
  assumes "books_ok s" "stake tc env a x (w, s) = Ok (n, w', t)"
  shows "n = x \<and> 0 < x \<and> auth env a \<and> Staking.is_initialized s \<and>
    (\<exists>tok. Token s = Some tok \<and> tc tok (subcall_env env tok) a (current_contract env) x w = Some w') \<and>
    in_i128 (get_total_staked s + x) \<and>
    t = s\<lparr>Stake := (Stake s)(a \<mapsto> \<lparr>staked_amount = bal (stakes s) a + x, shares = bal (stakes s) a + x\<rparr>),
          TotalStaked := Some (get_total_staked s + x), TotalShares := Some (get_total_staked s + x)\<rparr>"
proof -
  have par: "get_total_shares s = get_total_staked s" using assms(1) by (simp add: books_ok_def)
  define usr where "usr = unwrap_or \<lparr>staked_amount = 0, shares = 0\<rparr> (get_stake s a)"
  have usr: "staked_amount usr = bal (stakes s) a" "shares usr = bal (stakes s) a"
    using assms(1) by (auto simp: usr_def bal_stakes get_stake_def books_ok_def split: option.splits)
  obtain tok new where c: "Staking.is_initialized s" "auth env a" "0 < x" "get_token s = Ok tok"
      "shares_for x (get_total_staked s) (get_total_shares s) = Ok new"
      "tc tok (subcall_env env tok) a (current_contract env) x w = Some w'" "n = new"
      "in_i128 (get_total_staked s + x)"
    and t: "t = set_total_shares (get_total_shares s + new) (set_total_staked (get_total_staked s + x)
        (set_stake a \<lparr>staked_amount = staked_amount usr + x, shares = shares usr + new\<rparr> s))"
    using assms(2) by (auto simp: stake_def ensure_initialized_def Let_def usr_def)
  have "new = x"
    using shares_for_parity [of x "get_total_staked s" new] c(5) total_staked_nonneg [OF assms(1)]
    by (simp add: par)
  then show ?thesis
    using c t by (auto simp: get_token_def usr par staking_setters)
qed

lemma mult_sdiv_cancel: "0 < T \<Longrightarrow> (x * T) sdiv T = (x::int)"
  by (simp add: signed_divide_int_def abs_mult sgn_mult sgn_mult_abs)

lemma request_Ok:
  assumes "books_ok s" "request_unstake env a x s = Ok (n, t)"
  shows "0 < x \<and> auth env a \<and> Staking.is_initialized s \<and> x \<le> bal (stakes s) a \<and>
    n = get_unstake_count s a \<and>
    t = s\<lparr>Stake := (Stake s)(a \<mapsto> \<lparr>staked_amount = bal (stakes s) a - x, shares = bal (stakes s) a - x\<rparr>),
          TotalStaked := Some (get_total_staked s - x), TotalShares := Some (get_total_staked s - x),
          Unstake := (Unstake s)((a, n) \<mapsto> \<lparr>req_amount = x,
             unlock_timestamp = timestamp env + get_unstake_period s, claimed = False\<rparr>),
          UnstakeCount := (UnstakeCount s)(a \<mapsto> n + 1)\<rparr>"
proof -
  have par: "get_total_shares s = get_total_staked s" using assms(1) by (simp add: books_ok_def)
  obtain usr amt where c: "Staking.is_initialized s" "auth env a" "0 < x" "Stake s a = Some usr"
      "x \<le> shares usr" "0 < get_total_shares s" "amt = (x * get_total_staked s) sdiv get_total_shares s"
      "n = get_unstake_count s a"
    and t: "t = set_unstake_count a (n + 1) (set_unstake_request a n \<lparr>req_amount = amt,
        unlock_timestamp = timestamp env + get_unstake_period s, claimed = False\<rparr>
        (set_total_shares (saturating_sub (get_total_shares s) x)
        (set_total_staked (saturating_sub (get_total_staked s) amt)
        (set_stake a \<lparr>staked_amount = saturating_sub (staked_amount usr) amt, shares = shares usr - x\<rparr> s))))"
    using assms(2)
    by (auto simp: request_unstake_def ensure_initialized_def Let_def get_stake_def staking_setters
        get_unstake_count_def get_unstake_period_def)
  have amt: "amt = x" using c(6,7) by (simp add: par mult_sdiv_cancel)
  have usr: "staked_amount usr = bal (stakes s) a" "shares usr = bal (stakes s) a"
    using assms(1) c(4) by (auto simp: bal_stakes books_ok_def)
  have le: "bal (stakes s) a \<le> get_total_staked s" by (rule stake_le_total [OF assms(1)])
  have "in_i128 (get_total_staked s)" using assms(1) by (simp add: books_ok_def)
  then have sat: "saturating_sub (get_total_staked s) x = get_total_staked s - x"
    "saturating_sub (bal (stakes s) a) x = bal (stakes s) a - x"
    using c(3,5) usr(2) le
    by (auto simp: saturating_sub_def i128_saturate_def in_i128_def i128_min_def i128_max_def)
  show ?thesis
    using c t by (auto simp: amt usr par sat staking_setters)
qed

lemma vault_claim_Ok:
  "claim_unstake tc env a i (w, s) = Ok (x, w', t) \<longleftrightarrow>
     Staking.is_initialized s \<and> auth env a \<and>
     (\<exists>r tok. Unstake s (a, i) = Some r \<and> \<not> claimed r \<and> unlock_timestamp r \<le> timestamp env \<and>
        Token s = Some tok \<and> x = req_amount r \<and>
        tc tok (subcall_env env tok) (current_contract env) a x w = Some w' \<and>
        t = s\<lparr>Unstake := (Unstake s)((a, i) \<mapsto> r\<lparr>claimed := True\<rparr>)\<rparr>)"
  by (auto simp: claim_unstake_def ensure_initialized_def Let_def get_unstake_request_def
      get_token_def set_unstake_request_def)

lemma request_fresh: "books_ok s \<Longrightarrow> Unstake s (a, get_unstake_count s a) = None"
  unfolding books_ok_def by (metis less_irrefl)

section \<open>Every operation keeps the books and the balance\<close>

lemma stakes_upd: "stakes (s\<lparr>Stake := (Stake s)(a \<mapsto> i), TotalStaked := x, TotalShares := y\<rparr>) = (stakes s)(a \<mapsto> shares i)"
  by (rule ext) (simp add: stakes_def)

lemma books_stake:
  assumes b: "books_ok s" and x: "0 < x" and fits: "in_i128 (get_total_staked s + x)"
    and init: "Staking.is_initialized s"
    and t: "t = s\<lparr>Stake := (Stake s)(a \<mapsto> \<lparr>staked_amount = bal (stakes s) a + x, shares = bal (stakes s) a + x\<rparr>),
          TotalStaked := Some (get_total_staked s + x), TotalShares := Some (get_total_staked s + x)\<rparr>"
  shows "books_ok t" "liabilities t = liabilities s + x"
proof -
  have st: "stakes t = (stakes s)(a \<mapsto> bal (stakes s) a + x)" by (simp add: t stakes_upd)
  have tot: "total_bal (stakes t) = get_total_staked s + x"
    using b by (simp add: st books_ok_def)
  have flds: "Unstake t = Unstake s" "get_total_staked t = get_total_staked s + x"
    "get_total_shares t = get_total_staked s + x" "get_unstake_count t = get_unstake_count s"
    "Staking.is_initialized t"
    using init by (auto simp: t staking_getters)
  have "pending t = pending s" by (simp add: pending_def flds)
  then show "liabilities t = liabilities s + x" by (simp add: liabilities_def flds)
  show "books_ok t"
    using b x fits books_nonneg(1) [OF b, of a] tot
    by (auto simp: books_ok_def flds) (auto simp: t split: if_splits)
qed

lemma books_request:
  assumes b: "books_ok s" and x: "0 < x" "x \<le> bal (stakes s) a" and n: "n = get_unstake_count s a"
    and init: "Staking.is_initialized s"
    and t: "t = s\<lparr>Stake := (Stake s)(a \<mapsto> \<lparr>staked_amount = bal (stakes s) a - x, shares = bal (stakes s) a - x\<rparr>),
          TotalStaked := Some (get_total_staked s - x), TotalShares := Some (get_total_staked s - x),
          Unstake := (Unstake s)((a, n) \<mapsto> \<lparr>req_amount = x, unlock_timestamp = u, claimed = False\<rparr>),
          UnstakeCount := (UnstakeCount s)(a \<mapsto> n + 1)\<rparr>"
  shows "books_ok t" "liabilities t = liabilities s"
proof -
  have st: "stakes t = (stakes s)(a \<mapsto> bal (stakes s) a - x)"
    by (rule ext) (simp add: t stakes_def)
  have tot: "total_bal (stakes t) = get_total_staked s - x"
    using b by (simp add: st books_ok_def)
  have flds: "Unstake t = (Unstake s)((a, n) \<mapsto> \<lparr>req_amount = x, unlock_timestamp = u, claimed = False\<rparr>)"
    "get_total_staked t = get_total_staked s - x" "get_total_shares t = get_total_staked s - x"
    "get_unstake_count t = (get_unstake_count s)(a := n + 1)" "Staking.is_initialized t"
    using init by (auto simp: t staking_getters)
  have fresh: "Unstake s (a, n) = None"
    unfolding n by (rule request_fresh [OF b])
  have "pending t = (pending s)((a, n) \<mapsto> x)" by (rule ext) (simp add: pending_def flds)
  moreover have "bal (pending s) (a, n) = 0" by (simp add: bal_pending fresh)
  ultimately have "total_bal (pending t) = total_bal (pending s) + x"
    using b by (simp add: books_ok_def)
  then show "liabilities t = liabilities s" by (simp add: liabilities_def flds)
  have "bal (stakes s) a \<le> get_total_staked s" by (rule stake_le_total [OF b])
  moreover have "in_i128 (get_total_staked s)" using b unfolding books_ok_def by simp
  ultimately have "in_i128 (get_total_staked s - x)"
    using x by - (rule in_i128_le [of "get_total_staked s"], simp_all)
  moreover have "staked_amount i = shares i \<and> 0 \<le> shares i" if "Stake t c = Some i" for c i
    using b x that by (auto simp: t books_ok_def split: if_splits)
  moreover have "0 < req_amount r" if "Unstake t k = Some r" for k r
    using request_amount_pos [OF b, of k r] x that by (auto simp: flds split: if_splits)
  moreover have "Unstake t (c, j) \<noteq> None \<longleftrightarrow> j < get_unstake_count t c" for c j
    using b by (auto simp: flds n books_ok_def less_Suc_eq)
  moreover have "finite (dom (Stake t))" "finite (dom (Unstake t))"
    using b by (simp_all add: t books_ok_def)
  ultimately show "books_ok t"
    using tot flds(2,3,5) unfolding books_ok_def by simp
qed

lemma books_claim:
  assumes b: "books_ok s" and r: "Unstake s (a, i) = Some r" "\<not> claimed r"
    and init: "Staking.is_initialized s"
    and t: "t = s\<lparr>Unstake := (Unstake s)((a, i) \<mapsto> r\<lparr>claimed := True\<rparr>)\<rparr>"
  shows "books_ok t" "liabilities t = liabilities s - req_amount r" "req_amount r \<le> liabilities s"
proof -
  have flds: "stakes t = stakes s" "get_total_staked t = get_total_staked s"
    "get_total_shares t = get_total_shares s" "get_unstake_count t = get_unstake_count s"
    "Staking.is_initialized t = Staking.is_initialized s" "Stake t = Stake s"
    by (auto simp: t stakes_def staking_getters)
  have "pending t = (pending s)((a, i) \<mapsto> 0)" by (rule ext) (simp add: pending_def t)
  moreover have old: "bal (pending s) (a, i) = req_amount r" by (simp add: bal_pending r)
  ultimately have "total_bal (pending t) = total_bal (pending s) - req_amount r"
    using b by (simp add: books_ok_def)
  then show "liabilities t = liabilities s - req_amount r" by (simp add: liabilities_def flds)
  have "req_amount r \<le> total_bal (pending s)"
    using bal_le_total [of "pending s" "(a, i)"] books_nonneg(2) [OF b] old b
    by (auto simp: books_ok_def)
  then show "req_amount r \<le> liabilities s" using total_staked_nonneg [OF b] by (simp add: liabilities_def)
  have req: "Unstake t k = Some r' \<Longrightarrow> 0 < req_amount r'" for k r'
    using b r by (cases k) (auto simp: t books_ok_def split: if_splits)
  have ids: "Unstake t (c, j) \<noteq> None \<longleftrightarrow> Unstake s (c, j) \<noteq> None" for c j
    using r by (simp add: t)
  have fin: "finite (dom (Unstake t))" using b by (simp add: t books_ok_def)
  show "books_ok t"
    using b init fin req ids unfolding books_ok_def flds by blast
qed

section \<open>The vault on a ledger\<close>

text \<open>
  The vault at address \<open>self\<close> together with the world of tokens. A step is a successful invocation
  of the vault, or something else on the ledger. The host lets nobody sign for \<open>self\<close> from outside.
\<close>

inductive vault_step ::
    "'w token_transfer \<Rightarrow> ('w \<Rightarrow> 'w \<Rightarrow> bool) \<Rightarrow> address \<Rightarrow> 'w \<times> staking_state \<Rightarrow> 'w \<times> staking_state \<Rightarrow> bool"
  for tc out self where
  initialize: "\<not> auth env self \<Longrightarrow> current_contract env = self \<Longrightarrow>
    Staking.initialize env a tok p s = Ok (u, t) \<Longrightarrow> vault_step tc out self (w, s) (w, t)"
| stake: "\<not> auth env self \<Longrightarrow> current_contract env = self \<Longrightarrow>
    stake tc env a x ws = Ok (n, wt) \<Longrightarrow> vault_step tc out self ws wt"
| request: "\<not> auth env self \<Longrightarrow> current_contract env = self \<Longrightarrow>
    request_unstake env a x s = Ok (n, t) \<Longrightarrow> vault_step tc out self (w, s) (w, t)"
| claim: "\<not> auth env self \<Longrightarrow> current_contract env = self \<Longrightarrow>
    claim_unstake tc env a i ws = Ok (x, wt) \<Longrightarrow> vault_step tc out self ws wt"
| other: "out w w' \<Longrightarrow> vault_step tc out self (w, s) (w', s)"

definition vault_inv ::
    "('w \<Rightarrow> address \<Rightarrow> address \<Rightarrow> int) \<Rightarrow> (address \<Rightarrow> 'w \<Rightarrow> bool) \<Rightarrow> address \<Rightarrow> 'w \<times> staking_state \<Rightarrow> bool" where
  "vault_inv bof ok self ws \<longleftrightarrow> books_ok (snd ws) \<and> ok self (fst ws) \<and>
     (\<forall>tok. Token (snd ws) = Some tok \<longrightarrow> liabilities (snd ws) \<le> bof (fst ws) tok self) \<and>
     (Token (snd ws) = None \<longrightarrow> \<not> Staking.is_initialized (snd ws))"

text \<open>An uninitialised vault owes nothing, and initialisation does not change that.\<close>

lemma uninitialised_books:
  assumes "books_ok s" "\<not> Staking.is_initialized s"
  shows "stakes s = Map.empty" "pending s = Map.empty" "liabilities s = 0"
  using assms by (simp_all add: stakes_def pending_def books_ok_def liabilities_def)

lemma books_initialize:
  assumes "books_ok s" "Staking.initialize env a tok p s = Ok (u, t)"
  shows "books_ok t" "liabilities t = 0" "Token t = Some tok"
proof -
  have i: "\<not> Staking.is_initialized s" using assms(2) by (simp add: vault_initialize_Ok)
  have t: "Stake t = Stake s" "Unstake t = Unstake s" "TotalStaked t = TotalStaked s"
    "TotalShares t = TotalShares s" "UnstakeCount t = UnstakeCount s" "Staking.is_initialized t"
    and tok: "Token t = Some tok"
    using assms(2) by (simp_all add: vault_initialize_Ok Staking.is_initialized_def)
  have same: "stakes t = stakes s" "pending t = pending s" "get_total_staked t = get_total_staked s"
    "get_total_shares t = get_total_shares s" "get_unstake_count t = get_unstake_count s"
    by (simp_all add: t stakes_def pending_def staking_getters fun_eq_iff)
  show "books_ok t" using assms(1) t(6) unfolding books_ok_def same t(1,2) by blast
  show "liabilities t = 0"
    using uninitialised_books(3) [OF assms(1) i] by (simp add: liabilities_def same)
  show "Token t = Some tok" by (rule tok)
qed

context token_host
begin

lemma vault_inv_empty: "world_ok self w \<Longrightarrow> vault_inv balance_of world_ok self (w, empty_vault)"
  by (simp add: vault_inv_def books_ok_empty) (simp add: empty_vault_def staking_getters)

lemma vault_step_inv:
  assumes "vault_step transfer_call (outside self) self ws wt" "vault_inv balance_of world_ok self ws"
  shows "vault_inv balance_of world_ok self wt"
  using assms
proof (induction rule: vault_step.induct)
  case (initialize env a tok p s u t w)
  then show ?case
    using books_initialize [of s env a tok p u t] own_balance_nonneg [of self w tok]
    by (simp add: vault_inv_def)
next
  case (stake env a x ws n wt)
  obtain w s w' t where ws: "ws = (w, s)" "wt = (w', t)" by (cases ws, cases wt)
  have b: "books_ok s" using stake.prems by (simp add: vault_inv_def ws)
  note ok = stake_Ok [OF b stake.hyps(3) [unfolded ws]]
  then obtain tok where tok: "Token s = Some tok" "transfer_call tok (subcall_env env tok) a self x w = Some w'"
    using stake.hyps(2) by auto
  have "a \<noteq> self" using ok stake.hyps(1) by auto
  then have "balance_of w' tok self = balance_of w tok self + x"
    by (rule deposit_effect(1) [OF tok(2)])
  moreover have "books_ok t" "liabilities t = liabilities s + x"
    using books_stake [OF b, of x t a] ok by blast+
  moreover have "Token t = Token s" using ok by simp
  ultimately show ?case
    using tok stake.prems transfer_keeps_ok [OF _ tok(2), of self] by (simp add: vault_inv_def ws)
next
  case (request env a x s n t w)
  have b: "books_ok s" using request.prems by (simp add: vault_inv_def)
  note ok = request_Ok [OF b request.hyps(3)]
  then have "books_ok t" "liabilities t = liabilities s"
    using books_request [OF b, of x a n t] by blast+
  moreover have "Token t = Token s" "Staking.is_initialized s" using ok by simp_all
  ultimately show ?case
    using request.prems by (auto simp: vault_inv_def)
next
  case (claim env a i ws x wt)
  obtain w s w' t where ws: "ws = (w, s)" "wt = (w', t)" by (cases ws, cases wt)
  have b: "books_ok s" using claim.prems by (simp add: vault_inv_def ws)
  obtain r tok where c: "Staking.is_initialized s" "auth env a" "Unstake s (a, i) = Some r" "\<not> claimed r"
      "Token s = Some tok" "transfer_call tok (subcall_env env tok) self a (req_amount r) w = Some w'"
      "t = s\<lparr>Unstake := (Unstake s)((a, i) \<mapsto> r\<lparr>claimed := True\<rparr>)\<rparr>"
    using claim.hyps(2,3) by (auto simp: ws vault_claim_Ok)
  have "a \<noteq> self" using c(2) claim.hyps(1) by auto
  then have "balance_of w' tok self = balance_of w tok self - req_amount r"
    by (intro deposit_effect(2) [OF c(6)]) simp
  moreover have "Token t = Token s" using c(7) by simp
  ultimately show ?case
    using c(5) books_claim(1,2) [OF b c(3,4,1,7)] claim.prems transfer_keeps_ok [OF _ c(6), of self]
    by (simp add: vault_inv_def ws)
next
  case (other w w' s)
  then show ?case
    using outside_ok [of self w w'] outside_keeps [of self w w']
    by (auto simp: vault_inv_def intro: order_trans)
qed

end

text \<open>What a step may do to a filed request, and when it pays.\<close>

definition request_evolves :: "UnstakeRequest \<Rightarrow> UnstakeRequest \<Rightarrow> bool" where
  "request_evolves r r' \<longleftrightarrow> r' = r \<or> r' = r\<lparr>claimed := True\<rparr>"

lemma request_evolves_refl: "request_evolves r r"
  and request_evolves_trans: "request_evolves r r' \<Longrightarrow> request_evolves r' r'' \<Longrightarrow> request_evolves r r''"
  by (auto simp: request_evolves_def)

lemma vault_step_request:
  assumes "vault_step tc out self ws wt" "books_ok (snd ws)" "Unstake (snd ws) k = Some r"
  shows "\<exists>r'. Unstake (snd wt) k = Some r' \<and> request_evolves r r'"
  using assms
proof (induction rule: vault_step.induct)
  case (initialize env a tok p s u t w)
  then show ?case by (simp add: vault_initialize_Ok request_evolves_refl)
next
  case (stake env a x ws n wt)
  then show ?case
    using stake_Ok [of "snd ws" tc env a x "fst ws" n "fst wt" "snd wt"]
    by (cases ws, cases wt) (auto simp: request_evolves_refl)
next
  case (request env a x s n t w)
  then have ok: "n = get_unstake_count s a" "Unstake t = (Unstake s)((a, n) \<mapsto> \<lparr>req_amount = x,
      unlock_timestamp = timestamp env + get_unstake_period s, claimed = False\<rparr>)"
    using request_Ok [of s env a x n t] by auto
  then have "k \<noteq> (a, n)" using request_fresh [of s a] request.prems by auto
  then show ?case
    using ok request.prems by (simp add: request_evolves_refl)
next
  case (claim env a i ws x wt)
  then show ?case
    by (cases ws, cases wt) (auto simp: vault_claim_Ok request_evolves_def)
next
  case (other w w' s)
  then show ?case by (simp add: request_evolves_refl)
qed

context token_host
begin

lemma vault_run_keeps:
  assumes "(vault_step transfer_call (outside self) self)\<^sup>*\<^sup>* ws wt" "vault_inv balance_of world_ok self ws"
  shows "vault_inv balance_of world_ok self wt"
  using assms by (induction rule: rtranclp_induct) (auto intro: vault_step_inv)

lemma vault_run_inv:
  assumes "(vault_step transfer_call (outside self) self)\<^sup>*\<^sup>* (w, empty_vault) ws" "world_ok self w"
  shows "vault_inv balance_of world_ok self ws"
  using assms by (intro vault_run_keeps [OF assms(1)] vault_inv_empty)

lemma vault_request_history:
  assumes "(vault_step transfer_call (outside self) self)\<^sup>*\<^sup>* ws wt" "vault_inv balance_of world_ok self ws"
    "Unstake (snd ws) k = Some r"
  shows "\<exists>r'. Unstake (snd wt) k = Some r' \<and> request_evolves r r'"
proof -
  have "vault_inv balance_of world_ok self wt \<and> (\<exists>r'. Unstake (snd wt) k = Some r' \<and> request_evolves r r')"
    using assms
  proof (induction rule: rtranclp_induct)
    case base
    then show ?case by (auto simp: request_evolves_refl)
  next
    case (step u v)
    then obtain r' where r': "vault_inv balance_of world_ok self u" "Unstake (snd u) k = Some r'"
        "request_evolves r r'" by auto
    then have "books_ok (snd u)" by (simp add: vault_inv_def)
    then show ?case
      using vault_step_request [OF step.hyps(2) _ r'(2)] vault_step_inv [OF step.hyps(2) r'(1)]
        request_evolves_trans [OF r'(3)] by blast
  qed
  then show ?thesis ..
qed

end

section \<open>A concrete run\<close>

definition user_env :: "nat \<Rightarrow> env" where
  "user_env now = (demo_env now)\<lparr>auth := (\<lambda>b. b \<noteq> 99)\<rparr>"

definition demo_world :: token_world where
  "demo_world = (\<lambda>_. demo_token2)"

definition demo_world_staked :: token_world where
  "demo_world_staked = demo_world(40 := demo_token2\<lparr>Balance := [5 \<mapsto> 400, 99 \<mapsto> 600],
     token_state.events := [Ev_Mint 5 1000, Ev_Transfer 5 99 600]\<rparr>)"

definition demo_world_claimed :: token_world where
  "demo_world_claimed = demo_world(40 := demo_token2\<lparr>Balance := [5 \<mapsto> 650, 99 \<mapsto> 350],
     token_state.events := [Ev_Mint 5 1000, Ev_Transfer 5 99 600, Ev_Transfer 99 5 250]\<rparr>)"

definition demo_vault :: staking_state where
  "demo_vault = \<lparr>Initialized = Some True, Admin = Some 1, Token = Some 40, TotalStaked = None,
     TotalShares = None, UnstakePeriod = Some 100, Stake = Map.empty, UnstakeCount = Map.empty,
     Unstake = Map.empty\<rparr>"

definition demo_vault_staked :: staking_state where
  "demo_vault_staked = demo_vault\<lparr>TotalStaked := Some 600, TotalShares := Some 600,
     Stake := [5 \<mapsto> \<lparr>staked_amount = 600, shares = 600\<rparr>]\<rparr>"

definition demo_vault_requested :: staking_state where
  "demo_vault_requested = demo_vault\<lparr>TotalStaked := Some 350, TotalShares := Some 350,
     Stake := [5 \<mapsto> \<lparr>staked_amount = 350, shares = 350\<rparr>], UnstakeCount := [5 \<mapsto> 1],
     Unstake := [(5, 0) \<mapsto> \<lparr>req_amount = 250, unlock_timestamp = 110, claimed = False\<rparr>]\<rparr>"

definition demo_vault_claimed :: staking_state where
  "demo_vault_claimed = demo_vault_requested\<lparr>
     Unstake := [(5, 0) \<mapsto> \<lparr>req_amount = 250, unlock_timestamp = 110, claimed = True\<rparr>]\<rparr>"

lemmas demo_vaults = demo_vault_def demo_vault_staked_def demo_vault_requested_def demo_vault_claimed_def
lemmas demo_worlds = demo_world_def demo_world_staked_def demo_world_claimed_def

lemma user_env_simps [simp]:
  "timestamp (user_env n) = n" "current_contract (user_env n) = 99" "auth (user_env n) a \<longleftrightarrow> a \<noteq> 99"
  by (simp_all add: user_env_def demo_env_def)

lemma demo_vault_initialize: "Staking.initialize (user_env 0) 1 40 100 empty_vault = Ok ((), demo_vault)"
  by (simp add: vault_initialize_Ok empty_vault_def demo_vault_def Staking.is_initialized_def)

lemma demo_world_transfer:
  "world_transfer 40 (subcall_env (user_env 1) 40) 5 99 600 demo_world = Some demo_world_staked"
  "world_transfer 40 (subcall_env (user_env 120) 40) 99 5 250 demo_world_staked = Some demo_world_claimed"
  by (auto simp: world_transfer_Some transfer_Ok move_balance_Ok demo_worlds demo_tokens
      Token_Contract.is_initialized_def balance_def get_balance_def moved_def Let_def in_i128_def i128_max_def
      i128_min_def fun_upd_twist)

lemma demo_stake:
  "stake world_transfer (user_env 1) 5 600 (demo_world, demo_vault) = Ok (600, demo_world_staked, demo_vault_staked)"
  using demo_world_transfer(1)
  by (simp add: stake_def ensure_initialized_def staking_getters staking_setters demo_vaults Let_def
      shares_for_def in_i128_def i128_max_def i128_min_def)

lemma demo_request:
  "request_unstake (user_env 10) 5 250 demo_vault_staked = Ok (0, demo_vault_requested)"
  by (simp add: request_unstake_def ensure_initialized_def staking_getters staking_setters demo_vaults Let_def
      saturating_sub_def i128_saturate_def in_i128_def i128_max_def i128_min_def u64_max_def u32_max_def)

lemma demo_claim:
  "claim_unstake world_transfer (user_env 120) 5 0 (demo_world_staked, demo_vault_requested) =
     Ok (250, demo_world_claimed, demo_vault_claimed)"
  using demo_world_transfer(2)
  by (simp add: vault_claim_Ok) (simp add: demo_vaults Staking.is_initialized_def)

abbreviation repo_vault_step :: "address \<Rightarrow> token_world \<times> staking_state \<Rightarrow> token_world \<times> staking_state \<Rightarrow> bool" where
  "repo_vault_step self \<equiv> vault_step world_transfer (world_outside self) self"

lemma demo_world_ok: "world_ok 99 demo_world"
proof -
  have "token_step\<^sup>*\<^sup>* empty_token demo_token2"
    by (meson rtranclp.rtrancl_refl rtranclp.rtrancl_into_rtrancl token_stepI token_call.initialize
        token_call.mint demo_token_initialize demo_token_mint)
  then have "token_inv demo_token2" by (rule token.reachable_Inv)
  moreover have "outstanding 99 demo_token2 = 0"
    by (simp add: outstanding_def grants_def demo_tokens)
  ultimately show ?thesis by (simp add: world_ok_def demo_world_def)
qed

lemma demo_vault_run: "(repo_vault_step 99)\<^sup>*\<^sup>* (demo_world, empty_vault) (demo_world_staked, demo_vault_staked)"
  "(repo_vault_step 99)\<^sup>*\<^sup>* (demo_world, empty_vault) (demo_world_staked, demo_vault_requested)"
proof -
  have 1: "repo_vault_step 99 (demo_world, empty_vault) (demo_world, demo_vault)"
    by (rule vault_step.initialize [OF _ _ demo_vault_initialize]) simp_all
  have 2: "repo_vault_step 99 (demo_world, demo_vault) (demo_world_staked, demo_vault_staked)"
    by (rule vault_step.stake [OF _ _ demo_stake]) simp_all
  have 3: "repo_vault_step 99 (demo_world_staked, demo_vault_staked) (demo_world_staked, demo_vault_requested)"
    by (rule vault_step.request [OF _ _ demo_request]) simp_all
  show "(repo_vault_step 99)\<^sup>*\<^sup>* (demo_world, empty_vault) (demo_world_staked, demo_vault_staked)"
    using 1 2 by (meson rtranclp.rtrancl_refl rtranclp.rtrancl_into_rtrancl)
  then show "(repo_vault_step 99)\<^sup>*\<^sup>* (demo_world, empty_vault) (demo_world_staked, demo_vault_requested)"
    using 3 by (rule rtranclp.rtrancl_into_rtrancl)
qed

section \<open>Properties\<close>

text \<open>
  C3. The vault is solvent: run on the repository's token, together with anything the rest of the
  ledger does without the vault's signature, its token balance always covers everything staked
  plus every unclaimed request; total shares equal total staked equal the sum of all stakes, and
  each user's shares equal the amount staked.
\<close>

theorem vault_solvent:
  assumes "(repo_vault_step self)\<^sup>*\<^sup>* (w0, empty_vault) (w, s)" "world_ok self w0" "get_token s = Ok tok"
  shows "get_total_staked s + total_bal (pending s) \<le> world_balance w tok self \<and> 0 \<le> total_bal (pending s) \<and>
    get_total_shares s = get_total_staked s \<and>
    get_total_staked s = (\<Sum>a\<in>dom (Stake s). bal (stakes s) a) \<and>
    (\<forall>a i. get_stake s a = Some i \<longrightarrow> staked_amount i = shares i \<and> 0 \<le> shares i)"
proof -
  have inv: "vault_inv world_balance world_ok self (w, s)"
    by (rule repo_host.vault_run_inv [OF assms(1,2)])
  then have b: "books_ok s" by (simp add: vault_inv_def)
  have "liabilities s \<le> world_balance w tok self"
    using inv assms(3) by (simp add: vault_inv_def get_token_def)
  then show ?thesis
    using pending_nonneg [OF b] b
    by (simp add: liabilities_def books_ok_def get_stake_def total_bal_def)
qed

theorem vault_solvent_witness:
  "let s = demo_vault_staked; w = demo_world_staked in
    get_total_staked s + total_bal (pending s) \<le> world_balance w 40 99 \<and> 0 \<le> total_bal (pending s) \<and>
    get_total_shares s = get_total_staked s \<and>
    get_total_staked s = (\<Sum>a\<in>dom (Stake s). bal (stakes s) a) \<and>
    (\<forall>a i. get_stake s a = Some i \<longrightarrow> staked_amount i = shares i \<and> 0 \<le> shares i)"
  unfolding Let_def
  by (rule vault_solvent [OF demo_vault_run(1) demo_world_ok]) (simp add: demo_vaults get_token_def)

text \<open>
  A matured request is always payable: in every reachable state the owner of an unclaimed
  request whose unlock time has passed can claim it, the claim cannot fail, and it pays exactly
  the requested amount from the vault's balance to the owner's.
\<close>

theorem vault_claim_always_pays:
  assumes "(repo_vault_step self)\<^sup>*\<^sup>* (w0, empty_vault) (w, s)" "world_ok self w0"
    "get_unstake_request s a i = Some r" "\<not> claimed r" "unlock_timestamp r \<le> timestamp env"
    "auth env a" "current_contract env = self" "a \<noteq> self"
  shows "\<exists>w' t tok. claim_unstake world_transfer env a i (w, s) = Ok (req_amount r, w', t) \<and>
    get_token s = Ok tok \<and> world_balance w' tok a = world_balance w tok a + req_amount r \<and>
    world_balance w' tok self = world_balance w tok self - req_amount r"
proof -
  have inv: "vault_inv world_balance world_ok self (w, s)"
    by (rule repo_host.vault_run_inv [OF assms(1,2)])
  then have b: "books_ok s" by (simp add: vault_inv_def)
  have r: "Unstake s (a, i) = Some r" using assms(3) by (simp add: get_unstake_request_def)
  then have init: "Staking.is_initialized s" using b unfolding books_ok_def by fastforce
  then obtain tok where tok: "Token s = Some tok" "liabilities s \<le> world_balance w tok self"
    using inv by (auto simp: vault_inv_def)
  have pos: "0 < req_amount r" by (rule request_amount_pos [OF b r])
  have enough: "req_amount r \<le> balance self (w tok)"
    using books_claim(3) [OF b r assms(4) init refl] tok(2) by (simp add: world_balance_def)
  have "world_ok self w" using inv by (simp add: vault_inv_def)
  then obtain w' where w': "world_transfer tok (subcall_env env tok) self a (req_amount r) w = Some w'"
    using world_transfer_succeeds [of self w "req_amount r" tok "subcall_env env tok" a] pos enough assms(7)
    by (auto simp: world_balance_def)
  have "claim_unstake world_transfer env a i (w, s) =
      Ok (req_amount r, w', s\<lparr>Unstake := (Unstake s)((a, i) \<mapsto> r\<lparr>claimed := True\<rparr>)\<rparr>)"
    unfolding vault_claim_Ok using init assms(4-7) r tok(1) w' by auto
  then show ?thesis
    using repo_token.deposit_effect [OF w'] assms(8) tok(1) by (auto simp: get_token_def)
qed

theorem vault_claim_always_pays_witness:
  "\<exists>w' t tok. claim_unstake world_transfer (user_env 120) 5 0 (demo_world_staked, demo_vault_requested) =
      Ok (req_amount \<lparr>req_amount = 250, unlock_timestamp = 110, claimed = False\<rparr>, w', t) \<and>
    get_token demo_vault_requested = Ok tok \<and>
    world_balance w' tok 5 = world_balance demo_world_staked tok 5 +
      req_amount \<lparr>req_amount = 250, unlock_timestamp = 110, claimed = False\<rparr> \<and>
    world_balance w' tok 99 = world_balance demo_world_staked tok 99 -
      req_amount \<lparr>req_amount = 250, unlock_timestamp = 110, claimed = False\<rparr>"
  by (rule vault_claim_always_pays [OF demo_vault_run(2) demo_world_ok])
    (simp_all add: demo_vaults get_unstake_request_def)

text \<open>
  A withdrawal keeps its terms: if a request for some shares is filed in a reachable state,
  then whatever happens afterwards a successful claim of it pays exactly that many tokens, no
  earlier than the unstake period after the request, and no claim of it succeeds ever again.
\<close>

theorem vault_claim_once_after_period:
  assumes "(repo_vault_step self)\<^sup>*\<^sup>* (w0, empty_vault) (w, s)" "world_ok self w0"
    "request_unstake env a x s = Ok (n, t)"
    "\<not> auth env self" "current_contract env = self"
    "(repo_vault_step self)\<^sup>*\<^sup>* (w, t) ws"
    "claim_unstake world_transfer env' a n ws = Ok (y, wt)"
    "\<not> auth env' self" "current_contract env' = self"
    "(repo_vault_step self)\<^sup>*\<^sup>* wt wu"
  shows "y = x \<and> timestamp env + get_unstake_period s \<le> timestamp env' \<and>
    \<not> is_ok (claim_unstake world_transfer env'' a n wu)"
proof -
  have inv: "vault_inv world_balance world_ok self (w, s)"
    by (rule repo_host.vault_run_inv [OF assms(1,2)])
  then have b: "books_ok s" by (simp add: vault_inv_def)
  have inv1: "vault_inv world_balance world_ok self (w, t)"
    by (rule repo_host.vault_step_inv [OF vault_step.request [OF assms(4,5,3)] inv])
  let ?r = "\<lparr>req_amount = x, unlock_timestamp = timestamp env + get_unstake_period s, claimed = False\<rparr>"
  have "Unstake (snd (w, t)) (a, n) = Some ?r" using request_Ok [OF b assms(3)] by simp
  then obtain r where r: "Unstake (snd ws) (a, n) = Some r" "request_evolves ?r r"
    using repo_host.vault_request_history [OF assms(6) inv1] by blast
  have inv2: "vault_inv world_balance world_ok self ws"
    by (rule repo_host.vault_run_keeps [OF assms(6) inv1])
  have c: "\<not> claimed r" "y = req_amount r" "unlock_timestamp r \<le> timestamp env'"
      "Unstake (snd wt) (a, n) = Some (r\<lparr>claimed := True\<rparr>)"
    using assms(7) r(1) by (cases ws; cases wt; auto simp: vault_claim_Ok)+
  have "r = ?r" using r(2) c(1) by (auto simp: request_evolves_def)
  moreover have inv3: "vault_inv world_balance world_ok self wt"
    by (rule repo_host.vault_step_inv [OF vault_step.claim [OF assms(8,9,7)] inv2])
  moreover obtain r' where "Unstake (snd wu) (a, n) = Some r'" "request_evolves (r\<lparr>claimed := True\<rparr>) r'"
    using repo_host.vault_request_history [OF assms(10) inv3 c(4)] by blast
  ultimately show ?thesis
    using c(2,3) by (cases wu) (auto simp: vault_claim_Ok request_evolves_def)
qed

theorem vault_claim_once_after_period_witness:
  "(250::int) = 250 \<and> timestamp (user_env 10) + get_unstake_period demo_vault_staked \<le> timestamp (user_env 120) \<and>
    \<not> is_ok (claim_unstake world_transfer (user_env 500) 5 0 (demo_world_claimed, demo_vault_claimed))"
  by (rule vault_claim_once_after_period [OF demo_vault_run(1) demo_world_ok demo_request _ _
        rtranclp.rtrancl_refl demo_claim _ _ rtranclp.rtrancl_refl]) simp_all

end
