(* ===== verification/Interest_Rate_Model.thy ===== *)
theory Interest_Rate_Model
  imports Soroban_Prelude
begin

text \<open>
  The interest rate model of \<open>contracts/interest-rate-model\<close>: the checked arithmetic of
  \<open>src/math.rs\<close>, the storage accessors of \<open>src/storage.rs\<close>, the types of \<open>src/types.rs\<close> and the
  entry points of \<open>src/lib.rs\<close>, with the theorems about them. Rates and utilizations are \<open>u32\<close>
  basis points, intermediate values \<open>u128\<close>.
\<close>

section \<open>Types\<close>

datatype rate_error =
    AlreadyInitialized | NotInitialized | InvalidBaseRate | InvalidMultiplier | InvalidMaxRate
  | InvalidUtilization | Unauthorized | InvalidTier | TooManyTiers | InvalidTierThreshold
  | Overflow | DivisionByZero

datatype CurveType = Linear | Exponential

record InterestRateConfig =
  base_rate_bps :: nat
  multiplier_bps :: nat
  max_rate_bps :: nat
  curve_type :: CurveType

record RateTier =
  threshold_bps :: nat
  tier_rate_bps :: nat

record RateSnapshot =
  snap_timestamp :: nat
  snap_rate_bps :: nat
  snap_utilization_bps :: nat

record RateQuery =
  current_rate_bps :: nat
  query_utilization_bps :: nat
  projected_rate_bps :: "nat option"

section \<open>Safe math\<close>

definition BPS :: nat where "BPS = 10000"

definition u32_try_from :: "int \<Rightarrow> nat option" where
  "u32_try_from x = (if 0 \<le> x \<and> x \<le> int u32_max then Some (nat x) else None)"

definition compute_utilization_bps :: "int \<Rightarrow> int \<Rightarrow> (rate_error, nat) outcome" where
  "compute_utilization_bps borrowed total_available =
     (if total_available = 0 then Ok 0
      else
        and_then (ok_or Overflow (checked_mul borrowed (int BPS))) (\<lambda>scaled.
        and_then (ok_or DivisionByZero (checked_div scaled total_available)) (\<lambda>util.
        if util < 0 then Ok 0
        else ok_or Overflow (u32_try_from util))))"

definition compute_linear_rate :: "nat \<Rightarrow> nat \<Rightarrow> nat \<Rightarrow> nat \<Rightarrow> (rate_error, nat) outcome" where
  "compute_linear_rate base mult util max_rate =
     and_then (ok_or Overflow (u128_checked_mul util mult)) (\<lambda>p.
     and_then (ok_or DivisionByZero (u128_checked_div p BPS)) (\<lambda>m.
     and_then (ok_or Overflow (u128_checked_add base m)) (\<lambda>rate.
     Ok (if rate > max_rate then max_rate else rate mod 2 ^ 32))))"

definition compute_exponential_rate :: "nat \<Rightarrow> nat \<Rightarrow> nat \<Rightarrow> nat \<Rightarrow> (rate_error, nat) outcome" where
  "compute_exponential_rate base mult util max_rate =
     and_then (ok_or Overflow (u128_checked_mul util util)) (\<lambda>p.
     and_then (ok_or DivisionByZero (u128_checked_div p BPS)) (\<lambda>util_sq.
     and_then (ok_or Overflow (u128_checked_mul util_sq mult)) (\<lambda>q.
     and_then (ok_or DivisionByZero (u128_checked_div q BPS)) (\<lambda>m.
     and_then (ok_or Overflow (u128_checked_add base m)) (\<lambda>rate.
     Ok (if rate > max_rate then max_rate else rate mod 2 ^ 32))))))"

section \<open>Storage\<close>

record rate_state =
  Initialized :: "bool option"
  Admin :: "address option"
  Config :: "InterestRateConfig option"
  Tiers :: "RateTier list option"
  TierCount :: "nat option"
  LastUpdate :: "nat option"
  HistoryIndex :: "nat option"
  HistorySnapshot :: "nat \<rightharpoonup> RateSnapshot"

definition empty_model :: rate_state where
  "empty_model = \<lparr>Initialized = None, Admin = None, Config = None, Tiers = None, TierCount = None,
     LastUpdate = None, HistoryIndex = None, HistorySnapshot = Map.empty\<rparr>"

definition is_initialized :: "rate_state \<Rightarrow> bool" where
  "is_initialized s = (Initialized s \<noteq> None)"
definition set_initialized :: "rate_state \<Rightarrow> rate_state" where
  "set_initialized s = s\<lparr>Initialized := Some True\<rparr>"
definition get_admin :: "rate_state \<Rightarrow> address option" where
  "get_admin s = Admin s"
definition set_admin :: "address \<Rightarrow> rate_state \<Rightarrow> rate_state" where
  "set_admin a s = s\<lparr>Admin := Some a\<rparr>"
definition get_config :: "rate_state \<Rightarrow> InterestRateConfig option" where
  "get_config s = Config s"
definition set_config :: "InterestRateConfig \<Rightarrow> rate_state \<Rightarrow> rate_state" where
  "set_config c s = s\<lparr>Config := Some c\<rparr>"
definition get_tier_count :: "rate_state \<Rightarrow> nat" where
  "get_tier_count s = unwrap_or 0 (TierCount s)"
definition set_tier_count :: "nat \<Rightarrow> rate_state \<Rightarrow> rate_state" where
  "set_tier_count n s = s\<lparr>TierCount := Some n\<rparr>"
definition get_tier :: "rate_state \<Rightarrow> nat \<Rightarrow> RateTier option" where
  "get_tier s i = (let tiers = unwrap_or [] (Tiers s) in if i < length tiers then Some (tiers ! i) else None)"
definition set_tiers :: "RateTier list \<Rightarrow> rate_state \<Rightarrow> rate_state" where
  "set_tiers ts s = s\<lparr>Tiers := Some ts, TierCount := Some (length ts)\<rparr>"
definition get_history_count :: "rate_state \<Rightarrow> nat" where
  "get_history_count s = unwrap_or 0 (HistoryIndex s)"
definition add_snapshot :: "RateSnapshot \<Rightarrow> rate_state \<Rightarrow> (rate_error, nat \<times> rate_state) outcome" where
  "add_snapshot snap s =
     and_then (u32_add (get_history_count s) 1) (\<lambda>new_id.
     let s1 = s\<lparr>HistorySnapshot := (HistorySnapshot s)(new_id \<mapsto> snap)\<rparr>;
         s2 = s1\<lparr>HistoryIndex := Some new_id\<rparr>
     in Ok (new_id, s2))"
definition get_snapshot :: "rate_state \<Rightarrow> nat \<Rightarrow> RateSnapshot option" where
  "get_snapshot s i = HistorySnapshot s i"
definition get_last_update :: "rate_state \<Rightarrow> nat" where
  "get_last_update s = unwrap_or 0 (LastUpdate s)"
definition set_last_update :: "nat \<Rightarrow> rate_state \<Rightarrow> rate_state" where
  "set_last_update t s = s\<lparr>LastUpdate := Some t\<rparr>"

lemmas rate_getters =
  is_initialized_def get_admin_def get_config_def get_tier_count_def get_tier_def
  get_history_count_def get_snapshot_def get_last_update_def

lemmas rate_setters =
  set_initialized_def set_admin_def set_config_def set_tier_count_def set_tiers_def
  set_last_update_def

section \<open>Entry points\<close>

definition initialize ::
    "env \<Rightarrow> address \<Rightarrow> nat \<Rightarrow> nat \<Rightarrow> nat \<Rightarrow> CurveType \<Rightarrow> rate_state \<Rightarrow> (rate_error, unit \<times> rate_state) outcome" where
  "initialize env admin base mult max_rate curve s =
     (if is_initialized s then Trap (ExplicitPanic ''Already initialized'')
      else
        and_then (require_auth env admin) (\<lambda>_.
        let s1 = set_admin admin s;
            s2 = set_config \<lparr>base_rate_bps = base, multiplier_bps = mult, max_rate_bps = max_rate,
                             curve_type = curve\<rparr> s1;
            s3 = set_initialized s2
        in Ok ((), set_last_update (timestamp env) s3)))"

definition rate_for :: "InterestRateConfig \<Rightarrow> nat \<Rightarrow> (rate_error, nat) outcome" where
  "rate_for c util =
     (case curve_type c of
        Linear \<Rightarrow> compute_linear_rate (base_rate_bps c) (multiplier_bps c) util (max_rate_bps c)
      | Exponential \<Rightarrow> compute_exponential_rate (base_rate_bps c) (multiplier_bps c) util (max_rate_bps c))"

definition compute_rate ::
    "env \<Rightarrow> int \<Rightarrow> int \<Rightarrow> rate_state \<Rightarrow> (rate_error, RateQuery \<times> rate_state) outcome" where
  "compute_rate env borrowed total_available s =
     and_then (ok_or NotInitialized (get_config s)) (\<lambda>config.
     and_then (compute_utilization_bps borrowed total_available) (\<lambda>util.
     and_then (rate_for config util) (\<lambda>rate.
     and_then (add_snapshot \<lparr>snap_timestamp = timestamp env, snap_rate_bps = rate,
                            snap_utilization_bps = util\<rparr> s) (\<lambda>(_, s1).
     let s2 = set_last_update (timestamp env) s1
     in Ok (\<lparr>current_rate_bps = rate, query_utilization_bps = util, projected_rate_bps = None\<rparr>, s2)))))"

text \<open>The validation loop of \<open>set_tiered_rates\<close>, with its running \<open>prev\<close>.\<close>

fun check_tiers :: "nat \<Rightarrow> RateTier list \<Rightarrow> (rate_error, unit) outcome" where
  "check_tiers prev [] = Ok ()"
| "check_tiers prev (t # ts) =
     (if threshold_bps t \<le> prev then Trap (ExplicitPanic ''Invalid tier threshold'')
      else check_tiers (threshold_bps t) ts)"

definition set_tiered_rates ::
    "env \<Rightarrow> address \<Rightarrow> RateTier list \<Rightarrow> rate_state \<Rightarrow> (rate_error, unit \<times> rate_state) outcome" where
  "set_tiered_rates env admin tiers s =
     and_then (unwrap (get_admin s)) (\<lambda>stored_admin.
     if admin \<noteq> stored_admin then Trap (ExplicitPanic ''Unauthorized: caller is not the admin'')
     else
       and_then (require_auth env admin) (\<lambda>_.
       if length tiers > 20 then Trap (ExplicitPanic ''Too many tiers'')
       else
         and_then (check_tiers 0 tiers) (\<lambda>_. Ok ((), set_tiers tiers s))))"

definition pub_get_config :: "rate_state \<Rightarrow> InterestRateConfig option" where
  "pub_get_config s = get_config s"
definition last_update :: "rate_state \<Rightarrow> nat" where
  "last_update s = get_last_update s"

inductive rate_step :: "rate_state \<Rightarrow> rate_state \<Rightarrow> bool" where
  initialize: "max b (max m x) \<le> u32_max \<Longrightarrow> initialize env a b m x c s = Ok (u, t) \<Longrightarrow> rate_step s t"
| compute: "compute_rate env b a s = Ok (q, t) \<Longrightarrow> rate_step s t"
| tiers: "set_tiered_rates env a ts s = Ok (u, t) \<Longrightarrow> rate_step s t"

section \<open>The rate curves\<close>

definition linear_curve :: "nat \<Rightarrow> nat \<Rightarrow> nat \<Rightarrow> nat \<Rightarrow> nat" where
  "linear_curve base mult max_rate util = min max_rate (base + util * mult div 10000)"

definition exponential_curve :: "nat \<Rightarrow> nat \<Rightarrow> nat \<Rightarrow> nat \<Rightarrow> nat" where
  "exponential_curve base mult max_rate util = min max_rate (base + util * util div 10000 * mult div 10000)"

lemma u32_product: "a \<le> u32_max \<Longrightarrow> b \<le> u32_max \<Longrightarrow> a * b \<le> u32_max * u32_max"
  by (rule mult_le_mono)

lemma cap_u32: "m \<le> u32_max \<Longrightarrow> (if r > m then m else r mod 2 ^ 32) = min m r"
  by (simp add: u32_max_def)

lemma linear_rate_value:
  assumes "b \<le> u32_max" "m \<le> u32_max" "u \<le> u32_max" "x \<le> u32_max"
  shows "compute_linear_rate b m u x = Ok (linear_curve b m x u)"
proof -
  have "u * m \<le> u32_max * u32_max" using assms by (intro u32_product)
  moreover have "b + u * m div 10000 \<le> u32_max + u * m"
    using assms(1) div_le_dividend [of "u * m" 10000] by linarith
  ultimately have "u * m \<le> u128_max" "b + u * m div 10000 \<le> u128_max"
    by (simp_all add: u32_max_def u128_max_def)
  then have "compute_linear_rate b m u x =
      Ok (if b + u * m div 10000 > x then x else (b + u * m div 10000) mod 2 ^ 32)"
    unfolding compute_linear_rate_def u128_checked_mul_def u128_checked_div_def
      u128_checked_add_def BPS_def by simp
  then show ?thesis unfolding cap_u32 [OF assms(4)] linear_curve_def .
qed

lemma exponential_rate_value:
  assumes "b \<le> u32_max" "m \<le> u32_max" "u \<le> u32_max" "x \<le> u32_max"
  shows "compute_exponential_rate b m u x = Ok (exponential_curve b m x u)"
proof -
  have uu: "u * u \<le> u32_max * u32_max" using assms by (intro u32_product)
  then have "u * u div 10000 \<le> u32_max * u32_max div 10000" by (rule div_le_mono)
  then have q: "u * u div 10000 * m \<le> u32_max * u32_max div 10000 * u32_max"
    using assms(2) by (rule mult_le_mono)
  moreover have "b + u * u div 10000 * m div 10000 \<le> u32_max + u * u div 10000 * m"
    using assms(1) div_le_dividend [of "u * u div 10000 * m" 10000] by linarith
  ultimately have "u * u \<le> u128_max" "u * u div 10000 * m \<le> u128_max"
      "b + u * u div 10000 * m div 10000 \<le> u128_max"
    using uu by (simp_all add: u32_max_def u128_max_def)
  then have "compute_exponential_rate b m u x = Ok (if b + u * u div 10000 * m div 10000 > x then x
      else (b + u * u div 10000 * m div 10000) mod 2 ^ 32)"
    unfolding compute_exponential_rate_def u128_checked_mul_def u128_checked_div_def
      u128_checked_add_def BPS_def by simp
  then show ?thesis unfolding cap_u32 [OF assms(4)] exponential_curve_def .
qed

text \<open>
  C40. On \<open>u32\<close> arguments neither rate function can fail: the linear one is the capped
  \<open>base + utilization * multiplier / 10000\<close>, the exponential one the capped
  \<open>base + (utilization ^ 2 / 10000) * multiplier / 10000\<close>, rounding down at each division.
\<close>

theorem rates_total_and_exact:
  assumes "b \<le> u32_max" "m \<le> u32_max" "u \<le> u32_max" "x \<le> u32_max"
  shows "compute_linear_rate b m u x = Ok (min x (b + u * m div 10000)) \<and>
    compute_exponential_rate b m u x = Ok (min x (b + u * u div 10000 * m div 10000))"
  using linear_rate_value [OF assms] exponential_rate_value [OF assms]
  by (simp add: linear_curve_def exponential_curve_def)

theorem rates_total_and_exact_witness:
  "compute_linear_rate 200 5000 8000 4000 = Ok (min 4000 (200 + 8000 * 5000 div 10000)) \<and>
    compute_exponential_rate 200 5000 8000 4000 = Ok (min 4000 (200 + 8000 * 8000 div 10000 * 5000 div 10000))"
  by (rule rates_total_and_exact) (simp_all add: u32_max_def)

text \<open>
  Both curves are monotone in the utilization, start at the (capped) base rate and never exceed
  the cap; up to full utilization the exponential curve lies on or below the linear one.
\<close>

theorem rate_curves_monotone:
  assumes "b \<le> u32_max" "m \<le> u32_max" "u \<le> v" "v \<le> u32_max" "x \<le> u32_max"
  shows "\<exists>lu lv eu ev. compute_linear_rate b m u x = Ok lu \<and> compute_linear_rate b m v x = Ok lv \<and>
    compute_exponential_rate b m u x = Ok eu \<and> compute_exponential_rate b m v x = Ok ev \<and>
    min x b \<le> lu \<and> lu \<le> lv \<and> lv \<le> x \<and> min x b \<le> eu \<and> eu \<le> ev \<and> ev \<le> x \<and>
    (v \<le> 10000 \<longrightarrow> ev \<le> lv)"
proof -
  have u: "u \<le> u32_max" using assms(3,4) by simp
  have "u * m div 10000 \<le> v * m div 10000" by (intro div_le_mono mult_le_mono1 assms(3))
  moreover have "u * u div 10000 * m div 10000 \<le> v * v div 10000 * m div 10000"
    by (intro div_le_mono mult_le_mono1 mult_le_mono assms(3))
  moreover have "v * v div 10000 * m div 10000 \<le> v * m div 10000" if "v \<le> 10000"
  proof -
    have "v * v div 10000 \<le> v * 10000 div 10000" using that by (intro div_le_mono mult_le_mono2)
    then show ?thesis by (intro div_le_mono mult_le_mono1) simp
  qed
  ultimately show ?thesis
    using linear_rate_value [OF assms(1,2) u assms(5)] linear_rate_value [OF assms(1,2,4,5)]
      exponential_rate_value [OF assms(1,2) u assms(5)] exponential_rate_value [OF assms(1,2,4,5)]
    by (cases "v \<le> 10000") (auto simp: linear_curve_def exponential_curve_def min_def)
qed

theorem rate_curves_monotone_witness:
  "\<exists>lu lv eu ev. compute_linear_rate 200 3000 4000 10000 = Ok lu \<and> compute_linear_rate 200 3000 9000 10000 = Ok lv \<and>
    compute_exponential_rate 200 3000 4000 10000 = Ok eu \<and> compute_exponential_rate 200 3000 9000 10000 = Ok ev \<and>
    min 10000 200 \<le> lu \<and> lu \<le> lv \<and> lv \<le> 10000 \<and> min 10000 200 \<le> eu \<and> eu \<le> ev \<and> ev \<le> 10000 \<and>
    ((9000::nat) \<le> 10000 \<longrightarrow> ev \<le> lv)"
  by (rule rate_curves_monotone) (simp_all add: u32_max_def)

text \<open>
  Utilization: for a pool with \<open>0 \<le> borrowed \<le> total\<close> and \<open>borrowed * 10000\<close> inside \<open>i128\<close> it is the
  exact floor of \<open>borrowed * 10000 / total\<close>, a percentage; beyond that range the function reports
  \<open>Overflow\<close>, and it never traps whatever the arguments.
\<close>

theorem utilization_correct:
  assumes "0 \<le> borrowed" "borrowed \<le> avail" "0 < avail"
  shows "compute_utilization_bps borrowed avail =
      (if borrowed * 10000 \<le> i128_max then Ok (nat (borrowed * 10000 div avail)) else Err Overflow) \<and>
    nat (borrowed * 10000 div avail) \<le> 10000 \<and>
    (\<forall>b t trap. compute_utilization_bps b t \<noteq> Trap trap)"
proof -
  have le: "borrowed * 10000 div avail \<le> 10000"
    using assms by (intro div_mono_mult) simp_all
  have ge: "0 \<le> borrowed * 10000 div avail" using assms by (simp add: pos_imp_zdiv_nonneg_iff)
  have no_trap: "compute_utilization_bps b t \<noteq> Trap trap" for b t trap
    by (simp add: compute_utilization_bps_def)
  have "compute_utilization_bps borrowed avail = Ok (nat (borrowed * 10000 div avail))"
    if fits: "borrowed * 10000 \<le> i128_max"
  proof -
    have i: "in_i128 (borrowed * 10000)" using fits assms(1) by (simp add: in_i128_def i128_min_def)
    then have "in_i128 (borrowed * 10000 div avail)"
      using assms by (intro i128_div_pos) simp_all
    then show ?thesis
      using i le ge assms
      by (simp add: compute_utilization_bps_def BPS_def checked_mul_def checked_div_def u32_try_from_def
          u32_max_def)
  qed
  moreover have "compute_utilization_bps borrowed avail = Err Overflow" if "\<not> borrowed * 10000 \<le> i128_max"
    using that assms by (simp add: compute_utilization_bps_def BPS_def checked_mul_def in_i128_def)
  ultimately show ?thesis using le no_trap by simp
qed

theorem utilization_correct_witness:
  "compute_utilization_bps 750 1000 =
      (if (750::int) * 10000 \<le> i128_max then Ok (nat (750 * 10000 div 1000)) else Err Overflow) \<and>
    nat (750 * 10000 div 1000) \<le> 10000 \<and>
    (\<forall>b t trap. compute_utilization_bps b t \<noteq> Trap trap)"
  by (rule utilization_correct) simp_all

section \<open>The contract\<close>

definition rate_inv :: "rate_state \<Rightarrow> bool" where
  "rate_inv s \<longleftrightarrow>
     (\<forall>i. HistorySnapshot s i \<noteq> None \<longleftrightarrow> 1 \<le> i \<and> i \<le> get_history_count s) \<and>
     (Config s = None \<longrightarrow> get_history_count s = 0) \<and> (Config s \<noteq> None \<longrightarrow> is_initialized s) \<and>
     (\<forall>c. Config s = Some c \<longrightarrow> base_rate_bps c \<le> u32_max \<and> multiplier_bps c \<le> u32_max \<and> max_rate_bps c \<le> u32_max \<and>
        (\<forall>i x. HistorySnapshot s i = Some x \<longrightarrow> snap_rate_bps x \<le> max_rate_bps c))"

lemma rate_for_value:
  assumes "base_rate_bps c \<le> u32_max" "multiplier_bps c \<le> u32_max" "max_rate_bps c \<le> u32_max" "u \<le> u32_max"
  shows "\<exists>r. rate_for c u = Ok r \<and> r \<le> max_rate_bps c"
  using linear_rate_value [of "base_rate_bps c" "multiplier_bps c" u "max_rate_bps c"]
    exponential_rate_value [of "base_rate_bps c" "multiplier_bps c" u "max_rate_bps c"] assms
  by (auto simp: rate_for_def linear_curve_def exponential_curve_def split: CurveType.splits)

lemma utilization_u32: "compute_utilization_bps b a = Ok u \<Longrightarrow> u \<le> u32_max"
  by (auto simp: compute_utilization_bps_def u32_try_from_def u32_max_def split: if_splits)

lemma compute_rate_Ok:
  "compute_rate env b a s = Ok (q, t) \<longleftrightarrow>
     (\<exists>c u r. Config s = Some c \<and> compute_utilization_bps b a = Ok u \<and> rate_for c u = Ok r \<and>
        get_history_count s + 1 \<le> u32_max \<and>
        q = \<lparr>current_rate_bps = r, query_utilization_bps = u, projected_rate_bps = None\<rparr> \<and>
        t = s\<lparr>HistorySnapshot := (HistorySnapshot s)(get_history_count s + 1 \<mapsto>
               \<lparr>snap_timestamp = timestamp env, snap_rate_bps = r, snap_utilization_bps = u\<rparr>),
             HistoryIndex := Some (get_history_count s + 1), LastUpdate := Some (timestamp env)\<rparr>)"
  by (auto simp: compute_rate_def add_snapshot_def get_config_def set_last_update_def Let_def)

lemma rate_step_inv: "rate_step s t \<Longrightarrow> rate_inv s \<Longrightarrow> rate_inv t"
proof (induction rule: rate_step.induct)
  case (initialize b m x env a c s u t)
  then have "Config s = None" "get_history_count s = 0"
    unfolding rate_inv_def by (auto simp: Interest_Rate_Model.initialize_def split: if_splits)
  moreover have "HistorySnapshot s i = None" for i
    using calculation(2) initialize.prems unfolding rate_inv_def by (metis le_zero_eq not_one_le_zero)
  ultimately show ?case
    using initialize
    by (auto simp: Interest_Rate_Model.initialize_def rate_inv_def rate_setters Let_def get_history_count_def
        is_initialized_def split: if_splits)
next
  case (compute env b a s q t)
  then obtain c u r where r: "Config s = Some c" "compute_utilization_bps b a = Ok u" "rate_for c u = Ok r"
      "t = s\<lparr>HistorySnapshot := (HistorySnapshot s)(get_history_count s + 1 \<mapsto>
               \<lparr>snap_timestamp = timestamp env, snap_rate_bps = r, snap_utilization_bps = u\<rparr>),
             HistoryIndex := Some (get_history_count s + 1), LastUpdate := Some (timestamp env)\<rparr>"
    by (auto simp: compute_rate_Ok)
  have "r \<le> max_rate_bps c"
    using compute.prems r(1,3) rate_for_value [of c u] utilization_u32 [OF r(2)] by (auto simp: rate_inv_def)
  then show ?case
    using compute.prems r(1,4) by (auto simp: rate_inv_def get_history_count_def is_initialized_def)
next
  case (tiers env a ts s u t)
  then show ?case
    by (auto simp: set_tiered_rates_def rate_inv_def set_tiers_def get_history_count_def is_initialized_def split: if_splits)
qed

interpretation rate_model: contract_machine empty_model rate_step rate_inv
proof unfold_locales
  show "rate_inv empty_model" by (simp add: rate_inv_def empty_model_def get_history_count_def)
qed (rule rate_step_inv)

definition demo_model :: rate_state where
  "demo_model = \<lparr>Initialized = Some True, Admin = Some 1,
     Config = Some \<lparr>base_rate_bps = 200, multiplier_bps = 3000, max_rate_bps = 5000, curve_type = Linear\<rparr>,
     Tiers = None, TierCount = None, LastUpdate = Some 9, HistoryIndex = None, HistorySnapshot = Map.empty\<rparr>"

lemma demo_model_reachable: "rate_step\<^sup>*\<^sup>* empty_model demo_model"
proof -
  have "initialize (demo_env 9) 1 200 3000 5000 Linear empty_model = Ok ((), demo_model)"
    by (simp add: initialize_def empty_model_def demo_model_def rate_setters is_initialized_def
        require_auth_def demo_env_def)
  then show ?thesis by (intro r_into_rtranclp rate_step.initialize) (auto simp: u32_max_def)
qed

text \<open>
  A reachable model logs every computation under the next id, without gaps, no logged or
  returned rate exceeds the configured cap, and \<open>compute_rate\<close> can only fail with an overflow of the
  utilization (or when the log is full). The stored tiers play no part: replacing them by any
  others changes neither the rate nor the success of \<open>compute_rate\<close>.
\<close>

theorem compute_rate_capped_and_logged:
  assumes "rate_step\<^sup>*\<^sup>* empty_model s" "get_config s = Some c" "compute_utilization_bps b a = Ok u"
    "get_history_count s < u32_max"
  shows "\<exists>q t. compute_rate env b a s = Ok (q, t) \<and> current_rate_bps q \<le> max_rate_bps c \<and>
    query_utilization_bps q = u \<and> get_history_count t = get_history_count s + 1 \<and>
    (\<forall>i x. get_snapshot t i = Some x \<longrightarrow> 1 \<le> i \<and> i \<le> get_history_count t \<and> snap_rate_bps x \<le> max_rate_bps c) \<and>
    get_snapshot t (get_history_count t) = Some \<lparr>snap_timestamp = timestamp env,
      snap_rate_bps = current_rate_bps q, snap_utilization_bps = u\<rparr> \<and>
    (\<forall>ts. \<exists>t'. compute_rate env b a (set_tiers ts s) = Ok (q, t'))"
proof -
  have inv: "rate_inv s" by (rule rate_model.reachable_Inv [OF assms(1)])
  have c: "Config s = Some c" using assms(2) by (simp add: get_config_def)
  obtain r where r: "rate_for c u = Ok r" "r \<le> max_rate_bps c"
    using rate_for_value [of c u] utilization_u32 [OF assms(3)] inv c by (auto simp: rate_inv_def)
  let ?q = "\<lparr>current_rate_bps = r, query_utilization_bps = u, projected_rate_bps = None\<rparr>"
  let ?n = "get_history_count s + 1"
  let ?t = "s\<lparr>HistorySnapshot := (HistorySnapshot s)(?n \<mapsto>
      \<lparr>snap_timestamp = timestamp env, snap_rate_bps = r, snap_utilization_bps = u\<rparr>),
    HistoryIndex := Some ?n, LastUpdate := Some (timestamp env)\<rparr>"
  have ok: "compute_rate env b a s = Ok (?q, ?t)"
    using c assms(3,4) r(1) by (simp add: compute_rate_Ok)
  have "rate_inv ?t" by (rule rate_step_inv [OF rate_step.compute [OF ok] inv])
  then have log: "\<forall>i x. HistorySnapshot ?t i = Some x \<longrightarrow>
      1 \<le> i \<and> i \<le> get_history_count ?t \<and> snap_rate_bps x \<le> max_rate_bps c"
    using c unfolding rate_inv_def by fastforce
  have "\<exists>t'. compute_rate env b a (set_tiers ts s) = Ok (?q, t')" for ts
    using c assms(3,4) r(1) by (simp add: compute_rate_Ok set_tiers_def get_history_count_def)
  then show ?thesis
    using ok log r(2) by (intro exI [of _ ?q] exI [of _ ?t]) (simp add: get_snapshot_def get_history_count_def)
qed

theorem compute_rate_capped_and_logged_witness:
  "\<exists>q t. compute_rate (demo_env 20) 750 1000 demo_model = Ok (q, t) \<and>
    current_rate_bps q \<le> max_rate_bps \<lparr>base_rate_bps = 200, multiplier_bps = 3000, max_rate_bps = 5000, curve_type = Linear\<rparr> \<and>
    query_utilization_bps q = 7500 \<and> get_history_count t = get_history_count demo_model + 1 \<and>
    (\<forall>i x. get_snapshot t i = Some x \<longrightarrow> 1 \<le> i \<and> i \<le> get_history_count t \<and>
      snap_rate_bps x \<le> max_rate_bps \<lparr>base_rate_bps = 200, multiplier_bps = 3000, max_rate_bps = 5000, curve_type = Linear\<rparr>) \<and>
    get_snapshot t (get_history_count t) = Some \<lparr>snap_timestamp = timestamp (demo_env 20),
      snap_rate_bps = current_rate_bps q, snap_utilization_bps = 7500\<rparr> \<and>
    (\<forall>ts. \<exists>t'. compute_rate (demo_env 20) 750 1000 (set_tiers ts demo_model) = Ok (q, t'))"
  by (rule compute_rate_capped_and_logged [OF demo_model_reachable])
    (simp_all add: demo_model_def get_config_def compute_utilization_bps_def BPS_def checked_mul_def
      checked_div_def u32_try_from_def u32_max_def get_history_count_def in_i128_def i128_max_def i128_min_def)

end
