(* ===== verification/Governance.thy ===== *)
theory Governance
  imports Soroban_Prelude
begin

text \<open>
  The DAO governance contract of \<open>contracts/governance\<close>: storage accessors (\<open>src/storage.rs\<close>,
  \<open>src/types.rs\<close>) and every entry point of \<open>src/lib.rs\<close>. A WASM hash (\<open>BytesN<32>\<close>) is only
  compared, so it is a number; the code the host runs for the contract is the field \<open>Wasm\<close>.
\<close>

section \<open>Types and storage\<close>

datatype gov_error =
    AlreadyInitialized | NotInitialized | Unauthorized | ProposalNotFound | VotingNotActive
  | AlreadyVoted | InsufficientVotingPower | QuorumNotReached | ProposalNotPassed | TimelockActive
  | ProposalAlreadyExecuted | EmptyTitle | InsufficientDeposit | SelfDelegation | ProposalNotActive
  | UpgradeNotScheduled | UpgradeTimelockActive | UpgradeHashMismatch | UpgradeDelayTooShort

datatype ProposalStatus = Draft | Active | Passed | Defeated | Executed | Cancelled

datatype VoteChoice = For | Against | Abstain

record UpgradePending =
  wasm_hash :: nat
  upg_execute_after :: nat

record Proposal =
  ident :: nat
  proposer :: address
  title :: string
  description :: string
  status :: ProposalStatus
  votes_for :: int
  votes_against :: int
  votes_abstain :: int
  total_supply_snapshot :: int
  vote_start :: nat
  vote_end :: nat
  execute_after :: nat
  deposit :: int

datatype gov_event =
    Ev_Proposed nat | Ev_Voted nat | Ev_Finalised nat | Ev_Executed nat | Ev_Delegated address
  | Ev_UpgSched nat nat | Ev_UpgDone nat

record gov_state =
  Admin :: "address option"
  ProposalCount :: "nat option"
  TotalSupply :: "int option"
  QuorumBps :: "int option"
  VotingPeriod :: "nat option"
  ExecDelay :: "nat option"
  Deposit :: "int option"
  PendingUpgrade :: "UpgradePending option"
  Proposals :: "nat \<rightharpoonup> Proposal"
  Balance :: "address \<rightharpoonup> int"
  Delegate :: "address \<rightharpoonup> address"
  Voted :: "nat \<times> address \<rightharpoonup> bool"
  Wasm :: "nat option"
  events :: "gov_event list"

definition empty_dao :: gov_state where
  "empty_dao = \<lparr>Admin = None, ProposalCount = None, TotalSupply = None, QuorumBps = None,
     VotingPeriod = None, ExecDelay = None, Deposit = None, PendingUpgrade = None,
     Proposals = Map.empty, Balance = Map.empty, Delegate = Map.empty, Voted = Map.empty,
     Wasm = None, events = []\<rparr>"

definition publish :: "gov_event \<Rightarrow> gov_state \<Rightarrow> gov_state" where
  "publish e s = s\<lparr>events := events s @ [e]\<rparr>"

definition is_initialized :: "gov_state \<Rightarrow> bool" where
  "is_initialized s = (Admin s \<noteq> None)"
definition set_admin :: "address \<Rightarrow> gov_state \<Rightarrow> gov_state" where
  "set_admin a s = s\<lparr>Admin := Some a\<rparr>"
definition get_admin :: "gov_state \<Rightarrow> (gov_error, address) outcome" where
  "get_admin s = ok_or NotInitialized (Admin s)"
definition get_proposal_count :: "gov_state \<Rightarrow> nat" where
  "get_proposal_count s = unwrap_or 0 (ProposalCount s)"
definition set_proposal_count :: "nat \<Rightarrow> gov_state \<Rightarrow> gov_state" where
  "set_proposal_count n s = s\<lparr>ProposalCount := Some n\<rparr>"
definition get_total_supply :: "gov_state \<Rightarrow> int" where
  "get_total_supply s = unwrap_or 0 (TotalSupply s)"
definition set_total_supply :: "int \<Rightarrow> gov_state \<Rightarrow> gov_state" where
  "set_total_supply x s = s\<lparr>TotalSupply := Some x\<rparr>"
definition get_quorum_bps :: "gov_state \<Rightarrow> int" where
  "get_quorum_bps s = unwrap_or 400 (QuorumBps s)"
definition set_quorum_bps :: "int \<Rightarrow> gov_state \<Rightarrow> gov_state" where
  "set_quorum_bps x s = s\<lparr>QuorumBps := Some x\<rparr>"
definition get_voting_period :: "gov_state \<Rightarrow> nat" where
  "get_voting_period s = unwrap_or 604800 (VotingPeriod s)"
definition set_voting_period :: "nat \<Rightarrow> gov_state \<Rightarrow> gov_state" where
  "set_voting_period x s = s\<lparr>VotingPeriod := Some x\<rparr>"
definition get_exec_delay :: "gov_state \<Rightarrow> nat" where
  "get_exec_delay s = unwrap_or 172800 (ExecDelay s)"
definition set_exec_delay :: "nat \<Rightarrow> gov_state \<Rightarrow> gov_state" where
  "set_exec_delay x s = s\<lparr>ExecDelay := Some x\<rparr>"
definition get_deposit :: "gov_state \<Rightarrow> int" where
  "get_deposit s = unwrap_or 0 (Deposit s)"
definition set_deposit :: "int \<Rightarrow> gov_state \<Rightarrow> gov_state" where
  "set_deposit x s = s\<lparr>Deposit := Some x\<rparr>"

definition set_proposal :: "Proposal \<Rightarrow> gov_state \<Rightarrow> gov_state" where
  "set_proposal p s = s\<lparr>Proposals := (Proposals s)(ident p \<mapsto> p)\<rparr>"
definition get_proposal :: "gov_state \<Rightarrow> nat \<Rightarrow> (gov_error, Proposal) outcome" where
  "get_proposal s i = ok_or ProposalNotFound (Proposals s i)"
definition get_balance :: "gov_state \<Rightarrow> address \<Rightarrow> int" where
  "get_balance s a = bal (Balance s) a"
definition set_balance :: "address \<Rightarrow> int \<Rightarrow> gov_state \<Rightarrow> gov_state" where
  "set_balance a x s = s\<lparr>Balance := (Balance s)(a \<mapsto> x)\<rparr>"

text \<open>The loop \<open>for _ in 0..8\<close> of \<open>resolve_delegate\<close>, with its \<open>break\<close>.\<close>

fun follow_delegates :: "nat \<Rightarrow> gov_state \<Rightarrow> address \<Rightarrow> address" where
  "follow_delegates 0 s current = current"
| "follow_delegates (Suc k) s current =
     (case Delegate s current of
        Some d \<Rightarrow> if d \<noteq> current then follow_delegates k s d else current
      | None \<Rightarrow> current)"

definition resolve_delegate :: "gov_state \<Rightarrow> address \<Rightarrow> address" where
  "resolve_delegate s a = follow_delegates 8 s a"

definition set_delegate :: "address \<Rightarrow> address \<Rightarrow> gov_state \<Rightarrow> gov_state" where
  "set_delegate a b s = s\<lparr>Delegate := (Delegate s)(a \<mapsto> b)\<rparr>"
definition remove_delegate :: "address \<Rightarrow> gov_state \<Rightarrow> gov_state" where
  "remove_delegate a s = s\<lparr>Delegate := (Delegate s)(a := None)\<rparr>"
definition has_voted :: "gov_state \<Rightarrow> nat \<Rightarrow> address \<Rightarrow> bool" where
  "has_voted s i v = (Voted s (i, v) \<noteq> None)"
definition record_vote :: "nat \<Rightarrow> address \<Rightarrow> gov_state \<Rightarrow> gov_state" where
  "record_vote i v s = s\<lparr>Voted := (Voted s)((i, v) \<mapsto> True)\<rparr>"
definition set_pending_upgrade :: "UpgradePending \<Rightarrow> gov_state \<Rightarrow> gov_state" where
  "set_pending_upgrade p s = s\<lparr>PendingUpgrade := Some p\<rparr>"
definition get_pending_upgrade :: "gov_state \<Rightarrow> UpgradePending option" where
  "get_pending_upgrade s = PendingUpgrade s"
definition clear_pending_upgrade :: "gov_state \<Rightarrow> gov_state" where
  "clear_pending_upgrade s = s\<lparr>PendingUpgrade := None\<rparr>"

lemmas gov_getters =
  is_initialized_def get_admin_def get_proposal_count_def get_total_supply_def get_quorum_bps_def
  get_voting_period_def get_exec_delay_def get_deposit_def get_proposal_def get_balance_def
  has_voted_def get_pending_upgrade_def

lemmas gov_setters =
  set_admin_def set_proposal_count_def set_total_supply_def set_quorum_bps_def
  set_voting_period_def set_exec_delay_def set_deposit_def set_proposal_def set_balance_def
  set_delegate_def remove_delegate_def record_vote_def set_pending_upgrade_def
  clear_pending_upgrade_def publish_def

section \<open>Private helpers\<close>

definition ensure_initialized :: "gov_state \<Rightarrow> (gov_error, unit) outcome" where
  "ensure_initialized s = (if \<not> is_initialized s then Err NotInitialized else Ok ())"

definition require_admin :: "address \<Rightarrow> gov_state \<Rightarrow> (gov_error, unit) outcome" where
  "require_admin caller s =
     and_then (get_admin s) (\<lambda>admin. if admin \<noteq> caller then Err Unauthorized else Ok ())"

definition voting_power :: "gov_state \<Rightarrow> address \<Rightarrow> int" where
  "voting_power s a = get_balance s a"

section \<open>Entry points\<close>

definition initialize ::
    "env \<Rightarrow> address \<Rightarrow> int option \<Rightarrow> nat option \<Rightarrow> nat option \<Rightarrow> int option \<Rightarrow> gov_state \<Rightarrow>
     (gov_error, unit \<times> gov_state) outcome" where
  "initialize env admin quorum_bps voting_period exec_delay required_deposit s =
     (if is_initialized s then Err AlreadyInitialized
      else
        and_then (require_auth env admin) (\<lambda>_.
        let s1 = set_admin admin s;
            s2 = (case quorum_bps of Some q \<Rightarrow> set_quorum_bps q s1 | None \<Rightarrow> s1);
            s3 = (case voting_period of Some v \<Rightarrow> set_voting_period v s2 | None \<Rightarrow> s2);
            s4 = (case exec_delay of Some e \<Rightarrow> set_exec_delay e s3 | None \<Rightarrow> s3);
            s5 = (case required_deposit of Some d \<Rightarrow> set_deposit d s4 | None \<Rightarrow> s4)
        in Ok ((), s5)))"

definition mint ::
    "env \<Rightarrow> address \<Rightarrow> address \<Rightarrow> int \<Rightarrow> gov_state \<Rightarrow> (gov_error, unit \<times> gov_state) outcome" where
  "mint env admin recipient amount s =
     and_then (ensure_initialized s) (\<lambda>_.
     and_then (require_auth env admin) (\<lambda>_.
     and_then (require_admin admin s) (\<lambda>_.
     and_then (i128_add (get_balance s recipient) amount) (\<lambda>new_bal.
     let s1 = set_balance recipient new_bal s in
     and_then (i128_add (get_total_supply s1) amount) (\<lambda>supply.
     Ok ((), set_total_supply supply s1))))))"

definition propose ::
    "env \<Rightarrow> address \<Rightarrow> string \<Rightarrow> string \<Rightarrow> int \<Rightarrow> gov_state \<Rightarrow> (gov_error, nat \<times> gov_state) outcome" where
  "propose env prop ttl descr depo s =
     and_then (ensure_initialized s) (\<lambda>_.
     and_then (require_auth env prop) (\<lambda>_.
     if ttl = [] then Err EmptyTitle
     else
       let required = get_deposit s in
       if depo < required then Err InsufficientDeposit
       else
         let power = voting_power s prop in
         if power = 0 then Err InsufficientVotingPower
         else
           let now = timestamp env;
               vp = get_voting_period s;
               ed = get_exec_delay s;
               pid = get_proposal_count s in
           and_then (u64_add now vp) (\<lambda>vend.
           and_then (u64_add vend ed) (\<lambda>exec.
           let proposal = \<lparr>ident = pid, proposer = prop, title = ttl, description = descr,
                 status = Active, votes_for = 0, votes_against = 0, votes_abstain = 0,
                 total_supply_snapshot = get_total_supply s, vote_start = now, vote_end = vend,
                 execute_after = exec, deposit = depo\<rparr>;
               s1 = set_proposal proposal s in
           and_then (u32_add pid 1) (\<lambda>next.
           Ok (pid, publish (Ev_Proposed pid) (set_proposal_count next s1)))))))"

definition vote ::
    "env \<Rightarrow> address \<Rightarrow> nat \<Rightarrow> VoteChoice \<Rightarrow> gov_state \<Rightarrow> (gov_error, unit \<times> gov_state) outcome" where
  "vote env voter proposal_id choice s =
     and_then (ensure_initialized s) (\<lambda>_.
     and_then (require_auth env voter) (\<lambda>_.
     and_then (get_proposal s proposal_id) (\<lambda>proposal.
     let now = timestamp env in
     if status proposal \<noteq> Active then Err VotingNotActive
     else if now < vote_start proposal \<or> now > vote_end proposal then Err VotingNotActive
     else
       let effective_voter = resolve_delegate s voter in
       if has_voted s proposal_id effective_voter then Err AlreadyVoted
       else
         let power = get_balance s effective_voter in
         if power = 0 then Err InsufficientVotingPower
         else
           let s1 = record_vote proposal_id effective_voter s in
           and_then
             (case choice of
                For \<Rightarrow> and_then (i128_add (votes_for proposal) power) (\<lambda>x. Ok (proposal\<lparr>votes_for := x\<rparr>))
              | Against \<Rightarrow> and_then (i128_add (votes_against proposal) power) (\<lambda>x. Ok (proposal\<lparr>votes_against := x\<rparr>))
              | Abstain \<Rightarrow> and_then (i128_add (votes_abstain proposal) power) (\<lambda>x. Ok (proposal\<lparr>votes_abstain := x\<rparr>)))
             (\<lambda>proposal'.
           Ok ((), publish (Ev_Voted proposal_id) (set_proposal proposal' s1))))))"

definition finalise ::
    "env \<Rightarrow> nat \<Rightarrow> gov_state \<Rightarrow> (gov_error, ProposalStatus \<times> gov_state) outcome" where
  "finalise env proposal_id s =
     and_then (ensure_initialized s) (\<lambda>_.
     and_then (get_proposal s proposal_id) (\<lambda>proposal.
     let now = timestamp env in
     if status proposal \<noteq> Active then Err ProposalNotActive
     else if now \<le> vote_end proposal then Err VotingNotActive
     else
       and_then (i128_add (votes_for proposal) (votes_against proposal)) (\<lambda>t1.
       and_then (i128_add t1 (votes_abstain proposal)) (\<lambda>total_votes.
       and_then (i128_div (saturating_mul (total_supply_snapshot proposal) (get_quorum_bps s)) 10000) (\<lambda>quorum_needed.
       let new_status =
             (if total_votes \<ge> quorum_needed \<and> votes_for proposal > votes_against proposal
              then Passed else Defeated);
           s1 = set_proposal (proposal\<lparr>status := new_status\<rparr>) s
       in Ok (new_status, publish (Ev_Finalised proposal_id) s1))))))"

definition execute ::
    "env \<Rightarrow> address \<Rightarrow> nat \<Rightarrow> gov_state \<Rightarrow> (gov_error, unit \<times> gov_state) outcome" where
  "execute env caller proposal_id s =
     and_then (ensure_initialized s) (\<lambda>_.
     and_then (require_auth env caller) (\<lambda>_.
     and_then (get_proposal s proposal_id) (\<lambda>proposal.
     if status proposal \<noteq> Passed then Err ProposalNotPassed
     else if timestamp env < execute_after proposal then Err TimelockActive
     else
       let s1 = set_proposal (proposal\<lparr>status := Executed\<rparr>) s
       in Ok ((), publish (Ev_Executed proposal_id) s1))))"

definition cancel ::
    "env \<Rightarrow> address \<Rightarrow> nat \<Rightarrow> gov_state \<Rightarrow> (gov_error, unit \<times> gov_state) outcome" where
  "cancel env caller proposal_id s =
     and_then (ensure_initialized s) (\<lambda>_.
     and_then (require_auth env caller) (\<lambda>_.
     and_then (get_proposal s proposal_id) (\<lambda>proposal.
     and_then (get_admin s) (\<lambda>admin.
     if caller \<noteq> proposer proposal \<and> caller \<noteq> admin then Err Unauthorized
     else if status proposal \<noteq> Active then Err ProposalNotActive
     else Ok ((), set_proposal (proposal\<lparr>status := Cancelled\<rparr>) s)))))"

definition MIN_DELAY :: nat where "MIN_DELAY = 172800"

definition schedule_upgrade ::
    "env \<Rightarrow> address \<Rightarrow> nat \<Rightarrow> nat \<Rightarrow> gov_state \<Rightarrow> (gov_error, nat \<times> gov_state) outcome" where
  "schedule_upgrade env admin new_wasm_hash del s =
     and_then (ensure_initialized s) (\<lambda>_.
     and_then (require_auth env admin) (\<lambda>_.
     and_then (require_admin admin s) (\<lambda>_.
     if del < MIN_DELAY then Err UpgradeDelayTooShort
     else
       and_then (u64_add (timestamp env) del) (\<lambda>exec.
       let s1 = set_pending_upgrade \<lparr>wasm_hash = new_wasm_hash, upg_execute_after = exec\<rparr> s
       in Ok (exec, publish (Ev_UpgSched new_wasm_hash exec) s1)))))"

definition execute_upgrade ::
    "env \<Rightarrow> address \<Rightarrow> nat \<Rightarrow> gov_state \<Rightarrow> (gov_error, unit \<times> gov_state) outcome" where
  "execute_upgrade env admin new_wasm_hash s =
     and_then (ensure_initialized s) (\<lambda>_.
     and_then (require_auth env admin) (\<lambda>_.
     and_then (require_admin admin s) (\<lambda>_.
     and_then (ok_or UpgradeNotScheduled (get_pending_upgrade s)) (\<lambda>pending.
     if wasm_hash pending \<noteq> new_wasm_hash then Err UpgradeHashMismatch
     else if timestamp env < upg_execute_after pending then Err UpgradeTimelockActive
     else
       let s1 = clear_pending_upgrade s;
           s2 = publish (Ev_UpgDone new_wasm_hash) s1
       in Ok ((), s2\<lparr>Wasm := Some new_wasm_hash\<rparr>)))))"

definition cancel_upgrade ::
    "env \<Rightarrow> address \<Rightarrow> gov_state \<Rightarrow> (gov_error, unit \<times> gov_state) outcome" where
  "cancel_upgrade env admin s =
     and_then (ensure_initialized s) (\<lambda>_.
     and_then (require_auth env admin) (\<lambda>_.
     and_then (require_admin admin s) (\<lambda>_.
     if get_pending_upgrade s = None then Err UpgradeNotScheduled
     else Ok ((), clear_pending_upgrade s))))"

definition pub_get_pending_upgrade :: "gov_state \<Rightarrow> (gov_error, UpgradePending option) outcome" where
  "pub_get_pending_upgrade s = and_then (ensure_initialized s) (\<lambda>_. Ok (get_pending_upgrade s))"

definition delegate ::
    "env \<Rightarrow> address \<Rightarrow> address option \<Rightarrow> gov_state \<Rightarrow> (gov_error, unit \<times> gov_state) outcome" where
  "delegate env from to s =
     and_then (ensure_initialized s) (\<lambda>_.
     and_then (require_auth env from) (\<lambda>_.
     and_then
       (case to of
          Some target \<Rightarrow> if target = from then Err SelfDelegation else Ok (set_delegate from target s)
        | None \<Rightarrow> Ok (remove_delegate from s)) (\<lambda>s1.
     Ok ((), publish (Ev_Delegated from) s1))))"

subsection \<open>Read-only entry points\<close>

definition pub_get_proposal :: "nat \<Rightarrow> gov_state \<Rightarrow> (gov_error, Proposal) outcome" where
  "pub_get_proposal i s = and_then (ensure_initialized s) (\<lambda>_. get_proposal s i)"
definition pub_get_proposal_count :: "gov_state \<Rightarrow> (gov_error, nat) outcome" where
  "pub_get_proposal_count s = and_then (ensure_initialized s) (\<lambda>_. Ok (get_proposal_count s))"
definition get_voting_power :: "address \<Rightarrow> gov_state \<Rightarrow> (gov_error, int) outcome" where
  "get_voting_power a s = and_then (ensure_initialized s) (\<lambda>_. Ok (voting_power s a))"
definition pub_get_balance :: "address \<Rightarrow> gov_state \<Rightarrow> (gov_error, int) outcome" where
  "pub_get_balance a s = and_then (ensure_initialized s) (\<lambda>_. Ok (get_balance s a))"
definition get_delegate :: "address \<Rightarrow> gov_state \<Rightarrow> (gov_error, address) outcome" where
  "get_delegate a s = and_then (ensure_initialized s) (\<lambda>_. Ok (resolve_delegate s a))"
definition pub_get_total_supply :: "gov_state \<Rightarrow> (gov_error, int) outcome" where
  "pub_get_total_supply s = and_then (ensure_initialized s) (\<lambda>_. Ok (get_total_supply s))"

section \<open>The DAO as a state machine\<close>

inductive gov_call :: "env \<Rightarrow> gov_state \<Rightarrow> gov_state \<Rightarrow> bool" for env where
  initialize: "initialize env a q v e d s = Ok (u, t) \<Longrightarrow> gov_call env s t"
| mint: "mint env a b x s = Ok (u, t) \<Longrightarrow> gov_call env s t"
| propose: "propose env a n d x s = Ok (i, t) \<Longrightarrow> gov_call env s t"
| vote: "vote env a i c s = Ok (u, t) \<Longrightarrow> gov_call env s t"
| finalise: "finalise env i s = Ok (r, t) \<Longrightarrow> gov_call env s t"
| execute: "execute env a i s = Ok (u, t) \<Longrightarrow> gov_call env s t"
| cancel: "cancel env a i s = Ok (u, t) \<Longrightarrow> gov_call env s t"
| schedule: "schedule_upgrade env a h dl s = Ok (x, t) \<Longrightarrow> gov_call env s t"
| upgrade: "execute_upgrade env a h s = Ok (u, t) \<Longrightarrow> gov_call env s t"
| unschedule: "cancel_upgrade env a s = Ok (u, t) \<Longrightarrow> gov_call env s t"
| delegate: "delegate env a b s = Ok (u, t) \<Longrightarrow> gov_call env s t"

inductive gov_step :: "nat \<times> gov_state \<Rightarrow> nat \<times> gov_state \<Rightarrow> bool" where
  call: "now \<le> timestamp env \<Longrightarrow> gov_call env s t \<Longrightarrow> gov_step (now, s) (timestamp env, t)"

end
