(* ===== verification/Governance_Correct.thy ===== *)
theory Governance_Correct
  imports Governance
begin

text \<open>
  Correctness of the governance contract: a proposal is executed only after it passed with quorum
  and majority and after its time lock, decided proposals never change, the token supply is the
  sum of the balances, and no upgrade can be applied within 48 hours of being scheduled. The vote
  section also proves a defect: through delegation anyone can cast the vote of anybody else.
\<close>

section \<open>Success of each operation\<close>

definition admin_gate :: "env \<Rightarrow> address \<Rightarrow> gov_state \<Rightarrow> bool" where
  "admin_gate env a s \<longleftrightarrow> auth env a \<and> Admin s = Some a"

lemma gov_ensure_initialized_Ok [simp]: "ensure_initialized s = Ok u \<longleftrightarrow> Admin s \<noteq> None"
  by (simp add: ensure_initialized_def is_initialized_def)

lemma require_admin_Ok [simp]: "require_admin a s = Ok u \<longleftrightarrow> Admin s = Some a"
  by (auto simp: require_admin_def get_admin_def)

lemma gov_mint_Ok:
  "mint env a b x s = Ok (u, t) \<longleftrightarrow>
     admin_gate env a s \<and> in_i128 (get_balance s b + x) \<and> in_i128 (get_total_supply s + x) \<and>
     t = s\<lparr>Balance := (Balance s)(b \<mapsto> get_balance s b + x), TotalSupply := Some (get_total_supply s + x)\<rparr>"
  by (auto simp: mint_def admin_gate_def set_balance_def set_total_supply_def get_total_supply_def Let_def)

definition new_proposal :: "env \<Rightarrow> address \<Rightarrow> string \<Rightarrow> string \<Rightarrow> int \<Rightarrow> gov_state \<Rightarrow> Proposal" where
  "new_proposal env a n d x s =
     \<lparr>ident = get_proposal_count s, proposer = a, title = n, description = d, status = Active,
      votes_for = 0, votes_against = 0, votes_abstain = 0, total_supply_snapshot = get_total_supply s,
      vote_start = timestamp env, vote_end = timestamp env + get_voting_period s,
      execute_after = timestamp env + get_voting_period s + get_exec_delay s, deposit = x\<rparr>"

lemma propose_Ok:
  "propose env a n d x s = Ok (i, t) \<longleftrightarrow>
     Admin s \<noteq> None \<and> auth env a \<and> n \<noteq> [] \<and> get_deposit s \<le> x \<and> voting_power s a \<noteq> 0 \<and>
     i = get_proposal_count s \<and> i + 1 \<le> u32_max \<and>
     timestamp env + get_voting_period s + get_exec_delay s \<le> u64_max \<and>
     t = publish (Ev_Proposed i) (set_proposal_count (i + 1) (set_proposal (new_proposal env a n d x s) s))"
  by (auto simp: propose_def new_proposal_def Let_def)

definition counted :: "VoteChoice \<Rightarrow> int \<Rightarrow> Proposal \<Rightarrow> Proposal" where
  "counted c x p =
     (case c of For \<Rightarrow> p\<lparr>votes_for := votes_for p + x\<rparr>
      | Against \<Rightarrow> p\<lparr>votes_against := votes_against p + x\<rparr>
      | Abstain \<Rightarrow> p\<lparr>votes_abstain := votes_abstain p + x\<rparr>)"

definition count_of :: "VoteChoice \<Rightarrow> Proposal \<Rightarrow> int" where
  "count_of c p = (case c of For \<Rightarrow> votes_for p | Against \<Rightarrow> votes_against p | Abstain \<Rightarrow> votes_abstain p)"

lemma counted_fields [simp]:
  "ident (counted c x p) = ident p" "proposer (counted c x p) = proposer p"
  "title (counted c x p) = title p" "description (counted c x p) = description p"
  "status (counted c x p) = status p" "vote_start (counted c x p) = vote_start p"
  "vote_end (counted c x p) = vote_end p" "execute_after (counted c x p) = execute_after p"
  "deposit (counted c x p) = deposit p" "total_supply_snapshot (counted c x p) = total_supply_snapshot p"
  by (cases c; simp add: counted_def)+

lemma vote_Ok:
  "vote env a i c s = Ok (u, t) \<longleftrightarrow>
     Admin s \<noteq> None \<and> auth env a \<and>
     (\<exists>p. Proposals s i = Some p \<and> status p = Active \<and> vote_start p \<le> timestamp env \<and>
        timestamp env \<le> vote_end p \<and> \<not> has_voted s i (resolve_delegate s a) \<and>
        get_balance s (resolve_delegate s a) \<noteq> 0 \<and>
        in_i128 (count_of c p + get_balance s (resolve_delegate s a)) \<and>
        t = publish (Ev_Voted i) (set_proposal (counted c (get_balance s (resolve_delegate s a)) p)
              (record_vote i (resolve_delegate s a) s)))"
proof (cases "Proposals s i")
  case None
  then show ?thesis by (simp add: vote_def get_proposal_def)
next
  case (Some p)
  then show ?thesis
    by (cases c) (auto simp: vote_def get_proposal_def counted_def count_of_def Let_def not_less)
qed

definition tally :: "Proposal \<Rightarrow> int" where
  "tally p = votes_for p + votes_against p + votes_abstain p"

definition quorum_needed :: "gov_state \<Rightarrow> Proposal \<Rightarrow> int" where
  "quorum_needed s p = saturating_mul (total_supply_snapshot p) (get_quorum_bps s) sdiv 10000"

definition verdict :: "gov_state \<Rightarrow> Proposal \<Rightarrow> ProposalStatus" where
  "verdict s p = (if quorum_needed s p \<le> tally p \<and> votes_against p < votes_for p then Passed else Defeated)"

lemma finalise_Ok:
  assumes "finalise env i s = Ok (r, t)"
  shows "Admin s \<noteq> None \<and> (\<exists>p. Proposals s i = Some p \<and> status p = Active \<and> vote_end p < timestamp env \<and>
    r = verdict s p \<and> t = publish (Ev_Finalised i) (set_proposal (p\<lparr>status := verdict s p\<rparr>) s))"
  using assms
  by (cases "Proposals s i")
    (auto simp: finalise_def get_proposal_def Let_def verdict_def tally_def quorum_needed_def not_le)

lemma gov_execute_Ok:
  "execute env a i s = Ok (u, t) \<longleftrightarrow>
     Admin s \<noteq> None \<and> auth env a \<and>
     (\<exists>p. Proposals s i = Some p \<and> status p = Passed \<and> execute_after p \<le> timestamp env \<and>
        t = publish (Ev_Executed i) (set_proposal (p\<lparr>status := Executed\<rparr>) s))"
  by (auto simp: execute_def get_proposal_def Let_def)

lemma gov_cancel_Ok:
  "cancel env a i s = Ok (u, t) \<longleftrightarrow>
     Admin s \<noteq> None \<and> auth env a \<and>
     (\<exists>p. Proposals s i = Some p \<and> status p = Active \<and> (a = proposer p \<or> Admin s = Some a) \<and>
        t = set_proposal (p\<lparr>status := Cancelled\<rparr>) s)"
  by (auto simp: cancel_def get_proposal_def get_admin_def)

lemma schedule_Ok:
  "schedule_upgrade env a h d s = Ok (x, t) \<longleftrightarrow>
     admin_gate env a s \<and> MIN_DELAY \<le> d \<and> x = timestamp env + d \<and> x \<le> u64_max \<and>
     t = publish (Ev_UpgSched h x) (set_pending_upgrade \<lparr>wasm_hash = h, upg_execute_after = x\<rparr> s)"
  by (auto simp: schedule_upgrade_def admin_gate_def Let_def)

lemma upgrade_Ok:
  "execute_upgrade env a h s = Ok (u, t) \<longleftrightarrow>
     admin_gate env a s \<and>
     (\<exists>p. PendingUpgrade s = Some p \<and> wasm_hash p = h \<and> upg_execute_after p \<le> timestamp env) \<and>
     t = (publish (Ev_UpgDone h) (clear_pending_upgrade s))\<lparr>Wasm := Some h\<rparr>"
  by (auto simp: execute_upgrade_def admin_gate_def get_pending_upgrade_def Let_def)

lemma unschedule_Ok:
  "cancel_upgrade env a s = Ok (u, t) \<longleftrightarrow>
     admin_gate env a s \<and> PendingUpgrade s \<noteq> None \<and> t = clear_pending_upgrade s"
  by (auto simp: cancel_upgrade_def admin_gate_def get_pending_upgrade_def)

lemma delegate_Ok:
  "delegate env a b s = Ok (u, t) \<Longrightarrow>
     Admin s \<noteq> None \<and> auth env a \<and> (\<exists>m. t = s\<lparr>Delegate := m, events := events s @ [Ev_Delegated a]\<rparr>)"
  by (auto simp: delegate_def set_delegate_def remove_delegate_def publish_def split: option.splits if_splits)

lemma gov_initialize_Ok:
  "initialize env a q v e d s = Ok (u, t) \<Longrightarrow>
     Admin s = None \<and> auth env a \<and> Admin t \<noteq> None \<and> Proposals t = Proposals s \<and> Balance t = Balance s \<and>
     TotalSupply t = TotalSupply s \<and> ProposalCount t = ProposalCount s \<and> PendingUpgrade t = PendingUpgrade s \<and>
     Voted t = Voted s \<and> Wasm t = Wasm s"
  by (auto simp: initialize_def is_initialized_def gov_setters Let_def split: option.splits)

section \<open>The invariant\<close>

definition proposal_ok :: "nat \<Rightarrow> gov_state \<Rightarrow> nat \<Rightarrow> Proposal \<Rightarrow> bool" where
  "proposal_ok now s i p \<longleftrightarrow>
     ident p = i \<and> vote_start p \<le> now \<and> vote_end p = vote_start p + get_voting_period s \<and>
     execute_after p = vote_end p + get_exec_delay s \<and> status p \<noteq> Draft \<and>
     (status p \<in> {Passed, Executed} \<longrightarrow> verdict s p = Passed) \<and>
     (status p = Defeated \<longrightarrow> verdict s p = Defeated) \<and>
     (status p \<in> {Passed, Executed, Defeated} \<longrightarrow> vote_end p < now) \<and>
     (status p = Executed \<longrightarrow> execute_after p \<le> now)"

definition proposals_ok :: "nat \<Rightarrow> gov_state \<Rightarrow> bool" where
  "proposals_ok now s \<longleftrightarrow>
     (\<forall>i. Proposals s i \<noteq> None \<longleftrightarrow> i < get_proposal_count s) \<and>
     (\<forall>i p. Proposals s i = Some p \<longrightarrow> proposal_ok now s i p)"

definition supply_ok :: "gov_state \<Rightarrow> bool" where
  "supply_ok s \<longleftrightarrow> finite (dom (Balance s)) \<and> get_total_supply s = total_bal (Balance s)"

fun gov_inv :: "nat \<times> gov_state \<Rightarrow> bool" where
  "gov_inv (now, s) \<longleftrightarrow> proposals_ok now s \<and> supply_ok s \<and> (Admin s = None \<longrightarrow> Proposals s = Map.empty)"

lemma verdict_cong: "QuorumBps t = QuorumBps s \<Longrightarrow> verdict t p = verdict s p"
  by (simp add: verdict_def quorum_needed_def get_quorum_bps_def)

lemma verdict_status [simp]: "verdict s (p\<lparr>status := x\<rparr>) = verdict s p"
  by (simp add: verdict_def quorum_needed_def tally_def)

lemma proposal_ok_cong:
  "QuorumBps t = QuorumBps s \<Longrightarrow> VotingPeriod t = VotingPeriod s \<Longrightarrow> ExecDelay t = ExecDelay s \<Longrightarrow>
   proposal_ok now t i p = proposal_ok now s i p"
  by (simp add: proposal_ok_def verdict_cong [of t s] get_voting_period_def get_exec_delay_def)

lemma proposals_ok_cong:
  "QuorumBps t = QuorumBps s \<Longrightarrow> VotingPeriod t = VotingPeriod s \<Longrightarrow> ExecDelay t = ExecDelay s \<Longrightarrow>
   Proposals t = Proposals s \<Longrightarrow> ProposalCount t = ProposalCount s \<Longrightarrow> proposals_ok now t = proposals_ok now s"
  by (simp add: proposals_ok_def proposal_ok_cong [of t s] get_proposal_count_def)

lemma proposals_ok_later: "proposals_ok now s \<Longrightarrow> now \<le> now' \<Longrightarrow> proposals_ok now' s"
  unfolding proposals_ok_def proposal_ok_def by (meson le_trans less_le_trans)

lemma proposals_ok_update:
  assumes "proposals_ok now s" "Proposals s i = Some p" "proposal_ok now s i p \<Longrightarrow> proposal_ok now s i p'"
    and "Proposals t = (Proposals s)(i \<mapsto> p')" "ProposalCount t = ProposalCount s"
    "QuorumBps t = QuorumBps s" "VotingPeriod t = VotingPeriod s" "ExecDelay t = ExecDelay s"
  shows "proposals_ok now t"
proof -
  have "Proposals t j \<noteq> None \<longleftrightarrow> j < get_proposal_count t" for j
    using assms(1,2) by (auto simp: proposals_ok_def assms(4,5) get_proposal_count_def)
  moreover have "proposal_ok now t j x" if "Proposals t j = Some x" for j x
    using that assms(1-3)
    by (auto simp: proposals_ok_def assms(4) proposal_ok_cong [OF assms(6-8)] split: if_splits)
  ultimately show ?thesis unfolding proposals_ok_def by blast
qed

lemma supply_ok_cong:
  "Balance t = Balance s \<Longrightarrow> TotalSupply t = TotalSupply s \<Longrightarrow> supply_ok t = supply_ok s"
  by (simp add: supply_ok_def get_total_supply_def)

text \<open>An operation that replaces one stored proposal keeps everything else.\<close>

definition replaces :: "nat \<Rightarrow> Proposal \<Rightarrow> gov_state \<Rightarrow> gov_state \<Rightarrow> bool" where
  "replaces i p' s t \<longleftrightarrow>
     Proposals t = (Proposals s)(i \<mapsto> p') \<and> ProposalCount t = ProposalCount s \<and> QuorumBps t = QuorumBps s \<and>
     VotingPeriod t = VotingPeriod s \<and> ExecDelay t = ExecDelay s \<and> Balance t = Balance s \<and>
     TotalSupply t = TotalSupply s \<and> Admin t = Admin s \<and> PendingUpgrade t = PendingUpgrade s"

definition keeps_proposals :: "gov_state \<Rightarrow> gov_state \<Rightarrow> bool" where
  "keeps_proposals s t \<longleftrightarrow>
     Proposals t = Proposals s \<and> ProposalCount t = ProposalCount s \<and> QuorumBps t = QuorumBps s \<and>
     VotingPeriod t = VotingPeriod s \<and> ExecDelay t = ExecDelay s \<and> Admin t = Admin s"

text \<open>Every call of an initialised DAO either leaves the proposals alone, files a new one, or
  replaces one in an allowed way.\<close>

definition proposal_moves :: "nat \<Rightarrow> gov_state \<Rightarrow> Proposal \<Rightarrow> Proposal \<Rightarrow> bool" where
  "proposal_moves now s p p' \<longleftrightarrow>
     (\<exists>c x. status p = Active \<and> now \<le> vote_end p \<and> p' = counted c x p) \<or>
     (status p = Active \<and> vote_end p < now \<and> p' = p\<lparr>status := verdict s p\<rparr>) \<or>
     (status p = Active \<and> p' = p\<lparr>status := Cancelled\<rparr>) \<or>
     (status p = Passed \<and> execute_after p \<le> now \<and> p' = p\<lparr>status := Executed\<rparr>)"

lemma movesI:
  "status p = Active \<Longrightarrow> now \<le> vote_end p \<Longrightarrow> proposal_moves now s p (counted c x p)"
  "status p = Active \<Longrightarrow> vote_end p < now \<Longrightarrow> proposal_moves now s p (p\<lparr>status := verdict s p\<rparr>)"
  "status p = Active \<Longrightarrow> proposal_moves now s p (p\<lparr>status := Cancelled\<rparr>)"
  "status p = Passed \<Longrightarrow> execute_after p \<le> now \<Longrightarrow> proposal_moves now s p (p\<lparr>status := Executed\<rparr>)"
  unfolding proposal_moves_def by blast+

lemma gov_call_shape:
  assumes "gov_call env s t" "gov_inv (now, s)"
  shows "(Admin s = None \<and> Admin t \<noteq> None \<and> Proposals t = Proposals s \<and> ProposalCount t = ProposalCount s \<and>
      Balance t = Balance s \<and> TotalSupply t = TotalSupply s \<and> PendingUpgrade t = PendingUpgrade s) \<or>
    (Admin s \<noteq> None \<and> keeps_proposals s t) \<or>
    (Admin s \<noteq> None \<and> (\<exists>a n d x. propose env a n d x s = Ok (get_proposal_count s, t))) \<or>
    (Admin s \<noteq> None \<and> (\<exists>i p p'. Proposals s i = Some p \<and> replaces i p' s t \<and> proposal_moves (timestamp env) s p p'))"
  using assms
proof cases
  case (initialize a q v e d u)
  then show ?thesis using gov_initialize_Ok [of env a q v e d s u t] by blast
next
  case (mint a b x u)
  then show ?thesis by (simp add: gov_mint_Ok admin_gate_def keeps_proposals_def)
next
  case (propose a n d x i)
  then have "Admin s \<noteq> None" "i = get_proposal_count s" by (simp_all add: propose_Ok)
  then show ?thesis using propose by blast
next
  case (vote a i c u)
  then obtain p where p: "Admin s \<noteq> None" "Proposals s i = Some p" "status p = Active" "timestamp env \<le> vote_end p"
    "t = publish (Ev_Voted i) (set_proposal (counted c (get_balance s (resolve_delegate s a)) p)
              (record_vote i (resolve_delegate s a) s))"
    unfolding vote_Ok by blast
  have "ident p = i" using assms(2) p(2) by (simp add: proposals_ok_def proposal_ok_def)
  then have "replaces i (counted c (get_balance s (resolve_delegate s a)) p) s t"
    by (simp add: p(5) replaces_def gov_setters)
  then show ?thesis using p(1-4) movesI [of p] by blast
next
  case (finalise i r)
  then obtain p where p: "Admin s \<noteq> None" "Proposals s i = Some p" "status p = Active" "vote_end p < timestamp env"
    "t = publish (Ev_Finalised i) (set_proposal (p\<lparr>status := verdict s p\<rparr>) s)"
    using finalise_Ok [of env i s r t] by blast
  have "ident p = i" using assms(2) p(2) by (simp add: proposals_ok_def proposal_ok_def)
  then have "replaces i (p\<lparr>status := verdict s p\<rparr>) s t" by (simp add: p(5) replaces_def gov_setters)
  then show ?thesis using p(1-4) movesI [of p] by blast
next
  case (execute a i u)
  then obtain p where p: "Admin s \<noteq> None" "Proposals s i = Some p" "status p = Passed" "execute_after p \<le> timestamp env"
    "t = publish (Ev_Executed i) (set_proposal (p\<lparr>status := Executed\<rparr>) s)"
    unfolding gov_execute_Ok by blast
  have "ident p = i" using assms(2) p(2) by (simp add: proposals_ok_def proposal_ok_def)
  then have "replaces i (p\<lparr>status := Executed\<rparr>) s t" by (simp add: p(5) replaces_def gov_setters)
  then show ?thesis using p(1-4) movesI [of p] by blast
next
  case (cancel a i u)
  then obtain p where p: "Admin s \<noteq> None" "Proposals s i = Some p" "status p = Active" "True"
    "t = set_proposal (p\<lparr>status := Cancelled\<rparr>) s"
    unfolding gov_cancel_Ok by blast
  have "ident p = i" using assms(2) p(2) by (simp add: proposals_ok_def proposal_ok_def)
  then have "replaces i (p\<lparr>status := Cancelled\<rparr>) s t" by (simp add: p(5) replaces_def gov_setters)
  then show ?thesis using p(1-4) movesI [of p] by blast
next
  case (schedule a h dl x)
  then show ?thesis by (simp add: schedule_Ok admin_gate_def keeps_proposals_def gov_setters)
next
  case (upgrade a h u)
  then show ?thesis by (simp add: upgrade_Ok admin_gate_def keeps_proposals_def gov_setters)
next
  case (unschedule a u)
  then show ?thesis by (simp add: unschedule_Ok admin_gate_def keeps_proposals_def gov_setters)
next
  case (delegate a b u)
  then show ?thesis using delegate_Ok [of env a b s u t] by (auto simp: keeps_proposals_def)
qed

lemma supply_call:
  assumes "gov_call env s t" "gov_inv (now, s)"
  shows "supply_ok t"
proof (cases "Balance t = Balance s \<and> TotalSupply t = TotalSupply s")
  case True
  then show ?thesis using assms(2) supply_ok_cong [of t s] by simp
next
  case False
  from assms(1) show ?thesis
  proof cases
    case (mint a b x u)
    then show ?thesis using assms(2) by (auto simp: gov_mint_Ok supply_ok_def get_total_supply_def get_balance_def)
  next
    case (finalise i r)
    then show ?thesis using False finalise_Ok [of env i s r t] by (auto simp: gov_setters)
  next
    case (initialize a q v e d u)
    then show ?thesis using False gov_initialize_Ok [of env a q v e d s u t] by simp
  next
    case (delegate a b u)
    then show ?thesis using False delegate_Ok [of env a b s u t] by auto
  qed (use False in \<open>auto simp: propose_Ok vote_Ok gov_execute_Ok gov_cancel_Ok schedule_Ok upgrade_Ok
      unschedule_Ok gov_setters\<close>)
qed

lemma moves_ok:
  assumes "proposal_moves now s p p'" "proposal_ok now s i p"
  shows "proposal_ok now s i p'"
  using assms(1) unfolding proposal_moves_def
proof (elim disjE conjE exE)
  show ?thesis if "p' = p\<lparr>status := verdict s p\<rparr>" "status p = Active" "vote_end p < now"
    using that assms(2) by (simp add: proposal_ok_def) (simp add: verdict_def)
qed (use assms(2) in \<open>simp_all add: proposal_ok_def\<close>)

lemma gov_call_inv:
  assumes c: "gov_call env s t" and inv: "gov_inv (now, s)" and later: "now \<le> timestamp env"
  shows "gov_inv (timestamp env, t)"
proof -
  have ps: "proposals_ok (timestamp env) s" using inv later by (auto intro: proposals_ok_later)
  have "supply_ok t" by (rule supply_call [OF c inv])
  moreover have "proposals_ok (timestamp env) t \<and> (Admin t = None \<longrightarrow> Proposals t = Map.empty)"
    using gov_call_shape [OF c inv]
  proof (elim disjE conjE exE)
    assume a: "Admin s = None" "Admin t \<noteq> None" "Proposals t = Proposals s" "ProposalCount t = ProposalCount s"
    then have "Proposals s = Map.empty" using inv by simp
    then show ?thesis using ps a by (simp add: proposals_ok_def get_proposal_count_def)
  next
    assume "Admin s \<noteq> None" "keeps_proposals s t"
    then show ?thesis using ps proposals_ok_cong [of t s] by (auto simp: keeps_proposals_def)
  next
    fix a n d x
    let ?i = "get_proposal_count s"
    assume "Admin s \<noteq> None" "propose env a n d x s = Ok (?i, t)"
    then have t: "Admin t \<noteq> None" "Proposals t = (Proposals s)(?i \<mapsto> new_proposal env a n d x s)"
        "ProposalCount t = Some (?i + 1)" "QuorumBps t = QuorumBps s" "VotingPeriod t = VotingPeriod s"
        "ExecDelay t = ExecDelay s"
      by (auto simp: propose_Ok gov_setters new_proposal_def)
    have "proposal_ok (timestamp env) s ?i (new_proposal env a n d x s)"
      by (simp add: proposal_ok_def new_proposal_def)
    then show ?thesis
      using ps t by (auto simp: proposals_ok_def proposal_ok_cong [OF t(4-6)] get_proposal_count_def less_Suc_eq)
  next
    fix i p p'
    assume a: "Admin s \<noteq> None" "Proposals s i = Some p" "replaces i p' s t" "proposal_moves (timestamp env) s p p'"
    then show ?thesis
      using proposals_ok_update [OF ps a(2) moves_ok [OF a(4)], of t] by (simp add: replaces_def)
  qed
  ultimately show ?thesis by simp
qed

interpretation dao: contract_machine "(0, empty_dao)" gov_step gov_inv
proof unfold_locales
  show "gov_inv (0, empty_dao)"
    by (simp add: empty_dao_def proposals_ok_def supply_ok_def gov_getters)
  show "gov_inv t" if "gov_inv s" "gov_step s t" for s t
    using that(2,1) by (induction rule: gov_step.induct) (rule gov_call_inv)
qed

section \<open>Runs\<close>

definition proposal_terms :: "Proposal \<Rightarrow> Proposal \<Rightarrow> bool" where
  "proposal_terms p p' \<longleftrightarrow>
     ident p' = ident p \<and> proposer p' = proposer p \<and> title p' = title p \<and> description p' = description p \<and>
     total_supply_snapshot p' = total_supply_snapshot p \<and> vote_start p' = vote_start p \<and>
     vote_end p' = vote_end p \<and> execute_after p' = execute_after p \<and> deposit p' = deposit p"

definition proposal_evolves :: "Proposal \<Rightarrow> Proposal \<Rightarrow> bool" where
  "proposal_evolves p p' \<longleftrightarrow> proposal_terms p p' \<and>
     (status p \<noteq> Active \<longrightarrow> p' = p \<or> (status p = Passed \<and> p' = p\<lparr>status := Executed\<rparr>))"

lemma proposal_evolves_refl: "proposal_evolves p p"
  by (simp add: proposal_evolves_def proposal_terms_def)

lemma proposal_evolves_trans:
  assumes "proposal_evolves p q" "proposal_evolves q r"
  shows "proposal_evolves p r"
proof -
  have "proposal_terms p r" using assms by (simp add: proposal_evolves_def proposal_terms_def)
  moreover have "r = p \<or> (status p = Passed \<and> r = p\<lparr>status := Executed\<rparr>)" if "status p \<noteq> Active"
  proof (cases "q = p")
    case True
    then show ?thesis using assms(2) that by (simp add: proposal_evolves_def)
  next
    case False
    then have "status p = Passed" "q = p\<lparr>status := Executed\<rparr>"
      using assms(1) that by (simp_all add: proposal_evolves_def)
    then show ?thesis using assms(2) by (simp add: proposal_evolves_def)
  qed
  ultimately show ?thesis by (simp add: proposal_evolves_def)
qed

lemma moves_evolve: "proposal_moves now s p p' \<Longrightarrow> proposal_evolves p p'"
  by (auto simp: proposal_moves_def proposal_evolves_def proposal_terms_def)

lemma gov_call_evolves:
  assumes "gov_call env s t" "gov_inv (now, s)" "Proposals s i = Some p"
  shows "\<exists>p'. Proposals t i = Some p' \<and> proposal_evolves p p'"
  using gov_call_shape [OF assms(1,2)]
proof (elim disjE conjE exE)
  fix a n d x
  assume "propose env a n d x s = Ok (get_proposal_count s, t)"
  then have "Proposals t = (Proposals s)(get_proposal_count s \<mapsto> new_proposal env a n d x s)"
    by (simp add: propose_Ok gov_setters new_proposal_def)
  moreover have "i < get_proposal_count s" using assms(2,3) by (auto simp: proposals_ok_def)
  ultimately show ?thesis using assms(3) by (simp add: proposal_evolves_refl)
next
  fix j q q'
  assume "Proposals s j = Some q" "replaces j q' s t" "proposal_moves (timestamp env) s q q'"
  then show ?thesis
    using assms(3) moves_evolve by (cases "i = j") (auto simp: replaces_def proposal_evolves_refl)
qed (use assms(3) in \<open>auto simp: keeps_proposals_def proposal_evolves_refl\<close>)

lemma gov_run_evolves:
  assumes "gov_step\<^sup>*\<^sup>* c c'" "gov_inv c" "Proposals (snd c) i = Some p"
  shows "\<exists>p'. Proposals (snd c') i = Some p' \<and> proposal_evolves p p'"
proof (rule dao.run_preserves [OF assms(1,2),
      where P = "\<lambda>c. \<exists>p'. Proposals (snd c) i = Some p' \<and> proposal_evolves p p'"])
  show "\<exists>p'. Proposals (snd c) i = Some p' \<and> proposal_evolves p p'"
    using assms(3) by (auto simp: proposal_evolves_refl)
  fix u v
  assume u: "gov_inv u" "\<exists>p'. Proposals (snd u) i = Some p' \<and> proposal_evolves p p'" "gov_step u v"
  from u(3,1,2) show "\<exists>p'. Proposals (snd v) i = Some p' \<and> proposal_evolves p p'"
  proof (induction rule: gov_step.induct)
    case (call now env s t)
    then obtain p' where "Proposals s i = Some p'" "proposal_evolves p p'" by auto
    then show ?case
      using gov_call_evolves [OF call.hyps(2) call.prems(1), of i p'] proposal_evolves_trans by auto
  qed
qed

lemma gov_call_voted:
  assumes "gov_call env s t" "has_voted s i v"
  shows "has_voted t i v"
  using assms(1)
proof cases
  case (initialize a q v e d u)
  then show ?thesis using assms(2) gov_initialize_Ok [of env a q v e d s u t] by (simp add: has_voted_def)
next
  case (finalise j r)
  then show ?thesis using assms(2) finalise_Ok [of env j s r t] by (auto simp: gov_setters has_voted_def)
next
  case (delegate a b u)
  then show ?thesis using assms(2) delegate_Ok [of env a b s u t] by (auto simp: has_voted_def)
qed (use assms(2) in \<open>auto simp: gov_mint_Ok propose_Ok vote_Ok gov_execute_Ok gov_cancel_Ok schedule_Ok upgrade_Ok
    unschedule_Ok gov_setters has_voted_def\<close>)

lemma run_voted: "gov_step\<^sup>*\<^sup>* c c' \<Longrightarrow> has_voted (snd c) i v \<Longrightarrow> has_voted (snd c') i v"
proof (induction rule: rtranclp_induct)
  case (step u w)
  from step.hyps(2) step.IH [OF step.prems] show ?case
    by (induction rule: gov_step.induct) (simp add: gov_call_voted)
qed simp

text \<open>No upgrade to \<open>h\<close> can be pending that was scheduled before \<open>t0\<close>.\<close>

definition upgrade_window :: "nat \<Rightarrow> nat \<Rightarrow> nat \<times> gov_state \<Rightarrow> bool" where
  "upgrade_window t0 h c \<longleftrightarrow> t0 \<le> fst c \<and>
     (\<forall>p. PendingUpgrade (snd c) = Some p \<longrightarrow> wasm_hash p = h \<longrightarrow> t0 + MIN_DELAY \<le> upg_execute_after p)"

lemma upgrade_window_call:
  assumes "gov_call env s t" "upgrade_window t0 h (now, s)" "now \<le> timestamp env"
  shows "upgrade_window t0 h (timestamp env, t)"
proof -
  have "PendingUpgrade t = PendingUpgrade s \<or> PendingUpgrade t = None \<or>
      (\<exists>p. PendingUpgrade t = Some p \<and> timestamp env + MIN_DELAY \<le> upg_execute_after p)"
    using assms(1)
  proof cases
    case (initialize a q v e d u)
    then show ?thesis using gov_initialize_Ok [of env a q v e d s u t] by simp
  next
    case (finalise j r)
    then show ?thesis using finalise_Ok [of env j s r t] by (auto simp: gov_setters)
  next
    case (delegate a b u)
    then show ?thesis using delegate_Ok [of env a b s u t] by auto
  qed (auto simp: gov_mint_Ok propose_Ok vote_Ok gov_execute_Ok gov_cancel_Ok schedule_Ok upgrade_Ok unschedule_Ok gov_setters)
  then show ?thesis using assms(2,3) by (auto simp: upgrade_window_def)
qed

lemma run_upgrade_window:
  "gov_step\<^sup>*\<^sup>* c c' \<Longrightarrow> upgrade_window t0 h c \<Longrightarrow> upgrade_window t0 h c'"
proof (induction rule: rtranclp_induct)
  case (step u w)
  from step.hyps(2) step.IH [OF step.prems] show ?case
    by (induction rule: gov_step.induct) (rule upgrade_window_call)
qed simp

section \<open>A concrete run\<close>

definition demo_proposal :: Proposal where
  "demo_proposal = \<lparr>ident = 0, proposer = 5, title = ''t'', description = ''d'', status = Active,
     votes_for = 0, votes_against = 0, votes_abstain = 0, total_supply_snapshot = 100,
     vote_start = 10, vote_end = 604810, execute_after = 777610, deposit = 0\<rparr>"

definition demo_dao :: gov_state where
  "demo_dao = empty_dao\<lparr>Admin := Some 1, TotalSupply := Some 100, Balance := [5 \<mapsto> 100]\<rparr>"

definition demo_dao_proposed :: gov_state where
  "demo_dao_proposed = demo_dao\<lparr>ProposalCount := Some 1, Proposals := [0 \<mapsto> demo_proposal],
     events := [Ev_Proposed 0]\<rparr>"

definition demo_dao_voted :: gov_state where
  "demo_dao_voted = demo_dao_proposed\<lparr>Proposals := [0 \<mapsto> demo_proposal\<lparr>votes_for := 100\<rparr>],
     Voted := [(0, 5) \<mapsto> True], events := [Ev_Proposed 0, Ev_Voted 0]\<rparr>"

definition demo_dao_passed :: gov_state where
  "demo_dao_passed = demo_dao_voted\<lparr>Proposals := [0 \<mapsto> demo_proposal\<lparr>votes_for := 100, status := Passed\<rparr>],
     events := [Ev_Proposed 0, Ev_Voted 0, Ev_Finalised 0]\<rparr>"

definition demo_dao_executed :: gov_state where
  "demo_dao_executed = demo_dao_passed\<lparr>Proposals := [0 \<mapsto> demo_proposal\<lparr>votes_for := 100, status := Executed\<rparr>],
     events := [Ev_Proposed 0, Ev_Voted 0, Ev_Finalised 0, Ev_Executed 0]\<rparr>"

lemmas demo_daos = demo_dao_def demo_dao_proposed_def demo_dao_voted_def demo_dao_passed_def
  demo_dao_executed_def demo_proposal_def empty_dao_def

lemma demo_mint:
  "initialize (demo_env 1) 1 None None None None empty_dao = Ok ((), empty_dao\<lparr>Admin := Some 1\<rparr>)"
  "mint (demo_env 1) 1 5 100 (empty_dao\<lparr>Admin := Some 1\<rparr>) = Ok ((), demo_dao)"
  by (simp_all add: initialize_def gov_mint_Ok admin_gate_def demo_daos gov_getters gov_setters demo_env_def
      require_auth_def in_i128_def i128_max_def i128_min_def)

lemma gov_demo_propose: "propose (demo_env 10) 5 ''t'' ''d'' 0 demo_dao = Ok (0, demo_dao_proposed)"
  by (simp add: propose_Ok new_proposal_def demo_daos gov_getters gov_setters demo_env_def voting_power_def
      u32_max_def u64_max_def)

lemma resolve_undelegated: "Delegate s a = None \<Longrightarrow> resolve_delegate s a = a"
  by (simp add: resolve_delegate_def eval_nat_numeral)

lemma resolve_one_hop:
  "Delegate s a = Some v \<Longrightarrow> v \<noteq> a \<Longrightarrow> Delegate s v = None \<Longrightarrow> resolve_delegate s a = v"
  by (simp add: resolve_delegate_def eval_nat_numeral)

lemma demo_vote: "vote (demo_env 20) 5 0 For demo_dao_proposed = Ok ((), demo_dao_voted)"
  by (simp add: vote_Ok demo_daos gov_getters gov_setters demo_env_def resolve_undelegated
      counted_def count_of_def in_i128_def i128_max_def i128_min_def)

lemma demo_finalise: "finalise (demo_env 604811) 0 demo_dao_voted = Ok (Passed, demo_dao_passed)"
  by (simp add: finalise_def ensure_initialized_def is_initialized_def demo_daos gov_getters gov_setters demo_env_def
      i128_add_def i128_div_def saturating_mul_def i128_saturate_def in_i128_def i128_max_def i128_min_def Let_def)

lemma gov_demo_execute: "execute (demo_env 777610) 5 0 demo_dao_passed = Ok ((), demo_dao_executed)"
  by (simp add: gov_execute_Ok demo_daos gov_setters demo_env_def)

lemma gov_stepI: "gov_call env s t \<Longrightarrow> now \<le> timestamp env \<Longrightarrow> timestamp env = later \<Longrightarrow> gov_step (now, s) (later, t)"
  by (auto intro: gov_step.call)

lemma demo_dao_run:
  "gov_step\<^sup>*\<^sup>* (0, empty_dao) (10, demo_dao_proposed)"
  "gov_step\<^sup>*\<^sup>* (0, empty_dao) (604811, demo_dao_passed)"
  "gov_step\<^sup>*\<^sup>* (0, empty_dao) (777610, demo_dao_executed)"
proof -
  have "gov_step (0, empty_dao) (1, empty_dao\<lparr>Admin := Some 1\<rparr>)"
    by (rule gov_stepI [OF gov_call.initialize [OF demo_mint(1)]]) (simp_all add: demo_env_def)
  moreover have "gov_step (1, empty_dao\<lparr>Admin := Some 1\<rparr>) (1, demo_dao)"
    by (rule gov_stepI [OF gov_call.mint [OF demo_mint(2)]]) (simp_all add: demo_env_def)
  moreover have "gov_step (1, demo_dao) (10, demo_dao_proposed)"
    by (rule gov_stepI [OF gov_call.propose [OF gov_demo_propose]]) (simp_all add: demo_env_def)
  ultimately show p: "gov_step\<^sup>*\<^sup>* (0, empty_dao) (10, demo_dao_proposed)"
    by (meson rtranclp.rtrancl_refl rtranclp.rtrancl_into_rtrancl)
  have "gov_step (10, demo_dao_proposed) (20, demo_dao_voted)"
    by (rule gov_stepI [OF gov_call.vote [OF demo_vote]]) (simp_all add: demo_env_def)
  moreover have "gov_step (20, demo_dao_voted) (604811, demo_dao_passed)"
    by (rule gov_stepI [OF gov_call.finalise [OF demo_finalise]]) (simp_all add: demo_env_def)
  ultimately show q: "gov_step\<^sup>*\<^sup>* (0, empty_dao) (604811, demo_dao_passed)"
    using p by (meson rtranclp.rtrancl_into_rtrancl)
  have "gov_step (604811, demo_dao_passed) (777610, demo_dao_executed)"
    by (rule gov_stepI [OF gov_call.execute [OF gov_demo_execute]]) (simp_all add: demo_env_def)
  with q show "gov_step\<^sup>*\<^sup>* (0, empty_dao) (777610, demo_dao_executed)"
    by (rule rtranclp.rtrancl_into_rtrancl)
qed

section \<open>Properties\<close>

text \<open>
  C5. A proposal of a reachable DAO that is executed was approved: its votes reached the quorum of
  the supply at its creation and more were for than against, its voting period lay in the past and
  the execution delay after it had elapsed; one that is defeated missed quorum or majority. Voting
  and time lock have the configured lengths.
\<close>

theorem dao_decisions_justified:
  assumes "gov_step\<^sup>*\<^sup>* (0, empty_dao) (now, s)" "pub_get_proposal i s = Ok p"
  shows "vote_end p = vote_start p + get_voting_period s \<and> execute_after p = vote_end p + get_exec_delay s \<and>
    (status p = Passed \<or> status p = Executed \<longrightarrow>
       quorum_needed s p \<le> votes_for p + votes_against p + votes_abstain p \<and>
       votes_against p < votes_for p \<and> vote_end p < now) \<and>
    (status p = Executed \<longrightarrow> execute_after p \<le> now) \<and>
    (status p = Defeated \<longrightarrow> votes_for p + votes_against p + votes_abstain p < quorum_needed s p \<or>
       votes_for p \<le> votes_against p)"
proof -
  have "proposals_ok now s" using dao.reachable_Inv [OF assms(1)] by simp
  moreover have "Proposals s i = Some p" using assms(2) by (auto simp: pub_get_proposal_def get_proposal_def)
  ultimately have "proposal_ok now s i p" by (simp add: proposals_ok_def)
  then show ?thesis
    by (auto simp: proposal_ok_def verdict_def tally_def split: if_splits)
qed

theorem dao_decisions_justified_witness:
  "let p = demo_proposal\<lparr>votes_for := 100, status := Executed\<rparr>; s = demo_dao_executed; now = 777610 in
    vote_end p = vote_start p + get_voting_period s \<and> execute_after p = vote_end p + get_exec_delay s \<and>
    (status p = Passed \<or> status p = Executed \<longrightarrow>
       quorum_needed s p \<le> votes_for p + votes_against p + votes_abstain p \<and>
       votes_against p < votes_for p \<and> vote_end p < now) \<and>
    (status p = Executed \<longrightarrow> execute_after p \<le> now) \<and>
    (status p = Defeated \<longrightarrow> votes_for p + votes_against p + votes_abstain p < quorum_needed s p \<or>
       votes_for p \<le> votes_against p)"
  unfolding Let_def
  by (rule dao_decisions_justified [OF demo_dao_run(3)])
    (simp add: pub_get_proposal_def get_proposal_def demo_daos)

text \<open>
  The terms of a proposal (text, proposer, snapshot, dates, deposit) never change, and once it
  has left the active state its tallies are frozen too: along any run it stays exactly as it is,
  except that a passed one may become executed.
\<close>

theorem dao_history_immutable:
  assumes "gov_step\<^sup>*\<^sup>* (0, empty_dao) (now, s)" "gov_step\<^sup>*\<^sup>* (now, s) (later, t)" "get_proposal s i = Ok p"
  shows "\<exists>p'. get_proposal t i = Ok p' \<and> proposal_terms p p' \<and>
    (status p \<noteq> Active \<longrightarrow> p' = p \<or> (status p = Passed \<and> p' = p\<lparr>status := Executed\<rparr>))"
  using gov_run_evolves [OF assms(2) dao.reachable_Inv [OF assms(1)], of i p] assms(3)
  by (auto simp: get_proposal_def proposal_evolves_def)

theorem dao_history_immutable_witness:
  "let p = demo_proposal\<lparr>votes_for := 100, status := Passed\<rparr> in
    \<exists>p'. get_proposal demo_dao_passed 0 = Ok p' \<and> proposal_terms p p' \<and>
    (status p \<noteq> Active \<longrightarrow> p' = p \<or> (status p = Passed \<and> p' = p\<lparr>status := Executed\<rparr>))"
  unfolding Let_def
  by (rule dao_history_immutable [OF demo_dao_run(2) rtranclp.rtrancl_refl])
    (simp add: get_proposal_def demo_dao_passed_def)

text \<open>
  One holder, one vote: a successful vote adds exactly the effective voter's balance to exactly
  the chosen tally, and from then on no vote resolving to the same holder on the same proposal
  succeeds in any later state.
\<close>

theorem dao_one_vote_per_holder:
  assumes "gov_step\<^sup>*\<^sup>* (0, empty_dao) (now, s)" "vote env a i c s = Ok (u, t)"
    "gov_step\<^sup>*\<^sup>* (timestamp env, t) (later, t')"
    "resolve_delegate t' b = resolve_delegate s a"
  shows "(\<exists>p p'. get_proposal s i = Ok p \<and> get_proposal t i = Ok p' \<and>
      (\<forall>d. count_of d p' = count_of d p + (if d = c then get_balance s (resolve_delegate s a) else 0))) \<and>
    \<not> is_ok (vote env' b i d t')"
proof -
  obtain p where p: "Proposals s i = Some p"
      "t = publish (Ev_Voted i) (set_proposal (counted c (get_balance s (resolve_delegate s a)) p)
              (record_vote i (resolve_delegate s a) s))"
    using assms(2) unfolding vote_Ok by blast
  have "proposals_ok now s" using dao.reachable_Inv [OF assms(1)] by simp
  then have "ident p = i" using p(1) by (simp add: proposals_ok_def proposal_ok_def)
  then have "get_proposal t i = Ok (counted c (get_balance s (resolve_delegate s a)) p)"
    by (simp add: p(2) gov_setters get_proposal_def)
  moreover have "count_of d (counted c x p) = count_of d p + (if d = c then x else 0)" for d x
    by (cases c; cases d) (simp_all add: count_of_def counted_def)
  moreover have "has_voted t i (resolve_delegate s a)"
    by (simp add: p(2) gov_setters has_voted_def)
  then have "has_voted t' i (resolve_delegate t' b)"
    using run_voted [OF assms(3)] assms(4) by simp
  then have "\<not> is_ok (vote env' b i d t')" by (auto simp: vote_Ok)
  ultimately show ?thesis using p(1) by (auto simp: get_proposal_def)
qed

theorem dao_one_vote_per_holder_witness:
  "(\<exists>p p'. get_proposal demo_dao_proposed 0 = Ok p \<and> get_proposal demo_dao_voted 0 = Ok p' \<and>
      (\<forall>d. count_of d p' = count_of d p +
        (if d = For then get_balance demo_dao_proposed (resolve_delegate demo_dao_proposed 5) else 0))) \<and>
    \<not> is_ok (vote (demo_env 30) 5 0 Against demo_dao_voted)"
  by (rule dao_one_vote_per_holder [OF demo_dao_run(1) demo_vote rtranclp.rtrancl_refl])
    (simp add: demo_daos resolve_undelegated)

text \<open>
  Delegation hands out other people's votes: on any active proposal, any address \<open>a\<close>, owning
  nothing and signing only for itself, can delegate to a holder \<open>v\<close> and then cast the whole vote of
  \<open>v\<close> for the choice of \<open>a\<close>; after that \<open>v\<close>'s own vote is refused as \<open>AlreadyVoted\<close>.
\<close>

theorem dao_vote_can_be_hijacked:
  assumes "Admin s \<noteq> None" "\<forall>b. auth env b \<longleftrightarrow> b = a" "a \<noteq> v"
    "get_proposal s i = Ok p" "ident p = i" "status p = Active"
    "vote_start p \<le> timestamp env" "timestamp env \<le> vote_end p"
    "Delegate s v = None" "\<not> has_voted s i v" "get_balance s v \<noteq> 0" "in_i128 (count_of c p + get_balance s v)"
    "auth env' v" "vote_start p \<le> timestamp env'" "timestamp env' \<le> vote_end p"
  shows "\<exists>t t'. delegate env a (Some v) s = Ok ((), t) \<and> vote env a i c t = Ok ((), t') \<and>
    get_proposal t' i = Ok (counted c (get_balance s v) p) \<and> vote env' v i d t' = Err AlreadyVoted"
proof -
  define t where "t = publish (Ev_Delegated a) (set_delegate a v s)"
  have del: "delegate env a (Some v) s = Ok ((), t)"
    using assms(1-3) by (simp add: delegate_def t_def)
  have same: "Admin t = Admin s" "Proposals t = Proposals s" "Delegate t a = Some v" "Delegate t v = None"
    "has_voted t i v = has_voted s i v" "get_balance t v = get_balance s v"
    using assms(3,9) by (simp_all add: t_def gov_setters has_voted_def get_balance_def)
  have eff: "resolve_delegate t a = v" by (rule resolve_one_hop [OF same(3) _ same(4)]) (use assms(3) in simp)
  define t' where "t' = publish (Ev_Voted i) (set_proposal (counted c (get_balance s v) p) (record_vote i v t))"
  have v: "vote env a i c t = Ok ((), t')"
    using assms unfolding vote_Ok eff same t'_def by (auto simp: get_proposal_def)
  have p': "get_proposal t' i = Ok (counted c (get_balance s v) p)"
    using assms(5) by (simp add: t'_def gov_setters get_proposal_def)
  have "Delegate t' v = None" "has_voted t' i v" "Admin t' \<noteq> None"
    using same(1,4) assms(1) by (simp_all add: t'_def gov_setters has_voted_def)
  then have "vote env' v i d t' = Err AlreadyVoted"
    using p' assms(6,13-15) resolve_undelegated [of t' v] by (simp add: vote_def Let_def)
  then show ?thesis using del v p' by blast
qed

theorem dao_vote_can_be_hijacked_witness:
  "\<exists>t t'. delegate ((demo_env 20)\<lparr>auth := (\<lambda>b. b = 66)\<rparr>) 66 (Some 5) demo_dao_proposed = Ok ((), t) \<and>
    vote ((demo_env 20)\<lparr>auth := (\<lambda>b. b = 66)\<rparr>) 66 0 Against t = Ok ((), t') \<and>
    get_proposal t' 0 = Ok (counted Against (get_balance demo_dao_proposed 5) demo_proposal) \<and>
    vote (demo_env 30) 5 0 For t' = Err AlreadyVoted"
  by (rule dao_vote_can_be_hijacked)
    (simp_all add: demo_daos gov_getters demo_env_def count_of_def in_i128_def i128_max_def i128_min_def)

text \<open>
  The veto window: unless an upgrade to hash \<open>h\<close> is already pending at time \<open>t0\<close>, no upgrade to
  \<open>h\<close> can be executed before \<open>t0\<close> plus 48 hours, whatever is called in between; and executing it
  needs the admin's signature and consumes the schedule.
\<close>

theorem dao_upgrade_veto_window:
  assumes "\<forall>p. get_pending_upgrade s = Some p \<longrightarrow> wasm_hash p \<noteq> h"
    "gov_step\<^sup>*\<^sup>* (t0, s) (now, t)" "now \<le> timestamp env" "execute_upgrade env a h t = Ok (u, t')"
  shows "t0 + 172800 \<le> timestamp env \<and> auth env a \<and> get_admin t = Ok a \<and>
    Wasm t' = Some h \<and> get_pending_upgrade t' = None"
proof -
  have "upgrade_window t0 h (t0, s)" using assms(1) by (auto simp: upgrade_window_def get_pending_upgrade_def)
  then have w: "upgrade_window t0 h (now, t)" by (rule run_upgrade_window [OF assms(2)])
  obtain p where "PendingUpgrade t = Some p" "wasm_hash p = h" "upg_execute_after p \<le> timestamp env"
    and t': "admin_gate env a t" "t' = (publish (Ev_UpgDone h) (clear_pending_upgrade t))\<lparr>Wasm := Some h\<rparr>"
    using assms(4) unfolding upgrade_Ok by blast
  then have "t0 + MIN_DELAY \<le> timestamp env" using w by (auto simp: upgrade_window_def)
  then show ?thesis
    using t' by (simp add: MIN_DELAY_def admin_gate_def get_admin_def get_pending_upgrade_def gov_setters)
qed

theorem dao_upgrade_veto_window_witness:
  "(5::nat) + 172800 \<le> timestamp (demo_env 200000) \<and> auth (demo_env 200000) 1 \<and>
    get_admin (demo_dao\<lparr>PendingUpgrade := Some \<lparr>wasm_hash = 42, upg_execute_after = 172805\<rparr>,
        events := [Ev_UpgSched 42 172805]\<rparr>) = Ok 1 \<and>
    Wasm (demo_dao\<lparr>Wasm := Some 42, events := [Ev_UpgSched 42 172805, Ev_UpgDone 42]\<rparr>) = Some 42 \<and>
    get_pending_upgrade (demo_dao\<lparr>Wasm := Some 42, events := [Ev_UpgSched 42 172805, Ev_UpgDone 42]\<rparr>) = None"
proof (rule dao_upgrade_veto_window)
  show "\<forall>p. get_pending_upgrade demo_dao = Some p \<longrightarrow> wasm_hash p \<noteq> 42"
    by (simp add: demo_daos get_pending_upgrade_def)
  have "schedule_upgrade (demo_env 5) 1 42 172800 demo_dao =
      Ok (172805, demo_dao\<lparr>PendingUpgrade := Some \<lparr>wasm_hash = 42, upg_execute_after = 172805\<rparr>,
        events := [Ev_UpgSched 42 172805]\<rparr>)"
    by (simp add: schedule_Ok admin_gate_def demo_daos demo_env_def gov_setters MIN_DELAY_def u64_max_def)
  then show "gov_step\<^sup>*\<^sup>* (5, demo_dao) (5, demo_dao\<lparr>PendingUpgrade :=
        Some \<lparr>wasm_hash = 42, upg_execute_after = 172805\<rparr>, events := [Ev_UpgSched 42 172805]\<rparr>)"
    by (intro r_into_rtranclp gov_stepI [OF gov_call.schedule]) (auto simp: demo_env_def)
  show "execute_upgrade (demo_env 200000) 1 42 (demo_dao\<lparr>PendingUpgrade :=
        Some \<lparr>wasm_hash = 42, upg_execute_after = 172805\<rparr>, events := [Ev_UpgSched 42 172805]\<rparr>) =
      Ok ((), demo_dao\<lparr>Wasm := Some 42, events := [Ev_UpgSched 42 172805, Ev_UpgDone 42]\<rparr>)"
    by (simp add: upgrade_Ok admin_gate_def demo_daos demo_env_def gov_setters)
qed (simp add: demo_env_def)

end
