(* ===== verification/Freelancer_Escrow.thy ===== *)
theory Freelancer_Escrow
  imports Soroban_Prelude
begin

text \<open>
  The escrow contract of \<open>contracts/escrow\<close>: the storage accessors and types, the bilateral
  hash-time-locked atomic swaps and the freelancer milestone escrow of \<open>src/lib.rs\<close>. Tokens are
  other contracts: their \<open>transfer\<close> is the parameter \<open>tc\<close>. \<open>sha256\<close> is a host function: it is
  the parameter \<open>sha\<close>, from byte strings to 256-bit numbers. Storage TTL extensions have no
  observable effect and are left out.
\<close>

section \<open>Types and storage\<close>

datatype escrow_error =
    AlreadyInitialized | NotInitialized | Unauthorized | EscrowNotFound | InvalidState
  | MilestoneNotFound | InvalidAmount | NoMilestones | TooManyMilestones | AlreadyDisputed
  | InvalidRuling | InvalidFeeBps | AtomicSwapNotFound | InvalidSwap | SwapExpired | SwapNotExpired
  | InvalidHashlock | InvalidPreimage | TimelockOutOfRange | SameAsset | Overflow

datatype AtomicSwapStatus = AwaitingCounterparty | Funded | Claimed | Refunded | SwapCancelled

type_synonym bytes = "nat list"
type_synonym bytes32 = nat

record AtomicSwap =
  swap_id :: nat
  maker :: address
  taker :: address
  offered_token :: address
  offered_amount :: int
  requested_token :: address
  requested_amount :: int
  hashlock :: bytes32
  expires_at :: nat
  swap_status :: AtomicSwapStatus
  revealed_preimage :: "bytes option"
  swap_created_at :: nat
  funded_at :: "nat option"
  settled_at :: "nat option"

record AtomicSwapStats =
  st_total :: nat
  st_active :: nat
  st_claimed :: nat
  st_refunded :: nat
  st_cancelled :: nat

datatype EscrowStatus = Pending | Active | Completed | Disputed | Cancelled

datatype MilestoneStatus = MPending | InProgress | UnderReview | Approved | Rejected | Paid

datatype Ruling = FreelancerFavored | ClientFavored | Split

record Milestone =
  milestone_id :: nat
  amount :: int
  milestone_status :: MilestoneStatus

record Escrow =
  escrow_id :: nat
  client :: address
  freelancer :: address
  arbiter :: address
  total_amount :: int
  paid_amount :: int
  milestone_count :: nat
  escrow_status :: EscrowStatus
  created_at :: nat
  arbiter_fee_bps :: nat

record Analytics =
  total_escrows :: nat
  active_escrows :: nat
  completed_escrows :: nat
  disputed_escrows :: nat
  cancelled_escrows :: nat
  total_value_locked :: int
  total_paid_out :: int

datatype escrow_event =
    Ev_Open nat address address | Ev_Funded nat address | Ev_Claimed nat bytes | Ev_Refunded nat
  | Ev_Cancelled nat address

record escrow_state =
  Admin :: "address option"
  ArbiterFeeBps :: "nat option"
  Initialized :: "bool option"
  EscrowCount :: "nat option"
  AnalyticsEntry :: "Analytics option"
  Escrows :: "nat \<rightharpoonup> Escrow"
  Milestones :: "nat \<times> nat \<rightharpoonup> Milestone"
  AtomicSwapCount :: "nat option"
  SwapStats :: "AtomicSwapStats option"
  AtomicSwaps :: "nat \<rightharpoonup> AtomicSwap"
  events :: "escrow_event list"

definition empty_escrow :: escrow_state where
  "empty_escrow = \<lparr>Admin = None, ArbiterFeeBps = None, Initialized = None, EscrowCount = None,
     AnalyticsEntry = None, Escrows = Map.empty, Milestones = Map.empty, AtomicSwapCount = None,
     SwapStats = None, AtomicSwaps = Map.empty, events = []\<rparr>"

definition publish :: "escrow_event \<Rightarrow> escrow_state \<Rightarrow> escrow_state" where
  "publish e s = s\<lparr>events := events s @ [e]\<rparr>"

definition is_initialized :: "escrow_state \<Rightarrow> bool" where
  "is_initialized s = (Initialized s \<noteq> None)"
definition set_initialized :: "escrow_state \<Rightarrow> escrow_state" where
  "set_initialized s = s\<lparr>Initialized := Some True\<rparr>"
definition get_admin :: "escrow_state \<Rightarrow> (escrow_error, address) outcome" where
  "get_admin s = ok_or NotInitialized (Admin s)"
definition set_admin :: "address \<Rightarrow> escrow_state \<Rightarrow> escrow_state" where
  "set_admin a s = s\<lparr>Admin := Some a\<rparr>"
definition get_arbiter_fee_bps :: "escrow_state \<Rightarrow> nat" where
  "get_arbiter_fee_bps s = unwrap_or 200 (ArbiterFeeBps s)"
definition set_arbiter_fee_bps :: "nat \<Rightarrow> escrow_state \<Rightarrow> escrow_state" where
  "set_arbiter_fee_bps x s = s\<lparr>ArbiterFeeBps := Some x\<rparr>"
definition get_escrow_count :: "escrow_state \<Rightarrow> nat" where
  "get_escrow_count s = unwrap_or 0 (EscrowCount s)"
definition increment_escrow_count :: "escrow_state \<Rightarrow> (escrow_error, nat \<times> escrow_state) outcome" where
  "increment_escrow_count s =
     and_then (u32_add (get_escrow_count s) 1) (\<lambda>next. Ok (next, s\<lparr>EscrowCount := Some next\<rparr>))"
definition get_escrow :: "escrow_state \<Rightarrow> nat \<Rightarrow> (escrow_error, Escrow) outcome" where
  "get_escrow s i = ok_or EscrowNotFound (Escrows s i)"
definition set_escrow :: "Escrow \<Rightarrow> escrow_state \<Rightarrow> escrow_state" where
  "set_escrow e s = s\<lparr>Escrows := (Escrows s)(escrow_id e \<mapsto> e)\<rparr>"
definition get_milestone :: "escrow_state \<Rightarrow> nat \<Rightarrow> nat \<Rightarrow> (escrow_error, Milestone) outcome" where
  "get_milestone s i j = ok_or MilestoneNotFound (Milestones s (i, j))"
definition set_milestone :: "nat \<Rightarrow> Milestone \<Rightarrow> escrow_state \<Rightarrow> escrow_state" where
  "set_milestone i m s = s\<lparr>Milestones := (Milestones s)((i, milestone_id m) \<mapsto> m)\<rparr>"

definition get_analytics :: "escrow_state \<Rightarrow> Analytics" where
  "get_analytics s = unwrap_or \<lparr>total_escrows = 0, active_escrows = 0, completed_escrows = 0,
     disputed_escrows = 0, cancelled_escrows = 0, total_value_locked = 0, total_paid_out = 0\<rparr>
     (AnalyticsEntry s)"
definition set_analytics :: "Analytics \<Rightarrow> escrow_state \<Rightarrow> escrow_state" where
  "set_analytics a s = s\<lparr>AnalyticsEntry := Some a\<rparr>"

definition next_atomic_swap_id :: "escrow_state \<Rightarrow> (escrow_error, nat \<times> escrow_state) outcome" where
  "next_atomic_swap_id s =
     (let current = unwrap_or 0 (AtomicSwapCount s) in
      and_then (ok_or Overflow (u64_checked_add current 1)) (\<lambda>next.
      Ok (next, s\<lparr>AtomicSwapCount := Some next\<rparr>)))"
definition get_atomic_swap_count :: "escrow_state \<Rightarrow> nat" where
  "get_atomic_swap_count s = unwrap_or 0 (AtomicSwapCount s)"
definition get_atomic_swap :: "escrow_state \<Rightarrow> nat \<Rightarrow> (escrow_error, AtomicSwap) outcome" where
  "get_atomic_swap s i = ok_or AtomicSwapNotFound (AtomicSwaps s i)"
definition set_atomic_swap :: "AtomicSwap \<Rightarrow> escrow_state \<Rightarrow> escrow_state" where
  "set_atomic_swap sw s = s\<lparr>AtomicSwaps := (AtomicSwaps s)(swap_id sw \<mapsto> sw)\<rparr>"
definition get_atomic_swap_stats :: "escrow_state \<Rightarrow> AtomicSwapStats" where
  "get_atomic_swap_stats s = unwrap_or \<lparr>st_total = 0, st_active = 0, st_claimed = 0, st_refunded = 0,
     st_cancelled = 0\<rparr> (SwapStats s)"
definition set_atomic_swap_stats :: "AtomicSwapStats \<Rightarrow> escrow_state \<Rightarrow> escrow_state" where
  "set_atomic_swap_stats x s = s\<lparr>SwapStats := Some x\<rparr>"

lemmas escrow_getters =
  is_initialized_def get_admin_def get_arbiter_fee_bps_def get_escrow_count_def get_escrow_def
  get_milestone_def get_analytics_def get_atomic_swap_count_def get_atomic_swap_def
  get_atomic_swap_stats_def

lemmas escrow_setters =
  set_initialized_def set_admin_def set_arbiter_fee_bps_def set_escrow_def set_milestone_def
  set_analytics_def set_atomic_swap_def set_atomic_swap_stats_def publish_def

definition MIN_TIMELOCK_SECONDS :: nat where "MIN_TIMELOCK_SECONDS = 60"
definition MAX_TIMELOCK_SECONDS :: nat where "MAX_TIMELOCK_SECONDS = 30 * 24 * 60 * 60"
definition MAX_PREIMAGE_BYTES :: nat where "MAX_PREIMAGE_BYTES = 64"

definition ensure_initialized :: "escrow_state \<Rightarrow> (escrow_error, unit) outcome" where
  "ensure_initialized s = (if \<not> is_initialized s then Err NotInitialized else Ok ())"

section \<open>Initialisation\<close>

definition initialize ::
    "env \<Rightarrow> address \<Rightarrow> nat \<Rightarrow> escrow_state \<Rightarrow> (escrow_error, unit \<times> escrow_state) outcome" where
  "initialize env admin fee_bps s =
     (if is_initialized s then Err AlreadyInitialized
      else
        and_then (require_auth env admin) (\<lambda>_.
        if fee_bps > 10000 then Err InvalidFeeBps
        else
          let s1 = set_admin admin s;
              s2 = set_arbiter_fee_bps fee_bps s1;
              s3 = set_initialized s2
          in Ok ((), set_analytics \<lparr>total_escrows = 0, active_escrows = 0, completed_escrows = 0,
               disputed_escrows = 0, cancelled_escrows = 0, total_value_locked = 0, total_paid_out = 0\<rparr> s3)))"

section \<open>Atomic swaps\<close>

definition create_atomic_swap ::
    "'w token_transfer \<Rightarrow> env \<Rightarrow> address \<Rightarrow> address \<Rightarrow> address \<Rightarrow> int \<Rightarrow> address \<Rightarrow> int \<Rightarrow> bytes32 \<Rightarrow> nat \<Rightarrow>
     'w \<times> escrow_state \<Rightarrow> (escrow_error, nat \<times> 'w \<times> escrow_state) outcome" where
  "create_atomic_swap tc env mk tk otok oamt rtok ramt hash exp ws =
     (case ws of (w, s) \<Rightarrow>
      and_then (ensure_initialized s) (\<lambda>_.
      and_then (require_auth env mk) (\<lambda>_.
      if mk = tk then Err InvalidSwap
      else if otok = rtok then Err SameAsset
      else if oamt \<le> 0 \<or> ramt \<le> 0 then Err InvalidAmount
      else
        let now = timestamp env in
        and_then (ok_or Overflow (u64_checked_add now MIN_TIMELOCK_SECONDS)) (\<lambda>min_expiry.
        and_then (ok_or Overflow (u64_checked_add now MAX_TIMELOCK_SECONDS)) (\<lambda>max_expiry.
        if exp < min_expiry \<or> exp > max_expiry then Err TimelockOutOfRange
        else if hash = 0 then Err InvalidHashlock
        else
          and_then (next_atomic_swap_id s) (\<lambda>(sid, s1).
          let swap = \<lparr>swap_id = sid, maker = mk, taker = tk, offered_token = otok, offered_amount = oamt,
                requested_token = rtok, requested_amount = ramt, hashlock = hash, expires_at = exp,
                swap_status = AwaitingCounterparty, revealed_preimage = None, swap_created_at = now,
                funded_at = None, settled_at = None\<rparr>;
              s2 = set_atomic_swap swap s1;
              stats = get_atomic_swap_stats s2 in
          and_then (ok_or Overflow (u64_checked_add (st_total stats) 1)) (\<lambda>total.
          and_then (ok_or Overflow (u64_checked_add (st_active stats) 1)) (\<lambda>active.
          let s3 = set_atomic_swap_stats (stats\<lparr>st_total := total, st_active := active\<rparr>) s2 in
          and_then (or_trap (tc otok (subcall_env env otok) mk (current_contract env) oamt w)) (\<lambda>w1.
          Ok (sid, w1, publish (Ev_Open sid mk tk) s3))))))))))"

definition fund_atomic_swap ::
    "'w token_transfer \<Rightarrow> env \<Rightarrow> nat \<Rightarrow> address \<Rightarrow> 'w \<times> escrow_state \<Rightarrow>
     (escrow_error, unit \<times> 'w \<times> escrow_state) outcome" where
  "fund_atomic_swap tc env sid tk ws =
     (case ws of (w, s) \<Rightarrow>
      and_then (ensure_initialized s) (\<lambda>_.
      and_then (require_auth env tk) (\<lambda>_.
      and_then (get_atomic_swap s sid) (\<lambda>swap.
      if taker swap \<noteq> tk then Err Unauthorized
      else if swap_status swap \<noteq> AwaitingCounterparty then Err InvalidState
      else if timestamp env \<ge> expires_at swap then Err SwapExpired
      else
        let swap' = swap\<lparr>swap_status := Funded, funded_at := Some (timestamp env)\<rparr>;
            s1 = set_atomic_swap swap' s in
        and_then (or_trap (tc (requested_token swap') (subcall_env env (requested_token swap')) tk
                    (current_contract env) (requested_amount swap') w)) (\<lambda>w1.
        Ok ((), w1, publish (Ev_Funded sid tk) s1))))))"

definition claim_atomic_swap ::
    "(bytes \<Rightarrow> bytes32) \<Rightarrow> 'w token_transfer \<Rightarrow> env \<Rightarrow> nat \<Rightarrow> bytes \<Rightarrow> 'w \<times> escrow_state \<Rightarrow>
     (escrow_error, unit \<times> 'w \<times> escrow_state) outcome" where
  "claim_atomic_swap sha tc env sid preimage ws =
     (case ws of (w, s) \<Rightarrow>
      and_then (ensure_initialized s) (\<lambda>_.
      if preimage = [] \<or> length preimage > MAX_PREIMAGE_BYTES then Err InvalidPreimage
      else
        and_then (get_atomic_swap s sid) (\<lambda>swap.
        if swap_status swap \<noteq> Funded then Err InvalidState
        else
          let now = timestamp env in
          if now \<ge> expires_at swap then Err SwapExpired
          else if sha preimage \<noteq> hashlock swap then Err InvalidPreimage
          else
            let swap' = swap\<lparr>swap_status := Claimed, revealed_preimage := Some preimage, settled_at := Some now\<rparr>;
                s1 = set_atomic_swap swap' s;
                stats = get_atomic_swap_stats s1 in
            and_then (ok_or Overflow (if 1 \<le> st_active stats then Some (st_active stats - 1) else None)) (\<lambda>active.
            and_then (ok_or Overflow (u64_checked_add (st_claimed stats) 1)) (\<lambda>claimed.
            let s2 = set_atomic_swap_stats (stats\<lparr>st_active := active, st_claimed := claimed\<rparr>) s1 in
            and_then (or_trap (tc (offered_token swap') (subcall_env env (offered_token swap'))
                        (current_contract env) (taker swap') (offered_amount swap') w)) (\<lambda>w1.
            and_then (or_trap (tc (requested_token swap') (subcall_env env (requested_token swap'))
                        (current_contract env) (maker swap') (requested_amount swap') w1)) (\<lambda>w2.
            Ok ((), w2, publish (Ev_Claimed sid preimage) s2))))))))"

definition refund_atomic_swap ::
    "'w token_transfer \<Rightarrow> env \<Rightarrow> nat \<Rightarrow> 'w \<times> escrow_state \<Rightarrow>
     (escrow_error, unit \<times> 'w \<times> escrow_state) outcome" where
  "refund_atomic_swap tc env sid ws =
     (case ws of (w, s) \<Rightarrow>
      and_then (ensure_initialized s) (\<lambda>_.
      and_then (get_atomic_swap s sid) (\<lambda>swap.
      let was_funded = (swap_status swap = Funded) in
      if \<not> was_funded \<and> swap_status swap \<noteq> AwaitingCounterparty then Err InvalidState
      else
        let now = timestamp env in
        if now < expires_at swap then Err SwapNotExpired
        else
          let swap' = swap\<lparr>swap_status := Refunded, settled_at := Some now\<rparr>;
              s1 = set_atomic_swap swap' s;
              stats = get_atomic_swap_stats s1 in
          and_then (ok_or Overflow (if 1 \<le> st_active stats then Some (st_active stats - 1) else None)) (\<lambda>active.
          and_then (ok_or Overflow (u64_checked_add (st_refunded stats) 1)) (\<lambda>refunded.
          let s2 = set_atomic_swap_stats (stats\<lparr>st_active := active, st_refunded := refunded\<rparr>) s1 in
          and_then (or_trap (tc (offered_token swap') (subcall_env env (offered_token swap'))
                      (current_contract env) (maker swap') (offered_amount swap') w)) (\<lambda>w1.
          and_then
            (if was_funded then
               or_trap (tc (requested_token swap') (subcall_env env (requested_token swap'))
                      (current_contract env) (taker swap') (requested_amount swap') w1)
             else Ok w1) (\<lambda>w2.
          Ok ((), w2, publish (Ev_Refunded sid) s2))))))))"

definition cancel_atomic_swap ::
    "'w token_transfer \<Rightarrow> env \<Rightarrow> nat \<Rightarrow> address \<Rightarrow> 'w \<times> escrow_state \<Rightarrow>
     (escrow_error, unit \<times> 'w \<times> escrow_state) outcome" where
  "cancel_atomic_swap tc env sid mk ws =
     (case ws of (w, s) \<Rightarrow>
      and_then (ensure_initialized s) (\<lambda>_.
      and_then (require_auth env mk) (\<lambda>_.
      and_then (get_atomic_swap s sid) (\<lambda>swap.
      if maker swap \<noteq> mk then Err Unauthorized
      else if swap_status swap \<noteq> AwaitingCounterparty then Err InvalidState
      else if timestamp env \<ge> expires_at swap then Err SwapExpired
      else
        let swap' = swap\<lparr>swap_status := SwapCancelled, settled_at := Some (timestamp env)\<rparr>;
            s1 = set_atomic_swap swap' s;
            stats = get_atomic_swap_stats s1 in
        and_then (ok_or Overflow (if 1 \<le> st_active stats then Some (st_active stats - 1) else None)) (\<lambda>active.
        and_then (ok_or Overflow (u64_checked_add (st_cancelled stats) 1)) (\<lambda>cancelled.
        let s2 = set_atomic_swap_stats (stats\<lparr>st_active := active, st_cancelled := cancelled\<rparr>) s1 in
        and_then (or_trap (tc (offered_token swap') (subcall_env env (offered_token swap'))
                    (current_contract env) mk (offered_amount swap') w)) (\<lambda>w1.
        Ok ((), w1, publish (Ev_Cancelled sid mk) s2))))))))"

section \<open>Milestone escrows\<close>

text \<open>The validation loop of \<open>create_escrow\<close> with its running \<open>sum\<close>, and the loop that stores the
  milestones under ids 1, 2, ...\<close>

fun sum_milestones :: "int \<Rightarrow> int list \<Rightarrow> (escrow_error, int) outcome" where
  "sum_milestones acc [] = Ok acc"
| "sum_milestones acc (amt # amts) =
     (if amt \<le> 0 then Err InvalidAmount
      else and_then (i128_add acc amt) (\<lambda>acc'. sum_milestones acc' amts))"

fun store_milestones :: "nat \<Rightarrow> nat \<Rightarrow> int list \<Rightarrow> escrow_state \<Rightarrow> escrow_state" where
  "store_milestones eid j [] s = s"
| "store_milestones eid j (amt # amts) s =
     store_milestones eid (Suc j) amts
       (set_milestone eid \<lparr>milestone_id = j, amount = amt, milestone_status = MPending\<rparr> s)"

definition create_escrow ::
    "env \<Rightarrow> address \<Rightarrow> address \<Rightarrow> address \<Rightarrow> int \<Rightarrow> int list \<Rightarrow> escrow_state \<Rightarrow>
     (escrow_error, nat \<times> escrow_state) outcome" where
  "create_escrow env cl fr ar tot amts s =
     and_then (ensure_initialized s) (\<lambda>_.
     and_then (require_auth env cl) (\<lambda>_.
     if tot \<le> 0 then Err InvalidAmount
     else if amts = [] then Err NoMilestones
     else if length amts > 20 then Err TooManyMilestones
     else
       and_then (sum_milestones 0 amts) (\<lambda>msum.
       if msum \<noteq> tot then Err InvalidAmount
       else
         and_then (increment_escrow_count s) (\<lambda>(eid, s1).
         let fee_bps = get_arbiter_fee_bps s1;
             escrow = \<lparr>escrow_id = eid, client = cl, freelancer = fr, arbiter = ar, total_amount = tot,
               paid_amount = 0, milestone_count = length amts, escrow_status = Pending,
               created_at = timestamp env, arbiter_fee_bps = fee_bps\<rparr>;
             s2 = set_escrow escrow s1;
             s3 = store_milestones eid 1 amts s2;
             analytics = get_analytics s3 in
         and_then (u32_add (total_escrows analytics) 1) (\<lambda>n.
         Ok (eid, set_analytics (analytics\<lparr>total_escrows := n\<rparr>) s3))))))"

definition deposit ::
    "env \<Rightarrow> nat \<Rightarrow> address \<Rightarrow> escrow_state \<Rightarrow> (escrow_error, unit \<times> escrow_state) outcome" where
  "deposit env eid cl s =
     and_then (ensure_initialized s) (\<lambda>_.
     and_then (require_auth env cl) (\<lambda>_.
     and_then (get_escrow s eid) (\<lambda>escrow.
     if client escrow \<noteq> cl then Err Unauthorized
     else if escrow_status escrow \<noteq> Pending then Err InvalidState
     else
       and_then (get_milestone s eid 1) (\<lambda>first.
       let s1 = set_milestone eid (first\<lparr>milestone_status := InProgress\<rparr>) s;
           s2 = set_escrow (escrow\<lparr>escrow_status := Active\<rparr>) s1;
           analytics = get_analytics s2 in
       and_then (u32_add (active_escrows analytics) 1) (\<lambda>n.
       and_then (i128_add (total_value_locked analytics) (total_amount escrow)) (\<lambda>locked.
       Ok ((), set_analytics (analytics\<lparr>active_escrows := n, total_value_locked := locked\<rparr>) s2)))))))"

text \<open>\<open>submit_milestone\<close>, \<open>approve_milestone\<close> and \<open>reject_milestone\<close> have the same shape; they
  differ in who calls, and in the status before and after.\<close>

definition submit_milestone ::
    "env \<Rightarrow> nat \<Rightarrow> address \<Rightarrow> nat \<Rightarrow> escrow_state \<Rightarrow> (escrow_error, unit \<times> escrow_state) outcome" where
  "submit_milestone env eid fr mid s =
     and_then (ensure_initialized s) (\<lambda>_.
     and_then (require_auth env fr) (\<lambda>_.
     and_then (get_escrow s eid) (\<lambda>escrow.
     if freelancer escrow \<noteq> fr then Err Unauthorized
     else if escrow_status escrow \<noteq> Active then Err InvalidState
     else
       and_then (get_milestone s eid mid) (\<lambda>milestone.
       if milestone_status milestone \<noteq> InProgress then Err InvalidState
       else Ok ((), set_milestone eid (milestone\<lparr>milestone_status := UnderReview\<rparr>) s)))))"

definition approve_milestone ::
    "env \<Rightarrow> nat \<Rightarrow> address \<Rightarrow> nat \<Rightarrow> escrow_state \<Rightarrow> (escrow_error, unit \<times> escrow_state) outcome" where
  "approve_milestone env eid cl mid s =
     and_then (ensure_initialized s) (\<lambda>_.
     and_then (require_auth env cl) (\<lambda>_.
     and_then (get_escrow s eid) (\<lambda>escrow.
     if client escrow \<noteq> cl then Err Unauthorized
     else if escrow_status escrow \<noteq> Active then Err InvalidState
     else
       and_then (get_milestone s eid mid) (\<lambda>milestone.
       if milestone_status milestone \<noteq> UnderReview then Err InvalidState
       else Ok ((), set_milestone eid (milestone\<lparr>milestone_status := Approved\<rparr>) s)))))"

definition reject_milestone ::
    "env \<Rightarrow> nat \<Rightarrow> address \<Rightarrow> nat \<Rightarrow> escrow_state \<Rightarrow> (escrow_error, unit \<times> escrow_state) outcome" where
  "reject_milestone env eid cl mid s =
     and_then (ensure_initialized s) (\<lambda>_.
     and_then (require_auth env cl) (\<lambda>_.
     and_then (get_escrow s eid) (\<lambda>escrow.
     if client escrow \<noteq> cl then Err Unauthorized
     else if escrow_status escrow \<noteq> Active then Err InvalidState
     else
       and_then (get_milestone s eid mid) (\<lambda>milestone.
       if milestone_status milestone \<noteq> UnderReview then Err InvalidState
       else Ok ((), set_milestone eid (milestone\<lparr>milestone_status := InProgress\<rparr>) s)))))"

text \<open>\<open>fee_of\<close> is \<open>(amount * bps as i128) / 10_000\<close>.\<close>

definition fee_of :: "int \<Rightarrow> nat \<Rightarrow> (escrow_error, int) outcome" where
  "fee_of amt bps = and_then (i128_mul amt (int bps)) (\<lambda>p. i128_div p 10000)"

definition u32_saturating_sub :: "nat \<Rightarrow> nat \<Rightarrow> nat" where
  "u32_saturating_sub a b = a - b"

definition release_payment ::
    "env \<Rightarrow> nat \<Rightarrow> address \<Rightarrow> nat \<Rightarrow> escrow_state \<Rightarrow> (escrow_error, int \<times> escrow_state) outcome" where
  "release_payment env eid cl mid s =
     and_then (ensure_initialized s) (\<lambda>_.
     and_then (require_auth env cl) (\<lambda>_.
     and_then (get_escrow s eid) (\<lambda>escrow.
     if client escrow \<noteq> cl then Err Unauthorized
     else if escrow_status escrow \<noteq> Active then Err InvalidState
     else
       and_then (get_milestone s eid mid) (\<lambda>milestone.
       if milestone_status milestone \<noteq> Approved then Err InvalidState
       else
         and_then (fee_of (amount milestone) (arbiter_fee_bps escrow)) (\<lambda>fee.
         and_then (i128_sub (amount milestone) fee) (\<lambda>net.
         let s1 = set_milestone eid (milestone\<lparr>milestone_status := Paid\<rparr>) s in
         and_then (i128_add (paid_amount escrow) (amount milestone)) (\<lambda>paid.
         let escrow1 = escrow\<lparr>paid_amount := paid\<rparr> in
         and_then (u32_add mid 1) (\<lambda>next_id.
         let s2 = (if next_id \<le> milestone_count escrow1 then
                     (case get_milestone s1 eid next_id of
                        Ok next \<Rightarrow>
                          if milestone_status next = MPending
                          then set_milestone eid (next\<lparr>milestone_status := InProgress\<rparr>) s1 else s1
                      | _ \<Rightarrow> s1)
                   else s1) in
         and_then
           (if paid_amount escrow1 \<ge> total_amount escrow1 then
              let escrow2 = escrow1\<lparr>escrow_status := Completed\<rparr>;
                  analytics = get_analytics s2 in
              and_then (u32_add (completed_escrows analytics) 1) (\<lambda>n.
              and_then (i128_add (total_paid_out analytics) (total_amount escrow2)) (\<lambda>out.
              Ok (escrow2, set_analytics
                (analytics\<lparr>active_escrows := u32_saturating_sub (active_escrows analytics) 1,
                   completed_escrows := n,
                   total_value_locked := saturating_sub (total_value_locked analytics) (total_amount escrow2),
                   total_paid_out := out\<rparr>) s2)))
            else Ok (escrow1, s2)) (\<lambda>(escrow3, s3).
         Ok (net, set_escrow escrow3 s3))))))))))"

definition raise_dispute ::
    "env \<Rightarrow> nat \<Rightarrow> address \<Rightarrow> escrow_state \<Rightarrow> (escrow_error, unit \<times> escrow_state) outcome" where
  "raise_dispute env eid initiator s =
     and_then (ensure_initialized s) (\<lambda>_.
     and_then (require_auth env initiator) (\<lambda>_.
     and_then (get_escrow s eid) (\<lambda>escrow.
     if client escrow \<noteq> initiator \<and> freelancer escrow \<noteq> initiator then Err Unauthorized
     else if escrow_status escrow \<noteq> Active then Err InvalidState
     else
       let s1 = set_escrow (escrow\<lparr>escrow_status := Disputed\<rparr>) s;
           analytics = get_analytics s1 in
       and_then (u32_add (disputed_escrows analytics) 1) (\<lambda>n.
       Ok ((), set_analytics (analytics\<lparr>disputed_escrows := n,
          active_escrows := u32_saturating_sub (active_escrows analytics) 1\<rparr>) s1)))))"

definition ruling_of :: "nat \<Rightarrow> (escrow_error, Ruling) outcome" where
  "ruling_of n =
     (if n = 0 then Ok FreelancerFavored else if n = 1 then Ok ClientFavored
      else if n = 2 then Ok Split else Err InvalidRuling)"

definition resolve_dispute ::
    "env \<Rightarrow> nat \<Rightarrow> address \<Rightarrow> nat \<Rightarrow> escrow_state \<Rightarrow> (escrow_error, int \<times> escrow_state) outcome" where
  "resolve_dispute env eid ar ruling s =
     and_then (ensure_initialized s) (\<lambda>_.
     and_then (require_auth env ar) (\<lambda>_.
     and_then (get_escrow s eid) (\<lambda>escrow.
     if arbiter escrow \<noteq> ar then Err Unauthorized
     else if escrow_status escrow \<noteq> Disputed then Err InvalidState
     else
       and_then (ruling_of ruling) (\<lambda>ruling_enum.
       and_then (i128_sub (total_amount escrow) (paid_amount escrow)) (\<lambda>remaining.
       and_then (fee_of remaining (arbiter_fee_bps escrow)) (\<lambda>fee.
       and_then
         (case ruling_enum of
            FreelancerFavored \<Rightarrow> i128_sub remaining fee
          | ClientFavored \<Rightarrow> Ok 0
          | Split \<Rightarrow> and_then (i128_sub remaining fee) (\<lambda>x. i128_div x 2)) (\<lambda>payout.
       let s1 = set_escrow (escrow\<lparr>paid_amount := total_amount escrow, escrow_status := Completed\<rparr>) s;
           analytics = get_analytics s1 in
       and_then (u32_add (completed_escrows analytics) 1) (\<lambda>n.
       and_then (i128_add (total_paid_out analytics) remaining) (\<lambda>out.
       Ok (payout, set_analytics (analytics\<lparr>completed_escrows := n,
          total_value_locked := saturating_sub (total_value_locked analytics) remaining,
          total_paid_out := out\<rparr>) s1))))))))))"

definition cancel_escrow ::
    "env \<Rightarrow> nat \<Rightarrow> address \<Rightarrow> escrow_state \<Rightarrow> (escrow_error, unit \<times> escrow_state) outcome" where
  "cancel_escrow env eid cl s =
     and_then (ensure_initialized s) (\<lambda>_.
     and_then (require_auth env cl) (\<lambda>_.
     and_then (get_escrow s eid) (\<lambda>escrow.
     if client escrow \<noteq> cl then Err Unauthorized
     else if escrow_status escrow \<noteq> Pending then Err InvalidState
     else
       let s1 = set_escrow (escrow\<lparr>escrow_status := Cancelled\<rparr>) s;
           analytics = get_analytics s1 in
       and_then (u32_add (cancelled_escrows analytics) 1) (\<lambda>n.
       Ok ((), set_analytics (analytics\<lparr>cancelled_escrows := n\<rparr>) s1)))))"

section \<open>Read-only entry points\<close>

definition pub_get_escrow :: "nat \<Rightarrow> escrow_state \<Rightarrow> (escrow_error, Escrow) outcome" where
  "pub_get_escrow i s = get_escrow s i"
definition pub_get_milestone :: "nat \<Rightarrow> nat \<Rightarrow> escrow_state \<Rightarrow> (escrow_error, Milestone) outcome" where
  "pub_get_milestone i j s = get_milestone s i j"
definition pub_get_analytics :: "escrow_state \<Rightarrow> (escrow_error, Analytics) outcome" where
  "pub_get_analytics s = and_then (ensure_initialized s) (\<lambda>_. Ok (get_analytics s))"
definition pub_get_escrow_count :: "escrow_state \<Rightarrow> nat" where
  "pub_get_escrow_count s = get_escrow_count s"
definition pub_is_initialized :: "escrow_state \<Rightarrow> bool" where
  "pub_is_initialized s = is_initialized s"
definition pub_get_admin :: "escrow_state \<Rightarrow> (escrow_error, address) outcome" where
  "pub_get_admin s = get_admin s"
definition pub_get_atomic_swap :: "nat \<Rightarrow> escrow_state \<Rightarrow> (escrow_error, AtomicSwap) outcome" where
  "pub_get_atomic_swap i s = get_atomic_swap s i"
definition pub_get_atomic_swap_count :: "escrow_state \<Rightarrow> nat" where
  "pub_get_atomic_swap_count s = get_atomic_swap_count s"
definition pub_get_atomic_swap_stats :: "escrow_state \<Rightarrow> (escrow_error, AtomicSwapStats) outcome" where
  "pub_get_atomic_swap_stats s = and_then (ensure_initialized s) (\<lambda>_. Ok (get_atomic_swap_stats s))"

section \<open>Work calls\<close>

text \<open>One successful invocation of the milestone part, which calls no other contract.\<close>

inductive work_call :: "env \<Rightarrow> escrow_state \<Rightarrow> escrow_state \<Rightarrow> bool" for env where
  create: "create_escrow env c f a x ms s = Ok (i, t) \<Longrightarrow> work_call env s t"
| deposit: "deposit env i c s = Ok (u, t) \<Longrightarrow> work_call env s t"
| submit: "submit_milestone env i f j s = Ok (u, t) \<Longrightarrow> work_call env s t"
| approve: "approve_milestone env i c j s = Ok (u, t) \<Longrightarrow> work_call env s t"
| reject: "reject_milestone env i c j s = Ok (u, t) \<Longrightarrow> work_call env s t"
| release: "release_payment env i c j s = Ok (x, t) \<Longrightarrow> work_call env s t"
| dispute: "raise_dispute env i a s = Ok (u, t) \<Longrightarrow> work_call env s t"
| resolve: "resolve_dispute env i a r s = Ok (x, t) \<Longrightarrow> work_call env s t"
| cancel: "cancel_escrow env i c s = Ok (u, t) \<Longrightarrow> work_call env s t"

section \<open>The contract on a ledger\<close>

text \<open>
  The contract at \<open>self\<close> together with the world of tokens. Nobody outside can sign for \<open>self\<close>.
\<close>

inductive escrow_step ::
    "(bytes \<Rightarrow> bytes32) \<Rightarrow> 'w token_transfer \<Rightarrow> ('w \<Rightarrow> 'w \<Rightarrow> bool) \<Rightarrow> address \<Rightarrow>
     'w \<times> escrow_state \<Rightarrow> 'w \<times> escrow_state \<Rightarrow> bool"
  for sha tc out self where
  initialize: "\<not> auth env self \<Longrightarrow> current_contract env = self \<Longrightarrow>
    initialize env a f s = Ok (u, t) \<Longrightarrow> escrow_step sha tc out self (w, s) (w, t)"
| create: "\<not> auth env self \<Longrightarrow> current_contract env = self \<Longrightarrow>
    create_atomic_swap tc env mk tk ot oa rt ra h e ws = Ok (i, wt) \<Longrightarrow> escrow_step sha tc out self ws wt"
| fund: "\<not> auth env self \<Longrightarrow> current_contract env = self \<Longrightarrow>
    fund_atomic_swap tc env i tk ws = Ok (u, wt) \<Longrightarrow> escrow_step sha tc out self ws wt"
| claim: "\<not> auth env self \<Longrightarrow> current_contract env = self \<Longrightarrow>
    claim_atomic_swap sha tc env i pre ws = Ok (u, wt) \<Longrightarrow> escrow_step sha tc out self ws wt"
| refund: "\<not> auth env self \<Longrightarrow> current_contract env = self \<Longrightarrow>
    refund_atomic_swap tc env i ws = Ok (u, wt) \<Longrightarrow> escrow_step sha tc out self ws wt"
| cancel: "\<not> auth env self \<Longrightarrow> current_contract env = self \<Longrightarrow>
    cancel_atomic_swap tc env i mk ws = Ok (u, wt) \<Longrightarrow> escrow_step sha tc out self ws wt"
| work: "\<not> auth env self \<Longrightarrow> current_contract env = self \<Longrightarrow>
    work_call env s t \<Longrightarrow> escrow_step sha tc out self (w, s) (w, t)"
| other: "out w w' \<Longrightarrow> escrow_step sha tc out self (w, s) (w', s)"

end
