(* ===== verification/Escrow_Swap_Correct.thy ===== *)
theory Escrow_Swap_Correct
  imports Token_Correct Freelancer_Escrow
begin

text \<open>
  Correctness of the atomic swaps: the contract's balance in every token covers every leg it holds,
  the aggregate counters count, a funded swap can always be claimed with the preimage before its
  expiry and then moves both legs at once, an open one can always be refunded after it, and a swap
  settles once. The lemmas hold over any token world; the properties are about the repository's token.
\<close>

section \<open>Sums over the stored swaps\<close>

definition swap_sum :: "(AtomicSwap \<Rightarrow> int) \<Rightarrow> escrow_state \<Rightarrow> int" where
  "swap_sum f s = total_bal (\<lambda>i. map_option f (AtomicSwaps s i))"

lemma dom_map_option: "dom (\<lambda>i. map_option f (m i)) = dom m"
  by auto

lemma swap_sum_upd:
  assumes "finite (dom (AtomicSwaps s))" "AtomicSwaps t = (AtomicSwaps s)(i \<mapsto> sw')"
  shows "swap_sum f t = swap_sum f s - (case AtomicSwaps s i of None \<Rightarrow> 0 | Some sw \<Rightarrow> f sw) + f sw'"
proof -
  let ?m = "\<lambda>i. map_option f (AtomicSwaps s i)"
  have "(\<lambda>j. map_option f (AtomicSwaps t j)) = ?m(i \<mapsto> f sw')" by (auto simp: assms(2))
  moreover have "finite (dom ?m)" using assms(1) by (simp add: dom_map_option)
  moreover have "bal ?m i = (case AtomicSwaps s i of None \<Rightarrow> 0 | Some sw \<Rightarrow> f sw)"
    by (simp add: bal_def unwrap_or_def split: option.splits)
  ultimately show ?thesis by (simp add: swap_sum_def del: fun_upd_apply)
qed

lemma swap_sum_nonneg:
  assumes "\<And>i sw. AtomicSwaps s i = Some sw \<Longrightarrow> 0 \<le> f sw"
  shows "0 \<le> swap_sum f s"
  unfolding swap_sum_def
  by (rule total_bal_nonneg) (auto simp: bal_def unwrap_or_def assms split: option.splits)

lemma swap_sum_ge:
  assumes "finite (dom (AtomicSwaps s))" "\<And>i sw. AtomicSwaps s i = Some sw \<Longrightarrow> 0 \<le> f sw"
    "AtomicSwaps s i = Some sw"
  shows "f sw \<le> swap_sum f s"
proof -
  let ?m = "\<lambda>i. map_option f (AtomicSwaps s i)"
  have "bal ?m i \<le> total_bal ?m"
    by (rule bal_le_total)
      (use assms(1,2) in \<open>auto simp: dom_map_option bal_def unwrap_or_def split: option.splits\<close>)
  then show ?thesis using assms(3) by (simp add: swap_sum_def bal_def)
qed

lemma swap_sum_cong: "AtomicSwaps t = AtomicSwaps s \<Longrightarrow> swap_sum f t = swap_sum f s"
  by (simp add: swap_sum_def)

text \<open>What the contract holds of a token for one swap, and for all of them.\<close>

definition held :: "address \<Rightarrow> AtomicSwap \<Rightarrow> int" where
  "held tok sw =
     (if swap_status sw \<in> {AwaitingCounterparty, Funded} \<and> offered_token sw = tok then offered_amount sw else 0) +
     (if swap_status sw = Funded \<and> requested_token sw = tok then requested_amount sw else 0)"

definition in_status :: "AtomicSwapStatus set \<Rightarrow> AtomicSwap \<Rightarrow> int" where
  "in_status S sw = (if swap_status sw \<in> S then 1 else 0)"

section \<open>The invariant\<close>

definition swap_ok :: "(bytes \<Rightarrow> bytes32) \<Rightarrow> address \<Rightarrow> nat \<Rightarrow> AtomicSwap \<Rightarrow> bool" where
  "swap_ok sha self i sw \<longleftrightarrow>
     swap_id sw = i \<and> maker sw \<noteq> self \<and> offered_token sw \<noteq> requested_token sw \<and>
     0 < offered_amount sw \<and> 0 < requested_amount sw \<and>
     (swap_status sw \<in> {Funded, Claimed} \<longrightarrow> taker sw \<noteq> self) \<and>
     (swap_status sw = Claimed \<longrightarrow> (\<exists>pre at. revealed_preimage sw = Some pre \<and> sha pre = hashlock sw \<and>
        settled_at sw = Some at \<and> at < expires_at sw)) \<and>
     (swap_status sw = Refunded \<longrightarrow> (\<exists>at. settled_at sw = Some at \<and> expires_at sw \<le> at))"

definition swaps_ok :: "(bytes \<Rightarrow> bytes32) \<Rightarrow> address \<Rightarrow> escrow_state \<Rightarrow> bool" where
  "swaps_ok sha self s \<longleftrightarrow>
     finite (dom (AtomicSwaps s)) \<and>
     (\<forall>i. AtomicSwaps s i \<noteq> None \<longleftrightarrow> 1 \<le> i \<and> i \<le> get_atomic_swap_count s) \<and>
     (\<forall>i sw. AtomicSwaps s i = Some sw \<longrightarrow> swap_ok sha self i sw)"

definition stats_ok :: "escrow_state \<Rightarrow> bool" where
  "stats_ok s \<longleftrightarrow> (let st = get_atomic_swap_stats s in
     int (st_active st) = swap_sum (in_status {AwaitingCounterparty, Funded}) s \<and>
     int (st_claimed st) = swap_sum (in_status {Claimed}) s \<and>
     int (st_refunded st) = swap_sum (in_status {Refunded}) s \<and>
     int (st_cancelled st) = swap_sum (in_status {SwapCancelled}) s \<and>
     st_total st = st_active st + st_claimed st + st_refunded st + st_cancelled st \<and>
     st_total st = get_atomic_swap_count s \<and> st_total st \<le> u64_max)"

definition swap_inv ::
    "('w \<Rightarrow> address \<Rightarrow> address \<Rightarrow> int) \<Rightarrow> (address \<Rightarrow> 'w \<Rightarrow> bool) \<Rightarrow> (bytes \<Rightarrow> bytes32) \<Rightarrow> address \<Rightarrow>
     'w \<times> escrow_state \<Rightarrow> bool" where
  "swap_inv bof ok sha self ws \<longleftrightarrow>
     swaps_ok sha self (snd ws) \<and> stats_ok (snd ws) \<and> ok self (fst ws) \<and>
     (\<forall>tok. swap_sum (held tok) (snd ws) \<le> bof (fst ws) tok self)"

lemma swap_parts_cong:
  assumes "AtomicSwaps t = AtomicSwaps s" "AtomicSwapCount t = AtomicSwapCount s" "SwapStats t = SwapStats s"
  shows "swaps_ok sha self t = swaps_ok sha self s" "stats_ok t = stats_ok s" "swap_sum f t = swap_sum f s"
  using assms
  by (simp_all add: swaps_ok_def stats_ok_def swap_sum_def get_atomic_swap_count_def get_atomic_swap_stats_def)

lemma swap_held_nonneg: "swap_ok sha self i sw \<Longrightarrow> 0 \<le> held tok sw"
  by (auto simp: held_def swap_ok_def)

lemma swaps_ok_get: "swaps_ok sha self s \<Longrightarrow> AtomicSwaps s i = Some sw \<Longrightarrow> swap_ok sha self i sw"
  by (simp add: swaps_ok_def)

lemma held_le:
  assumes "swaps_ok sha self s" "AtomicSwaps s i = Some sw"
  shows "held tok sw \<le> swap_sum (held tok) s"
  using assms by (intro swap_sum_ge) (auto simp: swaps_ok_def intro: swap_held_nonneg)

section \<open>Success of each operation\<close>

lemma create_Ok:
  assumes "create_atomic_swap tc env mk tk ot oa rt ra h e (w, s) = Ok (i, w', t)"
  shows "is_initialized s \<and> auth env mk \<and> mk \<noteq> tk \<and> ot \<noteq> rt \<and> 0 < oa \<and> 0 < ra \<and>
    timestamp env + 60 \<le> e \<and> e \<le> timestamp env + 2592000 \<and> h \<noteq> 0 \<and> i = get_atomic_swap_count s + 1 \<and>
    st_total (get_atomic_swap_stats s) + 1 \<le> u64_max \<and> i \<le> u64_max \<and>
    tc ot (subcall_env env ot) mk (current_contract env) oa w = Some w' \<and>
    t = s\<lparr>AtomicSwapCount := Some i, AtomicSwaps := (AtomicSwaps s)(i \<mapsto>
          \<lparr>swap_id = i, maker = mk, taker = tk, offered_token = ot, offered_amount = oa,
           requested_token = rt, requested_amount = ra, hashlock = h, expires_at = e,
           swap_status = AwaitingCounterparty, revealed_preimage = None, swap_created_at = timestamp env,
           funded_at = None, settled_at = None\<rparr>),
          SwapStats := Some ((get_atomic_swap_stats s)\<lparr>st_total := st_total (get_atomic_swap_stats s) + 1,
            st_active := st_active (get_atomic_swap_stats s) + 1\<rparr>),
          events := events s @ [Ev_Open i mk tk]\<rparr>"
  using assms
  by (auto simp: create_atomic_swap_def ensure_initialized_def Let_def next_atomic_swap_id_def
      get_atomic_swap_count_def get_atomic_swap_stats_def set_atomic_swap_def set_atomic_swap_stats_def
      publish_def MIN_TIMELOCK_SECONDS_def MAX_TIMELOCK_SECONDS_def not_less)

lemma fund_Ok:
  "fund_atomic_swap tc env i tk (w, s) = Ok (u, w', t) \<longleftrightarrow>
     is_initialized s \<and> auth env tk \<and>
     (\<exists>sw. AtomicSwaps s i = Some sw \<and> taker sw = tk \<and> swap_status sw = AwaitingCounterparty \<and>
       timestamp env < expires_at sw \<and>
       tc (requested_token sw) (subcall_env env (requested_token sw)) tk (current_contract env) (requested_amount sw) w = Some w' \<and>
       t = publish (Ev_Funded i tk) (set_atomic_swap (sw\<lparr>swap_status := Funded, funded_at := Some (timestamp env)\<rparr>) s))"
  by (auto simp: fund_atomic_swap_def ensure_initialized_def Let_def get_atomic_swap_def not_le)

text \<open>The three ways to settle differ in status and counter.\<close>

definition settled :: "AtomicSwapStatus \<Rightarrow> bytes option \<Rightarrow> nat \<Rightarrow> AtomicSwap \<Rightarrow> AtomicSwap" where
  "settled st pre now sw = sw\<lparr>swap_status := st, revealed_preimage := pre, settled_at := Some now\<rparr>"

definition settled_stats :: "AtomicSwapStatus \<Rightarrow> AtomicSwapStats \<Rightarrow> AtomicSwapStats" where
  "settled_stats st x = x\<lparr>st_active := st_active x - 1,
     st_claimed := st_claimed x + (if st = Claimed then 1 else 0),
     st_refunded := st_refunded x + (if st = Refunded then 1 else 0),
     st_cancelled := st_cancelled x + (if st = SwapCancelled then 1 else 0)\<rparr>"

definition settles ::
    "AtomicSwapStatus \<Rightarrow> bytes option \<Rightarrow> nat \<Rightarrow> nat \<Rightarrow> AtomicSwap \<Rightarrow> escrow_state \<Rightarrow> escrow_state \<Rightarrow> bool" where
  "settles st pre now i sw s t \<longleftrightarrow>
     1 \<le> st_active (get_atomic_swap_stats s) \<and>
     AtomicSwaps t = (AtomicSwaps s)(i \<mapsto> settled st pre now sw) \<and>
     AtomicSwapCount t = AtomicSwapCount s \<and>
     SwapStats t = Some (settled_stats st (get_atomic_swap_stats s))"

lemma swap_claim_Ok:
  assumes "claim_atomic_swap sha tc env i pre (w, s) = Ok (u, w', t)" "\<And>sw. AtomicSwaps s i = Some sw \<Longrightarrow> swap_id sw = i"
  shows "\<exists>sw w1. AtomicSwaps s i = Some sw \<and> swap_status sw = Funded \<and> timestamp env < expires_at sw \<and>
    sha pre = hashlock sw \<and> settles Claimed (Some pre) (timestamp env) i sw s t \<and>
    tc (offered_token sw) (subcall_env env (offered_token sw)) (current_contract env) (taker sw) (offered_amount sw) w = Some w1 \<and>
    tc (requested_token sw) (subcall_env env (requested_token sw)) (current_contract env) (maker sw) (requested_amount sw) w1 = Some w'"
  using assms
  by (auto simp: claim_atomic_swap_def ensure_initialized_def Let_def get_atomic_swap_def not_le settles_def
      settled_def settled_stats_def escrow_setters get_atomic_swap_stats_def split: if_splits)

lemma refund_Ok:
  assumes "refund_atomic_swap tc env i (w, s) = Ok (u, w', t)"
    "\<And>sw. AtomicSwaps s i = Some sw \<Longrightarrow> swap_id sw = i"
  shows "\<exists>sw w1. AtomicSwaps s i = Some sw \<and> swap_status sw \<in> {AwaitingCounterparty, Funded} \<and>
    expires_at sw \<le> timestamp env \<and> settles Refunded (revealed_preimage sw) (timestamp env) i sw s t \<and>
    tc (offered_token sw) (subcall_env env (offered_token sw)) (current_contract env) (maker sw) (offered_amount sw) w = Some w1 \<and>
    (if swap_status sw = Funded then
       tc (requested_token sw) (subcall_env env (requested_token sw)) (current_contract env) (taker sw) (requested_amount sw) w1 = Some w'
     else w' = w1)"
  using assms
  by (auto simp: refund_atomic_swap_def ensure_initialized_def Let_def get_atomic_swap_def not_less settles_def
      settled_def settled_stats_def escrow_setters get_atomic_swap_stats_def split: if_splits)

lemma swap_cancel_Ok:
  assumes "cancel_atomic_swap tc env i mk (w, s) = Ok (u, w', t)"
    "\<And>sw. AtomicSwaps s i = Some sw \<Longrightarrow> swap_id sw = i"
  shows "\<exists>sw. AtomicSwaps s i = Some sw \<and> swap_status sw = AwaitingCounterparty \<and> maker sw = mk \<and> auth env mk \<and>
    timestamp env < expires_at sw \<and> settles SwapCancelled (revealed_preimage sw) (timestamp env) i sw s t \<and>
    tc (offered_token sw) (subcall_env env (offered_token sw)) (current_contract env) mk (offered_amount sw) w = Some w'"
  using assms
  by (auto simp: cancel_atomic_swap_def ensure_initialized_def Let_def get_atomic_swap_def not_le settles_def
      settled_def settled_stats_def escrow_setters get_atomic_swap_stats_def split: if_splits)

section \<open>Settling, opening and funding keep the books\<close>

lemma books_settle:
  assumes ok: "swaps_ok sha self s" "stats_ok s" and sw: "AtomicSwaps s i = Some sw"
    "swap_status sw \<in> {AwaitingCounterparty, Funded}"
    and st: "settles st pre now i sw s t" "st \<in> {Claimed, Refunded, SwapCancelled}"
    and post: "swap_ok sha self i (settled st pre now sw)"
  shows "swaps_ok sha self t" "stats_ok t" "swap_sum (held tok) t = swap_sum (held tok) s - held tok sw"
proof -
  let ?x = "get_atomic_swap_stats s"
  have t: "AtomicSwaps t = (AtomicSwaps s)(i \<mapsto> settled st pre now sw)" "1 \<le> st_active ?x"
    "get_atomic_swap_count t = get_atomic_swap_count s" "get_atomic_swap_stats t = settled_stats st ?x"
    using st(1) by (simp_all add: settles_def get_atomic_swap_count_def get_atomic_swap_stats_def)
  have fin: "finite (dom (AtomicSwaps s))" using ok(1) by (simp add: swaps_ok_def)
  have upd: "swap_sum f t = swap_sum f s - f sw + f (settled st pre now sw)" for f
    using swap_sum_upd [OF fin t(1), of f] sw(1) by simp
  show "swap_sum (held tok) t = swap_sum (held tok) s - held tok sw"
    using upd [of "held tok"] st(2) by (auto simp: held_def settled_def)
  show "stats_ok t"
    using ok(2) sw(2) st(2) t(2)
    by (auto simp: stats_ok_def Let_def t(3,4) upd settled_stats_def in_status_def settled_def)
  have "AtomicSwaps t j \<noteq> None \<longleftrightarrow> 1 \<le> j \<and> j \<le> get_atomic_swap_count t" for j
    using ok(1) sw(1) by (auto simp: swaps_ok_def t(1,3))
  moreover have "swap_ok sha self j x" if "AtomicSwaps t j = Some x" for j x
    using that post swaps_ok_get [OF ok(1)] by (auto simp: t(1) split: if_splits)
  moreover have "finite (dom (AtomicSwaps t))" using fin by (simp add: t(1))
  ultimately show "swaps_ok sha self t" unfolding swaps_ok_def by blast
qed

lemma books_fund:
  assumes ok: "swaps_ok sha self s" "stats_ok s" and sw: "AtomicSwaps s i = Some sw"
    "swap_status sw = AwaitingCounterparty" "taker sw \<noteq> self"
    and t: "t = publish ev (set_atomic_swap (sw\<lparr>swap_status := Funded, funded_at := Some now\<rparr>) s)"
  shows "swaps_ok sha self t" "stats_ok t"
    "swap_sum (held tok) t = swap_sum (held tok) s + (if requested_token sw = tok then requested_amount sw else 0)"
proof -
  let ?sw' = "sw\<lparr>swap_status := Funded, funded_at := Some now\<rparr>"
  have so: "swap_ok sha self i sw" using swaps_ok_get [OF ok(1) sw(1)] .
  then have t': "AtomicSwaps t = (AtomicSwaps s)(i \<mapsto> ?sw')"
    "get_atomic_swap_count t = get_atomic_swap_count s" "get_atomic_swap_stats t = get_atomic_swap_stats s"
    by (simp_all add: t swap_ok_def escrow_setters get_atomic_swap_count_def get_atomic_swap_stats_def)
  have fin: "finite (dom (AtomicSwaps s))" using ok(1) by (simp add: swaps_ok_def)
  have upd: "swap_sum f t = swap_sum f s - f sw + f ?sw'" for f
    using swap_sum_upd [OF fin t'(1), of f] sw(1) by simp
  show "swap_sum (held tok) t = swap_sum (held tok) s + (if requested_token sw = tok then requested_amount sw else 0)"
    using upd [of "held tok"] sw(2) by (simp add: held_def)
  show "stats_ok t" using ok(2) sw(2) by (simp add: stats_ok_def Let_def t'(2,3) upd in_status_def)
  have "AtomicSwaps t j \<noteq> None \<longleftrightarrow> 1 \<le> j \<and> j \<le> get_atomic_swap_count t" for j
    using ok(1) sw(1) by (auto simp: swaps_ok_def t'(1,2))
  moreover have "swap_ok sha self i ?sw'" using so sw(3) by (simp add: swap_ok_def)
  then have "swap_ok sha self j x" if "AtomicSwaps t j = Some x" for j x
    using that swaps_ok_get [OF ok(1)] by (auto simp: t'(1) split: if_splits)
  moreover have "finite (dom (AtomicSwaps t))" using fin by (simp add: t'(1))
  ultimately show "swaps_ok sha self t" unfolding swaps_ok_def by blast
qed

lemma books_create:
  assumes ok: "swaps_ok sha self s" "stats_ok s" and i: "i = get_atomic_swap_count s + 1" "i \<le> u64_max"
    and sw: "swap_ok sha self i sw" "swap_status sw = AwaitingCounterparty"
    and t: "t = s\<lparr>AtomicSwapCount := Some i, AtomicSwaps := (AtomicSwaps s)(i \<mapsto> sw),
      SwapStats := Some ((get_atomic_swap_stats s)\<lparr>st_total := st_total (get_atomic_swap_stats s) + 1,
        st_active := st_active (get_atomic_swap_stats s) + 1\<rparr>), events := ev\<rparr>"
  shows "swaps_ok sha self t" "stats_ok t"
    "swap_sum (held tok) t = swap_sum (held tok) s + (if offered_token sw = tok then offered_amount sw else 0)"
proof -
  have t': "AtomicSwaps t = (AtomicSwaps s)(i \<mapsto> sw)" "get_atomic_swap_count t = i"
    "get_atomic_swap_stats t = (get_atomic_swap_stats s)\<lparr>st_total := st_total (get_atomic_swap_stats s) + 1,
        st_active := st_active (get_atomic_swap_stats s) + 1\<rparr>"
    by (simp_all add: t get_atomic_swap_count_def get_atomic_swap_stats_def)
  have fin: "finite (dom (AtomicSwaps s))" using ok(1) by (simp add: swaps_ok_def)
  have dom: "AtomicSwaps s j \<noteq> None \<longleftrightarrow> 1 \<le> j \<and> j \<le> get_atomic_swap_count s" for j
    using ok(1) unfolding swaps_ok_def by blast
  have "AtomicSwaps s i = None" using dom [of i] i(1) by simp
  then have upd: "swap_sum f t = swap_sum f s + f sw" for f
    using swap_sum_upd [OF fin t'(1), of f] by simp
  show "swap_sum (held tok) t = swap_sum (held tok) s + (if offered_token sw = tok then offered_amount sw else 0)"
    using sw(2) by (simp add: upd held_def)
  show "stats_ok t" using ok(2) sw(2) i by (simp add: stats_ok_def Let_def t'(2,3) upd in_status_def)
  have "AtomicSwaps t j \<noteq> None \<longleftrightarrow> 1 \<le> j \<and> j \<le> get_atomic_swap_count t" for j
    using ok(1) i(1) by (auto simp: swaps_ok_def t'(1,2) le_Suc_eq)
  moreover have "swap_ok sha self j x" if "AtomicSwaps t j = Some x" for j x
    using that sw(1) swaps_ok_get [OF ok(1)] by (auto simp: t'(1) split: if_splits)
  moreover have "finite (dom (AtomicSwaps t))" using fin by (simp add: t'(1))
  ultimately show "swaps_ok sha self t" unfolding swaps_ok_def by blast
qed

section \<open>The milestone part never touches the swaps\<close>

lemma store_milestones_frame [simp]:
  "AtomicSwaps (store_milestones e j ms s) = AtomicSwaps s"
  "AtomicSwapCount (store_milestones e j ms s) = AtomicSwapCount s"
  "SwapStats (store_milestones e j ms s) = SwapStats s"
  "Escrows (store_milestones e j ms s) = Escrows s"
  "EscrowCount (store_milestones e j ms s) = EscrowCount s"
  by (induction e j ms s rule: store_milestones.induct) (simp_all add: set_milestone_def)

definition same_swaps :: "escrow_state \<Rightarrow> escrow_state \<Rightarrow> bool" where
  "same_swaps s t \<longleftrightarrow> AtomicSwaps t = AtomicSwaps s \<and> AtomicSwapCount t = AtomicSwapCount s \<and> SwapStats t = SwapStats s"

lemma same_swaps_simps [simp]:
  "same_swaps s s" "same_swaps s (set_escrow e t) = same_swaps s t"
  "same_swaps s (set_milestone i m t) = same_swaps s t" "same_swaps s (set_analytics x t) = same_swaps s t"
  "same_swaps s (store_milestones i j ms t) = same_swaps s t"
  "same_swaps s (t\<lparr>EscrowCount := n\<rparr>) = same_swaps s t"
  by (simp_all add: same_swaps_def escrow_setters)

lemma release_frame:
  assumes "release_payment env i c j s = Ok (x, t)" shows "same_swaps s t"
  using assms
  by (auto simp: release_payment_def Let_def split: if_splits outcome.splits simp del: arith_outcomes)

lemma work_frame: "work_call env s t \<Longrightarrow> same_swaps s t"
proof (induction rule: work_call.induct)
  case (release i c j s x t)
  then show ?case by (rule release_frame)
next
  case (resolve i a r s x t)
  then show ?case
    by (auto simp: resolve_dispute_def Let_def simp del: arith_outcomes)
qed (auto simp: create_escrow_def deposit_def submit_milestone_def approve_milestone_def reject_milestone_def
    raise_dispute_def cancel_escrow_def increment_escrow_count_def Let_def simp del: arith_outcomes split: if_splits)

lemma swap_initialize_frame: "initialize env a f s = Ok (u, t) \<Longrightarrow> same_swaps s t"
  by (auto simp: initialize_def Let_def same_swaps_def escrow_setters split: if_splits)

lemma same_swaps_parts:
  assumes "same_swaps s t"
  shows "swaps_ok sha self t = swaps_ok sha self s" "stats_ok t = stats_ok s" "swap_sum f t = swap_sum f s"
  using assms swap_parts_cong [of t s] by (simp_all add: same_swaps_def)

section \<open>Every step keeps the invariant\<close>

context token_host
begin

lemma swap_step_inv:
  assumes "escrow_step sha transfer_call (outside self) self ws wt" "swap_inv balance_of world_ok sha self ws"
  shows "swap_inv balance_of world_ok sha self wt"
  using assms
proof (induction rule: escrow_step.induct)
  case (initialize env a f s u t w)
  then show ?case
    using same_swaps_parts [OF swap_initialize_frame [OF initialize.hyps(3)]] by (simp add: swap_inv_def)
next
  case (create env mk tk ot oa rt ra h e ws i wt)
  obtain w s w' t where ws: "ws = (w, s)" "wt = (w', t)" by (cases ws, cases wt)
  have inv: "swaps_ok sha self s" "stats_ok s" using create.prems by (simp_all add: swap_inv_def ws)
  note ok = create_Ok [OF create.hyps(3) [unfolded ws]]
  then have c: "transfer_call ot (subcall_env env ot) mk self oa w = Some w'" using create.hyps(2) by simp
  have mk: "mk \<noteq> self" using ok create.hyps(1) by auto
  define sw where "sw = \<lparr>swap_id = i, maker = mk, taker = tk, offered_token = ot, offered_amount = oa,
           requested_token = rt, requested_amount = ra, hashlock = h, expires_at = e,
           swap_status = AwaitingCounterparty, revealed_preimage = None, swap_created_at = timestamp env,
           funded_at = None, settled_at = None\<rparr>"
  have sw: "swap_ok sha self i sw" "swap_status sw = AwaitingCounterparty" "offered_token sw = ot"
      "offered_amount sw = oa"
    using ok mk by (simp_all add: swap_ok_def sw_def)
  have t: "t = s\<lparr>AtomicSwapCount := Some i, AtomicSwaps := (AtomicSwaps s)(i \<mapsto> sw),
      SwapStats := Some ((get_atomic_swap_stats s)\<lparr>st_total := st_total (get_atomic_swap_stats s) + 1,
        st_active := st_active (get_atomic_swap_stats s) + 1\<rparr>), events := events s @ [Ev_Open i mk tk]\<rparr>"
    using ok unfolding sw_def by blast
  have "i = get_atomic_swap_count s + 1" "i \<le> u64_max" using ok by simp_all
  note b = books_create [OF inv this sw(1,2) t]
  show ?case
    using b create.prems transfer_keeps_ok [OF _ c, of self] leg_in [OF c mk]
    by (simp add: swap_inv_def ws sw)
next
  case (fund env i tk ws u wt)
  obtain w s w' t where ws: "ws = (w, s)" "wt = (w', t)" by (cases ws, cases wt)
  have inv: "swaps_ok sha self s" "stats_ok s" using fund.prems by (simp_all add: swap_inv_def ws)
  obtain sw where sw: "AtomicSwaps s i = Some sw" "taker sw = tk" "swap_status sw = AwaitingCounterparty" "auth env tk"
      and c: "transfer_call (requested_token sw) (subcall_env env (requested_token sw)) tk self (requested_amount sw) w = Some w'"
      and t: "t = publish (Ev_Funded i tk) (set_atomic_swap (sw\<lparr>swap_status := Funded, funded_at := Some (timestamp env)\<rparr>) s)"
    using fund.hyps(2,3) by (auto simp: ws fund_Ok)
  have tk: "tk \<noteq> self" using sw(4) fund.hyps(1) by auto
  note b = books_fund [OF inv sw(1,3) _ t]
  show ?case
    using b sw(2) tk fund.prems transfer_keeps_ok [OF _ c, of self] leg_in [OF c tk]
    by (simp add: swap_inv_def ws)
next
  case (claim env i pre ws u wt)
  obtain w s w' t where ws: "ws = (w, s)" "wt = (w', t)" by (cases ws, cases wt)
  have inv: "swaps_ok sha self s" "stats_ok s" using claim.prems by (simp_all add: swap_inv_def ws)
  have ids: "AtomicSwaps s i = Some sw \<Longrightarrow> swap_id sw = i" for sw
    using swaps_ok_get [OF inv(1)] by (simp add: swap_ok_def)
  obtain sw w1 where sw: "AtomicSwaps s i = Some sw" "swap_status sw = Funded" "timestamp env < expires_at sw"
      "sha pre = hashlock sw" "settles Claimed (Some pre) (timestamp env) i sw s t"
    and c: "transfer_call (offered_token sw) (subcall_env env (offered_token sw)) self (taker sw) (offered_amount sw) w = Some w1"
      "transfer_call (requested_token sw) (subcall_env env (requested_token sw)) self (maker sw) (requested_amount sw) w1 = Some w'"
    using swap_claim_Ok [OF claim.hyps(3) [unfolded ws] ids] claim.hyps(2) by blast
  have so: "swap_ok sha self i sw" by (rule swaps_ok_get [OF inv(1) sw(1)])
  then have n: "taker sw \<noteq> self" "maker sw \<noteq> self" using sw(2) by (simp_all add: swap_ok_def)
  have "swap_ok sha self i (settled Claimed (Some pre) (timestamp env) sw)"
    using so sw by (simp add: swap_ok_def settled_def)
  note b = books_settle [OF inv sw(1) _ sw(5) _ this]
  show ?case
    using b sw(2) claim.prems transfer_keeps_ok [OF transfer_keeps_ok [OF _ c(1)] c(2), of self]
      leg_out [OF c(1) n(1)] leg_out [OF c(2) n(2)]
    by (simp add: swap_inv_def ws held_def)
next
  case (refund env i ws u wt)
  obtain w s w' t where ws: "ws = (w, s)" "wt = (w', t)" by (cases ws, cases wt)
  have inv: "swaps_ok sha self s" "stats_ok s" using refund.prems by (simp_all add: swap_inv_def ws)
  have ids: "AtomicSwaps s i = Some sw \<Longrightarrow> swap_id sw = i" for sw
    using swaps_ok_get [OF inv(1)] by (simp add: swap_ok_def)
  obtain sw w1 where sw: "AtomicSwaps s i = Some sw" "swap_status sw \<in> {AwaitingCounterparty, Funded}"
      "expires_at sw \<le> timestamp env" "settles Refunded (revealed_preimage sw) (timestamp env) i sw s t"
    and c: "transfer_call (offered_token sw) (subcall_env env (offered_token sw)) self (maker sw) (offered_amount sw) w = Some w1"
    and c2: "if swap_status sw = Funded then transfer_call (requested_token sw) (subcall_env env (requested_token sw))
        self (taker sw) (requested_amount sw) w1 = Some w' else w' = w1"
    using refund_Ok [OF refund.hyps(3) [unfolded ws] ids] refund.hyps(2) by blast
  have so: "swap_ok sha self i sw" by (rule swaps_ok_get [OF inv(1) sw(1)])
  then have n: "maker sw \<noteq> self" "swap_status sw = Funded \<Longrightarrow> taker sw \<noteq> self" by (simp_all add: swap_ok_def)
  have "swap_ok sha self i (settled Refunded (revealed_preimage sw) (timestamp env) sw)"
    using so sw(3) by (simp add: swap_ok_def settled_def)
  note b = books_settle [OF inv sw(1,2,4) _ this]
  have ok1: "world_ok self w1" using refund.prems transfer_keeps_ok [OF _ c, of self] by (simp add: swap_inv_def ws)
  have "world_ok self w' \<and> (\<forall>k. balance_of w' k self = balance_of w k self - held k sw)"
  proof (cases "swap_status sw = Funded")
    case True
    then have "transfer_call (requested_token sw) (subcall_env env (requested_token sw)) self (taker sw) (requested_amount sw) w1 = Some w'"
      using c2 by simp
    then show ?thesis
      using leg_out [OF c n(1)] leg_out [OF _ n(2) [OF True], of "requested_token sw"] transfer_keeps_ok [OF ok1] True
      by (simp add: held_def)
  next
    case False
    then show ?thesis using leg_out [OF c n(1)] ok1 c2 sw(2) by (simp add: held_def)
  qed
  then show ?case using b refund.prems by (simp add: swap_inv_def ws)
next
  case (cancel env i mk ws u wt)
  obtain w s w' t where ws: "ws = (w, s)" "wt = (w', t)" by (cases ws, cases wt)
  have inv: "swaps_ok sha self s" "stats_ok s" using cancel.prems by (simp_all add: swap_inv_def ws)
  have ids: "AtomicSwaps s i = Some sw \<Longrightarrow> swap_id sw = i" for sw
    using swaps_ok_get [OF inv(1)] by (simp add: swap_ok_def)
  obtain sw where sw: "AtomicSwaps s i = Some sw" "swap_status sw = AwaitingCounterparty" "maker sw = mk" "auth env mk"
      "settles SwapCancelled (revealed_preimage sw) (timestamp env) i sw s t"
    and c: "transfer_call (offered_token sw) (subcall_env env (offered_token sw)) self mk (offered_amount sw) w = Some w'"
    using swap_cancel_Ok [OF cancel.hyps(3) [unfolded ws] ids] cancel.hyps(2) by blast
  have mk: "mk \<noteq> self" using sw(4) cancel.hyps(1) by auto
  have so: "swap_ok sha self i sw" by (rule swaps_ok_get [OF inv(1) sw(1)])
  then have "swap_ok sha self i (settled SwapCancelled (revealed_preimage sw) (timestamp env) sw)"
    by (simp add: swap_ok_def settled_def)
  note b = books_settle [OF inv sw(1) _ sw(5) _ this]
  show ?case
    using b sw(2) cancel.prems transfer_keeps_ok [OF _ c, of self] leg_out [OF c mk]
    by (simp add: swap_inv_def ws held_def)
next
  case (work env s t w)
  then show ?case
    using same_swaps_parts [OF work_frame [OF work.hyps(3)]] by (simp add: swap_inv_def)
next
  case (other w w' s)
  then show ?case
    using outside_ok [of self w w'] outside_keeps [of self w w']
    by (auto simp: swap_inv_def intro: order_trans)
qed

end

section \<open>Runs\<close>

definition swap_terms :: "AtomicSwap \<Rightarrow> AtomicSwap \<Rightarrow> bool" where
  "swap_terms sw sw' \<longleftrightarrow>
     maker sw' = maker sw \<and> taker sw' = taker sw \<and> offered_token sw' = offered_token sw \<and>
     offered_amount sw' = offered_amount sw \<and> requested_token sw' = requested_token sw \<and>
     requested_amount sw' = requested_amount sw \<and> hashlock sw' = hashlock sw \<and> expires_at sw' = expires_at sw"

definition swap_open :: "AtomicSwap \<Rightarrow> bool" where
  "swap_open sw \<longleftrightarrow> swap_status sw = AwaitingCounterparty \<or> swap_status sw = Funded"

definition swap_evolves :: "AtomicSwap \<Rightarrow> AtomicSwap \<Rightarrow> bool" where
  "swap_evolves sw sw' \<longleftrightarrow> swap_terms sw sw' \<and> (\<not> swap_open sw \<longrightarrow> sw' = sw)"

lemma swap_evolves_refl: "swap_evolves sw sw"
  by (simp add: swap_evolves_def swap_terms_def)

lemma swap_evolves_trans: "swap_evolves x y \<Longrightarrow> swap_evolves y z \<Longrightarrow> swap_evolves x z"
  by (auto simp: swap_evolves_def swap_terms_def)

lemma settles_evolves:
  "settles st pre now i sw s t \<Longrightarrow> AtomicSwaps s i = Some sw \<Longrightarrow> swap_open sw \<Longrightarrow> AtomicSwaps s j = Some x \<Longrightarrow>
   \<exists>x'. AtomicSwaps t j = Some x' \<and> swap_evolves x x'"
  by (cases "i = j")
    (auto simp: settles_def swap_evolves_def settled_def swap_terms_def)

lemma swap_step_evolves:
  assumes "escrow_step sha tc out self ws wt" "swaps_ok sha self (snd ws)" "AtomicSwaps (snd ws) j = Some x"
  shows "\<exists>x'. AtomicSwaps (snd wt) j = Some x' \<and> swap_evolves x x'"
proof -
  have ids: "AtomicSwaps (snd ws) i = Some sw \<Longrightarrow> swap_id sw = i" for i sw
    using swaps_ok_get [OF assms(2)] by (simp add: swap_ok_def)
  have pair: "ws = (fst ws, snd ws)" "wt = (fst wt, snd wt)" by simp_all
  have dom: "AtomicSwaps (snd ws) i \<noteq> None \<longleftrightarrow> 1 \<le> i \<and> i \<le> get_atomic_swap_count (snd ws)" for i
    using assms(2) unfolding swaps_ok_def by blast
  have fresh: "AtomicSwaps (snd ws) i = Some y \<Longrightarrow> i \<noteq> get_atomic_swap_count (snd ws) + 1" for i y
    using dom [of i] by auto
  from assms(1) show ?thesis
  proof cases
    case (initialize env a f s u t w)
    then show ?thesis using assms(3) swap_initialize_frame [of env a f s u t] by (auto simp: same_swaps_def swap_evolves_refl)
  next
    case (create env mk tk ot oa rt ra h e i)
    then show ?thesis
      using create_Ok [of tc env mk tk ot oa rt ra h e "fst ws" "snd ws" i "fst wt" "snd wt"] assms(3) fresh [of j x]
      by (simp add: swap_evolves_refl)
  next
    case (fund env i tk u)
    then obtain sw where "AtomicSwaps (snd ws) i = Some sw" "swap_status sw = AwaitingCounterparty"
        "snd wt = publish (Ev_Funded i tk) (set_atomic_swap (sw\<lparr>swap_status := Funded, funded_at := Some (timestamp env)\<rparr>) (snd ws))"
      using fund_Ok [of tc env i tk "fst ws" "snd ws" u "fst wt" "snd wt"] by auto
    then show ?thesis
      using assms(3) ids [of i sw]
      by (auto simp: escrow_setters swap_evolves_def swap_terms_def swap_open_def)
  next
    case (claim env i pre u)
    then have "claim_atomic_swap sha tc env i pre (fst ws, snd ws) = Ok (u, fst wt, snd wt)" by simp
    from swap_claim_Ok [OF this ids] show ?thesis
      using settles_evolves assms(3) by (auto simp: swap_open_def)
  next
    case (refund env i u)
    then have "refund_atomic_swap tc env i (fst ws, snd ws) = Ok (u, fst wt, snd wt)" by simp
    from refund_Ok [OF this ids] show ?thesis
      using settles_evolves assms(3) by (auto simp: swap_open_def)
  next
    case (cancel env i mk u)
    then have "cancel_atomic_swap tc env i mk (fst ws, snd ws) = Ok (u, fst wt, snd wt)" by simp
    from swap_cancel_Ok [OF this ids] show ?thesis
      using settles_evolves assms(3) by (auto simp: swap_open_def)
  next
    case (work env s t w)
    then show ?thesis using assms(3) work_frame [of env s t] by (auto simp: same_swaps_def swap_evolves_refl)
  next
    case (other w w' s)
    then show ?thesis using assms(3) by (simp add: swap_evolves_refl)
  qed
qed

lemma swap_inv_empty: "ok self w \<Longrightarrow> (\<And>tok. 0 \<le> bof w tok self) \<Longrightarrow> swap_inv bof ok sha self (w, empty_escrow)"
  by (simp add: swap_inv_def swaps_ok_def stats_ok_def swap_sum_def empty_escrow_def get_atomic_swap_count_def
      get_atomic_swap_stats_def u64_max_def)

context token_host
begin

lemma swap_run_keeps:
  assumes "(escrow_step sha transfer_call (outside self) self)\<^sup>*\<^sup>* ws wt" "swap_inv balance_of world_ok sha self ws"
  shows "swap_inv balance_of world_ok sha self wt"
  using assms by (induction rule: rtranclp_induct) (auto intro: swap_step_inv)

lemma swap_run_inv:
  assumes "(escrow_step sha transfer_call (outside self) self)\<^sup>*\<^sup>* (w, empty_escrow) ws" "world_ok self w"
  shows "swap_inv balance_of world_ok sha self ws"
  using assms by (intro swap_run_keeps [OF assms(1)] swap_inv_empty own_balance_nonneg)

lemma swap_run_evolves:
  assumes "(escrow_step sha transfer_call (outside self) self)\<^sup>*\<^sup>* ws wt" "swap_inv balance_of world_ok sha self ws"
    "AtomicSwaps (snd ws) j = Some x"
  shows "\<exists>x'. AtomicSwaps (snd wt) j = Some x' \<and> swap_evolves x x'"
  using assms
proof (induction rule: rtranclp_induct)
  case base
  then show ?case by (auto simp: swap_evolves_refl)
next
  case (step u v)
  then obtain y where y: "AtomicSwaps (snd u) j = Some y" "swap_evolves x y" by auto
  have "swaps_ok sha self (snd u)"
    using swap_run_keeps [OF step.hyps(1) step.prems(1)] by (simp add: swap_inv_def)
  from swap_step_evolves [OF step.hyps(2) this y(1)] show ?case using swap_evolves_trans [OF y(2)] by blast
qed

end

section \<open>An open swap can always be settled\<close>

lemma init_simps [simp]:
  "is_initialized (set_escrow e s) = is_initialized s" "is_initialized (set_milestone i m s) = is_initialized s"
  "is_initialized (set_analytics x s) = is_initialized s" "is_initialized (set_atomic_swap sw s) = is_initialized s"
  "is_initialized (set_atomic_swap_stats x' s) = is_initialized s" "is_initialized (publish ev s) = is_initialized s"
  "is_initialized (s\<lparr>EscrowCount := n\<rparr>) = is_initialized s"
  "is_initialized (s\<lparr>AtomicSwapCount := n\<rparr>) = is_initialized s"
  by (simp_all add: is_initialized_def escrow_setters)

lemma init_store [simp]: "is_initialized (store_milestones i j ms s) = is_initialized s"
  by (induction i j ms s rule: store_milestones.induct) simp_all

lemma release_init: "release_payment env i c j s = Ok (x, t) \<Longrightarrow> is_initialized t"
  by (auto simp: release_payment_def ensure_initialized_def Let_def split: if_splits outcome.splits
      simp del: arith_outcomes)

lemma work_init: "work_call env s t \<Longrightarrow> is_initialized t"
proof (induction rule: work_call.induct)
  case (release i c j s x t)
  then show ?case by (rule release_init)
next
  case (resolve i a r s x t)
  then show ?case by (auto simp: resolve_dispute_def ensure_initialized_def Let_def simp del: arith_outcomes)
qed (auto simp: create_escrow_def deposit_def submit_milestone_def approve_milestone_def reject_milestone_def
    raise_dispute_def cancel_escrow_def increment_escrow_count_def ensure_initialized_def Let_def
    simp del: arith_outcomes split: if_splits)

lemma step_initialized:
  assumes "escrow_step sha tc out self ws wt"
  shows "is_initialized (snd wt) \<or> snd wt = snd ws"
  using assms
proof (induction rule: escrow_step.induct)
  case (initialize env a f s u t w)
  then show ?case by (auto simp: initialize_def Let_def escrow_setters is_initialized_def split: if_splits)
next
  case (work env s t w)
  then show ?case by (simp add: work_init)
qed (auto simp: create_atomic_swap_def fund_atomic_swap_def claim_atomic_swap_def refund_atomic_swap_def
    cancel_atomic_swap_def ensure_initialized_def next_atomic_swap_id_def Let_def
    simp del: arith_outcomes split: prod.splits if_splits)

lemma run_initialized:
  "(escrow_step sha tc out self)\<^sup>*\<^sup>* (w, empty_escrow) ws \<Longrightarrow>
   is_initialized (snd ws) \<or> AtomicSwaps (snd ws) = Map.empty"
  by (induction rule: rtranclp_induct)
    (auto simp: empty_escrow_def dest: step_initialized)

text \<open>The counters leave room for one more settlement.\<close>

lemma stats_room:
  assumes "swaps_ok sha self s" "stats_ok s" "AtomicSwaps s i = Some sw" "swap_open sw"
  shows "1 \<le> st_active (get_atomic_swap_stats s)"
    "st_claimed (get_atomic_swap_stats s) + 1 \<le> u64_max"
    "st_refunded (get_atomic_swap_stats s) + 1 \<le> u64_max"
proof -
  have "finite (dom (AtomicSwaps s))" using assms(1) by (simp add: swaps_ok_def)
  then have "in_status {AwaitingCounterparty, Funded} sw \<le> swap_sum (in_status {AwaitingCounterparty, Funded}) s"
    by (intro swap_sum_ge [OF _ _ assms(3)]) (simp_all add: in_status_def)
  then have "1 \<le> int (st_active (get_atomic_swap_stats s))"
    using assms(2,4) by (auto simp: stats_ok_def Let_def in_status_def swap_open_def)
  then show "1 \<le> st_active (get_atomic_swap_stats s)" by simp
  then show "st_claimed (get_atomic_swap_stats s) + 1 \<le> u64_max"
    "st_refunded (get_atomic_swap_stats s) + 1 \<le> u64_max"
    using assms(2) by (simp_all add: stats_ok_def Let_def)
qed

text \<open>Two legs out of the contract, in different tokens, on the repository's token.\<close>

lemma two_legs_out:
  assumes ok: "world_ok self w" and a: "0 < x" "x \<le> world_balance w ta self" and b: "0 < y" "y \<le> world_balance w tb self"
    and ne: "ta \<noteq> tb" and au: "auth env self" "auth env' self" and other: "a \<noteq> self" "b \<noteq> self"
  shows "\<exists>w1 w2. world_transfer ta env self a x w = Some w1 \<and> world_transfer tb env' self b y w1 = Some w2 \<and>
    world_balance w2 ta a = world_balance w ta a + x \<and> world_balance w2 tb b = world_balance w tb b + y"
proof -
  obtain w1 where w1: "world_transfer ta env self a x w = Some w1"
    using world_transfer_succeeds [OF ok a au(1)] by blast
  have same: "world_balance w1 tb c = world_balance w tb c" for c
    using repo_token.transfer_frame [OF w1] ne by simp
  have "world_ok self w1" by (rule repo_host.transfer_keeps_ok [OF ok w1])
  then obtain w2 where w2: "world_transfer tb env' self b y w1 = Some w2"
    using world_transfer_succeeds [of self w1 y tb env' b] b same au(2) by auto
  have "world_balance w2 ta a = world_balance w1 ta a"
    using repo_token.transfer_frame [OF w2 ne] by simp
  then show ?thesis
    using w1 w2 repo_token.deposit_effect(1) [OF w1] repo_token.deposit_effect(1) [OF w2] other same by auto
qed

section \<open>A concrete run\<close>

text \<open>On the concrete ledger, with a sum as the hash.\<close>

definition demo_sha :: "bytes \<Rightarrow> bytes32" where
  "demo_sha b = sum_list b + 1"

definition swap_world_funded :: token_world where
  "swap_world_funded = demo_ledger_open(41 := demo_token4\<lparr>Balance := [5 \<mapsto> 800, 8 \<mapsto> 150, 99 \<mapsto> 50],
     token_state.events := [Ev_Mint 5 1000, Ev_Approve 5 7 300 50, Ev_Transfer 5 8 200, Ev_Transfer 8 99 50]\<rparr>)"

definition demo_swap :: AtomicSwap where
  "demo_swap = \<lparr>swap_id = 1, maker = 5, taker = 8, offered_token = 40, offered_amount = 600,
     requested_token = 41, requested_amount = 50, hashlock = 7, expires_at = 500,
     swap_status = AwaitingCounterparty, revealed_preimage = None, swap_created_at = 10,
     funded_at = None, settled_at = None\<rparr>"

definition demo_escrow :: escrow_state where
  "demo_escrow = empty_escrow\<lparr>Admin := Some 1, ArbiterFeeBps := Some 200, Initialized := Some True,
     AnalyticsEntry := Some \<lparr>total_escrows = 0, active_escrows = 0, completed_escrows = 0,
       disputed_escrows = 0, cancelled_escrows = 0, total_value_locked = 0, total_paid_out = 0\<rparr>\<rparr>"

definition demo_escrow_open :: escrow_state where
  "demo_escrow_open = demo_escrow\<lparr>AtomicSwapCount := Some 1, AtomicSwaps := [1 \<mapsto> demo_swap],
     SwapStats := Some \<lparr>st_total = 1, st_active = 1, st_claimed = 0, st_refunded = 0, st_cancelled = 0\<rparr>,
     events := [Ev_Open 1 5 8]\<rparr>"

definition demo_escrow_funded :: escrow_state where
  "demo_escrow_funded = demo_escrow_open\<lparr>
     AtomicSwaps := [1 \<mapsto> demo_swap\<lparr>swap_status := Funded, funded_at := Some 20\<rparr>],
     events := [Ev_Open 1 5 8, Ev_Funded 1 8]\<rparr>"

lemmas demo_escrows = demo_escrow_def demo_escrow_open_def demo_escrow_funded_def demo_swap_def empty_escrow_def

lemma demo_escrow_initialize: "initialize (host_env 1) 1 200 empty_escrow = Ok ((), demo_escrow)"
  by (simp add: initialize_def is_initialized_def escrow_setters demo_escrows require_auth_def Let_def)

lemma demo_leg:
  "world_transfer 41 (subcall_env (host_env 20) 41) 8 99 50 demo_ledger_open = Some swap_world_funded"
  by (auto simp: world_transfer_Some transfer_Ok move_balance_Ok swap_world_funded_def demo_ledger_defs demo_tokens
      Token_Contract.is_initialized_def balance_def get_balance_def moved_def Let_def in_i128_def i128_max_def
      i128_min_def fun_upd_twist)

lemma demo_create:
  "create_atomic_swap world_transfer (host_env 10) 5 8 40 600 41 50 7 500 (demo_ledger, demo_escrow) =
     Ok (1, demo_ledger_open, demo_escrow_open)"
  using demo_ledger_deposit
  by (simp add: create_atomic_swap_def ensure_initialized_def is_initialized_def next_atomic_swap_id_def
      get_atomic_swap_stats_def set_atomic_swap_def set_atomic_swap_stats_def publish_def demo_escrows
      require_auth_def u64_checked_add_def u64_max_def MIN_TIMELOCK_SECONDS_def MAX_TIMELOCK_SECONDS_def Let_def)

lemma demo_fund:
  "fund_atomic_swap world_transfer (host_env 20) 1 8 (demo_ledger_open, demo_escrow_open) =
     Ok ((), swap_world_funded, demo_escrow_funded)"
  using demo_leg
  by (simp add: fund_Ok) (simp add: demo_escrows is_initialized_def escrow_setters)

abbreviation repo_escrow_step ::
    "(bytes \<Rightarrow> bytes32) \<Rightarrow> address \<Rightarrow> token_world \<times> escrow_state \<Rightarrow> token_world \<times> escrow_state \<Rightarrow> bool" where
  "repo_escrow_step sha self \<equiv> escrow_step sha world_transfer (world_outside self) self"

lemma demo_escrow_run: "(repo_escrow_step demo_sha 99)\<^sup>*\<^sup>* (demo_ledger, empty_escrow) (swap_world_funded, demo_escrow_funded)"
proof -
  have 1: "repo_escrow_step demo_sha 99 (demo_ledger, empty_escrow) (demo_ledger, demo_escrow)"
    by (rule escrow_step.initialize [OF _ _ demo_escrow_initialize]) simp_all
  have 2: "repo_escrow_step demo_sha 99 (demo_ledger, demo_escrow) (demo_ledger_open, demo_escrow_open)"
    by (rule escrow_step.create [OF _ _ demo_create]) simp_all
  have 3: "repo_escrow_step demo_sha 99 (demo_ledger_open, demo_escrow_open) (swap_world_funded, demo_escrow_funded)"
    by (rule escrow_step.fund [OF _ _ demo_fund]) simp_all
  show ?thesis using 1 2 3 by (meson rtranclp.rtrancl_refl rtranclp.rtrancl_into_rtrancl)
qed

section \<open>Properties\<close>

text \<open>
  C1. Whatever happens on the ledger without its signature, the escrow contract holds, in every
  token, at least the sum of all legs locked in open swaps; and its counters are exact: the total is
  the number of swaps ever opened and splits into active, claimed, refunded and cancelled ones.
\<close>

theorem swap_legs_covered:
  assumes "(repo_escrow_step sha self)\<^sup>*\<^sup>* (w0, empty_escrow) (w, s)" "world_ok self w0"
  shows "swap_sum (held tok) s \<le> world_balance w tok self \<and> 0 \<le> swap_sum (held tok) s \<and>
    (let st = get_atomic_swap_stats s in
      st_total st = get_atomic_swap_count s \<and>
      st_total st = st_active st + st_claimed st + st_refunded st + st_cancelled st \<and>
      int (st_active st) = swap_sum (in_status {AwaitingCounterparty, Funded}) s \<and>
      int (st_claimed st) = swap_sum (in_status {Claimed}) s)"
proof -
  have inv: "swap_inv world_balance world_ok sha self (w, s)"
    by (rule repo_host.swap_run_inv [OF assms])
  then have "0 \<le> swap_sum (held tok) s"
    by (intro swap_sum_nonneg) (auto simp: swap_inv_def swaps_ok_def intro: swap_held_nonneg)
  then show ?thesis using inv by (simp add: swap_inv_def stats_ok_def Let_def)
qed

theorem swap_legs_covered_witness:
  "swap_sum (held 40) demo_escrow_funded \<le> world_balance swap_world_funded 40 99 \<and>
    0 \<le> swap_sum (held 40) demo_escrow_funded \<and>
    (let st = get_atomic_swap_stats demo_escrow_funded in
      st_total st = get_atomic_swap_count demo_escrow_funded \<and>
      st_total st = st_active st + st_claimed st + st_refunded st + st_cancelled st \<and>
      int (st_active st) = swap_sum (in_status {AwaitingCounterparty, Funded}) demo_escrow_funded \<and>
      int (st_claimed st) = swap_sum (in_status {Claimed}) demo_escrow_funded)"
  by (rule swap_legs_covered [OF demo_escrow_run demo_ledger_ok])

text \<open>
  A funded swap can always be claimed: before expiry, anyone who knows a preimage of the hash
  lock can claim, without any signature; the claim cannot fail, pays the whole offered amount to the
  taker and the whole requested amount to the maker in the same call, and publishes the preimage.
\<close>

theorem swap_claim_exchanges_both_legs:
  assumes "(repo_escrow_step sha self)\<^sup>*\<^sup>* (w0, empty_escrow) (w, s)" "world_ok self w0"
    "get_atomic_swap s i = Ok sw" "swap_status sw = Funded" "timestamp env < expires_at sw"
    "sha pre = hashlock sw" "pre \<noteq> []" "length pre \<le> MAX_PREIMAGE_BYTES" "current_contract env = self"
  shows "\<exists>w' t sw'. claim_atomic_swap sha world_transfer env i pre (w, s) = Ok ((), w', t) \<and>
    world_balance w' (offered_token sw) (taker sw) = world_balance w (offered_token sw) (taker sw) + offered_amount sw \<and>
    world_balance w' (requested_token sw) (maker sw) = world_balance w (requested_token sw) (maker sw) + requested_amount sw \<and>
    get_atomic_swap t i = Ok sw' \<and> swap_status sw' = Claimed \<and> revealed_preimage sw' = Some pre"
proof -
  have inv: "swap_inv world_balance world_ok sha self (w, s)" by (rule repo_host.swap_run_inv [OF assms(1,2)])
  then have ok: "swaps_ok sha self s" "stats_ok s" "world_ok self w" by (simp_all add: swap_inv_def)
  have sw: "AtomicSwaps s i = Some sw" using assms(3) by (simp add: get_atomic_swap_def)
  have init: "is_initialized s" using run_initialized [OF assms(1)] sw by auto
  have so: "swap_ok sha self i sw" by (rule swaps_ok_get [OF ok(1) sw])
  note room = stats_room [OF ok(1,2) sw] 
  have bal: "held k sw \<le> world_balance w k self" for k
    using held_le [OF ok(1) sw, of k] inv by (auto simp: swap_inv_def intro: order_trans)
  have ob: "offered_amount sw \<le> world_balance w (offered_token sw) self"
    "requested_amount sw \<le> world_balance w (requested_token sw) self"
    using bal [of "offered_token sw"] bal [of "requested_token sw"] so assms(4) by (auto simp: held_def swap_ok_def)
  have so': "0 < offered_amount sw" "0 < requested_amount sw" "offered_token sw \<noteq> requested_token sw"
    "taker sw \<noteq> self" "maker sw \<noteq> self" "swap_id sw = i"
    using so assms(4) by (simp_all add: swap_ok_def)
  obtain w1 w2 where legs: "world_transfer (offered_token sw) (subcall_env env (offered_token sw)) self (taker sw) (offered_amount sw) w = Some w1"
      "world_transfer (requested_token sw) (subcall_env env (requested_token sw)) self (maker sw) (requested_amount sw) w1 = Some w2"
    and paid: "world_balance w2 (offered_token sw) (taker sw) = world_balance w (offered_token sw) (taker sw) + offered_amount sw"
      "world_balance w2 (requested_token sw) (maker sw) = world_balance w (requested_token sw) (maker sw) + requested_amount sw"
    using two_legs_out [OF ok(3) so'(1) ob(1) so'(2) ob(2) so'(3) _ _ so'(4,5), of
        "subcall_env env (offered_token sw)" "subcall_env env (requested_token sw)"] assms(9) by auto
  have op: "swap_open sw" using assms(4) by (simp add: swap_open_def)
  let ?sw' = "sw\<lparr>swap_status := Claimed, revealed_preimage := Some pre, settled_at := Some (timestamp env)\<rparr>"
  have "get_atomic_swap_stats (set_atomic_swap ?sw' s) = get_atomic_swap_stats s"
    by (simp add: get_atomic_swap_stats_def set_atomic_swap_def)
  then have "\<exists>t. claim_atomic_swap sha world_transfer env i pre (w, s) = Ok ((), w2, t) \<and> AtomicSwaps t i = Some ?sw'"
    using init sw assms(4-9) legs room(1,2) [OF op] so'(6)
    by (auto simp: claim_atomic_swap_def ensure_initialized_def get_atomic_swap_def Let_def
        set_atomic_swap_stats_def set_atomic_swap_def publish_def)
  then show ?thesis using paid by (auto simp: get_atomic_swap_def)
qed

theorem swap_claim_exchanges_both_legs_witness:
  "\<exists>w' t sw'. claim_atomic_swap demo_sha world_transfer (host_env 30) 1 [6] (swap_world_funded, demo_escrow_funded) = Ok ((), w', t) \<and>
    world_balance w' 40 8 = world_balance swap_world_funded 40 8 + 600 \<and>
    world_balance w' 41 5 = world_balance swap_world_funded 41 5 + 50 \<and>
    get_atomic_swap t 1 = Ok sw' \<and> swap_status sw' = Claimed \<and> revealed_preimage sw' = Some [6]"
  using swap_claim_exchanges_both_legs [OF demo_escrow_run demo_ledger_ok, of 1
      "demo_swap\<lparr>swap_status := Funded, funded_at := Some 20\<rparr>" "host_env 30" "[6]"]
  by (simp add: get_atomic_swap_def demo_escrow_funded_def demo_swap_def demo_sha_def MAX_PREIMAGE_BYTES_def)

text \<open>
  Nobody's leg can be stuck: from its expiry on, anyone can refund a swap that is still open,
  the refund cannot fail, and it returns the offered amount to the maker and, if the taker had
  funded, the requested amount to the taker.
\<close>

theorem swap_refund_after_expiry:
  assumes "(repo_escrow_step sha self)\<^sup>*\<^sup>* (w0, empty_escrow) (w, s)" "world_ok self w0"
    "get_atomic_swap s i = Ok sw" "swap_status sw = AwaitingCounterparty \<or> swap_status sw = Funded"
    "expires_at sw \<le> timestamp env" "current_contract env = self"
  shows "\<exists>w' t sw'. refund_atomic_swap world_transfer env i (w, s) = Ok ((), w', t) \<and>
    world_balance w' (offered_token sw) (maker sw) = world_balance w (offered_token sw) (maker sw) + offered_amount sw \<and>
    (swap_status sw = Funded \<longrightarrow> world_balance w' (requested_token sw) (taker sw) =
       world_balance w (requested_token sw) (taker sw) + requested_amount sw) \<and>
    get_atomic_swap t i = Ok sw' \<and> swap_status sw' = Refunded"
proof -
  have inv: "swap_inv world_balance world_ok sha self (w, s)" by (rule repo_host.swap_run_inv [OF assms(1,2)])
  then have ok: "swaps_ok sha self s" "stats_ok s" "world_ok self w" by (simp_all add: swap_inv_def)
  have sw: "AtomicSwaps s i = Some sw" using assms(3) by (simp add: get_atomic_swap_def)
  have init: "is_initialized s" using run_initialized [OF assms(1)] sw by auto
  have so: "swap_ok sha self i sw" by (rule swaps_ok_get [OF ok(1) sw])
  have op: "swap_open sw" using assms(4) by (simp add: swap_open_def)
  note room = stats_room(1,3) [OF ok(1,2) sw op]
  have bal: "held k sw \<le> world_balance w k self" for k
    using held_le [OF ok(1) sw, of k] inv by (auto simp: swap_inv_def intro: order_trans)
  have so': "0 < offered_amount sw" "0 < requested_amount sw" "offered_token sw \<noteq> requested_token sw"
    "maker sw \<noteq> self" "swap_id sw = i"
    using so by (simp_all add: swap_ok_def)
  have ob: "offered_amount sw \<le> world_balance w (offered_token sw) self"
    using bal [of "offered_token sw"] so'(3) assms(4) by (auto simp: held_def)
  let ?e = "subcall_env env (offered_token sw)"
  let ?sw' = "sw\<lparr>swap_status := Refunded, settled_at := Some (timestamp env)\<rparr>"
  have stats: "get_atomic_swap_stats (set_atomic_swap ?sw' s) = get_atomic_swap_stats s"
    by (simp add: get_atomic_swap_stats_def set_atomic_swap_def)
  show ?thesis
  proof (cases "swap_status sw = Funded")
    case False
    obtain w1 where w1: "world_transfer (offered_token sw) ?e self (maker sw) (offered_amount sw) w = Some w1"
      using world_transfer_succeeds [OF ok(3) so'(1) ob, of ?e "maker sw"] assms(6) by auto
    have "\<exists>t. refund_atomic_swap world_transfer env i (w, s) = Ok ((), w1, t) \<and> AtomicSwaps t i = Some ?sw'"
      using init sw assms(4-6) w1 room so'(5) False stats
      by (auto simp: refund_atomic_swap_def ensure_initialized_def get_atomic_swap_def Let_def
          set_atomic_swap_stats_def set_atomic_swap_def publish_def)
    then show ?thesis
      using repo_token.deposit_effect(1) [OF w1] so'(4) False by (auto simp: get_atomic_swap_def)
  next
    case True
    have tk: "taker sw \<noteq> self" using so True by (simp add: swap_ok_def)
    have rb: "requested_amount sw \<le> world_balance w (requested_token sw) self"
      using bal [of "requested_token sw"] so'(3) True by (simp add: held_def)
    obtain w1 w2 where legs: "world_transfer (offered_token sw) ?e self (maker sw) (offered_amount sw) w = Some w1"
        "world_transfer (requested_token sw) (subcall_env env (requested_token sw)) self (taker sw) (requested_amount sw) w1 = Some w2"
      and paid: "world_balance w2 (offered_token sw) (maker sw) = world_balance w (offered_token sw) (maker sw) + offered_amount sw"
        "world_balance w2 (requested_token sw) (taker sw) = world_balance w (requested_token sw) (taker sw) + requested_amount sw"
      using two_legs_out [OF ok(3) so'(1) ob so'(2) rb so'(3) _ _ so'(4) tk, of ?e
          "subcall_env env (requested_token sw)"] assms(6) by auto
    have "\<exists>t. refund_atomic_swap world_transfer env i (w, s) = Ok ((), w2, t) \<and> AtomicSwaps t i = Some ?sw'"
      using init sw assms(4-6) legs room so'(5) True stats
      by (auto simp: refund_atomic_swap_def ensure_initialized_def get_atomic_swap_def Let_def
          set_atomic_swap_stats_def set_atomic_swap_def publish_def)
    then show ?thesis using paid by (auto simp: get_atomic_swap_def)
  qed
qed

theorem swap_refund_after_expiry_witness:
  "\<exists>w' t sw'. refund_atomic_swap world_transfer (host_env 600) 1 (swap_world_funded, demo_escrow_funded) = Ok ((), w', t) \<and>
    world_balance w' 40 5 = world_balance swap_world_funded 40 5 + 600 \<and>
    world_balance w' 41 8 = world_balance swap_world_funded 41 8 + 50 \<and>
    get_atomic_swap t 1 = Ok sw' \<and> swap_status sw' = Refunded"
  using swap_refund_after_expiry [OF demo_escrow_run demo_ledger_ok, of 1
      "demo_swap\<lparr>swap_status := Funded, funded_at := Some 20\<rparr>" "host_env 600"]
  by (simp add: get_atomic_swap_def demo_escrow_funded_def demo_swap_def)

text \<open>
  A swap settles once and for the right reason: along any run its parties, tokens, amounts,
  hash lock and expiry never change and once it is claimed, refunded or cancelled it never changes
  again; a claimed one carries a preimage of its hash lock and was settled before its expiry, a
  refunded one was settled at or after it.
\<close>

theorem swap_settles_once:
  assumes "(repo_escrow_step sha self)\<^sup>*\<^sup>* (w0, empty_escrow) (w, s)" "world_ok self w0"
    "get_atomic_swap s i = Ok sw" "(repo_escrow_step sha self)\<^sup>*\<^sup>* (w, s) (w', t)"
  shows "(\<exists>sw'. get_atomic_swap t i = Ok sw' \<and> swap_terms sw sw' \<and>
      (swap_status sw \<in> {Claimed, Refunded, SwapCancelled} \<longrightarrow> sw' = sw)) \<and>
    (swap_status sw = Claimed \<longrightarrow> (\<exists>pre at. revealed_preimage sw = Some pre \<and> sha pre = hashlock sw \<and>
      settled_at sw = Some at \<and> at < expires_at sw)) \<and>
    (swap_status sw = Refunded \<longrightarrow> (\<exists>at. settled_at sw = Some at \<and> expires_at sw \<le> at))"
proof -
  have inv: "swap_inv world_balance world_ok sha self (w, s)" by (rule repo_host.swap_run_inv [OF assms(1,2)])
  then have ok: "swaps_ok sha self s" by (simp add: swap_inv_def)
  have sw: "AtomicSwaps s i = Some sw" using assms(3) by (simp add: get_atomic_swap_def)
  have "\<exists>sw'. AtomicSwaps t i = Some sw' \<and> swap_evolves sw sw'"
    using repo_host.swap_run_evolves [OF assms(4) inv, of i sw] sw by simp
  moreover have "swap_ok sha self i sw" by (rule swaps_ok_get [OF ok sw])
  ultimately show ?thesis
    by (auto simp: get_atomic_swap_def swap_evolves_def swap_open_def swap_ok_def)
qed

theorem swap_settles_once_witness:
  "let sw = demo_swap\<lparr>swap_status := Funded, funded_at := Some 20\<rparr> in
    (\<exists>sw'. get_atomic_swap demo_escrow_funded 1 = Ok sw' \<and> swap_terms sw sw' \<and>
      (swap_status sw \<in> {Claimed, Refunded, SwapCancelled} \<longrightarrow> sw' = sw)) \<and>
    (swap_status sw = Claimed \<longrightarrow> (\<exists>pre at. revealed_preimage sw = Some pre \<and> demo_sha pre = hashlock sw \<and>
      settled_at sw = Some at \<and> at < expires_at sw)) \<and>
    (swap_status sw = Refunded \<longrightarrow> (\<exists>at. settled_at sw = Some at \<and> expires_at sw \<le> at))"
  unfolding Let_def
  by (rule swap_settles_once [OF demo_escrow_run demo_ledger_ok _ rtranclp.rtrancl_refl])
    (simp add: get_atomic_swap_def demo_escrow_funded_def)

end
