(* ===== verification/Escrow_Work_Correct.thy ===== *)
theory Escrow_Work_Correct
  imports Freelancer_Escrow
begin

text \<open>
  Correctness of the milestone escrows: the milestones of an agreement add up to its total, the
  recorded payments are the sum of the paid milestones and never exceed the total, a milestone is
  paid at most once and only after the freelancer submitted and the client approved it.
\<close>

section \<open>Sums over the milestones of one agreement\<close>

definition msum :: "(Milestone \<Rightarrow> int) \<Rightarrow> (nat \<rightharpoonup> Milestone) \<Rightarrow> nat \<Rightarrow> int" where
  "msum f M n = (\<Sum>j = 1..n. f (the (M j)))"

lemma msum_upd:
  assumes "1 \<le> j" "j \<le> n"
  shows "msum f (M(j \<mapsto> m)) n = msum f M n - f (the (M j)) + f m"
proof -
  have "msum f (M(j \<mapsto> m)) n = f m + (\<Sum>k\<in>{1..n} - {j}. f (the ((M(j \<mapsto> m)) k)))"
    unfolding msum_def using assms by (subst sum.remove [of _ j]) auto
  also have "(\<Sum>k\<in>{1..n} - {j}. f (the ((M(j \<mapsto> m)) k))) = (\<Sum>k\<in>{1..n} - {j}. f (the (M k)))"
    by (intro sum.cong) auto
  also have "\<dots> = msum f M n - f (the (M j))"
    unfolding msum_def using assms by (subst sum.remove [of _ j]) auto
  finally show ?thesis by (simp add: fun_upd_def)
qed

definition paid_part :: "Milestone \<Rightarrow> int" where
  "paid_part m = (if milestone_status m = Paid then amount m else 0)"

section \<open>The invariant\<close>

definition milestones_ok :: "nat \<Rightarrow> (nat \<rightharpoonup> Milestone) \<Rightarrow> bool" where
  "milestones_ok n M \<longleftrightarrow>
     (\<forall>j. M j \<noteq> None \<longleftrightarrow> 1 \<le> j \<and> j \<le> n) \<and> (\<forall>j m. M j = Some m \<longrightarrow> milestone_id m = j \<and> 0 < amount m)"

definition escrow_ok :: "nat \<Rightarrow> Escrow \<Rightarrow> (nat \<rightharpoonup> Milestone) \<Rightarrow> bool" where
  "escrow_ok i e M \<longleftrightarrow>
     escrow_id e = i \<and> 0 < total_amount e \<and> arbiter_fee_bps e \<le> 10000 \<and>
     milestones_ok (milestone_count e) M \<and> msum amount M (milestone_count e) = total_amount e \<and>
     (escrow_status e \<noteq> Completed \<longrightarrow> paid_amount e = msum paid_part M (milestone_count e)) \<and>
     (escrow_status e = Completed \<longrightarrow> paid_amount e = total_amount e) \<and>
     (escrow_status e \<in> {Active, Disputed} \<longrightarrow> paid_amount e < total_amount e) \<and>
     (escrow_status e \<in> {Pending, Cancelled} \<longrightarrow>
        paid_amount e = 0 \<and> (\<forall>j m. M j = Some m \<longrightarrow> milestone_status m = MPending))"

definition milestones_of :: "escrow_state \<Rightarrow> nat \<Rightarrow> nat \<rightharpoonup> Milestone" where
  "milestones_of s i = (\<lambda>j. Milestones s (i, j))"

definition work_inv :: "escrow_state \<Rightarrow> bool" where
  "work_inv s \<longleftrightarrow>
     get_arbiter_fee_bps s \<le> 10000 \<and>
     (\<forall>i. Escrows s i \<noteq> None \<longleftrightarrow> 1 \<le> i \<and> i \<le> get_escrow_count s) \<and>
     (\<forall>i. Escrows s i = None \<longrightarrow> milestones_of s i = Map.empty) \<and>
     (\<forall>i e. Escrows s i = Some e \<longrightarrow> escrow_ok i e (milestones_of s i))"

lemma work_inv_get: "work_inv s \<Longrightarrow> Escrows s i = Some e \<Longrightarrow> escrow_ok i e (milestones_of s i)"
  by (simp add: work_inv_def)

lemma work_inv_empty: "work_inv empty_escrow"
  by (auto simp: work_inv_def empty_escrow_def get_arbiter_fee_bps_def get_escrow_count_def milestones_of_def)

text \<open>Replacing one agreement and its milestones.\<close>

lemma work_inv_upd:
  assumes inv: "work_inv s" and e: "Escrows s i = Some e"
    and t: "Escrows t = (Escrows s)(i \<mapsto> e')" "EscrowCount t = EscrowCount s" "ArbiterFeeBps t = ArbiterFeeBps s"
    and M: "\<And>k. k \<noteq> i \<Longrightarrow> milestones_of t k = milestones_of s k"
    and ok: "escrow_ok i e (milestones_of s i) \<Longrightarrow> escrow_ok i e' (milestones_of t i)"
  shows "work_inv t"
proof -
  have dom: "Escrows s k \<noteq> None \<longleftrightarrow> 1 \<le> k \<and> k \<le> get_escrow_count s" for k
    using inv unfolding work_inv_def by blast
  have i: "1 \<le> i" "i \<le> get_escrow_count s" using dom [of i] e by auto
  have c: "get_escrow_count t = get_escrow_count s" "get_arbiter_fee_bps t = get_arbiter_fee_bps s"
    by (simp_all add: t get_escrow_count_def get_arbiter_fee_bps_def)
  have "Escrows t k \<noteq> None \<longleftrightarrow> 1 \<le> k \<and> k \<le> get_escrow_count t" for k
    using dom [of k] i by (auto simp: t(1) c)
  moreover have "milestones_of t k = Map.empty" if "Escrows t k = None" for k
    using inv that i M [of k] by (cases "k = i") (simp_all add: work_inv_def t(1))
  moreover have "escrow_ok k x (milestones_of t k)" if "Escrows t k = Some x" for k x
    using that ok [OF work_inv_get [OF inv e]] work_inv_get [OF inv, of k x] M [of k]
    by (cases "k = i") (simp_all add: t(1))
  ultimately show ?thesis using inv by (simp add: work_inv_def c)
qed

lemma milestones_of_set:
  "milestones_of (set_milestone i m s) k =
     (if k = i then (milestones_of s i)(milestone_id m \<mapsto> m) else milestones_of s k)"
  by (rule ext) (simp add: milestones_of_def set_milestone_def)

lemma milestones_of_frame [simp]:
  "milestones_of (set_escrow e s) = milestones_of s" "milestones_of (set_analytics x s) = milestones_of s"
  "milestones_of (s\<lparr>EscrowCount := n\<rparr>) = milestones_of s"
  by (simp_all add: milestones_of_def escrow_setters fun_eq_iff)

lemma escrow_frame [simp]:
  "Escrows (set_milestone i m s) = Escrows s" "Escrows (set_analytics x s) = Escrows s"
  "EscrowCount (set_milestone i m s) = EscrowCount s" "EscrowCount (set_analytics x s) = EscrowCount s"
  "EscrowCount (set_escrow e s) = EscrowCount s" "ArbiterFeeBps (set_milestone i m s) = ArbiterFeeBps s"
  "ArbiterFeeBps (set_analytics x s) = ArbiterFeeBps s" "ArbiterFeeBps (set_escrow e s) = ArbiterFeeBps s"
  "Escrows (set_escrow e s) = (Escrows s)(escrow_id e \<mapsto> e)"
  by (simp_all add: escrow_setters)

text \<open>A milestone that changes its status, but neither to nor from \<open>Paid\<close>, disturbs no sum.\<close>

lemma escrow_ok_status:
  assumes "escrow_ok i e M" "M j = Some m" "milestone_status m \<noteq> Paid" "x \<noteq> Paid"
    and "escrow_status e \<in> {Active, Completed}"
  shows "escrow_ok i e (M(j \<mapsto> m\<lparr>milestone_status := x\<rparr>))"
proof -
  have mo: "milestones_ok (milestone_count e) M" using assms(1) by (simp add: escrow_ok_def)
  then have j: "1 \<le> j" "j \<le> milestone_count e" using assms(2) unfolding milestones_ok_def by (metis option.discI)+
  have "milestones_ok (milestone_count e) (M(j \<mapsto> m\<lparr>milestone_status := x\<rparr>))"
    using mo assms(2) j by (auto simp: milestones_ok_def)
  moreover have "msum amount (M(j \<mapsto> m\<lparr>milestone_status := x\<rparr>)) (milestone_count e) = msum amount M (milestone_count e)"
    using msum_upd [OF j, of amount M] assms(2) by simp
  moreover have "msum paid_part (M(j \<mapsto> m\<lparr>milestone_status := x\<rparr>)) (milestone_count e) = msum paid_part M (milestone_count e)"
    using msum_upd [OF j, of paid_part M] assms(2-4) by (simp add: paid_part_def)
  moreover have "escrow_status e \<noteq> Pending" "escrow_status e \<noteq> Cancelled" using assms(5) by auto
  ultimately show ?thesis using assms(1) unfolding escrow_ok_def by (cases "escrow_status e") simp_all
qed

text \<open>Paying one milestone.\<close>

lemma escrow_ok_pay:
  assumes "escrow_ok i e M" "M j = Some m" "milestone_status m \<noteq> Paid" "escrow_status e = Active"
  defines "e' \<equiv> e\<lparr>paid_amount := paid_amount e + amount m\<rparr>" and "M' \<equiv> M(j \<mapsto> m\<lparr>milestone_status := Paid\<rparr>)"
  shows "paid_amount e + amount m \<le> total_amount e"
    "paid_amount e + amount m < total_amount e \<Longrightarrow> escrow_ok i e' M'"
    "total_amount e \<le> paid_amount e + amount m \<Longrightarrow> escrow_ok i (e'\<lparr>escrow_status := Completed\<rparr>) M'"
proof -
  let ?n = "milestone_count e"
  have mo: "milestones_ok ?n M" using assms(1) by (simp add: escrow_ok_def)
  then have j: "1 \<le> j" "j \<le> ?n" using assms(2) unfolding milestones_ok_def by (metis option.discI)+
  have mo': "milestones_ok ?n M'"
    using mo assms(2) j by (auto simp: milestones_ok_def M'_def)
  have amt: "msum amount M' ?n = msum amount M ?n"
    using msum_upd [OF j, of amount M] assms(2) by (simp add: M'_def)
  have paid: "msum paid_part M' ?n = paid_amount e + amount m"
    using msum_upd [OF j, of paid_part M] assms(1-4) by (simp add: M'_def paid_part_def escrow_ok_def)
  have "msum paid_part M' ?n \<le> msum amount M' ?n"
    unfolding msum_def
  proof (rule sum_mono)
    fix k assume "k \<in> {1..?n}"
    then obtain x where "M' k = Some x" using mo' unfolding milestones_ok_def by fastforce
    then have "0 < amount x" using mo' by (simp add: milestones_ok_def)
    with \<open>M' k = Some x\<close> show "paid_part (the (M' k)) \<le> amount (the (M' k))" by (simp add: paid_part_def)
  qed
  then show le: "paid_amount e + amount m \<le> total_amount e"
    using assms(1) paid amt by (simp add: escrow_ok_def)
  show "escrow_ok i e' M'" if "paid_amount e + amount m < total_amount e"
    using assms(1,4) that mo' amt paid by (simp add: escrow_ok_def e'_def)
  show "escrow_ok i (e'\<lparr>escrow_status := Completed\<rparr>) M'" if "total_amount e \<le> paid_amount e + amount m"
    using assms(1,4) that le mo' amt paid by (simp add: escrow_ok_def e'_def)
qed

section \<open>What a successful call does\<close>

lemma set_status_inv:
  assumes inv: "work_inv s" and e: "Escrows s i = Some e" and m: "Milestones s (i, j) = Some m"
    and np: "milestone_status m \<noteq> Paid" "x \<noteq> Paid"
    and act: "escrow_status e = Active"
  shows "work_inv (set_milestone i (m\<lparr>milestone_status := x\<rparr>) s)"
proof -
  have M: "milestones_of s i j = Some m" using m by (simp add: milestones_of_def)
  have j: "milestone_id m = j" using work_inv_get [OF inv e] M by (simp add: escrow_ok_def milestones_ok_def)
  show ?thesis
  proof (rule work_inv_upd [OF inv e, of _ e])
    show "Escrows (set_milestone i (m\<lparr>milestone_status := x\<rparr>) s) = (Escrows s)(i \<mapsto> e)"
      using e by (simp add: fun_upd_idem)
    show "escrow_ok i e (milestones_of (set_milestone i (m\<lparr>milestone_status := x\<rparr>) s) i)"
      if "escrow_ok i e (milestones_of s i)"
      using escrow_ok_status [OF that M np] act j by (simp add: milestones_of_set)
  qed (simp_all add: milestones_of_set)
qed

lemma set_escrow_inv:
  assumes inv: "work_inv s" and e: "Escrows s i = Some e" and "escrow_id e' = escrow_id e"
    and "escrow_ok i e (milestones_of s i) \<Longrightarrow> escrow_ok i e' (milestones_of s i)"
  shows "work_inv (set_escrow e' s)"
proof -
  have "escrow_id e = i" using work_inv_get [OF inv e] by (simp add: escrow_ok_def)
  then show ?thesis
    using assms(3,4) by (intro work_inv_upd [OF inv e, of _ e']) simp_all
qed

lemma work_inv_analytics [simp]: "work_inv (set_analytics x s) = work_inv s"
  by (simp add: work_inv_def get_arbiter_fee_bps_def get_escrow_count_def)

lemma deposit_Ok:
  assumes "deposit env i c s = Ok (u, t)"
  shows "\<exists>e m x. Escrows s i = Some e \<and> client e = c \<and> auth env c \<and> escrow_status e = Pending \<and>
    Milestones s (i, 1) = Some m \<and>
    t = set_analytics x (set_escrow (e\<lparr>escrow_status := Active\<rparr>) (set_milestone i (m\<lparr>milestone_status := InProgress\<rparr>) s))"
  using assms unfolding deposit_def get_escrow_def get_milestone_def Let_def
  by (cases "Escrows s i"; cases "Milestones s (i, 1)") (auto simp del: arith_outcomes)

lemma work_submit_Ok:
  assumes "submit_milestone env i f j s = Ok (u, t)"
  shows "\<exists>e m. Escrows s i = Some e \<and> freelancer e = f \<and> auth env f \<and> escrow_status e = Active \<and>
    Milestones s (i, j) = Some m \<and> milestone_status m = InProgress \<and>
    t = set_milestone i (m\<lparr>milestone_status := UnderReview\<rparr>) s"
  using assms unfolding submit_milestone_def get_escrow_def get_milestone_def
  by (cases "Escrows s i"; cases "Milestones s (i, j)") auto

lemma work_approve_Ok:
  assumes "approve_milestone env i c j s = Ok (u, t)"
  shows "\<exists>e m. Escrows s i = Some e \<and> client e = c \<and> auth env c \<and> escrow_status e = Active \<and>
    Milestones s (i, j) = Some m \<and> milestone_status m = UnderReview \<and>
    t = set_milestone i (m\<lparr>milestone_status := Approved\<rparr>) s"
  using assms unfolding approve_milestone_def get_escrow_def get_milestone_def
  by (cases "Escrows s i"; cases "Milestones s (i, j)") auto

lemma reject_Ok:
  assumes "reject_milestone env i c j s = Ok (u, t)"
  shows "\<exists>e m. Escrows s i = Some e \<and> client e = c \<and> auth env c \<and> escrow_status e = Active \<and>
    Milestones s (i, j) = Some m \<and> milestone_status m = UnderReview \<and>
    t = set_milestone i (m\<lparr>milestone_status := InProgress\<rparr>) s"
  using assms unfolding reject_milestone_def get_escrow_def get_milestone_def
  by (cases "Escrows s i"; cases "Milestones s (i, j)") auto

lemma raise_Ok:
  assumes "raise_dispute env i c s = Ok (u, t)"
  shows "\<exists>e x. Escrows s i = Some e \<and> auth env c \<and> c \<in> {client e, freelancer e} \<and> escrow_status e = Active \<and>
    t = set_analytics x (set_escrow (e\<lparr>escrow_status := Disputed\<rparr>) s)"
  using assms unfolding raise_dispute_def get_escrow_def Let_def
  by (cases "Escrows s i") (auto simp del: arith_outcomes)

lemma cancel_escrow_Ok:
  assumes "cancel_escrow env i c s = Ok (u, t)"
  shows "\<exists>e x. Escrows s i = Some e \<and> auth env c \<and> client e = c \<and> escrow_status e = Pending \<and>
    t = set_analytics x (set_escrow (e\<lparr>escrow_status := Cancelled\<rparr>) s)"
  using assms unfolding cancel_escrow_def get_escrow_def Let_def
  by (cases "Escrows s i") (auto simp del: arith_outcomes)

lemma resolve_Ok:
  assumes "resolve_dispute env i a r s = Ok (x, t)"
  shows "\<exists>e y. Escrows s i = Some e \<and> arbiter e = a \<and> auth env a \<and> escrow_status e = Disputed \<and>
    t = set_analytics y (set_escrow (e\<lparr>paid_amount := total_amount e, escrow_status := Completed\<rparr>) s)"
  using assms unfolding resolve_dispute_def get_escrow_def Let_def
  by (cases "Escrows s i") (auto simp del: arith_outcomes)

text \<open>The milestone after the paid one is started when it is still pending.\<close>

definition start_next :: "nat \<Rightarrow> nat \<Rightarrow> nat \<Rightarrow> escrow_state \<Rightarrow> escrow_state" where
  "start_next i n k s =
     (if k \<le> n then
        (case Milestones s (i, k) of
           Some m \<Rightarrow> if milestone_status m = MPending then set_milestone i (m\<lparr>milestone_status := InProgress\<rparr>) s else s
         | None \<Rightarrow> s)
      else s)"

lemma start_next_cases:
  "start_next i n k s = s \<or>
   (\<exists>m. Milestones s (i, k) = Some m \<and> milestone_status m = MPending \<and>
      start_next i n k s = set_milestone i (m\<lparr>milestone_status := InProgress\<rparr>) s)"
  by (simp add: start_next_def split: option.splits)

definition paid_out :: "Escrow \<Rightarrow> Milestone \<Rightarrow> Escrow" where
  "paid_out e m =
     (let e1 = e\<lparr>paid_amount := paid_amount e + amount m\<rparr> in
      if total_amount e \<le> paid_amount e + amount m then e1\<lparr>escrow_status := Completed\<rparr> else e1)"

lemma fee_of_Ok: "fee_of a b = Ok f \<Longrightarrow> f = (a * int b) sdiv 10000"
  by (simp add: fee_of_def i128_div_def split: if_splits)

lemma next_match:
  "(case get_milestone s i k of Ok m \<Rightarrow> f m | _ \<Rightarrow> d) = (case Milestones s (i, k) of Some m \<Rightarrow> f m | None \<Rightarrow> d)"
  by (simp add: get_milestone_def split: option.splits)

lemma release_Ok:
  assumes "release_payment env i c j s = Ok (x, t)"
  shows "\<exists>e m a. Escrows s i = Some e \<and> client e = c \<and> auth env c \<and> escrow_status e = Active \<and>
    Milestones s (i, j) = Some m \<and> milestone_status m = Approved \<and>
    x = amount m - (amount m * int (arbiter_fee_bps e)) sdiv 10000 \<and>
    (let s2 = start_next i (milestone_count e) (Suc j) (set_milestone i (m\<lparr>milestone_status := Paid\<rparr>) s)
     in t = set_escrow (paid_out e m) s2 \<or> t = set_escrow (paid_out e m) (set_analytics a s2))"
proof -
  obtain e m where e: "Escrows s i = Some e" and m: "Milestones s (i, j) = Some m"
    using assms unfolding release_payment_def get_escrow_def get_milestone_def
    by (cases "Escrows s i"; cases "Milestones s (i, j)") auto
  have g: "auth env c" "client e = c" "escrow_status e = Active" "milestone_status m = Approved"
    using assms e m unfolding release_payment_def get_escrow_def get_milestone_def by auto
  let ?s1 = "set_milestone i (m\<lparr>milestone_status := Paid\<rparr>) s"
  let ?s2 = "start_next i (milestone_count e) (Suc j) ?s1"
  let ?e1 = "e\<lparr>paid_amount := paid_amount e + amount m\<rparr>"
  have "\<exists>fee a. fee_of (amount m) (arbiter_fee_bps e) = (Ok fee :: (escrow_error, int) outcome) \<and> x = amount m - fee \<and>
      (t = set_escrow (paid_out e m) ?s2 \<or> t = set_escrow (paid_out e m) (set_analytics a ?s2))"
    using assms unfolding release_payment_def get_escrow_def e Let_def next_match start_next_def [symmetric]
    by (auto simp: g get_milestone_def m paid_out_def Let_def
        i128_sub_def i128_add_def [of "paid_amount e"] u32_add_def [of j] simp del: arith_outcomes split: if_splits)
  then show ?thesis using e m g by (auto simp: Let_def dest: fee_of_Ok)
qed

section \<open>Every work call keeps the invariant\<close>

lemma deposit_ok:
  assumes ok: "escrow_ok i e M" and e: "escrow_status e = Pending" and m: "M 1 = Some m"
  shows "escrow_ok i (e\<lparr>escrow_status := Active\<rparr>) (M(1 \<mapsto> m\<lparr>milestone_status := InProgress\<rparr>))"
proof -
  let ?n = "milestone_count e" and ?M = "M(1 \<mapsto> m\<lparr>milestone_status := InProgress\<rparr>)"
  have mo: "milestones_ok ?n M" using ok by (simp add: escrow_ok_def)
  have n: "1 \<le> ?n" using mo m unfolding milestones_ok_def by (metis option.discI)
  have "milestone_status m = MPending" using ok e m by (simp add: escrow_ok_def)
  then have "msum f ?M ?n = msum f M ?n" if "f = amount \<or> f = paid_part" for f
    using msum_upd [of 1 ?n f M] n m that by (auto simp: paid_part_def)
  moreover have "milestones_ok ?n ?M" using mo m n by (auto simp: milestones_ok_def)
  ultimately show ?thesis using ok e by (simp add: escrow_ok_def)
qed

lemma inv_deposit:
  assumes inv: "work_inv s" and r: "deposit env i c s = Ok (u, t)" shows "work_inv t"
proof -
  obtain e m x where e: "Escrows s i = Some e" "escrow_status e = Pending" "Milestones s (i, 1) = Some m"
      "t = set_analytics x (set_escrow (e\<lparr>escrow_status := Active\<rparr>) (set_milestone i (m\<lparr>milestone_status := InProgress\<rparr>) s))"
    using deposit_Ok [OF r] by blast
  have ok: "escrow_ok i e (milestones_of s i)" by (rule work_inv_get [OF inv e(1)])
  have M: "milestones_of s i 1 = Some m" using e(3) by (simp add: milestones_of_def)
  have ids: "escrow_id e = i" "milestone_id m = 1"
    using ok M by (simp_all add: escrow_ok_def milestones_ok_def)
  show ?thesis
    by (rule work_inv_upd [OF inv e(1), of t "e\<lparr>escrow_status := Active\<rparr>"])
      (use deposit_ok [OF ok e(2) M] ids in \<open>simp_all add: e(4) milestones_of_set\<close>)
qed

lemma inv_review:
  assumes "work_inv s"
  shows "submit_milestone env i c j s = Ok (u, t) \<Longrightarrow> work_inv t"
    "approve_milestone env i c j s = Ok (u, t) \<Longrightarrow> work_inv t"
    "reject_milestone env i c j s = Ok (u, t) \<Longrightarrow> work_inv t"
  using set_status_inv [OF assms] by (fastforce dest: work_submit_Ok work_approve_Ok reject_Ok)+

lemma inv_close:
  assumes "work_inv s"
  shows "raise_dispute env i c s = Ok (u, t) \<Longrightarrow> work_inv t"
    "cancel_escrow env i c s = Ok (u, t) \<Longrightarrow> work_inv t"
    "resolve_dispute env i c r s = Ok (x, t) \<Longrightarrow> work_inv t"
proof -
  have close: "work_inv (set_analytics y (set_escrow e' s))"
    if "Escrows s i = Some e" "escrow_id e' = escrow_id e"
      "escrow_ok i e (milestones_of s i) \<Longrightarrow> escrow_ok i e' (milestones_of s i)" for e e' y
    using set_escrow_inv [OF assms that] by simp
  show "work_inv t" if r: "raise_dispute env i c s = Ok (u, t)"
  proof -
    obtain e y where e: "Escrows s i = Some e" "escrow_status e = Active"
        "t = set_analytics y (set_escrow (e\<lparr>escrow_status := Disputed\<rparr>) s)"
      using raise_Ok [OF r] by blast
    show ?thesis unfolding e(3) by (rule close [OF e(1)]) (use e(2) in \<open>simp_all add: escrow_ok_def\<close>)
  qed
  show "work_inv t" if r: "cancel_escrow env i c s = Ok (u, t)"
  proof -
    obtain e y where e: "Escrows s i = Some e" "escrow_status e = Pending"
        "t = set_analytics y (set_escrow (e\<lparr>escrow_status := Cancelled\<rparr>) s)"
      using cancel_escrow_Ok [OF r] by blast
    show ?thesis unfolding e(3) by (rule close [OF e(1)]) (use e(2) in \<open>simp_all add: escrow_ok_def\<close>)
  qed
  show "work_inv t" if r: "resolve_dispute env i c r s = Ok (x, t)"
  proof -
    obtain e y where e: "Escrows s i = Some e"
        "t = set_analytics y (set_escrow (e\<lparr>paid_amount := total_amount e, escrow_status := Completed\<rparr>) s)"
      using resolve_Ok [OF r] by blast
    show ?thesis unfolding e(2) by (rule close [OF e(1)]) (simp_all add: escrow_ok_def)
  qed
qed

lemma paid_out_ok:
  assumes "escrow_ok i e M" "M j = Some m" "milestone_status m \<noteq> Paid" "escrow_status e = Active"
  shows "escrow_ok i (paid_out e m) (M(j \<mapsto> m\<lparr>milestone_status := Paid\<rparr>))"
  using escrow_ok_pay [OF assms] by (simp add: paid_out_def Let_def)

lemma inv_release:
  assumes inv: "work_inv s" and r: "release_payment env i c j s = Ok (x, t)" shows "work_inv t"
proof -
  obtain e m a where e: "Escrows s i = Some e" "escrow_status e = Active" "Milestones s (i, j) = Some m"
      "milestone_status m = Approved"
    and t: "let s2 = start_next i (milestone_count e) (Suc j) (set_milestone i (m\<lparr>milestone_status := Paid\<rparr>) s)
      in t = set_escrow (paid_out e m) s2 \<or> t = set_escrow (paid_out e m) (set_analytics a s2)"
    using release_Ok [OF r] by blast
  let ?s1 = "set_milestone i (m\<lparr>milestone_status := Paid\<rparr>) s"
  let ?s2 = "start_next i (milestone_count e) (Suc j) ?s1"
  have ok: "escrow_ok i e (milestones_of s i)" by (rule work_inv_get [OF inv e(1)])
  have M: "milestones_of s i j = Some m" using e(3) by (simp add: milestones_of_def)
  have ids: "escrow_id e = i" "milestone_id m = j"
    using ok M by (simp_all add: escrow_ok_def milestones_ok_def)
  have pid: "escrow_id (paid_out e m) = i" using ids by (simp add: paid_out_def Let_def)
  have M1: "milestones_of ?s1 i = (milestones_of s i)(j \<mapsto> m\<lparr>milestone_status := Paid\<rparr>)"
    using ids by (simp add: milestones_of_set)
  have ok1: "escrow_ok i (paid_out e m) (milestones_of ?s1 i)"
    unfolding M1 by (rule paid_out_ok [OF ok M]) (use e in simp_all)
  have ok2: "escrow_ok i (paid_out e m) (milestones_of ?s2 i)"
    using start_next_cases [of i "milestone_count e" "Suc j" ?s1]
  proof (elim disjE exE conjE)
    fix n assume n: "Milestones ?s1 (i, Suc j) = Some n" "milestone_status n = MPending"
      and s2: "?s2 = set_milestone i (n\<lparr>milestone_status := InProgress\<rparr>) ?s1"
    have N: "milestones_of ?s1 i (Suc j) = Some n" using n(1) by (simp add: milestones_of_def)
    have "milestone_id n = Suc j" using ok1 N by (simp add: escrow_ok_def milestones_ok_def)
    then have "milestones_of ?s2 i = (milestones_of ?s1 i)(Suc j \<mapsto> n\<lparr>milestone_status := InProgress\<rparr>)"
      unfolding s2 by (subst milestones_of_set) simp
    then show ?thesis
      using escrow_ok_status [OF ok1 N, of InProgress] n(2) e(2) by (simp add: paid_out_def Let_def)
  qed (use ok1 in simp)
  have fr: "Escrows ?s2 = Escrows s" "EscrowCount ?s2 = EscrowCount s" "ArbiterFeeBps ?s2 = ArbiterFeeBps s"
    "k \<noteq> i \<Longrightarrow> milestones_of ?s2 k = milestones_of s k" for k
    using start_next_cases [of i "milestone_count e" "Suc j" ?s1] by (auto simp: milestones_of_set)
  have "t = set_escrow (paid_out e m) ?s2 \<or> t = set_escrow (paid_out e m) (set_analytics a ?s2)"
    using t by (simp add: Let_def)
  then show ?thesis
    by (intro work_inv_upd [OF inv e(1), of t "paid_out e m"]) (use fr ok2 pid in auto)
qed

lemma sum_milestones_Ok:
  "sum_milestones acc amts = Ok r \<Longrightarrow> r = acc + sum_list amts \<and> (\<forall>a\<in>set amts. 0 < a)"
proof (induction amts arbitrary: acc)
  case (Cons a amts)
  have "0 < a" "sum_milestones (acc + a) amts = Ok r"
    using Cons.prems by (auto simp: i128_add_def split: if_splits)
  then show ?case using Cons.IH [of "acc + a"] by simp
qed simp

lemma store_frame:
  "Escrows (store_milestones i j amts s) = Escrows s"
  "EscrowCount (store_milestones i j amts s) = EscrowCount s"
  "ArbiterFeeBps (store_milestones i j amts s) = ArbiterFeeBps s"
  "k \<noteq> i \<Longrightarrow> milestones_of (store_milestones i j amts s) k = milestones_of s k"
  by (induction amts arbitrary: j s) (simp_all add: milestones_of_set)

lemma store_milestones_of:
  "milestones_of (store_milestones i j amts s) i q =
     (if j \<le> q \<and> q < j + length amts
      then Some \<lparr>milestone_id = q, amount = amts ! (q - j), milestone_status = MPending\<rparr>
      else milestones_of s i q)"
proof (induction amts arbitrary: j s q)
  case (Cons a amts)
  show ?case
  proof (cases "q = j")
    case False
    then show ?thesis
      by (cases "j \<le> q") (simp_all add: Cons.IH milestones_of_set Suc_diff_Suc nth_Cons')
  qed (simp add: Cons.IH milestones_of_set)
qed auto

lemma create_escrow_Ok:
  assumes "create_escrow env c f a tot amts s = Ok (i, t)"
  shows "i = Suc (get_escrow_count s) \<and> auth env c \<and> 0 < tot \<and> amts \<noteq> [] \<and> length amts \<le> 20 \<and>
    (\<forall>x\<in>set amts. 0 < x) \<and> sum_list amts = tot \<and>
    (\<exists>y. t = set_analytics y (store_milestones i 1 amts (set_escrow
      \<lparr>escrow_id = i, client = c, freelancer = f, arbiter = a, total_amount = tot, paid_amount = 0,
       milestone_count = length amts, escrow_status = Pending, created_at = timestamp env,
       arbiter_fee_bps = get_arbiter_fee_bps s\<rparr> (s\<lparr>EscrowCount := Some i\<rparr>))))"
proof -
  have fee: "get_arbiter_fee_bps (s\<lparr>EscrowCount := n\<rparr>) = get_arbiter_fee_bps s" for n
    by (simp add: get_arbiter_fee_bps_def)
  obtain r where r: "sum_milestones 0 amts = Ok r" "r = tot"
    using assms unfolding create_escrow_def by (auto simp del: arith_outcomes split: if_splits)
  have "i = Suc (get_escrow_count s)"
    using assms unfolding create_escrow_def increment_escrow_count_def Let_def
    by (auto simp: u32_add_def simp del: arith_outcomes split: if_splits)
  moreover have "\<exists>y. t = set_analytics y (store_milestones i 1 amts (set_escrow
      \<lparr>escrow_id = i, client = c, freelancer = f, arbiter = a, total_amount = tot, paid_amount = 0,
       milestone_count = length amts, escrow_status = Pending, created_at = timestamp env,
       arbiter_fee_bps = get_arbiter_fee_bps s\<rparr> (s\<lparr>EscrowCount := Some i\<rparr>)))"
    using assms unfolding create_escrow_def increment_escrow_count_def Let_def
    by (auto simp: fee simp del: arith_outcomes split: if_splits)
  moreover have "auth env c" "0 < tot" "amts \<noteq> []" "length amts \<le> 20"
    using assms unfolding create_escrow_def by (auto simp del: arith_outcomes split: if_splits)
  ultimately show ?thesis using sum_milestones_Ok [OF r(1)] r(2) by simp
qed

lemma inv_create:
  assumes inv: "work_inv s" and r: "create_escrow env c f a tot amts s = Ok (i, t)"
  shows "work_inv t"
proof -
  let ?e = "\<lparr>escrow_id = i, client = c, freelancer = f, arbiter = a, total_amount = tot, paid_amount = 0,
       milestone_count = length amts, escrow_status = Pending, created_at = timestamp env,
       arbiter_fee_bps = get_arbiter_fee_bps s\<rparr>"
  obtain y where i: "i = Suc (get_escrow_count s)" and amts: "0 < tot" "\<forall>x\<in>set amts. 0 < x" "sum_list amts = tot"
    and t: "t = set_analytics y (store_milestones i 1 amts (set_escrow ?e (s\<lparr>EscrowCount := Some i\<rparr>)))"
    using create_escrow_Ok [OF r] by blast
  have fr: "Escrows t = (Escrows s)(i \<mapsto> ?e)" "get_escrow_count t = i" "get_arbiter_fee_bps t = get_arbiter_fee_bps s"
    "k \<noteq> i \<Longrightarrow> milestones_of t k = milestones_of s k" for k
    by (simp_all add: t store_frame get_escrow_count_def get_arbiter_fee_bps_def)
  have dom: "Escrows s k \<noteq> None \<longleftrightarrow> 1 \<le> k \<and> k \<le> get_escrow_count s" for k
    using inv unfolding work_inv_def by blast
  have "Escrows s i = None" using dom [of i] i by simp
  then have "milestones_of s i = Map.empty" using inv unfolding work_inv_def by blast
  then have M: "milestones_of t i q = (if 1 \<le> q \<and> q \<le> length amts
      then Some \<lparr>milestone_id = q, amount = amts ! (q - 1), milestone_status = MPending\<rparr> else None)" for q
    by (simp add: t store_milestones_of)
  have "msum amount (milestones_of t i) (length amts) = (\<Sum>q = 1..length amts. amts ! (q - 1))"
    unfolding msum_def by (rule sum.cong) (simp_all add: M)
  also have "\<dots> = (\<Sum>q = 0..<length amts. amts ! q)"
    by (rule sum.reindex_bij_witness [of _ Suc "\<lambda>q. q - 1"]) auto
  finally have total: "msum amount (milestones_of t i) (length amts) = tot"
    using amts(3) by (simp add: sum_list_sum_nth)
  have "msum paid_part (milestones_of t i) (length amts) = (\<Sum>q = 1..length amts. 0)"
    unfolding msum_def by (rule sum.cong) (simp_all add: M paid_part_def)
  then have ok: "escrow_ok i ?e (milestones_of t i)"
    using inv amts total by (auto simp: escrow_ok_def milestones_ok_def M work_inv_def)
  have "Escrows t k \<noteq> None \<longleftrightarrow> 1 \<le> k \<and> k \<le> get_escrow_count t" for k
    using dom [of k] i by (auto simp: fr)
  moreover have "milestones_of t k = Map.empty" if "Escrows t k = None" for k
    using inv that by (cases "k = i") (simp_all add: work_inv_def fr)
  moreover have "escrow_ok k x (milestones_of t k)" if "Escrows t k = Some x" for k x
    using that ok work_inv_get [OF inv, of k x] by (cases "k = i") (simp_all add: fr)
  ultimately show ?thesis using inv by (simp add: work_inv_def fr)
qed

lemma work_call_inv: "work_call env s t \<Longrightarrow> work_inv s \<Longrightarrow> work_inv t"
  by (induction rule: work_call.induct)
    (auto intro: inv_create inv_deposit inv_review inv_release inv_close)

section \<open>Swap calls do not touch the agreements\<close>

definition same_work :: "escrow_state \<Rightarrow> escrow_state \<Rightarrow> bool" where
  "same_work s t \<longleftrightarrow>
     Escrows t = Escrows s \<and> Milestones t = Milestones s \<and> EscrowCount t = EscrowCount s \<and>
     ArbiterFeeBps t = ArbiterFeeBps s"

lemma same_work_inv: "same_work s t \<Longrightarrow> work_inv t = work_inv s"
  by (simp add: same_work_def work_inv_def get_arbiter_fee_bps_def get_escrow_count_def milestones_of_def)

lemma same_work_simps [simp]:
  "same_work s (publish e t) = same_work s t"
  "same_work s (set_atomic_swap sw t) = same_work s t"
  "same_work s (set_atomic_swap_stats x t) = same_work s t"
  "same_work s (t\<lparr>AtomicSwapCount := n\<rparr>) = same_work s t"
  "same_work s s"
  by (simp_all add: same_work_def escrow_setters)

lemma swap_calls_frame:
  "create_atomic_swap tc env mk tk ot oa rt ra h e (w, s) = Ok (i, w', t) \<Longrightarrow> same_work s t"
  "fund_atomic_swap tc env i tk (w, s) = Ok (u, w', t) \<Longrightarrow> same_work s t"
  "claim_atomic_swap sha tc env i pre (w, s) = Ok (u, w', t) \<Longrightarrow> same_work s t"
  "refund_atomic_swap tc env i (w, s) = Ok (u, w', t) \<Longrightarrow> same_work s t"
  "cancel_atomic_swap tc env i mk (w, s) = Ok (u, w', t) \<Longrightarrow> same_work s t"
  unfolding create_atomic_swap_def next_atomic_swap_id_def fund_atomic_swap_def claim_atomic_swap_def
    refund_atomic_swap_def cancel_atomic_swap_def Let_def
  by (auto simp del: arith_outcomes split: if_splits)

section \<open>The life of one milestone\<close>

text \<open>Who has to sign for each change of a milestone's status.\<close>

definition milestone_moves :: "env \<Rightarrow> Escrow \<Rightarrow> MilestoneStatus \<Rightarrow> MilestoneStatus \<Rightarrow> bool" where
  "milestone_moves env e x y \<longleftrightarrow>
     x = MPending \<and> y = InProgress \<and> auth env (client e) \<or>
     x = InProgress \<and> y = UnderReview \<and> auth env (freelancer e) \<or>
     x = UnderReview \<and> y \<in> {Approved, InProgress} \<and> auth env (client e) \<or>
     x = Approved \<and> y = Paid \<and> auth env (client e)"

text \<open>What one call does to the milestone \<open>j\<close> of agreement \<open>i\<close>.\<close>

definition milestone_evolves :: "env \<Rightarrow> nat \<Rightarrow> nat \<Rightarrow> Milestone \<Rightarrow> escrow_state \<Rightarrow> escrow_state \<Rightarrow> bool" where
  "milestone_evolves env i j m s t \<longleftrightarrow>
     (\<exists>e e' m'. Escrows s i = Some e \<and> Escrows t i = Some e' \<and> Milestones t (i, j) = Some m' \<and>
        amount m' = amount m \<and>
        (milestone_status m' \<noteq> milestone_status m \<longrightarrow>
           escrow_status e \<in> {Pending, Active} \<and> milestone_moves env e (milestone_status m) (milestone_status m')) \<and>
        (milestone_status m' = Paid \<and> milestone_status m \<noteq> Paid \<longrightarrow> paid_amount e' = paid_amount e + amount m))"

lemma work_inv_escrow:
  assumes "work_inv s" "Milestones s (i, j) = Some m"
  shows "\<exists>e. Escrows s i = Some e \<and> milestone_id m = j"
proof -
  have "milestones_of s i j = Some m" using assms(2) by (simp add: milestones_of_def)
  moreover from this obtain e where e: "Escrows s i = Some e"
    using assms(1) unfolding work_inv_def by (metis empty_iff dom_empty domI option.exhaust)
  ultimately show ?thesis using work_inv_get [OF assms(1) e] by (simp add: escrow_ok_def milestones_ok_def)
qed

lemma evolves_same:
  assumes "Escrows s i = Some e" "Milestones s (i, j) = Some m" "Milestones t (i, j) = Some m" "Escrows t i \<noteq> None"
  shows "milestone_evolves env i j m s t"
  using assms by (auto simp: milestone_evolves_def)

lemma evolves_upd:
  assumes inv: "work_inv s" and m: "Milestones s (i, j) = Some m" and m0: "Milestones s (i0, j0) = Some m0"
    and e0: "Escrows s i0 = Some e0" "escrow_status e0 \<in> {Pending, Active}"
    and mv: "milestone_moves env e0 (milestone_status m0) x" "x \<noteq> Paid"
    and t: "Milestones t = (Milestones s)((i0, j0) \<mapsto> m0\<lparr>milestone_status := x\<rparr>)" "\<And>k. Escrows s k \<noteq> None \<Longrightarrow> Escrows t k \<noteq> None"
  shows "milestone_evolves env i j m s t"
proof -
  obtain e where e: "Escrows s i = Some e" using work_inv_escrow [OF inv m] by blast
  then obtain e' where e': "Escrows t i = Some e'" using t(2) [of i] by auto
  show ?thesis
    using assms e e' by (cases "(i, j) = (i0, j0)") (auto simp: milestone_evolves_def)
qed

lemma release_evolves:
  assumes inv: "work_inv s" and m: "Milestones s (i, j) = Some m"
    and r: "release_payment env i0 c j0 s = Ok (x, t)"
  shows "milestone_evolves env i j m s t"
proof -
  obtain e0 m0 a where e0: "Escrows s i0 = Some e0" "client e0 = c" "auth env c" "escrow_status e0 = Active"
      and m0: "Milestones s (i0, j0) = Some m0" "milestone_status m0 = Approved"
    and t: "let s2 = start_next i0 (milestone_count e0) (Suc j0) (set_milestone i0 (m0\<lparr>milestone_status := Paid\<rparr>) s)
      in t = set_escrow (paid_out e0 m0) s2 \<or> t = set_escrow (paid_out e0 m0) (set_analytics a s2)"
    using release_Ok [OF r] by blast
  let ?s1 = "set_milestone i0 (m0\<lparr>milestone_status := Paid\<rparr>) s"
  let ?s2 = "start_next i0 (milestone_count e0) (Suc j0) ?s1"
  obtain e where e: "Escrows s i = Some e" using work_inv_escrow [OF inv m] by blast
  have ids: "milestone_id m0 = j0" "escrow_id e0 = i0"
    using work_inv_escrow [OF inv m0(1)] work_inv_get [OF inv e0(1)] by (simp_all add: escrow_ok_def)
  have M1: "Milestones ?s1 = (Milestones s)((i0, j0) \<mapsto> m0\<lparr>milestone_status := Paid\<rparr>)"
    using ids by (simp add: set_milestone_def)
  have E1: "Escrows ?s2 = Escrows s"
    using start_next_cases [of i0 "milestone_count e0" "Suc j0" ?s1] by auto
  have mt: "Milestones t = Milestones ?s2" and et: "Escrows t = (Escrows s)(i0 \<mapsto> paid_out e0 m0)"
    using t ids E1 by (auto simp: Let_def set_escrow_def set_analytics_def paid_out_def)
  have pa: "paid_amount (paid_out e0 m0) = paid_amount e0 + amount m0" by (simp add: paid_out_def Let_def)
  obtain e' where e': "Escrows t i = Some e'" using e et by (cases "i = i0") auto
  have other: "milestone_evolves env i j m s t" if "Milestones t (i, j) = Some m"
    using evolves_same [OF e m that] e' by simp
  have paid: "milestone_evolves env i j m s t"
    if "(i, j) = (i0, j0)" "Milestones t (i, j) = Some (m0\<lparr>milestone_status := Paid\<rparr>)"
    using that m m0 e0 et pa by (auto simp: milestone_evolves_def milestone_moves_def)
  show ?thesis
    using start_next_cases [of i0 "milestone_count e0" "Suc j0" ?s1]
  proof (elim disjE exE conjE)
    assume "?s2 = ?s1"
    then show ?thesis using other paid m mt M1 by (cases "(i, j) = (i0, j0)") auto
  next
    fix n assume n: "Milestones ?s1 (i0, Suc j0) = Some n" "milestone_status n = MPending"
      and s2: "?s2 = set_milestone i0 (n\<lparr>milestone_status := InProgress\<rparr>) ?s1"
    have n1: "Milestones s (i0, Suc j0) = Some n" using n(1) M1 by simp
    have "milestone_id n = Suc j0" using work_inv_escrow [OF inv n1] by blast
    then have M2: "Milestones t = (Milestones ?s1)((i0, Suc j0) \<mapsto> n\<lparr>milestone_status := InProgress\<rparr>)"
      unfolding mt s2 by (simp add: set_milestone_def)
    show ?thesis
    proof (cases "(i, j) = (i0, Suc j0)")
      case True
      then show ?thesis
        using m n1 n(2) M2 e0 et by (auto simp: milestone_evolves_def milestone_moves_def)
    next
      case False
      then show ?thesis using other paid m M2 M1 by (cases "(i, j) = (i0, j0)") auto
    qed
  qed
qed

lemma create_evolves:
  assumes inv: "work_inv s" and m: "Milestones s (i, j) = Some m"
    and r: "create_escrow env c f a tot amts s = Ok (i0, t)"
  shows "milestone_evolves env i j m s t"
proof -
  obtain e where e: "Escrows s i = Some e" using work_inv_escrow [OF inv m] by blast
  have dom: "Escrows s k \<noteq> None \<longleftrightarrow> 1 \<le> k \<and> k \<le> get_escrow_count s" for k
    using inv unfolding work_inv_def by blast
  have i: "i \<noteq> i0" using dom [of i] e create_escrow_Ok [OF r] by auto
  obtain y ne where t: "t = set_analytics y (store_milestones i0 1 amts (set_escrow ne (s\<lparr>EscrowCount := Some i0\<rparr>)))"
      and "escrow_id ne = i0"
    using create_escrow_Ok [OF r] by fastforce
  then have "Escrows t i = Some e" using e i by (simp add: store_frame)
  moreover have "milestones_of t i = milestones_of s i" using i by (simp add: t store_frame)
  then have "Milestones t (i, j) = Some m" using m unfolding milestones_of_def by metis
  ultimately show ?thesis using evolves_same [OF e m] by simp
qed

lemma work_call_evolves:
  assumes inv: "work_inv s" and m: "Milestones s (i, j) = Some m" and c: "work_call env s t"
  shows "milestone_evolves env i j m s t"
proof -
  obtain e where e: "Escrows s i = Some e" using work_inv_escrow [OF inv m] by blast
  have ids: "milestone_id m0 = j0" if "Milestones s (i0, j0) = Some m0" for i0 j0 m0
    using work_inv_escrow [OF inv that] by blast
  have upd: "Milestones (set_milestone i0 (m0\<lparr>milestone_status := x\<rparr>) s) = (Milestones s)((i0, j0) \<mapsto> m0\<lparr>milestone_status := x\<rparr>)"
    if "Milestones s (i0, j0) = Some m0" for i0 j0 m0 x
    using ids [OF that] by (simp add: set_milestone_def)
  show ?thesis
    using c
  proof cases
    case (submit i0 f j0 u)
    then obtain e0 m0 where "Escrows s i0 = Some e0" "freelancer e0 = f" "auth env f" "escrow_status e0 = Active"
        "Milestones s (i0, j0) = Some m0" "milestone_status m0 = InProgress"
        "t = set_milestone i0 (m0\<lparr>milestone_status := UnderReview\<rparr>) s"
      by (blast dest: work_submit_Ok)
    then show ?thesis
      using evolves_upd [OF inv m, of i0 j0 m0 e0 env UnderReview t] upd [of i0 j0 m0]
      by (simp add: milestone_moves_def)
  next
    case (approve i0 cl j0 u)
    then obtain e0 m0 where "Escrows s i0 = Some e0" "client e0 = cl" "auth env cl" "escrow_status e0 = Active"
        "Milestones s (i0, j0) = Some m0" "milestone_status m0 = UnderReview"
        "t = set_milestone i0 (m0\<lparr>milestone_status := Approved\<rparr>) s"
      by (blast dest: work_approve_Ok)
    then show ?thesis
      using evolves_upd [OF inv m, of i0 j0 m0 e0 env Approved t] upd [of i0 j0 m0]
      by (simp add: milestone_moves_def)
  next
    case (reject i0 cl j0 u)
    then obtain e0 m0 where "Escrows s i0 = Some e0" "client e0 = cl" "auth env cl" "escrow_status e0 = Active"
        "Milestones s (i0, j0) = Some m0" "milestone_status m0 = UnderReview"
        "t = set_milestone i0 (m0\<lparr>milestone_status := InProgress\<rparr>) s"
      by (blast dest: reject_Ok)
    then show ?thesis
      using evolves_upd [OF inv m, of i0 j0 m0 e0 env InProgress t] upd [of i0 j0 m0]
      by (simp add: milestone_moves_def)
  next
    case (deposit i0 cl u)
    then obtain e0 m0 x where d: "Escrows s i0 = Some e0" "client e0 = cl" "auth env cl" "escrow_status e0 = Pending"
        "Milestones s (i0, 1) = Some m0"
        "t = set_analytics x (set_escrow (e0\<lparr>escrow_status := Active\<rparr>) (set_milestone i0 (m0\<lparr>milestone_status := InProgress\<rparr>) s))"
      by (blast dest: deposit_Ok)
    have "milestone_status m0 = MPending"
      using work_inv_get [OF inv d(1)] d(4,5) by (simp add: escrow_ok_def milestones_of_def)
    moreover have "Milestones t = Milestones (set_milestone i0 (m0\<lparr>milestone_status := InProgress\<rparr>) s)"
      by (simp add: d(6) set_escrow_def set_analytics_def)
    ultimately show ?thesis
      using evolves_upd [OF inv m d(5) d(1), of env InProgress t] d upd [OF d(5)]
      by (simp add: milestone_moves_def)
  next
    case (release i0 cl j0 x)
    then show ?thesis by (rule release_evolves [OF inv m])
  next
    case (create cl f a x ms i0)
    then show ?thesis by (rule create_evolves [OF inv m])
  qed (insert e m, auto dest!: raise_Ok cancel_escrow_Ok resolve_Ok intro!: evolves_same simp: set_escrow_def set_analytics_def)
qed

section \<open>All histories of the contract\<close>

lemma work_inv_initialize: "initialize env a f s = Ok (u, t) \<Longrightarrow> work_inv s \<Longrightarrow> work_inv t"
  by (auto simp: initialize_def work_inv_def escrow_setters get_arbiter_fee_bps_def get_escrow_count_def
      milestones_of_def Let_def split: if_splits)

lemma escrow_step_work:
  "escrow_step sha tc out self ws wt \<Longrightarrow> work_inv (snd ws) \<Longrightarrow> work_inv (snd wt)"
proof (induction rule: escrow_step.induct)
  case (initialize env a f s u t w)
  then show ?case using work_inv_initialize by simp
next
  case (work env s t w)
  then show ?case using work_call_inv by simp
qed (force dest!: swap_calls_frame same_work_inv simp: prod_eq_iff)+

lemma escrow_run_work:
  "(escrow_step sha tc out self)\<^sup>*\<^sup>* ws wt \<Longrightarrow> work_inv (snd ws) \<Longrightarrow> work_inv (snd wt)"
  by (induction rule: rtranclp_induct) (auto intro: escrow_step_work)

section \<open>A concrete run\<close>

definition work_env :: "nat \<Rightarrow> env" where
  "work_env n = (demo_env n)\<lparr>auth := (\<lambda>b. b \<noteq> 99)\<rparr>"

lemma work_env_simps [simp]:
  "timestamp (work_env n) = n" "current_contract (work_env n) = 99" "auth (work_env n) a \<longleftrightarrow> a \<noteq> 99"
  by (simp_all add: work_env_def demo_env_def)

definition no_transfer :: "unit token_transfer" where
  "no_transfer tok env a b x w = None"

definition demo_work :: escrow_state where
  "demo_work = empty_escrow\<lparr>Admin := Some 1, ArbiterFeeBps := Some 250, Initialized := Some True,
     AnalyticsEntry := Some \<lparr>total_escrows = 0, active_escrows = 0, completed_escrows = 0,
       disputed_escrows = 0, cancelled_escrows = 0, total_value_locked = 0, total_paid_out = 0\<rparr>\<rparr>"

definition demo_agreement :: Escrow where
  "demo_agreement = \<lparr>escrow_id = 1, client = 2, freelancer = 3, arbiter = 4, total_amount = 300,
     paid_amount = 0, milestone_count = 2, escrow_status = Pending, created_at = 10, arbiter_fee_bps = 250\<rparr>"

definition demo_work_created :: escrow_state where
  "demo_work_created = demo_work\<lparr>EscrowCount := Some 1, Escrows := [1 \<mapsto> demo_agreement],
     Milestones := [(1, 1) \<mapsto> \<lparr>milestone_id = 1, amount = 100, milestone_status = MPending\<rparr>,
       (1, 2) \<mapsto> \<lparr>milestone_id = 2, amount = 200, milestone_status = MPending\<rparr>],
     AnalyticsEntry := Some \<lparr>total_escrows = 1, active_escrows = 0, completed_escrows = 0,
       disputed_escrows = 0, cancelled_escrows = 0, total_value_locked = 0, total_paid_out = 0\<rparr>\<rparr>"

definition demo_work_active :: escrow_state where
  "demo_work_active = demo_work_created\<lparr>
     Escrows := [1 \<mapsto> demo_agreement\<lparr>escrow_status := Active\<rparr>],
     Milestones := [(1, 1) \<mapsto> \<lparr>milestone_id = 1, amount = 100, milestone_status = InProgress\<rparr>,
       (1, 2) \<mapsto> \<lparr>milestone_id = 2, amount = 200, milestone_status = MPending\<rparr>],
     AnalyticsEntry := Some \<lparr>total_escrows = 1, active_escrows = 1, completed_escrows = 0,
       disputed_escrows = 0, cancelled_escrows = 0, total_value_locked = 300, total_paid_out = 0\<rparr>\<rparr>"

lemmas demo_works = demo_work_def demo_work_created_def demo_work_active_def demo_agreement_def empty_escrow_def

lemma demo_work_initialize: "initialize (work_env 1) 1 250 empty_escrow = Ok ((), demo_work)"
  by (simp add: initialize_def is_initialized_def escrow_setters demo_works require_auth_def Let_def)

lemma demo_work_create: "create_escrow (work_env 10) 2 3 4 300 [100, 200] demo_work = Ok (1, demo_work_created)"
  by (simp add: create_escrow_def ensure_initialized_def is_initialized_def escrow_setters demo_works
      require_auth_def Let_def i128_add_def in_i128_def i128_max_def i128_min_def increment_escrow_count_def
      get_escrow_count_def get_arbiter_fee_bps_def get_analytics_def u32_add_def u32_max_def numeral_2_eq_2)

lemma demo_work_deposit: "deposit (work_env 20) 1 2 demo_work_created = Ok ((), demo_work_active)"
  by (simp add: deposit_def ensure_initialized_def is_initialized_def escrow_setters demo_works
      require_auth_def Let_def i128_add_def in_i128_def i128_max_def i128_min_def get_escrow_def
      get_milestone_def get_analytics_def u32_add_def u32_max_def fun_upd_twist)

lemma demo_work_run: "(escrow_step length no_transfer (=) 99)\<^sup>*\<^sup>* ((), empty_escrow) ((), demo_work_active)"
proof -
  have 1: "escrow_step length no_transfer (=) 99 ((), empty_escrow) ((), demo_work)"
    by (rule escrow_step.initialize [OF _ _ demo_work_initialize]) simp_all
  have 2: "escrow_step length no_transfer (=) 99 ((), demo_work) ((), demo_work_created)"
    by (rule escrow_step.work [OF _ _ work_call.create [OF demo_work_create]]) simp_all
  have 3: "escrow_step length no_transfer (=) 99 ((), demo_work_created) ((), demo_work_active)"
    by (rule escrow_step.work [OF _ _ work_call.deposit [OF demo_work_deposit]]) simp_all
  show ?thesis using 1 2 3 by (meson rtranclp.rtrancl_refl rtranclp.rtrancl_into_rtrancl)
qed

section \<open>Properties of the milestone escrows\<close>

text \<open>
  C10. In every reachable state, the milestones of an agreement are exactly the ids 1 to its
  milestone count and their amounts add up to its total; as long as it is not completed, the
  recorded payments are the sum of the amounts of its paid milestones; an active or disputed
  agreement still owes something, and a completed one records the whole total.
\<close>

theorem milestone_books:
  assumes "(escrow_step sha tc out self)\<^sup>*\<^sup>* (w0, empty_escrow) (w, s)" and "Escrows s i = Some e"
  shows "(\<forall>j. Milestones s (i, j) \<noteq> None \<longleftrightarrow> 1 \<le> j \<and> j \<le> milestone_count e) \<and>
    (\<Sum>j = 1..milestone_count e. amount (the (Milestones s (i, j)))) = total_amount e \<and>
    (escrow_status e \<noteq> Completed \<longrightarrow>
       paid_amount e = (\<Sum>j = 1..milestone_count e. paid_part (the (Milestones s (i, j))))) \<and>
    (escrow_status e \<in> {Active, Disputed} \<longrightarrow> paid_amount e < total_amount e) \<and>
    (escrow_status e \<in> {Pending, Cancelled} \<longrightarrow> paid_amount e = 0) \<and>
    (escrow_status e = Completed \<longrightarrow> paid_amount e = total_amount e)"
proof -
  have "escrow_ok i e (milestones_of s i)"
    using escrow_run_work [OF assms(1)] work_inv_empty work_inv_get assms(2) by simp
  then show ?thesis unfolding escrow_ok_def milestones_ok_def milestones_of_def msum_def by blast
qed

theorem milestone_books_witness:
  "(\<Sum>j = 1..2. amount (the (Milestones demo_work_active (1, j)))) = 300"
  using milestone_books [OF demo_work_run, of 1 "demo_agreement\<lparr>escrow_status := Active\<rparr>"]
  by (simp add: demo_works)

text \<open>
  A milestone's amount never changes, and its status changes only along pending, in progress,
  under review, approved (or back to in progress), paid, one edge per call, while the agreement is
  pending or active, and with the signature of the party that owns the edge: the freelancer submits,
  the client starts, approves, rejects and pays. When a milestone becomes paid the recorded payments
  grow by exactly its amount; a paid milestone stays paid.
\<close>

theorem milestone_lifecycle:
  assumes "(escrow_step sha tc out self)\<^sup>*\<^sup>* (w0, empty_escrow) (w, s)"
    and "work_call env s t" and "Milestones s (i, j) = Some m"
  shows "\<exists>e e' m'. Escrows s i = Some e \<and> Escrows t i = Some e' \<and> Milestones t (i, j) = Some m' \<and>
    amount m' = amount m \<and>
    (milestone_status m' \<noteq> milestone_status m \<longrightarrow>
       escrow_status e \<in> {Pending, Active} \<and> milestone_moves env e (milestone_status m) (milestone_status m')) \<and>
    (milestone_status m' = Paid \<and> milestone_status m \<noteq> Paid \<longrightarrow> paid_amount e' = paid_amount e + amount m)"
  using work_call_evolves [OF _ assms(3,2)] escrow_run_work [OF assms(1)] work_inv_empty
  by (simp add: milestone_evolves_def)

theorem milestone_lifecycle_witness:
  "\<exists>t m'. submit_milestone (work_env 30) 1 3 1 demo_work_active = Ok ((), t) \<and>
    Milestones t (1, 1) = Some m' \<and> amount m' = 100"
proof -
  have s: "submit_milestone (work_env 30) 1 3 1 demo_work_active =
      Ok ((), set_milestone 1 \<lparr>milestone_id = 1, amount = 100, milestone_status = UnderReview\<rparr> demo_work_active)"
    by (simp add: submit_milestone_def ensure_initialized_def is_initialized_def demo_works require_auth_def
        get_escrow_def get_milestone_def)
  have m: "Milestones demo_work_active (1, 1) = Some \<lparr>milestone_id = 1, amount = 100, milestone_status = InProgress\<rparr>"
    by (simp add: demo_works)
  show ?thesis
    using milestone_lifecycle [OF demo_work_run work_call.submit [OF s] m] s by auto
qed

end
