(* ===== verification/Stablecoin.thy ===== *)
theory Stablecoin
  imports Soroban_Prelude
begin

text \<open>
  The algorithmic stablecoin with its peg stability module, \<open>contracts/stablecoin/src/lib.rs\<close>: every
  entry point. The code reads its storage inline (\<open>get(&DataKey::K).unwrap_or(d)\<close>), and so does the
  model. The reserve assets of the module live off the contract: it keeps their amount as a number.
\<close>

section \<open>Types and storage\<close>

datatype stable_error =
    Unauthorized | ContractPaused | AlreadyInState | NotInitialized | InvalidAmount
  | InsufficientBalance | PriceStale | RebaseTooFrequent | PsmPausedErr | PsmDebtCeilingExceeded
  | PsmInsufficientReserve | InvalidFeeBps | InvalidDebtCeiling

record RebaseInfo =
  old_supply :: int
  new_supply :: int
  rebase_price :: int
  rebase_timestamp :: nat

record PsmSwapResult =
  amount_in :: int
  amount_out :: int
  fee_collected :: int
  vault_balance :: int
  minted_debt :: int

record PsmConfig =
  cfg_paused :: bool
  cfg_mint_fee_bps :: nat
  cfg_redeem_fee_bps :: nat
  cfg_debt_ceiling :: int
  cfg_minted_debt :: int
  cfg_vault_balance :: int
  cfg_fee_vault :: int

datatype stable_event =
    Ev_initialized address address | Ev_psm_params nat nat int | Ev_psm_pause bool
  | Ev_psm_mint address PsmSwapResult | Ev_psm_redeem address PsmSwapResult
  | Ev_psm_fees_collected address int | Ev_mint address int | Ev_burn address int
  | Ev_transfer address address int | Ev_price_updated address int nat | Ev_rebase RebaseInfo
  | Ev_paused address | Ev_unpaused address | Ev_reserve_added address int | Ev_reserve_withdrawn address int

record stable_state =
  Admin :: "address option"
  TargetPrice :: "int option"
  CurrentPrice :: "int option"
  TotalSupply :: "int option"
  ShareSupply :: "int option"
  UserTokens :: "address \<rightharpoonup> int"
  Paused :: "bool option"
  LastRebaseTime :: "nat option"
  ReserveBalance :: "int option"
  OracleAddress :: "address option"
  RebaseCooldown :: "nat option"
  PsmPaused :: "bool option"
  PsmMintFeeBps :: "nat option"
  PsmRedeemFeeBps :: "nat option"
  PsmDebtCeiling :: "int option"
  PsmMintedDebt :: "int option"
  PsmVaultBalance :: "int option"
  PsmFeeVault :: "int option"
  events :: "stable_event list"

definition empty_stable :: stable_state where
  "empty_stable = \<lparr>Admin = None, TargetPrice = None, CurrentPrice = None, TotalSupply = None,
     ShareSupply = None, UserTokens = Map.empty, Paused = None, LastRebaseTime = None,
     ReserveBalance = None, OracleAddress = None, RebaseCooldown = None, PsmPaused = None,
     PsmMintFeeBps = None, PsmRedeemFeeBps = None, PsmDebtCeiling = None, PsmMintedDebt = None,
     PsmVaultBalance = None, PsmFeeVault = None, events = []\<rparr>"

definition publish :: "stable_event \<Rightarrow> stable_state \<Rightarrow> stable_state" where
  "publish e s = s\<lparr>events := events s @ [e]\<rparr>"

section \<open>Read-only and private helpers\<close>

definition balance :: "address \<Rightarrow> stable_state \<Rightarrow> int" where
  "balance user s = unwrap_or 0 (UserTokens s user)"
definition total_supply :: "stable_state \<Rightarrow> int" where
  "total_supply s = unwrap_or 0 (TotalSupply s)"
definition get_price :: "stable_state \<Rightarrow> int" where
  "get_price s = unwrap_or 10000000 (CurrentPrice s)"
definition get_target_price :: "stable_state \<Rightarrow> int" where
  "get_target_price s = unwrap_or 10000000 (TargetPrice s)"
definition get_reserve :: "stable_state \<Rightarrow> int" where
  "get_reserve s = unwrap_or 0 (ReserveBalance s)"
definition is_paused :: "stable_state \<Rightarrow> bool" where
  "is_paused s = unwrap_or False (Paused s)"
definition get_admin :: "stable_state \<Rightarrow> (stable_error, address) outcome" where
  "get_admin s = ok_or NotInitialized (Admin s)"

definition assert_admin :: "address \<Rightarrow> stable_state \<Rightarrow> (stable_error, unit) outcome" where
  "assert_admin caller s =
     and_then (ok_or NotInitialized (Admin s)) (\<lambda>admin.
     if admin \<noteq> caller then Err Unauthorized else Ok ())"
definition assert_oracle :: "address \<Rightarrow> stable_state \<Rightarrow> (stable_error, unit) outcome" where
  "assert_oracle caller s =
     and_then (ok_or NotInitialized (OracleAddress s)) (\<lambda>oracle.
     if oracle \<noteq> caller then Err Unauthorized else Ok ())"
definition assert_not_paused :: "stable_state \<Rightarrow> (stable_error, unit) outcome" where
  "assert_not_paused s = (if is_paused s then Err ContractPaused else Ok ())"
definition assert_psm_not_paused :: "stable_state \<Rightarrow> (stable_error, unit) outcome" where
  "assert_psm_not_paused s = (if unwrap_or False (PsmPaused s) then Err PsmPausedErr else Ok ())"

section \<open>Initialisation and the peg stability module\<close>

definition init ::
    "env \<Rightarrow> address \<Rightarrow> address \<Rightarrow> stable_state \<Rightarrow> (stable_error, unit \<times> stable_state) outcome" where
  "init env admin oracle s =
     (if Admin s \<noteq> None then Err AlreadyInState
      else
        and_then (require_auth env admin) (\<lambda>_.
        Ok ((), publish (Ev_initialized admin oracle)
          (s\<lparr>Admin := Some admin, OracleAddress := Some oracle, TargetPrice := Some 10000000,
             CurrentPrice := Some 10000000, TotalSupply := Some 0, ShareSupply := Some 1000000000,
             Paused := Some False, LastRebaseTime := Some 0, ReserveBalance := Some 0,
             RebaseCooldown := Some 3600, PsmPaused := Some False, PsmMintFeeBps := Some 10,
             PsmRedeemFeeBps := Some 10, PsmDebtCeiling := Some 1000000000000, PsmMintedDebt := Some 0,
             PsmVaultBalance := Some 0, PsmFeeVault := Some 0\<rparr>))))"

definition psm_set_params ::
    "env \<Rightarrow> address \<Rightarrow> nat \<Rightarrow> nat \<Rightarrow> int \<Rightarrow> stable_state \<Rightarrow> (stable_error, unit \<times> stable_state) outcome" where
  "psm_set_params env admin mint_fee redeem_fee ceiling s =
     and_then (require_auth env admin) (\<lambda>_.
     and_then (assert_admin admin s) (\<lambda>_.
     if mint_fee > 500 \<or> redeem_fee > 500 then Err InvalidFeeBps
     else if ceiling \<le> 0 then Err InvalidDebtCeiling
     else
       let s1 = s\<lparr>PsmMintFeeBps := Some mint_fee\<rparr>;
           s2 = s1\<lparr>PsmRedeemFeeBps := Some redeem_fee\<rparr>;
           s3 = s2\<lparr>PsmDebtCeiling := Some ceiling\<rparr>
       in Ok ((), publish (Ev_psm_params mint_fee redeem_fee ceiling) s3)))"

definition psm_set_paused ::
    "env \<Rightarrow> address \<Rightarrow> bool \<Rightarrow> stable_state \<Rightarrow> (stable_error, unit \<times> stable_state) outcome" where
  "psm_set_paused env admin paused s =
     and_then (require_auth env admin) (\<lambda>_.
     and_then (assert_admin admin s) (\<lambda>_.
     Ok ((), publish (Ev_psm_pause paused) (s\<lparr>PsmPaused := Some paused\<rparr>))))"

definition psm_mint ::
    "env \<Rightarrow> address \<Rightarrow> int \<Rightarrow> stable_state \<Rightarrow> (stable_error, PsmSwapResult \<times> stable_state) outcome" where
  "psm_mint env user amt s =
     and_then (require_auth env user) (\<lambda>_.
     and_then (assert_not_paused s) (\<lambda>_.
     and_then (assert_psm_not_paused s) (\<lambda>_.
     if amt \<le> 0 then Err InvalidAmount
     else
       let debt_ceiling = unwrap_or 0 (PsmDebtCeiling s);
           debt = unwrap_or 0 (PsmMintedDebt s);
           mint_fee_bps = unwrap_or 10 (PsmMintFeeBps s) in
       and_then (i128_mul amt (int mint_fee_bps)) (\<lambda>p.
       and_then (i128_div p 10000) (\<lambda>fee.
       and_then (i128_sub amt fee) (\<lambda>out.
       and_then (i128_add debt out) (\<lambda>new_debt.
       if new_debt > debt_ceiling then Err PsmDebtCeilingExceeded
       else
         let vault = unwrap_or 0 (PsmVaultBalance s) in
         and_then (i128_add vault amt) (\<lambda>new_vault.
         let s1 = s\<lparr>PsmVaultBalance := Some new_vault\<rparr>;
             fee_vault = unwrap_or 0 (PsmFeeVault s1) in
         and_then (i128_add fee_vault fee) (\<lambda>new_fees.
         let s2 = s1\<lparr>PsmFeeVault := Some new_fees\<rparr>;
             user_balance = unwrap_or 0 (UserTokens s2 user) in
         and_then (i128_add user_balance out) (\<lambda>new_balance.
         let s3 = s2\<lparr>UserTokens := (UserTokens s2)(user \<mapsto> new_balance)\<rparr>;
             supply = unwrap_or 0 (TotalSupply s3) in
         and_then (i128_add supply out) (\<lambda>new_sup.
         let s4 = s3\<lparr>TotalSupply := Some new_sup\<rparr>;
             s5 = s4\<lparr>PsmMintedDebt := Some new_debt\<rparr>;
             result = \<lparr>amount_in = amt, amount_out = out, fee_collected = fee,
               vault_balance = new_vault, minted_debt = new_debt\<rparr>
         in Ok (result, publish (Ev_psm_mint user result) s5))))))))))))"

definition psm_redeem ::
    "env \<Rightarrow> address \<Rightarrow> int \<Rightarrow> stable_state \<Rightarrow> (stable_error, PsmSwapResult \<times> stable_state) outcome" where
  "psm_redeem env user amt s =
     and_then (require_auth env user) (\<lambda>_.
     and_then (assert_not_paused s) (\<lambda>_.
     and_then (assert_psm_not_paused s) (\<lambda>_.
     if amt \<le> 0 then Err InvalidAmount
     else
       let redeem_fee_bps = unwrap_or 10 (PsmRedeemFeeBps s) in
       and_then (i128_mul amt (int redeem_fee_bps)) (\<lambda>p.
       and_then (i128_div p 10000) (\<lambda>fee.
       and_then (i128_sub amt fee) (\<lambda>out.
       let vault = unwrap_or 0 (PsmVaultBalance s) in
       if vault < out then Err PsmInsufficientReserve
       else
         let user_balance = unwrap_or 0 (UserTokens s user) in
         if user_balance < amt then Err InsufficientBalance
         else
           and_then (i128_sub user_balance amt) (\<lambda>new_balance.
           let s1 = s\<lparr>UserTokens := (UserTokens s)(user \<mapsto> new_balance)\<rparr>;
               supply = unwrap_or 0 (TotalSupply s1) in
           and_then (i128_sub supply amt) (\<lambda>new_sup.
           let s2 = s1\<lparr>TotalSupply := Some new_sup\<rparr>;
               debt = unwrap_or 0 (PsmMintedDebt s2) in
           and_then (if debt > amt then i128_sub debt amt else Ok 0) (\<lambda>new_debt.
           let s3 = s2\<lparr>PsmMintedDebt := Some new_debt\<rparr> in
           and_then (i128_sub vault out) (\<lambda>new_vault.
           let s4 = s3\<lparr>PsmVaultBalance := Some new_vault\<rparr>;
               fee_vault = unwrap_or 0 (PsmFeeVault s4) in
           and_then (i128_add fee_vault fee) (\<lambda>new_fees.
           let s5 = s4\<lparr>PsmFeeVault := Some new_fees\<rparr>;
               result = \<lparr>amount_in = amt, amount_out = out, fee_collected = fee,
                 vault_balance = new_vault, minted_debt = new_debt\<rparr>
           in Ok (result, publish (Ev_psm_redeem user result) s5))))))))))))"

definition psm_collect_fees ::
    "env \<Rightarrow> address \<Rightarrow> stable_state \<Rightarrow> (stable_error, int \<times> stable_state) outcome" where
  "psm_collect_fees env admin s =
     and_then (require_auth env admin) (\<lambda>_.
     and_then (assert_admin admin s) (\<lambda>_.
     let fee_vault = unwrap_or 0 (PsmFeeVault s)
     in Ok (fee_vault, publish (Ev_psm_fees_collected admin fee_vault) (s\<lparr>PsmFeeVault := Some 0\<rparr>))))"

definition psm_config :: "stable_state \<Rightarrow> PsmConfig" where
  "psm_config s =
     \<lparr>cfg_paused = unwrap_or False (PsmPaused s), cfg_mint_fee_bps = unwrap_or 10 (PsmMintFeeBps s),
      cfg_redeem_fee_bps = unwrap_or 10 (PsmRedeemFeeBps s), cfg_debt_ceiling = unwrap_or 0 (PsmDebtCeiling s),
      cfg_minted_debt = unwrap_or 0 (PsmMintedDebt s), cfg_vault_balance = unwrap_or 0 (PsmVaultBalance s),
      cfg_fee_vault = unwrap_or 0 (PsmFeeVault s)\<rparr>"

section \<open>The base stablecoin\<close>

definition mint ::
    "env \<Rightarrow> address \<Rightarrow> address \<Rightarrow> int \<Rightarrow> stable_state \<Rightarrow> (stable_error, unit \<times> stable_state) outcome" where
  "mint env admin recipient amt s =
     and_then (require_auth env admin) (\<lambda>_.
     and_then (assert_admin admin s) (\<lambda>_.
     and_then (assert_not_paused s) (\<lambda>_.
     if amt \<le> 0 then Err InvalidAmount
     else
       let current_balance = unwrap_or 0 (UserTokens s recipient) in
       and_then (i128_add current_balance amt) (\<lambda>new_balance.
       let s1 = s\<lparr>UserTokens := (UserTokens s)(recipient \<mapsto> new_balance)\<rparr>;
           supply = unwrap_or 0 (TotalSupply s1) in
       and_then (i128_add supply amt) (\<lambda>new_sup.
       Ok ((), publish (Ev_mint recipient amt) (s1\<lparr>TotalSupply := Some new_sup\<rparr>)))))))"

definition burn ::
    "env \<Rightarrow> address \<Rightarrow> int \<Rightarrow> stable_state \<Rightarrow> (stable_error, unit \<times> stable_state) outcome" where
  "burn env from amt s =
     and_then (require_auth env from) (\<lambda>_.
     and_then (assert_not_paused s) (\<lambda>_.
     if amt \<le> 0 then Err InvalidAmount
     else
       let current_balance = unwrap_or 0 (UserTokens s from) in
       if current_balance < amt then Err InsufficientBalance
       else
         and_then (i128_sub current_balance amt) (\<lambda>new_balance.
         let s1 = s\<lparr>UserTokens := (UserTokens s)(from \<mapsto> new_balance)\<rparr>;
             supply = unwrap_or 0 (TotalSupply s1) in
         and_then (i128_sub supply amt) (\<lambda>new_sup.
         Ok ((), publish (Ev_burn from amt) (s1\<lparr>TotalSupply := Some new_sup\<rparr>))))))"

text \<open>Both balances are read before either is written.\<close>

definition transfer ::
    "env \<Rightarrow> address \<Rightarrow> address \<Rightarrow> int \<Rightarrow> stable_state \<Rightarrow> (stable_error, unit \<times> stable_state) outcome" where
  "transfer env from recipient amt s =
     and_then (require_auth env from) (\<lambda>_.
     and_then (assert_not_paused s) (\<lambda>_.
     if amt \<le> 0 then Err InvalidAmount
     else
       let from_balance = unwrap_or 0 (UserTokens s from) in
       if from_balance < amt then Err InsufficientBalance
       else
         let to_balance = unwrap_or 0 (UserTokens s recipient) in
         and_then (i128_sub from_balance amt) (\<lambda>new_from.
         let s1 = s\<lparr>UserTokens := (UserTokens s)(from \<mapsto> new_from)\<rparr> in
         and_then (i128_add to_balance amt) (\<lambda>new_to.
         let s2 = s1\<lparr>UserTokens := (UserTokens s1)(recipient \<mapsto> new_to)\<rparr>
         in Ok ((), publish (Ev_transfer from recipient amt) s2)))))"

definition set_price ::
    "env \<Rightarrow> address \<Rightarrow> int \<Rightarrow> stable_state \<Rightarrow> (stable_error, unit \<times> stable_state) outcome" where
  "set_price env oracle new_price s =
     and_then (require_auth env oracle) (\<lambda>_.
     and_then (assert_oracle oracle s) (\<lambda>_.
     if new_price \<le> 0 then Err InvalidAmount
     else Ok ((), publish (Ev_price_updated oracle new_price (timestamp env)) (s\<lparr>CurrentPrice := Some new_price\<rparr>))))"

text \<open>\<open>(hi - lo) * 1_000_000 / target\<close> and \<open>supply * ratio / 1_000_000\<close>, as in both branches of
  \<open>rebase\<close>.\<close>

definition rebase_amount :: "int \<Rightarrow> int \<Rightarrow> int \<Rightarrow> int \<Rightarrow> (stable_error, int) outcome" where
  "rebase_amount hi lo target supply =
     and_then (i128_sub hi lo) (\<lambda>d.
     and_then (i128_mul d 1000000) (\<lambda>n.
     and_then (i128_div n target) (\<lambda>ratio.
     and_then (i128_mul supply ratio) (\<lambda>m. i128_div m 1000000))))"

definition rebase ::
    "env \<Rightarrow> address \<Rightarrow> stable_state \<Rightarrow> (stable_error, RebaseInfo \<times> stable_state) outcome" where
  "rebase env caller s =
     and_then (require_auth env caller) (\<lambda>_.
     and_then (assert_not_paused s) (\<lambda>_.
     let last_rebase = unwrap_or 0 (LastRebaseTime s);
         cooldown = unwrap_or 3600 (RebaseCooldown s);
         current_time = timestamp env in
     and_then (u64_add last_rebase cooldown) (\<lambda>ready.
     if current_time < ready then Err RebaseTooFrequent
     else
       and_then (unwrap (CurrentPrice s)) (\<lambda>current_price.
       and_then (unwrap (TargetPrice s)) (\<lambda>target_price.
       let old = unwrap_or 0 (TotalSupply s) in
       and_then
         (if current_price > target_price then
            and_then (rebase_amount current_price target_price target_price old) (\<lambda>expansion_amount.
            i128_add old expansion_amount)
          else if current_price < target_price then
            and_then (rebase_amount target_price current_price target_price old) (\<lambda>max_contraction.
            let reserve = unwrap_or 0 (ReserveBalance s);
                actual_contraction = (if max_contraction > reserve then reserve else max_contraction)
            in i128_sub old actual_contraction)
          else Ok old) (\<lambda>new.
       let s1 = s\<lparr>TotalSupply := Some new\<rparr>;
           s2 = s1\<lparr>LastRebaseTime := Some current_time\<rparr>;
           info = \<lparr>old_supply = old, new_supply = new, rebase_price = current_price,
             rebase_timestamp = current_time\<rparr>
       in Ok (info, publish (Ev_rebase info) s2)))))))"

definition pause ::
    "env \<Rightarrow> address \<Rightarrow> stable_state \<Rightarrow> (stable_error, unit \<times> stable_state) outcome" where
  "pause env admin s =
     and_then (require_auth env admin) (\<lambda>_.
     and_then (assert_admin admin s) (\<lambda>_.
     if is_paused s then Err AlreadyInState
     else Ok ((), publish (Ev_paused admin) (s\<lparr>Paused := Some True\<rparr>))))"

definition unpause ::
    "env \<Rightarrow> address \<Rightarrow> stable_state \<Rightarrow> (stable_error, unit \<times> stable_state) outcome" where
  "unpause env admin s =
     and_then (require_auth env admin) (\<lambda>_.
     and_then (assert_admin admin s) (\<lambda>_.
     if \<not> is_paused s then Err AlreadyInState
     else Ok ((), publish (Ev_unpaused admin) (s\<lparr>Paused := Some False\<rparr>))))"

definition add_reserve ::
    "env \<Rightarrow> address \<Rightarrow> int \<Rightarrow> stable_state \<Rightarrow> (stable_error, unit \<times> stable_state) outcome" where
  "add_reserve env admin amt s =
     and_then (require_auth env admin) (\<lambda>_.
     and_then (assert_admin admin s) (\<lambda>_.
     if amt \<le> 0 then Err InvalidAmount
     else
       let current_reserve = unwrap_or 0 (ReserveBalance s) in
       and_then (i128_add current_reserve amt) (\<lambda>r.
       Ok ((), publish (Ev_reserve_added admin amt) (s\<lparr>ReserveBalance := Some r\<rparr>)))))"

definition withdraw_reserve ::
    "env \<Rightarrow> address \<Rightarrow> int \<Rightarrow> stable_state \<Rightarrow> (stable_error, unit \<times> stable_state) outcome" where
  "withdraw_reserve env admin amt s =
     and_then (require_auth env admin) (\<lambda>_.
     and_then (assert_admin admin s) (\<lambda>_.
     if amt \<le> 0 then Err InvalidAmount
     else
       let current_reserve = unwrap_or 0 (ReserveBalance s) in
       if current_reserve < amt then Err InsufficientBalance
       else
         and_then (i128_sub current_reserve amt) (\<lambda>r.
         Ok ((), publish (Ev_reserve_withdrawn admin amt) (s\<lparr>ReserveBalance := Some r\<rparr>)))))"

section \<open>Histories\<close>

text \<open>One successful call, by anybody, at any time; widths of \<open>u32\<close> and \<open>i128\<close> arguments as the host
  decodes them.\<close>

inductive stable_call :: "env \<Rightarrow> stable_state \<Rightarrow> stable_state \<Rightarrow> bool" for env where
  init: "init env a orc s = Ok (u, t) \<Longrightarrow> stable_call env s t"
| params: "psm_set_params env a m r c s = Ok (u, t) \<Longrightarrow> stable_call env s t"
| psm_paused: "psm_set_paused env a b s = Ok (u, t) \<Longrightarrow> stable_call env s t"
| psm_mint: "psm_mint env a x s = Ok (p, t) \<Longrightarrow> stable_call env s t"
| psm_redeem: "psm_redeem env a x s = Ok (p, t) \<Longrightarrow> stable_call env s t"
| fees: "psm_collect_fees env a s = Ok (x, t) \<Longrightarrow> stable_call env s t"
| mint: "mint env a b x s = Ok (u, t) \<Longrightarrow> stable_call env s t"
| burn: "burn env a x s = Ok (u, t) \<Longrightarrow> stable_call env s t"
| transfer: "transfer env a b x s = Ok (u, t) \<Longrightarrow> stable_call env s t"
| price: "set_price env a x s = Ok (u, t) \<Longrightarrow> stable_call env s t"
| rebase: "rebase env a s = Ok (i, t) \<Longrightarrow> stable_call env s t"
| pause: "pause env a s = Ok (u, t) \<Longrightarrow> stable_call env s t"
| unpause: "unpause env a s = Ok (u, t) \<Longrightarrow> stable_call env s t"
| add_reserve: "add_reserve env a x s = Ok (u, t) \<Longrightarrow> stable_call env s t"
| withdraw_reserve: "withdraw_reserve env a x s = Ok (u, t) \<Longrightarrow> stable_call env s t"

inductive stable_step :: "stable_state \<Rightarrow> stable_state \<Rightarrow> bool" where
  "stable_call env s t \<Longrightarrow> stable_step s t"

end
