(* ===== verification/Stablecoin_Correct.thy ===== *)
theory Stablecoin_Correct
  imports Stablecoin
begin

text \<open>
  Correctness of the stablecoin: the debt of the peg stability module is covered by its vault, fees
  are bounded, and how far the recorded supply can move away from the sum of the balances.
\<close>

section \<open>The invariant\<close>

definition psm_debt :: "stable_state \<Rightarrow> int" where "psm_debt s = unwrap_or 0 (PsmMintedDebt s)"
definition psm_vault :: "stable_state \<Rightarrow> int" where "psm_vault s = unwrap_or 0 (PsmVaultBalance s)"
definition psm_fees :: "stable_state \<Rightarrow> int" where "psm_fees s = unwrap_or 0 (PsmFeeVault s)"
definition holders_total :: "stable_state \<Rightarrow> int" where "holders_total s = total_bal (UserTokens s)"

definition stable_inv :: "stable_state \<Rightarrow> bool" where
  "stable_inv s \<longleftrightarrow>
     finite (dom (UserTokens s)) \<and> (\<forall>a. 0 \<le> bal (UserTokens s) a) \<and>
     0 \<le> psm_debt s \<and> psm_debt s \<le> psm_vault s \<and> 0 \<le> psm_fees s \<and> 0 \<le> get_reserve s \<and>
     unwrap_or 10 (PsmMintFeeBps s) \<le> 500 \<and> unwrap_or 10 (PsmRedeemFeeBps s) \<le> 500 \<and>
     (Admin s = None \<longrightarrow> UserTokens s = Map.empty \<and> TotalSupply s = None \<and>
        PsmDebtCeiling s = None \<and> CurrentPrice s = None \<and> OracleAddress s = None)"

lemmas stable_views = psm_debt_def psm_vault_def psm_fees_def holders_total_def balance_def total_supply_def
  get_reserve_def

lemma balance_bal: "balance a s = bal (UserTokens s) a"
  by (simp add: bal_def balance_def)

lemma stable_inv_empty: "stable_inv empty_stable"
  by (simp add: stable_inv_def empty_stable_def stable_views)

text \<open>A fee of at most five percent.\<close>

lemma fee_bounds:
  assumes "0 < x" "b \<le> 500"
  shows "0 \<le> (x * int b) sdiv 10000" "(x * int b) sdiv 10000 \<le> x div 20" "(x * int b) sdiv 10000 < x"
proof -
  have nn: "0 \<le> x * int b" using assms by simp
  then show 0: "0 \<le> (x * int b) sdiv 10000" by (simp add: pos_imp_zdiv_nonneg_iff)
  have "x * int b \<le> x * 500" using assms by (intro mult_left_mono) auto
  then have "(x * int b) div 10000 \<le> (x * 500) div 10000" by (rule zdiv_mono1) simp
  also have "(x * 500) div 10000 = x div 20" by simp
  finally show 1: "(x * int b) sdiv 10000 \<le> x div 20" using nn by simp
  show "(x * int b) sdiv 10000 < x" using 1 assms(1) by linarith
qed

section \<open>What a successful call does\<close>

lemma stable_assert_admin_Ok [simp]: "assert_admin a s = Ok u \<longleftrightarrow> Admin s = Some a"
  by (auto simp: assert_admin_def)
lemma assert_oracle_Ok [simp]: "assert_oracle a s = Ok u \<longleftrightarrow> OracleAddress s = Some a"
  by (auto simp: assert_oracle_def)
lemma assert_not_paused_Ok [simp]: "assert_not_paused s = Ok u \<longleftrightarrow> \<not> is_paused s"
  by (simp add: assert_not_paused_def)
lemma assert_psm_not_paused_Ok [simp]:
  "assert_psm_not_paused s = Ok u \<longleftrightarrow> \<not> unwrap_or False (PsmPaused s)"
  by (simp add: assert_psm_not_paused_def)

definition mint_fee :: "int \<Rightarrow> stable_state \<Rightarrow> int" where
  "mint_fee x s = (x * int (unwrap_or 10 (PsmMintFeeBps s))) sdiv 10000"
definition redeem_fee :: "int \<Rightarrow> stable_state \<Rightarrow> int" where
  "redeem_fee x s = (x * int (unwrap_or 10 (PsmRedeemFeeBps s))) sdiv 10000"

lemma psm_mint_Ok:
  assumes "psm_mint env a x s = Ok (p, t)"
  shows "auth env a \<and> \<not> is_paused s \<and> 0 < x \<and>
    psm_debt s + (x - mint_fee x s) \<le> unwrap_or 0 (PsmDebtCeiling s) \<and>
    p = \<lparr>amount_in = x, amount_out = x - mint_fee x s, fee_collected = mint_fee x s,
         vault_balance = psm_vault s + x, minted_debt = psm_debt s + (x - mint_fee x s)\<rparr> \<and>
    t = publish (Ev_psm_mint a p) (s\<lparr>PsmVaultBalance := Some (psm_vault s + x),
      PsmFeeVault := Some (psm_fees s + mint_fee x s),
      UserTokens := (UserTokens s)(a \<mapsto> balance a s + (x - mint_fee x s)),
      TotalSupply := Some (total_supply s + (x - mint_fee x s)),
      PsmMintedDebt := Some (psm_debt s + (x - mint_fee x s))\<rparr>)"
  using assms by (auto simp: psm_mint_def mint_fee_def Let_def stable_views)

lemma psm_redeem_Ok:
  assumes "psm_redeem env a x s = Ok (p, t)"
  shows "auth env a \<and> \<not> is_paused s \<and> 0 < x \<and> x - redeem_fee x s \<le> psm_vault s \<and> x \<le> balance a s \<and>
    p = \<lparr>amount_in = x, amount_out = x - redeem_fee x s, fee_collected = redeem_fee x s,
         vault_balance = psm_vault s - (x - redeem_fee x s), minted_debt = max 0 (psm_debt s - x)\<rparr> \<and>
    t = publish (Ev_psm_redeem a p) (s\<lparr>UserTokens := (UserTokens s)(a \<mapsto> balance a s - x),
      TotalSupply := Some (total_supply s - x), PsmMintedDebt := Some (max 0 (psm_debt s - x)),
      PsmVaultBalance := Some (psm_vault s - (x - redeem_fee x s)),
      PsmFeeVault := Some (psm_fees s + redeem_fee x s)\<rparr>)"
  using assms by (auto simp: psm_redeem_def redeem_fee_def Let_def stable_views max_def split: if_splits)

lemma stable_mint_Ok:
  assumes "mint env a b x s = Ok (u, t)"
  shows "auth env a \<and> Admin s = Some a \<and> 0 < x \<and>
    t = publish (Ev_mint b x) (s\<lparr>UserTokens := (UserTokens s)(b \<mapsto> balance b s + x),
      TotalSupply := Some (total_supply s + x)\<rparr>)"
  using assms by (auto simp: mint_def Let_def stable_views)

lemma stable_burn_Ok:
  assumes "burn env a x s = Ok (u, t)"
  shows "auth env a \<and> 0 < x \<and> x \<le> balance a s \<and>
    t = publish (Ev_burn a x) (s\<lparr>UserTokens := (UserTokens s)(a \<mapsto> balance a s - x),
      TotalSupply := Some (total_supply s - x)\<rparr>)"
  using assms by (auto simp: burn_def Let_def stable_views)

lemma stable_transfer_Ok:
  assumes "transfer env a b x s = Ok (u, t)"
  shows "auth env a \<and> 0 < x \<and> x \<le> balance a s \<and>
    t = publish (Ev_transfer a b x)
      (s\<lparr>UserTokens := (UserTokens s)(a \<mapsto> balance a s - x, b \<mapsto> balance b s + x)\<rparr>)"
  using assms by (auto simp: transfer_def Let_def stable_views)

lemma rebase_Ok:
  assumes "rebase env a s = Ok (i, t)"
  shows "auth env a \<and> old_supply i = total_supply s \<and> total_supply t = new_supply i \<and>
    unwrap_or 0 (LastRebaseTime s) + unwrap_or 3600 (RebaseCooldown s) \<le> timestamp env \<and>
    (\<exists>n. t = publish (Ev_rebase i) (s\<lparr>TotalSupply := Some n, LastRebaseTime := Some (timestamp env)\<rparr>)) \<and>
    CurrentPrice s \<noteq> None"
  using assms by (auto simp: rebase_def Let_def stable_views publish_def simp del: i128_arith_Ok)

section \<open>Every call keeps the invariant\<close>

lemma stable_invI:
  assumes "finite (dom (UserTokens t))" "\<And>b. 0 \<le> bal (UserTokens t) b"
    and "0 \<le> psm_debt t" "psm_debt t \<le> psm_vault t" "0 \<le> psm_fees t" "0 \<le> get_reserve t"
    and "unwrap_or 10 (PsmMintFeeBps t) \<le> 500" "unwrap_or 10 (PsmRedeemFeeBps t) \<le> 500" "Admin t \<noteq> None"
  shows "stable_inv t"
  using assms by (auto simp: stable_inv_def)

lemma stable_invD:
  assumes "stable_inv s"
  shows "finite (dom (UserTokens s))" "0 \<le> bal (UserTokens s) a" "0 \<le> balance a s"
    "0 \<le> psm_debt s" "psm_debt s \<le> psm_vault s" "0 \<le> psm_fees s" "0 \<le> get_reserve s"
    "unwrap_or 10 (PsmMintFeeBps s) \<le> 500" "unwrap_or 10 (PsmRedeemFeeBps s) \<le> 500"
    "Admin s = None \<Longrightarrow> UserTokens s = Map.empty \<and> TotalSupply s = None \<and>
       PsmDebtCeiling s = None \<and> CurrentPrice s = None \<and> OracleAddress s = None"
  using assms by (simp_all add: stable_inv_def balance_bal)

lemma fees_small:
  assumes "stable_inv s" "0 < x"
  shows "0 \<le> mint_fee x s" "mint_fee x s < x" "0 \<le> redeem_fee x s" "redeem_fee x s < x"
    "mint_fee x s \<le> x div 20" "redeem_fee x s \<le> x div 20"
  using fee_bounds [OF assms(2)] stable_invD(8,9) [OF assms(1)] unfolding mint_fee_def redeem_fee_def by blast+

lemma live_if_holdings:
  assumes "stable_inv s" "balance a s \<noteq> 0 \<or> unwrap_or 0 (PsmDebtCeiling s) \<noteq> 0 \<or> CurrentPrice s \<noteq> None \<or>
      OracleAddress s \<noteq> None"
  shows "\<exists>a. Admin s = Some a"
  using assms stable_invD(10) [OF assms(1)] by (cases "Admin s") (auto simp: balance_def)

lemmas stable_post = publish_def psm_debt_def psm_vault_def psm_fees_def get_reserve_def

lemma inv_psm_mint:
  assumes inv: "stable_inv s" and r: "psm_mint env a x s = Ok (p, t)" shows "stable_inv t"
proof -
  note ok = psm_mint_Ok [OF r]
  then have x: "0 < x" by blast
  note f = fees_small [OF inv x] and i = stable_invD [OF inv]
  have "unwrap_or 0 (PsmDebtCeiling s) \<noteq> 0" using ok f(2) i(4) by auto
  then have live: "\<exists>a. Admin s = Some a" using live_if_holdings [OF inv] by blast
  show ?thesis
    by (rule stable_invI) (use ok f i live in \<open>auto simp: stable_post\<close>)
qed

lemma inv_psm_redeem:
  assumes inv: "stable_inv s" and r: "psm_redeem env a x s = Ok (p, t)" shows "stable_inv t"
proof -
  note ok = psm_redeem_Ok [OF r]
  then have x: "0 < x" "x \<le> balance a s" by blast+
  note f = fees_small [OF inv x(1)] and i = stable_invD [OF inv]
  have live: "\<exists>a. Admin s = Some a" using live_if_holdings [OF inv, of a] x by auto
  show ?thesis
    by (rule stable_invI) (use ok f i live x in \<open>auto simp: stable_post\<close>)
qed

lemma inv_stable_tokens:
  assumes inv: "stable_inv s"
  shows "mint env a b x s = Ok (u, t) \<Longrightarrow> stable_inv t" "burn env a x s = Ok (u, t) \<Longrightarrow> stable_inv t"
    "transfer env a b x s = Ok (u, t) \<Longrightarrow> stable_inv t"
proof -
  note i = stable_invD [OF inv]
  show "stable_inv t" if r: "mint env a b x s = Ok (u, t)"
    by (rule stable_invI) (use stable_mint_Ok [OF r] i in \<open>auto simp: stable_post intro: add_nonneg_nonneg less_imp_le\<close>)
  show "stable_inv t" if r: "burn env a x s = Ok (u, t)"
  proof -
    have live: "\<exists>a. Admin s = Some a" using live_if_holdings [OF inv, of a] stable_burn_Ok [OF r] by auto
    show ?thesis by (rule stable_invI) (use stable_burn_Ok [OF r] i live in \<open>auto simp: stable_post\<close>)
  qed
  show "stable_inv t" if r: "transfer env a b x s = Ok (u, t)"
  proof -
    have live: "\<exists>a. Admin s = Some a" using live_if_holdings [OF inv, of a] stable_transfer_Ok [OF r] by auto
    show ?thesis
      by (rule stable_invI)
        (use stable_transfer_Ok [OF r] i live in \<open>auto simp: stable_post intro: add_nonneg_nonneg less_imp_le\<close>)
  qed
qed

lemma inv_stable_admin:
  assumes inv: "stable_inv s"
  shows "init env a orc s = Ok (u, t) \<Longrightarrow> stable_inv t"
    "psm_set_params env a m r c s = Ok (u, t) \<Longrightarrow> stable_inv t"
    "psm_set_paused env a b s = Ok (u, t) \<Longrightarrow> stable_inv t"
    "psm_collect_fees env a s = Ok (x, t) \<Longrightarrow> stable_inv t"
    "set_price env a x s = Ok (u, t) \<Longrightarrow> stable_inv t"
    "pause env a s = Ok (u, t) \<Longrightarrow> stable_inv t"
    "unpause env a s = Ok (u, t) \<Longrightarrow> stable_inv t"
    "add_reserve env a x s = Ok (u, t) \<Longrightarrow> stable_inv t"
    "withdraw_reserve env a x s = Ok (u, t) \<Longrightarrow> stable_inv t"
  using stable_invD [OF inv] live_if_holdings [OF inv]
  by (auto intro!: stable_invI simp: init_def psm_set_params_def psm_set_paused_def psm_collect_fees_def
      set_price_def pause_def unpause_def add_reserve_def withdraw_reserve_def Let_def stable_post split: if_splits)

lemma inv_rebase:
  assumes inv: "stable_inv s" and r: "rebase env a s = Ok (i, t)" shows "stable_inv t"
proof -
  have live: "\<exists>a. Admin s = Some a" using live_if_holdings [OF inv] rebase_Ok [OF r] by blast
  show ?thesis
    by (rule stable_invI) (use rebase_Ok [OF r] stable_invD [OF inv] live in \<open>auto simp: stable_post\<close>)
qed

lemma stable_call_inv: "stable_call env s t \<Longrightarrow> stable_inv s \<Longrightarrow> stable_inv t"
  by (induction rule: stable_call.induct)
    (blast intro: inv_psm_mint inv_psm_redeem inv_stable_tokens inv_stable_admin inv_rebase)+

interpretation stable: contract_machine empty_stable stable_step stable_inv
  by unfold_locales (auto simp: stable_inv_empty stable_step.simps intro: stable_call_inv)

section \<open>The recorded supply and the balances\<close>

definition supply_drift :: "stable_state \<Rightarrow> int" where
  "supply_drift s = total_supply s - holders_total s"

lemma drift_call:
  assumes inv: "stable_inv s" and c: "stable_call env s t"
  shows "supply_drift t = supply_drift s \<or>
    (\<exists>a i. rebase env a s = Ok (i, t) \<and> holders_total t = holders_total s \<and>
       supply_drift t = supply_drift s + (new_supply i - old_supply i)) \<or>
    (\<exists>a x. transfer env a a x s = Ok ((), t) \<and> total_supply t = total_supply s \<and>
       supply_drift t = supply_drift s - x)"
proof -
  have fin: "finite (dom (UserTokens s))" by (rule stable_invD [OF inv])
  note post = supply_drift_def holders_total_def total_supply_def publish_def balance_bal
  show ?thesis
    using c
  proof cases
    case (init a orc u)
    then have "Admin s = None" "UserTokens t = UserTokens s" "TotalSupply t = Some 0"
      by (auto simp: init_def publish_def split: if_splits)
    then show ?thesis using stable_invD(10) [OF inv] by (simp add: post)
  next
    case (psm_mint a x p)
    then show ?thesis using psm_mint_Ok [OF psm_mint] fin by (simp add: post del: fun_upd_apply)
  next
    case (psm_redeem a x p)
    then show ?thesis using psm_redeem_Ok [OF psm_redeem] fin by (simp add: post del: fun_upd_apply)
  next
    case (mint a b x u)
    then show ?thesis using stable_mint_Ok [OF mint] fin by (simp add: post del: fun_upd_apply)
  next
    case (burn a x u)
    then show ?thesis using stable_burn_Ok [OF burn] fin by (simp add: post del: fun_upd_apply)
  next
    case (transfer a b x u)
    then show ?thesis
      using stable_transfer_Ok [OF transfer] fin by (cases "a = b") (auto simp: post simp del: fun_upd_apply)
  next
    case (rebase a i)
    have "holders_total t = holders_total s \<and> supply_drift t = supply_drift s + (new_supply i - old_supply i)"
      using rebase_Ok [OF rebase] by (auto simp: post)
    then show ?thesis using rebase by blast
  qed (auto simp: post psm_set_params_def psm_set_paused_def psm_collect_fees_def
      set_price_def pause_def unpause_def add_reserve_def withdraw_reserve_def Let_def split: if_splits)
qed

section \<open>A redemption that cannot fail\<close>

lemma psm_redeem_succeeds:
  assumes inv: "stable_inv s"
    and h: "auth env a" "\<not> is_paused s" "\<not> cfg_paused (psm_config s)" "0 < x" "x \<le> balance a s" "x \<le> psm_debt s"
    and fit: "in_i128 (x * 500)" "in_i128 (psm_fees s + x)" "in_i128 (total_supply s - x)"
      "in_i128 (balance a s)" "in_i128 (psm_vault s)" "in_i128 (psm_debt s)"
  shows "\<exists>p t. psm_redeem env a x s = Ok (p, t)"
proof -
  note i = stable_invD [OF inv]
  let ?b = "unwrap_or 10 (PsmRedeemFeeBps s)"
  let ?f = "(x * int ?b) div 10000"
  have nn: "0 \<le> x * int ?b" using h(4) by simp
  have f: "0 \<le> ?f" "?f < x" using fees_small(3,4) [OF inv h(4)] nn by (simp_all add: redeem_fee_def)
  have "x * int ?b \<le> x * 500" using h(4) i(9) by (intro mult_left_mono) auto
  then have 1: "in_i128 (x * int ?b)" using in_i128_le [OF fit(1) nn] by blast
  have 2: "in_i128 ?f" "in_i128 (x - ?f)" using in_i128_le [OF fit(6)] f h(6) by auto
  have 3: "in_i128 (balance a s - x)" by (rule in_i128_le [OF fit(4)]) (use h in auto)
  have 4: "in_i128 (psm_debt s - x)" by (rule in_i128_le [OF fit(6)]) (use h in auto)
  have 5: "x - ?f \<le> psm_vault s" using f h(6) i(5) by linarith
  then have 6: "in_i128 (psm_vault s - (x - ?f))" by (intro in_i128_le [OF fit(5)]) (use f in auto)
  have 7: "in_i128 (psm_fees s + ?f)" by (rule in_i128_le [OF fit(2)]) (use f i(6) in auto)
  show ?thesis
    using h 1 2 3 4 5 6 7 fit(3) nn
    by (simp add: psm_redeem_def Let_def stable_views psm_config_def i128_add_def i128_sub_def i128_mul_def
        i128_div_def require_auth_def assert_not_paused_def assert_psm_not_paused_def)
qed

section \<open>A concrete run\<close>

definition demo_stable :: stable_state where
  "demo_stable = empty_stable\<lparr>Admin := Some 1, OracleAddress := Some 2, TargetPrice := Some 10000000,
     CurrentPrice := Some 10000000, TotalSupply := Some 0, ShareSupply := Some 1000000000,
     Paused := Some False, LastRebaseTime := Some 0, ReserveBalance := Some 0,
     RebaseCooldown := Some 3600, PsmPaused := Some False, PsmMintFeeBps := Some 10,
     PsmRedeemFeeBps := Some 10, PsmDebtCeiling := Some 1000000000000, PsmMintedDebt := Some 0,
     PsmVaultBalance := Some 0, PsmFeeVault := Some 0, events := [Ev_initialized 1 2]\<rparr>"

definition demo_swap_in :: PsmSwapResult where
  "demo_swap_in = \<lparr>amount_in = 100000, amount_out = 99900, fee_collected = 100, vault_balance = 100000,
     minted_debt = 99900\<rparr>"

definition demo_stable_minted :: stable_state where
  "demo_stable_minted = demo_stable\<lparr>TotalSupply := Some 99900, UserTokens := [5 \<mapsto> 99900],
     PsmMintedDebt := Some 99900, PsmVaultBalance := Some 100000, PsmFeeVault := Some 100,
     events := [Ev_initialized 1 2, Ev_psm_mint 5 demo_swap_in]\<rparr>"

lemmas demo_stables = demo_stable_def demo_stable_minted_def demo_swap_in_def empty_stable_def

lemma demo_stable_init: "init (demo_env 1) 1 2 empty_stable = Ok ((), demo_stable)"
  by (simp add: init_def demo_stables require_auth_def demo_env_def publish_def)

lemma demo_stable_psm_mint: "psm_mint (demo_env 10) 5 100000 demo_stable = Ok (demo_swap_in, demo_stable_minted)"
  by (simp add: psm_mint_def demo_stables require_auth_def demo_env_def publish_def assert_not_paused_def
      assert_psm_not_paused_def is_paused_def Let_def i128_mul_def i128_div_def i128_sub_def i128_add_def
      in_i128_def i128_max_def i128_min_def)

lemma demo_stable_run: "stable_step\<^sup>*\<^sup>* empty_stable demo_stable_minted"
proof -
  have 1: "stable_step empty_stable demo_stable"
    by (rule stable_step.intros, rule stable_call.init, rule demo_stable_init)
  have 2: "stable_step demo_stable demo_stable_minted"
    by (rule stable_step.intros, rule stable_call.psm_mint, rule demo_stable_psm_mint)
  show ?thesis using 1 2 by (meson rtranclp.rtrancl_refl rtranclp.rtrancl_into_rtrancl)
qed

section \<open>Properties\<close>

text \<open>
  C11. The peg stability module never owes more than it holds: in every reachable state the debt it
  has minted is covered by the reserve in its vault, and neither that reserve nor the fee account,
  the base reserve or any balance is negative. So a holder who is not paused out redeems any amount
  up to the outstanding debt: the redemption pays the amount less a fee and can fail for no other
  reason than a number that does not fit in \<open>i128\<close>. The code rounds the fee down, so it is at most
  \<open>x div 20\<close> and amounts below 20 pay none (the contract's README promises the opposite: fees that are
  rounded up, so that small swaps do not avoid them).
\<close>

theorem psm_debt_covered:
  assumes "stable_step\<^sup>*\<^sup>* empty_stable s"
  shows "0 \<le> psm_debt s \<and> psm_debt s \<le> psm_vault s \<and> 0 \<le> psm_fees s \<and> 0 \<le> get_reserve s \<and>
    (\<forall>a. 0 \<le> balance a s) \<and>
    (\<forall>env a x. auth env a \<and> \<not> is_paused s \<and> \<not> cfg_paused (psm_config s) \<and> 0 < x \<and> x \<le> balance a s \<and>
       x \<le> psm_debt s \<and> in_i128 (x * 500) \<and> in_i128 (psm_fees s + x) \<and> in_i128 (total_supply s - x) \<and>
       in_i128 (balance a s) \<and> in_i128 (psm_vault s) \<and> in_i128 (psm_debt s) \<longrightarrow>
       (\<exists>p t. psm_redeem env a x s = Ok (p, t) \<and> amount_out p + fee_collected p = x \<and>
          0 \<le> fee_collected p \<and> fee_collected p \<le> x div 20 \<and> balance a t = balance a s - x))"
proof -
  have inv: "stable_inv s" by (rule stable.reachable_Inv [OF assms])
  note i = stable_invD [OF inv]
  have "\<exists>p t. psm_redeem env a x s = Ok (p, t) \<and> amount_out p + fee_collected p = x \<and>
          0 \<le> fee_collected p \<and> fee_collected p \<le> x div 20 \<and> balance a t = balance a s - x"
    if h: "auth env a" "\<not> is_paused s" "\<not> cfg_paused (psm_config s)" "0 < x" "x \<le> balance a s" "x \<le> psm_debt s"
      "in_i128 (x * 500)" "in_i128 (psm_fees s + x)" "in_i128 (total_supply s - x)"
      "in_i128 (balance a s)" "in_i128 (psm_vault s)" "in_i128 (psm_debt s)" for env a x
  proof -
    obtain p t where r: "psm_redeem env a x s = Ok (p, t)" using psm_redeem_succeeds [OF inv h] by blast
    then show ?thesis
      using psm_redeem_Ok [OF r] fees_small [OF inv h(4)] by (auto simp: publish_def balance_def)
  qed
  then show ?thesis using i by blast
qed

theorem psm_debt_covered_witness:
  "0 < psm_debt demo_stable_minted \<and>
    (\<exists>p t. psm_redeem (demo_env 20) 5 99900 demo_stable_minted = Ok (p, t) \<and>
      amount_out p + fee_collected p = 99900 \<and> balance 5 t = 0)"
proof -
  have "auth (demo_env 20) 5 \<and> \<not> is_paused demo_stable_minted \<and> \<not> cfg_paused (psm_config demo_stable_minted) \<and>
      (0::int) < 99900 \<and> 99900 \<le> balance 5 demo_stable_minted \<and> 99900 \<le> psm_debt demo_stable_minted \<and>
      in_i128 (99900 * 500) \<and> in_i128 (psm_fees demo_stable_minted + 99900) \<and>
      in_i128 (total_supply demo_stable_minted - 99900) \<and> in_i128 (balance 5 demo_stable_minted) \<and>
      in_i128 (psm_vault demo_stable_minted) \<and> in_i128 (psm_debt demo_stable_minted)"
    by (simp add: demo_stables stable_views is_paused_def psm_config_def demo_env_def in_i128_def i128_max_def
        i128_min_def)
  then obtain p t where "psm_redeem (demo_env 20) 5 99900 demo_stable_minted = Ok (p, t)"
      "amount_out p + fee_collected p = 99900" "balance 5 t = balance 5 demo_stable_minted - 99900"
    using psm_debt_covered [OF demo_stable_run] by blast
  then show ?thesis by (auto simp: demo_stables stable_views)
qed

text \<open>
  The recorded total supply moves away from the sum of the balances in exactly two ways: by a
  \<open>rebase\<close>, which rewrites the recorded supply and touches no balance, and by a transfer of an
  account to itself, which credits the account with the amount and debits nobody. Every other call
  keeps the two in step.
\<close>

theorem stable_supply_drift_causes:
  assumes "stable_step\<^sup>*\<^sup>* empty_stable s" "stable_call env s t"
  shows "supply_drift t = supply_drift s \<or>
    (\<exists>a i. rebase env a s = Ok (i, t) \<and> holders_total t = holders_total s \<and>
       supply_drift t = supply_drift s + (new_supply i - old_supply i)) \<or>
    (\<exists>a x. transfer env a a x s = Ok ((), t) \<and> total_supply t = total_supply s \<and>
       supply_drift t = supply_drift s - x)"
  by (rule drift_call [OF stable.reachable_Inv [OF assms(1)] assms(2)])

theorem stable_supply_drift_causes_witness:
  "supply_drift demo_stable_minted = 0 \<and> (\<exists>env t. stable_call env demo_stable_minted t \<and> supply_drift t = - 900)"
proof -
  let ?t = "publish (Ev_transfer 5 5 900) (demo_stable_minted\<lparr>UserTokens := [5 \<mapsto> 100800]\<rparr>)"
  have r: "transfer (demo_env 20) 5 5 900 demo_stable_minted = Ok ((), ?t)"
    by (simp add: transfer_def demo_stables require_auth_def demo_env_def publish_def assert_not_paused_def
        is_paused_def Let_def i128_sub_def i128_add_def in_i128_def i128_max_def i128_min_def)
  have d: "supply_drift demo_stable_minted = 0"
    by (simp add: supply_drift_def holders_total_def total_supply_def demo_stables)
  have "rebase (demo_env 20) a demo_stable_minted \<noteq> Ok (i, ?t)" for a i
    by (auto dest: rebase_Ok simp: demo_stables demo_env_def)
  moreover have "supply_drift ?t \<noteq> 0"
    by (simp add: supply_drift_def holders_total_def total_supply_def demo_stables publish_def)
  ultimately obtain a x where ax: "transfer (demo_env 20) a a x demo_stable_minted = Ok ((), ?t)" "supply_drift ?t = - x"
    using stable_supply_drift_causes [OF demo_stable_run stable_call.transfer [OF r]] d by auto
  have "x = 900" using stable_transfer_Ok [OF ax(1)] by (auto simp: publish_def demo_stables)
  then show ?thesis using ax(2) d stable_call.transfer [OF r] by auto
qed

text \<open>
  A transfer to oneself mints: \<open>transfer\<close> reads both balances before it writes either, so on
  any unpaused contract an account that holds at least \<open>x\<close> and signs for itself alone ends up with
  \<open>x\<close> more than before, for nothing, and the recorded supply does not change.
\<close>

theorem stable_self_transfer_mints:
  assumes "\<not> is_paused s" "auth env a" "0 < x" "x \<le> balance a s" "in_i128 (balance a s + x)"
  shows "\<exists>t. transfer env a a x s = Ok ((), t) \<and> balance a t = balance a s + x \<and>
    total_supply t = total_supply s \<and> psm_vault t = psm_vault s"
proof -
  have "in_i128 (balance a s - x)" by (rule in_i128_le [OF assms(5)]) (use assms in auto)
  then show ?thesis
    using assms by (simp add: transfer_def Let_def require_auth_def assert_not_paused_def i128_add_def i128_sub_def
        publish_def stable_views)
qed

theorem stable_self_transfer_mints_witness:
  "\<exists>t. transfer ((demo_env 20)\<lparr>auth := (\<lambda>b. b = 5)\<rparr>) 5 5 99900 demo_stable_minted = Ok ((), t) \<and> balance 5 t = 199800"
proof -
  have "balance 5 demo_stable_minted = 99900" by (simp add: demo_stables balance_def)
  then show ?thesis
    using stable_self_transfer_mints [of demo_stable_minted "(demo_env 20)\<lparr>auth := (\<lambda>b. b = 5)\<rparr>" 5 99900]
    by (simp add: demo_stables is_paused_def in_i128_def i128_max_def i128_min_def) auto
qed

end
