(* ===== verification/Yield_Farming.thy ===== *)
theory Yield_Farming
  imports Soroban_Prelude
begin

text \<open>
  The yield-farming aggregator of \<open>contracts/yield-farming\<close>: storage accessors (\<open>src/storage.rs\<close>,
  \<open>src/types.rs\<close>) and every entry point of \<open>src/lib.rs\<close>, with the multi-pool optimizer loop by loop.
  Deposits are book entries of the contract, which calls no token.
\<close>

section \<open>Types and storage\<close>

datatype farm_error =
    AlreadyInitialized | NotInitialized | Unauthorized | ZeroAmount | StrategyNotFound | NoPosition
  | InsufficientBalance | StrategyPaused | InvalidApy | EmptyName | InvalidPoolConfig
  | InvalidBasisPoints | InvalidRiskScore | NoOptimizableStrategy | InsufficientCapacity | ArithmeticOverflow

record Strategy =
  strategy_name :: string
  apy_bps :: nat
  total_deposited :: int
  is_active :: bool
  pending_rewards :: int
  last_compound_ts :: nat

record Position =
  deposited :: int
  compounded_balance :: int
  last_update_ts :: nat

record PoolConfig =
  annual_rewards :: int
  capacity :: int
  fee_bps :: nat
  risk_score :: nat
  max_allocation_bps :: nat

record Allocation =
  alloc_strategy_id :: nat
  alloc_amount :: int
  weight_bps :: nat
  projected_apy_bps :: nat

record RebalanceResult =
  total_balance :: int
  previous_weighted_apy_bps :: nat
  new_weighted_apy_bps :: nat
  allocations :: "Allocation list"

datatype farm_event =
    Ev_strat_add nat nat | Ev_apy_upd nat nat | Ev_pool_cfg nat PoolConfig | Ev_deposit nat address int
  | Ev_withdraw nat address int | Ev_compound nat address int | Ev_comp_all address int
  | Ev_rebalance address RebalanceResult

record farm_state =
  Admin :: "address option"
  StrategyCount :: "nat option"
  Strategies :: "nat \<rightharpoonup> Strategy"
  Positions :: "nat \<times> address \<rightharpoonup> Position"
  PoolConfigs :: "nat \<rightharpoonup> PoolConfig"
  events :: "farm_event list"

definition empty_farm :: farm_state where
  "empty_farm = \<lparr>Admin = None, StrategyCount = None, Strategies = Map.empty, Positions = Map.empty,
     PoolConfigs = Map.empty, events = []\<rparr>"

definition publish :: "farm_event \<Rightarrow> farm_state \<Rightarrow> farm_state" where
  "publish e s = s\<lparr>events := events s @ [e]\<rparr>"

definition is_initialized :: "farm_state \<Rightarrow> bool" where
  "is_initialized s = (Admin s \<noteq> None)"
definition set_admin :: "address \<Rightarrow> farm_state \<Rightarrow> farm_state" where
  "set_admin a s = s\<lparr>Admin := Some a\<rparr>"
definition get_admin :: "farm_state \<Rightarrow> (farm_error, address) outcome" where
  "get_admin s = ok_or NotInitialized (Admin s)"
definition get_strategy_count :: "farm_state \<Rightarrow> nat" where
  "get_strategy_count s = unwrap_or 0 (StrategyCount s)"
definition set_strategy_count :: "nat \<Rightarrow> farm_state \<Rightarrow> farm_state" where
  "set_strategy_count n s = s\<lparr>StrategyCount := Some n\<rparr>"
definition set_strategy :: "nat \<Rightarrow> Strategy \<Rightarrow> farm_state \<Rightarrow> farm_state" where
  "set_strategy i x s = s\<lparr>Strategies := (Strategies s)(i \<mapsto> x)\<rparr>"
definition get_strategy :: "farm_state \<Rightarrow> nat \<Rightarrow> (farm_error, Strategy) outcome" where
  "get_strategy s i = ok_or StrategyNotFound (Strategies s i)"
definition has_strategy :: "farm_state \<Rightarrow> nat \<Rightarrow> bool" where
  "has_strategy s i = (Strategies s i \<noteq> None)"
definition set_pool_config :: "nat \<Rightarrow> PoolConfig \<Rightarrow> farm_state \<Rightarrow> farm_state" where
  "set_pool_config i c s = s\<lparr>PoolConfigs := (PoolConfigs s)(i \<mapsto> c)\<rparr>"
definition get_pool_config :: "farm_state \<Rightarrow> nat \<Rightarrow> PoolConfig option" where
  "get_pool_config s i = PoolConfigs s i"
definition set_position :: "nat \<Rightarrow> address \<Rightarrow> Position \<Rightarrow> farm_state \<Rightarrow> farm_state" where
  "set_position i a p s = s\<lparr>Positions := (Positions s)((i, a) \<mapsto> p)\<rparr>"
definition get_position :: "farm_state \<Rightarrow> nat \<Rightarrow> address \<Rightarrow> (farm_error, Position) outcome" where
  "get_position s i a = ok_or NoPosition (Positions s (i, a))"
definition has_position :: "farm_state \<Rightarrow> nat \<Rightarrow> address \<Rightarrow> bool" where
  "has_position s i a = (Positions s (i, a) \<noteq> None)"
definition remove_position :: "nat \<Rightarrow> address \<Rightarrow> farm_state \<Rightarrow> farm_state" where
  "remove_position i a s = s\<lparr>Positions := (Positions s)((i, a) := None)\<rparr>"

lemmas farm_getters =
  is_initialized_def get_admin_def get_strategy_count_def get_strategy_def has_strategy_def
  get_pool_config_def get_position_def has_position_def
lemmas farm_setters =
  set_admin_def set_strategy_count_def set_strategy_def set_pool_config_def set_position_def
  remove_position_def publish_def

definition SECONDS_PER_YEAR :: nat where "SECONDS_PER_YEAR = 31536000"
definition BPS_DENOM :: nat where "BPS_DENOM = 10000"
definition MAX_APY_BPS :: nat where "MAX_APY_BPS = 10000"
definition MAX_RISK_SCORE :: nat where "MAX_RISK_SCORE = 100"

text \<open>Saturating operations of \<open>u32\<close> and \<open>u64\<close>, and the truncating cast \<open>as u32\<close>.\<close>

definition u32_saturating_mul :: "nat \<Rightarrow> nat \<Rightarrow> nat" where
  "u32_saturating_mul a b = min u32_max (a * b)"
definition u32_saturating_add :: "nat \<Rightarrow> nat \<Rightarrow> nat" where
  "u32_saturating_add a b = min u32_max (a + b)"
definition i128_as_u32 :: "int \<Rightarrow> nat" where
  "i128_as_u32 x = nat (x mod 2 ^ 32)"

section \<open>Internal helpers\<close>

definition assert_initialized :: "farm_state \<Rightarrow> (farm_error, unit) outcome" where
  "assert_initialized s = (if \<not> is_initialized s then Err NotInitialized else Ok ())"

definition assert_admin :: "env \<Rightarrow> address \<Rightarrow> farm_state \<Rightarrow> (farm_error, unit) outcome" where
  "assert_admin env caller s =
     and_then (assert_initialized s) (\<lambda>_.
     and_then (require_auth env caller) (\<lambda>_.
     and_then (get_admin s) (\<lambda>admin.
     if caller \<noteq> admin then Err Unauthorized else Ok ())))"

definition compound_position :: "Position \<Rightarrow> Strategy \<Rightarrow> nat \<Rightarrow> Position" where
  "compound_position position strategy now =
     (let elapsed = now - last_update_ts position in
      if elapsed = 0 \<or> apy_bps strategy = 0 \<or> compounded_balance position = 0 then position
      else
        let reward = saturating_mul (saturating_mul (compounded_balance position) (int (apy_bps strategy)))
                       (int elapsed) sdiv (int BPS_DENOM * int SECONDS_PER_YEAR)
        in position\<lparr>compounded_balance := saturating_add (compounded_balance position) reward,
             last_update_ts := now\<rparr>)"

definition pool_config_or_default :: "farm_state \<Rightarrow> nat \<Rightarrow> PoolConfig" where
  "pool_config_or_default s i =
     unwrap_or \<lparr>annual_rewards = 0, capacity = 0, fee_bps = 0, risk_score = 0, max_allocation_bps = BPS_DENOM\<rparr>
       (get_pool_config s i)"

definition calculate_dynamic_apy :: "Strategy \<Rightarrow> PoolConfig \<Rightarrow> int \<Rightarrow> (farm_error, nat) outcome" where
  "calculate_dynamic_apy strategy config projected_tvl =
     and_then
       (if annual_rewards config > 0 \<and> projected_tvl > 0 then
          and_then (ok_or ArithmeticOverflow (checked_mul (annual_rewards config) (int BPS_DENOM))) (\<lambda>n.
          and_then (i128_div n projected_tvl) (\<lambda>calculated.
          Ok (i128_as_u32 (min calculated (int MAX_APY_BPS)))))
        else Ok (apy_bps strategy)) (\<lambda>gross_apy.
     and_then (u32_sub BPS_DENOM (fee_bps config)) (\<lambda>keep.
     Ok (u32_saturating_mul gross_apy keep div BPS_DENOM)))"

definition tvl_excluding_user ::
    "farm_state \<Rightarrow> nat \<Rightarrow> Strategy \<Rightarrow> address option \<Rightarrow> (farm_error, int) outcome" where
  "tvl_excluding_user s i strategy excluded =
     (case excluded of
        None \<Rightarrow> Ok (total_deposited strategy)
      | Some user \<Rightarrow>
          if \<not> has_position s i user then Ok (total_deposited strategy)
          else
            and_then (get_position s i user) (\<lambda>position.
            Ok (saturating_sub (total_deposited strategy) (min (deposited position) (total_deposited strategy)))))"

section \<open>The optimizer\<close>

text \<open>First loop of \<open>build_allocation\<close>: the score of every strategy id, and their saturating sum.\<close>

definition pool_score ::
    "farm_state \<Rightarrow> int \<Rightarrow> nat \<Rightarrow> address option \<Rightarrow> nat \<Rightarrow> (farm_error, nat) outcome" where
  "pool_score s total_amount max_risk excluded i =
     and_then (get_strategy s i) (\<lambda>strategy.
     let config = pool_config_or_default s i in
     and_then (tvl_excluding_user s i strategy excluded) (\<lambda>base_tvl.
     let has_capacity = (capacity config = 0 \<or> base_tvl < capacity config) in
     if \<not> is_active strategy \<or> risk_score config > max_risk \<or> \<not> has_capacity then Ok 0
     else
       and_then (ok_or ArithmeticOverflow (checked_mul total_amount (int (max_allocation_bps config)))) (\<lambda>n.
       and_then (i128_div n (int BPS_DENOM)) (\<lambda>portfolio_cap.
       let capacity_room = (if capacity config = 0 then total_amount
                            else saturating_sub (capacity config) base_tvl);
           probe_amount = max (min portfolio_cap capacity_room) 1 in
       and_then (ok_or ArithmeticOverflow (checked_add base_tvl probe_amount)) (\<lambda>probe_tvl.
       and_then (calculate_dynamic_apy strategy config probe_tvl) (\<lambda>net_apy.
       and_then (u32_sub MAX_RISK_SCORE (risk_score config)) (\<lambda>keep.
       Ok (u32_saturating_mul net_apy keep div MAX_RISK_SCORE))))))))"

fun score_loop ::
    "farm_state \<Rightarrow> int \<Rightarrow> nat \<Rightarrow> address option \<Rightarrow> nat list \<Rightarrow> nat list \<Rightarrow> nat \<Rightarrow>
     (farm_error, nat list \<times> nat) outcome" where
  "score_loop s total_amount max_risk excluded [] scores total_score = Ok (scores, total_score)"
| "score_loop s total_amount max_risk excluded (i # ids) scores total_score =
     and_then (pool_score s total_amount max_risk excluded i) (\<lambda>score.
     score_loop s total_amount max_risk excluded ids (scores @ [score]) (u64_saturating_add total_score score))"

text \<open>\<open>scores.get(strategy_id - 1).unwrap_or(0)\<close>.\<close>

definition score_at :: "nat list \<Rightarrow> nat \<Rightarrow> nat" where
  "score_at scores i = (if i - 1 < length scores then scores ! (i - 1) else 0)"

text \<open>The largest amount the pool may hold for this portfolio: \<open>portfolio_cap.min(capacity)\<close>.\<close>

definition pool_limits ::
    "farm_state \<Rightarrow> int \<Rightarrow> address option \<Rightarrow> nat \<Rightarrow> (farm_error, int \<times> int) outcome" where
  "pool_limits s total_amount excluded i =
     and_then (get_strategy s i) (\<lambda>strategy.
     let config = pool_config_or_default s i in
     and_then (tvl_excluding_user s i strategy excluded) (\<lambda>base_tvl.
     and_then (ok_or ArithmeticOverflow (checked_mul total_amount (int (max_allocation_bps config)))) (\<lambda>n.
     and_then (i128_div n (int BPS_DENOM)) (\<lambda>portfolio_cap.
     let cap = (if capacity config = 0 then total_amount else saturating_sub (capacity config) base_tvl)
     in Ok (portfolio_cap, cap)))))"

text \<open>Second loop: the proportional first assignment. The limits are read after the proportional
  share; the code reads the same entries just before it, to the same effect.\<close>

fun assign_loop ::
    "farm_state \<Rightarrow> int \<Rightarrow> address option \<Rightarrow> nat list \<Rightarrow> nat \<Rightarrow> nat list \<Rightarrow> Allocation list \<Rightarrow> int \<Rightarrow>
     (farm_error, Allocation list \<times> int) outcome" where
  "assign_loop s total_amount excluded scores total_score [] allocs allocated = Ok (allocs, allocated)"
| "assign_loop s total_amount excluded scores total_score (i # ids) allocs allocated =
     (let score = score_at scores i in
      if score = 0 then assign_loop s total_amount excluded scores total_score ids allocs allocated
      else
        and_then (get_strategy s i) (\<lambda>_.
        and_then (ok_or ArithmeticOverflow (checked_mul total_amount (int score))) (\<lambda>n.
        and_then (i128_div n (int total_score)) (\<lambda>proportional.
        and_then (pool_limits s total_amount excluded i) (\<lambda>(portfolio_cap, cap).
        let amount = min (min proportional portfolio_cap) cap in
        and_then (ok_or ArithmeticOverflow (checked_add allocated amount)) (\<lambda>allocated'.
        assign_loop s total_amount excluded scores total_score ids
          (allocs @ [\<lparr>alloc_strategy_id = i, alloc_amount = amount, weight_bps = 0, projected_apy_bps = 0\<rparr>])
          allocated'))))))"

text \<open>Inner loop of the third one: the best-scored allocation that still has room. The state of the
  loop is \<open>best_index\<close>, \<open>best_score\<close> and \<open>best_room\<close>.\<close>

fun best_loop ::
    "farm_state \<Rightarrow> int \<Rightarrow> address option \<Rightarrow> nat list \<Rightarrow> nat \<Rightarrow> Allocation list \<Rightarrow> nat option \<times> nat \<times> int \<Rightarrow>
     (farm_error, nat option \<times> nat \<times> int) outcome" where
  "best_loop s total_amount excluded scores index [] best = Ok best"
| "best_loop s total_amount excluded scores index (a # allocs) best =
     (let score = score_at scores (alloc_strategy_id a) in
      and_then (pool_limits s total_amount excluded (alloc_strategy_id a)) (\<lambda>(portfolio_cap, cap).
      let room = saturating_sub (min portfolio_cap cap) (alloc_amount a);
          best' = (case best of (best_index, best_score, best_room) \<Rightarrow>
                     if room > 0 \<and> (best_index = None \<or> score > best_score) then (Some index, score, room)
                     else best)
      in best_loop s total_amount excluded scores (Suc index) allocs best'))"

text \<open>The room recorded with an index is positive, which is why the third loop ends.\<close>

lemma best_loop_room:
  "best_loop s total_amount excluded scores k allocs best = Ok (i, sc, room) \<Longrightarrow>
   (fst best \<noteq> None \<longrightarrow> 0 < snd (snd best)) \<Longrightarrow> i \<noteq> None \<longrightarrow> 0 < room"
proof (induction allocs arbitrary: k best)
  case (Cons a allocs)
  obtain bi bs br where best: "best = (bi, bs, br)" by (cases best)
  obtain pc c where l: "pool_limits s total_amount excluded (alloc_strategy_id a) = Ok (pc, c)"
    using Cons.prems(1) by (auto simp: Let_def)
  let ?room = "saturating_sub (min pc c) (alloc_amount a)"
  let ?best = "if ?room > 0 \<and> (bi = None \<or> score_at scores (alloc_strategy_id a) > bs)
    then (Some k, score_at scores (alloc_strategy_id a), ?room) else (bi, bs, br)"
  have "best_loop s total_amount excluded scores (Suc k) allocs ?best = Ok (i, sc, room)"
    using Cons.prems(1) l by (simp add: best Let_def split del: if_split)
  moreover have "fst ?best \<noteq> None \<longrightarrow> 0 < snd (snd ?best)"
    using Cons.prems(2) by (simp add: best)
  ultimately show ?case by (rule Cons.IH)
qed simp

function (sequential) fill_loop ::
    "farm_state \<Rightarrow> int \<Rightarrow> address option \<Rightarrow> nat list \<Rightarrow> Allocation list \<Rightarrow> int \<Rightarrow>
     (farm_error, Allocation list) outcome" where
  "fill_loop s total_amount excluded scores allocs remaining =
     (if \<not> remaining > 0 then Ok allocs
      else
        and_then (best_loop s total_amount excluded scores 0 allocs (None, 0, 0)) (\<lambda>(best_index, best_score, best_room).
        and_then (ok_or InsufficientCapacity best_index) (\<lambda>index.
        let allocation = allocs ! index;
            added = min remaining best_room in
        and_then (ok_or ArithmeticOverflow (checked_add (alloc_amount allocation) added)) (\<lambda>amount.
        and_then (i128_sub remaining added) (\<lambda>remaining'.
        fill_loop s total_amount excluded scores (allocs[index := allocation\<lparr>alloc_amount := amount\<rparr>])
          remaining')))))"
  by pat_completeness auto

termination fill_loop
  by (relation "measure (\<lambda>(s, t, e, sc, al, r). nat r)") (auto dest!: best_loop_room)

declare fill_loop.simps [simp del]

text \<open>Last loop: drop empty entries, fill in the projected APY and the weights.\<close>

fun final_loop ::
    "farm_state \<Rightarrow> int \<Rightarrow> address option \<Rightarrow> Allocation list \<Rightarrow> Allocation list \<Rightarrow> nat \<Rightarrow>
     (farm_error, Allocation list \<times> nat) outcome" where
  "final_loop s total_amount excluded [] final assigned = Ok (final, assigned)"
| "final_loop s total_amount excluded (a # allocs) final assigned =
     (if alloc_amount a = 0 then final_loop s total_amount excluded allocs final assigned
      else
        and_then (get_strategy s (alloc_strategy_id a)) (\<lambda>strategy.
        let config = pool_config_or_default s (alloc_strategy_id a) in
        and_then (tvl_excluding_user s (alloc_strategy_id a) strategy excluded) (\<lambda>base_tvl.
        and_then (ok_or ArithmeticOverflow (checked_add base_tvl (alloc_amount a))) (\<lambda>tvl.
        and_then (calculate_dynamic_apy strategy config tvl) (\<lambda>apy.
        and_then (ok_or ArithmeticOverflow (checked_mul (alloc_amount a) (int BPS_DENOM))) (\<lambda>n.
        and_then (i128_div n total_amount) (\<lambda>w.
        let weight = min (i128_as_u32 w) (BPS_DENOM - assigned) in
        final_loop s total_amount excluded allocs
          (final @ [a\<lparr>projected_apy_bps := apy, weight_bps := weight\<rparr>])
          (u32_saturating_add assigned weight))))))))"

definition build_allocation ::
    "farm_state \<Rightarrow> int \<Rightarrow> nat \<Rightarrow> address option \<Rightarrow> (farm_error, Allocation list) outcome" where
  "build_allocation s total_amount max_risk excluded =
     (if total_amount \<le> 0 then Err ZeroAmount
      else if max_risk > MAX_RISK_SCORE then Err InvalidRiskScore
      else
        let ids = [1..<get_strategy_count s + 1] in
        and_then (score_loop s total_amount max_risk excluded ids [] 0) (\<lambda>(scores, total_score).
        if total_score = 0 then Err NoOptimizableStrategy
        else
          and_then (assign_loop s total_amount excluded scores total_score ids [] 0) (\<lambda>(allocs, allocated).
          let remaining = saturating_sub total_amount allocated in
          and_then (fill_loop s total_amount excluded scores allocs remaining) (\<lambda>filled.
          and_then (final_loop s total_amount excluded filled [] 0) (\<lambda>(final, assigned).
          if final = [] then Err InsufficientCapacity
          else
            let last_index = length final - 1;
                l = final ! last_index in
            Ok (final[last_index := l\<lparr>weight_bps := u32_saturating_add (weight_bps l) (BPS_DENOM - assigned)\<rparr>]))))))"

section \<open>Administration\<close>

definition initialize :: "env \<Rightarrow> address \<Rightarrow> farm_state \<Rightarrow> (farm_error, unit \<times> farm_state) outcome" where
  "initialize env admin s =
     (if is_initialized s then Err AlreadyInitialized
      else
        and_then (require_auth env admin) (\<lambda>_.
        Ok ((), set_strategy_count 0 (set_admin admin s))))"

definition add_strategy ::
    "env \<Rightarrow> address \<Rightarrow> string \<Rightarrow> nat \<Rightarrow> farm_state \<Rightarrow> (farm_error, nat \<times> farm_state) outcome" where
  "add_strategy env admin nm apy s =
     and_then (assert_admin env admin s) (\<lambda>_.
     if length nm = 0 then Err EmptyName
     else if apy > MAX_APY_BPS then Err InvalidApy
     else
       and_then (u32_add (get_strategy_count s) 1) (\<lambda>i.
       let strategy = \<lparr>strategy_name = nm, apy_bps = apy, total_deposited = 0, is_active = True,
             pending_rewards = 0, last_compound_ts = timestamp env\<rparr>;
           s1 = set_strategy i strategy s;
           s2 = set_strategy_count i s1
       in Ok (i, publish (Ev_strat_add i apy) s2)))"

definition update_strategy_apy ::
    "env \<Rightarrow> address \<Rightarrow> nat \<Rightarrow> nat \<Rightarrow> farm_state \<Rightarrow> (farm_error, unit \<times> farm_state) outcome" where
  "update_strategy_apy env admin i new_apy s =
     and_then (assert_admin env admin s) (\<lambda>_.
     if new_apy > MAX_APY_BPS then Err InvalidApy
     else
       and_then (get_strategy s i) (\<lambda>strategy.
       Ok ((), publish (Ev_apy_upd i new_apy) (set_strategy i (strategy\<lparr>apy_bps := new_apy\<rparr>) s))))"

definition set_strategy_active ::
    "env \<Rightarrow> address \<Rightarrow> nat \<Rightarrow> bool \<Rightarrow> farm_state \<Rightarrow> (farm_error, unit \<times> farm_state) outcome" where
  "set_strategy_active env admin i active s =
     and_then (assert_admin env admin s) (\<lambda>_.
     and_then (get_strategy s i) (\<lambda>strategy.
     Ok ((), set_strategy i (strategy\<lparr>is_active := active\<rparr>) s)))"

definition configure_pool ::
    "env \<Rightarrow> address \<Rightarrow> nat \<Rightarrow> int \<Rightarrow> int \<Rightarrow> nat \<Rightarrow> nat \<Rightarrow> nat \<Rightarrow> farm_state \<Rightarrow>
     (farm_error, unit \<times> farm_state) outcome" where
  "configure_pool env admin i rewards cap fee risk max_alloc s =
     and_then (assert_admin env admin s) (\<lambda>_.
     and_then (get_strategy s i) (\<lambda>_.
     if rewards < 0 \<or> cap < 0 then Err InvalidPoolConfig
     else if fee > BPS_DENOM \<or> max_alloc = 0 \<or> max_alloc > BPS_DENOM then Err InvalidBasisPoints
     else if risk > MAX_RISK_SCORE then Err InvalidRiskScore
     else
       let config = \<lparr>annual_rewards = rewards, capacity = cap, fee_bps = fee, risk_score = risk,
             max_allocation_bps = max_alloc\<rparr>
       in Ok ((), publish (Ev_pool_cfg i config) (set_pool_config i config s))))"

section \<open>User actions\<close>

definition deposit ::
    "env \<Rightarrow> address \<Rightarrow> nat \<Rightarrow> int \<Rightarrow> farm_state \<Rightarrow> (farm_error, unit \<times> farm_state) outcome" where
  "deposit env user i amt s =
     and_then (assert_initialized s) (\<lambda>_.
     and_then (require_auth env user) (\<lambda>_.
     if amt \<le> 0 then Err ZeroAmount
     else
       and_then (get_strategy s i) (\<lambda>strategy.
       if \<not> is_active strategy then Err StrategyPaused
       else
         let now = timestamp env in
         and_then
           (if has_position s i user then
              and_then (get_position s i user) (\<lambda>pos.
              let compounded = compound_position pos strategy now
              in Ok (compounded, saturating_sub (compounded_balance compounded) (compounded_balance pos)))
            else Ok (\<lparr>deposited = 0, compounded_balance = 0, last_update_ts = now\<rparr>, 0)) (\<lambda>(position, accrued_reward).
         and_then (i128_add (deposited position) amt) (\<lambda>dep.
         and_then (i128_add (compounded_balance position) amt) (\<lambda>cb.
         let position' = position\<lparr>deposited := dep, compounded_balance := cb, last_update_ts := now\<rparr> in
         and_then (ok_or ArithmeticOverflow
             (Option.bind (checked_add (total_deposited strategy) accrued_reward) (\<lambda>total. checked_add total amt))) (\<lambda>tvl.
         let s1 = set_position i user position' s;
             s2 = set_strategy i (strategy\<lparr>total_deposited := tvl\<rparr>) s1
         in Ok ((), publish (Ev_deposit i user amt) s2))))))))"

definition withdraw ::
    "env \<Rightarrow> address \<Rightarrow> nat \<Rightarrow> int \<Rightarrow> farm_state \<Rightarrow> (farm_error, int \<times> farm_state) outcome" where
  "withdraw env user i amt s =
     and_then (assert_initialized s) (\<lambda>_.
     and_then (require_auth env user) (\<lambda>_.
     if amt \<le> 0 then Err ZeroAmount
     else
       and_then (get_strategy s i) (\<lambda>strategy.
       let now = timestamp env in
       and_then (get_position s i user) (\<lambda>pos.
       let previous_balance = compounded_balance pos;
           position = compound_position pos strategy now;
           accrued_reward = saturating_sub (compounded_balance position) previous_balance in
       if amt > compounded_balance position then Err InsufficientBalance
       else
         and_then (i128_sub (compounded_balance position) amt) (\<lambda>cb.
         let deposited_reduction = min amt (deposited position) in
         and_then (i128_sub (deposited position) deposited_reduction) (\<lambda>dep.
         let position' = position\<lparr>compounded_balance := cb, deposited := dep, last_update_ts := now\<rparr> in
         and_then (ok_or ArithmeticOverflow (checked_add (total_deposited strategy) accrued_reward)) (\<lambda>tvl.
         let tvl_reduction = min amt tvl in
         and_then (i128_sub tvl tvl_reduction) (\<lambda>tvl'.
         let s1 = (if cb = 0 then remove_position i user s else set_position i user position' s);
             s2 = set_strategy i (strategy\<lparr>total_deposited := tvl'\<rparr>) s1
         in Ok (amt, publish (Ev_withdraw i user amt) s2)))))))))"

definition compound ::
    "env \<Rightarrow> address \<Rightarrow> nat \<Rightarrow> farm_state \<Rightarrow> (farm_error, int \<times> farm_state) outcome" where
  "compound env user i s =
     and_then (assert_initialized s) (\<lambda>_.
     and_then (get_strategy s i) (\<lambda>strategy.
     let now = timestamp env in
     and_then (get_position s i user) (\<lambda>position.
     let previous_balance = compounded_balance position;
         compounded = compound_position position strategy now;
         new_balance = compounded_balance compounded;
         reward = saturating_sub new_balance previous_balance;
         s1 = set_position i user compounded s;
         strategy' = strategy\<lparr>total_deposited := saturating_add (total_deposited strategy) reward,
           last_compound_ts := now\<rparr>;
         s2 = set_strategy i strategy' s1
     in Ok (new_balance, publish (Ev_compound i user new_balance) s2))))"

fun compound_loop ::
    "address \<Rightarrow> nat \<Rightarrow> nat list \<Rightarrow> int \<Rightarrow> bool \<Rightarrow> farm_state \<Rightarrow> (farm_error, (int \<times> bool) \<times> farm_state) outcome" where
  "compound_loop user now [] total_reward found s = Ok ((total_reward, found), s)"
| "compound_loop user now (i # ids) total_reward found s =
     (if \<not> has_position s i user then compound_loop user now ids total_reward found s
      else
        and_then (get_strategy s i) (\<lambda>strategy.
        and_then (get_position s i user) (\<lambda>position.
        let previous_balance = compounded_balance position;
            compounded = compound_position position strategy now;
            reward = saturating_sub (compounded_balance compounded) previous_balance in
        and_then (ok_or ArithmeticOverflow (checked_add total_reward reward)) (\<lambda>total_reward'.
        and_then (ok_or ArithmeticOverflow (checked_add (total_deposited strategy) reward)) (\<lambda>tvl.
        let s1 = set_position i user compounded s;
            s2 = set_strategy i (strategy\<lparr>total_deposited := tvl, last_compound_ts := now\<rparr>) s1
        in compound_loop user now ids total_reward' True s2)))))"

definition compound_all :: "env \<Rightarrow> address \<Rightarrow> farm_state \<Rightarrow> (farm_error, int \<times> farm_state) outcome" where
  "compound_all env user s =
     and_then (assert_initialized s) (\<lambda>_.
     and_then (compound_loop user (timestamp env) [1..<get_strategy_count s + 1] 0 False s)
       (\<lambda>((total_reward, found), s1).
     if \<not> found then Err NoPosition
     else Ok (total_reward, publish (Ev_comp_all user total_reward) s1)))"

definition dynamic_apy :: "nat \<Rightarrow> int \<Rightarrow> farm_state \<Rightarrow> (farm_error, nat) outcome" where
  "dynamic_apy i additional_amount s =
     (if additional_amount < 0 then Err InvalidPoolConfig
      else
        and_then (get_strategy s i) (\<lambda>strategy.
        let config = pool_config_or_default s i in
        and_then (ok_or ArithmeticOverflow (checked_add (total_deposited strategy) additional_amount)) (\<lambda>projected_tvl.
        if capacity config > 0 \<and> projected_tvl > capacity config then Err InsufficientCapacity
        else calculate_dynamic_apy strategy config projected_tvl)))"

definition optimize_allocation :: "int \<Rightarrow> nat \<Rightarrow> farm_state \<Rightarrow> (farm_error, Allocation list) outcome" where
  "optimize_allocation total_amount max_risk s = build_allocation s total_amount max_risk None"

text \<open>The loop that adds up \<open>amount * projected_apy_bps\<close> over an allocation.\<close>

fun weighted_yield :: "Allocation list \<Rightarrow> int \<Rightarrow> (farm_error, int) outcome" where
  "weighted_yield [] acc = Ok acc"
| "weighted_yield (a # allocs) acc =
     and_then (ok_or ArithmeticOverflow (checked_mul (alloc_amount a) (int (projected_apy_bps a)))) (\<lambda>y.
     and_then (ok_or ArithmeticOverflow (checked_add acc y)) (\<lambda>acc'. weighted_yield allocs acc'))"

definition get_optimization_preview ::
    "int \<Rightarrow> nat \<Rightarrow> farm_state \<Rightarrow> (farm_error, Allocation list \<times> nat) outcome" where
  "get_optimization_preview total_amount max_risk s =
     and_then (build_allocation s total_amount max_risk None) (\<lambda>allocs.
     and_then (weighted_yield allocs 0) (\<lambda>y.
     and_then
       (if total_amount > 0 then and_then (i128_div y total_amount) (\<lambda>w. Ok (i128_as_u32 w)) else Ok 0) (\<lambda>apy.
     Ok (allocs, apy))))"

text \<open>The loop of \<open>rebalance\<close> and \<open>auto_rebalance_threshold\<close> over the user's portfolio: its total
  compounded balance, its weighted yield and whether there is any position.\<close>

fun portfolio_loop ::
    "farm_state \<Rightarrow> address \<Rightarrow> nat \<Rightarrow> nat list \<Rightarrow> int \<Rightarrow> int \<Rightarrow> bool \<Rightarrow> (farm_error, int \<times> int \<times> bool) outcome" where
  "portfolio_loop s user now [] tot yield_sum found = Ok (tot, yield_sum, found)"
| "portfolio_loop s user now (i # ids) tot yield_sum found =
     (if \<not> has_position s i user then portfolio_loop s user now ids tot yield_sum found
      else
        and_then (get_strategy s i) (\<lambda>strategy.
        and_then (get_position s i user) (\<lambda>pos.
        let position = compound_position pos strategy now;
            config = pool_config_or_default s i in
        and_then (calculate_dynamic_apy strategy config (total_deposited strategy)) (\<lambda>apy.
        and_then (ok_or ArithmeticOverflow (checked_add tot (compounded_balance position))) (\<lambda>tot'.
        and_then (ok_or ArithmeticOverflow (checked_mul (compounded_balance position) (int apy))) (\<lambda>y.
        and_then (ok_or ArithmeticOverflow (checked_add yield_sum y)) (\<lambda>yield_sum'.
        portfolio_loop s user now ids tot' yield_sum' True)))))))"

text \<open>The two writing loops of \<open>rebalance\<close>.\<close>

fun clear_loop :: "address \<Rightarrow> nat \<Rightarrow> nat list \<Rightarrow> farm_state \<Rightarrow> (farm_error, farm_state) outcome" where
  "clear_loop user now [] s = Ok s"
| "clear_loop user now (i # ids) s =
     (if \<not> has_position s i user then clear_loop user now ids s
      else
        and_then (get_strategy s i) (\<lambda>strategy.
        and_then (get_position s i user) (\<lambda>pos.
        let position = compound_position pos strategy now;
            strategy' = strategy\<lparr>total_deposited :=
              saturating_sub (total_deposited strategy) (min (deposited position) (total_deposited strategy))\<rparr>;
            s1 = remove_position i user s
        in clear_loop user now ids (set_strategy i strategy' s1))))"

fun place_loop ::
    "address \<Rightarrow> nat \<Rightarrow> Allocation list \<Rightarrow> farm_state \<Rightarrow> (farm_error, farm_state) outcome" where
  "place_loop user now [] s = Ok s"
| "place_loop user now (a # allocs) s =
     and_then (get_strategy s (alloc_strategy_id a)) (\<lambda>strategy.
     and_then (ok_or ArithmeticOverflow (checked_add (total_deposited strategy) (alloc_amount a))) (\<lambda>tvl.
     let s1 = set_strategy (alloc_strategy_id a) (strategy\<lparr>total_deposited := tvl\<rparr>) s;
         s2 = set_position (alloc_strategy_id a) user \<lparr>deposited = alloc_amount a,
                compounded_balance = alloc_amount a, last_update_ts = now\<rparr> s1
     in place_loop user now allocs s2))"

definition rebalance ::
    "env \<Rightarrow> address \<Rightarrow> nat \<Rightarrow> farm_state \<Rightarrow> (farm_error, RebalanceResult \<times> farm_state) outcome" where
  "rebalance env user max_risk s =
     and_then (assert_initialized s) (\<lambda>_.
     and_then (require_auth env user) (\<lambda>_.
     if max_risk > MAX_RISK_SCORE then Err InvalidRiskScore
     else
       let now = timestamp env;
           ids = [1..<get_strategy_count s + 1] in
       and_then (portfolio_loop s user now ids 0 0 False) (\<lambda>(tot, previous_yield, found).
       if \<not> found \<or> tot \<le> 0 then Err NoPosition
       else
         and_then (build_allocation s tot max_risk (Some user)) (\<lambda>allocs.
         and_then (i128_div previous_yield tot) (\<lambda>p.
         let previous_apy = i128_as_u32 p in
         and_then (weighted_yield allocs 0) (\<lambda>new_yield.
         and_then (i128_div new_yield tot) (\<lambda>n.
         let new_apy = i128_as_u32 n in
         if new_apy \<le> previous_apy then Err NoOptimizableStrategy
         else
           and_then (clear_loop user now ids s) (\<lambda>s1.
           and_then (place_loop user now allocs s1) (\<lambda>s2.
           let result = \<lparr>total_balance = tot, previous_weighted_apy_bps = previous_apy,
                 new_weighted_apy_bps = new_apy, allocations = allocs\<rparr>
           in Ok (result, publish (Ev_rebalance user result) s2))))))))))"

definition auto_rebalance_threshold ::
    "env \<Rightarrow> address \<Rightarrow> nat \<Rightarrow> nat \<Rightarrow> farm_state \<Rightarrow> (farm_error, bool \<times> farm_state) outcome" where
  "auto_rebalance_threshold env user max_risk min_improvement s =
     and_then (assert_initialized s) (\<lambda>_.
     and_then (require_auth env user) (\<lambda>_.
     if max_risk > MAX_RISK_SCORE then Err InvalidRiskScore
     else
       let now = timestamp env;
           ids = [1..<get_strategy_count s + 1] in
       and_then (portfolio_loop s user now ids 0 0 False) (\<lambda>(tot, current_yield, found).
       if \<not> found \<or> tot \<le> 0 then Ok (False, s)
       else
         and_then (i128_div current_yield tot) (\<lambda>c.
         let current_apy = i128_as_u32 c in
         and_then (get_optimization_preview tot max_risk s) (\<lambda>(_, proposed_apy).
         let improvement = proposed_apy - current_apy in
         if improvement < min_improvement then Ok (False, s)
         else
           and_then (rebalance env user max_risk s) (\<lambda>(_, s1). Ok (True, s1)))))))"

section \<open>Read-only entry points\<close>

definition pub_get_strategy :: "nat \<Rightarrow> farm_state \<Rightarrow> (farm_error, Strategy) outcome" where
  "pub_get_strategy i s = get_strategy s i"
definition strategy_count :: "farm_state \<Rightarrow> nat" where
  "strategy_count s = get_strategy_count s"
definition pub_get_position :: "env \<Rightarrow> address \<Rightarrow> nat \<Rightarrow> farm_state \<Rightarrow> (farm_error, Position) outcome" where
  "pub_get_position env user i s =
     and_then (get_strategy s i) (\<lambda>strategy.
     and_then (get_position s i user) (\<lambda>position.
     Ok (compound_position position strategy (timestamp env))))"
definition pub_get_admin :: "farm_state \<Rightarrow> (farm_error, address) outcome" where
  "pub_get_admin s = get_admin s"
definition pub_get_pool_config :: "nat \<Rightarrow> farm_state \<Rightarrow> (farm_error, PoolConfig) outcome" where
  "pub_get_pool_config i s = and_then (get_strategy s i) (\<lambda>_. Ok (pool_config_or_default s i))"
definition pub_is_initialized :: "farm_state \<Rightarrow> bool" where
  "pub_is_initialized s = is_initialized s"
definition list_strategies :: "farm_state \<Rightarrow> nat list" where
  "list_strategies s = [i \<leftarrow> [1..<get_strategy_count s + 1]. has_strategy s i]"

section \<open>Histories\<close>

inductive farm_call :: "env \<Rightarrow> farm_state \<Rightarrow> farm_state \<Rightarrow> bool" for env where
  initialize: "initialize env a s = Ok (u, t) \<Longrightarrow> farm_call env s t"
| add: "add_strategy env a nm x s = Ok (i, t) \<Longrightarrow> farm_call env s t"
| apy: "update_strategy_apy env a i x s = Ok (u, t) \<Longrightarrow> farm_call env s t"
| active: "set_strategy_active env a i b s = Ok (u, t) \<Longrightarrow> farm_call env s t"
| configure: "configure_pool env a i r c f k m s = Ok (u, t) \<Longrightarrow> farm_call env s t"
| deposit: "deposit env a i x s = Ok (u, t) \<Longrightarrow> farm_call env s t"
| withdraw: "withdraw env a i x s = Ok (y, t) \<Longrightarrow> farm_call env s t"
| compound: "compound env a i s = Ok (x, t) \<Longrightarrow> farm_call env s t"
| compound_all: "compound_all env a s = Ok (x, t) \<Longrightarrow> farm_call env s t"
| rebalance: "rebalance env a k s = Ok (r, t) \<Longrightarrow> farm_call env s t"
| auto: "auto_rebalance_threshold env a k m s = Ok (b, t) \<Longrightarrow> farm_call env s t"

inductive farm_step :: "farm_state \<Rightarrow> farm_state \<Rightarrow> bool" where
  "farm_call env s t \<Longrightarrow> farm_step s t"

end
