(* ===== verification/Farm_Optimizer_Correct.thy ===== *)
theory Farm_Optimizer_Correct
  imports Yield_Farming
begin

text \<open>
  Correctness of the portfolio optimizer of the yield farm: every allocation it returns places the
  whole amount, within every pool's limits, with weights that add up to 100 percent, and it never
  panics.
\<close>

section \<open>Well-formed farms\<close>

definition config_ok :: "PoolConfig \<Rightarrow> bool" where
  "config_ok c \<longleftrightarrow> 0 \<le> annual_rewards c \<and> 0 \<le> capacity c \<and> fee_bps c \<le> 10000 \<and> risk_score c \<le> 100 \<and>
     1 \<le> max_allocation_bps c \<and> max_allocation_bps c \<le> 10000"

definition position_ok :: "Position \<Rightarrow> bool" where
  "position_ok p \<longleftrightarrow> 0 \<le> deposited p \<and> deposited p \<le> compounded_balance p \<and> in_i128 (compounded_balance p)"

definition strategy_ok :: "Strategy \<Rightarrow> bool" where
  "strategy_ok x \<longleftrightarrow> 0 \<le> total_deposited x \<and> in_i128 (total_deposited x) \<and> apy_bps x \<le> 10000"

definition farm_ok :: "farm_state \<Rightarrow> bool" where
  "farm_ok s \<longleftrightarrow>
     get_strategy_count s \<le> u32_max \<and>
     (\<forall>i. Strategies s i \<noteq> None \<longleftrightarrow> 1 \<le> i \<and> i \<le> get_strategy_count s) \<and>
     (\<forall>i x. Strategies s i = Some x \<longrightarrow> strategy_ok x) \<and>
     (\<forall>i c. PoolConfigs s i = Some c \<longrightarrow> config_ok c) \<and>
     (\<forall>i a p. Positions s (i, a) = Some p \<longrightarrow> Strategies s i \<noteq> None \<and> position_ok p)"

lemma farm_okD:
  assumes "farm_ok s"
  shows "get_strategy_count s \<le> u32_max"
    and "Strategies s i \<noteq> None \<longleftrightarrow> 1 \<le> i \<and> i \<le> get_strategy_count s"
    and "Strategies s i = Some x \<Longrightarrow> strategy_ok x"
    and "Positions s (i, a) = Some p \<Longrightarrow> Strategies s i \<noteq> None \<and> position_ok p"
    and "config_ok (pool_config_or_default s i)"
proof -
  show "get_strategy_count s \<le> u32_max" "Strategies s i \<noteq> None \<longleftrightarrow> 1 \<le> i \<and> i \<le> get_strategy_count s"
    "Strategies s i = Some x \<Longrightarrow> strategy_ok x"
    "Positions s (i, a) = Some p \<Longrightarrow> Strategies s i \<noteq> None \<and> position_ok p"
    using assms unfolding farm_ok_def by blast+
  show "config_ok (pool_config_or_default s i)"
    using assms unfolding farm_ok_def
    by (cases "PoolConfigs s i")
      (simp_all add: pool_config_or_default_def get_pool_config_def config_ok_def BPS_DENOM_def)
qed

section \<open>Saturating arithmetic inside the range\<close>

lemma saturate_id: "in_i128 x \<Longrightarrow> i128_saturate x = x"
  by (simp add: i128_saturate_def in_i128_def)

lemma saturate_le: "i128_min \<le> x \<Longrightarrow> i128_saturate x \<le> x"
  by (simp add: i128_saturate_def i128_min_def i128_max_def)

lemma saturate_pos: "0 < i128_saturate x \<Longrightarrow> 0 < x \<and> i128_saturate x \<le> x"
  by (simp add: i128_saturate_def i128_min_def i128_max_def)

lemma saturate_range: "in_i128 (i128_saturate x)"
  by (simp add: i128_saturate_def in_i128_def i128_min_def i128_max_def)

section \<open>The TVL a pool has without the user's own share\<close>

definition base_tvl :: "farm_state \<Rightarrow> nat \<Rightarrow> address option \<Rightarrow> int" where
  "base_tvl s i ex = the_ok (tvl_excluding_user s i (the (Strategies s i)) ex)"

lemma tvl_excluding_total:
  assumes "farm_ok s" "Strategies s i = Some x"
  shows "tvl_excluding_user s i x ex = Ok (base_tvl s i ex)" "0 \<le> base_tvl s i ex" "in_i128 (base_tvl s i ex)"
    "base_tvl s i ex \<le> total_deposited x"
proof -
  have x: "0 \<le> total_deposited x" "in_i128 (total_deposited x)"
    using farm_okD(3) [OF assms] by (simp_all add: strategy_ok_def)
  have "\<exists>b. tvl_excluding_user s i x ex = Ok b \<and> 0 \<le> b \<and> b \<le> total_deposited x"
  proof (cases ex)
    case None
    then show ?thesis using x by (simp add: tvl_excluding_user_def)
  next
    case (Some user)
    show ?thesis
    proof (cases "Positions s (i, user)")
      case None
      then show ?thesis using x Some by (simp add: tvl_excluding_user_def has_position_def)
    next
      case p: (Some p)
      let ?b = "total_deposited x - min (deposited p) (total_deposited x)"
      have "0 \<le> deposited p" using farm_okD(4) [OF assms(1) p] by (simp add: position_ok_def)
      then have "0 \<le> ?b" "?b \<le> total_deposited x" using x by simp_all
      moreover from this have "in_i128 ?b" using in_i128_le [OF x(2)] by blast
      ultimately show ?thesis
        using p Some
        by (simp add: tvl_excluding_user_def has_position_def get_position_def saturating_sub_def saturate_id)
    qed
  qed
  then obtain b where b: "tvl_excluding_user s i x ex = Ok b" "0 \<le> b" "b \<le> total_deposited x" by blast
  moreover have "base_tvl s i ex = b" using b(1) assms(2) by (simp add: base_tvl_def)
  ultimately show "tvl_excluding_user s i x ex = Ok (base_tvl s i ex)" "0 \<le> base_tvl s i ex"
    "in_i128 (base_tvl s i ex)" "base_tvl s i ex \<le> total_deposited x"
    using in_i128_le [OF x(2)] by simp_all
qed

section \<open>One pool\<close>

definition pool_cap :: "farm_state \<Rightarrow> int \<Rightarrow> address option \<Rightarrow> nat \<Rightarrow> int" where
  "pool_cap s tot ex i =
     (let c = pool_config_or_default s i in
      min (tot * int (max_allocation_bps c) div 10000)
        (if capacity c = 0 then tot else i128_saturate (capacity c - base_tvl s i ex)))"

definition usable :: "farm_state \<Rightarrow> nat \<Rightarrow> address option \<Rightarrow> nat \<Rightarrow> bool" where
  "usable s risk ex i \<longleftrightarrow>
     (\<exists>x. Strategies s i = Some x \<and> is_active x) \<and> risk_score (pool_config_or_default s i) \<le> risk \<and>
     (capacity (pool_config_or_default s i) = 0 \<or> base_tvl s i ex < capacity (pool_config_or_default s i))"

lemma never_div_pos [never_intros]: "in_i128 a \<Longrightarrow> 0 \<le> a \<Longrightarrow> 0 < b \<Longrightarrow> never t (i128_div a b)"
  by (simp add: never_def i128_div_pos)

lemma never_u32_sub [never_intros]: "b \<le> a \<Longrightarrow> never t (u32_sub a b)"
  by (simp add: never_def)

lemma get_strategy_Some [simp]: "get_strategy s i = Ok x \<longleftrightarrow> Strategies s i = Some x"
  by (simp add: get_strategy_def)

lemma never_get_strategy [never_intros]: "never t (get_strategy s i)"
  by (simp add: never_def get_strategy_def)

lemma apy_le:
  assumes "calculate_dynamic_apy x c tvl = Ok a" "config_ok c" "apy_bps x \<le> 10000"
  shows "a \<le> 10000"
proof -
  obtain g k where a: "a = u32_saturating_mul g k div 10000" and k: "k \<le> 10000" and g: "g \<le> 10000"
    using assms
    by (auto simp: calculate_dynamic_apy_def BPS_DENOM_def MAX_APY_BPS_def i128_as_u32_def config_ok_def
        pos_imp_zdiv_nonneg_iff min_def split: if_splits)
  have "u32_saturating_mul g k \<le> g * k" by (simp add: u32_saturating_mul_def)
  also have "\<dots> \<le> 10000 * 10000" using g k by (intro mult_le_mono)
  finally show ?thesis unfolding a by (simp add: div_le_mono2 less_eq_div_iff_mult_less_eq)
qed

lemma never_apy [never_intros]: "config_ok c \<Longrightarrow> never t (calculate_dynamic_apy x c tvl)"
  unfolding calculate_dynamic_apy_def
  by (intro never_intros) (auto simp: config_ok_def BPS_DENOM_def)

lemma pool_limits_Ok:
  assumes "farm_ok s" "0 < tot" "pool_limits s tot ex i = Ok (pc, c)"
  shows "(\<exists>x. Strategies s i = Some x) \<and> min pc c = pool_cap s tot ex i"
proof -
  obtain x where x: "Strategies s i = Some x" using assms(3) by (auto simp: pool_limits_def)
  note b = tvl_excluding_total(1) [OF assms(1) x]
  show ?thesis
    using assms(2,3) x by (auto simp: pool_limits_def b Let_def pool_cap_def BPS_DENOM_def saturating_sub_def)
qed

lemma never_pool_limits [never_intros]:
  assumes "farm_ok s" "0 < tot" shows "never t (pool_limits s tot ex i)"
  unfolding pool_limits_def Let_def
  by (intro never_intros) (use assms tvl_excluding_total(1) [OF assms(1)] in \<open>auto simp: BPS_DENOM_def never_def\<close>)

lemma pool_score_Ok:
  assumes ok: "farm_ok s" and r: "pool_score s tot risk ex i = Ok sc"
  shows "sc \<le> 10000" "0 < sc \<Longrightarrow> usable s risk ex i"
proof -
  obtain x where x: "Strategies s i = Some x" using r by (auto simp: pool_score_def)
  have xo: "apy_bps x \<le> 10000" using farm_okD(3) [OF ok x] by (simp add: strategy_ok_def)
  note b = tvl_excluding_total(1) [OF ok x] and c = farm_okD(5) [OF ok]
  show "sc \<le> 10000"
  proof (cases "sc = 0")
    case False
    then obtain a k where a: "sc = u32_saturating_mul a k div 100" "a \<le> 10000" "k \<le> 100"
      using r x apy_le [OF _ c xo] by (auto simp: pool_score_def b Let_def MAX_RISK_SCORE_def split: if_splits)
    have "u32_saturating_mul a k \<le> a * k" by (simp add: u32_saturating_mul_def)
    also have "\<dots> \<le> 10000 * 100" using a by (intro mult_le_mono)
    finally show ?thesis unfolding a(1) by simp
  qed simp
  show "usable s risk ex i" if "0 < sc"
    using r x that by (auto simp: pool_score_def b Let_def usable_def split: if_splits)
qed

lemma never_pool_score:
  assumes "farm_ok s" "0 < tot" shows "never t (pool_score s tot risk ex i)"
  unfolding pool_score_def Let_def
  by (intro never_intros)
    (use assms tvl_excluding_total(1) [OF assms(1)] farm_okD(5) [OF assms(1), of i] in
      \<open>auto simp: BPS_DENOM_def never_def MAX_RISK_SCORE_def config_ok_def\<close>)

section \<open>The scoring loop\<close>

lemma score_loop_Ok:
  assumes ok: "farm_ok s"
  shows "score_loop s tot risk ex ids scores T = Ok (scores', T') \<Longrightarrow>
    \<exists>new. scores' = scores @ new \<and> length new = length ids \<and> (\<forall>k<length ids. 0 < new ! k \<longrightarrow> usable s risk ex (ids ! k)) \<and>
      (\<forall>x\<in>set new. x \<le> 10000) \<and> (T + sum_list new \<le> u64_max \<longrightarrow> T' = T + sum_list new)"
proof (induction ids arbitrary: scores T)
  case (Cons i ids)
  obtain sc where sc: "pool_score s tot risk ex i = Ok sc"
    and r: "score_loop s tot risk ex ids (scores @ [sc]) (u64_saturating_add T sc) = Ok (scores', T')"
    using Cons.prems by auto
  obtain new where new: "scores' = (scores @ [sc]) @ new" "length new = length ids"
      "\<forall>k<length ids. 0 < new ! k \<longrightarrow> usable s risk ex (ids ! k)" "\<forall>x\<in>set new. x \<le> 10000"
      "u64_saturating_add T sc + sum_list new \<le> u64_max \<longrightarrow> T' = u64_saturating_add T sc + sum_list new"
    using Cons.IH [OF r] by blast
  have "\<forall>k<length (i # ids). 0 < (sc # new) ! k \<longrightarrow> usable s risk ex ((i # ids) ! k)"
    using new(3) pool_score_Ok(2) [OF ok sc] by (auto simp: nth_Cons split: nat.split)
  moreover have "T + sum_list (sc # new) \<le> u64_max \<longrightarrow> T' = T + sum_list (sc # new)"
    using new(5) by (auto simp: u64_saturating_add_def)
  ultimately show ?case
    using new(1,2,4) pool_score_Ok(1) [OF ok sc] by (intro exI [of _ "sc # new"]) auto
qed simp

lemma never_score_loop [never_intros]:
  assumes "farm_ok s" "0 < tot" shows "never t (score_loop s tot risk ex ids scores T)"
proof (induction ids arbitrary: scores T)
  case (Cons i ids)
  then show ?case by (auto intro!: never_and_then never_pool_score [OF assms])
qed (simp add: never_leaf)

section \<open>The proportional assignment\<close>

lemma i128_as_u32_small: "0 \<le> x \<Longrightarrow> x \<le> 10000 \<Longrightarrow> i128_as_u32 x = nat x"
  by (simp add: i128_as_u32_def)

lemma usable_cap_nonneg:
  assumes "farm_ok s" "0 < tot" "usable s risk ex i"
  shows "0 \<le> pool_cap s tot ex i" "pool_cap s tot ex i \<le> tot * int (max_allocation_bps (pool_config_or_default s i)) div 10000"
    "capacity (pool_config_or_default s i) = 0 \<or>
     base_tvl s i ex + pool_cap s tot ex i \<le> capacity (pool_config_or_default s i)"
proof -
  let ?c = "pool_config_or_default s i"
  have "0 \<le> tot * int (max_allocation_bps ?c) div 10000"
    using assms(2) by (simp add: pos_imp_zdiv_nonneg_iff)
  moreover have "capacity ?c = 0 \<or> 0 < capacity ?c - base_tvl s i ex" using assms(3) by (auto simp: usable_def)
  moreover from this have "capacity ?c = 0 \<or>
      0 \<le> i128_saturate (capacity ?c - base_tvl s i ex) \<and>
      i128_saturate (capacity ?c - base_tvl s i ex) \<le> capacity ?c - base_tvl s i ex"
    by (auto simp: i128_saturate_def i128_max_def i128_min_def)
  ultimately show "0 \<le> pool_cap s tot ex i"
      "pool_cap s tot ex i \<le> tot * int (max_allocation_bps ?c) div 10000"
      "capacity ?c = 0 \<or> base_tvl s i ex + pool_cap s tot ex i \<le> capacity ?c"
    using assms(2) by (auto simp: pool_cap_def Let_def min_def)
qed

definition alloc_fits :: "farm_state \<Rightarrow> int \<Rightarrow> nat \<Rightarrow> address option \<Rightarrow> Allocation \<Rightarrow> bool" where
  "alloc_fits s tot risk ex a \<longleftrightarrow> usable s risk ex (alloc_strategy_id a) \<and> 0 \<le> alloc_amount a \<and>
     alloc_amount a \<le> pool_cap s tot ex (alloc_strategy_id a)"

definition amounts :: "Allocation list \<Rightarrow> int" where
  "amounts al = sum_list (map alloc_amount al)"

lemma assign_loop_Ok:
  assumes ok: "farm_ok s" and tot: "0 < tot" and T: "0 < T"
    and ready: "\<And>i. i \<in> set ids \<Longrightarrow> 0 < score_at scores i \<Longrightarrow> usable s risk ex i"
  shows "assign_loop s tot ex scores T ids al n = Ok (al', n') \<Longrightarrow>
    \<exists>new. al' = al @ new \<and> map alloc_strategy_id new = filter (\<lambda>i. score_at scores i \<noteq> 0) ids \<and>
      (\<forall>a\<in>set new. alloc_fits s tot risk ex a) \<and> n' = n + amounts new \<and>
      amounts new * int T \<le> tot * int (sum_list (map (score_at scores) ids))"
  using ready
proof (induction ids arbitrary: al n)
  case Nil
  then show ?case by (simp add: amounts_def)
next
  case (Cons i ids)
  show ?case
  proof (cases "score_at scores i = 0")
    case True
    then show ?thesis using Cons by simp
  next
    case False
    obtain pc c where l: "pool_limits s tot ex i = Ok (pc, c)"
      and r: "assign_loop s tot ex scores T ids
        (al @ [\<lparr>alloc_strategy_id = i, alloc_amount = min (min ((tot * int (score_at scores i)) sdiv int T) pc) c,
          weight_bps = 0, projected_apy_bps = 0\<rparr>])
        (n + min (min ((tot * int (score_at scores i)) sdiv int T) pc) c) = Ok (al', n')"
      using Cons.prems(1) False by (auto simp: Let_def)
    let ?am = "min (min ((tot * int (score_at scores i)) sdiv int T) pc) c"
    let ?a = "\<lparr>alloc_strategy_id = i, alloc_amount = ?am, weight_bps = 0, projected_apy_bps = 0\<rparr>"
    obtain new where new: "al' = (al @ [?a]) @ new"
        "map alloc_strategy_id new = filter (\<lambda>i. score_at scores i \<noteq> 0) ids"
        "\<forall>a\<in>set new. alloc_fits s tot risk ex a" "n' = n + ?am + amounts new"
        "amounts new * int T \<le> tot * int (sum_list (map (score_at scores) ids))"
      using Cons.IH [OF r] Cons.prems(2) by auto
    have u: "usable s risk ex i" using Cons.prems(2) False by simp
    have pcap: "min pc c = pool_cap s tot ex i" using pool_limits_Ok [OF ok tot l] by blast
    have quot: "(tot * int (score_at scores i)) sdiv int T = tot * int (score_at scores i) div int T"
      using tot T by simp
    have nn: "0 \<le> tot * int (score_at scores i) div int T" using tot T by (simp add: pos_imp_zdiv_nonneg_iff)
    have am: "?am = min (tot * int (score_at scores i) div int T) (pool_cap s tot ex i)"
      using pcap unfolding quot by simp
    have fits: "alloc_fits s tot risk ex ?a"
      using u nn usable_cap_nonneg(1) [OF ok tot u] by (simp add: alloc_fits_def am)
    have "?am * int T \<le> tot * int (score_at scores i) div int T * int T"
      unfolding am using T by (intro mult_right_mono) auto
    also have "\<dots> \<le> tot * int (score_at scores i)" using T by (intro div_mult_le) simp
    finally have "amounts (?a # new) * int T \<le> tot * int (sum_list (map (score_at scores) (i # ids)))"
      using new(5) by (simp add: amounts_def algebra_simps)
    then show ?thesis
      using new False fits by (intro exI [of _ "?a # new"]) (auto simp: amounts_def)
  qed
qed

lemma never_assign_loop:
  assumes "farm_ok s" "0 < tot" "0 < T" shows "never t (assign_loop s tot ex scores T ids al n)"
proof (induction ids arbitrary: al n)
  case (Cons i ids)
  show ?case
    unfolding assign_loop.simps Let_def
    by (intro never_intros never_pool_limits Cons.IH assms(1,2)) (use assms in \<open>auto simp: never_def\<close>)
qed (simp add: never_leaf)

section \<open>Distributing the rest\<close>

lemma best_loop_found:
  assumes ok: "farm_ok s" "0 < tot"
  shows "best_loop s tot ex scores k al best = Ok (Some m, sc, room) \<Longrightarrow>
    fst best = Some m \<and> snd (snd best) = room \<or>
    k \<le> m \<and> m < k + length al \<and> 0 < room \<and>
      room = saturating_sub (pool_cap s tot ex (alloc_strategy_id (al ! (m - k)))) (alloc_amount (al ! (m - k)))"
proof (induction al arbitrary: k best)
  case (Cons a al)
  obtain bi bs br where best: "best = (bi, bs, br)" by (cases best)
  obtain pc c where l: "pool_limits s tot ex (alloc_strategy_id a) = Ok (pc, c)"
    using Cons.prems by (auto simp: Let_def)
  have cap: "min pc c = pool_cap s tot ex (alloc_strategy_id a)" using pool_limits_Ok [OF ok l] by blast
  let ?room = "saturating_sub (min pc c) (alloc_amount a)"
  let ?best = "if ?room > 0 \<and> (bi = None \<or> score_at scores (alloc_strategy_id a) > bs)
    then (Some k, score_at scores (alloc_strategy_id a), ?room) else (bi, bs, br)"
  have "best_loop s tot ex scores (Suc k) al ?best = Ok (Some m, sc, room)"
    using Cons.prems l by (simp add: best Let_def split del: if_split)
  from Cons.IH [OF this] show ?case
  proof (elim disjE conjE)
    assume "fst ?best = Some m" "snd (snd ?best) = room"
    then show ?thesis using cap by (auto simp: best split: if_splits)
  next
    assume "Suc k \<le> m" "m < Suc k + length al" "0 < room"
      "room = saturating_sub (pool_cap s tot ex (alloc_strategy_id (al ! (m - Suc k)))) (alloc_amount (al ! (m - Suc k)))"
    then show ?thesis by (auto simp: nth_Cons' Suc_diff_Suc)
  qed
qed simp

lemma amounts_upd:
  "m < length al \<Longrightarrow> amounts (al[m := a]) = amounts al - alloc_amount (al ! m) + alloc_amount a"
proof (induction al arbitrary: m)
  case (Cons x al)
  then show ?case by (cases m) (simp_all add: amounts_def)
qed simp

lemma fill_loop_Ok:
  assumes ok: "farm_ok s" "0 < tot"
  shows "fill_loop s tot ex scores al rest = Ok al' \<Longrightarrow> 0 \<le> rest \<Longrightarrow> (\<forall>a\<in>set al. alloc_fits s tot risk ex a) \<Longrightarrow>
    map alloc_strategy_id al' = map alloc_strategy_id al \<and> (\<forall>a\<in>set al'. alloc_fits s tot risk ex a) \<and>
    amounts al' = amounts al + rest"
  using ok
proof (induction s tot ex scores al rest rule: fill_loop.induct)
  case (1 s tot ex scores al rest)
  show ?case
  proof (cases "0 < rest")
    case False
    then show ?thesis using 1(2,3,4) by (simp add: fill_loop.simps)
  next
    case True
    obtain m sc room where b: "best_loop s tot ex scores 0 al (None, 0, 0) = (Ok (Some m, sc, room) :: (farm_error, _) outcome)"
      and r: "fill_loop s tot ex scores (al[m := (al ! m)\<lparr>alloc_amount := alloc_amount (al ! m) + min rest room\<rparr>])
        (rest - min rest room) = Ok al'"
      and fit: "in_i128 (alloc_amount (al ! m) + min rest room)" "in_i128 (rest - min rest room)"
      using 1(2) True by (subst (asm) fill_loop.simps) (auto simp: Let_def)
    let ?a = "(al ! m)\<lparr>alloc_amount := alloc_amount (al ! m) + min rest room\<rparr>"
    have m: "m < length al" "0 < room"
      "room = saturating_sub (pool_cap s tot ex (alloc_strategy_id (al ! m))) (alloc_amount (al ! m))"
      using best_loop_found [OF 1(5,6) b] by auto
    have "alloc_fits s tot risk ex (al ! m)" using m(1) 1(4) by simp
    moreover have "room \<le> pool_cap s tot ex (alloc_strategy_id (al ! m)) - alloc_amount (al ! m)"
      using saturate_pos m(2) unfolding m(3) saturating_sub_def by blast
    ultimately have "alloc_fits s tot risk ex ?a" using True m(2) by (simp add: alloc_fits_def)
    then have fits: "\<forall>a\<in>set (al[m := ?a]). alloc_fits s tot risk ex a"
      using 1(4) by (auto dest!: set_update_subset_insert [THEN subsetD])
    have "map alloc_strategy_id al' = map alloc_strategy_id (al[m := ?a]) \<and> (\<forall>a\<in>set al'. alloc_fits s tot risk ex a) \<and>
        amounts al' = amounts (al[m := ?a]) + (rest - min rest room)"
      by (rule 1(1) [OF _ b _ _ _ _ _ _ _ r])
        (use True fits 1(5,6) fit in simp_all)
    moreover have "map alloc_strategy_id (al[m := ?a]) = map alloc_strategy_id al"
      by (rule nth_equalityI) (use m(1) in \<open>auto simp: nth_list_update\<close>)
    ultimately show ?thesis using m(1) by (simp add: amounts_upd)
  qed
qed

lemma never_best_loop:
  assumes "farm_ok s" "0 < tot" shows "never t (best_loop s tot ex scores k al best)"
proof (induction al arbitrary: k best)
  case (Cons a al)
  show ?case
    unfolding best_loop.simps Let_def
    by (intro never_and_then never_prod never_pool_limits assms Cons.IH)
qed (simp add: never_leaf)

lemma never_fill_loop:
  assumes ok: "farm_ok s" "0 < tot"
  shows "in_i128 rest \<Longrightarrow> never t (fill_loop s tot ex scores al rest)"
  using ok
proof (induction s tot ex scores al rest rule: fill_loop.induct)
  case (1 s tot ex scores al rest)
  have nb: "best_loop s tot ex scores 0 al (None, 0, 0) \<noteq> Trap t"
    using never_best_loop [OF 1(3,4)] by (simp add: never_def)
  show ?case
    unfolding never_def
  proof
    assume "fill_loop s tot ex scores al rest = Trap t"
    then obtain m sc room where rest: "0 < rest"
      and b: "best_loop s tot ex scores 0 al (None, 0, 0) = (Ok (Some m, sc, room) :: (farm_error, _) outcome)"
      and r: "\<not> in_i128 (rest - min rest room) \<or>
        in_i128 (alloc_amount (al ! m) + min rest room) \<and> in_i128 (rest - min rest room) \<and>
        fill_loop s tot ex scores (al[m := (al ! m)\<lparr>alloc_amount := alloc_amount (al ! m) + min rest room\<rparr>])
          (rest - min rest room) = Trap t"
      using nb by (subst (asm) fill_loop.simps) (auto simp: Let_def split: if_splits)
    have "0 < room" using best_loop_room [OF b] by simp
    then have "in_i128 (rest - min rest room)" using rest by (intro in_i128_le [OF 1(2)]) auto
    then show False
      using r 1(1) [of "(Some m, sc, room)" "Some m" "(sc, room)" sc room m] rest b 1(3,4)
      by (auto simp: never_def)
  qed
qed

section \<open>Weights\<close>

definition weights :: "Allocation list \<Rightarrow> nat" where
  "weights al = sum_list (map weight_bps al)"

definition placed :: "Allocation \<Rightarrow> nat \<times> int" where
  "placed a = (alloc_strategy_id a, alloc_amount a)"

lemma final_loop_Ok:
  assumes ok: "farm_ok s"
  shows "final_loop s tot ex al final n = Ok (final', n') \<Longrightarrow> n \<le> 10000 \<Longrightarrow>
    \<exists>new. final' = final @ new \<and> map placed new = map placed (filter (\<lambda>a. alloc_amount a \<noteq> 0) al) \<and>
      (\<forall>a\<in>set new. projected_apy_bps a \<le> 10000) \<and> n' = n + weights new \<and> n' \<le> 10000"
proof (induction al arbitrary: final n)
  case Nil
  then show ?case by (simp add: weights_def)
next
  case (Cons a al)
  show ?case
  proof (cases "alloc_amount a = 0")
    case True
    then show ?thesis using Cons by simp
  next
    case False
    obtain x where x: "Strategies s (alloc_strategy_id a) = Some x" using Cons.prems(1) False by auto
    have "apy_bps x \<le> 10000" using farm_okD(3) [OF ok x] by (simp add: strategy_ok_def)
    note apy = apy_le [OF _ farm_okD(5) [OF ok] this]
    define w where "w = i128_as_u32 ((alloc_amount a * 10000) sdiv tot)"
    obtain p where p: "p \<le> 10000"
      and r: "final_loop s tot ex al (final @ [a\<lparr>projected_apy_bps := p, weight_bps := min w (10000 - n)\<rparr>])
        (u32_saturating_add n (min w (10000 - n))) = Ok (final', n')"
      unfolding w_def using Cons.prems(1) False x apy by (auto simp: Let_def BPS_DENOM_def)
    let ?a = "a\<lparr>projected_apy_bps := p, weight_bps := min w (10000 - n)\<rparr>"
    have n: "u32_saturating_add n (min w (10000 - n)) = n + min w (10000 - n)" "n + min w (10000 - n) \<le> 10000"
      using Cons.prems(2) by (simp_all add: u32_saturating_add_def u32_max_def)
    obtain new where "final' = (final @ [?a]) @ new"
        "map placed new = map placed (filter (\<lambda>a. alloc_amount a \<noteq> 0) al)"
        "\<forall>a\<in>set new. projected_apy_bps a \<le> 10000" "n' = n + min w (10000 - n) + weights new" "n' \<le> 10000"
      using Cons.IH [OF r] n by auto
    moreover have "placed ?a = placed a" by (simp add: placed_def)
    ultimately show ?thesis
      using False p by (intro exI [of _ "?a # new"]) (auto simp: weights_def)
  qed
qed

lemma never_final_loop:
  assumes ok: "farm_ok s" "0 < tot"
  shows "(\<forall>a\<in>set al. 0 \<le> alloc_amount a) \<Longrightarrow> never t (final_loop s tot ex al final n)"
proof (induction al arbitrary: final n)
  case (Cons a al)
  have tv: "never t (tvl_excluding_user s (alloc_strategy_id a) x ex)" if "get_strategy s (alloc_strategy_id a) = Ok x" for x
    using tvl_excluding_total(1) [OF ok(1)] that by (simp add: never_def)
  show ?case
    unfolding final_loop.simps Let_def
    by (intro never_if never_and_then never_get_strategy tv never_ok_or never_apy farm_okD(5) [OF ok(1)]
        never_div_pos ok(2) Cons.IH)
      (use Cons.prems in \<open>auto simp: BPS_DENOM_def\<close>)
qed (simp add: never_leaf)

section \<open>The whole optimizer\<close>

lemma scores_index:
  assumes "length scores = n" "i \<in> set [1..<n + 1]"
  shows "score_at scores i = scores ! (i - 1)"
  using assms by (auto simp: score_at_def)

lemma scores_sum: "length scores = n \<Longrightarrow> sum_list (map (score_at scores) [1..<n + 1]) = sum_list scores"
proof -
  assume n: "length scores = n"
  have "map (score_at scores) [1..<n + 1] = scores"
    by (rule nth_equalityI) (simp_all add: n score_at_def del: upt_Suc)
  then show ?thesis by simp
qed

lemma sum_list_bound: "(\<forall>x\<in>set xs. x \<le> (b::nat)) \<Longrightarrow> sum_list xs \<le> length xs * b"
  by (induction xs) auto

lemma assign_stage:
  assumes ok: "farm_ok s" and tot: "0 < tot" and T: "T \<noteq> 0"
    and sc: "score_loop s tot risk ex [1..<get_strategy_count s + 1] [] 0 = Ok (scores, T)"
    and as: "assign_loop s tot ex scores T [1..<get_strategy_count s + 1] [] 0 = Ok (al, n)"
  shows "sorted_wrt (<) (map alloc_strategy_id al)" "\<forall>a\<in>set al. alloc_fits s tot risk ex a" "n = amounts al"
    "0 \<le> amounts al" "amounts al \<le> tot"
proof -
  let ?ids = "[1..<get_strategy_count s + 1]"
  have len: "length scores = get_strategy_count s"
    and us: "\<forall>k<get_strategy_count s. 0 < scores ! k \<longrightarrow> usable s risk ex (?ids ! k)"
    and small: "\<forall>x\<in>set scores. x \<le> 10000"
    and Tsum: "sum_list scores \<le> u64_max \<longrightarrow> T = sum_list scores"
    using score_loop_Ok [OF ok sc] by (auto simp del: upt_Suc)
  have "sum_list scores \<le> get_strategy_count s * 10000" using sum_list_bound [OF small] len by simp
  also have "\<dots> \<le> u32_max * 10000" using farm_okD(1) [OF ok] by (intro mult_le_mono1)
  also have "\<dots> \<le> u64_max" by (simp add: u32_max_def u64_max_def)
  finally have T': "T = sum_list (map (score_at scores) ?ids)" using Tsum scores_sum [OF len] by simp
  have ready: "usable s risk ex i" if "i \<in> set ?ids" "0 < score_at scores i" for i
  proof -
    have "?ids ! (i - 1) = i" using that(1) by (subst nth_upt) auto
    moreover have "0 < scores ! (i - 1)" using that scores_index [OF len that(1)] by simp
    moreover have "i - 1 < get_strategy_count s" using that(1) by auto
    ultimately show ?thesis using us by (metis (no_types))
  qed
  have T0: "0 < T" using T by simp
  have A: "map alloc_strategy_id al = filter (\<lambda>i. score_at scores i \<noteq> 0) ?ids"
      "\<forall>a\<in>set al. alloc_fits s tot risk ex a" "n = amounts al" "amounts al * int T \<le> tot * int T"
    using assign_loop_Ok [OF ok tot T0 ready as, folded T'] by (simp_all del: upt_Suc)
  show "sorted_wrt (<) (map alloc_strategy_id al)"
    unfolding A(1) by (rule sorted_wrt_filter) (simp del: upt_Suc)
  show "\<forall>a\<in>set al. alloc_fits s tot risk ex a" "n = amounts al" by (rule A)+
  show "amounts al \<le> tot" using A(4) T0 by simp
  show "0 \<le> amounts al" using A(2) unfolding amounts_def by (intro sum_list_nonneg) (auto simp: alloc_fits_def)
qed

lemma build_allocation_stages:
  assumes ok: "farm_ok s" and tr: "in_i128 tot" and r: "build_allocation s tot risk ex = Ok allocs"
  obtains al final n where "0 < tot" "amounts al = tot" "\<forall>a\<in>set al. alloc_fits s tot risk ex a"
    "sorted_wrt (<) (map alloc_strategy_id al)"
    "map placed final = map placed (filter (\<lambda>a. alloc_amount a \<noteq> 0) al)"
    "\<forall>a\<in>set final. projected_apy_bps a \<le> 10000" "n = weights final" "n \<le> 10000" "final \<noteq> []"
    "allocs = final[length final - 1 := (final ! (length final - 1))\<lparr>weight_bps :=
       u32_saturating_add (weight_bps (final ! (length final - 1))) (10000 - n)\<rparr>]"
proof -
  let ?ids = "[1..<get_strategy_count s + 1]"
  obtain scores T al0 n0 al1 final n where tot: "0 < tot" and T: "T \<noteq> 0"
    and sc: "score_loop s tot risk ex ?ids [] 0 = Ok (scores, T)"
    and as: "assign_loop s tot ex scores T ?ids [] 0 = Ok (al0, n0)"
    and fl: "fill_loop s tot ex scores al0 (saturating_sub tot n0) = Ok al1"
    and fi: "final_loop s tot ex al1 [] 0 = Ok (final, n)" and ne: "final \<noteq> []"
    and al: "allocs = final[length final - 1 := (final ! (length final - 1))\<lparr>weight_bps :=
       u32_saturating_add (weight_bps (final ! (length final - 1))) (10000 - n)\<rparr>]"
    using r by (auto simp: build_allocation_def Let_def BPS_DENOM_def simp del: upt_Suc split: if_splits)
  note A = assign_stage [OF ok tot T sc as]
  have "saturating_sub tot n0 = tot - n0"
    using in_i128_le [OF tr, of "tot - n0"] A by (simp add: saturating_sub_def saturate_id)
  with fl have fl': "fill_loop s tot ex scores al0 (tot - amounts al0) = Ok al1" by (simp add: A(3))
  have B: "map alloc_strategy_id al1 = map alloc_strategy_id al0" "\<forall>a\<in>set al1. alloc_fits s tot risk ex a"
      "amounts al1 = tot"
    using fill_loop_Ok [OF ok tot fl' _ A(2)] A(5) by auto
  show ?thesis
    using final_loop_Ok [OF ok fi] B A(1) tot ne al by (intro that [of al1 final n]) auto
qed

lemma never_build_allocation:
  assumes ok: "farm_ok s" and tr: "in_i128 tot" shows "never t (build_allocation s tot risk ex)"
proof (cases "tot \<le> 0 \<or> risk > MAX_RISK_SCORE")
  case True
  then show ?thesis by (auto simp: build_allocation_def never_def)
next
  case False
  then have tot: "0 < tot" by simp
  show ?thesis
    unfolding build_allocation_def Let_def
  proof (intro never_if never_leaf never_and_then never_prod never_score_loop ok tot)
    fix p scores T q al0 n0 al1
    assume sc: "score_loop s tot risk ex [1..<get_strategy_count s + 1] [] 0 = Ok p" "p = (scores, T)" "T \<noteq> 0"
    show "never t (assign_loop s tot ex scores T [1..<get_strategy_count s + 1] [] 0)"
      using never_assign_loop [OF ok tot] sc(3) by simp
    assume as: "assign_loop s tot ex scores T [1..<get_strategy_count s + 1] [] 0 = Ok q" "q = (al0, n0)"
    note A = assign_stage [OF ok tot sc(3) sc(1) [unfolded sc(2)] as(1) [unfolded as(2)]]
    have rest: "saturating_sub tot n0 = tot - amounts al0"
      using in_i128_le [OF tr, of "tot - n0"] A by (simp add: saturating_sub_def saturate_id)
    show "never t (fill_loop s tot ex scores al0 (saturating_sub tot n0))"
      by (rule never_fill_loop [OF ok tot]) (simp add: saturating_sub_def saturate_range)
    assume fl: "fill_loop s tot ex scores al0 (saturating_sub tot n0) = Ok al1"
    have "\<forall>a\<in>set al1. alloc_fits s tot risk ex a"
      using fill_loop_Ok [OF ok tot fl [unfolded rest] _ A(2)] A(5) by auto
    then show "never t (final_loop s tot ex al1 [] 0)"
      by (intro never_final_loop [OF ok tot]) (auto simp: alloc_fits_def)
  qed
qed

lemma weights_upd:
  "m < length al \<Longrightarrow> int (weights (al[m := a])) = int (weights al) - int (weight_bps (al ! m)) + int (weight_bps a)"
proof (induction al arbitrary: m)
  case (Cons x al)
  then show ?case by (cases m) (simp_all add: weights_def)
qed simp

lemma weight_le: "a \<in> set al \<Longrightarrow> weight_bps a \<le> weights al"
  by (induction al) (auto simp: weights_def)

lemma placed_amounts: "amounts al = sum_list (map snd (map placed al))"
  and placed_ids: "map alloc_strategy_id al = map fst (map placed al)"
  by (simp_all add: amounts_def placed_def comp_def)

lemma amounts_nonzero: "amounts (filter (\<lambda>a. alloc_amount a \<noteq> 0) al) = amounts al"
  unfolding amounts_def by (induction al) auto

lemma build_allocation_correct:
  assumes ok: "farm_ok s" and tr: "in_i128 tot" and r: "build_allocation s tot risk ex = Ok allocs"
  shows "amounts allocs = tot" "weights allocs = 10000" "sorted_wrt (<) (map alloc_strategy_id allocs)"
    "\<And>a. a \<in> set allocs \<Longrightarrow> 0 < alloc_amount a \<and> alloc_fits s tot risk ex a \<and> projected_apy_bps a \<le> 10000"
proof -
  obtain al final n where al: "amounts al = tot" "\<forall>a\<in>set al. alloc_fits s tot risk ex a"
      "sorted_wrt (<) (map alloc_strategy_id al)"
    and f: "map placed final = map placed (filter (\<lambda>a. alloc_amount a \<noteq> 0) al)"
      "\<forall>a\<in>set final. projected_apy_bps a \<le> 10000" "n = weights final" "n \<le> 10000" "final \<noteq> []"
    and allocs: "allocs = final[length final - 1 := (final ! (length final - 1))\<lparr>weight_bps :=
       u32_saturating_add (weight_bps (final ! (length final - 1))) (10000 - n)\<rparr>]"
    using build_allocation_stages [OF ok tr r] by metis
  let ?m = "length final - 1" and ?l = "final ! (length final - 1)"
  let ?a = "?l\<lparr>weight_bps := u32_saturating_add (weight_bps ?l) (10000 - n)\<rparr>"
  have m: "?m < length final" using f(5) by (cases final) simp_all
  have l: "?l \<in> set final" using m by simp
  have pl: "map placed allocs = map placed (filter (\<lambda>a. alloc_amount a \<noteq> 0) al)"
    unfolding f(1) [symmetric] allocs using m
    by (intro nth_equalityI) (auto simp: nth_list_update placed_def)
  show "amounts allocs = tot"
    unfolding placed_amounts pl unfolding placed_amounts [symmetric] by (simp add: amounts_nonzero al(1))
  show "sorted_wrt (<) (map alloc_strategy_id allocs)"
    unfolding placed_ids pl unfolding placed_ids [symmetric]
    using al(3) by (simp add: sorted_wrt_map sorted_wrt_filter)
  have w: "weight_bps ?l + (10000 - n) \<le> 10000" using weight_le [OF l] f(3,4) by simp
  then have "weight_bps ?a = weight_bps ?l + (10000 - n)" by (simp add: u32_saturating_add_def u32_max_def)
  then have "int (weights allocs) = int (weights final) - int (weight_bps ?l) + int (weight_bps ?l + (10000 - n))"
    unfolding allocs by (subst weights_upd [OF m]) simp
  then show "weights allocs = 10000" using f(3,4) by simp
  fix a assume a: "a \<in> set allocs"
  then have "placed a \<in> set (map placed (filter (\<lambda>a. alloc_amount a \<noteq> 0) al))"
    unfolding pl [symmetric] by simp
  then obtain b where b: "b \<in> set al" "alloc_amount b \<noteq> 0" "placed a = placed b" by auto
  have "alloc_fits s tot risk ex b" using al(2) b(1) by blast
  then have "0 < alloc_amount a \<and> alloc_fits s tot risk ex a" using b(2,3) by (simp add: alloc_fits_def placed_def)
  moreover have "projected_apy_bps a \<le> 10000"
    using a f(2) l set_update_subset_insert [of final ?m ?a] unfolding allocs by auto
  ultimately show "0 < alloc_amount a \<and> alloc_fits s tot risk ex a \<and> projected_apy_bps a \<le> 10000" by blast
qed

end
