(* ===== verification/Farm_Correct.thy ===== *)
theory Farm_Correct
  imports Farm_Optimizer_Correct
begin

text \<open>
  Correctness of the yield farm's books: what a pool reports as deposited covers the balances of its
  depositors, a rebalance moves a portfolio without creating or losing a unit, and the optimizer's
  guarantees in every reachable state.
\<close>

section \<open>Balances\<close>

definition pos_bal :: "Position option \<Rightarrow> int" where
  "pos_bal p = (case p of None \<Rightarrow> 0 | Some x \<Rightarrow> compounded_balance x)"

lemma pos_bal_simps [simp]: "pos_bal None = 0" "pos_bal (Some p) = compounded_balance p"
  by (simp_all add: pos_bal_def)

definition held :: "farm_state \<Rightarrow> nat \<Rightarrow> int" where
  "held s i = total_bal (\<lambda>a. map_option compounded_balance (Positions s (i, a)))"

definition farm_inv :: "farm_state \<Rightarrow> bool" where
  "farm_inv s \<longleftrightarrow> farm_ok s \<and> finite (dom (Positions s))"

lemma bal_position: "bal (\<lambda>a. map_option compounded_balance (Positions s (i, a))) a = pos_bal (Positions s (i, a))"
  by (cases "Positions s (i, a)") (simp_all add: bal_def)

lemma finite_holders:
  assumes "finite (dom (Positions s))"
  shows "finite (dom (\<lambda>a. map_option compounded_balance (Positions s (i, a))))"
  by (rule finite_subset [OF _ finite_imageI [OF assms, of snd]]) force

lemma held_upd:
  assumes "finite (dom (Positions s))" "Positions t = (Positions s)((i, a) := po)"
  shows "held t j = (if j = i then held s j - pos_bal (Positions s (i, a)) + pos_bal po else held s j)"
proof (cases "j = i")
  case True
  have "(\<lambda>b. map_option compounded_balance (Positions t (i, b))) =
      (\<lambda>b. map_option compounded_balance (Positions s (i, b)))(a := map_option compounded_balance po)"
    by (rule ext) (simp add: assms(2))
  then show ?thesis
    using True finite_holders [OF assms(1), of i]
    by (cases po) (simp_all add: held_def bal_position del: fun_upd_apply)
qed (simp add: held_def assms(2))

section \<open>Elementary book entries\<close>

text \<open>
  Every user action is a sequence of entries, each of which rewrites one strategy and one position
  in it. A fair entry (the first argument) moves the strategy's deposits at least with the position.
\<close>

definition entry :: "bool \<Rightarrow> nat \<Rightarrow> address \<Rightarrow> farm_state \<Rightarrow> farm_state \<Rightarrow> bool" where
  "entry fair i a s t \<longleftrightarrow>
     (\<exists>x x' po. Strategies s i = Some x \<and> Strategies t = (Strategies s)(i \<mapsto> x') \<and>
        Positions t = (Positions s)((i, a) := po) \<and> StrategyCount t = StrategyCount s \<and>
        PoolConfigs t = PoolConfigs s \<and> Admin t = Admin s \<and> strategy_ok x' \<and> (\<forall>p. po = Some p \<longrightarrow> position_ok p) \<and>
        (fair \<longrightarrow> total_deposited x - pos_bal (Positions s (i, a)) \<le> total_deposited x' - pos_bal po))"

inductive entries :: "bool \<Rightarrow> address \<Rightarrow> farm_state \<Rightarrow> farm_state \<Rightarrow> bool" for fair a where
  none: "entries fair a s s"
| more: "entry fair i a s t \<Longrightarrow> entries fair a t u \<Longrightarrow> entries fair a s u"

definition same_book :: "farm_state \<Rightarrow> farm_state \<Rightarrow> bool" where
  "same_book s t \<longleftrightarrow> Strategies t = Strategies s \<and> Positions t = Positions s \<and>
     StrategyCount t = StrategyCount s \<and> PoolConfigs t = PoolConfigs s \<and> Admin t = Admin s"

lemma entry_inv:
  assumes e: "entry fair i a s t" and inv: "farm_inv s"
  shows "farm_inv t"
proof -
  obtain x x' po where x: "Strategies s i = Some x" "Strategies t = (Strategies s)(i \<mapsto> x')"
      "Positions t = (Positions s)((i, a) := po)" "StrategyCount t = StrategyCount s" "PoolConfigs t = PoolConfigs s"
      "strategy_ok x'" "\<forall>p. po = Some p \<longrightarrow> position_ok p"
    using e unfolding entry_def by blast
  have c: "get_strategy_count t = get_strategy_count s" by (simp add: get_strategy_count_def x(4))
  have ok: "farm_ok s" using inv by (simp add: farm_inv_def)
  have d: "Strategies s i \<noteq> None \<longleftrightarrow> 1 \<le> i \<and> i \<le> get_strategy_count s" for i by (rule farm_okD(2) [OF ok])
  have dom: "Strategies t j \<noteq> None \<longleftrightarrow> 1 \<le> j \<and> j \<le> get_strategy_count t" for j
    using d [of j] x(1) by (auto simp: x(2) c)
  have pos: "Strategies t j \<noteq> None \<and> position_ok p" if "Positions t (j, b) = Some p" for j b p
  proof (cases "(j, b) = (i, a)")
    case True
    then show ?thesis using that x by simp
  next
    case False
    then have "Positions s (j, b) = Some p" using that by (auto simp: x(3) split: if_splits)
    then show ?thesis using farm_okD(4) [OF ok] by (auto simp: x(2))
  qed
  have "finite (dom (Positions t))"
    using inv by (auto simp: farm_inv_def x(3) intro: finite_subset [of _ "insert (i, a) (dom (Positions s))"])
  moreover have "farm_ok t"
    unfolding farm_ok_def
  proof (intro conjI allI impI)
    show "get_strategy_count t \<le> u32_max" using farm_okD(1) [OF ok] c by simp
    fix j show "(Strategies t j \<noteq> None) = (1 \<le> j \<and> j \<le> get_strategy_count t)" by (rule dom)
  next
    fix j y assume "Strategies t j = Some y"
    then show "strategy_ok y" using farm_okD(3) [OF ok, of j y] x(6) by (auto simp: x(2) split: if_splits)
  next
    fix j y assume "PoolConfigs t j = Some y"
    then show "config_ok y" using ok x(5) unfolding farm_ok_def by simp
  next
    fix j b p assume "Positions t (j, b) = Some p"
    then show "Strategies t j \<noteq> None" "position_ok p" using pos by blast+
  qed
  ultimately show ?thesis by (simp add: farm_inv_def)
qed

lemma entries_inv: "entries fair a s t \<Longrightarrow> farm_inv s \<Longrightarrow> farm_inv t"
  by (induction rule: entries.induct) (auto intro: entry_inv)

lemma entries_trans: "entries fair a s t \<Longrightarrow> entries fair a t u \<Longrightarrow> entries fair a s u"
  by (induction rule: entries.induct) (auto intro: entries.more)

lemma entries_one: "entry fair i a s t \<Longrightarrow> entries fair a s t"
  by (blast intro: entries.intros)

definition covers :: "farm_state \<Rightarrow> bool" where
  "covers s \<longleftrightarrow> (\<forall>i x. Strategies s i = Some x \<longrightarrow> held s i \<le> total_deposited x)"

lemma entry_covers:
  assumes e: "entry True i a s t" and inv: "farm_inv s" and c: "covers s"
  shows "covers t"
  unfolding covers_def
proof (intro allI impI)
  fix j y assume y: "Strategies t j = Some y"
  obtain x x' po where x: "Strategies s i = Some x" "Strategies t = (Strategies s)(i \<mapsto> x')"
      "Positions t = (Positions s)((i, a) := po)"
      "total_deposited x - pos_bal (Positions s (i, a)) \<le> total_deposited x' - pos_bal po"
    using e unfolding entry_def by blast
  have fin: "finite (dom (Positions s))" using inv by (simp add: farm_inv_def)
  have "held s k \<le> total_deposited z" if "Strategies s k = Some z" for k z
    using c that by (simp add: covers_def)
  then show "held t j \<le> total_deposited y"
    using y x held_upd [OF fin x(3), of j] by (cases "j = i") force+
qed

lemma entries_covers: "entries True a s t \<Longrightarrow> farm_inv s \<Longrightarrow> covers s \<Longrightarrow> covers t"
  by (induction rule: entries.induct) (auto intro: entry_covers entry_inv)

lemma entries_others:
  assumes "entries fair a s t" "b \<noteq> a" shows "Positions t (i, b) = Positions s (i, b)"
  using assms by (induction rule: entries.induct) (auto simp: entry_def)

lemma entries_count:
  "entries fair a s t \<Longrightarrow> get_strategy_count t = get_strategy_count s \<and> Admin t = Admin s"
  by (induction rule: entries.induct) (auto simp: entry_def get_strategy_count_def)

lemma same_book_parts:
  assumes "same_book s t"
  shows "farm_inv t = farm_inv s" "covers t = covers s"
  using assms by (simp_all add: same_book_def farm_inv_def farm_ok_def get_strategy_count_def covers_def held_def)

section \<open>Compounding\<close>

lemma compound_position_ok:
  assumes "position_ok p" "strategy_ok x"
  shows "position_ok (compound_position p x now)" "deposited (compound_position p x now) = deposited p"
    "compounded_balance p \<le> compounded_balance (compound_position p x now)"
proof -
  let ?q = "compound_position p x now"
  have b: "0 \<le> compounded_balance p" "in_i128 (compounded_balance p)" using assms(1) by (simp_all add: position_ok_def)
  have nn: "0 \<le> saturating_mul u v" if "0 \<le> u" "0 \<le> v" for u v
    using mult_nonneg_nonneg [OF that]
    by (simp add: saturating_mul_def i128_saturate_def i128_min_def i128_max_def del: mult_nonneg_nonneg)
  have r: "0 \<le> saturating_mul (saturating_mul (compounded_balance p) (int (apy_bps x))) (int e) sdiv
      (int BPS_DENOM * int SECONDS_PER_YEAR)" for e
    using nn [OF nn [OF b(1), of "int (apy_bps x)"], of "int e"]
    by (simp add: BPS_DENOM_def SECONDS_PER_YEAR_def pos_imp_zdiv_nonneg_iff)
  have add: "u \<le> saturating_add u v \<and> in_i128 (saturating_add u v)" if "in_i128 u" "0 \<le> v" for u v
    using that saturate_range [of "u + v"] by (auto simp: saturating_add_def i128_saturate_def in_i128_def)
  show le: "compounded_balance p \<le> compounded_balance ?q"
    using add [OF b(2) r] by (simp add: compound_position_def Let_def del: of_nat_diff)
  show d: "deposited ?q = deposited p" by (simp add: compound_position_def Let_def)
  have "in_i128 (compounded_balance ?q)"
    using add [OF b(2) r] b(2) by (simp add: compound_position_def Let_def del: of_nat_diff)
  then show "position_ok ?q" using assms(1) le unfolding position_ok_def d by linarith
qed

lemma accrued:
  assumes "position_ok p" "strategy_ok x"
  shows "saturating_sub (compounded_balance (compound_position p x now)) (compounded_balance p) =
      compounded_balance (compound_position p x now) - compounded_balance p"
proof -
  let ?d = "compounded_balance (compound_position p x now) - compounded_balance p"
  have q: "in_i128 (compounded_balance (compound_position p x now))" "0 \<le> compounded_balance p"
    using compound_position_ok(1) [OF assms] assms(1) by (simp_all add: position_ok_def)
  have "in_i128 ?d"
    by (rule in_i128_le [OF q(1)]) (use q(2) compound_position_ok(3) [OF assms] in simp_all)
  then show ?thesis by (simp add: saturating_sub_def saturate_id)
qed

section \<open>What each action does to the books\<close>

lemma farm_inv_strategy: "farm_inv s \<Longrightarrow> Strategies s i = Some x \<Longrightarrow> strategy_ok x"
  and farm_inv_position: "farm_inv s \<Longrightarrow> Positions s (i, a) = Some p \<Longrightarrow> position_ok p"
  using farm_okD(3,4) unfolding farm_inv_def by blast+

lemma entryI:
  assumes "Strategies s i = Some x" "Strategies t = (Strategies s)(i \<mapsto> x')" "Positions t = (Positions s)((i, a) := po)"
    "StrategyCount t = StrategyCount s" "PoolConfigs t = PoolConfigs s" "Admin t = Admin s" "strategy_ok x'" "\<And>p. po = Some p \<Longrightarrow> position_ok p"
    "fair \<Longrightarrow> total_deposited x - pos_bal (Positions s (i, a)) \<le> total_deposited x' - pos_bal po"
  shows "entry fair i a s t"
  unfolding entry_def using assms by blast

lemma farm_assert_initialized_Ok [simp]: "assert_initialized s = Ok u \<longleftrightarrow> is_initialized s"
  by (simp add: assert_initialized_def)

lemma get_position_Some [simp]: "get_position s i a = Ok p \<longleftrightarrow> Positions s (i, a) = Some p"
  by (simp add: get_position_def)

lemma strategy_ok_upd: "strategy_ok x \<Longrightarrow> 0 \<le> v \<Longrightarrow> in_i128 v \<Longrightarrow> strategy_ok (x\<lparr>total_deposited := v\<rparr>)"
  by (simp add: strategy_ok_def)

lemma deposit_entry:
  assumes inv: "farm_inv s" and r: "deposit env a i amt s = Ok (u, t)"
  shows "entry True i a s t"
proof -
  obtain x where x: "Strategies s i = Some x" and amt: "0 < amt" using r by (auto simp: deposit_def)
  have xo: "strategy_ok x" by (rule farm_inv_strategy [OF inv x])
  let ?now = "timestamp env"
  obtain p where p: "position_ok p" "0 \<le> compounded_balance p - pos_bal (Positions s (i, a))"
    and pos: "(if has_position s i a then
              and_then (get_position s i a) (\<lambda>pos.
              let compounded = compound_position pos x ?now
              in Ok (compounded, saturating_sub (compounded_balance compounded) (compounded_balance pos)))
            else Ok (\<lparr>deposited = 0, compounded_balance = 0, last_update_ts = ?now\<rparr>, 0)) =
          (Ok (p, compounded_balance p - pos_bal (Positions s (i, a))) :: (farm_error, _) outcome)"
  proof (cases "Positions s (i, a)")
    case None
    then show ?thesis
      by (intro that [of "\<lparr>deposited = 0, compounded_balance = 0, last_update_ts = ?now\<rparr>"])
        (simp_all add: position_ok_def has_position_def)
  next
    case (Some q)
    have q: "position_ok q" by (rule farm_inv_position [OF inv Some])
    show ?thesis
      by (rule that [of "compound_position q x ?now"])
        (use Some q xo compound_position_ok [OF q xo] accrued [OF q xo] in
          \<open>simp_all add: has_position_def get_position_def Let_def\<close>)
  qed
  let ?r = "compounded_balance p - pos_bal (Positions s (i, a))"
  have fit: "in_i128 (deposited p + amt)" "in_i128 (compounded_balance p + amt)"
      "in_i128 (total_deposited x + ?r + amt)"
    and t: "t = publish (Ev_deposit i a amt) (set_strategy i (x\<lparr>total_deposited := total_deposited x + ?r + amt\<rparr>)
        (set_position i a (p\<lparr>deposited := deposited p + amt, compounded_balance := compounded_balance p + amt,
           last_update_ts := ?now\<rparr>) s))"
    using r x unfolding deposit_def Let_def by (auto simp: pos [unfolded Let_def] split: if_splits)
  show ?thesis
    by (rule entryI [OF x, where x' = "x\<lparr>total_deposited := total_deposited x + ?r + amt\<rparr>" and
          po = "Some (p\<lparr>deposited := deposited p + amt, compounded_balance := compounded_balance p + amt,
             last_update_ts := ?now\<rparr>)"])
      (use fit p amt xo in \<open>auto simp: t farm_setters strategy_ok_def position_ok_def\<close>)
qed

lemma withdraw_entry:
  assumes inv: "farm_inv s" and r: "withdraw env a i amt s = Ok (u, t)"
  shows "entry True i a s t"
proof -
  obtain x q where x: "Strategies s i = Some x" and q: "Positions s (i, a) = Some q" and amt: "0 < amt"
    using r by (auto simp: withdraw_def Let_def)
  have xo: "strategy_ok x" by (rule farm_inv_strategy [OF inv x])
  have qo: "position_ok q" by (rule farm_inv_position [OF inv q])
  let ?p = "compound_position q x (timestamp env)"
  note p = compound_position_ok [OF qo xo, of "timestamp env"]
  let ?tvl = "total_deposited x + (compounded_balance ?p - compounded_balance q)"
  let ?cb = "compounded_balance ?p - amt" and ?dep = "deposited ?p - min amt (deposited ?p)"
  have le: "amt \<le> compounded_balance ?p" and fit: "in_i128 ?cb" "in_i128 ?tvl" "in_i128 (?tvl - min amt ?tvl)"
    and t: "t = publish (Ev_withdraw i a amt) (set_strategy i (x\<lparr>total_deposited := ?tvl - min amt ?tvl\<rparr>)
        (if ?cb = 0 then remove_position i a s
         else set_position i a (?p\<lparr>compounded_balance := ?cb, deposited := ?dep, last_update_ts := timestamp env\<rparr>) s))"
    using r x q unfolding withdraw_def Let_def by (auto simp: accrued [OF qo xo] split: if_splits)
  have tv: "0 \<le> ?tvl" using xo p(3) by (simp add: strategy_ok_def)
  let ?po = "if ?cb = 0 then None
    else Some (?p\<lparr>compounded_balance := ?cb, deposited := ?dep, last_update_ts := timestamp env\<rparr>)"
  have po: "position_ok z" if "?po = Some z" for z
    using that p(1) le fit(1) amt by (auto simp: position_ok_def min_def split: if_splits)
  have bal: "pos_bal ?po = ?cb" by simp
  show ?thesis
    by (rule entryI [OF x, where x' = "x\<lparr>total_deposited := ?tvl - min amt ?tvl\<rparr>" and po = ?po])
      (use fit xo tv po bal q in \<open>simp_all add: t farm_setters strategy_ok_upd min_def\<close>)
qed

text \<open>A single compounding adds to the strategy with saturation: fair unless it hits the ceiling.\<close>

lemma compound_entry:
  assumes inv: "farm_inv s" and r: "compound env a i s = Ok (u, t)"
  shows "entry False i a s t"
    "(\<forall>x. Strategies t i = Some x \<longrightarrow> total_deposited x < i128_max) \<Longrightarrow> entry True i a s t"
proof -
  obtain x q where x: "Strategies s i = Some x" and q: "Positions s (i, a) = Some q"
    using r by (auto simp: compound_def Let_def)
  have xo: "strategy_ok x" by (rule farm_inv_strategy [OF inv x])
  have qo: "position_ok q" by (rule farm_inv_position [OF inv q])
  let ?p = "compound_position q x (timestamp env)"
  note p = compound_position_ok [OF qo xo, of "timestamp env"]
  let ?d = "compounded_balance ?p - compounded_balance q"
  let ?x = "x\<lparr>total_deposited := saturating_add (total_deposited x) ?d, last_compound_ts := timestamp env\<rparr>"
  have t: "t = publish (Ev_compound i a (compounded_balance ?p)) (set_strategy i ?x (set_position i a ?p s))"
    using r x q unfolding compound_def Let_def by (auto simp: accrued [OF qo xo])
  have tv: "0 \<le> total_deposited x" using xo by (simp add: strategy_ok_def)
  have xo': "strategy_ok ?x"
    using xo p(3) saturate_range [of "total_deposited x + ?d"]
    by (simp add: strategy_ok_def saturating_add_def i128_saturate_def i128_max_def i128_min_def)
  have e: "entry fair i a s t" if "fair \<Longrightarrow> total_deposited ?x = total_deposited x + ?d" for fair
    by (rule entryI [OF x, where x' = ?x and po = "Some ?p"])
      (use xo' p(1) q that in \<open>simp_all add: t farm_setters\<close>)
  show "entry False i a s t" by (rule e) simp
  show "entry True i a s t" if "\<forall>x. Strategies t i = Some x \<longrightarrow> total_deposited x < i128_max"
  proof (rule e)
    have "total_deposited ?x < i128_max" using that by (simp add: t farm_setters)
    moreover have "i128_min \<le> total_deposited x + ?d" using tv p(3) by (simp add: i128_min_def)
    ultimately show "total_deposited ?x = total_deposited x + ?d"
      by (auto simp: saturating_add_def i128_saturate_def)
  qed
qed

lemma compound_loop_entries:
  "compound_loop a now ids n found s = Ok ((m, b), t) \<Longrightarrow> farm_inv s \<Longrightarrow> entries True a s t"
proof (induction ids arbitrary: n found s)
  case Nil
  then show ?case by (simp add: entries.none)
next
  case (Cons i ids)
  show ?case
  proof (cases "Positions s (i, a)")
    case None
    then show ?thesis using Cons by (simp add: has_position_def)
  next
    case (Some q)
    obtain x where x: "Strategies s i = Some x" using Cons.prems(1) Some by (auto simp: has_position_def)
    have xo: "strategy_ok x" by (rule farm_inv_strategy [OF Cons.prems(2) x])
    have qo: "position_ok q" by (rule farm_inv_position [OF Cons.prems(2) Some])
    let ?p = "compound_position q x now"
    note p = compound_position_ok [OF qo xo, of now]
    let ?d = "compounded_balance ?p - compounded_balance q"
    let ?x = "x\<lparr>total_deposited := total_deposited x + ?d, last_compound_ts := now\<rparr>"
    let ?s = "set_strategy i ?x (set_position i a ?p s)"
    have fit: "in_i128 (total_deposited x + ?d)" and r: "compound_loop a now ids (n + ?d) True ?s = Ok ((m, b), t)"
      using Cons.prems(1) Some x by (auto simp: has_position_def Let_def accrued [OF qo xo])
    have e: "entry True i a s ?s"
      by (rule entryI [OF x, where x' = ?x and po = "Some ?p"])
        (use xo p Some fit in \<open>simp_all add: farm_setters strategy_ok_def\<close>)
    show ?thesis
      by (rule entries.more [OF e Cons.IH [OF r entry_inv [OF e Cons.prems(2)]]])
  qed
qed

lemma clear_loop_entries:
  "clear_loop a now ids s = Ok t \<Longrightarrow> farm_inv s \<Longrightarrow>
    entries True a s t \<and> (\<forall>i\<in>set ids. Positions t (i, a) = None) \<and>
    (\<forall>i. i \<notin> set ids \<longrightarrow> Positions t (i, a) = Positions s (i, a))"
proof (induction ids arbitrary: s)
  case Nil
  then show ?case by (simp add: entries.none)
next
  case (Cons i ids)
  show ?case
  proof (cases "Positions s (i, a)")
    case None
    then show ?thesis using Cons by (fastforce simp: has_position_def)
  next
    case (Some q)
    obtain x where x: "Strategies s i = Some x" using Cons.prems(1) Some by (auto simp: has_position_def)
    have xo: "strategy_ok x" by (rule farm_inv_strategy [OF Cons.prems(2) x])
    have qo: "position_ok q" by (rule farm_inv_position [OF Cons.prems(2) Some])
    let ?v = "total_deposited x - min (deposited q) (total_deposited x)"
    have fit: "0 \<le> ?v" "in_i128 ?v"
    proof -
      show "0 \<le> ?v" by simp
      show "in_i128 ?v"
        by (rule in_i128_le [of "total_deposited x"]) (use xo qo in \<open>auto simp: strategy_ok_def position_ok_def\<close>)
    qed
    let ?s = "set_strategy i (x\<lparr>total_deposited := ?v\<rparr>) (remove_position i a s)"
    have r: "clear_loop a now ids ?s = Ok t"
      using Cons.prems(1) Some x fit compound_position_ok(2) [OF qo xo, of now]
      by (auto simp: has_position_def Let_def saturating_sub_def saturate_id)
    have e: "entry True i a s ?s"
      by (rule entryI [OF x, where x' = "x\<lparr>total_deposited := ?v\<rparr>" and po = None])
        (use xo qo Some fit in \<open>simp_all add: farm_setters strategy_ok_upd position_ok_def min_le_iff_disj\<close>)
    have P: "Positions ?s = (Positions s)((i, a) := None)" by (simp add: farm_setters)
    show ?thesis
      using Cons.IH [OF r entry_inv [OF e Cons.prems(2)]] entries.more [OF e] by (auto simp: P)
  qed
qed

definition alloc_position :: "nat \<Rightarrow> Allocation \<Rightarrow> Position" where
  "alloc_position now x = \<lparr>deposited = alloc_amount x, compounded_balance = alloc_amount x, last_update_ts = now\<rparr>"

lemma place_loop_entries:
  "place_loop a now al s = Ok t \<Longrightarrow> farm_inv s \<Longrightarrow> (\<forall>x\<in>set al. 0 < alloc_amount x) \<Longrightarrow>
    entries True a s t \<and>
    (distinct (map alloc_strategy_id al) \<longrightarrow>
       (\<forall>x\<in>set al. Positions t (alloc_strategy_id x, a) = Some (alloc_position now x)) \<and>
       (\<forall>i. i \<notin> alloc_strategy_id ` set al \<longrightarrow> Positions t (i, a) = Positions s (i, a)))"
proof (induction al arbitrary: s)
  case Nil
  then show ?case by (simp add: entries.none)
next
  case (Cons y al)
  let ?i = "alloc_strategy_id y"
  obtain x where x: "Strategies s ?i = Some x" using Cons.prems(1) by auto
  have xo: "strategy_ok x" by (rule farm_inv_strategy [OF Cons.prems(2) x])
  let ?v = "total_deposited x + alloc_amount y"
  let ?s = "set_position ?i a (alloc_position now y) (set_strategy ?i (x\<lparr>total_deposited := ?v\<rparr>) s)"
  have fit: "in_i128 ?v" and r: "place_loop a now al ?s = Ok t"
    using Cons.prems(1) x by (auto simp: Let_def alloc_position_def)
  have pos: "0 < alloc_amount y" using Cons.prems(3) by simp
  have am: "in_i128 (alloc_amount y)"
    by (rule in_i128_le [OF fit]) (use xo pos in \<open>auto simp: strategy_ok_def\<close>)
  have nn: "0 \<le> pos_bal (Positions s (?i, a))"
  proof (cases "Positions s (?i, a)")
    case (Some q)
    then show ?thesis using farm_inv_position [OF Cons.prems(2) Some] by (simp add: position_ok_def)
  qed simp
  have e: "entry True ?i a s ?s"
    by (rule entryI [OF x, where x' = "x\<lparr>total_deposited := ?v\<rparr>" and po = "Some (alloc_position now y)"])
      (use xo nn pos fit am in \<open>auto simp: farm_setters strategy_ok_def alloc_position_def position_ok_def\<close>)
  have P: "Positions ?s = (Positions s)((?i, a) \<mapsto> alloc_position now y)" by (simp add: farm_setters)
  have ih: "entries True a ?s t \<and>
    (distinct (map alloc_strategy_id al) \<longrightarrow>
       (\<forall>x\<in>set al. Positions t (alloc_strategy_id x, a) = Some (alloc_position now x)) \<and>
       (\<forall>i. i \<notin> alloc_strategy_id ` set al \<longrightarrow> Positions t (i, a) = Positions ?s (i, a)))"
    using Cons.IH [OF r entry_inv [OF e Cons.prems(2)]] Cons.prems(3) by simp
  show ?case
    using ih entries.more [OF e] by (auto simp: P)
qed

lemma portfolio_loop_total:
  "portfolio_loop s a now ids n y f = Ok (m, z, g) \<Longrightarrow>
    m = n + (\<Sum>i\<leftarrow>ids. pos_bal (map_option (\<lambda>p. compound_position p (the (Strategies s i)) now) (Positions s (i, a)))) \<and>
    (ids \<noteq> [] \<longrightarrow> n \<noteq> m \<longrightarrow> in_i128 m)"
proof (induction ids arbitrary: n y f)
  case (Cons i ids)
  show ?case
  proof (cases "Positions s (i, a)")
    case None
    then show ?thesis using Cons by (cases ids) (auto simp: has_position_def)
  next
    case (Some p)
    obtain x y' where x: "Strategies s i = Some x" and
      fit: "in_i128 (n + compounded_balance (compound_position p x now))" and
      r: "portfolio_loop s a now ids (n + compounded_balance (compound_position p x now)) y' True = Ok (m, z, g)"
      using Cons.prems Some by (auto simp: has_position_def Let_def)
    show ?thesis using Cons.IH [OF r] fit x Some r by (cases ids) (auto simp: add.assoc)
  qed
qed simp

section \<open>Rebalancing\<close>

text \<open>The value of a portfolio, with the rewards accrued up to \<open>now\<close>, and its stored balance.\<close>

definition portfolio_value :: "farm_state \<Rightarrow> address \<Rightarrow> nat \<Rightarrow> int" where
  "portfolio_value s a now = (\<Sum>i = 1..get_strategy_count s.
     pos_bal (map_option (\<lambda>p. compound_position p (the (Strategies s i)) now) (Positions s (i, a))))"

definition portfolio_balance :: "farm_state \<Rightarrow> address \<Rightarrow> int" where
  "portfolio_balance s a = (\<Sum>i = 1..get_strategy_count s. pos_bal (Positions s (i, a)))"

lemma sum_list_ids: "(\<Sum>i\<leftarrow>[1..<n + 1]. f i) = (\<Sum>i = 1..n. f i)" for f :: "nat \<Rightarrow> int"
  by (simp add: interv_sum_list_conv_sum_set_nat atLeastLessThanSuc_atLeastAtMost del: upt_Suc)

lemma rebalance_Ok:
  assumes inv: "farm_inv s" and r: "rebalance env a k s = Ok (res, t)"
  shows "\<exists>u. entries True a s u \<and> same_book u t"
    "total_balance res = portfolio_value s a (timestamp env)" "portfolio_balance t a = total_balance res"
    "new_weighted_apy_bps res > previous_weighted_apy_bps res" "auth env a"
    "build_allocation s (total_balance res) k (Some a) = Ok (allocations res)"
    "in_i128 (total_balance res)"
proof -
  let ?now = "timestamp env" and ?ids = "[1..<get_strategy_count s + 1]"
  obtain tot py f al s1 s2 where pl: "portfolio_loop s a ?now ?ids 0 0 False = Ok (tot, py, f)" and tot: "0 < tot"
    and ba: "build_allocation s tot k (Some a) = Ok al" and au: "auth env a"
    and cl: "clear_loop a ?now ?ids s = Ok s1" and pla: "place_loop a ?now al s1 = Ok s2"
    and t: "t = publish (Ev_rebalance a res) s2"
    and res: "total_balance res = tot" "allocations res = al" "previous_weighted_apy_bps res < new_weighted_apy_bps res"
    using r unfolding rebalance_def Let_def by (auto simp del: upt_Suc split: if_splits)
  have ok: "farm_ok s" using inv by (simp add: farm_inv_def)
  have tr: "in_i128 tot" using portfolio_loop_total [OF pl] tot by (cases "get_strategy_count s") auto
  note B = build_allocation_correct [OF ok tr ba]
  have dis: "distinct (map alloc_strategy_id al)" using B(3) strict_sorted_iff by blast
  have C: "entries True a s s1" "\<forall>i\<in>set ?ids. Positions s1 (i, a) = None"
    using clear_loop_entries [OF cl inv] by blast+
  have inv1: "farm_inv s1" by (rule entries_inv [OF C(1) inv])
  have P: "entries True a s1 s2" "\<forall>x\<in>set al. Positions s2 (alloc_strategy_id x, a) = Some (alloc_position ?now x)"
      "\<forall>i. i \<notin> alloc_strategy_id ` set al \<longrightarrow> Positions s2 (i, a) = Positions s1 (i, a)"
    using place_loop_entries [OF pla inv1] B(4) dis by blast+
  have E: "entries True a s s2" by (rule entries_trans [OF C(1) P(1)])
  have b: "same_book s2 t" by (simp add: t same_book_def publish_def)
  then show "\<exists>u. entries True a s u \<and> same_book u t" using E by blast
  show "total_balance res = portfolio_value s a (timestamp env)"
    using portfolio_loop_total [OF pl] sum_list_ids by (simp add: res portfolio_value_def del: upt_Suc)
  show "new_weighted_apy_bps res > previous_weighted_apy_bps res" "auth env a"
    "build_allocation s (total_balance res) k (Some a) = Ok (allocations res)" "in_i128 (total_balance res)"
    using res au ba tr by simp_all
  have n: "get_strategy_count t = get_strategy_count s"
    using entries_count [OF E] b by (simp add: same_book_def get_strategy_count_def)
  let ?g = "\<lambda>i. pos_bal (Positions t (i, a))"
  have sub: "alloc_strategy_id ` set al \<subseteq> {1..get_strategy_count s}"
  proof
    fix i assume "i \<in> alloc_strategy_id ` set al"
    then have "usable s k (Some a) i" using B(4) by (auto simp: alloc_fits_def)
    then show "i \<in> {1..get_strategy_count s}" using farm_okD(2) [OF ok, of i] by (auto simp: usable_def)
  qed
  have "portfolio_balance t a = (\<Sum>i\<in>alloc_strategy_id ` set al. ?g i)"
    unfolding portfolio_balance_def n
    by (rule sum.mono_neutral_right [OF _ sub]) (use P(3) C(2) b in \<open>auto simp: same_book_def\<close>)
  also have "\<dots> = (\<Sum>x\<in>set al. ?g (alloc_strategy_id x))"
    using dis by (subst sum.reindex) (auto simp: distinct_map)
  also have "\<dots> = (\<Sum>x\<in>set al. alloc_amount x)"
    by (rule sum.cong) (use P(2) b in \<open>auto simp: same_book_def alloc_position_def\<close>)
  also have "\<dots> = amounts al"
    using dis by (simp add: amounts_def sum_list_distinct_conv_sum_set distinct_map)
  finally show "portfolio_balance t a = total_balance res" using B(1) by (simp add: res)
qed

section \<open>Every call\<close>

lemma auto_rebalance_Ok:
  assumes "auto_rebalance_threshold env a k m s = Ok (b, t)"
  shows "t = s \<or> (\<exists>r. rebalance env a k s = Ok (r, t))"
  using assms unfolding auto_rebalance_threshold_def Let_def by (auto simp del: upt_Suc split: if_splits)

lemma inv_strategy:
  assumes inv: "farm_inv s" and x: "Strategies s i = Some x" "strategy_ok x'"
    and t: "Strategies t = (Strategies s)(i \<mapsto> x')" "Positions t = Positions s" "StrategyCount t = StrategyCount s"
      "PoolConfigs t = PoolConfigs s" "Admin t = Admin s" "total_deposited x' = total_deposited x"
  shows "farm_inv t" "covers t = covers s"
proof -
  have "entry True i 0 s t" if "Positions s (i, 0) = Some p" for p
    by (rule entryI [OF x(1), where x' = x' and po = "Some p"])
      (use x t that farm_inv_position [OF inv that] in \<open>auto simp: fun_upd_idem\<close>)
  moreover have "entry True i 0 s t" if "Positions s (i, 0) = None"
    by (rule entryI [OF x(1), where x' = x' and po = None]) (use x t that in \<open>auto simp: fun_upd_idem\<close>)
  ultimately have "entry True i 0 s t" by (cases "Positions s (i, 0)") auto
  then show "farm_inv t" using entry_inv inv by blast
  show "covers t = covers s"
    using x(1) t by (auto simp: covers_def held_def)
qed

lemma inv_add:
  assumes inv: "farm_inv s" and r: "add_strategy env a nm x s = Ok (i, t)"
  shows "farm_inv t" "covers s \<Longrightarrow> covers t"
proof -
  let ?st = "\<lparr>strategy_name = nm, apy_bps = x, total_deposited = 0, is_active = True,
             pending_rewards = 0, last_compound_ts = timestamp env\<rparr>"
  have i: "i = Suc (get_strategy_count s)" "i \<le> u32_max" and x: "x \<le> 10000"
    and t: "Strategies t = (Strategies s)(i \<mapsto> ?st)" "Positions t = Positions s" "get_strategy_count t = i"
      "PoolConfigs t = PoolConfigs s"
    using r by (auto simp: add_strategy_def Let_def farm_setters get_strategy_count_def MAX_APY_BPS_def split: if_splits)
  have ok: "farm_ok s" using inv by (simp add: farm_inv_def)
  have d: "Strategies s j \<noteq> None \<longleftrightarrow> 1 \<le> j \<and> j \<le> get_strategy_count s" for j by (rule farm_okD(2) [OF ok])
  have none: "Positions s (i, b) = None" for b
  proof (rule ccontr)
    assume "Positions s (i, b) \<noteq> None"
    then show False using farm_okD(4) [OF ok, of i b] d [of i] i by auto
  qed
  have "farm_ok t"
    unfolding farm_ok_def
  proof (intro conjI allI impI)
    show "get_strategy_count t \<le> u32_max" using i t by simp
    fix j show "(Strategies t j \<noteq> None) = (1 \<le> j \<and> j \<le> get_strategy_count t)"
      using d [of j] i by (auto simp: t)
  next
    fix j y assume "Strategies t j = Some y"
    then show "strategy_ok y" using farm_okD(3) [OF ok, of j y] x by (auto simp: t strategy_ok_def split: if_splits)
  next
    fix j y assume "PoolConfigs t j = Some y"
    then show "config_ok y" using ok t(4) unfolding farm_ok_def by simp
  next
    fix j b p assume "Positions t (j, b) = Some p"
    then show "Strategies t j \<noteq> None" "position_ok p" using farm_okD(4) [OF ok, of j b p] by (auto simp: t)
  qed
  then show "farm_inv t" using inv t(2) by (simp add: farm_inv_def)
  have "held t i = 0" using none by (simp add: held_def t(2) total_bal_def)
  then show "covers s \<Longrightarrow> covers t" by (auto simp: covers_def t held_def)
qed

lemma farm_assert_admin_Ok [simp]: "assert_admin env a s = Ok u \<longleftrightarrow> Admin s = Some a \<and> auth env a"
  by (cases "Admin s") (auto simp: assert_admin_def require_auth_def get_admin_def is_initialized_def)

lemma inv_update_apy:
  assumes inv: "farm_inv s" and r: "update_strategy_apy env a i y s = Ok (u, t)"
  shows "farm_inv t" "covers s \<Longrightarrow> covers t"
proof -
  obtain x where x: "Strategies s i = Some x" and y: "y \<le> 10000"
    and t: "t = publish (Ev_apy_upd i y) (set_strategy i (x\<lparr>apy_bps := y\<rparr>) s)"
    using r by (auto simp: update_strategy_apy_def MAX_APY_BPS_def)
  have "strategy_ok (x\<lparr>apy_bps := y\<rparr>)" using farm_inv_strategy [OF inv x] y by (simp add: strategy_ok_def)
  note n = inv_strategy [OF inv x this, of t]
  show "farm_inv t" by (rule n(1)) (simp_all add: t farm_setters)
  have "covers t = covers s" by (rule n(2)) (simp_all add: t farm_setters)
  then show "covers s \<Longrightarrow> covers t" by simp
qed

lemma inv_set_active:
  assumes inv: "farm_inv s" and r: "set_strategy_active env a i b s = Ok (u, t)"
  shows "farm_inv t" "covers s \<Longrightarrow> covers t"
proof -
  obtain x where x: "Strategies s i = Some x" and t: "t = set_strategy i (x\<lparr>is_active := b\<rparr>) s"
    using r by (auto simp: set_strategy_active_def)
  have "strategy_ok (x\<lparr>is_active := b\<rparr>)" using farm_inv_strategy [OF inv x] by (simp add: strategy_ok_def)
  note n = inv_strategy [OF inv x this, of t]
  show "farm_inv t" by (rule n(1)) (simp_all add: t farm_setters)
  have "covers t = covers s" by (rule n(2)) (simp_all add: t farm_setters)
  then show "covers s \<Longrightarrow> covers t" by simp
qed

lemma inv_configure:
  assumes inv: "farm_inv s" and r: "configure_pool env a i rw cap fee risk m s = Ok (u, t)"
  shows "farm_inv t" "covers s \<Longrightarrow> covers t"
proof -
  let ?c = "\<lparr>annual_rewards = rw, capacity = cap, fee_bps = fee, risk_score = risk, max_allocation_bps = m\<rparr>"
  have c: "config_ok ?c" and t: "t = publish (Ev_pool_cfg i ?c) (set_pool_config i ?c s)"
    using r by (auto simp: configure_pool_def config_ok_def BPS_DENOM_def MAX_RISK_SCORE_def Let_def)
  show "farm_inv t" using inv c by (auto simp: t farm_setters farm_inv_def farm_ok_def get_strategy_count_def)
  show "covers s \<Longrightarrow> covers t" by (simp add: t farm_setters covers_def held_def)
qed

definition unsaturated :: "farm_state \<Rightarrow> bool" where
  "unsaturated s \<longleftrightarrow> (\<forall>i x. Strategies s i = Some x \<longrightarrow> total_deposited x < i128_max)"

definition farm_safe :: "farm_state \<Rightarrow> bool" where
  "farm_safe s \<longleftrightarrow> farm_inv s \<and> (Admin s = None \<longrightarrow> get_strategy_count s = 0)"

lemma book_step:
  assumes "entries True a s u" "same_book u t" "farm_inv s"
  shows "farm_inv t" "covers s \<Longrightarrow> covers t"
  using entries_inv [OF assms(1,3)] entries_covers [OF assms(1,3)] same_book_parts [OF assms(2)] by simp_all

lemma farm_same_book_refl [simp]: "same_book s s"
  by (simp add: same_book_def)

lemma compound_all_entries:
  assumes "farm_inv s" "compound_all env a s = Ok (x, t)"
  shows "\<exists>u. entries True a s u \<and> same_book u t"
proof -
  obtain m u where "compound_loop a (timestamp env) [1..<get_strategy_count s + 1] 0 False s = Ok ((m, True), u)"
      "t = publish (Ev_comp_all a m) u"
    using assms(2) by (auto simp: compound_all_def simp del: upt_Suc split: if_splits)
  then show ?thesis
    using compound_loop_entries [OF _ assms(1)] by (intro exI [of _ u]) (simp add: same_book_def publish_def del: upt_Suc)
qed

text \<open>Once there is an administrator there always is one, and every call but \<open>initialize\<close> needs one.\<close>

lemma call_admin:
  assumes c: "farm_call env s t" and inv: "farm_inv s"
  shows "Admin t \<noteq> None"
  using c
proof cases
  case (initialize a u)
  then show ?thesis by (auto simp: initialize_def farm_setters)
next
  case (compound_all a x)
  then have "Admin s \<noteq> None" by (auto simp: compound_all_def is_initialized_def)
  then show ?thesis using compound_all_entries [OF inv compound_all] entries_count by (fastforce simp: same_book_def)
next
  case (rebalance a k r)
  then have "Admin s \<noteq> None" by (auto simp: rebalance_def is_initialized_def)
  then show ?thesis using rebalance_Ok(1) [OF inv rebalance] entries_count by (fastforce simp: same_book_def)
next
  case (auto a k m b)
  have "Admin s \<noteq> None" using auto by (auto simp: auto_rebalance_threshold_def is_initialized_def)
  then show ?thesis
    using auto_rebalance_Ok [OF auto] rebalance_Ok(1) [OF inv] entries_count by (fastforce simp: same_book_def)
next
  case (deposit a i x u)
  then have "Admin s \<noteq> None" by (auto simp: deposit_def is_initialized_def)
  then show ?thesis using deposit_entry [OF inv deposit] by (auto simp: entry_def)
next
  case (withdraw a i x y)
  then have "Admin s \<noteq> None" by (auto simp: withdraw_def is_initialized_def)
  then show ?thesis using withdraw_entry [OF inv withdraw] by (auto simp: entry_def)
next
  case (compound a i x)
  then have "Admin s \<noteq> None" by (auto simp: compound_def is_initialized_def)
  then show ?thesis using compound_entry(1) [OF inv compound] by (auto simp: entry_def)
qed (auto simp: add_strategy_def update_strategy_apy_def set_strategy_active_def configure_pool_def Let_def farm_setters)

lemma call_inv:
  assumes c: "farm_call env s t" and safe: "farm_safe s"
  shows "farm_inv t \<and> (unsaturated t \<longrightarrow> covers s \<longrightarrow> covers t)"
proof -
  have inv: "farm_inv s" using safe by (simp add: farm_safe_def)
  show ?thesis
    using c
  proof cases
    case (initialize a u)
    then have n: "get_strategy_count s = 0" "get_strategy_count t = 0"
      and t: "Strategies t = Strategies s" "Positions t = Positions s" "PoolConfigs t = PoolConfigs s"
      using safe by (auto simp: initialize_def farm_setters farm_safe_def is_initialized_def get_strategy_count_def)
    have "farm_ok t"
      using inv unfolding farm_inv_def farm_ok_def t n by blast
    then show ?thesis using inv t by (simp add: farm_inv_def covers_def held_def)
  next
    case (add a nm x i)
    show ?thesis using inv_add [OF inv add] by blast
  next
    case (apy a i x u)
    show ?thesis using inv_update_apy [OF inv apy] by blast
  next
    case (active a i b u)
    show ?thesis using inv_set_active [OF inv active] by blast
  next
    case (configure a i r c f k m u)
    show ?thesis using inv_configure [OF inv configure] by blast
  next
    case (deposit a i x u)
    show ?thesis using book_step [OF entries_one [OF deposit_entry [OF inv deposit]] farm_same_book_refl inv] by blast
  next
    case (withdraw a i x y)
    show ?thesis using book_step [OF entries_one [OF withdraw_entry [OF inv withdraw]] farm_same_book_refl inv] by blast
  next
    case (compound a i x)
    note e = compound_entry [OF inv compound]
    have "farm_inv t" by (rule entry_inv [OF e(1) inv])
    moreover have "covers t" if "unsaturated t" "covers s"
      by (rule entry_covers [OF e(2) inv that(2)]) (use that(1) in \<open>simp add: unsaturated_def\<close>)
    ultimately show ?thesis by blast
  next
    case (compound_all a x)
    show ?thesis using compound_all_entries [OF inv compound_all] book_step [OF _ _ inv] by blast
  next
    case (rebalance a k r)
    show ?thesis using rebalance_Ok(1) [OF inv rebalance] book_step [OF _ _ inv] by blast
  next
    case (auto a k m b)
    show ?thesis using auto_rebalance_Ok [OF auto] rebalance_Ok(1) [OF inv] book_step [OF _ _ inv] inv by blast
  qed
qed

lemma farm_safe_empty: "farm_safe empty_farm"
  by (simp add: farm_safe_def farm_inv_def farm_ok_def empty_farm_def get_strategy_count_def u32_max_def)

inductive farm_step_unsaturated :: "farm_state \<Rightarrow> farm_state \<Rightarrow> bool" where
  "farm_call env s t \<Longrightarrow> unsaturated t \<Longrightarrow> farm_step_unsaturated s t"

inductive_simps farm_step_iff: "farm_step s t"
inductive_simps farm_step_unsaturated_iff: "farm_step_unsaturated s t"

lemma call_safe: "farm_call env s t \<Longrightarrow> farm_safe s \<Longrightarrow> farm_safe t"
  using call_inv [of env s t] call_admin [of env s t] by (auto simp: farm_safe_def)

interpretation farm: contract_machine empty_farm farm_step farm_safe
  by unfold_locales (auto simp: farm_safe_empty farm_step_iff intro: call_safe)

interpretation farm_covered: contract_machine empty_farm farm_step_unsaturated "\<lambda>s. farm_safe s \<and> covers s"
proof unfold_locales
  show "farm_safe empty_farm \<and> covers empty_farm" by (simp add: farm_safe_empty) (simp add: covers_def empty_farm_def)
  show "farm_safe t \<and> covers t" if "farm_safe s \<and> covers s" "farm_step_unsaturated s t" for s t
    using that call_inv call_safe by (auto simp: farm_step_unsaturated_iff)
qed

section \<open>A concrete run\<close>

text \<open>Two strategies, a deposit in the worse one, and a rebalance one day later.\<close>

definition demo_farm_env :: "nat \<Rightarrow> env" where
  "demo_farm_env now = \<lparr>timestamp = now, sequence = 1, auth = (\<lambda>a. a = 1 \<or> a = 5), current_contract = 100\<rparr>"

definition demo_pool :: "string \<Rightarrow> nat \<Rightarrow> int \<Rightarrow> Strategy" where
  "demo_pool nm apy x = \<lparr>strategy_name = nm, apy_bps = apy, total_deposited = x, is_active = True,
     pending_rewards = 0, last_compound_ts = 0\<rparr>"

definition demo_farm1 :: farm_state where
  "demo_farm1 = \<lparr>Admin = Some 1, StrategyCount = Some 0, Strategies = Map.empty, Positions = Map.empty,
     PoolConfigs = Map.empty, events = []\<rparr>"
definition demo_farm2 :: farm_state where
  "demo_farm2 = demo_farm1\<lparr>StrategyCount := Some 1, Strategies := [1 \<mapsto> demo_pool ''A'' 500 0],
     events := [Ev_strat_add 1 500]\<rparr>"
definition demo_farm3 :: farm_state where
  "demo_farm3 = demo_farm2\<lparr>StrategyCount := Some 2,
     Strategies := [1 \<mapsto> demo_pool ''A'' 500 0, 2 \<mapsto> demo_pool ''B'' 800 0],
     events := [Ev_strat_add 1 500, Ev_strat_add 2 800]\<rparr>"
definition demo_farm :: farm_state where
  "demo_farm = demo_farm3\<lparr>Strategies := [1 \<mapsto> demo_pool ''A'' 500 1000000, 2 \<mapsto> demo_pool ''B'' 800 0],
     Positions := [(1, 5) \<mapsto> \<lparr>deposited = 1000000, compounded_balance = 1000000, last_update_ts = 0\<rparr>],
     events := [Ev_strat_add 1 500, Ev_strat_add 2 800, Ev_deposit 1 5 1000000]\<rparr>"

lemmas demo_farms = demo_farm1_def demo_farm2_def demo_farm3_def demo_farm_def demo_pool_def demo_farm_env_def

lemma demo_farm_steps:
  "initialize (demo_farm_env 0) 1 empty_farm = Ok ((), demo_farm1)"
  "add_strategy (demo_farm_env 0) 1 ''A'' 500 demo_farm1 = Ok (1, demo_farm2)"
  "add_strategy (demo_farm_env 0) 1 ''B'' 800 demo_farm2 = Ok (2, demo_farm3)"
  "deposit (demo_farm_env 0) 5 1 1000000 demo_farm3 = Ok ((), demo_farm)"
proof -
  note d = demo_farms empty_farm_def farm_setters farm_getters require_auth_def assert_admin_def assert_initialized_def
    MAX_APY_BPS_def u32_add_def u32_max_def
  show "initialize (demo_farm_env 0) 1 empty_farm = Ok ((), demo_farm1)" by (simp add: initialize_def d)
  show "add_strategy (demo_farm_env 0) 1 ''A'' 500 demo_farm1 = Ok (1, demo_farm2)"
    "add_strategy (demo_farm_env 0) 1 ''B'' 800 demo_farm2 = Ok (2, demo_farm3)"
    by (simp_all add: add_strategy_def Let_def d fun_upd_twist numeral_2_eq_2)
  show "deposit (demo_farm_env 0) 5 1 1000000 demo_farm3 = Ok ((), demo_farm)"
    by (simp add: deposit_def Let_def d i128_add_def checked_add_def in_i128_def i128_max_def i128_min_def fun_upd_twist)
qed

lemmas demo_eval = demo_pool_def demo_farm_env_def farm_getters require_auth_def assert_initialized_def i128_add_def i128_sub_def
  checked_add_def checked_mul_def i128_div_def u32_sub_def saturating_sub_def saturating_mul_def
  saturating_add_def i128_saturate_def i128_as_u32_def u32_saturating_mul_def u32_saturating_add_def
  u64_saturating_add_def u32_max_def u64_max_def in_i128_def i128_max_def i128_min_def
  BPS_DENOM_def MAX_APY_BPS_def MAX_RISK_SCORE_def SECONDS_PER_YEAR_def pool_config_or_default_def
  tvl_excluding_user_def calculate_dynamic_apy_def

lemma demo_ids: "[1..<Suc 2] = [1, 2]" by (simp add: upt_rec)


definition demo_split :: "int \<Rightarrow> int \<Rightarrow> Allocation list" where
  "demo_split x y = [\<lparr>alloc_strategy_id = 1, alloc_amount = x, weight_bps = 3846, projected_apy_bps = 500\<rparr>,
     \<lparr>alloc_strategy_id = 2, alloc_amount = y, weight_bps = 6154, projected_apy_bps = 800\<rparr>]"

lemma demo_optimized: "build_allocation demo_farm 1000000 100 None = Ok (demo_split 384615 615385)"
  by (simp add: build_allocation_def pool_score_def pool_limits_def score_at_def demo_split_def Let_def demo_farms demo_eval demo_ids upt_rec fill_loop.simps)

lemma demo_reoptimized: "build_allocation demo_farm 1000136 100 (Some 5) = Ok (demo_split 384667 615469)"
  by (simp add: build_allocation_def pool_score_def pool_limits_def score_at_def demo_split_def Let_def demo_farms demo_eval demo_ids upt_rec fill_loop.simps)

lemma demo_farm_fields:
  "Admin demo_farm = Some 1" "StrategyCount demo_farm = Some 2" "PoolConfigs demo_farm = Map.empty"
  "Strategies demo_farm = [1 \<mapsto> demo_pool ''A'' 500 1000000, 2 \<mapsto> demo_pool ''B'' 800 0]"
  "Positions demo_farm = [(1, 5) \<mapsto> \<lparr>deposited = 1000000, compounded_balance = 1000000, last_update_ts = 0\<rparr>]"
  by (simp_all add: demo_farms)

lemma demo_compounded:
  "compound_position \<lparr>deposited = 1000000, compounded_balance = 1000000, last_update_ts = 0\<rparr>
     \<lparr>strategy_name = ''A'', apy_bps = 500, total_deposited = x, is_active = True, pending_rewards = 0,
        last_compound_ts = 0\<rparr> 86400 =
   \<lparr>deposited = 1000000, compounded_balance = 1000136, last_update_ts = 86400\<rparr>"
  by (simp add: compound_position_def Let_def demo_eval)

lemma demo_rebalanced: "\<exists>t. rebalance (demo_farm_env 86400) 5 100 demo_farm =
    Ok (\<lparr>total_balance = 1000136, previous_weighted_apy_bps = 500, new_weighted_apy_bps = 684,
      allocations = demo_split 384667 615469\<rparr>, t)"
  by (simp add: rebalance_def demo_reoptimized demo_compounded Let_def demo_farm_fields demo_eval demo_ids upt_rec demo_split_def farm_setters)

lemma demo_farm_run: "farm_step\<^sup>*\<^sup>* empty_farm demo_farm"
proof -
  have "farm_step empty_farm demo_farm1" "farm_step demo_farm1 demo_farm2" "farm_step demo_farm2 demo_farm3"
    "farm_step demo_farm3 demo_farm"
    using farm_call.initialize [OF demo_farm_steps(1)] farm_call.add [OF demo_farm_steps(2)]
      farm_call.add [OF demo_farm_steps(3)] farm_call.deposit [OF demo_farm_steps(4)]
    unfolding farm_step_iff by blast+
  then show ?thesis by (meson rtranclp.rtrancl_refl rtranclp.rtrancl_into_rtrancl)
qed

section \<open>Properties\<close>

text \<open>
  C12. The optimizer is exact. In every reachable farm an allocation it returns spends the whole
  amount and no more, its weights add up to exactly 10000 basis points, it names each strategy once,
  in increasing order, and each entry respects its pool: the strategy is active, its risk score does
  not exceed the bound, the entry is positive and at most the pool's share of the portfolio, and it
  fits under the pool's capacity, on top of what the pool holds without the user's own share.
\<close>

theorem optimizer_allocation_correct:
  assumes "farm_step\<^sup>*\<^sup>* empty_farm s" "in_i128 tot" "build_allocation s tot risk ex = Ok al"
  shows "sum_list (map alloc_amount al) = tot \<and> sum_list (map weight_bps al) = 10000 \<and>
    sorted_wrt (<) (map alloc_strategy_id al) \<and>
    (\<forall>a\<in>set al. \<exists>x b. Strategies s (alloc_strategy_id a) = Some x \<and> is_active x \<and>
       tvl_excluding_user s (alloc_strategy_id a) x ex = Ok b \<and>
       risk_score (pool_config_or_default s (alloc_strategy_id a)) \<le> risk \<and> 0 < alloc_amount a \<and>
       alloc_amount a \<le> tot * int (max_allocation_bps (pool_config_or_default s (alloc_strategy_id a))) div 10000 \<and>
       (capacity (pool_config_or_default s (alloc_strategy_id a)) = 0 \<or>
        b + alloc_amount a \<le> capacity (pool_config_or_default s (alloc_strategy_id a))))"
proof -
  have ok: "farm_ok s" using farm.reachable_Inv [OF assms(1)] by (simp add: farm_safe_def farm_inv_def)
  note B = build_allocation_correct [OF ok assms(2,3)]
  have tot: "0 < tot" using assms(3) by (auto simp: build_allocation_def split: if_splits)
  have "\<exists>x b. Strategies s (alloc_strategy_id a) = Some x \<and> is_active x \<and>
       tvl_excluding_user s (alloc_strategy_id a) x ex = Ok b \<and>
       risk_score (pool_config_or_default s (alloc_strategy_id a)) \<le> risk \<and> 0 < alloc_amount a \<and>
       alloc_amount a \<le> tot * int (max_allocation_bps (pool_config_or_default s (alloc_strategy_id a))) div 10000 \<and>
       (capacity (pool_config_or_default s (alloc_strategy_id a)) = 0 \<or>
        b + alloc_amount a \<le> capacity (pool_config_or_default s (alloc_strategy_id a)))"
    if a: "a \<in> set al" for a
  proof -
    have f: "usable s risk ex (alloc_strategy_id a)" "0 < alloc_amount a"
        "alloc_amount a \<le> pool_cap s tot ex (alloc_strategy_id a)"
      using B(4) [OF a] by (simp_all add: alloc_fits_def)
    obtain x where x: "Strategies s (alloc_strategy_id a) = Some x" "is_active x" using f(1) by (auto simp: usable_def)
    show ?thesis
      using x tvl_excluding_total(1) [OF ok x(1)] f usable_cap_nonneg(2,3) [OF ok tot f(1)]
      by (intro exI [of _ x] exI [of _ "base_tvl s (alloc_strategy_id a) ex"]) (auto simp: usable_def)
  qed
  then show ?thesis using B(1,2,3) by (simp add: amounts_def weights_def)
qed

theorem optimizer_allocation_correct_witness:
  "\<exists>al. build_allocation demo_farm 1000000 100 None = Ok al \<and> sum_list (map alloc_amount al) = 1000000 \<and>
    sum_list (map weight_bps al) = 10000"
proof -
  have "in_i128 1000000" by (simp add: in_i128_def i128_max_def i128_min_def)
  then show ?thesis using optimizer_allocation_correct [OF demo_farm_run _ demo_optimized] demo_optimized by blast
qed

text \<open>
  The optimizer never panics and always returns: in every reachable farm, for every amount an
  \<open>i128\<close> can hold, every risk bound and every excluded user, it answers with an allocation or with
  one of the contract's errors. No division by zero, no arithmetic trap, no endless search for room.
\<close>

theorem optimizer_never_panics:
  assumes "farm_step\<^sup>*\<^sup>* empty_farm s" "in_i128 tot"
  shows "(\<exists>al. build_allocation s tot risk ex = Ok al \<and> al \<noteq> []) \<or> (\<exists>e. build_allocation s tot risk ex = Err e)"
proof -
  have ok: "farm_ok s" using farm.reachable_Inv [OF assms(1)] by (simp add: farm_safe_def farm_inv_def)
  show ?thesis
  proof (cases "build_allocation s tot risk ex")
    case (Ok al)
    then have "al \<noteq> []" using build_allocation_correct(2) [OF ok assms(2) Ok] by (auto simp: weights_def)
    then show ?thesis using Ok by simp
  next
    case (Trap p)
    then show ?thesis using never_build_allocation [OF ok assms(2), of p risk ex] by (simp add: never_def)
  qed simp
qed

theorem optimizer_never_panics_witness:
  "(\<exists>al. build_allocation demo_farm i128_max 100 (Some 5) = Ok al \<and> al \<noteq> []) \<or>
   (\<exists>e. build_allocation demo_farm i128_max 100 (Some 5) = Err e)"
  by (rule optimizer_never_panics [OF demo_farm_run]) (simp add: in_i128_def i128_max_def i128_min_def)

text \<open>
  C13. A rebalance conserves the portfolio. When it succeeds in a reachable farm, the user signed, the
  user's positions afterwards add up to exactly the value of the old ones with the rewards accrued up
  to the call, nobody else's position changes, no strategy appears or disappears, and the weighted
  yield of the new positions is above that of the old ones.
\<close>

theorem rebalance_conserves_portfolio:
  assumes "farm_step\<^sup>*\<^sup>* empty_farm s" "rebalance env a risk s = Ok (res, t)"
  shows "auth env a \<and> total_balance res = portfolio_value s a (timestamp env) \<and>
    portfolio_balance t a = portfolio_value s a (timestamp env) \<and>
    previous_weighted_apy_bps res < new_weighted_apy_bps res \<and>
    strategy_count t = strategy_count s \<and> (\<forall>i. has_strategy t i = has_strategy s i) \<and>
    (\<forall>b i. b = a \<or> Positions t (i, b) = Positions s (i, b))"
proof -
  have inv: "farm_inv s" using farm.reachable_Inv [OF assms(1)] by (simp add: farm_safe_def)
  note R = rebalance_Ok [OF inv assms(2)]
  obtain u where u: "entries True a s u" "same_book u t" using R(1) by blast
  have ok: "farm_ok s" "farm_ok t" using inv book_step(1) [OF u inv] by (simp_all add: farm_inv_def)
  have "get_strategy_count t = get_strategy_count s"
    using entries_count [OF u(1)] u(2) by (simp add: same_book_def get_strategy_count_def)
  then have st: "Strategies t i \<noteq> None \<longleftrightarrow> Strategies s i \<noteq> None" for i
    using farm_okD(2) [OF ok(1), of i] farm_okD(2) [OF ok(2), of i] by simp
  show ?thesis
    using R u entries_others [OF u(1)] entries_count [OF u(1)] st
    by (auto simp: same_book_def strategy_count_def get_strategy_count_def has_strategy_def)
qed

theorem rebalance_conserves_portfolio_witness:
  "\<exists>res t. rebalance (demo_farm_env 86400) 5 100 demo_farm = Ok (res, t) \<and>
    portfolio_balance t 5 = portfolio_value demo_farm 5 86400 \<and> total_balance res = 1000136 \<and>
    previous_weighted_apy_bps res < new_weighted_apy_bps res"
  using demo_rebalanced rebalance_conserves_portfolio [OF demo_farm_run, of "demo_farm_env 86400" 5 100]
  by (fastforce simp: demo_farm_env_def)

text \<open>
  What a strategy reports as deposited covers its depositors: along every run in which no total
  reaches the largest \<open>i128\<close> (the value at which \<open>compound\<close>, alone, stops adding), the compounded
  balances of all users in a strategy sum up to at most its \<open>total_deposited\<close>, and no balance is
  below the principal of its position or negative.
\<close>

theorem farm_tvl_covers_balances:
  assumes "farm_step_unsaturated\<^sup>*\<^sup>* empty_farm s" "Strategies s i = Some x"
  shows "held s i \<le> total_deposited x \<and>
    (\<forall>a p. Positions s (i, a) = Some p \<longrightarrow> 0 \<le> deposited p \<and> deposited p \<le> compounded_balance p)"
  using farm_covered.reachable_Inv [OF assms(1)] assms(2) farm_inv_position
  by (fastforce simp: covers_def farm_safe_def position_ok_def)

theorem farm_tvl_covers_balances_witness:
  "\<exists>x. Strategies demo_farm1 1 = None \<and> Strategies demo_farm2 1 = Some x \<and> held demo_farm2 1 \<le> total_deposited x"
proof -
  have "farm_step_unsaturated empty_farm demo_farm1" "farm_step_unsaturated demo_farm1 demo_farm2"
    using farm_call.initialize [OF demo_farm_steps(1)] farm_call.add [OF demo_farm_steps(2)]
    unfolding farm_step_unsaturated_iff
    by (auto simp: unsaturated_def demo_farms i128_max_def split: if_splits)
  then have "farm_step_unsaturated\<^sup>*\<^sup>* empty_farm demo_farm2"
    by (meson rtranclp.rtrancl_refl rtranclp.rtrancl_into_rtrancl)
  then have "held demo_farm2 1 \<le> 0" using farm_tvl_covers_balances [of demo_farm2 1 "demo_pool ''A'' 500 0"]
    by (simp add: demo_farms)
  then show ?thesis by (simp add: demo_farms)
qed

end
