(* ===== verification/Prediction_Market.thy ===== *)
theory Prediction_Market
  imports Soroban_Prelude
begin

text \<open>
  The prediction markets of \<open>contracts/prediction-market\<close>: storage accessors (\<open>src/storage.rs\<close>,
  \<open>src/types.rs\<close>) and every entry point of \<open>src/lib.rs\<close>, the legacy betting markets and the
  collateral-backed markets with their fixed-product market maker. The collateral token is another
  contract: its \<open>transfer\<close> is the parameter \<open>tc\<close>. Storage TTL extensions have no observable effect
  and are left out.
\<close>

section \<open>Types and storage\<close>

datatype market_error =
    AlreadyInitialized | NotInitialized | MarketNotFound | MarketAlreadyResolved | MarketNotResolved
  | MarketExpired | MarketNotExpired | InvalidOutcome | InsufficientStake | NothingToWithdraw
  | Unauthorized | InvalidMarketType | ZeroStake | PositionNotFound | InvalidOutcomeCount
  | InvalidAmount | ArithmeticOverflow | ConditionalMarketRequired | InsufficientShares
  | InsufficientLiquidity | SlippageExceeded | ResolutionTooEarly | ResolutionNotProposed
  | DisputeWindowActive | DisputeWindowClosed | ResolutionAlreadyDisputed | ResolutionNotDisputed
  | InvalidDisputeWindow | DisputeBondTooSmall

datatype MarketType = Binary | Scalar | Categorical

datatype MarketStatus = Open | Resolved | Cancelled

record Market =
  market_id :: nat
  creator :: address
  question :: string
  market_type :: MarketType
  market_status :: MarketStatus
  resolution_deadline :: nat
  market_oracle :: address
  winning_outcome :: "nat option"
  total_yes_stake :: int
  total_no_stake :: int
  created_at :: nat

record BetPosition =
  bet_market_id :: nat
  trader :: address
  bet_outcome :: nat
  bet_stake :: int

record ConditionalMarket =
  cm_market_id :: nat
  outcomes :: "string list"
  collateral_token :: address
  dispute_resolver :: address
  dispute_window :: nat
  minimum_dispute_bond :: int
  pool_balances :: "int list"
  total_liquidity_shares :: int
  collateral_locked :: int

record ResolutionProposal =
  proposed_outcome :: nat
  proposed_at :: nat
  dispute_deadline :: nat
  disputer :: "address option"
  dispute_bond :: int

datatype market_event =
    Ev_init address | Ev_mkt_crt nat address nat | Ev_bet nat address nat int | Ev_resolved nat nat
  | Ev_mkt_can nat | Ev_shares nat nat address int int | Ev_ct_sell nat nat address int int
  | Ev_ct_mint nat address int | Ev_liquidity nat address int int | Ev_removed nat address int
  | Ev_redeemed_set nat address int | Ev_redeemed nat address nat int | Ev_proposed nat nat nat
  | Ev_disputed nat address int

record market_state =
  Admin :: "address option"
  MarketCount :: "nat option"
  Markets :: "nat \<rightharpoonup> Market"
  Bets :: "nat \<times> address \<rightharpoonup> BetPosition"
  ConditionalMarkets :: "nat \<rightharpoonup> ConditionalMarket"
  OutcomeBalances :: "nat \<times> address \<times> nat \<rightharpoonup> int"
  LiquidityBalances :: "nat \<times> address \<rightharpoonup> int"
  Resolutions :: "nat \<rightharpoonup> ResolutionProposal"
  events :: "market_event list"

definition empty_markets :: market_state where
  "empty_markets = \<lparr>Admin = None, MarketCount = None, Markets = Map.empty, Bets = Map.empty,
     ConditionalMarkets = Map.empty, OutcomeBalances = Map.empty, LiquidityBalances = Map.empty,
     Resolutions = Map.empty, events = []\<rparr>"

definition publish :: "market_event \<Rightarrow> market_state \<Rightarrow> market_state" where
  "publish e s = s\<lparr>events := events s @ [e]\<rparr>"

definition is_initialized :: "market_state \<Rightarrow> bool" where
  "is_initialized s = (Admin s \<noteq> None)"
definition set_admin :: "address \<Rightarrow> market_state \<Rightarrow> market_state" where
  "set_admin a s = s\<lparr>Admin := Some a\<rparr>"
definition get_admin :: "market_state \<Rightarrow> (market_error, address) outcome" where
  "get_admin s = ok_or NotInitialized (Admin s)"
definition get_market_count :: "market_state \<Rightarrow> nat" where
  "get_market_count s = unwrap_or 0 (MarketCount s)"
definition increment_market_count :: "market_state \<Rightarrow> (market_error, nat \<times> market_state) outcome" where
  "increment_market_count s =
     and_then (u32_add (get_market_count s) 1) (\<lambda>count. Ok (count, s\<lparr>MarketCount := Some count\<rparr>))"
definition set_market :: "Market \<Rightarrow> market_state \<Rightarrow> market_state" where
  "set_market m s = s\<lparr>Markets := (Markets s)(market_id m \<mapsto> m)\<rparr>"
definition get_market :: "market_state \<Rightarrow> nat \<Rightarrow> (market_error, Market) outcome" where
  "get_market s i = ok_or MarketNotFound (Markets s i)"
definition set_position :: "BetPosition \<Rightarrow> market_state \<Rightarrow> market_state" where
  "set_position p s = s\<lparr>Bets := (Bets s)((bet_market_id p, trader p) \<mapsto> p)\<rparr>"
definition get_position :: "market_state \<Rightarrow> nat \<Rightarrow> address \<Rightarrow> BetPosition option" where
  "get_position s i a = Bets s (i, a)"
definition set_conditional_market :: "ConditionalMarket \<Rightarrow> market_state \<Rightarrow> market_state" where
  "set_conditional_market c s = s\<lparr>ConditionalMarkets := (ConditionalMarkets s)(cm_market_id c \<mapsto> c)\<rparr>"
definition get_conditional_market :: "market_state \<Rightarrow> nat \<Rightarrow> (market_error, ConditionalMarket) outcome" where
  "get_conditional_market s i = ok_or ConditionalMarketRequired (ConditionalMarkets s i)"
definition has_conditional_market :: "market_state \<Rightarrow> nat \<Rightarrow> bool" where
  "has_conditional_market s i = (ConditionalMarkets s i \<noteq> None)"
definition get_outcome_balance :: "market_state \<Rightarrow> nat \<Rightarrow> address \<Rightarrow> nat \<Rightarrow> int" where
  "get_outcome_balance s i a out = unwrap_or 0 (OutcomeBalances s (i, a, out))"
definition set_outcome_balance :: "nat \<Rightarrow> address \<Rightarrow> nat \<Rightarrow> int \<Rightarrow> market_state \<Rightarrow> market_state" where
  "set_outcome_balance i a out x s = s\<lparr>OutcomeBalances := (OutcomeBalances s)((i, a, out) \<mapsto> x)\<rparr>"
definition get_liquidity_balance :: "market_state \<Rightarrow> nat \<Rightarrow> address \<Rightarrow> int" where
  "get_liquidity_balance s i a = unwrap_or 0 (LiquidityBalances s (i, a))"
definition set_liquidity_balance :: "nat \<Rightarrow> address \<Rightarrow> int \<Rightarrow> market_state \<Rightarrow> market_state" where
  "set_liquidity_balance i a x s = s\<lparr>LiquidityBalances := (LiquidityBalances s)((i, a) \<mapsto> x)\<rparr>"
definition get_resolution :: "market_state \<Rightarrow> nat \<Rightarrow> ResolutionProposal option" where
  "get_resolution s i = Resolutions s i"
definition set_resolution :: "nat \<Rightarrow> ResolutionProposal \<Rightarrow> market_state \<Rightarrow> market_state" where
  "set_resolution i p s = s\<lparr>Resolutions := (Resolutions s)(i \<mapsto> p)\<rparr>"

lemmas market_getters =
  is_initialized_def get_admin_def get_market_count_def get_market_def get_position_def
  get_conditional_market_def has_conditional_market_def get_outcome_balance_def
  get_liquidity_balance_def get_resolution_def
lemmas market_setters =
  publish_def set_admin_def set_market_def set_position_def set_conditional_market_def
  set_outcome_balance_def set_liquidity_balance_def set_resolution_def

definition MIN_OUTCOMES :: nat where "MIN_OUTCOMES = 2"
definition MAX_OUTCOMES :: nat where "MAX_OUTCOMES = 16"
definition MAX_DISPUTE_WINDOW :: nat where "MAX_DISPUTE_WINDOW = 2592000"
definition RATIO_SCALE :: int where "RATIO_SCALE = 1000000000"

section \<open>Arithmetic helpers\<close>

definition checked_add_r :: "int \<Rightarrow> int \<Rightarrow> (market_error, int) outcome" where
  "checked_add_r left right = ok_or ArithmeticOverflow (checked_add left right)"
definition checked_sub_r :: "int \<Rightarrow> int \<Rightarrow> (market_error, int) outcome" where
  "checked_sub_r left right = ok_or ArithmeticOverflow (checked_sub left right)"

text \<open>Euclid's loop; \<open>smod\<close> is Rust's remainder.\<close>

function gcd_loop :: "int \<Rightarrow> int \<Rightarrow> int" where
  "gcd_loop left right = (if right = 0 then left else gcd_loop right (left smod right))"
  by pat_completeness auto

termination gcd_loop
  by (relation "measure (\<lambda>(l, r). nat \<bar>r\<bar>)") (auto intro: smod_smaller)

declare gcd_loop.simps [simp del]

definition mul_div_floor :: "int \<Rightarrow> int \<Rightarrow> int \<Rightarrow> (market_error, int) outcome" where
  "mul_div_floor left right denominator =
     (if left < 0 \<or> right < 0 \<or> denominator \<le> 0 then Err InvalidAmount
      else
        let first_gcd = gcd_loop left denominator in
        and_then (i128_div left first_gcd) (\<lambda>reduced_left.
        and_then (i128_div denominator first_gcd) (\<lambda>remaining_denominator.
        let second_gcd = gcd_loop right remaining_denominator in
        and_then (i128_div right second_gcd) (\<lambda>reduced_right.
        and_then (i128_div remaining_denominator second_gcd) (\<lambda>divisor.
        and_then (ok_or ArithmeticOverflow (checked_mul reduced_left reduced_right)) (\<lambda>v.
        i128_div v divisor))))))"

definition mul_div_ceil :: "int \<Rightarrow> int \<Rightarrow> int \<Rightarrow> (market_error, int) outcome" where
  "mul_div_ceil left right denominator =
     (if left < 0 \<or> right < 0 \<or> denominator \<le> 0 then Err InvalidAmount
      else
        let first_gcd = gcd_loop left denominator in
        and_then (i128_div left first_gcd) (\<lambda>reduced_left.
        and_then (i128_div denominator first_gcd) (\<lambda>remaining_denominator.
        let second_gcd = gcd_loop right remaining_denominator in
        and_then (i128_div right second_gcd) (\<lambda>reduced_right.
        and_then (ok_or ArithmeticOverflow (checked_mul reduced_left reduced_right)) (\<lambda>numerator.
        and_then (i128_div remaining_denominator second_gcd) (\<lambda>divisor.
        and_then (i128_div numerator divisor) (\<lambda>floor_value.
        if numerator smod divisor = 0 then Ok floor_value else checked_add_r floor_value 1)))))))"

section \<open>Quotes of the fixed-product market maker\<close>

text \<open>\<open>Vec::get\<close>.\<close>

definition vec_get :: "'a list \<Rightarrow> nat \<Rightarrow> 'a option" where
  "vec_get xs i = (if i < length xs then Some (xs ! i) else None)"

definition validate_outcome :: "ConditionalMarket \<Rightarrow> nat \<Rightarrow> (market_error, unit) outcome" where
  "validate_outcome c out = (if out \<ge> length (outcomes c) then Err InvalidOutcome else Ok ())"

text \<open>The loops over \<open>pool_balances\<close> run over the list with the index of its head.\<close>

fun buy_loop :: "nat \<Rightarrow> int \<Rightarrow> nat \<Rightarrow> int list \<Rightarrow> int \<Rightarrow> (market_error, int) outcome" where
  "buy_loop out amt index [] ending_selected = Ok ending_selected"
| "buy_loop out amt index (reserve # rest) ending_selected =
     (if index = out then buy_loop out amt (Suc index) rest ending_selected
      else
        and_then (checked_add_r reserve amt) (\<lambda>d.
        and_then (mul_div_ceil ending_selected reserve d) (\<lambda>ending'.
        buy_loop out amt (Suc index) rest ending')))"

definition quote_buy_shares :: "ConditionalMarket \<Rightarrow> nat \<Rightarrow> int \<Rightarrow> (market_error, int) outcome" where
  "quote_buy_shares c out collateral_amount =
     and_then (validate_outcome c out) (\<lambda>_.
     if collateral_amount \<le> 0 then Err InvalidAmount
     else
       and_then (ok_or InsufficientLiquidity (vec_get (pool_balances c) out)) (\<lambda>selected_reserve.
       if selected_reserve \<le> 0 then Err InsufficientLiquidity
       else
         and_then (buy_loop out collateral_amount 0 (pool_balances c) selected_reserve) (\<lambda>ending_selected.
         and_then (checked_add_r selected_reserve collateral_amount) (\<lambda>x.
         and_then (checked_sub_r x ending_selected) (\<lambda>shares.
         if shares \<le> 0 then Err InsufficientLiquidity else Ok shares)))))"

fun extract_loop :: "nat \<Rightarrow> int \<Rightarrow> nat \<Rightarrow> int list \<Rightarrow> int \<Rightarrow> (market_error, int) outcome" where
  "extract_loop out shares index [] max_extractable = Ok max_extractable"
| "extract_loop out shares index (reserve # rest) max_extractable =
     and_then (if index = out then checked_add_r reserve shares else Ok reserve) (\<lambda>after_sale.
     if after_sale \<le> 1 then Err InsufficientLiquidity
     else
       and_then (checked_sub_r after_sale 1) (\<lambda>candidate.
       extract_loop out shares (Suc index) rest
         (if candidate < max_extractable then candidate else max_extractable)))"

fun ratio_loop :: "nat \<Rightarrow> int \<Rightarrow> int \<Rightarrow> nat \<Rightarrow> int list \<Rightarrow> int \<Rightarrow> (market_error, bool) outcome" where
  "ratio_loop out shares amt index [] ratio = Ok (ratio \<ge> RATIO_SCALE)"
| "ratio_loop out shares amt index (original # rest) ratio =
     (if original \<le> 0 then Err InsufficientLiquidity
      else
        and_then (if index = out then checked_add_r original shares else Ok original) (\<lambda>after_sale.
        and_then (checked_sub_r after_sale amt) (\<lambda>remaining.
        if remaining \<le> 0 then Ok False
        else
          and_then (mul_div_floor ratio remaining original) (\<lambda>ratio'.
          ratio_loop out shares amt (Suc index) rest ratio'))))"

definition sell_invariant_holds :: "ConditionalMarket \<Rightarrow> nat \<Rightarrow> int \<Rightarrow> int \<Rightarrow> (market_error, bool) outcome" where
  "sell_invariant_holds c out shares amt = ratio_loop out shares amt 0 (pool_balances c) RATIO_SCALE"

text \<open>The binary search of \<open>quote_sell_shares\<close>.\<close>

function search_loop ::
    "ConditionalMarket \<Rightarrow> nat \<Rightarrow> int \<Rightarrow> int \<Rightarrow> int \<Rightarrow> int \<Rightarrow> (market_error, int) outcome" where
  "search_loop c out shares low high best =
     (if \<not> low \<le> high then Ok best
      else
        and_then (i128_sub high low) (\<lambda>gap.
        and_then (i128_div gap 2) (\<lambda>half.
        and_then (i128_add low half) (\<lambda>mid.
        and_then (sell_invariant_holds c out shares mid) (\<lambda>holds.
        if holds then and_then (i128_add mid 1) (\<lambda>low'. search_loop c out shares low' high mid)
        else and_then (i128_sub mid 1) (\<lambda>high'. search_loop c out shares low high' best))))))"
  by pat_completeness auto

lemma half_bounds: "0 \<le> (x::int) \<Longrightarrow> 0 \<le> x sdiv 2 \<and> x sdiv 2 \<le> x"
  by (cases "x = 0") (simp_all add: signed_divide_int_def)

termination search_loop
  by (relation "measure (\<lambda>(c, out, shares, low, high, best). nat (high - low + 1))")
    (use half_bounds in \<open>fastforce+\<close>)

declare search_loop.simps [simp del]

definition quote_sell_shares :: "ConditionalMarket \<Rightarrow> nat \<Rightarrow> int \<Rightarrow> (market_error, int) outcome" where
  "quote_sell_shares c out shares =
     and_then (validate_outcome c out) (\<lambda>_.
     if shares \<le> 0 then Err InvalidAmount
     else
       and_then (extract_loop out shares 0 (pool_balances c) i128_max) (\<lambda>max_extractable.
       if max_extractable \<le> 0 then Err InsufficientLiquidity
       else
         and_then (search_loop c out shares 1 max_extractable 0) (\<lambda>best.
         if best \<le> 0 then Err InsufficientLiquidity else Ok best)))"

definition quote_buy :: "nat \<Rightarrow> nat \<Rightarrow> int \<Rightarrow> market_state \<Rightarrow> (market_error, int) outcome" where
  "quote_buy i out x s = and_then (get_conditional_market s i) (\<lambda>c. quote_buy_shares c out x)"
definition quote_sell :: "nat \<Rightarrow> nat \<Rightarrow> int \<Rightarrow> market_state \<Rightarrow> (market_error, int) outcome" where
  "quote_sell i out x s = and_then (get_conditional_market s i) (\<lambda>c. quote_sell_shares c out x)"

section \<open>Setting up markets\<close>

definition ensure_initialized :: "market_state \<Rightarrow> (market_error, unit) outcome" where
  "ensure_initialized s = (if \<not> is_initialized s then Err NotInitialized else Ok ())"

definition initialize :: "env \<Rightarrow> address \<Rightarrow> market_state \<Rightarrow> (market_error, unit \<times> market_state) outcome" where
  "initialize env admin s =
     (if is_initialized s then Err AlreadyInitialized
      else
        and_then (require_auth env admin) (\<lambda>_.
        Ok ((), publish (Ev_init admin) (set_admin admin s))))"

definition create_market ::
    "env \<Rightarrow> address \<Rightarrow> string \<Rightarrow> nat \<Rightarrow> nat \<Rightarrow> address \<Rightarrow> market_state \<Rightarrow>
     (market_error, nat \<times> market_state) outcome" where
  "create_market env cr q mtype deadline orc s =
     and_then (ensure_initialized s) (\<lambda>_.
     and_then (require_auth env cr) (\<lambda>_.
     if deadline \<le> timestamp env then Err MarketExpired
     else
       and_then (if mtype = 0 then Ok Binary else if mtype = 1 then Ok Scalar else Err InvalidMarketType) (\<lambda>mt.
       and_then (increment_market_count s) (\<lambda>(i, s1).
       let market = \<lparr>market_id = i, creator = cr, question = q, market_type = mt, market_status = Open,
             resolution_deadline = deadline, market_oracle = orc, winning_outcome = None,
             total_yes_stake = 0, total_no_stake = 0, created_at = timestamp env\<rparr>
       in Ok (i, publish (Ev_mkt_crt i cr deadline) (set_market market s1))))))"

text \<open>The two nested loops over the labels: no label is empty, no later label repeats it.\<close>

fun check_labels :: "string list \<Rightarrow> (market_error, unit) outcome" where
  "check_labels [] = Ok ()"
| "check_labels (label # rest) =
     (if label = [] then Err InvalidOutcome
      else if label \<in> set rest then Err InvalidOutcome
      else check_labels rest)"

definition create_conditional_market ::
    "'w token_transfer \<Rightarrow> env \<Rightarrow> address \<Rightarrow> string \<Rightarrow> MarketType \<Rightarrow> string list \<Rightarrow> nat \<Rightarrow> address \<Rightarrow> address \<Rightarrow>
     address \<Rightarrow> nat \<Rightarrow> int \<Rightarrow> 'w \<times> market_state \<Rightarrow> (market_error, nat \<times> 'w \<times> market_state) outcome" where
  "create_conditional_market tc env cr q mt outs deadline orc resolver tok window initial_liquidity = (\<lambda>(w, s).
     and_then (ensure_initialized s) (\<lambda>_.
     and_then (require_auth env cr) (\<lambda>_.
     if deadline \<le> timestamp env then Err MarketExpired
     else if length outs < MIN_OUTCOMES \<or> length outs > MAX_OUTCOMES then Err InvalidOutcomeCount
     else
       and_then (check_labels outs) (\<lambda>_.
       if window = 0 \<or> window > MAX_DISPUTE_WINDOW then Err InvalidDisputeWindow
       else if initial_liquidity \<le> 0 then Err InvalidAmount
       else
         and_then (or_trap (tc tok (subcall_env env tok) cr (current_contract env) initial_liquidity w)) (\<lambda>w1.
         and_then (increment_market_count s) (\<lambda>(i, s1).
         let market = \<lparr>market_id = i, creator = cr, question = q, market_type = mt, market_status = Open,
               resolution_deadline = deadline, market_oracle = orc, winning_outcome = None,
               total_yes_stake = 0, total_no_stake = 0, created_at = timestamp env\<rparr> in
         and_then (i128_div initial_liquidity 100) (\<lambda>b.
         let conditional = \<lparr>cm_market_id = i, outcomes = outs, collateral_token = tok,
               dispute_resolver = resolver, dispute_window = window, minimum_dispute_bond = max b 1,
               pool_balances = replicate (length outs) initial_liquidity,
               total_liquidity_shares = initial_liquidity, collateral_locked = initial_liquidity\<rparr>;
             s2 = set_market market s1;
             s3 = set_conditional_market conditional s2;
             s4 = set_liquidity_balance i cr initial_liquidity s3
         in Ok (i, w1, publish (Ev_mkt_crt i cr deadline) s4))))))))"

definition create_binary_market ::
    "'w token_transfer \<Rightarrow> env \<Rightarrow> address \<Rightarrow> string \<Rightarrow> nat \<Rightarrow> address \<Rightarrow> address \<Rightarrow> address \<Rightarrow> nat \<Rightarrow> int \<Rightarrow>
     'w \<times> market_state \<Rightarrow> (market_error, nat \<times> 'w \<times> market_state) outcome" where
  "create_binary_market tc env cr q deadline orc resolver tok window initial_liquidity =
     create_conditional_market tc env cr q Binary [''NO'', ''YES''] deadline orc resolver tok window initial_liquidity"

definition create_categorical_market ::
    "'w token_transfer \<Rightarrow> env \<Rightarrow> address \<Rightarrow> string \<Rightarrow> string list \<Rightarrow> nat \<Rightarrow> address \<Rightarrow> address \<Rightarrow> address \<Rightarrow>
     nat \<Rightarrow> int \<Rightarrow> 'w \<times> market_state \<Rightarrow> (market_error, nat \<times> 'w \<times> market_state) outcome" where
  "create_categorical_market tc env cr q outs deadline orc resolver tok window initial_liquidity =
     create_conditional_market tc env cr q Categorical outs deadline orc resolver tok window initial_liquidity"

definition ensure_trading_open :: "env \<Rightarrow> Market \<Rightarrow> market_state \<Rightarrow> (market_error, unit) outcome" where
  "ensure_trading_open env market s =
     (if market_status market \<noteq> Open \<or> get_resolution s (market_id market) \<noteq> None then Err MarketAlreadyResolved
      else if timestamp env \<ge> resolution_deadline market then Err MarketExpired
      else Ok ())"

section \<open>Trading\<close>

text \<open>The loops that add to, and take from, every reserve.\<close>

fun add_to_all :: "int \<Rightarrow> int list \<Rightarrow> (market_error, int list) outcome" where
  "add_to_all amt [] = Ok []"
| "add_to_all amt (reserve # rest) =
     and_then (checked_add_r reserve amt) (\<lambda>next_reserve.
     and_then (add_to_all amt rest) (\<lambda>rest'. Ok (next_reserve # rest')))"

fun sub_from_all :: "int \<Rightarrow> int list \<Rightarrow> (market_error, int list) outcome" where
  "sub_from_all amt [] = Ok []"
| "sub_from_all amt (reserve # rest) =
     and_then (checked_sub_r reserve amt) (\<lambda>next_reserve.
     and_then (sub_from_all amt rest) (\<lambda>rest'. Ok (next_reserve # rest')))"

definition buy_shares ::
    "'w token_transfer \<Rightarrow> env \<Rightarrow> address \<Rightarrow> nat \<Rightarrow> nat \<Rightarrow> int \<Rightarrow> int \<Rightarrow> 'w \<times> market_state \<Rightarrow>
     (market_error, int \<times> 'w \<times> market_state) outcome" where
  "buy_shares tc env buyer i out collateral_amount min_shares = (\<lambda>(w, s).
     and_then (ensure_initialized s) (\<lambda>_.
     and_then (require_auth env buyer) (\<lambda>_.
     and_then (get_market s i) (\<lambda>market.
     and_then (ensure_trading_open env market s) (\<lambda>_.
     and_then (get_conditional_market s i) (\<lambda>c.
     and_then (quote_buy_shares c out collateral_amount) (\<lambda>shares.
     if shares < min_shares then Err SlippageExceeded
     else
       and_then (or_trap (tc (collateral_token c) (subcall_env env (collateral_token c)) buyer
          (current_contract env) collateral_amount w)) (\<lambda>w1.
       and_then (add_to_all collateral_amount (pool_balances c)) (\<lambda>pool.
       and_then (ok_or InsufficientLiquidity (vec_get pool out)) (\<lambda>selected.
       and_then (checked_sub_r selected shares) (\<lambda>selected'.
       and_then (checked_add_r (collateral_locked c) collateral_amount) (\<lambda>locked.
       let c' = c\<lparr>pool_balances := pool[out := selected'], collateral_locked := locked\<rparr>;
           balance = get_outcome_balance s i buyer out in
       and_then (checked_add_r balance shares) (\<lambda>balance'.
       let s1 = set_outcome_balance i buyer out balance' s;
           s2 = set_conditional_market c' s1
       in Ok (shares, w1, publish (Ev_shares i out buyer collateral_amount shares) s2))))))))))))))"

definition sell_shares ::
    "'w token_transfer \<Rightarrow> env \<Rightarrow> address \<Rightarrow> nat \<Rightarrow> nat \<Rightarrow> int \<Rightarrow> int \<Rightarrow> 'w \<times> market_state \<Rightarrow>
     (market_error, int \<times> 'w \<times> market_state) outcome" where
  "sell_shares tc env seller i out shares min_collateral = (\<lambda>(w, s).
     and_then (ensure_initialized s) (\<lambda>_.
     and_then (require_auth env seller) (\<lambda>_.
     and_then (get_market s i) (\<lambda>market.
     and_then (ensure_trading_open env market s) (\<lambda>_.
     and_then (get_conditional_market s i) (\<lambda>c.
     and_then (quote_sell_shares c out shares) (\<lambda>amt.
     if amt < min_collateral then Err SlippageExceeded
     else
       let held = get_outcome_balance s i seller out in
       if held < shares then Err InsufficientShares
       else
         and_then (ok_or InsufficientLiquidity (vec_get (pool_balances c) out)) (\<lambda>selected.
         and_then (checked_add_r selected shares) (\<lambda>selected'.
         and_then (sub_from_all amt ((pool_balances c)[out := selected'])) (\<lambda>pool.
         and_then (checked_sub_r (collateral_locked c) amt) (\<lambda>locked.
         let c' = c\<lparr>pool_balances := pool, collateral_locked := locked\<rparr> in
         and_then (checked_sub_r held shares) (\<lambda>held'.
         let s1 = set_outcome_balance i seller out held' s;
             s2 = set_conditional_market c' s1 in
         and_then (or_trap (tc (collateral_token c) (subcall_env env (collateral_token c))
            (current_contract env) seller amt w)) (\<lambda>w1.
         Ok (amt, w1, publish (Ev_ct_sell i out seller shares amt) s2))))))))))))))"

text \<open>The loop that credits one unit set: \<open>outs\<close> is the range of outcome indices.\<close>

fun credit_loop :: "nat \<Rightarrow> address \<Rightarrow> int \<Rightarrow> nat list \<Rightarrow> market_state \<Rightarrow> (market_error, market_state) outcome" where
  "credit_loop i a amt [] s = Ok s"
| "credit_loop i a amt (out # outs) s =
     and_then (checked_add_r (get_outcome_balance s i a out) amt) (\<lambda>x.
     credit_loop i a amt outs (set_outcome_balance i a out x s))"

definition mint_complete_set ::
    "'w token_transfer \<Rightarrow> env \<Rightarrow> address \<Rightarrow> nat \<Rightarrow> int \<Rightarrow> 'w \<times> market_state \<Rightarrow>
     (market_error, unit \<times> 'w \<times> market_state) outcome" where
  "mint_complete_set tc env minter i amt = (\<lambda>(w, s).
     and_then (ensure_initialized s) (\<lambda>_.
     and_then (require_auth env minter) (\<lambda>_.
     if amt \<le> 0 then Err InvalidAmount
     else
       and_then (get_market s i) (\<lambda>market.
       and_then (ensure_trading_open env market s) (\<lambda>_.
       and_then (get_conditional_market s i) (\<lambda>c.
       and_then (or_trap (tc (collateral_token c) (subcall_env env (collateral_token c)) minter
          (current_contract env) amt w)) (\<lambda>w1.
       and_then (credit_loop i minter amt [0..<length (outcomes c)] s) (\<lambda>s1.
       and_then (checked_add_r (collateral_locked c) amt) (\<lambda>locked.
       let s2 = set_conditional_market (c\<lparr>collateral_locked := locked\<rparr>) s1
       in Ok ((), w1, publish (Ev_ct_mint i minter amt) s2))))))))))"

section \<open>Liquidity\<close>

fun minted_loop :: "int \<Rightarrow> int \<Rightarrow> int list \<Rightarrow> int \<Rightarrow> (market_error, int) outcome" where
  "minted_loop amt total_shares [] minted = Ok minted"
| "minted_loop amt total_shares (reserve # rest) minted =
     (if reserve \<le> 0 then Err InsufficientLiquidity
      else
        and_then (mul_div_floor amt total_shares reserve) (\<lambda>candidate.
        minted_loop amt total_shares rest (if candidate < minted then candidate else minted)))"

definition add_liquidity ::
    "'w token_transfer \<Rightarrow> env \<Rightarrow> address \<Rightarrow> nat \<Rightarrow> int \<Rightarrow> int \<Rightarrow> 'w \<times> market_state \<Rightarrow>
     (market_error, int \<times> 'w \<times> market_state) outcome" where
  "add_liquidity tc env provider i collateral_amount min_liquidity_shares = (\<lambda>(w, s).
     and_then (ensure_initialized s) (\<lambda>_.
     and_then (require_auth env provider) (\<lambda>_.
     and_then (get_market s i) (\<lambda>market.
     and_then (ensure_trading_open env market s) (\<lambda>_.
     if collateral_amount \<le> 0 then Err InvalidAmount
     else
       and_then (get_conditional_market s i) (\<lambda>c.
       and_then (minted_loop collateral_amount (total_liquidity_shares c) (pool_balances c) i128_max) (\<lambda>minted.
       if minted \<le> 0 \<or> minted < min_liquidity_shares then Err SlippageExceeded
       else
         and_then (or_trap (tc (collateral_token c) (subcall_env env (collateral_token c)) provider
            (current_contract env) collateral_amount w)) (\<lambda>w1.
         and_then (add_to_all collateral_amount (pool_balances c)) (\<lambda>pool.
         and_then (checked_add_r (total_liquidity_shares c) minted) (\<lambda>total_shares.
         and_then (checked_add_r (collateral_locked c) collateral_amount) (\<lambda>locked.
         let c' = c\<lparr>pool_balances := pool, total_liquidity_shares := total_shares, collateral_locked := locked\<rparr>;
             balance = get_liquidity_balance s i provider in
         and_then (checked_add_r balance minted) (\<lambda>balance'.
         let s1 = set_liquidity_balance i provider balance' s;
             s2 = set_conditional_market c' s1
         in Ok (minted, w1, publish (Ev_liquidity i provider collateral_amount minted) s2)))))))))))))"

text \<open>The loop of \<open>remove_liquidity\<close>: it yields the amounts withdrawn, the reserves left and the
  balances credited.\<close>

fun withdraw_loop ::
    "nat \<Rightarrow> address \<Rightarrow> int \<Rightarrow> int \<Rightarrow> nat \<Rightarrow> int list \<Rightarrow> market_state \<Rightarrow>
     (market_error, int list \<times> int list \<times> market_state) outcome" where
  "withdraw_loop i provider liquidity total_shares out [] s = Ok ([], [], s)"
| "withdraw_loop i provider liquidity total_shares out (reserve # rest) s =
     and_then (mul_div_floor reserve liquidity total_shares) (\<lambda>amt.
     if amt \<le> 0 then Err InvalidAmount
     else
       and_then (checked_sub_r reserve amt) (\<lambda>reserve'.
       and_then (checked_add_r (get_outcome_balance s i provider out) amt) (\<lambda>x.
       and_then (withdraw_loop i provider liquidity total_shares (Suc out) rest
          (set_outcome_balance i provider out x s)) (\<lambda>(amts, reserves, s').
       Ok (amt # amts, reserve' # reserves, s')))))"

definition remove_liquidity ::
    "env \<Rightarrow> address \<Rightarrow> nat \<Rightarrow> int \<Rightarrow> market_state \<Rightarrow> (market_error, int list \<times> market_state) outcome" where
  "remove_liquidity env provider i liquidity_shares s =
     and_then (ensure_initialized s) (\<lambda>_.
     and_then (require_auth env provider) (\<lambda>_.
     and_then (get_market s i) (\<lambda>market.
     if market_status market = Cancelled then Err MarketAlreadyResolved
     else if liquidity_shares \<le> 0 then Err InvalidAmount
     else
       and_then (get_conditional_market s i) (\<lambda>c.
       let provider_balance = get_liquidity_balance s i provider in
       if liquidity_shares > provider_balance then Err InsufficientLiquidity
       else
         and_then (withdraw_loop i provider liquidity_shares (total_liquidity_shares c) 0 (pool_balances c) s)
           (\<lambda>(withdrawn, pool, s1).
         and_then (checked_sub_r (total_liquidity_shares c) liquidity_shares) (\<lambda>total_shares.
         and_then (checked_sub_r provider_balance liquidity_shares) (\<lambda>balance'.
         let c' = c\<lparr>pool_balances := pool, total_liquidity_shares := total_shares\<rparr>;
             s2 = set_liquidity_balance i provider balance' s1;
             s3 = set_conditional_market c' s2
         in Ok (withdrawn, publish (Ev_removed i provider liquidity_shares) s3))))))))"

fun holds_loop :: "nat \<Rightarrow> address \<Rightarrow> int \<Rightarrow> nat list \<Rightarrow> market_state \<Rightarrow> (market_error, unit) outcome" where
  "holds_loop i a amt [] s = Ok ()"
| "holds_loop i a amt (out # outs) s =
     (if get_outcome_balance s i a out < amt then Err InsufficientShares else holds_loop i a amt outs s)"

fun debit_loop :: "nat \<Rightarrow> address \<Rightarrow> int \<Rightarrow> nat list \<Rightarrow> market_state \<Rightarrow> (market_error, market_state) outcome" where
  "debit_loop i a amt [] s = Ok s"
| "debit_loop i a amt (out # outs) s =
     and_then (checked_sub_r (get_outcome_balance s i a out) amt) (\<lambda>x.
     debit_loop i a amt outs (set_outcome_balance i a out x s))"

definition redeem_complete_set ::
    "'w token_transfer \<Rightarrow> env \<Rightarrow> address \<Rightarrow> nat \<Rightarrow> int \<Rightarrow> 'w \<times> market_state \<Rightarrow>
     (market_error, unit \<times> 'w \<times> market_state) outcome" where
  "redeem_complete_set tc env owner i amt = (\<lambda>(w, s).
     and_then (ensure_initialized s) (\<lambda>_.
     and_then (require_auth env owner) (\<lambda>_.
     if amt \<le> 0 then Err InvalidAmount
     else
       and_then (get_market s i) (\<lambda>market.
       if market_status market \<noteq> Open \<or> get_resolution s i \<noteq> None then Err MarketAlreadyResolved
       else
         and_then (get_conditional_market s i) (\<lambda>c.
         and_then (holds_loop i owner amt [0..<length (outcomes c)] s) (\<lambda>_.
         and_then (debit_loop i owner amt [0..<length (outcomes c)] s) (\<lambda>s1.
         and_then (checked_sub_r (collateral_locked c) amt) (\<lambda>locked.
         let s2 = set_conditional_market (c\<lparr>collateral_locked := locked\<rparr>) s1 in
         and_then (or_trap (tc (collateral_token c) (subcall_env env (collateral_token c))
            (current_contract env) owner amt w)) (\<lambda>w1.
         Ok ((), w1, publish (Ev_redeemed_set i owner amt) s2))))))))))"

section \<open>Settlement\<close>

definition propose_resolution ::
    "env \<Rightarrow> nat \<Rightarrow> nat \<Rightarrow> market_state \<Rightarrow> (market_error, unit \<times> market_state) outcome" where
  "propose_resolution env i out s =
     and_then (ensure_initialized s) (\<lambda>_.
     and_then (get_market s i) (\<lambda>market.
     and_then (require_auth env (market_oracle market)) (\<lambda>_.
     if market_status market \<noteq> Open then Err MarketAlreadyResolved
     else
       and_then (get_conditional_market s i) (\<lambda>c.
       and_then (validate_outcome c out) (\<lambda>_.
       if timestamp env < resolution_deadline market then Err ResolutionTooEarly
       else if get_resolution s i \<noteq> None then Err MarketAlreadyResolved
       else
         and_then (ok_or ArithmeticOverflow (u64_checked_add (timestamp env) (dispute_window c))) (\<lambda>deadline.
         let proposal = \<lparr>proposed_outcome = out, proposed_at = timestamp env, dispute_deadline = deadline,
               disputer = None, dispute_bond = 0\<rparr>
         in Ok ((), publish (Ev_proposed i out deadline) (set_resolution i proposal s))))))))"

definition dispute_resolution ::
    "'w token_transfer \<Rightarrow> env \<Rightarrow> address \<Rightarrow> nat \<Rightarrow> int \<Rightarrow> 'w \<times> market_state \<Rightarrow>
     (market_error, unit \<times> 'w \<times> market_state) outcome" where
  "dispute_resolution tc env challenger i bond = (\<lambda>(w, s).
     and_then (ensure_initialized s) (\<lambda>_.
     and_then (require_auth env challenger) (\<lambda>_.
     if bond \<le> 0 then Err InvalidAmount
     else
       and_then (get_market s i) (\<lambda>market.
       if market_status market \<noteq> Open then Err MarketAlreadyResolved
       else
         and_then (get_conditional_market s i) (\<lambda>c.
         and_then (ok_or ResolutionNotProposed (get_resolution s i)) (\<lambda>proposal.
         if timestamp env \<ge> dispute_deadline proposal then Err DisputeWindowClosed
         else if disputer proposal \<noteq> None then Err ResolutionAlreadyDisputed
         else if bond < minimum_dispute_bond c then Err DisputeBondTooSmall
         else
           and_then (or_trap (tc (collateral_token c) (subcall_env env (collateral_token c)) challenger
              (current_contract env) bond w)) (\<lambda>w1.
           let proposal' = proposal\<lparr>disputer := Some challenger, dispute_bond := bond\<rparr>
           in Ok ((), w1, publish (Ev_disputed i challenger bond) (set_resolution i proposal' s)))))))))"

definition finalize_market :: "Market \<Rightarrow> nat \<Rightarrow> market_state \<Rightarrow> market_state" where
  "finalize_market market out s =
     publish (Ev_resolved (market_id market) out)
       (set_market (market\<lparr>market_status := Resolved, winning_outcome := Some out\<rparr>) s)"

definition finalize_resolution ::
    "env \<Rightarrow> nat \<Rightarrow> market_state \<Rightarrow> (market_error, unit \<times> market_state) outcome" where
  "finalize_resolution env i s =
     and_then (ensure_initialized s) (\<lambda>_.
     and_then (get_market s i) (\<lambda>market.
     if market_status market \<noteq> Open then Err MarketAlreadyResolved
     else
       and_then (get_conditional_market s i) (\<lambda>_.
       and_then (ok_or ResolutionNotProposed (get_resolution s i)) (\<lambda>proposal.
       if disputer proposal \<noteq> None then Err ResolutionAlreadyDisputed
       else if timestamp env < dispute_deadline proposal then Err DisputeWindowActive
       else Ok ((), finalize_market market (proposed_outcome proposal) s)))))"

definition resolve_dispute ::
    "'w token_transfer \<Rightarrow> env \<Rightarrow> nat \<Rightarrow> nat \<Rightarrow> 'w \<times> market_state \<Rightarrow>
     (market_error, unit \<times> 'w \<times> market_state) outcome" where
  "resolve_dispute tc env i final_outcome = (\<lambda>(w, s).
     and_then (ensure_initialized s) (\<lambda>_.
     and_then (get_market s i) (\<lambda>market.
     if market_status market \<noteq> Open then Err MarketAlreadyResolved
     else
       and_then (get_conditional_market s i) (\<lambda>c.
       and_then (require_auth env (dispute_resolver c)) (\<lambda>_.
       and_then (validate_outcome c final_outcome) (\<lambda>_.
       and_then (ok_or ResolutionNotProposed (get_resolution s i)) (\<lambda>proposal.
       and_then (ok_or ResolutionNotDisputed (disputer proposal)) (\<lambda>challenger.
       let s1 = finalize_market market final_outcome s;
           bond_recipient = (if final_outcome = proposed_outcome proposal then market_oracle market else challenger) in
       and_then (or_trap (tc (collateral_token c) (subcall_env env (collateral_token c))
          (current_contract env) bond_recipient (dispute_bond proposal) w)) (\<lambda>w1.
       Ok ((), w1, s1))))))))))"

definition redeem_winnings ::
    "'w token_transfer \<Rightarrow> env \<Rightarrow> address \<Rightarrow> nat \<Rightarrow> int \<Rightarrow> 'w \<times> market_state \<Rightarrow>
     (market_error, unit \<times> 'w \<times> market_state) outcome" where
  "redeem_winnings tc env owner i amt = (\<lambda>(w, s).
     and_then (ensure_initialized s) (\<lambda>_.
     and_then (require_auth env owner) (\<lambda>_.
     if amt \<le> 0 then Err InvalidAmount
     else
       and_then (get_market s i) (\<lambda>market.
       if market_status market \<noteq> Resolved then Err MarketNotResolved
       else
         and_then (ok_or MarketNotResolved (winning_outcome market)) (\<lambda>out.
         and_then (get_conditional_market s i) (\<lambda>c.
         let balance = get_outcome_balance s i owner out in
         if balance < amt then Err InsufficientShares
         else
           and_then (checked_sub_r balance amt) (\<lambda>balance'.
           let s1 = set_outcome_balance i owner out balance' s in
           and_then (checked_sub_r (collateral_locked c) amt) (\<lambda>locked.
           let s2 = set_conditional_market (c\<lparr>collateral_locked := locked\<rparr>) s1 in
           and_then (or_trap (tc (collateral_token c) (subcall_env env (collateral_token c))
              (current_contract env) owner amt w)) (\<lambda>w1.
           Ok ((), w1, publish (Ev_redeemed i owner out amt) s2))))))))))"

fun ratio_sum_loop :: "int \<Rightarrow> int list \<Rightarrow> int \<Rightarrow> (market_error, int) outcome" where
  "ratio_sum_loop selected [] ratio_sum = Ok ratio_sum"
| "ratio_sum_loop selected (reserve # rest) ratio_sum =
     (if reserve \<le> 0 then Err InsufficientLiquidity
      else
        and_then (mul_div_floor selected RATIO_SCALE reserve) (\<lambda>x.
        and_then (checked_add_r ratio_sum x) (\<lambda>ratio_sum'. ratio_sum_loop selected rest ratio_sum')))"

text \<open>The final \<open>as u32\<close> keeps the low 32 bits.\<close>

definition spot_price :: "nat \<Rightarrow> nat \<Rightarrow> market_state \<Rightarrow> (market_error, nat) outcome" where
  "spot_price i out s =
     and_then (get_conditional_market s i) (\<lambda>c.
     and_then (validate_outcome c out) (\<lambda>_.
     and_then (ok_or InsufficientLiquidity (vec_get (pool_balances c) out)) (\<lambda>selected.
     if selected \<le> 0 then Err InsufficientLiquidity
     else
       and_then (ratio_sum_loop selected (pool_balances c) 0) (\<lambda>ratio_sum.
       if ratio_sum = 0 then Err ArithmeticOverflow
       else and_then (mul_div_floor RATIO_SCALE 10000 ratio_sum) (\<lambda>x. Ok (nat (x mod 2 ^ 32)))))))"

section \<open>Betting markets\<close>

definition place_bet ::
    "env \<Rightarrow> address \<Rightarrow> nat \<Rightarrow> nat \<Rightarrow> int \<Rightarrow> market_state \<Rightarrow> (market_error, unit \<times> market_state) outcome" where
  "place_bet env tr i out stk s =
     and_then (ensure_initialized s) (\<lambda>_.
     and_then (require_auth env tr) (\<lambda>_.
     if stk \<le> 0 then Err ZeroStake
     else if out > 1 then Err InvalidOutcome
     else
       and_then (get_market s i) (\<lambda>market.
       if market_status market \<noteq> Open then Err MarketAlreadyResolved
       else if timestamp env \<ge> resolution_deadline market then Err MarketExpired
       else
         and_then
           (case get_position s i tr of
              Some pos \<Rightarrow>
                if bet_outcome pos \<noteq> out then Err InvalidOutcome
                else and_then (checked_add_r (bet_stake pos) stk) (\<lambda>x. Ok (pos\<lparr>bet_stake := x\<rparr>))
            | None \<Rightarrow> Ok \<lparr>bet_market_id = i, trader = tr, bet_outcome = out, bet_stake = stk\<rparr>) (\<lambda>position.
         and_then
           (if out = 1 then and_then (checked_add_r (total_yes_stake market) stk) (\<lambda>x. Ok (market\<lparr>total_yes_stake := x\<rparr>))
            else and_then (checked_add_r (total_no_stake market) stk) (\<lambda>x. Ok (market\<lparr>total_no_stake := x\<rparr>))) (\<lambda>market'.
         let s1 = set_position position s;
             s2 = set_market market' s1
         in Ok ((), publish (Ev_bet i tr out stk) s2))))))"

definition resolve_market ::
    "env \<Rightarrow> nat \<Rightarrow> nat \<Rightarrow> market_state \<Rightarrow> (market_error, unit \<times> market_state) outcome" where
  "resolve_market env i out s =
     and_then (ensure_initialized s) (\<lambda>_.
     and_then (get_market s i) (\<lambda>market.
     if has_conditional_market s i then Err ConditionalMarketRequired
     else
       and_then (require_auth env (market_oracle market)) (\<lambda>_.
       if market_status market \<noteq> Open then Err MarketAlreadyResolved
       else if out > 1 then Err InvalidOutcome
       else
         let market' = market\<lparr>market_status := Resolved, winning_outcome := Some out\<rparr>
         in Ok ((), publish (Ev_resolved i out) (set_market market' s)))))"

definition cancel_market :: "env \<Rightarrow> nat \<Rightarrow> market_state \<Rightarrow> (market_error, unit \<times> market_state) outcome" where
  "cancel_market env i s =
     and_then (ensure_initialized s) (\<lambda>_.
     and_then (get_admin s) (\<lambda>admin.
     and_then (get_market s i) (\<lambda>market.
     if has_conditional_market s i then Err ConditionalMarketRequired
     else
       and_then (if admin = creator market then require_auth env (creator market) else require_auth env admin) (\<lambda>_.
       if market_status market \<noteq> Open then Err MarketAlreadyResolved
       else Ok ((), publish (Ev_mkt_can i) (set_market (market\<lparr>market_status := Cancelled\<rparr>) s))))))"

definition calculate_payout :: "nat \<Rightarrow> address \<Rightarrow> market_state \<Rightarrow> (market_error, int) outcome" where
  "calculate_payout i tr s =
     and_then (get_market s i) (\<lambda>market.
     if market_status market = Cancelled then
       and_then (ok_or PositionNotFound (get_position s i tr)) (\<lambda>pos. Ok (bet_stake pos))
     else if market_status market \<noteq> Resolved then Err MarketNotResolved
     else
       and_then (ok_or MarketNotResolved (winning_outcome market)) (\<lambda>win.
       and_then (ok_or PositionNotFound (get_position s i tr)) (\<lambda>pos.
       if bet_outcome pos \<noteq> win then Ok 0
       else
         and_then (checked_add_r (total_yes_stake market) (total_no_stake market)) (\<lambda>total_pool.
         let winning_pool = (if win = 1 then total_yes_stake market else total_no_stake market) in
         if winning_pool = 0 then Ok 0
         else mul_div_floor (bet_stake pos) total_pool winning_pool))))"

section \<open>Read-only entry points\<close>

definition pub_get_market :: "nat \<Rightarrow> market_state \<Rightarrow> (market_error, Market) outcome" where
  "pub_get_market i s = get_market s i"
definition pub_get_position :: "nat \<Rightarrow> address \<Rightarrow> market_state \<Rightarrow> (market_error, BetPosition) outcome" where
  "pub_get_position i tr s = ok_or PositionNotFound (get_position s i tr)"
definition pub_get_conditional_market :: "nat \<Rightarrow> market_state \<Rightarrow> (market_error, ConditionalMarket) outcome" where
  "pub_get_conditional_market i s = get_conditional_market s i"
definition outcome_balance :: "nat \<Rightarrow> address \<Rightarrow> nat \<Rightarrow> market_state \<Rightarrow> int" where
  "outcome_balance i a out s = get_outcome_balance s i a out"
definition liquidity_balance :: "nat \<Rightarrow> address \<Rightarrow> market_state \<Rightarrow> int" where
  "liquidity_balance i a s = get_liquidity_balance s i a"
definition pub_get_resolution :: "nat \<Rightarrow> market_state \<Rightarrow> (market_error, ResolutionProposal) outcome" where
  "pub_get_resolution i s = ok_or ResolutionNotProposed (get_resolution s i)"
definition market_count :: "market_state \<Rightarrow> nat" where
  "market_count s = get_market_count s"
definition pub_is_initialized :: "market_state \<Rightarrow> bool" where
  "pub_is_initialized s = is_initialized s"

section \<open>The contract on a ledger\<close>

text \<open>
  One successful invocation, first of the entry points that call no other contract, then of the ones
  that move collateral; and the contract at \<open>self\<close> together with the world of tokens. Nobody outside
  can sign for \<open>self\<close>. The initial liquidity is an argument of type \<open>i128\<close>.
\<close>

inductive book_call :: "env \<Rightarrow> market_state \<Rightarrow> market_state \<Rightarrow> bool" for env where
  initialize: "initialize env a s = Ok (u, t) \<Longrightarrow> book_call env s t"
| create: "create_market env a q m d orc s = Ok (i, t) \<Longrightarrow> book_call env s t"
| remove: "remove_liquidity env a i x s = Ok (xs, t) \<Longrightarrow> book_call env s t"
| propose: "propose_resolution env i out s = Ok (u, t) \<Longrightarrow> book_call env s t"
| finalize: "finalize_resolution env i s = Ok (u, t) \<Longrightarrow> book_call env s t"
| bet: "place_bet env a i out x s = Ok (u, t) \<Longrightarrow> book_call env s t"
| resolve: "resolve_market env i out s = Ok (u, t) \<Longrightarrow> book_call env s t"
| cancel: "cancel_market env i s = Ok (u, t) \<Longrightarrow> book_call env s t"

inductive token_call :: "'w token_transfer \<Rightarrow> env \<Rightarrow> 'w \<times> market_state \<Rightarrow> 'w \<times> market_state \<Rightarrow> bool"
  for tc env where
  create: "in_i128 x \<Longrightarrow> create_conditional_market tc env a q m outs d orc r tok win x ws = Ok (i, wt) \<Longrightarrow> token_call tc env ws wt"
| buy: "buy_shares tc env a i out x m ws = Ok (n, wt) \<Longrightarrow> token_call tc env ws wt"
| sell: "sell_shares tc env a i out x m ws = Ok (n, wt) \<Longrightarrow> token_call tc env ws wt"
| mint: "mint_complete_set tc env a i x ws = Ok (u, wt) \<Longrightarrow> token_call tc env ws wt"
| add: "add_liquidity tc env a i x m ws = Ok (n, wt) \<Longrightarrow> token_call tc env ws wt"
| redeem_set: "redeem_complete_set tc env a i x ws = Ok (u, wt) \<Longrightarrow> token_call tc env ws wt"
| dispute: "dispute_resolution tc env a i x ws = Ok (u, wt) \<Longrightarrow> token_call tc env ws wt"
| rule_dispute: "resolve_dispute tc env i out ws = Ok (u, wt) \<Longrightarrow> token_call tc env ws wt"
| redeem: "redeem_winnings tc env a i x ws = Ok (u, wt) \<Longrightarrow> token_call tc env ws wt"

inductive market_step ::
    "'w token_transfer \<Rightarrow> ('w \<Rightarrow> 'w \<Rightarrow> bool) \<Rightarrow> address \<Rightarrow> 'w \<times> market_state \<Rightarrow> 'w \<times> market_state \<Rightarrow> bool"
  for tc out self where
  book: "\<not> auth env self \<Longrightarrow> current_contract env = self \<Longrightarrow>
    book_call env s t \<Longrightarrow> market_step tc out self (w, s) (w, t)"
| tokens: "\<not> auth env self \<Longrightarrow> current_contract env = self \<Longrightarrow>
    token_call tc env ws wt \<Longrightarrow> market_step tc out self ws wt"
| other: "out w w' \<Longrightarrow> market_step tc out self (w, s) (w', s)"

end
