(* ===== verification/Reduced_Division.thy ===== *)
theory Reduced_Division
  imports Soroban_Prelude
begin

text \<open>
  Multiply-and-divide over \<open>i128\<close> with common factors divided out first, as two contracts write it: the
  locale states what the code's \<open>gcd\<close> and \<open>mul_div_floor\<close> do step by step, its lemmas say that the
  result is exact, fails only with the overflow error, and never panics. Interpreted for the markets
  and for the loans.
\<close>

locale reduced_division =
  fixes gcd_of :: "int \<Rightarrow> int \<Rightarrow> int"
    and mul_div :: "int \<Rightarrow> int \<Rightarrow> int \<Rightarrow> ('e, int) outcome"
    and invalid overflow :: 'e
  assumes gcd_of_step: "gcd_of l r = (if r = 0 then l else gcd_of r (l smod r))"
    and mul_div_invalid: "l < 0 \<or> r < 0 \<or> d \<le> 0 \<Longrightarrow> mul_div l r d = Err invalid"
    and mul_div_reduces:
      "0 \<le> l \<Longrightarrow> 0 \<le> r \<Longrightarrow> 0 < d \<Longrightarrow>
       (i128_div l (gcd_of l d) :: ('e, int) outcome) = Ok l' \<Longrightarrow> (i128_div d (gcd_of l d) :: ('e, int) outcome) = Ok d1 \<Longrightarrow>
       (i128_div r (gcd_of r d1) :: ('e, int) outcome) = Ok r' \<Longrightarrow> (i128_div d1 (gcd_of r d1) :: ('e, int) outcome) = Ok d' \<Longrightarrow>
       mul_div l r d = (if in_i128 (l' * r') then i128_div (l' * r') d' else Err overflow)"
begin

lemma gcd_of_gcd: "0 \<le> l \<Longrightarrow> 0 \<le> r \<Longrightarrow> gcd_of l r = gcd l r"
proof (induction "nat r" arbitrary: l r rule: less_induct)
  case less
  show ?case
  proof (cases "r = 0")
    case True
    then show ?thesis using less.prems by (subst gcd_of_step) simp
  next
    case False
    then have r: "0 < r" using less.prems by simp
    then have m: "0 \<le> l mod r" "l mod r < r" by simp_all
    have "gcd_of l r = gcd_of r (l mod r)"
      using False r less.prems by (subst gcd_of_step) (simp add: smod_nonneg)
    also have "\<dots> = gcd r (l mod r)" using less.hyps [of "l mod r" r] m r by simp
    finally show ?thesis by (simp add: gcd_red_int [symmetric])
  qed
qed

text \<open>
  The two reductions: common factors of the denominator with the left and with the right factor are
  divided out, and none of the divisions can fail.
\<close>

lemma reduction:
  assumes "0 \<le> l" "0 \<le> r" "0 < d" "in_i128 l" "in_i128 r" "in_i128 d"
  obtains g h l' r' d' :: int and d1 where "0 < g * h" "0 < d'" "0 \<le> l'" "0 \<le> r'"
    "l * r = (g * h) * (l' * r')" "d = (g * h) * d'" "g = gcd_of l d" "h = gcd_of r d1"
    "(i128_div l g :: ('e, int) outcome) = Ok l'" "(i128_div d g :: ('e, int) outcome) = Ok d1"
    "(i128_div r h :: ('e, int) outcome) = Ok r'" "(i128_div d1 h :: ('e, int) outcome) = Ok d'"
proof -
  let ?g = "gcd l d"
  let ?d1 = "d div ?g"
  let ?h = "gcd r ?d1"
  have g: "0 < ?g" using assms by simp
  have d1: "0 < ?d1" by (rule div_part [OF g assms(3)]) simp
  then have h: "0 < ?h" by simp
  have e: "l = ?g * (l div ?g)" "d = ?g * ?d1" "r = ?h * (r div ?h)" "?d1 = ?h * (?d1 div ?h)" by simp_all
  have nn: "0 \<le> l div ?g" "0 \<le> r div ?h" "0 < ?d1 div ?h"
    using pos_imp_zdiv_nonneg_iff [OF g, of l] pos_imp_zdiv_nonneg_iff [OF h, of r] div_part [OF h d1] assms(1,2)
    by simp_all
  have d: "i128_div l ?g = Ok (l div ?g)" "i128_div d ?g = Ok ?d1" "in_i128 ?d1" "i128_div r ?h = Ok (r div ?h)"
    using i128_div_mult [OF g nn(1)] i128_div_mult [OF g less_imp_le [OF d1]] i128_div_mult [OF h nn(2)] assms(4-6)
    unfolding e(1-3) [symmetric] by simp_all
  have d2: "i128_div ?d1 ?h = Ok (?d1 div ?h)"
    using i128_div_mult [OF h less_imp_le [OF nn(3)]] d(3) unfolding e(4) [symmetric] by simp
  show ?thesis
  proof (rule that [of ?g ?h "?d1 div ?h" "l div ?g" "r div ?h" ?d1])
    have "l * r = (?g * (l div ?g)) * (?h * (r div ?h))" by simp
    also have "\<dots> = (?g * ?h) * (l div ?g * (r div ?h))" by (simp only: ac_simps)
    finally show "l * r = (?g * ?h) * (l div ?g * (r div ?h))" .
    have "d = ?g * (?h * (?d1 div ?h))" by simp
    then show "d = ?g * ?h * (?d1 div ?h)" by (simp only: mult.assoc)
    show "?g = gcd_of l d" "?h = gcd_of r ?d1" using assms d1 by (simp_all add: gcd_of_gcd)
  qed (use g h nn d d2 in simp_all)
qed

lemma floor_eval:
  assumes "0 \<le> l" "0 \<le> r" "0 < d" "in_i128 l" "in_i128 r" "in_i128 d"
  shows "\<exists>v. mul_div l r d = (if in_i128 v then Ok (l * r div d) else Err overflow) \<and> l * r div d \<le> v \<and> v \<le> l * r"
proof -
  obtain g h l' r' d' d1 where p: "0 < g * h" "0 < d'" "0 \<le> l'" "0 \<le> r'"
    and e: "l * r = (g * h) * (l' * r')" "d = (g * h) * d'" "g = gcd_of l d" "h = gcd_of r d1"
    and q: "(i128_div l g :: ('e, int) outcome) = Ok l'" "(i128_div d g :: ('e, int) outcome) = Ok d1"
      "(i128_div r h :: ('e, int) outcome) = Ok r'" "(i128_div d1 h :: ('e, int) outcome) = Ok d'"
    by (rule reduction [OF assms])
  let ?n = "l' * r'"
  have n: "0 \<le> ?n" using p by simp
  have "l * r div d = ?n div d'" unfolding e(1,2) by (rule div_mult_mult1) (use p(1) in linarith)
  moreover have "mul_div l r d = (if in_i128 ?n then i128_div ?n d' else Err overflow)"
    using mul_div_reduces [OF assms(1-3), of l' d1 r' d'] q unfolding e(3) e(4) by blast
  ultimately have "mul_div l r d = (if in_i128 ?n then Ok (l * r div d) else Err overflow)"
    using i128_div_pos [of ?n d'] n p(2) by (simp add: sdiv_nonneg)
  moreover have "?n div d' \<le> ?n" using zdiv_mono2 [OF n, of 1 d'] p(2) by simp
  moreover have "?n \<le> l * r" unfolding e(1) by (rule grows [OF n p(1)])
  ultimately show ?thesis using \<open>l * r div d = ?n div d'\<close> by (intro exI [of _ ?n]) simp
qed

lemma floor_Ok:
  assumes "mul_div l r d = Ok q" "in_i128 l" "in_i128 r" "in_i128 d"
  shows "0 \<le> l" "0 \<le> r" "0 < d" "q = l * r div d" "0 \<le> q" "in_i128 q"
proof -
  have "\<not> (l < 0 \<or> r < 0 \<or> d \<le> 0)" using assms(1) mul_div_invalid [of l r d] by auto
  then show s: "0 \<le> l" "0 \<le> r" "0 < d" by auto
  then show "q = l * r div d"
    using floor_eval [OF s assms(2-4)] assms(1) by (auto split: if_splits)
  then show q: "0 \<le> q" using s by (simp add: pos_imp_zdiv_nonneg_iff)
  show "in_i128 q"
    using floor_eval [OF s assms(2-4)] assms(1) q in_i128_le by (auto split: if_splits)
qed

text \<open>When the exact product fits, the call succeeds.\<close>

lemma floor_fits:
  assumes "0 \<le> l" "0 \<le> r" "0 < d" "in_i128 l" "in_i128 r" "in_i128 d" "in_i128 (l * r)"
  shows "mul_div l r d = Ok (l * r div d)"
proof -
  obtain v where v: "mul_div l r d = (if in_i128 v then Ok (l * r div d) else Err overflow)" "l * r div d \<le> v" "v \<le> l * r"
    using floor_eval [OF assms(1-6)] by blast
  have "0 \<le> l * r div d" using assms(1-3) by (simp add: pos_imp_zdiv_nonneg_iff)
  then have "in_i128 v" using in_i128_le [OF assms(7), of v] v(2,3) by linarith
  then show ?thesis using v(1) by simp
qed

lemma never_floor:
  "in_i128 l \<Longrightarrow> in_i128 r \<Longrightarrow> in_i128 d \<Longrightarrow> never t (mul_div l r d)"
  using floor_eval [of l r d] mul_div_invalid [of l r d]
  by (cases "l < 0 \<or> r < 0 \<or> d \<le> 0") (auto simp: never_def not_less not_le split: if_splits)

end

end
