(* ===== verification/Market_Quotes_Correct.thy ===== *)
theory Market_Quotes_Correct
  imports Prediction_Market Reduced_Division
begin

text \<open>
  Correctness of the market maker's arithmetic: the reduced multiply-and-divide helpers are exact,
  a purchase or a sale at the quoted price never lowers the product of the reserves, the binary
  search for a sale finds the largest payout that passes the invariant test, and no quote panics.
\<close>

section \<open>Multiply and divide\<close>

interpretation market_division: reduced_division gcd_loop mul_div_floor InvalidAmount ArithmeticOverflow
  by unfold_locales (rule gcd_loop.simps, auto simp: mul_div_floor_def Let_def checked_mul_def simp del: i128_arith_Ok)

lemmas mul_div_floor_eval = market_division.floor_eval
lemmas mul_div_floor_Ok = market_division.floor_Ok
lemmas never_mul_div_floor [never_intros] = market_division.never_floor

lemma mul_div_ceil_eval:
  assumes "0 \<le> l" "0 \<le> r" "0 < d" "in_i128 l" "in_i128 r" "in_i128 d"
  shows "(\<exists>q. mul_div_ceil l r d = Ok q \<and> l * r \<le> q * d \<and> (q - 1) * d < l * r \<and> 0 \<le> q \<and> in_i128 q) \<or>
    mul_div_ceil l r d = Err ArithmeticOverflow"
proof -
  obtain g h l' r' d' d1 where p: "0 < g * h" "0 < d'" "0 \<le> l'" "0 \<le> r'"
    and e: "l * r = (g * h) * (l' * r')" "d = (g * h) * d'" "g = gcd_loop l d" "h = gcd_loop r d1"
    and q: "(i128_div l g :: (market_error, int) outcome) = Ok l'" "(i128_div d g :: (market_error, int) outcome) = Ok d1"
      "(i128_div r h :: (market_error, int) outcome) = Ok r'" "(i128_div d1 h :: (market_error, int) outcome) = Ok d'"
    by (rule market_division.reduction [OF assms])
  let ?n = "l' * r'"
  let ?f = "?n div d'"
  have n: "0 \<le> ?n" using p by simp
  have f: "0 \<le> ?f" using n p(2) by (simp add: pos_imp_zdiv_nonneg_iff)
  have scale: "l * r \<le> q * d \<longleftrightarrow> ?n \<le> q * d'" "(q - 1) * d < l * r \<longleftrightarrow> (q - 1) * d' < ?n" for q
  proof -
    have "q * d = (g * h) * (q * d')" "(q - 1) * d = (g * h) * ((q - 1) * d')" unfolding e(2) by (simp_all add: ac_simps)
    then show "l * r \<le> q * d \<longleftrightarrow> ?n \<le> q * d'" "(q - 1) * d < l * r \<longleftrightarrow> (q - 1) * d' < ?n"
      using p(1) unfolding e(1) by (simp_all only: mult_le_cancel_left_pos mult_less_cancel_left_pos)
  qed
  have run: "mul_div_ceil l r d =
      (if \<not> in_i128 ?n then Err ArithmeticOverflow else if ?n mod d' = 0 then Ok ?f else checked_add_r ?f 1)"
    unfolding mul_div_ceil_def Let_def e(3) [symmetric] q and_then_simps e(4) [symmetric]
    using assms(1-3) n p(2) i128_div_pos [of ?n d']
    by (simp add: q i128_div_def sdiv_nonneg smod_nonneg checked_mul_def)
  have m: "?n = ?f * d' + ?n mod d'" by simp
  have b: "0 \<le> ?n mod d'" "?n mod d' < d'" using p(2) by simp_all
  have up: "?n \<le> (?f + 1) * d'" and down: "(?f - 1) * d' < ?n"
    using m b unfolding distrib_right left_diff_distrib by linarith+
  have exact: "?n \<le> ?f * d'" if "?n mod d' = 0" using m that by linarith
  have less: "?f * d' < ?n" if "?n mod d' \<noteq> 0" using m b that by linarith
  show ?thesis
  proof (cases "in_i128 ?n")
    case True
    show ?thesis
    proof (cases "?n mod d' = 0")
      case z: True
      then show ?thesis using run True f down exact i128_div_pos [OF True n p(2)] by (simp add: scale)
    next
      case nz: False
      then show ?thesis
        using run True f up less by (cases "in_i128 (?f + 1)") (simp_all add: scale checked_add_r_def checked_add_def)
    qed
  qed (use run in simp)
qed

lemma mul_div_ceil_Ok:
  assumes "mul_div_ceil l r d = Ok q" "in_i128 l" "in_i128 r" "in_i128 d"
  shows "0 \<le> l" "0 \<le> r" "0 < d" "l * r \<le> q * d" "(q - 1) * d < l * r" "0 \<le> q" "in_i128 q"
proof -
  show s: "0 \<le> l" "0 \<le> r" "0 < d" using assms(1) by (auto simp: mul_div_ceil_def split: if_splits)
  show "l * r \<le> q * d" "(q - 1) * d < l * r" "0 \<le> q" "in_i128 q"
    using mul_div_ceil_eval [OF s assms(2-4)] assms(1) by auto
qed

lemma never_mul_div_ceil [never_intros]:
  "in_i128 l \<Longrightarrow> in_i128 r \<Longrightarrow> in_i128 d \<Longrightarrow> never t (mul_div_ceil l r d)"
  using mul_div_ceil_eval [of l r d]
  by (cases "l < 0 \<or> r < 0 \<or> d \<le> 0") (auto simp: mul_div_ceil_def never_def split: if_splits)

section \<open>The product of the reserves\<close>

text \<open>The product of the reserves other than \<open>out\<close>, the head of the list having index \<open>k\<close>.\<close>

fun others_prod :: "nat \<Rightarrow> nat \<Rightarrow> int list \<Rightarrow> int" where
  "others_prod out k [] = 1"
| "others_prod out k (r # rs) = (if k = out then 1 else r) * others_prod out (Suc k) rs"

lemma others_prod_skip: "out < k \<Longrightarrow> others_prod out k rs = prod_list rs"
  by (induction rs arbitrary: k) auto

lemma prod_split: "k \<le> out \<Longrightarrow> out < k + length rs \<Longrightarrow> prod_list rs = rs ! (out - k) * others_prod out k rs"
proof (induction rs arbitrary: k)
  case (Cons r rs)
  show ?case
  proof (cases "k = out")
    case True
    then show ?thesis by (simp add: others_prod_skip)
  next
    case False
    then have "prod_list rs = rs ! (out - Suc k) * others_prod out (Suc k) rs" using Cons by auto
    moreover have "(r # rs) ! (out - k) = rs ! (out - Suc k)" using False Cons.prems by (simp add: nth_Cons')
    ultimately show ?thesis using False by simp
  qed
qed simp

lemma others_prod_upd: "others_prod out k (rs[out - k := v]) = others_prod out k rs" if "k \<le> out"
  using that
proof (induction rs arbitrary: k)
  case (Cons r rs)
  show ?case
  proof (cases "k = out")
    case False
    then have "out - k = Suc (out - Suc k)" using Cons.prems by simp
    then have "(r # rs)[out - k := v] = r # rs[out - Suc k := v]" by simp
    then show ?thesis using Cons False by simp
  qed simp
qed simp

lemma others_prod_nonneg: "(\<And>r. r \<in> set rs \<Longrightarrow> 0 \<le> r) \<Longrightarrow> 0 \<le> others_prod out k rs"
  by (induction rs arbitrary: k) auto

lemma prod_list_upd:
  "out < length rs \<Longrightarrow> prod_list (rs[out := v]) = v * others_prod out 0 rs"
  using prod_split [of 0 out "rs[out := v]"] others_prod_upd [of 0 out rs v] by simp

lemma checked_r_simps [simp]:
  "checked_add_r a b = Ok c \<longleftrightarrow> c = a + b \<and> in_i128 (a + b)"
  "checked_sub_r a b = Ok c \<longleftrightarrow> c = a - b \<and> in_i128 (a - b)"
  by (auto simp: checked_add_r_def checked_sub_r_def)

lemma never_checked_r [never_intros]: "never t (checked_add_r a b)" "never t (checked_sub_r a b)"
  by (simp_all add: checked_add_r_def checked_sub_r_def never_def)

lemma add_to_all_Ok: "add_to_all x rs = Ok ts \<longleftrightarrow> ts = map (\<lambda>r. r + x) rs \<and> (\<forall>r\<in>set rs. in_i128 (r + x))"
  by (induction rs arbitrary: ts) auto

lemma sub_from_all_Ok: "sub_from_all x rs = Ok ts \<longleftrightarrow> ts = map (\<lambda>r. r - x) rs \<and> (\<forall>r\<in>set rs. in_i128 (r - x))"
  by (induction rs arbitrary: ts) auto

definition reserves_ok :: "int list \<Rightarrow> bool" where
  "reserves_ok rs \<longleftrightarrow> (\<forall>r\<in>set rs. 0 \<le> r \<and> in_i128 r)"

lemma reserves_ok_simps [simp]:
  "reserves_ok []" "reserves_ok (r # rs) \<longleftrightarrow> 0 \<le> r \<and> in_i128 r \<and> reserves_ok rs"
  by (auto simp: reserves_ok_def)

section \<open>Buying\<close>

lemma buy_loop_Ok:
  "buy_loop out x k rs e = Ok e' \<Longrightarrow> reserves_ok rs \<Longrightarrow> 0 < x \<Longrightarrow> 0 \<le> e \<Longrightarrow> in_i128 e \<Longrightarrow>
    e * others_prod out k rs \<le> e' * others_prod out k (map (\<lambda>r. r + x) rs) \<and> 0 \<le> e' \<and> e' \<le> e \<and> in_i128 e'"
proof (induction rs arbitrary: k e)
  case (Cons r rs)
  show ?case
  proof (cases "k = out")
    case True
    then show ?thesis using Cons by simp
  next
    case False
    let ?S = "others_prod out (Suc k) rs" and ?T = "others_prod out (Suc k) (map (\<lambda>r. r + x) rs)"
    obtain e1 where c: "mul_div_ceil e r (r + x) = Ok e1" and fit: "in_i128 (r + x)"
      and loop: "buy_loop out x (Suc k) rs e1 = Ok e'"
      using Cons.prems(1) False by auto
    have r: "0 \<le> r" "in_i128 r" "reserves_ok rs" using Cons.prems(2) by simp_all
    note m = mul_div_ceil_Ok [OF c Cons.prems(5) r(2) fit]
    have "(e1 - 1) * (r + x) < e * (r + x)"
      using m(5) mult_left_mono [of r "r + x" e] Cons.prems(3,4) by linarith
    then have le: "e1 \<le> e" using m(3) by (simp add: mult_less_cancel_right)
    have ih: "e1 * ?S \<le> e' * ?T" "0 \<le> e'" "e' \<le> e1" "in_i128 e'"
      using Cons.IH [OF loop r(3) Cons.prems(3) m(6,7)] by auto
    have S: "0 \<le> ?S" by (rule others_prod_nonneg) (use r(3) in \<open>simp add: reserves_ok_def\<close>)
    have "e * (r * ?S) \<le> e1 * (r + x) * ?S" using mult_right_mono [OF m(4) S] by (simp add: mult.assoc)
    also have "\<dots> = (e1 * ?S) * (r + x)" by (simp only: ac_simps)
    also have "\<dots> \<le> (e' * ?T) * (r + x)" using ih(1) m(3) by (intro mult_right_mono) simp_all
    also have "\<dots> = e' * ((r + x) * ?T)" by (simp only: ac_simps)
    finally show ?thesis using False ih le by simp
  qed
qed simp

lemma quote_buy_Ok:
  assumes q: "quote_buy_shares c out x = Ok n" and ok: "reserves_ok (pool_balances c)"
  shows "0 < x" "0 < n" "out < length (outcomes c)" "out < length (pool_balances c)"
    "n \<le> pool_balances c ! out + x" "x \<le> n"
    "prod_list (pool_balances c) \<le>
      prod_list ((map (\<lambda>r. r + x) (pool_balances c))[out := pool_balances c ! out + x - n])"
proof -
  let ?p = "pool_balances c"
  obtain e where g: "out < length (outcomes c)" "0 < x" "out < length ?p" "0 < ?p ! out"
    and b: "buy_loop out x 0 ?p (?p ! out) = Ok e" and n: "n = ?p ! out + x - e" "0 < n"
    using q by (auto simp: quote_buy_shares_def validate_outcome_def vec_get_def split: if_splits)
  have sel: "0 \<le> ?p ! out" "in_i128 (?p ! out)" using ok g(3) by (simp_all add: reserves_ok_def)
  note L = buy_loop_Ok [OF b ok g(2) sel]
  show "0 < x" "0 < n" "out < length (outcomes c)" "out < length ?p" using g n by simp_all
  show "n \<le> ?p ! out + x" "x \<le> n" using L n by simp_all
  have "prod_list ?p = ?p ! out * others_prod out 0 ?p" using prod_split [of 0 out ?p] g(3) by simp
  also have "\<dots> \<le> e * others_prod out 0 (map (\<lambda>r. r + x) ?p)" using L by simp
  also have "\<dots> = prod_list ((map (\<lambda>r. r + x) ?p)[out := ?p ! out + x - n])"
    using g(3) n by (simp add: prod_list_upd)
  finally show "prod_list ?p \<le> prod_list ((map (\<lambda>r. r + x) ?p)[out := ?p ! out + x - n])" .
qed

lemma never_buy_loop:
  "reserves_ok rs \<Longrightarrow> in_i128 e \<Longrightarrow> never t (buy_loop out x k rs e)"
proof (induction rs arbitrary: k e)
  case (Cons r rs)
  show ?case
    unfolding buy_loop.simps
    by (intro never_if never_and_then never_checked_r never_mul_div_ceil Cons.IH)
      (use Cons.prems mul_div_ceil_Ok(7) in \<open>auto\<close>)
qed (simp add: never_leaf)

lemma never_quote_buy:
  assumes "reserves_ok (pool_balances c)" shows "never t (quote_buy_shares c out x)"
proof -
  have sel: "in_i128 r" if "vec_get (pool_balances c) out = Some r" for r
    using assms that by (auto simp: reserves_ok_def vec_get_def split: if_splits)
  show ?thesis
    unfolding quote_buy_shares_def validate_outcome_def
    by (intro never_if never_and_then never_leaf never_ok_or never_checked_r never_buy_loop assms) (use sel in auto)
qed

section \<open>Selling\<close>

text \<open>The reserves after \<open>n\<close> shares have come in and \<open>x\<close> units of collateral have left.\<close>

fun after_sale :: "nat \<Rightarrow> int \<Rightarrow> int \<Rightarrow> nat \<Rightarrow> int list \<Rightarrow> int list" where
  "after_sale out n x k [] = []"
| "after_sale out n x k (r # rs) = ((if k = out then r + n else r) - x) # after_sale out n x (Suc k) rs"

lemma after_sale_past: "out < k \<Longrightarrow> after_sale out n x k rs = map (\<lambda>r. r - x) rs"
  by (induction rs arbitrary: k) auto

lemma after_sale_map:
  "k \<le> out \<Longrightarrow> after_sale out n x k rs = map (\<lambda>r. r - x) (rs[out - k := rs ! (out - k) + n])"
proof (induction rs arbitrary: k)
  case (Cons r rs)
  show ?case
  proof (cases "k = out")
    case True
    then show ?thesis by (simp add: after_sale_past)
  next
    case False
    then have e: "out - k = Suc (out - Suc k)" using Cons.prems by simp
    show ?thesis using Cons False unfolding e by simp
  qed
qed simp

lemma prod_list_positive: "(\<And>a. a \<in> set rs \<Longrightarrow> 0 < a) \<Longrightarrow> 0 < prod_list rs" for rs :: "int list"
  by (induction rs) auto

lemma ratio_loop_step:
  assumes "ratio_loop out n x k (r # rs) q = Ok b" "0 \<le> r" "in_i128 r" "in_i128 q"
  obtains a where "a = (if k = out then r + n else r)" "0 < r" "a - x \<le> 0" "\<not> b"
  | a q' where "a = (if k = out then r + n else r)" "0 < r" "0 < a - x" "q' = q * (a - x) div r" "0 \<le> q" "0 \<le> q'" "in_i128 q'"
      "ratio_loop out n x (Suc k) rs q' = Ok b"
proof -
  obtain a where a: "a = (if k = out then r + n else r)" "0 < r" "in_i128 (a - x)"
    and c: "(if a - x \<le> 0 then Ok False
        else and_then (mul_div_floor q (a - x) r) (ratio_loop out n x (Suc k) rs)) = (Ok b :: (market_error, bool) outcome)"
    using assms(1) by (auto split: if_splits)
  show ?thesis
  proof (cases "a - x \<le> 0")
    case True
    then show ?thesis using that(1) [of a] a c by auto
  next
    case False
    then obtain q' where q': "mul_div_floor q (a - x) r = Ok q'" "ratio_loop out n x (Suc k) rs q' = Ok b" using c by auto
    show ?thesis
      by (rule that(2) [OF a(1,2) _ _ _ _ _ q'(2)])
        (use False mul_div_floor_Ok [OF q'(1) assms(4) a(3) assms(3)] in simp_all)
  qed
qed

lemma ratio_loop_True:
  "ratio_loop out n x k rs q = Ok True \<Longrightarrow> reserves_ok rs \<Longrightarrow> in_i128 q \<Longrightarrow> 0 \<le> q \<Longrightarrow>
    RATIO_SCALE * prod_list rs \<le> q * prod_list (after_sale out n x k rs) \<and> (\<forall>a\<in>set (after_sale out n x k rs). 0 < a)"
proof (induction rs arbitrary: k q)
  case (Cons r rs)
  have r: "0 \<le> r" "in_i128 r" "reserves_ok rs" using Cons.prems(2) by simp_all
  show ?case
  proof (rule ratio_loop_step [OF Cons.prems(1) r(1,2) Cons.prems(3)])
    fix a q'
    assume a: "a = (if k = out then r + n else r)" "0 < r" "0 < a - x" "q' = q * (a - x) div r" "0 \<le> q" "0 \<le> q'" "in_i128 q'"
      and loop: "ratio_loop out n x (Suc k) rs q' = Ok True"
    let ?A = "prod_list (after_sale out n x (Suc k) rs)"
    have ih: "RATIO_SCALE * prod_list rs \<le> q' * ?A" "\<forall>a\<in>set (after_sale out n x (Suc k) rs). 0 < a"
      using Cons.IH [OF loop r(3) a(7,6)] by auto
    have A: "0 \<le> ?A" by (rule less_imp_le, rule prod_list_positive) (use ih(2) in blast)
    have q: "q' * r \<le> q * (a - x)" unfolding a(4) using a(2) by (simp add: div_mult_le)
    have "RATIO_SCALE * (r * prod_list rs) = r * (RATIO_SCALE * prod_list rs)" by (simp only: ac_simps)
    also have "\<dots> \<le> r * (q' * ?A)" using ih(1) a(2) by (intro mult_left_mono) simp_all
    also have "\<dots> = (q' * r) * ?A" by (simp only: ac_simps)
    also have "\<dots> \<le> (q * (a - x)) * ?A" using q A by (rule mult_right_mono)
    also have "\<dots> = q * ((a - x) * ?A)" by (simp only: ac_simps)
    finally show ?thesis using ih(2) a(1,3) by simp
  qed simp
qed simp

text \<open>A smaller payout passes the test whenever a larger one does.\<close>

lemma ratio_loop_mono:
  "ratio_loop out n y k rs q = Ok True \<Longrightarrow> reserves_ok rs \<Longrightarrow> in_i128 q \<Longrightarrow> in_i128 p \<Longrightarrow> x \<le> y \<Longrightarrow> q \<le> p \<Longrightarrow>
    ratio_loop out n x k rs p \<noteq> Ok False"
proof (induction rs arbitrary: k q p)
  case (Cons r rs)
  have r: "0 \<le> r" "in_i128 r" "reserves_ok rs" using Cons.prems(2) by simp_all
  show ?case
  proof
    assume f: "ratio_loop out n x k (r # rs) p = Ok False"
    show False
    proof (rule ratio_loop_step [OF Cons.prems(1) r(1,2) Cons.prems(3)])
      fix a q'
      assume a: "a = (if k = out then r + n else r)" "0 < r" "0 < a - y" "q' = q * (a - y) div r" "0 \<le> q" "0 \<le> q'" "in_i128 q'"
        and loop: "ratio_loop out n y (Suc k) rs q' = Ok True"
      show False
      proof (rule ratio_loop_step [OF f r(1,2) Cons.prems(4)])
        fix b assume "b = (if k = out then r + n else r)" "b - x \<le> 0"
        then show False using a(1,3) Cons.prems(5) by simp
      next
        fix b p'
        assume b: "b = (if k = out then r + n else r)" "p' = p * (b - x) div r" "in_i128 p'"
          and loop': "ratio_loop out n x (Suc k) rs p' = Ok False"
        have "q * (a - y) \<le> p * (b - x)" using Cons.prems(5,6) a b(1) by (intro mult_mono) simp_all
        then have "q' \<le> p'" unfolding a(4) b(2) using a(2) by (intro zdiv_mono1)
        then show False using Cons.IH [OF loop r(3) a(7) b(3) Cons.prems(5)] loop' by blast
      qed
    qed simp
  qed
qed (simp add: RATIO_SCALE_def)

lemma never_ratio_loop: "reserves_ok rs \<Longrightarrow> in_i128 q \<Longrightarrow> never t (ratio_loop out n x k rs q)"
proof (induction rs arbitrary: k q)
  case (Cons r rs)
  show ?case
    unfolding ratio_loop.simps
    by (intro never_if never_and_then never_leaf never_checked_r never_mul_div_floor Cons.IH)
      (use Cons.prems mul_div_floor_Ok(6) in \<open>auto\<close>)
qed (simp add: never_leaf)

lemma ratio_scale_range: "in_i128 RATIO_SCALE" "0 \<le> RATIO_SCALE"
  by (simp_all add: RATIO_SCALE_def in_i128_def i128_max_def i128_min_def)

lemma extract_loop_Ok:
  "extract_loop out n k rs m = Ok m' \<Longrightarrow> reserves_ok rs \<Longrightarrow> in_i128 m \<Longrightarrow>
    m' \<le> m \<and> in_i128 m' \<and> (0 < m \<longrightarrow> 0 < m') \<and> (\<forall>y>m'. m < y \<or> (\<exists>a\<in>set (after_sale out n y k rs). a \<le> 0))"
proof (induction rs arbitrary: k m)
  case (Cons r rs)
  obtain a where a: "a = (if k = out then r + n else r)" "1 < a" "in_i128 (a - 1)"
    and loop: "extract_loop out n (Suc k) rs (if a - 1 < m then a - 1 else m) = Ok m'"
    using Cons.prems(1) by (auto split: if_splits)
  have "reserves_ok rs" "in_i128 (if a - 1 < m then a - 1 else m)" using Cons.prems a by simp_all
  note ih = Cons.IH [OF loop this]
  show ?case using ih a by (fastforce split: if_splits)
qed simp

text \<open>The binary search: everything above the answer fails the test, the answer passes it.\<close>

abbreviation passes :: "ConditionalMarket \<Rightarrow> nat \<Rightarrow> int \<Rightarrow> int \<Rightarrow> bool" where
  "passes c out n x \<equiv> sell_invariant_holds c out n x = Ok True"

lemma passes_mono:
  assumes "passes c out n y" "x \<le> y" "reserves_ok (pool_balances c)"
  shows "sell_invariant_holds c out n x \<noteq> Ok False"
  using assms(1) ratio_loop_mono [OF _ assms(3) ratio_scale_range(1) ratio_scale_range(1) assms(2)]
  unfolding sell_invariant_holds_def by blast

lemma search_loop_Ok:
  "reserves_ok (pool_balances c) \<Longrightarrow> search_loop c out n low high best = Ok b \<Longrightarrow> best = low - 1 \<Longrightarrow> (0 < best \<longrightarrow> passes c out n best) \<Longrightarrow>
    (\<forall>y. high < y \<and> y \<le> hi \<longrightarrow> \<not> passes c out n y) \<Longrightarrow>
    (0 < b \<longrightarrow> passes c out n b) \<and> (\<forall>y. b < y \<and> y \<le> hi \<longrightarrow> \<not> passes c out n y)"
proof (induction c out n low high best rule: search_loop.induct)
  case (1 c out n low high best)
  show ?case
  proof (cases "low \<le> high")
    case False
    then have "b = best" using 1(4) by (subst (asm) search_loop.simps) simp
    then show ?thesis using 1(5,6,7) False by auto
  next
    case True
    let ?mid = "low + (high - low) sdiv 2"
    obtain v where arith: "i128_sub high low = (Ok (high - low) :: (market_error, int) outcome)"
        "i128_div (high - low) 2 = (Ok ((high - low) sdiv 2) :: (market_error, int) outcome)"
        "i128_add low ((high - low) sdiv 2) = (Ok ?mid :: (market_error, int) outcome)"
      and v: "sell_invariant_holds c out n ?mid = Ok v"
      and rest: "(if v then and_then (i128_add ?mid 1) (\<lambda>low'. search_loop c out n low' high ?mid)
        else and_then (i128_sub ?mid 1) (\<lambda>high'. search_loop c out n low high' best)) = Ok b"
      using 1(4) True by (subst (asm) search_loop.simps) auto
    show ?thesis
    proof (cases v)
      case True
      then have "i128_add ?mid 1 = (Ok (?mid + 1) :: (market_error, int) outcome)"
        and "search_loop c out n (?mid + 1) high ?mid = Ok b" using rest by auto
      then show ?thesis
        using 1(1) [OF _ arith v True, of "?mid + 1"] 1(3,7) v True \<open>low \<le> high\<close> by simp
    next
      case False
      then have s: "i128_sub ?mid 1 = (Ok (?mid - 1) :: (market_error, int) outcome)"
        and r: "search_loop c out n low (?mid - 1) best = Ok b" using rest by auto
      have "\<not> passes c out n y" if "?mid - 1 < y" for y
        using passes_mono [of c out n y ?mid] v False that 1(3) by auto
      then show ?thesis
        using 1(2) [OF _ arith v False s 1(3) r 1(5,6)] \<open>low \<le> high\<close> by blast
    qed
  qed
qed

lemma never_search_loop:
  "reserves_ok (pool_balances c) \<Longrightarrow> 0 < low \<Longrightarrow> in_i128 (high + 1) \<Longrightarrow> never t (search_loop c out n low high best)"
proof (induction c out n low high best rule: search_loop.induct)
  case (1 c out n low high best)
  show ?case
  proof (cases "low \<le> high")
    case False
    then show ?thesis by (subst search_loop.simps) (simp add: never_leaf)
  next
    case True
    let ?half = "(high - low) sdiv 2"
    let ?mid = "low + ?half"
    have h: "0 \<le> ?half" "?half \<le> high - low" using half_bounds [of "high - low"] True by simp_all
    have fit: "in_i128 (high - low)" "in_i128 ?half" "in_i128 ?mid" "in_i128 (?mid + 1)" "in_i128 (?mid - 1)"
      by (rule in_i128_le [OF 1(5)], use 1(4) True h in linarith, use 1(4) True h in linarith)+
    have arith: "i128_sub high low = (Ok (high - low) :: (market_error, int) outcome)"
        "i128_div (high - low) 2 = (Ok ?half :: (market_error, int) outcome)"
        "i128_add low ?half = (Ok ?mid :: (market_error, int) outcome)"
        "i128_add ?mid 1 = (Ok (?mid + 1) :: (market_error, int) outcome)"
        "i128_sub ?mid 1 = (Ok (?mid - 1) :: (market_error, int) outcome)"
      using fit by simp_all
    have inv: "never t (sell_invariant_holds c out n ?mid)"
      unfolding sell_invariant_holds_def by (rule never_ratio_loop [OF 1(3) ratio_scale_range(1)])
    have up: "never t (search_loop c out n (?mid + 1) high ?mid)" if "sell_invariant_holds c out n ?mid = Ok True"
      by (rule 1(1) [OF _ arith(1-3) that _ arith(4)]) (use True 1(3-5) h in simp_all)
    have down: "never t (search_loop c out n low (?mid - 1) best)" if "sell_invariant_holds c out n ?mid = Ok False"
      by (rule 1(2) [OF _ arith(1-3) that _ arith(5)]) (use True 1(3-5) fit(3) in simp_all)
    have "search_loop c out n low high best = and_then (sell_invariant_holds c out n ?mid)
        (\<lambda>holds. if holds then search_loop c out n (?mid + 1) high ?mid else search_loop c out n low (?mid - 1) best)"
      by (subst search_loop.simps) (simp only: True arith and_then_simps simp_thms if_False)
    then show ?thesis using up down by (auto intro!: never_and_then [OF inv] never_if)
  qed
qed

lemma extract_below:
  assumes "extract_loop out n k rs m = Ok m'" "rs \<noteq> []" "in_i128 m" "reserves_ok rs"
  shows "in_i128 (m' + 1)"
proof -
  obtain r rs' where rs: "rs = r # rs'" using assms(2) by (cases rs) auto
  obtain a where a: "1 < a" "in_i128 a" and loop: "extract_loop out n (Suc k) rs' (if a - 1 < m then a - 1 else m) = Ok m'"
    by (rule that [of "if k = out then r + n else r"]) (use assms in \<open>auto simp: rs split: if_splits\<close>)
  have fit: "in_i128 (a - 1)" by (rule in_i128_le [OF a(2)]) (use a(1) in simp_all)
  have "in_i128 (if a - 1 < m then a - 1 else m)" "reserves_ok rs'" using fit assms(3,4) by (simp_all add: rs)
  then have "m' \<le> a - 1 \<and> in_i128 m'"
    using extract_loop_Ok [OF loop] by (auto split: if_splits)
  then show ?thesis using a(2) by (auto simp: in_i128_def)
qed

lemma never_extract_loop: "reserves_ok rs \<Longrightarrow> never t (extract_loop out n k rs m)"
  by (induction rs arbitrary: k m) (auto intro!: never_intros simp: checked_add_r_def checked_sub_r_def split: if_splits)

lemma quote_sell_Ok:
  assumes q: "quote_sell_shares c out n = Ok x" and ok: "reserves_ok (pool_balances c)"
    and len: "length (pool_balances c) = length (outcomes c)"
  defines "sold \<equiv> map (\<lambda>r. r - x) ((pool_balances c)[out := pool_balances c ! out + n])"
  shows "0 < n" "0 < x" "out < length (pool_balances c)" "passes c out n x"
    "prod_list (pool_balances c) \<le> prod_list sold" "\<And>r. r \<in> set sold \<Longrightarrow> 0 < r"
    "\<And>y. x < y \<Longrightarrow> in_i128 y \<Longrightarrow> \<not> passes c out n y"
proof -
  let ?p = "pool_balances c"
  obtain m where g: "out < length ?p" "0 < n" "0 < m" "0 < x"
    and e: "extract_loop out n 0 ?p i128_max = Ok m" and s: "search_loop c out n 1 m 0 = Ok x"
    using q len by (auto simp: quote_sell_shares_def validate_outcome_def split: if_splits)
  have top: "in_i128 i128_max" by (simp add: in_i128_def i128_max_def i128_min_def)
  note E = extract_loop_Ok [OF e ok top]
  have above: "\<not> passes c out n y" if "m < y" "y \<le> i128_max" for y
  proof
    assume "passes c out n y"
    then have "\<forall>a\<in>set (after_sale out n y 0 ?p). 0 < a"
      unfolding sell_invariant_holds_def using ratio_loop_True [OF _ ok ratio_scale_range] by blast
    then show False using E that by force
  qed
  have S: "0 < x \<longrightarrow> passes c out n x" "\<forall>y. x < y \<and> y \<le> i128_max \<longrightarrow> \<not> passes c out n y"
    using search_loop_Ok [OF ok s, of i128_max] above by auto
  show "0 < n" "0 < x" "out < length ?p" using g by simp_all
  show p: "passes c out n x" using S(1) g(4) by blast
  show "\<not> passes c out n y" if "x < y" "in_i128 y" for y using S(2) that by (simp add: in_i128_def)
  have sold: "after_sale out n x 0 ?p = sold" using after_sale_map [of 0 out n x ?p] by (simp add: sold_def)
  have R: "RATIO_SCALE * prod_list ?p \<le> RATIO_SCALE * prod_list sold" "\<forall>a\<in>set sold. 0 < a"
    using ratio_loop_True [OF p [unfolded sell_invariant_holds_def] ok ratio_scale_range] unfolding sold by auto
  show "prod_list ?p \<le> prod_list sold" using R(1) by (simp add: RATIO_SCALE_def)
  show "0 < r" if "r \<in> set sold" for r using R(2) that by blast
qed

lemma never_quote_sell:
  assumes ok: "reserves_ok (pool_balances c)" and len: "length (pool_balances c) = length (outcomes c)"
  shows "never t (quote_sell_shares c out n)"
proof -
  have top: "in_i128 i128_max" by (simp add: in_i128_def i128_max_def i128_min_def)
  have s: "never t (search_loop c out n 1 m 0)"
    if "extract_loop out n 0 (pool_balances c) i128_max = Ok m" "out < length (outcomes c)" for m
    by (rule never_search_loop [OF ok _ extract_below [OF that(1) _ top ok]]) (use that(2) len in auto)
  show ?thesis
    unfolding quote_sell_shares_def validate_outcome_def
    by (intro never_if never_and_then never_leaf never_extract_loop ok) (use s in \<open>auto split: if_splits intro: never_leaf\<close>)
qed

end
