(* ===== verification/Market_Books_Correct.thy ===== *)
theory Market_Books_Correct
  imports Token_Correct Market_Quotes_Correct
begin

text \<open>
  The books of the prediction markets: in every market each outcome's shares, in the pool and with
  the holders, add up to the collateral locked, liquidity shares add up to their total, and the
  contract's balance in every token covers all collateral and all open dispute bonds.
\<close>

section \<open>Sums\<close>

definition held_shares :: "market_state \<Rightarrow> nat \<Rightarrow> nat \<Rightarrow> int" where
  "held_shares s i out = total_bal (\<lambda>a. OutcomeBalances s (i, a, out))"

definition lp_total :: "market_state \<Rightarrow> nat \<Rightarrow> int" where
  "lp_total s i = total_bal (\<lambda>a. LiquidityBalances s (i, a))"

text \<open>The bond at stake in an open market, and what a market owes in a token.\<close>

definition open_bond :: "market_state \<Rightarrow> nat \<Rightarrow> int" where
  "open_bond s i =
     (case (Markets s i, Resolutions s i) of
        (Some m, Some p) \<Rightarrow> if market_status m = Open then dispute_bond p else 0 | _ \<Rightarrow> 0)"

definition due :: "address \<Rightarrow> market_state \<Rightarrow> nat \<Rightarrow> int option" where
  "due tok s i = map_option (\<lambda>c. if collateral_token c = tok then collateral_locked c + open_bond s i else 0)
     (ConditionalMarkets s i)"

definition liability :: "address \<Rightarrow> market_state \<Rightarrow> int" where
  "liability tok s = total_bal (due tok s)"

section \<open>The invariant\<close>

definition amount_ok :: "int \<Rightarrow> bool" where
  "amount_ok x \<longleftrightarrow> 0 \<le> x \<and> in_i128 x"

definition pool_ok :: "market_state \<Rightarrow> nat \<Rightarrow> ConditionalMarket \<Rightarrow> Market \<Rightarrow> bool" where
  "pool_ok s i c m \<longleftrightarrow>
     cm_market_id c = i \<and> length (pool_balances c) = length (outcomes c) \<and> outcomes c \<noteq> [] \<and>
     reserves_ok (pool_balances c) \<and> amount_ok (total_liquidity_shares c) \<and> amount_ok (collateral_locked c) \<and>
     total_liquidity_shares c = lp_total s i \<and>
     (\<forall>out<length (outcomes c). winning_outcome m = None \<or> winning_outcome m = Some out \<longrightarrow>
        pool_balances c ! out + held_shares s i out = collateral_locked c) \<and>
     (\<forall>out. winning_outcome m = Some out \<longrightarrow> out < length (outcomes c)) \<and>
     market_status m = (if winning_outcome m = None then Open else Resolved)"

definition market_ok :: "market_state \<Rightarrow> nat \<Rightarrow> bool" where
  "market_ok s i \<longleftrightarrow>
     (\<forall>m. Markets s i = Some m \<longrightarrow> market_id m = i \<and> 1 \<le> i \<and> i \<le> get_market_count s) \<and>
     (\<forall>a out x. OutcomeBalances s (i, a, out) = Some x \<longrightarrow> amount_ok x \<and> ConditionalMarkets s i \<noteq> None) \<and>
     (\<forall>a x. LiquidityBalances s (i, a) = Some x \<longrightarrow> amount_ok x \<and> ConditionalMarkets s i \<noteq> None) \<and>
     (\<forall>p. Resolutions s i = Some p \<longrightarrow> (\<exists>c. ConditionalMarkets s i = Some c \<and>
        proposed_outcome p < length (outcomes c)) \<and> 0 \<le> dispute_bond p \<and>
        (disputer p = None \<longleftrightarrow> dispute_bond p = 0)) \<and>
     (\<forall>c. ConditionalMarkets s i = Some c \<longrightarrow> (\<exists>m. Markets s i = Some m \<and> pool_ok s i c m))"

definition books_ok :: "market_state \<Rightarrow> bool" where
  "books_ok s \<longleftrightarrow>
     finite (dom (OutcomeBalances s)) \<and> finite (dom (LiquidityBalances s)) \<and> finite (dom (ConditionalMarkets s)) \<and>
     (\<forall>i. market_ok s i)"

lemma books_okD:
  assumes "books_ok s"
  shows "finite (dom (OutcomeBalances s))" "finite (dom (LiquidityBalances s))" "finite (dom (ConditionalMarkets s))"
    "market_ok s i"
  using assms by (simp_all add: books_ok_def)

lemma market_okD:
  assumes "books_ok s"
  shows "Markets s i = Some m \<Longrightarrow> market_id m = i \<and> 1 \<le> i \<and> i \<le> get_market_count s"
    "OutcomeBalances s (i, a, out) = Some x \<Longrightarrow> amount_ok x \<and> ConditionalMarkets s i \<noteq> None"
    "LiquidityBalances s (i, a) = Some x \<Longrightarrow> amount_ok x \<and> ConditionalMarkets s i \<noteq> None"
    "Resolutions s i = Some p \<Longrightarrow> (\<exists>c. ConditionalMarkets s i = Some c \<and> proposed_outcome p < length (outcomes c)) \<and>
      0 \<le> dispute_bond p \<and> (disputer p = None \<longleftrightarrow> dispute_bond p = 0)"
    "ConditionalMarkets s i = Some c \<Longrightarrow> \<exists>m. Markets s i = Some m \<and> pool_ok s i c m"
  using books_okD(4) [OF assms, of i] unfolding market_ok_def by blast+

section \<open>Locality\<close>

text \<open>What two states have in common at a market, which is all that its part of the books reads.\<close>

definition same_at :: "nat \<Rightarrow> market_state \<Rightarrow> market_state \<Rightarrow> bool" where
  "same_at j s t \<longleftrightarrow>
     Markets t j = Markets s j \<and> ConditionalMarkets t j = ConditionalMarkets s j \<and> Resolutions t j = Resolutions s j \<and>
     (\<forall>a out. OutcomeBalances t (j, a, out) = OutcomeBalances s (j, a, out)) \<and>
     (\<forall>a. LiquidityBalances t (j, a) = LiquidityBalances s (j, a))"

lemma same_atD:
  assumes "same_at j s t"
  shows "Markets t j = Markets s j" "ConditionalMarkets t j = ConditionalMarkets s j"
    "Resolutions t j = Resolutions s j" "OutcomeBalances t (j, a, out) = OutcomeBalances s (j, a, out)"
    "LiquidityBalances t (j, a) = LiquidityBalances s (j, a)" "open_bond t j = open_bond s j"
  using assms by (simp_all add: same_at_def open_bond_def)

lemma same_at_ok:
  assumes "same_at j s t" "get_market_count s \<le> get_market_count t" "market_ok s j"
  shows "market_ok t j"
proof -
  have h: "held_shares t j out = held_shares s j out" "lp_total t j = lp_total s j" for out
    using assms(1) by (simp_all add: held_shares_def lp_total_def same_at_def)
  have p: "pool_ok t j c m = pool_ok s j c m" for c m by (simp add: pool_ok_def h)
  have "\<forall>m. Markets s j = Some m \<longrightarrow> market_id m = j \<and> 1 \<le> j \<and> j \<le> get_market_count t"
    using assms(2,3) unfolding market_ok_def by (meson order_trans)
  then show ?thesis
    using assms(3) unfolding market_ok_def same_atD [OF assms(1)] p by blast
qed

lemma same_at_due: "same_at j s t \<Longrightarrow> due tok t j = due tok s j"
  unfolding due_def by (simp only: same_atD)

lemma liability_local:
  assumes fin: "finite (dom (ConditionalMarkets s))" and same: "\<And>j. j \<noteq> i \<Longrightarrow> same_at j s t"
  shows "liability tok t = liability tok s - unwrap_or 0 (due tok s i) + unwrap_or 0 (due tok t i)"
proof -
  have eq: "due tok t = (due tok s)(i := due tok t i)" by (rule ext) (simp add: same_at_due [OF same])
  have fin': "finite (dom (due tok s))" by (rule finite_subset [OF _ fin]) (auto simp: due_def)
  show ?thesis
    unfolding liability_def using total_bal_upd [OF fin', of i] total_bal_del [OF fin', of i]
    by (subst eq) (cases "due tok t i"; simp add: bal_def del: fun_upd_apply)
qed

lemma books_local:
  assumes ok: "books_ok s" and same: "\<And>j. j \<noteq> i \<Longrightarrow> same_at j s t" and n: "get_market_count s \<le> get_market_count t"
    and fin: "finite (dom (OutcomeBalances t))" "finite (dom (LiquidityBalances t))" "finite (dom (ConditionalMarkets t))"
    and i: "market_ok t i"
  shows "books_ok t"
proof -
  have "market_ok t j" for j
    using same_at_ok [OF same n books_okD(4) [OF ok]] i by (cases "j = i") auto
  then show ?thesis using fin by (simp add: books_ok_def)
qed

section \<open>Moving shares of one holder\<close>

text \<open>\<open>u\<close> is \<open>s\<close> with \<open>f out\<close> more shares of each outcome for holder \<open>a\<close> in market \<open>i\<close>.\<close>

definition shifts :: "nat \<Rightarrow> address \<Rightarrow> (nat \<Rightarrow> int) \<Rightarrow> market_state \<Rightarrow> market_state \<Rightarrow> bool" where
  "shifts i a f s u \<longleftrightarrow>
     u = s\<lparr>OutcomeBalances := OutcomeBalances u\<rparr> \<and> finite (dom (OutcomeBalances u)) \<and>
     (\<forall>out. held_shares u i out = held_shares s i out + f out) \<and>
     (\<forall>out. get_outcome_balance u i a out = get_outcome_balance s i a out + f out) \<and>
     (\<forall>j b out. (j, b) \<noteq> (i, a) \<longrightarrow> OutcomeBalances u (j, b, out) = OutcomeBalances s (j, b, out)) \<and>
     (\<forall>out x. OutcomeBalances u (i, a, out) = Some x \<longrightarrow> amount_ok x)"

lemma shiftsD:
  assumes "shifts i a f s u"
  shows "Admin u = Admin s" "MarketCount u = MarketCount s" "Markets u = Markets s" "Bets u = Bets s"
    "ConditionalMarkets u = ConditionalMarkets s" "LiquidityBalances u = LiquidityBalances s"
    "Resolutions u = Resolutions s"
proof -
  have u: "u = s\<lparr>OutcomeBalances := OutcomeBalances u\<rparr>" using assms unfolding shifts_def by blast
  show "Admin u = Admin s" "MarketCount u = MarketCount s" "Markets u = Markets s" "Bets u = Bets s"
    "ConditionalMarkets u = ConditionalMarkets s" "LiquidityBalances u = LiquidityBalances s"
    "Resolutions u = Resolutions s"
    by (subst u, simp)+
qed

lemma shifts_none:
  assumes "books_ok s" shows "shifts i a (\<lambda>_. 0) s s"
  using assms market_okD(2) [OF assms, of i a] unfolding shifts_def by (auto simp: books_okD)

lemma bal_outcome: "bal (\<lambda>b. OutcomeBalances s (i, b, out)) a = get_outcome_balance s i a out"
  by (simp add: bal_def get_outcome_balance_def)

lemma shifts_set:
  assumes sh: "shifts i a f s u" and x: "amount_ok x"
  shows "shifts i a (\<lambda>o'. f o' + (if o' = out then x - get_outcome_balance u i a out else 0)) s
    (set_outcome_balance i a out x u)"
proof -
  let ?t = "set_outcome_balance i a out x u"
  have u: "u = s\<lparr>OutcomeBalances := OutcomeBalances u\<rparr>" and fin: "finite (dom (OutcomeBalances u))"
    and h: "held_shares u i o' = held_shares s i o' + f o'" and b: "get_outcome_balance u i a o' = get_outcome_balance s i a o' + f o'"
    and other: "\<forall>j b out. (j, b) \<noteq> (i, a) \<longrightarrow> OutcomeBalances u (j, b, out) = OutcomeBalances s (j, b, out)"
    and own: "\<forall>out x. OutcomeBalances u (i, a, out) = Some x \<longrightarrow> amount_ok x" for o'
    using sh unfolding shifts_def by blast+
  have t: "OutcomeBalances ?t = (OutcomeBalances u)((i, a, out) \<mapsto> x)" by (simp add: set_outcome_balance_def)
  have fd: "finite (dom (\<lambda>b. OutcomeBalances u (i, b, out)))"
    by (rule finite_subset [OF _ finite_imageI [OF fin, of "\<lambda>k. fst (snd k)"]]) force
  have "(\<lambda>b. OutcomeBalances ?t (i, b, out)) = (\<lambda>b. OutcomeBalances u (i, b, out))(a \<mapsto> x)" by (auto simp: t)
  then have "held_shares ?t i out = held_shares u i out - get_outcome_balance u i a out + x"
    unfolding held_shares_def using total_bal_upd [OF fd] by (simp add: bal_outcome)
  moreover have "held_shares ?t i o' = held_shares u i o'" if "o' \<noteq> out" for o'
    using that by (simp add: held_shares_def t)
  ultimately have "held_shares ?t i o' = held_shares s i o' + (f o' + (if o' = out then x - get_outcome_balance u i a out else 0))" for o'
    using h by simp
  moreover have "get_outcome_balance ?t i a o' = get_outcome_balance s i a o' + (f o' + (if o' = out then x - get_outcome_balance u i a out else 0))" for o'
    using b [of o'] b [of out] by (auto simp: get_outcome_balance_def t)
  moreover have "?t = s\<lparr>OutcomeBalances := OutcomeBalances ?t\<rparr>" by (subst u) (simp add: set_outcome_balance_def)
  ultimately show ?thesis
    unfolding shifts_def using fin other own x by (auto simp: t)
qed

lemma shifts_cong: "shifts i a f s u \<Longrightarrow> (\<And>out. f out = g out) \<Longrightarrow> shifts i a g s u"
  using ext [of f g] by simp

lemma credit_loop_shifts:
  "credit_loop i a x outs u = Ok t \<Longrightarrow> shifts i a f s u \<Longrightarrow> distinct outs \<Longrightarrow> 0 \<le> x \<Longrightarrow>
    (\<And>out. 0 \<le> get_outcome_balance u i a out) \<Longrightarrow> shifts i a (\<lambda>out. f out + (if out \<in> set outs then x else 0)) s t"
proof (induction outs arbitrary: u f)
  case (Cons out outs)
  let ?x = "get_outcome_balance u i a out + x" and ?u = "set_outcome_balance i a out (get_outcome_balance u i a out + x) u"
  have fit: "in_i128 ?x" and loop: "credit_loop i a x outs ?u = Ok t" using Cons.prems(1) by auto
  have sh: "shifts i a (\<lambda>o'. f o' + (if o' = out then ?x - get_outcome_balance u i a out else 0)) s ?u"
    by (rule shifts_set [OF Cons.prems(2)]) (use fit Cons.prems(4,5) in \<open>simp add: amount_ok_def\<close>)
  have nn: "0 \<le> get_outcome_balance ?u i a o'" for o'
    using Cons.prems(4) Cons.prems(5) [of o'] Cons.prems(5) [of out]
    by (auto simp: get_outcome_balance_def set_outcome_balance_def)
  show ?case
    by (rule shifts_cong [OF Cons.IH [OF loop sh _ Cons.prems(4) nn]]) (use Cons.prems(3) in auto)
qed simp

lemma debit_loop_shifts:
  "debit_loop i a x outs u = Ok t \<Longrightarrow> holds_loop i a x outs u = Ok () \<Longrightarrow> shifts i a f s u \<Longrightarrow> distinct outs \<Longrightarrow>
    shifts i a (\<lambda>out. f out - (if out \<in> set outs then x else 0)) s t"
proof (induction outs arbitrary: u f)
  case (Cons out outs)
  let ?x = "get_outcome_balance u i a out - x" and ?u = "set_outcome_balance i a out (get_outcome_balance u i a out - x) u"
  have fit: "in_i128 ?x" "x \<le> get_outcome_balance u i a out" and loop: "debit_loop i a x outs ?u = Ok t"
    and h: "holds_loop i a x outs u = Ok ()"
    using Cons.prems(1,2) by (auto split: if_splits)
  have "get_outcome_balance ?u i a o' = get_outcome_balance u i a o'" if "o' \<in> set outs" for o'
    using that Cons.prems(4) by (auto simp: get_outcome_balance_def set_outcome_balance_def)
  then have h': "holds_loop i a x outs ?u = Ok ()"
    using h by (induction outs) (auto split: if_splits)
  have sh: "shifts i a (\<lambda>o'. f o' + (if o' = out then ?x - get_outcome_balance u i a out else 0)) s ?u"
    by (rule shifts_set [OF Cons.prems(3)]) (use fit in \<open>simp add: amount_ok_def\<close>)
  show ?case
    by (rule shifts_cong [OF Cons.IH [OF loop h' sh]]) (use Cons.prems(4) in auto)
qed simp

section \<open>A change of one market\<close>

lemma market_held_nonneg: "books_ok s \<Longrightarrow> 0 \<le> held_shares s i out"
  unfolding held_shares_def
  by (rule total_bal_nonneg) (use market_okD(2) in \<open>auto simp: bal_def unwrap_or_def amount_ok_def split: option.splits\<close>)

lemma outcome_balance_ok: "books_ok s \<Longrightarrow> amount_ok (get_outcome_balance s i a out)"
  using market_okD(2) [of s i a out] by (cases "OutcomeBalances s (i, a, out)") (simp_all add: get_outcome_balance_def amount_ok_def)

lemma liquidity_balance_ok: "books_ok s \<Longrightarrow> amount_ok (get_liquidity_balance s i a)"
  using market_okD(3) [of s i a] by (cases "LiquidityBalances s (i, a)") (simp_all add: get_liquidity_balance_def amount_ok_def)

lemma lp_bal: "bal (\<lambda>b. LiquidityBalances s (i, b)) a = get_liquidity_balance s i a"
  by (simp add: bal_def get_liquidity_balance_def)

lemma finite_lp: "books_ok s \<Longrightarrow> finite (dom (\<lambda>b. LiquidityBalances s (i, b)))"
  by (rule finite_subset [OF _ finite_imageI [OF books_okD(2), of s snd]]) force+

lemma lp_nonneg: "books_ok s \<Longrightarrow> 0 \<le> lp_total s i"
  unfolding lp_total_def by (rule total_bal_nonneg) (use liquidity_balance_ok in \<open>simp add: lp_bal amount_ok_def\<close>)

lemma lp_le: "books_ok s \<Longrightarrow> get_liquidity_balance s i a \<le> lp_total s i"
  unfolding lp_total_def using bal_le_total [OF finite_lp, of s i a] liquidity_balance_ok
  by (simp add: lp_bal amount_ok_def)

lemma lp_upd:
  "books_ok s \<Longrightarrow> LiquidityBalances t = (LiquidityBalances s)((i, a) \<mapsto> y) \<Longrightarrow>
    lp_total t j = lp_total s j + (if j = i then y - get_liquidity_balance s i a else 0)"
proof (cases "j = i")
  case True
  assume "books_ok s" and t: "LiquidityBalances t = (LiquidityBalances s)((i, a) \<mapsto> y)"
  have "(\<lambda>b. LiquidityBalances t (i, b)) = (\<lambda>b. LiquidityBalances s (i, b))(a \<mapsto> y)" by (auto simp: t)
  then show ?thesis
    using total_bal_upd [OF finite_lp [OF \<open>books_ok s\<close>], of i a y] True by (simp add: lp_total_def lp_bal)
qed (simp add: lp_total_def)

text \<open>The shape every trading and liquidity operation has: shares of one holder, one pool, and at
  most the holder's liquidity shares.\<close>

definition trades ::
    "nat \<Rightarrow> address \<Rightarrow> (nat \<Rightarrow> int) \<Rightarrow> ConditionalMarket \<Rightarrow> ConditionalMarket \<Rightarrow> market_state \<Rightarrow> market_state \<Rightarrow> bool" where
  "trades i a f c c' s t \<longleftrightarrow>
     (\<exists>u. shifts i a f s u \<and> OutcomeBalances t = OutcomeBalances u) \<and>
     Markets t = Markets s \<and> ConditionalMarkets t = (ConditionalMarkets s)(i \<mapsto> c') \<and> Resolutions t = Resolutions s \<and>
     MarketCount t = MarketCount s \<and>
     (LiquidityBalances t = LiquidityBalances s \<and> total_liquidity_shares c' = total_liquidity_shares c \<or>
      (\<exists>y. LiquidityBalances t = (LiquidityBalances s)((i, a) \<mapsto> y) \<and> amount_ok y \<and>
         total_liquidity_shares c' = total_liquidity_shares c - get_liquidity_balance s i a + y)) \<and>
     cm_market_id c' = cm_market_id c \<and> outcomes c' = outcomes c \<and> collateral_token c' = collateral_token c \<and>
     length (pool_balances c') = length (pool_balances c) \<and> reserves_ok (pool_balances c') \<and>
     in_i128 (total_liquidity_shares c') \<and> in_i128 (collateral_locked c')"

lemma trade_keeps:
  assumes ok: "books_ok s" and c: "ConditionalMarkets s i = Some c" and m: "Markets s i = Some m"
    and tr: "trades i a f c c' s t"
    and even: "\<And>out. out < length (outcomes c) \<Longrightarrow> winning_outcome m = None \<or> winning_outcome m = Some out \<Longrightarrow>
      pool_balances c' ! out + f out - pool_balances c ! out = collateral_locked c' - collateral_locked c"
  shows "books_ok t"
    "liability tok t = liability tok s + (if collateral_token c = tok then collateral_locked c' - collateral_locked c else 0)"
proof -
  obtain u where sh: "shifts i a f s u" and ob: "OutcomeBalances t = OutcomeBalances u" using tr unfolding trades_def by blast
  have t: "Markets t = Markets s" "ConditionalMarkets t = (ConditionalMarkets s)(i \<mapsto> c')" "Resolutions t = Resolutions s"
      "get_market_count t = get_market_count s"
    and lp: "LiquidityBalances t = LiquidityBalances s \<and> total_liquidity_shares c' = total_liquidity_shares c \<or>
      (\<exists>y. LiquidityBalances t = (LiquidityBalances s)((i, a) \<mapsto> y) \<and> amount_ok y \<and>
         total_liquidity_shares c' = total_liquidity_shares c - get_liquidity_balance s i a + y)"
    and c': "cm_market_id c' = cm_market_id c" "outcomes c' = outcomes c" "collateral_token c' = collateral_token c"
      "length (pool_balances c') = length (pool_balances c)" "reserves_ok (pool_balances c')"
      "in_i128 (total_liquidity_shares c')" "in_i128 (collateral_locked c')"
    using tr unfolding trades_def get_market_count_def by simp_all
  have p: "pool_ok s i c m" using market_okD(5) [OF ok c] m by simp
  have held: "held_shares t i out = held_shares s i out + f out" and fin: "finite (dom (OutcomeBalances t))"
    and other: "(j, b) \<noteq> (i, a) \<Longrightarrow> OutcomeBalances t (j, b, out) = OutcomeBalances s (j, b, out)"
    and own: "OutcomeBalances t (i, a, out) = Some x \<Longrightarrow> amount_ok x" for out j b x
    using sh unfolding shifts_def held_shares_def ob by auto
  have tl: "total_liquidity_shares c = lp_total s i" using p by (simp add: pool_ok_def)
  have lpt: "total_liquidity_shares c' = lp_total t i"
    using lp
  proof
    assume "\<exists>y. LiquidityBalances t = (LiquidityBalances s)((i, a) \<mapsto> y) \<and> amount_ok y \<and>
         total_liquidity_shares c' = total_liquidity_shares c - get_liquidity_balance s i a + y"
    then show ?thesis using lp_upd [OF ok, of t i a _ i] tl by fastforce
  qed (simp add: tl lp_total_def)
  have lpf: "finite (dom (LiquidityBalances t))" using lp books_okD(2) [OF ok] by auto
  have lpo: "LiquidityBalances t (j, b) = LiquidityBalances s (j, b)" if "j \<noteq> i" for j b using lp that by auto
  have same: "same_at j s t" if "j \<noteq> i" for j
    using that other lpo by (simp add: same_at_def t)
  have obok: "amount_ok x" if "OutcomeBalances t (i, b, out) = Some x" for b out x
    using that own other [of i b out] market_okD(2) [OF ok, of i b out x] by (cases "b = a") auto
  have lpok: "amount_ok x" if "LiquidityBalances t (i, b) = Some x" for b x
    using that lp market_okD(3) [OF ok, of i b x] by (auto split: if_splits)
  have hn: "0 \<le> held_shares t i out" for out
    unfolding held_shares_def
    by (rule total_bal_nonneg) (use obok in \<open>auto simp: bal_def unwrap_or_def amount_ok_def split: option.splits\<close>)
  have ln: "0 \<le> lp_total t i"
    unfolding lp_total_def
    by (rule total_bal_nonneg) (use lpok in \<open>auto simp: bal_def unwrap_or_def amount_ok_def split: option.splits\<close>)
  have set: "pool_balances c' ! out + held_shares t i out = collateral_locked c'"
    if "out < length (outcomes c)" "winning_outcome m = None \<or> winning_outcome m = Some out" for out
  proof -
    have "pool_balances c ! out + held_shares s i out = collateral_locked c" using p that unfolding pool_ok_def by blast
    then show ?thesis using even [OF that] held [of out] by linarith
  qed
  have "\<exists>out<length (outcomes c). winning_outcome m = None \<or> winning_outcome m = Some out"
    using p unfolding pool_ok_def by (cases "winning_outcome m") auto
  then obtain out where out: "out < length (outcomes c)" "winning_outcome m = None \<or> winning_outcome m = Some out" by blast
  have "0 \<le> pool_balances c' ! out" using c'(4,5) p out(1) by (auto simp: reserves_ok_def pool_ok_def)
  then have "0 \<le> collateral_locked c'" using set [OF out] hn [of out] by linarith
  then have p': "pool_ok t i c' m"
    using p c' set lpt ln unfolding pool_ok_def amount_ok_def by auto
  have "market_ok t i"
    using books_okD(4) [OF ok, of i] obok lpok p' m
    unfolding market_ok_def t c by (auto simp: c'(2) c)
  then show "books_ok t" using books_local [OF ok same] t fin lpf books_okD(3) [OF ok] by simp
  show "liability tok t = liability tok s + (if collateral_token c = tok then collateral_locked c' - collateral_locked c else 0)"
    using liability_local [OF books_okD(3) [OF ok] same, where tok = tok] c'(3)
    by (simp add: due_def open_bond_def t c)
qed

section \<open>What each operation does\<close>

lemma books_pool: "books_ok s \<Longrightarrow> ConditionalMarkets s i = Some c \<Longrightarrow> \<exists>m. Markets s i = Some m \<and> pool_ok s i c m"
  by (rule market_okD(5))

lemma trading_open_Ok [simp]:
  "ensure_trading_open env m s = Ok u \<longleftrightarrow>
     market_status m = Open \<and> Resolutions s (market_id m) = None \<and> timestamp env < resolution_deadline m"
  by (auto simp: ensure_trading_open_def get_resolution_def)

lemma market_getters_Ok [simp]:
  "get_market s i = Ok m \<longleftrightarrow> Markets s i = Some m"
  "get_conditional_market s i = Ok c \<longleftrightarrow> ConditionalMarkets s i = Some c"
  "ensure_initialized s = Ok u \<longleftrightarrow> is_initialized s"
  by (simp_all add: market_getters ensure_initialized_def)

lemma vec_get_Some [simp]: "vec_get xs i = Some x \<longleftrightarrow> i < length xs \<and> x = xs ! i"
  by (auto simp: vec_get_def)

text \<open>A successful token call of a market: the collateral's transfer and the change of the books.\<close>

lemma buy_Ok:
  assumes "buy_shares tc env a i out x mn (w, s) = Ok (n, w', t)"
  shows "\<exists>m c. Markets s i = Some m \<and> ConditionalMarkets s i = Some c \<and> auth env a \<and> market_status m = Open \<and>
    timestamp env < resolution_deadline m \<and> Resolutions s (market_id m) = None \<and> mn \<le> n \<and>
    quote_buy_shares c out x = Ok n \<and>
    tc (collateral_token c) (subcall_env env (collateral_token c)) a (current_contract env) x w = Some w' \<and>
    (\<forall>r\<in>set (pool_balances c). in_i128 (r + x)) \<and> out < length (pool_balances c) \<and>
    in_i128 (pool_balances c ! out + x - n) \<and> in_i128 (collateral_locked c + x) \<and>
    in_i128 (get_outcome_balance s i a out + n) \<and>
    t = publish (Ev_shares i out a x n) (set_conditional_market
      (c\<lparr>pool_balances := (map (\<lambda>r. r + x) (pool_balances c))[out := pool_balances c ! out + x - n],
         collateral_locked := collateral_locked c + x\<rparr>)
      (set_outcome_balance i a out (get_outcome_balance s i a out + n) s))"
  using assms by (auto simp: buy_shares_def Let_def add_to_all_Ok not_less)

lemma sell_Ok:
  assumes "sell_shares tc env a i out n mn (w, s) = Ok (x, w', t)"
  shows "\<exists>m c. Markets s i = Some m \<and> ConditionalMarkets s i = Some c \<and> auth env a \<and> market_status m = Open \<and>
    quote_sell_shares c out n = Ok x \<and> mn \<le> x \<and> n \<le> get_outcome_balance s i a out \<and>
    tc (collateral_token c) (subcall_env env (collateral_token c)) (current_contract env) a x w = Some w' \<and>
    out < length (pool_balances c) \<and> (\<forall>r\<in>set ((pool_balances c)[out := pool_balances c ! out + n]). in_i128 (r - x)) \<and>
    in_i128 (collateral_locked c - x) \<and> in_i128 (get_outcome_balance s i a out - n) \<and>
    t = publish (Ev_ct_sell i out a n x) (set_conditional_market
      (c\<lparr>pool_balances := map (\<lambda>r. r - x) ((pool_balances c)[out := pool_balances c ! out + n]),
         collateral_locked := collateral_locked c - x\<rparr>)
      (set_outcome_balance i a out (get_outcome_balance s i a out - n) s))"
  using assms by (auto simp: sell_shares_def Let_def sub_from_all_Ok not_less)

lemma mint_Ok:
  assumes "mint_complete_set tc env a i x (w, s) = Ok (u, w', t)"
  shows "\<exists>m c s1. Markets s i = Some m \<and> ConditionalMarkets s i = Some c \<and> auth env a \<and> 0 < x \<and>
    tc (collateral_token c) (subcall_env env (collateral_token c)) a (current_contract env) x w = Some w' \<and>
    credit_loop i a x [0..<length (outcomes c)] s = Ok s1 \<and> in_i128 (collateral_locked c + x) \<and>
    t = publish (Ev_ct_mint i a x) (set_conditional_market (c\<lparr>collateral_locked := collateral_locked c + x\<rparr>) s1)"
  using assms by (auto simp: mint_complete_set_def Let_def not_le)

lemma add_Ok:
  assumes "add_liquidity tc env a i x mn (w, s) = Ok (n, w', t)"
  shows "\<exists>m c. Markets s i = Some m \<and> ConditionalMarkets s i = Some c \<and> auth env a \<and> 0 < x \<and> 0 < n \<and>
    minted_loop x (total_liquidity_shares c) (pool_balances c) i128_max = Ok n \<and>
    tc (collateral_token c) (subcall_env env (collateral_token c)) a (current_contract env) x w = Some w' \<and>
    (\<forall>r\<in>set (pool_balances c). in_i128 (r + x)) \<and> in_i128 (total_liquidity_shares c + n) \<and>
    in_i128 (collateral_locked c + x) \<and> in_i128 (get_liquidity_balance s i a + n) \<and>
    t = publish (Ev_liquidity i a x n) (set_conditional_market
      (c\<lparr>pool_balances := map (\<lambda>r. r + x) (pool_balances c), total_liquidity_shares := total_liquidity_shares c + n,
         collateral_locked := collateral_locked c + x\<rparr>)
      (set_liquidity_balance i a (get_liquidity_balance s i a + n) s))"
  using assms by (auto simp: add_liquidity_def Let_def add_to_all_Ok not_le)

lemma remove_Ok:
  assumes "remove_liquidity env a i l s = Ok (xs, t)"
  shows "\<exists>m c pool s1. Markets s i = Some m \<and> ConditionalMarkets s i = Some c \<and> auth env a \<and> 0 < l \<and>
    l \<le> get_liquidity_balance s i a \<and>
    withdraw_loop i a l (total_liquidity_shares c) 0 (pool_balances c) s = Ok (xs, pool, s1) \<and>
    in_i128 (total_liquidity_shares c - l) \<and> in_i128 (get_liquidity_balance s i a - l) \<and>
    t = publish (Ev_removed i a l) (set_conditional_market
      (c\<lparr>pool_balances := pool, total_liquidity_shares := total_liquidity_shares c - l\<rparr>)
      (set_liquidity_balance i a (get_liquidity_balance s i a - l) s1))"
  using assms by (auto simp: remove_liquidity_def Let_def not_le not_less split: if_splits)

lemma redeem_set_Ok:
  assumes "redeem_complete_set tc env a i x (w, s) = Ok (u, w', t)"
  shows "\<exists>m c s1. Markets s i = Some m \<and> ConditionalMarkets s i = Some c \<and> auth env a \<and> 0 < x \<and>
    tc (collateral_token c) (subcall_env env (collateral_token c)) (current_contract env) a x w = Some w' \<and>
    holds_loop i a x [0..<length (outcomes c)] s = Ok () \<and> debit_loop i a x [0..<length (outcomes c)] s = Ok s1 \<and>
    in_i128 (collateral_locked c - x) \<and>
    t = publish (Ev_redeemed_set i a x) (set_conditional_market (c\<lparr>collateral_locked := collateral_locked c - x\<rparr>) s1)"
  using assms by (auto simp: redeem_complete_set_def Let_def not_le)

lemma redeem_Ok:
  assumes "redeem_winnings tc env a i x (w, s) = Ok (u, w', t)"
  shows "\<exists>m c out. Markets s i = Some m \<and> ConditionalMarkets s i = Some c \<and> auth env a \<and> 0 < x \<and>
    market_status m = Resolved \<and> winning_outcome m = Some out \<and> x \<le> get_outcome_balance s i a out \<and>
    tc (collateral_token c) (subcall_env env (collateral_token c)) (current_contract env) a x w = Some w' \<and>
    in_i128 (collateral_locked c - x) \<and> in_i128 (get_outcome_balance s i a out - x) \<and>
    t = publish (Ev_redeemed i a out x) (set_conditional_market (c\<lparr>collateral_locked := collateral_locked c - x\<rparr>)
      (set_outcome_balance i a out (get_outcome_balance s i a out - x) s))"
  using assms by (auto simp: redeem_winnings_def Let_def not_le not_less)

section \<open>Every trading and liquidity operation keeps the books\<close>

definition takes_in ::
    "'w token_transfer \<Rightarrow> env \<Rightarrow> address \<Rightarrow> int \<Rightarrow> 'w \<times> market_state \<Rightarrow> 'w \<times> market_state \<Rightarrow> bool" where
  "takes_in tc env a x ws wt \<longleftrightarrow> auth env a \<and> books_ok (snd wt) \<and>
     (\<exists>tok. tc tok (subcall_env env tok) a (current_contract env) x (fst ws) = Some (fst wt) \<and>
        (\<forall>k. liability k (snd wt) = liability k (snd ws) + (if tok = k then x else 0)))"

definition pays_out ::
    "'w token_transfer \<Rightarrow> env \<Rightarrow> address \<Rightarrow> int \<Rightarrow> 'w \<times> market_state \<Rightarrow> 'w \<times> market_state \<Rightarrow> bool" where
  "pays_out tc env a x ws wt \<longleftrightarrow> books_ok (snd wt) \<and>
     (\<exists>tok. tc tok (subcall_env env tok) (current_contract env) a x (fst ws) = Some (fst wt) \<and>
        (\<forall>k. liability k (snd wt) = liability k (snd ws) - (if tok = k then x else 0)))"

lemma takes_inI:
  assumes "books_ok s" "ConditionalMarkets s i = Some c" "Markets s i = Some m" "auth env a"
    "tc (collateral_token c) (subcall_env env (collateral_token c)) a (current_contract env) x w = Some w'"
    "trades i a f c c' s t" "collateral_locked c' = collateral_locked c + x"
    "\<And>out. out < length (outcomes c) \<Longrightarrow> pool_balances c' ! out + f out - pool_balances c ! out = x"
  shows "takes_in tc env a x (w, s) (w', t)"
  using trade_keeps [OF assms(1-3,6)] assms(4,5,7,8) unfolding takes_in_def by auto

lemma pays_outI:
  assumes "books_ok s" "ConditionalMarkets s i = Some c" "Markets s i = Some m"
    "tc (collateral_token c) (subcall_env env (collateral_token c)) (current_contract env) a x w = Some w'"
    "trades i a f c c' s t" "collateral_locked c' = collateral_locked c - x"
    "\<And>out. out < length (outcomes c) \<Longrightarrow> winning_outcome m = None \<or> winning_outcome m = Some out \<Longrightarrow>
       pool_balances c' ! out + f out - pool_balances c ! out = - x"
  shows "pays_out tc env a x (w, s) (w', t)"
  using trade_keeps [OF assms(1-3,5)] assms(4,6,7) unfolding pays_out_def by auto

lemma pool_okD:
  assumes "pool_ok s i c m"
  shows "cm_market_id c = i" "in_i128 (total_liquidity_shares c)" "in_i128 (collateral_locked c)"
    "length (pool_balances c) = length (outcomes c)" "reserves_ok (pool_balances c)"
  using assms by (simp_all add: pool_ok_def amount_ok_def) metis

lemma nonneg_fit: "0 \<le> x \<Longrightarrow> in_i128 x \<Longrightarrow> amount_ok x"
  by (simp add: amount_ok_def)

lemma reserves_nth: "reserves_ok rs \<Longrightarrow> k < length rs \<Longrightarrow> 0 \<le> rs ! k \<and> in_i128 (rs ! k)"
  by (simp add: reserves_ok_def)

lemma reserves_upd: "reserves_ok rs \<Longrightarrow> 0 \<le> v \<Longrightarrow> in_i128 v \<Longrightarrow> reserves_ok (rs[k := v])"
  using set_update_subset_insert [of rs k v] by (auto simp: reserves_ok_def)

lemma buy_keeps:
  assumes ok: "books_ok s" and r: "buy_shares tc env a i out x mn (w, s) = Ok (n, w', t)"
  shows "takes_in tc env a x (w, s) (w', t)"
proof -
  obtain m c where b: "Markets s i = Some m" "ConditionalMarkets s i = Some c" "auth env a"
      "quote_buy_shares c out x = Ok n"
    and call: "tc (collateral_token c) (subcall_env env (collateral_token c)) a (current_contract env) x w = Some w'"
    and fit: "\<forall>r\<in>set (pool_balances c). in_i128 (r + x)" "in_i128 (pool_balances c ! out + x - n)"
      "in_i128 (collateral_locked c + x)" "in_i128 (get_outcome_balance s i a out + n)"
    and t: "t = publish (Ev_shares i out a x n) (set_conditional_market
      (c\<lparr>pool_balances := (map (\<lambda>r. r + x) (pool_balances c))[out := pool_balances c ! out + x - n],
         collateral_locked := collateral_locked c + x\<rparr>)
      (set_outcome_balance i a out (get_outcome_balance s i a out + n) s))"
    using buy_Ok [OF r] by blast
  have p: "pool_ok s i c m" using books_pool [OF ok b(2)] b(1) by simp
  have rs: "reserves_ok (pool_balances c)" using p by (simp add: pool_ok_def)
  note q = quote_buy_Ok [OF b(4) rs]
  let ?c = "c\<lparr>pool_balances := (map (\<lambda>r. r + x) (pool_balances c))[out := pool_balances c ! out + x - n],
         collateral_locked := collateral_locked c + x\<rparr>"
  let ?f = "\<lambda>o'. (0::int) + (if o' = out then get_outcome_balance s i a out + n - get_outcome_balance s i a out else 0)"
  have sh: "shifts i a ?f s (set_outcome_balance i a out (get_outcome_balance s i a out + n) s)"
    by (rule shifts_set [OF shifts_none [OF ok]])
      (use fit(4) q(2) outcome_balance_ok [OF ok, of i a out] in \<open>simp add: amount_ok_def\<close>)
  have "reserves_ok (pool_balances ?c)"
  proof -
    have "reserves_ok (map (\<lambda>r. r + x) (pool_balances c))" using rs fit(1) q(1) by (auto simp: reserves_ok_def)
    then have "reserves_ok ((map (\<lambda>r. r + x) (pool_balances c))[out := pool_balances c ! out + x - n])"
      by (rule reserves_upd) (use fit(2) q(5) in simp_all)
    then show ?thesis by simp
  qed
  then have tr: "trades i a ?f c ?c s t"
    unfolding trades_def
    by (intro conjI exI [of _ "set_outcome_balance i a out (get_outcome_balance s i a out + n) s"] sh)
      (use pool_okD [OF p] fit(3) in \<open>simp_all add: t market_setters\<close>)
  show ?thesis
    by (rule takes_inI [where tc = tc, OF ok b(2,1,3) call tr]) (use p q(4) in \<open>auto simp: nth_list_update pool_ok_def\<close>)
qed

lemma sell_keeps:
  assumes ok: "books_ok s" and r: "sell_shares tc env a i out n mn (w, s) = Ok (x, w', t)"
  shows "pays_out tc env a x (w, s) (w', t)"
proof -
  obtain m c where b: "Markets s i = Some m" "ConditionalMarkets s i = Some c" "quote_sell_shares c out n = Ok x"
      "n \<le> get_outcome_balance s i a out"
    and call: "tc (collateral_token c) (subcall_env env (collateral_token c)) (current_contract env) a x w = Some w'"
    and fit: "\<forall>r\<in>set ((pool_balances c)[out := pool_balances c ! out + n]). in_i128 (r - x)"
      "in_i128 (collateral_locked c - x)" "in_i128 (get_outcome_balance s i a out - n)"
    and t: "t = publish (Ev_ct_sell i out a n x) (set_conditional_market
      (c\<lparr>pool_balances := map (\<lambda>r. r - x) ((pool_balances c)[out := pool_balances c ! out + n]),
         collateral_locked := collateral_locked c - x\<rparr>)
      (set_outcome_balance i a out (get_outcome_balance s i a out - n) s))"
    using sell_Ok [OF r] by blast
  have p: "pool_ok s i c m" using books_pool [OF ok b(2)] b(1) by simp
  have rs: "reserves_ok (pool_balances c)" "length (pool_balances c) = length (outcomes c)" using p by (simp_all add: pool_ok_def)
  note q = quote_sell_Ok [OF b(3) rs]
  let ?c = "c\<lparr>pool_balances := map (\<lambda>r. r - x) ((pool_balances c)[out := pool_balances c ! out + n]),
         collateral_locked := collateral_locked c - x\<rparr>"
  let ?f = "\<lambda>o'. (0::int) + (if o' = out then get_outcome_balance s i a out - n - get_outcome_balance s i a out else 0)"
  have sh: "shifts i a ?f s (set_outcome_balance i a out (get_outcome_balance s i a out - n) s)"
    by (rule shifts_set [OF shifts_none [OF ok]]) (use fit(3) b(4) in \<open>simp add: amount_ok_def\<close>)
  have "reserves_ok (pool_balances ?c)"
    using fit(1) q(6) by (force simp: reserves_ok_def)
  then have tr: "trades i a ?f c ?c s t"
    unfolding trades_def
    by (intro conjI exI [of _ "set_outcome_balance i a out (get_outcome_balance s i a out - n) s"] sh)
      (use pool_okD [OF p] fit(2) in \<open>simp_all add: t market_setters\<close>)
  show ?thesis
    by (rule pays_outI [where tc = tc, OF ok b(2,1) call tr]) (use rs(2) q(3) in \<open>auto simp: nth_list_update\<close>)
qed

lemma mint_keeps:
  assumes ok: "books_ok s" and r: "mint_complete_set tc env a i x (w, s) = Ok (u, w', t)"
  shows "takes_in tc env a x (w, s) (w', t)"
proof -
  obtain m c s1 where b: "Markets s i = Some m" "ConditionalMarkets s i = Some c" "auth env a" "0 < x"
    and call: "tc (collateral_token c) (subcall_env env (collateral_token c)) a (current_contract env) x w = Some w'"
    and cr: "credit_loop i a x [0..<length (outcomes c)] s = Ok s1" and fit: "in_i128 (collateral_locked c + x)"
    and t: "t = publish (Ev_ct_mint i a x) (set_conditional_market (c\<lparr>collateral_locked := collateral_locked c + x\<rparr>) s1)"
    using mint_Ok [OF r] by blast
  have p: "pool_ok s i c m" using books_pool [OF ok b(2)] b(1) by simp
  let ?f = "\<lambda>o'. 0 + (if o' \<in> set [0..<length (outcomes c)] then x else 0)"
  have sh: "shifts i a ?f s s1"
    by (rule credit_loop_shifts [OF cr shifts_none [OF ok]])
      (use b(4) outcome_balance_ok [OF ok] in \<open>simp_all add: amount_ok_def\<close>)
  let ?c = "c\<lparr>collateral_locked := collateral_locked c + x\<rparr>"
  have tr: "trades i a ?f c ?c s t"
    unfolding trades_def
    by (intro conjI exI [of _ s1] sh) (use pool_okD [OF p] fit shiftsD [OF sh] in \<open>simp_all add: t market_setters\<close>)
  show ?thesis
    by (rule takes_inI [where tc = tc, OF ok b(2,1,3) call tr]) simp_all
qed

lemma redeem_set_keeps:
  assumes ok: "books_ok s" and r: "redeem_complete_set tc env a i x (w, s) = Ok (u, w', t)"
  shows "pays_out tc env a x (w, s) (w', t)"
proof -
  obtain m c s1 where b: "Markets s i = Some m" "ConditionalMarkets s i = Some c"
    and call: "tc (collateral_token c) (subcall_env env (collateral_token c)) (current_contract env) a x w = Some w'"
    and d: "debit_loop i a x [0..<length (outcomes c)] s = Ok s1" "holds_loop i a x [0..<length (outcomes c)] s = Ok ()"
    and fit: "in_i128 (collateral_locked c - x)"
    and t: "t = publish (Ev_redeemed_set i a x) (set_conditional_market (c\<lparr>collateral_locked := collateral_locked c - x\<rparr>) s1)"
    using redeem_set_Ok [OF r] by blast
  have p: "pool_ok s i c m" using books_pool [OF ok b(2)] b(1) by simp
  let ?f = "\<lambda>o'. 0 - (if o' \<in> set [0..<length (outcomes c)] then x else 0)"
  have sh: "shifts i a ?f s s1" by (rule debit_loop_shifts [OF d shifts_none [OF ok]]) simp
  let ?c = "c\<lparr>collateral_locked := collateral_locked c - x\<rparr>"
  have tr: "trades i a ?f c ?c s t"
    unfolding trades_def
    by (intro conjI exI [of _ s1] sh) (use pool_okD [OF p] fit shiftsD [OF sh] in \<open>simp_all add: t market_setters\<close>)
  show ?thesis
    by (rule pays_outI [where tc = tc, OF ok b(2,1) call tr]) simp_all
qed

lemma redeem_keeps:
  assumes ok: "books_ok s" and r: "redeem_winnings tc env a i x (w, s) = Ok (u, w', t)"
  shows "pays_out tc env a x (w, s) (w', t)"
proof -
  obtain m c out where b: "Markets s i = Some m" "ConditionalMarkets s i = Some c" "winning_outcome m = Some out"
      "x \<le> get_outcome_balance s i a out"
    and call: "tc (collateral_token c) (subcall_env env (collateral_token c)) (current_contract env) a x w = Some w'"
    and fit: "in_i128 (collateral_locked c - x)" "in_i128 (get_outcome_balance s i a out - x)"
    and t: "t = publish (Ev_redeemed i a out x) (set_conditional_market (c\<lparr>collateral_locked := collateral_locked c - x\<rparr>)
      (set_outcome_balance i a out (get_outcome_balance s i a out - x) s))"
    using redeem_Ok [OF r] by blast
  have p: "pool_ok s i c m" using books_pool [OF ok b(2)] b(1) by simp
  let ?f = "\<lambda>o'. (0::int) + (if o' = out then get_outcome_balance s i a out - x - get_outcome_balance s i a out else 0)"
  let ?u = "set_outcome_balance i a out (get_outcome_balance s i a out - x) s"
  have sh: "shifts i a ?f s ?u"
    by (rule shifts_set [OF shifts_none [OF ok]]) (use fit(2) b(4) in \<open>simp add: amount_ok_def\<close>)
  let ?c = "c\<lparr>collateral_locked := collateral_locked c - x\<rparr>"
  have tr: "trades i a ?f c ?c s t"
    unfolding trades_def
    by (intro conjI exI [of _ ?u] sh) (use pool_okD [OF p] fit(1) in \<open>simp_all add: t market_setters\<close>)
  show ?thesis
    by (rule pays_outI [where tc = tc, OF ok b(2,1) call tr]) (use b(3) in simp_all)
qed

lemma minted_positive:
  "minted_loop x T rs n = Ok k \<Longrightarrow> in_i128 n \<Longrightarrow> in_i128 x \<Longrightarrow> in_i128 T \<Longrightarrow> reserves_ok rs \<Longrightarrow>
    k \<le> n \<and> (\<forall>r\<in>set rs. 0 < r \<and> k * r \<le> x * T)"
proof (induction rs arbitrary: n)
  case (Cons r rs)
  obtain q where q: "mul_div_floor x T r = Ok q" and r: "0 < r" "in_i128 r"
    and loop: "minted_loop x T rs (if q < n then q else n) = Ok k"
    using Cons.prems(1,5) by (auto split: if_splits)
  note m = mul_div_floor_Ok [OF q Cons.prems(3,4) r(2)]
  have ih: "k \<le> (if q < n then q else n)" "\<forall>r\<in>set rs. 0 < r \<and> k * r \<le> x * T"
    using Cons.IH [OF loop _ Cons.prems(3,4)] Cons.prems(2,5) m(6) by auto
  have "k * r \<le> q * r" using ih(1) r(1) by (intro mult_right_mono) (auto split: if_splits)
  also have "\<dots> \<le> x * T" using m(4) r(1) by (simp add: div_mult_le)
  finally show ?case using ih r(1) by (auto split: if_splits)
qed simp

lemma add_keeps:
  assumes ok: "books_ok s" and r: "add_liquidity tc env a i x mn (w, s) = Ok (n, w', t)"
  shows "takes_in tc env a x (w, s) (w', t)"
proof -
  obtain m c where b: "Markets s i = Some m" "ConditionalMarkets s i = Some c" "auth env a" "0 < x" "0 < n"
    and call: "tc (collateral_token c) (subcall_env env (collateral_token c)) a (current_contract env) x w = Some w'"
    and fit: "\<forall>r\<in>set (pool_balances c). in_i128 (r + x)" "in_i128 (total_liquidity_shares c + n)"
      "in_i128 (collateral_locked c + x)" "in_i128 (get_liquidity_balance s i a + n)"
    and t: "t = publish (Ev_liquidity i a x n) (set_conditional_market
      (c\<lparr>pool_balances := map (\<lambda>r. r + x) (pool_balances c), total_liquidity_shares := total_liquidity_shares c + n,
         collateral_locked := collateral_locked c + x\<rparr>)
      (set_liquidity_balance i a (get_liquidity_balance s i a + n) s))"
    using add_Ok [OF r] by blast
  have p: "pool_ok s i c m" using books_pool [OF ok b(2)] b(1) by simp
  let ?c = "c\<lparr>pool_balances := map (\<lambda>r. r + x) (pool_balances c), total_liquidity_shares := total_liquidity_shares c + n,
         collateral_locked := collateral_locked c + x\<rparr>"
  have rs: "reserves_ok (pool_balances ?c)" using pool_okD(5) [OF p] fit(1) b(4) by (auto simp: reserves_ok_def)
  have lp: "amount_ok (get_liquidity_balance s i a + n)"
    using liquidity_balance_ok [OF ok, of i a] fit(4) b(5) by (simp add: amount_ok_def)
  have tr: "trades i a (\<lambda>_. 0) c ?c s t"
    unfolding trades_def
    by (intro conjI exI [of _ s] shifts_none [OF ok] disjI2 exI [of _ "get_liquidity_balance s i a + n"])
      (use pool_okD [OF p] fit lp rs in \<open>simp_all add: t market_setters\<close>)
  show ?thesis
    by (rule takes_inI [where tc = tc, OF ok b(2,1,3) call tr]) (use pool_okD(4) [OF p] in simp_all)
qed

lemma withdraw_loop_shifts:
  "withdraw_loop i a l T k rs u = Ok (xs, rs', t) \<Longrightarrow> shifts i a f s u \<Longrightarrow> reserves_ok rs \<Longrightarrow>
    (\<And>out. 0 \<le> get_outcome_balance u i a out) \<Longrightarrow> in_i128 l \<Longrightarrow> in_i128 T \<Longrightarrow> 0 \<le> l \<Longrightarrow> l \<le> T \<Longrightarrow>
    length rs' = length rs \<and> length xs = length rs \<and> reserves_ok rs' \<and>
    (\<forall>j<length rs. xs ! j = rs ! j * l div T \<and> rs' ! j = rs ! j - xs ! j \<and> 0 < xs ! j) \<and>
    shifts i a (\<lambda>out. f out + (if k \<le> out \<and> out < k + length rs then xs ! (out - k) else 0)) s t"
proof (induction rs arbitrary: k u f xs rs')
  case (Nil k u f xs rs')
  have "shifts i a (\<lambda>out. f out + (if k \<le> out \<and> out < k + length [] then xs ! (out - k) else 0)) s u"
    by (rule shifts_cong [OF Nil.prems(2)]) simp
  then show ?case using Nil.prems(1) by simp
next
  case (Cons r rs)
  obtain x ys qs where q: "mul_div_floor r l T = Ok x" "0 < x" "in_i128 (r - x)" "in_i128 (get_outcome_balance u i a k + x)"
    and loop: "withdraw_loop i a l T (Suc k) rs (set_outcome_balance i a k (get_outcome_balance u i a k + x) u) = Ok (ys, qs, t)"
    and res: "xs = x # ys" "rs' = (r - x) # qs"
    using Cons.prems(1) by auto
  have r: "0 \<le> r" "in_i128 r" "reserves_ok rs" using Cons.prems(3) by simp_all
  note m = mul_div_floor_Ok [OF q(1) r(2) Cons.prems(5,6)]
  have "x * T \<le> r * l" using m(3,4) by (simp add: div_mult_le)
  also have "\<dots> \<le> r * T" using r(1) Cons.prems(8) by (rule mult_left_mono [rotated])
  finally have xr: "x \<le> r" using m(3) by simp
  let ?x = "get_outcome_balance u i a k + x"
  let ?u = "set_outcome_balance i a k ?x u"
  have sh: "shifts i a (\<lambda>o'. f o' + (if o' = k then ?x - get_outcome_balance u i a k else 0)) s ?u"
    by (rule shifts_set [OF Cons.prems(2)]) (use q(2,4) Cons.prems(4) [of k] in \<open>simp add: amount_ok_def\<close>)
  have nn: "0 \<le> get_outcome_balance ?u i a out" for out
    using Cons.prems(4) [of out] Cons.prems(4) [of k] q(2) by (auto simp: get_outcome_balance_def set_outcome_balance_def)
  note ih = Cons.IH [OF loop sh r(3) nn Cons.prems(5-8)]
  have "shifts i a (\<lambda>out. f out + (if k \<le> out \<and> out < k + length (r # rs) then xs ! (out - k) else 0)) s t"
    by (rule shifts_cong [OF conjunct2 [OF conjunct2 [OF conjunct2 [OF conjunct2 [OF ih]]]]])
      (auto simp: res nth_Cons')
  moreover have "xs ! j = (r # rs) ! j * l div T \<and> rs' ! j = (r # rs) ! j - xs ! j \<and> 0 < xs ! j" if "j < length (r # rs)" for j
    using that ih m(4) q(2) by (cases j) (auto simp: res)
  moreover have "length rs' = length (r # rs)" "length xs = length (r # rs)" "reserves_ok rs'"
    using ih q(3) xr by (simp_all add: res)
  ultimately show ?case by blast
qed

lemma remove_keeps:
  assumes ok: "books_ok s" and r: "remove_liquidity env a i l s = Ok (xs, t)"
  shows "books_ok t" "liability tok t = liability tok s"
proof -
  obtain m c pool s1 where b: "Markets s i = Some m" "ConditionalMarkets s i = Some c" "0 < l"
      "l \<le> get_liquidity_balance s i a"
    and wl: "withdraw_loop i a l (total_liquidity_shares c) 0 (pool_balances c) s = Ok (xs, pool, s1)"
    and fit: "in_i128 (total_liquidity_shares c - l)" "in_i128 (get_liquidity_balance s i a - l)"
    and t: "t = publish (Ev_removed i a l) (set_conditional_market
      (c\<lparr>pool_balances := pool, total_liquidity_shares := total_liquidity_shares c - l\<rparr>)
      (set_liquidity_balance i a (get_liquidity_balance s i a - l) s1))"
    using remove_Ok [OF r] by blast
  have p: "pool_ok s i c m" using books_pool [OF ok b(2)] b(1) by simp
  have lT: "l \<le> total_liquidity_shares c" using lp_le [OF ok, of i a] b(4) p by (simp add: pool_ok_def)
  have li: "in_i128 l" by (rule in_i128_le [OF pool_okD(2) [OF p]]) (use lT b(3) in simp_all)
  have nn: "0 \<le> get_outcome_balance s i a out" for out using outcome_balance_ok [OF ok] by (simp add: amount_ok_def)
  note W = withdraw_loop_shifts [OF wl shifts_none [OF ok] pool_okD(5) [OF p] nn li pool_okD(2) [OF p] _ lT]
  let ?f = "\<lambda>out. 0 + (if 0 \<le> out \<and> out < 0 + length (pool_balances c) then xs ! (out - 0) else 0)"
  have sh: "shifts i a ?f s s1" and L: "length pool = length (pool_balances c)" "reserves_ok pool"
    "\<And>j. j < length (pool_balances c) \<Longrightarrow> pool ! j = pool_balances c ! j - xs ! j"
    using W b(3) by auto
  let ?c = "c\<lparr>pool_balances := pool, total_liquidity_shares := total_liquidity_shares c - l\<rparr>"
  have tr: "trades i a ?f c ?c s t"
    unfolding trades_def
    by (intro conjI exI [of _ s1] sh disjI2 exI [of _ "get_liquidity_balance s i a - l"])
      (use pool_okD [OF p] fit b(4) L shiftsD [OF sh] in \<open>simp_all add: t market_setters amount_ok_def\<close>)
  note k = trade_keeps [OF ok b(2,1) tr]
  show "books_ok t" by (rule k(1)) (use L(3) pool_okD(4) [OF p] in simp)
  have "liability tok t = liability tok s + (if collateral_token c = tok then collateral_locked ?c - collateral_locked c else 0)"
    by (rule k(2)) (use L(3) pool_okD(4) [OF p] in simp)
  then show "liability tok t = liability tok s" by simp
qed

section \<open>Settlement and the other operations\<close>

lemma settle_local:
  assumes ok: "books_ok s" and c: "ConditionalMarkets s i = Some c" and m: "Markets s i = Some m"
    and t: "Markets t = (Markets s)(i \<mapsto> m')" "ConditionalMarkets t = ConditionalMarkets s" "OutcomeBalances t = OutcomeBalances s"
      "LiquidityBalances t = LiquidityBalances s" "MarketCount t = MarketCount s" "Resolutions t = (Resolutions s)(i := rp)"
    and m': "market_id m' = i" "market_status m' = (if winning_outcome m' = None then Open else Resolved)"
      "winning_outcome m' = None \<or> winning_outcome m = None \<or> winning_outcome m' = winning_outcome m"
      "winning_outcome m \<noteq> None \<longrightarrow> winning_outcome m' \<noteq> None"
      "\<And>out. winning_outcome m' = Some out \<Longrightarrow> out < length (outcomes c)"
    and rp: "\<And>p. rp = Some p \<Longrightarrow> proposed_outcome p < length (outcomes c) \<and> 0 \<le> dispute_bond p \<and>
      (disputer p = None \<longleftrightarrow> dispute_bond p = 0)"
  shows "books_ok t"
    "liability tok t = liability tok s + (if collateral_token c = tok then open_bond t i - open_bond s i else 0)"
proof -
  have same: "same_at j s t" if "j \<noteq> i" for j using that by (simp add: same_at_def t)
  have p: "pool_ok s i c m" using books_pool [OF ok c] m by simp
  have n: "get_market_count t = get_market_count s" by (simp add: get_market_count_def t)
  have "held_shares t i out = held_shares s i out" "lp_total t i = lp_total s i" for out
    by (simp_all add: held_shares_def lp_total_def t)
  then have p': "pool_ok t i c m'"
    using p m' unfolding pool_ok_def by auto
  have "market_ok t i"
    using books_okD(4) [OF ok, of i] rp p' m'(1) m unfolding market_ok_def n by (simp add: t c)
  then show "books_ok t" using books_local [OF ok same] books_okD [OF ok] n by (simp add: t)
  show "liability tok t = liability tok s + (if collateral_token c = tok then open_bond t i - open_bond s i else 0)"
    using liability_local [OF books_okD(3) [OF ok] same, where tok = tok] by (simp add: due_def t c)
qed

lemma conditional_market:
  assumes "books_ok s" "ConditionalMarkets s i = Some c" "Markets s i = Some m"
  shows "pool_ok s i c m" "market_id m = i"
  using books_pool [OF assms(1,2)] market_okD(1) [OF assms(1,3)] assms(3) by auto

lemma propose_keeps:
  assumes ok: "books_ok s" and r: "propose_resolution env i out s = Ok (u, t)"
  shows "books_ok t" "liability tok t = liability tok s"
proof -
  obtain m c d where b: "Markets s i = Some m" "ConditionalMarkets s i = Some c" "out < length (outcomes c)" "Resolutions s i = None"
      "market_status m = Open"
    and t: "t = publish (Ev_proposed i out d) (set_resolution i \<lparr>proposed_outcome = out, proposed_at = timestamp env,
        dispute_deadline = d, disputer = None, dispute_bond = 0\<rparr> s)"
    using r by (auto simp: propose_resolution_def validate_outcome_def get_resolution_def)
  note cm = conditional_market [OF ok b(2,1)]
  note S = settle_local [OF ok b(2,1), where m' = m and rp = "Some \<lparr>proposed_outcome = out, proposed_at = timestamp env,
        dispute_deadline = d, disputer = None, dispute_bond = 0\<rparr>" and t = t]
  show "books_ok t"
    by (rule S(1)) (use b cm in \<open>auto simp: t market_setters fun_upd_idem pool_ok_def\<close>)
  have "liability tok t = liability tok s + (if collateral_token c = tok then open_bond t i - open_bond s i else 0)"
    by (rule S(2)) (use b cm in \<open>auto simp: t market_setters fun_upd_idem pool_ok_def\<close>)
  then show "liability tok t = liability tok s" using b by (simp add: open_bond_def t market_setters)
qed

lemma dispute_keeps:
  assumes ok: "books_ok s" and r: "dispute_resolution tc env a i x (w, s) = Ok (u, w', t)"
  shows "takes_in tc env a x (w, s) (w', t)"
proof -
  obtain m c p where b: "Markets s i = Some m" "ConditionalMarkets s i = Some c" "Resolutions s i = Some p" "auth env a" "0 < x"
      "market_status m = Open" "disputer p = None"
    and call: "tc (collateral_token c) (subcall_env env (collateral_token c)) a (current_contract env) x w = Some w'"
    and t: "t = publish (Ev_disputed i a x) (set_resolution i (p\<lparr>disputer := Some a, dispute_bond := x\<rparr>) s)"
    using r by (auto simp: dispute_resolution_def get_resolution_def not_le)
  note cm = conditional_market [OF ok b(2,1)]
  have pr: "proposed_outcome p < length (outcomes c)" "dispute_bond p = 0" using market_okD(4) [OF ok b(3)] b(2,7) by auto
  note S = settle_local [OF ok b(2,1), where m' = m and rp = "Some (p\<lparr>disputer := Some a, dispute_bond := x\<rparr>)" and t = t]
  have "books_ok t" by (rule S(1)) (use b cm pr in \<open>auto simp: t market_setters fun_upd_idem pool_ok_def\<close>)
  moreover have "liability tok t = liability tok s + (if collateral_token c = tok then open_bond t i - open_bond s i else 0)" for tok
    by (rule S(2)) (use b cm pr in \<open>auto simp: t market_setters fun_upd_idem pool_ok_def\<close>)
  moreover have "open_bond t i - open_bond s i = x" using b pr by (simp add: open_bond_def t market_setters)
  ultimately show ?thesis using call b(4) unfolding takes_in_def by auto
qed

lemma finalize_keeps:
  assumes ok: "books_ok s" and r: "finalize_resolution env i s = Ok (u, t)"
  shows "books_ok t" "liability tok t = liability tok s"
proof -
  obtain m c p where b: "Markets s i = Some m" "ConditionalMarkets s i = Some c" "Resolutions s i = Some p"
      "market_status m = Open" "disputer p = None" and t: "t = finalize_market m (proposed_outcome p) s"
    using r by (auto simp: finalize_resolution_def get_resolution_def)
  note cm = conditional_market [OF ok b(2,1)]
  have pr: "proposed_outcome p < length (outcomes c)" "dispute_bond p = 0" using market_okD(4) [OF ok b(3)] b(2,5) by auto
  note S = settle_local [OF ok b(2,1), where m' = "m\<lparr>market_status := Resolved, winning_outcome := Some (proposed_outcome p)\<rparr>"
      and rp = "Some p" and t = t]
  have wm: "winning_outcome m = None" using cm(1) b(4) unfolding pool_ok_def by (auto split: if_splits)
  show "books_ok t"
    by (rule S(1)) (use b cm(2) pr wm market_okD(4) [OF ok b(3)] in \<open>auto simp: t finalize_market_def market_setters fun_upd_idem\<close>)
  have "liability tok t = liability tok s + (if collateral_token c = tok then open_bond t i - open_bond s i else 0)"
    by (rule S(2)) (use b cm(2) pr wm market_okD(4) [OF ok b(3)] in \<open>auto simp: t finalize_market_def market_setters fun_upd_idem\<close>)
  then show "liability tok t = liability tok s"
    using b pr cm(2) by (simp add: open_bond_def t finalize_market_def market_setters)
qed

lemma rule_dispute_keeps:
  assumes ok: "books_ok s" and r: "resolve_dispute tc env i out (w, s) = Ok (u, w', t)"
  shows "\<exists>a x. pays_out tc env a x (w, s) (w', t)"
proof -
  obtain m c p ch where b: "Markets s i = Some m" "ConditionalMarkets s i = Some c" "Resolutions s i = Some p"
      "market_status m = Open" "disputer p = Some ch" "out < length (outcomes c)"
    and call: "tc (collateral_token c) (subcall_env env (collateral_token c)) (current_contract env)
        (if out = proposed_outcome p then market_oracle m else ch) (dispute_bond p) w = Some w'"
    and t: "t = finalize_market m out s"
    using r by (auto simp: resolve_dispute_def get_resolution_def validate_outcome_def Let_def)
  note cm = conditional_market [OF ok b(2,1)]
  note S = settle_local [OF ok b(2,1), where m' = "m\<lparr>market_status := Resolved, winning_outcome := Some out\<rparr>"
      and rp = "Some p" and t = t]
  have wm: "winning_outcome m = None" using cm(1) b(4) unfolding pool_ok_def by (auto split: if_splits)
  have "books_ok t"
    by (rule S(1)) (use b cm(2) wm market_okD(4) [OF ok b(3)] in \<open>auto simp: t finalize_market_def market_setters fun_upd_idem\<close>)
  moreover have "liability tok t = liability tok s + (if collateral_token c = tok then open_bond t i - open_bond s i else 0)" for tok
    by (rule S(2)) (use b cm(2) wm market_okD(4) [OF ok b(3)] in \<open>auto simp: t finalize_market_def market_setters fun_upd_idem\<close>)
  moreover have "open_bond t i - open_bond s i = - dispute_bond p"
    using b cm(2) by (simp add: open_bond_def t finalize_market_def market_setters)
  ultimately show ?thesis
    using call unfolding pays_out_def
    by (intro exI [of _ "if out = proposed_outcome p then market_oracle m else ch"] exI [of _ "dispute_bond p"]) auto
qed

lemma new_market:
  assumes ok: "books_ok s" and i: "i = Suc (get_market_count s)"
  shows "Markets s i = None" "ConditionalMarkets s i = None" "Resolutions s i = None"
    "OutcomeBalances s (i, a, out) = None" "LiquidityBalances s (i, a) = None"
proof -
  show m: "Markets s i = None" using market_okD(1) [OF ok, of i] i by (cases "Markets s i") auto
  then show c: "ConditionalMarkets s i = None" using market_okD(5) [OF ok, of i] by (cases "ConditionalMarkets s i") auto
  show "Resolutions s i = None" using market_okD(4) [OF ok, of i] c by (cases "Resolutions s i") auto
  show "OutcomeBalances s (i, a, out) = None" using market_okD(2) [OF ok, of i a out] c by (cases "OutcomeBalances s (i, a, out)") auto
  show "LiquidityBalances s (i, a) = None" using market_okD(3) [OF ok, of i a] c by (cases "LiquidityBalances s (i, a)") auto
qed

lemma create_cond_Ok:
  assumes "create_conditional_market tc env a q mt outs d orc rs tok win x (w, s) = Ok (i, w', t)"
  shows "is_initialized s \<and> auth env a \<and> 2 \<le> length outs \<and> 0 < x \<and> i = Suc (get_market_count s) \<and> i \<le> u32_max \<and>
    tc tok (subcall_env env tok) a (current_contract env) x w = Some w' \<and>
    t = publish (Ev_mkt_crt i a d) (set_liquidity_balance i a x (set_conditional_market
      \<lparr>cm_market_id = i, outcomes = outs, collateral_token = tok, dispute_resolver = rs, dispute_window = win,
       minimum_dispute_bond = max (x sdiv 100) 1, pool_balances = replicate (length outs) x,
       total_liquidity_shares = x, collateral_locked = x\<rparr> (set_market
      \<lparr>market_id = i, creator = a, question = q, market_type = mt, market_status = Open, resolution_deadline = d,
       market_oracle = orc, winning_outcome = None, total_yes_stake = 0, total_no_stake = 0, created_at = timestamp env\<rparr>
      (s\<lparr>MarketCount := Some i\<rparr>))))"
  using assms
  by (auto simp: create_conditional_market_def increment_market_count_def Let_def MIN_OUTCOMES_def not_less not_le)

lemma create_cond_keeps:
  assumes ok: "books_ok s" and x: "in_i128 x"
    and r: "create_conditional_market tc env a q mt outs d orc rs tok win x (w, s) = Ok (i, w', t)"
  shows "takes_in tc env a x (w, s) (w', t)"
proof -
  note C = create_cond_Ok [OF r]
  have i: "i = Suc (get_market_count s)" using C by blast
  note N = new_market [OF ok i]
  define c where "c = \<lparr>cm_market_id = i, outcomes = outs, collateral_token = tok, dispute_resolver = rs, dispute_window = win,
       minimum_dispute_bond = max (x sdiv 100) 1, pool_balances = replicate (length outs) x,
       total_liquidity_shares = x, collateral_locked = x\<rparr>"
  define m where "m = \<lparr>market_id = i, creator = a, question = q, market_type = mt, market_status = Open, resolution_deadline = d,
       market_oracle = orc, winning_outcome = None, total_yes_stake = 0, total_no_stake = 0, created_at = timestamp env\<rparr>"
  have t: "t = publish (Ev_mkt_crt i a d) (set_liquidity_balance i a x (set_conditional_market c (set_market m (s\<lparr>MarketCount := Some i\<rparr>))))"
    using C unfolding c_def m_def by blast
  have T: "Markets t = (Markets s)(i \<mapsto> m)" "ConditionalMarkets t = (ConditionalMarkets s)(i \<mapsto> c)" "Resolutions t = Resolutions s"
      "OutcomeBalances t = OutcomeBalances s" "LiquidityBalances t = (LiquidityBalances s)((i, a) \<mapsto> x)"
      "get_market_count t = i"
    by (simp_all add: t market_setters get_market_count_def c_def m_def)
  have same: "same_at j s t" if "j \<noteq> i" for j using that by (simp add: same_at_def T)
  have h: "held_shares t i out = 0" for out by (simp add: held_shares_def T N total_bal_def)
  have "lp_total s i = 0" by (simp add: lp_total_def N total_bal_def)
  then have l: "lp_total t i = x" using lp_upd [OF ok T(5), of i] by (simp add: get_liquidity_balance_def N)
  have xo: "amount_ok x" using C x by (simp add: amount_ok_def)
  have o2: "2 \<le> length outs" using C by blast
  have P: "pool_ok t i c m"
    using o2 xo by (auto simp: pool_ok_def c_def m_def h l reserves_ok_def amount_ok_def)
  have i1: "1 \<le> i" using i by simp
  have "market_ok t i"
    unfolding market_ok_def T using P xo i1 by (simp add: N m_def)
  then have ok': "books_ok t"
    by (intro books_local [OF ok same]) (use books_okD [OF ok] i in \<open>simp_all add: T\<close>)
  have "liability k t = liability k s + (if tok = k then x else 0)" for k
    using liability_local [OF books_okD(3) [OF ok] same, where tok = k]
    by (simp add: due_def open_bond_def T N c_def)
  then show ?thesis using C ok' unfolding takes_in_def by auto
qed

text \<open>Operations that leave the collateral-backed part alone.\<close>

lemma initialize_keeps:
  assumes ok: "books_ok s" and r: "initialize env a s = Ok (u, t)"
  shows "books_ok t" "liability tok t = liability tok s"
proof -
  have t: "t = publish (Ev_init a) (set_admin a s)" using r by (auto simp: initialize_def split: if_splits)
  have same: "same_at j s t" for j by (simp add: same_at_def t market_setters)
  show "books_ok t"
    using books_local [OF ok same, of "0"] same_at_ok [OF same _ books_okD(4) [OF ok]] books_okD [OF ok]
    by (simp add: t market_setters get_market_count_def)
  have "due tok t = due tok s" by (rule ext) (rule same_at_due [OF same])
  then show "liability tok t = liability tok s" by (simp add: liability_def)
qed

lemma create_market_Ok:
  assumes "create_market env a q k d orc s = Ok (i, t)"
  shows "\<exists>mt. i = Suc (get_market_count s) \<and> auth env a \<and> t = publish (Ev_mkt_crt i a d) (set_market
      \<lparr>market_id = i, creator = a, question = q, market_type = mt, market_status = Open, resolution_deadline = d,
       market_oracle = orc, winning_outcome = None, total_yes_stake = 0, total_no_stake = 0, created_at = timestamp env\<rparr>
      (s\<lparr>MarketCount := Some i\<rparr>))"
  using assms by (auto simp: create_market_def increment_market_count_def Let_def split: if_splits)

lemma create_market_keeps:
  assumes ok: "books_ok s" and r: "create_market env a q k d orc s = Ok (i, t)"
  shows "books_ok t" "liability tok t = liability tok s"
proof -
  obtain mt where C: "i = Suc (get_market_count s) \<and> auth env a \<and> t = publish (Ev_mkt_crt i a d) (set_market
      \<lparr>market_id = i, creator = a, question = q, market_type = mt, market_status = Open, resolution_deadline = d,
       market_oracle = orc, winning_outcome = None, total_yes_stake = 0, total_no_stake = 0, created_at = timestamp env\<rparr>
      (s\<lparr>MarketCount := Some i\<rparr>))"
    using create_market_Ok [OF r] by (elim exE)
  define m where "m = \<lparr>market_id = i, creator = a, question = q, market_type = mt, market_status = Open, resolution_deadline = d,
       market_oracle = orc, winning_outcome = None, total_yes_stake = 0, total_no_stake = 0, created_at = timestamp env\<rparr>"
  have i: "i = Suc (get_market_count s)" and m: "market_id m = i"
    and t: "t = publish (Ev_mkt_crt i a d) (set_market m (s\<lparr>MarketCount := Some i\<rparr>))"
    using C unfolding m_def by auto
  note N = new_market [OF ok i]
  have T: "Markets t = (Markets s)(i \<mapsto> m)" "ConditionalMarkets t = ConditionalMarkets s" "Resolutions t = Resolutions s"
      "OutcomeBalances t = OutcomeBalances s" "LiquidityBalances t = LiquidityBalances s" "get_market_count t = i"
    by (simp_all add: t market_setters get_market_count_def m)
  have same: "same_at j s t" if "j \<noteq> i" for j using that by (simp add: same_at_def T)
  have i1: "1 \<le> i" using i by simp
  have "market_ok t i" unfolding market_ok_def T using i1 by (simp add: N m)
  then show "books_ok t" by (intro books_local [OF ok same]) (use books_okD [OF ok] i in \<open>simp_all add: T\<close>)
  show "liability tok t = liability tok s"
    using liability_local [OF books_okD(3) [OF ok] same, where tok = tok] by (simp add: due_def T N)
qed

text \<open>A bet changes the stakes of a market only.\<close>

lemma bet_Ok:
  assumes "place_bet env a i out x s = Ok (u, t)" "\<And>m. Markets s i = Some m \<Longrightarrow> market_id m = i"
  shows "\<exists>m p y n. Markets s i = Some m \<and> auth env a \<and> 0 < x \<and> out \<le> 1 \<and> market_status m = Open \<and>
    timestamp env < resolution_deadline m \<and>
    (Bets s (i, a) = None \<and> p = \<lparr>bet_market_id = i, trader = a, bet_outcome = out, bet_stake = x\<rparr> \<or>
     (\<exists>q. Bets s (i, a) = Some q \<and> bet_outcome q = out \<and> in_i128 (bet_stake q + x) \<and> p = q\<lparr>bet_stake := bet_stake q + x\<rparr>)) \<and>
    y = total_yes_stake m + (if out = 1 then x else 0) \<and> n = total_no_stake m + (if out = 1 then 0 else x) \<and>
    (if out = 1 then in_i128 y else in_i128 n) \<and>
    t = publish (Ev_bet i a out x) (set_market (m\<lparr>total_yes_stake := y, total_no_stake := n\<rparr>) (set_position p s))"
  using assms(1)
  by (auto simp: place_bet_def get_position_def Let_def not_le not_less split: if_splits option.splits)

lemma bet_keeps:
  assumes ok: "books_ok s" and r: "place_bet env a i out x s = Ok (u, t)"
  shows "books_ok t" "liability tok t = liability tok s"
proof -
  obtain m p y n where m: "Markets s i = Some m" "market_status m = Open"
    and t: "t = publish (Ev_bet i a out x) (set_market (m\<lparr>total_yes_stake := y, total_no_stake := n\<rparr>) (set_position p s))"
    using bet_Ok [OF r] market_okD(1) [OF ok] by blast
  have mi: "market_id m = i" using market_okD(1) [OF ok m(1)] by simp
  let ?m = "m\<lparr>total_yes_stake := y, total_no_stake := n\<rparr>"
  have T: "Markets t = (Markets s)(i \<mapsto> ?m)" "ConditionalMarkets t = ConditionalMarkets s" "Resolutions t = Resolutions s"
      "OutcomeBalances t = OutcomeBalances s" "LiquidityBalances t = LiquidityBalances s" "get_market_count t = get_market_count s"
    by (simp_all add: t market_setters get_market_count_def mi)
  have same: "same_at j s t" if "j \<noteq> i" for j using that by (simp add: same_at_def T)
  have "held_shares t i out = held_shares s i out" "lp_total t i = lp_total s i" for out
    by (simp_all add: held_shares_def lp_total_def T)
  then have P: "pool_ok t i c ?m = pool_ok s i c m" for c by (simp add: pool_ok_def)
  have "market_ok t i"
    using books_okD(4) [OF ok, of i] m mi P unfolding market_ok_def T by simp
  then show "books_ok t" by (intro books_local [OF ok same]) (use books_okD [OF ok] in \<open>simp_all add: T\<close>)
  have ob: "open_bond t i = open_bond s i" by (cases "Resolutions s i") (simp_all add: open_bond_def T m)
  have "due tok t i = due tok s i" unfolding due_def T ob ..
  then show "liability tok t = liability tok s"
    using liability_local [OF books_okD(3) [OF ok] same, where tok = tok] by simp
qed

text \<open>The direct resolution and the cancellation are refused for collateral-backed markets.\<close>

lemma plain_market_keeps:
  assumes ok: "books_ok s" and m: "Markets s i = Some m" "ConditionalMarkets s i = None" "market_id m' = market_id m"
    and t: "t = publish ev (set_market m' s)"
  shows "books_ok t" "liability tok t = liability tok s"
proof -
  have mi: "market_id m' = i" using market_okD(1) [OF ok m(1)] m(3) by simp
  have T: "Markets t = (Markets s)(i \<mapsto> m')" "ConditionalMarkets t = ConditionalMarkets s" "Resolutions t = Resolutions s"
      "OutcomeBalances t = OutcomeBalances s" "LiquidityBalances t = LiquidityBalances s" "get_market_count t = get_market_count s"
    by (simp_all add: t market_setters get_market_count_def mi)
  have same: "same_at j s t" if "j \<noteq> i" for j using that by (simp add: same_at_def T)
  have "market_ok t i" using books_okD(4) [OF ok, of i] m mi unfolding market_ok_def T by simp
  then show "books_ok t" by (intro books_local [OF ok same]) (use books_okD [OF ok] in \<open>simp_all add: T\<close>)
  show "liability tok t = liability tok s"
    using liability_local [OF books_okD(3) [OF ok] same, where tok = tok] by (simp add: due_def T m(2))
qed

lemma resolve_market_Ok:
  assumes "resolve_market env i out s = Ok (u, t)"
  shows "\<exists>m. Markets s i = Some m \<and> ConditionalMarkets s i = None \<and> auth env (market_oracle m) \<and> market_status m = Open \<and>
    out \<le> 1 \<and> t = publish (Ev_resolved i out) (set_market (m\<lparr>market_status := Resolved, winning_outcome := Some out\<rparr>) s)"
  using assms by (auto simp: resolve_market_def has_conditional_market_def Let_def split: if_splits)

lemma cancel_market_Ok:
  assumes "cancel_market env i s = Ok (u, t)"
  shows "\<exists>m a. Markets s i = Some m \<and> ConditionalMarkets s i = None \<and> Admin s = Some a \<and> auth env a \<and> market_status m = Open \<and>
    t = publish (Ev_mkt_can i) (set_market (m\<lparr>market_status := Cancelled\<rparr>) s)"
  using assms by (auto simp: cancel_market_def has_conditional_market_def get_admin_def split: if_splits)

lemma book_call_keeps:
  assumes "book_call env s t" "books_ok s"
  shows "books_ok t \<and> (\<forall>tok. liability tok t = liability tok s)"
  using assms(1)
proof cases
  case (initialize a u)
  then show ?thesis using initialize_keeps [OF assms(2)] by blast
next
  case (create a q m d orc i)
  then show ?thesis using create_market_keeps [OF assms(2)] by blast
next
  case (remove a i x xs)
  then show ?thesis using remove_keeps [OF assms(2)] by blast
next
  case (propose i out u)
  then show ?thesis using propose_keeps [OF assms(2)] by blast
next
  case (finalize i u)
  then show ?thesis using finalize_keeps [OF assms(2)] by blast
next
  case (bet a i out x u)
  then show ?thesis using bet_keeps [OF assms(2)] by blast
next
  case (resolve i out u)
  obtain m where "Markets s i = Some m" "ConditionalMarkets s i = None"
      "t = publish (Ev_resolved i out) (set_market (m\<lparr>market_status := Resolved, winning_outcome := Some out\<rparr>) s)"
    using resolve_market_Ok [OF resolve] by blast
  note k = plain_market_keeps [OF assms(2) this(1,2) _ this(3)]
  show ?thesis using k by simp
next
  case (cancel i u)
  obtain m where "Markets s i = Some m" "ConditionalMarkets s i = None"
      "t = publish (Ev_mkt_can i) (set_market (m\<lparr>market_status := Cancelled\<rparr>) s)"
    using cancel_market_Ok [OF cancel] by blast
  note k = plain_market_keeps [OF assms(2) this(1,2) _ this(3)]
  show ?thesis using k by simp
qed

section \<open>The contract on a ledger\<close>

lemma token_call_keeps:
  assumes "token_call tc env ws wt" "books_ok (snd ws)"
  shows "\<exists>a x. takes_in tc env a x ws wt \<or> pays_out tc env a x ws wt"
proof -
  obtain w s w' t where ws: "ws = (w, s)" "wt = (w', t)" by (cases ws, cases wt)
  have ok: "books_ok s" using assms(2) by (simp add: ws)
  show ?thesis
    using assms(1)
  proof cases
    case (create x a q m outs d orc r tok win i)
    show ?thesis using create_cond_keeps [OF ok create(1) create(2) [unfolded ws]] unfolding ws by blast
  next
    case (buy a i out x m n)
    show ?thesis using buy_keeps [OF ok buy [unfolded ws]] unfolding ws by blast
  next
    case (sell a i out x m n)
    show ?thesis using sell_keeps [OF ok sell [unfolded ws]] unfolding ws by blast
  next
    case (mint a i x u)
    show ?thesis using mint_keeps [OF ok mint [unfolded ws]] unfolding ws by blast
  next
    case (add a i x m n)
    show ?thesis using add_keeps [OF ok add [unfolded ws]] unfolding ws by blast
  next
    case (redeem_set a i x u)
    show ?thesis using redeem_set_keeps [OF ok redeem_set [unfolded ws]] unfolding ws by blast
  next
    case (dispute a i x u)
    show ?thesis using dispute_keeps [OF ok dispute [unfolded ws]] unfolding ws by blast
  next
    case (rule_dispute i out u)
    show ?thesis using rule_dispute_keeps [OF ok rule_dispute [unfolded ws]] unfolding ws by blast
  next
    case (redeem a i x u)
    show ?thesis using redeem_keeps [OF ok redeem [unfolded ws]] unfolding ws by blast
  qed
qed

definition market_inv ::
    "('w \<Rightarrow> address \<Rightarrow> address \<Rightarrow> int) \<Rightarrow> (address \<Rightarrow> 'w \<Rightarrow> bool) \<Rightarrow> address \<Rightarrow> 'w \<times> market_state \<Rightarrow> bool" where
  "market_inv bof ok self ws \<longleftrightarrow>
     books_ok (snd ws) \<and> ok self (fst ws) \<and> (\<forall>tok. liability tok (snd ws) \<le> bof (fst ws) tok self)"

context token_host
begin

lemma market_step_inv:
  assumes "market_step transfer_call (outside self) self ws wt" "market_inv balance_of world_ok self ws"
  shows "market_inv balance_of world_ok self wt"
  using assms
proof (induction rule: market_step.induct)
  case (book env s t w)
  then show ?case using book_call_keeps [OF book.hyps(3)] by (simp add: market_inv_def)
next
  case (tokens env ws wt)
  have ok: "books_ok (snd ws)" "world_ok self (fst ws)" "\<And>k. liability k (snd ws) \<le> balance_of (fst ws) k self"
    using tokens.prems by (simp_all add: market_inv_def)
  obtain a x where "takes_in transfer_call env a x ws wt \<or> pays_out transfer_call env a x ws wt"
    using token_call_keeps [OF tokens.hyps(3) ok(1)] by blast
  then show ?case
  proof
    assume t: "takes_in transfer_call env a x ws wt"
    then obtain tok where a: "a \<noteq> self" "books_ok (snd wt)"
      and call: "transfer_call tok (subcall_env env tok) a self x (fst ws) = Some (fst wt)"
      and l: "\<And>k. liability k (snd wt) = liability k (snd ws) + (if tok = k then x else 0)"
      using tokens.hyps(1,2) unfolding takes_in_def by blast
    show ?thesis
      using a(2) ok(3) transfer_keeps_ok [OF ok(2) call] l leg_in [OF call a(1)] by (auto simp: market_inv_def)
  next
    assume t: "pays_out transfer_call env a x ws wt"
    then obtain tok where b: "books_ok (snd wt)"
      and call: "transfer_call tok (subcall_env env tok) self a x (fst ws) = Some (fst wt)"
      and l: "\<And>k. liability k (snd wt) = liability k (snd ws) - (if tok = k then x else 0)"
      using tokens.hyps(2) unfolding pays_out_def by blast
    have "liability k (snd wt) \<le> balance_of (fst wt) k self" for k
      using l [of k] ok(3) [of k] leg_out_ge [OF call, of k] by linarith
    then show ?thesis using b transfer_keeps_ok [OF ok(2) call] by (simp add: market_inv_def)
  qed
next
  case (other w w' s)
  then show ?case
    using outside_ok [of self w w'] outside_keeps [of self w w'] by (auto simp: market_inv_def intro: order_trans)
qed

lemma market_run_keeps:
  assumes "(market_step transfer_call (outside self) self)\<^sup>*\<^sup>* ws wt" "market_inv balance_of world_ok self ws"
  shows "market_inv balance_of world_ok self wt"
  using assms by (induction rule: rtranclp_induct) (auto intro: market_step_inv)

lemma market_empty_inv: "world_ok self w \<Longrightarrow> market_inv balance_of world_ok self (w, empty_markets)"
proof -
  assume w: "world_ok self w"
  have "due tok empty_markets = Map.empty" for tok by (rule ext) (simp add: due_def empty_markets_def)
  then have "liability tok empty_markets = 0" for tok by (simp add: liability_def)
  then show ?thesis
    using w by (simp add: market_inv_def own_balance_nonneg) (simp add: books_ok_def market_ok_def empty_markets_def)
qed

lemma market_run_inv:
  assumes "(market_step transfer_call (outside self) self)\<^sup>*\<^sup>* (w, empty_markets) ws" "world_ok self w"
  shows "market_inv balance_of world_ok self ws"
  using assms by (intro market_run_keeps [OF assms(1)] market_empty_inv)

end

end
