(* ===== verification/Market_Bets_Correct.thy ===== *)
theory Market_Bets_Correct
  imports Market_Books_Correct
begin

text \<open>
  What the calls of the prediction markets do to markets and bets: a market settles at most once and
  only by the rules, and the recorded stakes are exactly the sums of the bets.
\<close>

section \<open>How a call changes the markets\<close>

text \<open>An open market is settled: by the oracle's unchallenged proposal after its dispute window, by the
  ruling on a disputed one, or, without collateral, by its oracle or the admin.\<close>

definition settles :: "env \<Rightarrow> market_state \<Rightarrow> nat \<Rightarrow> Market \<Rightarrow> Market \<Rightarrow> bool" where
  "settles env s i m m' \<longleftrightarrow> market_status m = Open \<and>
     m' = m\<lparr>market_status := market_status m', winning_outcome := winning_outcome m'\<rparr> \<and>
     (case ConditionalMarkets s i of
        Some c \<Rightarrow> market_status m' = Resolved \<and> (\<exists>p. Resolutions s i = Some p \<and>
          (disputer p = None \<and> winning_outcome m' = Some (proposed_outcome p) \<and> dispute_deadline p \<le> timestamp env \<or>
           disputer p \<noteq> None \<and> auth env (dispute_resolver c)))
      | None \<Rightarrow> market_status m' = Resolved \<and> auth env (market_oracle m) \<or>
          market_status m' = Cancelled \<and> winning_outcome m' = winning_outcome m \<and> (\<exists>a. Admin s = Some a \<and> auth env a))"

definition opens :: "Market option \<Rightarrow> Market option \<Rightarrow> bool" where
  "opens x y \<longleftrightarrow> x = None \<and> (\<exists>m. y = Some m \<and> total_yes_stake m = 0 \<and> total_no_stake m = 0)"

definition markets_frame :: "env \<Rightarrow> market_state \<Rightarrow> market_state \<Rightarrow> bool" where
  "markets_frame env s t \<longleftrightarrow> is_initialized s \<and> Admin t = Admin s \<and> Bets t = Bets s \<and>
     (\<forall>i. Markets t i = Markets s i \<or> opens (Markets s i) (Markets t i) \<or>
        (\<exists>m m'. Markets s i = Some m \<and> Markets t i = Some m' \<and> settles env s i m m'))"

lemma markets_frame_same:
  "is_initialized s \<Longrightarrow> Admin t = Admin s \<Longrightarrow> Bets t = Bets s \<Longrightarrow> Markets t = Markets s \<Longrightarrow> markets_frame env s t"
  by (simp add: markets_frame_def)

lemma markets_frame_open:
  "is_initialized s \<Longrightarrow> Admin t = Admin s \<Longrightarrow> Bets t = Bets s \<Longrightarrow> Markets t = (Markets s)(i \<mapsto> m) \<Longrightarrow>
    opens (Markets s i) (Some m) \<Longrightarrow> markets_frame env s t"
  by (simp add: markets_frame_def)

lemma markets_frame_settle:
  "is_initialized s \<Longrightarrow> Admin t = Admin s \<Longrightarrow> Bets t = Bets s \<Longrightarrow> Markets t = (Markets s)(i \<mapsto> m') \<Longrightarrow>
    Markets s i = Some m \<Longrightarrow> settles env s i m m' \<Longrightarrow> markets_frame env s t"
  by (simp add: markets_frame_def)

text \<open>The loops over the outcome balances touch nothing else.\<close>

definition shares_only :: "market_state \<Rightarrow> market_state \<Rightarrow> bool" where
  "shares_only s t \<longleftrightarrow> Admin t = Admin s \<and> Bets t = Bets s \<and> Markets t = Markets s"

lemma shares_only_set: "shares_only (set_outcome_balance i a out x s) t \<longleftrightarrow> shares_only s t"
  by (simp add: shares_only_def set_outcome_balance_def)

lemma credit_loop_only: "credit_loop i a x outs s = Ok t \<Longrightarrow> shares_only s t"
proof (induction outs arbitrary: s)
  case (Cons out outs)
  then show ?case by (auto simp: shares_only_set dest!: Cons.IH)
qed (simp add: shares_only_def)

lemma debit_loop_only: "debit_loop i a x outs s = Ok t \<Longrightarrow> shares_only s t"
proof (induction outs arbitrary: s)
  case (Cons out outs)
  then show ?case by (auto simp: shares_only_set dest!: Cons.IH)
qed (simp add: shares_only_def)

lemma withdraw_loop_only: "withdraw_loop i a l n k rs s = Ok (xs, pool, t) \<Longrightarrow> shares_only s t"
proof (induction rs arbitrary: k s xs pool)
  case (Cons r rs)
  then show ?case by (auto simp: shares_only_set dest!: Cons.IH split: if_splits)
qed (simp add: shares_only_def)

lemma bets_ensure_initialized_Ok [simp]: "ensure_initialized s = Ok u \<longleftrightarrow> is_initialized s"
  by (simp add: ensure_initialized_def)

lemma starts_initialized:
  "remove_liquidity env a i x s = Ok r1 \<Longrightarrow> is_initialized s"
  "propose_resolution env i out s = Ok r2 \<Longrightarrow> is_initialized s"
  "finalize_resolution env i s = Ok r2 \<Longrightarrow> is_initialized s"
  "place_bet env a i out x s = Ok r2 \<Longrightarrow> is_initialized s"
  "resolve_market env i out s = Ok r2 \<Longrightarrow> is_initialized s"
  "cancel_market env i s = Ok r2 \<Longrightarrow> is_initialized s"
  "create_market env a q k d orc s = Ok r3 \<Longrightarrow> is_initialized s"
  by (auto simp: remove_liquidity_def propose_resolution_def finalize_resolution_def place_bet_def
      resolve_market_def cancel_market_def create_market_def)

lemma starts_initialized_tokens:
  "buy_shares tc env a i out x mn (w, s) = Ok r1 \<Longrightarrow> is_initialized s"
  "sell_shares tc env a i out x mn (w, s) = Ok r1 \<Longrightarrow> is_initialized s"
  "mint_complete_set tc env a i x (w, s) = Ok r2 \<Longrightarrow> is_initialized s"
  "add_liquidity tc env a i x mn (w, s) = Ok r1 \<Longrightarrow> is_initialized s"
  "redeem_complete_set tc env a i x (w, s) = Ok r2 \<Longrightarrow> is_initialized s"
  "dispute_resolution tc env a i x (w, s) = Ok r2 \<Longrightarrow> is_initialized s"
  "resolve_dispute tc env i out (w, s) = Ok r2 \<Longrightarrow> is_initialized s"
  "redeem_winnings tc env a i x (w, s) = Ok r2 \<Longrightarrow> is_initialized s"
  by (auto simp: buy_shares_def sell_shares_def mint_complete_set_def add_liquidity_def redeem_complete_set_def
      dispute_resolution_def resolve_dispute_def redeem_winnings_def)

lemma book_call_frame:
  assumes "book_call env s t" "books_ok s"
  shows "markets_frame env s t \<or> (\<exists>a. Admin s = None \<and> t = publish (Ev_init a) (set_admin a s)) \<or>
    (\<exists>a i out x u. place_bet env a i out x s = Ok (u, t))"
  using assms(1)
proof cases
  case (initialize a u)
  then have "Admin s = None \<and> t = publish (Ev_init a) (set_admin a s)"
    by (auto simp: initialize_def is_initialized_def split: if_splits)
  then show ?thesis by blast
next
  case (create a q m d orc i)
  note C = create_market_Ok [OF create]
  have i: "i = Suc (get_market_count s)" using C by blast
  show ?thesis
    using C starts_initialized(7) [OF create] new_market(1) [OF assms(2) i]
    by (intro disjI1) (auto intro!: markets_frame_open simp: market_setters opens_def)
next
  case (remove a i x xs)
  obtain c pool s1 where "withdraw_loop i a x (total_liquidity_shares c) 0 (pool_balances c) s = Ok (xs, pool, s1)"
    and t: "t = publish (Ev_removed i a x) (set_conditional_market
      (c\<lparr>pool_balances := pool, total_liquidity_shares := total_liquidity_shares c - x\<rparr>)
      (set_liquidity_balance i a (get_liquidity_balance s i a - x) s1))"
    using remove_Ok [OF remove] by blast
  then show ?thesis
    using starts_initialized(1) [OF remove] withdraw_loop_only [of i a x "total_liquidity_shares c" 0 "pool_balances c" s xs pool s1]
    by (intro disjI1 markets_frame_same) (simp_all add: market_setters shares_only_def)
next
  case (propose i out u)
  then show ?thesis
    using starts_initialized(2) [OF propose]
    by (intro disjI1 markets_frame_same) (auto simp: propose_resolution_def market_setters Let_def)
next
  case (finalize i u)
  then obtain m c p where b: "Markets s i = Some m" "ConditionalMarkets s i = Some c" "Resolutions s i = Some p"
      "market_status m = Open" "disputer p = None" "dispute_deadline p \<le> timestamp env"
      and t: "t = finalize_market m (proposed_outcome p) s"
    by (auto simp: finalize_resolution_def get_resolution_def)
  have "market_id m = i" using market_okD(1) [OF assms(2) b(1)] by simp
  then show ?thesis
    using starts_initialized(3) [OF finalize] b
    by (intro disjI1 markets_frame_settle [OF _ _ _ _ b(1)])
      (auto simp: t finalize_market_def market_setters settles_def)
next
  case (bet a i out x u)
  then show ?thesis by blast
next
  case (resolve i out u)
  obtain m where b: "Markets s i = Some m" "ConditionalMarkets s i = None" "auth env (market_oracle m)" "market_status m = Open"
    and t: "t = publish (Ev_resolved i out) (set_market (m\<lparr>market_status := Resolved, winning_outcome := Some out\<rparr>) s)"
    using resolve_market_Ok [OF resolve] by blast
  have "market_id m = i" using market_okD(1) [OF assms(2) b(1)] by simp
  then show ?thesis
    using starts_initialized(5) [OF resolve] b
    by (intro disjI1 markets_frame_settle [OF _ _ _ _ b(1)]) (auto simp: t market_setters settles_def)
next
  case (cancel i u)
  obtain m a where b: "Markets s i = Some m" "ConditionalMarkets s i = None" "Admin s = Some a" "auth env a" "market_status m = Open"
    and t: "t = publish (Ev_mkt_can i) (set_market (m\<lparr>market_status := Cancelled\<rparr>) s)"
    using cancel_market_Ok [OF cancel] by blast
  have "market_id m = i" using market_okD(1) [OF assms(2) b(1)] by simp
  then show ?thesis
    using starts_initialized(6) [OF cancel] b
    by (intro disjI1 markets_frame_settle [OF _ _ _ _ b(1)]) (auto simp: t market_setters settles_def)
qed

lemma token_call_frame:
  assumes "token_call tc env (w, s) (w', t)" "books_ok s"
  shows "markets_frame env s t"
  using assms(1)
proof cases
  case (create x a q m outs d orc r tok win i)
  note C = create_cond_Ok [OF create(2)]
  have i: "i = Suc (get_market_count s)" using C by blast
  show ?thesis
    using C new_market(1) [OF assms(2) i] by (auto intro!: markets_frame_open simp: market_setters opens_def)
next
  case (buy a i out x m n)
  then show ?thesis
    using starts_initialized_tokens(1) [OF buy] buy_Ok [OF buy] by (auto intro!: markets_frame_same simp: market_setters)
next
  case (sell a i out x m n)
  then show ?thesis
    using starts_initialized_tokens(2) [OF sell] sell_Ok [OF sell] by (auto intro!: markets_frame_same simp: market_setters)
next
  case (mint a i x u)
  obtain c s1 where "credit_loop i a x [0..<length (outcomes c)] s = Ok s1"
    and t: "t = publish (Ev_ct_mint i a x) (set_conditional_market (c\<lparr>collateral_locked := collateral_locked c + x\<rparr>) s1)"
    using mint_Ok [OF mint] by blast
  then show ?thesis
    using starts_initialized_tokens(3) [OF mint] credit_loop_only [of i a x _ s s1]
    by (intro markets_frame_same) (auto simp: market_setters shares_only_def)
next
  case (add a i x m n)
  then show ?thesis
    using starts_initialized_tokens(4) [OF add] add_Ok [OF add] by (auto intro!: markets_frame_same simp: market_setters)
next
  case (redeem_set a i x u)
  obtain c s1 where "debit_loop i a x [0..<length (outcomes c)] s = Ok s1"
    and t: "t = publish (Ev_redeemed_set i a x) (set_conditional_market (c\<lparr>collateral_locked := collateral_locked c - x\<rparr>) s1)"
    using redeem_set_Ok [OF redeem_set] by blast
  then show ?thesis
    using starts_initialized_tokens(5) [OF redeem_set] debit_loop_only [of i a x _ s s1]
    by (intro markets_frame_same) (auto simp: market_setters shares_only_def)
next
  case (dispute a i x u)
  then show ?thesis
    using starts_initialized_tokens(6) [OF dispute]
    by (intro markets_frame_same) (auto simp: dispute_resolution_def market_setters Let_def)
next
  case (rule_dispute i out u)
  then obtain m c p where b: "Markets s i = Some m" "ConditionalMarkets s i = Some c" "Resolutions s i = Some p"
      "market_status m = Open" "disputer p \<noteq> None" "auth env (dispute_resolver c)"
    and t: "t = finalize_market m out s"
    by (auto simp: resolve_dispute_def get_resolution_def Let_def)
  have "market_id m = i" using market_okD(1) [OF assms(2) b(1)] by simp
  then show ?thesis
    using starts_initialized_tokens(7) [OF rule_dispute] b
    by (intro markets_frame_settle [OF _ _ _ _ b(1)]) (auto simp: t finalize_market_def market_setters settles_def)
next
  case (redeem a i x u)
  then show ?thesis
    using starts_initialized_tokens(8) [OF redeem] redeem_Ok [OF redeem] by (auto intro!: markets_frame_same simp: market_setters)
qed

section \<open>Stakes\<close>

text \<open>The bets on one outcome, and their sum.\<close>

definition bets_on :: "market_state \<Rightarrow> nat \<Rightarrow> nat \<Rightarrow> address \<Rightarrow> int option" where
  "bets_on s i out a =
     (case Bets s (i, a) of
        Some p \<Rightarrow> if bet_outcome p = out then Some (bet_stake p) else None | None \<Rightarrow> None)"

definition staked :: "market_state \<Rightarrow> nat \<Rightarrow> nat \<Rightarrow> int" where
  "staked s i out = total_bal (bets_on s i out)"

definition bet_ok :: "market_state \<Rightarrow> nat \<times> address \<Rightarrow> BetPosition \<Rightarrow> bool" where
  "bet_ok s k p \<longleftrightarrow> bet_market_id p = fst k \<and> trader p = snd k \<and> bet_outcome p \<le> 1 \<and> amount_ok (bet_stake p) \<and>
     Markets s (fst k) \<noteq> None"

definition stakes_ok :: "market_state \<Rightarrow> bool" where
  "stakes_ok s \<longleftrightarrow> finite (dom (Bets s)) \<and> (\<forall>k p. Bets s k = Some p \<longrightarrow> bet_ok s k p) \<and>
     (\<forall>i m. Markets s i = Some m \<longrightarrow> is_initialized s \<and> amount_ok (total_yes_stake m) \<and> amount_ok (total_no_stake m) \<and>
        total_yes_stake m = staked s i 1 \<and> total_no_stake m = staked s i 0)"

lemma stakes_okD:
  assumes "stakes_ok s"
  shows "finite (dom (Bets s))" "Bets s k = Some p \<Longrightarrow> bet_ok s k p"
    "Markets s i = Some m \<Longrightarrow> is_initialized s \<and> amount_ok (total_yes_stake m) \<and> amount_ok (total_no_stake m) \<and>
       total_yes_stake m = staked s i 1 \<and> total_no_stake m = staked s i 0"
  using assms unfolding stakes_ok_def by blast+

lemma finite_bets: "stakes_ok s \<Longrightarrow> finite (dom (bets_on s i out))"
  by (rule finite_subset [OF _ finite_imageI [OF stakes_okD(1), of s snd]])
    (force simp: bets_on_def split: option.splits)+

lemma staked_cong: "(\<And>a. Bets t (i, a) = Bets s (i, a)) \<Longrightarrow> staked t i out = staked s i out"
proof -
  assume "\<And>a. Bets t (i, a) = Bets s (i, a)"
  then have "bets_on t i out = bets_on s i out" by (intro ext) (simp add: bets_on_def)
  then show ?thesis by (simp add: staked_def)
qed

lemma staked_none: "stakes_ok s \<Longrightarrow> Markets s i = None \<Longrightarrow> staked s i out = 0"
proof -
  assume ok: "stakes_ok s" and m: "Markets s i = None"
  have "Bets s (i, a) = None" for a
    using stakes_okD(2) [OF ok, of "(i, a)"] m by (cases "Bets s (i, a)") (simp_all add: bet_ok_def)
  then have "bets_on s i out = Map.empty" by (intro ext) (simp add: bets_on_def)
  then show ?thesis by (simp add: staked_def)
qed

lemma stakes_frame:
  assumes ok: "stakes_ok s" and fr: "markets_frame env s t"
  shows "stakes_ok t"
proof -
  have b: "Bets t = Bets s" and i: "is_initialized s" "is_initialized t"
    using fr by (simp_all add: markets_frame_def is_initialized_def)
  have m: "Markets t j = Markets s j \<or> opens (Markets s j) (Markets t j) \<or>
      (\<exists>m m'. Markets s j = Some m \<and> Markets t j = Some m' \<and> settles env s j m m')" for j
    using fr by (simp add: markets_frame_def)
  have st: "staked t j out = staked s j out" for j out by (rule staked_cong) (simp add: b)
  have "bet_ok t k p" if "Bets t k = Some p" for k p
    using stakes_okD(2) [OF ok, of k p] that m [of "fst k"] by (auto simp: bet_ok_def b opens_def)
  moreover have "amount_ok (total_yes_stake m') \<and> amount_ok (total_no_stake m') \<and>
        total_yes_stake m' = staked t j 1 \<and> total_no_stake m' = staked t j 0" if m': "Markets t j = Some m'" for j m'
    using m [of j]
  proof (elim disjE exE conjE)
    assume "Markets t j = Markets s j"
    then have "Markets s j = Some m'" using m' by simp
    then show ?thesis using stakes_okD(3) [OF ok] unfolding st by blast
  next
    assume "opens (Markets s j) (Markets t j)"
    then show ?thesis using staked_none [OF ok, of j] m' by (auto simp: opens_def st amount_ok_def in_i128_def i128_max_def i128_min_def)
  next
    fix m n assume a: "Markets s j = Some m" "Markets t j = Some n" "settles env s j m n"
    obtain x y where "n = m\<lparr>market_status := x, winning_outcome := y\<rparr>" using a(3) unfolding settles_def by blast
    then have "total_yes_stake n = total_yes_stake m" "total_no_stake n = total_no_stake m" by simp_all
    moreover have "n = m'" using a(2) m' by simp
    ultimately show ?thesis using stakes_okD(3) [OF ok a(1)] unfolding st by metis
  qed
  moreover have "finite (dom (Bets t))" using stakes_okD(1) [OF ok] by (simp add: b)
  ultimately show ?thesis using i(2) unfolding stakes_ok_def by blast
qed

text \<open>A bet adds its amount to one of the two sums.\<close>

lemma bet_stakes:
  assumes ok: "stakes_ok s" and bk: "books_ok s" and r: "place_bet env a i out x s = Ok (u, t)"
  shows "stakes_ok t"
proof -
  obtain m p y n where m: "Markets s i = Some m" and x: "0 < x" "out \<le> 1"
    and p: "Bets s (i, a) = None \<and> p = \<lparr>bet_market_id = i, trader = a, bet_outcome = out, bet_stake = x\<rparr> \<or>
      (\<exists>q. Bets s (i, a) = Some q \<and> bet_outcome q = out \<and> in_i128 (bet_stake q + x) \<and> p = q\<lparr>bet_stake := bet_stake q + x\<rparr>)"
    and yn: "y = total_yes_stake m + (if out = 1 then x else 0)" "n = total_no_stake m + (if out = 1 then 0 else x)"
      "if out = 1 then in_i128 y else in_i128 n"
    and t: "t = publish (Ev_bet i a out x) (set_market (m\<lparr>total_yes_stake := y, total_no_stake := n\<rparr>) (set_position p s))"
    using bet_Ok [OF r] market_okD(1) [OF bk] by blast
  have mi: "market_id m = i" using market_okD(1) [OF bk m] by simp
  have M: "is_initialized s" "amount_ok (total_yes_stake m)" "amount_ok (total_no_stake m)"
      "total_yes_stake m = staked s i 1" "total_no_stake m = staked s i 0"
    using stakes_okD(3) [OF ok m] by blast+
  have q: "bet_ok s (i, a) q" if "Bets s (i, a) = Some q" for q by (rule stakes_okD(2) [OF ok that])
  have pk: "bet_market_id p = i" "trader p = a" "bet_outcome p = out"
      "bet_stake p = bal (bets_on s i out) a + x"
    using p q by (auto simp: bet_ok_def bets_on_def bal_def)
  have all: "bal (bets_on s i out) b \<ge> 0" for b
    using stakes_okD(2) [OF ok, of "(i, b)"]
    by (auto simp: bal_def bets_on_def bet_ok_def amount_ok_def split: option.splits)
  have S: "bal (bets_on s i out) a \<le> staked s i out"
    unfolding staked_def by (rule bal_le_total [OF finite_bets [OF ok] all])
  have "out = 0 \<or> out = 1" using x(2) by auto
  then have fit: "in_i128 (staked s i out + x)" using yn M by auto
  have pa: "amount_ok (bet_stake p)"
    unfolding amount_ok_def using pk(4) all [of a] x(1) S by (auto intro: in_i128_le [OF fit])
  have T: "Bets t = (Bets s)((i, a) \<mapsto> p)" "Markets t = (Markets s)(i \<mapsto> m\<lparr>total_yes_stake := y, total_no_stake := n\<rparr>)"
      "is_initialized t = is_initialized s"
    by (simp_all add: t market_setters mi pk is_initialized_def)
  have other: "Bets s (i, a) = Some q' \<Longrightarrow> bet_outcome q' = out" for q' using p by auto
  have on: "bets_on t i out = (bets_on s i out)(a \<mapsto> bet_stake p)"
    by (rule ext) (simp add: bets_on_def T pk)
  have off: "bets_on t i o' = bets_on s i o'" if "o' \<noteq> out" for o'
    by (rule ext) (use that other in \<open>auto simp: bets_on_def T pk split: option.splits\<close>)
  have st: "staked t i o' = staked s i o' + (if o' = out then x else 0)" for o'
    using off [of o'] total_bal_upd [OF finite_bets [OF ok], of i out a "bet_stake p"] pk(4)
    by (cases "o' = out") (simp_all add: staked_def on del: fun_upd_apply)
  have st': "staked t j o' = staked s j o'" if "j \<noteq> i" for j o'
    by (rule staked_cong) (use that in \<open>simp add: T\<close>)
  have B: "bet_ok t k p'" if "Bets t k = Some p'" for k p'
  proof (cases "k = (i, a)")
    case True
    then show ?thesis using that pk pa x(2) by (simp add: bet_ok_def T)
  next
    case False
    then show ?thesis using stakes_okD(2) [OF ok, of k p'] that by (simp add: bet_ok_def T)
  qed
  have new: "y = staked t i 1" "n = staked t i 0" using yn(1,2) M(4,5) x(2) by (auto simp: st)
  have ya: "amount_ok y" "amount_ok n"
    using yn x M(2,3) by (auto simp: amount_ok_def split: if_splits)
  have Mk: "is_initialized t \<and> amount_ok (total_yes_stake m') \<and> amount_ok (total_no_stake m') \<and>
      total_yes_stake m' = staked t j 1 \<and> total_no_stake m' = staked t j 0" if m': "Markets t j = Some m'" for j m'
  proof (cases "j = i")
    case True
    then have "m' = m\<lparr>total_yes_stake := y, total_no_stake := n\<rparr>" using m' by (simp add: T)
    then show ?thesis using M(1) new ya by (simp add: T True)
  next
    case False
    then have "Markets s j = Some m'" using m' by (simp add: T)
    then show ?thesis using stakes_okD(3) [OF ok] unfolding st' [OF False] T(3) by blast
  qed
  have "finite (dom (Bets t))" using stakes_okD(1) [OF ok] by (simp add: T(1))
  then show ?thesis unfolding stakes_ok_def using B Mk by blast
qed

lemma book_call_stakes:
  assumes "book_call env s t" "books_ok s" "stakes_ok s"
  shows "stakes_ok t"
proof -
  consider "markets_frame env s t" | a where "Admin s = None" "t = publish (Ev_init a) (set_admin a s)"
    | a i out x u where "place_bet env a i out x s = Ok (u, t)"
    using book_call_frame [OF assms(1,2)] by blast
  then show ?thesis
  proof cases
    case 1
    then show ?thesis by (rule stakes_frame [OF assms(3)])
  next
    case (2 a)
    have "Markets s i = None" for i
      using stakes_okD(3) [OF assms(3), of i] 2(1) by (cases "Markets s i") (auto simp: is_initialized_def)
    moreover from this have "Bets s k = None" for k
      using stakes_okD(2) [OF assms(3), of k] by (cases "Bets s k") (simp_all add: bet_ok_def)
    ultimately show ?thesis using stakes_okD(1) [OF assms(3)] by (simp add: 2(2) stakes_ok_def market_setters)
  next
    case 3
    then show ?thesis by (rule bet_stakes [OF assms(3,2)])
  qed
qed

lemma stakes_empty: "stakes_ok empty_markets"
  by (simp add: stakes_ok_def empty_markets_def)

context token_host
begin

lemma market_run_stakes:
  assumes "(market_step transfer_call (outside self) self)\<^sup>*\<^sup>* (w0, empty_markets) ws" "world_ok self w0"
  shows "stakes_ok (snd ws)"
  using assms(1)
proof (induction rule: rtranclp_induct)
  case base
  then show ?case by (simp add: stakes_empty)
next
  case (step ws wt)
  have "books_ok (snd ws)" using market_run_inv [OF step.hyps(1) assms(2)] by (simp add: market_inv_def)
  with step.hyps(2) step.IH show ?case
  proof cases
    case (book env s t w)
    then show ?thesis using book_call_stakes \<open>books_ok (snd ws)\<close> step.IH by simp
  next
    case (tokens env)
    then show ?thesis
      using token_call_frame [of transfer_call env "fst ws" "snd ws" "fst wt" "snd wt"] stakes_frame [OF step.IH]
        \<open>books_ok (snd ws)\<close> by simp
  next
    case (other w w' s)
    then show ?thesis using step.IH by simp
  qed
qed

end

end
