(* ===== verification/Market_Correct.thy ===== *)
theory Market_Correct
  imports Market_Bets_Correct
begin

text \<open>
  The properties of the prediction markets on the repository's own token, with a concrete run: a
  binary market at contract 99 with collateral token 40, a purchase, two bets and a settlement.
\<close>

abbreviation repo_market_step :: "address \<Rightarrow> token_world \<times> market_state \<Rightarrow> token_world \<times> market_state \<Rightarrow> bool" where
  "repo_market_step self \<equiv> market_step world_transfer (world_outside self) self"

section \<open>Facts of every reachable state\<close>

lemma reachable_market:
  assumes "(repo_market_step self)\<^sup>*\<^sup>* (w0, empty_markets) (w, s)" "world_ok self w0"
  shows "books_ok s" "stakes_ok s" "world_ok self w" "liability tok s \<le> world_balance w tok self"
  using repo_host.market_run_inv [OF assms] repo_host.market_run_stakes [OF assms] by (simp_all add: market_inv_def)

lemma due_nonneg:
  assumes "books_ok s" shows "0 \<le> bal (due tok s) i"
proof -
  have b: "0 \<le> open_bond s i"
    using market_okD(4) [OF assms, of i] by (auto simp: open_bond_def split: option.splits)
  show ?thesis
    using books_pool [OF assms, of i] b
    by (cases "ConditionalMarkets s i") (auto simp: bal_def due_def pool_ok_def amount_ok_def)
qed

lemma locked_covered:
  assumes "books_ok s" "ConditionalMarkets s i = Some c"
  shows "collateral_locked c \<le> liability (collateral_token c) s"
proof -
  let ?d = "due (collateral_token c) s"
  have fin: "finite (dom ?d)" by (rule finite_subset [OF _ books_okD(3) [OF assms(1)]]) (auto simp: due_def)
  have "0 \<le> open_bond s i"
    using market_okD(4) [OF assms(1), of i] by (auto simp: open_bond_def split: option.splits)
  then have "collateral_locked c \<le> bal ?d i" using assms(2) by (simp add: bal_def due_def)
  also have "\<dots> \<le> liability (collateral_token c) s"
    unfolding liability_def by (rule bal_le_total [OF fin due_nonneg [OF assms(1)]])
  finally show ?thesis .
qed

lemma share_held:
  assumes "books_ok s" shows "get_outcome_balance s i a out \<le> held_shares s i out"
proof -
  have fin: "finite (dom (\<lambda>b. OutcomeBalances s (i, b, out)))"
    by (rule finite_subset [OF _ finite_imageI [OF books_okD(1) [OF assms], of "\<lambda>k. fst (snd k)"]]) force
  show ?thesis
    unfolding held_shares_def
    using bal_le_total [OF fin, of a] outcome_balance_ok [OF assms, of i _ out] by (simp add: bal_outcome amount_ok_def)
qed

section \<open>A concrete run\<close>

definition demo_question :: Market where
  "demo_question = \<lparr>market_id = 1, creator = 5, question = ''Q'', market_type = Binary, market_status = Open,
     resolution_deadline = 100, market_oracle = 7, winning_outcome = None, total_yes_stake = 0,
     total_no_stake = 0, created_at = 10\<rparr>"

definition demo_conditional :: ConditionalMarket where
  "demo_conditional = \<lparr>cm_market_id = 1, outcomes = [''NO'', ''YES''], collateral_token = 40,
     dispute_resolver = 8, dispute_window = 50, minimum_dispute_bond = 6, pool_balances = [600, 600],
     total_liquidity_shares = 600, collateral_locked = 600\<rparr>"

definition demo_markets :: market_state where
  "demo_markets = empty_markets\<lparr>Admin := Some 1, events := [Ev_init 1]\<rparr>"

definition demo_market_open :: market_state where
  "demo_market_open = demo_markets\<lparr>MarketCount := Some 1, Markets := [1 \<mapsto> demo_question],
     ConditionalMarkets := [1 \<mapsto> demo_conditional], LiquidityBalances := [(1, 5) \<mapsto> 600],
     events := [Ev_init 1, Ev_mkt_crt 1 5 100]\<rparr>"

definition demo_bought :: ConditionalMarket where
  "demo_bought = demo_conditional\<lparr>pool_balances := [700, 515], collateral_locked := 700\<rparr>"

definition demo_market_bought :: market_state where
  "demo_market_bought = demo_market_open\<lparr>ConditionalMarkets := [1 \<mapsto> demo_bought],
     OutcomeBalances := [(1, 5, 1) \<mapsto> 185],
     events := [Ev_init 1, Ev_mkt_crt 1 5 100, Ev_shares 1 1 5 100 185]\<rparr>"

definition demo_market_bet :: market_state where
  "demo_market_bet = demo_market_bought\<lparr>Markets := [1 \<mapsto> demo_question\<lparr>total_yes_stake := 30\<rparr>],
     Bets := [(1, 8) \<mapsto> \<lparr>bet_market_id = 1, trader = 8, bet_outcome = 1, bet_stake = 30\<rparr>],
     events := [Ev_init 1, Ev_mkt_crt 1 5 100, Ev_shares 1 1 5 100 185, Ev_bet 1 8 1 30]\<rparr>"

definition demo_market_bets :: market_state where
  "demo_market_bets = demo_market_bet\<lparr>Markets := [1 \<mapsto> demo_question\<lparr>total_yes_stake := 30, total_no_stake := 10\<rparr>],
     Bets := [(1, 8) \<mapsto> \<lparr>bet_market_id = 1, trader = 8, bet_outcome = 1, bet_stake = 30\<rparr>,
       (1, 5) \<mapsto> \<lparr>bet_market_id = 1, trader = 5, bet_outcome = 0, bet_stake = 10\<rparr>],
     events := [Ev_init 1, Ev_mkt_crt 1 5 100, Ev_shares 1 1 5 100 185, Ev_bet 1 8 1 30, Ev_bet 1 5 0 10]\<rparr>"

definition demo_market_proposed :: market_state where
  "demo_market_proposed = demo_market_bets\<lparr>
     Resolutions := [1 \<mapsto> \<lparr>proposed_outcome = 1, proposed_at = 100, dispute_deadline = 150, disputer = None, dispute_bond = 0\<rparr>],
     events := [Ev_init 1, Ev_mkt_crt 1 5 100, Ev_shares 1 1 5 100 185, Ev_bet 1 8 1 30, Ev_bet 1 5 0 10,
       Ev_proposed 1 1 150]\<rparr>"

definition demo_market_resolved :: market_state where
  "demo_market_resolved = demo_market_proposed\<lparr>
     Markets := [1 \<mapsto> demo_question\<lparr>total_yes_stake := 30, total_no_stake := 10, market_status := Resolved, winning_outcome := Some 1\<rparr>],
     events := [Ev_init 1, Ev_mkt_crt 1 5 100, Ev_shares 1 1 5 100 185, Ev_bet 1 8 1 30, Ev_bet 1 5 0 10,
       Ev_proposed 1 1 150, Ev_resolved 1 1]\<rparr>"

definition demo_ledger_bought :: token_world where
  "demo_ledger_bought = demo_ledger_open(40 := demo_token2\<lparr>Balance := [5 \<mapsto> 300, 99 \<mapsto> 700],
     token_state.events := [Ev_Mint 5 1000, Ev_Transfer 5 99 600, Ev_Transfer 5 99 100]\<rparr>)"

lemmas demo_market_states = demo_markets_def demo_market_open_def demo_market_bought_def demo_market_bet_def
  demo_market_bets_def demo_market_proposed_def demo_market_resolved_def empty_markets_def
lemmas demo_market_records = demo_question_def demo_conditional_def demo_bought_def

lemma demo_purchase:
  "world_transfer 40 (subcall_env (host_env n) 40) 5 99 100 demo_ledger_open = Some demo_ledger_bought"
  by (auto simp: world_transfer_Some transfer_Ok move_balance_Ok demo_ledger_bought_def demo_ledger_defs demo_tokens
      Token_Contract.is_initialized_def balance_def get_balance_def moved_def Let_def in_i128_def i128_max_def
      i128_min_def fun_upd_twist)

lemma demo_mul_div: "mul_div_ceil 600 600 700 = Ok 515"
proof -
  have g: "gcd_loop 600 700 = 100" "gcd_loop 600 7 = 1" by code_simp+
  show ?thesis
    by (simp add: mul_div_ceil_def Let_def g i128_div_def checked_mul_def checked_add_r_def checked_add_def
        in_i128_def i128_max_def i128_min_def)
qed

lemma demo_market_init: "initialize (host_env 1) 1 empty_markets = Ok ((), demo_markets)"
  by (simp add: initialize_def demo_market_states is_initialized_def market_setters require_auth_def)

lemma demo_create_market:
  "create_conditional_market world_transfer (host_env 10) 5 ''Q'' Binary [''NO'', ''YES''] 100 7 8 40 50 600 (demo_ledger, demo_markets) =
     Ok (1, demo_ledger_open, demo_market_open)"
  using demo_ledger_deposit [of 10]
  by (simp add: create_conditional_market_def ensure_initialized_def is_initialized_def increment_market_count_def
      get_market_count_def market_setters demo_market_states demo_market_records MIN_OUTCOMES_def MAX_OUTCOMES_def
      MAX_DISPUTE_WINDOW_def require_auth_def i128_div_def in_i128_def i128_max_def i128_min_def u32_add_def u32_max_def
      Let_def numeral_2_eq_2)

lemma market_demo_quote: "quote_buy_shares demo_conditional 1 100 = Ok 185"
  by (simp add: quote_buy_shares_def validate_outcome_def demo_conditional_def vec_get_def demo_mul_div
      checked_add_r_def checked_sub_r_def checked_add_def checked_sub_def in_i128_def i128_max_def i128_min_def)

lemma demo_buy:
  "buy_shares world_transfer (host_env 20) 5 1 1 100 180 (demo_ledger_open, demo_market_open) =
     Ok (185, demo_ledger_bought, demo_market_bought)"
  using demo_purchase [of 20] market_demo_quote
  by (simp add: buy_shares_def ensure_initialized_def is_initialized_def market_getters ensure_trading_open_def
      require_auth_def demo_market_states demo_bought_def demo_question_def)
    (simp add: demo_conditional_def vec_get_def checked_add_r_def checked_sub_r_def checked_add_def checked_sub_def
      in_i128_def i128_max_def i128_min_def market_setters Let_def)

definition demo_market_sold :: market_state where
  "demo_market_sold = demo_market_bought\<lparr>
     ConditionalMarkets := [1 \<mapsto> demo_bought\<lparr>pool_balances := [601, 601], collateral_locked := 601\<rparr>],
     OutcomeBalances := [(1, 5, 1) \<mapsto> 0],
     events := [Ev_init 1, Ev_mkt_crt 1 5 100, Ev_shares 1 1 5 100 185, Ev_ct_sell 1 1 5 185 99]\<rparr>"

lemma demo_sell_quote: "quote_sell_shares demo_bought 1 185 = Ok 99" by code_simp

lemma demo_refund:
  "world_transfer 40 (subcall_env (host_env n) 40) 99 5 99 demo_ledger_bought =
     Some (demo_ledger_open(40 := demo_token2\<lparr>Balance := [5 \<mapsto> 399, 99 \<mapsto> 601],
     token_state.events := [Ev_Mint 5 1000, Ev_Transfer 5 99 600, Ev_Transfer 5 99 100, Ev_Transfer 99 5 99]\<rparr>))"
  by (auto simp: world_transfer_Some transfer_Ok move_balance_Ok demo_ledger_bought_def demo_ledger_defs demo_tokens
      Token_Contract.is_initialized_def balance_def get_balance_def moved_def Let_def in_i128_def i128_max_def
      i128_min_def fun_upd_twist)

lemma demo_sell:
  "\<exists>w. sell_shares world_transfer (host_env 25) 5 1 1 185 90 (demo_ledger_bought, demo_market_bought) = Ok (99, w, demo_market_sold)"
  using demo_refund [of 25] demo_sell_quote
  by (simp add: sell_shares_def ensure_initialized_def is_initialized_def market_getters ensure_trading_open_def
      require_auth_def demo_market_states demo_market_sold_def demo_question_def)
    (simp add: demo_bought_def demo_conditional_def vec_get_def checked_add_r_def checked_sub_r_def checked_add_def
      checked_sub_def in_i128_def i128_max_def i128_min_def market_setters Let_def)

lemma demo_bets:
  "place_bet (host_env 30) 8 1 1 30 demo_market_bought = Ok ((), demo_market_bet)"
  "place_bet (host_env 30) 5 1 0 10 demo_market_bet = Ok ((), demo_market_bets)"
  by (simp_all add: place_bet_def ensure_initialized_def market_getters require_auth_def demo_market_states
      demo_question_def checked_add_r_def checked_add_def in_i128_def i128_max_def i128_min_def market_setters Let_def)

lemma market_demo_propose: "propose_resolution (host_env 100) 1 1 demo_market_bets = Ok ((), demo_market_proposed)"
  by (simp add: propose_resolution_def ensure_initialized_def market_getters require_auth_def demo_market_states
      demo_market_records validate_outcome_def u64_checked_add_def u64_max_def market_setters Let_def)

lemma demo_finalize: "finalize_resolution (host_env 150) 1 demo_market_proposed = Ok ((), demo_market_resolved)"
  by (simp add: finalize_resolution_def ensure_initialized_def market_getters demo_market_states
      demo_market_records finalize_market_def market_setters Let_def)

lemma demo_market_run_open:
  "(repo_market_step 99)\<^sup>*\<^sup>* (demo_ledger, empty_markets) (demo_ledger_open, demo_market_open)"
proof -
  have "repo_market_step 99 (demo_ledger, empty_markets) (demo_ledger, demo_markets)"
    by (rule market_step.book [OF _ _ book_call.initialize [OF demo_market_init]]) simp_all
  moreover have "repo_market_step 99 (demo_ledger, demo_markets) (demo_ledger_open, demo_market_open)"
    by (rule market_step.tokens [OF _ _ token_call.create [OF _ demo_create_market]])
      (simp_all add: in_i128_def i128_max_def i128_min_def)
  ultimately show ?thesis by (meson rtranclp.rtrancl_refl rtranclp.rtrancl_into_rtrancl)
qed

lemma demo_market_run_bought:
  "(repo_market_step 99)\<^sup>*\<^sup>* (demo_ledger, empty_markets) (demo_ledger_bought, demo_market_bought)"
  by (rule rtranclp.rtrancl_into_rtrancl [OF demo_market_run_open],
      rule market_step.tokens [OF _ _ token_call.buy [OF demo_buy]]) simp_all

lemma demo_market_run_proposed:
  "(repo_market_step 99)\<^sup>*\<^sup>* (demo_ledger, empty_markets) (demo_ledger_bought, demo_market_proposed)"
proof -
  have "repo_market_step 99 (demo_ledger_bought, demo_market_bought) (demo_ledger_bought, demo_market_bet)"
    by (rule market_step.book [OF _ _ book_call.bet [OF demo_bets(1)]]) simp_all
  moreover have "repo_market_step 99 (demo_ledger_bought, demo_market_bet) (demo_ledger_bought, demo_market_bets)"
    by (rule market_step.book [OF _ _ book_call.bet [OF demo_bets(2)]]) simp_all
  moreover have "repo_market_step 99 (demo_ledger_bought, demo_market_bets) (demo_ledger_bought, demo_market_proposed)"
    by (rule market_step.book [OF _ _ book_call.propose [OF market_demo_propose]]) simp_all
  ultimately show ?thesis using demo_market_run_bought by (meson rtranclp.rtrancl_into_rtrancl)
qed

lemma demo_market_run_resolved:
  "(repo_market_step 99)\<^sup>*\<^sup>* (demo_ledger, empty_markets) (demo_ledger_bought, demo_market_resolved)"
  by (rule rtranclp.rtrancl_into_rtrancl [OF demo_market_run_proposed],
      rule market_step.book [OF _ _ book_call.finalize [OF demo_finalize]]) simp_all

section \<open>Properties\<close>

text \<open>
  C6. Collateral is always there: whatever happens on the ledger without the contract's signature, it
  holds in every token at least what all its markets in that token owe (locked collateral and the
  bonds of open disputes), and in every collateral-backed market each outcome's shares, in the pool
  and with their holders, add up to the locked collateral (after settlement those of the winning
  outcome), while the liquidity shares add up to their total.
\<close>

theorem market_collateral_covered:
  assumes "(repo_market_step self)\<^sup>*\<^sup>* (w0, empty_markets) (w, s)" "world_ok self w0"
  shows "liability tok s \<le> world_balance w tok self \<and>
    (\<forall>i c. get_conditional_market s i = Ok c \<longrightarrow> (\<exists>m. get_market s i = Ok m \<and> market_status m \<noteq> Cancelled \<and>
       collateral_locked c \<le> world_balance w (collateral_token c) self \<and>
       total_liquidity_shares c = lp_total s i \<and>
       (\<forall>out<length (outcomes c). market_status m = Open \<or> winning_outcome m = Some out \<longrightarrow>
          pool_balances c ! out + held_shares s i out = collateral_locked c)))"
proof -
  note R = reachable_market [OF assms]
  have "\<exists>m. get_market s i = Ok m \<and> market_status m \<noteq> Cancelled \<and>
       collateral_locked c \<le> world_balance w (collateral_token c) self \<and>
       total_liquidity_shares c = lp_total s i \<and>
       (\<forall>out<length (outcomes c). market_status m = Open \<or> winning_outcome m = Some out \<longrightarrow>
          pool_balances c ! out + held_shares s i out = collateral_locked c)"
    if "get_conditional_market s i = Ok c" for i c
  proof -
    have c: "ConditionalMarkets s i = Some c" using that by simp
    obtain m where m: "Markets s i = Some m" and p: "pool_ok s i c m" using books_pool [OF R(1) c] by blast
    have "collateral_locked c \<le> world_balance w (collateral_token c) self"
      using locked_covered [OF R(1) c] R(4) [of "collateral_token c"] by linarith
    then show ?thesis
      using m p unfolding pool_ok_def by (intro exI [of _ m]) (auto split: if_splits)
  qed
  then show ?thesis using R(4) by blast
qed

theorem market_collateral_covered_witness:
  "liability 40 demo_market_bought \<le> world_balance demo_ledger_bought 40 99 \<and>
    (\<exists>m. get_market demo_market_bought 1 = Ok m \<and> total_liquidity_shares demo_bought = lp_total demo_market_bought 1 \<and>
       515 + held_shares demo_market_bought 1 1 = 700)"
proof -
  note C = market_collateral_covered [OF demo_market_run_bought demo_ledger_ok, of 40]
  have c: "get_conditional_market demo_market_bought 1 = Ok demo_bought" by (simp add: demo_market_bought_def)
  obtain m where m: "get_market demo_market_bought 1 = Ok m" "total_liquidity_shares demo_bought = lp_total demo_market_bought 1"
    and h: "\<forall>out<length (outcomes demo_bought). market_status m = Open \<or> winning_outcome m = Some out \<longrightarrow>
          pool_balances demo_bought ! out + held_shares demo_market_bought 1 out = collateral_locked demo_bought"
    using C c by blast
  have "market_status m = Open" using m(1) by (auto simp: demo_market_states demo_question_def)
  then have "515 + held_shares demo_market_bought 1 1 = 700"
    using h [rule_format, of 1] by (simp add: demo_bought_def demo_conditional_def)
  then show ?thesis using C m by blast
qed

text \<open>
  A purchase executes exactly the quoted price, never below the buyer's limit, gives at
  least one share per unit paid, locks the whole payment, credits exactly the shares sold, and never
  lowers the product of the reserves, which is the market maker's invariant.
\<close>

theorem buy_keeps_product:
  assumes "(repo_market_step self)\<^sup>*\<^sup>* (w0, empty_markets) (w, s)" "world_ok self w0"
    "buy_shares world_transfer env a i out x mn (w, s) = Ok (n, w', t)"
  shows "quote_buy i out x s = Ok n \<and> mn \<le> n \<and> x \<le> n \<and>
    outcome_balance i a out t = outcome_balance i a out s + n \<and>
    (\<exists>c c'. get_conditional_market s i = Ok c \<and> get_conditional_market t i = Ok c' \<and>
       collateral_locked c' = collateral_locked c + x \<and>
       0 \<le> prod_list (pool_balances c) \<and> prod_list (pool_balances c) \<le> prod_list (pool_balances c'))"
proof -
  note R = reachable_market [OF assms(1,2)]
  obtain c where c: "ConditionalMarkets s i = Some c" and q: "quote_buy_shares c out x = Ok n" "mn \<le> n"
    and t: "t = publish (Ev_shares i out a x n) (set_conditional_market
      (c\<lparr>pool_balances := (map (\<lambda>r. r + x) (pool_balances c))[out := pool_balances c ! out + x - n],
         collateral_locked := collateral_locked c + x\<rparr>)
      (set_outcome_balance i a out (get_outcome_balance s i a out + n) s))"
    using buy_Ok [OF assms(3)] by blast
  obtain m where p: "pool_ok s i c m" using books_pool [OF R(1) c] by blast
  have rs: "reserves_ok (pool_balances c)" "cm_market_id c = i" using p by (simp_all add: pool_ok_def)
  have nn: "0 \<le> prod_list (pool_balances c)"
    by (rule prod_list_nonneg) (use rs(1) in \<open>simp add: reserves_ok_def\<close>)
  show ?thesis
    using c q rs(2) nn quote_buy_Ok [OF q(1) rs(1)]
    by (simp add: t quote_buy_def outcome_balance_def get_outcome_balance_def market_setters)
qed

theorem buy_keeps_product_witness:
  "quote_buy 1 1 100 demo_market_open = Ok 185 \<and>
    outcome_balance 1 5 1 demo_market_bought = outcome_balance 1 5 1 demo_market_open + 185 \<and>
    (\<exists>c c'. get_conditional_market demo_market_open 1 = Ok c \<and> get_conditional_market demo_market_bought 1 = Ok c' \<and>
       collateral_locked c' = collateral_locked c + 100 \<and>
       prod_list (pool_balances c) \<le> prod_list (pool_balances c'))"
  using buy_keeps_product [OF demo_market_run_open demo_ledger_ok demo_buy] by blast

text \<open>
  C14. A sale pays exactly the quote, and the quote is the best possible one: the largest payout
  that passes the market maker's invariant test. The product of the reserves does not fall, every
  reserve stays positive, and exactly the shares sold are debited.
\<close>

theorem sell_quote_is_maximal:
  assumes "(repo_market_step self)\<^sup>*\<^sup>* (w0, empty_markets) (w, s)" "world_ok self w0"
    "sell_shares world_transfer env a i out n mn (w, s) = Ok (x, w', t)"
  shows "quote_sell i out n s = Ok x \<and> mn \<le> x \<and> 0 < x \<and>
    outcome_balance i a out t = outcome_balance i a out s - n \<and>
    (\<exists>c c'. get_conditional_market s i = Ok c \<and> get_conditional_market t i = Ok c' \<and>
       sell_invariant_holds c out n x = Ok True \<and>
       (\<forall>y. x < y \<and> in_i128 y \<longrightarrow> sell_invariant_holds c out n y \<noteq> Ok True) \<and>
       collateral_locked c' = collateral_locked c - x \<and>
       prod_list (pool_balances c) \<le> prod_list (pool_balances c') \<and> (\<forall>r\<in>set (pool_balances c'). 0 < r))"
proof -
  note R = reachable_market [OF assms(1,2)]
  obtain c where c: "ConditionalMarkets s i = Some c" and q: "quote_sell_shares c out n = Ok x" "mn \<le> x"
    and t: "t = publish (Ev_ct_sell i out a n x) (set_conditional_market
      (c\<lparr>pool_balances := map (\<lambda>r. r - x) ((pool_balances c)[out := pool_balances c ! out + n]),
         collateral_locked := collateral_locked c - x\<rparr>)
      (set_outcome_balance i a out (get_outcome_balance s i a out - n) s))"
    using sell_Ok [OF assms(3)] by blast
  obtain m where p: "pool_ok s i c m" using books_pool [OF R(1) c] by blast
  have rs: "reserves_ok (pool_balances c)" "cm_market_id c = i" "length (pool_balances c) = length (outcomes c)"
    using p by (simp_all add: pool_ok_def)
  note Q = quote_sell_Ok [OF q(1) rs(1,3)]
  show ?thesis
    using c q rs(2) Q
    by (simp add: t quote_sell_def outcome_balance_def get_outcome_balance_def market_setters)
qed

theorem sell_quote_is_maximal_witness:
  "quote_sell 1 1 185 demo_market_bought = Ok 99 \<and>
    outcome_balance 1 5 1 demo_market_sold = outcome_balance 1 5 1 demo_market_bought - 185 \<and>
    (\<exists>c. get_conditional_market demo_market_bought 1 = Ok c \<and> sell_invariant_holds c 1 185 100 \<noteq> Ok True)"
proof -
  obtain w where s: "sell_shares world_transfer (host_env 25) 5 1 1 185 90 (demo_ledger_bought, demo_market_bought) =
      Ok (99, w, demo_market_sold)"
    using demo_sell by blast
  have "in_i128 100" by (simp add: in_i128_def i128_max_def i128_min_def)
  then show ?thesis using sell_quote_is_maximal [OF demo_market_run_bought demo_ledger_ok s] by auto
qed

text \<open>
  Quotes never panic: in every reachable state and for all arguments \<open>quote_buy\<close> and
  \<open>quote_sell\<close> return a quote or one of the contract's errors, never a host trap such as an
  arithmetic overflow or a division by zero.
\<close>

theorem market_quotes_never_panic:
  assumes "(repo_market_step self)\<^sup>*\<^sup>* (w0, empty_markets) (w, s)" "world_ok self w0"
  shows "never trap (quote_buy i out x s) \<and> never trap (quote_sell i out n s)"
proof -
  note ok = reachable_market(1) [OF assms]
  have p: "reserves_ok (pool_balances c) \<and> length (pool_balances c) = length (outcomes c)"
    if "get_conditional_market s i = Ok c" for c
    using books_pool [OF ok, of i c] that by (auto simp: pool_ok_def)
  have g: "never trap (get_conditional_market s i)" by (simp add: get_conditional_market_def never_ok_or)
  show ?thesis
    unfolding quote_buy_def quote_sell_def
    using p by (intro conjI never_and_then g never_quote_buy never_quote_sell) auto
qed

theorem market_quotes_never_panic_witness:
  "never trap.ArithmeticOverflow (quote_buy 1 0 i128_max demo_market_bought) \<and> never DivideByZero (quote_sell 1 1 5 demo_market_bought)"
  using market_quotes_never_panic [OF demo_market_run_bought demo_ledger_ok, of trap.ArithmeticOverflow 1 0 i128_max 5]
    market_quotes_never_panic [OF demo_market_run_bought demo_ledger_ok, of DivideByZero 1 1 5 5]
  by simp

text \<open>
  The gcd-reduced multiplication and division is exact: on \<open>i128\<close> arguments
  \<open>mul_div_floor\<close> and \<open>mul_div_ceil\<close> compute the rounded quotient of the true product, even where the
  product itself would not fit, succeed whenever the product fits, and never trap.
\<close>

theorem mul_div_exact:
  assumes "in_i128 l" "in_i128 r" "in_i128 d"
  shows "(\<forall>q. mul_div_floor l r d = Ok q \<longrightarrow> 0 < d \<and> q = l * r div d) \<and>
    (\<forall>q. mul_div_ceil l r d = Ok q \<longrightarrow> 0 < d \<and> q = - ((- (l * r)) div d)) \<and>
    (0 \<le> l \<and> 0 \<le> r \<and> 0 < d \<and> in_i128 (l * r) \<longrightarrow> mul_div_floor l r d = Ok (l * r div d)) \<and>
    never trap (mul_div_floor l r d) \<and> never trap (mul_div_ceil l r d)"
proof (intro conjI allI impI never_mul_div_floor never_mul_div_ceil assms)
  fix q assume q: "mul_div_floor l r d = Ok q"
  show "0 < d" "q = l * r div d" using mul_div_floor_Ok [OF q assms] by simp_all
next
  fix q assume q: "mul_div_ceil l r d = Ok q"
  note C = mul_div_ceil_Ok [OF q assms]
  show d: "0 < d" by (rule C(3))
  have "(- (l * r)) div d = - q"
    by (rule int_div_pos_eq [where r = "q * d - l * r"]) (use C(4,5) in \<open>simp_all add: algebra_simps\<close>)
  then show "q = - ((- (l * r)) div d)" by simp
next
  assume a: "0 \<le> l \<and> 0 \<le> r \<and> 0 < d \<and> in_i128 (l * r)"
  obtain v where v: "mul_div_floor l r d = (if in_i128 v then Ok (l * r div d) else Err ArithmeticOverflow)"
      "l * r div d \<le> v" "v \<le> l * r"
    using mul_div_floor_eval [of l r d] assms a by blast
  have "0 \<le> l * r div d" using a by (simp add: pos_imp_zdiv_nonneg_iff)
  then have "0 \<le> v" using v(2) by linarith
  with a have "in_i128 v" by (blast intro: in_i128_le [OF _ _ v(3)])
  then show "mul_div_floor l r d = Ok (l * r div d)" using v(1) by simp
qed

theorem mul_div_exact_witness:
  "mul_div_floor 600 600 700 = Ok 514 \<and> mul_div_ceil 600 600 700 = Ok 515 \<and> (515::int) = - ((- (600 * 600)) div 700)"
proof -
  have r: "in_i128 600" "in_i128 700" "in_i128 (600 * 600)" by (simp_all add: in_i128_def i128_max_def i128_min_def)
  have k: "(0::int) \<le> 600 \<and> (0::int) \<le> 600 \<and> (0::int) < 700 \<and> in_i128 (600 * 600)" using r(3) by simp
  have "mul_div_floor 600 600 700 = Ok (600 * 600 div 700)" using mul_div_exact [OF r(1,1,2)] k by blast
  moreover have "515 = - ((- (600 * 600)) div (700::int))"
    using mul_div_exact [OF r(1,1,2)] demo_mul_div by blast
  ultimately show ?thesis using demo_mul_div by simp
qed

text \<open>
  C7. Winners are always paid: once a collateral-backed market is settled, a holder of shares of
  the winning outcome can redeem any amount of them, the redemption cannot fail, and it pays exactly
  one unit of collateral per share.
\<close>

theorem winners_always_redeem:
  assumes "(repo_market_step self)\<^sup>*\<^sup>* (w0, empty_markets) (w, s)" "world_ok self w0"
    "get_market s i = Ok m" "market_status m = Resolved" "winning_outcome m = Some out"
    "get_conditional_market s i = Ok c" "0 < x" "x \<le> outcome_balance i a out s"
    "auth env a" "current_contract env = self" "a \<noteq> self"
  shows "\<exists>w' t. redeem_winnings world_transfer env a i x (w, s) = Ok ((), w', t) \<and>
    world_balance w' (collateral_token c) a = world_balance w (collateral_token c) a + x \<and>
    outcome_balance i a out t = outcome_balance i a out s - x"
proof -
  note R = reachable_market [OF assms(1,2)]
  have m: "Markets s i = Some m" and c: "ConditionalMarkets s i = Some c" using assms(3,6) by simp_all
  have init: "is_initialized s" using stakes_okD(3) [OF R(2) m] by blast
  have p: "pool_ok s i c m" using books_pool [OF R(1) c] m by simp
  then have out: "out < length (outcomes c)" and b: "pool_balances c ! out + held_shares s i out = collateral_locked c"
    and rs: "reserves_ok (pool_balances c)" "length (pool_balances c) = length (outcomes c)" "amount_ok (collateral_locked c)"
    using assms(5) by (auto simp: pool_ok_def)
  have bal: "x \<le> get_outcome_balance s i a out" "amount_ok (get_outcome_balance s i a out)"
    using assms(8) outcome_balance_ok [OF R(1)] by (simp_all add: outcome_balance_def)
  have "0 \<le> pool_balances c ! out" using reserves_nth [OF rs(1)] out rs(2) by simp
  then have lk: "get_outcome_balance s i a out \<le> collateral_locked c" using b share_held [OF R(1), of i a out] by linarith
  have fit: "in_i128 (get_outcome_balance s i a out - x)" "in_i128 (collateral_locked c - x)"
    using bal lk rs(3) assms(7)
    by (auto simp: amount_ok_def intro: in_i128_le [of "get_outcome_balance s i a out"] in_i128_le [of "collateral_locked c"])
  let ?e = "subcall_env env (collateral_token c)"
  have "x \<le> world_balance w (collateral_token c) self"
    using bal(1) lk locked_covered [OF R(1) c] R(4) [of "collateral_token c"] by linarith
  then obtain w' where call: "world_transfer (collateral_token c) ?e self a x w = Some w'"
    using world_transfer_succeeds [OF R(3) assms(7), of "collateral_token c" ?e a] assms(10) by auto
  have "world_balance w' (collateral_token c) a = world_balance w (collateral_token c) a + x"
    by (rule repo_token.deposit_effect(1) [OF call]) (use assms(11) in simp)
  moreover have "\<exists>t. redeem_winnings world_transfer env a i x (w, s) = Ok ((), w', t) \<and>
      outcome_balance i a out t = outcome_balance i a out s - x"
    using init m c assms(4,5,7,9,10) bal(1) fit call
    by (simp add: redeem_winnings_def Let_def outcome_balance_def get_outcome_balance_def market_setters
        checked_sub_r_def checked_sub_def)
  ultimately show ?thesis by blast
qed

theorem winners_always_redeem_witness:
  "\<exists>w' t. redeem_winnings world_transfer (host_env 200) 5 1 185 (demo_ledger_bought, demo_market_resolved) = Ok ((), w', t) \<and>
    world_balance w' 40 5 = world_balance demo_ledger_bought 40 5 + 185 \<and> outcome_balance 1 5 1 t = 0"
  using winners_always_redeem [OF demo_market_run_resolved demo_ledger_ok, of 1 _ 1 demo_bought 185 5 "host_env 200"]
  by (simp add: demo_market_states demo_market_records outcome_balance_def get_outcome_balance_def)

text \<open>
  A market settles once and only by the rules. A call that changes the status or the winning
  outcome of a market finds it open; a collateral-backed market needs the oracle's proposal and
  either an undisturbed dispute window, when the proposed outcome wins, or the resolver's signature
  on a disputed one; another market needs the signature of its oracle or, to be cancelled, of the
  admin.
\<close>

theorem market_settles_by_the_rules:
  assumes "(repo_market_step self)\<^sup>*\<^sup>* (w0, empty_markets) (w, s)" "world_ok self w0"
    "book_call env s t \<and> w' = w \<or> token_call world_transfer env (w, s) (w', t)"
    "get_market s i = Ok m" "get_market t i = Ok m'"
    "(market_status m', winning_outcome m') \<noteq> (market_status m, winning_outcome m)"
  shows "market_status m = Open \<and>
    (case get_conditional_market s i of
       Ok c \<Rightarrow> market_status m' = Resolved \<and> (\<exists>p. get_resolution s i = Some p \<and>
         (disputer p = None \<and> winning_outcome m' = Some (proposed_outcome p) \<and> dispute_deadline p \<le> timestamp env \<or>
          disputer p \<noteq> None \<and> auth env (dispute_resolver c)))
     | _ \<Rightarrow> market_status m' = Resolved \<and> auth env (market_oracle m) \<or>
         market_status m' = Cancelled \<and> (\<exists>a. get_admin s = Ok a \<and> auth env a))"
proof -
  note R = reachable_market [OF assms(1,2)]
  have m: "Markets s i = Some m" "Markets t i = Some m'" using assms(4,5) by simp_all
  have "markets_frame env s t"
    using assms(3)
  proof
    assume b: "book_call env s t \<and> w' = w"
    have "(market_status m', winning_outcome m') = (market_status m, winning_outcome m)"
      if p: "place_bet env a j out x s = Ok (u, t)" for a j out x u
    proof -
      obtain k q y n where k: "Markets s j = Some k"
        "t = publish (Ev_bet j a out x) (set_market (k\<lparr>total_yes_stake := y, total_no_stake := n\<rparr>) (set_position q s))"
        using bet_Ok [OF p] market_okD(1) [OF R(1)] by blast
      then show ?thesis using market_okD(1) [OF R(1) k(1)] m by (auto simp: market_setters split: if_splits)
    qed
    moreover have "Markets s = Markets t" if "t = publish (Ev_init a) (set_admin a s)" for a
      using that by (simp add: market_setters)
    ultimately show ?thesis using book_call_frame [OF _ R(1), of env t] b assms(6) m by auto
  next
    assume "token_call world_transfer env (w, s) (w', t)"
    then show ?thesis by (rule token_call_frame [OF _ R(1)])
  qed
  then have "Markets t i = Markets s i \<or> opens (Markets s i) (Markets t i) \<or>
      (\<exists>m m'. Markets s i = Some m \<and> Markets t i = Some m' \<and> settles env s i m m')"
    unfolding markets_frame_def by blast
  then have "settles env s i m m'" using m assms(6) by (auto simp: opens_def)
  then show ?thesis
    by (cases "ConditionalMarkets s i")
      (auto simp: settles_def get_conditional_market_def get_resolution_def get_admin_def)
qed

theorem market_settles_by_the_rules_witness:
  "market_status demo_question = Open \<and>
    (\<exists>p. get_resolution demo_market_proposed 1 = Some p \<and> disputer p = None \<and> dispute_deadline p \<le> 150)"
proof -
  have "get_market demo_market_proposed 1 = Ok (demo_question\<lparr>total_yes_stake := 30, total_no_stake := 10\<rparr>)"
    "get_market demo_market_resolved 1 = Ok (demo_question\<lparr>total_yes_stake := 30, total_no_stake := 10,
       market_status := Resolved, winning_outcome := Some 1\<rparr>)"
    by (simp_all add: demo_market_states)
  note S = market_settles_by_the_rules [OF demo_market_run_proposed demo_ledger_ok
      disjI1 [OF conjI [OF book_call.finalize [OF demo_finalize] refl]] this]
  show ?thesis using S by (auto simp: demo_market_states demo_market_records get_conditional_market_def get_resolution_def)
qed

text \<open>What the parimutuel market pays to one better.\<close>

definition payout :: "market_state \<Rightarrow> nat \<Rightarrow> address \<Rightarrow> int" where
  "payout s i a = (case calculate_payout i a s of Ok x \<Rightarrow> x | _ \<Rightarrow> 0)"

lemma staked_sum:
  assumes "stakes_ok s" "finite A"
  shows "(\<Sum>a\<in>A. bal (bets_on s i out) a) \<le> staked s i out"
proof -
  have nn: "0 \<le> bal (bets_on s i out) a" for a
    using stakes_okD(2) [OF assms(1), of "(i, a)"] by (auto simp: bal_def bets_on_def bet_ok_def amount_ok_def split: option.splits)
  have "(\<Sum>a\<in>A. bal (bets_on s i out) a) \<le> (\<Sum>a\<in>A \<union> dom (bets_on s i out). bal (bets_on s i out) a)"
    using assms finite_bets nn by (intro sum_mono2) auto
  also have "\<dots> = staked s i out"
    unfolding staked_def using assms finite_bets by (intro total_bal_superset [symmetric]) auto
  finally show ?thesis .
qed

lemma payout_cancelled:
  assumes "stakes_ok s" "Markets s i = Some m" "market_status m = Cancelled"
  shows "payout s i a = bal (bets_on s i 1) a + bal (bets_on s i 0) a"
proof (cases "Bets s (i, a)")
  case (Some p)
  then have "bet_outcome p = 0 \<or> bet_outcome p = 1" using stakes_okD(2) [OF assms(1) Some] by (auto simp: bet_ok_def)
  then show ?thesis using Some assms(2,3) by (auto simp: payout_def calculate_payout_def get_market_def get_position_def bal_def bets_on_def)
qed (use assms in \<open>simp add: payout_def calculate_payout_def get_market_def get_position_def bal_def bets_on_def\<close>)

text \<open>A winner's payout times the winning pool is at most the stake times the whole pool.\<close>

lemma payout_resolved:
  assumes "stakes_ok s" "Markets s i = Some m" "market_status m = Resolved" "winning_outcome m = Some win"
  defines "pool \<equiv> if win = 1 then total_yes_stake m else total_no_stake m"
  shows "payout s i a * pool \<le> bal (bets_on s i win) a * (total_yes_stake m + total_no_stake m) \<and>
    (payout s i a \<noteq> 0 \<longrightarrow> 0 < pool \<and> win \<le> 1)"
proof (cases "\<exists>p. Bets s (i, a) = Some p \<and> bet_outcome p = win \<and> payout s i a \<noteq> 0")
  case True
  then obtain p where p: "Bets s (i, a) = Some p" "bet_outcome p = win" "payout s i a \<noteq> 0" by blast
  let ?T = "total_yes_stake m + total_no_stake m"
  have b: "win \<le> 1" "in_i128 (bet_stake p)" using stakes_okD(2) [OF assms(1) p(1)] p(2) by (auto simp: bet_ok_def amount_ok_def)
  have "in_i128 pool" using stakes_okD(3) [OF assms(1,2)] unfolding pool_def amount_ok_def by metis
  have run: "calculate_payout i a s =
      and_then (checked_add_r (total_yes_stake m) (total_no_stake m))
        (\<lambda>x. if pool = 0 then Ok 0 else mul_div_floor (bet_stake p) x pool)"
    unfolding pool_def using assms(2-4) p(1,2)
    by (simp add: calculate_payout_def get_market_def get_position_def Let_def)
  have "calculate_payout i a s = Ok (payout s i a)"
    using p(3) by (cases "calculate_payout i a s") (simp_all add: payout_def)
  then have pay: "mul_div_floor (bet_stake p) ?T pool = Ok (payout s i a)" "in_i128 ?T"
    using p(3) unfolding run and_then_eq_Ok by (auto split: if_splits)
  note F = mul_div_floor_Ok [OF pay(1) b(2) pay(2) \<open>in_i128 pool\<close>]
  have "z div pool * pool \<le> z" for z
    using div_mult_mod_eq [of z pool] pos_mod_sign [OF F(3), of z] by linarith
  then have "payout s i a * pool \<le> bet_stake p * ?T" unfolding F(4) .
  then show ?thesis using b F(3) p by (simp add: bal_def bets_on_def)
next
  case False
  have z: "payout s i a = 0"
  proof (cases "Bets s (i, a)")
    case (Some p)
    then show ?thesis using False assms(2-4) by (auto simp: payout_def calculate_payout_def get_market_def get_position_def)
  qed (use assms in \<open>simp add: payout_def calculate_payout_def get_market_def get_position_def\<close>)
  have "0 \<le> bal (bets_on s i win) a"
    using stakes_okD(2) [OF assms(1), of "(i, a)"] by (auto simp: bal_def bets_on_def bet_ok_def amount_ok_def split: option.splits)
  then show ?thesis using z stakes_okD(3) [OF assms(1,2)] by (simp add: amount_ok_def)
qed

text \<open>
  C16. The betting markets are solvent on paper: in every reachable state, for every market and any
  finite set of betters, the payouts \<open>calculate_payout\<close> promises add up to at most the total staked,
  after a settlement as well as after a cancellation.
\<close>

theorem payouts_within_stakes:
  assumes "(repo_market_step self)\<^sup>*\<^sup>* (w0, empty_markets) (w, s)" "world_ok self w0"
    "get_market s i = Ok m" "finite A"
  shows "(\<Sum>a\<in>A. payout s i a) \<le> total_yes_stake m + total_no_stake m"
proof -
  have ok: "stakes_ok s" by (rule reachable_market(2) [OF assms(1,2)])
  have m: "Markets s i = Some m" using assms(3) by simp
  have st: "0 \<le> total_yes_stake m" "0 \<le> total_no_stake m" "total_yes_stake m = staked s i 1" "total_no_stake m = staked s i 0"
    using stakes_okD(3) [OF ok m] by (simp_all add: amount_ok_def)
  show ?thesis
  proof (cases "market_status m = Resolved \<and> winning_outcome m \<noteq> None")
    case True
    then obtain win where r: "market_status m = Resolved" "winning_outcome m = Some win" by blast
    let ?pool = "if win = 1 then total_yes_stake m else total_no_stake m" and ?T = "total_yes_stake m + total_no_stake m"
    note P = payout_resolved [OF ok m r]
    show ?thesis
    proof (cases "\<exists>a\<in>A. payout s i a \<noteq> 0")
      case True
      then have g: "0 < ?pool" "win \<le> 1" using P by blast+
      have "(\<Sum>a\<in>A. payout s i a) * ?pool \<le> (\<Sum>a\<in>A. bal (bets_on s i win) a) * ?T"
        unfolding sum_distrib_right using P by (intro sum_mono) blast
      also have "\<dots> \<le> staked s i win * ?T"
        by (rule mult_right_mono [OF staked_sum [OF ok assms(4)]]) (use st in simp)
      also have "staked s i win = ?pool" using g(2) st by (cases win) auto
      finally have "(\<Sum>a\<in>A. payout s i a) * ?pool \<le> ?T * ?pool" by (simp only: mult.commute)
      then show ?thesis using g(1) mult_le_cancel_right_pos [of ?pool "\<Sum>a\<in>A. payout s i a" ?T] by blast
    qed (use st in simp)
  next
    case False
    show ?thesis
    proof (cases "market_status m = Cancelled")
      case True
      then have "(\<Sum>a\<in>A. payout s i a) = (\<Sum>a\<in>A. bal (bets_on s i 1) a) + (\<Sum>a\<in>A. bal (bets_on s i 0) a)"
        by (simp add: payout_cancelled [OF ok m] sum.distrib)
      then show ?thesis using staked_sum [OF ok assms(4), of i 1] staked_sum [OF ok assms(4), of i 0] st by linarith
    next
      case nc: False
      have "payout s i a = 0" for a using False nc m by (auto simp: payout_def calculate_payout_def get_market_def split: outcome.splits)
      then show ?thesis using st by simp
    qed
  qed
qed

theorem payouts_within_stakes_witness:
  "payout demo_market_resolved 1 5 + payout demo_market_resolved 1 8 \<le> 40"
proof -
  have "get_market demo_market_resolved 1 = Ok (demo_question\<lparr>total_yes_stake := 30, total_no_stake := 10,
       market_status := Resolved, winning_outcome := Some 1\<rparr>)"
    by (simp add: demo_market_states)
  then show ?thesis
    using payouts_within_stakes [OF demo_market_run_resolved demo_ledger_ok, of 1 _ "{5, 8}"] by fastforce
qed

end
