(* ===== verification/Token_Refinement.thy ===== *)
theory Token_Refinement
  imports Token_Correct
begin

text \<open>
  The token's contract with its users, as an abstract ledger: holdings, the issued amount, who may
  issue, and what each owner has granted to each spender. Every call of the token is one event of
  this ledger; storage layout, overflow tests, expiry and events do not occur in it.
\<close>

record ledger =
  minter :: "address option"
  holding :: "address \<Rightarrow> int"
  issued :: int
  granted :: "address \<times> address \<Rightarrow> int"

definition empty_ledger :: ledger where
  "empty_ledger = \<lparr>minter = None, holding = (\<lambda>_. 0), issued = 0, granted = (\<lambda>_. 0)\<rparr>"

text \<open>Who may take \<open>x\<close> from \<open>a\<close>: \<open>a\<close> itself, or a spender out of his grant; \<open>g\<close> are the grants left.\<close>

definition entitled :: "env \<Rightarrow> ledger \<Rightarrow> address \<Rightarrow> int \<Rightarrow> (address \<times> address \<Rightarrow> int) \<Rightarrow> bool" where
  "entitled env L a x g \<longleftrightarrow> 0 < x \<and> x \<le> holding L a \<and>
     (auth env a \<and> g = granted L \<or>
      (\<exists>p. auth env p \<and> x \<le> granted L (a, p) \<and> g = (granted L)((a, p) := granted L (a, p) - x)))"

inductive ledger_call :: "env \<Rightarrow> ledger \<Rightarrow> ledger \<Rightarrow> bool" for env where
  appoint: "auth env a \<Longrightarrow> minter L = None \<or> minter L = Some m \<and> auth env m \<Longrightarrow>
    ledger_call env L (L\<lparr>minter := Some a\<rparr>)"
| issue: "minter L = Some m \<Longrightarrow> auth env m \<Longrightarrow> 0 < x \<Longrightarrow>
    ledger_call env L (L\<lparr>holding := (holding L)(b := holding L b + x), issued := issued L + x\<rparr>)"
| destroy: "entitled env L a x g \<Longrightarrow>
    ledger_call env L (L\<lparr>holding := (holding L)(a := holding L a - x), issued := issued L - x, granted := g\<rparr>)"
| move: "entitled env L a x g \<Longrightarrow>
    ledger_call env L (L\<lparr>holding := (\<lambda>c. holding L c - (if c = a then x else 0) + (if c = b then x else 0)), granted := g\<rparr>)"
| grant: "auth env a \<Longrightarrow> 0 \<le> x \<Longrightarrow> ledger_call env L (L\<lparr>granted := (granted L)((a, p) := x)\<rparr>)"

inductive_cases ledger_callE: "ledger_call env L M"

definition ledger_step :: "ledger \<Rightarrow> ledger \<Rightarrow> bool" where
  "ledger_step L M \<longleftrightarrow> (\<exists>env. ledger_call env L M)"

text \<open>The abstraction.\<close>

definition ledger_of :: "token_state \<Rightarrow> ledger" where
  "ledger_of s = \<lparr>minter = Admin s, holding = (\<lambda>a. balance a s), issued = total_supply s,
     granted = (\<lambda>(a, p). amount (get_allowance s a p))\<rparr>"

lemma ledger_of_fields [simp]:
  "minter (ledger_of s) = Admin s" "holding (ledger_of s) a = balance a s" "issued (ledger_of s) = total_supply s"
  "granted (ledger_of s) (a, p) = amount (get_allowance s a p)"
  by (simp_all add: ledger_of_def)

lemma ledger_of_empty: "ledger_of empty_token = empty_ledger"
  by (simp add: ledger_of_def empty_ledger_def empty_token_def balance_def total_supply_def token_getters fun_eq_iff)

lemma ledger_eqI:
  "minter L = minter M \<Longrightarrow> (\<And>a. holding L a = holding M a) \<Longrightarrow> issued L = issued M \<Longrightarrow>
    (\<And>a p. granted L (a, p) = granted M (a, p)) \<Longrightarrow> L = M" for L M :: ledger
  by (cases L, cases M) (simp add: fun_eq_iff)

lemma entitled_owner: "auth env a \<Longrightarrow> 0 < x \<Longrightarrow> x \<le> balance a s \<Longrightarrow> entitled env (ledger_of s) a x (granted (ledger_of s))"
  by (simp add: entitled_def)

lemma entitled_spender:
  "auth env p \<Longrightarrow> 0 < x \<Longrightarrow> x \<le> balance a s \<Longrightarrow> x \<le> amount (get_allowance s a p) \<Longrightarrow>
    entitled env (ledger_of s) a x (granted (ledger_of (spent a p x s)))"
  by (auto simp: entitled_def fun_eq_iff spent_def get_allowance_def set_allowance_def ledger_of_def)

text \<open>Each call of the token is one event of the ledger.\<close>

lemma token_call_simulated:
  assumes "token_call env s t" "token_inv s"
  shows "ledger_call env (ledger_of s) (ledger_of t)"
  using assms(1)
proof cases
  case (initialize a d n y u)
  have "total_supply s = total_bal (Balance s)" "Admin s = None \<longrightarrow> Balance s = Map.empty"
    using assms(2) by (simp_all add: token_inv_def ledger_ok_def)
  then have "Admin s = None \<longrightarrow> total_supply s = 0" by simp
  then have "ledger_of t = (ledger_of s)\<lparr>minter := Some a\<rparr>"
    using initialize by (intro ledger_eqI) (auto simp: token_initialize_Ok balance_def total_supply_def token_getters)
  moreover have "auth env a" "Admin s = None" using initialize by (auto simp: token_initialize_Ok)
  ultimately show ?thesis using ledger_call.appoint [of env a "ledger_of s"] by simp
next
  case (set_admin a b u)
  then have "ledger_of t = (ledger_of s)\<lparr>minter := Some b\<rparr>"
    by (intro ledger_eqI) (auto simp: set_admin_Ok balance_def total_supply_def token_getters)
  then show ?thesis using set_admin ledger_call.appoint [of env b "ledger_of s" a] by (auto simp: set_admin_Ok)
next
  case (mint a b x u)
  then have "ledger_of t = (ledger_of s)\<lparr>holding := (holding (ledger_of s))(b := balance b s + x), issued := total_supply s + x\<rparr>"
    by (intro ledger_eqI) (auto simp: token_mint_Ok balance_def total_supply_def token_getters)
  then show ?thesis using mint ledger_call.issue [of "ledger_of s" a env x b] by (auto simp: token_mint_Ok)
next
  case (burn a x u)
  then have "ledger_of t = (ledger_of s)\<lparr>holding := (holding (ledger_of s))(a := balance a s - x), issued := total_supply s - x,
      granted := granted (ledger_of s)\<rparr>"
    by (intro ledger_eqI) (auto simp: burn_Ok burn_balance_Ok balance_def total_supply_def token_getters)
  then show ?thesis
    using burn ledger_call.destroy [OF entitled_owner [of env a x s]] by (auto simp: burn_Ok burn_balance_Ok)
next
  case (burn_from p a x u)
  then have "ledger_of t = (ledger_of s)\<lparr>holding := (holding (ledger_of s))(a := balance a s - x), issued := total_supply s - x,
      granted := granted (ledger_of (spent a p x s))\<rparr>"
    by (intro ledger_eqI) (auto simp: burn_from_Ok burn_balance_Ok balance_def total_supply_def token_getters)
  then show ?thesis
    using burn_from ledger_call.destroy [OF entitled_spender [of env p x a s]]
    by (auto simp: burn_from_Ok burn_balance_Ok spend_allowance_Ok)
next
  case (transfer a b x u)
  then have "ledger_of t = (ledger_of s)\<lparr>holding := (\<lambda>c. holding (ledger_of s) c - (if c = a then x else 0) + (if c = b then x else 0)),
      granted := granted (ledger_of s)\<rparr>"
    by (intro ledger_eqI)
      (auto simp: transfer_Ok move_balance_Ok balance_def get_balance_def bal_moved total_supply_def get_total_supply_def get_allowance_def)
  then show ?thesis
    using transfer ledger_call.move [OF entitled_owner [of env a x s], of b] by (auto simp: transfer_Ok move_balance_Ok)
next
  case (transfer_from p a b x u)
  then have "ledger_of t = (ledger_of s)\<lparr>holding := (\<lambda>c. holding (ledger_of s) c - (if c = a then x else 0) + (if c = b then x else 0)),
      granted := granted (ledger_of (spent a p x s))\<rparr>"
    by (intro ledger_eqI)
      (auto simp: transfer_from_Ok move_balance_Ok balance_def get_balance_def bal_moved total_supply_def get_total_supply_def get_allowance_def)
  then show ?thesis
    using transfer_from ledger_call.move [OF entitled_spender [of env p x a s], of b]
    by (auto simp: transfer_from_Ok move_balance_Ok spend_allowance_Ok)
next
  case (approve a p x e u)
  then have "ledger_of t = (ledger_of s)\<lparr>granted := (granted (ledger_of s))((a, p) := x)\<rparr>"
    by (intro ledger_eqI)
      (auto simp: token_approve_Ok publish_def balance_def get_balance_def total_supply_def get_total_supply_def
        get_allowance_def set_allowance_def)
  then show ?thesis using approve ledger_call.grant [of env a x "ledger_of s" p] by (auto simp: token_approve_Ok)
qed

section \<open>The refinement\<close>

text \<open>
  C15. The token refines the abstract ledger: in every reachable state each call is one event of the
  ledger under the same signatures, so every history of the token is a history of the ledger.
\<close>

theorem token_refines_ledger:
  assumes "token_step\<^sup>*\<^sup>* empty_token s"
  shows "ledger_step\<^sup>*\<^sup>* empty_ledger (ledger_of s) \<and>
    (\<forall>env t. token_call env s t \<longrightarrow> ledger_call env (ledger_of s) (ledger_of t))"
  using assms
proof (induction rule: rtranclp_induct)
  case base
  have "token_inv empty_token" using token.reachable_Inv by blast
  then show ?case using token_call_simulated [of _ empty_token] unfolding ledger_of_empty by blast
next
  case (step s t)
  obtain env where "token_call env s t" using step.hyps(2) by (auto simp: token_step_def)
  then have "ledger_step (ledger_of s) (ledger_of t)" using step.IH by (auto simp: ledger_step_def)
  moreover have "token_inv t" using token.reachable_Inv step.hyps by (meson rtranclp.rtrancl_into_rtrancl)
  ultimately show ?case using step.IH token_call_simulated by (meson rtranclp.rtrancl_into_rtrancl)
qed

theorem token_refines_ledger_witness:
  "ledger_step\<^sup>*\<^sup>* empty_ledger (ledger_of demo_token3) \<and>
    (\<exists>env. ledger_call env (ledger_of demo_token3) (ledger_of demo_token4))"
  using token_refines_ledger [OF demo_token_run] token_call.transfer_from [OF demo_token_transfer_from] by blast

end
