(* ===== verification/Perpetuals.thy ===== *)
theory Perpetuals
  imports Soroban_Prelude
begin

text \<open>
  The perpetual futures of \<open>contracts/perpetuals/src/lib.rs\<close>: a virtual constant-product market that
  prices positions, and funding payments between longs and shorts. The contract keeps the books
  only; it calls no token.
\<close>

section \<open>Machine integers of the contract\<close>

text \<open>\<open>i64\<close>, and the truncating cast \<open>as i64\<close>.\<close>

definition i64_max :: int where "i64_max = 9223372036854775807"
definition i64_min :: int where "i64_min = - 9223372036854775808"

definition in_i64 :: "int \<Rightarrow> bool" where
  "in_i64 x \<longleftrightarrow> i64_min \<le> x \<and> x \<le> i64_max"

definition i64_of :: "int \<Rightarrow> int" where
  "i64_of x = (x + 2 ^ 63) mod 2 ^ 64 - 2 ^ 63"

definition i64_sub :: "int \<Rightarrow> int \<Rightarrow> ('e, int) outcome" where
  "i64_sub a b = (if in_i64 (a - b) then Ok (a - b) else Trap ArithmeticOverflow)"

definition i64_mul :: "int \<Rightarrow> int \<Rightarrow> ('e, int) outcome" where
  "i64_mul a b = (if in_i64 (a * b) then Ok (a * b) else Trap ArithmeticOverflow)"

definition i64_saturating_add :: "int \<Rightarrow> int \<Rightarrow> int" where
  "i64_saturating_add a b = max i64_min (min i64_max (a + b))"

section \<open>Types and storage\<close>

definition MAX_FUNDING_RATE_BPS :: int where "MAX_FUNDING_RATE_BPS = 500"
definition FUNDING_PERIOD_SECS :: nat where "FUNDING_PERIOD_SECS = 8 * 3600"
definition MAX_LEVERAGE :: nat where "MAX_LEVERAGE = 100"
definition MAINTENANCE_MARGIN_BPS :: int where "MAINTENANCE_MARGIN_BPS = 500"

datatype perp_error =
    AlreadyInitialized | NotInitialized | Unauthorized | ContractPaused | InvalidLeverage | InvalidSize
  | InvalidPrice | PositionNotFound | PositionNotActive | InsufficientMargin | InvalidVammReserves
  | ArithmeticOverflow | FundingNotDue | InvalidFundingRate

datatype PositionStatus = Active | Closed | Liquidated

record Position =
  pos_id :: nat
  trader :: address
  is_long :: bool
  pos_size :: int
  leverage :: nat
  entry_price :: int
  collateral :: int
  pos_status :: PositionStatus

record VammConfig =
  reserve_x :: int
  reserve_y :: int
  vamm_k :: int

record FundingRate =
  fr_mark_price :: int
  index_price :: int
  rate_bps :: int
  last_update :: nat
  last_settlement :: nat

record FundingSettlement =
  fs_rate_bps :: int
  longs_pay :: bool
  total_payments :: int
  new_accumulator :: int
  fs_timestamp :: nat

datatype perp_event =
    Ev_init address | Ev_pause bool | Ev_idx_price int | Ev_fund_rate int | Ev_settle FundingSettlement
  | Ev_open_pos nat address bool int | Ev_close_pos nat address int | Ev_liquidate nat address

record perp_state =
  Admin :: "address option"
  Initialized :: "bool option"
  Paused :: "bool option"
  PositionCount :: "nat option"
  VammEntry :: "VammConfig option"
  FundingEntry :: "FundingRate option"
  FundingAccumulator :: "int option"
  FundingSnapshot :: "nat \<rightharpoonup> int"
  Positions :: "nat \<rightharpoonup> Position"
  events :: "perp_event list"

definition empty_perps :: perp_state where
  "empty_perps = \<lparr>Admin = None, Initialized = None, Paused = None, PositionCount = None, VammEntry = None,
     FundingEntry = None, FundingAccumulator = None, FundingSnapshot = Map.empty, Positions = Map.empty, events = []\<rparr>"

definition publish :: "perp_event \<Rightarrow> perp_state \<Rightarrow> perp_state" where
  "publish e s = s\<lparr>events := events s @ [e]\<rparr>"

section \<open>Helpers\<close>

definition assert_initialized :: "perp_state \<Rightarrow> (perp_error, unit) outcome" where
  "assert_initialized s = (if Initialized s = None then Err NotInitialized else Ok ())"

definition assert_not_paused :: "perp_state \<Rightarrow> (perp_error, unit) outcome" where
  "assert_not_paused s = (if unwrap_or False (Paused s) then Err ContractPaused else Ok ())"

definition assert_admin :: "env \<Rightarrow> address \<Rightarrow> perp_state \<Rightarrow> (perp_error, unit) outcome" where
  "assert_admin env admin s =
     and_then (assert_initialized s) (\<lambda>_.
     and_then (require_auth env admin) (\<lambda>_.
     and_then (ok_or NotInitialized (Admin s)) (\<lambda>stored.
     if stored \<noteq> admin then Err Unauthorized else Ok ())))"

definition vamm_mark_price_from :: "VammConfig \<Rightarrow> (perp_error, int) outcome" where
  "vamm_mark_price_from v =
     (if reserve_x v = 0 then Err InvalidVammReserves
      else and_then (i128_mul (reserve_y v) 10000000) (\<lambda>n. i128_div n (reserve_x v)))"

definition apply_vamm_trade :: "VammConfig \<Rightarrow> bool \<Rightarrow> int \<Rightarrow> (perp_error, VammConfig) outcome" where
  "apply_vamm_trade v long sz =
     (if long then
        if reserve_x v \<le> sz then Err InvalidVammReserves
        else
          and_then (i128_sub (reserve_x v) sz) (\<lambda>new_x.
          and_then (i128_div (vamm_k v) new_x) (\<lambda>new_y.
          Ok (v\<lparr>reserve_x := new_x, reserve_y := new_y\<rparr>)))
      else
        and_then (ok_or ArithmeticOverflow (checked_add (reserve_x v) sz)) (\<lambda>new_x.
        if new_x = 0 then Err InvalidVammReserves
        else
          and_then (i128_div (vamm_k v) new_x) (\<lambda>new_y.
          Ok (v\<lparr>reserve_x := new_x, reserve_y := new_y\<rparr>))))"

definition compute_rate_bps :: "int \<Rightarrow> int \<Rightarrow> (perp_error, int) outcome" where
  "compute_rate_bps mark index =
     (if index = 0 then Ok 0
      else
        and_then (i128_sub mark index) (\<lambda>premium.
        and_then (i128_mul premium 10000) (\<lambda>scaled.
        and_then (i128_div scaled index) (\<lambda>q.
        let raw = i64_of q in
        Ok (if raw < - MAX_FUNDING_RATE_BPS then - MAX_FUNDING_RATE_BPS
            else if raw > MAX_FUNDING_RATE_BPS then MAX_FUNDING_RATE_BPS else raw)))))"

definition accumulator :: "perp_state \<Rightarrow> int" where
  "accumulator s = unwrap_or 0 (FundingAccumulator s)"

text \<open>The profit of a position at a price, computed alike by \<open>close_position\<close> and \<open>liquidate_position\<close>.\<close>

definition pnl_at :: "Position \<Rightarrow> int \<Rightarrow> (perp_error, int) outcome" where
  "pnl_at pos price =
     and_then (if is_long pos then i128_sub price (entry_price pos) else i128_sub (entry_price pos) price) (\<lambda>diff.
     and_then (i128_mul diff (pos_size pos)) (\<lambda>scaled. i128_div scaled (entry_price pos)))"

section \<open>Administration\<close>

definition initialize ::
    "env \<Rightarrow> address \<Rightarrow> int \<Rightarrow> int \<Rightarrow> int \<Rightarrow> perp_state \<Rightarrow> (perp_error, unit \<times> perp_state) outcome" where
  "initialize env admin rx ry idx s =
     (if Initialized s \<noteq> None then Err AlreadyInitialized
      else if rx \<le> 0 \<or> ry \<le> 0 then Err InvalidVammReserves
      else if idx \<le> 0 then Err InvalidPrice
      else
        and_then (require_auth env admin) (\<lambda>_.
        let s1 = s\<lparr>Admin := Some admin, Initialized := Some True, Paused := Some False, PositionCount := Some 0,
                FundingAccumulator := Some 0\<rparr> in
        and_then (ok_or ArithmeticOverflow (checked_mul rx ry)) (\<lambda>k.
        let vamm = \<lparr>reserve_x = rx, reserve_y = ry, vamm_k = k\<rparr>;
            s2 = s1\<lparr>VammEntry := Some vamm\<rparr> in
        and_then (vamm_mark_price_from vamm) (\<lambda>mark.
        let funding = \<lparr>fr_mark_price = mark, index_price = idx, rate_bps = 0, last_update = timestamp env,
              last_settlement = timestamp env\<rparr>
        in Ok ((), publish (Ev_init admin) (s2\<lparr>FundingEntry := Some funding\<rparr>))))))"

definition set_paused :: "env \<Rightarrow> address \<Rightarrow> bool \<Rightarrow> perp_state \<Rightarrow> (perp_error, unit \<times> perp_state) outcome" where
  "set_paused env admin p s =
     and_then (assert_admin env admin s) (\<lambda>_. Ok ((), publish (Ev_pause p) (s\<lparr>Paused := Some p\<rparr>)))"

definition update_index_price :: "env \<Rightarrow> address \<Rightarrow> int \<Rightarrow> perp_state \<Rightarrow> (perp_error, unit \<times> perp_state) outcome" where
  "update_index_price env admin idx s =
     and_then (assert_admin env admin s) (\<lambda>_.
     if idx \<le> 0 then Err InvalidPrice
     else
       and_then (ok_or NotInitialized (FundingEntry s)) (\<lambda>funding.
       and_then (compute_rate_bps (fr_mark_price funding) idx) (\<lambda>rate.
       let funding' = funding\<lparr>index_price := idx, last_update := timestamp env, rate_bps := rate\<rparr>
       in Ok ((), publish (Ev_idx_price idx) (s\<lparr>FundingEntry := Some funding'\<rparr>)))))"

section \<open>Funding\<close>

definition update_funding_rate :: "env \<Rightarrow> perp_state \<Rightarrow> (perp_error, int \<times> perp_state) outcome" where
  "update_funding_rate env s =
     and_then (assert_initialized s) (\<lambda>_.
     and_then (ok_or NotInitialized (FundingEntry s)) (\<lambda>funding.
     and_then (u64_add (last_update funding) FUNDING_PERIOD_SECS) (\<lambda>due.
     if timestamp env < due then Err FundingNotDue
     else
       and_then (ok_or NotInitialized (VammEntry s)) (\<lambda>vamm.
       and_then (vamm_mark_price_from vamm) (\<lambda>mark.
       and_then (compute_rate_bps mark (index_price funding)) (\<lambda>rate.
       let funding' = funding\<lparr>fr_mark_price := mark, rate_bps := rate, last_update := timestamp env\<rparr> in
       and_then (i64_mul rate 1000000) (\<lambda>delta.
       let new_acc = i64_saturating_add (accumulator s) delta
       in Ok (rate, publish (Ev_fund_rate rate) (s\<lparr>FundingAccumulator := Some new_acc, FundingEntry := Some funding'\<rparr>)))))))))"

text \<open>The loop over all positions: the positions adjusted and the payments added up.\<close>

fun settle_loop :: "int \<Rightarrow> nat list \<Rightarrow> (nat \<rightharpoonup> Position) \<Rightarrow> int \<Rightarrow> (perp_error, (nat \<rightharpoonup> Position) \<times> int) outcome" where
  "settle_loop rate [] ps paid = Ok (ps, paid)"
| "settle_loop rate (i # ids) ps paid =
     (case ps i of
        None \<Rightarrow> settle_loop rate ids ps paid
      | Some pos \<Rightarrow>
          if pos_status pos \<noteq> Active then settle_loop rate ids ps paid
          else
            and_then (i128_mul (pos_size pos) \<bar>rate\<bar>) (\<lambda>scaled.
            and_then (i128_div scaled 10000) (\<lambda>payment.
            let pos' = (if is_long pos = (rate > 0) then pos\<lparr>collateral := saturating_sub (collateral pos) payment\<rparr>
                        else pos\<lparr>collateral := saturating_add (collateral pos) payment\<rparr>)
            in settle_loop rate ids (ps(i \<mapsto> pos')) (saturating_add paid payment))))"

definition settle_funding :: "env \<Rightarrow> perp_state \<Rightarrow> (perp_error, FundingSettlement \<times> perp_state) outcome" where
  "settle_funding env s =
     and_then (assert_initialized s) (\<lambda>_.
     and_then (assert_not_paused s) (\<lambda>_.
     and_then (ok_or NotInitialized (FundingEntry s)) (\<lambda>funding.
     and_then (u64_add (last_settlement funding) FUNDING_PERIOD_SECS) (\<lambda>due.
     if timestamp env < due then Err FundingNotDue
     else
       let rate = rate_bps funding; count = unwrap_or 0 (PositionCount s) in
       and_then (settle_loop rate [1..<count + 1] (Positions s) 0) (\<lambda>(ps, paid).
       let s1 = s\<lparr>Positions := ps\<rparr> in
       and_then (i64_mul rate 1000000) (\<lambda>delta.
       let new_acc = i64_saturating_add (accumulator s1) delta;
           s2 = s1\<lparr>FundingAccumulator := Some new_acc, FundingEntry := Some (funding\<lparr>last_settlement := timestamp env\<rparr>)\<rparr>;
           result = \<lparr>fs_rate_bps = rate, longs_pay = (rate > 0), total_payments = paid, new_accumulator = new_acc,
              fs_timestamp = timestamp env\<rparr>
       in Ok (result, publish (Ev_settle result) s2)))))))"

section \<open>Positions\<close>

definition open_position ::
    "env \<Rightarrow> address \<Rightarrow> bool \<Rightarrow> int \<Rightarrow> nat \<Rightarrow> int \<Rightarrow> perp_state \<Rightarrow> (perp_error, nat \<times> perp_state) outcome" where
  "open_position env tr long sz lev coll s =
     and_then (assert_not_paused s) (\<lambda>_.
     and_then (assert_initialized s) (\<lambda>_.
     and_then (require_auth env tr) (\<lambda>_.
     if sz \<le> 0 then Err InvalidSize
     else if lev = 0 \<or> lev > MAX_LEVERAGE then Err InvalidLeverage
     else if coll \<le> 0 then Err InsufficientMargin
     else
       and_then (ok_or NotInitialized (VammEntry s)) (\<lambda>vamm.
       and_then (apply_vamm_trade vamm long sz) (\<lambda>vamm'.
       and_then (vamm_mark_price_from vamm') (\<lambda>price.
       let s1 = s\<lparr>VammEntry := Some vamm'\<rparr> in
       and_then (ok_or NotInitialized (FundingEntry s1)) (\<lambda>funding.
       let s2 = s1\<lparr>FundingEntry := Some (funding\<lparr>fr_mark_price := price\<rparr>)\<rparr>;
           acc = accumulator s2 in
       and_then (u64_add (unwrap_or 0 (PositionCount s2)) 1) (\<lambda>i.
       let s3 = s2\<lparr>PositionCount := Some i, FundingSnapshot := (FundingSnapshot s2)(i \<mapsto> acc)\<rparr>;
           position = \<lparr>pos_id = i, trader = tr, is_long = long, pos_size = sz, leverage = lev, entry_price = price,
              collateral = coll, pos_status = Active\<rparr>;
           s4 = s3\<lparr>Positions := (Positions s3)(i \<mapsto> position)\<rparr>
       in Ok (i, publish (Ev_open_pos i tr long sz) s4)))))))))"

definition close_position :: "env \<Rightarrow> address \<Rightarrow> nat \<Rightarrow> perp_state \<Rightarrow> (perp_error, int \<times> perp_state) outcome" where
  "close_position env tr i s =
     and_then (assert_not_paused s) (\<lambda>_.
     and_then (assert_initialized s) (\<lambda>_.
     and_then (require_auth env tr) (\<lambda>_.
     and_then (ok_or PositionNotFound (Positions s i)) (\<lambda>pos.
     if trader pos \<noteq> tr then Err Unauthorized
     else if pos_status pos \<noteq> Active then Err PositionNotActive
     else
       and_then (ok_or NotInitialized (VammEntry s)) (\<lambda>vamm.
       and_then (apply_vamm_trade vamm (\<not> is_long pos) (pos_size pos)) (\<lambda>vamm'.
       and_then (vamm_mark_price_from vamm') (\<lambda>exit_price.
       let s1 = s\<lparr>VammEntry := Some vamm'\<rparr> in
       and_then (pnl_at pos exit_price) (\<lambda>pnl.
       and_then (i64_sub (accumulator s1) (unwrap_or 0 (FundingSnapshot s1 i))) (\<lambda>acc_delta.
       and_then (i128_mul (pos_size pos) acc_delta) (\<lambda>scaled.
       and_then (i128_div scaled 10000000000) (\<lambda>funding_payment.
       and_then (i128_add (collateral pos) pnl) (\<lambda>gross.
       and_then (if is_long pos then i128_sub gross funding_payment else i128_add gross funding_payment) (\<lambda>net.
       let s2 = s1\<lparr>Positions := (Positions s1)(i \<mapsto> pos\<lparr>pos_status := Closed\<rparr>)\<rparr> in
       and_then (ok_or NotInitialized (FundingEntry s2)) (\<lambda>funding.
       let s3 = s2\<lparr>FundingEntry := Some (funding\<lparr>fr_mark_price := exit_price\<rparr>)\<rparr>
       in Ok (net, publish (Ev_close_pos i tr net) s3)))))))))))))))"

definition liquidate_position :: "env \<Rightarrow> address \<Rightarrow> nat \<Rightarrow> perp_state \<Rightarrow> (perp_error, unit \<times> perp_state) outcome" where
  "liquidate_position env liquidator i s =
     and_then (assert_not_paused s) (\<lambda>_.
     and_then (assert_initialized s) (\<lambda>_.
     and_then (require_auth env liquidator) (\<lambda>_.
     and_then (ok_or PositionNotFound (Positions s i)) (\<lambda>pos.
     if pos_status pos \<noteq> Active then Err PositionNotActive
     else
       and_then (ok_or NotInitialized (VammEntry s)) (\<lambda>vamm.
       and_then (vamm_mark_price_from vamm) (\<lambda>current_price.
       and_then (pnl_at pos current_price) (\<lambda>pnl.
       and_then (i128_add (collateral pos) pnl) (\<lambda>remaining_margin.
       and_then (i128_mul (collateral pos) MAINTENANCE_MARGIN_BPS) (\<lambda>scaled.
       and_then (i128_div scaled 10000) (\<lambda>maintenance_threshold.
       if remaining_margin > maintenance_threshold then Err InsufficientMargin
       else Ok ((), publish (Ev_liquidate i liquidator)
              (s\<lparr>Positions := (Positions s)(i \<mapsto> pos\<lparr>pos_status := Liquidated\<rparr>)\<rparr>))))))))))))"

section \<open>Read-only entry points\<close>

definition mark_price :: "perp_state \<Rightarrow> (perp_error, int) outcome" where
  "mark_price s =
     and_then (assert_initialized s) (\<lambda>_.
     and_then (ok_or NotInitialized (VammEntry s)) (\<lambda>vamm. vamm_mark_price_from vamm))"

definition get_position :: "nat \<Rightarrow> perp_state \<Rightarrow> (perp_error, Position) outcome" where
  "get_position i s = ok_or PositionNotFound (Positions s i)"
definition get_funding_rate :: "perp_state \<Rightarrow> (perp_error, FundingRate) outcome" where
  "get_funding_rate s = ok_or NotInitialized (FundingEntry s)"
definition get_funding_accumulator :: "perp_state \<Rightarrow> int" where
  "get_funding_accumulator s = unwrap_or 0 (FundingAccumulator s)"
definition get_vamm_config :: "perp_state \<Rightarrow> (perp_error, VammConfig) outcome" where
  "get_vamm_config s = ok_or NotInitialized (VammEntry s)"
definition position_count :: "perp_state \<Rightarrow> nat" where
  "position_count s = unwrap_or 0 (PositionCount s)"
definition is_paused :: "perp_state \<Rightarrow> bool" where
  "is_paused s = unwrap_or False (Paused s)"
definition get_admin :: "perp_state \<Rightarrow> (perp_error, address) outcome" where
  "get_admin s = ok_or NotInitialized (Admin s)"

section \<open>Public histories\<close>

text \<open>One successful invocation; sizes, reserves and prices are arguments of type \<open>i128\<close>.\<close>

inductive perp_call :: "env \<Rightarrow> perp_state \<Rightarrow> perp_state \<Rightarrow> bool" for env where
  initialize: "in_i128 rx \<Longrightarrow> in_i128 ry \<Longrightarrow> in_i128 idx \<Longrightarrow> initialize env a rx ry idx s = Ok (u, t) \<Longrightarrow> perp_call env s t"
| set_paused: "set_paused env a p s = Ok (u, t) \<Longrightarrow> perp_call env s t"
| update_index: "in_i128 idx \<Longrightarrow> update_index_price env a idx s = Ok (u, t) \<Longrightarrow> perp_call env s t"
| update_rate: "update_funding_rate env s = Ok (r, t) \<Longrightarrow> perp_call env s t"
| settle: "settle_funding env s = Ok (r, t) \<Longrightarrow> perp_call env s t"
| open_pos: "in_i128 sz \<Longrightarrow> in_i128 c \<Longrightarrow> open_position env a l sz lev c s = Ok (i, t) \<Longrightarrow> perp_call env s t"
| close_pos: "close_position env a i s = Ok (n, t) \<Longrightarrow> perp_call env s t"
| liquidate: "liquidate_position env a i s = Ok (u, t) \<Longrightarrow> perp_call env s t"

definition perp_step :: "perp_state \<Rightarrow> perp_state \<Rightarrow> bool" where
  "perp_step s t \<longleftrightarrow> (\<exists>env. perp_call env s t)"

end
