(* ===== verification/Perpetuals_Correct.thy ===== *)
theory Perpetuals_Correct
  imports Perpetuals
begin

text \<open>
  Correctness of the perpetual futures: the virtual market is determined by its product and the open
  exposure, positions only move along their life cycle, funding rates are bounded, an immediate
  round trip never profits, and funding is charged twice to a position that is closed after a
  settlement.
\<close>

section \<open>Success of each operation\<close>

lemma perp_asserts_Ok [simp]:
  "assert_initialized s = Ok u \<longleftrightarrow> Initialized s \<noteq> None"
  "assert_not_paused s = Ok u \<longleftrightarrow> Paused s \<noteq> Some True"
  "assert_admin env a s = Ok u \<longleftrightarrow> Initialized s \<noteq> None \<and> auth env a \<and> Admin s = Some a"
  by (auto simp: assert_initialized_def assert_not_paused_def assert_admin_def unwrap_or_def split: option.splits)

lemma publish_fields [simp]:
  "Admin (publish e s) = Admin s" "Initialized (publish e s) = Initialized s" "Paused (publish e s) = Paused s"
  "PositionCount (publish e s) = PositionCount s" "VammEntry (publish e s) = VammEntry s"
  "FundingEntry (publish e s) = FundingEntry s" "FundingAccumulator (publish e s) = FundingAccumulator s"
  "FundingSnapshot (publish e s) = FundingSnapshot s" "Positions (publish e s) = Positions s"
  by (simp_all add: publish_def)

lemma open_Ok:
  assumes "open_position env a l sz lev c s = Ok (i, t)"
  shows "\<exists>v v' f price. Initialized s \<noteq> None \<and> auth env a \<and> 0 < sz \<and> 0 < lev \<and> lev \<le> MAX_LEVERAGE \<and> 0 < c \<and>
    VammEntry s = Some v \<and> apply_vamm_trade v l sz = Ok v' \<and> vamm_mark_price_from v' = Ok price \<and>
    FundingEntry s = Some f \<and> i = Suc (position_count s) \<and>
    t = publish (Ev_open_pos i a l sz) (s\<lparr>VammEntry := Some v', FundingEntry := Some (f\<lparr>fr_mark_price := price\<rparr>),
      PositionCount := Some i, FundingSnapshot := (FundingSnapshot s)(i \<mapsto> accumulator s),
      Positions := (Positions s)(i \<mapsto> \<lparr>pos_id = i, trader = a, is_long = l, pos_size = sz, leverage = lev,
        entry_price = price, collateral = c, pos_status = Active\<rparr>)\<rparr>)"
  using assms by (auto simp: open_position_def Let_def not_le not_less accumulator_def position_count_def)

lemma close_Ok:
  assumes "close_position env a i s = Ok (n, t)"
  shows "\<exists>p v v' f price pnl. Initialized s \<noteq> None \<and> auth env a \<and> Positions s i = Some p \<and> trader p = a \<and>
    pos_status p = Active \<and> VammEntry s = Some v \<and> apply_vamm_trade v (\<not> is_long p) (pos_size p) = Ok v' \<and>
    vamm_mark_price_from v' = Ok price \<and> pnl_at p price = Ok pnl \<and> FundingEntry s = Some f \<and>
    n = collateral p + pnl + (if is_long p then -1 else 1) *
      ((pos_size p * (accumulator s - unwrap_or 0 (FundingSnapshot s i))) sdiv 10000000000) \<and>
    t = publish (Ev_close_pos i a n) (s\<lparr>VammEntry := Some v', Positions := (Positions s)(i \<mapsto> p\<lparr>pos_status := Closed\<rparr>),
      FundingEntry := Some (f\<lparr>fr_mark_price := price\<rparr>)\<rparr>)"
proof -
  have i64: "i64_sub x y = Ok z \<Longrightarrow> z = x - y" for x y z by (auto simp: i64_sub_def split: if_splits)
  have "\<exists>p v v' f price pnl d. Initialized s \<noteq> None \<and> auth env a \<and> Positions s i = Some p \<and> trader p = a \<and>
      pos_status p = Active \<and> VammEntry s = Some v \<and> apply_vamm_trade v (\<not> is_long p) (pos_size p) = Ok v' \<and>
      vamm_mark_price_from v' = Ok price \<and> pnl_at p price = Ok pnl \<and> FundingEntry s = Some f \<and>
      i64_sub (accumulator s) (unwrap_or 0 (FundingSnapshot s i)) = (Ok d :: (perp_error, int) outcome) \<and>
      (if is_long p then i128_sub (collateral p + pnl) ((pos_size p * d) sdiv 10000000000)
        else i128_add (collateral p + pnl) ((pos_size p * d) sdiv 10000000000)) = (Ok n :: (perp_error, int) outcome) \<and>
      t = publish (Ev_close_pos i a n) (s\<lparr>VammEntry := Some v', Positions := (Positions s)(i \<mapsto> p\<lparr>pos_status := Closed\<rparr>),
        FundingEntry := Some (f\<lparr>fr_mark_price := price\<rparr>)\<rparr>)"
    using assms by (auto simp: close_position_def Let_def accumulator_def split del: if_split)
  then obtain p v v' f price pnl d where g: "Initialized s \<noteq> None" "auth env a" "Positions s i = Some p" "trader p = a"
      "pos_status p = Active" "VammEntry s = Some v" "apply_vamm_trade v (\<not> is_long p) (pos_size p) = Ok v'"
      "vamm_mark_price_from v' = Ok price" "pnl_at p price = Ok pnl" "FundingEntry s = Some f"
    and d: "i64_sub (accumulator s) (unwrap_or 0 (FundingSnapshot s i)) = (Ok d :: (perp_error, int) outcome)"
    and n: "(if is_long p then i128_sub (collateral p + pnl) ((pos_size p * d) sdiv 10000000000)
        else i128_add (collateral p + pnl) ((pos_size p * d) sdiv 10000000000)) = (Ok n :: (perp_error, int) outcome)"
    and t: "t = publish (Ev_close_pos i a n) (s\<lparr>VammEntry := Some v', Positions := (Positions s)(i \<mapsto> p\<lparr>pos_status := Closed\<rparr>),
        FundingEntry := Some (f\<lparr>fr_mark_price := price\<rparr>)\<rparr>)"
    by blast
  have "n = collateral p + pnl + (if is_long p then -1 else 1) * ((pos_size p * d) sdiv 10000000000)"
    using n by (auto split: if_splits)
  with g i64 [OF d] t show ?thesis by blast
qed

lemma liquidate_Ok:
  assumes "liquidate_position env a i s = Ok (u, t)"
  shows "\<exists>p v price pnl. Initialized s \<noteq> None \<and> auth env a \<and> Positions s i = Some p \<and> pos_status p = Active \<and>
    VammEntry s = Some v \<and> vamm_mark_price_from v = Ok price \<and> pnl_at p price = Ok pnl \<and>
    collateral p + pnl \<le> (collateral p * MAINTENANCE_MARGIN_BPS) sdiv 10000 \<and>
    t = publish (Ev_liquidate i a) (s\<lparr>Positions := (Positions s)(i \<mapsto> p\<lparr>pos_status := Liquidated\<rparr>)\<rparr>)"
  using assms by (auto simp: liquidate_position_def not_less)

text \<open>What a settlement does to one position.\<close>

definition settled :: "int \<Rightarrow> Position \<Rightarrow> Position" where
  "settled rate p =
     (if pos_status p \<noteq> Active then p
      else
        let pay = (pos_size p * \<bar>rate\<bar>) sdiv 10000 in
        if is_long p = (rate > 0) then p\<lparr>collateral := saturating_sub (collateral p) pay\<rparr>
        else p\<lparr>collateral := saturating_add (collateral p) pay\<rparr>)"

lemma settle_loop_Ok:
  "settle_loop rate ids ps paid = Ok (ps', paid') \<Longrightarrow> distinct ids \<Longrightarrow>
    ps' i = (if i \<in> set ids then map_option (settled rate) (ps i) else ps i)"
proof (induction ids arbitrary: ps paid)
  case (Cons j ids)
  show ?case
  proof (cases "ps j")
    case None
    then show ?thesis using Cons by auto
  next
    case (Some p)
    show ?thesis
    proof (cases "pos_status p = Active")
      case True
      then obtain paid1 where "settle_loop rate ids (ps(j \<mapsto> settled rate p)) paid1 = Ok (ps', paid')"
        using Cons.prems(1) Some by (auto simp: settled_def Let_def split: if_splits)
      from Cons.IH [OF this] show ?thesis using Cons.prems(2) Some by auto
    next
      case False
      then have "settled rate p = p" by (simp add: settled_def)
      then show ?thesis using Cons Some False by auto
    qed
  qed
qed simp

lemma settle_Ok:
  assumes "settle_funding env s = Ok (r, t)"
  shows "\<exists>f ps acc. FundingEntry s = Some f \<and> last_settlement f + FUNDING_PERIOD_SECS \<le> timestamp env \<and>
    Initialized s \<noteq> None \<and> acc = i64_saturating_add (accumulator s) (rate_bps f * 1000000) \<and>
    (\<forall>i. ps i = (if 1 \<le> i \<and> i \<le> position_count s then map_option (settled (rate_bps f)) (Positions s i) else Positions s i)) \<and>
    t = publish (Ev_settle r) (s\<lparr>Positions := ps, FundingAccumulator := Some acc,
      FundingEntry := Some (f\<lparr>last_settlement := timestamp env\<rparr>)\<rparr>)"
proof -
  obtain f ps paid where f: "FundingEntry s = Some f" "last_settlement f + FUNDING_PERIOD_SECS \<le> timestamp env" "Initialized s \<noteq> None"
    and l: "settle_loop (rate_bps f) [1..<unwrap_or 0 (PositionCount s) + 1] (Positions s) 0 = Ok (ps, paid)"
    and t: "t = publish (Ev_settle r) (s\<lparr>Positions := ps,
        FundingAccumulator := Some (i64_saturating_add (accumulator s) (rate_bps f * 1000000)),
        FundingEntry := Some (f\<lparr>last_settlement := timestamp env\<rparr>)\<rparr>)"
    using assms by (auto simp: settle_funding_def Let_def i64_mul_def accumulator_def not_less simp del: upt_Suc split: if_splits)
  have "ps i = (if 1 \<le> i \<and> i \<le> position_count s then map_option (settled (rate_bps f)) (Positions s i) else Positions s i)" for i
    using settle_loop_Ok [OF l, of i] by (simp add: position_count_def less_Suc_eq_le del: upt_Suc)
  with f t show ?thesis by blast
qed

lemma update_rate_Ok:
  assumes "update_funding_rate env s = Ok (r, t)"
  shows "\<exists>f v mark. FundingEntry s = Some f \<and> last_update f + FUNDING_PERIOD_SECS \<le> timestamp env \<and> Initialized s \<noteq> None \<and>
    VammEntry s = Some v \<and> vamm_mark_price_from v = Ok mark \<and> compute_rate_bps mark (index_price f) = Ok r \<and>
    t = publish (Ev_fund_rate r) (s\<lparr>FundingAccumulator := Some (i64_saturating_add (accumulator s) (r * 1000000)),
      FundingEntry := Some (f\<lparr>fr_mark_price := mark, rate_bps := r, last_update := timestamp env\<rparr>)\<rparr>)"
  using assms by (auto simp: update_funding_rate_def Let_def i64_mul_def not_less split: if_splits)

lemma perp_initialize_Ok:
  assumes "initialize env a rx ry idx s = Ok (u, t)"
  shows "\<exists>mark. Initialized s = None \<and> 0 < rx \<and> 0 < ry \<and> in_i128 (rx * ry) \<and> auth env a \<and>
    t = publish (Ev_init a) (s\<lparr>Admin := Some a, Initialized := Some True, Paused := Some False, PositionCount := Some 0,
      FundingAccumulator := Some 0, VammEntry := Some \<lparr>reserve_x = rx, reserve_y = ry, vamm_k = rx * ry\<rparr>,
      FundingEntry := Some \<lparr>fr_mark_price = mark, index_price = idx, rate_bps = 0, last_update = timestamp env,
        last_settlement = timestamp env\<rparr>\<rparr>)"
  using assms by (auto simp: initialize_def Let_def not_le split: if_splits)

section \<open>The virtual market\<close>

definition vamm_ok :: "VammConfig \<Rightarrow> bool" where
  "vamm_ok v \<longleftrightarrow> 0 < reserve_x v \<and> in_i128 (reserve_x v) \<and> 0 < vamm_k v \<and> in_i128 (vamm_k v) \<and>
     reserve_y v = vamm_k v div reserve_x v"

lemma trade_Ok:
  assumes "apply_vamm_trade v l sz = Ok v'" "vamm_ok v" "0 < sz"
  shows "vamm_ok v' \<and> vamm_k v' = vamm_k v \<and> reserve_x v' = reserve_x v + (if l then - sz else sz)"
proof (cases l)
  case True
  have x: "sz < reserve_x v" and v': "v' = v\<lparr>reserve_x := reserve_x v - sz, reserve_y := vamm_k v sdiv (reserve_x v - sz)\<rparr>"
    using assms True by (auto simp: apply_vamm_trade_def not_le split: if_splits)
  have "in_i128 (reserve_x v - sz)"
    by (rule in_i128_le [of "reserve_x v"]) (use assms x in \<open>simp_all add: vamm_ok_def\<close>)
  then show ?thesis using assms(2) x True by (simp add: v' vamm_ok_def sdiv_nonneg)
next
  case False
  have "in_i128 (reserve_x v + sz)" "v' = v\<lparr>reserve_x := reserve_x v + sz, reserve_y := vamm_k v sdiv (reserve_x v + sz)\<rparr>"
    using assms False by (auto simp: apply_vamm_trade_def split: if_splits)
  then show ?thesis using assms(2,3) False by (simp add: vamm_ok_def sdiv_nonneg)
qed

lemma price_Ok:
  assumes "vamm_mark_price_from v = Ok price" "vamm_ok v"
  shows "price = reserve_y v * 10000000 div reserve_x v" "0 \<le> price"
proof -
  have y: "0 \<le> reserve_y v" using assms(2) by (simp add: vamm_ok_def pos_imp_zdiv_nonneg_iff)
  then show "price = reserve_y v * 10000000 div reserve_x v"
    using assms by (auto simp: vamm_mark_price_from_def vamm_ok_def sdiv_nonneg split: if_splits)
  then show "0 \<le> price" using y assms(2) by (simp add: vamm_ok_def pos_imp_zdiv_nonneg_iff)
qed

text \<open>Less base asset in the market, same product: the price is no lower.\<close>

lemma price_antimono:
  assumes "vamm_ok v" "vamm_ok v'" "vamm_k v' = vamm_k v" "reserve_x v' \<le> reserve_x v"
    "vamm_mark_price_from v = Ok p" "vamm_mark_price_from v' = Ok p'"
  shows "p \<le> p'"
proof -
  have x: "0 < reserve_x v'" "0 < reserve_x v" "0 \<le> vamm_k v" using assms by (simp_all add: vamm_ok_def)
  have y: "reserve_y v \<le> reserve_y v'" "0 \<le> reserve_y v'"
    using assms(1-3) zdiv_mono2 [OF x(3) x(1) assms(4)] x by (simp_all add: vamm_ok_def pos_imp_zdiv_nonneg_iff)
  have "p = reserve_y v * 10000000 div reserve_x v" by (rule price_Ok [OF assms(5,1)])
  also have "\<dots> \<le> reserve_y v' * 10000000 div reserve_x v" by (rule zdiv_mono1) (use y x in simp_all)
  also have "\<dots> \<le> reserve_y v' * 10000000 div reserve_x v'"
    by (rule zdiv_mono2) (use y x assms(4) in simp_all)
  also have "\<dots> = p'" by (rule price_Ok(1) [OF assms(6,2), symmetric])
  finally show ?thesis .
qed

lemma rate_bounds: "compute_rate_bps m i = Ok r \<Longrightarrow> \<bar>r\<bar> \<le> MAX_FUNDING_RATE_BPS"
  by (auto simp: compute_rate_bps_def MAX_FUNDING_RATE_BPS_def Let_def split: if_splits)

section \<open>The invariant\<close>

definition position_ok :: "nat \<Rightarrow> Position \<Rightarrow> bool" where
  "position_ok i p \<longleftrightarrow> pos_id p = i \<and> 0 < pos_size p \<and> in_i128 (pos_size p) \<and> in_i128 (collateral p)"

definition perp_inv :: "perp_state \<Rightarrow> bool" where
  "perp_inv s \<longleftrightarrow>
     finite (dom (Positions s)) \<and>
     (\<forall>i p. Positions s i = Some p \<longrightarrow> 1 \<le> i \<and> i \<le> position_count s \<and> position_ok i p \<and> Initialized s \<noteq> None) \<and>
     (\<forall>v. VammEntry s = Some v \<longrightarrow> vamm_ok v) \<and>
     (Initialized s \<noteq> None \<longleftrightarrow> VammEntry s \<noteq> None) \<and> (FundingEntry s \<noteq> None \<longleftrightarrow> VammEntry s \<noteq> None) \<and>
     (\<forall>f. FundingEntry s = Some f \<longrightarrow> \<bar>rate_bps f\<bar> \<le> MAX_FUNDING_RATE_BPS)"

lemma perp_invD:
  assumes "perp_inv s"
  shows "finite (dom (Positions s))"
    "Positions s i = Some p \<Longrightarrow> 1 \<le> i \<and> i \<le> position_count s \<and> position_ok i p \<and> Initialized s \<noteq> None"
    "VammEntry s = Some v \<Longrightarrow> vamm_ok v" "Initialized s \<noteq> None \<longleftrightarrow> VammEntry s \<noteq> None"
    "FundingEntry s \<noteq> None \<longleftrightarrow> VammEntry s \<noteq> None"
    "FundingEntry s = Some f \<Longrightarrow> \<bar>rate_bps f\<bar> \<le> MAX_FUNDING_RATE_BPS"
  using assms unfolding perp_inv_def by blast+

lemma perp_inv_empty: "perp_inv empty_perps"
  by (simp add: perp_inv_def empty_perps_def)

lemma settled_ok: "position_ok i p \<Longrightarrow> position_ok i (settled r p)"
  by (auto simp: position_ok_def settled_def Let_def saturating_add_def saturating_sub_def i128_saturate_def
      in_i128_def i128_max_def i128_min_def)

text \<open>Replacing one position, and the entries that describe the market.\<close>

lemma perp_inv_update:
  assumes "perp_inv s" "position_ok i p" "1 \<le> i" "i \<le> position_count t" "position_count s \<le> position_count t"
    "Positions t = (Positions s)(i \<mapsto> p)" "Initialized t = Initialized s" "Initialized s \<noteq> None"
    "VammEntry t = Some v" "vamm_ok v" "FundingEntry t = Some f" "\<bar>rate_bps f\<bar> \<le> MAX_FUNDING_RATE_BPS"
  shows "perp_inv t"
proof -
  have "1 \<le> j \<and> j \<le> position_count t \<and> position_ok j q \<and> Initialized t \<noteq> None" if "Positions t j = Some q" for j q
  proof (cases "j = i")
    case True
    then show ?thesis using that assms by simp
  next
    case False
    then have "Positions s j = Some q" using that assms(6) by simp
    then show ?thesis using perp_invD(2) [OF assms(1)] assms(5,7) order_trans by metis
  qed
  moreover have "finite (dom (Positions t))" using perp_invD(1) [OF assms(1)] assms(6) by simp
  ultimately show ?thesis using assms(7-12) unfolding perp_inv_def by simp
qed

lemma perp_call_inv:
  assumes "perp_call env s t" "perp_inv s"
  shows "perp_inv t"
  using assms(1)
proof cases
  case (initialize rx ry idx a u)
  obtain mark where i: "Initialized s = None" "0 < rx" "0 < ry" "in_i128 (rx * ry)"
    and t: "t = publish (Ev_init a) (s\<lparr>Admin := Some a, Initialized := Some True, Paused := Some False, PositionCount := Some 0,
      FundingAccumulator := Some 0, VammEntry := Some \<lparr>reserve_x = rx, reserve_y = ry, vamm_k = rx * ry\<rparr>,
      FundingEntry := Some \<lparr>fr_mark_price = mark, index_price = idx, rate_bps = 0, last_update = timestamp env,
        last_settlement = timestamp env\<rparr>\<rparr>)"
    using perp_initialize_Ok [OF initialize(4)] by blast
  have "Positions s j = None" for j using perp_invD(2) [OF assms(2), of j] i(1) by (cases "Positions s j") auto
  then show ?thesis
    using i initialize(1) perp_invD(1) [OF assms(2)]
    by (simp add: perp_inv_def t vamm_ok_def MAX_FUNDING_RATE_BPS_def zero_less_mult_iff)
next
  case (set_paused a p u)
  then have "t = publish (Ev_pause p) (s\<lparr>Paused := Some p\<rparr>)" by (auto simp: set_paused_def)
  then have "perp_inv t = perp_inv s" by (simp add: perp_inv_def position_count_def)
  then show ?thesis using assms(2) by simp
next
  case (update_index idx a u)
  obtain f r where f: "FundingEntry s = Some f" "compute_rate_bps (fr_mark_price f) idx = Ok r"
    and t: "t = publish (Ev_idx_price idx) (s\<lparr>FundingEntry := Some (f\<lparr>index_price := idx, last_update := timestamp env, rate_bps := r\<rparr>)\<rparr>)"
    using update_index(2) by (auto simp: update_index_price_def Let_def)
  show ?thesis using assms(2) rate_bounds [OF f(2)] f(1) by (simp add: perp_inv_def t position_count_def)
next
  case (update_rate r)
  obtain f v mark where f: "FundingEntry s = Some f" "compute_rate_bps mark (index_price f) = Ok r"
    and t: "t = publish (Ev_fund_rate r) (s\<lparr>FundingAccumulator := Some (i64_saturating_add (accumulator s) (r * 1000000)),
      FundingEntry := Some (f\<lparr>fr_mark_price := mark, rate_bps := r, last_update := timestamp env\<rparr>)\<rparr>)"
    using update_rate_Ok [OF update_rate] by blast
  show ?thesis using assms(2) rate_bounds [OF f(2)] f(1) by (simp add: perp_inv_def t position_count_def)
next
  case (settle r)
  obtain f ps acc where f: "FundingEntry s = Some f"
    and ps: "\<And>i. ps i = (if 1 \<le> i \<and> i \<le> position_count s then map_option (settled (rate_bps f)) (Positions s i) else Positions s i)"
    and t: "t = publish (Ev_settle r) (s\<lparr>Positions := ps, FundingAccumulator := Some acc,
      FundingEntry := Some (f\<lparr>last_settlement := timestamp env\<rparr>)\<rparr>)"
    using settle_Ok [OF settle] by blast
  have d: "dom ps = dom (Positions s)" by (auto simp: dom_def ps)
  have "1 \<le> i \<and> i \<le> position_count t \<and> position_ok i p \<and> Initialized t \<noteq> None" if "Positions t i = Some p" for i p
    using that perp_invD(2) [OF assms(2), of i] by (auto simp: t ps position_count_def split: if_splits intro: settled_ok)
  then show ?thesis using assms(2) f d unfolding perp_inv_def by (simp add: t)
next
  case (open_pos sz c a l lev i)
  obtain v v' f price where o: "Initialized s \<noteq> None" "0 < sz" "VammEntry s = Some v" "apply_vamm_trade v l sz = Ok v'"
      "FundingEntry s = Some f" "i = Suc (position_count s)"
    and t: "t = publish (Ev_open_pos i a l sz) (s\<lparr>VammEntry := Some v', FundingEntry := Some (f\<lparr>fr_mark_price := price\<rparr>),
      PositionCount := Some i, FundingSnapshot := (FundingSnapshot s)(i \<mapsto> accumulator s),
      Positions := (Positions s)(i \<mapsto> \<lparr>pos_id = i, trader = a, is_long = l, pos_size = sz, leverage = lev,
        entry_price = price, collateral = c, pos_status = Active\<rparr>)\<rparr>)"
    using open_Ok [OF open_pos(3)] by blast
  note v = trade_Ok [OF o(4) perp_invD(3) [OF assms(2) o(3)] o(2)]
  have ok: "position_ok i \<lparr>pos_id = i, trader = a, is_long = l, pos_size = sz, leverage = lev,
        entry_price = price, collateral = c, pos_status = Active\<rparr>"
    using o(2) open_pos(1,2) by (simp add: position_ok_def)
  show ?thesis
    by (rule perp_inv_update [OF assms(2) ok, where v = v' and f = "f\<lparr>fr_mark_price := price\<rparr>"])
      (use o v perp_invD(6) [OF assms(2) o(5)] in \<open>simp_all add: t position_count_def\<close>)
next
  case (close_pos a i n)
  obtain p v v' f price where o: "Initialized s \<noteq> None" "Positions s i = Some p" "VammEntry s = Some v"
      "apply_vamm_trade v (\<not> is_long p) (pos_size p) = Ok v'" "FundingEntry s = Some f"
    and t: "t = publish (Ev_close_pos i a n) (s\<lparr>VammEntry := Some v', Positions := (Positions s)(i \<mapsto> p\<lparr>pos_status := Closed\<rparr>),
      FundingEntry := Some (f\<lparr>fr_mark_price := price\<rparr>)\<rparr>)"
    using close_Ok [OF close_pos] by blast
  note p = perp_invD(2) [OF assms(2) o(2)]
  have "0 < pos_size p" using p by (simp add: position_ok_def)
  note v = trade_Ok [OF o(4) perp_invD(3) [OF assms(2) o(3)] this]
  have ok: "position_ok i (p\<lparr>pos_status := Closed\<rparr>)" using p by (simp add: position_ok_def)
  show ?thesis
    by (rule perp_inv_update [OF assms(2) ok, where v = v' and f = "f\<lparr>fr_mark_price := price\<rparr>"])
      (use o v p perp_invD(6) [OF assms(2) o(5)] in \<open>simp_all add: t position_count_def\<close>)
next
  case (liquidate a i u)
  obtain p v where o: "Initialized s \<noteq> None" "Positions s i = Some p" "VammEntry s = Some v"
    and t: "t = publish (Ev_liquidate i a) (s\<lparr>Positions := (Positions s)(i \<mapsto> p\<lparr>pos_status := Liquidated\<rparr>)\<rparr>)"
    using liquidate_Ok [OF liquidate] by blast
  note p = perp_invD(2) [OF assms(2) o(2)]
  obtain f where f: "FundingEntry s = Some f" using perp_invD(5) [OF assms(2)] o(3) by auto
  have ok: "position_ok i (p\<lparr>pos_status := Liquidated\<rparr>)" using p by (simp add: position_ok_def)
  show ?thesis
    by (rule perp_inv_update [OF assms(2) ok, where v = v and f = f])
      (use o f p perp_invD(3) [OF assms(2) o(3)] perp_invD(6) [OF assms(2) f] in \<open>simp_all add: t position_count_def\<close>)
qed

interpretation perps: contract_machine empty_perps perp_step perp_inv
  by unfold_locales (auto simp: perp_step_def intro: perp_inv_empty perp_call_inv)

section \<open>Open exposure\<close>

text \<open>Base asset that a position has taken out of the market; a liquidation puts nothing back.\<close>

definition exposure :: "Position \<Rightarrow> int" where
  "exposure p = (if pos_status p = Closed then 0 else if is_long p then pos_size p else - pos_size p)"

definition net_exposure :: "perp_state \<Rightarrow> int" where
  "net_exposure s = total_bal (\<lambda>i. map_option exposure (Positions s i))"

lemma net_exposure_upd:
  assumes "finite (dom (Positions s))" "Positions t = (Positions s)(i \<mapsto> p)"
  shows "net_exposure t = net_exposure s - (case Positions s i of None \<Rightarrow> 0 | Some q \<Rightarrow> exposure q) + exposure p"
  using total_of_upd [OF assms(1), of exposure i "Some p"] assms(2)
  by (simp add: net_exposure_def total_of_def value_at_def)

lemma net_exposure_cong: "(\<And>i. map_option exposure (Positions t i) = map_option exposure (Positions s i)) \<Longrightarrow> net_exposure t = net_exposure s"
  by (simp add: net_exposure_def)

lemma settled_exposure [simp]: "exposure (settled r p) = exposure p"
  by (simp add: exposure_def settled_def Let_def)

text \<open>Every call keeps the product and the sum of the reserve and the exposure.\<close>

lemma perp_call_depth:
  assumes "perp_call env s t" "perp_inv s" "VammEntry s = Some v"
  shows "\<exists>v'. VammEntry t = Some v' \<and> vamm_k v' = vamm_k v \<and> reserve_x v' + net_exposure t = reserve_x v + net_exposure s"
  using assms(1)
proof cases
  case (initialize rx ry idx a u)
  then show ?thesis using perp_initialize_Ok [OF initialize(4)] perp_invD(4) [OF assms(2)] assms(3) by auto
next
  case (set_paused a p u)
  then show ?thesis using assms(3) by (auto simp: set_paused_def net_exposure_def)
next
  case (update_index idx a u)
  then show ?thesis using assms(3) by (auto simp: update_index_price_def Let_def net_exposure_def)
next
  case (update_rate r)
  then show ?thesis using update_rate_Ok [OF update_rate] assms(3) by (auto simp: net_exposure_def)
next
  case (settle r)
  then obtain f ps acc where
    ps: "\<And>i. ps i = (if 1 \<le> i \<and> i \<le> position_count s then map_option (settled (rate_bps f)) (Positions s i) else Positions s i)"
    and t: "t = publish (Ev_settle r) (s\<lparr>Positions := ps, FundingAccumulator := Some acc,
      FundingEntry := Some (f\<lparr>last_settlement := timestamp env\<rparr>)\<rparr>)"
    using settle_Ok [OF settle] by blast
  have "net_exposure t = net_exposure s"
    by (rule net_exposure_cong) (simp add: t ps option.map_comp comp_def)
  then show ?thesis using assms(3) by (simp add: t)
next
  case (open_pos sz c a l lev i)
  obtain v1 v' f price where o: "0 < sz" "VammEntry s = Some v1" "apply_vamm_trade v1 l sz = Ok v'" "i = Suc (position_count s)"
    and t: "t = publish (Ev_open_pos i a l sz) (s\<lparr>VammEntry := Some v', FundingEntry := Some (f\<lparr>fr_mark_price := price\<rparr>),
      PositionCount := Some i, FundingSnapshot := (FundingSnapshot s)(i \<mapsto> accumulator s),
      Positions := (Positions s)(i \<mapsto> \<lparr>pos_id = i, trader = a, is_long = l, pos_size = sz, leverage = lev,
        entry_price = price, collateral = c, pos_status = Active\<rparr>)\<rparr>)"
    using open_Ok [OF open_pos(3)] by blast
  have v: "v1 = v" using o(2) assms(3) by simp
  have new: "Positions s i = None" using perp_invD(2) [OF assms(2), of i] o(4) by (cases "Positions s i") auto
  note T = trade_Ok [OF o(3) [unfolded v] perp_invD(3) [OF assms(2,3)] o(1)]
  have "net_exposure t = net_exposure s + (if l then sz else - sz)"
    using net_exposure_upd [OF perp_invD(1) [OF assms(2)], of t i] new by (simp add: t exposure_def)
  then show ?thesis using T by (simp add: t)
next
  case (close_pos a i n)
  obtain p v1 v' f price where o: "Positions s i = Some p" "VammEntry s = Some v1" "pos_status p = Active"
      "apply_vamm_trade v1 (\<not> is_long p) (pos_size p) = Ok v'"
    and t: "t = publish (Ev_close_pos i a n) (s\<lparr>VammEntry := Some v', Positions := (Positions s)(i \<mapsto> p\<lparr>pos_status := Closed\<rparr>),
      FundingEntry := Some (f\<lparr>fr_mark_price := price\<rparr>)\<rparr>)"
    using close_Ok [OF close_pos] by blast
  have v: "v1 = v" using o(2) assms(3) by simp
  have "0 < pos_size p" using perp_invD(2) [OF assms(2) o(1)] by (simp add: position_ok_def)
  note T = trade_Ok [OF o(4) [unfolded v] perp_invD(3) [OF assms(2,3)] this]
  have "net_exposure t = net_exposure s - (if is_long p then pos_size p else - pos_size p)"
    using net_exposure_upd [OF perp_invD(1) [OF assms(2)], of t i] o(1,3) by (simp add: t exposure_def)
  then show ?thesis using T by (simp add: t)
next
  case (liquidate a i u)
  obtain p where o: "Positions s i = Some p" "pos_status p = Active"
    and t: "t = publish (Ev_liquidate i a) (s\<lparr>Positions := (Positions s)(i \<mapsto> p\<lparr>pos_status := Liquidated\<rparr>)\<rparr>)"
    using liquidate_Ok [OF liquidate] by blast
  have "net_exposure t = net_exposure s"
    using net_exposure_upd [OF perp_invD(1) [OF assms(2)], of t i] o by (simp add: t exposure_def)
  then show ?thesis using assms(3) by (simp add: t)
qed

section \<open>The price of a round trip\<close>

lemma trade_back:
  assumes "apply_vamm_trade v l sz = Ok v1" "apply_vamm_trade v1 (\<not> l) sz = Ok v2" "vamm_ok v" "0 < sz"
  shows "v2 = v"
proof -
  note A = trade_Ok [OF assms(1,3,4)]
  note B = trade_Ok [OF assms(2) conjunct1 [OF A] assms(4)]
  have "reserve_x v2 = reserve_x v" "vamm_k v2 = vamm_k v" using A B by auto
  moreover from this have "reserve_y v2 = reserve_y v" using B assms(3) by (simp add: vamm_ok_def)
  ultimately show ?thesis by simp
qed

lemma pnl_at_collateral [simp]: "pnl_at (p\<lparr>collateral := c\<rparr>) price = pnl_at p price"
  by (cases "is_long p") (simp_all add: pnl_at_def)

lemma pnl_nonpos:
  assumes "pnl_at p price = Ok pnl" "0 \<le> entry_price p" "0 < pos_size p"
    "if is_long p then price \<le> entry_price p else entry_price p \<le> price"
  shows "pnl \<le> 0"
proof -
  have "pnl = ((if is_long p then price - entry_price p else entry_price p - price) * pos_size p) sdiv entry_price p"
    "0 < entry_price p"
    using assms(1,2) by (auto simp: pnl_at_def split: if_splits)
  moreover have "(if is_long p then price - entry_price p else entry_price p - price) * pos_size p \<le> 0"
    using assms(3,4) by (simp add: mult_nonpos_nonneg)
  ultimately show ?thesis by (simp add: sdiv_nonpos)
qed

text \<open>A settlement changes collateral only, of active positions, within the rate bound.\<close>

lemma settlement_moves:
  assumes "perp_inv s" "Positions s i = Some p" "settle_funding env s = Ok (r, t)"
  shows "\<exists>p'. Positions t i = Some p' \<and> p' = p\<lparr>collateral := collateral p'\<rparr> \<and> pos_status p' = pos_status p \<and>
    (collateral p' \<noteq> collateral p \<longrightarrow> pos_status p = Active) \<and>
    \<bar>collateral p' - collateral p\<bar> \<le> (pos_size p * MAX_FUNDING_RATE_BPS) div 10000"
proof -
  note pk = perp_invD(2) [OF assms(1,2)]
  obtain f qs acc where f: "FundingEntry s = Some f"
    and qs: "\<forall>i. qs i = (if 1 \<le> i \<and> i \<le> position_count s then map_option (settled (rate_bps f)) (Positions s i) else Positions s i)"
    and t: "t = publish (Ev_settle r) (s\<lparr>Positions := qs, FundingAccumulator := Some acc,
      FundingEntry := Some (f\<lparr>last_settlement := timestamp env\<rparr>)\<rparr>)"
    using settle_Ok [OF assms(3)] by blast
  have q: "qs i = Some (settled (rate_bps f) p)" using qs [rule_format, of i] assms(2) pk by simp
  let ?pay = "(pos_size p * \<bar>rate_bps f\<bar>) sdiv 10000"
  have sz: "0 < pos_size p" "in_i128 (collateral p)" using pk by (simp_all add: position_ok_def)
  have pay: "0 \<le> ?pay" "?pay \<le> (pos_size p * MAX_FUNDING_RATE_BPS) div 10000"
    using sz(1) perp_invD(6) [OF assms(1) f] by (auto simp: sdiv_nonneg pos_imp_zdiv_nonneg_iff intro!: zdiv_mono1 mult_left_mono)
  have "\<bar>saturating_sub (collateral p) ?pay - collateral p\<bar> \<le> ?pay" "\<bar>saturating_add (collateral p) ?pay - collateral p\<bar> \<le> ?pay"
    using sz(2) pay(1) by (auto simp: saturating_sub_def saturating_add_def i128_saturate_def in_i128_def)
  then have "\<bar>collateral (settled (rate_bps f) p) - collateral p\<bar> \<le> (pos_size p * MAX_FUNDING_RATE_BPS) div 10000"
    using pay sz(1) by (auto simp: settled_def Let_def MAX_FUNDING_RATE_BPS_def)
  moreover have "settled (rate_bps f) p = p\<lparr>collateral := collateral (settled (rate_bps f) p)\<rparr>"
    "pos_status (settled (rate_bps f) p) = pos_status p"
    by (simp_all add: settled_def Let_def)
  moreover have "collateral (settled (rate_bps f) p) \<noteq> collateral p \<Longrightarrow> pos_status p = Active"
    by (cases "pos_status p = Active") (simp_all add: settled_def)
  ultimately show ?thesis using q by (intro exI [of _ "settled (rate_bps f) p"]) (auto simp: t)
qed

section \<open>A concrete run\<close>

text \<open>A market of equal reserves; the index falls and a long of trader 5 goes through a settlement.\<close>

definition demo_funding :: FundingRate where
  "demo_funding = \<lparr>fr_mark_price = 10000000, index_price = 10000000, rate_bps = 0, last_update = 1, last_settlement = 1\<rparr>"

definition demo_perps :: perp_state where
  "demo_perps = \<lparr>Admin = Some 1, Initialized = Some True, Paused = Some False, PositionCount = Some 0,
     VammEntry = Some \<lparr>reserve_x = 1000, reserve_y = 1000, vamm_k = 1000000\<rparr>, FundingEntry = Some demo_funding,
     FundingAccumulator = Some 0, FundingSnapshot = Map.empty, Positions = Map.empty, events = [Ev_init 1]\<rparr>"

definition demo_long :: Position where
  "demo_long = \<lparr>pos_id = 1, trader = 5, is_long = True, pos_size = 200, leverage = 5, entry_price = 15625000,
     collateral = 500, pos_status = Active\<rparr>"

definition demo_perps_open :: perp_state where
  "demo_perps_open = demo_perps\<lparr>VammEntry := Some \<lparr>reserve_x = 800, reserve_y = 1250, vamm_k = 1000000\<rparr>,
     FundingEntry := Some (demo_funding\<lparr>fr_mark_price := 15625000\<rparr>), PositionCount := Some 1,
     FundingSnapshot := [1 \<mapsto> 0], Positions := [1 \<mapsto> demo_long], events := [Ev_init 1, Ev_open_pos 1 5 True 200]\<rparr>"

definition demo_perps_index :: perp_state where
  "demo_perps_index = demo_perps_open\<lparr>
     FundingEntry := Some (demo_funding\<lparr>fr_mark_price := 15625000, index_price := 5000000, last_update := 20, rate_bps := 500\<rparr>),
     events := [Ev_init 1, Ev_open_pos 1 5 True 200, Ev_idx_price 5000000]\<rparr>"

lemmas demo_perp_states = demo_perps_def demo_perps_open_def demo_perps_index_def demo_long_def demo_funding_def

lemma demo_perp_initialize: "initialize (demo_env 1) 1 1000 1000 10000000 empty_perps = Ok ((), demo_perps)"
  by (simp add: initialize_def empty_perps_def demo_perp_states vamm_mark_price_from_def require_auth_def demo_env_def
      publish_def in_i128_def i128_max_def i128_min_def i128_mul_def i128_div_def Let_def checked_mul_def)

lemma demo_perp_open: "open_position (demo_env 10) 5 True 200 5 500 demo_perps = Ok (1, demo_perps_open)"
  by (simp add: open_position_def demo_perp_states vamm_mark_price_from_def apply_vamm_trade_def require_auth_def demo_env_def
      publish_def in_i128_def i128_max_def i128_min_def i128_mul_def i128_div_def i128_sub_def Let_def MAX_LEVERAGE_def
      assert_initialized_def assert_not_paused_def accumulator_def u64_add_def u64_max_def)

lemma demo_perp_index: "update_index_price (demo_env 20) 1 5000000 demo_perps_open = Ok ((), demo_perps_index)"
  by (simp add: update_index_price_def demo_perp_states compute_rate_bps_def require_auth_def demo_env_def
      publish_def in_i128_def i128_max_def i128_min_def i128_mul_def i128_div_def i128_sub_def Let_def i64_of_def
      assert_initialized_def assert_admin_def MAX_FUNDING_RATE_BPS_def)

lemma demo_perp_run:
  "perp_step\<^sup>*\<^sup>* empty_perps demo_perps" "perp_step\<^sup>*\<^sup>* demo_perps demo_perps_index" "perp_step\<^sup>*\<^sup>* empty_perps demo_perps_index"
proof -
  have r: "in_i128 1000" "in_i128 10000000" "in_i128 200" "in_i128 500" "in_i128 5000000"
    by (simp_all add: in_i128_def i128_max_def i128_min_def)
  have 1: "perp_step empty_perps demo_perps"
    unfolding perp_step_def by (rule exI, rule perp_call.initialize [OF r(1,1,2) demo_perp_initialize])
  have 2: "perp_step demo_perps demo_perps_open"
    unfolding perp_step_def by (rule exI, rule perp_call.open_pos [OF r(3,4) demo_perp_open])
  have 3: "perp_step demo_perps_open demo_perps_index"
    unfolding perp_step_def by (rule exI, rule perp_call.update_index [OF r(5) demo_perp_index])
  show "perp_step\<^sup>*\<^sup>* empty_perps demo_perps" using 1 by blast
  show "perp_step\<^sup>*\<^sup>* demo_perps demo_perps_index" using 2 3 by (meson rtranclp.rtrancl_refl rtranclp.rtrancl_into_rtrancl)
  then show "perp_step\<^sup>*\<^sup>* empty_perps demo_perps_index" using 1 by (meson converse_rtranclp_into_rtranclp)
qed

text \<open>Closing at once, and closing after a settlement that took ten units.\<close>

lemma demo_perp_close: "\<exists>u. close_position (demo_env 11) 5 1 demo_perps_open = Ok (428, u)"
  by (simp add: close_position_def demo_perp_states vamm_mark_price_from_def apply_vamm_trade_def require_auth_def demo_env_def
      pnl_at_def in_i128_def i128_max_def i128_min_def i128_mul_def i128_div_def i128_sub_def i128_add_def Let_def
      assert_initialized_def assert_not_paused_def accumulator_def i64_sub_def in_i64_def i64_max_def i64_min_def
      checked_add_def)

lemma demo_perp_settle:
  "\<exists>r t u. settle_funding (demo_env 30000) demo_perps_index = Ok (r, t) \<and> close_position (demo_env 30001) 5 1 t = Ok (408, u)"
  by (simp add: settle_funding_def close_position_def demo_perp_states vamm_mark_price_from_def apply_vamm_trade_def
      require_auth_def demo_env_def pnl_at_def in_i128_def i128_max_def i128_min_def i128_mul_def i128_div_def i128_sub_def
      i128_add_def Let_def assert_initialized_def assert_not_paused_def accumulator_def i64_sub_def i64_mul_def in_i64_def
      i64_max_def i64_min_def i64_saturating_add_def checked_add_def u64_add_def u64_max_def FUNDING_PERIOD_SECS_def
      saturating_sub_def saturating_add_def i128_saturate_def publish_def) blast

section \<open>Properties\<close>

text \<open>
  C37. The virtual market has no state of its own besides the exposure of its traders: along every
  public history the product is constant, the base reserve plus the net exposure of all positions
  that were not closed is constant, and the quote reserve is always the product divided by the base
  reserve. So the mark price is a function of the open exposure and does not depend on the order of
  the trades.
\<close>

theorem vamm_determined_by_exposure:
  assumes "perp_step\<^sup>*\<^sup>* empty_perps s" "VammEntry s = Some v" "perp_step\<^sup>*\<^sup>* s t"
  shows "\<exists>v'. VammEntry t = Some v' \<and> vamm_k v' = vamm_k v \<and>
    reserve_x v' + net_exposure t = reserve_x v + net_exposure s \<and>
    0 < reserve_x v' \<and> reserve_y v' = vamm_k v' div reserve_x v'"
proof -
  have inv: "perp_inv s" by (rule perps.reachable_Inv [OF assms(1)])
  have "\<exists>v'. VammEntry t = Some v' \<and> vamm_k v' = vamm_k v \<and> reserve_x v' + net_exposure t = reserve_x v + net_exposure s"
    by (rule perps.run_preserves [OF assms(3) inv])
      (use assms(2) perp_call_depth in \<open>fastforce simp: perp_step_def\<close>)+
  then show ?thesis using perp_invD(3) [OF perps.run_Inv [OF assms(3) inv]] by (fastforce simp: vamm_ok_def)
qed

theorem vamm_determined_by_exposure_witness:
  "\<exists>v'. VammEntry demo_perps_index = Some v' \<and> reserve_x v' + net_exposure demo_perps_index = 1000 + net_exposure demo_perps"
proof -
  have v: "VammEntry demo_perps = Some \<lparr>reserve_x = 1000, reserve_y = 1000, vamm_k = 1000000\<rparr>" by (simp add: demo_perps_def)
  show ?thesis using vamm_determined_by_exposure [OF demo_perp_run(1) v demo_perp_run(2)] by auto
qed

text \<open>
  C38. Opening a position and closing it again in the next call never pays: the trader gets back at
  most the collateral, and the market is exactly as before.
\<close>

theorem perp_round_trip_no_profit:
  assumes "perp_step\<^sup>*\<^sup>* empty_perps s" "open_position env a l sz lev c s = Ok (i, t)"
    "close_position env' a i t = Ok (n, u)"
  shows "n \<le> c \<and> VammEntry u = VammEntry s"
proof -
  have inv: "perp_inv s" by (rule perps.reachable_Inv [OF assms(1)])
  obtain v v1 f price where o: "0 < sz" "VammEntry s = Some v" "apply_vamm_trade v l sz = Ok v1" "vamm_mark_price_from v1 = Ok price"
    and t: "t = publish (Ev_open_pos i a l sz) (s\<lparr>VammEntry := Some v1, FundingEntry := Some (f\<lparr>fr_mark_price := price\<rparr>),
      PositionCount := Some i, FundingSnapshot := (FundingSnapshot s)(i \<mapsto> accumulator s),
      Positions := (Positions s)(i \<mapsto> \<lparr>pos_id = i, trader = a, is_long = l, pos_size = sz, leverage = lev,
        entry_price = price, collateral = c, pos_status = Active\<rparr>)\<rparr>)"
    using open_Ok [OF assms(2)] by blast
  let ?p = "\<lparr>pos_id = i, trader = a, is_long = l, pos_size = sz, leverage = lev, entry_price = price, collateral = c, pos_status = Active\<rparr>"
  have v: "vamm_ok v" by (rule perp_invD(3) [OF inv o(2)])
  note T = trade_Ok [OF o(3) v o(1)]
  have same: "accumulator t = accumulator s" "FundingSnapshot t i = Some (accumulator s)"
    by (simp_all add: t accumulator_def)
  obtain p v2 v3 f' price' pnl where cl: "Positions t i = Some p" "VammEntry t = Some v2"
      "apply_vamm_trade v2 (\<not> is_long p) (pos_size p) = Ok v3" "vamm_mark_price_from v3 = Ok price'" "pnl_at p price' = Ok pnl"
    and n: "n = collateral p + pnl + (if is_long p then -1 else 1) *
      ((pos_size p * (accumulator t - unwrap_or 0 (FundingSnapshot t i))) sdiv 10000000000)"
    and u: "u = publish (Ev_close_pos i a n) (t\<lparr>VammEntry := Some v3, Positions := (Positions t)(i \<mapsto> p\<lparr>pos_status := Closed\<rparr>),
      FundingEntry := Some (f'\<lparr>fr_mark_price := price'\<rparr>)\<rparr>)"
    using close_Ok [OF assms(3)] by blast
  have p: "p = ?p" and v2: "v2 = v1" using cl(1,2) by (simp_all add: t)
  have v3: "v3 = v" using trade_back [OF o(3) _ v o(1)] cl(3) by (simp add: p v2)
  have "if l then price' \<le> price else price \<le> price'"
    using price_antimono [OF v conjunct1 [OF T] _ _ cl(4) [unfolded v3] o(4)]
      price_antimono [OF conjunct1 [OF T] v _ _ o(4) cl(4) [unfolded v3]] T o(1) by simp
  then have "pnl \<le> 0"
    using pnl_nonpos [OF cl(5)] price_Ok(2) [OF o(4) conjunct1 [OF T]] o(1) by (simp add: p)
  moreover have "n = c + pnl" using n same by (simp add: p)
  ultimately show ?thesis using o(2) by (simp add: u v3)
qed

theorem perp_round_trip_no_profit_witness:
  "\<exists>u. close_position (demo_env 11) 5 1 demo_perps_open = Ok (428, u) \<and> (428::int) \<le> 500 \<and> VammEntry u = VammEntry demo_perps"
  using perp_round_trip_no_profit [OF demo_perp_run(1) demo_perp_open] demo_perp_close by blast

text \<open>
  Funding is charged twice: a position opened at the current accumulator value that goes
  through one settlement and is then closed receives its collateral and its profit corrected by
  two funding payments, one taken from the collateral by the settlement and the same again from the
  accumulator at the close.
\<close>

theorem funding_charged_twice:
  assumes "perp_step\<^sup>*\<^sup>* empty_perps s" "get_position i s = Ok p" "pos_status p = Active"
    "FundingSnapshot s i = Some (get_funding_accumulator s)" "get_funding_rate s = Ok f"
    "settle_funding env s = Ok (r, t)" "close_position env' (trader p) i t = Ok (n, u)"
  defines "pay \<equiv> (pos_size p * rate_bps f) sdiv 10000"
  assumes "in_i128 (collateral p - pay)" "in_i128 (collateral p + pay)" "in_i64 (get_funding_accumulator s + rate_bps f * 1000000)"
  shows "\<exists>price pnl. pnl_at p price = Ok pnl \<and>
    n = collateral p + pnl + (if is_long p then - (2 * pay) else 2 * pay)"
proof -
  have inv: "perp_inv s" by (rule perps.reachable_Inv [OF assms(1)])
  have ps: "Positions s i = Some p" and f: "FundingEntry s = Some f"
    using assms(2,5) by (simp_all add: get_position_def get_funding_rate_def)
  note pk = perp_invD(2) [OF inv ps]
  have acc: "get_funding_accumulator s = accumulator s" by (simp add: get_funding_accumulator_def accumulator_def)
  obtain f' qs a' where f': "FundingEntry s = Some f'"
    and qs: "\<forall>i. qs i = (if 1 \<le> i \<and> i \<le> position_count s then map_option (settled (rate_bps f')) (Positions s i) else Positions s i)"
    and a1: "a' = i64_saturating_add (accumulator s) (rate_bps f' * 1000000)"
    and t1: "t = publish (Ev_settle r) (s\<lparr>Positions := qs, FundingAccumulator := Some a',
      FundingEntry := Some (f'\<lparr>last_settlement := timestamp env\<rparr>)\<rparr>)"
    using settle_Ok [OF assms(6)] by blast
  have ff: "f' = f" using f f' by simp
  note a' = a1 [unfolded ff] and t = t1 [unfolded ff]
  have q: "qs i = Some (settled (rate_bps f) p)" using qs [rule_format, of i] ps pk by (simp add: ff)
  have a2: "a' - accumulator s = rate_bps f * 1000000"
    using assms(11) unfolding a' acc by (simp add: i64_saturating_add_def in_i64_def)
  have mag: "(pos_size p * \<bar>rate_bps f\<bar>) sdiv 10000 = (if 0 < rate_bps f then pay else - pay)"
    by (cases "0 < rate_bps f") (auto simp: pay_def signed_divide_int_def abs_mult sgn_mult)
  have sat: "saturating_sub (collateral p) pay = collateral p - pay" "saturating_add (collateral p) pay = collateral p + pay"
      "saturating_sub (collateral p) (- pay) = collateral p + pay" "saturating_add (collateral p) (- pay) = collateral p - pay"
    using assms(9,10) by (auto simp: saturating_sub_def saturating_add_def i128_saturate_def in_i128_def)
  have st: "settled (rate_bps f) p = p\<lparr>collateral := collateral p + (if is_long p then - pay else pay)\<rparr>"
    unfolding settled_def mag Let_def using assms(3) sat by auto
  have twice: "(pos_size p * (rate_bps f * 1000000)) sdiv 10000000000 = pay"
  proof -
    have "(pos_size p * (rate_bps f * 1000000)) sdiv 10000000000 = ((pos_size p * rate_bps f) * 1000000) sdiv (10000 * 1000000)"
      by (simp add: mult.assoc)
    also have "\<dots> = pay"
      unfolding pay_def signed_divide_int_def by (simp add: abs_mult sgn_mult div_mult_mult2 mult.commute)
    finally show ?thesis .
  qed
  obtain q price pnl where cl: "Positions t i = Some q" "pnl_at q price = Ok pnl"
    and n: "n = collateral q + pnl + (if is_long q then -1 else 1) *
      ((pos_size q * (accumulator t - unwrap_or 0 (FundingSnapshot t i))) sdiv 10000000000)"
    using close_Ok [OF assms(7)] by blast
  have q': "q = settled (rate_bps f) p" using cl(1) q by (simp add: t)
  have "accumulator t - unwrap_or 0 (FundingSnapshot t i) = rate_bps f * 1000000"
    using a2 assms(4) by (simp add: t accumulator_def acc)
  then have "n = collateral p + pnl + (if is_long p then - (2 * pay) else 2 * pay)"
    using n twice by (simp add: q' st)
  moreover have "pnl_at p price = Ok pnl" using cl(2) by (simp add: q' st)
  ultimately show ?thesis by blast
qed

theorem funding_charged_twice_witness:
  "\<exists>price pnl. pnl_at demo_long price = Ok pnl \<and> 408 = 500 + pnl - 2 * ((200 * 500) sdiv 10000)"
proof -
  obtain r t u where run: "settle_funding (demo_env 30000) demo_perps_index = Ok (r, t)"
      "close_position (demo_env 30001) (trader demo_long) 1 t = Ok (408, u)"
    using demo_perp_settle by (auto simp: demo_long_def)
  have s: "get_position 1 demo_perps_index = Ok demo_long" "pos_status demo_long = Active"
      "FundingSnapshot demo_perps_index 1 = Some (get_funding_accumulator demo_perps_index)"
      "get_funding_rate demo_perps_index = Ok (demo_funding\<lparr>fr_mark_price := 15625000, index_price := 5000000, last_update := 20, rate_bps := 500\<rparr>)"
    by (simp_all add: get_position_def get_funding_rate_def get_funding_accumulator_def demo_perp_states)
  show ?thesis
    using funding_charged_twice [OF demo_perp_run(3) s run]
    by (simp add: demo_long_def get_funding_accumulator_def demo_perp_states in_i128_def i128_max_def i128_min_def
        in_i64_def i64_max_def i64_min_def)
qed

text \<open>
  A position only moves along its life cycle: its terms never change; it is closed only by its
  trader's signature and liquidated only when collateral and loss leave at most five percent of the
  collateral; both are final. A call that changes the collateral is a successful \<open>settle_funding\<close>; it changes
  active positions only and each by at most five percent of its size.
\<close>

theorem perp_position_lifecycle:
  assumes "perp_step\<^sup>*\<^sup>* empty_perps s" "perp_call env s t" "get_position i s = Ok p"
  shows "\<exists>p'. get_position i t = Ok p' \<and>
    p' = p\<lparr>collateral := collateral p', pos_status := pos_status p'\<rparr> \<and>
    (pos_status p' \<noteq> pos_status p \<longrightarrow> pos_status p = Active \<and> collateral p' = collateral p \<and>
      (pos_status p' = Closed \<and> auth env (trader p) \<or>
       pos_status p' = Liquidated \<and> (\<exists>price pnl. mark_price s = Ok price \<and> pnl_at p price = Ok pnl \<and>
         collateral p + pnl \<le> (collateral p * MAINTENANCE_MARGIN_BPS) sdiv 10000))) \<and>
    (collateral p' \<noteq> collateral p \<longrightarrow> (\<exists>r. settle_funding env s = Ok (r, t)) \<and> pos_status p = Active \<and>
      \<bar>collateral p' - collateral p\<bar> \<le> (pos_size p * MAX_FUNDING_RATE_BPS) div 10000)"
proof -
  have inv: "perp_inv s" by (rule perps.reachable_Inv [OF assms(1)])
  have p: "Positions s i = Some p" using assms(3) by (simp add: get_position_def)
  note pk = perp_invD(2) [OF inv p]
  have same: ?thesis if "Positions t i = Some p" using that by (simp add: get_position_def)
  show ?thesis
    using assms(2)
  proof cases
    case (initialize rx ry idx a u)
    then show ?thesis using perp_initialize_Ok [OF initialize(4)] pk by auto
  next
    case (set_paused a q u)
    then show ?thesis using p by (intro same) (auto simp: set_paused_def)
  next
    case (update_index idx a u)
    then show ?thesis using p by (intro same) (auto simp: update_index_price_def Let_def)
  next
    case (update_rate r)
    then show ?thesis using p update_rate_Ok [OF update_rate] by (intro same) auto
  next
    case (settle r)
    obtain p' where p': "Positions t i = Some p'" "p' = p\<lparr>collateral := collateral p'\<rparr>" "pos_status p' = pos_status p"
      "collateral p' \<noteq> collateral p \<Longrightarrow> pos_status p = Active"
      "\<bar>collateral p' - collateral p\<bar> \<le> (pos_size p * MAX_FUNDING_RATE_BPS) div 10000"
      using settlement_moves [OF inv p settle] by blast
    have "p' = p\<lparr>collateral := collateral p', pos_status := pos_status p'\<rparr>" by (subst p'(2)) (simp add: p'(3))
    then show ?thesis using p' settle by (intro exI [of _ p']) (auto simp: get_position_def)
  next
    case (open_pos sz c a l lev j)
    then have "j = Suc (position_count s)" "\<exists>q. Positions t = (Positions s)(j \<mapsto> q)" using open_Ok [OF open_pos(3)] by auto
    then show ?thesis using p pk by (intro same) auto
  next
    case (close_pos a j n)
    obtain q where q: "Positions s j = Some q" "trader q = a" "auth env a" "pos_status q = Active"
      and t: "Positions t = (Positions s)(j \<mapsto> q\<lparr>pos_status := Closed\<rparr>)"
      using close_Ok [OF close_pos] by fastforce
    show ?thesis
    proof (cases "j = i")
      case True
      then show ?thesis using q p by (simp add: get_position_def t)
    qed (use p t in \<open>intro same, simp\<close>)
  next
    case (liquidate a j u)
    obtain q v price pnl where q: "Positions s j = Some q" "pos_status q = Active" "Initialized s \<noteq> None" "VammEntry s = Some v"
        "vamm_mark_price_from v = Ok price" "pnl_at q price = Ok pnl"
        "collateral q + pnl \<le> (collateral q * MAINTENANCE_MARGIN_BPS) sdiv 10000"
      and t: "Positions t = (Positions s)(j \<mapsto> q\<lparr>pos_status := Liquidated\<rparr>)"
      using liquidate_Ok [OF liquidate] by fastforce
    show ?thesis
    proof (cases "j = i")
      case True
      then show ?thesis using q p by (auto simp: get_position_def t mark_price_def)
    qed (use p t in \<open>intro same, simp\<close>)
  qed
qed

theorem perp_position_lifecycle_witness:
  "\<exists>t p'. perp_call (demo_env 11) demo_perps_open t \<and> get_position 1 t = Ok p' \<and> trader p' = 5"
proof -
  obtain u where c: "close_position (demo_env 11) 5 1 demo_perps_open = Ok (428, u)" using demo_perp_close by blast
  have "perp_step demo_perps demo_perps_open"
    unfolding perp_step_def
    by (rule exI, rule perp_call.open_pos [OF _ _ demo_perp_open]) (simp_all add: in_i128_def i128_max_def i128_min_def)
  then have run: "perp_step\<^sup>*\<^sup>* empty_perps demo_perps_open" using demo_perp_run(1) by (meson rtranclp.rtrancl_into_rtrancl)
  have p: "get_position 1 demo_perps_open = Ok demo_long" by (simp add: get_position_def demo_perps_open_def)
  note k = perp_call.close_pos [OF c]
  obtain p' where p': "get_position 1 u = Ok p'"
      "p' = demo_long\<lparr>collateral := collateral p', pos_status := pos_status p'\<rparr>"
    using perp_position_lifecycle [OF run k p] by blast
  have "trader p' = trader (demo_long\<lparr>collateral := collateral p', pos_status := pos_status p'\<rparr>)"
    by (rule arg_cong [OF p'(2)])
  then show ?thesis using k p'(1) by (auto simp: demo_long_def)
qed

end
