(* ===== verification/Synthetic_Assets.thy ===== *)
theory Synthetic_Assets
  imports Soroban_Prelude
begin

text \<open>
  The synthetic assets of \<open>contracts/synthetic-assets\<close>: fixed-point helpers (\<open>math.rs\<close>), the price
  feed (\<open>oracle.rs\<close>), collateral arithmetic (\<open>collateral.rs\<close>), leveraged trades (\<open>trading.rs\<close>), the
  storage accessors and every entry point of \<open>lib.rs\<close>. The collateral token is another contract: its
  \<open>transfer\<close> is the parameter \<open>tc\<close>.
\<close>

section \<open>Types and storage\<close>

datatype synth_error =
    AlreadyInitialized | NotInitialized | Unauthorized | AssetAlreadyRegistered | AssetNotRegistered
  | InvalidPrice | StalePrice | InvalidAmount | InsufficientBalance | InsufficientCollateral
  | PositionNotFound | PositionUndercollateralized | PositionNotLiquidatable | PositionAlreadyClosed
  | ExcessiveRepayAmount | NoLiquidatablePositions | InvalidCollateralRatio | InvalidLiquidationThreshold
  | InvalidLiquidationBonus | InvalidFeePercentage | InvalidLeverage | InsufficientMargin
  | PositionLiquidated | PriceNotAvailable | LowConfidence | Overflow | DivisionByZero

type_synonym symbol = string

record SyntheticAsset =
  sa_symbol :: symbol
  sa_name :: string
  decimals :: nat
  total_supply :: int

record CollateralPosition =
  cp_user :: address
  cp_symbol :: symbol
  collateral_amount :: int
  minted_amount :: int
  cp_id :: nat
  cp_created_at :: nat
  last_updated :: nat

datatype TradeDirection = Long | Short

record TradingPosition =
  tp_user :: address
  tp_symbol :: symbol
  direction :: TradeDirection
  entry_price :: int
  margin :: int
  leverage :: nat
  notional :: int
  tp_id :: nat
  is_open :: bool
  tp_created_at :: nat

record PriceData =
  price :: int
  price_time :: nat
  confidence :: nat

record AssetConfig =
  ac_min_collateral_ratio :: nat
  ac_liquidation_threshold :: nat
  ac_liquidation_bonus :: nat
  ac_fee_percentage :: nat

record synth_state =
  Admin :: "address option"
  Oracle :: "address option"
  CollateralToken :: "address option"
  Initialized :: "bool option"
  PositionCounter :: "nat option"
  AssetSymbols :: "symbol list option"
  MinCollateralRatio :: "nat option"
  LiquidationThreshold :: "nat option"
  LiquidationBonus :: "nat option"
  FeePercentage :: "nat option"
  Assets :: "symbol \<rightharpoonup> SyntheticAsset"
  CollateralPositions :: "nat \<rightharpoonup> CollateralPosition"
  TradingPositions :: "nat \<rightharpoonup> TradingPosition"
  Prices :: "symbol \<rightharpoonup> PriceData"

definition empty_synth :: synth_state where
  "empty_synth = \<lparr>Admin = None, Oracle = None, CollateralToken = None, Initialized = None, PositionCounter = None,
     AssetSymbols = None, MinCollateralRatio = None, LiquidationThreshold = None, LiquidationBonus = None,
     FeePercentage = None, Assets = Map.empty, CollateralPositions = Map.empty, TradingPositions = Map.empty,
     Prices = Map.empty\<rparr>"

definition get_admin :: "synth_state \<Rightarrow> (synth_error, address) outcome" where
  "get_admin s = ok_or NotInitialized (Admin s)"
definition set_admin :: "address \<Rightarrow> synth_state \<Rightarrow> synth_state" where
  "set_admin a s = s\<lparr>Admin := Some a\<rparr>"
definition is_initialized :: "synth_state \<Rightarrow> bool" where
  "is_initialized s = unwrap_or False (Initialized s)"
definition set_initialized :: "bool \<Rightarrow> synth_state \<Rightarrow> synth_state" where
  "set_initialized b s = s\<lparr>Initialized := Some b\<rparr>"
definition get_oracle_address :: "synth_state \<Rightarrow> (synth_error, address) outcome" where
  "get_oracle_address s = ok_or NotInitialized (Oracle s)"
definition set_oracle_address :: "address \<Rightarrow> synth_state \<Rightarrow> synth_state" where
  "set_oracle_address a s = s\<lparr>Oracle := Some a\<rparr>"
definition get_collateral_token :: "synth_state \<Rightarrow> (synth_error, address) outcome" where
  "get_collateral_token s = ok_or NotInitialized (CollateralToken s)"
definition set_collateral_token :: "address \<Rightarrow> synth_state \<Rightarrow> synth_state" where
  "set_collateral_token a s = s\<lparr>CollateralToken := Some a\<rparr>"
definition get_min_collateral_ratio :: "synth_state \<Rightarrow> (synth_error, nat) outcome" where
  "get_min_collateral_ratio s = ok_or NotInitialized (MinCollateralRatio s)"
definition set_min_collateral_ratio :: "nat \<Rightarrow> synth_state \<Rightarrow> synth_state" where
  "set_min_collateral_ratio x s = s\<lparr>MinCollateralRatio := Some x\<rparr>"
definition get_liquidation_threshold :: "synth_state \<Rightarrow> (synth_error, nat) outcome" where
  "get_liquidation_threshold s = ok_or NotInitialized (LiquidationThreshold s)"
definition set_liquidation_threshold :: "nat \<Rightarrow> synth_state \<Rightarrow> synth_state" where
  "set_liquidation_threshold x s = s\<lparr>LiquidationThreshold := Some x\<rparr>"
definition get_liquidation_bonus :: "synth_state \<Rightarrow> (synth_error, nat) outcome" where
  "get_liquidation_bonus s = ok_or NotInitialized (LiquidationBonus s)"
definition set_liquidation_bonus :: "nat \<Rightarrow> synth_state \<Rightarrow> synth_state" where
  "set_liquidation_bonus x s = s\<lparr>LiquidationBonus := Some x\<rparr>"
definition get_fee_percentage :: "synth_state \<Rightarrow> (synth_error, nat) outcome" where
  "get_fee_percentage s = ok_or NotInitialized (FeePercentage s)"
definition set_fee_percentage :: "nat \<Rightarrow> synth_state \<Rightarrow> synth_state" where
  "set_fee_percentage x s = s\<lparr>FeePercentage := Some x\<rparr>"
definition get_position_counter :: "synth_state \<Rightarrow> nat" where
  "get_position_counter s = unwrap_or 1 (PositionCounter s)"
definition increment_position_counter :: "nat \<Rightarrow> synth_state \<Rightarrow> (synth_error, unit \<times> synth_state) outcome" where
  "increment_position_counter amt s =
     and_then (ok_or Overflow (u64_checked_add (get_position_counter s) amt)) (\<lambda>next.
     Ok ((), s\<lparr>PositionCounter := Some next\<rparr>))"
definition set_position_counter :: "nat \<Rightarrow> synth_state \<Rightarrow> synth_state" where
  "set_position_counter x s = s\<lparr>PositionCounter := Some x\<rparr>"
definition has_synthetic_asset :: "synth_state \<Rightarrow> symbol \<Rightarrow> bool" where
  "has_synthetic_asset s y = (Assets s y \<noteq> None)"
definition get_synthetic_asset :: "synth_state \<Rightarrow> symbol \<Rightarrow> (synth_error, SyntheticAsset) outcome" where
  "get_synthetic_asset s y = ok_or AssetNotRegistered (Assets s y)"
definition set_synthetic_asset :: "symbol \<Rightarrow> SyntheticAsset \<Rightarrow> synth_state \<Rightarrow> synth_state" where
  "set_synthetic_asset y a s = s\<lparr>Assets := (Assets s)(y \<mapsto> a)\<rparr>"
definition get_registered_asset_symbols :: "synth_state \<Rightarrow> symbol list" where
  "get_registered_asset_symbols s = unwrap_or [] (AssetSymbols s)"
definition add_registered_asset_symbol :: "symbol \<Rightarrow> synth_state \<Rightarrow> synth_state" where
  "add_registered_asset_symbol y s = s\<lparr>AssetSymbols := Some (get_registered_asset_symbols s @ [y])\<rparr>"
definition get_collateral_position :: "synth_state \<Rightarrow> nat \<Rightarrow> (synth_error, CollateralPosition) outcome" where
  "get_collateral_position s i = ok_or PositionNotFound (CollateralPositions s i)"
definition set_collateral_position :: "nat \<Rightarrow> CollateralPosition \<Rightarrow> synth_state \<Rightarrow> synth_state" where
  "set_collateral_position i p s = s\<lparr>CollateralPositions := (CollateralPositions s)(i \<mapsto> p)\<rparr>"
definition remove_collateral_position :: "nat \<Rightarrow> synth_state \<Rightarrow> synth_state" where
  "remove_collateral_position i s = s\<lparr>CollateralPositions := (CollateralPositions s)(i := None)\<rparr>"
definition get_trading_position :: "synth_state \<Rightarrow> nat \<Rightarrow> (synth_error, TradingPosition) outcome" where
  "get_trading_position s i = ok_or PositionNotFound (TradingPositions s i)"
definition set_trading_position :: "nat \<Rightarrow> TradingPosition \<Rightarrow> synth_state \<Rightarrow> synth_state" where
  "set_trading_position i p s = s\<lparr>TradingPositions := (TradingPositions s)(i \<mapsto> p)\<rparr>"
definition remove_trading_position :: "nat \<Rightarrow> synth_state \<Rightarrow> synth_state" where
  "remove_trading_position i s = s\<lparr>TradingPositions := (TradingPositions s)(i := None)\<rparr>"
definition get_price :: "synth_state \<Rightarrow> symbol \<Rightarrow> (synth_error, PriceData) outcome" where
  "get_price s y = ok_or PriceNotAvailable (Prices s y)"
definition set_price :: "symbol \<Rightarrow> PriceData \<Rightarrow> synth_state \<Rightarrow> synth_state" where
  "set_price y d s = s\<lparr>Prices := (Prices s)(y \<mapsto> d)\<rparr>"

lemmas synth_getters =
  get_admin_def is_initialized_def get_oracle_address_def get_collateral_token_def get_min_collateral_ratio_def
  get_liquidation_threshold_def get_liquidation_bonus_def get_fee_percentage_def has_synthetic_asset_def
  get_synthetic_asset_def get_collateral_position_def get_trading_position_def get_price_def
lemmas synth_setters =
  set_admin_def set_initialized_def set_oracle_address_def set_collateral_token_def set_min_collateral_ratio_def
  set_liquidation_threshold_def set_liquidation_bonus_def set_fee_percentage_def set_position_counter_def
  set_synthetic_asset_def add_registered_asset_symbol_def set_collateral_position_def
  remove_collateral_position_def set_trading_position_def remove_trading_position_def set_price_def

section \<open>Fixed-point numbers\<close>

definition SCALE :: int where "SCALE = 100000000"

datatype FixedPoint = FixedPoint int

definition from_raw :: "int \<Rightarrow> FixedPoint" where "from_raw raw = FixedPoint raw"
primrec to_i128 :: "FixedPoint \<Rightarrow> int" where "to_i128 (FixedPoint x) = x"
definition from_int :: "int \<Rightarrow> (synth_error, FixedPoint) outcome" where
  "from_int x = and_then (ok_or Overflow (checked_mul x SCALE)) (\<lambda>v. Ok (FixedPoint v))"
definition to_int :: "FixedPoint \<Rightarrow> (synth_error, int) outcome" where
  "to_int f = ok_or Overflow (checked_div (to_i128 f) SCALE)"
definition fp_checked_add :: "FixedPoint \<Rightarrow> FixedPoint \<Rightarrow> (synth_error, FixedPoint) outcome" where
  "fp_checked_add f g = and_then (ok_or Overflow (checked_add (to_i128 f) (to_i128 g))) (\<lambda>v. Ok (FixedPoint v))"
definition fp_checked_sub :: "FixedPoint \<Rightarrow> FixedPoint \<Rightarrow> (synth_error, FixedPoint) outcome" where
  "fp_checked_sub f g = and_then (ok_or Overflow (checked_sub (to_i128 f) (to_i128 g))) (\<lambda>v. Ok (FixedPoint v))"
definition fp_checked_mul :: "FixedPoint \<Rightarrow> FixedPoint \<Rightarrow> (synth_error, FixedPoint) outcome" where
  "fp_checked_mul f g =
     and_then (ok_or Overflow (checked_mul (to_i128 f) (to_i128 g))) (\<lambda>mul.
     and_then (ok_or Overflow (checked_div mul SCALE)) (\<lambda>v. Ok (FixedPoint v)))"
definition fp_checked_div :: "FixedPoint \<Rightarrow> FixedPoint \<Rightarrow> (synth_error, FixedPoint) outcome" where
  "fp_checked_div f g =
     (if to_i128 g = 0 then Err DivisionByZero
      else
        and_then (ok_or Overflow (checked_mul (to_i128 f) SCALE)) (\<lambda>numerator.
        and_then (ok_or Overflow (checked_div numerator (to_i128 g))) (\<lambda>v. Ok (FixedPoint v))))"
definition from_bps :: "nat \<Rightarrow> (synth_error, FixedPoint) outcome" where
  "from_bps bps = and_then (ok_or Overflow (checked_mul (int bps) (SCALE sdiv 10000))) (\<lambda>v. Ok (FixedPoint v))"
definition to_bps :: "FixedPoint \<Rightarrow> (synth_error, nat) outcome" where
  "to_bps f =
     and_then (ok_or Overflow (checked_div (to_i128 f) (SCALE sdiv 10000))) (\<lambda>bps.
     if bps < 0 \<or> bps > int u32_max then Err Overflow else Ok (nat bps))"

section \<open>Price feed\<close>

definition PRICE_SCALE :: int where "PRICE_SCALE = 100000000"
definition MAX_PRICE_AGE :: nat where "MAX_PRICE_AGE = 300"
definition MIN_CONFIDENCE :: nat where "MIN_CONFIDENCE = 50"
definition MAX_SINGLE_UPDATE_DEVIATION :: nat where "MAX_SINGLE_UPDATE_DEVIATION = 2000"
definition MIN_PRICE :: int where "MIN_PRICE = 1"
definition MAX_PRICE :: int where "MAX_PRICE = i128_max sdiv 10000"

definition validate_price :: "int \<Rightarrow> nat \<Rightarrow> (synth_error, unit) outcome" where
  "validate_price x conf =
     (if x < MIN_PRICE then Err InvalidPrice
      else if x > MAX_PRICE then Err InvalidPrice
      else if conf > 100 then Err InvalidPrice
      else if conf < MIN_CONFIDENCE then Err LowConfidence
      else Ok ())"

definition calculate_price_deviation :: "int \<Rightarrow> int \<Rightarrow> (synth_error, nat) outcome" where
  "calculate_price_deviation old new =
     (if old \<le> 0 \<or> new \<le> 0 then Err InvalidPrice
      else
        and_then (if new \<ge> old then ok_or Overflow (checked_sub new old) else ok_or Overflow (checked_sub old new)) (\<lambda>diff.
        and_then (ok_or Overflow (checked_mul diff 10000)) (\<lambda>m.
        and_then (ok_or Overflow (checked_div m old)) (\<lambda>scaled.
        if scaled > int u32_max then Err Overflow else Ok (nat scaled)))))"

definition update_price_internal ::
    "env \<Rightarrow> symbol \<Rightarrow> int \<Rightarrow> nat \<Rightarrow> synth_state \<Rightarrow> (synth_error, unit \<times> synth_state) outcome" where
  "update_price_internal env y new_price conf s =
     and_then (validate_price new_price conf) (\<lambda>_.
     let store = Ok ((), set_price y \<lparr>price = new_price, price_time = timestamp env, confidence = conf\<rparr> s) in
     case get_price s y of
       Ok old \<Rightarrow>
         and_then (calculate_price_deviation (price old) new_price) (\<lambda>deviation.
         if deviation > MAX_SINGLE_UPDATE_DEVIATION then Err InvalidPrice else store)
     | _ \<Rightarrow> store)"

definition get_price_internal :: "env \<Rightarrow> symbol \<Rightarrow> synth_state \<Rightarrow> (synth_error, int) outcome" where
  "get_price_internal env y s =
     and_then (get_price s y) (\<lambda>d.
     case u64_checked_add (price_time d) MAX_PRICE_AGE of
       None \<Rightarrow> Err Overflow
     | Some expiry \<Rightarrow>
         if timestamp env > expiry then Err StalePrice
         else if confidence d < MIN_CONFIDENCE then Err LowConfidence
         else if price d \<le> 0 then Err InvalidPrice
         else if price d < MIN_PRICE \<or> price d > MAX_PRICE then Err InvalidPrice
         else Ok (price d))"

definition is_price_valid_deviation :: "int \<Rightarrow> int \<Rightarrow> nat \<Rightarrow> (synth_error, bool) outcome" where
  "is_price_valid_deviation old new max_deviation =
     and_then (calculate_price_deviation old new) (\<lambda>d. Ok (d \<le> max_deviation))"
definition is_price_within_bounds :: "int \<Rightarrow> bool" where
  "is_price_within_bounds x = (x \<ge> MIN_PRICE \<and> x \<le> MAX_PRICE)"
definition get_max_single_update_deviation :: nat where
  "get_max_single_update_deviation = MAX_SINGLE_UPDATE_DEVIATION"

section \<open>Collateral\<close>

definition MAX_COLLATERAL_RATIO :: int where "MAX_COLLATERAL_RATIO = 9223372036854775807"

definition calculate_collateral_ratio :: "int \<Rightarrow> int \<Rightarrow> int \<Rightarrow> (synth_error, int) outcome" where
  "calculate_collateral_ratio coll minted x =
     (if minted = 0 \<or> x = 0 then Err InvalidAmount
      else
        and_then (ok_or Overflow (checked_mul minted x)) (\<lambda>v.
        and_then (ok_or Overflow (checked_div v PRICE_SCALE)) (\<lambda>debt_value.
        if debt_value = 0 then Ok MAX_COLLATERAL_RATIO
        else
          and_then (ok_or Overflow (checked_mul coll 10000)) (\<lambda>c.
          and_then (ok_or DivisionByZero (checked_div c debt_value)) (\<lambda>ratio.
          Ok (min ratio MAX_COLLATERAL_RATIO))))))"

definition is_above_liquidation_threshold :: "CollateralPosition \<Rightarrow> int \<Rightarrow> synth_state \<Rightarrow> (synth_error, bool) outcome" where
  "is_above_liquidation_threshold p x s =
     and_then (get_liquidation_threshold s) (\<lambda>threshold.
     and_then (calculate_collateral_ratio (collateral_amount p) (minted_amount p) x) (\<lambda>ratio.
     Ok (ratio \<le> int threshold)))"

definition calculate_max_mint_amount :: "int \<Rightarrow> int \<Rightarrow> synth_state \<Rightarrow> (synth_error, int) outcome" where
  "calculate_max_mint_amount coll x s =
     (if x = 0 then Err InvalidPrice
      else
        and_then (get_min_collateral_ratio s) (\<lambda>min_ratio.
        and_then (ok_or Overflow (checked_mul coll PRICE_SCALE)) (\<lambda>a.
        and_then (ok_or Overflow (checked_mul a 10000)) (\<lambda>b.
        and_then (ok_or Overflow (checked_mul x (int min_ratio))) (\<lambda>d.
        ok_or DivisionByZero (checked_div b d))))))"

definition calculate_liquidation_reward :: "int \<Rightarrow> int \<Rightarrow> int \<Rightarrow> int \<Rightarrow> nat \<Rightarrow> (synth_error, int) outcome" where
  "calculate_liquidation_reward repay x total_collateral total_minted bonus_bps =
     (if repay \<le> 0 \<or> x \<le> 0 then Err InvalidAmount
      else if total_minted = 0 then Err InvalidAmount
      else
        and_then (ok_or Overflow (checked_mul repay total_collateral)) (\<lambda>a.
        and_then (ok_or DivisionByZero (checked_div a total_minted)) (\<lambda>collateral_share.
        and_then (ok_or Overflow (checked_mul collateral_share (int bonus_bps))) (\<lambda>b.
        and_then (ok_or DivisionByZero (checked_div b 10000)) (\<lambda>bonus.
        and_then (ok_or Overflow (checked_add collateral_share bonus)) (\<lambda>reward.
        Ok (if reward > total_collateral then total_collateral else reward)))))))"

definition calculate_required_collateral :: "int \<Rightarrow> int \<Rightarrow> nat \<Rightarrow> (synth_error, int) outcome" where
  "calculate_required_collateral mint x min_ratio_bps =
     (if mint \<le> 0 \<or> x \<le> 0 then Err InvalidAmount
      else
        and_then (ok_or Overflow (checked_mul mint x)) (\<lambda>a.
        and_then (ok_or Overflow (checked_mul a (int min_ratio_bps))) (\<lambda>numerator.
        and_then (ok_or Overflow (checked_mul PRICE_SCALE 10000)) (\<lambda>denominator.
        and_then (ok_or Overflow (checked_add numerator denominator)) (\<lambda>b.
        and_then (ok_or Overflow (checked_sub b 1)) (\<lambda>c.
        ok_or DivisionByZero (checked_div c denominator)))))))"

definition is_adding_collateral_safe :: "int \<Rightarrow> int \<Rightarrow> int \<Rightarrow> int \<Rightarrow> nat \<Rightarrow> (synth_error, bool) outcome" where
  "is_adding_collateral_safe current additional minted x min_ratio_bps =
     and_then (ok_or Overflow (checked_add current additional)) (\<lambda>new_collateral.
     and_then (calculate_collateral_ratio new_collateral minted x) (\<lambda>new_ratio.
     Ok (new_ratio \<ge> int min_ratio_bps)))"

definition calculate_health_factor :: "int \<Rightarrow> int \<Rightarrow> int \<Rightarrow> nat \<Rightarrow> (synth_error, int) outcome" where
  "calculate_health_factor coll minted x threshold_bps =
     and_then (calculate_collateral_ratio coll minted x) (\<lambda>ratio.
     and_then (ok_or Overflow (checked_mul ratio 10000)) (\<lambda>a.
     ok_or DivisionByZero (checked_div a (int threshold_bps))))"

section \<open>Leveraged trades\<close>

definition MIN_TRADE_MARGIN :: int where "MIN_TRADE_MARGIN = 250000"

definition calculate_pnl :: "TradingPosition \<Rightarrow> int \<Rightarrow> (synth_error, int) outcome" where
  "calculate_pnl p current_price =
     (if entry_price p \<le> 0 \<or> current_price \<le> 0 then Err InvalidPrice
      else
        and_then (case direction p of
            Long \<Rightarrow> ok_or Overflow (checked_sub current_price (entry_price p))
          | Short \<Rightarrow> ok_or Overflow (checked_sub (entry_price p) current_price)) (\<lambda>price_diff.
        and_then (ok_or Overflow (checked_mul price_diff (notional p))) (\<lambda>a.
        ok_or DivisionByZero (checked_div a (entry_price p)))))"

definition calculate_margin_requirement :: "int \<Rightarrow> (synth_error, int) outcome" where
  "calculate_margin_requirement ntl =
     (if ntl \<le> 0 then Err InvalidAmount
      else
        and_then (ok_or Overflow (checked_mul ntl 1000)) (\<lambda>a.
        and_then (ok_or DivisionByZero (checked_div a 10000)) (\<lambda>m. Ok (max m MIN_TRADE_MARGIN))))"

definition calculate_liquidation_price :: "TradingPosition \<Rightarrow> (synth_error, int) outcome" where
  "calculate_liquidation_price p =
     (if notional p = 0 then Err InvalidAmount
      else
        and_then (ok_or Overflow (checked_mul (margin p) 10000)) (\<lambda>a.
        and_then (ok_or DivisionByZero (checked_div a (notional p))) (\<lambda>margin_ratio.
        and_then (ok_or Overflow (checked_mul (entry_price p) margin_ratio)) (\<lambda>b.
        and_then (ok_or DivisionByZero (checked_div b 10000)) (\<lambda>margin_impact.
        ok_or Overflow (case direction p of
            Long \<Rightarrow> checked_sub (entry_price p) margin_impact
          | Short \<Rightarrow> checked_add (entry_price p) margin_impact))))))"

definition is_trade_safe :: "TradingPosition \<Rightarrow> int \<Rightarrow> (synth_error, bool) outcome" where
  "is_trade_safe p current_price =
     and_then (calculate_liquidation_price p) (\<lambda>liquidation_price.
     Ok (case direction p of Long \<Rightarrow> current_price > liquidation_price | Short \<Rightarrow> current_price < liquidation_price))"

definition calculate_pnl_percentage :: "TradingPosition \<Rightarrow> int \<Rightarrow> (synth_error, int) outcome" where
  "calculate_pnl_percentage p current_price =
     and_then (calculate_pnl p current_price) (\<lambda>pnl.
     if margin p = 0 then Err InvalidAmount
     else
       and_then (ok_or Overflow (checked_mul pnl 10000)) (\<lambda>a.
       ok_or DivisionByZero (checked_div a (margin p))))"

definition calculate_trading_fee :: "int \<Rightarrow> synth_state \<Rightarrow> (synth_error, int) outcome" where
  "calculate_trading_fee ntl s =
     and_then (get_fee_percentage s) (\<lambda>fee.
     and_then (ok_or Overflow (checked_mul ntl (int fee))) (\<lambda>a.
     ok_or DivisionByZero (checked_div a 10000)))"

definition calculate_effective_notional :: "int \<Rightarrow> nat \<Rightarrow> synth_state \<Rightarrow> (synth_error, int) outcome" where
  "calculate_effective_notional mgn lev s =
     and_then (ok_or Overflow (checked_mul mgn (int lev))) (\<lambda>a.
     and_then (ok_or DivisionByZero (checked_div a 10000)) (\<lambda>gross.
     and_then (calculate_trading_fee gross s) (\<lambda>fee.
     ok_or Overflow (checked_sub gross fee))))"

definition calculate_safe_leverage :: "nat \<Rightarrow> nat" where
  "calculate_safe_leverage volatility =
     (let vol_component = unwrap_or u32_max (u32_checked_add (volatility div 100) 10000) in
      if vol_component = 0 then 10000
      else max (min (10000000 div vol_component) 100000) 10000)"

definition should_liquidate_trading_position :: "TradingPosition \<Rightarrow> int \<Rightarrow> (synth_error, bool) outcome" where
  "should_liquidate_trading_position p current_price =
     and_then (calculate_pnl p current_price) (\<lambda>pnl.
     and_then (ok_or Overflow (checked_add (margin p) pnl)) (\<lambda>combined. Ok (combined \<le> 0)))"

section \<open>Administration\<close>

definition initialize ::
    "env \<Rightarrow> address \<Rightarrow> address \<Rightarrow> address \<Rightarrow> nat \<Rightarrow> nat \<Rightarrow> nat \<Rightarrow> nat \<Rightarrow> synth_state \<Rightarrow>
     (synth_error, unit \<times> synth_state) outcome" where
  "initialize env admin orc collateral_token min_ratio threshold bonus fee s =
     (if is_initialized s then Err AlreadyInitialized
      else
        and_then (require_auth env admin) (\<lambda>_.
        if min_ratio < 10000 \<or> min_ratio > 50000 then Err InvalidCollateralRatio
        else if threshold \<ge> min_ratio \<or> threshold < 10000 then Err InvalidLiquidationThreshold
        else if bonus > 2000 then Err InvalidLiquidationBonus
        else if fee > 1000 then Err InvalidFeePercentage
        else
          let s1 = set_admin admin s;
              s2 = set_oracle_address orc s1;
              s3 = set_collateral_token collateral_token s2;
              s4 = set_min_collateral_ratio min_ratio s3;
              s5 = set_liquidation_threshold threshold s4;
              s6 = set_liquidation_bonus bonus s5;
              s7 = set_fee_percentage fee s6;
              s8 = set_initialized True s7
          in Ok ((), set_position_counter 1 s8)))"

definition register_synthetic_asset ::
    "env \<Rightarrow> symbol \<Rightarrow> string \<Rightarrow> nat \<Rightarrow> int \<Rightarrow> synth_state \<Rightarrow> (synth_error, unit \<times> synth_state) outcome" where
  "register_synthetic_asset env y nm dec initial_price s =
     and_then (get_admin s) (\<lambda>admin.
     and_then (require_auth env admin) (\<lambda>_.
     if has_synthetic_asset s y then Err AssetAlreadyRegistered
     else if initial_price \<le> 0 then Err InvalidPrice
     else
       let asset = \<lparr>sa_symbol = y, sa_name = nm, decimals = dec, total_supply = 0\<rparr>;
           s1 = set_synthetic_asset y asset s;
           s2 = add_registered_asset_symbol y s1
       in Ok ((), set_price y \<lparr>price = initial_price, price_time = timestamp env, confidence = 100\<rparr> s2)))"

definition update_oracle :: "env \<Rightarrow> address \<Rightarrow> synth_state \<Rightarrow> (synth_error, unit \<times> synth_state) outcome" where
  "update_oracle env new_oracle s =
     and_then (get_admin s) (\<lambda>admin.
     and_then (require_auth env admin) (\<lambda>_. Ok ((), set_oracle_address new_oracle s)))"

definition update_collateral_token :: "env \<Rightarrow> address \<Rightarrow> synth_state \<Rightarrow> (synth_error, unit \<times> synth_state) outcome" where
  "update_collateral_token env new_token s =
     and_then (get_admin s) (\<lambda>admin.
     and_then (require_auth env admin) (\<lambda>_. Ok ((), set_collateral_token new_token s)))"

definition update_protocol_params ::
    "env \<Rightarrow> nat \<Rightarrow> nat \<Rightarrow> nat \<Rightarrow> nat \<Rightarrow> synth_state \<Rightarrow> (synth_error, unit \<times> synth_state) outcome" where
  "update_protocol_params env min_ratio threshold bonus fee s =
     and_then (get_admin s) (\<lambda>admin.
     and_then (require_auth env admin) (\<lambda>_.
     if min_ratio < 10000 \<or> min_ratio > 50000 then Err InvalidCollateralRatio
     else if threshold \<ge> min_ratio \<or> threshold < 10000 then Err InvalidLiquidationThreshold
     else if bonus > 2000 then Err InvalidLiquidationBonus
     else if fee > 1000 then Err InvalidFeePercentage
     else
       let s1 = set_min_collateral_ratio min_ratio s;
           s2 = set_liquidation_threshold threshold s1;
           s3 = set_liquidation_bonus bonus s2
       in Ok ((), set_fee_percentage fee s3)))"

definition update_price ::
    "env \<Rightarrow> symbol \<Rightarrow> int \<Rightarrow> nat \<Rightarrow> synth_state \<Rightarrow> (synth_error, unit \<times> synth_state) outcome" where
  "update_price env y new_price conf s =
     and_then (get_admin s) (\<lambda>admin.
     and_then (get_oracle_address s) (\<lambda>orc.
     and_then (if admin = orc then require_auth env admin else require_auth env orc) (\<lambda>_.
     if \<not> has_synthetic_asset s y then Err AssetNotRegistered
     else update_price_internal env y new_price conf s)))"

section \<open>Collateral and minting\<close>

definition mint_synthetic ::
    "'w token_transfer \<Rightarrow> env \<Rightarrow> address \<Rightarrow> symbol \<Rightarrow> int \<Rightarrow> int \<Rightarrow> 'w \<times> synth_state \<Rightarrow>
     (synth_error, unit \<times> 'w \<times> synth_state) outcome" where
  "mint_synthetic tc env user y coll mint ws =
     (case ws of (w, s) \<Rightarrow>
     and_then (require_auth env user) (\<lambda>_.
     if \<not> has_synthetic_asset s y then Err AssetNotRegistered
     else if coll \<le> 0 \<or> mint \<le> 0 then Err InvalidAmount
     else
       and_then (get_price_internal env y s) (\<lambda>x.
       and_then (get_min_collateral_ratio s) (\<lambda>min_ratio.
       and_then (calculate_required_collateral mint x min_ratio) (\<lambda>required.
       if coll < required then Err InsufficientCollateral
       else
         and_then (get_collateral_token s) (\<lambda>tok.
         and_then (or_trap (tc tok (subcall_env env tok) user (current_contract env) coll w)) (\<lambda>w1.
         let i = get_position_counter s;
             position = \<lparr>cp_user = user, cp_symbol = y, collateral_amount = coll, minted_amount = mint, cp_id = i,
               cp_created_at = timestamp env, last_updated = timestamp env\<rparr> in
         and_then (increment_position_counter 1 s) (\<lambda>(_, s1).
         let s2 = set_collateral_position i position s1 in
         and_then (get_synthetic_asset s2 y) (\<lambda>asset.
         and_then (ok_or Overflow (checked_add (total_supply asset) mint)) (\<lambda>supply.
         Ok ((), w1, set_synthetic_asset y (asset\<lparr>total_supply := supply\<rparr>) s2)))))))))))"

definition add_collateral ::
    "'w token_transfer \<Rightarrow> env \<Rightarrow> address \<Rightarrow> nat \<Rightarrow> int \<Rightarrow> 'w \<times> synth_state \<Rightarrow>
     (synth_error, unit \<times> 'w \<times> synth_state) outcome" where
  "add_collateral tc env user i additional ws =
     (case ws of (w, s) \<Rightarrow>
     and_then (require_auth env user) (\<lambda>_.
     if additional \<le> 0 then Err InvalidAmount
     else
       and_then (get_collateral_position s i) (\<lambda>position.
       if cp_user position \<noteq> user then Err Unauthorized
       else
         and_then (get_collateral_token s) (\<lambda>tok.
         and_then (or_trap (tc tok (subcall_env env tok) user (current_contract env) additional w)) (\<lambda>w1.
         and_then (ok_or Overflow (checked_add (collateral_amount position) additional)) (\<lambda>c.
         Ok ((), w1, set_collateral_position i
              (position\<lparr>collateral_amount := c, last_updated := timestamp env\<rparr>) s)))))))"

definition burn_synthetic ::
    "'w token_transfer \<Rightarrow> env \<Rightarrow> address \<Rightarrow> nat \<Rightarrow> int \<Rightarrow> 'w \<times> synth_state \<Rightarrow>
     (synth_error, unit \<times> 'w \<times> synth_state) outcome" where
  "burn_synthetic tc env user i burn ws =
     (case ws of (w, s) \<Rightarrow>
     and_then (require_auth env user) (\<lambda>_.
     if burn \<le> 0 then Err InvalidAmount
     else
       and_then (get_collateral_position s i) (\<lambda>position.
       if cp_user position \<noteq> user then Err Unauthorized
       else if burn > minted_amount position then Err InsufficientBalance
       else
         and_then (ok_or Overflow (checked_mul burn (collateral_amount position))) (\<lambda>a.
         and_then (ok_or DivisionByZero (checked_div a (minted_amount position))) (\<lambda>to_return.
         and_then (ok_or Overflow (checked_sub (minted_amount position) burn)) (\<lambda>m.
         and_then (ok_or Overflow (checked_sub (collateral_amount position) to_return)) (\<lambda>c.
         let position' = position\<lparr>minted_amount := m, collateral_amount := c, last_updated := timestamp env\<rparr> in
         and_then (if m = 0 then Ok (remove_collateral_position i s)
                   else
                     and_then (get_price_internal env (cp_symbol position') s) (\<lambda>x.
                     and_then (calculate_collateral_ratio c m x) (\<lambda>ratio.
                     and_then (get_min_collateral_ratio s) (\<lambda>min_ratio.
                     if ratio < int min_ratio then Err PositionUndercollateralized
                     else Ok (set_collateral_position i position' s))))) (\<lambda>s1.
         and_then (get_synthetic_asset s1 (cp_symbol position')) (\<lambda>asset.
         and_then (ok_or Overflow (checked_sub (total_supply asset) burn)) (\<lambda>supply.
         let s2 = set_synthetic_asset (cp_symbol position') (asset\<lparr>total_supply := supply\<rparr>) s1 in
         and_then (get_collateral_token s2) (\<lambda>tok.
         and_then (or_trap (tc tok (subcall_env env tok) (current_contract env) user to_return w)) (\<lambda>w1.
         Ok ((), w1, s2)))))))))))))"

definition liquidate ::
    "'w token_transfer \<Rightarrow> env \<Rightarrow> address \<Rightarrow> nat \<Rightarrow> int \<Rightarrow> 'w \<times> synth_state \<Rightarrow>
     (synth_error, unit \<times> 'w \<times> synth_state) outcome" where
  "liquidate tc env liquidator i repay ws =
     (case ws of (w, s) \<Rightarrow>
     and_then (require_auth env liquidator) (\<lambda>_.
     if repay \<le> 0 then Err InvalidAmount
     else
       and_then (get_collateral_position s i) (\<lambda>position.
       and_then (get_price_internal env (cp_symbol position) s) (\<lambda>x.
       and_then (is_above_liquidation_threshold position x s) (\<lambda>liquidatable.
       if \<not> liquidatable then Err PositionNotLiquidatable
       else if repay > minted_amount position then Err ExcessiveRepayAmount
       else
         and_then (get_liquidation_bonus s) (\<lambda>bonus.
         and_then (calculate_liquidation_reward repay x (collateral_amount position) (minted_amount position) bonus) (\<lambda>reward.
         and_then (get_collateral_token s) (\<lambda>tok.
         and_then (or_trap (tc tok (subcall_env env tok) (current_contract env) liquidator reward w)) (\<lambda>w1.
         and_then (ok_or Overflow (checked_sub (minted_amount position) repay)) (\<lambda>m.
         and_then (ok_or Overflow (checked_sub (collateral_amount position) reward)) (\<lambda>c.
         let position' = position\<lparr>minted_amount := m, collateral_amount := c, last_updated := timestamp env\<rparr>;
             s1 = (if m = 0 then remove_collateral_position i s else set_collateral_position i position' s) in
         and_then (get_synthetic_asset s1 (cp_symbol position)) (\<lambda>asset.
         and_then (ok_or Overflow (checked_sub (total_supply asset) repay)) (\<lambda>supply.
         Ok ((), w1, set_synthetic_asset (cp_symbol position) (asset\<lparr>total_supply := supply\<rparr>) s1))))))))))))))"

section \<open>Trading\<close>

definition open_trade ::
    "'w token_transfer \<Rightarrow> env \<Rightarrow> address \<Rightarrow> symbol \<Rightarrow> TradeDirection \<Rightarrow> int \<Rightarrow> nat \<Rightarrow> 'w \<times> synth_state \<Rightarrow>
     (synth_error, nat \<times> 'w \<times> synth_state) outcome" where
  "open_trade tc env user y dir mgn lev ws =
     (case ws of (w, s) \<Rightarrow>
     and_then (require_auth env user) (\<lambda>_.
     if \<not> has_synthetic_asset s y then Err AssetNotRegistered
     else if mgn \<le> 0 then Err InvalidAmount
     else if lev < 10000 \<or> lev > 100000 then Err InvalidLeverage
     else
       and_then (get_price_internal env y s) (\<lambda>x.
       and_then (ok_or Overflow (checked_mul mgn (int lev))) (\<lambda>a.
       and_then (ok_or DivisionByZero (checked_div a 10000)) (\<lambda>ntl.
       and_then (calculate_margin_requirement ntl) (\<lambda>requirement.
       if mgn < requirement then Err InsufficientMargin
       else
         and_then (get_collateral_token s) (\<lambda>tok.
         and_then (or_trap (tc tok (subcall_env env tok) user (current_contract env) mgn w)) (\<lambda>w1.
         let i = get_position_counter s;
             position = \<lparr>tp_user = user, tp_symbol = y, direction = dir, entry_price = x, margin = mgn, leverage = lev,
               notional = ntl, tp_id = i, is_open = True, tp_created_at = timestamp env\<rparr> in
         and_then (increment_position_counter 1 s) (\<lambda>(_, s1).
         Ok (i, w1, set_trading_position i position s1))))))))))"

definition close_trade ::
    "'w token_transfer \<Rightarrow> env \<Rightarrow> address \<Rightarrow> nat \<Rightarrow> 'w \<times> synth_state \<Rightarrow>
     (synth_error, int \<times> 'w \<times> synth_state) outcome" where
  "close_trade tc env user i ws =
     (case ws of (w, s) \<Rightarrow>
     and_then (require_auth env user) (\<lambda>_.
     and_then (get_trading_position s i) (\<lambda>position.
     if tp_user position \<noteq> user then Err Unauthorized
     else if \<not> is_open position then Err PositionAlreadyClosed
     else
       and_then (get_price_internal env (tp_symbol position) s) (\<lambda>x.
       and_then (should_liquidate_trading_position position x) (\<lambda>wiped_out.
       if wiped_out then Ok (0, w, remove_trading_position i s)
       else
         and_then (calculate_pnl position x) (\<lambda>pnl.
         and_then (ok_or Overflow (checked_add (margin position) pnl)) (\<lambda>final_amount.
         if final_amount < 0 then Ok (0, w, remove_trading_position i s)
         else
           and_then (get_collateral_token s) (\<lambda>tok.
           and_then (or_trap (tc tok (subcall_env env tok) (current_contract env) user final_amount w)) (\<lambda>w1.
           Ok (final_amount, w1, set_trading_position i (position\<lparr>is_open := False\<rparr>) s))))))))))"

section \<open>Read-only entry points\<close>

definition pub_is_initialized :: "synth_state \<Rightarrow> bool" where
  "pub_is_initialized s = is_initialized s"
definition pub_get_admin :: "synth_state \<Rightarrow> (synth_error, address) outcome" where
  "pub_get_admin s = get_admin s"
definition get_oracle :: "synth_state \<Rightarrow> (synth_error, address) outcome" where
  "get_oracle s = get_oracle_address s"
definition get_collateral_token_address :: "synth_state \<Rightarrow> (synth_error, address) outcome" where
  "get_collateral_token_address s = get_collateral_token s"
definition get_asset :: "symbol \<Rightarrow> synth_state \<Rightarrow> (synth_error, SyntheticAsset) outcome" where
  "get_asset y s = get_synthetic_asset s y"
definition is_asset_registered :: "symbol \<Rightarrow> synth_state \<Rightarrow> bool" where
  "is_asset_registered y s = has_synthetic_asset s y"
definition get_asset_price :: "symbol \<Rightarrow> synth_state \<Rightarrow> (synth_error, PriceData) outcome" where
  "get_asset_price y s = get_price s y"
definition get_validated_asset_price :: "env \<Rightarrow> symbol \<Rightarrow> synth_state \<Rightarrow> (synth_error, int) outcome" where
  "get_validated_asset_price env y s = get_price_internal env y s"
definition get_position :: "nat \<Rightarrow> synth_state \<Rightarrow> (synth_error, CollateralPosition) outcome" where
  "get_position i s = get_collateral_position s i"
definition get_trading_position_info :: "nat \<Rightarrow> synth_state \<Rightarrow> (synth_error, TradingPosition) outcome" where
  "get_trading_position_info i s = get_trading_position s i"

definition get_collateral_ratio :: "env \<Rightarrow> nat \<Rightarrow> synth_state \<Rightarrow> (synth_error, int) outcome" where
  "get_collateral_ratio env i s =
     and_then (get_collateral_position s i) (\<lambda>position.
     and_then (get_price_internal env (cp_symbol position) s) (\<lambda>x.
     calculate_collateral_ratio (collateral_amount position) (minted_amount position) x))"

definition get_health_factor :: "env \<Rightarrow> nat \<Rightarrow> synth_state \<Rightarrow> (synth_error, int) outcome" where
  "get_health_factor env i s =
     and_then (get_collateral_position s i) (\<lambda>position.
     and_then (get_price_internal env (cp_symbol position) s) (\<lambda>x.
     and_then (get_liquidation_threshold s) (\<lambda>threshold.
     calculate_health_factor (collateral_amount position) (minted_amount position) x threshold)))"

definition is_additional_collateral_safe :: "env \<Rightarrow> nat \<Rightarrow> int \<Rightarrow> synth_state \<Rightarrow> (synth_error, bool) outcome" where
  "is_additional_collateral_safe env i additional s =
     and_then (get_collateral_position s i) (\<lambda>position.
     and_then (get_price_internal env (cp_symbol position) s) (\<lambda>x.
     and_then (get_min_collateral_ratio s) (\<lambda>min_ratio.
     is_adding_collateral_safe (collateral_amount position) additional (minted_amount position) x min_ratio)))"

definition is_liquidatable :: "env \<Rightarrow> nat \<Rightarrow> synth_state \<Rightarrow> (synth_error, bool) outcome" where
  "is_liquidatable env i s =
     and_then (get_collateral_position s i) (\<lambda>position.
     and_then (get_price_internal env (cp_symbol position) s) (\<lambda>x.
     is_above_liquidation_threshold position x s))"

definition get_protocol_params :: "synth_state \<Rightarrow> (synth_error, AssetConfig) outcome" where
  "get_protocol_params s =
     and_then (get_min_collateral_ratio s) (\<lambda>r.
     and_then (get_liquidation_threshold s) (\<lambda>th.
     and_then (get_liquidation_bonus s) (\<lambda>b.
     and_then (get_fee_percentage s) (\<lambda>f.
     Ok \<lparr>ac_min_collateral_ratio = r, ac_liquidation_threshold = th, ac_liquidation_bonus = b, ac_fee_percentage = f\<rparr>))))"

definition get_max_mintable :: "env \<Rightarrow> symbol \<Rightarrow> int \<Rightarrow> synth_state \<Rightarrow> (synth_error, int) outcome" where
  "get_max_mintable env y coll s =
     (if \<not> has_synthetic_asset s y then Err AssetNotRegistered
      else and_then (get_price_internal env y s) (\<lambda>x. calculate_max_mint_amount coll x s))"

definition get_trading_pnl :: "env \<Rightarrow> nat \<Rightarrow> synth_state \<Rightarrow> (synth_error, int) outcome" where
  "get_trading_pnl env i s =
     and_then (get_trading_position s i) (\<lambda>position.
     if \<not> is_open position then Err PositionAlreadyClosed
     else and_then (get_price_internal env (tp_symbol position) s) (\<lambda>x. calculate_pnl position x))"

definition get_trading_liquidation_price :: "nat \<Rightarrow> synth_state \<Rightarrow> (synth_error, int) outcome" where
  "get_trading_liquidation_price i s =
     and_then (get_trading_position s i) (\<lambda>position. calculate_liquidation_price position)"

definition is_trade_position_safe :: "env \<Rightarrow> nat \<Rightarrow> synth_state \<Rightarrow> (synth_error, bool) outcome" where
  "is_trade_position_safe env i s =
     and_then (get_trading_position s i) (\<lambda>position.
     and_then (get_price_internal env (tp_symbol position) s) (\<lambda>x. is_trade_safe position x))"

definition get_trading_pnl_percentage :: "env \<Rightarrow> nat \<Rightarrow> synth_state \<Rightarrow> (synth_error, int) outcome" where
  "get_trading_pnl_percentage env i s =
     and_then (get_trading_position s i) (\<lambda>position.
     and_then (get_price_internal env (tp_symbol position) s) (\<lambda>x. calculate_pnl_percentage position x))"

definition estimate_trading_fee :: "int \<Rightarrow> synth_state \<Rightarrow> (synth_error, int) outcome" where
  "estimate_trading_fee ntl s = calculate_trading_fee ntl s"
definition estimate_effective_notional :: "int \<Rightarrow> nat \<Rightarrow> synth_state \<Rightarrow> (synth_error, int) outcome" where
  "estimate_effective_notional mgn lev s = calculate_effective_notional mgn lev s"
definition get_safe_leverage :: "nat \<Rightarrow> nat" where
  "get_safe_leverage volatility = calculate_safe_leverage volatility"

definition get_price_deviation_bps :: "env \<Rightarrow> symbol \<Rightarrow> int \<Rightarrow> synth_state \<Rightarrow> (synth_error, nat) outcome" where
  "get_price_deviation_bps env y new_price s =
     and_then (get_price_internal env y s) (\<lambda>x. calculate_price_deviation x new_price)"
definition is_price_deviation_valid :: "env \<Rightarrow> symbol \<Rightarrow> int \<Rightarrow> nat \<Rightarrow> synth_state \<Rightarrow> (synth_error, bool) outcome" where
  "is_price_deviation_valid env y new_price max_bps s =
     and_then (get_price_internal env y s) (\<lambda>x. is_price_valid_deviation x new_price max_bps)"
definition get_registered_assets :: "synth_state \<Rightarrow> (synth_error, symbol list) outcome" where
  "get_registered_assets s = Ok (get_registered_asset_symbols s)"

section \<open>Public histories\<close>

text \<open>
  The calls that touch the contract's own entries only, and those that move collateral. Amounts are
  arguments of type \<open>i128\<close>. A price lives in temporary storage and can expire.
\<close>

inductive synth_book :: "env \<Rightarrow> synth_state \<Rightarrow> synth_state \<Rightarrow> bool" for env where
  initialize: "initialize env a orc tok r th b f s = Ok (u, t) \<Longrightarrow> synth_book env s t"
| register_asset: "in_i128 x \<Longrightarrow> register_synthetic_asset env y nm d x s = Ok (u, t) \<Longrightarrow> synth_book env s t"
| set_oracle: "update_oracle env a s = Ok (u, t) \<Longrightarrow> synth_book env s t"
| set_params: "update_protocol_params env r th b f s = Ok (u, t) \<Longrightarrow> synth_book env s t"
| price_update: "in_i128 x \<Longrightarrow> update_price env y x c s = Ok (u, t) \<Longrightarrow> synth_book env s t"
| price_expires: "t = s\<lparr>Prices := (Prices s)(y := None)\<rparr> \<Longrightarrow> synth_book env s t"

inductive synth_token :: "'w token_transfer \<Rightarrow> env \<Rightarrow> 'w \<times> synth_state \<Rightarrow> 'w \<times> synth_state \<Rightarrow> bool"
  for tc env where
  mint: "in_i128 c \<Longrightarrow> in_i128 m \<Longrightarrow> mint_synthetic tc env a y c m ws = Ok (u, wt) \<Longrightarrow> synth_token tc env ws wt"
| add: "in_i128 c \<Longrightarrow> add_collateral tc env a i c ws = Ok (u, wt) \<Longrightarrow> synth_token tc env ws wt"
| burn: "in_i128 m \<Longrightarrow> burn_synthetic tc env a i m ws = Ok (u, wt) \<Longrightarrow> synth_token tc env ws wt"
| liquidate: "in_i128 m \<Longrightarrow> liquidate tc env a i m ws = Ok (u, wt) \<Longrightarrow> synth_token tc env ws wt"
| open_position: "in_i128 mgn \<Longrightarrow> open_trade tc env a y d mgn lev ws = Ok (i, wt) \<Longrightarrow> synth_token tc env ws wt"

text \<open>
  A history under the contract \<open>self\<close> with one collateral token, together with the profits paid to
  traders so far (losses count negative). The contract never signs a call on its own behalf.
\<close>

inductive synth_step ::
    "'w token_transfer \<Rightarrow> ('w \<Rightarrow> 'w \<Rightarrow> bool) \<Rightarrow> address \<Rightarrow>
     'w \<times> synth_state \<times> int \<Rightarrow> 'w \<times> synth_state \<times> int \<Rightarrow> bool"
  for tc out self where
  book: "\<not> auth env self \<Longrightarrow> current_contract env = self \<Longrightarrow>
    synth_book env s t \<Longrightarrow> synth_step tc out self (w, s, p) (w, t, p)"
| tokens: "\<not> auth env self \<Longrightarrow> current_contract env = self \<Longrightarrow>
    synth_token tc env (w, s) (w', t) \<Longrightarrow> synth_step tc out self (w, s, p) (w', t, p)"
| close: "\<not> auth env self \<Longrightarrow> current_contract env = self \<Longrightarrow> get_trading_position_info i s = Ok pos \<Longrightarrow>
    close_trade tc env a i (w, s) = Ok (paid, w', t) \<Longrightarrow>
    synth_step tc out self (w, s, p) (w', t, p + paid - margin pos)"
| other: "out w w' \<Longrightarrow> synth_step tc out self (w, s, p) (w', s, p)"

end
