(* ===== verification/Synthetic_Books_Correct.thy ===== *)
theory Synthetic_Books_Correct
  imports Token_Correct Synthetic_Assets
begin

text \<open>
  The books of the synthetic assets: what each successful call did, the recorded supplies are the
  sums of the open positions, and what the contract owes is covered up to the profits of traders.
\<close>

section \<open>Success of each operation\<close>

lemma synth_getters_Ok [simp]:
  "get_admin s = Ok a \<longleftrightarrow> Admin s = Some a"
  "get_oracle_address s = Ok a \<longleftrightarrow> Oracle s = Some a"
  "get_collateral_token s = Ok a \<longleftrightarrow> CollateralToken s = Some a"
  "get_min_collateral_ratio s = Ok n \<longleftrightarrow> MinCollateralRatio s = Some n"
  "get_liquidation_threshold s = Ok n \<longleftrightarrow> LiquidationThreshold s = Some n"
  "get_liquidation_bonus s = Ok n \<longleftrightarrow> LiquidationBonus s = Some n"
  "get_synthetic_asset s y = Ok c \<longleftrightarrow> Assets s y = Some c"
  "get_collateral_position s i = Ok q \<longleftrightarrow> CollateralPositions s i = Some q"
  "get_trading_position s i = Ok r \<longleftrightarrow> TradingPositions s i = Some r"
  "get_price s y = Ok d \<longleftrightarrow> Prices s y = Some d"
  by (simp_all add: synth_getters)

lemma increment_Ok [simp]:
  "increment_position_counter n s = Ok x \<longleftrightarrow>
     x = ((), s\<lparr>PositionCounter := Some (get_position_counter s + n)\<rparr>) \<and> get_position_counter s + n \<le> u64_max"
  by (auto simp: increment_position_counter_def)

lemma synth_initialize_Ok:
  assumes "initialize env a orc tok r th b f s = Ok (u, t)"
  shows "\<not> is_initialized s \<and> 10000 \<le> r \<and> r \<le> 50000 \<and> 10000 \<le> th \<and> th < r \<and> b \<le> 2000 \<and>
    t = s\<lparr>Admin := Some a, Oracle := Some orc, CollateralToken := Some tok, MinCollateralRatio := Some r,
      LiquidationThreshold := Some th, LiquidationBonus := Some b, FeePercentage := Some f, Initialized := Some True,
      PositionCounter := Some 1\<rparr>"
  using assms by (auto simp: initialize_def synth_setters Let_def split: if_splits)

lemma register_Ok:
  assumes "register_synthetic_asset env y nm d x s = Ok (u, t)"
  shows "\<exists>a. Admin s = Some a \<and> auth env a \<and> Assets s y = None \<and> 0 < x \<and>
    t = s\<lparr>Assets := (Assets s)(y \<mapsto> \<lparr>sa_symbol = y, sa_name = nm, decimals = d, total_supply = 0\<rparr>),
      AssetSymbols := Some (get_registered_asset_symbols s @ [y]),
      Prices := (Prices s)(y \<mapsto> \<lparr>price = x, price_time = timestamp env, confidence = 100\<rparr>)\<rparr>"
  using assms
  by (auto simp: register_synthetic_asset_def synth_setters has_synthetic_asset_def get_registered_asset_symbols_def
      Let_def split: if_splits)

lemma params_Ok:
  assumes "update_protocol_params env r th b f s = Ok (u, t)"
  shows "\<exists>a. Admin s = Some a \<and> auth env a \<and> 10000 \<le> r \<and> r \<le> 50000 \<and> 10000 \<le> th \<and> th < r \<and> b \<le> 2000 \<and>
    t = s\<lparr>MinCollateralRatio := Some r, LiquidationThreshold := Some th, LiquidationBonus := Some b, FeePercentage := Some f\<rparr>"
  using assms by (auto simp: update_protocol_params_def synth_setters Let_def split: if_splits)

lemma deviation_Ok:
  "calculate_price_deviation old new = Ok d \<Longrightarrow>
     0 < old \<and> 0 < new \<and> int d = (\<bar>new - old\<bar> * 10000) div old"
  by (auto simp: calculate_price_deviation_def pos_imp_zdiv_nonneg_iff split: if_splits)

lemma update_price_Ok:
  assumes "update_price env y x c s = Ok (u, t)"
  shows "\<exists>orc a. Oracle s = Some orc \<and> auth env orc \<and> Assets s y = Some a \<and> MIN_PRICE \<le> x \<and> x \<le> MAX_PRICE \<and>
    MIN_CONFIDENCE \<le> c \<and> c \<le> 100 \<and>
    (\<forall>d. Prices s y = Some d \<longrightarrow> 0 < price d \<and> (\<bar>x - price d\<bar> * 10000) div price d \<le> int MAX_SINGLE_UPDATE_DEVIATION) \<and>
    t = s\<lparr>Prices := (Prices s)(y \<mapsto> \<lparr>price = x, price_time = timestamp env, confidence = c\<rparr>)\<rparr>"
proof -
  obtain orc where o: "Oracle s = Some orc" "auth env orc" "Assets s y \<noteq> None"
    and i: "update_price_internal env y x c s = Ok (u, t)"
    using assms by (auto simp: update_price_def has_synthetic_asset_def split: if_splits)
  have v: "validate_price x c = Ok ()" using i by (auto simp: update_price_internal_def)
  have "(\<forall>d. Prices s y = Some d \<longrightarrow> 0 < price d \<and> (\<bar>x - price d\<bar> * 10000) div price d \<le> int MAX_SINGLE_UPDATE_DEVIATION) \<and>
    t = s\<lparr>Prices := (Prices s)(y \<mapsto> \<lparr>price = x, price_time = timestamp env, confidence = c\<rparr>)\<rparr>"
  proof (cases "Prices s y")
    case None
    then show ?thesis using i v by (simp add: update_price_internal_def get_price_def ok_or_def set_price_def)
  next
    case (Some d)
    then obtain n where n: "calculate_price_deviation (price d) x = Ok n" "n \<le> MAX_SINGLE_UPDATE_DEVIATION"
      "t = set_price y \<lparr>price = x, price_time = timestamp env, confidence = c\<rparr> s"
      using i v by (auto simp: update_price_internal_def get_price_def Let_def split: if_splits)
    then show ?thesis using deviation_Ok [OF n(1)] Some by (simp add: set_price_def)
  qed
  then show ?thesis using o v by (auto simp: validate_price_def split: if_splits)
qed

lemma synth_mint_Ok:
  assumes "mint_synthetic tc env a y c m (w, s) = Ok (u, w', t)"
  shows "\<exists>asset x r req tok. Assets s y = Some asset \<and> 0 < c \<and> 0 < m \<and> auth env a \<and>
    get_price_internal env y s = Ok x \<and> MinCollateralRatio s = Some r \<and>
    calculate_required_collateral m x r = Ok req \<and> req \<le> c \<and> CollateralToken s = Some tok \<and>
    tc tok (subcall_env env tok) a (current_contract env) c w = Some w' \<and>
    in_i128 (total_supply asset + m) \<and> get_position_counter s + 1 \<le> u64_max \<and>
    t = s\<lparr>PositionCounter := Some (get_position_counter s + 1),
      CollateralPositions := (CollateralPositions s)(get_position_counter s \<mapsto> \<lparr>cp_user = a, cp_symbol = y,
        collateral_amount = c, minted_amount = m, cp_id = get_position_counter s, cp_created_at = timestamp env,
        last_updated = timestamp env\<rparr>),
      Assets := (Assets s)(y \<mapsto> asset\<lparr>total_supply := total_supply asset + m\<rparr>)\<rparr>"
  using assms
  by (auto simp: mint_synthetic_def synth_setters has_synthetic_asset_def Let_def split: if_splits)

lemma add_collateral_Ok:
  assumes "add_collateral tc env a i c (w, s) = Ok (u, w', t)"
  shows "\<exists>p tok. 0 < c \<and> auth env a \<and> CollateralPositions s i = Some p \<and> cp_user p = a \<and> CollateralToken s = Some tok \<and>
    tc tok (subcall_env env tok) a (current_contract env) c w = Some w' \<and> in_i128 (collateral_amount p + c) \<and>
    t = s\<lparr>CollateralPositions := (CollateralPositions s)(i \<mapsto>
      p\<lparr>collateral_amount := collateral_amount p + c, last_updated := timestamp env\<rparr>)\<rparr>"
  using assms by (auto simp: add_collateral_def synth_setters Let_def split: if_splits)

text \<open>A position after \<open>m\<close> of its debt and \<open>c\<close> of its collateral are gone, and the state without them.\<close>

definition reduced :: "env \<Rightarrow> int \<Rightarrow> int \<Rightarrow> CollateralPosition \<Rightarrow> CollateralPosition" where
  "reduced env m c p = p\<lparr>minted_amount := minted_amount p - m, collateral_amount := collateral_amount p - c,
     last_updated := timestamp env\<rparr>"

definition without_debt :: "env \<Rightarrow> nat \<Rightarrow> CollateralPosition \<Rightarrow> int \<Rightarrow> int \<Rightarrow> SyntheticAsset \<Rightarrow> synth_state \<Rightarrow> synth_state" where
  "without_debt env i p m c asset s =
     s\<lparr>CollateralPositions := (CollateralPositions s)(i := (if minted_amount p = m then None else Some (reduced env m c p))),
       Assets := (Assets s)(cp_symbol p \<mapsto> asset\<lparr>total_supply := total_supply asset - m\<rparr>)\<rparr>"

lemma synth_burn_Ok:
  assumes "burn_synthetic tc env a i m (w, s) = Ok (u, w', t)"
  shows "\<exists>p asset tok. 0 < m \<and> auth env a \<and> CollateralPositions s i = Some p \<and> cp_user p = a \<and> m \<le> minted_amount p \<and>
    Assets s (cp_symbol p) = Some asset \<and> CollateralToken s = Some tok \<and>
    tc tok (subcall_env env tok) (current_contract env) a ((m * collateral_amount p) sdiv minted_amount p) w = Some w' \<and>
    in_i128 (total_supply asset - m) \<and>
    in_i128 (collateral_amount p - (m * collateral_amount p) sdiv minted_amount p) \<and>
    t = without_debt env i p m ((m * collateral_amount p) sdiv minted_amount p) asset s \<and>
    (minted_amount p = m \<or> (\<exists>x r ratio. get_price_internal env (cp_symbol p) s = Ok x \<and> MinCollateralRatio s = Some r \<and>
       calculate_collateral_ratio (collateral_amount p - (m * collateral_amount p) sdiv minted_amount p)
         (minted_amount p - m) x = Ok ratio \<and> int r \<le> ratio))"
proof (cases "CollateralPositions s i")
  case None
  then show ?thesis using assms by (simp add: burn_synthetic_def split: if_split_asm)
next
  case (Some p)
  show ?thesis
  proof (cases "minted_amount p = m")
    case True
    then show ?thesis using assms Some
      by (clarsimp simp: burn_synthetic_def Let_def synth_setters without_debt_def split: if_split_asm)
  next
    case False
    define c where "c = (m * collateral_amount p) sdiv minted_amount p"
    obtain x r ratio asset tok where h: "0 < m" "auth env a" "cp_user p = a" "m \<le> minted_amount p"
      "in_i128 (collateral_amount p - c)" "get_price_internal env (cp_symbol p) s = Ok x" "MinCollateralRatio s = Some r"
      "calculate_collateral_ratio (collateral_amount p - c) (minted_amount p - m) x = Ok ratio" "int r \<le> ratio"
      "Assets s (cp_symbol p) = Some asset" "in_i128 (total_supply asset - m)" "CollateralToken s = Some tok"
      "tc tok (subcall_env env tok) (current_contract env) a c w = Some w'" "t = without_debt env i p m c asset s"
      using assms Some False
      by (clarsimp simp: burn_synthetic_def Let_def synth_setters without_debt_def reduced_def c_def not_less not_le
          split: if_split_asm; blast)
    show ?thesis by (intro exI [of _ p] exI [of _ asset] exI [of _ tok]) (use h Some c_def in blast)
  qed
qed

lemma synth_liquidate_Ok:
  assumes "liquidate tc env a i m (w, s) = Ok (u, w', t)"
  shows "\<exists>p asset tok x b reward. 0 < m \<and> auth env a \<and> CollateralPositions s i = Some p \<and> m \<le> minted_amount p \<and>
    get_price_internal env (cp_symbol p) s = Ok x \<and> is_above_liquidation_threshold p x s = Ok True \<and>
    LiquidationBonus s = Some b \<and>
    calculate_liquidation_reward m x (collateral_amount p) (minted_amount p) b = Ok reward \<and>
    Assets s (cp_symbol p) = Some asset \<and> CollateralToken s = Some tok \<and>
    tc tok (subcall_env env tok) (current_contract env) a reward w = Some w' \<and>
    in_i128 (total_supply asset - m) \<and> in_i128 (collateral_amount p - reward) \<and>
    t = without_debt env i p m reward asset s"
proof (cases "CollateralPositions s i")
  case None
  then show ?thesis using assms by (simp add: liquidate_def split: if_split_asm)
next
  case (Some p)
  show ?thesis
  proof (cases "minted_amount p = m")
    case True
    then show ?thesis using assms Some
      by (clarsimp simp: liquidate_def Let_def synth_setters without_debt_def split: if_split_asm)
  next
    case False
    then show ?thesis using assms Some
      by (clarsimp simp: liquidate_def Let_def synth_setters without_debt_def reduced_def split: if_split_asm)
  qed
qed

lemma open_trade_Ok:
  assumes "open_trade tc env a y d mgn lev (w, s) = Ok (i, w', t)"
  shows "\<exists>x tok. 0 < mgn \<and> auth env a \<and> Assets s y \<noteq> None \<and> 10000 \<le> lev \<and> lev \<le> 100000 \<and>
    get_price_internal env y s = Ok x \<and> in_i128 ((mgn * int lev) sdiv 10000) \<and> MIN_TRADE_MARGIN \<le> mgn \<and> CollateralToken s = Some tok \<and>
    tc tok (subcall_env env tok) a (current_contract env) mgn w = Some w' \<and> i = get_position_counter s \<and> i + 1 \<le> u64_max \<and>
    t = s\<lparr>PositionCounter := Some (i + 1), TradingPositions := (TradingPositions s)(i \<mapsto>
      \<lparr>tp_user = a, tp_symbol = y, direction = d, entry_price = x, margin = mgn, leverage = lev,
       notional = (mgn * int lev) sdiv 10000, tp_id = i, is_open = True, tp_created_at = timestamp env\<rparr>)\<rparr>"
  using assms
  by (auto simp: open_trade_def synth_setters has_synthetic_asset_def calculate_margin_requirement_def Let_def
      split: if_splits)

text \<open>A close pays margin and profit, or takes the whole margin of a trade that has lost it.\<close>

lemma close_trade_Ok:
  assumes "close_trade tc env a i (w, s) = Ok (n, w', t)"
  shows "\<exists>p x pnl. auth env a \<and> TradingPositions s i = Some p \<and> tp_user p = a \<and> is_open p \<and>
    get_price_internal env (tp_symbol p) s = Ok x \<and> calculate_pnl p x = Ok pnl \<and> in_i128 (margin p + pnl) \<and>
    n = max 0 (margin p + pnl) \<and>
    (if margin p + pnl \<le> 0 then w' = w \<and> t = s\<lparr>TradingPositions := (TradingPositions s)(i := None)\<rparr>
     else (\<exists>tok. CollateralToken s = Some tok \<and>
       tc tok (subcall_env env tok) (current_contract env) a n w = Some w') \<and>
       t = s\<lparr>TradingPositions := (TradingPositions s)(i \<mapsto> p\<lparr>is_open := False\<rparr>)\<rparr>)"
proof (cases "TradingPositions s i")
  case None
  then show ?thesis using assms by (simp add: close_trade_def split: if_split_asm)
next
  case (Some p)
  obtain x b where h: "auth env a" "tp_user p = a" "is_open p" "get_price_internal env (tp_symbol p) s = Ok x"
    "should_liquidate_trading_position p x = Ok b"
    using assms Some unfolding close_trade_def by (clarsimp split: if_split_asm; blast)
  then obtain pnl where pnl: "calculate_pnl p x = Ok pnl" "in_i128 (margin p + pnl)" "b = (margin p + pnl \<le> 0)"
    by (auto simp: should_liquidate_trading_position_def)
  show ?thesis
  proof (cases "margin p + pnl \<le> 0")
    case True
    then show ?thesis using assms Some h pnl by (auto simp: close_trade_def synth_setters)
  next
    case False
    then show ?thesis using assms Some h pnl by (auto simp: close_trade_def synth_setters)
  qed
qed

section \<open>The books\<close>

definition debt_in :: "symbol \<Rightarrow> CollateralPosition \<Rightarrow> int" where
  "debt_in y p = (if cp_symbol p = y then minted_amount p else 0)"

definition margin_held :: "TradingPosition \<Rightarrow> int" where
  "margin_held p = (if is_open p then margin p else 0)"

text \<open>What the contract owes: the collateral of all positions and the margins of the open trades.\<close>

definition owed :: "synth_state \<Rightarrow> int" where
  "owed s = total_of collateral_amount (CollateralPositions s) + total_of margin_held (TradingPositions s)"

definition cp_ok :: "synth_state \<Rightarrow> nat \<Rightarrow> CollateralPosition \<Rightarrow> bool" where
  "cp_ok s i p \<longleftrightarrow> cp_id p = i \<and> i < get_position_counter s \<and> Assets s (cp_symbol p) \<noteq> None \<and>
     0 < minted_amount p \<and> 0 \<le> collateral_amount p"

definition tp_ok :: "synth_state \<Rightarrow> nat \<Rightarrow> TradingPosition \<Rightarrow> bool" where
  "tp_ok s i p \<longleftrightarrow> tp_id p = i \<and> i < get_position_counter s \<and> Assets s (tp_symbol p) \<noteq> None \<and> 0 < margin p"

definition params_ok :: "synth_state \<Rightarrow> bool" where
  "params_ok s \<longleftrightarrow> (\<exists>r th b. MinCollateralRatio s = Some r \<and> LiquidationThreshold s = Some th \<and>
     LiquidationBonus s = Some b \<and> 10000 \<le> r \<and> r \<le> 50000 \<and> 10000 \<le> th \<and> th < r \<and> b \<le> 2000)"

definition synth_inv :: "synth_state \<Rightarrow> bool" where
  "synth_inv s \<longleftrightarrow>
     finite (dom (CollateralPositions s)) \<and> finite (dom (TradingPositions s)) \<and>
     (\<forall>i p. CollateralPositions s i = Some p \<longrightarrow> cp_ok s i p) \<and>
     (\<forall>i p. TradingPositions s i = Some p \<longrightarrow> tp_ok s i p) \<and>
     (\<forall>y a. Assets s y = Some a \<longrightarrow> total_supply a = total_of (debt_in y) (CollateralPositions s)) \<and>
     (if is_initialized s then CollateralToken s \<noteq> None \<and> params_ok s
      else Admin s = None \<and> CollateralToken s = None \<and> Assets s = Map.empty)"

lemma synth_invD:
  assumes "synth_inv s"
  shows "finite (dom (CollateralPositions s))" "finite (dom (TradingPositions s))"
    "CollateralPositions s i = Some p \<Longrightarrow> cp_ok s i p" "TradingPositions s i = Some q \<Longrightarrow> tp_ok s i q"
    "Assets s y = Some a \<Longrightarrow> total_supply a = total_of (debt_in y) (CollateralPositions s)"
    "is_initialized s \<Longrightarrow> CollateralToken s \<noteq> None \<and> params_ok s"
    "\<not> is_initialized s \<Longrightarrow> Admin s = None \<and> CollateralToken s = None \<and> Assets s = Map.empty"
  using assms unfolding synth_inv_def by (auto split: if_splits)

lemma synth_inv_empty: "synth_inv empty_synth"
  by (simp add: synth_inv_def empty_synth_def is_initialized_def)

lemma uninitialised_has_no_positions:
  assumes "synth_inv s" "\<not> is_initialized s"
  shows "CollateralPositions s = Map.empty" "TradingPositions s = Map.empty" "owed s = 0"
proof -
  have a: "Assets s = Map.empty" using synth_invD(7) [OF assms] by simp
  have "CollateralPositions s i = None" for i
    using synth_invD(3) [OF assms(1), of i] a by (cases "CollateralPositions s i") (auto simp: cp_ok_def)
  moreover have "TradingPositions s i = None" for i
    using synth_invD(4) [OF assms(1), of i] a by (cases "TradingPositions s i") (auto simp: tp_ok_def)
  ultimately show "CollateralPositions s = Map.empty" "TradingPositions s = Map.empty" by auto
  then show "owed s = 0" by (simp add: owed_def)
qed

lemma initialised_if_asset: "synth_inv s \<Longrightarrow> Assets s y \<noteq> None \<Longrightarrow> is_initialized s"
  using synth_invD(7) by fastforce

lemma initialised_if_admin: "synth_inv s \<Longrightarrow> Admin s \<noteq> None \<Longrightarrow> is_initialized s"
  using synth_invD(7) by fastforce

lemma new_position_slot:
  assumes "synth_inv s"
  shows "CollateralPositions s (get_position_counter s) = None" "TradingPositions s (get_position_counter s) = None"
proof -
  let ?n = "get_position_counter s"
  show "CollateralPositions s ?n = None"
    using synth_invD(3) [OF assms, of ?n] by (cases "CollateralPositions s ?n") (auto simp: cp_ok_def)
  show "TradingPositions s ?n = None"
    using synth_invD(4) [OF assms, of ?n] by (cases "TradingPositions s ?n") (auto simp: tp_ok_def)
qed

text \<open>Calls that change prices and parameters only.\<close>

lemma synth_inv_frame:
  assumes "synth_inv s" "CollateralPositions t = CollateralPositions s" "TradingPositions t = TradingPositions s"
    "Assets t = Assets s" "get_position_counter t = get_position_counter s" "is_initialized t = is_initialized s"
    "CollateralToken t = CollateralToken s" "is_initialized s \<Longrightarrow> params_ok t" "Admin t = Admin s"
  shows "synth_inv t \<and> owed t = owed s"
  using assms by (auto simp: synth_inv_def cp_ok_def tp_ok_def owed_def)

lemma synth_book_inv:
  assumes "synth_book env s t" "synth_inv s"
  shows "synth_inv t \<and> owed t = owed s \<and> (is_initialized s \<longrightarrow> CollateralToken t = CollateralToken s)"
  using assms(1)
proof cases
  case (initialize a orc tok r th b f u)
  note i = synth_initialize_Ok [OF initialize]
  note e = uninitialised_has_no_positions [OF assms(2)] synth_invD(7) [OF assms(2)]
  show ?thesis using i e by (simp add: synth_inv_def is_initialized_def params_ok_def owed_def)
next
  case (register_asset x y nm d u)
  note r = register_Ok [OF register_asset(2)]
  have ini: "is_initialized s" using r initialised_if_admin [OF assms(2)] by auto
  have y: "total_of (debt_in y) (CollateralPositions s) = 0"
    by (rule total_of_zero) (use synth_invD(3) [OF assms(2)] r in \<open>fastforce simp: debt_in_def cp_ok_def\<close>)
  have ini': "is_initialized t" using r ini by (auto simp: is_initialized_def)
  define n where "n = \<lparr>sa_symbol = y, sa_name = nm, decimals = d, total_supply = 0\<rparr>"
  have f: "CollateralPositions t = CollateralPositions s" "TradingPositions t = TradingPositions s"
    "Assets t = (Assets s)(y \<mapsto> n)" "total_supply n = 0" "PositionCounter t = PositionCounter s"
    "CollateralToken t = CollateralToken s" "params_ok t = params_ok s" using r by (auto simp: params_ok_def n_def)
  have "cp_ok t i p" if "cp_ok s i p" for i p using that f by (auto simp: cp_ok_def get_position_counter_def)
  moreover have "tp_ok t i p" if "tp_ok s i p" for i p using that f by (auto simp: tp_ok_def get_position_counter_def)
  ultimately show ?thesis
    using synth_invD [OF assms(2)] ini ini' y unfolding synth_inv_def owed_def by (simp add: f)
next
  case (set_oracle a u)
  then have "t = s\<lparr>Oracle := Some a\<rparr>" by (auto simp: update_oracle_def synth_setters)
  then show ?thesis
    using synth_inv_frame [OF assms(2), of t] synth_invD(6) [OF assms(2)]
    by (auto simp: get_position_counter_def is_initialized_def params_ok_def)
next
  case (set_params r th b f u)
  note p = params_Ok [OF set_params]
  then show ?thesis
    using synth_inv_frame [OF assms(2), of t]
    by (auto simp: get_position_counter_def is_initialized_def params_ok_def)
next
  case (price_update x y c u)
  note p = update_price_Ok [OF price_update(2)]
  then show ?thesis
    using synth_inv_frame [OF assms(2), of t] synth_invD(6) [OF assms(2)]
    by (auto simp: get_position_counter_def is_initialized_def params_ok_def)
next
  case (price_expires y)
  then show ?thesis
    using synth_inv_frame [OF assms(2), of t] synth_invD(6) [OF assms(2)]
    by (auto simp: get_position_counter_def is_initialized_def params_ok_def)
qed

text \<open>Taking debt and collateral out of a position.\<close>

lemma without_debt_keeps:
  fixes env :: env
  assumes "synth_inv s" "CollateralPositions s i = Some p" "0 < m" "m \<le> minted_amount p" "0 \<le> c"
    "c \<le> collateral_amount p" "Assets s (cp_symbol p) = Some asset"
  defines "t \<equiv> without_debt env i p m c asset s"
  shows "synth_inv t \<and> owed t \<le> owed s - c \<and> CollateralToken t = CollateralToken s \<and> is_initialized t = is_initialized s"
proof -
  note D = synth_invD [OF assms(1)]
  define q where "q = (if minted_amount p = m then None else Some (reduced env m c p))"
  define n where "n = asset\<lparr>total_supply := total_supply asset - m\<rparr>"
  have t: "CollateralPositions t = (CollateralPositions s)(i := q)" "TradingPositions t = TradingPositions s"
    "Assets t = (Assets s)(cp_symbol p \<mapsto> n)" "PositionCounter t = PositionCounter s" "Admin t = Admin s"
    "CollateralToken t = CollateralToken s" "is_initialized t = is_initialized s" "params_ok t = params_ok s"
    by (simp_all add: t_def without_debt_def q_def n_def params_ok_def is_initialized_def)
  have p: "cp_ok s i p" by (rule D(3) [OF assms(2)])
  have "cp_ok t j x" if "CollateralPositions t j = Some x" for j x
    using that p D(3) [of j x] assms(3-6)
    by (auto simp: t q_def cp_ok_def reduced_def get_position_counter_def split: if_splits)
  moreover have "tp_ok t j x" if "TradingPositions t j = Some x" for j x
    using that D(4) [of j x] by (auto simp: t tp_ok_def get_position_counter_def)
  moreover have "total_of (debt_in y) (CollateralPositions t) = total_of (debt_in y) (CollateralPositions s) -
      (if cp_symbol p = y then m else 0)" for y
    using total_of_upd [OF D(1), of "debt_in y" i q] assms(2) by (auto simp: t q_def debt_in_def reduced_def)
  moreover have "total_of collateral_amount (CollateralPositions t) \<le> total_of collateral_amount (CollateralPositions s) - c"
    using total_of_upd [OF D(1), of collateral_amount i q] assms(2,6) by (auto simp: t q_def reduced_def)
  moreover have "is_initialized s" using initialised_if_asset [OF assms(1)] assms(7) by blast
  ultimately show ?thesis
    using D(1,2,5,6) assms(7) unfolding synth_inv_def owed_def by (simp add: t n_def)
qed

lemma share_bounds:
  assumes "0 < m" "m \<le> n" "0 \<le> c"
  shows "0 \<le> (m * c) sdiv n" "(m * c) sdiv n \<le> (c::int)"
proof -
  have "m * c \<le> c * n" using assms by (metis mult.commute mult_right_mono)
  then show "(m * c) sdiv n \<le> c" using assms div_mono_mult [of n "m * c" c] by simp
  show "0 \<le> (m * c) sdiv n" using assms by (simp add: pos_imp_zdiv_nonneg_iff)
qed

lemma reward_bounds:
  assumes "calculate_liquidation_reward m x c n b = Ok r" "0 \<le> c" "m \<le> n"
  shows "0 \<le> r \<and> r \<le> c"
proof -
  have m: "0 < m" "0 < n" using assms(1,3) by (auto simp: calculate_liquidation_reward_def split: if_splits)
  let ?share = "(m * c) sdiv n"
  have "0 \<le> ?share" by (rule share_bounds) (use assms m in auto)
  then have "0 \<le> ?share + (?share * int b) sdiv 10000" by (simp add: pos_imp_zdiv_nonneg_iff)
  then show ?thesis using assms(1,2) by (auto simp: calculate_liquidation_reward_def Let_def split: if_splits)
qed

text \<open>How a call moves collateral: \<open>x\<close> from \<open>a\<close> to the contract, or from the contract to \<open>a\<close>.\<close>

definition collects :: "'w token_transfer \<Rightarrow> env \<Rightarrow> address \<Rightarrow> int \<Rightarrow> 'w \<Rightarrow> 'w \<Rightarrow> synth_state \<Rightarrow> bool" where
  "collects tc env a x w w' s \<longleftrightarrow> auth env a \<and>
     (\<exists>tok. CollateralToken s = Some tok \<and> tc tok (subcall_env env tok) a (current_contract env) x w = Some w')"

definition disburses :: "'w token_transfer \<Rightarrow> env \<Rightarrow> address \<Rightarrow> int \<Rightarrow> 'w \<Rightarrow> 'w \<Rightarrow> synth_state \<Rightarrow> bool" where
  "disburses tc env a x w w' s \<longleftrightarrow>
     (\<exists>tok. CollateralToken s = Some tok \<and> tc tok (subcall_env env tok) (current_contract env) a x w = Some w')"

lemma synth_mint_keeps:
  assumes "mint_synthetic tc env a y c m (w, s) = Ok (u, w', t)" "synth_inv s"
  shows "synth_inv t \<and> owed t = owed s + c \<and> CollateralToken t = CollateralToken s \<and> collects tc env a c w w' s"
proof -
  note D = synth_invD [OF assms(2)] and new = new_position_slot [OF assms(2)]
  let ?i = "get_position_counter s"
  define p where "p = \<lparr>cp_user = a, cp_symbol = y, collateral_amount = c, minted_amount = m, cp_id = ?i,
    cp_created_at = timestamp env, last_updated = timestamp env\<rparr>"
  obtain asset where h: "Assets s y = Some asset" "0 < c" "0 < m" "collects tc env a c w w' s"
    and t: "t = s\<lparr>PositionCounter := Some (?i + 1), CollateralPositions := (CollateralPositions s)(?i \<mapsto> p),
      Assets := (Assets s)(y \<mapsto> asset\<lparr>total_supply := total_supply asset + m\<rparr>)\<rparr>"
    using synth_mint_Ok [OF assms(1)] unfolding collects_def p_def by blast
  have n: "get_position_counter t = ?i + 1" by (simp add: t get_position_counter_def)
  have "cp_ok t j x" if "CollateralPositions t j = Some x" for j x
    using that D(3) [of j x] h n by (auto simp: t cp_ok_def p_def split: if_splits)
  moreover have "tp_ok t j x" if "TradingPositions t j = Some x" for j x
    using that D(4) [of j x] n by (auto simp: t tp_ok_def)
  moreover have "total_of f (CollateralPositions t) = total_of f (CollateralPositions s) + f p" for f
    using total_of_upd [OF D(1), of f ?i "Some p"] new by (simp add: t)
  moreover have "is_initialized s" using initialised_if_asset [OF assms(2)] h(1) by blast
  moreover have "is_initialized t = is_initialized s" "params_ok t = params_ok s"
    by (simp_all add: t is_initialized_def params_ok_def)
  ultimately show ?thesis
    using D(1,2,5,6) h unfolding synth_inv_def owed_def by (simp add: t p_def debt_in_def)
qed

lemma synth_add_keeps:
  assumes "add_collateral tc env a i c (w, s) = Ok (u, w', t)" "synth_inv s"
  shows "synth_inv t \<and> owed t = owed s + c \<and> CollateralToken t = CollateralToken s \<and> collects tc env a c w w' s"
proof -
  note D = synth_invD [OF assms(2)]
  obtain p q where h: "0 < c" "CollateralPositions s i = Some p" "collects tc env a c w w' s"
    and q: "q = p\<lparr>collateral_amount := collateral_amount p + c, last_updated := timestamp env\<rparr>"
    and t: "t = s\<lparr>CollateralPositions := (CollateralPositions s)(i \<mapsto> q)\<rparr>"
    using add_collateral_Ok [OF assms(1)] unfolding collects_def by blast
  have "cp_ok t j x" if "CollateralPositions t j = Some x" for j x
    using that D(3) [of j x] D(3) [OF h(2)] h(1) by (auto simp: t q cp_ok_def get_position_counter_def split: if_splits)
  moreover have "tp_ok t j x" if "TradingPositions t j = Some x" for j x
    using that D(4) [of j x] by (auto simp: t tp_ok_def get_position_counter_def)
  moreover have "total_of f (CollateralPositions t) = total_of f (CollateralPositions s) - f p + f q" for f
    using total_of_upd [OF D(1), of f i "Some q"] h(2) by (simp add: t)
  moreover have "is_initialized t = is_initialized s" "params_ok t = params_ok s"
    by (simp_all add: t is_initialized_def params_ok_def)
  ultimately show ?thesis
    using D(1,2,5-7) h unfolding synth_inv_def owed_def by (auto simp: t q debt_in_def)
qed

lemma burn_keeps:
  assumes "burn_synthetic tc env a i m (w, s) = Ok (u, w', t)" "synth_inv s"
  shows "\<exists>x. synth_inv t \<and> owed t \<le> owed s - x \<and> CollateralToken t = CollateralToken s \<and> disburses tc env a x w w' s"
proof -
  obtain p asset tok where h: "0 < m" "CollateralPositions s i = Some p" "m \<le> minted_amount p"
      "Assets s (cp_symbol p) = Some asset" "CollateralToken s = Some tok"
      "tc tok (subcall_env env tok) (current_contract env) a ((m * collateral_amount p) sdiv minted_amount p) w = Some w'"
    and t: "t = without_debt env i p m ((m * collateral_amount p) sdiv minted_amount p) asset s"
    using synth_burn_Ok [OF assms(1)] by blast
  have "0 \<le> collateral_amount p" using synth_invD(3) [OF assms(2) h(2)] by (simp add: cp_ok_def)
  note b = share_bounds [OF h(1,3) this]
  show ?thesis
    using without_debt_keeps [OF assms(2) h(2,1,3) b h(4), of env] h(5,6) unfolding t disburses_def by blast
qed

lemma liquidate_keeps:
  assumes "liquidate tc env a i m (w, s) = Ok (u, w', t)" "synth_inv s"
  shows "\<exists>x. synth_inv t \<and> owed t \<le> owed s - x \<and> CollateralToken t = CollateralToken s \<and> disburses tc env a x w w' s"
proof -
  obtain p asset tok x b r where h: "0 < m" "CollateralPositions s i = Some p" "m \<le> minted_amount p"
      "Assets s (cp_symbol p) = Some asset" "CollateralToken s = Some tok"
      "tc tok (subcall_env env tok) (current_contract env) a r w = Some w'"
      and r: "calculate_liquidation_reward m x (collateral_amount p) (minted_amount p) b = Ok r"
    and t: "t = without_debt env i p m r asset s"
    using synth_liquidate_Ok [OF assms(1)] by blast
  have "0 \<le> collateral_amount p" using synth_invD(3) [OF assms(2) h(2)] by (simp add: cp_ok_def)
  note b = reward_bounds [OF r this h(3)]
  show ?thesis
    using without_debt_keeps [OF assms(2) h(2,1,3) conjunct1 [OF b] conjunct2 [OF b] h(4), of env] h(5,6)
    unfolding t disburses_def by blast
qed

text \<open>Trades.\<close>

lemma trade_table_keeps:
  assumes "synth_inv s" "t = s\<lparr>PositionCounter := n, TradingPositions := (TradingPositions s)(i := v)\<rparr>"
    "get_position_counter s \<le> get_position_counter t" "\<And>p. v = Some p \<Longrightarrow> tp_ok t i p" "is_initialized s"
  shows "synth_inv t \<and> CollateralToken t = CollateralToken s \<and>
    owed t = owed s - value_at margin_held (TradingPositions s i) + value_at margin_held v"
proof -
  note D = synth_invD [OF assms(1)]
  have "cp_ok t j x" if "CollateralPositions t j = Some x" for j x
    using that D(3) [of j x] assms(3) by (auto simp: assms(2) cp_ok_def)
  moreover have "tp_ok t j x" if "TradingPositions t j = Some x" for j x
    using that D(4) [of j x] assms(3,4) by (auto simp: assms(2) tp_ok_def split: if_splits)
  moreover have "is_initialized t" "params_ok t = params_ok s"
    using assms(5) by (simp_all add: assms(2) is_initialized_def params_ok_def)
  ultimately show ?thesis
    using D(1,2,5,6) assms(5) total_of_upd [OF D(2), of margin_held i v] unfolding synth_inv_def owed_def
    by (auto simp: assms(2))
qed

lemma open_trade_keeps:
  assumes "open_trade tc env a y d mgn lev (w, s) = Ok (i, w', t)" "synth_inv s"
  shows "synth_inv t \<and> owed t = owed s + mgn \<and> CollateralToken t = CollateralToken s \<and> collects tc env a mgn w w' s"
proof -
  obtain x p where h: "0 < mgn" "Assets s y \<noteq> None" "i = get_position_counter s" "collects tc env a mgn w w' s"
    and p: "p = \<lparr>tp_user = a, tp_symbol = y, direction = d, entry_price = x, margin = mgn, leverage = lev,
       notional = (mgn * int lev) sdiv 10000, tp_id = i, is_open = True, tp_created_at = timestamp env\<rparr>"
    and t: "t = s\<lparr>PositionCounter := Some (i + 1), TradingPositions := (TradingPositions s)(i := Some p)\<rparr>"
    using open_trade_Ok [OF assms(1)] unfolding collects_def by blast
  have "get_position_counter t = get_position_counter s + 1" using h(3) by (simp add: t get_position_counter_def)
  then show ?thesis
    using trade_table_keeps [OF assms(2) t] new_position_slot [OF assms(2)] initialised_if_asset [OF assms(2) h(2)] h p
    by (auto simp: tp_ok_def t margin_held_def)
qed

lemma close_trade_keeps:
  assumes "close_trade tc env a i (w, s) = Ok (n, w', t)" "synth_inv s"
  shows "\<exists>p. TradingPositions s i = Some p \<and> synth_inv t \<and> owed t = owed s - margin p \<and>
    CollateralToken t = CollateralToken s \<and> 0 \<le> n \<and> (n = 0 \<and> w' = w \<or> disburses tc env a n w w' s)"
proof -
  obtain p pnl where h: "TradingPositions s i = Some p" "is_open p" "n = max 0 (margin p + pnl)"
    and c: "if margin p + pnl \<le> 0 then w' = w \<and> t = s\<lparr>TradingPositions := (TradingPositions s)(i := None)\<rparr>
     else (\<exists>tok. CollateralToken s = Some tok \<and>
       tc tok (subcall_env env tok) (current_contract env) a n w = Some w') \<and>
       t = s\<lparr>TradingPositions := (TradingPositions s)(i \<mapsto> p\<lparr>is_open := False\<rparr>)\<rparr>"
    using close_trade_Ok [OF assms(1)] by blast
  note p = synth_invD(4) [OF assms(2) h(1)]
  have ini: "is_initialized s" using p initialised_if_asset [OF assms(2)] by (auto simp: tp_ok_def)
  define v where "v = (if margin p + pnl \<le> 0 then None else Some (p\<lparr>is_open := False\<rparr>))"
  have t: "t = s\<lparr>PositionCounter := PositionCounter s, TradingPositions := (TradingPositions s)(i := v)\<rparr>"
    using c by (simp add: v_def)
  have "tp_ok t i q" if "v = Some q" for q
    using that p by (auto simp: v_def t tp_ok_def get_position_counter_def split: if_splits)
  moreover have "get_position_counter t = get_position_counter s" by (simp add: t get_position_counter_def)
  ultimately have "synth_inv t \<and> CollateralToken t = CollateralToken s \<and> owed t = owed s - margin p"
    using trade_table_keeps [OF assms(2) t _ _ ini] h(1,2) by (simp add: v_def margin_held_def)
  then show ?thesis using h c by (auto simp: disburses_def split: if_splits)
qed

section \<open>Runs\<close>

definition pool_inv ::
    "('w \<Rightarrow> address \<Rightarrow> address \<Rightarrow> int) \<Rightarrow> (address \<Rightarrow> 'w \<Rightarrow> bool) \<Rightarrow> address \<Rightarrow> 'w \<times> synth_state \<times> int \<Rightarrow> bool" where
  "pool_inv balance_of ok self c \<longleftrightarrow> (case c of (w, s, p) \<Rightarrow> ok self w \<and> synth_inv s \<and>
     (case CollateralToken s of None \<Rightarrow> p = 0 | Some tok \<Rightarrow> owed s \<le> balance_of w tok self + p))"

lemma synth_token_keeps:
  assumes "synth_token tc env (w, s) (w', t)" "synth_inv s"
  shows "synth_inv t \<and> CollateralToken t = CollateralToken s \<and>
    (\<exists>a x. collects tc env a x w w' s \<and> owed t = owed s + x \<or> disburses tc env a x w w' s \<and> owed t \<le> owed s - x)"
  using assms(1)
proof cases
  case (mint c m a y u)
  then show ?thesis using synth_mint_keeps [OF mint(3) assms(2)] by blast
next
  case (add c a i u)
  then show ?thesis using synth_add_keeps [OF add(2) assms(2)] by blast
next
  case (burn m a i u)
  then show ?thesis using burn_keeps [OF burn(2) assms(2)] by blast
next
  case (liquidate m a i u)
  then show ?thesis using liquidate_keeps [OF liquidate(2) assms(2)] by blast
next
  case (open_position mgn a y d lev i)
  then show ?thesis using open_trade_keeps [OF open_position(2) assms(2)] by blast
qed

context token_host
begin

lemma collects_balance:
  assumes "collects transfer_call env a x w w' s" "\<not> auth env self" "current_contract env = self" "CollateralToken s = Some tok"
    "world_ok self w"
  shows "world_ok self w' \<and> balance_of w' tok self = balance_of w tok self + x"
proof -
  have c: "transfer_call tok (subcall_env env tok) a self x w = Some w'" "a \<noteq> self"
    using assms by (auto simp: collects_def)
  show ?thesis using transfer_keeps_ok [OF assms(5) c(1)] leg_in [OF c] by simp
qed

lemma disburses_balance:
  assumes "disburses transfer_call env a x w w' s" "current_contract env = self" "CollateralToken s = Some tok" "world_ok self w"
  shows "world_ok self w' \<and> balance_of w tok self - x \<le> balance_of w' tok self"
proof -
  have c: "transfer_call tok (subcall_env env tok) self a x w = Some w'"
    using assms by (auto simp: disburses_def)
  show ?thesis using transfer_keeps_ok [OF assms(4) c] leg_out_ge [OF c, of tok] by simp
qed

lemma synth_step_keeps:
  assumes "synth_step transfer_call (outside self) self ws wt" "pool_inv balance_of world_ok self ws"
  shows "pool_inv balance_of world_ok self wt"
  using assms
proof (induction rule: synth_step.induct)
  case (book env s t w p)
  have i: "world_ok self w" "synth_inv s" using book.prems by (simp_all add: pool_inv_def)
  note k = synth_book_inv [OF book.hyps(3) i(2)]
  show ?case
  proof (cases "is_initialized s")
    case True
    then show ?thesis using k book.prems by (auto simp: pool_inv_def split: option.splits)
  next
    case False
    then have "p = 0" "owed s = 0"
      using synth_invD(7) [OF i(2)] book.prems uninitialised_has_no_positions [OF i(2)] by (auto simp: pool_inv_def)
    then show ?thesis using k i own_balance_nonneg [OF i(1)] by (simp add: pool_inv_def split: option.split)
  qed
next
  case (tokens env w s w' t p)
  have i: "world_ok self w" "synth_inv s" using tokens.prems by (simp_all add: pool_inv_def)
  note k = synth_token_keeps [OF tokens.hyps(3) i(2)]
  then obtain tok where tok: "CollateralToken s = Some tok" by (auto simp: collects_def disburses_def)
  have "owed s \<le> balance_of w tok self + p" using tokens.prems tok by (simp add: pool_inv_def)
  moreover have "world_ok self w' \<and> owed t + balance_of w tok self \<le> owed s + balance_of w' tok self"
    using k collects_balance [OF _ tokens.hyps(1,2) tok i(1)] disburses_balance [OF _ tokens.hyps(2) tok i(1)]
    by fastforce
  ultimately show ?case using k tok by (simp add: pool_inv_def)
next
  case (close env i s pos a w paid w' t p)
  have i: "world_ok self w" "synth_inv s" using close.prems by (simp_all add: pool_inv_def)
  have pos: "TradingPositions s i = Some pos" using close.hyps(3) by (simp add: get_trading_position_info_def)
  have k: "synth_inv t" "owed t = owed s - margin pos" "CollateralToken t = CollateralToken s" "0 \<le> paid"
    "paid = 0 \<and> w' = w \<or> disburses transfer_call env a paid w w' s"
    using close_trade_keeps [OF close.hyps(4) i(2)] pos by auto
  have "is_initialized s" using initialised_if_asset [OF i(2)] synth_invD(4) [OF i(2) pos] by (auto simp: tp_ok_def)
  then obtain tok where tok: "CollateralToken s = Some tok" using synth_invD(6) [OF i(2)] by auto
  have "owed s \<le> balance_of w tok self + p" using close.prems tok by (simp add: pool_inv_def)
  moreover have "world_ok self w' \<and> balance_of w tok self - paid \<le> balance_of w' tok self"
    using k(5) i(1) disburses_balance [OF _ close.hyps(2) tok i(1)] by auto
  ultimately show ?case using k tok by (simp add: pool_inv_def)
next
  case (other w w' s p)
  then show ?case
    using outside_ok [of self w w'] outside_keeps [of self w w']
    by (auto simp: pool_inv_def split: option.splits intro: order_trans)
qed

lemma synth_run_keeps:
  assumes "(synth_step transfer_call (outside self) self)\<^sup>*\<^sup>* (w0, empty_synth, 0) c" "world_ok self w0"
  shows "pool_inv balance_of world_ok self c"
  using assms(1)
proof (induction rule: rtranclp_induct)
  case base
  then show ?case using assms(2) synth_inv_empty by (simp add: pool_inv_def empty_synth_def)
next
  case (step c d)
  then show ?case by (blast intro: synth_step_keeps)
qed

end

end
