(* ===== verification/Synthetic_Correct.thy ===== *)
theory Synthetic_Correct
  imports Synthetic_Books_Correct
begin

text \<open>
  The properties of the synthetic assets: the pool is the counterparty of every trade, a mint or burn
  never leaves a position liquidatable, the largest mintable amount is exact, trades settle exactly,
  and what a liquidation takes.
\<close>

abbreviation repo_synth_step ::
    "address \<Rightarrow> token_world \<times> synth_state \<times> int \<Rightarrow> token_world \<times> synth_state \<times> int \<Rightarrow> bool" where
  "repo_synth_step self \<equiv> synth_step world_transfer (world_outside self) self"

lemma reachable_synth:
  assumes "(repo_synth_step self)\<^sup>*\<^sup>* (w0, empty_synth, 0) (w, s, p)" "world_ok self w0"
  shows "synth_inv s" "world_ok self w" "CollateralToken s = Some tok \<Longrightarrow> owed s \<le> world_balance w tok self + p"
  using repo_host.synth_run_keeps [OF assms] by (auto simp: pool_inv_def)

section \<open>Ratios\<close>

lemma price_internal_pos: "get_price_internal env y s = Ok x \<Longrightarrow> 0 < x"
  by (auto simp: get_price_internal_def split: option.splits if_splits)

lemma price_internal_cong: "Prices t = Prices s \<Longrightarrow> get_price_internal env y t = get_price_internal env y s"
  by (simp add: get_price_internal_def get_price_def)

lemma required_Ok:
  assumes "calculate_required_collateral m x r = Ok req"
  shows "0 < m \<and> 0 < x \<and> req = (m * x * int r + 999999999999) div 1000000000000"
  using assms by (auto simp: calculate_required_collateral_def PRICE_SCALE_def split: if_splits)

lemma required_le:
  assumes "calculate_required_collateral m x r = Ok req"
  shows "req \<le> c \<longleftrightarrow> m * x * int r \<le> c * 1000000000000"
  using required_Ok [OF assms] ceil_div_le_iff [of 1000000000000 "m * x * int r" c] by (simp add: add.commute)

text \<open>A position whose ratio is at least the minimum is not liquidatable.\<close>

lemma ratio_of_required:
  assumes "m * x * int r \<le> c * 1000000000000" "0 < m" "0 < x" "r \<le> 50000" "calculate_collateral_ratio c m x = Ok ratio"
  shows "int r \<le> ratio"
proof (cases "(m * x) div 100000000 = 0")
  case True
  then show ?thesis using assms by (auto simp: calculate_collateral_ratio_def PRICE_SCALE_def MAX_COLLATERAL_RATIO_def)
next
  case False
  let ?d = "(m * x) div 100000000"
  have "0 \<le> m * x" using assms(2,3) by simp
  then have "0 \<le> ?d" by (simp add: pos_imp_zdiv_nonneg_iff)
  then have d: "0 < ?d" using False by simp
  have "?d * 100000000 \<le> m * x" by (rule div_mult_le) simp
  then have "?d * 100000000 * int r \<le> m * x * int r" by (rule mult_right_mono) simp
  then have le: "int r * ?d \<le> c * 10000" using assms(1) by (simp add: algebra_simps)
  have "0 \<le> int r * ?d" using d by simp
  then have "0 \<le> c * 10000" using le by linarith
  then have "ratio = min ((c * 10000) div ?d) MAX_COLLATERAL_RATIO"
    using assms(2,3,5) d by (auto simp: calculate_collateral_ratio_def PRICE_SCALE_def)
  moreover have "int r \<le> (c * 10000) div ?d" using le d by (simp add: le_div_iff_mult)
  ultimately show ?thesis using assms(4) by (simp add: MAX_COLLATERAL_RATIO_def)
qed

definition safe_at :: "int \<Rightarrow> synth_state \<Rightarrow> CollateralPosition \<Rightarrow> bool" where
  "safe_at x s p \<longleftrightarrow> (\<forall>ratio. calculate_collateral_ratio (collateral_amount p) (minted_amount p) x = Ok ratio \<longrightarrow>
     (\<exists>r. MinCollateralRatio s = Some r \<and> int r \<le> ratio))"

lemma safe_not_liquidatable:
  assumes "synth_inv s" "safe_at x s p" "is_initialized s"
  shows "is_above_liquidation_threshold p x s \<noteq> Ok True"
proof
  assume "is_above_liquidation_threshold p x s = Ok True"
  then obtain th ratio where h: "LiquidationThreshold s = Some th" "ratio \<le> int th"
    "calculate_collateral_ratio (collateral_amount p) (minted_amount p) x = Ok ratio"
    by (auto simp: is_above_liquidation_threshold_def)
  obtain r where r: "MinCollateralRatio s = Some r" "int r \<le> ratio" using assms(2) h(3) unfolding safe_at_def by blast
  have "th < r" using synth_invD(6) [OF assms(1,3)] r(1) h(1) by (auto simp: params_ok_def)
  then show False using r(2) h(2) by simp
qed

lemma mint_safe:
  assumes "mint_synthetic tc env a y c m (w, s) = Ok (u, w', t)" "synth_inv s"
  shows "\<exists>p x. CollateralPositions t (get_position_counter s) = Some p \<and> cp_symbol p = y \<and>
    get_price_internal env y t = Ok x \<and> safe_at x t p"
proof -
  obtain asset x r req where h: "0 < m" "get_price_internal env y s = Ok x" "MinCollateralRatio s = Some r"
    "calculate_required_collateral m x r = Ok req" "req \<le> c" "Assets s y = Some asset"
    and t: "t = s\<lparr>PositionCounter := Some (get_position_counter s + 1),
      CollateralPositions := (CollateralPositions s)(get_position_counter s \<mapsto> \<lparr>cp_user = a, cp_symbol = y,
        collateral_amount = c, minted_amount = m, cp_id = get_position_counter s, cp_created_at = timestamp env,
        last_updated = timestamp env\<rparr>),
      Assets := (Assets s)(y \<mapsto> asset\<lparr>total_supply := total_supply asset + m\<rparr>)\<rparr>"
    using synth_mint_Ok [OF assms(1)] by blast
  have "is_initialized s" using initialised_if_asset [OF assms(2)] h(6) by blast
  then have r: "r \<le> 50000" using synth_invD(6) [OF assms(2)] h(3) by (auto simp: params_ok_def)
  have "int r \<le> ratio" if "calculate_collateral_ratio c m x = Ok ratio" for ratio
    using ratio_of_required [OF _ h(1) price_internal_pos [OF h(2)] r that] required_le [OF h(4)] h(5) by blast
  moreover have "get_price_internal env y t = Ok x" using h(2) price_internal_cong [of t s] by (simp add: t)
  ultimately show ?thesis using h(3) by (simp add: t safe_at_def)
qed

lemma partial_burn_safe:
  assumes "burn_synthetic tc env a i m (w, s) = Ok (u, w', t)" "get_position i t = Ok q"
  shows "\<exists>x. get_price_internal env (cp_symbol q) t = Ok x \<and> safe_at x t q"
proof -
  obtain p asset where h: "CollateralPositions s i = Some p"
    and t: "t = without_debt env i p m ((m * collateral_amount p) sdiv minted_amount p) asset s"
    and c: "minted_amount p = m \<or> (\<exists>x r ratio. get_price_internal env (cp_symbol p) s = Ok x \<and> MinCollateralRatio s = Some r \<and>
       calculate_collateral_ratio (collateral_amount p - (m * collateral_amount p) sdiv minted_amount p)
         (minted_amount p - m) x = Ok ratio \<and> int r \<le> ratio)"
    using synth_burn_Ok [OF assms(1)] by blast
  have "minted_amount p \<noteq> m" and q: "q = reduced env m ((m * collateral_amount p) sdiv minted_amount p) p"
    using assms(2) by (auto simp: get_position_def t without_debt_def split: if_splits)
  then obtain x r ratio where "get_price_internal env (cp_symbol p) s = Ok x" "MinCollateralRatio s = Some r"
    "calculate_collateral_ratio (collateral_amount q) (minted_amount q) x = Ok ratio" "int r \<le> ratio"
    using c by (auto simp: reduced_def)
  moreover have "cp_symbol q = cp_symbol p" "MinCollateralRatio t = MinCollateralRatio s" "Prices t = Prices s"
    by (simp_all add: q reduced_def t without_debt_def)
  ultimately show ?thesis using price_internal_cong [of t s] by (auto simp: safe_at_def)
qed

section \<open>A concrete run\<close>

text \<open>
  Holder 5 mints against 300000 units, trader 8 goes long with ten times 250000, the price rises by
  ten per cent and the trader takes the profit.
\<close>

definition demo_gold :: SyntheticAsset where
  "demo_gold = \<lparr>sa_symbol = ''GOLD'', sa_name = ''Gold'', decimals = 7, total_supply = 0\<rparr>"

definition demo_synth :: synth_state where
  "demo_synth = empty_synth\<lparr>Admin := Some 1, Oracle := Some 7, CollateralToken := Some 40, Initialized := Some True,
     PositionCounter := Some 1, MinCollateralRatio := Some 15000, LiquidationThreshold := Some 12000,
     LiquidationBonus := Some 500, FeePercentage := Some 100\<rparr>"

definition demo_synth_gold :: synth_state where
  "demo_synth_gold = demo_synth\<lparr>Assets := [''GOLD'' \<mapsto> demo_gold], AssetSymbols := Some [''GOLD''],
     Prices := [''GOLD'' \<mapsto> \<lparr>price = 100000000, price_time = 10, confidence = 100\<rparr>]\<rparr>"

definition demo_debt :: CollateralPosition where
  "demo_debt = \<lparr>cp_user = 5, cp_symbol = ''GOLD'', collateral_amount = 300000, minted_amount = 200000, cp_id = 1,
     cp_created_at = 20, last_updated = 20\<rparr>"

definition demo_synth_minted :: synth_state where
  "demo_synth_minted = demo_synth_gold\<lparr>PositionCounter := Some 2, CollateralPositions := [1 \<mapsto> demo_debt],
     Assets := [''GOLD'' \<mapsto> demo_gold\<lparr>total_supply := 200000\<rparr>]\<rparr>"

definition demo_trade :: TradingPosition where
  "demo_trade = \<lparr>tp_user = 8, tp_symbol = ''GOLD'', direction = Long, entry_price = 100000000, margin = 250000,
     leverage = 100000, notional = 2500000, tp_id = 2, is_open = True, tp_created_at = 30\<rparr>"

definition demo_synth_traded :: synth_state where
  "demo_synth_traded = demo_synth_minted\<lparr>PositionCounter := Some 3, TradingPositions := [2 \<mapsto> demo_trade]\<rparr>"

definition demo_synth_risen :: synth_state where
  "demo_synth_risen = demo_synth_traded\<lparr>
     Prices := [''GOLD'' \<mapsto> \<lparr>price = 110000000, price_time = 40, confidence = 90\<rparr>]\<rparr>"

definition demo_synth_closed :: synth_state where
  "demo_synth_closed = demo_synth_risen\<lparr>TradingPositions := [2 \<mapsto> demo_trade\<lparr>is_open := False\<rparr>]\<rparr>"

lemmas demo_synth_states = demo_synth_gold_def demo_synth_minted_def demo_synth_traded_def demo_synth_risen_def
  demo_synth_closed_def demo_synth_def empty_synth_def
lemmas demo_synth_records = demo_gold_def demo_debt_def demo_trade_def
lemmas synth_arith = checked_add_def checked_sub_def checked_mul_def checked_div_def in_i128_def i128_max_def
  i128_min_def u64_max_def u64_checked_add_def

definition rich_minted :: "address \<rightharpoonup> int" where "rich_minted = moved 5 99 300000 rich_holdings"
definition rich_traded :: "address \<rightharpoonup> int" where "rich_traded = moved 8 99 250000 rich_minted"
definition rich_closed :: "address \<rightharpoonup> int" where "rich_closed = moved 99 8 500000 rich_traded"
lemmas rich_states = rich_minted_def rich_traded_def rich_closed_def rich_holdings_def

definition rich_log :: "token_event list" where
  "rich_log = [Ev_Mint 5 600000, Ev_Mint 8 400000]"

lemma demo_price:
  "get_price_internal (host_env 20) ''GOLD'' demo_synth_gold = Ok 100000000"
  "get_price_internal (host_env 30) ''GOLD'' demo_synth_minted = Ok 100000000"
  "get_price_internal (host_env 50) ''GOLD'' demo_synth_risen = Ok 110000000"
  by (simp_all add: get_price_internal_def get_price_def demo_synth_states u64_checked_add_def MAX_PRICE_AGE_def
      u64_max_def MIN_CONFIDENCE_def MIN_PRICE_def MAX_PRICE_def i128_max_def)

lemma demo_synth_initialize:
  "initialize (host_env 1) 1 7 40 15000 12000 500 100 empty_synth = Ok ((), demo_synth)"
  by (simp add: initialize_def is_initialized_def synth_setters require_auth_def demo_synth_def empty_synth_def)

lemma demo_synth_register:
  "register_synthetic_asset (host_env 10) ''GOLD'' ''Gold'' 7 100000000 demo_synth = Ok ((), demo_synth_gold)"
  by (simp add: register_synthetic_asset_def synth_getters synth_setters get_registered_asset_symbols_def
      require_auth_def demo_synth_states demo_gold_def Let_def)

lemma demo_synth_mint:
  "mint_synthetic world_transfer (host_env 20) 5 ''GOLD'' 300000 200000 (rich_world rich_holdings rich_log, demo_synth_gold) =
     Ok ((), rich_world rich_minted (rich_log @ [Ev_Transfer 5 99 300000]), demo_synth_minted)"
proof -
  have "world_transfer 40 (subcall_env (host_env 20) 40) 5 99 300000 (rich_world rich_holdings rich_log) =
     Some (rich_world rich_minted (rich_log @ [Ev_Transfer 5 99 300000]))"
    unfolding rich_minted_def by (rule rich_transfer) (simp_all add: bal_moved rich_holdings_def synth_arith)
  then show ?thesis
    using demo_price(1)
    by (simp add: mint_synthetic_def synth_getters synth_setters increment_position_counter_def get_position_counter_def
        require_auth_def demo_synth_states demo_synth_records calculate_required_collateral_def PRICE_SCALE_def
        synth_arith Let_def)
qed

lemma demo_synth_open:
  "open_trade world_transfer (host_env 30) 8 ''GOLD'' Long 250000 100000
     (rich_world rich_minted (rich_log @ [Ev_Transfer 5 99 300000]), demo_synth_minted) =
     Ok (2, rich_world rich_traded (rich_log @ [Ev_Transfer 5 99 300000, Ev_Transfer 8 99 250000]), demo_synth_traded)"
proof -
  have "world_transfer 40 (subcall_env (host_env 30) 40) 8 99 250000 (rich_world rich_minted (rich_log @ [Ev_Transfer 5 99 300000])) =
     Some (rich_world rich_traded ((rich_log @ [Ev_Transfer 5 99 300000]) @ [Ev_Transfer 8 99 250000]))"
    unfolding rich_traded_def by (rule rich_transfer) (simp_all add: bal_moved rich_states synth_arith)
  then show ?thesis
    using demo_price(2)
    by (simp add: open_trade_def synth_getters synth_setters increment_position_counter_def get_position_counter_def
        require_auth_def demo_synth_states demo_synth_records calculate_margin_requirement_def MIN_TRADE_MARGIN_def
        synth_arith Let_def)
qed

lemma demo_synth_price_up:
  "update_price (host_env 40) ''GOLD'' 110000000 90 demo_synth_traded = Ok ((), demo_synth_risen)"
  by (simp add: update_price_def update_price_internal_def validate_price_def calculate_price_deviation_def
      synth_getters synth_setters require_auth_def demo_synth_states MIN_PRICE_def MAX_PRICE_def MIN_CONFIDENCE_def
      MAX_SINGLE_UPDATE_DEVIATION_def synth_arith u32_max_def Let_def)

lemma demo_synth_close:
  "close_trade world_transfer (host_env 50) 8 2
     (rich_world rich_traded (rich_log @ [Ev_Transfer 5 99 300000, Ev_Transfer 8 99 250000]), demo_synth_risen) =
     Ok (500000, rich_world rich_closed (rich_log @ [Ev_Transfer 5 99 300000, Ev_Transfer 8 99 250000, Ev_Transfer 99 8 500000]),
       demo_synth_closed)"
proof -
  have "world_transfer 40 (subcall_env (host_env 50) 40) 99 8 500000
      (rich_world rich_traded (rich_log @ [Ev_Transfer 5 99 300000, Ev_Transfer 8 99 250000])) =
     Some (rich_world rich_closed ((rich_log @ [Ev_Transfer 5 99 300000, Ev_Transfer 8 99 250000]) @ [Ev_Transfer 99 8 500000]))"
    unfolding rich_closed_def by (rule rich_transfer) (simp_all add: bal_moved rich_states synth_arith)
  then show ?thesis
    using demo_price(3)
    by (simp add: close_trade_def should_liquidate_trading_position_def calculate_pnl_def synth_getters synth_setters
        require_auth_def demo_synth_states demo_synth_records synth_arith Let_def)
qed

lemma demo_synth_burn_fails:
  "burn_synthetic world_transfer (host_env 60) 5 1 200000 (rich_world rich_closed l, demo_synth_closed) = Trap CallFailed"
proof -
  have "world_transfer 40 (subcall_env (host_env 60) 40) 99 5 300000 (rich_world rich_closed l) = None"
    by (auto simp: world_transfer_def transfer_def move_balance_def rich_world_def rich_token_def rich_states moved_def
        Let_def get_balance_def demo_token1_def Token_Contract.is_initialized_def require_auth_def split: outcome.splits)
  then show ?thesis
    by (simp add: burn_synthetic_def synth_getters synth_setters require_auth_def demo_synth_states demo_synth_records
        synth_arith Let_def)
qed

text \<open>The price rises further and the position falls below the liquidation threshold.\<close>

definition demo_synth_high :: synth_state where
  "demo_synth_high = demo_synth_risen\<lparr>
     Prices := [''GOLD'' \<mapsto> \<lparr>price = 130000000, price_time = 50, confidence = 90\<rparr>]\<rparr>"

lemma demo_synth_price_high:
  "update_price (host_env 50) ''GOLD'' 130000000 90 demo_synth_risen = Ok ((), demo_synth_high)"
  by (simp add: update_price_def update_price_internal_def validate_price_def calculate_price_deviation_def
      synth_getters synth_setters require_auth_def demo_synth_states demo_synth_high_def MIN_PRICE_def MAX_PRICE_def
      MIN_CONFIDENCE_def MAX_SINGLE_UPDATE_DEVIATION_def synth_arith u32_max_def Let_def)

lemma demo_synth_liquidate:
  "\<exists>w' t. liquidate world_transfer (host_env 60) 8 1 200000
      (rich_world rich_traded (rich_log @ [Ev_Transfer 5 99 300000, Ev_Transfer 8 99 250000]), demo_synth_high) = Ok ((), w', t)"
proof -
  have x: "get_price_internal (host_env 60) ''GOLD'' demo_synth_high = Ok 130000000"
    by (simp add: get_price_internal_def get_price_def demo_synth_states demo_synth_high_def u64_checked_add_def
        MAX_PRICE_AGE_def u64_max_def MIN_CONFIDENCE_def MIN_PRICE_def MAX_PRICE_def i128_max_def)
  have "world_transfer 40 (subcall_env (host_env 60) 40) 99 8 300000
      (rich_world rich_traded (rich_log @ [Ev_Transfer 5 99 300000, Ev_Transfer 8 99 250000])) =
     Some (rich_world (moved 99 8 300000 rich_traded) ((rich_log @ [Ev_Transfer 5 99 300000, Ev_Transfer 8 99 250000]) @ [Ev_Transfer 99 8 300000]))"
    by (rule rich_transfer) (simp_all add: bal_moved rich_states synth_arith)
  then show ?thesis
    using x
    by (simp add: liquidate_def synth_getters synth_setters require_auth_def demo_synth_high_def demo_synth_states
        demo_synth_records is_above_liquidation_threshold_def calculate_collateral_ratio_def PRICE_SCALE_def
        MAX_COLLATERAL_RATIO_def calculate_liquidation_reward_def synth_arith Let_def)
qed

lemma demo_synth_run_minted:
  "(repo_synth_step 99)\<^sup>*\<^sup>* (rich_ledger, empty_synth, 0)
     (rich_world rich_minted (rich_log @ [Ev_Transfer 5 99 300000]), demo_synth_minted, 0)"
proof -
  have l: "rich_ledger = rich_world rich_holdings rich_log" by (simp add: rich_ledger_def rich_log_def)
  have "repo_synth_step 99 (rich_ledger, empty_synth, 0) (rich_ledger, demo_synth, 0)"
    by (rule synth_step.book [OF _ _ synth_book.initialize [OF demo_synth_initialize]]) simp_all
  moreover have "repo_synth_step 99 (rich_ledger, demo_synth, 0) (rich_ledger, demo_synth_gold, 0)"
    by (rule synth_step.book [OF _ _ synth_book.register_asset [OF _ demo_synth_register]]) (simp_all add: synth_arith)
  moreover have "repo_synth_step 99 (rich_ledger, demo_synth_gold, 0)
      (rich_world rich_minted (rich_log @ [Ev_Transfer 5 99 300000]), demo_synth_minted, 0)"
    unfolding l by (rule synth_step.tokens [OF _ _ synth_token.mint [OF _ _ demo_synth_mint]]) (simp_all add: synth_arith)
  ultimately show ?thesis by (meson rtranclp.rtrancl_refl rtranclp.rtrancl_into_rtrancl)
qed

lemma demo_synth_run_risen:
  "(repo_synth_step 99)\<^sup>*\<^sup>* (rich_ledger, empty_synth, 0)
     (rich_world rich_traded (rich_log @ [Ev_Transfer 5 99 300000, Ev_Transfer 8 99 250000]), demo_synth_risen, 0)"
proof -
  let ?w = "rich_world rich_traded (rich_log @ [Ev_Transfer 5 99 300000, Ev_Transfer 8 99 250000])"
  have "repo_synth_step 99 (rich_world rich_minted (rich_log @ [Ev_Transfer 5 99 300000]), demo_synth_minted, 0)
      (?w, demo_synth_traded, 0)"
    by (rule synth_step.tokens [OF _ _ synth_token.open_position [OF _ demo_synth_open]]) (simp_all add: synth_arith)
  moreover have "repo_synth_step 99 (?w, demo_synth_traded, 0) (?w, demo_synth_risen, 0)"
    by (rule synth_step.book [OF _ _ synth_book.price_update [OF _ demo_synth_price_up]]) (simp_all add: synth_arith)
  ultimately show ?thesis using demo_synth_run_minted by (meson rtranclp.rtrancl_into_rtrancl)
qed

lemma demo_synth_run_closed:
  "(repo_synth_step 99)\<^sup>*\<^sup>* (rich_ledger, empty_synth, 0)
     (rich_world rich_closed (rich_log @ [Ev_Transfer 5 99 300000, Ev_Transfer 8 99 250000, Ev_Transfer 99 8 500000]),
      demo_synth_closed, 250000)"
proof -
  have "repo_synth_step 99
      (rich_world rich_traded (rich_log @ [Ev_Transfer 5 99 300000, Ev_Transfer 8 99 250000]), demo_synth_risen, 0)
      (rich_world rich_closed (rich_log @ [Ev_Transfer 5 99 300000, Ev_Transfer 8 99 250000, Ev_Transfer 99 8 500000]),
       demo_synth_closed, 0 + 500000 - margin demo_trade)"
    by (rule synth_step.close [OF _ _ _ demo_synth_close])
      (simp_all add: get_trading_position_info_def get_trading_position_def demo_synth_states)
  then show ?thesis using demo_synth_run_risen by (simp add: demo_trade_def)
qed

section \<open>Properties\<close>

text \<open>
  C17. The pool is the counterparty of every trade: in every state reachable without a call of
  \<open>update_collateral_token\<close> the contract's balance of the collateral token plus the net profits it has paid to traders covers all collateral and all open margins, so without
  net profits of traders it is solvent; and each asset's recorded supply is the sum of the debts of
  the open positions in it. (After the admin has
  switched the collateral token, balances of the old token back positions that are paid in the new
  one, and the claim can be false.)
\<close>

theorem synth_pool_is_counterparty:
  assumes "(repo_synth_step self)\<^sup>*\<^sup>* (w0, empty_synth, 0) (w, s, p)" "world_ok self w0"
    "get_collateral_token_address s = Ok tok"
  shows "owed s \<le> world_balance w tok self + p \<and>
    (\<forall>y a. get_asset y s = Ok a \<longrightarrow> total_supply a = total_of (debt_in y) (CollateralPositions s)) \<and>
    (\<forall>i q. get_position i s = Ok q \<longrightarrow> 0 < minted_amount q \<and> 0 \<le> collateral_amount q \<and> collateral_amount q \<le> owed s)"
proof -
  note R = reachable_synth [OF assms(1,2)]
  note D = synth_invD [OF R(1)]
  have "collateral_amount q \<le> owed s" if "CollateralPositions s i = Some q" for i q
  proof -
    have "collateral_amount q \<le> total_of collateral_amount (CollateralPositions s)"
      by (rule total_of_ge [OF D(1) that]) (use D(3) in \<open>auto simp: cp_ok_def\<close>)
    moreover have "0 \<le> total_of margin_held (TradingPositions s)"
      by (rule total_of_nonneg) (use D(4) in \<open>fastforce simp: tp_ok_def margin_held_def\<close>)
    ultimately show ?thesis by (simp add: owed_def)
  qed
  then show ?thesis
    using R(3) D(3,5) assms(3) by (auto simp: get_collateral_token_address_def get_asset_def get_position_def cp_ok_def)
qed

theorem synth_pool_is_counterparty_witness:
  "owed demo_synth_risen \<le> world_balance (rich_world rich_traded (rich_log @ [Ev_Transfer 5 99 300000, Ev_Transfer 8 99 250000])) 40 99 \<and>
    200000 = total_of (debt_in ''GOLD'') (CollateralPositions demo_synth_risen)"
proof -
  have tok: "get_collateral_token_address demo_synth_risen = Ok 40"
    by (simp add: get_collateral_token_address_def demo_synth_states)
  have "get_asset ''GOLD'' demo_synth_risen = Ok (demo_gold\<lparr>total_supply := 200000\<rparr>)"
    by (simp add: get_asset_def demo_synth_states)
  then show ?thesis
    using synth_pool_is_counterparty [OF demo_synth_run_risen rich_ledger_ok tok] by force
qed

text \<open>
  The profits of a trader are paid out of other users' collateral: in a reachable state the
  contract holds less than it owes, and the holder of a fully collateralised position who burns all
  of the debt cannot get the collateral back.
\<close>

theorem trader_profit_drains_collateral:
  "\<exists>w s. (repo_synth_step 99)\<^sup>*\<^sup>* (rich_ledger, empty_synth, 0) (w, s, 250000) \<and>
     world_balance w 40 99 = 50000 \<and> owed s = 300000 \<and>
     get_position 1 s = Ok demo_debt \<and> burn_synthetic world_transfer (host_env 60) 5 1 (minted_amount demo_debt) (w, s) = Trap CallFailed"
proof -
  let ?w = "rich_world rich_closed (rich_log @ [Ev_Transfer 5 99 300000, Ev_Transfer 8 99 250000, Ev_Transfer 99 8 500000])"
  have "world_balance ?w 40 99 = 50000" by (simp add: rich_balance bal_moved rich_states)
  moreover have "owed demo_synth_closed = 300000"
    by (simp add: owed_def demo_synth_states demo_synth_records total_of_upd margin_held_def)
  moreover have "get_position 1 demo_synth_closed = Ok demo_debt" by (simp add: get_position_def demo_synth_states)
  moreover have "minted_amount demo_debt = 200000" by (simp add: demo_debt_def)
  ultimately show ?thesis using demo_synth_run_closed demo_synth_burn_fails by metis
qed

text \<open>
  C18. Neither a mint nor a partial burn (in a state reachable without \<open>update_collateral_token\<close>) leaves a
  position that can be liquidated: right after the call, at the same time and price, the position is not reported as liquidatable (at most the
  computation of its ratio fails) and every attempt to liquidate it fails.
\<close>

theorem synth_mint_never_liquidatable:
  assumes "(repo_synth_step self)\<^sup>*\<^sup>* (w0, empty_synth, 0) (w, s, p)" "world_ok self w0"
    "mint_synthetic world_transfer env a y c m (w, s) = Ok (u, w', t) \<and> i = get_position_counter s \<or>
     burn_synthetic world_transfer env a i m (w, s) = Ok (u, w', t) \<and> get_position i t = Ok q"
  shows "is_liquidatable env i t \<in> {Ok False, Err Overflow, Err DivisionByZero} \<and>
    liquidate tc env b i n (v, t) \<noteq> Ok r"
proof -
  note R = reachable_synth [OF assms(1,2)]
  have t: "synth_inv t" using assms(3) by (auto dest: synth_mint_keeps [OF _ R(1)] burn_keeps [OF _ R(1)])
  obtain q x where q: "CollateralPositions t i = Some q" "get_price_internal env (cp_symbol q) t = Ok x" "safe_at x t q"
    using assms(3)
  proof (elim disjE conjE)
    assume b: "mint_synthetic world_transfer env a y c m (w, s) = Ok (u, w', t)" "i = get_position_counter s"
    show ?thesis using mint_safe [OF b(1) R(1)] b(2) that by auto
  next
    assume b: "burn_synthetic world_transfer env a i m (w, s) = Ok (u, w', t)" "get_position i t = Ok q"
    then show ?thesis using partial_burn_safe [OF b] that [of q] by (auto simp: get_position_def)
  qed
  have ini: "is_initialized t"
    using synth_invD(3) [OF t q(1)] initialised_if_asset [OF t] by (auto simp: cp_ok_def)
  have no: "is_above_liquidation_threshold q x t \<noteq> Ok True" by (rule safe_not_liquidatable [OF t q(3) ini])
  have "minted_amount q \<noteq> 0" "x \<noteq> 0" using synth_invD(3) [OF t q(1)] price_internal_pos [OF q(2)] by (auto simp: cp_ok_def)
  then have "is_above_liquidation_threshold q x t \<in> {Ok False, Ok True, Err Overflow, Err DivisionByZero}"
    using synth_invD(6) [OF t ini]
    by (auto simp: is_above_liquidation_threshold_def calculate_collateral_ratio_def params_ok_def get_liquidation_threshold_def
        ok_or_def and_then_def split: outcome.splits option.splits if_splits)
  then have "is_liquidatable env i t \<in> {Ok False, Err Overflow, Err DivisionByZero}"
    using no q by (auto simp: is_liquidatable_def get_collateral_position_def)
  moreover have "liquidate tc env b i n (v, t) \<noteq> Ok r"
  proof
    assume l: "liquidate tc env b i n (v, t) = Ok r"
    obtain e v' t' where "r = (e, v', t')" by (cases r)
    then show False using synth_liquidate_Ok [of tc env b i n v t e v' t'] l q no by auto
  qed
  ultimately show ?thesis by blast
qed

theorem synth_mint_never_liquidatable_witness:
  "is_liquidatable (host_env 20) 1 demo_synth_minted \<in> {Ok False, Err Overflow, Err DivisionByZero} \<and>
    liquidate world_transfer (host_env 20) 8 1 200000 (rich_ledger, demo_synth_minted) \<noteq> Ok ((), rich_ledger, demo_synth)"
proof -
  have l: "rich_ledger = rich_world rich_holdings rich_log" by (simp add: rich_ledger_def rich_log_def)
  have run: "(repo_synth_step 99)\<^sup>*\<^sup>* (rich_ledger, empty_synth, 0) (rich_ledger, demo_synth_gold, 0)"
  proof -
    have "repo_synth_step 99 (rich_ledger, empty_synth, 0) (rich_ledger, demo_synth, 0)"
      by (rule synth_step.book [OF _ _ synth_book.initialize [OF demo_synth_initialize]]) simp_all
    moreover have "repo_synth_step 99 (rich_ledger, demo_synth, 0) (rich_ledger, demo_synth_gold, 0)"
      by (rule synth_step.book [OF _ _ synth_book.register_asset [OF _ demo_synth_register]]) (simp_all add: synth_arith)
    ultimately show ?thesis by (meson rtranclp.rtrancl_refl rtranclp.rtrancl_into_rtrancl)
  qed
  have n: "get_position_counter demo_synth_gold = 1" by (simp add: get_position_counter_def demo_synth_states)
  show ?thesis
    by (rule synth_mint_never_liquidatable [OF run rich_ledger_ok, where c = 300000 and m = 200000 and a = 5 and y = "''GOLD''"
          and w' = "rich_world rich_minted (rich_log @ [Ev_Transfer 5 99 300000])" and q = demo_debt])
      (simp_all add: n demo_synth_mint [folded l] synth_arith)
qed

text \<open>
  C19. The largest mintable amount is exact: \<open>get_max_mintable\<close> and the collateral required for a mint,
  which round in opposite directions, agree on every amount, so a mint against this collateral
  succeeds only up to the reported maximum and is never refused for lack of collateral below it
  (in the states reachable without \<open>update_collateral_token\<close>).
\<close>

theorem max_mintable_exact:
  assumes "(repo_synth_step self)\<^sup>*\<^sup>* (w0, empty_synth, 0) (w, s, p)" "world_ok self w0"
    "get_max_mintable env y c s = Ok k" "get_price_internal env y s = Ok x" "get_min_collateral_ratio s = Ok r"
    "calculate_required_collateral m x r = Ok req"
  shows "(req \<le> c \<longleftrightarrow> m \<le> k) \<and>
    (\<forall>a v. mint_synthetic tc env a y c m (w, s) = Ok v \<longrightarrow> m \<le> k) \<and>
    (m \<le> k \<longrightarrow> (\<forall>a. mint_synthetic tc env a y c m (w, s) \<noteq> Err InsufficientCollateral))"
proof -
  note R = reachable_synth [OF assms(1,2)]
  have r: "MinCollateralRatio s = Some r" using assms(5) by simp
  have reg: "Assets s y \<noteq> None" using assms(3) by (auto simp: get_max_mintable_def has_synthetic_asset_def split: if_splits)
  then have "params_ok s" using synth_invD(6) [OF R(1) initialised_if_asset [OF R(1) reg]] by blast
  then have r0: "0 < int r" using r by (auto simp: params_ok_def)
  note q = required_Ok [OF assms(6)]
  let ?d = "x * int r"
  have d: "0 < ?d" using q r0 by simp
  have k: "k = (c * 100000000 * 10000) sdiv ?d"
    using assms(3,4) r reg q by (auto simp: get_max_mintable_def calculate_max_mint_amount_def has_synthetic_asset_def PRICE_SCALE_def)
  have iff: "req \<le> c \<longleftrightarrow> m \<le> k"
  proof (cases "0 \<le> c")
    case True
    then have "k = (c * 1000000000000) div ?d" using d k by (simp add: mult.assoc)
    then show ?thesis using required_le [OF assms(6), of c] le_div_iff_mult [OF d, of m "c * 1000000000000"] by (simp add: mult.assoc)
  next
    case False
    have "k \<le> 0" unfolding k by (rule sdiv_nonpos) (use False d in auto)
    moreover have "c * 1000000000000 < 0" "0 < m * x * int r" using False q r0 by simp_all
    ultimately show ?thesis using required_le [OF assms(6), of c] q by linarith
  qed
  have "req \<le> c" if minted: "mint_synthetic tc env a y c m (w, s) = Ok v" for a v
  proof -
    obtain u w' t where v: "v = (u, w', t)" by (cases v)
    obtain x' r' req' where h: "get_price_internal env y s = Ok x'" "MinCollateralRatio s = Some r'"
      "calculate_required_collateral m x' r' = Ok req'" "req' \<le> c"
      using synth_mint_Ok [OF minted [unfolded v]] by blast
    then show ?thesis using assms(4,6) r by simp
  qed
  moreover have "mint_synthetic tc env a y c m (w, s) \<noteq> Err InsufficientCollateral" if "req \<le> c" for a
    using assms(4,6) r that
    by (auto simp: mint_synthetic_def require_auth_def synth_getters increment_position_counter_def Let_def split: if_splits)
  ultimately show ?thesis using iff by blast
qed

theorem max_mintable_exact_witness:
  "get_max_mintable (host_env 20) ''GOLD'' 300000 demo_synth_minted = Ok 200000 \<and>
    (\<forall>a. mint_synthetic world_transfer (host_env 20) a ''GOLD'' 300000 200000
      (rich_world rich_minted (rich_log @ [Ev_Transfer 5 99 300000]), demo_synth_minted) \<noteq> Err InsufficientCollateral)"
proof -
  have x: "get_price_internal (host_env 20) ''GOLD'' demo_synth_minted = Ok 100000000"
    using demo_price(1) price_internal_cong [of demo_synth_minted demo_synth_gold] by (simp add: demo_synth_minted_def)
  have k: "get_max_mintable (host_env 20) ''GOLD'' 300000 demo_synth_minted = Ok 200000"
    using x by (simp add: get_max_mintable_def synth_getters calculate_max_mint_amount_def PRICE_SCALE_def demo_synth_states synth_arith)
  have r: "get_min_collateral_ratio demo_synth_minted = Ok 15000" by (simp add: demo_synth_states)
  have q: "calculate_required_collateral 200000 100000000 15000 = Ok 300000"
    by (simp add: calculate_required_collateral_def PRICE_SCALE_def synth_arith)
  show ?thesis using max_mintable_exact [OF demo_synth_run_minted rich_ledger_ok k x r q] k by blast
qed

text \<open>
  A trade settles exactly: whoever closes it is its owner, who gets margin plus price change
  times notional over entry price, rounded toward zero, or nothing when the margin is lost; the trade
  was opened with a leverage between one and ten and its own margin, and it settles only once.
\<close>

theorem trade_settles_exactly:
  assumes "open_trade tc env a y d mgn lev (w, s) = Ok (i, w', t)" "get_trading_position_info i t = Ok q"
    "get_trading_position_info i t2 = Ok q" "get_validated_asset_price env2 y t2 = Ok x2"
    "close_trade tc env2 b i (w2, t2) = Ok (paid, w3, t3)"
  shows "b = a \<and> auth env2 a \<and> 10000 \<le> leverage q \<and> leverage q \<le> 100000 \<and> MIN_TRADE_MARGIN \<le> mgn \<and>
    notional q = (mgn * int lev) sdiv 10000 \<and>
    paid = max 0 (mgn + ((if d = Long then x2 - entry_price q else entry_price q - x2) * notional q) sdiv entry_price q) \<and>
    (\<forall>env3 c v r. close_trade tc env3 c i (v, t3) \<noteq> Ok r)"
proof -
  obtain x where h: "10000 \<le> lev" "lev \<le> 100000" "MIN_TRADE_MARGIN \<le> mgn"
    and t: "t = s\<lparr>PositionCounter := Some (i + 1), TradingPositions := (TradingPositions s)(i \<mapsto>
      \<lparr>tp_user = a, tp_symbol = y, direction = d, entry_price = x, margin = mgn, leverage = lev,
       notional = (mgn * int lev) sdiv 10000, tp_id = i, is_open = True, tp_created_at = timestamp env\<rparr>)\<rparr>"
    using open_trade_Ok [OF assms(1)] by blast
  have q: "q = \<lparr>tp_user = a, tp_symbol = y, direction = d, entry_price = x, margin = mgn, leverage = lev,
       notional = (mgn * int lev) sdiv 10000, tp_id = i, is_open = True, tp_created_at = timestamp env\<rparr>"
    using assms(2) by (simp add: t get_trading_position_info_def)
  have q2: "TradingPositions t2 i = Some q" using assms(3) by (simp add: get_trading_position_info_def)
  obtain x' pnl where c: "auth env2 b" "tp_user q = b" "get_price_internal env2 y t2 = Ok x'" "calculate_pnl q x' = Ok pnl"
      "paid = max 0 (margin q + pnl)"
    and t3: "if margin q + pnl \<le> 0 then w3 = w2 \<and> t3 = t2\<lparr>TradingPositions := (TradingPositions t2)(i := None)\<rparr>
     else (\<exists>tok. CollateralToken t2 = Some tok \<and>
       tc tok (subcall_env env2 tok) (current_contract env2) b paid w2 = Some w3) \<and>
       t3 = t2\<lparr>TradingPositions := (TradingPositions t2)(i \<mapsto> q\<lparr>is_open := False\<rparr>)\<rparr>"
    using close_trade_Ok [OF assms(5)] q2 q by auto
  have "x' = x2" using c(3) assms(4) by (simp add: get_validated_asset_price_def)
  then have p: "pnl = ((if d = Long then x2 - x else x - x2) * notional q) sdiv x"
    using c(4) by (cases d) (auto simp: q calculate_pnl_def split: if_splits)
  have once: "close_trade tc env3 e i (v, t3) \<noteq> Ok r" for env3 e v r
  proof
    assume "close_trade tc env3 e i (v, t3) = Ok r"
    moreover obtain n v' u where "r = (n, v', u)" by (cases r)
    ultimately obtain z where "TradingPositions t3 i = Some z" "is_open z"
      using close_trade_Ok [of tc env3 e i v t3 n v' u] by blast
    then show False using t3 by (auto split: if_splits)
  qed
  then show ?thesis using h c p by (auto simp: q)
qed

theorem trade_settles_exactly_witness:
  "500000 = max 0 (250000 + ((110000000 - 100000000) * notional demo_trade) sdiv 100000000) \<and>
    (\<forall>env3 c v r. close_trade world_transfer env3 c 2 (v, demo_synth_closed) \<noteq> Ok r)"
proof -
  have q: "get_trading_position_info 2 demo_synth_traded = Ok demo_trade" "get_trading_position_info 2 demo_synth_risen = Ok demo_trade"
    by (simp_all add: get_trading_position_info_def demo_synth_states)
  have x: "get_validated_asset_price (host_env 50) ''GOLD'' demo_synth_risen = Ok 110000000"
    using demo_price(3) by (simp add: get_validated_asset_price_def)
  show ?thesis
    using trade_settles_exactly [OF demo_synth_open q x demo_synth_close] by (simp add: demo_trade_def)
qed

text \<open>
  A liquidation asks for no repayment: the caller of a successful liquidation receives the
  reward, at least the share of the collateral that belongs to the debt named, and loses nothing in
  any token, while that debt is struck from the position and from the recorded supply.
\<close>

theorem liquidation_takes_no_repayment:
  assumes "(repo_synth_step self)\<^sup>*\<^sup>* (w0, empty_synth, 0) (w, s, p)" "world_ok self w0"
    "current_contract env = self" "l \<noteq> self" "get_position i s = Ok q"
    "liquidate world_transfer env l i m (w, s) = Ok (u, w', t)"
  shows "\<exists>tok reward. get_collateral_token_address s = Ok tok \<and> 0 < reward \<and>
    (m * collateral_amount q) div minted_amount q \<le> reward \<and>
    world_balance w' tok l = world_balance w tok l + reward \<and>
    (\<forall>k. world_balance w k l \<le> world_balance w' k l) \<and>
    get_position i t = (if m = minted_amount q then Err PositionNotFound else Ok (reduced env m reward q)) \<and>
    (\<exists>a. get_asset (cp_symbol q) s = Ok a \<and> get_asset (cp_symbol q) t = Ok (a\<lparr>total_supply := total_supply a - m\<rparr>))"
proof -
  note R = reachable_synth [OF assms(1,2)]
  have q: "CollateralPositions s i = Some q" using assms(5) by (simp add: get_position_def)
  obtain asset tok x b reward where h: "0 < m" "m \<le> minted_amount q"
      "calculate_liquidation_reward m x (collateral_amount q) (minted_amount q) b = Ok reward"
      "Assets s (cp_symbol q) = Some asset" "CollateralToken s = Some tok"
      "world_transfer tok (subcall_env env tok) (current_contract env) l reward w = Some w'"
    and t: "t = without_debt env i q m reward asset s"
    using synth_liquidate_Ok [OF assms(6)] q by auto
  note g = repo_token.transfer_guard [OF h(6)] and d = repo_token.deposit_effect [OF h(6)] and
    f = repo_token.transfer_frame [OF h(6)]
  have ne: "current_contract env \<noteq> l" using assms(3,4) by simp
  have bal: "world_balance w' tok l = world_balance w tok l + reward" using d(1) [OF ne] by simp
  then have "world_balance w k l \<le> world_balance w' k l" for k using g f by (cases "k = tok") auto
  moreover have "(m * collateral_amount q) div minted_amount q \<le> reward"
  proof -
    have cq: "0 \<le> collateral_amount q" using synth_invD(3) [OF R(1) q] by (simp add: cp_ok_def)
    let ?sh = "(m * collateral_amount q) sdiv minted_amount q"
    have sh: "0 \<le> ?sh" "?sh \<le> collateral_amount q" by (rule share_bounds [OF h(1,2) cq])+
    then have "0 \<le> (?sh * int b) sdiv 10000" by (simp add: pos_imp_zdiv_nonneg_iff)
    then have "?sh \<le> reward" using h(3) sh(2) by (auto simp: calculate_liquidation_reward_def Let_def split: if_splits)
    then show ?thesis using h(1,2) cq by simp
  qed
  ultimately show ?thesis
    using g bal h(4,5)
    by (intro exI [of _ tok] exI [of _ reward])
      (auto simp: get_collateral_token_address_def get_position_def get_collateral_position_def get_asset_def t
        without_debt_def ok_or_def)
qed

theorem liquidation_takes_no_repayment_witness:
  "\<exists>w' t reward. liquidate world_transfer (host_env 60) 8 1 200000
      (rich_world rich_traded (rich_log @ [Ev_Transfer 5 99 300000, Ev_Transfer 8 99 250000]), demo_synth_high) = Ok ((), w', t) \<and>
    300000 \<le> reward \<and> world_balance w' 40 8 = 150000 + reward \<and> get_position 1 t = Err PositionNotFound"
proof -
  let ?w = "rich_world rich_traded (rich_log @ [Ev_Transfer 5 99 300000, Ev_Transfer 8 99 250000])"
  have "repo_synth_step 99 (?w, demo_synth_risen, 0) (?w, demo_synth_high, 0)"
    by (rule synth_step.book [OF _ _ synth_book.price_update [OF _ demo_synth_price_high]]) (simp_all add: synth_arith)
  then have run: "(repo_synth_step 99)\<^sup>*\<^sup>* (rich_ledger, empty_synth, 0) (?w, demo_synth_high, 0)"
    using demo_synth_run_risen by (meson rtranclp.rtrancl_into_rtrancl)
  obtain w' t where l: "liquidate world_transfer (host_env 60) 8 1 200000 (?w, demo_synth_high) = Ok ((), w', t)"
    using demo_synth_liquidate by blast
  have q: "get_position 1 demo_synth_high = Ok demo_debt" by (simp add: get_position_def demo_synth_high_def demo_synth_states)
  have tok: "get_collateral_token_address demo_synth_high = Ok 40"
    by (simp add: get_collateral_token_address_def demo_synth_high_def demo_synth_states)
  obtain tok' reward where h: "get_collateral_token_address demo_synth_high = Ok tok'"
      "(200000 * collateral_amount demo_debt) div minted_amount demo_debt \<le> reward"
      "world_balance w' tok' 8 = world_balance ?w tok' 8 + reward"
      "get_position 1 t = (if 200000 = minted_amount demo_debt then Err PositionNotFound else Ok (reduced (host_env 60) 200000 reward demo_debt))"
    using liquidation_takes_no_repayment [OF run rich_ledger_ok _ _ q l] by auto
  have "world_balance ?w 40 8 = 150000" by (simp add: rich_balance bal_moved rich_states)
  moreover have "tok' = 40" using h(1) tok by simp
  ultimately show ?thesis
    using h(2-4) l by (intro exI [of _ w'] exI [of _ t] exI [of _ reward]) (simp add: demo_debt_def)
qed

text \<open>
  The price feed moves slowly: whatever single call changes the stored price of a registered
  asset carries the oracle's signature, moves it by less than 20.01 per cent and stays within the
  bounds, and no other entry point stores a price; a price older than 300 seconds is not used.
\<close>

theorem oracle_price_bounded:
  assumes "synth_book env s t" "get_asset y s = Ok a" "get_asset_price y s = Ok d" "get_asset_price y t = Ok d'" "d' \<noteq> d"
  shows "(\<exists>orc. get_oracle s = Ok orc \<and> auth env orc) \<and> price_time d' = timestamp env \<and>
    \<bar>price d' - price d\<bar> * 10000 < 2001 * price d \<and> MIN_PRICE \<le> price d' \<and> price d' \<le> MAX_PRICE \<and>
    (\<forall>env'. timestamp env + MAX_PRICE_AGE < timestamp env' \<longrightarrow> \<not> is_ok (get_validated_asset_price env' y t))"
  using assms(1)
proof cases
  case (price_update x z c u)
  obtain orc where p: "Oracle s = Some orc" "auth env orc" "MIN_PRICE \<le> x" "x \<le> MAX_PRICE"
    "\<forall>d. Prices s z = Some d \<longrightarrow> 0 < price d \<and> (\<bar>x - price d\<bar> * 10000) div price d \<le> int MAX_SINGLE_UPDATE_DEVIATION"
    and t: "t = s\<lparr>Prices := (Prices s)(z \<mapsto> \<lparr>price = x, price_time = timestamp env, confidence = c\<rparr>)\<rparr>"
    using update_price_Ok [OF price_update(2)] by blast
  have z: "z = y" "d' = \<lparr>price = x, price_time = timestamp env, confidence = c\<rparr>"
    using assms(3-5) by (auto simp: t get_asset_price_def split: if_splits)
  have d: "0 < price d" "(\<bar>x - price d\<bar> * 10000) div price d < 2001"
    using p(5) assms(3) z(1) by (auto simp: get_asset_price_def MAX_SINGLE_UPDATE_DEVIATION_def)
  have "\<not> 2001 \<le> (\<bar>x - price d\<bar> * 10000) div price d" using d(2) by simp
  then have "\<bar>x - price d\<bar> * 10000 < 2001 * price d" using le_div_iff_mult [OF d(1)] by (simp add: not_le)
  moreover have "\<not> is_ok (get_validated_asset_price env' y t)" if "timestamp env + MAX_PRICE_AGE < timestamp env'" for env'
    using that assms(4) z by (auto simp: get_validated_asset_price_def get_price_internal_def get_asset_price_def split: option.splits if_splits)
  ultimately show ?thesis using p z by (simp add: get_oracle_def)
next
  case (register_asset x z nm dd u)
  then show ?thesis using register_Ok [OF register_asset(2)] assms(2-5) by (auto simp: get_asset_def get_asset_price_def split: if_splits)
next
  case (initialize a orc tok r th b f u)
  then show ?thesis using synth_initialize_Ok [OF initialize] assms(3-5) by (auto simp: get_asset_price_def)
next
  case (set_oracle a u)
  then show ?thesis using assms(3-5) by (auto simp: get_asset_price_def update_oracle_def synth_setters)
next
  case (set_params r th b f u)
  then show ?thesis using params_Ok [OF set_params] assms(3-5) by (auto simp: get_asset_price_def)
next
  case (price_expires z)
  then show ?thesis using assms(3-5) by (auto simp: get_asset_price_def split: if_splits)
qed

theorem oracle_price_bounded_witness:
  "\<bar>110000000 - 100000000\<bar> * 10000 < (2001 :: int) * 100000000 \<and>
    \<not> is_ok (get_validated_asset_price (host_env 341) ''GOLD'' demo_synth_risen)"
proof -
  have b: "synth_book (host_env 40) demo_synth_traded demo_synth_risen"
    by (rule synth_book.price_update [OF _ demo_synth_price_up]) (simp add: synth_arith)
  show ?thesis
    using oracle_price_bounded [OF b, of "''GOLD''" "demo_gold\<lparr>total_supply := 200000\<rparr>"
      "\<lparr>price = 100000000, price_time = 10, confidence = 100\<rparr>" "\<lparr>price = 110000000, price_time = 40, confidence = 90\<rparr>"]
    by (simp add: get_asset_def get_asset_price_def demo_synth_states MAX_PRICE_AGE_def)
qed

end
