(* ===== verification/Options_Protocol.thy ===== *)
theory Options_Protocol
  imports Soroban_Prelude
begin

text \<open>
  The options of \<open>contracts/options-protocol\<close>: fixed-point Black-Scholes arithmetic (\<open>src/math.rs\<close>),
  storage accessors (\<open>src/storage.rs\<close>, \<open>src/types.rs\<close>) and every entry point of \<open>src/lib.rs\<close>. The
  settlement token is another contract: its \<open>transfer\<close> is the parameter \<open>tc\<close>.
\<close>

section \<open>Types and storage\<close>

datatype OptionKind = Call | Put

datatype OptionStatus = Active | Exercised | Expired | Cancelled | MarginCalled

datatype option_error =
    AlreadyInitialized | NotInitialized | Unauthorized | OptionNotFound | OptionNotActive | OptionExpired
  | OptionNotExpired | InvalidStrike | InvalidPremium | InvalidAmount | InvalidExpiry | ContractPaused
  | WriterCannotBeHolder | PoolAlreadyConfigured | PoolNotConfigured | InvalidMarginConfig | InvalidPrice
  | StalePrice | InsufficientMargin | PositionNotCollateralized | EuropeanOnly | InvalidMaxPayout
  | InvalidVolatility | InvalidRate | InvalidTimeToExpiry | MathOverflow | MarginCallNotActive

record GreeksInput =
  gi_spot_price :: int
  gi_strike_price :: int
  volatility :: int
  risk_free_rate :: int
  time_to_expiry :: nat
  gi_kind :: OptionKind

record Greeks =
  g_price :: int
  delta :: int
  gamma :: int
  vega :: int
  theta :: int
  rho :: int

record MarginConfig =
  settlement_token :: address
  mc_oracle :: address
  maintenance_margin_bps :: nat
  max_price_age :: nat

record MarginAccount =
  ma_balance :: int
  ma_locked :: int

record MarginPosition =
  mp_locked :: int
  max_payout :: int

record PriceData =
  pd_price :: int
  updated_at :: nat

record OptionContract =
  opt_id :: nat
  writer :: address
  holder :: address
  underlying :: string
  strike_price :: int
  premium :: int
  opt_amount :: int
  expiry :: nat
  kind :: OptionKind
  opt_status :: OptionStatus

datatype option_event =
    Ev_init address | Ev_paused bool | Ev_margincfg MarginConfig | Ev_price string PriceData | Ev_deposit address int
  | Ev_withdraw address int | Ev_written nat address address | Ev_collatopt nat address address int
  | Ev_cancelled nat address | Ev_cancelled_by_both nat address address | Ev_exercised nat address int | Ev_expired nat
  | Ev_margcall nat int | Ev_marginok nat int | Ev_settled nat address int int

record option_state =
  Admin :: "address option"
  OptionCount :: "nat option"
  Paused :: "bool option"
  MarginConfigEntry :: "MarginConfig option"
  Options :: "nat \<rightharpoonup> OptionContract"
  MarginAccounts :: "address \<rightharpoonup> MarginAccount"
  MarginPositions :: "nat \<rightharpoonup> MarginPosition"
  Prices :: "string \<rightharpoonup> PriceData"
  events :: "option_event list"

definition empty_options :: option_state where
  "empty_options = \<lparr>Admin = None, OptionCount = None, Paused = None, MarginConfigEntry = None, Options = Map.empty,
     MarginAccounts = Map.empty, MarginPositions = Map.empty, Prices = Map.empty, events = []\<rparr>"

definition publish :: "option_event \<Rightarrow> option_state \<Rightarrow> option_state" where
  "publish e s = s\<lparr>events := events s @ [e]\<rparr>"

definition is_initialized :: "option_state \<Rightarrow> bool" where
  "is_initialized s = (Admin s \<noteq> None)"
definition set_admin :: "address \<Rightarrow> option_state \<Rightarrow> option_state" where
  "set_admin a s = s\<lparr>Admin := Some a\<rparr>"
definition get_admin :: "option_state \<Rightarrow> (option_error, address) outcome" where
  "get_admin s = ok_or NotInitialized (Admin s)"
definition is_paused :: "option_state \<Rightarrow> bool" where
  "is_paused s = unwrap_or False (Paused s)"
definition set_paused :: "bool \<Rightarrow> option_state \<Rightarrow> option_state" where
  "set_paused b s = s\<lparr>Paused := Some b\<rparr>"
definition get_option_count :: "option_state \<Rightarrow> nat" where
  "get_option_count s = unwrap_or 0 (OptionCount s)"
definition set_option_count :: "nat \<Rightarrow> option_state \<Rightarrow> option_state" where
  "set_option_count n s = s\<lparr>OptionCount := Some n\<rparr>"
definition set_option :: "OptionContract \<Rightarrow> option_state \<Rightarrow> option_state" where
  "set_option c s = s\<lparr>Options := (Options s)(opt_id c \<mapsto> c)\<rparr>"
definition get_option :: "option_state \<Rightarrow> nat \<Rightarrow> (option_error, OptionContract) outcome" where
  "get_option s i = ok_or OptionNotFound (Options s i)"
definition has_margin_config :: "option_state \<Rightarrow> bool" where
  "has_margin_config s = (MarginConfigEntry s \<noteq> None)"
definition set_margin_config :: "MarginConfig \<Rightarrow> option_state \<Rightarrow> option_state" where
  "set_margin_config c s = s\<lparr>MarginConfigEntry := Some c\<rparr>"
definition get_margin_config :: "option_state \<Rightarrow> (option_error, MarginConfig) outcome" where
  "get_margin_config s = ok_or PoolNotConfigured (MarginConfigEntry s)"
definition get_margin_account :: "option_state \<Rightarrow> address \<Rightarrow> MarginAccount" where
  "get_margin_account s a = unwrap_or \<lparr>ma_balance = 0, ma_locked = 0\<rparr> (MarginAccounts s a)"
definition set_margin_account :: "address \<Rightarrow> MarginAccount \<Rightarrow> option_state \<Rightarrow> option_state" where
  "set_margin_account a c s = s\<lparr>MarginAccounts := (MarginAccounts s)(a \<mapsto> c)\<rparr>"
definition get_margin_position :: "option_state \<Rightarrow> nat \<Rightarrow> (option_error, MarginPosition) outcome" where
  "get_margin_position s i = ok_or PositionNotCollateralized (MarginPositions s i)"
definition has_margin_position :: "option_state \<Rightarrow> nat \<Rightarrow> bool" where
  "has_margin_position s i = (MarginPositions s i \<noteq> None)"
definition set_margin_position :: "nat \<Rightarrow> MarginPosition \<Rightarrow> option_state \<Rightarrow> option_state" where
  "set_margin_position i p s = s\<lparr>MarginPositions := (MarginPositions s)(i \<mapsto> p)\<rparr>"
definition remove_margin_position :: "nat \<Rightarrow> option_state \<Rightarrow> option_state" where
  "remove_margin_position i s = s\<lparr>MarginPositions := (MarginPositions s)(i := None)\<rparr>"
definition set_price :: "string \<Rightarrow> PriceData \<Rightarrow> option_state \<Rightarrow> option_state" where
  "set_price u d s = s\<lparr>Prices := (Prices s)(u \<mapsto> d)\<rparr>"
definition get_price :: "option_state \<Rightarrow> string \<Rightarrow> (option_error, PriceData) outcome" where
  "get_price s u = ok_or InvalidPrice (Prices s u)"

lemmas option_getters =
  is_initialized_def get_admin_def get_option_def has_margin_config_def get_margin_config_def get_margin_position_def
  has_margin_position_def get_price_def
lemmas option_setters =
  set_admin_def set_paused_def set_option_count_def set_option_def set_margin_config_def set_margin_account_def
  set_margin_position_def remove_margin_position_def set_price_def publish_def

section \<open>Fixed-point arithmetic\<close>

definition SCALE :: int where "SCALE = 10000000"
definition SECONDS_PER_YEAR :: int where "SECONDS_PER_YEAR = 31557600"
definition LN_2 :: int where "LN_2 = 6931472"
definition INV_SQRT_2_PI :: int where "INV_SQRT_2_PI = 3989423"
definition MAX_EXP_INPUT :: int where "MAX_EXP_INPUT = 200000000"

definition math_add :: "int \<Rightarrow> int \<Rightarrow> (option_error, int) outcome" where
  "math_add a b = ok_or MathOverflow (checked_add a b)"
definition math_sub :: "int \<Rightarrow> int \<Rightarrow> (option_error, int) outcome" where
  "math_sub a b = ok_or MathOverflow (checked_sub a b)"
definition math_mul :: "int \<Rightarrow> int \<Rightarrow> (option_error, int) outcome" where
  "math_mul a b = ok_or MathOverflow (Option.bind (checked_mul a b) (\<lambda>v. checked_div v SCALE))"
definition math_div :: "int \<Rightarrow> int \<Rightarrow> (option_error, int) outcome" where
  "math_div a b =
     (if b = 0 then Err MathOverflow
      else ok_or MathOverflow (Option.bind (checked_mul a SCALE) (\<lambda>v. checked_div v b)))"

text \<open>Unary minus and \<open>abs\<close> of \<open>i128\<close>, and \<open>1i128 << n\<close>, which panic out of range.\<close>

definition i128_neg :: "int \<Rightarrow> ('e, int) outcome" where
  "i128_neg x = i128_sub 0 x"
definition i128_abs :: "int \<Rightarrow> ('e, int) outcome" where
  "i128_abs x = (if x < 0 then i128_neg x else Ok x)"
definition i128_one_shl :: "int \<Rightarrow> ('e, int) outcome" where
  "i128_one_shl n =
     (if 0 \<le> n \<and> n < 127 then Ok (2 ^ nat n) else if n = 127 then Ok i128_min else Trap ArithmeticOverflow)"

function sqrt_loop :: "int \<Rightarrow> int \<Rightarrow> int \<Rightarrow> (option_error, int) outcome" where
  "sqrt_loop v x y =
     (if y < x then
        and_then (i128_div v y) (\<lambda>q.
        and_then (i128_add y q) (\<lambda>s.
        and_then (i128_div s 2) (\<lambda>y'. sqrt_loop v y y')))
      else Ok x)"
  by pat_completeness auto
termination
  by (relation "measure (\<lambda>(v, x, y). if y < x then Suc (nat (x - i128_min)) else 0)")
    (auto simp: in_i128_def)

declare sqrt_loop.simps [simp del]

definition integer_sqrt :: "int \<Rightarrow> (option_error, int) outcome" where
  "integer_sqrt v =
     (if v < 0 then Err MathOverflow
      else if v < 2 then Ok v
      else
        and_then (i128_add v 1) (\<lambda>x1.
        and_then (i128_div x1 2) (\<lambda>y. sqrt_loop v v y)))"

definition sqrt :: "int \<Rightarrow> (option_error, int) outcome" where
  "sqrt v = and_then (ok_or MathOverflow (checked_mul v SCALE)) (\<lambda>scaled. integer_sqrt scaled)"

text \<open>
  The two range reductions of \<open>ln\<close>. The second runs on positive values only (\<open>ln\<close> has refused the
  others), which its condition repeats so that the recursion ends.
\<close>

function ln_halve :: "int \<Rightarrow> int \<Rightarrow> int \<times> int" where
  "ln_halve v e = (if v \<ge> 2 * SCALE then ln_halve (v sdiv 2) (e + 1) else (v, e))"
  by pat_completeness auto
termination
  by (relation "measure (\<lambda>(v, e). nat v)") (auto simp: SCALE_def)

function ln_double :: "int \<Rightarrow> int \<Rightarrow> (option_error, int \<times> int) outcome" where
  "ln_double v e =
     (if 0 < v \<and> v < SCALE then and_then (ok_or MathOverflow (checked_mul v 2)) (\<lambda>v'. ln_double v' (e - 1)) else Ok (v, e))"
  by pat_completeness auto
termination
  by (relation "measure (\<lambda>(v, e). nat (SCALE - v))") auto

declare ln_halve.simps [simp del] ln_double.simps [simp del]

fun ln_series :: "int \<Rightarrow> int list \<Rightarrow> int \<Rightarrow> int \<Rightarrow> (option_error, int) outcome" where
  "ln_series z2 [] trm acc = Ok acc"
| "ln_series z2 (d # ds) trm acc =
     and_then (math_mul trm z2) (\<lambda>trm'.
     and_then (i128_div trm' d) (\<lambda>q.
     and_then (math_add acc q) (\<lambda>acc'. ln_series z2 ds trm' acc')))"

definition ln :: "int \<Rightarrow> (option_error, int) outcome" where
  "ln value =
     (if value \<le> 0 then Err MathOverflow
      else
        let (v1, e1) = ln_halve value 0 in
        and_then (ln_double v1 e1) (\<lambda>(v, e).
        and_then (i128_sub v SCALE) (\<lambda>a.
        and_then (i128_add v SCALE) (\<lambda>b.
        and_then (math_div a b) (\<lambda>z.
        and_then (math_mul z z) (\<lambda>z2.
        and_then (ln_series z2 [3, 5, 7, 9, 11, 13] z z) (\<lambda>acc.
        and_then (ok_or MathOverflow (checked_mul acc 2)) (\<lambda>twice.
        and_then (i128_mul e LN_2) (\<lambda>shift. math_add twice shift)))))))))"

fun exp_series :: "int \<Rightarrow> int list \<Rightarrow> int \<Rightarrow> int \<Rightarrow> (option_error, int) outcome" where
  "exp_series reduced [] trm acc = Ok acc"
| "exp_series reduced (n # ns) trm acc =
     and_then (math_mul trm reduced) (\<lambda>m.
     and_then (i128_div m n) (\<lambda>trm'.
     and_then (math_add acc trm') (\<lambda>acc'. exp_series reduced ns trm' acc')))"

definition exp :: "int \<Rightarrow> (option_error, int) outcome" where
  "exp value =
     (if \<not> (- MAX_EXP_INPUT \<le> value \<and> value \<le> MAX_EXP_INPUT) then Err MathOverflow
      else
        and_then (i128_div value LN_2) (\<lambda>exponent.
        and_then (i128_mul exponent LN_2) (\<lambda>p.
        and_then (i128_sub value p) (\<lambda>reduced.
        and_then (exp_series reduced [1..20] SCALE SCALE) (\<lambda>acc.
        if exponent \<ge> 0 then
          and_then (i128_one_shl exponent) (\<lambda>k. ok_or MathOverflow (checked_mul acc k))
        else
          and_then (i128_neg exponent) (\<lambda>n.
          and_then (i128_one_shl n) (\<lambda>k. i128_div acc k)))))))"

definition normal_pdf :: "int \<Rightarrow> (option_error, int) outcome" where
  "normal_pdf v =
     and_then (math_mul v v) (\<lambda>squared.
     and_then (i128_neg squared) (\<lambda>n.
     and_then (i128_div n 2) (\<lambda>h.
     and_then (exp h) (\<lambda>e. math_mul INV_SQRT_2_PI e))))"

definition cdf_polynomial :: "int \<Rightarrow> (option_error, int) outcome" where
  "cdf_polynomial t =
     and_then (math_mul t 13302744) (\<lambda>a.
     and_then (math_add (-18212560) a) (\<lambda>b.
     and_then (math_mul t b) (\<lambda>c.
     and_then (math_add 17814779 c) (\<lambda>d.
     and_then (math_mul t d) (\<lambda>e.
     and_then (math_add (-3565638) e) (\<lambda>f.
     and_then (math_mul t f) (\<lambda>g.
     and_then (math_add 3193815 g) (\<lambda>h. math_mul t h))))))))"

definition normal_cdf :: "int \<Rightarrow> (option_error, int) outcome" where
  "normal_cdf v =
     and_then (i128_abs v) (\<lambda>x.
     and_then (math_mul 2316419 x) (\<lambda>a.
     and_then (math_add SCALE a) (\<lambda>b.
     and_then (math_div SCALE b) (\<lambda>t.
     and_then (cdf_polynomial t) (\<lambda>polynomial.
     and_then (normal_pdf x) (\<lambda>density.
     and_then (math_mul density polynomial) (\<lambda>tail.
     and_then (math_sub SCALE tail) (\<lambda>positive.
     if v \<ge> 0 then Ok positive else math_sub SCALE positive))))))))"

text \<open>
  \<open>black_scholes\<close>: the checks, the quantities common to both kinds (time, its square root, \<open>sigma
  sqrt(t)\<close>, \<open>d1\<close>, \<open>d2\<close>, the discounted strike and the density), the legs of a kind (price, delta, the
  rate leg of theta, rho), and the rest.
\<close>

definition bs_common :: "GreeksInput \<Rightarrow> (option_error, int \<times> int \<times> int \<times> int \<times> int \<times> int) outcome" where
  "bs_common input =
     and_then (ok_or MathOverflow (Option.bind (checked_mul (int (time_to_expiry input)) SCALE)
       (\<lambda>v. checked_div v SECONDS_PER_YEAR))) (\<lambda>time.
     and_then (sqrt time) (\<lambda>sqrt_time.
     and_then (math_mul (volatility input) sqrt_time) (\<lambda>sigma_sqrt_time.
     and_then (math_mul (volatility input) (volatility input)) (\<lambda>sigma_squared.
     and_then (i128_div sigma_squared 2) (\<lambda>half.
     and_then (math_add (risk_free_rate input) half) (\<lambda>drift.
     and_then (math_div (gi_spot_price input) (gi_strike_price input)) (\<lambda>ratio.
     and_then (ln ratio) (\<lambda>l.
     and_then (math_mul drift time) (\<lambda>dt.
     and_then (math_add l dt) (\<lambda>numerator.
     and_then (math_div numerator sigma_sqrt_time) (\<lambda>d1.
     and_then (math_sub d1 sigma_sqrt_time) (\<lambda>d2.
     and_then (math_mul (risk_free_rate input) time) (\<lambda>rt.
     and_then (i128_neg rt) (\<lambda>n.
     and_then (exp n) (\<lambda>discount.
     and_then (math_mul (gi_strike_price input) discount) (\<lambda>discounted_strike.
     and_then (normal_pdf d1) (\<lambda>pdf.
     Ok (time, sqrt_time, d1, d2, discounted_strike, pdf))))))))))))))))))"

definition bs_legs ::
    "GreeksInput \<Rightarrow> int \<Rightarrow> int \<Rightarrow> int \<Rightarrow> int \<Rightarrow> (option_error, int \<times> int \<times> int \<times> int) outcome" where
  "bs_legs input time d1 d2 discounted_strike =
     (case gi_kind input of
        Call \<Rightarrow>
          and_then (normal_cdf d1) (\<lambda>nd1.
          and_then (normal_cdf d2) (\<lambda>nd2.
          and_then (math_mul (gi_spot_price input) nd1) (\<lambda>a.
          and_then (math_mul discounted_strike nd2) (\<lambda>b.
          and_then (math_sub a b) (\<lambda>price.
          and_then (math_mul (risk_free_rate input) discounted_strike) (\<lambda>c.
          and_then (math_mul c nd2) (\<lambda>d.
          and_then (i128_neg d) (\<lambda>leg.
          and_then (math_mul discounted_strike time) (\<lambda>e.
          and_then (math_mul e nd2) (\<lambda>rh.
          Ok (price, nd1, leg, rh)))))))))))
      | Put \<Rightarrow>
          and_then (i128_neg d1) (\<lambda>m1.
          and_then (normal_cdf m1) (\<lambda>nmd1.
          and_then (i128_neg d2) (\<lambda>m2.
          and_then (normal_cdf m2) (\<lambda>nmd2.
          and_then (math_mul discounted_strike nmd2) (\<lambda>a.
          and_then (math_mul (gi_spot_price input) nmd1) (\<lambda>b.
          and_then (math_sub a b) (\<lambda>price.
          and_then (normal_cdf d1) (\<lambda>nd1.
          and_then (math_sub nd1 SCALE) (\<lambda>dlt.
          and_then (math_mul (risk_free_rate input) discounted_strike) (\<lambda>c.
          and_then (math_mul c nmd2) (\<lambda>leg.
          and_then (math_mul discounted_strike time) (\<lambda>e.
          and_then (math_mul e nmd2) (\<lambda>f.
          and_then (i128_neg f) (\<lambda>rh.
          Ok (price, dlt, leg, rh))))))))))))))))"

definition bs_finish ::
    "GreeksInput \<Rightarrow> int \<Rightarrow> int \<Rightarrow> int \<times> int \<times> int \<times> int \<Rightarrow> (option_error, Greeks) outcome" where
  "bs_finish input sqrt_time pdf legs =
     (case legs of (price, dlt, theta_rate_leg, rh) \<Rightarrow>
     and_then (math_mul (gi_spot_price input) pdf) (\<lambda>a.
     and_then (math_mul a (volatility input)) (\<lambda>b.
     and_then (i128_mul 2 sqrt_time) (\<lambda>two_roots.
     and_then (math_div b two_roots) (\<lambda>c.
     and_then (i128_neg c) (\<lambda>diffusion_theta.
     and_then (math_mul (gi_spot_price input) (volatility input)) (\<lambda>d.
     and_then (math_mul d sqrt_time) (\<lambda>gamma_denominator.
     and_then (math_div pdf gamma_denominator) (\<lambda>gam.
     and_then (math_mul (gi_spot_price input) pdf) (\<lambda>e.
     and_then (math_mul e sqrt_time) (\<lambda>vg.
     and_then (math_add diffusion_theta theta_rate_leg) (\<lambda>tht.
     Ok \<lparr>g_price = (if price < 0 then 0 else price), delta = dlt, gamma = gam, vega = vg, theta = tht, rho = rh\<rparr>))))))))))))"

definition black_scholes :: "GreeksInput \<Rightarrow> (option_error, Greeks) outcome" where
  "black_scholes input =
     (if gi_spot_price input \<le> 0 \<or> gi_strike_price input \<le> 0 then Err InvalidPrice
      else if volatility input \<le> 0 \<or> volatility input > 5 * SCALE then Err InvalidVolatility
      else if risk_free_rate input = i128_min then Err InvalidRate
      else if \<bar>risk_free_rate input\<bar> > 2 * SCALE then Err InvalidRate
      else if time_to_expiry input = 0 \<or> time_to_expiry input > 10 * 31557600 then Err InvalidTimeToExpiry
      else
        and_then (bs_common input) (\<lambda>(time, sqrt_time, d1, d2, discounted_strike, pdf).
        and_then (bs_legs input time d1 d2 discounted_strike) (\<lambda>legs.
        bs_finish input sqrt_time pdf legs)))"

section \<open>Helpers\<close>

definition assert_initialized_guard :: "option_state \<Rightarrow> (option_error, unit) outcome" where
  "assert_initialized_guard s = (if \<not> is_initialized s then Err NotInitialized else Ok ())"
definition assert_not_paused :: "option_state \<Rightarrow> (option_error, unit) outcome" where
  "assert_not_paused s = (if is_paused s then Err ContractPaused else Ok ())"
definition assert_admin :: "env \<Rightarrow> address \<Rightarrow> option_state \<Rightarrow> (option_error, unit) outcome" where
  "assert_admin env caller s =
     and_then (assert_initialized_guard s) (\<lambda>_.
     and_then (require_auth env caller) (\<lambda>_.
     and_then (get_admin s) (\<lambda>admin. if caller \<noteq> admin then Err Unauthorized else Ok ())))"

definition validate_option ::
    "env \<Rightarrow> address \<Rightarrow> address \<Rightarrow> int \<Rightarrow> int \<Rightarrow> int \<Rightarrow> nat \<Rightarrow> (option_error, unit) outcome" where
  "validate_option env wr ho strike prem amt ex =
     (if wr = ho then Err WriterCannotBeHolder
      else if strike \<le> 0 then Err InvalidStrike
      else if prem < 0 then Err InvalidPremium
      else if amt \<le> 0 then Err InvalidAmount
      else if ex \<le> timestamp env then Err InvalidExpiry
      else Ok ())"

definition fresh_price :: "env \<Rightarrow> string \<Rightarrow> MarginConfig \<Rightarrow> option_state \<Rightarrow> (option_error, int) outcome" where
  "fresh_price env u config s =
     and_then (get_price s u) (\<lambda>observation.
     if timestamp env < updated_at observation then Err InvalidPrice
     else
       let age = timestamp env - updated_at observation in
       if age > max_price_age config then Err StalePrice else Ok (pd_price observation))"

definition intrinsic_value :: "int \<Rightarrow> int \<Rightarrow> int \<Rightarrow> OptionKind \<Rightarrow> (option_error, int) outcome" where
  "intrinsic_value spot strike amt k =
     (let price_difference = max (case k of Call \<Rightarrow> saturating_sub spot strike | Put \<Rightarrow> saturating_sub strike spot) 0
      in math_mul price_difference amt)"

definition required_margin ::
    "int \<Rightarrow> int \<Rightarrow> int \<Rightarrow> OptionKind \<Rightarrow> int \<Rightarrow> nat \<Rightarrow> (option_error, int) outcome" where
  "required_margin spot strike amt k max_pay bps =
     and_then (intrinsic_value spot strike amt k) (\<lambda>intrinsic.
     and_then (math_mul spot amt) (\<lambda>notional.
     and_then (ok_or MathOverflow (Option.bind (checked_mul notional (int bps)) (\<lambda>v. checked_div v 10000))) (\<lambda>maintenance.
     and_then (ok_or MathOverflow (checked_add intrinsic maintenance)) (\<lambda>required. Ok (min required max_pay)))))"

definition release_position :: "OptionContract \<Rightarrow> option_state \<Rightarrow> (option_error, unit \<times> option_state) outcome" where
  "release_position c s =
     (if \<not> has_margin_position s (opt_id c) then Ok ((), s)
      else
        and_then (get_margin_position s (opt_id c)) (\<lambda>position.
        let account = get_margin_account s (writer c) in
        and_then (ok_or MathOverflow (checked_sub (ma_locked account) (mp_locked position))) (\<lambda>left.
        Ok ((), remove_margin_position (opt_id c) (set_margin_account (writer c) (account\<lparr>ma_locked := left\<rparr>) s)))))"

section \<open>Administration and the margin pool\<close>

definition initialize :: "env \<Rightarrow> address \<Rightarrow> option_state \<Rightarrow> (option_error, unit \<times> option_state) outcome" where
  "initialize env admin s =
     (if is_initialized s then Err AlreadyInitialized
      else
        and_then (require_auth env admin) (\<lambda>_.
        let s1 = set_admin admin s; s2 = set_option_count 0 s1; s3 = set_paused False s2
        in Ok ((), publish (Ev_init admin) s3)))"

definition pub_set_paused :: "env \<Rightarrow> address \<Rightarrow> bool \<Rightarrow> option_state \<Rightarrow> (option_error, unit \<times> option_state) outcome" where
  "pub_set_paused env admin b s =
     and_then (assert_admin env admin s) (\<lambda>_. Ok ((), publish (Ev_paused b) (set_paused b s)))"

definition configure_margin_pool ::
    "env \<Rightarrow> address \<Rightarrow> address \<Rightarrow> address \<Rightarrow> nat \<Rightarrow> nat \<Rightarrow> option_state \<Rightarrow> (option_error, unit \<times> option_state) outcome" where
  "configure_margin_pool env admin token orc bps max_age s =
     and_then (assert_admin env admin s) (\<lambda>_.
     if has_margin_config s then Err PoolAlreadyConfigured
     else if bps = 0 \<or> bps > 10000 \<or> max_age = 0 then Err InvalidMarginConfig
     else
       let config = \<lparr>settlement_token = token, mc_oracle = orc, maintenance_margin_bps = bps, max_price_age = max_age\<rparr>
       in Ok ((), publish (Ev_margincfg config) (set_margin_config config s)))"

definition update_price :: "env \<Rightarrow> address \<Rightarrow> string \<Rightarrow> int \<Rightarrow> option_state \<Rightarrow> (option_error, unit \<times> option_state) outcome" where
  "update_price env orc u price s =
     and_then (assert_not_paused s) (\<lambda>_.
     and_then (get_margin_config s) (\<lambda>config.
     and_then (require_auth env orc) (\<lambda>_.
     if orc \<noteq> mc_oracle config then Err Unauthorized
     else if price \<le> 0 then Err InvalidPrice
     else
       let observation = \<lparr>pd_price = price, updated_at = timestamp env\<rparr>
       in Ok ((), publish (Ev_price u observation) (set_price u observation s)))))"

definition deposit_margin ::
    "'w token_transfer \<Rightarrow> env \<Rightarrow> address \<Rightarrow> int \<Rightarrow> 'w \<times> option_state \<Rightarrow> (option_error, unit \<times> 'w \<times> option_state) outcome" where
  "deposit_margin tc env wr amt ws =
     (case ws of (w, s) \<Rightarrow>
     and_then (assert_not_paused s) (\<lambda>_.
     and_then (assert_initialized_guard s) (\<lambda>_.
     if amt \<le> 0 then Err InvalidAmount
     else
       and_then (require_auth env wr) (\<lambda>_.
       and_then (get_margin_config s) (\<lambda>config.
       let account = get_margin_account s wr; tok = settlement_token config in
       and_then (ok_or MathOverflow (checked_add (ma_balance account) amt)) (\<lambda>b.
       and_then (or_trap (tc tok (subcall_env env tok) wr (current_contract env) amt w)) (\<lambda>w1.
       Ok ((), w1, publish (Ev_deposit wr amt) (set_margin_account wr (account\<lparr>ma_balance := b\<rparr>) s)))))))))"

definition withdraw_margin ::
    "'w token_transfer \<Rightarrow> env \<Rightarrow> address \<Rightarrow> int \<Rightarrow> 'w \<times> option_state \<Rightarrow> (option_error, unit \<times> 'w \<times> option_state) outcome" where
  "withdraw_margin tc env wr amt ws =
     (case ws of (w, s) \<Rightarrow>
     and_then (assert_not_paused s) (\<lambda>_.
     if amt \<le> 0 then Err InvalidAmount
     else
       and_then (require_auth env wr) (\<lambda>_.
       and_then (get_margin_config s) (\<lambda>config.
       let account = get_margin_account s wr; tok = settlement_token config in
       and_then (ok_or MathOverflow (checked_sub (ma_balance account) (ma_locked account))) (\<lambda>available.
       if amt > available then Err InsufficientMargin
       else
         and_then (i128_sub (ma_balance account) amt) (\<lambda>b.
         let s1 = set_margin_account wr (account\<lparr>ma_balance := b\<rparr>) s in
         and_then (or_trap (tc tok (subcall_env env tok) (current_contract env) wr amt w)) (\<lambda>w1.
         Ok ((), w1, publish (Ev_withdraw wr amt) s1))))))))"

section \<open>Writer actions\<close>

definition write_option ::
    "env \<Rightarrow> address \<Rightarrow> address \<Rightarrow> string \<Rightarrow> int \<Rightarrow> int \<Rightarrow> int \<Rightarrow> nat \<Rightarrow> OptionKind \<Rightarrow> option_state \<Rightarrow>
     (option_error, nat \<times> option_state) outcome" where
  "write_option env wr ho u strike prem amt ex k s =
     and_then (assert_not_paused s) (\<lambda>_.
     and_then (assert_initialized_guard s) (\<lambda>_.
     and_then (require_auth env wr) (\<lambda>_.
     if wr = ho then Err WriterCannotBeHolder
     else if strike \<le> 0 then Err InvalidStrike
     else if prem < 0 then Err InvalidPremium
     else if amt \<le> 0 then Err InvalidAmount
     else if ex \<le> timestamp env then Err InvalidExpiry
     else
       and_then (u32_add (get_option_count s) 1) (\<lambda>i.
       let c = \<lparr>opt_id = i, writer = wr, holder = ho, underlying = u, strike_price = strike, premium = prem,
             opt_amount = amt, expiry = ex, kind = k, opt_status = Active\<rparr>;
           s1 = set_option c s;
           s2 = set_option_count i s1
       in Ok (i, publish (Ev_written i wr ho) s2)))))"

definition write_collateralized_option ::
    "'w token_transfer \<Rightarrow> env \<Rightarrow> address \<Rightarrow> address \<Rightarrow> string \<Rightarrow> int \<Rightarrow> int \<Rightarrow> int \<Rightarrow> nat \<Rightarrow> OptionKind \<Rightarrow> int \<Rightarrow>
     'w \<times> option_state \<Rightarrow> (option_error, nat \<times> 'w \<times> option_state) outcome" where
  "write_collateralized_option tc env wr ho u strike prem amt ex k max_pay ws =
     (case ws of (w, s) \<Rightarrow>
     and_then (assert_not_paused s) (\<lambda>_.
     and_then (assert_initialized_guard s) (\<lambda>_.
     and_then (require_auth env wr) (\<lambda>_.
     and_then (require_auth env ho) (\<lambda>_.
     and_then (validate_option env wr ho strike prem amt ex) (\<lambda>_.
     if max_pay \<le> 0 then Err InvalidMaxPayout
     else
       and_then (get_margin_config s) (\<lambda>config.
       and_then (fresh_price env u config s) (\<lambda>spot.
       and_then (required_margin spot strike amt k max_pay (maintenance_margin_bps config)) (\<lambda>required.
       let account = get_margin_account s wr; tok = settlement_token config in
       and_then (ok_or MathOverflow (checked_sub (ma_balance account) (ma_locked account))) (\<lambda>available.
       if available < required then Err InsufficientMargin
       else
         and_then (if prem > 0 then or_trap (tc tok (subcall_env env tok) ho wr prem w) else Ok w) (\<lambda>w1.
         and_then (ok_or MathOverflow (u32_checked_add (get_option_count s) 1)) (\<lambda>i.
         let c = \<lparr>opt_id = i, writer = wr, holder = ho, underlying = u, strike_price = strike, premium = prem,
             opt_amount = amt, expiry = ex, kind = k, opt_status = Active\<rparr> in
         and_then (ok_or MathOverflow (checked_add (ma_locked account) required)) (\<lambda>l.
         let s1 = set_margin_account wr (account\<lparr>ma_locked := l\<rparr>) s;
             s2 = set_margin_position i \<lparr>mp_locked = required, max_payout = max_pay\<rparr> s1;
             s3 = set_option c s2;
             s4 = set_option_count i s3
         in Ok (i, w1, publish (Ev_collatopt i wr ho required) s4))))))))))))))"

definition cancel_option :: "env \<Rightarrow> address \<Rightarrow> nat \<Rightarrow> option_state \<Rightarrow> (option_error, unit \<times> option_state) outcome" where
  "cancel_option env wr i s =
     and_then (assert_initialized_guard s) (\<lambda>_.
     and_then (require_auth env wr) (\<lambda>_.
     and_then (get_option s i) (\<lambda>c.
     if writer c \<noteq> wr then Err Unauthorized
     else if has_margin_position s i then Err EuropeanOnly
     else if opt_status c \<noteq> Active then Err OptionNotActive
     else Ok ((), publish (Ev_cancelled i wr) (set_option (c\<lparr>opt_status := Cancelled\<rparr>) s)))))"

definition cancel_collateralized_option ::
    "env \<Rightarrow> address \<Rightarrow> address \<Rightarrow> nat \<Rightarrow> option_state \<Rightarrow> (option_error, unit \<times> option_state) outcome" where
  "cancel_collateralized_option env wr ho i s =
     and_then (assert_not_paused s) (\<lambda>_.
     and_then (require_auth env wr) (\<lambda>_.
     and_then (require_auth env ho) (\<lambda>_.
     and_then (get_option s i) (\<lambda>c.
     if writer c \<noteq> wr \<or> holder c \<noteq> ho then Err Unauthorized
     else if opt_status c \<noteq> Active then Err OptionNotActive
     else if timestamp env \<ge> expiry c then Err OptionExpired
     else
       and_then (get_margin_position s i) (\<lambda>_.
       and_then (release_position c s) (\<lambda>(_, s1).
       Ok ((), publish (Ev_cancelled_by_both i wr ho) (set_option (c\<lparr>opt_status := Cancelled\<rparr>) s1))))))))"

section \<open>Holder actions, margin checks and settlement\<close>

definition exercise :: "env \<Rightarrow> address \<Rightarrow> nat \<Rightarrow> option_state \<Rightarrow> (option_error, int \<times> option_state) outcome" where
  "exercise env ho i s =
     and_then (assert_not_paused s) (\<lambda>_.
     and_then (assert_initialized_guard s) (\<lambda>_.
     and_then (require_auth env ho) (\<lambda>_.
     and_then (get_option s i) (\<lambda>c.
     if holder c \<noteq> ho then Err Unauthorized
     else if opt_status c \<noteq> Active then Err OptionNotActive
     else if has_margin_position s i then Err EuropeanOnly
     else if timestamp env > expiry c then Err OptionExpired
     else
       let s1 = set_option (c\<lparr>opt_status := Exercised\<rparr>) s; settlement = strike_price c
       in Ok (settlement, publish (Ev_exercised i ho settlement) s1)))))"

definition expire_option :: "env \<Rightarrow> nat \<Rightarrow> option_state \<Rightarrow> (option_error, unit \<times> option_state) outcome" where
  "expire_option env i s =
     and_then (assert_initialized_guard s) (\<lambda>_.
     and_then (get_option s i) (\<lambda>c.
     if opt_status c \<noteq> Active then Err OptionNotActive
     else if has_margin_position s i then Err EuropeanOnly
     else if timestamp env \<le> expiry c then Err OptionNotExpired
     else Ok ((), publish (Ev_expired i) (set_option (c\<lparr>opt_status := Expired\<rparr>) s))))"

definition check_margin :: "env \<Rightarrow> nat \<Rightarrow> option_state \<Rightarrow> (option_error, bool \<times> option_state) outcome" where
  "check_margin env i s =
     and_then (assert_not_paused s) (\<lambda>_.
     and_then (get_option s i) (\<lambda>c.
     if opt_status c \<noteq> Active \<and> opt_status c \<noteq> MarginCalled then Err OptionNotActive
     else
       and_then (get_margin_config s) (\<lambda>config.
       and_then (fresh_price env (underlying c) config s) (\<lambda>spot.
       and_then (get_margin_position s i) (\<lambda>position.
       and_then (required_margin spot (strike_price c) (opt_amount c) (kind c) (max_payout position)
         (maintenance_margin_bps config)) (\<lambda>required.
       let account = get_margin_account s (writer c) in
       and_then (i128_sub (ma_balance account) (ma_locked account)) (\<lambda>unlocked.
       and_then (i128_sub required (mp_locked position)) (\<lambda>additional.
       if additional > unlocked then
         and_then (i128_sub additional unlocked) (\<lambda>missing.
         Ok (False, publish (Ev_margcall i missing) (set_option (c\<lparr>opt_status := MarginCalled\<rparr>) s)))
       else
         and_then (ok_or MathOverflow (checked_add (ma_locked account) additional)) (\<lambda>l.
         let s1 = set_margin_account (writer c) (account\<lparr>ma_locked := l\<rparr>) s;
             s2 = set_margin_position i (position\<lparr>mp_locked := required\<rparr>) s1;
             s3 = set_option (c\<lparr>opt_status := Active\<rparr>) s2
         in Ok (True, publish (Ev_marginok i required) s3))))))))))"

definition cure_margin_call :: "env \<Rightarrow> address \<Rightarrow> nat \<Rightarrow> option_state \<Rightarrow> (option_error, unit \<times> option_state) outcome" where
  "cure_margin_call env wr i s =
     and_then (require_auth env wr) (\<lambda>_.
     and_then (get_option s i) (\<lambda>c.
     if writer c \<noteq> wr then Err Unauthorized
     else if opt_status c \<noteq> MarginCalled then Err MarginCallNotActive
     else
       and_then (check_margin env i s) (\<lambda>(ok, s1).
       if \<not> ok then Err InsufficientMargin else Ok ((), s1))))"

definition settle_option ::
    "'w token_transfer \<Rightarrow> env \<Rightarrow> nat \<Rightarrow> 'w \<times> option_state \<Rightarrow> (option_error, int \<times> 'w \<times> option_state) outcome" where
  "settle_option tc env i ws =
     (case ws of (w, s) \<Rightarrow>
     and_then (assert_not_paused s) (\<lambda>_.
     and_then (get_option s i) (\<lambda>c.
     if opt_status c \<noteq> Active \<and> opt_status c \<noteq> MarginCalled then Err OptionNotActive
     else if timestamp env < expiry c then Err OptionNotExpired
     else
       and_then (get_margin_config s) (\<lambda>config.
       and_then (fresh_price env (underlying c) config s) (\<lambda>spot.
       and_then (get_margin_position s i) (\<lambda>position.
       and_then (intrinsic_value spot (strike_price c) (opt_amount c) (kind c)) (\<lambda>intrinsic.
       let payout = min intrinsic (max_payout position) in
       if payout > mp_locked position then Err InsufficientMargin
       else
         let account = get_margin_account s (writer c); tok = settlement_token config in
         and_then (i128_sub (ma_locked account) (mp_locked position)) (\<lambda>l.
         and_then (i128_sub (ma_balance account) payout) (\<lambda>b.
         let s1 = set_margin_account (writer c) \<lparr>ma_balance = b, ma_locked = l\<rparr> s;
             s2 = remove_margin_position i s1;
             s3 = set_option (c\<lparr>opt_status := (if payout > 0 then Exercised else Expired)\<rparr>) s2 in
         and_then (if payout > 0 then or_trap (tc tok (subcall_env env tok) (current_contract env) (holder c) payout w)
                   else Ok w) (\<lambda>w1.
         Ok (payout, w1, publish (Ev_settled i (holder c) payout spot) s3)))))))))))"

section \<open>Read-only entry points\<close>

definition pub_get_option :: "nat \<Rightarrow> option_state \<Rightarrow> (option_error, OptionContract) outcome" where
  "pub_get_option i s = get_option s i"
definition option_count :: "option_state \<Rightarrow> nat" where
  "option_count s = get_option_count s"
definition pub_is_paused :: "option_state \<Rightarrow> bool" where
  "pub_is_paused s = is_paused s"
definition pub_get_admin :: "option_state \<Rightarrow> (option_error, address) outcome" where
  "pub_get_admin s = get_admin s"
definition pub_get_margin_config :: "option_state \<Rightarrow> (option_error, MarginConfig) outcome" where
  "pub_get_margin_config s = get_margin_config s"
definition pub_get_margin_account :: "address \<Rightarrow> option_state \<Rightarrow> MarginAccount" where
  "pub_get_margin_account a s = get_margin_account s a"
definition pub_get_margin_position :: "nat \<Rightarrow> option_state \<Rightarrow> (option_error, MarginPosition) outcome" where
  "pub_get_margin_position i s = get_margin_position s i"
definition pub_get_price :: "string \<Rightarrow> option_state \<Rightarrow> (option_error, PriceData) outcome" where
  "pub_get_price u s = get_price s u"
definition calculate_greeks :: "GreeksInput \<Rightarrow> (option_error, Greeks) outcome" where
  "calculate_greeks input = black_scholes input"

section \<open>Public histories\<close>

text \<open>Calls that move no token, and those that do; amounts are arguments of type \<open>i128\<close>.\<close>

inductive option_book :: "env \<Rightarrow> option_state \<Rightarrow> option_state \<Rightarrow> bool" for env where
  initialize: "initialize env a s = Ok (u, t) \<Longrightarrow> option_book env s t"
| set_paused: "pub_set_paused env a b s = Ok (u, t) \<Longrightarrow> option_book env s t"
| configure: "configure_margin_pool env a tok orc bps age s = Ok (u, t) \<Longrightarrow> option_book env s t"
| price: "in_i128 x \<Longrightarrow> update_price env orc y x s = Ok (u, t) \<Longrightarrow> option_book env s t"
| write_plain: "in_i128 strike \<Longrightarrow> in_i128 prem \<Longrightarrow> in_i128 amt \<Longrightarrow>
    write_option env wr ho y strike prem amt ex k s = Ok (i, t) \<Longrightarrow> option_book env s t"
| cancel: "cancel_option env wr i s = Ok (u, t) \<Longrightarrow> option_book env s t"
| cancel_both: "cancel_collateralized_option env wr ho i s = Ok (u, t) \<Longrightarrow> option_book env s t"
| exercise: "exercise env ho i s = Ok (x, t) \<Longrightarrow> option_book env s t"
| expire: "expire_option env i s = Ok (u, t) \<Longrightarrow> option_book env s t"
| check: "check_margin env i s = Ok (b, t) \<Longrightarrow> option_book env s t"
| cure: "cure_margin_call env wr i s = Ok (u, t) \<Longrightarrow> option_book env s t"

inductive option_token :: "'w token_transfer \<Rightarrow> env \<Rightarrow> 'w \<times> option_state \<Rightarrow> 'w \<times> option_state \<Rightarrow> bool"
  for tc env where
  deposit: "in_i128 x \<Longrightarrow> deposit_margin tc env a x ws = Ok (u, wt) \<Longrightarrow> option_token tc env ws wt"
| withdraw: "in_i128 x \<Longrightarrow> withdraw_margin tc env a x ws = Ok (u, wt) \<Longrightarrow> option_token tc env ws wt"
| write_collateralized: "in_i128 strike \<Longrightarrow> in_i128 prem \<Longrightarrow> in_i128 amt \<Longrightarrow> in_i128 mx \<Longrightarrow>
    write_collateralized_option tc env wr ho y strike prem amt ex k mx ws = Ok (i, wt) \<Longrightarrow> option_token tc env ws wt"
| settle: "settle_option tc env i ws = Ok (x, wt) \<Longrightarrow> option_token tc env ws wt"

inductive option_step ::
    "'w token_transfer \<Rightarrow> ('w \<Rightarrow> 'w \<Rightarrow> bool) \<Rightarrow> address \<Rightarrow> 'w \<times> option_state \<Rightarrow> 'w \<times> option_state \<Rightarrow> bool"
  for tc out self where
  book: "\<not> auth env self \<Longrightarrow> current_contract env = self \<Longrightarrow>
    option_book env s t \<Longrightarrow> option_step tc out self (w, s) (w, t)"
| tokens: "\<not> auth env self \<Longrightarrow> current_contract env = self \<Longrightarrow>
    option_token tc env ws wt \<Longrightarrow> option_step tc out self ws wt"
| other: "out w w' \<Longrightarrow> option_step tc out self (w, s) (w', s)"

end
