(* ===== verification/Options_Math_Correct.thy ===== *)
theory Options_Math_Correct
  imports Options_Protocol
begin

text \<open>
  The Black-Scholes arithmetic of the options: no input makes it panic, and the two kinds of option
  agree with each other (put-call parity up to rounding).
\<close>

section \<open>Results of the fixed-point operations\<close>

lemma abs_sdiv: "\<bar>a sdiv b\<bar> = \<bar>a\<bar> div \<bar>b\<bar>" for a b :: int
  by (cases "a = 0"; cases "b = 0") (simp_all add: signed_divide_int_def abs_mult pos_imp_zdiv_nonneg_iff)

lemma abs_sdiv_le: "\<bar>a sdiv b\<bar> \<le> \<bar>a\<bar>" for a b :: int
proof (cases "b = 0")
  case False
  then have "\<bar>a\<bar> div \<bar>b\<bar> * 1 \<le> \<bar>a\<bar> div \<bar>b\<bar> * \<bar>b\<bar>" by (intro mult_left_mono) (auto simp: pos_imp_zdiv_nonneg_iff)
  also have "\<dots> \<le> \<bar>a\<bar>" using False by (intro div_mult_le) simp
  finally show ?thesis by (simp add: abs_sdiv)
qed (simp add: signed_divide_int_def)

lemma in_i128_sdiv: "in_i128 a \<Longrightarrow> 0 < b \<Longrightarrow> in_i128 (a sdiv b)"
proof (cases "0 \<le> a")
  case True
  assume "in_i128 a" "0 < b"
  then show ?thesis using True i128_div_pos by simp
next
  case False
  assume a: "in_i128 a" "0 < b"
  have "a sdiv b \<le> 0" by (rule sdiv_nonpos) (use False a in auto)
  then show ?thesis using abs_sdiv_le [of a b] a False by (auto simp: in_i128_def i128_max_def)
qed

lemma math_Ok [simp]:
  "math_add a b = Ok c \<longleftrightarrow> c = a + b \<and> in_i128 (a + b)"
  "math_sub a b = Ok c \<longleftrightarrow> c = a - b \<and> in_i128 (a - b)"
  "math_mul a b = Ok c \<longleftrightarrow> c = (a * b) sdiv SCALE \<and> in_i128 (a * b)"
  "math_div a b = Ok c \<longleftrightarrow> c = (a * SCALE) sdiv b \<and> b \<noteq> 0 \<and> in_i128 (a * SCALE) \<and> in_i128 ((a * SCALE) sdiv b)"
  by (auto simp: math_add_def math_sub_def math_mul_def math_div_def SCALE_def intro: in_i128_sdiv)

lemma math_never [never_intros]:
  "never t (math_add a b)" "never t (math_sub a b)" "never t (math_mul a b)" "never t (math_div a b)"
  by (simp_all add: never_def math_add_def math_sub_def math_mul_def math_div_def)

text \<open>Results that can be negated: every product, and every quotient.\<close>

definition negatable :: "int \<Rightarrow> bool" where
  "negatable x \<longleftrightarrow> in_i128 x \<and> in_i128 (- x)"

lemma negatable_iff: "negatable x \<longleftrightarrow> \<bar>x\<bar> \<le> i128_max"
  by (auto simp: negatable_def in_i128_def i128_max_def i128_min_def)

lemma math_mul_small:
  assumes "math_mul a b = Ok c" shows "\<bar>c\<bar> \<le> 17014118346046923173168730371589"
proof -
  have "\<bar>c\<bar> = \<bar>a * b\<bar> div SCALE" "\<bar>a * b\<bar> \<le> 170141183460469231731687303715884105728"
    using assms by (auto simp: abs_sdiv SCALE_def in_i128_def i128_max_def i128_min_def)
  moreover from this(2) have "\<bar>a * b\<bar> div SCALE \<le> 170141183460469231731687303715884105728 div SCALE"
    by (intro zdiv_mono1) (simp_all add: SCALE_def)
  ultimately show ?thesis by (simp add: SCALE_def)
qed

lemma math_mul_negatable: "math_mul a b = Ok c \<Longrightarrow> negatable c"
  using math_mul_small [of a b c] by (simp add: negatable_iff i128_max_def)

lemma math_div_negatable:
  assumes "math_div a b = Ok c" shows "negatable c"
proof (rule ccontr)
  assume "\<not> negatable c"
  then have c: "c = i128_min" using assms by (auto simp: negatable_def in_i128_def i128_max_def i128_min_def)
  have h: "c = (a * SCALE) sdiv b" "b \<noteq> 0" "in_i128 (a * SCALE)" using assms by simp_all
  then have q: "\<bar>a * SCALE\<bar> div \<bar>b\<bar> = 170141183460469231731687303715884105728"
    using c by (metis abs_sdiv abs_minus_cancel abs_numeral i128_min_def)
  have le: "\<bar>a * SCALE\<bar> \<le> 170141183460469231731687303715884105728"
    using h(3) by (auto simp: in_i128_def i128_max_def i128_min_def)
  have "\<bar>a * SCALE\<bar> div \<bar>b\<bar> * \<bar>b\<bar> \<le> \<bar>a * SCALE\<bar>" using h(2) by (intro div_mult_le) simp
  then have "170141183460469231731687303715884105728 * \<bar>b\<bar> \<le> 170141183460469231731687303715884105728"
    using q le by (metis order_trans)
  then have "\<bar>b\<bar> = 1" using h(2) by linarith
  then have "\<bar>a\<bar> * 1000000 * 10 = 170141183460469231731687303715884105728" using q by (simp add: abs_mult SCALE_def)
  then have "(\<bar>a\<bar> * 1000000 * 10) mod 10 = (170141183460469231731687303715884105728 :: int) mod 10" by (rule arg_cong)
  then show False by simp
qed

lemma i128_neg_Ok [simp]: "i128_neg x = Ok y \<longleftrightarrow> y = - x \<and> in_i128 (- x)"
  by (simp add: i128_neg_def)

lemma never_neg [never_intros]: "negatable x \<Longrightarrow> never t (i128_neg x)"
  by (simp add: never_def i128_neg_def i128_sub_def negatable_def)

lemma never_div_positive: "in_i128 a \<Longrightarrow> 0 < b \<Longrightarrow> never t (i128_div a b)"
  using in_i128_sdiv [of a b] by (simp add: never_def)

section \<open>Logarithm and exponential\<close>

lemma ln_halve_bounds:
  assumes "0 < v" "ln_halve v e = (v1, e1)"
  shows "0 < v1 \<and> v1 < 2 * SCALE \<and> e \<le> e1 \<and> 2 ^ nat (e1 - e) * v1 \<le> v"
  using assms
proof (induction v e rule: ln_halve.induct)
  case (1 v e)
  show ?case
  proof (cases "2 * SCALE \<le> v")
    case False
    then show ?thesis using "1.prems" by (subst (asm) ln_halve.simps) simp
  next
    case True
    have v: "v sdiv 2 = v div 2" "0 < v div 2" using True by (simp_all add: SCALE_def pos_imp_zdiv_pos_iff)
    have "ln_halve (v div 2) (e + 1) = (v1, e1)" using "1.prems"(2) True v(1) by (subst (asm) ln_halve.simps) simp
    then have ih: "0 < v1 \<and> v1 < 2 * SCALE \<and> e + 1 \<le> e1 \<and> 2 ^ nat (e1 - (e + 1)) * v1 \<le> v div 2"
      using "1.IH" True v by simp
    have "nat (e1 - e) = Suc (nat (e1 - (e + 1)))" using ih by linarith
    then have "2 ^ nat (e1 - e) * v1 = 2 * (2 ^ nat (e1 - (e + 1)) * v1)" by simp
    also have "\<dots> \<le> 2 * (v div 2)" using ih by simp
    finally show ?thesis using ih by linarith
  qed
qed

lemma ln_double_Ok:
  assumes "0 < v" "v < 2 * SCALE"
  shows "\<exists>v1 e1. ln_double v e = Ok (v1, e1) \<and> SCALE \<le> v1 \<and> v1 < 2 * SCALE \<and> e1 \<le> e \<and> 2 ^ nat (e - e1) * v = v1"
  using assms
proof (induction v e rule: ln_double.induct)
  case (1 v e)
  show ?case
  proof (cases "v < SCALE")
    case False
    then show ?thesis using "1.prems" by (subst ln_double.simps) simp
  next
    case True
    have m: "checked_mul v 2 = Some (v * 2)"
      using True "1.prems" by (simp add: in_i128_def i128_max_def i128_min_def SCALE_def)
    then have c: "ok_or MathOverflow (checked_mul v 2) = Ok (v * 2)" by simp
    have step: "ln_double v e = ln_double (v * 2) (e - 1)"
      using True "1.prems"(1) by (subst ln_double.simps) (simp only: c and_then_simps if_True simp_thms)
    obtain v1 e1 where ih: "ln_double (v * 2) (e - 1) = Ok (v1, e1)" "SCALE \<le> v1" "v1 < 2 * SCALE" "e1 \<le> e - 1"
      "2 ^ nat (e - 1 - e1) * (v * 2) = v1"
      using "1.IH" [of "v * 2"] True "1.prems" m by auto
    have "nat (e - e1) = Suc (nat (e - 1 - e1))" using ih(4) by linarith
    then have "2 ^ nat (e - e1) * v = v1" using ih(5) by (simp add: mult.commute mult.left_commute)
    then show ?thesis using ih step by simp
  qed
qed

lemma pow2_bound: "(2::int) ^ k \<le> x \<Longrightarrow> x < 2 ^ n \<Longrightarrow> k < n"
  by (meson le_less_trans one_less_numeral_iff power_less_imp_less_exp semiring_norm(76))

text \<open>Both range reductions of \<open>ln\<close> together.\<close>

lemma ln_reduced:
  assumes "0 < v" "in_i128 v" "ln_halve v 0 = (v1, e1)"
  shows "\<exists>v2 e2. ln_double v1 e1 = Ok (v2, e2) \<and> SCALE \<le> v2 \<and> v2 < 2 * SCALE \<and> \<bar>e2\<bar> \<le> 127"
proof -
  have a: "0 < v1" "v1 < 2 * SCALE" "0 \<le> e1" "2 ^ nat e1 * v1 \<le> v" using ln_halve_bounds [OF assms(1,3)] by simp_all
  have "2 ^ nat e1 * 1 \<le> 2 ^ nat e1 * v1" using a(1) by (intro mult_left_mono) auto
  then have "2 ^ nat e1 \<le> v" using a(4) by linarith
  then have e1: "nat e1 < 127" by (rule pow2_bound) (use assms(2) in \<open>simp add: in_i128_def i128_max_def\<close>)
  obtain v2 e2 where b: "ln_double v1 e1 = Ok (v2, e2)" "SCALE \<le> v2" "v2 < 2 * SCALE" "e2 \<le> e1" "2 ^ nat (e1 - e2) * v1 = v2"
    using ln_double_Ok [OF a(1,2)] by blast
  have "2 ^ nat (e1 - e2) * 1 \<le> 2 ^ nat (e1 - e2) * v1" using a(1) by (intro mult_left_mono) auto
  then have "2 ^ nat (e1 - e2) \<le> v2" using b(5) by simp
  then have "nat (e1 - e2) < 25" by (rule pow2_bound) (use b(3) in \<open>simp add: SCALE_def\<close>)
  then show ?thesis using a(3) b e1 by (intro exI [of _ v2] exI [of _ e2]) auto
qed

lemma ln_series_never: "(\<And>d. d \<in> set ds \<Longrightarrow> 0 < d) \<Longrightarrow> never t (ln_series z ds trm acc)"
proof (induction ds arbitrary: trm acc)
  case (Cons d ds)
  then show ?case
    by (auto intro!: never_intros never_div_positive simp: negatable_def dest: math_mul_negatable)
qed (simp add: never_intros)

lemma exp_series_never: "(\<And>d. d \<in> set ds \<Longrightarrow> 0 < d) \<Longrightarrow> never t (exp_series z ds trm acc)"
proof (induction ds arbitrary: trm acc)
  case (Cons d ds)
  then show ?case
    by (auto intro!: never_intros never_div_positive simp: negatable_def dest: math_mul_negatable)
qed (simp add: never_intros)

lemma ln_never [never_intros]:
  assumes "in_i128 v" shows "never t (ln v)"
proof (cases "v \<le> 0")
  case True
  then show ?thesis by (simp add: ln_def never_def)
next
  case False
  obtain v1 e1 where h: "ln_halve v 0 = (v1, e1)" by (cases "ln_halve v 0")
  obtain v2 e2 where d: "ln_double v1 e1 = Ok (v2, e2)" "SCALE \<le> v2" "v2 < 2 * SCALE" "\<bar>e2\<bar> \<le> 127"
    using ln_reduced [of v v1 e1] False assms h by auto
  have r: "in_i128 (v2 - SCALE)" "in_i128 (v2 + SCALE)" "in_i128 (e2 * LN_2)"
    using d(2-4) by (auto simp: in_i128_def i128_max_def i128_min_def SCALE_def LN_2_def)
  have n: "never t (i128_sub v2 SCALE)" "never t (i128_add v2 SCALE)" "never t (i128_mul e2 LN_2)"
    using r by (simp_all add: never_def)
  show ?thesis
    using False
    by (simp add: ln_def h d(1) del: ln_series.simps) (intro never_intros n ln_series_never; auto)
qed

lemma exp_never [never_intros]: "never t (exp v)"
proof (cases "- MAX_EXP_INPUT \<le> v \<and> v \<le> MAX_EXP_INPUT")
  case False
  then show ?thesis by (simp add: exp_def never_def)
next
  case True
  define e where "e = v sdiv LN_2"
  have "\<bar>v\<bar> div LN_2 \<le> MAX_EXP_INPUT div LN_2"
    by (intro zdiv_mono1) (use True in \<open>auto simp: LN_2_def\<close>)
  then have e: "\<bar>e\<bar> \<le> 28" by (simp add: e_def abs_sdiv LN_2_def MAX_EXP_INPUT_def)
  have v: "\<bar>v\<bar> \<le> 200000000" using True by (auto simp: MAX_EXP_INPUT_def)
  have r: "in_i128 e" "in_i128 (e * LN_2)" "in_i128 (v - e * LN_2)" "in_i128 (- e)"
    using e v by (auto simp: in_i128_def i128_max_def i128_min_def LN_2_def)
  have d: "i128_div v LN_2 = Ok e" "i128_mul e LN_2 = Ok (e * LN_2)" "i128_sub v (e * LN_2) = Ok (v - e * LN_2)"
    using r by (simp_all add: e_def LN_2_def)
  have s: "never t (exp_series (v - e * LN_2) [1..20] SCALE SCALE)" by (rule exp_series_never) simp
  have "in_i128 acc" if "exp_series z ns trm a = Ok acc" "in_i128 a" for z ns trm a acc
    using that by (induction ns arbitrary: trm a) auto
  then have acc: "in_i128 acc" if "exp_series (v - e * LN_2) [1..20] SCALE SCALE = Ok acc" for acc
    using that by (simp add: SCALE_def in_i128_def i128_max_def i128_min_def)
  show ?thesis
  proof (cases "0 \<le> e")
    case True
    have "never t (i128_one_shl e)" using e True by (simp add: i128_one_shl_def never_def)
    then show ?thesis
      using \<open>- MAX_EXP_INPUT \<le> v \<and> v \<le> MAX_EXP_INPUT\<close> True by (simp add: exp_def d) (intro never_intros s)
  next
    case False
    have k: "i128_one_shl (- e) = Ok (2 ^ nat (- e))" using e False by (simp add: i128_one_shl_def)
    have neg: "i128_neg e = Ok (- e)" using r(4) by simp
    have "never t (i128_div acc (2 ^ nat (- e)))" if "exp_series (v - e * LN_2) [1..20] SCALE SCALE = Ok acc" for acc
      by (rule never_div_positive [OF acc [OF that]]) simp
    then have n: "never t (and_then (exp_series (v - e * LN_2) [1..20] SCALE SCALE) (\<lambda>acc. i128_div acc (2 ^ nat (- e))))"
      by (intro never_and_then s)
    show ?thesis using \<open>- MAX_EXP_INPUT \<le> v \<and> v \<le> MAX_EXP_INPUT\<close> False n by (simp add: exp_def d neg k)
  qed
qed

section \<open>The normal distribution\<close>

lemma normal_pdf_never [never_intros]: "never t (normal_pdf v)"
proof -
  have d: "never t (i128_div n 2)" if "i128_neg q = Ok n" for q n
    by (rule never_div_positive) (use that in auto)
  show ?thesis
    unfolding normal_pdf_def by (intro never_intros; (erule math_mul_negatable | erule d))
qed

lemma normal_cdf_never [never_intros]:
  assumes "negatable v" shows "never t (normal_cdf v)"
proof -
  have "never t (i128_abs v)" using assms by (simp add: i128_abs_def never_intros)
  then show ?thesis unfolding normal_cdf_def cdf_polynomial_def by (intro never_intros)
qed

section \<open>Black-Scholes\<close>

lemma sqrt_never:
  assumes "0 \<le> v" "v \<le> 100000000" shows "\<exists>r. sqrt v = Ok r \<and> 0 \<le> r \<and> r \<le> 1000000000000000"
proof (cases "v = 0")
  case True
  then show ?thesis by (simp add: sqrt_def integer_sqrt_def checked_mul_def in_i128_def i128_max_def i128_min_def)
next
  case False
  define p where "p = v * SCALE"
  have p: "2 \<le> p" "p \<le> 1000000000000000" using assms False by (simp_all add: p_def SCALE_def)
  have r: "in_i128 p" "in_i128 (p + 1)" "in_i128 ((p + 1) div 2)" using p by (auto simp: in_i128_def i128_max_def i128_min_def)
  have d: "p div p = 1" using p by simp
  have "p < (p + 1) * (p + 1)"
  proof -
    have "(p + 1) * (p + 1) = p * p + 2 * p + 1" by (simp add: algebra_simps)
    moreover have "0 \<le> p * p" by simp
    ultimately show ?thesis using p(1) by linarith
  qed
  then obtain x where x: "sqrt_loop p p ((p + 1) div 2) = Ok x" "0 < x" "x * x \<le> p"
    using newton_loop_correct [where loop = "sqrt_loop p", OF sqrt_loop.simps, of p "(p + 1) div 2"] p r d by auto
  have "sqrt v = Ok x"
    using p r x(1) by (simp add: sqrt_def integer_sqrt_def checked_mul_def i128_add_def i128_div_def flip: p_def)
  moreover have "x * 1 \<le> x * x" using x(2) by (intro mult_left_mono) auto
  then have "x \<le> 1000000000000000" using x(3) p(2) by linarith
  ultimately show ?thesis using x(2) by (intro exI [of _ x]) simp
qed

text \<open>What the first part hands on.\<close>

lemma bs_common_Ok:
  assumes "bs_common input = Ok (time, sqrt_time, d1, d2, dk, pdf)" "time_to_expiry input \<le> 315576000" "0 < volatility input"
  shows "0 \<le> sqrt_time \<and> sqrt_time \<le> 1000000000000000 \<and> negatable d1 \<and> negatable d2"
proof -
  define z where "z = (int (time_to_expiry input) * SCALE) sdiv SECONDS_PER_YEAR"
  have "int (time_to_expiry input) * SCALE \<le> 100000000 * SECONDS_PER_YEAR"
    using assms(2) by (simp add: SCALE_def SECONDS_PER_YEAR_def)
  then have z: "0 \<le> z" "z \<le> 100000000"
    unfolding z_def by (simp_all add: SCALE_def SECONDS_PER_YEAR_def pos_imp_zdiv_nonneg_iff div_mono_mult)
  obtain r where r: "sqrt z = Ok r" "0 \<le> r" "r \<le> 1000000000000000" using sqrt_never [OF z] by blast
  obtain st num where h: "sqrt_time = r" "math_mul (volatility input) r = Ok st" "math_div num st = Ok d1" "math_sub d1 st = Ok d2"
    using assms(1) r(1) unfolding bs_common_def z_def [symmetric]
    by (auto simp: z_def simp del: math_Ok)
  have st: "1 \<le> st"
  proof -
    have "0 \<le> st" using h(2) r(2) assms(3) by (auto simp: SCALE_def pos_imp_zdiv_nonneg_iff)
    moreover have "st \<noteq> 0" using h(3) by auto
    ultimately show ?thesis by simp
  qed
  have stb: "st \<le> 17014118346046923173168730371589" using math_mul_small [OF h(2)] st by simp
  have d1: "negatable d1" by (rule math_div_negatable [OF h(3)])
  have q: "\<bar>d1\<bar> = \<bar>num * SCALE\<bar> div st" using h(3) st by (simp add: abs_sdiv)
  have le: "\<bar>num * SCALE\<bar> \<le> 170141183460469231731687303715884105728"
    using h(3) by (auto simp: in_i128_def i128_max_def i128_min_def)
  have d2: "d2 = d1 - st" "in_i128 d2" using h(4) by auto
  have "d2 \<noteq> i128_min"
  proof (cases "st = 1")
    case True
    then have "d1 = num * SCALE" using h(3) by simp
    show ?thesis
    proof
      assume "d2 = i128_min"
      then have "num * 1000000 * 10 = (- 170141183460469231731687303715884105727 :: int)"
        using \<open>d1 = num * SCALE\<close> d2 True by (simp add: SCALE_def i128_min_def)
      then have "(num * 1000000 * 10) mod 10 = (- 170141183460469231731687303715884105727 :: int) mod 10" by (rule arg_cong)
      then show False by simp
    qed
  next
    case False
    then have "2 \<le> st" using st by simp
    have "\<bar>d1\<bar> * 2 \<le> \<bar>d1\<bar> * st" using \<open>2 \<le> st\<close> by (intro mult_left_mono) auto
    also have "\<dots> \<le> \<bar>num * SCALE\<bar>" unfolding q using st by (intro div_mult_le) simp
    finally have "\<bar>d1\<bar> \<le> 85070591730234615865843651857942052864" using le by linarith
    then show ?thesis using stb st d2(1) by (auto simp: i128_min_def)
  qed
  then have "negatable d2" using d2(2) by (auto simp: negatable_def in_i128_def i128_max_def i128_min_def)
  then show ?thesis using h(1) r d1 by simp
qed

lemma bs_common_never:
  assumes "time_to_expiry input \<le> 315576000"
  shows "never t (bs_common input)"
proof -
  define z where "z = (int (time_to_expiry input) * SCALE) sdiv SECONDS_PER_YEAR"
  have "int (time_to_expiry input) * SCALE \<le> 100000000 * SECONDS_PER_YEAR"
    using assms by (simp add: SCALE_def SECONDS_PER_YEAR_def)
  then have z: "0 \<le> z" "z \<le> 100000000"
    unfolding z_def by (simp_all add: SCALE_def SECONDS_PER_YEAR_def pos_imp_zdiv_nonneg_iff div_mono_mult)
  have s: "never t (sqrt x)" if "ok_or MathOverflow (Option.bind (checked_mul (int (time_to_expiry input)) SCALE)
       (\<lambda>v. checked_div v SECONDS_PER_YEAR)) = Ok x" for x
  proof -
    have "x = z" using that by (simp add: z_def)
    then show ?thesis using sqrt_never [OF z] by (auto simp: never_def)
  qed
  have h: "never t (i128_div x 2)" if "math_mul a b = Ok x" for x a b
    by (rule never_div_positive) (use math_mul_negatable [OF that] in \<open>auto simp: negatable_def\<close>)
  have r: "in_i128 x" if "math_div a b = Ok x" for x a b using that by simp
  show ?thesis
    unfolding bs_common_def by (intro never_intros s h math_mul_negatable r; assumption)
qed

lemma bs_legs_never:
  assumes "negatable d1" "negatable d2" shows "never t (bs_legs input time d1 d2 dk)"
proof -
  have m: "negatable x" if "i128_neg y = Ok x" "negatable y" for x y using that by (auto simp: negatable_def)
  show ?thesis
    unfolding bs_legs_def
    by (cases "gi_kind input"; simp only: OptionKind.case; intro never_intros;
        (rule assms | erule math_mul_negatable | erule m, rule assms))
qed

lemma bs_finish_never:
  assumes "0 \<le> sqrt_time" "sqrt_time \<le> 1000000000000000" shows "never t (bs_finish input sqrt_time pdf legs)"
proof -
  have m: "never t (i128_mul 2 sqrt_time)" using assms by (simp add: never_def in_i128_def i128_max_def i128_min_def)
  show ?thesis
    unfolding bs_finish_def by (intro never_intros; (rule m | erule math_div_negatable))
qed

lemma black_scholes_never: "never t (black_scholes input)"
proof (cases "0 < volatility input \<and> time_to_expiry input \<le> 315576000")
  case False
  then show ?thesis by (auto simp: black_scholes_def never_def)
next
  case True
  have legs: "never t (and_then (bs_legs input time d1 d2 dk) (bs_finish input sqrt_time pdf))"
    if "bs_common input = Ok (time, sqrt_time, d1, d2, dk, pdf)" for time sqrt_time d1 d2 dk pdf
    using bs_common_Ok [OF that] True by (intro never_and_then bs_legs_never bs_finish_never) auto
  have "never t (and_then (bs_common input) (\<lambda>(time, sqrt_time, d1, d2, dk, pdf).
      and_then (bs_legs input time d1 d2 dk) (\<lambda>legs. bs_finish input sqrt_time pdf legs)))"
    by (intro never_and_then [OF bs_common_never]) (use True legs in \<open>auto split: prod.split\<close>)
  then show ?thesis unfolding black_scholes_def by (intro never_if never_leaf)
qed

section \<open>Call and put\<close>

lemma normal_cdf_zero: "normal_cdf 0 = Ok 5000001"
  by code_simp

text \<open>The two tails of the distribution add up to one, up to the rounding at zero.\<close>

lemma normal_cdf_tails:
  assumes "normal_cdf v = Ok a" "normal_cdf (- v) = Ok b"
  shows "SCALE \<le> a + b \<and> a + b \<le> SCALE + 2"
proof (cases "v = 0")
  case True
  then show ?thesis using assms normal_cdf_zero by (simp add: SCALE_def)
next
  case False
  obtain x where x: "(i128_abs v :: (option_error, int) outcome) = Ok x"
    using assms(1) by (auto simp: normal_cdf_def simp del: math_Ok)
  obtain y where y: "(i128_abs (- v) :: (option_error, int) outcome) = Ok y"
    using assms(2) by (auto simp: normal_cdf_def simp del: math_Ok)
  have xy: "y = x" using x y by (auto simp: i128_abs_def split: if_splits)
  have "a + b = SCALE"
    using assms False unfolding normal_cdf_def x y xy
    by (cases "0 < v") (auto simp del: math_Ok simp: math_sub_def)
  then show ?thesis by simp
qed

lemma math_mul_round:
  assumes "math_mul a b = Ok c" shows "\<bar>c * SCALE - a * b\<bar> < SCALE"
proof -
  have c: "c * SCALE + (a * b) smod SCALE = a * b" using assms by (simp add: sdiv_mult_smod_eq)
  have "\<bar>(a * b) smod SCALE\<bar> < SCALE"
    by (cases "0 \<le> a * b")
      (auto simp: signed_modulo_int_def SCALE_def abs_mult sgn_if)
  then show ?thesis using c by linarith
qed

lemma weighted_sum:
  assumes "math_mul s a = Ok x" "math_mul s b = Ok y" "SCALE \<le> a + b" "a + b \<le> SCALE + 2"
  shows "\<bar>x + y - s\<bar> * SCALE \<le> 2 * SCALE + 2 * \<bar>s\<bar>"
proof -
  have "(x + y - s) * SCALE = (x * SCALE - s * a) + (y * SCALE - s * b) + s * (a + b - SCALE)" by (simp add: algebra_simps)
  moreover have "\<bar>s * (a + b - SCALE)\<bar> \<le> \<bar>s\<bar> * 2"
    unfolding abs_mult by (intro mult_left_mono) (use assms(3,4) in auto)
  ultimately have "\<bar>(x + y - s) * SCALE\<bar> \<le> 2 * SCALE + 2 * \<bar>s\<bar>"
    using math_mul_round [OF assms(1)] math_mul_round [OF assms(2)] by linarith
  moreover have "\<bar>(x + y - s) * SCALE\<bar> = \<bar>x + y - s\<bar> * SCALE" by (simp only: abs_mult) (simp add: SCALE_def)
  ultimately show ?thesis by linarith
qed

lemma bs_common_kind [simp]: "bs_common (input\<lparr>gi_kind := k\<rparr>) = bs_common input"
  by (simp add: bs_common_def)

lemma black_scholes_Ok:
  assumes "black_scholes input = Ok g"
  shows "\<exists>time sqrt_time d1 d2 dk pdf legs. bs_common input = Ok (time, sqrt_time, d1, d2, dk, pdf) \<and>
    bs_legs input time d1 d2 dk = Ok legs \<and> bs_finish input sqrt_time pdf legs = Ok g"
  using assms by (auto simp: black_scholes_def split: if_splits)

lemma bs_finish_Ok:
  assumes "bs_finish input sqrt_time pdf (price, dl, leg, rh) = Ok g"
  shows "\<exists>d gd e. g_price g = max 0 price \<and> delta g = dl \<and> rho g = rh \<and>
    math_mul (gi_spot_price input) (volatility input) = Ok d \<and> math_mul d sqrt_time = Ok gd \<and> math_div pdf gd = Ok (gamma g) \<and>
    math_mul (gi_spot_price input) pdf = Ok e \<and> math_mul e sqrt_time = Ok (vega g)"
  using assms unfolding bs_finish_def by (auto simp del: math_Ok)

lemma bs_legs_call:
  assumes "bs_legs (input\<lparr>gi_kind := Call\<rparr>) time d1 d2 dk = Ok (price, dl, leg, rh)"
  shows "\<exists>nd1 nd2 a b e. normal_cdf d1 = Ok nd1 \<and> normal_cdf d2 = Ok nd2 \<and> math_mul (gi_spot_price input) nd1 = Ok a \<and>
    math_mul dk nd2 = Ok b \<and> price = a - b \<and> dl = nd1 \<and> math_mul dk time = Ok e \<and> math_mul e nd2 = Ok rh"
  using assms unfolding bs_legs_def by (auto simp del: math_Ok simp: math_sub_def)

lemma bs_legs_put:
  assumes "bs_legs (input\<lparr>gi_kind := Put\<rparr>) time d1 d2 dk = Ok (price, dl, leg, rh)"
  shows "\<exists>nd1 nmd1 nmd2 a b e f. normal_cdf d1 = Ok nd1 \<and> normal_cdf (- d1) = Ok nmd1 \<and> normal_cdf (- d2) = Ok nmd2 \<and>
    math_mul dk nmd2 = Ok a \<and> math_mul (gi_spot_price input) nmd1 = Ok b \<and> price = a - b \<and> dl = nd1 - SCALE \<and>
    math_mul dk time = Ok e \<and> math_mul e nmd2 = Ok f \<and> rh = - f"
  using assms unfolding bs_legs_def by (auto simp del: math_Ok simp: math_sub_def)

section \<open>Properties\<close>

text \<open>
  C35. \<open>calculate_greeks\<close> never panics: whatever the input, it returns prices and Greeks or one of the
  contract's errors; no negation, shift, division, absolute value or square-root iteration in the
  Black-Scholes code can overflow or divide by zero.
\<close>

theorem black_scholes_never_panics:
  "calculate_greeks input \<noteq> Trap t"
  using black_scholes_never [of t input] by (simp add: calculate_greeks_def never_def)

text \<open>
  C36. Put-call parity: for the same inputs the deltas of call and put differ by exactly one, gamma
  and vega are identical, and (where neither price is cut off at zero) the prices differ by spot
  minus discounted strike, up to four units and two ten-millionths of spot and strike.
\<close>

theorem put_call_parity:
  assumes "calculate_greeks (input\<lparr>gi_kind := Call\<rparr>) = Ok gc" "calculate_greeks (input\<lparr>gi_kind := Put\<rparr>) = Ok gp"
  shows "delta gc - delta gp = SCALE \<and> gamma gc = gamma gp \<and> vega gc = vega gp \<and>
    (\<exists>time root d1 d2 dk pdf. bs_common input = Ok (time, root, d1, d2, dk, pdf) \<and>
      (0 < g_price gc \<and> 0 < g_price gp \<longrightarrow>
        \<bar>g_price gc - g_price gp - (gi_spot_price input - dk)\<bar> * SCALE \<le> 4 * SCALE + 2 * (\<bar>gi_spot_price input\<bar> + \<bar>dk\<bar>)))"
proof -
  obtain time root d1 d2 dk pdf lc where c: "bs_common input = Ok (time, root, d1, d2, dk, pdf)"
      "bs_legs (input\<lparr>gi_kind := Call\<rparr>) time d1 d2 dk = Ok lc" "bs_finish (input\<lparr>gi_kind := Call\<rparr>) root pdf lc = Ok gc"
    using black_scholes_Ok [OF assms(1) [unfolded calculate_greeks_def]] by auto
  obtain lp where p: "bs_legs (input\<lparr>gi_kind := Put\<rparr>) time d1 d2 dk = Ok lp" "bs_finish (input\<lparr>gi_kind := Put\<rparr>) root pdf lp = Ok gp"
    using black_scholes_Ok [OF assms(2) [unfolded calculate_greeks_def]] c(1) by auto
  obtain pc dc tc rc where lc: "lc = (pc, dc, tc, rc)" by (cases lc)
  obtain pp dp tp rp where lp: "lp = (pp, dp, tp, rp)" by (cases lp)
  obtain nd1 nd2 a b where C: "normal_cdf d1 = Ok nd1" "normal_cdf d2 = Ok nd2" "math_mul (gi_spot_price input) nd1 = Ok a"
      "math_mul dk nd2 = Ok b" "pc = a - b" "dc = nd1"
    using bs_legs_call [OF c(2) [unfolded lc]] by blast
  obtain md1 md2 x y where P: "normal_cdf (- d1) = Ok md1" "normal_cdf (- d2) = Ok md2" "math_mul dk md2 = Ok x"
      "math_mul (gi_spot_price input) md1 = Ok y" "pp = x - y" "dp = nd1 - SCALE"
    using bs_legs_put [OF p(1) [unfolded lp]] C(1) by auto
  note FC = bs_finish_Ok [OF c(3) [unfolded lc]] and FP = bs_finish_Ok [OF p(2) [unfolded lp]]
  have greeks: "delta gc - delta gp = SCALE" "gamma gc = gamma gp" "vega gc = vega gp"
    using FC FP C(6) P(6) by auto
  have "\<bar>a + y - gi_spot_price input\<bar> * SCALE \<le> 2 * SCALE + 2 * \<bar>gi_spot_price input\<bar>"
    using weighted_sum [OF C(3) P(4)] normal_cdf_tails [OF C(1) P(1)] by blast
  moreover have "\<bar>b + x - dk\<bar> * SCALE \<le> 2 * SCALE + 2 * \<bar>dk\<bar>"
    using weighted_sum [OF C(4) P(3)] normal_cdf_tails [OF C(2) P(2)] by blast
  moreover have "\<bar>pc - pp - (gi_spot_price input - dk)\<bar> \<le> \<bar>a + y - gi_spot_price input\<bar> + \<bar>b + x - dk\<bar>"
    using C(5) P(5) by linarith
  ultimately have "\<bar>pc - pp - (gi_spot_price input - dk)\<bar> * SCALE \<le> 4 * SCALE + 2 * (\<bar>gi_spot_price input\<bar> + \<bar>dk\<bar>)"
    by (simp add: SCALE_def)
  moreover have "g_price gc = pc" if "0 < g_price gc" using FC that by auto
  moreover have "g_price gp = pp" if "0 < g_price gp" using FP that by auto
  ultimately show ?thesis using greeks c(1) by auto
qed

text \<open>At the money, a year ahead, without interest.\<close>

definition demo_greeks :: GreeksInput where
  "demo_greeks = \<lparr>gi_spot_price = 1000000000, gi_strike_price = 1000000000, volatility = 2000000, risk_free_rate = 0,
     time_to_expiry = 31557600, gi_kind = Call\<rparr>"

lemma demo_math:
  "sqrt 10000000 = Ok 10000000" "ln 10000000 = Ok 0" "exp 0 = Ok 10000000"
  "normal_pdf 1000000 = Ok 3969525" 
  "normal_cdf 1000000 = Ok 5398280" "normal_cdf (- 1000000) = Ok 4601720"
  by code_simp+

lemma demo_common:
  "bs_common demo_greeks = Ok (10000000, 10000000, 1000000, - 1000000, 1000000000, 3969525)"
  using demo_math
  by (simp add: bs_common_def demo_greeks_def math_mul_def math_div_def math_add_def math_sub_def checked_mul_def
      checked_div_def checked_add_def checked_sub_def i128_div_def i128_neg_def i128_sub_def in_i128_def i128_max_def
      i128_min_def SCALE_def SECONDS_PER_YEAR_def del: math_Ok)

lemma demo_greeks_both:
  "\<exists>gc gp. calculate_greeks (demo_greeks\<lparr>gi_kind := Call\<rparr>) = Ok gc \<and> calculate_greeks (demo_greeks\<lparr>gi_kind := Put\<rparr>) = Ok gp \<and>
     g_price gc = 79656000 \<and> g_price gp = 79656000"
  using demo_math demo_common
  by (simp add: calculate_greeks_def black_scholes_def)
    (simp add: bs_legs_def bs_finish_def demo_greeks_def math_mul_def math_div_def math_add_def math_sub_def
      checked_mul_def checked_div_def checked_add_def checked_sub_def i128_mul_def i128_neg_def i128_sub_def in_i128_def
      i128_max_def i128_min_def SCALE_def del: math_Ok)

theorem put_call_parity_witness:
  "\<exists>gc gp. calculate_greeks (demo_greeks\<lparr>gi_kind := Call\<rparr>) = Ok gc \<and> calculate_greeks (demo_greeks\<lparr>gi_kind := Put\<rparr>) = Ok gp \<and>
     0 < g_price gc \<and> 0 < g_price gp \<and> delta gc - delta gp = SCALE \<and> gamma gc = gamma gp \<and> vega gc = vega gp"
proof -
  obtain gc gp where g: "calculate_greeks (demo_greeks\<lparr>gi_kind := Call\<rparr>) = Ok gc" "calculate_greeks (demo_greeks\<lparr>gi_kind := Put\<rparr>) = Ok gp"
    "g_price gc = 79656000" "g_price gp = 79656000"
    using demo_greeks_both by blast
  then show ?thesis using put_call_parity [OF g(1,2)] by auto
qed

end
