(* ===== verification/Options_Books_Correct.thy ===== *)
theory Options_Books_Correct
  imports Token_Correct Options_Math_Correct
begin

text \<open>
  The margin pool of the options: reserved margin is exactly what the open positions hold, every
  deposit is covered by tokens, options move only along their life cycle and settle at the capped
  intrinsic value.
\<close>

section \<open>Success of each operation\<close>

lemma option_getters_Ok [simp]:
  "get_admin s = Ok a \<longleftrightarrow> Admin s = Some a"
  "get_option s i = Ok c \<longleftrightarrow> Options s i = Some c"
  "get_margin_config s = Ok g \<longleftrightarrow> MarginConfigEntry s = Some g"
  "get_margin_position s i = Ok p \<longleftrightarrow> MarginPositions s i = Some p"
  "get_price s y = Ok d \<longleftrightarrow> Prices s y = Some d"
  "assert_initialized_guard s = Ok v \<longleftrightarrow> Admin s \<noteq> None"
  "assert_not_paused s = Ok v \<longleftrightarrow> \<not> is_paused s"
  "assert_admin env a s = Ok v \<longleftrightarrow> Admin s = Some a \<and> auth env a"
  by (auto simp: option_getters assert_initialized_guard_def assert_not_paused_def assert_admin_def split: if_splits)

lemma configure_Ok:
  assumes "configure_margin_pool env a tok orc bps age s = Ok (u, t)"
  shows "MarginConfigEntry s = None \<and> 0 < bps \<and>
    (\<exists>c. c = \<lparr>settlement_token = tok, mc_oracle = orc, maintenance_margin_bps = bps, max_price_age = age\<rparr> \<and>
      t = publish (Ev_margincfg c) (s\<lparr>MarginConfigEntry := Some c\<rparr>))"
  using assms by (auto simp: configure_margin_pool_def has_margin_config_def set_margin_config_def Let_def split: if_splits)

lemma opt_price_Ok:
  assumes "update_price env orc y x s = Ok (u, t)"
  shows "0 < x \<and> (\<exists>c. MarginConfigEntry s = Some c \<and> mc_oracle c = orc \<and> auth env orc) \<and>
    t = publish (Ev_price y \<lparr>pd_price = x, updated_at = timestamp env\<rparr>)
      (s\<lparr>Prices := (Prices s)(y \<mapsto> \<lparr>pd_price = x, updated_at = timestamp env\<rparr>)\<rparr>)"
  using assms by (auto simp: update_price_def set_price_def Let_def split: if_splits)

lemma write_Ok:
  assumes "write_option env wr ho y strike prem amt ex k s = Ok (i, t)"
  shows "i = Suc (get_option_count s) \<and> Admin s \<noteq> None \<and> auth env wr \<and> 0 < strike \<and> 0 < amt \<and> timestamp env < ex \<and>
    t = publish (Ev_written i wr ho) (s\<lparr>Options := (Options s)(i \<mapsto> \<lparr>opt_id = i, writer = wr, holder = ho, underlying = y,
      strike_price = strike, premium = prem, opt_amount = amt, expiry = ex, kind = k, opt_status = Active\<rparr>),
      OptionCount := Some i\<rparr>)"
  using assms by (auto simp: write_option_def set_option_def set_option_count_def Let_def split: if_splits)

lemma cancel_Ok:
  assumes "cancel_option env wr i s = Ok (u, t)"
  shows "\<exists>c. auth env wr \<and> Options s i = Some c \<and> writer c = wr \<and> MarginPositions s i = None \<and> opt_status c = Active \<and>
    t = publish (Ev_cancelled i wr) (s\<lparr>Options := (Options s)(opt_id c \<mapsto> c\<lparr>opt_status := Cancelled\<rparr>)\<rparr>)"
  using assms by (auto simp: cancel_option_def has_margin_position_def set_option_def split: if_splits)

lemma cancel_both_Ok:
  assumes "cancel_collateralized_option env wr ho i s = Ok (u, t)"
  shows "\<exists>c p q. auth env wr \<and> auth env ho \<and> Options s i = Some c \<and> writer c = wr \<and> holder c = ho \<and> opt_status c = Active \<and>
    timestamp env < expiry c \<and> MarginPositions s i = Some p \<and>
    (if MarginPositions s (opt_id c) = None then True else MarginPositions s (opt_id c) = Some q) \<and>
    t = publish (Ev_cancelled_by_both i wr ho)
      (s\<lparr>MarginAccounts := (if MarginPositions s (opt_id c) = None then MarginAccounts s
           else (MarginAccounts s)(wr \<mapsto> (get_margin_account s wr)\<lparr>ma_locked := ma_locked (get_margin_account s wr) - mp_locked q\<rparr>)),
         MarginPositions := (if MarginPositions s (opt_id c) = None then MarginPositions s else (MarginPositions s)(opt_id c := None)),
         Options := (Options s)(opt_id c \<mapsto> c\<lparr>opt_status := Cancelled\<rparr>)\<rparr>)"
proof -
  obtain c p s1 where h: "auth env wr" "auth env ho" "Options s i = Some c" "writer c = wr" "holder c = ho" "opt_status c = Active"
    "timestamp env < expiry c" "MarginPositions s i = Some p" "release_position c s = Ok ((), s1)"
    "t = publish (Ev_cancelled_by_both i wr ho) (set_option (c\<lparr>opt_status := Cancelled\<rparr>) s1)"
    using assms by (auto simp: cancel_collateralized_option_def not_le split: if_splits)
  then show ?thesis
    by (cases "MarginPositions s (opt_id c)")
      (auto simp: release_position_def has_margin_position_def set_option_def set_margin_account_def remove_margin_position_def Let_def)
qed

lemma exercise_Ok:
  assumes "exercise env ho i s = Ok (x, t)"
  shows "\<exists>c. auth env ho \<and> Options s i = Some c \<and> holder c = ho \<and> MarginPositions s i = None \<and> opt_status c = Active \<and>
    timestamp env \<le> expiry c \<and> x = strike_price c \<and>
    t = publish (Ev_exercised i ho x) (s\<lparr>Options := (Options s)(opt_id c \<mapsto> c\<lparr>opt_status := Exercised\<rparr>)\<rparr>)"
  using assms by (auto simp: exercise_def has_margin_position_def set_option_def Let_def split: if_splits)

lemma expire_Ok:
  assumes "expire_option env i s = Ok (u, t)"
  shows "\<exists>c. Options s i = Some c \<and> MarginPositions s i = None \<and> opt_status c = Active \<and> expiry c < timestamp env \<and>
    t = publish (Ev_expired i) (s\<lparr>Options := (Options s)(opt_id c \<mapsto> c\<lparr>opt_status := Expired\<rparr>)\<rparr>)"
  using assms by (auto simp: expire_option_def has_margin_position_def set_option_def split: if_splits)

lemma fresh_price_Ok:
  "fresh_price env y config s = Ok x \<Longrightarrow>
     \<exists>d. Prices s y = Some d \<and> x = pd_price d \<and> updated_at d \<le> timestamp env \<and>
       timestamp env - updated_at d \<le> max_price_age config"
  by (auto simp: fresh_price_def Let_def split: if_splits)

lemma check_Ok:
  assumes "check_margin env i s = Ok (b, t)"
  shows "\<exists>c config spot p required. Options s i = Some c \<and> (opt_status c = Active \<or> opt_status c = MarginCalled) \<and>
    MarginConfigEntry s = Some config \<and> fresh_price env (underlying c) config s = Ok spot \<and> MarginPositions s i = Some p \<and>
    required_margin spot (strike_price c) (opt_amount c) (kind c) (max_payout p) (maintenance_margin_bps config) = Ok required \<and>
    (let account = get_margin_account s (writer c); additional = required - mp_locked p in
     if ma_balance account - ma_locked account < additional
     then \<not> b \<and> (\<exists>x. t = publish (Ev_margcall i x) (s\<lparr>Options := (Options s)(opt_id c \<mapsto> c\<lparr>opt_status := MarginCalled\<rparr>)\<rparr>))
     else b \<and> t = publish (Ev_marginok i required)
       (s\<lparr>MarginAccounts := (MarginAccounts s)(writer c \<mapsto> account\<lparr>ma_locked := ma_locked account + additional\<rparr>),
          MarginPositions := (MarginPositions s)(i \<mapsto> p\<lparr>mp_locked := required\<rparr>),
          Options := (Options s)(opt_id c \<mapsto> c\<lparr>opt_status := Active\<rparr>)\<rparr>))"
proof -
  obtain c where c: "Options s i = Some c" "opt_status c = Active \<or> opt_status c = MarginCalled"
    using assms by (auto simp: check_margin_def split: if_splits)
  obtain config spot p required where h: "MarginConfigEntry s = Some config" "fresh_price env (underlying c) config s = Ok spot"
    "MarginPositions s i = Some p"
    "required_margin spot (strike_price c) (opt_amount c) (kind c) (max_payout p) (maintenance_margin_bps config) = Ok required"
    using assms c unfolding check_margin_def by (auto split del: if_split split: if_split_asm)
  show ?thesis
  proof (cases "ma_balance (get_margin_account s (writer c)) - ma_locked (get_margin_account s (writer c)) < required - mp_locked p")
    case True
    then show ?thesis using assms c h by (auto simp: check_margin_def set_option_def Let_def)
  next
    case False
    then show ?thesis using assms c h
      by (auto simp: check_margin_def set_option_def set_margin_account_def set_margin_position_def Let_def)
  qed
qed

lemma opt_deposit_Ok:
  assumes "deposit_margin tc env a x (w, s) = Ok (u, w', t)"
  shows "\<exists>c. 0 < x \<and> auth env a \<and> MarginConfigEntry s = Some c \<and>
    tc (settlement_token c) (subcall_env env (settlement_token c)) a (current_contract env) x w = Some w' \<and>
    in_i128 (ma_balance (get_margin_account s a) + x) \<and>
    t = publish (Ev_deposit a x) (s\<lparr>MarginAccounts := (MarginAccounts s)(a \<mapsto>
      (get_margin_account s a)\<lparr>ma_balance := ma_balance (get_margin_account s a) + x\<rparr>)\<rparr>)"
  using assms by (auto simp: deposit_margin_def set_margin_account_def Let_def split: if_splits)

lemma withdraw_Ok:
  assumes "withdraw_margin tc env a x (w, s) = Ok (u, w', t)"
  shows "\<exists>c. 0 < x \<and> auth env a \<and> MarginConfigEntry s = Some c \<and>
    x \<le> ma_balance (get_margin_account s a) - ma_locked (get_margin_account s a) \<and>
    tc (settlement_token c) (subcall_env env (settlement_token c)) (current_contract env) a x w = Some w' \<and>
    in_i128 (ma_balance (get_margin_account s a) - x) \<and>
    t = publish (Ev_withdraw a x) (s\<lparr>MarginAccounts := (MarginAccounts s)(a \<mapsto>
      (get_margin_account s a)\<lparr>ma_balance := ma_balance (get_margin_account s a) - x\<rparr>)\<rparr>)"
  using assms by (auto simp: withdraw_margin_def set_margin_account_def Let_def split: if_splits)

lemma write_collateralized_Ok:
  assumes "write_collateralized_option tc env wr ho y strike prem amt ex k mx (w, s) = Ok (i, w', t)"
  shows "\<exists>config spot required. i = Suc (get_option_count s) \<and> Admin s \<noteq> None \<and> auth env wr \<and> auth env ho \<and> wr \<noteq> ho \<and>
    0 < strike \<and> 0 < amt \<and> 0 < mx \<and> timestamp env < ex \<and> MarginConfigEntry s = Some config \<and>
    fresh_price env y config s = Ok spot \<and> required_margin spot strike amt k mx (maintenance_margin_bps config) = Ok required \<and>
    required \<le> ma_balance (get_margin_account s wr) - ma_locked (get_margin_account s wr) \<and>
    (w' = w \<or> tc (settlement_token config) (subcall_env env (settlement_token config)) ho wr prem w = Some w') \<and>
    t = publish (Ev_collatopt i wr ho required) (s\<lparr>
      MarginAccounts := (MarginAccounts s)(wr \<mapsto> (get_margin_account s wr)\<lparr>ma_locked := ma_locked (get_margin_account s wr) + required\<rparr>),
      MarginPositions := (MarginPositions s)(i \<mapsto> \<lparr>mp_locked = required, max_payout = mx\<rparr>),
      Options := (Options s)(i \<mapsto> \<lparr>opt_id = i, writer = wr, holder = ho, underlying = y,
      strike_price = strike, premium = prem, opt_amount = amt, expiry = ex, kind = k, opt_status = Active\<rparr>),
      OptionCount := Some i\<rparr>)"
  using assms
  by (auto simp: write_collateralized_option_def validate_option_def set_margin_account_def set_margin_position_def
      set_option_def set_option_count_def Let_def split: if_splits)

lemma settle_option_Ok:
  assumes "settle_option tc env i (w, s) = Ok (x, w', t)"
  shows "\<exists>c config spot p v. Options s i = Some c \<and> (opt_status c = Active \<or> opt_status c = MarginCalled) \<and>
    expiry c \<le> timestamp env \<and> MarginConfigEntry s = Some config \<and> fresh_price env (underlying c) config s = Ok spot \<and>
    MarginPositions s i = Some p \<and> intrinsic_value spot (strike_price c) (opt_amount c) (kind c) = Ok v \<and>
    x = min v (max_payout p) \<and> x \<le> mp_locked p \<and> in_i128 (ma_balance (get_margin_account s (writer c)) - x) \<and>
    (if 0 < x then tc (settlement_token config) (subcall_env env (settlement_token config)) (current_contract env) (holder c) x w = Some w'
     else w' = w) \<and>
    t = publish (Ev_settled i (holder c) x spot) (s\<lparr>
      MarginAccounts := (MarginAccounts s)(writer c \<mapsto> \<lparr>ma_balance = ma_balance (get_margin_account s (writer c)) - x,
        ma_locked = ma_locked (get_margin_account s (writer c)) - mp_locked p\<rparr>),
      MarginPositions := (MarginPositions s)(i := None),
      Options := (Options s)(opt_id c \<mapsto> c\<lparr>opt_status := (if 0 < x then Exercised else Expired)\<rparr>)\<rparr>)"
proof -
  obtain c where c: "Options s i = Some c" "opt_status c = Active \<or> opt_status c = MarginCalled" "expiry c \<le> timestamp env"
    using assms by (auto simp: settle_option_def split: if_splits)
  obtain config spot p v where h: "MarginConfigEntry s = Some config" "fresh_price env (underlying c) config s = Ok spot"
    "MarginPositions s i = Some p" "intrinsic_value spot (strike_price c) (opt_amount c) (kind c) = Ok v"
    using assms c unfolding settle_option_def by (auto split del: if_split split: if_split_asm)
  show ?thesis
  proof (cases "0 < min v (max_payout p)")
    case True
    then show ?thesis using assms c h
      by (auto simp: settle_option_def set_option_def set_margin_account_def remove_margin_position_def Let_def split: if_splits)
  next
    case False
    then show ?thesis using assms c h
      by (auto simp: settle_option_def set_option_def set_margin_account_def remove_margin_position_def Let_def split: if_splits)
  qed
qed

section \<open>The books of the margin pool\<close>

text \<open>The margin each position reserves, with the writer it is reserved for.\<close>

definition reserved :: "option_state \<Rightarrow> nat \<Rightarrow> (address \<times> int) option" where
  "reserved s i = map_option (\<lambda>p. (writer (the (Options s i)), mp_locked p)) (MarginPositions s i)"

definition share_of :: "address \<Rightarrow> address \<times> int \<Rightarrow> int" where
  "share_of a r = (if fst r = a then snd r else 0)"

definition reserved_for :: "address \<Rightarrow> option_state \<Rightarrow> int" where
  "reserved_for a s = total_of (share_of a) (reserved s)"

text \<open>All margin that has been deposited.\<close>

definition deposits :: "option_state \<Rightarrow> int" where
  "deposits s = total_of ma_balance (MarginAccounts s)"

lemma deposits_frame [simp]:
  "deposits (s\<lparr>option_state.Admin := a\<rparr>) = deposits s"
  "deposits (s\<lparr>option_state.OptionCount := n\<rparr>) = deposits s"
  "deposits (s\<lparr>option_state.Paused := b\<rparr>) = deposits s"
  "deposits (s\<lparr>option_state.MarginConfigEntry := c\<rparr>) = deposits s"
  "deposits (s\<lparr>option_state.Options := m\<rparr>) = deposits s"
  "deposits (s\<lparr>option_state.MarginPositions := q\<rparr>) = deposits s"
  "deposits (s\<lparr>option_state.Prices := r\<rparr>) = deposits s"
  "deposits (s\<lparr>option_state.events := e\<rparr>) = deposits s"
  by (simp_all add: deposits_def)

definition live :: "OptionStatus \<Rightarrow> bool" where
  "live st \<longleftrightarrow> st = Active \<or> st = MarginCalled"

definition account_ok :: "option_state \<Rightarrow> address \<Rightarrow> bool" where
  "account_ok s a \<longleftrightarrow> (let m = get_margin_account s a in
     ma_locked m = reserved_for a s \<and> 0 \<le> ma_locked m \<and> ma_locked m \<le> ma_balance m \<and> ma_balance m \<le> i128_max)"

definition entry_ok :: "option_state \<Rightarrow> nat \<Rightarrow> bool" where
  "entry_ok s i \<longleftrightarrow>
     (\<forall>c. Options s i = Some c \<longrightarrow> opt_id c = i \<and> 1 \<le> i \<and> i \<le> get_option_count s \<and> 0 < strike_price c \<and> 0 < opt_amount c \<and>
        writer c \<noteq> holder c \<and> (opt_status c = MarginCalled \<longrightarrow> MarginPositions s i \<noteq> None)) \<and>
     (\<forall>p. MarginPositions s i = Some p \<longrightarrow> 0 \<le> mp_locked p \<and> mp_locked p \<le> max_payout p \<and> 0 < max_payout p \<and>
        (\<exists>c. Options s i = Some c \<and> live (opt_status c)))"

definition option_inv :: "option_state \<Rightarrow> bool" where
  "option_inv s \<longleftrightarrow>
     finite (dom (MarginAccounts s)) \<and> finite (dom (MarginPositions s)) \<and>
     (\<forall>a. account_ok s a) \<and> (\<forall>i. entry_ok s i) \<and> (\<forall>y d. Prices s y = Some d \<longrightarrow> 0 < pd_price d) \<and>
     (MarginConfigEntry s = None \<longrightarrow> MarginAccounts s = Map.empty \<and> MarginPositions s = Map.empty) \<and> (Admin s = None \<longrightarrow> Options s = Map.empty)"

lemma option_invD:
  assumes "option_inv s"
  shows "finite (dom (MarginAccounts s))" "finite (dom (MarginPositions s))" "account_ok s a" "entry_ok s i"
    "Prices s y = Some d \<Longrightarrow> 0 < pd_price d" "MarginConfigEntry s = None \<Longrightarrow> MarginAccounts s = Map.empty \<and> MarginPositions s = Map.empty"
    "Admin s = None \<Longrightarrow> Options s = Map.empty"
  using assms unfolding option_inv_def by blast+

lemma option_inv_empty: "option_inv empty_options"
proof -
  have "reserved empty_options = Map.empty" by (simp add: fun_eq_iff reserved_def empty_options_def)
  then show ?thesis
    by (simp add: option_inv_def account_ok_def entry_ok_def reserved_for_def get_margin_account_def)
      (simp add: empty_options_def i128_max_def)
qed

lemma reserved_finite: "finite (dom (MarginPositions s)) \<Longrightarrow> finite (dom (reserved s))"
  by (simp add: dom_def reserved_def)

lemma reserved_for_upd:
  assumes "finite (dom (MarginPositions s))" "reserved t = (reserved s)(i := v)"
  shows "reserved_for a t = reserved_for a s - value_at (share_of a) (reserved s i) + value_at (share_of a) v"
  unfolding reserved_for_def assms(2) by (rule total_of_upd [OF reserved_finite [OF assms(1)]])

lemma reserved_nonneg:
  assumes "option_inv s" shows "0 \<le> value_at (share_of a) (reserved s i)"
  using option_invD(4) [OF assms, of i] by (auto simp: reserved_def value_at_def share_of_def entry_ok_def split: option.splits)

lemma reserved_le:
  assumes "option_inv s" shows "value_at (share_of a) (reserved s i) \<le> reserved_for a s"
proof -
  have nn: "0 \<le> share_of a x" if "reserved s j = Some x" for j x
    using reserved_nonneg [OF assms, of a j] that by simp
  show ?thesis
  proof (cases "reserved s i")
    case None
    then show ?thesis unfolding reserved_for_def by (simp add: total_of_nonneg nn)
  next
    case (Some x)
    then show ?thesis
      unfolding reserved_for_def
      using total_of_ge [OF reserved_finite [OF option_invD(2) [OF assms]] Some, of "share_of a"] nn by simp
  qed
qed

lemma balance_le_deposits:
  assumes "option_inv s" shows "ma_balance (get_margin_account s a) \<le> deposits s"
proof -
  have nn: "0 \<le> ma_balance m" if "MarginAccounts s b = Some m" for b m
    using option_invD(3) [OF assms, of b] that by (simp add: account_ok_def get_margin_account_def Let_def)
  show ?thesis
  proof (cases "MarginAccounts s a")
    case None
    then show ?thesis using nn by (simp add: deposits_def get_margin_account_def total_of_nonneg)
  next
    case (Some m)
    then show ?thesis
      using total_of_ge [OF option_invD(1) [OF assms] Some, of ma_balance] nn by (simp add: deposits_def get_margin_account_def)
  qed
qed

lemma deposits_upd:
  assumes "option_inv s" "MarginAccounts t = (MarginAccounts s)(a \<mapsto> m)"
  shows "deposits t = deposits s - ma_balance (get_margin_account s a) + ma_balance m"
  using total_of_upd [OF option_invD(1) [OF assms(1)], of ma_balance a "Some m"]
  by (cases "MarginAccounts s a") (simp_all add: deposits_def assms(2) get_margin_account_def)

text \<open>
  A step changes the reservation of one option, the account of its writer, and prices or
  configuration; this is what has to be checked.
\<close>

lemma option_inv_update:
  assumes inv: "option_inv s"
    and res: "reserved t = (reserved s)(i := v)"
    and acc: "\<And>b. b \<noteq> a \<Longrightarrow> get_margin_account t b = get_margin_account s b"
    and who: "\<And>b. b \<noteq> a \<Longrightarrow> value_at (share_of b) v = value_at (share_of b) (reserved s i)"
    and own: "account_ok t a"
    and oth: "\<And>j. j \<noteq> i \<Longrightarrow> Options t j = Options s j \<and> MarginPositions t j = MarginPositions s j"
    and cnt: "get_option_count s \<le> get_option_count t"
    and ent: "entry_ok t i"
    and fin: "finite (dom (MarginAccounts t))" "finite (dom (MarginPositions t))"
    and pri: "\<And>y d. Prices t y = Some d \<Longrightarrow> 0 < pd_price d"
    and cfg: "MarginConfigEntry t = None \<Longrightarrow> MarginAccounts t = Map.empty \<and> MarginPositions t = Map.empty" "Admin t = None \<Longrightarrow> Options t = Map.empty"
  shows "option_inv t"
proof -
  have "account_ok t b" for b
  proof (cases "b = a")
    case True
    then show ?thesis using own by simp
  next
    case False
    have "reserved_for b t = reserved_for b s"
      using reserved_for_upd [OF option_invD(2) [OF inv] res, of b] who [OF False] by simp
    then show ?thesis using option_invD(3) [OF inv, of b] acc [OF False] by (simp add: account_ok_def)
  qed
  moreover have "entry_ok t j" for j
  proof (cases "j = i")
    case True
    then show ?thesis using ent by simp
  next
    case False
    then show ?thesis using option_invD(4) [OF inv, of j] oth [OF False] cnt by (auto simp: entry_ok_def)
  qed
  ultimately show ?thesis using fin pri cfg unfolding option_inv_def by blast
qed

text \<open>A change of status alone.\<close>

lemma status_change:
  assumes "option_inv s" "Options s i = Some c" "live st \<or> MarginPositions s i = None"
    "st = MarginCalled \<longrightarrow> MarginPositions s i \<noteq> None"
  defines "t \<equiv> s\<lparr>Options := (Options s)(opt_id c \<mapsto> c\<lparr>opt_status := st\<rparr>)\<rparr>"
  shows "option_inv t \<and> deposits t = deposits s \<and> MarginConfigEntry t = MarginConfigEntry s"
proof -
  note D = option_invD [OF assms(1)]
  have i: "opt_id c = i" using D(4) [of i] assms(2) by (simp add: entry_ok_def)
  have f: "MarginAccounts t = MarginAccounts s" "MarginPositions t = MarginPositions s" "Prices t = Prices s"
    "MarginConfigEntry t = MarginConfigEntry s" "Admin t = Admin s" "OptionCount t = OptionCount s"
    "Options t = (Options s)(i \<mapsto> c\<lparr>opt_status := st\<rparr>)" by (simp_all add: t_def i)
  have r: "reserved t = reserved s" using assms(2) by (auto simp: fun_eq_iff reserved_def f)
  have acc: "get_margin_account t b = get_margin_account s b" for b by (simp add: get_margin_account_def f)
  have "option_inv t"
  proof (rule option_inv_update [OF assms(1), where i = i and v = "reserved s i" and a = "writer c"])
    show "account_ok t (writer c)" using D(3) [of "writer c"] by (simp add: account_ok_def reserved_for_def r acc)
    show "entry_ok t i" using D(4) [of i] assms(2-4) by (auto simp: entry_ok_def f get_option_count_def live_def)
    show "Admin t = None \<Longrightarrow> Options t = Map.empty" using D(7) assms(2) by (simp add: f)
  qed (use D r acc f in \<open>auto simp: get_option_count_def\<close>)
  then show ?thesis by (simp add: deposits_def f)
qed

lemma option_inv_events [simp]: "option_inv (publish e s) = option_inv s" "deposits (publish e s) = deposits s"
  "MarginConfigEntry (publish e s) = MarginConfigEntry s"
proof -
  have r: "reserved (publish e s) = reserved s" by (simp add: fun_eq_iff reserved_def publish_def)
  have g: "get_margin_account (publish e s) = get_margin_account s" by (simp add: fun_eq_iff get_margin_account_def publish_def)
  have c: "get_option_count (publish e s) = get_option_count s" by (simp add: get_option_count_def publish_def)
  show "option_inv (publish e s) = option_inv s"
    by (simp add: option_inv_def account_ok_def entry_ok_def reserved_for_def r g c) (simp add: publish_def)
  show "deposits (publish e s) = deposits s" "MarginConfigEntry (publish e s) = MarginConfigEntry s"
    by (simp_all add: deposits_def publish_def)
qed

lemma required_bounds:
  assumes "required_margin spot strike amt k mx bps = Ok r" "0 < spot" "0 < amt" "0 < mx"
  shows "0 \<le> r \<and> r \<le> mx"
proof -
  obtain v n where h: "intrinsic_value spot strike amt k = Ok v" "math_mul spot amt = Ok n" "r = min (v + (n * int bps) sdiv 10000) mx"
    using assms(1) by (auto simp: required_margin_def simp del: math_Ok)
  have "0 \<le> n" using h(2) assms(2,3) by (auto simp: SCALE_def pos_imp_zdiv_nonneg_iff)
  then have "0 \<le> (n * int bps) sdiv 10000" by (simp add: pos_imp_zdiv_nonneg_iff)
  moreover have "0 \<le> v"
    using h(1) assms(3) by (auto simp: intrinsic_value_def Let_def SCALE_def pos_imp_zdiv_nonneg_iff)
  ultimately show ?thesis using h(3) assms(4) by auto
qed

lemma fresh_price_pos: "option_inv s \<Longrightarrow> fresh_price env y config s = Ok x \<Longrightarrow> 0 < x"
  using fresh_price_Ok [of env y config s x] option_invD(5) [of s y] by auto

lemma new_option_slot:
  assumes "option_inv s"
  shows "Options s (Suc (get_option_count s)) = None" "MarginPositions s (Suc (get_option_count s)) = None"
proof -
  have e: "entry_ok s (Suc (get_option_count s))" by (rule option_invD(4) [OF assms])
  then show o: "Options s (Suc (get_option_count s)) = None" by (cases "Options s (Suc (get_option_count s))") (auto simp: entry_ok_def)
  show "MarginPositions s (Suc (get_option_count s)) = None"
    using e o by (cases "MarginPositions s (Suc (get_option_count s))") (auto simp: entry_ok_def)
qed

text \<open>Reserving \<open>x\<close> more (or less) for an open option.\<close>

lemma reservation_change:
  assumes inv: "option_inv s" and c: "opt_id c = i" "1 \<le> i" "0 < strike_price c" "0 < opt_amount c" "writer c \<noteq> holder c"
      "live (opt_status c)"
    and old: "Options s i = None \<and> cnt = Some i \<and> i = Suc (get_option_count s) \<or>
      (\<exists>c'. Options s i = Some c' \<and> writer c' = writer c) \<and> cnt = OptionCount s"
    and p: "0 \<le> mp_locked p" "mp_locked p \<le> max_payout p" "0 < max_payout p"
    and cfg: "MarginConfigEntry s \<noteq> None" "Admin s \<noteq> None"
    and room: "mp_locked p - value_at (share_of (writer c)) (reserved s i) \<le>
      ma_balance (get_margin_account s (writer c)) - ma_locked (get_margin_account s (writer c))"
  defines "m \<equiv> (get_margin_account s (writer c))\<lparr>ma_locked := ma_locked (get_margin_account s (writer c)) +
      (mp_locked p - value_at (share_of (writer c)) (reserved s i))\<rparr>"
  defines "t \<equiv> s\<lparr>MarginAccounts := (MarginAccounts s)(writer c \<mapsto> m), MarginPositions := (MarginPositions s)(i \<mapsto> p),
      Options := (Options s)(i \<mapsto> c), OptionCount := cnt\<rparr>"
  shows "option_inv t \<and> deposits t = deposits s \<and> MarginConfigEntry t = MarginConfigEntry s"
proof -
  note D = option_invD [OF inv]
  have f: "MarginAccounts t = (MarginAccounts s)(writer c \<mapsto> m)" "MarginPositions t = (MarginPositions s)(i \<mapsto> p)"
    "Options t = (Options s)(i \<mapsto> c)" "get_option_count t = unwrap_or 0 cnt" "Prices t = Prices s" "MarginConfigEntry t = MarginConfigEntry s"
    "Admin t = Admin s" by (simp_all add: t_def get_option_count_def)
  have n: "get_option_count s \<le> unwrap_or 0 cnt" "i \<le> unwrap_or 0 cnt"
    using old D(4) [of i] by (auto simp: entry_ok_def get_option_count_def)
  have r: "reserved t = (reserved s)(i := Some (writer c, mp_locked p))" by (auto simp: fun_eq_iff reserved_def f)
  have v: "value_at (share_of b) (reserved s i) = 0" if "b \<noteq> writer c" for b
    using old that D(4) [of i] by (auto simp: reserved_def share_of_def entry_ok_def value_at_def split: option.splits)
  have acc: "get_margin_account t b = (if b = writer c then m else get_margin_account s b)" for b
    by (simp add: get_margin_account_def f)
  have "option_inv t"
  proof (rule option_inv_update [OF inv r, where a = "writer c"])
    show "account_ok t (writer c)"
      using D(3) [of "writer c"] reserved_for_upd [OF D(2) r, of "writer c"] room p(1) reserved_le [OF inv, of "writer c" i]
      by (auto simp: account_ok_def acc m_def Let_def share_of_def)
    show "entry_ok t i" using c p n by (auto simp: entry_ok_def f)
  qed (use D n v f cfg acc in \<open>auto simp: share_of_def\<close>)
  moreover have "deposits t = deposits s" using deposits_upd [OF inv f(1)] by (simp add: m_def)
  ultimately show ?thesis by (simp add: f)
qed

text \<open>Giving up a reservation, with a payment out of the account.\<close>

lemma reservation_end:
  assumes inv: "option_inv s" and c: "Options s i = Some c" and p: "MarginPositions s i = Some p"
    and x: "0 \<le> x" "x \<le> mp_locked p" and st: "\<not> live st" and cfg: "MarginConfigEntry s \<noteq> None"
  defines "m \<equiv> \<lparr>ma_balance = ma_balance (get_margin_account s (writer c)) - x,
      ma_locked = ma_locked (get_margin_account s (writer c)) - mp_locked p\<rparr>"
  defines "t \<equiv> s\<lparr>MarginAccounts := (MarginAccounts s)(writer c \<mapsto> m), MarginPositions := (MarginPositions s)(i := None),
      Options := (Options s)(i \<mapsto> c\<lparr>opt_status := st\<rparr>)\<rparr>"
  shows "option_inv t \<and> deposits t = deposits s - x \<and> MarginConfigEntry t = MarginConfigEntry s"
proof -
  note D = option_invD [OF inv]
  have f: "MarginAccounts t = (MarginAccounts s)(writer c \<mapsto> m)" "MarginPositions t = (MarginPositions s)(i := None)"
    "Options t = (Options s)(i \<mapsto> c\<lparr>opt_status := st\<rparr>)" "get_option_count t = get_option_count s" "Prices t = Prices s"
    "MarginConfigEntry t = MarginConfigEntry s" "Admin t = Admin s" by (simp_all add: t_def get_option_count_def)
  have r: "reserved t = (reserved s)(i := None)" by (auto simp: fun_eq_iff reserved_def f)
  have v: "value_at (share_of b) (reserved s i) = (if b = writer c then mp_locked p else 0)" for b
    by (simp add: reserved_def share_of_def c p)
  have acc: "get_margin_account t b = (if b = writer c then m else get_margin_account s b)" for b
    by (simp add: get_margin_account_def f)
  have le: "mp_locked p \<le> reserved_for (writer c) s" using reserved_le [OF inv, of "writer c" i] v by simp
  have "option_inv t"
  proof (rule option_inv_update [OF inv r, where a = "writer c"])
    show "account_ok t (writer c)"
      using D(3) [of "writer c"] reserved_for_upd [OF D(2) r, of "writer c"] le x v [of "writer c"]
      by (auto simp: account_ok_def acc m_def Let_def)
    show "entry_ok t i" using D(4) [of i] c st by (auto simp: entry_ok_def f live_def)
  qed (use D v f acc c cfg in auto)
  moreover have "deposits t = deposits s - x" using deposits_upd [OF inv f(1)] by (simp add: m_def)
  ultimately show ?thesis by (simp add: f)
qed

section \<open>Every operation keeps the books\<close>

definition keeps :: "option_state \<Rightarrow> option_state \<Rightarrow> bool" where
  "keeps s t \<longleftrightarrow> option_inv t \<and> deposits t = deposits s \<and> MarginConfigEntry t = MarginConfigEntry s"

text \<open>Calls that leave accounts, options and positions alone.\<close>

lemma option_inv_frame:
  assumes "option_inv s" "Options t = Options s" "MarginPositions t = MarginPositions s" "MarginAccounts t = MarginAccounts s"
    "get_option_count s \<le> get_option_count t" "\<And>y d. Prices t y = Some d \<Longrightarrow> 0 < pd_price d"
    "MarginConfigEntry t = None \<Longrightarrow> MarginConfigEntry s = None" "Admin t = None \<Longrightarrow> Admin s = None"
  shows "option_inv t \<and> deposits t = deposits s"
proof -
  have r: "reserved t = reserved s" by (simp add: fun_eq_iff reserved_def assms(2,3))
  have g: "get_margin_account t = get_margin_account s" by (simp add: fun_eq_iff get_margin_account_def assms(4))
  note D = option_invD [OF assms(1)]
  have "entry_ok t i" for i using D(4) [of i] assms(2,3,5) by (auto simp: entry_ok_def)
  moreover have "account_ok t a" for a using D(3) [of a] by (simp add: account_ok_def reserved_for_def r g)
  ultimately have "option_inv t" using D(1,2,6,7) assms(2-4,6-8) unfolding option_inv_def by auto
  then show ?thesis by (simp add: deposits_def assms(4))
qed

lemma check_keeps:
  assumes "check_margin env i s = Ok (b, t)" "option_inv s" shows "keeps s t"
proof -
  note D = option_invD [OF assms(2)]
  obtain c config spot p required where h: "Options s i = Some c" "live (opt_status c)" "MarginConfigEntry s = Some config"
      "fresh_price env (underlying c) config s = Ok spot" "MarginPositions s i = Some p"
      "required_margin spot (strike_price c) (opt_amount c) (kind c) (max_payout p) (maintenance_margin_bps config) = Ok required"
    and t: "let account = get_margin_account s (writer c); additional = required - mp_locked p in
     if ma_balance account - ma_locked account < additional
     then \<not> b \<and> (\<exists>x. t = publish (Ev_margcall i x) (s\<lparr>Options := (Options s)(opt_id c \<mapsto> c\<lparr>opt_status := MarginCalled\<rparr>)\<rparr>))
     else b \<and> t = publish (Ev_marginok i required)
       (s\<lparr>MarginAccounts := (MarginAccounts s)(writer c \<mapsto> account\<lparr>ma_locked := ma_locked account + additional\<rparr>),
          MarginPositions := (MarginPositions s)(i \<mapsto> p\<lparr>mp_locked := required\<rparr>),
          Options := (Options s)(opt_id c \<mapsto> c\<lparr>opt_status := Active\<rparr>)\<rparr>)"
    using check_Ok [OF assms(1)] unfolding live_def by blast
  have e: "opt_id c = i" "1 \<le> i" "0 < strike_price c" "0 < opt_amount c" "writer c \<noteq> holder c" "0 < max_payout p"
    using D(4) [of i] h(1,5) by (auto simp: entry_ok_def)
  have rb: "0 \<le> required \<and> required \<le> max_payout p"
    by (rule required_bounds [OF h(6) fresh_price_pos [OF assms(2) h(4)] e(4,6)])
  have v: "value_at (share_of (writer c)) (reserved s i) = mp_locked p" using h(1,5) by (simp add: reserved_def share_of_def)
  show ?thesis
  proof (cases "ma_balance (get_margin_account s (writer c)) - ma_locked (get_margin_account s (writer c)) < required - mp_locked p")
    case True
    then obtain x where "t = publish (Ev_margcall i x) (s\<lparr>Options := (Options s)(opt_id c \<mapsto> c\<lparr>opt_status := MarginCalled\<rparr>)\<rparr>)"
      using t by (auto simp: Let_def)
    then show ?thesis
      using status_change [OF assms(2) h(1), of MarginCalled] h(5) by (simp add: keeps_def live_def)
  next
    case False
    define c' where "c' = c\<lparr>opt_status := Active\<rparr>"
    define p' where "p' = p\<lparr>mp_locked := required\<rparr>"
    define account where "account = get_margin_account s (writer c)"
    have adm: "Admin s \<noteq> None" using D(7) h(1) by (cases "Admin s") auto
    have R: "option_inv u \<and> deposits u = deposits s \<and> MarginConfigEntry u = MarginConfigEntry s"
      if "u = s\<lparr>MarginAccounts := (MarginAccounts s)(writer c' \<mapsto> (get_margin_account s (writer c'))\<lparr>ma_locked :=
          ma_locked (get_margin_account s (writer c')) + (mp_locked p' - value_at (share_of (writer c')) (reserved s i))\<rparr>),
        MarginPositions := (MarginPositions s)(i \<mapsto> p'), Options := (Options s)(i \<mapsto> c'), OptionCount := OptionCount s\<rparr>" for u
      unfolding that
      by (rule reservation_change [OF assms(2)])
        (use e h rb v False adm in \<open>auto simp: c'_def p'_def live_def\<close>)
    let ?u = "s\<lparr>MarginAccounts := (MarginAccounts s)(writer c \<mapsto> account\<lparr>ma_locked := ma_locked account + (required - mp_locked p)\<rparr>),
        MarginPositions := (MarginPositions s)(i \<mapsto> p'), Options := (Options s)(i \<mapsto> c')\<rparr>"
    have "t = publish (Ev_marginok i required) ?u" using t False e(1) by (simp add: Let_def account_def c'_def p'_def)
    moreover have "option_inv ?u \<and> deposits ?u = deposits s \<and> MarginConfigEntry ?u = MarginConfigEntry s"
      by (rule R) (simp add: c'_def p'_def v account_def)
    ultimately show ?thesis by (simp add: keeps_def)
  qed
qed

lemma option_book_keeps:
  assumes "option_book env s t" "option_inv s"
  shows "option_inv t \<and> deposits t = deposits s \<and>
    (MarginConfigEntry s \<noteq> None \<longrightarrow> MarginConfigEntry t = MarginConfigEntry s)"
  using assms(1)
proof cases
  case (initialize a u)
  then have t: "t = publish (Ev_init a) (s\<lparr>Admin := Some a, OptionCount := Some 0, Paused := Some False\<rparr>)" "Admin s = None"
    by (auto simp: initialize_def is_initialized_def set_admin_def set_option_count_def set_paused_def Let_def split: if_splits)
  have o: "Options s = Map.empty" using option_invD(7) [OF assms(2) t(2)] .
  have m: "MarginPositions s = Map.empty"
    using option_invD(4) [OF assms(2)] o by (auto simp: fun_eq_iff entry_ok_def)
  let ?u = "s\<lparr>Admin := Some a, OptionCount := Some 0, Paused := Some False\<rparr>"
  have g: "get_margin_account ?u = get_margin_account s" "reserved ?u = reserved s"
    by (simp_all add: fun_eq_iff get_margin_account_def reserved_def)
  note D = option_invD [OF assms(2)]
  have a: "account_ok ?u b" for b using D(3) [of b] by (simp add: account_ok_def reserved_for_def g)
  have e: "entry_ok ?u j" for j using o m by (simp add: entry_ok_def)
  have "option_inv ?u"
    unfolding option_inv_def by (intro conjI allI a e) (use D(1,2,5,6) o m in auto)
  then show ?thesis by (simp add: t(1))
next
  case (set_paused a b u)
  then have t: "t = publish (Ev_paused b) (s\<lparr>Paused := Some b\<rparr>)"
    by (auto simp: pub_set_paused_def Options_Protocol.set_paused_def split: if_splits)
  show ?thesis
    using option_inv_frame [OF assms(2), of "s\<lparr>Paused := Some b\<rparr>"] option_invD(5) [OF assms(2)]
    by (simp add: t get_option_count_def)
next
  case (configure a tok orc bps age u)
  then obtain c where t: "t = publish (Ev_margincfg c) (s\<lparr>MarginConfigEntry := Some c\<rparr>)" "MarginConfigEntry s = None"
    using configure_Ok by blast
  show ?thesis
    using option_inv_frame [OF assms(2), of "s\<lparr>MarginConfigEntry := Some c\<rparr>"] option_invD(5) [OF assms(2)] t(2)
    by (simp add: t(1) get_option_count_def)
next
  case (price x orc y u)
  note p = opt_price_Ok [OF price(2)]
  let ?u = "s\<lparr>Prices := (Prices s)(y \<mapsto> \<lparr>pd_price = x, updated_at = timestamp env\<rparr>)\<rparr>"
  have "option_inv ?u \<and> deposits ?u = deposits s"
    by (rule option_inv_frame [OF assms(2)])
      (use p option_invD(5) [OF assms(2)] in \<open>auto simp: get_option_count_def split: if_splits\<close>)
  then show ?thesis using p by simp
next
  case (write_plain strike prem amt wr ho y ex k i)
  define c where "c = \<lparr>opt_id = i, writer = wr, holder = ho, underlying = y,
      strike_price = strike, premium = prem, opt_amount = amt, expiry = ex, kind = k, opt_status = Active\<rparr>"
  have w: "i = Suc (get_option_count s)" "Admin s \<noteq> None" "0 < strike" "0 < amt"
    and t: "t = publish (Ev_written i wr ho) (s\<lparr>Options := (Options s)(i \<mapsto> c), OptionCount := Some i\<rparr>)"
    using write_Ok [OF write_plain(4)] unfolding c_def by blast+
  have ne: "wr \<noteq> ho" using write_plain(4) by (auto simp: write_option_def split: if_splits)
  let ?u = "s\<lparr>Options := (Options s)(i \<mapsto> c), OptionCount := Some i\<rparr>"
  note D = option_invD [OF assms(2)] and slot = new_option_slot [OF assms(2)]
  have r: "reserved ?u = reserved s" using slot(2) w(1) by (auto simp: fun_eq_iff reserved_def)
  have g: "get_margin_account ?u b = get_margin_account s b" for b by (simp add: get_margin_account_def)
  have "option_inv ?u"
  proof (rule option_inv_update [OF assms(2), where i = i and v = "reserved s i" and a = wr])
    show "account_ok ?u wr" using D(3) [of wr] by (simp add: account_ok_def reserved_for_def r g)
    show "entry_ok ?u i" using slot w ne by (auto simp: entry_ok_def get_option_count_def c_def)
  qed (use D r g w in \<open>auto simp: get_option_count_def\<close>)
  then show ?thesis by (simp add: t)
next
  case (cancel wr i u)
  obtain c where c: "Options s i = Some c" "MarginPositions s i = None"
    "t = publish (Ev_cancelled i wr) (s\<lparr>Options := (Options s)(opt_id c \<mapsto> c\<lparr>opt_status := Cancelled\<rparr>)\<rparr>)"
    using cancel_Ok [OF cancel] by blast
  show ?thesis using status_change [OF assms(2) c(1), of Cancelled] c(2) by (simp add: c(3))
next
  case (cancel_both wr ho i u)
  obtain c p q where c: "Options s i = Some c" "writer c = wr" "MarginPositions s i = Some p"
    "if MarginPositions s (opt_id c) = None then True else MarginPositions s (opt_id c) = Some q"
    and t: "t = publish (Ev_cancelled_by_both i wr ho)
      (s\<lparr>MarginAccounts := (if MarginPositions s (opt_id c) = None then MarginAccounts s
           else (MarginAccounts s)(wr \<mapsto> (get_margin_account s wr)\<lparr>ma_locked := ma_locked (get_margin_account s wr) - mp_locked q\<rparr>)),
         MarginPositions := (if MarginPositions s (opt_id c) = None then MarginPositions s else (MarginPositions s)(opt_id c := None)),
         Options := (Options s)(opt_id c \<mapsto> c\<lparr>opt_status := Cancelled\<rparr>)\<rparr>)"
    using cancel_both_Ok [OF cancel_both] by blast
  have i: "opt_id c = i" "q = p" using option_invD(4) [OF assms(2), of i] c by (auto simp: entry_ok_def)
  have p0: "0 \<le> mp_locked p" using option_invD(4) [OF assms(2), of i] c by (auto simp: entry_ok_def)
  have cfg: "MarginConfigEntry s \<noteq> None" using option_invD(6) [OF assms(2)] c(3) by (cases "MarginConfigEntry s") auto
  have m: "(get_margin_account s wr)\<lparr>ma_locked := ma_locked (get_margin_account s wr) - mp_locked p\<rparr> =
      \<lparr>ma_balance = ma_balance (get_margin_account s (writer c)) - 0, ma_locked = ma_locked (get_margin_account s (writer c)) - mp_locked p\<rparr>"
    using c(2) by simp
  show ?thesis
    using reservation_end [OF assms(2) c(1,3) order_refl p0, of Cancelled] cfg c(3) unfolding t i m
    by (simp add: live_def c(2))
next
  case (exercise ho i x)
  obtain c where c: "Options s i = Some c" "MarginPositions s i = None"
    "t = publish (Ev_exercised i ho x) (s\<lparr>Options := (Options s)(opt_id c \<mapsto> c\<lparr>opt_status := Exercised\<rparr>)\<rparr>)"
    using exercise_Ok [OF exercise] by blast
  show ?thesis using status_change [OF assms(2) c(1), of Exercised] c(2) by (simp add: c(3))
next
  case (expire i u)
  obtain c where c: "Options s i = Some c" "MarginPositions s i = None"
    "t = publish (Ev_expired i) (s\<lparr>Options := (Options s)(opt_id c \<mapsto> c\<lparr>opt_status := Expired\<rparr>)\<rparr>)"
    using expire_Ok [OF expire] by blast
  show ?thesis using status_change [OF assms(2) c(1), of Expired] c(2) by (simp add: c(3))
next
  case (check i b)
  then show ?thesis using check_keeps [OF check assms(2)] by (simp add: keeps_def)
next
  case (cure wr i u)
  then have "check_margin env i s = Ok (True, t)"
    by (auto simp: cure_margin_call_def split: if_splits)
  then show ?thesis using check_keeps [OF _ assms(2)] by (simp add: keeps_def)
qed

text \<open>Deposits, withdrawals, collateralised options and settlements.\<close>

lemma account_change:
  assumes inv: "option_inv s" and cfg: "MarginConfigEntry s \<noteq> None"
    and b: "ma_locked (get_margin_account s a) \<le> b" "b \<le> i128_max"
  defines "t \<equiv> s\<lparr>MarginAccounts := (MarginAccounts s)(a \<mapsto> (get_margin_account s a)\<lparr>ma_balance := b\<rparr>)\<rparr>"
  shows "option_inv t \<and> deposits t = deposits s - ma_balance (get_margin_account s a) + b \<and>
    MarginConfigEntry t = MarginConfigEntry s"
proof -
  note D = option_invD [OF inv]
  have r: "reserved t = reserved s" by (simp add: fun_eq_iff reserved_def t_def)
  have g: "get_margin_account t x = (if x = a then (get_margin_account s a)\<lparr>ma_balance := b\<rparr> else get_margin_account s x)" for x
    by (simp add: get_margin_account_def t_def)
  have "option_inv t"
  proof (rule option_inv_update [OF inv, where i = 0 and v = "reserved s 0" and a = a])
    show "account_ok t a" using D(3) [of a] b by (simp add: account_ok_def reserved_for_def r g Let_def)
    show "entry_ok t 0"
      using D(4) [of 0] by (cases "MarginPositions s 0") (auto simp: entry_ok_def t_def get_option_count_def)
  qed (use D r g cfg in \<open>auto simp: t_def get_option_count_def\<close>)
  moreover have "deposits t = deposits s - ma_balance (get_margin_account s a) + b"
    using deposits_upd [OF inv, of t a] by (simp add: t_def)
  ultimately show ?thesis by (simp add: t_def)
qed

lemma write_collateralized_keeps:
  assumes "write_collateralized_option tc env wr ho y strike prem amt ex k mx (w, s) = Ok (i, w', t)" "option_inv s"
  shows "keeps s t \<and> (\<exists>c. MarginConfigEntry s = Some c \<and> (w' = w \<or>
    auth env ho \<and> auth env wr \<and> tc (settlement_token c) (subcall_env env (settlement_token c)) ho wr prem w = Some w'))"
proof -
  obtain config spot required where h: "i = Suc (get_option_count s)" "Admin s \<noteq> None" "auth env wr" "auth env ho" "wr \<noteq> ho"
      "0 < strike" "0 < amt" "0 < mx" "MarginConfigEntry s = Some config"
      "fresh_price env y config s = Ok spot" "required_margin spot strike amt k mx (maintenance_margin_bps config) = Ok required"
      "required \<le> ma_balance (get_margin_account s wr) - ma_locked (get_margin_account s wr)"
      "w' = w \<or> tc (settlement_token config) (subcall_env env (settlement_token config)) ho wr prem w = Some w'"
    and t: "t = publish (Ev_collatopt i wr ho required) (s\<lparr>
      MarginAccounts := (MarginAccounts s)(wr \<mapsto> (get_margin_account s wr)\<lparr>ma_locked := ma_locked (get_margin_account s wr) + required\<rparr>),
      MarginPositions := (MarginPositions s)(i \<mapsto> \<lparr>mp_locked = required, max_payout = mx\<rparr>),
      Options := (Options s)(i \<mapsto> \<lparr>opt_id = i, writer = wr, holder = ho, underlying = y,
      strike_price = strike, premium = prem, opt_amount = amt, expiry = ex, kind = k, opt_status = Active\<rparr>),
      OptionCount := Some i\<rparr>)"
    using write_collateralized_Ok [OF assms(1)] by blast
  define c where "c = \<lparr>opt_id = i, writer = wr, holder = ho, underlying = y,
      strike_price = strike, premium = prem, opt_amount = amt, expiry = ex, kind = k, opt_status = Active\<rparr>"
  define p where "p = \<lparr>mp_locked = required, max_payout = mx\<rparr>"
  have rb: "0 \<le> required \<and> required \<le> mx"
    by (rule required_bounds [OF h(11) fresh_price_pos [OF assms(2) h(10)] h(7,8)])
  note slot = new_option_slot [OF assms(2), folded h(1)]
  have v: "value_at (share_of a) (reserved s i) = 0" for a by (simp add: reserved_def slot(2))
  have R: "option_inv u \<and> deposits u = deposits s \<and> MarginConfigEntry u = MarginConfigEntry s"
    if "u = s\<lparr>MarginAccounts := (MarginAccounts s)(writer c \<mapsto> (get_margin_account s (writer c))\<lparr>ma_locked :=
        ma_locked (get_margin_account s (writer c)) + (mp_locked p - value_at (share_of (writer c)) (reserved s i))\<rparr>),
      MarginPositions := (MarginPositions s)(i \<mapsto> p), Options := (Options s)(i \<mapsto> c), OptionCount := Some i\<rparr>" for u
    unfolding that
    by (rule reservation_change [OF assms(2)])
      (use h rb v slot in \<open>auto simp: c_def p_def live_def\<close>)
  let ?u = "s\<lparr>MarginAccounts := (MarginAccounts s)(wr \<mapsto> (get_margin_account s wr)\<lparr>ma_locked := ma_locked (get_margin_account s wr) + required\<rparr>),
      MarginPositions := (MarginPositions s)(i \<mapsto> p), Options := (Options s)(i \<mapsto> c), OptionCount := Some i\<rparr>"
  have "option_inv ?u \<and> deposits ?u = deposits s \<and> MarginConfigEntry ?u = MarginConfigEntry s"
    by (rule R) (simp add: c_def p_def v)
  moreover have "t = publish (Ev_collatopt i wr ho required) ?u" by (simp add: t c_def p_def)
  ultimately show ?thesis using h(3,4,9,13) by (simp add: keeps_def)
qed

lemma settle_keeps:
  assumes "settle_option tc env i (w, s) = Ok (x, w', t)" "option_inv s"
  shows "option_inv t \<and> deposits t = deposits s - x \<and> MarginConfigEntry t = MarginConfigEntry s \<and> 0 \<le> x \<and>
    (\<exists>c a. MarginConfigEntry s = Some c \<and>
      (if 0 < x then tc (settlement_token c) (subcall_env env (settlement_token c)) (current_contract env) a x w = Some w' else w' = w))"
proof -
  obtain c config spot p v where h: "Options s i = Some c" "MarginConfigEntry s = Some config" "fresh_price env (underlying c) config s = Ok spot"
    "MarginPositions s i = Some p" "intrinsic_value spot (strike_price c) (opt_amount c) (kind c) = Ok v"
    "x = min v (max_payout p)" "x \<le> mp_locked p"
    "if 0 < x then tc (settlement_token config) (subcall_env env (settlement_token config)) (current_contract env) (holder c) x w = Some w'
     else w' = w"
    and t: "t = publish (Ev_settled i (holder c) x spot) (s\<lparr>
      MarginAccounts := (MarginAccounts s)(writer c \<mapsto> \<lparr>ma_balance = ma_balance (get_margin_account s (writer c)) - x,
        ma_locked = ma_locked (get_margin_account s (writer c)) - mp_locked p\<rparr>),
      MarginPositions := (MarginPositions s)(i := None),
      Options := (Options s)(opt_id c \<mapsto> c\<lparr>opt_status := (if 0 < x then Exercised else Expired)\<rparr>)\<rparr>)"
    using settle_option_Ok [OF assms(1)] by blast
  have e: "opt_id c = i" "0 < opt_amount c" "0 < max_payout p"
    using option_invD(4) [OF assms(2), of i] h(1,4) by (auto simp: entry_ok_def)
  have "0 \<le> v"
    using h(5) e(2) by (auto simp: intrinsic_value_def Let_def SCALE_def pos_imp_zdiv_nonneg_iff)
  then have x: "0 \<le> x" using h(6) e(3) by simp
  have "\<not> live (if 0 < x then Exercised else Expired)" by (simp add: live_def)
  then show ?thesis
    using reservation_end [OF assms(2) h(1,4) x h(7)] h(2,8) x unfolding t e(1) by auto
qed

section \<open>Runs\<close>

definition margin_inv ::
    "('w \<Rightarrow> address \<Rightarrow> address \<Rightarrow> int) \<Rightarrow> (address \<Rightarrow> 'w \<Rightarrow> bool) \<Rightarrow> address \<Rightarrow> 'w \<times> option_state \<Rightarrow> bool" where
  "margin_inv balance_of ok self ws \<longleftrightarrow> ok self (fst ws) \<and> option_inv (snd ws) \<and>
     (\<forall>c. MarginConfigEntry (snd ws) = Some c \<longrightarrow> deposits (snd ws) \<le> balance_of (fst ws) (settlement_token c) self)"

lemma no_config_no_deposits: "option_inv s \<Longrightarrow> MarginConfigEntry s = None \<Longrightarrow> deposits s = 0"
  using option_invD(6) by (simp add: deposits_def)

context token_host
begin

lemma option_token_inv:
  assumes "option_token transfer_call env (w, s) (w', t)" "margin_inv balance_of world_ok self (w, s)"
    "\<not> auth env self" "current_contract env = self"
  shows "margin_inv balance_of world_ok self (w', t)"
proof -
  have ok: "world_ok self w" "option_inv s" using assms(2) by (simp_all add: margin_inv_def)
  have cover: "deposits s \<le> balance_of w (settlement_token c) self" if "MarginConfigEntry s = Some c" for c
    using assms(2) that by (simp add: margin_inv_def)
  from assms(1) show ?thesis
  proof cases
    case (deposit x a u)
    obtain c where h: "0 < x" "auth env a" "MarginConfigEntry s = Some c"
        "transfer_call (settlement_token c) (subcall_env env (settlement_token c)) a (current_contract env) x w = Some w'"
        "in_i128 (ma_balance (get_margin_account s a) + x)"
      and t: "t = publish (Ev_deposit a x) (s\<lparr>MarginAccounts := (MarginAccounts s)(a \<mapsto>
        (get_margin_account s a)\<lparr>ma_balance := ma_balance (get_margin_account s a) + x\<rparr>)\<rparr>)"
      using opt_deposit_Ok [OF deposit(2)] by blast
    have a: "a \<noteq> self" using h(2) assms(3) by auto
    have "ma_locked (get_margin_account s a) \<le> ma_balance (get_margin_account s a) + x"
      using option_invD(3) [OF ok(2), of a] h(1) by (simp add: account_ok_def Let_def)
    then have k: "option_inv t \<and> deposits t = deposits s + x \<and> MarginConfigEntry t = MarginConfigEntry s"
      using account_change [OF ok(2), of a "ma_balance (get_margin_account s a) + x"] h(3,5) by (simp add: t in_i128_def)
    show ?thesis
      using k cover [OF h(3)] h(3) transfer_keeps_ok [OF ok(1) h(4)] leg_in [OF h(4) [unfolded assms(4)] a]
      by (simp add: margin_inv_def)
  next
    case (withdraw x a u)
    obtain c where h: "0 < x" "MarginConfigEntry s = Some c"
        "x \<le> ma_balance (get_margin_account s a) - ma_locked (get_margin_account s a)"
        "transfer_call (settlement_token c) (subcall_env env (settlement_token c)) (current_contract env) a x w = Some w'"
      and t: "t = publish (Ev_withdraw a x) (s\<lparr>MarginAccounts := (MarginAccounts s)(a \<mapsto>
        (get_margin_account s a)\<lparr>ma_balance := ma_balance (get_margin_account s a) - x\<rparr>)\<rparr>)"
      using withdraw_Ok [OF withdraw(2)] by blast
    have "ma_balance (get_margin_account s a) - x \<le> i128_max"
      using option_invD(3) [OF ok(2), of a] h(1) by (simp add: account_ok_def Let_def)
    then have k: "option_inv t \<and> deposits t = deposits s - x \<and> MarginConfigEntry t = MarginConfigEntry s"
      using account_change [OF ok(2), of a "ma_balance (get_margin_account s a) - x"] h(2,3) by (simp add: t)
    show ?thesis
      using k cover [OF h(2)] h(2) transfer_keeps_ok [OF ok(1) h(4)]
        leg_out_ge [OF h(4) [unfolded assms(4)], of "settlement_token c"]
      by (simp add: margin_inv_def)
  next
    case (write_collateralized strike prem amt mx wr ho y ex k i)
    obtain c where k: "keeps s t" "MarginConfigEntry s = Some c" "w' = w \<or>
        auth env ho \<and> auth env wr \<and> transfer_call (settlement_token c) (subcall_env env (settlement_token c)) ho wr prem w = Some w'"
      using write_collateralized_keeps [OF write_collateralized(5) ok(2)] by blast
    have "world_ok self w' \<and> balance_of w' (settlement_token c) self = balance_of w (settlement_token c) self"
      using k(3)
    proof
      assume m: "auth env ho \<and> auth env wr \<and> transfer_call (settlement_token c) (subcall_env env (settlement_token c)) ho wr prem w = Some w'"
      then have "ho \<noteq> self" "wr \<noteq> self" using assms(3) by auto
      then show ?thesis using m transfer_keeps_ok [OF ok(1)] transfer_effect by auto
    qed (use ok(1) in simp)
    then show ?thesis using k(1,2) cover [OF k(2)] by (simp add: margin_inv_def keeps_def)
  next
    case (settle i x)
    obtain c a where k: "option_inv t" "deposits t = deposits s - x" "MarginConfigEntry t = MarginConfigEntry s" "0 \<le> x"
        "MarginConfigEntry s = Some c"
        "if 0 < x then transfer_call (settlement_token c) (subcall_env env (settlement_token c)) (current_contract env) a x w = Some w' else w' = w"
      using settle_keeps [OF settle ok(2)] by blast
    have "world_ok self w' \<and> balance_of w (settlement_token c) self - x \<le> balance_of w' (settlement_token c) self"
    proof (cases "0 < x")
      case True
      then have m: "transfer_call (settlement_token c) (subcall_env env (settlement_token c)) self a x w = Some w'"
        using k(6) assms(4) by simp
      show ?thesis using transfer_keeps_ok [OF ok(1) m] leg_out_ge [OF m, of "settlement_token c"] by simp
    qed (use k ok(1) in simp)
    then show ?thesis using k cover [OF k(5)] by (simp add: margin_inv_def)
  qed
qed

lemma option_step_inv:
  assumes "option_step transfer_call (outside self) self ws wt" "margin_inv balance_of world_ok self ws"
  shows "margin_inv balance_of world_ok self wt"
  using assms
proof (induction rule: option_step.induct)
  case (book env s t w)
  have ok: "world_ok self w" "option_inv s" using book.prems by (simp_all add: margin_inv_def)
  note k = option_book_keeps [OF book.hyps(3) ok(2)]
  have "deposits s \<le> balance_of w (settlement_token c) self" if "MarginConfigEntry t = Some c" for c
  proof (cases "MarginConfigEntry s")
    case None
    then show ?thesis using no_config_no_deposits [OF ok(2)] own_balance_nonneg [OF ok(1)] by simp
  next
    case (Some d)
    then show ?thesis using k that book.prems by (simp add: margin_inv_def)
  qed
  then show ?case using k ok by (simp add: margin_inv_def)
next
  case (tokens env ws wt)
  then show ?case using option_token_inv [of env "fst ws" "snd ws" "fst wt" "snd wt" self] by simp
next
  case (other w w' s)
  then show ?case
    using outside_ok [of self w w'] outside_keeps [of self w w'] by (auto simp: margin_inv_def intro: order_trans)
qed

lemma option_run_inv:
  assumes "(option_step transfer_call (outside self) self)\<^sup>*\<^sup>* (w0, empty_options) ws" "world_ok self w0"
  shows "margin_inv balance_of world_ok self ws"
  using assms(1)
proof (induction rule: rtranclp_induct)
  case base
  then show ?case using assms(2) option_inv_empty by (simp add: margin_inv_def empty_options_def)
next
  case (step ws wt)
  then show ?case by (blast intro: option_step_inv)
qed

end

end
