(* ===== verification/Options_Correct.thy ===== *)
theory Options_Correct
  imports Options_Books_Correct
begin

text \<open>
  The properties of the options: the margin pool is covered, options move only along their life
  cycle, the store stays within its integer widths, and a settlement pays in full or not at all.
\<close>

abbreviation repo_option_step ::
    "address \<Rightarrow> token_world \<times> option_state \<Rightarrow> token_world \<times> option_state \<Rightarrow> bool" where
  "repo_option_step self \<equiv> option_step world_transfer (world_outside self) self"

lemma reachable_options:
  assumes "(repo_option_step self)\<^sup>*\<^sup>* (w0, empty_options) (w, s)" "world_ok self w0"
  shows "option_inv s" "world_ok self w"
    "MarginConfigEntry s = Some c \<Longrightarrow> deposits s \<le> world_balance w (settlement_token c) self"
  using repo_host.option_run_inv [OF assms] by (auto simp: margin_inv_def)

section \<open>The life cycle of an option\<close>

text \<open>
  Which change of status a call may make, by whether the option is collateralised, who signed and
  the time. Terminal statuses have no successor.
\<close>

fun option_move :: "env \<Rightarrow> bool \<Rightarrow> OptionContract \<Rightarrow> OptionStatus \<Rightarrow> bool" where
  "option_move env collateralised c Exercised \<longleftrightarrow>
     (if collateralised then expiry c \<le> timestamp env else auth env (holder c) \<and> timestamp env \<le> expiry c)"
| "option_move env collateralised c Expired \<longleftrightarrow>
     (if collateralised then expiry c \<le> timestamp env else expiry c < timestamp env)"
| "option_move env collateralised c Cancelled \<longleftrightarrow>
     auth env (writer c) \<and> (collateralised \<longrightarrow> auth env (holder c) \<and> timestamp env < expiry c)"
| "option_move env collateralised c MarginCalled \<longleftrightarrow> collateralised"
| "option_move env collateralised c Active \<longleftrightarrow> collateralised"

text \<open>What a successful call does to the table of options: nothing, one move, or one new option.\<close>

definition fresh_option :: "env \<Rightarrow> option_state \<Rightarrow> option_state \<Rightarrow> OptionContract \<Rightarrow> bool" where
  "fresh_option env s t c \<longleftrightarrow> opt_id c = Suc (get_option_count s) \<and> get_option_count t = opt_id c \<and> opt_id c \<le> u32_max \<and>
     Options t = (Options s)(opt_id c \<mapsto> c) \<and> opt_status c = Active \<and> auth env (writer c) \<and> timestamp env < expiry c \<and>
     in_i128 (strike_price c) \<and> in_i128 (premium c) \<and> in_i128 (opt_amount c) \<and>
     (\<forall>p. MarginPositions t (opt_id c) = Some p \<longrightarrow> auth env (holder c))"

definition option_delta :: "env \<Rightarrow> option_state \<Rightarrow> option_state \<Rightarrow> bool" where
  "option_delta env s t \<longleftrightarrow>
     (Options t = Options s \<or>
      (\<exists>i c st. Options s i = Some c \<and> live (opt_status c) \<and> option_move env (MarginPositions s i \<noteq> None) c st \<and>
         Options t = (Options s)(i \<mapsto> c\<lparr>opt_status := st\<rparr>))) \<and> get_option_count t \<le> get_option_count s \<or>
     (\<exists>c. fresh_option env s t c)"

lemma delta_same: "Options t = Options s \<Longrightarrow> get_option_count t = get_option_count s \<Longrightarrow> option_delta env s t"
  by (simp add: option_delta_def)

lemma delta_move:
  assumes "option_inv s" "Options s i = Some c" "live (opt_status c)" "option_move env (MarginPositions s i \<noteq> None) c st"
    "Options t = (Options s)(opt_id c \<mapsto> c\<lparr>opt_status := st\<rparr>)" "get_option_count t = get_option_count s"
  shows "option_delta env s t"
proof -
  have "opt_id c = i" using option_invD(4) [OF assms(1), of i] assms(2) by (simp add: entry_ok_def)
  then show ?thesis
    unfolding option_delta_def by (intro disjI1 conjI disjI2 exI [of _ i] exI [of _ c] exI [of _ st]) (use assms in simp_all)
qed

lemma write_fresh:
  assumes "write_option env wr ho y strike prem amt ex k s = Ok (i, t)" "in_i128 strike" "in_i128 prem" "in_i128 amt" "option_inv s"
  shows "option_delta env s t"
proof -
  have u: "Suc (get_option_count s) \<le> u32_max"
    using assms(1) by (auto simp: write_option_def Let_def split: if_splits)
  define c where "c = \<lparr>opt_id = i, writer = wr, holder = ho, underlying = y,
      strike_price = strike, premium = prem, opt_amount = amt, expiry = ex, kind = k, opt_status = Active\<rparr>"
  have "fresh_option env s t c"
    using write_Ok [OF assms(1)] u assms(2-4) new_option_slot(2) [OF assms(5)]
    by (auto simp: fresh_option_def c_def publish_def get_option_count_def)
  then show ?thesis unfolding option_delta_def by blast
qed

lemma write_collateralized_fresh:
  assumes "write_collateralized_option tc env wr ho y strike prem amt ex k mx (w, s) = Ok (i, w', t)"
    "in_i128 strike" "in_i128 prem" "in_i128 amt"
  shows "option_delta env s t"
proof -
  have u: "Suc (get_option_count s) \<le> u32_max"
    using assms(1) by (auto simp: write_collateralized_option_def Let_def u32_checked_add_def split: if_splits)
  define c where "c = \<lparr>opt_id = i, writer = wr, holder = ho, underlying = y,
      strike_price = strike, premium = prem, opt_amount = amt, expiry = ex, kind = k, opt_status = Active\<rparr>"
  have "fresh_option env s t c"
    using write_collateralized_Ok [OF assms(1)] u assms(2-4)
    by (auto simp: fresh_option_def c_def publish_def get_option_count_def)
  then show ?thesis unfolding option_delta_def by blast
qed

lemma check_delta:
  assumes "check_margin env i s = Ok (b, t)" "option_inv s"
  shows "option_delta env s t"
proof -
  obtain c config p required where c: "Options s i = Some c" "live (opt_status c)" "MarginPositions s i = Some p"
    and t: "let account = get_margin_account s (writer c); additional = required - mp_locked p in
      if ma_balance account - ma_locked account < additional
      then \<not> b \<and> (\<exists>x. t = publish (Ev_margcall i x) (s\<lparr>Options := (Options s)(opt_id c \<mapsto> c\<lparr>opt_status := MarginCalled\<rparr>)\<rparr>))
      else b \<and> t = publish (Ev_marginok i required)
        (s\<lparr>MarginAccounts := (MarginAccounts s)(writer c \<mapsto> account\<lparr>ma_locked := ma_locked account + additional\<rparr>),
          MarginPositions := (MarginPositions s)(i \<mapsto> p\<lparr>mp_locked := required\<rparr>),
          Options := (Options s)(opt_id c \<mapsto> c\<lparr>opt_status := Active\<rparr>)\<rparr>)"
    using check_Ok [OF assms(1)] unfolding live_def by blast
  define st where "st = (if b then Active else MarginCalled)"
  have h: "Options t = (Options s)(opt_id c \<mapsto> c\<lparr>opt_status := st\<rparr>)" "get_option_count t = get_option_count s"
    using t by (auto simp: st_def Let_def publish_def get_option_count_def split: if_split_asm)
  show ?thesis by (rule delta_move [OF assms(2) c(1,2) _ h]) (use c(3) in \<open>auto simp: st_def\<close>)
qed

lemma option_book_delta:
  assumes "option_book env s t" "option_inv s"
  shows "option_delta env s t"
  using assms(1)
proof cases
  case (initialize a u)
  then show ?thesis
    by (auto simp: option_delta_def initialize_def option_getters option_setters get_option_count_def Let_def split: if_splits)
next
  case (set_paused a b u)
  then show ?thesis by (auto intro!: delta_same simp: pub_set_paused_def option_setters get_option_count_def)
next
  case (configure a tok orc bps age u)
  then show ?thesis using configure_Ok [OF configure] by (auto intro!: delta_same simp: publish_def get_option_count_def)
next
  case (price x orc y u)
  then show ?thesis using opt_price_Ok [OF price(2)] by (auto intro!: delta_same simp: publish_def get_option_count_def)
next
  case (write_plain strike prem amt wr ho y ex k i)
  then show ?thesis using write_fresh assms(2) by blast
next
  case (cancel wr i u)
  obtain c where c: "auth env (writer c)" "Options s i = Some c" "MarginPositions s i = None" "opt_status c = Active"
    "Options t = (Options s)(opt_id c \<mapsto> c\<lparr>opt_status := Cancelled\<rparr>)" "get_option_count t = get_option_count s"
    using cancel_Ok [OF cancel] by (auto simp: publish_def get_option_count_def)
  show ?thesis by (rule delta_move [OF assms(2) c(2) _ _ c(5,6)]) (use c in \<open>auto simp: live_def\<close>)
next
  case (cancel_both wr ho i u)
  obtain c where c: "auth env (writer c)" "auth env (holder c)" "timestamp env < expiry c" "Options s i = Some c" "opt_status c = Active"
    "Options t = (Options s)(opt_id c \<mapsto> c\<lparr>opt_status := Cancelled\<rparr>)" "get_option_count t = get_option_count s"
    using cancel_both_Ok [OF cancel_both] by (auto simp: publish_def get_option_count_def)
  show ?thesis by (rule delta_move [OF assms(2) c(4) _ _ c(6,7)]) (use c in \<open>auto simp: live_def\<close>)
next
  case (exercise ho i x)
  obtain c where c: "auth env (holder c)" "timestamp env \<le> expiry c" "Options s i = Some c" "MarginPositions s i = None" "opt_status c = Active"
    "Options t = (Options s)(opt_id c \<mapsto> c\<lparr>opt_status := Exercised\<rparr>)" "get_option_count t = get_option_count s"
    using exercise_Ok [OF exercise] by (auto simp: publish_def get_option_count_def)
  show ?thesis by (rule delta_move [OF assms(2) c(3) _ _ c(6,7)]) (use c in \<open>auto simp: live_def\<close>)
next
  case (expire i u)
  obtain c where c: "expiry c < timestamp env" "Options s i = Some c" "MarginPositions s i = None" "opt_status c = Active"
    "Options t = (Options s)(opt_id c \<mapsto> c\<lparr>opt_status := Expired\<rparr>)" "get_option_count t = get_option_count s"
    using expire_Ok [OF expire] by (auto simp: publish_def get_option_count_def)
  show ?thesis by (rule delta_move [OF assms(2) c(2) _ _ c(5,6)]) (use c in \<open>auto simp: live_def\<close>)
next
  case (check i b)
  then show ?thesis using check_delta assms(2) by blast
next
  case (cure wr i u)
  then have "check_margin env i s = Ok (True, t)" by (auto simp: cure_margin_call_def split: if_splits)
  then show ?thesis using check_delta assms(2) by blast
qed

lemma option_token_delta:
  assumes "option_token tc env (w, s) (w', t)" "option_inv s"
  shows "option_delta env s t"
  using assms(1)
proof cases
  case (deposit x a u)
  then show ?thesis using opt_deposit_Ok [OF deposit(2)] by (auto intro!: delta_same simp: publish_def get_option_count_def)
next
  case (withdraw x a u)
  then show ?thesis using withdraw_Ok [OF withdraw(2)] by (auto intro!: delta_same simp: publish_def get_option_count_def)
next
  case (write_collateralized strike prem amt mx wr ho y ex k i)
  show ?thesis by (rule write_collateralized_fresh [OF write_collateralized(5,1,2,3)])
next
  case (settle i x)
  obtain c p where c: "Options s i = Some c" "live (opt_status c)" "expiry c \<le> timestamp env" "MarginPositions s i = Some p"
    "Options t = (Options s)(opt_id c \<mapsto> c\<lparr>opt_status := (if 0 < x then Exercised else Expired)\<rparr>)"
    "get_option_count t = get_option_count s"
    using settle_option_Ok [OF settle] by (auto simp: live_def publish_def get_option_count_def simp del: min_less_iff_conj)
  show ?thesis by (rule delta_move [OF assms(2) c(1,2) _ c(5,6)]) (use c in auto)
qed

section \<open>Widths\<close>

text \<open>The parts of the store whose range does not follow from the books.\<close>

definition store_typed :: "option_state \<Rightarrow> bool" where
  "store_typed s \<longleftrightarrow> get_option_count s \<le> u32_max \<and>
     (\<forall>i c. Options s i = Some c \<longrightarrow> in_i128 (strike_price c) \<and> in_i128 (premium c) \<and> in_i128 (opt_amount c)) \<and>
     (\<forall>i p. MarginPositions s i = Some p \<longrightarrow> in_i128 (max_payout p)) \<and>
     (\<forall>y d. Prices s y = Some d \<longrightarrow> in_i128 (pd_price d))"

definition rest_typed :: "option_state \<Rightarrow> option_state \<Rightarrow> bool" where
  "rest_typed s t \<longleftrightarrow>
     (\<forall>i p. MarginPositions t i = Some p \<longrightarrow> (\<exists>q. MarginPositions s i = Some q \<and> max_payout p = max_payout q) \<or> in_i128 (max_payout p)) \<and>
     (\<forall>y d. Prices t y = Some d \<longrightarrow> Prices s y = Some d \<or> in_i128 (pd_price d))"

lemma rest_same: "MarginPositions t = MarginPositions s \<Longrightarrow> Prices t = Prices s \<Longrightarrow> rest_typed s t"
  by (simp add: rest_typed_def)

lemma rest_fewer: "MarginPositions t = (MarginPositions s)(i := None) \<Longrightarrow> Prices t = Prices s \<Longrightarrow> rest_typed s t"
  by (simp add: rest_typed_def)

lemma check_rest:
  assumes "check_margin env i s = Ok (b, t)" shows "rest_typed s t"
  using check_Ok [OF assms] by (auto simp: rest_typed_def Let_def publish_def split: if_split_asm)

lemma option_book_rest:
  assumes "option_book env s t" shows "rest_typed s t"
  using assms
proof cases
  case (initialize a u)
  then show ?thesis by (auto intro!: rest_same simp: initialize_def option_setters Let_def split: if_splits)
next
  case (set_paused a b u)
  then show ?thesis by (auto intro!: rest_same simp: pub_set_paused_def option_setters)
next
  case (configure a tok orc bps age u)
  then show ?thesis using configure_Ok [OF configure] by (auto intro!: rest_same simp: publish_def)
next
  case (price x orc y u)
  then show ?thesis using opt_price_Ok [OF price(2)] by (auto simp: rest_typed_def publish_def split: if_splits)
next
  case (write_plain strike prem amt wr ho y ex k i)
  then show ?thesis using write_Ok [OF write_plain(4)] by (auto intro!: rest_same simp: publish_def)
next
  case (cancel wr i u)
  then show ?thesis using cancel_Ok [OF cancel] by (auto intro!: rest_same simp: publish_def)
next
  case (cancel_both wr ho i u)
  have "MarginPositions t j = MarginPositions s j \<or> MarginPositions t j = None" "Prices t = Prices s" for j
    using cancel_both_Ok [OF cancel_both] by (elim exE conjE, simp add: publish_def)+
  then show ?thesis unfolding rest_typed_def by (metis option.discI)
next
  case (exercise ho i x)
  then show ?thesis using exercise_Ok [OF exercise] by (auto intro!: rest_same simp: publish_def)
next
  case (expire i u)
  then show ?thesis using expire_Ok [OF expire] by (auto intro!: rest_same simp: publish_def)
next
  case (check i b)
  then show ?thesis by (rule check_rest)
next
  case (cure wr i u)
  then have "check_margin env i s = Ok (True, t)" by (auto simp: cure_margin_call_def split: if_splits)
  then show ?thesis by (rule check_rest)
qed

lemma option_token_rest:
  assumes "option_token tc env (w, s) (w', t)" shows "rest_typed s t"
  using assms
proof cases
  case (deposit x a u)
  then show ?thesis using opt_deposit_Ok [OF deposit(2)] by (auto intro!: rest_same simp: publish_def)
next
  case (withdraw x a u)
  then show ?thesis using withdraw_Ok [OF withdraw(2)] by (auto intro!: rest_same simp: publish_def)
next
  case (write_collateralized strike prem amt mx wr ho y ex k i)
  then show ?thesis using write_collateralized_Ok [OF write_collateralized(5)] write_collateralized(4)
    by (auto simp: rest_typed_def publish_def split: if_split_asm)
next
  case (settle i x)
  have "MarginPositions t = (MarginPositions s)(i := None) \<and> Prices t = Prices s"
    using settle_option_Ok [OF settle] by (elim exE conjE) (simp add: publish_def)
  then show ?thesis by (blast intro: rest_fewer)
qed

lemma delta_typed:
  assumes "option_delta env s t" "rest_typed s t" "store_typed s"
  shows "store_typed t"
proof -
  have o: "in_i128 (strike_price c) \<and> in_i128 (premium c) \<and> in_i128 (opt_amount c)" if "Options t i = Some c" for i c
    using assms(1,3) that by (auto simp: option_delta_def fresh_option_def store_typed_def split: if_splits)
  have n: "get_option_count t \<le> u32_max"
    using assms(1,3) by (auto simp: option_delta_def fresh_option_def store_typed_def)
  show ?thesis using assms(2,3) o n unfolding store_typed_def rest_typed_def by metis
qed

lemma reachable_typed:
  assumes "(repo_option_step self)\<^sup>*\<^sup>* (w0, empty_options) ws" "world_ok self w0"
  shows "option_inv (snd ws) \<and> store_typed (snd ws)"
  using assms(1)
proof (induction rule: rtranclp_induct)
  case base
  then show ?case using option_inv_empty by (simp add: store_typed_def empty_options_def get_option_count_def)
next
  case (step ws wt)
  have "option_inv (snd wt)"
    using reachable_options(1) [of self w0 "fst wt" "snd wt"] step.hyps assms(2) by (simp add: rtranclp.rtrancl_into_rtrancl)
  moreover have "store_typed (snd wt)"
    using step.hyps(2)
  proof cases
    case (book env s t w)
    then show ?thesis
      using delta_typed [OF option_book_delta option_book_rest] step.IH by auto
  next
    case (tokens env)
    then show ?thesis
      using delta_typed [OF option_token_delta option_token_rest] step.IH by (cases ws; cases wt) auto
  next
    case (other w w' s)
    then show ?thesis using step.IH by simp
  qed
  ultimately show ?case by simp
qed

section \<open>A concrete run\<close>

text \<open>
  Writer 5 deposits 300000 units, sells holder 8 a call that pays at most 250000, and at expiry the
  price is 9.7 against a strike of 9: the option pays 140000.
\<close>

definition demo_pool :: MarginConfig where
  "demo_pool = \<lparr>settlement_token = 40, mc_oracle = 7, maintenance_margin_bps = 1000, max_price_age = 60\<rparr>"

definition demo_call :: OptionContract where
  "demo_call = \<lparr>opt_id = 1, writer = 5, holder = 8, underlying = ''XLM'', strike_price = 90000000, premium = 10000,
     opt_amount = 200000, expiry = 100, kind = Call, opt_status = Active\<rparr>"

definition demo_options :: option_state where
  "demo_options = empty_options\<lparr>Admin := Some 1, OptionCount := Some 0, Paused := Some False, events := [Ev_init 1]\<rparr>"

definition demo_options_pool :: option_state where
  "demo_options_pool = publish (Ev_margincfg demo_pool) (demo_options\<lparr>MarginConfigEntry := Some demo_pool\<rparr>)"

definition demo_options_funded :: option_state where
  "demo_options_funded = publish (Ev_deposit 5 300000)
     (demo_options_pool\<lparr>MarginAccounts := [5 \<mapsto> \<lparr>ma_balance = 300000, ma_locked = 0\<rparr>]\<rparr>)"

definition demo_options_priced :: option_state where
  "demo_options_priced = publish (Ev_price ''XLM'' \<lparr>pd_price = 100000000, updated_at = 20\<rparr>)
     (demo_options_funded\<lparr>Prices := [''XLM'' \<mapsto> \<lparr>pd_price = 100000000, updated_at = 20\<rparr>]\<rparr>)"

definition demo_options_sold :: option_state where
  "demo_options_sold = publish (Ev_collatopt 1 5 8 250000)
     (demo_options_priced\<lparr>MarginAccounts := [5 \<mapsto> \<lparr>ma_balance = 300000, ma_locked = 250000\<rparr>],
        MarginPositions := [1 \<mapsto> \<lparr>mp_locked = 250000, max_payout = 250000\<rparr>],
        Options := [1 \<mapsto> demo_call], OptionCount := Some 1\<rparr>)"

definition demo_options_due :: option_state where
  "demo_options_due = publish (Ev_price ''XLM'' \<lparr>pd_price = 97000000, updated_at = 90\<rparr>)
     (demo_options_sold\<lparr>Prices := [''XLM'' \<mapsto> \<lparr>pd_price = 97000000, updated_at = 90\<rparr>]\<rparr>)"

lemmas demo_option_states = demo_options_due_def demo_options_sold_def demo_options_priced_def demo_options_funded_def
  demo_options_pool_def demo_options_def empty_options_def publish_def
lemmas option_arith = checked_add_def checked_sub_def checked_mul_def checked_div_def in_i128_def i128_max_def
  i128_min_def u32_max_def u32_checked_add_def SCALE_def

definition rich_margin :: "address \<rightharpoonup> int" where "rich_margin = moved 5 99 300000 rich_holdings"
definition rich_premium :: "address \<rightharpoonup> int" where "rich_premium = moved 8 5 10000 rich_margin"

definition demo_option_log :: "token_event list" where
  "demo_option_log = [Ev_Mint 5 600000, Ev_Mint 8 400000, Ev_Transfer 5 99 300000]"

lemma demo_options_initialize: "initialize (host_env 1) 1 empty_options = Ok ((), demo_options)"
  by (simp add: initialize_def is_initialized_def option_setters require_auth_def demo_option_states)

lemma demo_options_configure:
  "configure_margin_pool (host_env 2) 1 40 7 1000 60 demo_options = Ok ((), demo_options_pool)"
  by (simp add: configure_margin_pool_def option_getters option_setters require_auth_def demo_option_states demo_pool_def
      assert_admin_def assert_initialized_guard_def Let_def)

lemma demo_options_deposit:
  "deposit_margin world_transfer (host_env 10) 5 300000 (rich_ledger, demo_options_pool) =
     Ok ((), rich_world rich_margin demo_option_log, demo_options_funded)"
proof -
  have "world_transfer 40 (subcall_env (host_env 10) 40) 5 99 300000 rich_ledger = Some (rich_world rich_margin demo_option_log)"
    using rich_transfer [of "subcall_env (host_env 10) 40" 5 300000 rich_holdings 99 "[Ev_Mint 5 600000, Ev_Mint 8 400000]"]
    by (simp add: rich_ledger_def rich_margin_def demo_option_log_def rich_holdings_def bal_moved option_arith)
  then show ?thesis
    by (simp add: deposit_margin_def assert_initialized_guard_def assert_not_paused_def is_paused_def option_getters
        option_setters get_margin_account_def require_auth_def demo_option_states demo_pool_def option_arith Let_def)
qed

lemma demo_options_price:
  "update_price (host_env 20) 7 ''XLM'' 100000000 demo_options_funded = Ok ((), demo_options_priced)"
  "update_price (host_env 90) 7 ''XLM'' 97000000 demo_options_sold = Ok ((), demo_options_due)"
  by (simp_all add: update_price_def assert_not_paused_def is_paused_def option_getters option_setters require_auth_def
      demo_option_states demo_pool_def Let_def)

definition demo_option_log_sold :: "token_event list" where
  "demo_option_log_sold = demo_option_log @ [Ev_Transfer 8 5 10000]"

lemma demo_options_sell:
  "write_collateralized_option world_transfer (host_env 30) 5 8 ''XLM'' 90000000 10000 200000 100 Call 250000
     (rich_world rich_margin demo_option_log, demo_options_priced) =
   Ok (1, rich_world rich_premium demo_option_log_sold, demo_options_sold)"
proof -
  have "world_transfer 40 (subcall_env (host_env 30) 40) 8 5 10000 (rich_world rich_margin demo_option_log) =
      Some (rich_world rich_premium demo_option_log_sold)"
    unfolding rich_premium_def demo_option_log_sold_def
    by (rule rich_transfer) (simp_all add: rich_margin_def rich_holdings_def bal_moved option_arith)
  moreover have "fresh_price (host_env 30) ''XLM'' demo_pool demo_options_priced = Ok 100000000"
    by (simp add: fresh_price_def option_getters demo_option_states demo_pool_def)
  moreover have "required_margin 100000000 90000000 200000 Call 250000 1000 = Ok 250000"
    by (simp add: required_margin_def intrinsic_value_def saturating_sub_def i128_saturate_def option_arith)
  ultimately show ?thesis
    by (simp add: write_collateralized_option_def validate_option_def assert_initialized_guard_def assert_not_paused_def
        is_paused_def option_getters option_setters get_margin_account_def get_option_count_def require_auth_def
        demo_option_states demo_pool_def demo_call_def option_arith Let_def)
qed

lemma demo_options_run:
  "(repo_option_step 99)\<^sup>*\<^sup>* (rich_ledger, empty_options) (rich_world rich_premium demo_option_log_sold, demo_options_due)"
proof -
  let ?w = "rich_world rich_margin demo_option_log" and ?v = "rich_world rich_premium demo_option_log_sold"
  have "repo_option_step 99 (rich_ledger, empty_options) (rich_ledger, demo_options)"
    by (rule option_step.book [OF _ _ option_book.initialize [OF demo_options_initialize]]) simp_all
  moreover have "repo_option_step 99 (rich_ledger, demo_options) (rich_ledger, demo_options_pool)"
    by (rule option_step.book [OF _ _ option_book.configure [OF demo_options_configure]]) simp_all
  moreover have "repo_option_step 99 (rich_ledger, demo_options_pool) (?w, demo_options_funded)"
    by (rule option_step.tokens [OF _ _ option_token.deposit [OF _ demo_options_deposit]]) (simp_all add: option_arith)
  moreover have "repo_option_step 99 (?w, demo_options_funded) (?w, demo_options_priced)"
    by (rule option_step.book [OF _ _ option_book.price [OF _ demo_options_price(1)]]) (simp_all add: option_arith)
  moreover have "repo_option_step 99 (?w, demo_options_priced) (?v, demo_options_sold)"
    by (rule option_step.tokens [OF _ _ option_token.write_collateralized [OF _ _ _ _ demo_options_sell]])
      (simp_all add: option_arith)
  moreover have "repo_option_step 99 (?v, demo_options_sold) (?v, demo_options_due)"
    by (rule option_step.book [OF _ _ option_book.price [OF _ demo_options_price(2)]]) (simp_all add: option_arith)
  ultimately show ?thesis by (meson rtranclp.rtrancl_refl rtranclp.rtrancl_into_rtrancl)
qed

lemma demo_options_settle:
  "\<exists>w' t. settle_option world_transfer (host_env 100) 1 (rich_world rich_premium demo_option_log_sold, demo_options_due) =
     Ok (140000, w', t)"
proof -
  have "world_transfer 40 (subcall_env (host_env 100) 40) 99 8 140000 (rich_world rich_premium demo_option_log_sold) =
      Some (rich_world (moved 99 8 140000 rich_premium) (demo_option_log_sold @ [Ev_Transfer 99 8 140000]))"
    by (rule rich_transfer) (simp_all add: rich_premium_def rich_margin_def rich_holdings_def bal_moved option_arith)
  then show ?thesis
    by (simp add: settle_option_def fresh_price_def intrinsic_value_def saturating_sub_def i128_saturate_def assert_not_paused_def is_paused_def
        option_getters option_setters get_margin_account_def demo_option_states demo_pool_def demo_call_def option_arith Let_def)
qed

section \<open>Properties\<close>

text \<open>
  C31. The margin pool is covered and never lent twice: in every reachable state the contract holds at
  least the sum of all margin deposits, each writer's locked margin is exactly what that writer's open
  positions reserve and never exceeds the writer's deposit, and every position belongs to a live option
  and reserves at most its maximal payout.
\<close>

theorem option_margin_covered:
  assumes "(repo_option_step self)\<^sup>*\<^sup>* (w0, empty_options) (w, s)" "world_ok self w0" "pub_get_margin_config s = Ok config"
  shows "deposits s \<le> world_balance w (settlement_token config) self \<and>
    ma_locked (pub_get_margin_account a s) = reserved_for a s \<and>
    0 \<le> ma_locked (pub_get_margin_account a s) \<and> ma_locked (pub_get_margin_account a s) \<le> ma_balance (pub_get_margin_account a s) \<and>
    (\<forall>p. pub_get_margin_position i s = Ok p \<longrightarrow> 0 \<le> mp_locked p \<and> mp_locked p \<le> max_payout p \<and>
       (\<exists>c. pub_get_option i s = Ok c \<and> (opt_status c = Active \<or> opt_status c = MarginCalled)))"
proof -
  note r = reachable_options [OF assms(1,2)]
  have "deposits s \<le> world_balance w (settlement_token config) self"
    using assms(3) by (intro r(3)) (simp add: pub_get_margin_config_def)
  then show ?thesis
    using option_invD(3) [OF r(1), of a] option_invD(4) [OF r(1), of i]
    by (auto simp: pub_get_margin_account_def pub_get_margin_position_def pub_get_option_def account_ok_def entry_ok_def
        live_def Let_def)
qed

theorem option_margin_covered_witness:
  "deposits demo_options_due \<le> world_balance (rich_world rich_premium demo_option_log_sold) 40 99 \<and>
    ma_locked (pub_get_margin_account 5 demo_options_due) = reserved_for 5 demo_options_due"
  using option_margin_covered [OF demo_options_run rich_ledger_ok, of demo_pool 5]
  by (simp add: pub_get_margin_config_def demo_option_states demo_pool_def)

text \<open>
  C32. A settlement pays in full or not at all. From expiry on, with a fresh price, an unpaused
  contract and an intrinsic value that does not overflow, anybody can settle a collateralised option:
  if the payout, the intrinsic value capped at the agreed maximum, is at most the margin locked for
  it, the holder receives exactly the payout, the writer's deposit falls by it and the whole
  reservation is released; if the locked margin is short, however little, the call is refused and the
  holder receives nothing.
\<close>

theorem settlement_pays_or_refuses:
  assumes run: "(repo_option_step self)\<^sup>*\<^sup>* (w0, empty_options) (w, s)" "world_ok self w0"
    and entry: "pub_get_option i s = Ok c" "pub_get_margin_position i s = Ok p" "pub_get_margin_config s = Ok config"
    and env: "\<not> pub_is_paused s" "expiry c \<le> timestamp env" "current_contract env = self" "holder c \<noteq> self"
    and price: "fresh_price env (underlying c) config s = Ok spot"
      "intrinsic_value spot (strike_price c) (opt_amount c) (kind c) = Ok v"
  shows "(mp_locked p < min v (max_payout p) \<longrightarrow>
      settle_option world_transfer env i (w, s) = Err InsufficientMargin) \<and>
    (min v (max_payout p) \<le> mp_locked p \<longrightarrow> (\<exists>w' t.
      settle_option world_transfer env i (w, s) = Ok (min v (max_payout p), w', t) \<and>
      world_balance w' (settlement_token config) (holder c) =
        world_balance w (settlement_token config) (holder c) + min v (max_payout p) \<and>
      pub_get_option i t = Ok (c\<lparr>opt_status := (if 0 < min v (max_payout p) then Exercised else Expired)\<rparr>) \<and>
      pub_get_margin_position i t = Err PositionNotCollateralized \<and>
      pub_get_margin_account (writer c) t = \<lparr>ma_balance = ma_balance (pub_get_margin_account (writer c) s) - min v (max_payout p),
        ma_locked = ma_locked (pub_get_margin_account (writer c) s) - mp_locked p\<rparr>))"
proof -
  note r = reachable_options [OF run]
  have e: "Options s i = Some c" "MarginPositions s i = Some p" "MarginConfigEntry s = Some config"
    using entry by (simp_all add: pub_get_option_def pub_get_margin_position_def pub_get_margin_config_def)
  note E = option_invD(4) [OF r(1), of i] and A = option_invD(3) [OF r(1), of "writer c"]
  have c: "opt_id c = i" "live (opt_status c)" "0 < opt_amount c" "0 \<le> mp_locked p" "0 < max_payout p" using E e by (auto simp: entry_ok_def)
  have v: "0 \<le> v" using price(2) c(3) by (auto simp: intrinsic_value_def Let_def SCALE_def pos_imp_zdiv_nonneg_iff)
  define x where "x = min v (max_payout p)"
  have x: "0 \<le> x" using v c(5) by (simp add: x_def)
  let ?m = "get_margin_account s (writer c)"
  have m: "0 \<le> ma_locked ?m - mp_locked p" "ma_locked ?m \<le> ma_balance ?m" "ma_balance ?m \<le> i128_max"
    using A reserved_le [OF r(1), of "writer c" i] e(1,2) by (auto simp: account_ok_def Let_def reserved_def share_of_def)
  have short: "settle_option world_transfer env i (w, s) = Err InsufficientMargin" if "mp_locked p < x"
    using that e c(2) env(1,2) price
    by (auto simp: settle_option_def pub_is_paused_def live_def x_def assert_not_paused_def option_getters Let_def)
  have full: "\<exists>w' t. settle_option world_transfer env i (w, s) = Ok (x, w', t) \<and>
      world_balance w' (settlement_token config) (holder c) = world_balance w (settlement_token config) (holder c) + x \<and>
      pub_get_option i t = Ok (c\<lparr>opt_status := (if 0 < x then Exercised else Expired)\<rparr>) \<and>
      pub_get_margin_position i t = Err PositionNotCollateralized \<and>
      pub_get_margin_account (writer c) t = \<lparr>ma_balance = ma_balance ?m - x, ma_locked = ma_locked ?m - mp_locked p\<rparr>"
    if le: "x \<le> mp_locked p"
  proof -
    have dep: "ma_balance ?m \<le> deposits s" by (rule balance_le_deposits [OF r(1)])
    have pay: "x \<le> world_balance w (settlement_token config) self" using r(3) [OF e(3)] dep m le by linarith
    obtain w' where w': "if 0 < x then world_transfer (settlement_token config) (subcall_env env (settlement_token config)) self (holder c) x w = Some w'
        else w' = w"
      using world_transfer_succeeds [OF r(2) _ pay, of "subcall_env env (settlement_token config)" "holder c"] env(3)
      by (cases "0 < x") auto
    have b: "world_balance w' (settlement_token config) (holder c) = world_balance w (settlement_token config) (holder c) + x"
      using w' x env(4) repo_token.deposit_effect(1) [of "settlement_token config" _ self "holder c" x w w'] by (auto split: if_splits)
    have "in_i128 (ma_locked ?m - mp_locked p)" "in_i128 (ma_balance ?m - x)"
      using m c(4) x le by (auto simp: in_i128_def i128_max_def i128_min_def)
    then show ?thesis
      using e c(1,2) env(1-3) price le w' b
      by (auto simp: settle_option_def pub_is_paused_def live_def x_def [symmetric] assert_not_paused_def option_getters
          option_setters pub_get_option_def pub_get_margin_position_def pub_get_margin_account_def get_margin_account_def Let_def
          simp del: min_less_iff_conj)
  qed
  show ?thesis using short full unfolding x_def pub_get_margin_account_def by blast
qed

theorem settlement_pays_or_refuses_witness:
  "\<exists>w' t. settle_option world_transfer (host_env 100) 1 (rich_world rich_premium demo_option_log_sold, demo_options_due) =
      Ok (140000, w', t) \<and>
    world_balance w' 40 8 = world_balance (rich_world rich_premium demo_option_log_sold) 40 8 + 140000 \<and>
    pub_get_option 1 t = Ok (demo_call\<lparr>opt_status := Exercised\<rparr>) \<and>
    pub_get_margin_account 5 t = \<lparr>ma_balance = 160000, ma_locked = 0\<rparr>"
proof -
  have e: "pub_get_option 1 demo_options_due = Ok demo_call" "pub_get_margin_config demo_options_due = Ok demo_pool"
    "pub_get_margin_position 1 demo_options_due = Ok \<lparr>mp_locked = 250000, max_payout = 250000\<rparr>"
    "\<not> pub_is_paused demo_options_due" "expiry demo_call \<le> timestamp (host_env 100)" "holder demo_call \<noteq> 99"
    "pub_get_margin_account 5 demo_options_due = \<lparr>ma_balance = 300000, ma_locked = 250000\<rparr>"
    "writer demo_call = 5" "settlement_token demo_pool = 40" "holder demo_call = 8"
    by (simp_all add: pub_get_option_def pub_get_margin_config_def pub_get_margin_position_def pub_is_paused_def is_paused_def
        pub_get_margin_account_def get_margin_account_def option_getters demo_option_states demo_call_def demo_pool_def)
  have x: "fresh_price (host_env 100) (underlying demo_call) demo_pool demo_options_due = Ok 97000000"
    by (simp add: fresh_price_def option_getters demo_option_states demo_call_def demo_pool_def)
  have v: "intrinsic_value 97000000 (strike_price demo_call) (opt_amount demo_call) (kind demo_call) = Ok 140000"
    by (simp add: intrinsic_value_def saturating_sub_def i128_saturate_def demo_call_def option_arith)
  show ?thesis
    using settlement_pays_or_refuses [OF demo_options_run rich_ledger_ok e(1,3,2,4,5) _ e(6) x v] e(7-10) by simp blast
qed

text \<open>
  C33. The life cycle of an option: whatever call is made, an existing option keeps its terms; its
  status changes only while it is active or margin called; a plain option is exercised only by its
  holder and no later than expiry, expires only after expiry, and is cancelled by its writer; a
  collateralised one settles only from expiry on, is cancelled only before expiry and by both parties,
  and only it can be margin called.
\<close>

theorem option_lifecycle:
  assumes "(repo_option_step self)\<^sup>*\<^sup>* (w0, empty_options) (w, s)" "world_ok self w0"
    "option_book env s t \<or> option_token world_transfer env (w, s) (w', t)" "pub_get_option i s = Ok c"
  shows "\<exists>st. pub_get_option i t = Ok (c\<lparr>opt_status := st\<rparr>) \<and>
    (st = opt_status c \<or>
      (opt_status c = Active \<or> opt_status c = MarginCalled) \<and> option_move env (is_ok (pub_get_margin_position i s)) c st)"
proof -
  have inv: "option_inv s" by (rule reachable_options(1) [OF assms(1,2)])
  have c: "Options s i = Some c" using assms(4) by (simp add: pub_get_option_def)
  have p: "is_ok (pub_get_margin_position i s) \<longleftrightarrow> MarginPositions s i \<noteq> None"
    by (cases "MarginPositions s i") (simp_all add: pub_get_margin_position_def get_margin_position_def)
  have "option_delta env s t" using assms(3) by (elim disjE) (rule option_book_delta option_token_delta, assumption, rule inv)+
  then consider "Options t = Options s"
    | j d st where "Options s j = Some d" "live (opt_status d)" "option_move env (MarginPositions s j \<noteq> None) d st"
        "Options t = (Options s)(j \<mapsto> d\<lparr>opt_status := st\<rparr>)"
    | d where "Options t = (Options s)(Suc (get_option_count s) \<mapsto> d)"
    unfolding option_delta_def fresh_option_def by force
  then show ?thesis
  proof cases
    case 1
    then show ?thesis using c by (intro exI [of _ "opt_status c"]) (simp add: pub_get_option_def)
  next
    case 2
    show ?thesis
    proof (cases "i = j")
      case True
      then show ?thesis using 2 c p by (intro exI [of _ st]) (auto simp: pub_get_option_def live_def)
    next
      case False
      then show ?thesis using 2 c by (intro exI [of _ "opt_status c"]) (simp add: pub_get_option_def)
    qed
  next
    case 3
    then show ?thesis using c new_option_slot(1) [OF inv]
      by (intro exI [of _ "opt_status c"]) (auto simp: pub_get_option_def)
  qed
qed

theorem option_lifecycle_witness:
  "\<exists>w' t st. settle_option world_transfer (host_env 100) 1 (rich_world rich_premium demo_option_log_sold, demo_options_due) =
      Ok (140000, w', t) \<and> pub_get_option 1 t = Ok (demo_call\<lparr>opt_status := st\<rparr>) \<and>
    (st = Active \<or> option_move (host_env 100) True demo_call st)"
proof -
  obtain w' t where t: "settle_option world_transfer (host_env 100) 1 (rich_world rich_premium demo_option_log_sold, demo_options_due) =
      Ok (140000, w', t)" using demo_options_settle by blast
  have e: "pub_get_option 1 demo_options_due = Ok demo_call" "is_ok (pub_get_margin_position 1 demo_options_due)"
    "opt_status demo_call = Active"
    by (simp_all add: pub_get_option_def pub_get_margin_position_def option_getters demo_option_states demo_call_def)
  show ?thesis
    using option_lifecycle [OF demo_options_run rich_ledger_ok disjI2 [OF option_token.settle [OF t]] e(1)] t e(2,3) by auto
qed

text \<open>
  C34. The store is well typed: in every reachable state the option counter and every option id fit in
  \<open>u32\<close>, strikes, premiums, amounts, prices, margin balances, reservations and maximal payouts fit in
  \<open>i128\<close>, every option is stored under its own id, between 1 and the counter, has positive strike and
  amount and two different parties, and a margin-called option has a position.
\<close>

theorem option_store_well_typed:
  assumes "(repo_option_step self)\<^sup>*\<^sup>* (w0, empty_options) (w, s)" "world_ok self w0"
  shows "option_count s \<le> u32_max \<and>
    (\<forall>i c. pub_get_option i s = Ok c \<longrightarrow> opt_id c = i \<and> 1 \<le> i \<and> i \<le> option_count s \<and> writer c \<noteq> holder c \<and>
       0 < strike_price c \<and> strike_price c \<le> i128_max \<and> 0 < opt_amount c \<and> opt_amount c \<le> i128_max \<and> in_i128 (premium c) \<and>
       (opt_status c = MarginCalled \<longrightarrow> is_ok (pub_get_margin_position i s))) \<and>
    (\<forall>i p. pub_get_margin_position i s = Ok p \<longrightarrow> in_i128 (mp_locked p) \<and> in_i128 (max_payout p)) \<and>
    (\<forall>y d. pub_get_price y s = Ok d \<longrightarrow> 0 < pd_price d \<and> pd_price d \<le> i128_max) \<and>
    (\<forall>a. in_i128 (ma_balance (pub_get_margin_account a s)) \<and> in_i128 (ma_locked (pub_get_margin_account a s)))"
proof (intro conjI allI impI)
  have inv: "option_inv s" and ty: "store_typed s" using reachable_typed [OF assms] by simp_all
  note T = ty [unfolded store_typed_def]
  show "option_count s \<le> u32_max" using T by (simp add: option_count_def)
  fix i c assume "pub_get_option i s = Ok c"
  then have c: "Options s i = Some c" by (simp add: pub_get_option_def)
  have e: "opt_id c = i" "1 \<le> i" "i \<le> get_option_count s" "0 < strike_price c" "0 < opt_amount c" "writer c \<noteq> holder c"
    "opt_status c = MarginCalled \<Longrightarrow> MarginPositions s i \<noteq> None"
    using option_invD(4) [OF inv, of i] c by (auto simp: entry_ok_def)
  show "opt_id c = i" "1 \<le> i" "i \<le> option_count s" "writer c \<noteq> holder c" "0 < strike_price c" "0 < opt_amount c"
    using e by (simp_all add: option_count_def)
  show "strike_price c \<le> i128_max" "opt_amount c \<le> i128_max" "in_i128 (premium c)" using T c by (auto simp: in_i128_def)
  show "is_ok (pub_get_margin_position i s)" if "opt_status c = MarginCalled"
    using e(7) [OF that] by (auto simp: pub_get_margin_position_def get_margin_position_def)
next
  have inv: "option_inv s" and ty: "store_typed s" using reachable_typed [OF assms] by simp_all
  fix i p assume "pub_get_margin_position i s = Ok p"
  then have p: "MarginPositions s i = Some p" by (simp add: pub_get_margin_position_def)
  show m: "in_i128 (max_payout p)" using ty p by (auto simp: store_typed_def)
  show "in_i128 (mp_locked p)" using option_invD(4) [OF inv, of i] p m by (auto simp: entry_ok_def in_i128_def i128_min_def)
next
  have inv: "option_inv s" and ty: "store_typed s" using reachable_typed [OF assms] by simp_all
  fix y d assume "pub_get_price y s = Ok d"
  then have d: "Prices s y = Some d" by (simp add: pub_get_price_def)
  show "0 < pd_price d" "pd_price d \<le> i128_max" using option_invD(5) [OF inv d] ty d by (auto simp: store_typed_def in_i128_def)
next
  have inv: "option_inv s" using reachable_typed [OF assms] by simp
  fix a
  show "in_i128 (ma_balance (pub_get_margin_account a s))" "in_i128 (ma_locked (pub_get_margin_account a s))"
    using option_invD(3) [OF inv, of a] by (auto simp: pub_get_margin_account_def account_ok_def Let_def in_i128_def i128_min_def)
qed

theorem option_store_well_typed_witness:
  "option_count demo_options_due \<le> u32_max \<and> in_i128 (ma_locked (pub_get_margin_account 5 demo_options_due))"
  using option_store_well_typed [OF demo_options_run rich_ledger_ok] by blast

end
