(* ===== verification/Loan_Syndication.thy ===== *)
theory Loan_Syndication
  imports Soroban_Prelude
begin

text \<open>
  The syndicated loans of \<open>contracts/loan-syndication\<close>: storage accessors with the reentrancy lock
  (\<open>src/storage.rs\<close>), the data (\<open>src/types.rs\<close>) and every entry point and helper of \<open>src/lib.rs\<close>. The
  asset of a loan is another contract: its \<open>transfer\<close> is the parameter \<open>tc\<close>.
\<close>

section \<open>Types and storage\<close>

datatype loan_error =
    AlreadyInitialized | NotInitialized | Unauthorized | ContractPaused | ReentrantCall | LoanNotFound | InvalidAmount
  | InvalidTerms | InvalidTranche | FundingClosed | TrancheCapacityExceeded | LoanNotFunded | InvalidLoanStatus
  | LoanNotMatured | NothingToClaim | ArithmeticOverflow

datatype Tranche = Senior | Junior

datatype LoanStatus = Funding | Active | Repaid | Defaulted | Cancelled

record Loan =
  loan_id :: nat
  borrower :: address
  asset :: address
  loan_status :: LoanStatus
  principal_target :: int
  senior_target :: int
  junior_target :: int
  senior_funded :: int
  junior_funded :: int
  senior_yield_bps :: nat
  junior_yield_bps :: nat
  funding_deadline :: nat
  maturity :: nat
  grace_period :: nat
  repaid :: int
  total_claimed :: int
  loan_created_at :: nat

record TranchePosition =
  tp_loan_id :: nat
  lender :: address
  tp_tranche :: Tranche
  tp_principal :: int
  claimed :: int

record TrancheSummary =
  ts_tranche :: Tranche
  ts_target :: int
  ts_funded :: int
  ts_yield_bps :: nat
  amount_due :: int
  settlement_allocation :: int

datatype loan_event =
    Ev_init address | Ev_paused bool | Ev_created nat address int int | Ev_funded nat address Tranche int
  | Ev_drawdown nat address int | Ev_repaid nat address int int | Ev_default nat int | Ev_cancelled nat address
  | Ev_expired nat int | Ev_refund nat address Tranche int | Ev_claimed nat address Tranche int

record loan_state =
  Admin :: "address option"
  Initialized :: "bool option"
  Paused :: "bool option"
  Locked :: "bool option"
  LoanCount :: "nat option"
  Loans :: "nat \<rightharpoonup> Loan"
  Positions :: "nat \<times> address \<times> Tranche \<rightharpoonup> TranchePosition"
  events :: "loan_event list"

definition empty_loans :: loan_state where
  "empty_loans = \<lparr>Admin = None, Initialized = None, Paused = None, Locked = None, LoanCount = None,
     Loans = Map.empty, Positions = Map.empty, events = []\<rparr>"

definition publish :: "loan_event \<Rightarrow> loan_state \<Rightarrow> loan_state" where
  "publish e s = s\<lparr>events := events s @ [e]\<rparr>"

definition is_initialized :: "loan_state \<Rightarrow> bool" where
  "is_initialized s = (Initialized s \<noteq> None)"
definition set_initialized :: "address \<Rightarrow> loan_state \<Rightarrow> loan_state" where
  "set_initialized admin s = s\<lparr>Admin := Some admin, Initialized := Some True, Paused := Some False\<rparr>"
definition get_admin :: "loan_state \<Rightarrow> (loan_error, address) outcome" where
  "get_admin s = ok_or NotInitialized (Admin s)"
definition is_paused :: "loan_state \<Rightarrow> bool" where
  "is_paused s = unwrap_or False (Paused s)"
definition set_paused :: "bool \<Rightarrow> loan_state \<Rightarrow> loan_state" where
  "set_paused b s = s\<lparr>Paused := Some b\<rparr>"

text \<open>The reentrancy lock.\<close>

definition enter :: "loan_state \<Rightarrow> (loan_error, unit \<times> loan_state) outcome" where
  "enter s = (if unwrap_or False (Locked s) then Err ReentrantCall else Ok ((), s\<lparr>Locked := Some True\<rparr>))"
definition exit :: "loan_state \<Rightarrow> loan_state" where
  "exit s = s\<lparr>Locked := Some False\<rparr>"

definition next_loan_id :: "loan_state \<Rightarrow> (loan_error, nat \<times> loan_state) outcome" where
  "next_loan_id s =
     (let current = unwrap_or 0 (LoanCount s) in
      and_then (ok_or ArithmeticOverflow (u32_checked_add current 1)) (\<lambda>n. Ok (n, s\<lparr>LoanCount := Some n\<rparr>)))"
definition get_loan_count :: "loan_state \<Rightarrow> nat" where
  "get_loan_count s = unwrap_or 0 (LoanCount s)"
definition set_loan :: "Loan \<Rightarrow> loan_state \<Rightarrow> loan_state" where
  "set_loan l s = s\<lparr>Loans := (Loans s)(loan_id l \<mapsto> l)\<rparr>"
definition get_loan :: "loan_state \<Rightarrow> nat \<Rightarrow> (loan_error, Loan) outcome" where
  "get_loan s i = ok_or LoanNotFound (Loans s i)"
definition get_position :: "loan_state \<Rightarrow> nat \<Rightarrow> address \<Rightarrow> Tranche \<Rightarrow> TranchePosition" where
  "get_position s i a tr =
     unwrap_or \<lparr>tp_loan_id = i, lender = a, tp_tranche = tr, tp_principal = 0, claimed = 0\<rparr> (Positions s (i, a, tr))"
definition set_position :: "TranchePosition \<Rightarrow> loan_state \<Rightarrow> loan_state" where
  "set_position p s = s\<lparr>Positions := (Positions s)((tp_loan_id p, lender p, tp_tranche p) \<mapsto> p)\<rparr>"

lemmas loan_setters = set_initialized_def set_paused_def exit_def set_loan_def set_position_def publish_def

section \<open>Arithmetic and helpers\<close>

definition BPS_DENOMINATOR :: int where "BPS_DENOMINATOR = 10000"
definition MAX_YIELD_BPS :: nat where "MAX_YIELD_BPS = 10000"
definition MAX_GRACE_PERIOD :: nat where "MAX_GRACE_PERIOD = 90 * 24 * 60 * 60"

text \<open>Euclid's loop; \<open>smod\<close> is Rust's remainder.\<close>

function gcd_loop :: "int \<Rightarrow> int \<Rightarrow> int" where
  "gcd_loop left right = (if right = 0 then left else gcd_loop right (left smod right))"
  by pat_completeness auto
termination
  by (relation "measure (\<lambda>(l, r). nat \<bar>r\<bar>)") (auto intro: smod_smaller)

declare gcd_loop.simps [simp del]

definition mul_div_floor :: "int \<Rightarrow> int \<Rightarrow> int \<Rightarrow> (loan_error, int) outcome" where
  "mul_div_floor left right denominator =
     (if left < 0 \<or> right < 0 \<or> denominator \<le> 0 then Err InvalidAmount
      else
        let first_gcd = gcd_loop left denominator in
        and_then (i128_div left first_gcd) (\<lambda>reduced_left.
        and_then (i128_div denominator first_gcd) (\<lambda>remaining_denominator.
        let second_gcd = gcd_loop right remaining_denominator in
        and_then (i128_div right second_gcd) (\<lambda>reduced_right.
        and_then (ok_or loan_error.ArithmeticOverflow (checked_mul reduced_left reduced_right)) (\<lambda>v.
        and_then (i128_div remaining_denominator second_gcd) (\<lambda>divisor.
        i128_div v divisor))))))"

definition ensure_initialized :: "loan_state \<Rightarrow> (loan_error, unit) outcome" where
  "ensure_initialized s = (if \<not> is_initialized s then Err NotInitialized else Ok ())"
definition ensure_not_paused :: "loan_state \<Rightarrow> (loan_error, unit) outcome" where
  "ensure_not_paused s = (if is_paused s then Err ContractPaused else Ok ())"
definition validate_amount :: "int \<Rightarrow> (loan_error, unit) outcome" where
  "validate_amount amt = (if amt \<le> 0 then Err InvalidAmount else Ok ())"

definition validate_terms ::
    "env \<Rightarrow> int \<Rightarrow> int \<Rightarrow> nat \<Rightarrow> nat \<Rightarrow> nat \<Rightarrow> nat \<Rightarrow> nat \<Rightarrow> (loan_error, unit) outcome" where
  "validate_terms env prin senior senior_bps junior_bps deadline mat grace =
     (if prin \<le> 0 \<or> senior \<le> 0 \<or> senior \<ge> prin \<or> senior_bps > MAX_YIELD_BPS \<or> junior_bps > MAX_YIELD_BPS \<or>
         junior_bps < senior_bps \<or> deadline \<le> timestamp env \<or> mat \<le> deadline \<or> grace > MAX_GRACE_PERIOD
      then Err InvalidTerms else Ok ())"

definition parse_tranche :: "nat \<Rightarrow> (loan_error, Tranche) outcome" where
  "parse_tranche v = (if v = 0 then Ok Senior else if v = 1 then Ok Junior else Err InvalidTranche)"

definition tranche_funding :: "Loan \<Rightarrow> Tranche \<Rightarrow> int \<times> int" where
  "tranche_funding l tr =
     (case tr of Senior \<Rightarrow> (senior_funded l, senior_target l) | Junior \<Rightarrow> (junior_funded l, junior_target l))"

definition tranche_due :: "int \<Rightarrow> nat \<Rightarrow> (loan_error, int) outcome" where
  "tranche_due prin bps =
     and_then (mul_div_floor prin (int bps) BPS_DENOMINATOR) (\<lambda>interest.
     ok_or loan_error.ArithmeticOverflow (checked_add prin interest))"

definition total_due :: "Loan \<Rightarrow> (loan_error, int) outcome" where
  "total_due l =
     and_then (tranche_due (senior_target l) (senior_yield_bps l)) (\<lambda>a.
     and_then (tranche_due (junior_target l) (junior_yield_bps l)) (\<lambda>b.
     ok_or loan_error.ArithmeticOverflow (checked_add a b)))"

definition tranche_allocation :: "Loan \<Rightarrow> Tranche \<Rightarrow> (loan_error, int) outcome" where
  "tranche_allocation l tr =
     and_then (tranche_due (senior_target l) (senior_yield_bps l)) (\<lambda>senior_due.
     case tr of
       Senior \<Rightarrow> Ok (min (repaid l) senior_due)
     | Junior \<Rightarrow>
         and_then (if repaid l > senior_due then ok_or loan_error.ArithmeticOverflow (checked_sub (repaid l) senior_due)
                   else Ok 0) (\<lambda>residual.
         and_then (tranche_due (junior_target l) (junior_yield_bps l)) (\<lambda>junior_due.
         Ok (min residual junior_due))))"

definition position_claim :: "Loan \<Rightarrow> TranchePosition \<Rightarrow> (loan_error, int) outcome" where
  "position_claim l p =
     (if tp_principal p \<le> 0 then Ok 0
      else
        let tranche_funded = (case tp_tranche p of Senior \<Rightarrow> senior_funded l | Junior \<Rightarrow> junior_funded l) in
        if tranche_funded \<le> 0 then Ok 0
        else
          and_then (tranche_allocation l (tp_tranche p)) (\<lambda>allocation.
          and_then (mul_div_floor allocation (tp_principal p) tranche_funded) (\<lambda>entitlement.
          ok_or loan_error.ArithmeticOverflow (checked_sub entitlement (claimed p)))))"

section \<open>Administration and the terms of a loan\<close>

definition initialize :: "env \<Rightarrow> address \<Rightarrow> loan_state \<Rightarrow> (loan_error, unit \<times> loan_state) outcome" where
  "initialize env admin s =
     (if is_initialized s then Err AlreadyInitialized
      else and_then (require_auth env admin) (\<lambda>_. Ok ((), publish (Ev_init admin) (set_initialized admin s))))"

definition pause :: "env \<Rightarrow> loan_state \<Rightarrow> (loan_error, unit \<times> loan_state) outcome" where
  "pause env s =
     and_then (ensure_initialized s) (\<lambda>_.
     and_then (get_admin s) (\<lambda>admin.
     and_then (require_auth env admin) (\<lambda>_. Ok ((), publish (Ev_paused True) (set_paused True s)))))"

definition unpause :: "env \<Rightarrow> loan_state \<Rightarrow> (loan_error, unit \<times> loan_state) outcome" where
  "unpause env s =
     and_then (ensure_initialized s) (\<lambda>_.
     and_then (get_admin s) (\<lambda>admin.
     and_then (require_auth env admin) (\<lambda>_. Ok ((), publish (Ev_paused False) (set_paused False s)))))"

definition create_loan ::
    "env \<Rightarrow> address \<Rightarrow> address \<Rightarrow> int \<Rightarrow> int \<Rightarrow> nat \<Rightarrow> nat \<Rightarrow> nat \<Rightarrow> nat \<Rightarrow> nat \<Rightarrow> loan_state \<Rightarrow>
     (loan_error, nat \<times> loan_state) outcome" where
  "create_loan env who tok prin senior senior_bps junior_bps deadline mat grace s =
     and_then (ensure_initialized s) (\<lambda>_.
     and_then (ensure_not_paused s) (\<lambda>_.
     and_then (require_auth env who) (\<lambda>_.
     and_then (validate_terms env prin senior senior_bps junior_bps deadline mat grace) (\<lambda>_.
     and_then (ok_or loan_error.ArithmeticOverflow (checked_sub prin senior)) (\<lambda>junior.
     and_then (next_loan_id s) (\<lambda>(i, s1).
     let l = \<lparr>loan_id = i, borrower = who, asset = tok, loan_status = Funding, principal_target = prin,
           senior_target = senior, junior_target = junior, senior_funded = 0, junior_funded = 0,
           senior_yield_bps = senior_bps, junior_yield_bps = junior_bps, funding_deadline = deadline, maturity = mat,
           grace_period = grace, repaid = 0, total_claimed = 0, loan_created_at = timestamp env\<rparr>
     in Ok (i, publish (Ev_created i who prin senior) (set_loan l s1))))))))"

section \<open>Funding, drawdown and repayment\<close>

definition fund ::
    "'w token_transfer \<Rightarrow> env \<Rightarrow> address \<Rightarrow> nat \<Rightarrow> nat \<Rightarrow> int \<Rightarrow> 'w \<times> loan_state \<Rightarrow> (loan_error, unit \<times> 'w \<times> loan_state) outcome" where
  "fund tc env who i tranche_no amt ws =
     (case ws of (w, s) \<Rightarrow>
     and_then (ensure_initialized s) (\<lambda>_.
     and_then (ensure_not_paused s) (\<lambda>_.
     and_then (require_auth env who) (\<lambda>_.
     and_then (validate_amount amt) (\<lambda>_.
     and_then (parse_tranche tranche_no) (\<lambda>tr.
     and_then (get_loan s i) (\<lambda>l.
     if loan_status l \<noteq> Funding then Err InvalidLoanStatus
     else if timestamp env \<ge> funding_deadline l then Err FundingClosed
     else
       let (funded, target) = tranche_funding l tr in
       and_then (ok_or loan_error.ArithmeticOverflow (checked_add funded amt)) (\<lambda>new_funded.
       if new_funded > target then Err TrancheCapacityExceeded
       else
         let position = get_position s i who tr in
         and_then (ok_or loan_error.ArithmeticOverflow (checked_add (tp_principal position) amt)) (\<lambda>prin.
         and_then (enter s) (\<lambda>(_, s1).
         let l' = (case tr of Senior \<Rightarrow> l\<lparr>senior_funded := new_funded\<rparr> | Junior \<Rightarrow> l\<lparr>junior_funded := new_funded\<rparr>);
             s2 = set_loan l' s1;
             s3 = set_position (position\<lparr>tp_principal := prin\<rparr>) s2 in
         and_then (or_trap (tc (asset l) (subcall_env env (asset l)) who (current_contract env) amt w)) (\<lambda>w1.
         Ok ((), w1, publish (Ev_funded i who tr amt) (exit s3)))))))))))))"

definition drawdown ::
    "'w token_transfer \<Rightarrow> env \<Rightarrow> nat \<Rightarrow> 'w \<times> loan_state \<Rightarrow> (loan_error, unit \<times> 'w \<times> loan_state) outcome" where
  "drawdown tc env i ws =
     (case ws of (w, s) \<Rightarrow>
     and_then (ensure_initialized s) (\<lambda>_.
     and_then (ensure_not_paused s) (\<lambda>_.
     and_then (get_loan s i) (\<lambda>l.
     and_then (require_auth env (borrower l)) (\<lambda>_.
     if loan_status l \<noteq> Funding then Err InvalidLoanStatus
     else if senior_funded l \<noteq> senior_target l \<or> junior_funded l \<noteq> junior_target l then Err LoanNotFunded
     else if timestamp env \<ge> maturity l then Err InvalidLoanStatus
     else
       and_then (enter s) (\<lambda>(_, s1).
       let s2 = set_loan (l\<lparr>loan_status := Active\<rparr>) s1 in
       and_then (or_trap (tc (asset l) (subcall_env env (asset l)) (current_contract env) (borrower l) (principal_target l) w)) (\<lambda>w1.
       Ok ((), w1, publish (Ev_drawdown i (borrower l) (principal_target l)) (exit s2)))))))))"

definition repay ::
    "'w token_transfer \<Rightarrow> env \<Rightarrow> address \<Rightarrow> nat \<Rightarrow> int \<Rightarrow> 'w \<times> loan_state \<Rightarrow> (loan_error, int \<times> 'w \<times> loan_state) outcome" where
  "repay tc env payer i amt ws =
     (case ws of (w, s) \<Rightarrow>
     and_then (ensure_initialized s) (\<lambda>_.
     and_then (require_auth env payer) (\<lambda>_.
     and_then (validate_amount amt) (\<lambda>_.
     and_then (get_loan s i) (\<lambda>l.
     if loan_status l \<noteq> Active then Err InvalidLoanStatus
     else
       and_then (total_due l) (\<lambda>due.
       and_then (ok_or loan_error.ArithmeticOverflow (checked_sub due (repaid l))) (\<lambda>outstanding.
       let actual = min amt outstanding in
       if actual \<le> 0 then Err InvalidAmount
       else
         and_then (enter s) (\<lambda>(_, s1).
         and_then (ok_or loan_error.ArithmeticOverflow (checked_add (repaid l) actual)) (\<lambda>new_repaid.
         let l1 = l\<lparr>repaid := new_repaid\<rparr>;
             l2 = (if repaid l1 = due then l1\<lparr>loan_status := Repaid\<rparr> else l1);
             s2 = set_loan l2 s1 in
         and_then (or_trap (tc (asset l) (subcall_env env (asset l)) payer (current_contract env) actual w)) (\<lambda>w1.
         Ok (actual, w1, publish (Ev_repaid i payer actual (repaid l2)) (exit s2))))))))))))"

section \<open>Default, cancellation and settlement\<close>

definition mark_default :: "env \<Rightarrow> nat \<Rightarrow> loan_state \<Rightarrow> (loan_error, unit \<times> loan_state) outcome" where
  "mark_default env i s =
     and_then (ensure_initialized s) (\<lambda>_.
     and_then (get_loan s i) (\<lambda>l.
     if loan_status l \<noteq> Active then Err InvalidLoanStatus
     else
       and_then (ok_or loan_error.ArithmeticOverflow (u64_checked_add (maturity l) (grace_period l))) (\<lambda>default_time.
       if timestamp env < default_time then Err LoanNotMatured
       else Ok ((), publish (Ev_default i (repaid l)) (set_loan (l\<lparr>loan_status := Defaulted\<rparr>) s)))))"

definition cancel_loan :: "env \<Rightarrow> address \<Rightarrow> nat \<Rightarrow> loan_state \<Rightarrow> (loan_error, unit \<times> loan_state) outcome" where
  "cancel_loan env caller i s =
     and_then (ensure_initialized s) (\<lambda>_.
     and_then (require_auth env caller) (\<lambda>_.
     and_then (get_loan s i) (\<lambda>l.
     and_then (if caller \<noteq> borrower l
               then and_then (get_admin s) (\<lambda>admin. if caller \<noteq> admin then Err Unauthorized else Ok ())
               else Ok ()) (\<lambda>_.
     if loan_status l \<noteq> Funding then Err InvalidLoanStatus
     else Ok ((), publish (Ev_cancelled i caller) (set_loan (l\<lparr>loan_status := Cancelled\<rparr>) s))))))"

definition expire_loan :: "env \<Rightarrow> nat \<Rightarrow> loan_state \<Rightarrow> (loan_error, unit \<times> loan_state) outcome" where
  "expire_loan env i s =
     and_then (ensure_initialized s) (\<lambda>_.
     and_then (get_loan s i) (\<lambda>l.
     if loan_status l \<noteq> Funding then Err InvalidLoanStatus
     else if timestamp env < funding_deadline l then Err FundingClosed
     else Ok ((), publish (Ev_expired i (repaid l)) (set_loan (l\<lparr>loan_status := Cancelled\<rparr>) s))))"

definition claim_refund ::
    "'w token_transfer \<Rightarrow> env \<Rightarrow> address \<Rightarrow> nat \<Rightarrow> nat \<Rightarrow> 'w \<times> loan_state \<Rightarrow> (loan_error, int \<times> 'w \<times> loan_state) outcome" where
  "claim_refund tc env who i tranche_no ws =
     (case ws of (w, s) \<Rightarrow>
     and_then (ensure_initialized s) (\<lambda>_.
     and_then (require_auth env who) (\<lambda>_.
     and_then (parse_tranche tranche_no) (\<lambda>tr.
     and_then (get_loan s i) (\<lambda>l.
     if loan_status l \<noteq> Cancelled then Err InvalidLoanStatus
     else
       let position = get_position s i who tr in
       and_then (ok_or loan_error.ArithmeticOverflow (checked_sub (tp_principal position) (claimed position))) (\<lambda>refund.
       if refund \<le> 0 then Err NothingToClaim
       else
         and_then (enter s) (\<lambda>(_, s1).
         and_then (ok_or loan_error.ArithmeticOverflow (checked_add (total_claimed l) refund)) (\<lambda>claims.
         let s2 = set_position (position\<lparr>claimed := tp_principal position\<rparr>) s1;
             s3 = set_loan (l\<lparr>total_claimed := claims\<rparr>) s2 in
         and_then (or_trap (tc (asset l) (subcall_env env (asset l)) (current_contract env) who refund w)) (\<lambda>w1.
         Ok (refund, w1, publish (Ev_refund i who tr refund) (exit s3)))))))))))"

definition claim ::
    "'w token_transfer \<Rightarrow> env \<Rightarrow> address \<Rightarrow> nat \<Rightarrow> nat \<Rightarrow> 'w \<times> loan_state \<Rightarrow> (loan_error, int \<times> 'w \<times> loan_state) outcome" where
  "claim tc env who i tranche_no ws =
     (case ws of (w, s) \<Rightarrow>
     and_then (ensure_initialized s) (\<lambda>_.
     and_then (require_auth env who) (\<lambda>_.
     and_then (parse_tranche tranche_no) (\<lambda>tr.
     and_then (get_loan s i) (\<lambda>l.
     if loan_status l \<noteq> Repaid \<and> loan_status l \<noteq> Defaulted then Err InvalidLoanStatus
     else
       let position = get_position s i who tr in
       and_then (position_claim l position) (\<lambda>amt.
       if amt \<le> 0 then Err NothingToClaim
       else
         and_then (enter s) (\<lambda>(_, s1).
         and_then (ok_or loan_error.ArithmeticOverflow (checked_add (claimed position) amt)) (\<lambda>c.
         and_then (ok_or loan_error.ArithmeticOverflow (checked_add (total_claimed l) amt)) (\<lambda>claims.
         let s2 = set_position (position\<lparr>claimed := c\<rparr>) s1;
             s3 = set_loan (l\<lparr>total_claimed := claims\<rparr>) s2 in
         and_then (or_trap (tc (asset l) (subcall_env env (asset l)) (current_contract env) who amt w)) (\<lambda>w1.
         Ok (amt, w1, publish (Ev_claimed i who tr amt) (exit s3))))))))))))"

section \<open>Read-only entry points\<close>

definition pub_get_loan :: "nat \<Rightarrow> loan_state \<Rightarrow> (loan_error, Loan) outcome" where
  "pub_get_loan i s = get_loan s i"

definition pub_get_position :: "nat \<Rightarrow> address \<Rightarrow> nat \<Rightarrow> loan_state \<Rightarrow> (loan_error, TranchePosition) outcome" where
  "pub_get_position i who tranche_no s = and_then (parse_tranche tranche_no) (\<lambda>tr. Ok (get_position s i who tr))"

definition tranche_summary :: "nat \<Rightarrow> nat \<Rightarrow> loan_state \<Rightarrow> (loan_error, TrancheSummary) outcome" where
  "tranche_summary i tranche_no s =
     and_then (get_loan s i) (\<lambda>l.
     and_then (parse_tranche tranche_no) (\<lambda>tr.
     let (target, funded, bps) = (case tr of
         Senior \<Rightarrow> (senior_target l, senior_funded l, senior_yield_bps l)
       | Junior \<Rightarrow> (junior_target l, junior_funded l, junior_yield_bps l)) in
     and_then (tranche_due target bps) (\<lambda>due.
     and_then (tranche_allocation l tr) (\<lambda>allocation.
     Ok \<lparr>ts_tranche = tr, ts_target = target, ts_funded = funded, ts_yield_bps = bps, amount_due = due,
       settlement_allocation = allocation\<rparr>))))"

definition calculate_claim :: "nat \<Rightarrow> address \<Rightarrow> nat \<Rightarrow> loan_state \<Rightarrow> (loan_error, int) outcome" where
  "calculate_claim i who tranche_no s =
     and_then (get_loan s i) (\<lambda>l.
     and_then (parse_tranche tranche_no) (\<lambda>tr. position_claim l (get_position s i who tr)))"

definition pub_total_due :: "nat \<Rightarrow> loan_state \<Rightarrow> (loan_error, int) outcome" where
  "pub_total_due i s = and_then (get_loan s i) (\<lambda>l. total_due l)"
definition loan_count :: "loan_state \<Rightarrow> nat" where
  "loan_count s = get_loan_count s"
definition pub_is_paused :: "loan_state \<Rightarrow> bool" where
  "pub_is_paused s = is_paused s"

section \<open>Public histories\<close>

text \<open>Calls that move no token, and those that do; amounts are arguments of type \<open>i128\<close>.\<close>

inductive loan_book :: "env \<Rightarrow> loan_state \<Rightarrow> loan_state \<Rightarrow> bool" for env where
  initialize: "initialize env a s = Ok (u, t) \<Longrightarrow> loan_book env s t"
| pause: "pause env s = Ok (u, t) \<Longrightarrow> loan_book env s t"
| unpause: "unpause env s = Ok (u, t) \<Longrightarrow> loan_book env s t"
| create: "in_i128 p \<Longrightarrow> in_i128 q \<Longrightarrow> create_loan env a tok p q sb jb d m g s = Ok (i, t) \<Longrightarrow> loan_book env s t"
| mark_default: "mark_default env i s = Ok (u, t) \<Longrightarrow> loan_book env s t"
| cancel: "cancel_loan env a i s = Ok (u, t) \<Longrightarrow> loan_book env s t"
| expire: "expire_loan env i s = Ok (u, t) \<Longrightarrow> loan_book env s t"

inductive loan_token :: "'w token_transfer \<Rightarrow> env \<Rightarrow> 'w \<times> loan_state \<Rightarrow> 'w \<times> loan_state \<Rightarrow> bool"
  for tc env where
  fund: "in_i128 x \<Longrightarrow> fund tc env a i n x ws = Ok (u, wt) \<Longrightarrow> loan_token tc env ws wt"
| drawdown: "drawdown tc env i ws = Ok (u, wt) \<Longrightarrow> loan_token tc env ws wt"
| repay: "in_i128 x \<Longrightarrow> repay tc env a i x ws = Ok (y, wt) \<Longrightarrow> loan_token tc env ws wt"
| refund: "claim_refund tc env a i n ws = Ok (y, wt) \<Longrightarrow> loan_token tc env ws wt"
| claim: "claim tc env a i n ws = Ok (y, wt) \<Longrightarrow> loan_token tc env ws wt"

inductive loan_step ::
    "'w token_transfer \<Rightarrow> ('w \<Rightarrow> 'w \<Rightarrow> bool) \<Rightarrow> address \<Rightarrow> 'w \<times> loan_state \<Rightarrow> 'w \<times> loan_state \<Rightarrow> bool"
  for tc out self where
  book: "\<not> auth env self \<Longrightarrow> current_contract env = self \<Longrightarrow> loan_book env s t \<Longrightarrow> loan_step tc out self (w, s) (w, t)"
| tokens: "\<not> auth env self \<Longrightarrow> current_contract env = self \<Longrightarrow> loan_token tc env ws wt \<Longrightarrow> loan_step tc out self ws wt"
| other: "out w w' \<Longrightarrow> loan_step tc out self (w, s) (w', s)"

end
