(* ===== verification/Loan_Books_Correct.thy ===== *)
theory Loan_Books_Correct
  imports Token_Correct Reduced_Division Loan_Syndication
begin

text \<open>
  The books of the syndicated loans: exact arithmetic of dues and of the repayment waterfall, what a
  successful call did, and the invariant that ties the funded amounts, the claims and the repayments
  of every loan to the positions of its lenders.
\<close>

section \<open>Dues, waterfall and shares\<close>

interpretation loan_division: reduced_division gcd_loop mul_div_floor InvalidAmount loan_error.ArithmeticOverflow
  by unfold_locales (rule gcd_loop.simps, auto simp: mul_div_floor_def Let_def checked_mul_def simp del: i128_arith_Ok)

text \<open>The reference waterfall over exact integers.\<close>

definition due :: "int \<Rightarrow> nat \<Rightarrow> int" where
  "due p bps = p + p * int bps div 10000"

definition senior_due :: "Loan \<Rightarrow> int" where
  "senior_due l = due (senior_target l) (senior_yield_bps l)"

definition junior_due :: "Loan \<Rightarrow> int" where
  "junior_due l = due (junior_target l) (junior_yield_bps l)"

fun waterfall :: "Loan \<Rightarrow> Tranche \<Rightarrow> int" where
  "waterfall l Senior = min (repaid l) (senior_due l)"
| "waterfall l Junior = min (max 0 (repaid l - senior_due l)) (junior_due l)"

fun funded_of :: "Loan \<Rightarrow> Tranche \<Rightarrow> int" where
  "funded_of l Senior = senior_funded l"
| "funded_of l Junior = junior_funded l"

fun target_of :: "Loan \<Rightarrow> Tranche \<Rightarrow> int" where
  "target_of l Senior = senior_target l"
| "target_of l Junior = junior_target l"

text \<open>A lender's share of the waterfall, and what a lender may take out in all by the status of the loan.\<close>

definition share :: "Loan \<Rightarrow> TranchePosition \<Rightarrow> int" where
  "share l p = waterfall l (tp_tranche p) * tp_principal p div funded_of l (tp_tranche p)"

definition entitled :: "Loan \<Rightarrow> TranchePosition \<Rightarrow> int" where
  "entitled l p =
     (case loan_status l of Funding \<Rightarrow> 0 | Active \<Rightarrow> 0 | Cancelled \<Rightarrow> tp_principal p | Repaid \<Rightarrow> share l p | Defaulted \<Rightarrow> share l p)"

lemma loan_due_nonneg: "0 \<le> p \<Longrightarrow> p \<le> due p bps"
  by (simp add: due_def pos_imp_zdiv_nonneg_iff)

lemma bps_in_i128: "b \<le> 10000 \<Longrightarrow> in_i128 (int b)"
  by (simp add: in_i128_def i128_max_def i128_min_def)

lemma tranche_due_Ok:
  assumes "tranche_due p b = Ok x" "in_i128 p" "b \<le> 10000"
  shows "x = due p b" "0 \<le> p" "in_i128 x"
proof -
  have d: "in_i128 BPS_DENOMINATOR" by (simp add: BPS_DENOMINATOR_def in_i128_def i128_max_def i128_min_def)
  obtain q where q: "mul_div_floor p (int b) BPS_DENOMINATOR = Ok q" "x = p + q" "in_i128 x"
    using assms(1) by (auto simp: tranche_due_def)
  show "x = due p b" "0 \<le> p" "in_i128 x"
    using loan_division.floor_Ok [OF q(1) assms(2) bps_in_i128 [OF assms(3)] d] q(2,3) by (simp_all add: due_def BPS_DENOMINATOR_def)
qed

lemma tranche_fields [simp]:
  "funded_of (l\<lparr>loan_status := st\<rparr>) tr = funded_of l tr" "target_of (l\<lparr>loan_status := st\<rparr>) tr = target_of l tr"
  "funded_of (l\<lparr>repaid := x\<rparr>) tr = funded_of l tr" "target_of (l\<lparr>repaid := x\<rparr>) tr = target_of l tr"
  "funded_of (l\<lparr>total_claimed := x\<rparr>) tr = funded_of l tr" "target_of (l\<lparr>total_claimed := x\<rparr>) tr = target_of l tr"
  by (cases tr; simp)+

lemma due_fields [simp]:
  "senior_due (l\<lparr>loan_status := st\<rparr>) = senior_due l" "junior_due (l\<lparr>loan_status := st\<rparr>) = junior_due l"
  "senior_due (l\<lparr>repaid := x\<rparr>) = senior_due l" "junior_due (l\<lparr>repaid := x\<rparr>) = junior_due l"
  "senior_due (l\<lparr>total_claimed := x\<rparr>) = senior_due l" "junior_due (l\<lparr>total_claimed := x\<rparr>) = junior_due l"
  by (simp_all add: senior_due_def junior_due_def)

lemma share_fields [simp]:
  "waterfall (l\<lparr>loan_status := st\<rparr>) tr = waterfall l tr" "waterfall (l\<lparr>total_claimed := x\<rparr>) tr = waterfall l tr"
  "share (l\<lparr>loan_status := st\<rparr>) p = share l p" "share (l\<lparr>total_claimed := x\<rparr>) p = share l p"
  "entitled (l\<lparr>total_claimed := x\<rparr>) p = entitled l p"
proof -
  show w: "waterfall (l\<lparr>loan_status := st\<rparr>) r = waterfall l r" "waterfall (l\<lparr>total_claimed := x\<rparr>) r = waterfall l r" for r
    by (cases r; simp)+
  show h: "share (l\<lparr>loan_status := st\<rparr>) p = share l p" "share (l\<lparr>total_claimed := x\<rparr>) p = share l p"
    by (simp_all add: share_def w)
  show "entitled (l\<lparr>total_claimed := x\<rparr>) p = entitled l p" by (simp add: entitled_def h split: LoanStatus.split)
qed

text \<open>What the terms guarantee of a loan's record.\<close>

definition terms_ok :: "Loan \<Rightarrow> bool" where
  "terms_ok l \<longleftrightarrow> 0 < senior_target l \<and> 0 < junior_target l \<and> principal_target l = senior_target l + junior_target l \<and>
     principal_target l \<le> i128_max \<and> senior_yield_bps l \<le> 10000 \<and> junior_yield_bps l \<le> 10000 \<and>
     0 \<le> repaid l \<and> repaid l \<le> i128_max"

lemma terms_in_i128:
  assumes "terms_ok l"
  shows "in_i128 (senior_target l)" "in_i128 (junior_target l)" "in_i128 (repaid l)"
  using assms by (auto simp: terms_ok_def in_i128_def i128_min_def)

lemma terms_due:
  assumes "terms_ok l"
  shows "tranche_due (senior_target l) (senior_yield_bps l) = Ok x \<Longrightarrow> x = senior_due l \<and> in_i128 x"
    "tranche_due (junior_target l) (junior_yield_bps l) = Ok y \<Longrightarrow> y = junior_due l \<and> in_i128 y"
    "0 < senior_due l" "0 < junior_due l"
proof -
  note i = terms_in_i128 [OF assms]
  have b: "senior_yield_bps l \<le> 10000" "junior_yield_bps l \<le> 10000" "0 < senior_target l" "0 < junior_target l"
    using assms by (simp_all add: terms_ok_def)
  show "x = senior_due l \<and> in_i128 x" if "tranche_due (senior_target l) (senior_yield_bps l) = Ok x"
    using tranche_due_Ok [OF that i(1) b(1)] by (simp add: senior_due_def)
  show "y = junior_due l \<and> in_i128 y" if "tranche_due (junior_target l) (junior_yield_bps l) = Ok y"
    using tranche_due_Ok [OF that i(2) b(2)] by (simp add: junior_due_def)
  show "0 < senior_due l" "0 < junior_due l"
    using loan_due_nonneg [of "senior_target l"] loan_due_nonneg [of "junior_target l"] b(3,4)
    unfolding senior_due_def junior_due_def by (meson less_le_trans less_imp_le)+
qed

lemma total_due_Ok:
  assumes "total_due l = Ok x" "terms_ok l" shows "x = senior_due l + junior_due l \<and> in_i128 x"
  using assms(1) terms_due(1,2) [OF assms(2)] by (auto simp: total_due_def)

lemma waterfall_bounds:
  assumes "terms_ok l"
  shows "0 \<le> waterfall l tr" "waterfall l Senior + waterfall l Junior \<le> repaid l" "waterfall l tr \<le> repaid l"
proof -
  have r: "0 \<le> repaid l" using assms by (simp add: terms_ok_def)
  note d = terms_due(3,4) [OF assms]
  show "0 \<le> waterfall l tr" using r d by (cases tr) auto
  show "waterfall l Senior + waterfall l Junior \<le> repaid l" using r d by auto
  show "waterfall l tr \<le> repaid l" using r d by (cases tr) auto
qed

lemma allocation_Ok:
  assumes "tranche_allocation l tr = Ok x" "terms_ok l" shows "x = waterfall l tr"
proof -
  obtain sd where sd: "tranche_due (senior_target l) (senior_yield_bps l) = Ok sd"
    using assms(1) by (auto simp: tranche_allocation_def)
  have s: "sd = senior_due l" using terms_due(1) [OF assms(2) sd] by simp
  show ?thesis
  proof (cases tr)
    case Senior
    then show ?thesis using assms(1) sd s by (simp add: tranche_allocation_def)
  next
    case Junior
    then obtain r jd where h: "tranche_due (junior_target l) (junior_yield_bps l) = Ok jd" "x = min r jd"
      "r = (if repaid l > sd then repaid l - sd else 0)"
      using assms(1) sd by (auto simp: tranche_allocation_def split: if_split_asm)
    then show ?thesis using terms_due(2) [OF assms(2) h(1)] s Junior by auto
  qed
qed

lemma position_claim_Ok:
  assumes "position_claim l p = Ok x" "terms_ok l" "in_i128 (tp_principal p)" "in_i128 (funded_of l (tp_tranche p))" "x \<noteq> 0"
  shows "x = share l p - claimed p" "0 < tp_principal p" "0 < funded_of l (tp_tranche p)"
proof -
  have f: "(case tp_tranche p of Senior \<Rightarrow> senior_funded l | Junior \<Rightarrow> junior_funded l) = funded_of l (tp_tranche p)"
    by (cases "tp_tranche p") simp_all
  show p: "0 < tp_principal p" "0 < funded_of l (tp_tranche p)"
    using assms(1,5) by (auto simp: position_claim_def f Let_def split: if_splits)
  obtain a e where h: "tranche_allocation l (tp_tranche p) = Ok a"
    "mul_div_floor a (tp_principal p) (funded_of l (tp_tranche p)) = Ok e" "x = e - claimed p"
    using assms(1) p by (auto simp: position_claim_def f Let_def split: if_splits)
  have a: "a = waterfall l (tp_tranche p)" by (rule allocation_Ok [OF h(1) assms(2)])
  have "in_i128 a"
    using waterfall_bounds(1,3) [OF assms(2), of "tp_tranche p"] terms_in_i128(3) [OF assms(2)] in_i128_le a by blast
  then show "x = share l p - claimed p"
    using loan_division.floor_Ok(4) [OF h(2) _ assms(3,4)] h(3) a by (simp add: share_def)
qed

section \<open>Success of each operation\<close>

lemma loan_getters_Ok [simp]:
  "ensure_initialized s = Ok v \<longleftrightarrow> Initialized s \<noteq> None"
  "ensure_not_paused s = Ok v \<longleftrightarrow> \<not> is_paused s"
  "validate_amount x = Ok v \<longleftrightarrow> 0 < x"
  "get_loan s i = Ok l \<longleftrightarrow> Loans s i = Some l"
  "enter s = Ok (u, t) \<longleftrightarrow> Locked s \<noteq> Some True \<and> t = s\<lparr>Locked := Some True\<rparr>"
  by (auto simp: ensure_initialized_def is_initialized_def ensure_not_paused_def validate_amount_def get_loan_def
      enter_def unwrap_or_def split: option.splits)

lemma create_loan_Ok:
  assumes "create_loan env a tok p q sb jb d m g s = Ok (i, t)"
  shows "i = Suc (get_loan_count s) \<and> i \<le> u32_max \<and> auth env a \<and> 0 < q \<and> q < p \<and> sb \<le> 10000 \<and> jb \<le> 10000 \<and> sb \<le> jb \<and>
    timestamp env < d \<and> d < m \<and>
    t = publish (Ev_created i a p q) (s\<lparr>LoanCount := Some i, Loans := (Loans s)(i \<mapsto>
      \<lparr>loan_id = i, borrower = a, asset = tok, loan_status = Funding, principal_target = p,
       senior_target = q, junior_target = p - q, senior_funded = 0, junior_funded = 0,
       senior_yield_bps = sb, junior_yield_bps = jb, funding_deadline = d, maturity = m,
       grace_period = g, repaid = 0, total_claimed = 0, loan_created_at = timestamp env\<rparr>)\<rparr>)"
  using assms
  by (auto simp: create_loan_def validate_terms_def next_loan_id_def set_loan_def get_loan_count_def MAX_YIELD_BPS_def
      Let_def not_le not_less split: if_splits)

lemma loan_fund_Ok:
  assumes "fund tc env a i n x (w, s) = Ok (u, w', t)"
  shows "\<exists>l tr p'. auth env a \<and> 0 < x \<and> parse_tranche n = Ok tr \<and> Loans s i = Some l \<and> loan_status l = Funding \<and>
    timestamp env < funding_deadline l \<and> funded_of l tr + x \<le> target_of l tr \<and> Locked s \<noteq> Some True \<and>
    p' = (get_position s i a tr)\<lparr>tp_principal := tp_principal (get_position s i a tr) + x\<rparr> \<and>
    tc (asset l) (subcall_env env (asset l)) a (current_contract env) x w = Some w' \<and>
    t = publish (Ev_funded i a tr x) (s\<lparr>Locked := Some False,
      Loans := (Loans s)(loan_id l \<mapsto> (case tr of Senior \<Rightarrow> l\<lparr>senior_funded := senior_funded l + x\<rparr>
        | Junior \<Rightarrow> l\<lparr>junior_funded := junior_funded l + x\<rparr>)),
      Positions := (Positions s)((tp_loan_id p', lender p', tp_tranche p') \<mapsto> p')\<rparr>)"
proof -
  obtain l tr where h: "auth env a" "0 < x" "parse_tranche n = Ok tr" "Loans s i = Some l"
    "loan_status l = Funding" "timestamp env < funding_deadline l" "Initialized s \<noteq> None" "\<not> is_paused s"
    using assms by (auto simp: fund_def not_le split: if_splits)
  show ?thesis
    by (rule exI [of _ l], rule exI [of _ tr])
      (use assms h in \<open>cases tr; auto simp: fund_def tranche_funding_def loan_setters Let_def split: if_splits\<close>)
qed

lemma drawdown_Ok:
  assumes "drawdown tc env i (w, s) = Ok (u, w', t)"
  shows "\<exists>l. auth env (borrower l) \<and> Loans s i = Some l \<and> loan_status l = Funding \<and> senior_funded l = senior_target l \<and>
    junior_funded l = junior_target l \<and> timestamp env < maturity l \<and> Locked s \<noteq> Some True \<and>
    tc (asset l) (subcall_env env (asset l)) (current_contract env) (borrower l) (principal_target l) w = Some w' \<and>
    t = publish (Ev_drawdown i (borrower l) (principal_target l)) (s\<lparr>Locked := Some False,
      Loans := (Loans s)(loan_id l \<mapsto> l\<lparr>loan_status := Active\<rparr>)\<rparr>)"
  using assms by (auto simp: drawdown_def loan_setters Let_def not_le split: if_splits)

lemma repay_Ok:
  assumes "repay tc env a i x (w, s) = Ok (y, w', t)"
  shows "\<exists>l d. auth env a \<and> Loans s i = Some l \<and> loan_status l = Active \<and> total_due l = Ok d \<and> y = min x (d - repaid l) \<and> 0 < y \<and>
    in_i128 (repaid l + y) \<and> Locked s \<noteq> Some True \<and>
    tc (asset l) (subcall_env env (asset l)) a (current_contract env) y w = Some w' \<and>
    t = publish (Ev_repaid i a y (repaid l + y)) (s\<lparr>Locked := Some False,
      Loans := (Loans s)(loan_id l \<mapsto> (if repaid l + y = d then l\<lparr>repaid := repaid l + y, loan_status := Repaid\<rparr>
        else l\<lparr>repaid := repaid l + y\<rparr>))\<rparr>)"
proof -
  obtain l d where h: "auth env a" "Loans s i = Some l" "loan_status l = Active" "total_due l = Ok d"
    using assms by (auto simp: repay_def split: if_splits)
  show ?thesis
    by (rule exI [of _ l], rule exI [of _ d])
      (use assms h in \<open>cases "repaid l + min x (d - repaid l) = d"; auto simp: repay_def loan_setters Let_def split: if_split_asm\<close>)
qed

lemma mark_default_Ok:
  assumes "mark_default env i s = Ok (u, t)"
  shows "\<exists>l. Loans s i = Some l \<and> loan_status l = Active \<and> maturity l + grace_period l \<le> timestamp env \<and>
    t = publish (Ev_default i (repaid l)) (s\<lparr>Loans := (Loans s)(loan_id l \<mapsto> l\<lparr>loan_status := Defaulted\<rparr>)\<rparr>)"
  using assms by (auto simp: mark_default_def loan_setters split: if_splits)

lemma cancel_loan_Ok:
  assumes "cancel_loan env a i s = Ok (u, t)"
  shows "\<exists>l. Loans s i = Some l \<and> loan_status l = Funding \<and> auth env a \<and> (a = borrower l \<or> Admin s = Some a) \<and>
    t = publish (Ev_cancelled i a) (s\<lparr>Loans := (Loans s)(loan_id l \<mapsto> l\<lparr>loan_status := Cancelled\<rparr>)\<rparr>)"
  using assms by (auto simp: cancel_loan_def get_admin_def loan_setters split: if_splits)

lemma expire_loan_Ok:
  assumes "expire_loan env i s = Ok (u, t)"
  shows "\<exists>l. Loans s i = Some l \<and> loan_status l = Funding \<and> funding_deadline l \<le> timestamp env \<and>
    t = publish (Ev_expired i (repaid l)) (s\<lparr>Loans := (Loans s)(loan_id l \<mapsto> l\<lparr>loan_status := Cancelled\<rparr>)\<rparr>)"
  using assms by (auto simp: expire_loan_def loan_setters split: if_splits)

lemma claim_refund_Ok:
  assumes "claim_refund tc env a i n (w, s) = Ok (y, w', t)"
  shows "\<exists>l tr p. auth env a \<and> parse_tranche n = Ok tr \<and> Loans s i = Some l \<and> loan_status l = Cancelled \<and>
    p = get_position s i a tr \<and> y = tp_principal p - claimed p \<and> 0 < y \<and> Locked s \<noteq> Some True \<and>
    tc (asset l) (subcall_env env (asset l)) (current_contract env) a y w = Some w' \<and>
    t = publish (Ev_refund i a tr y) (s\<lparr>Locked := Some False,
      Loans := (Loans s)(loan_id l \<mapsto> l\<lparr>total_claimed := total_claimed l + y\<rparr>),
      Positions := (Positions s)((tp_loan_id p, lender p, tp_tranche p) \<mapsto> p\<lparr>claimed := tp_principal p\<rparr>)\<rparr>)"
proof -
  obtain l tr where h: "auth env a" "parse_tranche n = Ok tr" "Loans s i = Some l" "loan_status l = Cancelled"
    using assms by (auto simp: claim_refund_def split: if_splits)
  show ?thesis
    by (rule exI [of _ l], rule exI [of _ tr])
      (use assms h in \<open>auto simp: claim_refund_def loan_setters Let_def split: if_splits\<close>)
qed

lemma claim_Ok:
  assumes "claim tc env a i n (w, s) = Ok (y, w', t)"
  shows "\<exists>l tr p. auth env a \<and> parse_tranche n = Ok tr \<and> Loans s i = Some l \<and>
    (loan_status l = Repaid \<or> loan_status l = Defaulted) \<and>
    p = get_position s i a tr \<and> position_claim l p = Ok y \<and> 0 < y \<and> Locked s \<noteq> Some True \<and>
    tc (asset l) (subcall_env env (asset l)) (current_contract env) a y w = Some w' \<and>
    t = publish (Ev_claimed i a tr y) (s\<lparr>Locked := Some False,
      Loans := (Loans s)(loan_id l \<mapsto> l\<lparr>total_claimed := total_claimed l + y\<rparr>),
      Positions := (Positions s)((tp_loan_id p, lender p, tp_tranche p) \<mapsto> p\<lparr>claimed := claimed p + y\<rparr>)\<rparr>)"
proof -
  obtain l tr where h: "auth env a" "parse_tranche n = Ok tr" "Loans s i = Some l"
      "loan_status l = Repaid \<or> loan_status l = Defaulted"
    using assms by (auto simp: claim_def split: if_splits)
  show ?thesis
    by (rule exI [of _ l], rule exI [of _ tr])
      (use assms h in \<open>auto simp: claim_def loan_setters Let_def split: if_splits\<close>)
qed

section \<open>The books\<close>

definition weight :: "nat \<Rightarrow> Tranche \<Rightarrow> TranchePosition \<Rightarrow> int" where
  "weight i tr p = (if tp_loan_id p = i \<and> tp_tranche p = tr then tp_principal p else 0)"

definition taken :: "nat \<Rightarrow> TranchePosition \<Rightarrow> int" where
  "taken i p = (if tp_loan_id p = i then claimed p else 0)"

definition position_ok :: "loan_state \<Rightarrow> nat \<times> address \<times> Tranche \<Rightarrow> TranchePosition \<Rightarrow> bool" where
  "position_ok s k p \<longleftrightarrow> k = (tp_loan_id p, lender p, tp_tranche p) \<and> 0 \<le> tp_principal p \<and> 0 \<le> claimed p \<and>
     (\<exists>l. Loans s (tp_loan_id p) = Some l \<and> claimed p \<le> entitled l p)"

definition loan_ok :: "loan_state \<Rightarrow> nat \<Rightarrow> Loan \<Rightarrow> bool" where
  "loan_ok s i l \<longleftrightarrow> loan_id l = i \<and> 1 \<le> i \<and> i \<le> get_loan_count s \<and> terms_ok l \<and>
     (\<forall>tr. funded_of l tr = total_of (weight i tr) (Positions s)) \<and>
     (\<forall>tr. total_of (weight i tr) (Positions s) \<le> target_of l tr) \<and>
     total_claimed l = total_of (taken i) (Positions s) \<and>
     (if loan_status l = Funding \<or> loan_status l = Cancelled then repaid l = 0
      else senior_funded l = senior_target l \<and> junior_funded l = junior_target l) \<and>
     (loan_status l = Repaid \<longrightarrow> repaid l = senior_due l + junior_due l)"

text \<open>What the contract still holds for a loan.\<close>

definition held :: "Loan \<Rightarrow> int" where
  "held l = (if loan_status l = Funding \<or> loan_status l = Cancelled then senior_funded l + junior_funded l else repaid l) -
     total_claimed l"

definition held_in :: "address \<Rightarrow> Loan \<Rightarrow> int" where
  "held_in k l = (if asset l = k then held l else 0)"

definition holdings :: "address \<Rightarrow> loan_state \<Rightarrow> int" where
  "holdings k s = total_of (held_in k) (Loans s)"

definition loan_inv :: "loan_state \<Rightarrow> bool" where
  "loan_inv s \<longleftrightarrow> finite (dom (Loans s)) \<and> finite (dom (Positions s)) \<and> Locked s \<noteq> Some True \<and>
     (\<forall>i l. Loans s i = Some l \<longrightarrow> loan_ok s i l) \<and> (\<forall>k p. Positions s k = Some p \<longrightarrow> position_ok s k p) \<and>
     (Initialized s = None \<longrightarrow> Loans s = Map.empty)"

lemma loan_invD:
  assumes "loan_inv s"
  shows "finite (dom (Loans s))" "finite (dom (Positions s))" "Locked s \<noteq> Some True"
    "Loans s i = Some l \<Longrightarrow> loan_ok s i l" "Positions s k = Some p \<Longrightarrow> position_ok s k p"
    "Initialized s = None \<Longrightarrow> Loans s = Map.empty"
  using assms unfolding loan_inv_def by blast+

lemma loan_inv_empty: "loan_inv empty_loans"
  by (simp add: loan_inv_def empty_loans_def)

lemma loan_okD:
  assumes "loan_ok s i l"
  shows "loan_id l = i" "1 \<le> i" "i \<le> get_loan_count s" "terms_ok l" "funded_of l tr = total_of (weight i tr) (Positions s)"
    "funded_of l tr \<le> target_of l tr" "total_claimed l = total_of (taken i) (Positions s)"
    "loan_status l = Funding \<or> loan_status l = Cancelled \<Longrightarrow> repaid l = 0"
    "\<not> (loan_status l = Funding \<or> loan_status l = Cancelled) \<Longrightarrow> funded_of l tr = target_of l tr"
    "loan_status l = Repaid \<Longrightarrow> repaid l = senior_due l + junior_due l"
proof -
  show "loan_id l = i" "1 \<le> i" "i \<le> get_loan_count s" "terms_ok l" "funded_of l tr = total_of (weight i tr) (Positions s)"
    "total_claimed l = total_of (taken i) (Positions s)"
    "loan_status l = Repaid \<Longrightarrow> repaid l = senior_due l + junior_due l"
    using assms unfolding loan_ok_def by blast+
  show "funded_of l tr \<le> target_of l tr" using assms unfolding loan_ok_def by simp
  have c: "if loan_status l = Funding \<or> loan_status l = Cancelled then repaid l = 0
      else senior_funded l = senior_target l \<and> junior_funded l = junior_target l"
    using assms unfolding loan_ok_def by blast
  show "repaid l = 0" if "loan_status l = Funding \<or> loan_status l = Cancelled" using c that by simp
  show "funded_of l tr = target_of l tr" if "\<not> (loan_status l = Funding \<or> loan_status l = Cancelled)"
    using c that by (cases tr) simp_all
qed

lemma target_pos: "terms_ok l \<Longrightarrow> 0 < target_of l tr \<and> target_of l tr \<le> i128_max"
  by (cases tr) (auto simp: terms_ok_def)

lemma funded_nonneg:
  assumes "loan_inv s" "Loans s i = Some l"
  shows "0 \<le> funded_of l tr" "in_i128 (funded_of l tr)"
proof -
  have ok: "loan_ok s i l" by (rule loan_invD(4) [OF assms])
  have "0 \<le> total_of (weight i tr) (Positions s)"
    using loan_invD(5) [OF assms(1)] by (intro total_of_nonneg) (auto simp: weight_def position_ok_def)
  then show f: "0 \<le> funded_of l tr" using loan_okD(5) [OF ok] by simp
  show "in_i128 (funded_of l tr)"
    using f loan_okD(6) [OF ok, of tr] target_pos [OF loan_okD(4) [OF ok], of tr] by (auto simp: in_i128_def i128_min_def)
qed

lemma principal_le_funded:
  assumes "loan_inv s" "Positions s k = Some p" "Loans s (tp_loan_id p) = Some l"
  shows "tp_principal p \<le> funded_of l (tp_tranche p)"
proof -
  have "weight (tp_loan_id p) (tp_tranche p) p \<le> total_of (weight (tp_loan_id p) (tp_tranche p)) (Positions s)"
    by (rule total_of_ge [OF loan_invD(2) [OF assms(1)] assms(2)])
      (use loan_invD(5) [OF assms(1)] in \<open>auto simp: weight_def position_ok_def\<close>)
  then show ?thesis using loan_okD(5) [OF loan_invD(4) [OF assms(1,3)]] by (simp add: weight_def)
qed

lemma share_nonneg:
  assumes "terms_ok l" "0 \<le> tp_principal p" "0 \<le> funded_of l (tp_tranche p)"
  shows "0 \<le> share l p"
proof (cases "funded_of l (tp_tranche p) = 0")
  case False
  then show ?thesis
    using assms waterfall_bounds(1) [OF assms(1)] by (simp add: share_def pos_imp_zdiv_nonneg_iff)
qed (simp add: share_def)

text \<open>Everything all lenders of a loan may take out, over all time, is what the contract received for it.\<close>

lemma entitled_total:
  assumes "loan_inv s" "Loans s i = Some l"
  shows "total_of (\<lambda>p. if tp_loan_id p = i then entitled l p else 0) (Positions s) \<le>
    (if loan_status l = Funding \<or> loan_status l = Cancelled then senior_funded l + junior_funded l else repaid l)"
proof -
  have ok: "loan_ok s i l" by (rule loan_invD(4) [OF assms])
  note T = loan_okD(4) [OF ok]
  let ?P = "Positions s"
  have w: "tp_principal p = (if tp_tranche p = Senior then weight i Senior p else weight i Junior p)" if "tp_loan_id p = i" for p
    using that by (cases "tp_tranche p") (simp_all add: weight_def)
  show ?thesis
  proof (cases "loan_status l = Funding \<or> loan_status l = Active")
    case True
    then have "total_of (\<lambda>p. if tp_loan_id p = i then entitled l p else 0) ?P = 0"
      by (intro total_of_zero) (auto simp: entitled_def)
    then show ?thesis
      using funded_nonneg(1) [OF assms, of Senior] funded_nonneg(1) [OF assms, of Junior] T True
      by (auto simp: terms_ok_def)
  next
    case live: False
    show ?thesis
    proof (cases "loan_status l = Cancelled")
      case True
      have "total_of (\<lambda>p. if tp_loan_id p = i then entitled l p else 0) ?P =
          total_of (\<lambda>p. weight i Senior p + weight i Junior p) ?P"
      proof (rule total_of_cong)
        show "(if tp_loan_id p = i then entitled l p else 0) = weight i Senior p + weight i Junior p" for p
          using True by (cases "tp_tranche p") (simp_all add: entitled_def weight_def)
      qed
      also have "\<dots> = senior_funded l + junior_funded l"
        using loan_okD(5) [OF ok, of Senior] loan_okD(5) [OF ok, of Junior] by (simp add: total_of_add)
      finally show ?thesis using True by simp
    next
      case False
      then have st: "loan_status l = Repaid \<or> loan_status l = Defaulted" using live by (cases "loan_status l") auto
      let ?f = "\<lambda>tr p. waterfall l tr * weight i tr p div funded_of l tr"
      have "total_of (\<lambda>p. if tp_loan_id p = i then entitled l p else 0) ?P = total_of (\<lambda>p. ?f Senior p + ?f Junior p) ?P"
      proof (rule total_of_cong)
        show "(if tp_loan_id p = i then entitled l p else 0) = ?f Senior p + ?f Junior p" for p
          using st by (cases "tp_tranche p") (auto simp: entitled_def share_def weight_def)
      qed
      also have "\<dots> \<le> waterfall l Senior + waterfall l Junior"
      proof -
        have "0 < funded_of l tr" for tr
          using loan_okD(9) [OF ok, of tr] target_pos [OF T, of tr] st by auto
        from this have "total_of (?f tr) ?P \<le> waterfall l tr" for tr
          by (rule total_of_floor_le [OF loan_okD(5) [OF ok, symmetric]])
        then show ?thesis unfolding total_of_add by (intro add_mono)
      qed
      also have "\<dots> \<le> repaid l" by (rule waterfall_bounds(2) [OF T])
      finally show ?thesis using st by auto
    qed
  qed
qed

text \<open>So what is held covers what the lenders can still claim, all together and each alone.\<close>

definition claimable :: "nat \<Rightarrow> loan_state \<Rightarrow> Loan \<Rightarrow> int" where
  "claimable i s l = total_of (\<lambda>p. if tp_loan_id p = i then entitled l p - claimed p else 0) (Positions s)"

lemma claimable_bounds:
  assumes "loan_inv s" "Loans s i = Some l"
  shows "0 \<le> claimable i s l" "claimable i s l \<le> held l"
    "Positions s k = Some p \<Longrightarrow> tp_loan_id p = i \<Longrightarrow> entitled l p - claimed p \<le> held l"
proof -
  have nn: "0 \<le> (if tp_loan_id p = i then entitled l p - claimed p else 0)" if "Positions s k = Some p" for k p
    using loan_invD(5) [OF assms(1) that] assms(2) by (auto simp: position_ok_def)
  then show "0 \<le> claimable i s l" unfolding claimable_def by (intro total_of_nonneg)
  have "claimable i s l + total_of (taken i) (Positions s) =
      total_of (\<lambda>p. if tp_loan_id p = i then entitled l p else 0) (Positions s)"
    unfolding claimable_def total_of_add [symmetric] by (rule total_of_cong) (simp add: taken_def)
  then show le: "claimable i s l \<le> held l"
    using entitled_total [OF assms] loan_okD(7) [OF loan_invD(4) [OF assms]] by (auto simp: held_def)
  show "entitled l p - claimed p \<le> held l" if "Positions s k = Some p" "tp_loan_id p = i"
    using total_of_ge [OF loan_invD(2) [OF assms(1)] that(1), of "\<lambda>p. if tp_loan_id p = i then entitled l p - claimed p else 0"]
      nn that(2) le by (simp add: claimable_def)
qed

lemma held_nonneg: "loan_inv s \<Longrightarrow> Loans s i = Some l \<Longrightarrow> 0 \<le> held l"
  using claimable_bounds(1,2) by (meson order_trans)

lemma held_le_holdings:
  assumes "loan_inv s" "Loans s i = Some l" shows "held l \<le> holdings (asset l) s"
proof -
  have "held_in (asset l) l \<le> holdings (asset l) s"
    unfolding holdings_def
    by (rule total_of_ge [OF loan_invD(1) [OF assms(1)] assms(2)])
      (use held_nonneg [OF assms(1)] in \<open>auto simp: held_in_def\<close>)
  then show ?thesis by (simp add: held_in_def)
qed

lemma holdings_upd:
  assumes "loan_inv s" "Loans t = (Loans s)(i \<mapsto> l')"
  shows "holdings k t = holdings k s - value_at (held_in k) (Loans s i) + held_in k l'"
  unfolding holdings_def assms(2) using total_of_upd [OF loan_invD(1) [OF assms(1)], of "held_in k" i "Some l'"] by simp

section \<open>Every operation keeps the books\<close>

lemma total_positions_upd:
  assumes "loan_inv s" "Positions t = (Positions s)(k := v)"
  shows "total_of f (Positions t) = total_of f (Positions s) - value_at f (Positions s k) + value_at f v"
  unfolding assms(2) by (rule total_of_upd [OF loan_invD(2) [OF assms(1)]])

lemma value_position:
  assumes "loan_inv s" "f \<lparr>tp_loan_id = i, lender = a, tp_tranche = tr, tp_principal = 0, claimed = 0\<rparr> = 0"
  shows "value_at f (Positions s (i, a, tr)) = f (get_position s i a tr)"
  using assms(2) by (cases "Positions s (i, a, tr)") (simp_all add: get_position_def)

lemma position_fields:
  assumes "loan_inv s"
  shows "tp_loan_id (get_position s i a tr) = i" "lender (get_position s i a tr) = a" "tp_tranche (get_position s i a tr) = tr"
    "0 \<le> tp_principal (get_position s i a tr)" "0 \<le> claimed (get_position s i a tr)"
    "Loans s i = Some l \<Longrightarrow> 0 \<le> entitled l (get_position s i a tr) \<Longrightarrow> claimed (get_position s i a tr) \<le> entitled l (get_position s i a tr)"
  using loan_invD(5) [OF assms, of "(i, a, tr)"]
  by (cases "Positions s (i, a, tr)"; auto simp: get_position_def position_ok_def)+

text \<open>
  A step changes one loan and at most one position of it; this is what has to be checked.
\<close>

lemma loan_inv_update:
  assumes inv: "loan_inv s"
    and L: "Loans t = (Loans s)(i \<mapsto> l')" and P: "Positions t = (Positions s)((i, a, tr) := v)"
    and old: "Loans s i = None \<Longrightarrow> i = Suc (get_loan_count s)"
    and cnt: "get_loan_count s \<le> get_loan_count t" and lock: "Locked t \<noteq> Some True"
    and ini: "Initialized t \<noteq> None"
    and ok: "loan_ok t i l'"
    and pos: "\<And>p. v = Some p \<Longrightarrow> position_ok t (i, a, tr) p"
    and oth: "\<And>k p l. Positions s k = Some p \<Longrightarrow> tp_loan_id p = i \<Longrightarrow> k \<noteq> (i, a, tr) \<Longrightarrow> Loans s i = Some l \<Longrightarrow>
      0 \<le> tp_principal p \<Longrightarrow> claimed p \<le> entitled l p \<Longrightarrow> claimed p \<le> entitled l' p"
  shows "loan_inv t"
proof -
  have z: "value_at f (Positions s (i, a, tr)) = 0" "value_at f v = 0"
    if "\<And>p. tp_loan_id p = i \<Longrightarrow> f p = 0" for f
  proof -
    show "value_at f (Positions s (i, a, tr)) = 0"
      using loan_invD(5) [OF inv, of "(i, a, tr)"] that
      by (cases "Positions s (i, a, tr)") (auto simp: position_ok_def)
    show "value_at f v = 0" using pos that by (cases v) (auto simp: position_ok_def)
  qed
  have T: "total_of f (Positions t) = total_of f (Positions s)" if "\<And>p. tp_loan_id p = i \<Longrightarrow> f p = 0" for f
    using total_positions_upd [OF inv P, of f] z [OF that] by simp
  have l: "loan_ok t j m" if "Loans t j = Some m" for j m
  proof (cases "j = i")
    case True
    then show ?thesis using ok that L by simp
  next
    case False
    then have "loan_ok s j m" using loan_invD(4) [OF inv] that L by simp
    moreover have "total_of (weight j r) (Positions t) = total_of (weight j r) (Positions s)"
      "total_of (taken j) (Positions t) = total_of (taken j) (Positions s)" for r
      using False by (auto intro!: T simp: weight_def taken_def)
    ultimately show ?thesis using cnt by (auto simp: loan_ok_def)
  qed
  have p: "position_ok t k p" if "Positions t k = Some p" for k p
  proof (cases "k = (i, a, tr)")
    case True
    then show ?thesis using pos that P by simp
  next
    case False
    then have q: "Positions s k = Some p" using that P by simp
    then have o: "position_ok s k p" by (rule loan_invD(5) [OF inv])
    show ?thesis
    proof (cases "tp_loan_id p = i")
      case True
      then show ?thesis using o oth [OF q True False] L by (auto simp: position_ok_def)
    next
      case False
      then show ?thesis using o L by (auto simp: position_ok_def)
    qed
  qed
  have "finite (dom (Loans t))" "finite (dom (Positions t))" using loan_invD(1,2) [OF inv] by (simp_all add: L P)
  then show ?thesis using l p lock ini unfolding loan_inv_def by blast
qed

text \<open>A change of the loan's record alone.\<close>

lemma loan_record_keeps:
  assumes inv: "loan_inv s" and l: "Loans s i = Some l" and L: "Loans t = (Loans s)(i \<mapsto> l')" and P: "Positions t = Positions s"
    and cnt: "get_loan_count t = get_loan_count s" and lock: "Locked t \<noteq> Some True" and ini: "Initialized t = Initialized s"
    and ok: "loan_ok s i l'"
    and ent: "\<And>p. 0 \<le> tp_principal p \<Longrightarrow> claimed p \<le> entitled l p \<Longrightarrow> claimed p \<le> entitled l' p"
  shows "loan_inv t"
proof (rule loan_inv_update [OF inv L, where a = undefined and tr = Senior and v = "Positions s (i, undefined, Senior)"])
  show "Initialized t \<noteq> None" using loan_invD(6) [OF inv] l ini by (cases "Initialized s") auto
  show "loan_ok t i l'" using ok by (simp add: loan_ok_def P cnt)
  show "position_ok t (i, undefined, Senior) p" if "Positions s (i, undefined, Senior) = Some p" for p
    using loan_invD(5) [OF inv that] ent l by (auto simp: position_ok_def L)
qed (use P cnt lock ent l in auto)

lemma loan_inv_frame:
  assumes "loan_inv s" "Loans t = Loans s" "Positions t = Positions s" "get_loan_count s \<le> get_loan_count t" "Locked t \<noteq> Some True"
    "Initialized t = None \<Longrightarrow> Initialized s = None"
  shows "loan_inv t"
  using assms unfolding loan_inv_def loan_ok_def position_ok_def by (auto; fastforce)

lemma loan_inv_publish [simp]: "loan_inv (publish e s) = loan_inv s" "holdings k (publish e s) = holdings k s"
proof -
  have c: "get_loan_count (publish e s) = get_loan_count s" by (simp add: get_loan_count_def publish_def)
  show "loan_inv (publish e s) = loan_inv s"
    unfolding loan_inv_def loan_ok_def position_ok_def c by (simp add: publish_def)
  show "holdings k (publish e s) = holdings k s" by (simp add: holdings_def publish_def)
qed

lemma loan_at:
  assumes "loan_inv s" "Loans s i = Some l"
  shows "loan_id l = i" "loan_ok s i l" "terms_ok l" "0 \<le> funded_of l tr"
  using loan_invD(4) [OF assms] loan_okD(1,4) funded_nonneg [OF assms] by blast+

lemma record_holdings:
  assumes "loan_inv s" "Loans s i = Some l" "Loans t = (Loans s)(i \<mapsto> l')" "asset l' = asset l"
  shows "holdings k t = holdings k s + (if asset l = k then held l' - held l else 0)"
  using holdings_upd [OF assms(1,3), of k] assms(2,4) by (simp add: held_in_def)

lemma create_keeps:
  assumes "create_loan env a tok p q sb jb d m g s = Ok (i, t)" "loan_inv s" "in_i128 p" "in_i128 q"
  shows "loan_inv t \<and> holdings k t = holdings k s"
proof -
  define l where "l = \<lparr>loan_id = i, borrower = a, asset = tok, loan_status = Funding, principal_target = p,
       senior_target = q, junior_target = p - q, senior_funded = 0, junior_funded = 0,
       senior_yield_bps = sb, junior_yield_bps = jb, funding_deadline = d, maturity = m,
       grace_period = g, repaid = 0, total_claimed = 0, loan_created_at = timestamp env\<rparr>"
  have h: "i = Suc (get_loan_count s)" "0 < q" "q < p" "sb \<le> 10000" "jb \<le> 10000" "Initialized s \<noteq> None"
    and t: "t = publish (Ev_created i a p q) (s\<lparr>LoanCount := Some i, Loans := (Loans s)(i \<mapsto> l)\<rparr>)"
    using create_loan_Ok [OF assms(1)] assms(1) by (auto simp: l_def create_loan_def)
  let ?u = "s\<lparr>LoanCount := Some i, Loans := (Loans s)(i \<mapsto> l)\<rparr>"
  have none: "Loans s i = None"
    using loan_okD(3) [OF loan_invD(4) [OF assms(2)], of i] h(1) by (cases "Loans s i") auto
  have no: "tp_loan_id x \<noteq> i" if "Positions s j = Some x" for j x
    using loan_invD(5) [OF assms(2) that] none by (auto simp: position_ok_def)
  have cnt: "get_loan_count ?u = i" by (simp add: get_loan_count_def)
  have zero: "total_of (weight i tr) (Positions s) = 0" "total_of (taken i) (Positions s) = 0" for tr
    using no by (auto intro!: total_of_zero simp: weight_def taken_def)
  have "terms_ok l" using h(2-5) assms(3) by (simp add: terms_ok_def l_def in_i128_def i128_max_def)
  moreover have "funded_of l tr = 0" "0 \<le> target_of l tr" for tr using h(2,3) by (cases tr; simp add: l_def)+
  moreover have "loan_id l = i" "total_claimed l = 0" "loan_status l = Funding" "repaid l = 0" by (simp_all add: l_def)
  ultimately have ok: "loan_ok ?u i l" using zero h(1) unfolding loan_ok_def cnt by simp
  have "loan_inv ?u"
  proof (rule loan_inv_update [OF assms(2), where a = a and tr = Senior and v = "Positions s (i, a, Senior)"])
    show "position_ok ?u (i, a, Senior) x" if "Positions s (i, a, Senior) = Some x" for x
      using loan_invD(5) [OF assms(2) that] no [OF that] by (simp add: position_ok_def)
    show "loan_ok ?u i l" by (rule ok)
    show "Locked ?u \<noteq> Some True" using loan_invD(3) [OF assms(2)] by simp
  qed (use h none no cnt in \<open>auto simp: get_loan_count_def\<close>)
  moreover have "holdings k ?u = holdings k s"
    using holdings_upd [OF assms(2), of ?u i l k] none by (simp add: held_in_def held_def l_def)
  ultimately show ?thesis by (simp add: t)
qed

lemma status_keeps:
  assumes "loan_inv s" "Loans s i = Some l" "loan_status l = Funding \<and> st = Cancelled \<or> loan_status l = Active \<and> st = Defaulted"
  defines "u \<equiv> s\<lparr>Loans := (Loans s)(loan_id l \<mapsto> l\<lparr>loan_status := st\<rparr>)\<rparr>"
  shows "loan_inv u \<and> holdings k u = holdings k s"
proof -
  note at = loan_at [OF assms(1,2)]
  have L: "Loans u = (Loans s)(i \<mapsto> l\<lparr>loan_status := st\<rparr>)" by (simp add: u_def at(1))
  have ok: "loan_ok s i (l\<lparr>loan_status := st\<rparr>)" using at(2) assms(3) by (auto simp: loan_ok_def terms_ok_def)
  have "loan_inv u"
  proof (rule loan_record_keeps [OF assms(1,2) L _ _ _ _ ok])
    fix p assume p: "0 \<le> tp_principal p" "claimed p \<le> entitled l p"
    have "0 \<le> share l p" by (rule share_nonneg [OF at(3) p(1) at(4)])
    then show "claimed p \<le> entitled (l\<lparr>loan_status := st\<rparr>) p" using assms(3) p by (auto simp: entitled_def)
  qed (use loan_invD(3) [OF assms(1)] in \<open>simp_all add: u_def get_loan_count_def\<close>)
  moreover have "holdings k u = holdings k s"
    using record_holdings [OF assms(1,2) L, of k] assms(3) by (auto simp: held_def)
  ultimately show ?thesis ..
qed

lemma loan_book_keeps:
  assumes "loan_book env s t" "loan_inv s"
  shows "loan_inv t \<and> holdings k t = holdings k s"
  using assms(1)
proof cases
  case (initialize a u)
  then have "Loans t = Loans s \<and> Positions t = Positions s \<and> LoanCount t = LoanCount s \<and> Locked t = Locked s \<and> Initialized t \<noteq> None"
    by (auto simp: initialize_def loan_setters split: if_splits)
  then show ?thesis
    using loan_inv_frame [OF assms(2), of t] loan_invD(3) [OF assms(2)] by (auto simp: get_loan_count_def holdings_def)
next
  case (pause u)
  then have "t = publish (Ev_paused True) (s\<lparr>Paused := Some True\<rparr>)" by (auto simp: pause_def loan_setters)
  moreover have "loan_inv (s\<lparr>Paused := Some True\<rparr>)"
    by (rule loan_inv_frame [OF assms(2)]) (use loan_invD(3) [OF assms(2)] in \<open>simp_all add: get_loan_count_def\<close>)
  ultimately show ?thesis by simp (simp add: holdings_def)
next
  case (unpause u)
  then have "t = publish (Ev_paused False) (s\<lparr>Paused := Some False\<rparr>)" by (auto simp: unpause_def loan_setters)
  moreover have "loan_inv (s\<lparr>Paused := Some False\<rparr>)"
    by (rule loan_inv_frame [OF assms(2)]) (use loan_invD(3) [OF assms(2)] in \<open>simp_all add: get_loan_count_def\<close>)
  ultimately show ?thesis by simp (simp add: holdings_def)
next
  case (create p q a tok sb jb d m g i)
  then show ?thesis using create_keeps [OF create(3) assms(2)] by simp
next
  case (mark_default i u)
  obtain l where l: "Loans s i = Some l" "loan_status l = Active"
    "t = publish (Ev_default i (repaid l)) (s\<lparr>Loans := (Loans s)(loan_id l \<mapsto> l\<lparr>loan_status := Defaulted\<rparr>)\<rparr>)"
    using mark_default_Ok [OF mark_default] by blast
  show ?thesis using status_keeps [OF assms(2) l(1), of Defaulted k] l(2) by (simp add: l(3))
next
  case (cancel a i u)
  obtain l where l: "Loans s i = Some l" "loan_status l = Funding"
    "t = publish (Ev_cancelled i a) (s\<lparr>Loans := (Loans s)(loan_id l \<mapsto> l\<lparr>loan_status := Cancelled\<rparr>)\<rparr>)"
    using cancel_loan_Ok [OF cancel] by blast
  show ?thesis using status_keeps [OF assms(2) l(1), of Cancelled k] l(2) by (simp add: l(3))
next
  case (expire i u)
  obtain l where l: "Loans s i = Some l" "loan_status l = Funding"
    "t = publish (Ev_expired i (repaid l)) (s\<lparr>Loans := (Loans s)(loan_id l \<mapsto> l\<lparr>loan_status := Cancelled\<rparr>)\<rparr>)"
    using expire_loan_Ok [OF expire] by blast
  show ?thesis using status_keeps [OF assms(2) l(1), of Cancelled k] l(2) by (simp add: l(3))
qed

text \<open>
  The calls that move tokens: what comes in is added to the holdings of the loan's asset, what goes
  out is taken off.
\<close>

definition moves :: "'w token_transfer \<Rightarrow> env \<Rightarrow> 'w \<times> loan_state \<Rightarrow> 'w \<times> loan_state \<Rightarrow> bool" where
  "moves tc env ws wt \<longleftrightarrow> (case (ws, wt) of ((w, s), (w', t)) \<Rightarrow> \<exists>tok who x.
     auth env who \<and> tc tok (subcall_env env tok) who (current_contract env) x w = Some w' \<and>
       (\<forall>k. holdings k t = holdings k s + (if tok = k then x else 0)) \<or>
     tc tok (subcall_env env tok) (current_contract env) who x w = Some w' \<and>
       (\<forall>k. holdings k t = holdings k s - (if tok = k then x else 0)))"

lemma moves_in:
  "auth env who \<Longrightarrow> tc tok (subcall_env env tok) who (current_contract env) x w = Some w' \<Longrightarrow>
   (\<And>k. holdings k t = holdings k s + (if tok = k then x else 0)) \<Longrightarrow> moves tc env (w, s) (w', t)"
  unfolding moves_def by auto

lemma moves_out:
  "tc tok (subcall_env env tok) (current_contract env) who x w = Some w' \<Longrightarrow>
   (\<And>k. holdings k t = holdings k s - (if tok = k then x else 0)) \<Longrightarrow> moves tc env (w, s) (w', t)"
  unfolding moves_def by auto

lemma moves_publish [simp]: "moves tc env (w, s) (w', publish e t) = moves tc env (w, s) (w', t)"
  by (simp add: moves_def)

lemma fund_keeps:
  assumes "fund tc env a i n x (w, s) = Ok (u, w', t)" "loan_inv s"
  shows "loan_inv t \<and> moves tc env (w, s) (w', t)"
proof -
  obtain l tr p' where h: "auth env a" "0 < x" "Loans s i = Some l" "loan_status l = Funding" "funded_of l tr + x \<le> target_of l tr"
      "p' = (get_position s i a tr)\<lparr>tp_principal := tp_principal (get_position s i a tr) + x\<rparr>"
      "tc (asset l) (subcall_env env (asset l)) a (current_contract env) x w = Some w'"
    and t: "t = publish (Ev_funded i a tr x) (s\<lparr>Locked := Some False,
      Loans := (Loans s)(loan_id l \<mapsto> (case tr of Senior \<Rightarrow> l\<lparr>senior_funded := senior_funded l + x\<rparr>
        | Junior \<Rightarrow> l\<lparr>junior_funded := junior_funded l + x\<rparr>)),
      Positions := (Positions s)((tp_loan_id p', lender p', tp_tranche p') \<mapsto> p')\<rparr>)"
    using loan_fund_Ok [OF assms(1)] by blast
  note at = loan_at [OF assms(2) h(3)] and pf = position_fields [OF assms(2), where i = i and a = a and tr = tr]
  define l' where "l' = (case tr of Senior \<Rightarrow> l\<lparr>senior_funded := senior_funded l + x\<rparr> | Junior \<Rightarrow> l\<lparr>junior_funded := junior_funded l + x\<rparr>)"
  define v where "v = s\<lparr>Locked := Some False, Loans := (Loans s)(i \<mapsto> l'), Positions := (Positions s)((i, a, tr) := Some p')\<rparr>"
  have tv: "t = publish (Ev_funded i a tr x) v" by (simp add: t v_def l'_def at(1) h(6) pf)
  have P: "Positions v = (Positions s)((i, a, tr) := Some p')" and L: "Loans v = (Loans s)(i \<mapsto> l')" by (simp_all add: v_def)
  have f: "funded_of l' r = funded_of l r + (if r = tr then x else 0)" "target_of l' r = target_of l r" for r
    by (cases r; cases tr; simp add: l'_def)+
  have l': "loan_id l' = i" "terms_ok l'" "loan_status l' = Funding" "repaid l' = 0" "total_claimed l' = total_claimed l" "asset l' = asset l"
      "held l' = held l + x"
    using at(1,3) h(4) loan_okD(8) [OF at(2)] by (cases tr; simp add: l'_def terms_ok_def held_def)+
  have tot: "total_of (weight i r) (Positions v) = total_of (weight i r) (Positions s) + (if r = tr then x else 0)"
    "total_of (taken i) (Positions v) = total_of (taken i) (Positions s)" for r
    using total_positions_upd [OF assms(2) P, of "weight i r"] total_positions_upd [OF assms(2) P, of "taken i"]
      value_position [OF assms(2), of "weight i r" i a tr] value_position [OF assms(2), of "taken i" i a tr]
    by (auto simp: weight_def taken_def h(6) pf)
  have cnt: "get_loan_count v = get_loan_count s" by (simp add: v_def get_loan_count_def)
  have le: "total_of (weight i r) (Positions v) \<le> target_of l' r" for r
    using tot(1) [of r] loan_okD(5,6) [OF at(2), of r] h(5) f(2) by (cases "r = tr") auto
  have ok: "loan_ok v i l'"
    using le tot f l' loan_okD(2,3,5,7) [OF at(2)] by (simp add: loan_ok_def cnt)
  have "loan_inv v"
  proof (rule loan_inv_update [OF assms(2) L P])
    show "position_ok v (i, a, tr) p" if "Some p' = Some p" for p
      using that pf h(2) pf(6) [OF h(3)] h(4) l'(3) by (auto simp: position_ok_def h(6) L entitled_def)
    show "Initialized v \<noteq> None" using loan_invD(6) [OF assms(2)] h(3) by (cases "Initialized s") (auto simp: v_def)
  qed (use ok cnt h(3,4) l'(3) in \<open>auto simp: v_def entitled_def\<close>)
  moreover have "moves tc env (w, s) (w', v)"
    by (rule moves_in [OF h(1)], rule h(7)) (use record_holdings [OF assms(2) h(3) L l'(6)] l'(7) in simp)
  ultimately show ?thesis by (simp add: tv)
qed

lemma drawdown_keeps:
  assumes "drawdown tc env i (w, s) = Ok (u, w', t)" "loan_inv s"
  shows "loan_inv t \<and> moves tc env (w, s) (w', t)"
proof -
  obtain l where h: "Loans s i = Some l" "loan_status l = Funding" "senior_funded l = senior_target l" "junior_funded l = junior_target l"
      "tc (asset l) (subcall_env env (asset l)) (current_contract env) (borrower l) (principal_target l) w = Some w'"
    and t: "t = publish (Ev_drawdown i (borrower l) (principal_target l)) (s\<lparr>Locked := Some False,
      Loans := (Loans s)(loan_id l \<mapsto> l\<lparr>loan_status := Active\<rparr>)\<rparr>)"
    using drawdown_Ok [OF assms(1)] by blast
  note at = loan_at [OF assms(2) h(1)]
  let ?l = "l\<lparr>loan_status := Active\<rparr>"
  let ?v = "s\<lparr>Locked := Some False, Loans := (Loans s)(i \<mapsto> ?l)\<rparr>"
  have ok: "loan_ok s i ?l" using at(2) h(2-4) by (auto simp: loan_ok_def terms_ok_def)
  have "loan_inv ?v"
    by (rule loan_record_keeps [OF assms(2) h(1) _ _ _ _ _ ok]) (use h(2) in \<open>auto simp: get_loan_count_def entitled_def\<close>)
  moreover have m: "held ?l = held l - principal_target l"
    using h(2-4) at(3) loan_okD(8) [OF at(2)] by (simp add: held_def terms_ok_def)
  have "moves tc env (w, s) (w', ?v)"
    by (rule moves_out, rule h(5)) (use record_holdings [OF assms(2) h(1), of ?v ?l] m in simp)
  ultimately show ?thesis by (simp add: t at(1))
qed

lemma repay_keeps:
  assumes "repay tc env a i x (w, s) = Ok (y, w', t)" "loan_inv s"
  shows "loan_inv t \<and> moves tc env (w, s) (w', t)"
proof -
  obtain l d where h: "auth env a" "Loans s i = Some l" "loan_status l = Active" "total_due l = Ok d" "y = min x (d - repaid l)" "0 < y"
      "in_i128 (repaid l + y)" "tc (asset l) (subcall_env env (asset l)) a (current_contract env) y w = Some w'"
    and t: "t = publish (Ev_repaid i a y (repaid l + y)) (s\<lparr>Locked := Some False,
      Loans := (Loans s)(loan_id l \<mapsto> (if repaid l + y = d then l\<lparr>repaid := repaid l + y, loan_status := Repaid\<rparr>
        else l\<lparr>repaid := repaid l + y\<rparr>))\<rparr>)"
    using repay_Ok [OF assms(1)] by blast
  note at = loan_at [OF assms(2) h(2)]
  have d: "d = senior_due l + junior_due l" using total_due_Ok [OF h(4) at(3)] by simp
  define l' where "l' = (if repaid l + y = d then l\<lparr>repaid := repaid l + y, loan_status := Repaid\<rparr> else l\<lparr>repaid := repaid l + y\<rparr>)"
  let ?v = "s\<lparr>Locked := Some False, Loans := (Loans s)(i \<mapsto> l')\<rparr>"
  have T: "terms_ok l'" using at(3) h(6,7) by (auto simp: terms_ok_def l'_def in_i128_def)
  have ok: "loan_ok s i l'"
    using at(2) T h(3) d by (auto simp: loan_ok_def l'_def)
  have "loan_inv ?v"
  proof (rule loan_record_keeps [OF assms(2) h(2) _ _ _ _ _ ok])
    fix p assume p: "0 \<le> tp_principal p" "claimed p \<le> entitled l p"
    have "0 \<le> share l' p"
      by (rule share_nonneg [OF T p(1)]) (use at(4) in \<open>simp add: l'_def\<close>)
    then show "claimed p \<le> entitled l' p" using h(3) p by (auto simp: entitled_def l'_def)
  qed (use h(3) in \<open>auto simp: get_loan_count_def\<close>)
  moreover have m: "held l' = held l + y" "asset l' = asset l" using h(3) by (simp_all add: held_def l'_def)
  have "moves tc env (w, s) (w', ?v)"
    by (rule moves_in, rule h(1), rule h(8)) (use record_holdings [OF assms(2) h(2), of ?v l'] m in simp)
  ultimately show ?thesis by (simp add: t at(1) l'_def)
qed

text \<open>A lender takes \<open>y\<close> out of a position, no more than what is left of the entitlement.\<close>

lemma take_keeps:
  assumes inv: "loan_inv s" and l: "Loans s i = Some l"
    and y: "0 < y" "y \<le> entitled l (get_position s i a tr) - claimed (get_position s i a tr)"
    and pay: "tc (asset l) (subcall_env env (asset l)) (current_contract env) a y w = Some w'"
  defines "v \<equiv> s\<lparr>Locked := Some False, Loans := (Loans s)(loan_id l \<mapsto> l\<lparr>total_claimed := total_claimed l + y\<rparr>),
      Positions := (Positions s)((i, a, tr) \<mapsto> (get_position s i a tr)\<lparr>claimed := claimed (get_position s i a tr) + y\<rparr>)\<rparr>"
  shows "loan_inv v \<and> moves tc env (w, s) (w', v)"
proof -
  note at = loan_at [OF inv l] and pf = position_fields [OF inv, where i = i and a = a and tr = tr]
  let ?p = "get_position s i a tr" and ?l = "l\<lparr>total_claimed := total_claimed l + y\<rparr>"
  let ?q = "?p\<lparr>claimed := claimed ?p + y\<rparr>"
  have P: "Positions v = (Positions s)((i, a, tr) := Some ?q)" and L: "Loans v = (Loans s)(i \<mapsto> ?l)" by (simp_all add: v_def at(1))
  have e: "entitled ?l ?q = entitled l ?p" "entitled l ?q = entitled l ?p" by (simp_all add: entitled_def share_def split: LoanStatus.split)
  have tot: "total_of (weight i r) (Positions v) = total_of (weight i r) (Positions s)"
    "total_of (taken i) (Positions v) = total_of (taken i) (Positions s) + y" for r
    using total_positions_upd [OF inv P, of "weight i r"] total_positions_upd [OF inv P, of "taken i"]
      value_position [OF inv, of "weight i r" i a tr] value_position [OF inv, of "taken i" i a tr]
    by (auto simp: weight_def taken_def pf)
  have cnt: "get_loan_count v = get_loan_count s" by (simp add: v_def get_loan_count_def)
  have ok: "loan_ok v i ?l" using at(2) tot by (simp add: loan_ok_def cnt terms_ok_def)
  have "loan_inv v"
  proof (rule loan_inv_update [OF inv L P])
    show "position_ok v (i, a, tr) p" if "Some ?q = Some p" for p
      using that pf y e by (auto simp: position_ok_def L)
    show "Initialized v \<noteq> None" using loan_invD(6) [OF inv] l by (cases "Initialized s") (auto simp: v_def)
  qed (use ok cnt l in \<open>auto simp: v_def\<close>)
  moreover have "moves tc env (w, s) (w', v)"
    by (rule moves_out, rule pay) (use record_holdings [OF inv l L] in \<open>simp add: held_def\<close>)
  ultimately show ?thesis ..
qed

lemma position_fits:
  assumes "loan_inv s" "Loans s i = Some l"
  shows "in_i128 (tp_principal (get_position s i a tr))"
proof (cases "Positions s (i, a, tr)")
  case None
  then show ?thesis by (simp add: get_position_def)
next
  case (Some p)
  have k: "tp_loan_id p = i" "tp_tranche p = tr" "0 \<le> tp_principal p"
    using loan_invD(5) [OF assms(1) Some] by (auto simp: position_ok_def)
  have "tp_principal p \<le> funded_of l tr" using principal_le_funded [OF assms(1) Some, of l] k assms(2) by simp
  then show ?thesis
    using in_i128_le [OF funded_nonneg(2) [OF assms, of tr] k(3)] Some by (simp add: get_position_def)
qed

lemma loan_token_keeps:
  assumes "loan_token tc env (w, s) (w', t)" "loan_inv s"
  shows "loan_inv t \<and> moves tc env (w, s) (w', t)"
  using assms(1)
proof cases
  case (fund x a i n u)
  show ?thesis by (rule fund_keeps [OF fund(2) assms(2)])
next
  case (drawdown i u)
  show ?thesis by (rule drawdown_keeps [OF drawdown assms(2)])
next
  case (repay x a i y)
  show ?thesis by (rule repay_keeps [OF repay(2) assms(2)])
next
  case (refund a i n y)
  obtain l tr p where h: "Loans s i = Some l" "loan_status l = Cancelled" "p = get_position s i a tr" "y = tp_principal p - claimed p" "0 < y"
      "tc (asset l) (subcall_env env (asset l)) (current_contract env) a y w = Some w'"
    and t: "t = publish (Ev_refund i a tr y) (s\<lparr>Locked := Some False,
      Loans := (Loans s)(loan_id l \<mapsto> l\<lparr>total_claimed := total_claimed l + y\<rparr>),
      Positions := (Positions s)((tp_loan_id p, lender p, tp_tranche p) \<mapsto> p\<lparr>claimed := tp_principal p\<rparr>)\<rparr>)"
    using claim_refund_Ok [OF refund] by blast
  show ?thesis
    using take_keeps [where tc = tc and env = env and a = a and w = w and w' = w' and tr = tr, OF assms(2) h(1,5) _ h(6)] h(2-4) position_fields(1-3) [OF assms(2), where i = i and a = a and tr = tr]
    by (simp add: t entitled_def)
next
  case (claim a i n y)
  obtain l tr p where h: "Loans s i = Some l" "loan_status l = Repaid \<or> loan_status l = Defaulted" "p = get_position s i a tr"
      "position_claim l p = Ok y" "0 < y"
      "tc (asset l) (subcall_env env (asset l)) (current_contract env) a y w = Some w'"
    and t: "t = publish (Ev_claimed i a tr y) (s\<lparr>Locked := Some False,
      Loans := (Loans s)(loan_id l \<mapsto> l\<lparr>total_claimed := total_claimed l + y\<rparr>),
      Positions := (Positions s)((tp_loan_id p, lender p, tp_tranche p) \<mapsto> p\<lparr>claimed := claimed p + y\<rparr>)\<rparr>)"
    using claim_Ok [OF claim] by blast
  have e: "entitled l p = share l p" using h(2) by (auto simp: entitled_def)
  have "y = share l p - claimed p"
    using position_claim_Ok(1) [OF h(4) loan_at(3) [OF assms(2) h(1)] _ funded_nonneg(2) [OF assms(2) h(1)]]
      position_fits [OF assms(2) h(1)] h(3,5) by simp
  then show ?thesis
    using take_keeps [where tc = tc and env = env and a = a and w = w and w' = w' and tr = tr, OF assms(2) h(1,5) _ h(6)]
      e h(3) position_fields(1-3) [OF assms(2), where i = i and a = a and tr = tr] by (simp add: t)
qed

end
