(* ===== verification/Loan_Correct.thy ===== *)
theory Loan_Correct
  imports Loan_Books_Correct
begin

text \<open>
  The properties of the syndicated loans: the contract holds what the lenders can still claim, an
  unpaid claim cannot be blocked, senior lenders are paid before junior ones and a repaid loan makes
  everybody whole, and a loan moves only along its life cycle.
\<close>

abbreviation repo_loan_step ::
    "address \<Rightarrow> token_world \<times> loan_state \<Rightarrow> token_world \<times> loan_state \<Rightarrow> bool" where
  "repo_loan_step self \<equiv> loan_step world_transfer (world_outside self) self"

section \<open>Runs\<close>

definition syndicate_inv ::
    "('w \<Rightarrow> address \<Rightarrow> address \<Rightarrow> int) \<Rightarrow> (address \<Rightarrow> 'w \<Rightarrow> bool) \<Rightarrow> address \<Rightarrow> 'w \<times> loan_state \<Rightarrow> bool" where
  "syndicate_inv balance_of ok self ws \<longleftrightarrow> ok self (fst ws) \<and> loan_inv (snd ws) \<and>
     (\<forall>k. holdings k (snd ws) \<le> balance_of (fst ws) k self)"

context token_host
begin

lemma loan_step_inv:
  assumes "loan_step transfer_call (outside self) self ws wt" "syndicate_inv balance_of world_ok self ws"
  shows "syndicate_inv balance_of world_ok self wt"
  using assms
proof (induction rule: loan_step.induct)
  case (book env s t w)
  then show ?case using loan_book_keeps [of env s t] by (simp add: syndicate_inv_def)
next
  case (tokens env ws wt)
  obtain w s w' t where p: "ws = (w, s)" "wt = (w', t)" by (cases ws; cases wt) auto
  have ok: "world_ok self w" "loan_inv s" and le: "\<And>k. holdings k s \<le> balance_of w k self"
    using tokens.prems by (simp_all add: syndicate_inv_def p)
  have k: "loan_inv t" "moves transfer_call env (w, s) (w', t)"
    using loan_token_keeps [OF tokens.hyps(3) [unfolded p] ok(2)] by simp_all
  from k(2) obtain tok who x where
    "auth env who \<and> transfer_call tok (subcall_env env tok) who (current_contract env) x w = Some w' \<and>
       (\<forall>k. holdings k t = holdings k s + (if tok = k then x else 0)) \<or>
     transfer_call tok (subcall_env env tok) (current_contract env) who x w = Some w' \<and>
       (\<forall>k. holdings k t = holdings k s - (if tok = k then x else 0))"
    unfolding moves_def by auto
  then show ?case
  proof
    assume m: "auth env who \<and> transfer_call tok (subcall_env env tok) who (current_contract env) x w = Some w' \<and>
       (\<forall>k. holdings k t = holdings k s + (if tok = k then x else 0))"
    then have c: "transfer_call tok (subcall_env env tok) who self x w = Some w'" "who \<noteq> self"
      using tokens.hyps(1,2) by auto
    show ?thesis
      using k(1) transfer_keeps_ok [OF ok(1) c(1)] leg_in [OF c] m le by (simp add: syndicate_inv_def p)
  next
    assume m: "transfer_call tok (subcall_env env tok) (current_contract env) who x w = Some w' \<and>
       (\<forall>k. holdings k t = holdings k s - (if tok = k then x else 0))"
    then have c: "transfer_call tok (subcall_env env tok) self who x w = Some w'" using tokens.hyps(2) by simp
    have "holdings k t \<le> balance_of w' k self" for k
      using leg_out_ge [OF c, of k] m le [of k] by auto
    then show ?thesis using k(1) transfer_keeps_ok [OF ok(1) c] by (simp add: syndicate_inv_def p)
  qed
next
  case (other w w' s)
  then show ?case
    using outside_ok [of self w w'] outside_keeps [of self w w'] by (auto simp: syndicate_inv_def intro: order_trans)
qed

lemma loan_run_inv:
  assumes "(loan_step transfer_call (outside self) self)\<^sup>*\<^sup>* (w0, empty_loans) ws" "world_ok self w0"
  shows "syndicate_inv balance_of world_ok self ws"
  using assms(1)
proof (induction rule: rtranclp_induct)
  case base
  then show ?case
    using assms(2) loan_inv_empty own_balance_nonneg by (simp add: syndicate_inv_def holdings_def empty_loans_def)
next
  case (step ws wt)
  then show ?case by (blast intro: loan_step_inv)
qed

end

lemma reachable_loans:
  assumes "(repo_loan_step self)\<^sup>*\<^sup>* (w0, empty_loans) (w, s)" "world_ok self w0"
  shows "loan_inv s" "world_ok self w" "holdings k s \<le> world_balance w k self"
  using repo_host.loan_run_inv [OF assms] by (auto simp: syndicate_inv_def)

section \<open>A concrete run\<close>

text \<open>
  Lender 5 funds both tranches of a loan of 300000 units, the borrower 8 draws it down and repays
  320000 units, the whole amount due.
\<close>

definition demo_loan :: Loan where
  "demo_loan = \<lparr>loan_id = 1, borrower = 8, asset = 40, loan_status = Funding, principal_target = 300000,
     senior_target = 200000, junior_target = 100000, senior_funded = 0, junior_funded = 0, senior_yield_bps = 500,
     junior_yield_bps = 1000, funding_deadline = 100, maturity = 200, grace_period = 50, repaid = 0, total_claimed = 0,
     loan_created_at = 5\<rparr>"

definition demo_position :: "Tranche \<Rightarrow> int \<Rightarrow> TranchePosition" where
  "demo_position tr x = \<lparr>tp_loan_id = 1, lender = 5, tp_tranche = tr, tp_principal = x, claimed = 0\<rparr>"

definition demo_loans :: "Loan \<Rightarrow> (nat \<times> address \<times> Tranche \<rightharpoonup> TranchePosition) \<Rightarrow> bool option \<Rightarrow> loan_event list \<Rightarrow> loan_state" where
  "demo_loans l ps lk ev = \<lparr>Admin = Some 1, Initialized = Some True, Paused = Some False, Locked = lk, LoanCount = Some 1,
     Loans = [1 \<mapsto> l], Positions = ps, events = ev\<rparr>"

definition demo_loans_new :: loan_state where
  "demo_loans_new = demo_loans demo_loan Map.empty None [Ev_init 1, Ev_created 1 8 300000 200000]"

definition demo_senior :: "nat \<times> address \<times> Tranche \<rightharpoonup> TranchePosition" where
  "demo_senior = [(1, 5, Senior) \<mapsto> demo_position Senior 200000]"

definition demo_both :: "nat \<times> address \<times> Tranche \<rightharpoonup> TranchePosition" where
  "demo_both = demo_senior((1, 5, Junior) \<mapsto> demo_position Junior 100000)"

definition demo_loans_senior :: loan_state where
  "demo_loans_senior = publish (Ev_funded 1 5 Senior 200000)
     (demo_loans (demo_loan\<lparr>senior_funded := 200000\<rparr>) demo_senior (Some False) (events demo_loans_new))"

definition demo_loans_both :: loan_state where
  "demo_loans_both = publish (Ev_funded 1 5 Junior 100000)
     (demo_loans (demo_loan\<lparr>senior_funded := 200000, junior_funded := 100000\<rparr>) demo_both (Some False) (events demo_loans_senior))"

definition demo_loan_active :: Loan where
  "demo_loan_active = demo_loan\<lparr>senior_funded := 200000, junior_funded := 100000, loan_status := Active\<rparr>"

definition demo_loans_active :: loan_state where
  "demo_loans_active = publish (Ev_drawdown 1 8 300000) (demo_loans demo_loan_active demo_both (Some False) (events demo_loans_both))"

definition demo_loan_repaid :: Loan where
  "demo_loan_repaid = demo_loan_active\<lparr>repaid := 320000, loan_status := Repaid\<rparr>"

definition demo_loans_repaid :: loan_state where
  "demo_loans_repaid = publish (Ev_repaid 1 8 320000 320000) (demo_loans demo_loan_repaid demo_both (Some False) (events demo_loans_active))"

lemmas demo_loan_states = demo_loans_repaid_def demo_loans_active_def demo_loans_both_def demo_loans_senior_def demo_loans_new_def
  demo_loans_def publish_def
lemmas demo_loan_records = demo_loan_repaid_def demo_loan_active_def demo_loan_def demo_position_def demo_both_def demo_senior_def
lemmas loan_arith = checked_add_def checked_sub_def in_i128_def i128_max_def i128_min_def u32_checked_add_def u32_max_def

definition rich_syndicate :: "nat \<Rightarrow> token_world" where
  "rich_syndicate n =
     [rich_ledger,
      rich_world (moved 5 99 200000 rich_holdings) [Ev_Mint 5 600000, Ev_Mint 8 400000, Ev_Transfer 5 99 200000],
      rich_world (moved 5 99 100000 (moved 5 99 200000 rich_holdings))
        [Ev_Mint 5 600000, Ev_Mint 8 400000, Ev_Transfer 5 99 200000, Ev_Transfer 5 99 100000],
      rich_world (moved 99 8 300000 (moved 5 99 100000 (moved 5 99 200000 rich_holdings)))
        [Ev_Mint 5 600000, Ev_Mint 8 400000, Ev_Transfer 5 99 200000, Ev_Transfer 5 99 100000, Ev_Transfer 99 8 300000],
      rich_world (moved 8 99 320000 (moved 99 8 300000 (moved 5 99 100000 (moved 5 99 200000 rich_holdings))))
        [Ev_Mint 5 600000, Ev_Mint 8 400000, Ev_Transfer 5 99 200000, Ev_Transfer 5 99 100000, Ev_Transfer 99 8 300000,
         Ev_Transfer 8 99 320000]] ! n"

lemma demo_legs:
  "world_transfer 40 (subcall_env (host_env 10) 40) 5 99 200000 (rich_syndicate 0) = Some (rich_syndicate 1)"
  "world_transfer 40 (subcall_env (host_env 20) 40) 5 99 100000 (rich_syndicate 1) = Some (rich_syndicate 2)"
  "world_transfer 40 (subcall_env (host_env 30) 40) 99 8 300000 (rich_syndicate 2) = Some (rich_syndicate 3)"
  "world_transfer 40 (subcall_env (host_env 40) 40) 8 99 320000 (rich_syndicate 3) = Some (rich_syndicate 4)"
proof -
  note move = rich_transfer [where ev = "[Ev_Mint 5 600000, Ev_Mint 8 400000]"]
    rich_transfer [where ev = "[Ev_Mint 5 600000, Ev_Mint 8 400000, Ev_Transfer 5 99 200000]"]
    rich_transfer [where ev = "[Ev_Mint 5 600000, Ev_Mint 8 400000, Ev_Transfer 5 99 200000, Ev_Transfer 5 99 100000]"]
    rich_transfer [where ev = "[Ev_Mint 5 600000, Ev_Mint 8 400000, Ev_Transfer 5 99 200000, Ev_Transfer 5 99 100000, Ev_Transfer 99 8 300000]"]
  show "world_transfer 40 (subcall_env (host_env 10) 40) 5 99 200000 (rich_syndicate 0) = Some (rich_syndicate 1)"
    by (simp add: rich_syndicate_def rich_ledger_def move bal_moved loan_arith rich_holdings_def)
  show "world_transfer 40 (subcall_env (host_env 20) 40) 5 99 100000 (rich_syndicate 1) = Some (rich_syndicate 2)"
    by (simp add: rich_syndicate_def move bal_moved loan_arith rich_holdings_def)
  show "world_transfer 40 (subcall_env (host_env 30) 40) 99 8 300000 (rich_syndicate 2) = Some (rich_syndicate 3)"
    by (simp add: rich_syndicate_def move bal_moved loan_arith rich_holdings_def)
  show "world_transfer 40 (subcall_env (host_env 40) 40) 8 99 320000 (rich_syndicate 3) = Some (rich_syndicate 4)"
    by (simp add: rich_syndicate_def move bal_moved loan_arith rich_holdings_def)
qed

lemma some_truth [simp]: "\<exists>b. b" by blast

lemma demo_loans_init:
  "\<exists>s1. initialize (host_env 1) 1 empty_loans = Ok ((), s1) \<and>
     create_loan (host_env 5) 8 40 300000 200000 500 1000 100 200 50 s1 = Ok (1, demo_loans_new)"
  by (simp add: initialize_def is_initialized_def require_auth_def create_loan_def ensure_initialized_def ensure_not_paused_def
      is_paused_def validate_terms_def next_loan_id_def loan_setters empty_loans_def MAX_YIELD_BPS_def MAX_GRACE_PERIOD_def
      demo_loan_states demo_loan_def loan_arith)

lemmas demo_loan_eval = ensure_initialized_def is_initialized_def ensure_not_paused_def is_paused_def require_auth_def
  validate_amount_def parse_tranche_def get_loan_def tranche_funding_def get_position_def enter_def loan_setters

lemma demo_loans_fund:
  "fund world_transfer (host_env 10) 5 1 0 200000 (rich_syndicate 0, demo_loans_new) = Ok ((), rich_syndicate 1, demo_loans_senior)"
  "fund world_transfer (host_env 20) 5 1 1 100000 (rich_syndicate 1, demo_loans_senior) = Ok ((), rich_syndicate 2, demo_loans_both)"
  using demo_legs(1,2)
  by (simp_all add: fund_def demo_loan_eval demo_loan_states demo_loan_records loan_arith Let_def)

lemma demo_loans_drawdown:
  "drawdown world_transfer (host_env 30) 1 (rich_syndicate 2, demo_loans_both) = Ok ((), rich_syndicate 3, demo_loans_active)"
  using demo_legs(3) by (simp add: drawdown_def demo_loan_eval demo_loan_states demo_loan_records Let_def)

lemma demo_total_due: "total_due demo_loan_active = Ok 320000"
proof -
  have "mul_div_floor 200000 500 10000 = Ok (200000 * 500 div 10000)" "mul_div_floor 100000 1000 10000 = Ok (100000 * 1000 div 10000)"
    by (rule loan_division.floor_fits; simp add: loan_arith)+
  then show ?thesis by (simp add: total_due_def tranche_due_def BPS_DENOMINATOR_def demo_loan_records loan_arith)
qed

lemma demo_loans_repay:
  "repay world_transfer (host_env 40) 8 1 320000 (rich_syndicate 3, demo_loans_active) = Ok (320000, rich_syndicate 4, demo_loans_repaid)"
proof -
  have l: "Loans demo_loans_active 1 = Some demo_loan_active" by (simp add: demo_loan_states)
  have f: "loan_status demo_loan_active = Active" "repaid demo_loan_active = 0" "asset demo_loan_active = 40" "loan_id demo_loan_active = 1"
    by (simp_all add: demo_loan_records)
  have "repay world_transfer (host_env 40) 8 1 320000 (rich_syndicate 3, demo_loans_active) =
      Ok (320000, rich_syndicate 4, publish (Ev_repaid 1 8 320000 320000) (demo_loans_active\<lparr>Locked := Some False,
        Loans := (Loans demo_loans_active)(1 \<mapsto> demo_loan_repaid)\<rparr>))"
    using demo_legs(4) l f demo_total_due
    by (simp add: repay_def ensure_initialized_def is_initialized_def require_auth_def validate_amount_def get_loan_def enter_def
        set_loan_def exit_def loan_arith Let_def demo_loan_repaid_def) (simp add: demo_loan_states)
  then show ?thesis by (simp add: demo_loan_states)
qed

lemma demo_loan_run:
  "(repo_loan_step 99)\<^sup>*\<^sup>* (rich_ledger, empty_loans) (rich_syndicate 3, demo_loans_active)"
  "(repo_loan_step 99)\<^sup>*\<^sup>* (rich_ledger, empty_loans) (rich_syndicate 4, demo_loans_repaid)"
proof -
  obtain s1 where s1: "initialize (host_env 1) 1 empty_loans = Ok ((), s1)"
    "create_loan (host_env 5) 8 40 300000 200000 500 1000 100 200 50 s1 = Ok (1, demo_loans_new)" using demo_loans_init by blast
  have l: "rich_ledger = rich_syndicate 0" by (simp add: rich_syndicate_def)
  have "repo_loan_step 99 (rich_syndicate 0, empty_loans) (rich_syndicate 0, s1)"
    by (rule loan_step.book [OF _ _ loan_book.initialize [OF s1(1)]]) simp_all
  moreover have "repo_loan_step 99 (rich_syndicate 0, s1) (rich_syndicate 0, demo_loans_new)"
    by (rule loan_step.book [OF _ _ loan_book.create [OF _ _ s1(2)]]) (simp_all add: loan_arith)
  moreover have "repo_loan_step 99 (rich_syndicate 0, demo_loans_new) (rich_syndicate 1, demo_loans_senior)"
    by (rule loan_step.tokens [OF _ _ loan_token.fund [OF _ demo_loans_fund(1)]]) (simp_all add: loan_arith)
  moreover have "repo_loan_step 99 (rich_syndicate 1, demo_loans_senior) (rich_syndicate 2, demo_loans_both)"
    by (rule loan_step.tokens [OF _ _ loan_token.fund [OF _ demo_loans_fund(2)]]) (simp_all add: loan_arith)
  moreover have "repo_loan_step 99 (rich_syndicate 2, demo_loans_both) (rich_syndicate 3, demo_loans_active)"
    by (rule loan_step.tokens [OF _ _ loan_token.drawdown [OF demo_loans_drawdown]]) simp_all
  ultimately show a: "(repo_loan_step 99)\<^sup>*\<^sup>* (rich_ledger, empty_loans) (rich_syndicate 3, demo_loans_active)"
    unfolding l by (meson rtranclp.rtrancl_refl rtranclp.rtrancl_into_rtrancl)
  have "repo_loan_step 99 (rich_syndicate 3, demo_loans_active) (rich_syndicate 4, demo_loans_repaid)"
    by (rule loan_step.tokens [OF _ _ loan_token.repay [OF _ demo_loans_repay]]) (simp_all add: loan_arith)
  with a show "(repo_loan_step 99)\<^sup>*\<^sup>* (rich_ledger, empty_loans) (rich_syndicate 4, demo_loans_repaid)"
    by (rule rtranclp.rtrancl_into_rtrancl)
qed

section \<open>Claims\<close>

lemma allocation_claimed [simp]: "tranche_allocation (l\<lparr>total_claimed := c\<rparr>) tr = tranche_allocation l tr"
  by (cases tr) (simp_all add: tranche_allocation_def cong: if_cong)

lemma position_claim_again:
  assumes "position_claim l p = Ok x" "x \<noteq> 0"
  shows "position_claim (l\<lparr>total_claimed := c\<rparr>) (p\<lparr>claimed := claimed p + x\<rparr>) = Ok 0"
proof -
  let ?f = "case tp_tranche p of Senior \<Rightarrow> senior_funded l | Junior \<Rightarrow> junior_funded l"
  have pos: "0 < tp_principal p" "0 < ?f" using assms by (auto simp: position_claim_def Let_def split: if_splits)
  then obtain a e where h: "tranche_allocation l (tp_tranche p) = Ok a" "mul_div_floor a (tp_principal p) ?f = Ok e" "x = e - claimed p"
    using assms(1) by (auto simp: position_claim_def Let_def split: if_splits)
  have "position_claim l' q = Ok (e - claimed q)"
    if "tp_principal q = tp_principal p" "tp_tranche q = tp_tranche p" "senior_funded l' = senior_funded l"
      "junior_funded l' = junior_funded l" "tranche_allocation l' (tp_tranche p) = Ok a" "in_i128 (e - claimed q)" for l' q
    using that pos h(2) by (cases "tp_tranche p") (simp_all add: position_claim_def)
  from this [of "p\<lparr>claimed := claimed p + x\<rparr>" "l\<lparr>total_claimed := c\<rparr>"] show ?thesis using h by simp
qed

lemma claim_of_position:
  assumes "loan_inv s" "Loans s i = Some l" "position_claim l (get_position s i a tr) = Ok x" "x \<noteq> 0"
  shows "x = share l (get_position s i a tr) - claimed (get_position s i a tr)"
  using position_claim_Ok(1) [OF assms(3) loan_at(3) [OF assms(1,2)] position_fits [OF assms(1,2)] funded_nonneg(2) [OF assms(1,2)] assms(4)] .

lemma position_claim_exact:
  assumes "loan_inv s" "Loans s i = Some l" "position_claim l (get_position s i a tr) = Ok x"
    "0 < tp_principal (get_position s i a tr)" "0 < funded_of l tr"
  shows "x = share l (get_position s i a tr) - claimed (get_position s i a tr)"
proof -
  let ?p = "get_position s i a tr"
  have f: "tp_tranche ?p = tr" "(case tr of Senior \<Rightarrow> senior_funded l | Junior \<Rightarrow> junior_funded l) = funded_of l tr"
    using position_fields(3) [OF assms(1)] by (simp, cases tr) simp_all
  obtain a e where h: "tranche_allocation l tr = Ok a" "mul_div_floor a (tp_principal ?p) (funded_of l tr) = Ok e" "x = e - claimed ?p"
    using assms(3-5) f by (auto simp: position_claim_def Let_def split: if_splits)
  note T = loan_at(3) [OF assms(1,2)]
  have w: "a = waterfall l tr" by (rule allocation_Ok [OF h(1) T])
  have "in_i128 a" using waterfall_bounds(1,3) [OF T, of tr] terms_in_i128(3) [OF T] in_i128_le w by blast
  then show ?thesis
    using loan_division.floor_Ok(4) [OF h(2) _ position_fits [OF assms(1,2)] funded_nonneg(2) [OF assms(1,2)]] h(3) w f(1)
    by (simp add: share_def)
qed

lemma claim_within_held:
  assumes "loan_inv s" "Loans s i = Some l" "loan_status l = Repaid \<or> loan_status l = Defaulted"
    "position_claim l (get_position s i a tr) = Ok x" "0 < x"
  shows "x \<le> held l" "0 \<le> claimed (get_position s i a tr)" "claimed (get_position s i a tr) + x \<le> repaid l"
    "0 \<le> total_claimed l" "total_claimed l + x \<le> repaid l"
proof -
  let ?p = "get_position s i a tr"
  have x: "x = share l ?p - claimed ?p" using claim_of_position [OF assms(1,2,4)] assms(5) by simp
  have T: "terms_ok l" by (rule loan_at(3) [OF assms(1,2)])
  have ent: "entitled l ?p = share l ?p" using assms(3) by (auto simp: entitled_def)
  note b = position_claim_Ok(2,3) [OF assms(4) T position_fits [OF assms(1,2)] funded_nonneg(2) [OF assms(1,2)]]
  have pos: "0 < tp_principal ?p" using b(1) assms(5) by simp
  then obtain q where q: "Positions s (i, a, tr) = Some q" by (cases "Positions s (i, a, tr)") (auto simp: get_position_def)
  then have pq: "?p = q" by (simp add: get_position_def)
  have k: "tp_loan_id q = i" using loan_invD(5) [OF assms(1) q] by (simp add: position_ok_def)
  show h: "x \<le> held l" using claimable_bounds(3) [OF assms(1,2) q k] ent x pq by simp
  show c: "0 \<le> claimed ?p" by (rule position_fields(5) [OF assms(1)])
  have "0 \<le> total_of (taken i) (Positions s)"
    using loan_invD(5) [OF assms(1)] by (intro total_of_nonneg) (auto simp: taken_def position_ok_def)
  then show t: "0 \<le> total_claimed l" using loan_okD(7) [OF loan_at(2) [OF assms(1,2)]] by simp
  show r: "total_claimed l + x \<le> repaid l" using h assms(3) by (auto simp: held_def)
  have "claimed q \<le> total_of (taken i) (Positions s)"
    using total_of_ge [OF loan_invD(2) [OF assms(1)] q, of "taken i"] loan_invD(5) [OF assms(1)] k
    by (auto simp: taken_def position_ok_def split: if_splits)
  then show "claimed ?p + x \<le> repaid l" using r pq loan_okD(7) [OF loan_at(2) [OF assms(1,2)]] by simp
qed

section \<open>The life cycle of a loan\<close>

text \<open>What never changes, and which change of status a call may make.\<close>

definition loan_terms :: "Loan \<Rightarrow> nat \<times> address \<times> address \<times> (int \<times> int \<times> int) \<times> (nat \<times> nat) \<times> nat \<times> nat \<times> nat" where
  "loan_terms l = (loan_id l, borrower l, asset l, (principal_target l, senior_target l, junior_target l),
     (senior_yield_bps l, junior_yield_bps l), funding_deadline l, maturity l, grace_period l)"

definition loan_move :: "env \<Rightarrow> (loan_error, address) outcome \<Rightarrow> Loan \<Rightarrow> Loan \<Rightarrow> bool" where
  "loan_move env admin l l' \<longleftrightarrow>
     (case (loan_status l, loan_status l') of
        (Funding, Active) \<Rightarrow> auth env (borrower l) \<and> senior_funded l = senior_target l \<and> junior_funded l = junior_target l \<and>
          timestamp env < maturity l
      | (Funding, Cancelled) \<Rightarrow> auth env (borrower l) \<or> (\<exists>a. admin = Ok a \<and> auth env a) \<or> funding_deadline l \<le> timestamp env
      | (Active, Repaid) \<Rightarrow> total_due l = Ok (repaid l')
      | (Active, Defaulted) \<Rightarrow> maturity l + grace_period l \<le> timestamp env
      | _ \<Rightarrow> False)"

definition loan_delta :: "env \<Rightarrow> loan_state \<Rightarrow> loan_state \<Rightarrow> nat \<Rightarrow> Loan \<Rightarrow> bool" where
  "loan_delta env s t i l \<longleftrightarrow> (\<exists>l'. Loans t i = Some l' \<and> loan_terms l' = loan_terms l \<and> repaid l \<le> repaid l' \<and>
     total_claimed l \<le> total_claimed l' \<and> (loan_status l' = loan_status l \<or> loan_move env (get_admin s) l l'))"

lemma delta_self: "Loans s i = Some l \<Longrightarrow> Loans t i = Loans s i \<Longrightarrow> loan_delta env s t i l"
  by (simp add: loan_delta_def)

lemma delta_other:
  assumes "loan_inv s" "Loans s i = Some l" "Loans s j = Some m" "Loans t = (Loans s)(loan_id m \<mapsto> m')"
    "loan_terms m' = loan_terms m" "repaid m \<le> repaid m'" "total_claimed m \<le> total_claimed m'"
    "loan_status m' = loan_status m \<or> loan_move env (get_admin s) m m'"
  shows "loan_delta env s t i l"
  using assms loan_at(1) [OF assms(1,3)] by (cases "i = j") (auto simp: loan_delta_def)

lemma loan_book_delta:
  assumes "loan_book env s t" "loan_inv s" "Loans s i = Some l"
  shows "loan_delta env s t i l"
  using assms(1)
proof cases
  case (initialize a u)
  then show ?thesis by (intro delta_self [OF assms(3)]) (auto simp: initialize_def loan_setters split: if_splits)
next
  case (pause u)
  then show ?thesis by (intro delta_self [OF assms(3)]) (auto simp: pause_def loan_setters)
next
  case (unpause u)
  then show ?thesis by (intro delta_self [OF assms(3)]) (auto simp: unpause_def loan_setters)
next
  case (create p q a tok sb jb d m g j)
  have "i \<noteq> j" using create_loan_Ok [OF create(3)] loan_okD(3) [OF loan_at(2) [OF assms(2,3)]] by auto
  then show ?thesis
    using create_loan_Ok [OF create(3)] by (intro delta_self [OF assms(3)]) (auto simp: publish_def)
next
  case (mark_default j u)
  then obtain m where m: "Loans s j = Some m" "loan_status m = Active" "maturity m + grace_period m \<le> timestamp env"
    "Loans t = (Loans s)(loan_id m \<mapsto> m\<lparr>loan_status := Defaulted\<rparr>)"
    using mark_default_Ok by (fastforce simp: publish_def)
  show ?thesis by (rule delta_other [OF assms(2,3) m(1,4)]) (use m(2,3) in \<open>simp_all add: loan_terms_def loan_move_def\<close>)
next
  case (cancel a j u)
  then obtain m where m: "Loans s j = Some m" "loan_status m = Funding" "auth env a" "a = borrower m \<or> Admin s = Some a"
    "Loans t = (Loans s)(loan_id m \<mapsto> m\<lparr>loan_status := Cancelled\<rparr>)"
    using cancel_loan_Ok by (fastforce simp: publish_def)
  show ?thesis
    by (rule delta_other [OF assms(2,3) m(1,5)]) (use m(2-4) in \<open>auto simp: loan_terms_def loan_move_def get_admin_def\<close>)
next
  case (expire j u)
  then obtain m where m: "Loans s j = Some m" "loan_status m = Funding" "funding_deadline m \<le> timestamp env"
    "Loans t = (Loans s)(loan_id m \<mapsto> m\<lparr>loan_status := Cancelled\<rparr>)"
    using expire_loan_Ok by (fastforce simp: publish_def)
  show ?thesis by (rule delta_other [OF assms(2,3) m(1,4)]) (use m(2,3) in \<open>simp_all add: loan_terms_def loan_move_def\<close>)
qed

lemma loan_token_delta:
  assumes "loan_token tc env (w, s) (w', t)" "loan_inv s" "Loans s i = Some l"
  shows "loan_delta env s t i l"
  using assms(1)
proof cases
  case (fund x a j n u)
  obtain m tr where m: "Loans s j = Some m" "Loans t = (Loans s)(loan_id m \<mapsto>
      (case tr of Senior \<Rightarrow> m\<lparr>senior_funded := senior_funded m + x\<rparr> | Junior \<Rightarrow> m\<lparr>junior_funded := junior_funded m + x\<rparr>))"
    using loan_fund_Ok [OF fund(2)] by (auto simp: publish_def)
  show ?thesis by (rule delta_other [OF assms(2,3) m]) (simp_all add: loan_terms_def split: Tranche.splits)
next
  case (drawdown j u)
  obtain m where m: "Loans s j = Some m" "loan_status m = Funding" "auth env (borrower m)" "senior_funded m = senior_target m"
    "junior_funded m = junior_target m" "timestamp env < maturity m" "Loans t = (Loans s)(loan_id m \<mapsto> m\<lparr>loan_status := Active\<rparr>)"
    using drawdown_Ok [OF drawdown] by (auto simp: publish_def)
  show ?thesis by (rule delta_other [OF assms(2,3) m(1,7)]) (use m(2-6) in \<open>simp_all add: loan_terms_def loan_move_def\<close>)
next
  case (repay x a j y)
  obtain m d where m: "Loans s j = Some m" "loan_status m = Active" "total_due m = Ok d" "0 < y"
    "Loans t = (Loans s)(loan_id m \<mapsto> (if repaid m + y = d then m\<lparr>repaid := repaid m + y, loan_status := Repaid\<rparr>
        else m\<lparr>repaid := repaid m + y\<rparr>))"
    using repay_Ok [OF repay(2)] by (auto simp: publish_def simp del: min_less_iff_conj)
  show ?thesis by (rule delta_other [OF assms(2,3) m(1,5)]) (use m(2-4) in \<open>auto simp: loan_terms_def loan_move_def\<close>)
next
  case (refund a j n y)
  obtain m where m: "Loans s j = Some m" "0 < y" "Loans t = (Loans s)(loan_id m \<mapsto> m\<lparr>total_claimed := total_claimed m + y\<rparr>)"
    using claim_refund_Ok [OF refund] by (auto simp: publish_def)
  show ?thesis by (rule delta_other [OF assms(2,3) m(1,3)]) (use m(2) in \<open>simp_all add: loan_terms_def\<close>)
next
  case (claim a j n y)
  obtain m where m: "Loans s j = Some m" "0 < y" "Loans t = (Loans s)(loan_id m \<mapsto> m\<lparr>total_claimed := total_claimed m + y\<rparr>)"
    using claim_Ok [OF claim] by (auto simp: publish_def)
  show ?thesis by (rule delta_other [OF assms(2,3) m(1,3)]) (use m(2) in \<open>simp_all add: loan_terms_def\<close>)
qed

section \<open>Properties\<close>

text \<open>
  C20. Lenders' money is there: in every reachable state and for every token, the contract's balance
  covers what it holds for all loans in that token together, and what it holds for a loan covers what
  all its lenders together can still claim, although every share is rounded.
\<close>

theorem syndicate_solvent:
  assumes "(repo_loan_step self)\<^sup>*\<^sup>* (w0, empty_loans) (w, s)" "world_ok self w0"
  shows "holdings k s \<le> world_balance w k self \<and>
    (\<forall>i l. pub_get_loan i s = Ok l \<longrightarrow> 0 \<le> claimable i s l \<and> claimable i s l \<le> held l \<and> held l \<le> holdings (asset l) s)"
  using reachable_loans [OF assms] claimable_bounds(1,2) held_le_holdings by (auto simp: pub_get_loan_def)

theorem syndicate_solvent_witness:
  "holdings 40 demo_loans_repaid \<le> world_balance (rich_syndicate 4) 40 99 \<and>
    claimable 1 demo_loans_repaid demo_loan_repaid \<le> held demo_loan_repaid"
proof -
  have "pub_get_loan 1 demo_loans_repaid = Ok demo_loan_repaid" by (simp add: pub_get_loan_def get_loan_def demo_loan_states)
  then show ?thesis using syndicate_solvent [OF demo_loan_run(2) rich_ledger_ok, of 40] by blast
qed

text \<open>
  C21. A claim cannot be blocked: when a loan is repaid or defaulted and \<open>calculate_claim\<close> shows a lender
  a positive amount, the lender's claim succeeds, pays exactly that amount, and nothing is left to claim.
\<close>

theorem loan_claim_always_pays:
  assumes run: "(repo_loan_step self)\<^sup>*\<^sup>* (w0, empty_loans) (w, s)" "world_ok self w0"
    and l: "pub_get_loan i s = Ok l" "loan_status l = Repaid \<or> loan_status l = Defaulted"
    and x: "calculate_claim i a n s = Ok x" "0 < x"
    and env: "auth env a" "current_contract env = self" "a \<noteq> self"
  shows "\<exists>w' t. claim world_transfer env a i n (w, s) = Ok (x, w', t) \<and>
    world_balance w' (asset l) a = world_balance w (asset l) a + x \<and> calculate_claim i a n t = Ok 0"
proof -
  note r = reachable_loans [OF run]
  have L: "Loans s i = Some l" using l(1) by (simp add: pub_get_loan_def)
  obtain tr where tr: "parse_tranche n = Ok tr" "position_claim l (get_position s i a tr) = Ok x"
    using x(1) L by (auto simp: calculate_claim_def)
  let ?p = "get_position s i a tr"
  note b = claim_within_held [OF r(1) L l(2) tr(2) x(2)] and at = loan_at [OF r(1) L] and pf = position_fields [OF r(1), where i = i and a = a and tr = tr]
  have "x \<le> world_balance w (asset l) self"
    using b(1) held_le_holdings [OF r(1) L] r(3) [of "asset l"] by linarith
  then obtain w' where w': "world_transfer (asset l) (subcall_env env (asset l)) self a x w = Some w'"
    using world_transfer_succeeds [OF r(2) x(2)] env(2) by fastforce
  have "repaid l \<le> i128_max" using at(3) by (simp add: terms_ok_def)
  then have fit: "in_i128 (claimed ?p + x)" "in_i128 (total_claimed l + x)"
    using b(2-5) x(2) by (auto simp: in_i128_def i128_min_def)
  have ini: "Initialized s \<noteq> None" using loan_invD(6) [OF r(1)] L by (cases "Initialized s") auto
  let ?l = "l\<lparr>total_claimed := total_claimed l + x\<rparr>" and ?q = "?p\<lparr>claimed := claimed ?p + x\<rparr>"
  define t where "t = publish (Ev_claimed i a tr x) (s\<lparr>Locked := Some False, Loans := (Loans s)(i \<mapsto> ?l),
      Positions := (Positions s)((i, a, tr) \<mapsto> ?q)\<rparr>)"
  have "claim world_transfer env a i n (w, s) = Ok (x, w', t)"
    using ini env L l(2) tr x(2) fit w' loan_invD(3) [OF r(1)] at(1) pf
    by (auto simp: claim_def enter_def unwrap_or_def loan_setters t_def Let_def split: option.split)
  moreover have "get_position t i a tr = ?q" "Loans t i = Some ?l" by (simp_all add: t_def publish_def get_position_def)
  then have "calculate_claim i a n t = Ok 0"
    using tr position_claim_again [OF tr(2), of "total_claimed l + x"] x(2) by (simp add: calculate_claim_def)
  ultimately show ?thesis using repo_token.deposit_effect(1) [OF w'] env(3) by auto
qed

lemma demo_claimable: "calculate_claim 1 5 0 demo_loans_repaid = Ok 210000"
proof -
  have m: "mul_div_floor 200000 500 10000 = Ok (200000 * 500 div 10000)" "mul_div_floor 210000 200000 200000 = Ok (210000 * 200000 div 200000)"
    by (rule loan_division.floor_fits; simp add: loan_arith)+
  then show ?thesis
    by (simp add: calculate_claim_def position_claim_def tranche_allocation_def tranche_due_def BPS_DENOMINATOR_def demo_loan_eval
        demo_loan_states demo_loan_records loan_arith)
qed

theorem loan_claim_always_pays_witness:
  "\<exists>w' t. claim world_transfer (host_env 50) 5 1 0 (rich_syndicate 4, demo_loans_repaid) = Ok (210000, w', t) \<and>
    world_balance w' 40 5 = world_balance (rich_syndicate 4) 40 5 + 210000 \<and> calculate_claim 1 5 0 t = Ok 0"
proof -
  have l: "pub_get_loan 1 demo_loans_repaid = Ok demo_loan_repaid" "loan_status demo_loan_repaid = Repaid" "asset demo_loan_repaid = 40"
    by (simp_all add: pub_get_loan_def get_loan_def demo_loan_states demo_loan_records)
  show ?thesis
    using loan_claim_always_pays [OF demo_loan_run(2) rich_ledger_ok l(1) disjI1 [OF l(2)] demo_claimable, of "host_env 50"] l(3)
    by simp
qed

text \<open>
  C22. Senior lenders are paid first and a repaid loan makes everybody whole: the senior tranche gets
  what was repaid up to its amount due, the junior tranche gets what is left up to its own; when the
  loan is repaid both get all that is due, and every lender's payments and remaining claim together
  are at least the principal lent.
\<close>

theorem senior_tranche_first:
  assumes "(repo_loan_step self)\<^sup>*\<^sup>* (w0, empty_loans) (w, s)" "world_ok self w0"
    "pub_get_loan i s = Ok l" "tranche_summary i 0 s = Ok senior" "tranche_summary i 1 s = Ok junior"
  shows "settlement_allocation senior = min (repaid l) (amount_due senior) \<and>
    settlement_allocation junior = min (repaid l - settlement_allocation senior) (amount_due junior) \<and>
    (loan_status l = Repaid \<longrightarrow>
       settlement_allocation senior = amount_due senior \<and> settlement_allocation junior = amount_due junior \<and>
       (\<forall>a n p x. pub_get_position i a n s = Ok p \<and> calculate_claim i a n s = Ok x \<longrightarrow> tp_principal p \<le> claimed p + x))"
proof -
  have inv: "loan_inv s" by (rule reachable_loans(1) [OF assms(1,2)])
  have L: "Loans s i = Some l" using assms(3) by (simp add: pub_get_loan_def)
  note T = loan_at(3) [OF inv L] and ok = loan_at(2) [OF inv L]
  obtain ds as dj aj where h: "tranche_due (senior_target l) (senior_yield_bps l) = Ok ds" "tranche_allocation l Senior = Ok as"
      "tranche_due (junior_target l) (junior_yield_bps l) = Ok dj" "tranche_allocation l Junior = Ok aj"
    and s: "amount_due senior = ds" "settlement_allocation senior = as" "amount_due junior = dj" "settlement_allocation junior = aj"
    using assms(4,5) L by (auto simp: tranche_summary_def parse_tranche_def)
  have d: "ds = senior_due l" "dj = junior_due l" using terms_due(1,2) [OF T] h by blast+
  have a: "as = waterfall l Senior" "aj = waterfall l Junior" using allocation_Ok [OF h(2) T] allocation_Ok [OF h(4) T] by simp_all
  have nn: "0 \<le> repaid l" "0 < senior_due l" "0 < junior_due l" using T terms_due(3,4) [OF T] by (simp_all add: terms_ok_def)
  have first: "as = min (repaid l) ds \<and> aj = min (repaid l - as) dj" using a d nn by auto
  moreover have "as = ds \<and> aj = dj" if "loan_status l = Repaid"
    using first loan_okD(10) [OF ok that] d nn by auto
  moreover have "tp_principal p \<le> claimed p + x"
    if rep: "loan_status l = Repaid" and p: "pub_get_position i b n s = Ok p" "calculate_claim i b n s = Ok x" for b n p x
  proof -
    obtain tr where tr: "p = get_position s i b tr" "position_claim l p = Ok x"
      using p L by (auto simp: pub_get_position_def calculate_claim_def)
    have k: "tp_tranche p = tr" "0 \<le> tp_principal p" "0 \<le> claimed p" using tr(1) position_fields [OF inv, where i = i and a = b and tr = tr] by simp_all
    have f: "funded_of l tr = target_of l tr" "0 < target_of l tr" using loan_okD(9) [OF ok, of tr] target_pos [OF T, of tr] rep by simp_all
    have due: "target_of l tr \<le> waterfall l tr"
      using loan_okD(10) [OF ok rep] nn loan_due_nonneg [of "senior_target l" "senior_yield_bps l"]
        loan_due_nonneg [of "junior_target l" "junior_yield_bps l"] T
      by (cases tr) (auto simp: senior_due_def junior_due_def terms_ok_def)
    have "tp_principal p * funded_of l tr \<le> waterfall l tr * tp_principal p"
      using mult_right_mono [OF due k(2)] f(1) by (simp add: mult.commute)
    then have sh: "tp_principal p \<le> share l p" using f k(1) by (simp add: share_def le_div_iff_mult)
    show ?thesis
    proof (cases "tp_principal p = 0")
      case True
      then show ?thesis using tr(2) k(3) by (simp add: position_claim_def)
    next
      case False
      then show ?thesis using position_claim_exact [OF inv L] tr k f sh by fastforce
    qed
  qed
  ultimately show ?thesis unfolding s by blast
qed

lemma demo_summaries:
  "\<exists>senior junior. tranche_summary 1 0 demo_loans_repaid = Ok senior \<and> tranche_summary 1 1 demo_loans_repaid = Ok junior \<and>
     amount_due senior = 210000 \<and> amount_due junior = 110000"
proof -
  have m: "mul_div_floor 200000 500 10000 = Ok (200000 * 500 div 10000)" "mul_div_floor 100000 1000 10000 = Ok (100000 * 1000 div 10000)"
    by (rule loan_division.floor_fits; simp add: loan_arith)+
  then show ?thesis
    by (simp add: tranche_summary_def tranche_allocation_def tranche_due_def BPS_DENOMINATOR_def parse_tranche_def get_loan_def
        demo_loan_states demo_loan_records loan_arith)
qed

theorem senior_tranche_first_witness:
  "\<exists>senior junior. tranche_summary 1 0 demo_loans_repaid = Ok senior \<and> tranche_summary 1 1 demo_loans_repaid = Ok junior \<and>
     settlement_allocation senior = 210000 \<and> settlement_allocation junior = 110000"
proof -
  obtain senior junior where t: "tranche_summary 1 0 demo_loans_repaid = Ok senior" "tranche_summary 1 1 demo_loans_repaid = Ok junior"
    "amount_due senior = 210000" "amount_due junior = 110000" using demo_summaries by blast
  have l: "pub_get_loan 1 demo_loans_repaid = Ok demo_loan_repaid" "loan_status demo_loan_repaid = Repaid"
    by (simp_all add: pub_get_loan_def get_loan_def demo_loan_states demo_loan_records)
  have "settlement_allocation senior = amount_due senior \<and> settlement_allocation junior = amount_due junior"
    using senior_tranche_first [OF demo_loan_run(2) rich_ledger_ok l(1) t(1,2)] l(2) by blast
  then show ?thesis using t by (intro exI [of _ senior] exI [of _ junior]) simp
qed

text \<open>
  C23. A loan moves only along its life cycle and its terms never change: whatever call is made, an
  existing loan keeps borrower, asset, targets, yields and dates, its repayments and claims never
  shrink, and its status changes only from funding to active (by the borrower, fully funded, before
  maturity), from funding to cancelled (signed by the borrower or the admin, or after the funding
  deadline), from active to repaid (when all that is due has been repaid) or from active to defaulted
  (after maturity and the grace period).
\<close>

theorem loan_lifecycle:
  assumes "(repo_loan_step self)\<^sup>*\<^sup>* (w0, empty_loans) (w, s)" "world_ok self w0"
    "loan_book env s t \<or> loan_token world_transfer env (w, s) (w', t)" "pub_get_loan i s = Ok l"
  shows "\<exists>l'. pub_get_loan i t = Ok l' \<and> loan_terms l' = loan_terms l \<and> repaid l \<le> repaid l' \<and> total_claimed l \<le> total_claimed l' \<and>
    (loan_status l' = loan_status l \<or> loan_move env (get_admin s) l l')"
proof -
  have inv: "loan_inv s" by (rule reachable_loans(1) [OF assms(1,2)])
  have L: "Loans s i = Some l" using assms(4) by (simp add: pub_get_loan_def)
  show ?thesis
    using loan_book_delta [OF _ inv L] loan_token_delta [OF _ inv L] assms(3) by (auto simp: loan_delta_def pub_get_loan_def)
qed

theorem loan_lifecycle_witness:
  "\<exists>l'. pub_get_loan 1 demo_loans_repaid = Ok l' \<and> loan_terms l' = loan_terms demo_loan_active \<and>
    (loan_status l' = Active \<or> loan_move (host_env 40) (get_admin demo_loans_active) demo_loan_active l')"
proof -
  have l: "pub_get_loan 1 demo_loans_active = Ok demo_loan_active" "loan_status demo_loan_active = Active"
    by (simp_all add: pub_get_loan_def get_loan_def demo_loan_states demo_loan_records)
  have t: "loan_token world_transfer (host_env 40) (rich_syndicate 3, demo_loans_active) (rich_syndicate 4, demo_loans_repaid)"
    by (rule loan_token.repay [OF _ demo_loans_repay]) (simp add: loan_arith)
  show ?thesis using loan_lifecycle [OF demo_loan_run(1) rich_ledger_ok disjI2 [OF t] l(1)] l(2) by auto
qed

end
