(* ===== verification/Nft_Interface.thy ===== *)
theory Nft_Interface
  imports Soroban_Prelude
begin

text \<open>
  The interface of a contract for non-fungible tokens, as its clients call it (\<open>transfer_from\<close> and
  \<open>owner_of\<close>, over a world of such contracts). \<open>held n k i a\<close>: account \<open>a\<close> owns token \<open>i\<close> of contract \<open>k\<close> and
  has let nobody else move it; \<open>quiet a n\<close>: \<open>a\<close> has no standing operator; \<open>outside a\<close>: what the world may
  do without the signature of \<open>a\<close>. \<open>Erc721_Correct\<close> discharges the laws for the repository's own contract.
\<close>

type_synonym 'n nft_transfer = "address \<Rightarrow> env \<Rightarrow> address \<Rightarrow> address \<Rightarrow> address \<Rightarrow> nat \<Rightarrow> 'n \<Rightarrow> 'n option"
type_synonym 'n nft_owner = "address \<Rightarrow> nat \<Rightarrow> 'n \<Rightarrow> address option"

locale nft_registry =
  fixes nft_move :: "'n nft_transfer"
    and nft_owner :: "'n nft_owner"
    and held :: "'n \<Rightarrow> address \<Rightarrow> nat \<Rightarrow> address \<Rightarrow> bool"
    and quiet :: "address \<Rightarrow> 'n \<Rightarrow> bool"
    and outside :: "address \<Rightarrow> 'n \<Rightarrow> 'n \<Rightarrow> bool"
  assumes held_owner: "held n k i a \<Longrightarrow> nft_owner k i n = Some a"
    and move_held: "quiet b n \<Longrightarrow> nft_move k env c a b i n = Some n' \<Longrightarrow> held n' k i b"
    and move_frame: "held n k' j d \<Longrightarrow> (k', j) \<noteq> (k, i) \<Longrightarrow> nft_move k env c a b i n = Some n' \<Longrightarrow> held n' k' j d"
    and move_quiet: "quiet d n \<Longrightarrow> nft_move k env c a b i n = Some n' \<Longrightarrow> quiet d n'"
    and holder_moves: "held n k i a \<Longrightarrow> auth env a \<Longrightarrow> \<exists>n'. nft_move k env a a b i n = Some n'"
    and outside_held: "quiet a n \<Longrightarrow> held n k i a \<Longrightarrow> outside a n n' \<Longrightarrow> held n' k i a"
    and outside_quiet: "quiet a n \<Longrightarrow> outside a n n' \<Longrightarrow> quiet a n'"
begin

text \<open>What an account holds it keeps until it signs, and it can always hand it on.\<close>

lemma outside_run_held:
  assumes "(outside a)\<^sup>*\<^sup>* n n'" "quiet a n" "held n k i a"
  shows "quiet a n' \<and> held n' k i a"
  using assms by (induction rule: rtranclp_induct) (auto intro: outside_held outside_quiet)

lemma hand_on:
  assumes "quiet a n" "held n k i a" "(outside a)\<^sup>*\<^sup>* n n1" "auth env a" "quiet b n1"
  shows "\<exists>n2. nft_move k env a a b i n1 = Some n2 \<and> nft_owner k i n2 = Some b"
proof -
  have "held n1 k i a" using outside_run_held [OF assms(3,1,2)] by simp
  then obtain n2 where n2: "nft_move k env a a b i n1 = Some n2" using holder_moves assms(4) by blast
  then show ?thesis using held_owner [OF move_held [OF assms(5) n2]] by blast
qed

end

end
