(* ===== verification/Erc721.thy ===== *)
theory Erc721
  imports Soroban_Prelude
begin

text \<open>
  The non-fungible token of \<open>contracts/erc-721\<close> (\<open>src/lib.rs\<close>): ledger entries, and every entry point.
  All entries are in the contract's instance storage. \<open>safe_transfer_from\<close> asks for the caller's
  authorisation twice in one call, as the code does; here the second request has no effect.
\<close>

section \<open>Types and storage\<close>

datatype erc_error = Unauthorized | InvalidInput | NotFound | CapExceeded | TokenNotFound | NotApproved

record RoyaltyInfo =
  creator :: address
  bips :: nat

datatype erc_event =
    Ev_Transfer address address nat | Ev_Approval address address nat | Ev_ApprAll address address bool

record erc_state =
  ADMIN :: "address option"
  TOTAL_SUPPLY :: "nat option"
  ROYALTY :: "RoyaltyInfo option"
  Owner :: "nat \<rightharpoonup> address"
  Balance :: "address \<rightharpoonup> nat"
  Approved :: "nat \<rightharpoonup> address"
  ApprovedAll :: "address \<times> address \<rightharpoonup> bool"
  TokenUri :: "nat \<rightharpoonup> string"
  events :: "erc_event list"

definition empty_erc :: erc_state where
  "empty_erc = \<lparr>ADMIN = None, TOTAL_SUPPLY = None, ROYALTY = None, Owner = Map.empty, Balance = Map.empty,
     Approved = Map.empty, ApprovedAll = Map.empty, TokenUri = Map.empty, events = []\<rparr>"

definition MAX_URI_LEN :: nat where "MAX_URI_LEN = 512"

definition publish :: "erc_event \<Rightarrow> erc_state \<Rightarrow> erc_state" where
  "publish e s = s\<lparr>events := events s @ [e]\<rparr>"
definition get_admin :: "erc_state \<Rightarrow> (erc_error, address) outcome" where
  "get_admin s = ok_or Unauthorized (ADMIN s)"
definition set_admin :: "address \<Rightarrow> erc_state \<Rightarrow> erc_state" where
  "set_admin admin s = s\<lparr>ADMIN := Some admin\<rparr>"
definition ensure_initialized :: "erc_state \<Rightarrow> (erc_error, unit) outcome" where
  "ensure_initialized s = (if ADMIN s = None then Err NotFound else Ok ())"

section \<open>Reading\<close>

definition initialize :: "env \<Rightarrow> address \<Rightarrow> erc_state \<Rightarrow> (erc_error, unit \<times> erc_state) outcome" where
  "initialize env admin s =
     (if ADMIN s \<noteq> None then Err CapExceeded
      else and_then (require_auth env admin) (\<lambda>_. Ok ((), (set_admin admin s)\<lparr>TOTAL_SUPPLY := Some 0\<rparr>)))"

definition total_supply :: "erc_state \<Rightarrow> (erc_error, nat) outcome" where
  "total_supply s = and_then (ensure_initialized s) (\<lambda>_. Ok (unwrap_or 0 (TOTAL_SUPPLY s)))"

definition balance_of :: "address \<Rightarrow> erc_state \<Rightarrow> (erc_error, nat) outcome" where
  "balance_of who s = and_then (ensure_initialized s) (\<lambda>_. Ok (unwrap_or 0 (Balance s who)))"

definition owner_of :: "nat \<Rightarrow> erc_state \<Rightarrow> (erc_error, address) outcome" where
  "owner_of i s = and_then (ensure_initialized s) (\<lambda>_. ok_or TokenNotFound (Owner s i))"

section \<open>Transfer, mint and burn\<close>

definition transfer_from ::
    "env \<Rightarrow> address \<Rightarrow> address \<Rightarrow> address \<Rightarrow> nat \<Rightarrow> erc_state \<Rightarrow> (erc_error, unit \<times> erc_state) outcome" where
  "transfer_from env caller from to i s =
     and_then (ensure_initialized s) (\<lambda>_.
     and_then (require_auth env caller) (\<lambda>_.
     and_then (owner_of i s) (\<lambda>owner.
     if caller \<noteq> owner \<and> Approved s i \<noteq> Some caller \<and> \<not> unwrap_or False (ApprovedAll s (from, caller))
     then Err NotApproved
     else
       let s1 = s\<lparr>Approved := (Approved s)(i := None), Owner := (Owner s)(i \<mapsto> to)\<rparr>;
           from_balance = unwrap_or 0 (Balance s1 from);
           to_balance = unwrap_or 0 (Balance s1 to);
           s2 = s1\<lparr>Balance := (Balance s1)(from \<mapsto> u64_saturating_sub from_balance 1)\<rparr>;
           s3 = s2\<lparr>Balance := (Balance s2)(to \<mapsto> u64_saturating_add to_balance 1)\<rparr>
       in Ok ((), publish (Ev_Transfer from to i) s3))))"

definition safe_transfer_from ::
    "env \<Rightarrow> address \<Rightarrow> address \<Rightarrow> address \<Rightarrow> nat \<Rightarrow> erc_state \<Rightarrow> (erc_error, unit \<times> erc_state) outcome" where
  "safe_transfer_from env caller from to i s =
     and_then (ensure_initialized s) (\<lambda>_.
     and_then (require_auth env caller) (\<lambda>_. transfer_from env caller from to i s))"

definition mint :: "env \<Rightarrow> address \<Rightarrow> nat \<Rightarrow> erc_state \<Rightarrow> (erc_error, unit \<times> erc_state) outcome" where
  "mint env to i s =
     and_then (ensure_initialized s) (\<lambda>_.
     and_then (get_admin s) (\<lambda>admin.
     and_then (require_auth env admin) (\<lambda>_.
     if Owner s i \<noteq> None then Err CapExceeded
     else
       let s1 = s\<lparr>Owner := (Owner s)(i \<mapsto> to)\<rparr>;
           to_balance = unwrap_or 0 (Balance s1 to);
           s2 = s1\<lparr>Balance := (Balance s1)(to \<mapsto> u64_saturating_add to_balance 1)\<rparr>;
           total = unwrap_or 0 (TOTAL_SUPPLY s2);
           s3 = s2\<lparr>TOTAL_SUPPLY := Some (u64_saturating_add total 1)\<rparr>
       in Ok ((), publish (Ev_Transfer admin to i) s3))))"

definition burn :: "env \<Rightarrow> address \<Rightarrow> nat \<Rightarrow> erc_state \<Rightarrow> (erc_error, unit \<times> erc_state) outcome" where
  "burn env caller i s =
     and_then (ensure_initialized s) (\<lambda>_.
     and_then (require_auth env caller) (\<lambda>_.
     and_then (owner_of i s) (\<lambda>owner.
     if caller \<noteq> owner \<and> Approved s i \<noteq> Some caller then Err NotApproved
     else
       let s1 = s\<lparr>Owner := (Owner s)(i := None)\<rparr>;
           b = unwrap_or 0 (Balance s1 owner);
           s2 = s1\<lparr>Balance := (Balance s1)(owner \<mapsto> u64_saturating_sub b 1)\<rparr>;
           total = unwrap_or 0 (TOTAL_SUPPLY s2);
           s3 = s2\<lparr>TOTAL_SUPPLY := Some (u64_saturating_sub total 1)\<rparr>
       in Ok ((), publish (Ev_Transfer owner caller i) s3))))"

section \<open>Approvals and metadata\<close>

definition approve :: "env \<Rightarrow> address \<Rightarrow> address \<Rightarrow> nat \<Rightarrow> erc_state \<Rightarrow> (erc_error, unit \<times> erc_state) outcome" where
  "approve env caller to i s =
     and_then (ensure_initialized s) (\<lambda>_.
     and_then (require_auth env caller) (\<lambda>_.
     and_then (owner_of i s) (\<lambda>owner.
     if caller \<noteq> owner then Err Unauthorized
     else Ok ((), publish (Ev_Approval owner to i) (s\<lparr>Approved := (Approved s)(i \<mapsto> to)\<rparr>)))))"

definition get_approved :: "nat \<Rightarrow> erc_state \<Rightarrow> (erc_error, address option) outcome" where
  "get_approved i s = and_then (ensure_initialized s) (\<lambda>_. Ok (Approved s i))"

definition set_approval_for_all ::
    "env \<Rightarrow> address \<Rightarrow> address \<Rightarrow> bool \<Rightarrow> erc_state \<Rightarrow> (erc_error, unit \<times> erc_state) outcome" where
  "set_approval_for_all env caller operator approved s =
     and_then (ensure_initialized s) (\<lambda>_.
     and_then (require_auth env caller) (\<lambda>_.
     Ok ((), publish (Ev_ApprAll caller operator approved)
       (s\<lparr>ApprovedAll := (ApprovedAll s)((caller, operator) \<mapsto> approved)\<rparr>))))"

definition is_approved_for_all :: "address \<Rightarrow> address \<Rightarrow> erc_state \<Rightarrow> (erc_error, bool) outcome" where
  "is_approved_for_all who operator s =
     and_then (ensure_initialized s) (\<lambda>_. Ok (unwrap_or False (ApprovedAll s (who, operator))))"

definition token_uri :: "nat \<Rightarrow> erc_state \<Rightarrow> (erc_error, string) outcome" where
  "token_uri i s = and_then (ensure_initialized s) (\<lambda>_. Ok (unwrap_or '''' (TokenUri s i)))"

definition set_token_uri :: "env \<Rightarrow> address \<Rightarrow> nat \<Rightarrow> string \<Rightarrow> erc_state \<Rightarrow> (erc_error, unit \<times> erc_state) outcome" where
  "set_token_uri env caller i uri s =
     and_then (ensure_initialized s) (\<lambda>_.
     and_then (require_auth env caller) (\<lambda>_.
     and_then (owner_of i s) (\<lambda>_.
     and_then (get_admin s) (\<lambda>admin.
     and_then (owner_of i s) (\<lambda>owner.
     if caller \<noteq> admin \<and> caller \<noteq> owner then Err Unauthorized
     else if length uri > MAX_URI_LEN then Err InvalidInput
     else Ok ((), s\<lparr>TokenUri := (TokenUri s)(i \<mapsto> uri)\<rparr>))))))"

definition token_by_index :: "nat \<Rightarrow> erc_state \<Rightarrow> (erc_error, nat) outcome" where
  "token_by_index index s = and_then (ensure_initialized s) (\<lambda>_. Ok 0)"

definition token_of_owner_by_index :: "address \<Rightarrow> nat \<Rightarrow> erc_state \<Rightarrow> (erc_error, nat) outcome" where
  "token_of_owner_by_index who index s = and_then (ensure_initialized s) (\<lambda>_. Ok 0)"

definition set_royalty :: "env \<Rightarrow> address \<Rightarrow> nat \<Rightarrow> erc_state \<Rightarrow> (erc_error, unit \<times> erc_state) outcome" where
  "set_royalty env who share s =
     and_then (ensure_initialized s) (\<lambda>_.
     and_then (get_admin s) (\<lambda>admin.
     and_then (require_auth env admin) (\<lambda>_.
     if share > 10000 then Err InvalidInput
     else Ok ((), s\<lparr>ROYALTY := Some \<lparr>creator = who, bips = share\<rparr>\<rparr>))))"

definition get_royalty :: "erc_state \<Rightarrow> (erc_error, RoyaltyInfo option) outcome" where
  "get_royalty s = and_then (ensure_initialized s) (\<lambda>_. Ok (ROYALTY s))"

section \<open>Public histories\<close>

text \<open>
  One successful call. \<open>erc_fair\<close> are the calls that name the token's owner as the sender and another
  account as the receiver, which the code does not demand of a transfer. Token ids are below the
  largest \<open>u64\<close>, so that no counter can saturate.
\<close>

inductive erc_rest :: "env \<Rightarrow> erc_state \<Rightarrow> erc_state \<Rightarrow> bool" for env where
  initialize: "initialize env a s = Ok (u, t) \<Longrightarrow> erc_rest env s t"
| mint: "i < u64_max \<Longrightarrow> mint env a i s = Ok (u, t) \<Longrightarrow> erc_rest env s t"
| burn: "burn env a i s = Ok (u, t) \<Longrightarrow> erc_rest env s t"
| approve: "approve env a b i s = Ok (u, t) \<Longrightarrow> erc_rest env s t"
| approve_all: "set_approval_for_all env a b x s = Ok (u, t) \<Longrightarrow> erc_rest env s t"
| set_uri: "set_token_uri env a i x s = Ok (u, t) \<Longrightarrow> erc_rest env s t"
| set_royalty: "set_royalty env a x s = Ok (u, t) \<Longrightarrow> erc_rest env s t"

inductive erc_call :: "env \<Rightarrow> erc_state \<Rightarrow> erc_state \<Rightarrow> bool" for env where
  rest: "erc_rest env s t \<Longrightarrow> erc_call env s t"
| transfer: "transfer_from env a b c i s = Ok (u, t) \<Longrightarrow> erc_call env s t"
| safe_transfer: "safe_transfer_from env a b c i s = Ok (u, t) \<Longrightarrow> erc_call env s t"

inductive erc_fair :: "env \<Rightarrow> erc_state \<Rightarrow> erc_state \<Rightarrow> bool" for env where
  rest: "erc_rest env s t \<Longrightarrow> erc_fair env s t"
| transfer: "Owner s i = Some b \<Longrightarrow> b \<noteq> c \<Longrightarrow> transfer_from env a b c i s = Ok (u, t) \<Longrightarrow> erc_fair env s t"
| safe_transfer: "Owner s i = Some b \<Longrightarrow> b \<noteq> c \<Longrightarrow> safe_transfer_from env a b c i s = Ok (u, t) \<Longrightarrow> erc_fair env s t"

definition erc_fair_step :: "erc_state \<Rightarrow> erc_state \<Rightarrow> bool" where
  "erc_fair_step s t \<longleftrightarrow> (\<exists>env. erc_fair env s t)"

end
