(* ===== verification/Erc721_Correct.thy ===== *)
theory Erc721_Correct
  imports Nft_Interface Erc721
begin

text \<open>
  The non-fungible token: what each successful call did, the books along fair histories (owners,
  balances and supply agree), who can move a token, and the interpretation of \<open>nft_registry\<close> on it.
  The last section shows what an unfair transfer does.
\<close>

section \<open>Success of each operation\<close>

lemma erc_getters_Ok [simp]:
  "ensure_initialized s = Ok u \<longleftrightarrow> ADMIN s \<noteq> None"
  "owner_of i s = Ok a \<longleftrightarrow> ADMIN s \<noteq> None \<and> Owner s i = Some a"
  "get_admin s = Ok a \<longleftrightarrow> ADMIN s = Some a"
  by (auto simp: ensure_initialized_def owner_of_def get_admin_def)

text \<open>The entries after a transfer; \<open>tokens_of\<close> is \<open>balance_of\<close> as a number.\<close>

definition tokens_of :: "erc_state \<Rightarrow> address \<Rightarrow> nat" where
  "tokens_of s a = unwrap_or 0 (Balance s a)"

lemma erc_transfer_from_Ok:
  assumes "transfer_from env c a b i s = Ok (u, t)"
  shows "\<exists>d. ADMIN s \<noteq> None \<and> auth env c \<and> Owner s i = Some d \<and>
    (c = d \<or> Approved s i = Some c \<or> ApprovedAll s (a, c) = Some True) \<and>
    t = s\<lparr>Approved := (Approved s)(i := None), Owner := (Owner s)(i \<mapsto> b),
      Balance := (Balance s)(a \<mapsto> u64_saturating_sub (tokens_of s a) 1, b \<mapsto> u64_saturating_add (tokens_of s b) 1),
      events := events s @ [Ev_Transfer a b i]\<rparr>"
  using assms by (auto simp: transfer_from_def Let_def publish_def tokens_of_def unwrap_or_def split: if_splits option.splits)

lemma safe_transfer_from_Ok:
  "safe_transfer_from env c a b i s = Ok (u, t) \<Longrightarrow> transfer_from env c a b i s = Ok (u, t)"
  by (auto simp: safe_transfer_from_def)

lemma erc_mint_Ok:
  assumes "mint env a i s = Ok (u, t)"
  shows "\<exists>d. ADMIN s = Some d \<and> auth env d \<and> Owner s i = None \<and>
    t = s\<lparr>Owner := (Owner s)(i \<mapsto> a), Balance := (Balance s)(a \<mapsto> u64_saturating_add (tokens_of s a) 1),
      TOTAL_SUPPLY := Some (u64_saturating_add (unwrap_or 0 (TOTAL_SUPPLY s)) 1), events := events s @ [Ev_Transfer d a i]\<rparr>"
  using assms by (auto simp: mint_def Let_def publish_def tokens_of_def split: if_splits)

lemma erc_burn_Ok:
  assumes "burn env c i s = Ok (u, t)"
  shows "\<exists>d. ADMIN s \<noteq> None \<and> auth env c \<and> Owner s i = Some d \<and> (c = d \<or> Approved s i = Some c) \<and>
    t = s\<lparr>Owner := (Owner s)(i := None), Balance := (Balance s)(d \<mapsto> u64_saturating_sub (tokens_of s d) 1),
      TOTAL_SUPPLY := Some (u64_saturating_sub (unwrap_or 0 (TOTAL_SUPPLY s)) 1), events := events s @ [Ev_Transfer d c i]\<rparr>"
  using assms by (auto simp: burn_def Let_def publish_def tokens_of_def split: if_splits)

lemma erc_initialize_Ok:
  "initialize env a s = Ok (u, t) \<Longrightarrow> ADMIN s = None \<and> auth env a \<and> t = s\<lparr>ADMIN := Some a, TOTAL_SUPPLY := Some 0\<rparr>"
  by (auto simp: initialize_def set_admin_def split: if_splits)

lemma erc_approve_Ok:
  "approve env a b i s = Ok (u, t) \<Longrightarrow> ADMIN s \<noteq> None \<and> auth env a \<and> Owner s i = Some a \<and>
    t = s\<lparr>Approved := (Approved s)(i \<mapsto> b), events := events s @ [Ev_Approval a b i]\<rparr>"
  by (auto simp: approve_def publish_def split: if_splits)

lemma set_approval_for_all_Ok:
  "set_approval_for_all env a b x s = Ok (u, t) \<longleftrightarrow> ADMIN s \<noteq> None \<and> auth env a \<and>
    t = s\<lparr>ApprovedAll := (ApprovedAll s)((a, b) \<mapsto> x), events := events s @ [Ev_ApprAll a b x]\<rparr>"
  by (auto simp: set_approval_for_all_def publish_def)

lemma set_token_uri_Ok:
  "set_token_uri env a i x s = Ok (u, t) \<Longrightarrow> t = s\<lparr>TokenUri := (TokenUri s)(i \<mapsto> x)\<rparr>"
  by (auto simp: set_token_uri_def split: if_splits)

lemma set_royalty_Ok:
  "set_royalty env a x s = Ok (u, t) \<Longrightarrow> t = s\<lparr>ROYALTY := Some \<lparr>creator = a, bips = x\<rparr>\<rparr>"
  by (auto simp: set_royalty_def split: if_splits)

lemmas erc_calls_Ok = erc_initialize_Ok erc_approve_Ok set_token_uri_Ok set_royalty_Ok

section \<open>The books\<close>

text \<open>How many tokens an account owns.\<close>

definition owned :: "(nat \<rightharpoonup> address) \<Rightarrow> address \<Rightarrow> nat set" where
  "owned m a = {i. m i = Some a}"

lemma owned_sub: "owned m a \<subseteq> dom m"
  by (auto simp: owned_def)

lemma owned_finite: "finite (dom m) \<Longrightarrow> finite (owned m a)"
  using owned_sub finite_subset by blast

lemma card_owned_new:
  assumes "finite (dom m)" "m i = None"
  shows "card (owned (m(i \<mapsto> b)) a) = card (owned m a) + (if a = b then 1 else 0)"
proof -
  have "owned (m(i \<mapsto> b)) a = (if a = b then insert i (owned m a) else owned m a)"
    using assms(2) by (auto simp: owned_def)
  then show ?thesis using owned_finite [OF assms(1)] assms(2) by (simp add: owned_def)
qed

lemma card_owned_del:
  assumes "finite (dom m)" "m i = Some b"
  shows "card (owned (m(i := None)) a) + (if a = b then 1 else 0) = card (owned m a)"
  using card_owned_new [of "m(i := None)" i b a] assms by (simp add: fun_upd_idem)

lemma card_owned_move:
  assumes "finite (dom m)" "m i = Some b"
  shows "card (owned (m(i \<mapsto> c)) a) + (if a = b then 1 else 0) = card (owned m a) + (if a = c then 1 else 0)"
  using card_owned_new [of "m(i := None)" i c a] card_owned_del [OF assms, of a] assms(1) by simp

definition erc_inv :: "erc_state \<Rightarrow> bool" where
  "erc_inv s \<longleftrightarrow> finite (dom (Owner s)) \<and> dom (Owner s) \<subseteq> {..<u64_max} \<and>
     (\<forall>a. tokens_of s a = card (owned (Owner s) a)) \<and> unwrap_or 0 (TOTAL_SUPPLY s) = card (dom (Owner s)) \<and>
     (ADMIN s = None \<longrightarrow> Owner s = Map.empty)"

lemma card_tokens:
  assumes "finite (dom m)" "dom m \<subseteq> {..<u64_max}"
  shows "card (dom m) \<le> u64_max" "card (owned m a) \<le> card (dom m)"
proof -
  show "card (dom m) \<le> u64_max" using card_mono [OF finite_lessThan assms(2)] by simp
  show "card (owned m a) \<le> card (dom m)" by (rule card_mono [OF assms(1) owned_sub])
qed

lemma erc_inv_mint:
  assumes "erc_inv s" "mint env a i s = Ok (u, t)" "i < u64_max"
  shows "erc_inv t"
proof -
  obtain d where m: "ADMIN s = Some d" "Owner s i = None" and t: "t = s\<lparr>Owner := (Owner s)(i \<mapsto> a),
      Balance := (Balance s)(a \<mapsto> u64_saturating_add (tokens_of s a) 1),
      TOTAL_SUPPLY := Some (u64_saturating_add (unwrap_or 0 (TOTAL_SUPPLY s)) 1), events := events s @ [Ev_Transfer d a i]\<rparr>"
    using erc_mint_Ok [OF assms(2)] by blast
  note inv = assms(1) [unfolded erc_inv_def]
  let ?m = "(Owner s)(i \<mapsto> a)"
  have fin: "finite (dom ?m)" "dom ?m \<subseteq> {..<u64_max}" using inv assms(3) by auto
  have c: "card (dom ?m) = Suc (card (dom (Owner s)))" using inv m(2) by (simp add: domIff)
  note le = card_tokens [OF fin, unfolded c]
  have own: "card (owned ?m b) = tokens_of s b + (if b = a then 1 else 0)" for b
    using card_owned_new [of "Owner s" i a b] inv m(2) by simp
  have "tokens_of s a + 1 \<le> u64_max" using le(1) le(2) [of a] own [of a] by simp
  then have "tokens_of t b = card (owned ?m b)" for b
    using own [of b] by (simp add: tokens_of_def t u64_saturating_add_def min_def)
  moreover have "unwrap_or 0 (TOTAL_SUPPLY t) = card (dom ?m)"
    using inv le(1) c by (simp add: t u64_saturating_add_def min_def)
  ultimately show ?thesis using fin m(1) by (simp add: erc_inv_def t)
qed

lemma erc_inv_burn:
  assumes "erc_inv s" "burn env c i s = Ok (u, t)"
  shows "erc_inv t"
proof -
  obtain d where m: "ADMIN s \<noteq> None" "Owner s i = Some d" and t: "t = s\<lparr>Owner := (Owner s)(i := None),
      Balance := (Balance s)(d \<mapsto> u64_saturating_sub (tokens_of s d) 1),
      TOTAL_SUPPLY := Some (u64_saturating_sub (unwrap_or 0 (TOTAL_SUPPLY s)) 1), events := events s @ [Ev_Transfer d c i]\<rparr>"
    using erc_burn_Ok [OF assms(2)] by blast
  note inv = assms(1) [unfolded erc_inv_def]
  let ?m = "(Owner s)(i := None)"
  have own: "card (owned ?m b) + (if b = d then 1 else 0) = tokens_of s b" for b
    using card_owned_del [of "Owner s" i d b] inv m(2) by simp
  have "tokens_of t b = card (owned ?m b)" for b
    using own [of b] by (auto simp: tokens_of_def t u64_saturating_sub_def split: if_splits)
  moreover have "i \<in> dom (Owner s)" using m(2) by blast
  then have "card (dom (Owner s)) = Suc (card (dom ?m))" using inv card.remove [of "dom (Owner s)" i] by simp
  then have "unwrap_or 0 (TOTAL_SUPPLY t) = card (dom ?m)" using inv by (simp add: t u64_saturating_sub_def)
  ultimately show ?thesis using inv m(1) by (auto simp: erc_inv_def t)
qed

lemma erc_inv_transfer:
  assumes "erc_inv s" "transfer_from env c a b i s = Ok (u, t)" "Owner s i = Some a" "a \<noteq> b"
  shows "erc_inv t"
proof -
  have m: "ADMIN s \<noteq> None" and t: "t = s\<lparr>Approved := (Approved s)(i := None), Owner := (Owner s)(i \<mapsto> b),
      Balance := (Balance s)(a \<mapsto> u64_saturating_sub (tokens_of s a) 1, b \<mapsto> u64_saturating_add (tokens_of s b) 1),
      events := events s @ [Ev_Transfer a b i]\<rparr>"
    using erc_transfer_from_Ok [OF assms(2)] by auto
  note inv = assms(1) [unfolded erc_inv_def]
  let ?m = "(Owner s)(i \<mapsto> b)"
  have d: "dom ?m = dom (Owner s)" using assms(3) by auto
  then have fin: "finite (dom ?m)" "dom ?m \<subseteq> {..<u64_max}" using inv by simp_all
  have own: "card (owned ?m e) + (if e = a then 1 else 0) = tokens_of s e + (if e = b then 1 else 0)" for e
    using card_owned_move [of "Owner s" i a b e] inv assms(3) by simp
  have "tokens_of s b + 1 \<le> u64_max" using card_tokens(1) [OF fin] card_tokens(2) [OF fin, of b] own [of b] assms(4) by simp
  then have "tokens_of t e = card (owned ?m e)" for e
    using own [of e] assms(4) by (auto simp: tokens_of_def t u64_saturating_add_def min_def u64_saturating_sub_def split: if_splits)
  then show ?thesis using inv m fin d by (simp add: erc_inv_def t)
qed

lemma erc_inv_rest: "erc_rest env s t \<Longrightarrow> erc_inv s \<Longrightarrow> erc_inv t"
proof (induction rule: erc_rest.induct)
  case (mint i a s u t)
  then show ?case using erc_inv_mint by blast
next
  case (burn a i s u t)
  then show ?case using erc_inv_burn by blast
qed (force simp: erc_inv_def tokens_of_def set_approval_for_all_Ok dest!: erc_calls_Ok)+

lemma erc_inv_fair: "erc_fair env s t \<Longrightarrow> erc_inv s \<Longrightarrow> erc_inv t"
  by (induction rule: erc_fair.induct) (auto intro: erc_inv_rest erc_inv_transfer dest!: safe_transfer_from_Ok)

interpretation erc: contract_machine empty_erc erc_fair_step erc_inv
proof unfold_locales
  show "erc_inv empty_erc" by (simp add: erc_inv_def empty_erc_def tokens_of_def owned_def)
qed (auto simp: erc_fair_step_def intro: erc_inv_fair)


section \<open>Who moves a token\<close>

text \<open>Nobody but the owner, the token's approved account and the owner's operators can move it in a fair call.\<close>

definition may_move :: "erc_state \<Rightarrow> nat \<Rightarrow> address \<Rightarrow> bool" where
  "may_move s i c \<longleftrightarrow> Owner s i = Some c \<or> Approved s i = Some c \<or> (\<exists>a. Owner s i = Some a \<and> ApprovedAll s (a, c) = Some True)"

lemma erc_rest_moves:
  assumes "erc_rest env s t" "Owner s i = Some a"
  shows "(Owner t i = Some a \<and> (Approved t i = Approved s i \<or> auth env a)) \<or> (\<exists>c. auth env c \<and> may_move s i c)"
  using assms
proof (induction rule: erc_rest.induct)
  case (mint j b s u t)
  then show ?case using erc_mint_Ok [OF mint(2)] by auto
next
  case (burn b j s u t)
  obtain d where d: "auth env b" "Owner s j = Some d" "b = d \<or> Approved s j = Some b" "Owner t = (Owner s)(j := None)" "Approved t = Approved s"
    using erc_burn_Ok [OF burn(1)] by auto
  then show ?case using burn.prems by (cases "i = j") (auto simp: may_move_def)
qed (auto simp: may_move_def set_approval_for_all_Ok dest!: erc_calls_Ok split: if_splits)

lemma erc_fair_moves:
  assumes "erc_fair env s t" "Owner s i = Some a"
  shows "(Owner t i = Some a \<and> (Approved t i = Approved s i \<or> auth env a)) \<or> (\<exists>c. auth env c \<and> may_move s i c)"
proof -
  have tr: ?thesis if c: "transfer_from env c b e j s = Ok (u, t)" "Owner s j = Some b" for c b e j u
  proof (cases "i = j")
    case True
    then show ?thesis using erc_transfer_from_Ok [OF c(1)] c(2) assms(2) by (auto simp: may_move_def)
  next
    case False
    then have "Owner t i = Owner s i" "Approved t i = Approved s i" using erc_transfer_from_Ok [OF c(1)] by auto
    then show ?thesis using assms(2) by simp
  qed
  show ?thesis
    using assms(1)
  proof cases
    case rest
    then show ?thesis using erc_rest_moves [OF _ assms(2)] by blast
  next
    case (transfer j b e c u)
    then show ?thesis using tr by blast
  next
    case (safe_transfer j b e c u)
    then show ?thesis using tr safe_transfer_from_Ok by blast
  qed
qed

lemma erc_fair_operators:
  assumes "erc_fair env s t" "\<not> auth env a" shows "ApprovedAll t (a, c) = ApprovedAll s (a, c)"
proof -
  have tr: "ApprovedAll t (a, c) = ApprovedAll s (a, c)" if "transfer_from env b d e j s = Ok (u, t)" for b d e j u
    using erc_transfer_from_Ok [OF that] by auto
  show ?thesis
    using assms(1)
  proof cases
    case rest
    then show ?thesis
      using assms(2)
      by (induction rule: erc_rest.induct) (auto simp: set_approval_for_all_Ok dest!: erc_calls_Ok erc_mint_Ok erc_burn_Ok)
  qed (use tr safe_transfer_from_Ok in blast)+
qed

lemma fair_keeps_admin: "erc_fair env s t \<Longrightarrow> ADMIN s \<noteq> None \<Longrightarrow> ADMIN t \<noteq> None"
  by (induction rule: erc_fair.induct)
    (auto simp: set_approval_for_all_Ok elim!: erc_rest.cases dest!: erc_calls_Ok erc_mint_Ok erc_burn_Ok erc_transfer_from_Ok safe_transfer_from_Ok)

section \<open>A world of token contracts\<close>

type_synonym nft_world = "address \<Rightarrow> erc_state"

definition nft_world_move :: "nft_world nft_transfer" where
  "nft_world_move k env c a b i n =
     (case transfer_from env c a b i (n k) of Ok (_, t) \<Rightarrow> Some (n(k := t)) | Err _ \<Rightarrow> None | Trap _ \<Rightarrow> None)"

definition nft_world_owner :: "nft_world nft_owner" where
  "nft_world_owner k i n = (case owner_of i (n k) of Ok a \<Rightarrow> Some a | Err _ \<Rightarrow> None | Trap _ \<Rightarrow> None)"

definition nft_held :: "nft_world \<Rightarrow> address \<Rightarrow> nat \<Rightarrow> address \<Rightarrow> bool" where
  "nft_held n k i a \<longleftrightarrow> ADMIN (n k) \<noteq> None \<and> Owner (n k) i = Some a \<and> Approved (n k) i = None"

definition nft_quiet :: "address \<Rightarrow> nft_world \<Rightarrow> bool" where
  "nft_quiet a n \<longleftrightarrow> (\<forall>k c. ApprovedAll (n k) (a, c) \<noteq> Some True)"

text \<open>The rest of the world plays fair: it names the owner of a token when it transfers it.\<close>

definition nft_outside :: "address \<Rightarrow> nft_world \<Rightarrow> nft_world \<Rightarrow> bool" where
  "nft_outside a n n' \<longleftrightarrow> (\<exists>k env t. erc_fair env (n k) t \<and> \<not> auth env a \<and> n' = n(k := t))"

lemma nft_world_move_Some:
  "nft_world_move k env c a b i n = Some n' \<longleftrightarrow> (\<exists>t. transfer_from env c a b i (n k) = Ok ((), t) \<and> n' = n(k := t))"
  by (auto simp: nft_world_move_def split: outcome.splits)

lemma nft_world_owner_Some: "nft_world_owner k i n = Some a \<longleftrightarrow> owner_of i (n k) = Ok a"
  by (cases "owner_of i (n k)") (simp_all add: nft_world_owner_def del: erc_getters_Ok)

lemma owner_transfer_succeeds:
  assumes "ADMIN s \<noteq> None" "Owner s i = Some a" "auth env a"
  shows "\<exists>t. transfer_from env a a b i s = Ok ((), t)"
  using assms by (auto simp: transfer_from_def Let_def ensure_initialized_def owner_of_def require_auth_def)

lemma held_outside:
  assumes "nft_quiet a n" "nft_held n k i a" "nft_outside a n n'"
  shows "nft_held n' k i a"
proof -
  obtain j env t where s: "erc_fair env (n j) t" "\<not> auth env a" "n' = n(j := t)" using assms(3) by (auto simp: nft_outside_def)
  show ?thesis
  proof (cases "j = k")
    case True
    then have "\<not> may_move (n k) i c" if "auth env c" for c
      using assms(1,2) s(2) that by (auto simp: may_move_def nft_held_def nft_quiet_def)
    then show ?thesis
      using erc_fair_moves [OF s(1), of i a] fair_keeps_admin [OF s(1)] assms(2) s(2,3) True by (auto simp: nft_held_def)
  qed (use assms(2) s(3) in \<open>auto simp: nft_held_def\<close>)
qed

interpretation repo_nft: nft_registry nft_world_move nft_world_owner nft_held nft_quiet nft_outside
proof unfold_locales
  fix n n' :: nft_world and k k' a b c d :: address and i j :: nat and env
  show "nft_held n k i a \<Longrightarrow> nft_world_owner k i n = Some a" by (simp add: nft_held_def nft_world_owner_Some)
  show "nft_held n' k i b" if "nft_quiet b n" "nft_world_move k env c a b i n = Some n'"
    using that by (auto simp: nft_held_def nft_world_move_Some dest!: erc_transfer_from_Ok)
  show "nft_held n' k' j d" if "nft_held n k' j d" "(k', j) \<noteq> (k, i)" "nft_world_move k env c a b i n = Some n'"
    using that by (auto simp: nft_held_def nft_world_move_Some dest!: erc_transfer_from_Ok)
  show "nft_quiet d n'" if "nft_quiet d n" "nft_world_move k env c a b i n = Some n'"
    using that by (auto simp: nft_quiet_def nft_world_move_Some split: if_split_asm dest!: erc_transfer_from_Ok)
  show "\<exists>n'. nft_world_move k env a a b i n = Some n'" if "nft_held n k i a" "auth env a"
    using owner_transfer_succeeds [of "n k" i a env b] that by (auto simp: nft_held_def nft_world_move_Some)
  show "nft_held n' k i a" if "nft_quiet a n" "nft_held n k i a" "nft_outside a n n'" using held_outside [OF that] .
  show "nft_quiet a n'" if "nft_quiet a n" "nft_outside a n n'"
    using that erc_fair_operators by (fastforce simp: nft_quiet_def nft_outside_def split: if_split_asm)
qed

section \<open>What an unfair transfer does\<close>

text \<open>A transfer to oneself adds a token to the balance that does not exist.\<close>

lemma erc_self_transfer_inflates:
  assumes "erc_inv s" "owner_of i s = Ok a" "auth env a" "card (owned (Owner s) a) < u64_max"
  shows "\<exists>t. transfer_from env a a a i s = Ok ((), t) \<and> balance_of a t = Ok (Suc (card (owned (Owner t) a)))"
proof -
  obtain t where t: "transfer_from env a a a i s = Ok ((), t)"
    using owner_transfer_succeeds [of s i a env a] assms(2,3) by auto
  have "tokens_of s a = card (owned (Owner s) a)" using assms(1) by (simp add: erc_inv_def)
  moreover have "Owner t = Owner s" using erc_transfer_from_Ok [OF t] assms(2) by auto
  ultimately have "balance_of a t = Ok (Suc (card (owned (Owner t) a)))"
    using erc_transfer_from_Ok [OF t] assms(4)
    by (auto simp: balance_of_def tokens_of_def u64_saturating_add_def min_def ensure_initialized_def)
  then show ?thesis using t by blast
qed

text \<open>A burn leaves the token's approval: whoever held it can take the token when it is minted again.\<close>

lemma erc_approval_survives_burn:
  assumes "Approved s i = Some c" "burn env a i s = Ok (u, t)" "mint env2 b i t = Ok (v, t2)" "auth env3 c"
  shows "\<exists>t3. transfer_from env3 c b c i t2 = Ok ((), t3) \<and> owner_of i t3 = Ok c"
proof -
  have "Approved t2 i = Some c" "ADMIN t2 \<noteq> None" "Owner t2 i = Some b"
    using erc_burn_Ok [OF assms(2)] erc_mint_Ok [OF assms(3)] assms(1) by auto
  then show ?thesis
    using assms(4)
    by (auto simp: transfer_from_def Let_def ensure_initialized_def owner_of_def require_auth_def publish_def)
qed

section \<open>Properties\<close>

text \<open>
  C30. The books of the token agree along every history of fair calls: \<open>balance_of\<close> is the number of tokens
  an account owns, and \<open>total_supply\<close> the number of tokens with an owner.
\<close>

theorem erc_books_agree:
  assumes "erc_fair_step\<^sup>*\<^sup>* empty_erc s" "balance_of a s = Ok n" "total_supply s = Ok m"
  shows "n = card {i. owner_of i s = Ok a} \<and> m = card {i. \<exists>b. owner_of i s = Ok b} \<and> n \<le> m"
proof -
  have inv: "erc_inv s" and ad: "ADMIN s \<noteq> None"
    using erc.reachable_Inv [OF assms(1)] assms(2) by (auto simp: balance_of_def)
  have "{i. owner_of i s = Ok a} = owned (Owner s) a" "{i. \<exists>b. owner_of i s = Ok b} = dom (Owner s)"
    using ad by (auto simp: owned_def)
  moreover have "n = card (owned (Owner s) a)" "m = card (dom (Owner s))"
    using inv assms(2,3) by (auto simp: erc_inv_def balance_of_def total_supply_def tokens_of_def)
  moreover have "card (owned (Owner s) a) \<le> card (dom (Owner s))" using card_tokens(2) inv by (simp add: erc_inv_def)
  ultimately show ?thesis by simp
qed

text \<open>The history of the witnesses: the admin 1 mints tokens 7 and 8 to account 5, who sends 7 to account 6.\<close>

definition demo_erc :: erc_state where
  "demo_erc = empty_erc\<lparr>ADMIN := Some 1, TOTAL_SUPPLY := Some 2, Owner := [7 \<mapsto> 5, 8 \<mapsto> 5], Balance := [5 \<mapsto> 2],
     events := [Ev_Transfer 1 5 7, Ev_Transfer 1 5 8]\<rparr>"

definition demo_erc_sent :: erc_state where
  "demo_erc_sent = demo_erc\<lparr>Owner := [7 \<mapsto> 6, 8 \<mapsto> 5], Balance := [5 \<mapsto> 1, 6 \<mapsto> 1],
     events := [Ev_Transfer 1 5 7, Ev_Transfer 1 5 8, Ev_Transfer 5 6 7]\<rparr>"

lemmas demo_erc_eval = initialize_def mint_def transfer_from_def owner_of_def Let_def publish_def set_admin_def empty_erc_def
  ensure_initialized_def get_admin_def require_auth_def demo_env_def u64_saturating_add_def min_def u64_saturating_sub_def u64_max_def

lemma demo_erc_mints:
  "\<exists>s1 s2. initialize (demo_env 1) 1 empty_erc = Ok ((), s1) \<and> mint (demo_env 1) 5 7 s1 = Ok ((), s2) \<and>
     mint (demo_env 1) 5 8 s2 = Ok ((), demo_erc)"
  by (simp add: demo_erc_eval demo_erc_def numeral_2_eq_2)

lemma demo_erc_send: "transfer_from (demo_env 2) 5 5 6 7 demo_erc = Ok ((), demo_erc_sent)"
  by (simp add: demo_erc_eval demo_erc_def demo_erc_sent_def fun_upd_twist)

lemma demo_erc_fair: "erc_fair (demo_env 2) demo_erc demo_erc_sent"
  by (rule erc_fair.transfer [OF _ _ demo_erc_send]) (simp_all add: demo_erc_def)

lemma demo_erc_run: "erc_fair_step\<^sup>*\<^sup>* empty_erc demo_erc" "erc_fair_step\<^sup>*\<^sup>* empty_erc demo_erc_sent"
proof -
  obtain s1 s2 where m: "initialize (demo_env 1) 1 empty_erc = Ok ((), s1)" "mint (demo_env 1) 5 7 s1 = Ok ((), s2)"
    "mint (demo_env 1) 5 8 s2 = Ok ((), demo_erc)" using demo_erc_mints by blast
  have f: "erc_fair_step s t" if "erc_rest (demo_env 1) s t" for s t using that by (auto simp: erc_fair_step_def intro: erc_fair.rest)
  have "erc_fair_step empty_erc s1" "erc_fair_step s1 s2" "erc_fair_step s2 demo_erc"
    by (rule f, rule erc_rest.initialize, rule m(1))
      (rule f, rule erc_rest.mint [OF _ m(2)], simp add: u64_max_def, rule f, rule erc_rest.mint [OF _ m(3)], simp add: u64_max_def)
  then show "erc_fair_step\<^sup>*\<^sup>* empty_erc demo_erc" by (meson rtranclp.rtrancl_refl rtranclp.rtrancl_into_rtrancl)
  then show "erc_fair_step\<^sup>*\<^sup>* empty_erc demo_erc_sent"
    by (rule rtranclp.rtrancl_into_rtrancl) (use demo_erc_fair in \<open>auto simp: erc_fair_step_def\<close>)
qed

theorem erc_books_agree_witness:
  "balance_of 5 demo_erc_sent = Ok 1 \<and> 1 = card {i. owner_of i demo_erc_sent = Ok 5}"
proof -
  have "balance_of 5 demo_erc_sent = Ok 1" "total_supply demo_erc_sent = Ok 2"
    by (simp_all add: balance_of_def total_supply_def demo_erc_sent_def demo_erc_def ensure_initialized_def empty_erc_def)
  then show ?thesis using erc_books_agree [OF demo_erc_run(2)] by blast
qed

text \<open>
  A fair call never takes a token from its owner without consent: when the owner of a token changes,
  the owner, the token's approved account or one of the owner's operators signed the call.
\<close>

theorem erc_owner_consents:
  assumes "erc_fair env s t" "owner_of i s = Ok a" "owner_of i t \<noteq> Ok a"
  shows "\<exists>c. auth env c \<and> (c = a \<or> get_approved i s = Ok (Some c) \<or> is_approved_for_all a c s = Ok True)"
proof -
  have "ADMIN s \<noteq> None" "Owner s i = Some a" "Owner t i \<noteq> Some a" using assms fair_keeps_admin [OF assms(1)] by auto
  then obtain c where "auth env c" "may_move s i c" using erc_fair_moves [OF assms(1)] by blast
  then show ?thesis
    using \<open>ADMIN s \<noteq> None\<close> \<open>Owner s i = Some a\<close>
    by (auto simp: may_move_def get_approved_def is_approved_for_all_def)
qed

theorem erc_owner_consents_witness:
  "\<exists>c. auth (demo_env 2) c \<and> (c = 5 \<or> get_approved 7 demo_erc = Ok (Some c) \<or> is_approved_for_all 5 c demo_erc = Ok True)"
  by (rule erc_owner_consents [OF demo_erc_fair]) (simp_all add: demo_erc_sent_def demo_erc_def empty_erc_def)

text \<open>
  Without fairness nothing is safe: \<open>transfer_from\<close> looks up the operator's approval under the sender the
  caller names, not under the owner, so whoever makes itself its own operator can take any token.
\<close>

theorem erc_any_token_can_be_taken:
  assumes "owner_of i s = Ok a" "auth env thief"
  shows "\<exists>t t'. set_approval_for_all env thief thief True s = Ok ((), t) \<and>
    transfer_from env thief thief thief i t = Ok ((), t') \<and> owner_of i t' = Ok thief"
  using assms
  by (auto simp: set_approval_for_all_Ok transfer_from_def Let_def ensure_initialized_def owner_of_def require_auth_def publish_def)

theorem erc_any_token_can_be_taken_witness:
  "\<exists>t t'. set_approval_for_all (demo_env 3) 13 13 True demo_erc = Ok ((), t) \<and>
    transfer_from (demo_env 3) 13 13 13 7 t = Ok ((), t') \<and> owner_of 7 t' = Ok 13"
  by (rule erc_any_token_can_be_taken [of 7 demo_erc 5]) (simp_all add: demo_erc_def demo_env_def empty_erc_def)

end
