(* ===== verification/Nft_Fractional.thy ===== *)
theory Nft_Fractional
  imports Nft_Interface
begin

text \<open>
  The custody vault of \<open>contracts/nft-fractional\<close> (\<open>src/lib.rs\<close>): it locks a token of an NFT contract, issues
  fractions of it, auctions it off to whoever pays most and pays the fractions out of the winning bid.
  Two other contracts are parameters: the payment token's \<open>transfer\<close> (\<open>tc\<close>), and the NFT contract's
  \<open>transfer_from\<close> and \<open>owner_of\<close> (\<open>nt\<close>, \<open>no\<close>).
\<close>

section \<open>Types and storage\<close>

datatype frac_error =
    AlreadyInitialized | NotInitialized | InvalidAmount | InvalidConfig | InsufficientBalance | InsufficientAllowance
  | AllowanceExpired | AuctionActive | AuctionNotActive | AuctionEnded | AuctionNotEnded | BidTooLow | NotSettled
  | NothingToClaim | ArithmeticOverflow | CustodyFailed

datatype VaultStatus = Fractionalized | Auction | Settled

record InitConfig =
  cfg_nft_contract :: address
  cfg_nft_id :: nat
  cfg_payment_token :: address
  cfg_total_supply :: int
  cfg_name :: string
  cfg_symbol :: string
  cfg_reserve_price :: int
  cfg_auction_duration :: nat
  cfg_min_increment_bps :: nat

record VaultInfo =
  curator :: address
  nft_contract :: address
  nft_id :: nat
  payment_token :: address
  reserve_price :: int
  auction_duration :: nat
  min_increment_bps :: nat
  vault_status :: VaultStatus

record AuctionInfo =
  bidder :: address
  high_bid :: int
  end_time :: nat

record Allowance =
  allowed :: int
  expiration_ledger :: nat

datatype frac_event =
    Ev_fraction address address nat int | Ev_approve address address int nat | Ev_auc_start address int nat
  | Ev_bid address int | Ev_settled address int | Ev_claim address int int | Ev_transfer address address int

record frac_state =
  Curator :: "address option"
  NftContract :: "address option"
  NftId :: "nat option"
  PaymentToken :: "address option"
  ReservePrice :: "int option"
  AuctionDuration :: "nat option"
  MinIncrementBps :: "nat option"
  Status :: "VaultStatus option"
  TokenName :: "string option"
  TokenSymbol :: "string option"
  Supply :: "int option"
  AuctionKey :: "AuctionInfo option"
  Proceeds :: "int option"
  Balances :: "address \<rightharpoonup> int"
  Allowances :: "address \<times> address \<rightharpoonup> Allowance"
  events :: "frac_event list"

definition empty_frac :: frac_state where
  "empty_frac = \<lparr>Curator = None, NftContract = None, NftId = None, PaymentToken = None, ReservePrice = None,
     AuctionDuration = None, MinIncrementBps = None, Status = None, TokenName = None, TokenSymbol = None, Supply = None,
     AuctionKey = None, Proceeds = None, Balances = Map.empty, Allowances = Map.empty, events = []\<rparr>"

definition MAX_BPS :: nat where "MAX_BPS = 10000"
definition MAX_METADATA_LEN :: nat where "MAX_METADATA_LEN = 64"

definition publish :: "frac_event \<Rightarrow> frac_state \<Rightarrow> frac_state" where
  "publish e s = s\<lparr>events := events s @ [e]\<rparr>"
definition require_initialized :: "frac_state \<Rightarrow> (frac_error, unit) outcome" where
  "require_initialized s = (if Curator s = None then Err NotInitialized else Ok ())"
definition fraction_balance :: "frac_state \<Rightarrow> address \<Rightarrow> int" where
  "fraction_balance s who = unwrap_or 0 (Balances s who)"
definition set_balance :: "address \<Rightarrow> int \<Rightarrow> frac_state \<Rightarrow> frac_state" where
  "set_balance who v s = s\<lparr>Balances := (Balances s)(who := (if v = 0 then None else Some v))\<rparr>"
definition vault_state :: "frac_state \<Rightarrow> VaultStatus" where
  "vault_state s = unwrap_or Fractionalized (Status s)"
definition get_payment_token :: "frac_state \<Rightarrow> (frac_error, address) outcome" where
  "get_payment_token s = unwrap (PaymentToken s)"

definition transfer_payment ::
    "'w token_transfer \<Rightarrow> env \<Rightarrow> address \<Rightarrow> address \<Rightarrow> int \<Rightarrow> 'w \<times> frac_state \<Rightarrow> (frac_error, 'w) outcome" where
  "transfer_payment tc env from to amt ws =
     (case ws of (w, s) \<Rightarrow>
     and_then (get_payment_token s) (\<lambda>tok. or_trap (tc tok (subcall_env env tok) from to amt w)))"

section \<open>256-bit arithmetic\<close>

text \<open>\<open>as_u128\<close> is Rust's \<open>as u128\<close> on an \<open>i128\<close>; \<open>U256\<close> operations of the host trap on overflow.\<close>

definition u256_max :: nat where "u256_max = 2 ^ 256 - 1"

definition as_u128 :: "int \<Rightarrow> nat" where
  "as_u128 x = nat (x mod 2 ^ 128)"
definition u256_add :: "nat \<Rightarrow> nat \<Rightarrow> (frac_error, nat) outcome" where
  "u256_add a b = (if a + b \<le> u256_max then Ok (a + b) else Trap trap.ArithmeticOverflow)"
definition u256_mul :: "nat \<Rightarrow> nat \<Rightarrow> (frac_error, nat) outcome" where
  "u256_mul a b = (if a * b \<le> u256_max then Ok (a * b) else Trap trap.ArithmeticOverflow)"
definition u256_div :: "nat \<Rightarrow> nat \<Rightarrow> (frac_error, nat) outcome" where
  "u256_div a b = (if b = 0 then Trap DivideByZero else Ok (a div b))"
definition u128_minus_1 :: "nat \<Rightarrow> (frac_error, nat) outcome" where
  "u128_minus_1 a = (if 1 \<le> a then Ok (a - 1) else Trap trap.ArithmeticOverflow)"

definition mul_div :: "int \<Rightarrow> int \<Rightarrow> int \<Rightarrow> bool \<Rightarrow> (frac_error, int) outcome" where
  "mul_div a b denominator round_up =
     and_then (u256_mul (as_u128 a) (as_u128 b)) (\<lambda>product.
     let divisor = as_u128 denominator in
     and_then (if round_up then and_then (u128_minus_1 (as_u128 denominator)) (\<lambda>d. u256_add product d) else Ok product) (\<lambda>adjusted.
     and_then (u256_div adjusted divisor) (\<lambda>quotient.
     and_then (ok_or frac_error.ArithmeticOverflow (if quotient \<le> u128_max then Some quotient else None)) (\<lambda>result.
     if int result > i128_max then Err frac_error.ArithmeticOverflow else Ok (int result)))))"

section \<open>Setting up the vault\<close>

definition initialize ::
    "'n nft_transfer \<Rightarrow> 'n nft_owner \<Rightarrow> env \<Rightarrow> address \<Rightarrow> address \<Rightarrow> InitConfig \<Rightarrow> 'n \<times> frac_state \<Rightarrow>
     (frac_error, unit \<times> 'n \<times> frac_state) outcome" where
  "initialize nt no env cur depositor c ns =
     (case ns of (n, s) \<Rightarrow>
     if Curator s \<noteq> None then Err AlreadyInitialized
     else if cfg_total_supply c \<le> 0 \<or> cfg_reserve_price c \<le> 0 \<or> cfg_auction_duration c = 0 \<or> cfg_min_increment_bps c = 0 \<or>
             cfg_min_increment_bps c > MAX_BPS \<or> length (cfg_name c) = 0 \<or> length (cfg_name c) > MAX_METADATA_LEN \<or>
             length (cfg_symbol c) = 0 \<or> length (cfg_symbol c) > MAX_METADATA_LEN
     then Err InvalidConfig
     else
       and_then (require_auth env depositor) (\<lambda>_.
       let vault = current_contract env; k = cfg_nft_contract c in
       and_then (or_trap (nt k (subcall_env env k) vault depositor vault (cfg_nft_id c) n)) (\<lambda>n1.
       and_then (or_trap (no k (cfg_nft_id c) n1)) (\<lambda>owner.
       if owner \<noteq> vault then Err CustodyFailed
       else
         let s1 = s\<lparr>Curator := Some cur, NftContract := Some (cfg_nft_contract c), NftId := Some (cfg_nft_id c),
                    PaymentToken := Some (cfg_payment_token c), ReservePrice := Some (cfg_reserve_price c),
                    AuctionDuration := Some (cfg_auction_duration c), MinIncrementBps := Some (cfg_min_increment_bps c),
                    Status := Some Fractionalized, TokenName := Some (cfg_name c), TokenSymbol := Some (cfg_symbol c),
                    Supply := Some (cfg_total_supply c), Proceeds := Some 0\<rparr>;
             s2 = set_balance depositor (cfg_total_supply c) s1
         in Ok ((), n1, publish (Ev_fraction depositor (cfg_nft_contract c) (cfg_nft_id c) (cfg_total_supply c)) s2)))))"

section \<open>The fractions as a token\<close>

definition move_balance :: "address \<Rightarrow> address \<Rightarrow> int \<Rightarrow> frac_state \<Rightarrow> (frac_error, unit \<times> frac_state) outcome" where
  "move_balance from to amt s =
     (if amt \<le> 0 then Err InvalidAmount
      else
        let from_balance = fraction_balance s from in
        if from_balance < amt then Err InsufficientBalance
        else
          and_then (i128_sub from_balance amt) (\<lambda>left.
          let s1 = set_balance from left s; to_balance = fraction_balance s1 to in
          and_then (ok_or frac_error.ArithmeticOverflow (checked_add to_balance amt)) (\<lambda>new_balance.
          Ok ((), publish (Ev_transfer from to amt) (set_balance to new_balance s1)))))"

definition transfer :: "env \<Rightarrow> address \<Rightarrow> address \<Rightarrow> int \<Rightarrow> frac_state \<Rightarrow> (frac_error, unit \<times> frac_state) outcome" where
  "transfer env from to amt s =
     and_then (require_initialized s) (\<lambda>_. and_then (require_auth env from) (\<lambda>_. move_balance from to amt s))"

definition approve :: "env \<Rightarrow> address \<Rightarrow> address \<Rightarrow> int \<Rightarrow> nat \<Rightarrow> frac_state \<Rightarrow> (frac_error, unit \<times> frac_state) outcome" where
  "approve env from spender amt expiration s =
     and_then (require_initialized s) (\<lambda>_.
     and_then (require_auth env from) (\<lambda>_.
     if amt < 0 \<or> (amt > 0 \<and> expiration < sequence env) then Err InvalidAmount
     else
       and_then (if amt = 0 then Ok (s\<lparr>Allowances := (Allowances s)((from, spender) := None)\<rparr>)
                 else and_then (u32_sub expiration (sequence env)) (\<lambda>live_for.
                   Ok (s\<lparr>Allowances := (Allowances s)((from, spender) \<mapsto> \<lparr>allowed = amt, expiration_ledger = expiration\<rparr>)\<rparr>))) (\<lambda>s1.
       Ok ((), publish (Ev_approve from spender amt expiration) s1))))"

definition transfer_from ::
    "env \<Rightarrow> address \<Rightarrow> address \<Rightarrow> address \<Rightarrow> int \<Rightarrow> frac_state \<Rightarrow> (frac_error, unit \<times> frac_state) outcome" where
  "transfer_from env spender from to amt s =
     and_then (require_initialized s) (\<lambda>_.
     and_then (require_auth env spender) (\<lambda>_.
     if amt \<le> 0 then Err InvalidAmount
     else
       let approved = unwrap_or \<lparr>allowed = 0, expiration_ledger = 0\<rparr> (Allowances s (from, spender)) in
       if sequence env > expiration_ledger approved then Err AllowanceExpired
       else if allowed approved < amt then Err InsufficientAllowance
       else
         and_then (i128_sub (allowed approved) amt) (\<lambda>left.
         let s1 = (if left = 0 then s\<lparr>Allowances := (Allowances s)((from, spender) := None)\<rparr>
                   else s\<lparr>Allowances := (Allowances s)((from, spender) \<mapsto> approved\<lparr>allowed := left\<rparr>)\<rparr>) in
         move_balance from to amt s1)))"

definition allowance :: "env \<Rightarrow> address \<Rightarrow> address \<Rightarrow> frac_state \<Rightarrow> int" where
  "allowance env from spender s =
     (case Allowances s (from, spender) of
        Some a \<Rightarrow> if sequence env \<le> expiration_ledger a then allowed a else 0 | None \<Rightarrow> 0)"
definition pub_balance :: "address \<Rightarrow> frac_state \<Rightarrow> int" where
  "pub_balance who s = fraction_balance s who"
definition total_supply :: "frac_state \<Rightarrow> int" where
  "total_supply s = unwrap_or 0 (Supply s)"
definition decimals :: "frac_state \<Rightarrow> nat" where
  "decimals s = 7"
definition token_name :: "frac_state \<Rightarrow> string" where
  "token_name s = unwrap_or '''' (TokenName s)"
definition token_symbol :: "frac_state \<Rightarrow> string" where
  "token_symbol s = unwrap_or '''' (TokenSymbol s)"

section \<open>The auction\<close>

definition start_auction ::
    "'w token_transfer \<Rightarrow> env \<Rightarrow> address \<Rightarrow> int \<Rightarrow> 'w \<times> frac_state \<Rightarrow> (frac_error, unit \<times> 'w \<times> frac_state) outcome" where
  "start_auction tc env who x ws =
     (case ws of (w, s) \<Rightarrow>
     and_then (require_initialized s) (\<lambda>_.
     if vault_state s \<noteq> Fractionalized then Err AuctionActive
     else
       and_then (unwrap (ReservePrice s)) (\<lambda>reserve.
       if x < reserve then Err BidTooLow
       else
         and_then (require_auth env who) (\<lambda>_.
         and_then (transfer_payment tc env who (current_contract env) x (w, s)) (\<lambda>w1.
         and_then (unwrap (AuctionDuration s)) (\<lambda>duration.
         and_then (ok_or frac_error.ArithmeticOverflow (u64_checked_add (timestamp env) duration)) (\<lambda>finish.
         let s1 = s\<lparr>AuctionKey := Some \<lparr>bidder = who, high_bid = x, end_time = finish\<rparr>, Status := Some Auction\<rparr>
         in Ok ((), w1, publish (Ev_auc_start who x finish) s1))))))))"

definition bid ::
    "'w token_transfer \<Rightarrow> env \<Rightarrow> address \<Rightarrow> int \<Rightarrow> 'w \<times> frac_state \<Rightarrow> (frac_error, unit \<times> 'w \<times> frac_state) outcome" where
  "bid tc env who amt ws =
     (case ws of (w, s) \<Rightarrow>
     and_then (require_initialized s) (\<lambda>_.
     if vault_state s \<noteq> Auction then Err AuctionNotActive
     else
       and_then (unwrap (AuctionKey s)) (\<lambda>current.
       if timestamp env \<ge> end_time current then Err AuctionEnded
       else
         and_then (unwrap (MinIncrementBps s)) (\<lambda>bps.
         and_then (mul_div (high_bid current) (int bps) (int MAX_BPS) True) (\<lambda>increment.
         and_then (ok_or frac_error.ArithmeticOverflow (checked_add (high_bid current) increment)) (\<lambda>minimum.
         if amt < minimum then Err BidTooLow
         else
           and_then (require_auth env who) (\<lambda>_.
           let vault = current_contract env in
           and_then (transfer_payment tc env who vault amt (w, s)) (\<lambda>w1.
           and_then (transfer_payment tc env vault (bidder current) (high_bid current) (w1, s)) (\<lambda>w2.
           let s1 = s\<lparr>AuctionKey := Some \<lparr>bidder = who, high_bid = amt, end_time = end_time current\<rparr>\<rparr>
           in Ok ((), w2, publish (Ev_bid who amt) s1))))))))))"

definition settle ::
    "'n nft_transfer \<Rightarrow> env \<Rightarrow> 'n \<times> frac_state \<Rightarrow> (frac_error, unit \<times> 'n \<times> frac_state) outcome" where
  "settle nt env ns =
     (case ns of (n, s) \<Rightarrow>
     and_then (require_initialized s) (\<lambda>_.
     if vault_state s \<noteq> Auction then Err AuctionNotActive
     else
       and_then (unwrap (AuctionKey s)) (\<lambda>auction.
       if timestamp env < end_time auction then Err AuctionNotEnded
       else
         let s1 = s\<lparr>Status := Some Settled, Proceeds := Some (high_bid auction)\<rparr> in
         and_then (unwrap (NftContract s1)) (\<lambda>k.
         and_then (unwrap (NftId s1)) (\<lambda>i.
         let vault = current_contract env in
         and_then (or_trap (nt k (subcall_env env k) vault vault (bidder auction) i n)) (\<lambda>n1.
         Ok ((), n1, publish (Ev_settled (bidder auction) (high_bid auction)) s1)))))))"

definition claim ::
    "'w token_transfer \<Rightarrow> env \<Rightarrow> address \<Rightarrow> int \<Rightarrow> 'w \<times> frac_state \<Rightarrow> (frac_error, int \<times> 'w \<times> frac_state) outcome" where
  "claim tc env holder amt ws =
     (case ws of (w, s) \<Rightarrow>
     and_then (require_initialized s) (\<lambda>_.
     if vault_state s \<noteq> Settled then Err NotSettled
     else
       and_then (require_auth env holder) (\<lambda>_.
       if amt \<le> 0 then Err InvalidAmount
       else
         let holder_balance = fraction_balance s holder in
         if holder_balance < amt then Err InsufficientBalance
         else
           and_then (unwrap (Supply s)) (\<lambda>supply.
           and_then (unwrap (Proceeds s)) (\<lambda>proceeds.
           and_then (if amt = supply then Ok proceeds else mul_div amt proceeds supply False) (\<lambda>payout.
           if payout \<le> 0 then Err NothingToClaim
           else
             and_then (i128_sub holder_balance amt) (\<lambda>kept.
             let s1 = set_balance holder kept s in
             and_then (i128_sub supply amt) (\<lambda>supply'.
             let s2 = s1\<lparr>Supply := Some supply'\<rparr> in
             and_then (i128_sub proceeds payout) (\<lambda>proceeds'.
             let s3 = s2\<lparr>Proceeds := Some proceeds'\<rparr> in
             and_then (transfer_payment tc env (current_contract env) holder payout (w, s3)) (\<lambda>w1.
             Ok (payout, w1, publish (Ev_claim holder amt payout) s3)))))))))))"

section \<open>Read-only entry points\<close>

definition vault_info :: "frac_state \<Rightarrow> (frac_error, VaultInfo) outcome" where
  "vault_info s =
     and_then (require_initialized s) (\<lambda>_.
     and_then (unwrap (Curator s)) (\<lambda>a.
     and_then (unwrap (NftContract s)) (\<lambda>k.
     and_then (unwrap (NftId s)) (\<lambda>i.
     and_then (get_payment_token s) (\<lambda>tok.
     and_then (unwrap (ReservePrice s)) (\<lambda>r.
     and_then (unwrap (AuctionDuration s)) (\<lambda>d.
     and_then (unwrap (MinIncrementBps s)) (\<lambda>b.
     Ok \<lparr>curator = a, nft_contract = k, nft_id = i, payment_token = tok, reserve_price = r, auction_duration = d,
       min_increment_bps = b, vault_status = vault_state s\<rparr>))))))))"

definition auction_info :: "frac_state \<Rightarrow> (frac_error, AuctionInfo) outcome" where
  "auction_info s = and_then (require_initialized s) (\<lambda>_. ok_or AuctionNotActive (AuctionKey s))"

definition remaining_proceeds :: "frac_state \<Rightarrow> int" where
  "remaining_proceeds s = unwrap_or 0 (Proceeds s)"

section \<open>Public histories\<close>

text \<open>Calls on the fractions, calls that move payments, and calls that move the NFT; amounts are \<open>i128\<close>.\<close>

inductive frac_share :: "env \<Rightarrow> frac_state \<Rightarrow> frac_state \<Rightarrow> bool" for env where
  transfer: "transfer env a b x s = Ok (u, t) \<Longrightarrow> frac_share env s t"
| approve: "in_i128 x \<Longrightarrow> approve env a b x e s = Ok (u, t) \<Longrightarrow> frac_share env s t"
| transfer_from: "transfer_from env c a b x s = Ok (u, t) \<Longrightarrow> frac_share env s t"

inductive frac_pay :: "'w token_transfer \<Rightarrow> env \<Rightarrow> 'w \<times> frac_state \<Rightarrow> 'w \<times> frac_state \<Rightarrow> bool" for tc env where
  start: "in_i128 x \<Longrightarrow> start_auction tc env a x ws = Ok (u, wt) \<Longrightarrow> frac_pay tc env ws wt"
| bid: "in_i128 x \<Longrightarrow> bid tc env a x ws = Ok (u, wt) \<Longrightarrow> frac_pay tc env ws wt"
| claim: "claim tc env a x ws = Ok (y, wt) \<Longrightarrow> frac_pay tc env ws wt"

inductive frac_nft :: "'n nft_transfer \<Rightarrow> 'n nft_owner \<Rightarrow> env \<Rightarrow> 'n \<times> frac_state \<Rightarrow> 'n \<times> frac_state \<Rightarrow> bool" for nt no env where
  initialize: "in_i128 (cfg_total_supply c) \<Longrightarrow> in_i128 (cfg_reserve_price c) \<Longrightarrow>
    initialize nt no env a d c ns = Ok (u, nt') \<Longrightarrow> frac_nft nt no env ns nt'"
| settle: "settle nt env ns = Ok (u, nt') \<Longrightarrow> frac_nft nt no env ns nt'"

text \<open>A step of the vault \<open>self\<close>, of the payment tokens, or of the NFT contracts.\<close>

inductive frac_step ::
    "'w token_transfer \<Rightarrow> 'n nft_transfer \<Rightarrow> 'n nft_owner \<Rightarrow> ('w \<Rightarrow> 'w \<Rightarrow> bool) \<Rightarrow> ('n \<Rightarrow> 'n \<Rightarrow> bool) \<Rightarrow> address \<Rightarrow>
     'w \<times> 'n \<times> frac_state \<Rightarrow> 'w \<times> 'n \<times> frac_state \<Rightarrow> bool"
  for tc nt no out nout self where
  share: "\<not> auth env self \<Longrightarrow> current_contract env = self \<Longrightarrow> frac_share env s t \<Longrightarrow>
    frac_step tc nt no out nout self (w, n, s) (w, n, t)"
| pay: "\<not> auth env self \<Longrightarrow> current_contract env = self \<Longrightarrow> frac_pay tc env (w, s) (w', t) \<Longrightarrow>
    frac_step tc nt no out nout self (w, n, s) (w', n, t)"
| nft: "\<not> auth env self \<Longrightarrow> current_contract env = self \<Longrightarrow> frac_nft nt no env (n, s) (n', t) \<Longrightarrow>
    frac_step tc nt no out nout self (w, n, s) (w, n', t)"
| tokens: "out w w' \<Longrightarrow> frac_step tc nt no out nout self (w, n, s) (w', n, s)"
| registry: "nout n n' \<Longrightarrow> frac_step tc nt no out nout self (w, n, s) (w, n', s)"

end
