(* ===== verification/Nft_Books_Correct.thy ===== *)
theory Nft_Books_Correct
  imports Token_Interface Nft_Fractional
begin

text \<open>
  The books of the custody vault: exactness of the 256-bit multiply-and-divide, what each successful call
  did, and the invariant of the vault against any payment token (\<open>token_host\<close>) and any NFT contract
  (\<open>nft_registry\<close>) that keep their laws.
\<close>

section \<open>Exact multiplication and division\<close>

lemma as_u128_pos: "0 \<le> x \<Longrightarrow> in_i128 x \<Longrightarrow> as_u128 x = nat x"
  by (simp add: as_u128_def in_i128_def i128_max_def)

lemma u256_fits:
  assumes "0 \<le> a" "0 \<le> b" "0 \<le> c" "in_i128 a" "in_i128 b" "in_i128 c"
  shows "nat a * nat b + nat c \<le> u256_max"
proof -
  have "nat a * nat b \<le> nat i128_max * nat i128_max" using assms by (intro mult_mono) (auto simp: in_i128_def)
  moreover have "nat c \<le> nat i128_max" using assms by (auto simp: in_i128_def)
  ultimately have "nat a * nat b + nat c \<le> nat i128_max * nat i128_max + nat i128_max" by (rule add_mono)
  also have "\<dots> \<le> u256_max" by (simp add: i128_max_def u256_max_def)
  finally show ?thesis .
qed

text \<open>The quotient the code means: rounded down, or up.\<close>

definition exact_quotient :: "int \<Rightarrow> int \<Rightarrow> int \<Rightarrow> bool \<Rightarrow> int" where
  "exact_quotient a b d up = (a * b + (if up then d - 1 else 0)) div d"

lemma frac_mul_div:
  assumes "0 \<le> a" "0 \<le> b" "0 < d" "in_i128 a" "in_i128 b" "in_i128 d"
  shows "mul_div a b d up =
    (if exact_quotient a b d up \<le> i128_max then Ok (exact_quotient a b d up) else Err frac_error.ArithmeticOverflow)"
proof -
  define c where "c = (if up then d - 1 else 0)"
  have c: "0 \<le> c" "in_i128 c" using assms(3,6) by (auto simp: c_def in_i128_def i128_min_def)
  note u = as_u128_pos [OF assms(1,4)] as_u128_pos [OF assms(2,5)] as_u128_pos [OF less_imp_le [OF assms(3)] assms(6)]
  have f: "nat a * nat b + nat c \<le> u256_max" by (rule u256_fits [OF assms(1,2) c(1) assms(4,5) c(2)])
  have d: "1 \<le> nat d" "nat d - 1 = nat (d - 1)" using assms(3) by auto
  have q: "int ((nat a * nat b + nat c) div nat d) = exact_quotient a b d up"
    using assms c(1) by (simp add: exact_quotient_def c_def zdiv_int flip: nat_mult_distrib)
  have adj: "(if up then and_then (u128_minus_1 (nat d)) (\<lambda>x. u256_add (nat a * nat b) x) else Ok (nat a * nat b)) =
      Ok (nat a * nat b + nat c)"
    using f d by (cases up) (simp_all add: u128_minus_1_def u256_add_def c_def)
  have m: "u256_mul (nat a) (nat b) = Ok (nat a * nat b)" using f by (simp add: u256_mul_def)
  have dv: "u256_div x (nat d) = Ok (x div nat d)" for x using assms(3) by (simp add: u256_div_def)
  define z where "z = (nat a * nat b + nat c) div nat d"
  have "mul_div a b d up = and_then (ok_or frac_error.ArithmeticOverflow (if z \<le> u128_max then Some z else None)) (\<lambda>result.
      if int result > i128_max then Err frac_error.ArithmeticOverflow else Ok (int result))"
    unfolding mul_div_def u m and_then_simps Let_def adj dv z_def ..
  moreover have "int z = exact_quotient a b d up" using q by (simp only: z_def)
  moreover have "i128_max < int z" if "\<not> z \<le> u128_max" using that by (simp add: u128_max_def i128_max_def)
  ultimately show ?thesis by (cases "z \<le> u128_max") auto
qed

lemma claim_quotient:
  assumes "0 < amt" "amt \<le> supply" "0 \<le> p"
  shows "0 \<le> exact_quotient amt p supply False" "exact_quotient amt p supply False \<le> p"
    "amt = supply \<Longrightarrow> exact_quotient amt p supply False = p" "exact_quotient amt p supply False * supply \<le> amt * p"
proof -
  have s: "0 < supply" using assms by simp
  show "0 \<le> exact_quotient amt p supply False" using assms s by (simp add: exact_quotient_def pos_imp_zdiv_nonneg_iff)
  show "exact_quotient amt p supply False \<le> p"
    using mult_right_mono [OF assms(2,3)] by (simp add: exact_quotient_def div_mono_mult [OF s] mult.commute)
  show "amt = supply \<Longrightarrow> exact_quotient amt p supply False = p" using s by (simp add: exact_quotient_def)
  show "exact_quotient amt p supply False * supply \<le> amt * p" using div_mult_le [OF s] by (simp add: exact_quotient_def)
qed

text \<open>The smallest raise of a positive bid is positive.\<close>

lemma increment_pos:
  assumes "0 < b" "0 < bps" shows "0 < exact_quotient b (int bps) (int MAX_BPS) True"
proof -
  have "0 < b * int bps" using assms by simp
  then show ?thesis by (simp add: exact_quotient_def MAX_BPS_def pos_imp_zdiv_pos_iff)
qed

section \<open>Success of each operation\<close>

lemma frac_getters_Ok [simp]:
  "require_initialized s = Ok u \<longleftrightarrow> Curator s \<noteq> None"
  "get_payment_token s = Ok tok \<longleftrightarrow> PaymentToken s = Some tok"
  "transfer_payment tc env a b x (w, s) = Ok w' \<longleftrightarrow>
     (\<exists>tok. PaymentToken s = Some tok \<and> tc tok (subcall_env env tok) a b x w = Some w')"
  by (auto simp: require_initialized_def get_payment_token_def transfer_payment_def)

lemma set_balance_simps [simp]:
  "fraction_balance (set_balance a v s) b = (if b = a then v else fraction_balance s b)"
  "Curator (set_balance a v s) = Curator s" "NftContract (set_balance a v s) = NftContract s" "NftId (set_balance a v s) = NftId s"
  "PaymentToken (set_balance a v s) = PaymentToken s" "ReservePrice (set_balance a v s) = ReservePrice s"
  "AuctionDuration (set_balance a v s) = AuctionDuration s" "MinIncrementBps (set_balance a v s) = MinIncrementBps s"
  "Status (set_balance a v s) = Status s" "Supply (set_balance a v s) = Supply s" "AuctionKey (set_balance a v s) = AuctionKey s"
  "Proceeds (set_balance a v s) = Proceeds s" "Allowances (set_balance a v s) = Allowances s"
  "finite (dom (Balances (set_balance a v s))) \<longleftrightarrow> finite (dom (Balances s))"
  by (simp_all add: set_balance_def fraction_balance_def)

lemma total_set_balance:
  assumes "finite (dom (Balances s))"
  shows "total_bal (Balances (set_balance a v s)) = total_bal (Balances s) - fraction_balance s a + v"
  using total_bal_upd [OF assms, of a v] total_bal_del [OF assms, of a]
  by (simp add: set_balance_def fraction_balance_def bal_def del: fun_upd_apply)

lemma publish_simps [simp]:
  "fraction_balance (publish e s) b = fraction_balance s b" "Curator (publish e s) = Curator s" "NftContract (publish e s) = NftContract s"
  "NftId (publish e s) = NftId s" "PaymentToken (publish e s) = PaymentToken s" "ReservePrice (publish e s) = ReservePrice s"
  "AuctionDuration (publish e s) = AuctionDuration s" "MinIncrementBps (publish e s) = MinIncrementBps s"
  "Status (publish e s) = Status s" "Supply (publish e s) = Supply s" "AuctionKey (publish e s) = AuctionKey s"
  "Proceeds (publish e s) = Proceeds s" "Allowances (publish e s) = Allowances s" "Balances (publish e s) = Balances s"
  by (simp_all add: publish_def fraction_balance_def)

definition moved_fractions :: "address \<Rightarrow> address \<Rightarrow> int \<Rightarrow> frac_state \<Rightarrow> frac_state" where
  "moved_fractions a b x s = (let s1 = set_balance a (fraction_balance s a - x) s in set_balance b (fraction_balance s1 b + x) s1)"

lemma frac_move_balance_Ok:
  "move_balance a b x s = Ok (u, t) \<Longrightarrow> 0 < x \<and> x \<le> fraction_balance s a \<and> t = publish (Ev_transfer a b x) (moved_fractions a b x s)"
  by (auto simp: move_balance_def moved_fractions_def Let_def split: if_splits)

lemma frac_transfer_Ok:
  "transfer env a b x s = Ok (u, t) \<Longrightarrow>
   Curator s \<noteq> None \<and> auth env a \<and> 0 < x \<and> x \<le> fraction_balance s a \<and> t = publish (Ev_transfer a b x) (moved_fractions a b x s)"
  by (auto simp: transfer_def dest!: frac_move_balance_Ok)

lemma frac_approve_Ok:
  "approve env a b x e s = Ok (u, t) \<Longrightarrow> Curator s \<noteq> None \<and> auth env a \<and> 0 \<le> x \<and>
   (\<exists>al. t = publish (Ev_approve a b x e) (s\<lparr>Allowances := al\<rparr>))"
  by (auto simp: approve_def split: if_splits)

lemma frac_transfer_from_Ok:
  assumes "transfer_from env c a b x s = Ok (u, t)"
  shows "Curator s \<noteq> None \<and> auth env c \<and> 0 < x \<and> x \<le> allowance env a c s \<and> x \<le> fraction_balance s a \<and>
    (\<exists>al. t = publish (Ev_transfer a b x) (moved_fractions a b x (s\<lparr>Allowances := al\<rparr>)))"
proof -
  have f: "fraction_balance (s\<lparr>Allowances := al\<rparr>) d = fraction_balance s d" for al d by (simp add: fraction_balance_def)
  show ?thesis
    using assms by (cases "Allowances s (a, c)")
      (auto simp: transfer_from_def allowance_def Let_def f split: if_splits dest!: frac_move_balance_Ok)
qed

lemma frac_initialize_Ok:
  assumes "initialize nt no env a d c (n, s) = Ok (u, n', t)"
  shows "Curator s = None \<and> 0 < cfg_total_supply c \<and> 0 < cfg_reserve_price c \<and> 0 < cfg_auction_duration c \<and>
    0 < cfg_min_increment_bps c \<and> cfg_min_increment_bps c \<le> MAX_BPS \<and> auth env d \<and>
    nt (cfg_nft_contract c) (subcall_env env (cfg_nft_contract c)) (current_contract env) d (current_contract env) (cfg_nft_id c) n = Some n' \<and>
    no (cfg_nft_contract c) (cfg_nft_id c) n' = Some (current_contract env) \<and>
    t = publish (Ev_fraction d (cfg_nft_contract c) (cfg_nft_id c) (cfg_total_supply c)) (set_balance d (cfg_total_supply c)
      (s\<lparr>Curator := Some a, NftContract := Some (cfg_nft_contract c), NftId := Some (cfg_nft_id c),
         PaymentToken := Some (cfg_payment_token c), ReservePrice := Some (cfg_reserve_price c),
         AuctionDuration := Some (cfg_auction_duration c), MinIncrementBps := Some (cfg_min_increment_bps c),
         Status := Some Fractionalized, TokenName := Some (cfg_name c), TokenSymbol := Some (cfg_symbol c),
         Supply := Some (cfg_total_supply c), Proceeds := Some 0\<rparr>))"
  using assms by (auto simp: initialize_def Let_def not_le split: if_splits)

lemma start_auction_Ok:
  assumes "start_auction tc env a x (w, s) = Ok (u, w', t)"
  shows "\<exists>r d tok. Curator s \<noteq> None \<and> vault_state s = Fractionalized \<and> ReservePrice s = Some r \<and> r \<le> x \<and> auth env a \<and>
    AuctionDuration s = Some d \<and> PaymentToken s = Some tok \<and> tc tok (subcall_env env tok) a (current_contract env) x w = Some w' \<and>
    timestamp env + d \<le> u64_max \<and>
    t = publish (Ev_auc_start a x (timestamp env + d))
      (s\<lparr>AuctionKey := Some \<lparr>bidder = a, high_bid = x, end_time = timestamp env + d\<rparr>, Status := Some Auction\<rparr>)"
  using assms by (auto simp: start_auction_def Let_def split: if_splits)

lemma bid_Ok:
  assumes "bid tc env a x (w, s) = Ok (u, w', t)"
  shows "\<exists>c b q w1 tok. Curator s \<noteq> None \<and> vault_state s = Auction \<and> AuctionKey s = Some c \<and> timestamp env < end_time c \<and>
    MinIncrementBps s = Some b \<and> mul_div (high_bid c) (int b) (int MAX_BPS) True = Ok q \<and> high_bid c + q \<le> x \<and> auth env a \<and>
    PaymentToken s = Some tok \<and> tc tok (subcall_env env tok) a (current_contract env) x w = Some w1 \<and>
    tc tok (subcall_env env tok) (current_contract env) (bidder c) (high_bid c) w1 = Some w' \<and>
    t = publish (Ev_bid a x) (s\<lparr>AuctionKey := Some \<lparr>bidder = a, high_bid = x, end_time = end_time c\<rparr>\<rparr>)"
  using assms by (auto simp: bid_def Let_def not_le split: if_splits)

lemma frac_settle_Ok:
  assumes "settle nt env (n, s) = Ok (u, n', t)"
  shows "\<exists>c k i. Curator s \<noteq> None \<and> vault_state s = Auction \<and> AuctionKey s = Some c \<and> end_time c \<le> timestamp env \<and>
    NftContract s = Some k \<and> NftId s = Some i \<and>
    nt k (subcall_env env k) (current_contract env) (current_contract env) (bidder c) i n = Some n' \<and>
    t = publish (Ev_settled (bidder c) (high_bid c)) (s\<lparr>Status := Some Settled, Proceeds := Some (high_bid c)\<rparr>)"
  using assms by (auto simp: settle_def Let_def not_less split: if_splits)

lemma frac_claim_Ok:
  assumes "claim tc env a x (w, s) = Ok (y, w', t)"
  shows "\<exists>v p tok. Curator s \<noteq> None \<and> vault_state s = Settled \<and> auth env a \<and> 0 < x \<and> x \<le> fraction_balance s a \<and>
    Supply s = Some v \<and> Proceeds s = Some p \<and> (if x = v then y = p else mul_div x p v False = Ok y) \<and> 0 < y \<and>
    PaymentToken s = Some tok \<and> tc tok (subcall_env env tok) (current_contract env) a y w = Some w' \<and>
    t = publish (Ev_claim a x y) ((set_balance a (fraction_balance s a - x) s)\<lparr>Supply := Some (v - x), Proceeds := Some (p - y)\<rparr>)"
proof -
  obtain v p where h: "Curator s \<noteq> None" "vault_state s = Settled" "auth env a" "0 < x" "x \<le> fraction_balance s a"
    "Supply s = Some v" "Proceeds s = Some p"
    using assms by (auto simp: claim_def Let_def not_le split: if_split_asm)
  show ?thesis
    by (rule exI [of _ v], rule exI [of _ p])
      (use assms h in \<open>cases "x = v"; auto simp: claim_def Let_def not_le split: if_split_asm\<close>)
qed


section \<open>The books\<close>

definition configured :: "frac_state \<Rightarrow> bool" where
  "configured s \<longleftrightarrow> NftContract s \<noteq> None \<and> NftId s \<noteq> None \<and> PaymentToken s \<noteq> None \<and> AuctionDuration s \<noteq> None \<and>
     Proceeds s \<noteq> None \<and> (\<exists>r. ReservePrice s = Some r \<and> 0 < r) \<and> (\<exists>b. MinIncrementBps s = Some b \<and> 0 < b \<and> b \<le> MAX_BPS) \<and>
     (\<exists>v. Supply s = Some v \<and> 0 \<le> v \<and> v \<le> i128_max)"

definition auction_ok :: "frac_state \<Rightarrow> bool" where
  "auction_ok s \<longleftrightarrow> (\<exists>c. AuctionKey s = Some c \<and> 0 < high_bid c \<and> high_bid c \<le> i128_max \<and>
     (vault_state s = Settled \<longrightarrow> 0 \<le> remaining_proceeds s \<and> remaining_proceeds s \<le> high_bid c \<and>
        (remaining_proceeds s = 0 \<longleftrightarrow> total_supply s = 0)))"

definition frac_inv :: "frac_state \<Rightarrow> bool" where
  "frac_inv s \<longleftrightarrow> finite (dom (Balances s)) \<and> (\<forall>a. 0 \<le> fraction_balance s a) \<and> total_bal (Balances s) = total_supply s \<and>
     (if Curator s = None
      then Status s = None \<and> Supply s = None \<and> NftContract s = None \<and> PaymentToken s = None
      else configured s) \<and>
     (Curator s \<noteq> None \<and> vault_state s \<noteq> Settled \<longrightarrow> 0 < total_supply s) \<and>
     (vault_state s \<noteq> Fractionalized \<longrightarrow> auction_ok s)"

text \<open>What the vault owes in the payment token: the escrowed bid, later the proceeds that are left.\<close>

definition escrow :: "frac_state \<Rightarrow> int" where
  "escrow s = (case vault_state s of
     Fractionalized \<Rightarrow> 0
   | Auction \<Rightarrow> (case AuctionKey s of Some c \<Rightarrow> high_bid c | None \<Rightarrow> 0)
   | Settled \<Rightarrow> remaining_proceeds s)"

lemma frac_invD:
  assumes "frac_inv s"
  shows "finite (dom (Balances s))" "0 \<le> fraction_balance s a" "total_bal (Balances s) = total_supply s"
    "Curator s \<noteq> None \<Longrightarrow> configured s" "Curator s \<noteq> None \<Longrightarrow> vault_state s \<noteq> Settled \<Longrightarrow> 0 < total_supply s"
    "vault_state s \<noteq> Fractionalized \<Longrightarrow> auction_ok s"
    "Curator s = None \<Longrightarrow> Status s = None \<and> Supply s = None \<and> NftContract s = None \<and> PaymentToken s = None"
  using assms unfolding frac_inv_def by (blast | simp)+

lemma frac_inv_empty: "frac_inv empty_frac"
  by (simp add: frac_inv_def empty_frac_def fraction_balance_def total_supply_def vault_state_def)

lemma vault_views [simp]:
  "vault_state (publish e s) = vault_state s" "total_supply (publish e s) = total_supply s"
  "remaining_proceeds (publish e s) = remaining_proceeds s" "vault_state (set_balance a v s) = vault_state s"
  "total_supply (set_balance a v s) = total_supply s" "remaining_proceeds (set_balance a v s) = remaining_proceeds s"
  by (simp_all add: vault_state_def total_supply_def remaining_proceeds_def)

lemma publish_keeps [simp]: "frac_inv (publish e s) = frac_inv s" "escrow (publish e s) = escrow s"
  by (simp_all add: frac_inv_def configured_def auction_ok_def escrow_def split: VaultStatus.split)

lemma fraction_le_supply:
  assumes "frac_inv s" shows "fraction_balance s a \<le> total_supply s"
proof -
  have b: "fraction_balance s b = bal (Balances s) b" for b by (simp add: fraction_balance_def bal_def)
  show ?thesis
    using bal_le_total [OF frac_invD(1) [OF assms], of a] frac_invD(2,3) [OF assms] by (simp add: b)
qed

text \<open>Entries that do not belong to the fractions' balances.\<close>

definition vault_core :: "frac_state \<Rightarrow>
    (address option \<times> address option \<times> nat option \<times> address option) \<times>
    (int option \<times> nat option \<times> nat option) \<times> VaultStatus option \<times> int option \<times> AuctionInfo option \<times> int option" where
  "vault_core s = ((Curator s, NftContract s, NftId s, PaymentToken s),
     (ReservePrice s, AuctionDuration s, MinIncrementBps s), Status s, Supply s, AuctionKey s, Proceeds s)"

lemma vault_core_views:
  assumes "vault_core t = vault_core s"
  shows "vault_state t = vault_state s" "total_supply t = total_supply s" "remaining_proceeds t = remaining_proceeds s"
    "escrow t = escrow s" "Curator t = Curator s" "configured t = configured s" "auction_ok t = auction_ok s"
    "NftContract t = NftContract s" "NftId t = NftId s" "PaymentToken t = PaymentToken s" "auction_info t = auction_info s"
  using assms by (simp_all add: vault_core_def vault_state_def total_supply_def remaining_proceeds_def escrow_def configured_def
      auction_ok_def auction_info_def require_initialized_def split: VaultStatus.split)

lemma frac_inv_balances:
  assumes "frac_inv s" "vault_core t = vault_core s" "finite (dom (Balances t))" "\<And>a. 0 \<le> fraction_balance t a"
    "total_bal (Balances t) = total_bal (Balances s)"
  shows "frac_inv t"
  using assms vault_core_views [OF assms(2)]
  unfolding frac_inv_def by (simp add: vault_core_def)

lemma moved_fractions_keeps:
  assumes "frac_inv s" "0 < x" "x \<le> fraction_balance s a"
  shows "frac_inv (moved_fractions a b x s) \<and> vault_core (moved_fractions a b x s) = vault_core s"
proof
  show c: "vault_core (moved_fractions a b x s) = vault_core s" by (simp add: vault_core_def moved_fractions_def Let_def)
  note fin = frac_invD(1) [OF assms(1)]
  show "frac_inv (moved_fractions a b x s)"
  proof (rule frac_inv_balances [OF assms(1) c])
    show "0 \<le> fraction_balance (moved_fractions a b x s) d" for d
      using frac_invD(2) [OF assms(1), of d] frac_invD(2) [OF assms(1), of b] assms(2,3) by (simp add: moved_fractions_def Let_def)
  qed (use fin in \<open>simp_all add: moved_fractions_def Let_def total_set_balance\<close>)
qed

lemma frac_share_keeps:
  assumes "frac_share env s t" "frac_inv s"
  shows "frac_inv t \<and> vault_core t = vault_core s"
proof -
  have al: "frac_inv (s\<lparr>Allowances := al\<rparr>) \<and> vault_core (s\<lparr>Allowances := al\<rparr>) = vault_core s"
    "fraction_balance (s\<lparr>Allowances := al\<rparr>) d = fraction_balance s d" for al d
    using frac_inv_balances [OF assms(2), of "s\<lparr>Allowances := al\<rparr>"] frac_invD(1,2) [OF assms(2)]
    by (simp_all add: vault_core_def fraction_balance_def)
  have core: "vault_core (publish e v) = vault_core v" for e v by (simp add: vault_core_def)
  show ?thesis
    using assms(1)
  proof cases
    case (transfer a b x u)
    then show ?thesis using frac_transfer_Ok [OF transfer] moved_fractions_keeps [OF assms(2)] by (auto simp: core)
  next
    case (approve x a b e u)
    then show ?thesis using frac_approve_Ok [OF approve(2)] al by (auto simp: core)
  next
    case (transfer_from c a b x u)
    then obtain al' where h: "0 < x" "x \<le> fraction_balance s a" "t = publish (Ev_transfer a b x) (moved_fractions a b x (s\<lparr>Allowances := al'\<rparr>))"
      using frac_transfer_from_Ok [OF transfer_from] by blast
    then show ?thesis using moved_fractions_keeps [of "s\<lparr>Allowances := al'\<rparr>" x a b] al by (simp add: core)
  qed
qed

lemma frac_initialize_keeps:
  assumes "initialize nt no env a d c (n, s) = Ok (u, n', t)" "frac_inv s" "in_i128 (cfg_total_supply c)"
  shows "frac_inv t \<and> escrow t = 0 \<and> NftContract t = Some (cfg_nft_contract c) \<and> NftId t = Some (cfg_nft_id c)"
proof -
  note h = frac_initialize_Ok [OF assms(1)]
  let ?s = "s\<lparr>Curator := Some a, NftContract := Some (cfg_nft_contract c), NftId := Some (cfg_nft_id c),
         PaymentToken := Some (cfg_payment_token c), ReservePrice := Some (cfg_reserve_price c),
         AuctionDuration := Some (cfg_auction_duration c), MinIncrementBps := Some (cfg_min_increment_bps c),
         Status := Some Fractionalized, TokenName := Some (cfg_name c), TokenSymbol := Some (cfg_symbol c),
         Supply := Some (cfg_total_supply c), Proceeds := Some 0\<rparr>"
  have fin: "finite (dom (Balances ?s))" "fraction_balance ?s = fraction_balance s" "Balances ?s = Balances s"
    using frac_invD(1) [OF assms(2)] by (simp_all add: fraction_balance_def fun_eq_iff)
  have z: "total_bal (Balances s) = 0" using frac_invD(3,7) [OF assms(2)] h by (simp add: total_supply_def)
  moreover have "fraction_balance s d = 0"
    using frac_invD(2) [OF assms(2), of d] fraction_le_supply [OF assms(2), of d] frac_invD(3) [OF assms(2)] z by simp
  ultimately have tot: "total_bal (Balances (set_balance d (cfg_total_supply c) ?s)) = cfg_total_supply c"
    using total_set_balance [OF fin(1)] fin by simp
  have "frac_inv (set_balance d (cfg_total_supply c) ?s)"
    using h tot fin frac_invD(2) [OF assms(2)] assms(3)
    by (simp add: frac_inv_def configured_def total_supply_def vault_state_def in_i128_def)
  moreover have "escrow (set_balance d (cfg_total_supply c) ?s) = 0" by (simp add: escrow_def vault_state_def)
  moreover have "t = publish (Ev_fraction d (cfg_nft_contract c) (cfg_nft_id c) (cfg_total_supply c)) (set_balance d (cfg_total_supply c) ?s)"
    using h by blast
  ultimately show ?thesis by simp
qed


section \<open>Auction and claims\<close>

lemma start_auction_keeps:
  assumes "start_auction tc env a x (w, s) = Ok (u, w', t)" "frac_inv s" "in_i128 x"
  shows "frac_inv t \<and> escrow s = 0 \<and> escrow t = x \<and> 0 < x"
proof -
  obtain r e where h: "Curator s \<noteq> None" "vault_state s = Fractionalized" "ReservePrice s = Some r" "r \<le> x"
    "t = publish (Ev_auc_start a x e) (s\<lparr>AuctionKey := Some \<lparr>bidder = a, high_bid = x, end_time = e\<rparr>, Status := Some Auction\<rparr>)"
    using start_auction_Ok [OF assms(1)] by blast
  have c: "configured s" "0 < total_supply s" using frac_invD(4,5) [OF assms(2)] h(1,2) by simp_all
  have x: "0 < x" "x \<le> i128_max" using c(1) h(3,4) assms(3) by (auto simp: configured_def in_i128_def)
  have f: "fraction_balance (s\<lparr>AuctionKey := k, Status := st\<rparr>) b = fraction_balance s b" for k st b by (simp add: fraction_balance_def)
  have "frac_inv t"
    using assms(2) h(1,5) c x
    by (simp add: frac_inv_def configured_def auction_ok_def vault_state_def total_supply_def remaining_proceeds_def f)
  then show ?thesis using h(2,5) x by (simp add: escrow_def) (simp add: vault_state_def)
qed

lemma auction_at:
  assumes "frac_inv s" "vault_state s = Auction"
  shows "\<exists>c. AuctionKey s = Some c \<and> 0 < high_bid c \<and> high_bid c \<le> i128_max \<and> escrow s = high_bid c"
  using frac_invD(6) [OF assms(1)] assms(2) by (auto simp: auction_ok_def escrow_def)

lemma bid_keeps:
  assumes "bid tc env a x (w, s) = Ok (u, w', t)" "frac_inv s" "in_i128 x"
  shows "\<exists>c. AuctionKey s = Some c \<and> frac_inv t \<and> escrow s = high_bid c \<and> escrow t = x \<and> high_bid c < x \<and> 0 < high_bid c"
proof -
  obtain c b q where h: "Curator s \<noteq> None" "vault_state s = Auction" "AuctionKey s = Some c" "MinIncrementBps s = Some b"
      "mul_div (high_bid c) (int b) (int MAX_BPS) True = Ok q" "high_bid c + q \<le> x"
    and t: "t = publish (Ev_bid a x) (s\<lparr>AuctionKey := Some \<lparr>bidder = a, high_bid = x, end_time = end_time c\<rparr>\<rparr>)"
    using bid_Ok [OF assms(1)] by blast
  have hb: "0 < high_bid c" "high_bid c \<le> i128_max" "escrow s = high_bid c" using auction_at [OF assms(2) h(2)] h(3) by auto
  have bb: "0 < b" "b \<le> MAX_BPS" using frac_invD(4) [OF assms(2) h(1)] h(4) by (simp_all add: configured_def)
  have i: "in_i128 (high_bid c)" "in_i128 (int b)" "in_i128 (int MAX_BPS)" "0 < int MAX_BPS"
    using hb bb by (auto simp: in_i128_def i128_max_def i128_min_def MAX_BPS_def)
  have "q = exact_quotient (high_bid c) (int b) (int MAX_BPS) True"
    using h(5) frac_mul_div [OF less_imp_le [OF hb(1)] of_nat_0_le_iff i(4) i(1,2,3)] by (simp split: if_splits)
  then have x: "high_bid c < x" "x \<le> i128_max" using increment_pos [OF hb(1) bb(1)] h(6) assms(3) by (simp_all add: in_i128_def)
  have f: "fraction_balance (s\<lparr>AuctionKey := k\<rparr>) d = fraction_balance s d" for k d by (simp add: fraction_balance_def)
  have v: "vault_state (s\<lparr>AuctionKey := k\<rparr>) = Auction" "total_supply (s\<lparr>AuctionKey := k\<rparr>) = total_supply s" for k
    using h(2) by (simp_all add: vault_state_def total_supply_def)
  have "frac_inv t"
    using assms(2) h(1,2) frac_invD(4,5) [OF assms(2) h(1)] x hb(1)
    unfolding t by (simp add: frac_inv_def v f) (auto simp: configured_def auction_ok_def v)
  moreover have "escrow t = x" unfolding t by (simp add: escrow_def v)
  ultimately show ?thesis using h(3) hb x by blast
qed

lemma frac_settle_keeps:
  assumes "settle nt env (n, s) = Ok (u, n', t)" "frac_inv s"
  shows "frac_inv t \<and> escrow t = escrow s \<and> vault_state t = Settled"
proof -
  obtain c where h: "Curator s \<noteq> None" "vault_state s = Auction" "AuctionKey s = Some c"
    and t: "t = publish (Ev_settled (bidder c) (high_bid c)) (s\<lparr>Status := Some Settled, Proceeds := Some (high_bid c)\<rparr>)"
    using frac_settle_Ok [OF assms(1)] by blast
  let ?t = "s\<lparr>Status := Some Settled, Proceeds := Some (high_bid c)\<rparr>"
  have hb: "0 < high_bid c" "high_bid c \<le> i128_max" "escrow s = high_bid c" using auction_at [OF assms(2) h(2)] h(3) by auto
  have f: "fraction_balance ?t d = fraction_balance s d" for d by (simp add: fraction_balance_def)
  have v: "vault_state ?t = Settled" "total_supply ?t = total_supply s" "remaining_proceeds ?t = high_bid c"
    by (simp_all add: vault_state_def total_supply_def remaining_proceeds_def)
  have "frac_inv ?t"
    using assms(2) h hb frac_invD(4,5) [OF assms(2) h(1)]
    by (simp add: frac_inv_def v f) (simp add: configured_def auction_ok_def v)
  then show ?thesis using hb(3) by (simp add: t v escrow_def)
qed

text \<open>
  A claim pays the exact share, rounded down, of what is left, and the value of the remaining fractions
  does not shrink. \<open>keeps_worth s t\<close>: a fraction is worth at least as much in \<open>t\<close> as in \<open>s\<close>.
\<close>

definition keeps_worth :: "frac_state \<Rightarrow> frac_state \<Rightarrow> bool" where
  "keeps_worth s t \<longleftrightarrow> remaining_proceeds s * total_supply t \<le> remaining_proceeds t * total_supply s"

lemma claim_amount:
  assumes "claim tc env a x (w, s) = Ok (y, w', t)" "frac_inv s"
  shows "y = x * remaining_proceeds s div total_supply s" "0 < x" "x \<le> total_supply s" "0 < y" "y \<le> remaining_proceeds s"
proof -
  obtain v p where h: "vault_state s = Settled" "0 < x" "x \<le> fraction_balance s a" "Supply s = Some v" "Proceeds s = Some p"
      "if x = v then y = p else mul_div x p v False = Ok y" "0 < y"
    using frac_claim_Ok [OF assms(1)] by blast
  have vp: "total_supply s = v" "remaining_proceeds s = p" using h(4,5) by (simp_all add: total_supply_def remaining_proceeds_def)
  have x: "x \<le> v" "0 < v" using fraction_le_supply [OF assms(2), of a] h(2,3) vp by simp_all
  have "configured s" using frac_invD(4) [OF assms(2)] frac_claim_Ok [OF assms(1)] by blast
  then have v: "v \<le> i128_max" using h(4) by (auto simp: configured_def)
  have "auction_ok s" using frac_invD(6) [OF assms(2)] h(1) by simp
  then have p: "0 \<le> p" "p \<le> i128_max" using vp h(1) by (auto simp: auction_ok_def)
  have i: "in_i128 x" "in_i128 p" "in_i128 v" using x v p h(2) by (auto simp: in_i128_def i128_min_def)
  note Q = claim_quotient [OF h(2) x(1) p(1)]
  have "mul_div x p v False = Ok (exact_quotient x p v False)"
    using frac_mul_div [OF less_imp_le [OF h(2)] p(1) x(2) i] Q(2) p(2) by simp
  then have y: "y = exact_quotient x p v False" using h(6) Q(3) by (auto split: if_splits)
  then show "y = x * remaining_proceeds s div total_supply s" by (simp add: exact_quotient_def vp)
  show "0 < x" "x \<le> total_supply s" "0 < y" "y \<le> remaining_proceeds s" using h(2,7) x(1) Q(2) y by (simp_all add: vp)
qed

lemma claim_keeps:
  assumes "claim tc env a x (w, s) = Ok (y, w', t)" "frac_inv s"
  shows "frac_inv t \<and> escrow t = escrow s - y \<and> vault_state t = Settled \<and> keeps_worth s t \<and> total_supply t = total_supply s - x \<and>
    remaining_proceeds t = remaining_proceeds s - y"
proof -
  obtain v p where h: "Curator s \<noteq> None" "vault_state s = Settled" "x \<le> fraction_balance s a" "Supply s = Some v" "Proceeds s = Some p"
    and t: "t = publish (Ev_claim a x y) ((set_balance a (fraction_balance s a - x) s)\<lparr>Supply := Some (v - x), Proceeds := Some (p - y)\<rparr>)"
    using frac_claim_Ok [OF assms(1)] by blast
  let ?u = "set_balance a (fraction_balance s a - x) s"
  let ?t = "?u\<lparr>Supply := Some (v - x), Proceeds := Some (p - y)\<rparr>"
  have vp: "total_supply s = v" "remaining_proceeds s = p" using h(4,5) by (simp_all add: total_supply_def remaining_proceeds_def)
  note y = claim_amount [OF assms, unfolded vp]
  have f: "fraction_balance ?t d = fraction_balance ?u d" "Balances ?t = Balances ?u" for d by (simp_all add: fraction_balance_def)
  have w: "vault_state ?t = Settled" "total_supply ?t = v - x" "remaining_proceeds ?t = p - y"
    using h(2) by (simp_all add: vault_state_def total_supply_def remaining_proceeds_def)
  have v: "0 < v" using y(2,3) by simp
  have yv: "y * v \<le> x * p" using div_mult_le [OF v] y(1) by simp
  have zero: "p - y = 0 \<longleftrightarrow> v - x = 0"
  proof
    assume "v - x = 0"
    then show "p - y = 0" using y(1) v by simp
  next
    assume "p - y = 0"
    then have "p * v \<le> x * p" "0 < p" using yv y(4) by simp_all
    then have "v \<le> x" by (simp add: mult.commute)
    then show "v - x = 0" using y(3) by simp
  qed
  have au: "auction_ok s" using frac_invD(6) [OF assms(2)] h(2) by simp
  have "frac_inv ?t"
  proof -
    have "finite (dom (Balances ?t))" using frac_invD(1) [OF assms(2)] by (simp add: f)
    moreover have "\<forall>d. 0 \<le> fraction_balance ?t d" using frac_invD(2) [OF assms(2)] h(3) by (simp add: f)
    moreover have "total_bal (Balances ?t) = total_supply ?t"
      using total_set_balance [OF frac_invD(1) [OF assms(2)], of a "fraction_balance s a - x"] frac_invD(3) [OF assms(2)] by (simp add: f w vp)
    moreover have "configured ?t" using frac_invD(4) [OF assms(2) h(1)] h(4) y(2,3) by (auto simp: configured_def)
    moreover have "auction_ok ?t" using au zero y(4,5) h(2) vp by (auto simp: auction_ok_def w)
    ultimately show ?thesis using h(1) by (simp add: frac_inv_def w)
  qed
  moreover have "keeps_worth s t" using yv by (simp add: keeps_worth_def t w vp algebra_simps)
  moreover have "escrow ?t = escrow s - y" using h(2) vp by (simp add: escrow_def w)
  ultimately show ?thesis by (simp add: t w vp)
qed

text \<open>Worth is transitive along runs in which claims stop when nothing is left.\<close>

lemma keeps_worth_trans:
  assumes "keeps_worth r s" "keeps_worth s t" "0 < total_supply s" "0 \<le> total_supply r" "0 \<le> total_supply t"
  shows "keeps_worth r t"
proof -
  let ?p = remaining_proceeds and ?v = total_supply
  have "(?p r * ?v s) * ?v t \<le> (?p s * ?v r) * ?v t"
    using mult_right_mono assms(1,5) by (simp add: keeps_worth_def)
  also have "\<dots> \<le> (?p t * ?v s) * ?v r"
    using mult_right_mono [OF assms(2) [unfolded keeps_worth_def] assms(4)] by (simp add: algebra_simps)
  finally have "(?p r * ?v t) * ?v s \<le> (?p t * ?v r) * ?v s" by (simp add: algebra_simps)
  then show ?thesis using assms(3) by (simp add: keeps_worth_def)
qed

lemma worth_pays:
  assumes "keeps_worth r s" "0 < total_supply r" "0 < total_supply s" "0 \<le> x"
  shows "x * remaining_proceeds r div total_supply r \<le> x * remaining_proceeds s div total_supply s"
proof -
  let ?p = remaining_proceeds and ?v = total_supply
  let ?z = "x * ?p r div ?v r"
  have "(?z * ?v s) * ?v r = (?z * ?v r) * ?v s" by simp
  also have "\<dots> \<le> (x * ?p r) * ?v s" using div_mult_le [OF assms(2), of "x * ?p r"] assms(3) by (intro mult_right_mono) auto
  also have "\<dots> = x * (?p r * ?v s)" by simp
  also have "\<dots> \<le> x * (?p s * ?v r)" using assms(1,4) by (intro mult_left_mono) (simp_all add: keeps_worth_def)
  finally have "(?z * ?v s) * ?v r \<le> (x * ?p s) * ?v r" by (simp add: algebra_simps)
  then show ?thesis using assms(2,3) by (simp add: le_div_iff_mult)
qed


section \<open>The vault among its contracts\<close>

text \<open>
  The vault keeps its books, holds what it owes in the payment token, and holds the NFT until it is settled.
\<close>

definition vault_inv ::
    "('w \<Rightarrow> address \<Rightarrow> address \<Rightarrow> int) \<Rightarrow> (address \<Rightarrow> 'w \<Rightarrow> bool) \<Rightarrow> ('n \<Rightarrow> address \<Rightarrow> nat \<Rightarrow> address \<Rightarrow> bool) \<Rightarrow>
     (address \<Rightarrow> 'n \<Rightarrow> bool) \<Rightarrow> address \<Rightarrow> 'w \<times> 'n \<times> frac_state \<Rightarrow> bool" where
  "vault_inv balance_of ok held quiet self wns \<longleftrightarrow> (case wns of (w, n, s) \<Rightarrow>
     frac_inv s \<and> ok self w \<and> quiet self n \<and>
     (\<forall>tok. PaymentToken s = Some tok \<longrightarrow> escrow s \<le> balance_of w tok self) \<and>
     (\<forall>k i. NftContract s = Some k \<longrightarrow> NftId s = Some i \<longrightarrow> vault_state s \<noteq> Settled \<longrightarrow> held n k i self) \<and>
     (\<forall>c. AuctionKey s = Some c \<longrightarrow> bidder c \<noteq> self))"

locale fraction_vault = token_host balance_of transfer_call world_ok outside + nft_registry nft_move nft_owner held quiet nft_outside
  for balance_of :: "'w \<Rightarrow> address \<Rightarrow> address \<Rightarrow> int" and transfer_call :: "'w token_transfer"
    and world_ok :: "address \<Rightarrow> 'w \<Rightarrow> bool" and outside :: "address \<Rightarrow> 'w \<Rightarrow> 'w \<Rightarrow> bool"
    and nft_move :: "'n nft_transfer" and nft_owner :: "'n nft_owner" and held :: "'n \<Rightarrow> address \<Rightarrow> nat \<Rightarrow> address \<Rightarrow> bool"
    and quiet :: "address \<Rightarrow> 'n \<Rightarrow> bool" and nft_outside :: "address \<Rightarrow> 'n \<Rightarrow> 'n \<Rightarrow> bool"
begin

lemma pay_inv:
  assumes inv: "vault_inv balance_of world_ok held quiet self (w, n, s)"
    and env: "\<not> auth env self" "current_contract env = self" and p: "frac_pay transfer_call env (w, s) (w', t)"
  shows "vault_inv balance_of world_ok held quiet self (w', n, t)"
proof -
  have i: "frac_inv s" "world_ok self w" "quiet self n" and le: "\<And>tok. PaymentToken s = Some tok \<Longrightarrow> escrow s \<le> balance_of w tok self"
    and hd: "\<And>k j. NftContract s = Some k \<Longrightarrow> NftId s = Some j \<Longrightarrow> vault_state s \<noteq> Settled \<Longrightarrow> held n k j self"
    and bd: "\<And>c. AuctionKey s = Some c \<Longrightarrow> bidder c \<noteq> self"
    using inv by (auto simp: vault_inv_def)
  show ?thesis
    using p
  proof cases
    case (start x a u)
    obtain tok e where h: "vault_state s = Fractionalized" "auth env a" "PaymentToken s = Some tok"
      "transfer_call tok (subcall_env env tok) a self x w = Some w'"
      "t = publish (Ev_auc_start a x e) (s\<lparr>AuctionKey := Some \<lparr>bidder = a, high_bid = x, end_time = e\<rparr>, Status := Some Auction\<rparr>)"
      using start_auction_Ok [OF start(2)] env(2) by blast
    have a: "a \<noteq> self" using h(2) env(1) by auto
    show ?thesis
      using start_auction_keeps [OF start(2) i(1) start(1)] leg_in [OF h(4) a, of tok] transfer_keeps_ok [OF i(2) h(4)]
        le [OF h(3)] hd h(1,3) i(3) a
      by (simp add: vault_inv_def h(5))
  next
    case (bid x a u)
    obtain c b q w1 tok where h: "vault_state s = Auction" "AuctionKey s = Some c" "auth env a" "PaymentToken s = Some tok"
      "transfer_call tok (subcall_env env tok) a self x w = Some w1"
      "transfer_call tok (subcall_env env tok) self (bidder c) (high_bid c) w1 = Some w'"
      "t = publish (Ev_bid a x) (s\<lparr>AuctionKey := Some \<lparr>bidder = a, high_bid = x, end_time = end_time c\<rparr>\<rparr>)"
      using bid_Ok [OF bid(2)] env(2) by blast
    have a: "a \<noteq> self" using h(3) env(1) by auto
    have k: "frac_inv t" "escrow s = high_bid c" "escrow t = x" using bid_keeps [OF bid(2) i(1) bid(1)] h(2) by auto
    have ok: "world_ok self w'" using transfer_keeps_ok [OF transfer_keeps_ok [OF i(2) h(5)] h(6)] .
    show ?thesis
      using k ok leg_in [OF h(5) a, of tok] leg_out_ge [OF h(6), of tok] le [OF h(4)] hd h(1,4) i(3) a
      by (simp add: vault_inv_def h(7) vault_state_def)
  next
    case (claim a x y)
    obtain v p tok where h: "vault_state s = Settled" "PaymentToken s = Some tok"
      "transfer_call tok (subcall_env env tok) self a y w = Some w'"
      "t = publish (Ev_claim a x y) ((set_balance a (fraction_balance s a - x) s)\<lparr>Supply := Some (v - x), Proceeds := Some (p - y)\<rparr>)"
      using frac_claim_Ok [OF claim] env(2) by blast
    have k: "frac_inv t" "escrow t = escrow s - y" "vault_state t = Settled" using claim_keeps [OF claim i(1)] by simp_all
    show ?thesis
      using k leg_out_ge [OF h(3), of tok] transfer_keeps_ok [OF i(2) h(3)] le [OF h(2)] bd h(2) i(3)
      by (simp add: vault_inv_def) (simp add: h(4))
  qed
qed

lemma nft_inv:
  assumes inv: "vault_inv balance_of world_ok held quiet self (w, n, s)"
    and env: "\<not> auth env self" "current_contract env = self" and p: "frac_nft nft_move nft_owner env (n, s) (n', t)"
  shows "vault_inv balance_of world_ok held quiet self (w, n', t)"
proof -
  have i: "frac_inv s" "world_ok self w" "quiet self n" and le: "\<And>tok. PaymentToken s = Some tok \<Longrightarrow> escrow s \<le> balance_of w tok self"
    and bd: "\<And>c. AuctionKey s = Some c \<Longrightarrow> bidder c \<noteq> self"
    using inv by (auto simp: vault_inv_def)
  show ?thesis
    using p
  proof cases
    case (initialize c a d u)
    note k = frac_initialize_keeps [OF initialize(3) i(1) initialize(1)]
    let ?k = "cfg_nft_contract c"
    have m: "nft_move ?k (subcall_env env ?k) self d self (cfg_nft_id c) n = Some n'"
      and ak: "AuctionKey t = AuctionKey s"
      using frac_initialize_Ok [OF initialize(3)] env(2) by simp_all
    show ?thesis
      using k move_held [OF i(3) m] move_quiet [OF i(3) m] i(2) own_balance_nonneg [OF i(2)] bd by (simp add: vault_inv_def ak)
  next
    case (settle u)
    obtain c k j where h: "nft_move k (subcall_env env k) self self (bidder c) j n = Some n'" "AuctionKey s = Some c"
      "t = publish (Ev_settled (bidder c) (high_bid c)) (s\<lparr>Status := Some Settled, Proceeds := Some (high_bid c)\<rparr>)"
      using frac_settle_Ok [OF settle, unfolded env(2)] by blast
    show ?thesis
      using frac_settle_keeps [OF settle i(1)] move_quiet [OF i(3) h(1)] i(2) le bd by (simp add: vault_inv_def) (simp add: h(3))
  qed
qed

lemma step_inv:
  assumes "frac_step transfer_call nft_move nft_owner (outside self) (nft_outside self) self c d"
    "vault_inv balance_of world_ok held quiet self c"
  shows "vault_inv balance_of world_ok held quiet self d"
  using assms
proof (induction rule: frac_step.induct)
  case (share env s t w n)
  then have "frac_inv t" "vault_core t = vault_core s" using frac_share_keeps by (auto simp: vault_inv_def)
  then show ?case
    using share.prems vault_core_views [OF \<open>vault_core t = vault_core s\<close>] by (simp add: vault_inv_def vault_core_def)
next
  case (pay env w s w' t n)
  then show ?case using pay_inv by blast
next
  case (nft env n s n' t w)
  then show ?case using nft_inv by blast
next
  case (tokens w w' n s)
  then have "world_ok self w" by (simp add: vault_inv_def)
  then have "world_ok self w'" "balance_of w tok self \<le> balance_of w' tok self" for tok
    using tokens.hyps outside_ok outside_keeps by blast+
  then show ?case using tokens.prems by (simp add: vault_inv_def) (meson order_trans)
next
  case (registry n n' w s)
  then have "quiet self n" by (simp add: vault_inv_def)
  then have "quiet self n'" "held n k i self \<Longrightarrow> held n' k i self" for k i
    using registry.hyps outside_quiet outside_held by blast+
  then show ?case using registry.prems by (simp add: vault_inv_def)
qed

lemma vault_run:
  assumes "(frac_step transfer_call nft_move nft_owner (outside self) (nft_outside self) self)\<^sup>*\<^sup>* (w0, n0, empty_frac) c"
    "world_ok self w0" "quiet self n0"
  shows "vault_inv balance_of world_ok held quiet self c"
  using assms(1)
proof (induction rule: rtranclp_induct)
  case base
  then show ?case using assms(2,3) frac_inv_empty by (simp add: vault_inv_def empty_frac_def)
next
  case (step c d)
  then show ?case by (blast intro: step_inv)
qed

text \<open>After the settlement only claims change the core of the vault.\<close>

lemma settled_step:
  assumes "frac_step transfer_call nft_move nft_owner (outside self) (nft_outside self) self (w, n, s) (w', n', t)"
    "frac_inv s" "vault_state s = Settled"
  shows "vault_core t = vault_core s \<or>
    (0 < total_supply s \<and> keeps_worth s t \<and> total_supply t \<le> total_supply s \<and> 0 \<le> total_supply t \<and> vault_state t = Settled \<and>
     auction_info t = auction_info s \<and> PaymentToken t = PaymentToken s)"
proof -
  have pay: ?thesis if p: "frac_pay transfer_call env (w, s) (w', t)" for env
    using p
  proof cases
    case (claim a x y)
    have x: "0 < x" "x \<le> total_supply s" using claim_amount [OF claim assms(2)] by simp_all
    have "auction_info t = auction_info s" "PaymentToken t = PaymentToken s"
      using frac_claim_Ok [OF claim] by (auto simp: auction_info_def require_initialized_def)
    then show ?thesis using claim_keeps [OF claim assms(2)] x by simp
  qed (use assms(3) in \<open>auto dest!: start_auction_Ok bid_Ok\<close>)
  have nft: ?thesis if p: "frac_nft nft_move nft_owner env (n, s) (n', t)" for env
  proof -
    have cur: "Curator s \<noteq> None" using frac_invD(7) [OF assms(2)] assms(3) by (cases "Curator s") (auto simp: vault_state_def)
    have a: False if "initialize nft_move nft_owner env a b c (n, s) = Ok (u, n', t)" for a b c u
      using frac_initialize_Ok [OF that] cur by blast
    have b: False if "settle nft_move env (n, s) = Ok (u, n', t)" for u
      using frac_settle_Ok [OF that] assms(3) by auto
    from p show ?thesis by cases (use a b in blast)+
  qed
  show ?thesis using assms(1) by cases (use frac_share_keeps [OF _ assms(2)] pay nft in blast)+
qed

lemma settled_run:
  assumes "(frac_step transfer_call nft_move nft_owner (outside self) (nft_outside self) self)\<^sup>*\<^sup>* (w, n, s) d"
    "vault_inv balance_of world_ok held quiet self (w, n, s)" "vault_state s = Settled"
  shows "vault_inv balance_of world_ok held quiet self d \<and> vault_state (snd (snd d)) = Settled \<and> keeps_worth s (snd (snd d)) \<and>
    total_supply (snd (snd d)) \<le> total_supply s \<and> auction_info (snd (snd d)) = auction_info s \<and>
    PaymentToken (snd (snd d)) = PaymentToken s"
  using assms(1)
proof (induction rule: rtranclp_induct)
  case base
  then show ?case using assms(2,3) by (simp add: keeps_worth_def)
next
  case (step c d)
  obtain w1 n1 u where c: "c = (w1, n1, u)" by (cases c)
  obtain w2 n2 v where d: "d = (w2, n2, v)" by (cases d)
  have u: "vault_inv balance_of world_ok held quiet self (w1, n1, u)" "vault_state u = Settled" "keeps_worth s u"
    "total_supply u \<le> total_supply s" "auction_info u = auction_info s" "PaymentToken u = PaymentToken s" using step.IH by (simp_all add: c)
  have f: "frac_inv u" using u(1) by (simp add: vault_inv_def)
  have n: "0 \<le> total_supply s"
    using assms(2) total_bal_nonneg [of "Balances s"] frac_invD(2,3) [of s] by (simp add: vault_inv_def fraction_balance_def bal_def)
  have i: "vault_inv balance_of world_ok held quiet self (w2, n2, v)"
    using step_inv [OF step.hyps(2)] u(1) by (simp add: c d)
  consider "vault_core v = vault_core u" | "0 < total_supply u" "keeps_worth u v" "total_supply v \<le> total_supply u"
    "0 \<le> total_supply v" "vault_state v = Settled" "auction_info v = auction_info u" "PaymentToken v = PaymentToken u"
    using settled_step [OF step.hyps(2) [unfolded c d] f u(2)] by blast
  then show ?case
  proof cases
    case 1
    then show ?thesis using i u vault_core_views [OF 1] by (simp add: d keeps_worth_def)
  next
    case 2
    then show ?thesis using i u keeps_worth_trans [OF u(3) 2(2,1) n 2(4)] by (simp add: d)
  qed
qed

end

end
