(* ===== verification/Nft_Fractional_Correct.thy ===== *)
theory Nft_Fractional_Correct
  imports Token_Correct Erc721_Correct Nft_Books_Correct
begin

text \<open>
  The properties of the custody vault, run on the repository's token and on its NFT contract: custody and
  solvency, refunds, settlement, and fair claims; and what the weakness of the NFT contract does to it.
\<close>

interpretation repo_vault: fraction_vault world_balance world_transfer world_ok world_outside
    nft_world_move nft_world_owner nft_held nft_quiet nft_outside
  by unfold_locales

abbreviation repo_frac_step ::
    "address \<Rightarrow> token_world \<times> nft_world \<times> frac_state \<Rightarrow> token_world \<times> nft_world \<times> frac_state \<Rightarrow> bool" where
  "repo_frac_step self \<equiv> frac_step world_transfer nft_world_move nft_world_owner (world_outside self) (nft_outside self) self"

abbreviation repo_vault_inv :: "address \<Rightarrow> token_world \<times> nft_world \<times> frac_state \<Rightarrow> bool" where
  "repo_vault_inv \<equiv> vault_inv world_balance world_ok nft_held nft_quiet"

lemma reachable_vault:
  assumes "(repo_frac_step self)\<^sup>*\<^sup>* (w0, n0, empty_frac) (w, n, s)" "world_ok self w0" "nft_quiet self n0"
  shows "repo_vault_inv self (w, n, s)" "frac_inv s" "world_ok self w" "nft_quiet self n"
    "PaymentToken s = Some tok \<Longrightarrow> escrow s \<le> world_balance w tok self"
    "NftContract s = Some k \<Longrightarrow> NftId s = Some i \<Longrightarrow> vault_state s \<noteq> Settled \<Longrightarrow> nft_held n k i self"
    "AuctionKey s = Some c \<Longrightarrow> bidder c \<noteq> self"
proof -
  show inv: "repo_vault_inv self (w, n, s)" using repo_vault.vault_run [OF assms] .
  show "frac_inv s" "world_ok self w" "nft_quiet self n" "PaymentToken s = Some tok \<Longrightarrow> escrow s \<le> world_balance w tok self"
    "NftContract s = Some k \<Longrightarrow> NftId s = Some i \<Longrightarrow> vault_state s \<noteq> Settled \<Longrightarrow> nft_held n k i self"
    "AuctionKey s = Some c \<Longrightarrow> bidder c \<noteq> self"
    using inv by (simp_all add: vault_inv_def)
qed

lemma vault_info_Ok:
  assumes "vault_info s = Ok v"
  shows "Curator s \<noteq> None" "NftContract s = Some (nft_contract v)" "NftId s = Some (nft_id v)"
    "PaymentToken s = Some (payment_token v)" "MinIncrementBps s = Some (min_increment_bps v)" "vault_status v = vault_state s"
  using assms by (auto simp: vault_info_def)

lemma auction_info_Ok: "auction_info s = Ok c \<longleftrightarrow> Curator s \<noteq> None \<and> AuctionKey s = Some c"
  by (auto simp: auction_info_def)

section \<open>A concrete run\<close>

text \<open>
  Holder 5 locks token 7 of NFT contract 30 and gets 1000 fractions, bidder 8 opens the auction with 100000,
  5 bids 105000, the auction is settled and 5 sells 400 fractions to 8.
\<close>

definition rich_after :: "(address \<times> address \<times> int) list \<Rightarrow> token_world" where
  "rich_after l = rich_world (fold (\<lambda>(a, b, x). moved a b x) l rich_holdings)
     ([Token_Contract.Ev_Mint 5 600000, Token_Contract.Ev_Mint 8 400000] @ map (\<lambda>(a, b, x). Token_Contract.Ev_Transfer a b x) l)"

lemma rich_after_transfer:
  assumes "auth env a" "0 < x" "x \<le> world_balance (rich_after l) 40 a" "world_balance (rich_after l) 40 a \<le> 1000000"
    "0 \<le> world_balance (rich_after (l @ [(a, c, x)])) 40 c" "world_balance (rich_after (l @ [(a, c, x)])) 40 c \<le> 1000000"
  shows "world_transfer 40 env a c x (rich_after l) = Some (rich_after (l @ [(a, c, x)]))"
  unfolding rich_after_def
  by (subst rich_transfer) (use assms in \<open>simp_all add: rich_after_def rich_balance in_i128_def i128_max_def i128_min_def\<close>)

lemma rich_after_balance:
  "world_balance (rich_after []) 40 b = bal rich_holdings b"
  "world_balance (rich_after (l @ [(a, c, x)])) 40 b =
     world_balance (rich_after l) 40 b - (if b = a then x else 0) + (if b = c then x else 0)"
  by (simp_all add: rich_after_def rich_balance bal_moved)

definition demo_nfts :: nft_world where
  "demo_nfts = (\<lambda>k. if k = 30 then demo_erc\<lparr>Approved := [7 \<mapsto> 99]\<rparr> else empty_erc)"

definition demo_nfts_locked :: nft_world where
  "demo_nfts_locked = demo_nfts(30 := demo_erc\<lparr>Owner := [7 \<mapsto> 99, 8 \<mapsto> 5], Erc721.Balance := [5 \<mapsto> 1, 99 \<mapsto> 1],
     erc_state.events := [Erc721.Ev_Transfer 1 5 7, Erc721.Ev_Transfer 1 5 8, Erc721.Ev_Transfer 5 99 7]\<rparr>)"

definition demo_config :: InitConfig where
  "demo_config = \<lparr>cfg_nft_contract = 30, cfg_nft_id = 7, cfg_payment_token = 40, cfg_total_supply = 1000,
     cfg_name = ''Fraction'', cfg_symbol = ''FRC'', cfg_reserve_price = 100000, cfg_auction_duration = 100,
     cfg_min_increment_bps = 500\<rparr>"

definition demo_frac :: frac_state where
  "demo_frac = \<lparr>Curator = Some 1, NftContract = Some 30, NftId = Some 7, PaymentToken = Some 40, ReservePrice = Some 100000,
     AuctionDuration = Some 100, MinIncrementBps = Some 500, Status = Some Fractionalized, TokenName = Some ''Fraction'',
     TokenSymbol = Some ''FRC'', Supply = Some 1000, AuctionKey = None, Proceeds = Some 0, Balances = [5 \<mapsto> 1000],
     Allowances = Map.empty, events = [Ev_fraction 5 30 7 1000]\<rparr>"

definition demo_frac_open :: frac_state where
  "demo_frac_open = publish (Ev_auc_start 8 100000 110)
     (demo_frac\<lparr>AuctionKey := Some \<lparr>bidder = 8, high_bid = 100000, end_time = 110\<rparr>, Status := Some Auction\<rparr>)"

definition demo_frac_bid :: frac_state where
  "demo_frac_bid = publish (Ev_bid 5 105000)
     (demo_frac_open\<lparr>AuctionKey := Some \<lparr>bidder = 5, high_bid = 105000, end_time = 110\<rparr>\<rparr>)"

definition demo_frac_settled :: frac_state where
  "demo_frac_settled = publish (Ev_settled 5 105000) (demo_frac_bid\<lparr>Status := Some Settled, Proceeds := Some 105000\<rparr>)"

definition demo_frac_sold :: frac_state where
  "demo_frac_sold = publish (Ev_transfer 5 8 400) (demo_frac_settled\<lparr>Balances := [5 \<mapsto> 600, 8 \<mapsto> 400]\<rparr>)"

definition demo_frac_claimed :: frac_state where
  "demo_frac_claimed = publish (Ev_claim 8 400 42000)
     (demo_frac_sold\<lparr>Balances := [5 \<mapsto> 600], Supply := Some 600, Proceeds := Some 63000\<rparr>)"

lemmas demo_frac_states = demo_frac_claimed_def demo_frac_sold_def demo_frac_settled_def demo_frac_bid_def demo_frac_open_def
  demo_frac_def publish_def

lemma demo_nft_lock:
  "nft_world_move 30 (subcall_env (host_env 5) 30) 99 5 99 7 demo_nfts = Some demo_nfts_locked"
proof -
  have "Erc721.transfer_from (subcall_env (host_env 5) 30) 99 5 99 7 (demo_erc\<lparr>Approved := [7 \<mapsto> 99]\<rparr>) = Ok ((), demo_nfts_locked 30)"
    by (simp add: demo_erc_eval demo_erc_def demo_nfts_locked_def fun_upd_twist)
  moreover have "demo_nfts(30 := demo_nfts_locked 30) = demo_nfts_locked" by (simp add: demo_nfts_locked_def)
  ultimately show ?thesis by (simp add: nft_world_move_Some) (simp add: demo_nfts_def)
qed

lemma demo_initialize:
  "initialize nft_world_move nft_world_owner (host_env 5) 1 5 demo_config (demo_nfts, empty_frac) = Ok ((), demo_nfts_locked, demo_frac)"
proof -
  have "nft_world_owner 30 7 demo_nfts_locked = Some 99"
    by (simp add: nft_world_owner_Some demo_nfts_locked_def demo_erc_def empty_erc_def)
  then show ?thesis
    using demo_nft_lock
    by (simp add: initialize_def demo_config_def empty_frac_def MAX_BPS_def MAX_METADATA_LEN_def set_balance_def publish_def Let_def
        require_auth_def demo_frac_def)
qed


text \<open>The payments of the run: two bids, one refund, one claim.\<close>

definition demo_payments :: "(address \<times> address \<times> int) list" where
  "demo_payments = [(8, 99, 100000), (5, 99, 105000), (99, 8, 100000), (99, 8, 42000)]"

lemma demo_balances:
  "world_balance (rich_after []) 40 a = (if a = 5 then 600000 else if a = 8 then 400000 else 0)"
  "world_balance (rich_after [(8, 99, 100000)]) 40 a =
     world_balance (rich_after []) 40 a - (if a = 8 then 100000 else 0) + (if a = 99 then 100000 else 0)"
  "world_balance (rich_after [(8, 99, 100000), (5, 99, 105000)]) 40 a =
     world_balance (rich_after [(8, 99, 100000)]) 40 a - (if a = 5 then 105000 else 0) + (if a = 99 then 105000 else 0)"
  "world_balance (rich_after [(8, 99, 100000), (5, 99, 105000), (99, 8, 100000)]) 40 a =
     world_balance (rich_after [(8, 99, 100000), (5, 99, 105000)]) 40 a - (if a = 99 then 100000 else 0) + (if a = 8 then 100000 else 0)"
  "world_balance (rich_after demo_payments) 40 a =
     world_balance (rich_after [(8, 99, 100000), (5, 99, 105000), (99, 8, 100000)]) 40 a - (if a = 99 then 42000 else 0) + (if a = 8 then 42000 else 0)"
  using rich_after_balance(2) [of "[]"] rich_after_balance(2) [of "[(8, 99, 100000)]"]
    rich_after_balance(2) [of "[(8, 99, 100000), (5, 99, 105000)]"]
    rich_after_balance(2) [of "[(8, 99, 100000), (5, 99, 105000), (99, 8, 100000)]"]
  by (simp_all add: rich_after_balance(1) rich_holdings_def demo_payments_def)

lemma demo_pays:
  "world_transfer 40 (subcall_env (host_env 10) 40) 8 99 100000 (rich_after []) = Some (rich_after [(8, 99, 100000)])"
  "world_transfer 40 (subcall_env (host_env 20) 40) 5 99 105000 (rich_after [(8, 99, 100000)]) =
     Some (rich_after [(8, 99, 100000), (5, 99, 105000)])"
  "world_transfer 40 (subcall_env (host_env 20) 40) 99 8 100000 (rich_after [(8, 99, 100000), (5, 99, 105000)]) =
     Some (rich_after [(8, 99, 100000), (5, 99, 105000), (99, 8, 100000)])"
  "world_transfer 40 (subcall_env (host_env 140) 40) 99 8 42000 (rich_after [(8, 99, 100000), (5, 99, 105000), (99, 8, 100000)]) =
     Some (rich_after demo_payments)"
  using rich_after_transfer [of "subcall_env (host_env 10) 40" 8 100000 "[]" 99]
    rich_after_transfer [of "subcall_env (host_env 20) 40" 5 105000 "[(8, 99, 100000)]" 99]
    rich_after_transfer [of "subcall_env (host_env 20) 40" 99 100000 "[(8, 99, 100000), (5, 99, 105000)]" 8]
    rich_after_transfer [of "subcall_env (host_env 140) 40" 99 42000 "[(8, 99, 100000), (5, 99, 105000), (99, 8, 100000)]" 8]
  by (simp_all add: demo_balances flip: demo_payments_def)

lemma demo_start:
  "start_auction world_transfer (host_env 10) 8 100000 (rich_after [], demo_frac) = Ok ((), rich_after [(8, 99, 100000)], demo_frac_open)"
  using demo_pays(1)
  by (simp add: start_auction_def require_initialized_def vault_state_def transfer_payment_def get_payment_token_def require_auth_def
      u64_checked_add_def u64_max_def demo_frac_states)

lemma demo_raise: "mul_div 100000 500 (int MAX_BPS) True = Ok 5000"
proof -
  have "mul_div 100000 500 10000 True =
    (if exact_quotient 100000 500 10000 True \<le> i128_max then Ok (exact_quotient 100000 500 10000 True) else Err frac_error.ArithmeticOverflow)"
    by (rule frac_mul_div) (simp_all add: in_i128_def i128_max_def i128_min_def)
  then show ?thesis by (simp add: exact_quotient_def i128_max_def MAX_BPS_def)
qed

lemma demo_bid:
  "bid world_transfer (host_env 20) 5 105000 (rich_after [(8, 99, 100000)], demo_frac_open) =
     Ok ((), rich_after [(8, 99, 100000), (5, 99, 105000), (99, 8, 100000)], demo_frac_bid)"
  using demo_pays(2,3) demo_raise
  by (simp add: bid_def require_initialized_def vault_state_def transfer_payment_def get_payment_token_def require_auth_def Let_def
      checked_add_def in_i128_def i128_max_def i128_min_def demo_frac_states)

definition demo_nfts_won :: nft_world where
  "demo_nfts_won = the (nft_world_move 30 (subcall_env (host_env 120) 30) 99 99 5 7 demo_nfts_locked)"

lemma demo_nft_hand: "nft_world_move 30 (subcall_env (host_env 120) 30) 99 99 5 7 demo_nfts_locked = Some demo_nfts_won"
proof -
  have "nft_held demo_nfts_locked 30 7 99" by (simp add: nft_held_def demo_nfts_locked_def demo_erc_def empty_erc_def)
  then show ?thesis using repo_nft.holder_moves [of demo_nfts_locked 30 7 99 "subcall_env (host_env 120) 30" 5]
    by (auto simp: demo_nfts_won_def)
qed

lemma demo_settle: "settle nft_world_move (host_env 120) (demo_nfts_locked, demo_frac_bid) = Ok ((), demo_nfts_won, demo_frac_settled)"
  using demo_nft_hand by (simp add: settle_def require_initialized_def vault_state_def Let_def demo_frac_states)

lemma demo_sale: "transfer (host_env 130) 5 8 400 demo_frac_settled = Ok ((), demo_frac_sold)"
  by (simp add: transfer_def move_balance_def require_initialized_def require_auth_def fraction_balance_def set_balance_def Let_def
      i128_sub_def checked_add_def in_i128_def i128_max_def i128_min_def demo_frac_states)

lemma demo_frac_claim:
  "claim world_transfer (host_env 140) 8 400 (rich_after [(8, 99, 100000), (5, 99, 105000), (99, 8, 100000)], demo_frac_sold) =
     Ok (42000, rich_after demo_payments, demo_frac_claimed)"
proof -
  have "mul_div 400 105000 1000 False =
    (if exact_quotient 400 105000 1000 False \<le> i128_max then Ok (exact_quotient 400 105000 1000 False) else Err frac_error.ArithmeticOverflow)"
    by (rule frac_mul_div) (simp_all add: in_i128_def i128_max_def i128_min_def)
  then have "mul_div 400 105000 1000 False = Ok 42000" by (simp add: exact_quotient_def i128_max_def)
  then show ?thesis
    using demo_pays(4)
    by (simp add: claim_def require_initialized_def vault_state_def require_auth_def fraction_balance_def set_balance_def Let_def
        i128_sub_def in_i128_def i128_max_def i128_min_def transfer_payment_def get_payment_token_def demo_frac_states)
qed

lemma demo_worlds_ok: "world_ok 99 (rich_after [])" "nft_quiet 99 demo_nfts"
  using rich_ledger_ok by (simp_all add: rich_after_def rich_ledger_def nft_quiet_def demo_nfts_def demo_erc_def empty_erc_def)

lemma host_signs: "\<not> auth (host_env n) 99" "current_contract (host_env n) = 99"
  by simp_all

lemma demo_frac_run:
  defines "run \<equiv> (repo_frac_step 99)\<^sup>*\<^sup>* (rich_after [], demo_nfts, empty_frac)"
  defines "w3 \<equiv> rich_after [(8, 99, 100000), (5, 99, 105000), (99, 8, 100000)]"
  shows "run (rich_after [(8, 99, 100000)], demo_nfts_locked, demo_frac_open)" "run (w3, demo_nfts_locked, demo_frac_bid)"
    "run (w3, demo_nfts_won, demo_frac_settled)"
    "(repo_frac_step 99)\<^sup>*\<^sup>* (w3, demo_nfts_won, demo_frac_settled) (w3, demo_nfts_won, demo_frac_sold)"
proof -
  have s1: "repo_frac_step 99 (rich_after [], demo_nfts, empty_frac) (rich_after [], demo_nfts_locked, demo_frac)"
    by (rule frac_step.nft [OF host_signs], rule frac_nft.initialize [OF _ _ demo_initialize])
      (simp_all add: demo_config_def in_i128_def i128_max_def i128_min_def)
  have s2: "repo_frac_step 99 (rich_after [], demo_nfts_locked, demo_frac) (rich_after [(8, 99, 100000)], demo_nfts_locked, demo_frac_open)"
    by (rule frac_step.pay [OF host_signs], rule frac_pay.start [OF _ demo_start])
      (simp_all add: in_i128_def i128_max_def i128_min_def)
  have s3: "repo_frac_step 99 (rich_after [(8, 99, 100000)], demo_nfts_locked, demo_frac_open) (w3, demo_nfts_locked, demo_frac_bid)"
    unfolding w3_def by (rule frac_step.pay [OF host_signs], rule frac_pay.bid [OF _ demo_bid])
      (simp_all add: in_i128_def i128_max_def i128_min_def)
  have s4: "repo_frac_step 99 (w3, demo_nfts_locked, demo_frac_bid) (w3, demo_nfts_won, demo_frac_settled)"
    by (rule frac_step.nft [OF host_signs], rule frac_nft.settle [OF demo_settle])
  have s5: "repo_frac_step 99 (w3, demo_nfts_won, demo_frac_settled) (w3, demo_nfts_won, demo_frac_sold)"
    by (rule frac_step.share [OF host_signs], rule frac_share.transfer [OF demo_sale])
  have r0: "run (rich_after [], demo_nfts_locked, demo_frac)" using s1 unfolding run_def by (rule r_into_rtranclp)
  show r1: "run (rich_after [(8, 99, 100000)], demo_nfts_locked, demo_frac_open)"
    using r0 s2 unfolding run_def by (rule rtranclp.rtrancl_into_rtrancl)
  show r2: "run (w3, demo_nfts_locked, demo_frac_bid)" using r1 s3 unfolding run_def by (rule rtranclp.rtrancl_into_rtrancl)
  show "run (w3, demo_nfts_won, demo_frac_settled)" using r2 s4 unfolding run_def by (rule rtranclp.rtrancl_into_rtrancl)
  show "(repo_frac_step 99)\<^sup>*\<^sup>* (w3, demo_nfts_won, demo_frac_settled) (w3, demo_nfts_won, demo_frac_sold)"
    using s5 by (rule r_into_rtranclp)
qed


section \<open>Properties\<close>

text \<open>
  C24. Custody and cover, as long as everybody else names a token's owner as \<open>from\<close> in every transfer of the NFT
  contract (\<open>erc_fair\<close>; the contract does not check it, and \<open>theft_blocks_settlement\<close> below shows that custody
  fails without it). In every state reachable in such a world the fractions add up to the supply;
  until the settlement the vault owns the NFT; during the auction it holds at least the high bid, and
  afterwards at least the unclaimed proceeds, which are gone exactly when no fraction is left.
\<close>

theorem vault_keeps_custody:
  assumes "(repo_frac_step self)\<^sup>*\<^sup>* (w0, n0, empty_frac) (w, n, s)" "world_ok self w0" "nft_quiet self n0" "vault_info s = Ok v"
  shows "total_bal (Balances s) = total_supply s \<and>
    (vault_status v \<noteq> Settled \<longrightarrow> nft_world_owner (nft_contract v) (nft_id v) n = Some self) \<and>
    (vault_status v = Auction \<longrightarrow> (\<exists>c. auction_info s = Ok c \<and> high_bid c \<le> world_balance w (payment_token v) self)) \<and>
    (vault_status v = Settled \<longrightarrow> remaining_proceeds s \<le> world_balance w (payment_token v) self \<and>
       (remaining_proceeds s = 0 \<longleftrightarrow> total_supply s = 0))"
proof -
  note r = reachable_vault [OF assms(1-3)] and v = vault_info_Ok [OF assms(4)]
  have "total_bal (Balances s) = total_supply s" by (rule frac_invD(3) [OF r(2)])
  moreover have "nft_world_owner (nft_contract v) (nft_id v) n = Some self" if "vault_status v \<noteq> Settled"
    using repo_nft.held_owner [OF r(6) [OF v(2,3)]] that v(6) by simp
  moreover have "\<exists>c. auction_info s = Ok c \<and> high_bid c \<le> world_balance w (payment_token v) self" if "vault_status v = Auction"
    using auction_at [OF r(2)] r(5) [OF v(4)] that v(1,6) by (fastforce simp: auction_info_Ok)
  moreover have "remaining_proceeds s \<le> world_balance w (payment_token v) self \<and> (remaining_proceeds s = 0 \<longleftrightarrow> total_supply s = 0)"
    if "vault_status v = Settled"
    using r(5) [OF v(4)] frac_invD(6) [OF r(2)] that v(6) by (auto simp: escrow_def auction_ok_def)
  ultimately show ?thesis by blast
qed

definition demo_vault_info :: "VaultStatus \<Rightarrow> VaultInfo" where
  "demo_vault_info st = \<lparr>curator = 1, nft_contract = 30, nft_id = 7, payment_token = 40, reserve_price = 100000,
     auction_duration = 100, min_increment_bps = 500, vault_status = st\<rparr>"

lemma demo_vault_infos:
  "vault_info demo_frac_bid = Ok (demo_vault_info Auction)" "vault_info demo_frac_settled = Ok (demo_vault_info Settled)"
  "vault_info demo_frac_open = Ok (demo_vault_info Auction)"
  by (simp_all add: vault_info_def require_initialized_def get_payment_token_def vault_state_def demo_vault_info_def demo_frac_states)

theorem vault_keeps_custody_witness:
  "nft_world_owner 30 7 demo_nfts_locked = Some 99 \<and> total_bal (Balances demo_frac_bid) = 1000"
proof -
  have "total_supply demo_frac_bid = 1000" by (simp add: total_supply_def demo_frac_states)
  then show ?thesis
    using vault_keeps_custody [OF demo_frac_run(2) demo_worlds_ok demo_vault_infos(1)] by (simp add: demo_vault_info_def)
qed

text \<open>
  C27. A bidder is never out of pocket: while the auction runs (in the same fair NFT world), whoever signs a bid that exceeds the high bid
  by the minimum increment, and can pay it, becomes the high bidder, and the previous bidder gets the
  whole earlier bid back in the same call.
\<close>

theorem outbid_is_refunded:
  assumes run: "(repo_frac_step self)\<^sup>*\<^sup>* (w0, n0, empty_frac) (w, n, s)" "world_ok self w0" "nft_quiet self n0"
    and v: "vault_info s = Ok v" "vault_status v = Auction" and c: "auction_info s = Ok c" "timestamp env < end_time c"
    and env: "auth env a" "current_contract env = self"
    and x: "in_i128 x" "high_bid c * (10000 + int (min_increment_bps v)) \<le> x * 10000"
    and paid: "world_transfer (payment_token v) (subcall_env env (payment_token v)) a self x w = Some w1"
  shows "\<exists>w' t. bid world_transfer env a x (w, s) = Ok ((), w', t) \<and> high_bid c < x \<and>
    auction_info t = Ok \<lparr>bidder = a, high_bid = x, end_time = end_time c\<rparr> \<and>
    world_balance w' (payment_token v) (bidder c) = world_balance w1 (payment_token v) (bidder c) + high_bid c"
proof -
  note r = reachable_vault [OF run] and vi = vault_info_Ok [OF v(1)]
  let ?tok = "payment_token v" and ?b = "min_increment_bps v" and ?h = "high_bid c"
  have st: "vault_state s = Auction" "AuctionKey s = Some c" using v(2) vi(6) c(1) by (simp_all add: auction_info_Ok)
  have h: "0 < ?h" "?h \<le> i128_max" "escrow s = ?h" using auction_at [OF r(2) st(1)] st(2) by auto
  have "configured s" using frac_invD(4) [OF r(2) vi(1)] .
  then have b: "0 < ?b" "?b \<le> MAX_BPS" using vi(5) by (auto simp: configured_def)
  have i: "in_i128 ?h" "in_i128 (int ?b)" "in_i128 (int MAX_BPS)" "0 < int MAX_BPS"
    using h b by (auto simp: in_i128_def i128_max_def i128_min_def MAX_BPS_def)
  let ?q = "exact_quotient ?h (int ?b) (int MAX_BPS) True"
  have "?q \<le> x - ?h"
    using ceil_div_le_iff [of 10000 "?h * int ?b" "x - ?h"] x(2) by (simp add: exact_quotient_def MAX_BPS_def algebra_simps)
  then have q: "0 < ?q" "?h + ?q \<le> x" using increment_pos [OF h(1) b(1)] by simp_all
  then have md: "mul_div ?h (int ?b) (int MAX_BPS) True = Ok ?q"
    using frac_mul_div [OF less_imp_le [OF h(1)] of_nat_0_le_iff i(4) i(1-3)] x(1) h(1) by (simp add: in_i128_def)
  have fit: "in_i128 (?h + ?q)" using q h(1) x(1) by (simp add: in_i128_def i128_min_def)
  have bd: "bidder c \<noteq> self" by (rule r(7) [OF st(2)])
  have "?h \<le> world_balance w1 ?tok self"
  proof (cases "a = self")
    case True
    then show ?thesis using repo_token.transfer_effect [OF paid, of self] r(5) [OF vi(4)] h(3) by simp
  next
    case False
    then show ?thesis using repo_token.deposit_effect(1) [OF paid False] r(5) [OF vi(4)] h(1,3) q by linarith
  qed
  then obtain w' where w': "world_transfer ?tok (subcall_env env ?tok) self (bidder c) ?h w1 = Some w'"
    using world_transfer_succeeds [OF repo_host.transfer_keeps_ok [OF r(3) paid] h(1)] env(2) by fastforce
  let ?t = "publish (Ev_bid a x) (s\<lparr>AuctionKey := Some \<lparr>bidder = a, high_bid = x, end_time = end_time c\<rparr>\<rparr>)"
  have "bid world_transfer env a x (w, s) = Ok ((), w', ?t)"
    using vi(1,4,5) st c(2) md fit q(2) env paid w' by (simp add: bid_def Let_def)
  moreover have "auction_info ?t = Ok \<lparr>bidder = a, high_bid = x, end_time = end_time c\<rparr>" using vi(1) by (simp add: auction_info_Ok)
  ultimately show ?thesis using repo_token.deposit_effect(1) [OF w'] bd q by auto
qed

theorem outbid_is_refunded_witness:
  "\<exists>w' t. bid world_transfer (host_env 20) 5 105000 (rich_after [(8, 99, 100000)], demo_frac_open) = Ok ((), w', t) \<and>
    world_balance w' 40 8 = 400000"
proof -
  let ?c = "\<lparr>bidder = 8, high_bid = 100000, end_time = 110\<rparr>"
  have c: "auction_info demo_frac_open = Ok ?c" by (simp add: auction_info_Ok demo_frac_states)
  have "\<exists>w' t. bid world_transfer (host_env 20) 5 105000 (rich_after [(8, 99, 100000)], demo_frac_open) = Ok ((), w', t) \<and>
      high_bid ?c < 105000 \<and> auction_info t = Ok \<lparr>bidder = 5, high_bid = 105000, end_time = end_time ?c\<rparr> \<and>
      world_balance w' (payment_token (demo_vault_info Auction)) (bidder ?c) =
        world_balance (rich_after [(8, 99, 100000), (5, 99, 105000)]) (payment_token (demo_vault_info Auction)) (bidder ?c) + high_bid ?c"
    by (rule outbid_is_refunded [OF demo_frac_run(1) demo_worlds_ok demo_vault_infos(3) _ c])
      (use demo_pays(2) in \<open>simp_all add: demo_vault_info_def in_i128_def i128_max_def i128_min_def\<close>)
  then show ?thesis by (simp add: demo_vault_info_def demo_balances) blast
qed

text \<open>
  C26. An auction always ends: once the deadline has passed, anybody's call of \<open>settle\<close> succeeds, whatever the
  fair rest of the world did before; the high bidder then owns the NFT and the whole bid is set aside
  for the fractions.
\<close>

theorem auction_always_settles:
  assumes run: "(repo_frac_step self)\<^sup>*\<^sup>* (w0, n0, empty_frac) (w, n, s)" "world_ok self w0" "nft_quiet self n0"
    and v: "vault_info s = Ok v" "vault_status v = Auction" and c: "auction_info s = Ok c" "end_time c \<le> timestamp env"
    and env: "current_contract env = self"
  shows "\<exists>n' t. settle nft_world_move env (n, s) = Ok ((), n', t) \<and>
    nft_world_owner (nft_contract v) (nft_id v) n' = Some (bidder c) \<and> vault_state t = Settled \<and>
    remaining_proceeds t = high_bid c \<and> total_supply t = total_supply s"
proof -
  note r = reachable_vault [OF run] and vi = vault_info_Ok [OF v(1)]
  let ?k = "nft_contract v" and ?i = "nft_id v"
  have st: "vault_state s = Auction" "AuctionKey s = Some c" using v(2) vi(6) c(1) by (simp_all add: auction_info_Ok)
  have hd: "nft_held n ?k ?i self" using r(6) [OF vi(2,3)] st(1) by simp
  then obtain n' where n': "nft_world_move ?k (subcall_env env ?k) self self (bidder c) ?i n = Some n'"
    using repo_nft.holder_moves [of n ?k ?i self "subcall_env env ?k"] env by auto
  have "nft_world_owner ?k ?i n' = Some (bidder c)"
    using n' by (auto simp: nft_world_move_Some nft_world_owner_Some dest!: erc_transfer_from_Ok)
  moreover have "settle nft_world_move env (n, s) =
      Ok ((), n', publish (Ev_settled (bidder c) (high_bid c)) (s\<lparr>Status := Some Settled, Proceeds := Some (high_bid c)\<rparr>))"
    using vi(1-3) st c(2) n' env by (simp add: settle_def Let_def)
  ultimately show ?thesis
    by (auto simp: vault_state_def remaining_proceeds_def total_supply_def)
qed

theorem auction_always_settles_witness:
  "\<exists>n' t. settle nft_world_move (host_env 120) (demo_nfts_locked, demo_frac_bid) = Ok ((), n', t) \<and>
    nft_world_owner 30 7 n' = Some 5 \<and> remaining_proceeds t = 105000"
proof -
  have c: "auction_info demo_frac_bid = Ok \<lparr>bidder = 5, high_bid = 105000, end_time = 110\<rparr>"
    by (simp add: auction_info_Ok demo_frac_states)
  show ?thesis
    using auction_always_settles [OF demo_frac_run(2) demo_worlds_ok demo_vault_infos(1) _ c, of "host_env 120"]
    by (simp add: demo_vault_info_def) blast
qed

text \<open>
  C25. Claims are fair: let \<open>y\<close> be the rounded-down share of the remaining proceeds that falls to a holder's \<open>x\<close>
  fractions at any time after the settlement (in the same fair NFT world). It is never less than it was
  right after the settlement, whoever claimed or traded in between and in whatever order. If it is
  positive the claim succeeds and pays exactly \<open>y\<close>; if it is zero, because \<open>x\<close> is a dust amount, the claim is
  refused with \<open>NothingToClaim\<close>.
\<close>

theorem fractions_pay_fairly:
  assumes run: "(repo_frac_step self)\<^sup>*\<^sup>* (w0, n0, empty_frac) (w1, n1, s1)" "world_ok self w0" "nft_quiet self n0"
    and v: "vault_info s1 = Ok v" "vault_status v = Settled"
    and later: "(repo_frac_step self)\<^sup>*\<^sup>* (w1, n1, s1) (w, n, s)"
    and env: "auth env a" "current_contract env = self" "a \<noteq> self"
    and x: "0 < x" "x \<le> pub_balance a s" and y: "y = x * remaining_proceeds s div total_supply s"
  shows "x * remaining_proceeds s1 div total_supply s1 \<le> y \<and>
    (0 < y \<longrightarrow> (\<exists>w' t. claim world_transfer env a x (w, s) = Ok (y, w', t) \<and>
       world_balance w' (payment_token v) a = world_balance w (payment_token v) a + y \<and>
       pub_balance a t = pub_balance a s - x)) \<and>
    (y = 0 \<longrightarrow> claim world_transfer env a x (w, s) = Err NothingToClaim) \<and> 0 \<le> y"
proof -
  note r1 = reachable_vault [OF run] and vi1 = vault_info_Ok [OF v(1)]
  have run': "(repo_frac_step self)\<^sup>*\<^sup>* (w0, n0, empty_frac) (w, n, s)" using run(1) later by (rule rtranclp_trans)
  note r = reachable_vault [OF run' run(2,3)]
  let ?tok = "payment_token v" and ?p = "remaining_proceeds s" and ?v = "total_supply s"
  have k: "vault_state s = Settled" "keeps_worth s1 s" "?v \<le> total_supply s1"
    using repo_vault.settled_run [OF later r1(1)] v(2) vi1(6) by simp_all
  have cur: "Curator s \<noteq> None" using frac_invD(7) [OF r(2)] k(1) by (cases "Curator s") (auto simp: vault_state_def)
  have cf: "configured s" by (rule frac_invD(4) [OF r(2) cur])
  have bal: "x \<le> fraction_balance s a" "fraction_balance s a \<le> ?v" using x(2) fraction_le_supply [OF r(2)] by (simp_all add: pub_balance_def)
  have sup: "0 < ?v" "?v \<le> i128_max" "Supply s = Some ?v" "Proceeds s = Some ?p"
    using x(1) bal cf by (auto simp: configured_def total_supply_def remaining_proceeds_def)
  have pr: "0 \<le> ?p" "?p \<le> i128_max" using frac_invD(6) [OF r(2)] k(1) by (auto simp: auction_ok_def)
  have fair: "x * remaining_proceeds s1 div total_supply s1 \<le> y"
    unfolding y by (rule worth_pays [OF k(2)]) (use sup(1) k(3) x(1) in simp_all)
  have xv: "x \<le> ?v" using bal by simp
  have i: "in_i128 x" "in_i128 ?p" "in_i128 ?v" using xv sup pr x(1) by (auto simp: in_i128_def i128_min_def)
  note Q = claim_quotient [OF x(1) xv pr(1)]
  have yq: "y = exact_quotient x ?p ?v False" by (simp add: y exact_quotient_def)
  have md: "mul_div x ?p ?v False = Ok y" using frac_mul_div [OF less_imp_le [OF x(1)] pr(1) sup(1) i] Q(2) pr(2) yq by simp
  have tok: "PaymentToken s = Some ?tok" using repo_vault.settled_run [OF later r1(1)] v(2) vi1(4,6) by simp
  have pay: "(if x = ?v then Ok ?p else mul_div x ?p ?v False) = Ok y" using md Q(3) yq by simp
  have "\<exists>w' t. claim world_transfer env a x (w, s) = Ok (y, w', t) \<and>
      world_balance w' ?tok a = world_balance w ?tok a + y \<and> pub_balance a t = pub_balance a s - x" if pos: "0 < y"
  proof -
    have "y \<le> world_balance w ?tok self" using r(5) [OF tok] k(1) Q(2) yq by (simp add: escrow_def)
    then obtain w' where w': "world_transfer ?tok (subcall_env env ?tok) self a y w = Some w'"
      using world_transfer_succeeds [OF r(3) pos] env(2) by fastforce
    have fits: "in_i128 (fraction_balance s a - x)" "in_i128 (?v - x)" "in_i128 (?p - y)"
      using bal xv sup(2) pr x(1) pos Q(2) yq by (auto simp: in_i128_def i128_min_def)
    obtain t where t: "claim world_transfer env a x (w, s) = Ok (y, w', t)"
      using cur k(1) env x(1) bal(1) sup(3,4) pay pos fits tok w' by (simp add: claim_def Let_def i128_sub_def)
    show ?thesis using t repo_token.deposit_effect(1) [OF w'] env(3) frac_claim_Ok [OF t]
      by (auto simp: pub_balance_def fraction_balance_def set_balance_def publish_def)
  qed
  moreover have "claim world_transfer env a x (w, s) = Err NothingToClaim" if "y = 0"
    using cur k(1) env x(1) bal(1) sup(3,4) pay that by (simp add: claim_def Let_def)
  moreover have "0 \<le> y" using x(1) pr(1) sup(1) by (simp add: y pos_imp_zdiv_nonneg_iff)
  ultimately show ?thesis using fair by blast
qed

theorem fractions_pay_fairly_witness:
  "\<exists>w' t. claim world_transfer (host_env 140) 8 400 (rich_after [(8, 99, 100000), (5, 99, 105000), (99, 8, 100000)], demo_frac_sold) =
      Ok (42000, w', t) \<and> pub_balance 8 t = 0"
proof -
  have e: "auth (host_env 140) 8" "current_contract (host_env 140) = 99" "(8::address) \<noteq> 99" by simp_all
  have s: "remaining_proceeds demo_frac_sold = 105000" "total_supply demo_frac_sold = 1000" "pub_balance 8 demo_frac_sold = 400"
    "vault_status (demo_vault_info Settled) = Settled"
    by (simp_all add: remaining_proceeds_def total_supply_def pub_balance_def fraction_balance_def demo_vault_info_def demo_frac_states)
  have y: "42000 = 400 * remaining_proceeds demo_frac_sold div total_supply demo_frac_sold" by (simp add: s)
  have x: "(0::int) < 400" "400 \<le> pub_balance 8 demo_frac_sold" by (simp_all add: s)
  show ?thesis
    using fractions_pay_fairly [OF demo_frac_run(3) demo_worlds_ok demo_vault_infos(2) s(4) demo_frac_run(4) e x y] by (auto simp: s)
qed

text \<open>What the NFT contract must not say about the vault for a transfer signed by the vault to fail.\<close>

definition vault_locked_out :: "address \<Rightarrow> erc_state \<Rightarrow> nat \<Rightarrow> bool" where
  "vault_locked_out self t i \<longleftrightarrow> Owner t i \<noteq> Some self \<and> Approved t i \<noteq> Some self \<and> ApprovedAll t (self, self) \<noteq> Some True"

lemma locked_out_moves:
  assumes "vault_locked_out self (n k) i" shows "nft_world_move k env self self b i n = None"
proof -
  have "Erc721.transfer_from env self self b i (n k) \<noteq> Ok u" for u
    using erc_transfer_from_Ok [of env self self b i "n k" "fst u" "snd u"] assms by (cases u) (auto simp: vault_locked_out_def)
  then show ?thesis by (cases "nft_world_move k env self self b i n") (auto simp: nft_world_move_Some)
qed

text \<open>
  The vault is only as safe as its NFT contract: with the repository's own, an outsider can take the locked
  token with two calls that the code accepts. Right after them, and later in any state of the NFT
  contracts in which the vault neither owns the token nor is approved for it nor is its own operator,
  \<open>settle\<close> fails and the high bid stays in the vault; it can succeed again only once somebody has handed the
  token back or approved the vault.
\<close>

theorem theft_blocks_settlement:
  assumes run: "(repo_frac_step self)\<^sup>*\<^sup>* (w0, n0, empty_frac) (w, n, s)" "world_ok self w0" "nft_quiet self n0"
    and v: "vault_info s = Ok v" "vault_status v = Auction" and thief: "auth env thief" "thief \<noteq> self"
    and later: "current_contract env' = self" "auction_info s = Ok c" "end_time c \<le> timestamp env'"
  shows "(\<exists>t t'. set_approval_for_all env thief thief True (n (nft_contract v)) = Ok ((), t) \<and>
      Erc721.transfer_from env thief thief thief (nft_id v) t = Ok ((), t') \<and>
      owner_of (nft_id v) t' = Ok thief \<and> settle nft_world_move env' (n(nft_contract v := t'), s) = Trap CallFailed) \<and>
    (\<forall>n'. vault_locked_out self (n' (nft_contract v)) (nft_id v) \<longrightarrow> settle nft_world_move env' (n', s) = Trap CallFailed)"
proof -
  note r = reachable_vault [OF run] and vi = vault_info_Ok [OF v(1)]
  let ?k = "nft_contract v" and ?i = "nft_id v"
  have st: "vault_state s = Auction" "AuctionKey s = Some c" using v(2) vi(6) later(2) by (simp_all add: auction_info_Ok)
  have stuck: "settle nft_world_move env' (n', s) = Trap CallFailed" if "vault_locked_out self (n' ?k) ?i" for n'
    using locked_out_moves [of self n' ?k ?i] that vi(1-3) st later by (simp add: settle_def Let_def require_initialized_def)
  have h: "ADMIN (n ?k) \<noteq> None" "Owner (n ?k) ?i = Some self" using r(6) [OF vi(2,3)] st(1) by (simp_all add: nft_held_def)
  define t where "t = n ?k\<lparr>ApprovedAll := (ApprovedAll (n ?k))((thief, thief) \<mapsto> True),
      erc_state.events := erc_state.events (n ?k) @ [Ev_ApprAll thief thief True]\<rparr>"
  have t: "set_approval_for_all env thief thief True (n ?k) = Ok ((), t)"
    using h(1) thief(1) by (simp add: set_approval_for_all_Ok t_def)
  obtain t' where t': "Erc721.transfer_from env thief thief thief ?i t = Ok ((), t')"
    using h thief(1)
    by (auto simp: t_def Erc721.transfer_from_def Let_def Erc721.ensure_initialized_def owner_of_def require_auth_def)
  have o: "Owner t' ?i = Some thief" "ADMIN t' \<noteq> None" "Approved t' ?i = None" "ApprovedAll t' = ApprovedAll t"
    using erc_transfer_from_Ok [OF t'] by auto
  have "vault_locked_out self t' ?i" using r(4) thief(2) o by (simp add: t_def nft_quiet_def vault_locked_out_def)
  then show ?thesis using t t' o(1,2) stuck [of "n(?k := t')"] stuck by auto
qed

theorem theft_blocks_settlement_witness:
  "\<exists>t t'. set_approval_for_all (host_env 30) 13 13 True (demo_nfts_locked 30) = Ok ((), t) \<and>
    Erc721.transfer_from (host_env 30) 13 13 13 7 t = Ok ((), t') \<and> owner_of 7 t' = Ok 13 \<and>
    settle nft_world_move (host_env 120) (demo_nfts_locked(30 := t'), demo_frac_bid) = Trap CallFailed"
proof -
  have c: "auction_info demo_frac_bid = Ok \<lparr>bidder = 5, high_bid = 105000, end_time = 110\<rparr>"
    by (simp add: auction_info_Ok demo_frac_states)
  show ?thesis
    using theft_blocks_settlement [OF demo_frac_run(2) demo_worlds_ok demo_vault_infos(1) _ _ _ _ c, of "host_env 30" 13 "host_env 120"]
    by (simp add: demo_vault_info_def)
qed

end
