(* ===== verification/Limit_Order_Book.thy ===== *)
theory Limit_Order_Book
  imports Soroban_Prelude
begin

text \<open>
  The order book of \<open>contracts/limit-order-book\<close>: storage accessors (\<open>src/storage.rs\<close>), the data
  (\<open>src/types.rs\<close>) and every entry point of \<open>src/lib.rs\<close> with the matching engine. The engine's outer loop has
  no bound of its own; it is a partial function into options, \<open>None\<close> when it does not return.
\<close>

section \<open>Types and storage\<close>

datatype lob_error =
    AlreadyInitialized | NotInitialized | Unauthorized | OrderNotFound | ZeroAmount | ZeroPrice | NotOrderOwner
  | OrderInactive | ContractPaused | InsufficientQuantity

datatype Side = Buy | Sell

datatype OrderStatus = Open | PartiallyFilled | Filled | Cancelled

record Order =
  order_id :: nat
  order_owner :: address
  side :: Side
  price :: int
  quantity :: int
  remaining :: int
  status :: OrderStatus
  created_at :: nat

record Trade =
  buy_order_id :: nat
  sell_order_id :: nat
  trade_price :: int
  trade_quantity :: int
  executed_at :: nat

datatype lob_event =
    Ev_init address | Ev_paused | Ev_unpaused | Ev_newadmin address | Ev_placed nat address Side int int
  | Ev_cancelled nat | Ev_trade nat nat int int

record lob_state =
  Admin :: "address option"
  OrderCount :: "nat option"
  Paused :: "bool option"
  TotalVolume :: "int option"
  Orders :: "nat \<rightharpoonup> Order"
  events :: "lob_event list"

definition empty_book :: lob_state where
  "empty_book = \<lparr>Admin = None, OrderCount = None, Paused = None, TotalVolume = None, Orders = Map.empty, events = []\<rparr>"

definition publish :: "lob_event \<Rightarrow> lob_state \<Rightarrow> lob_state" where
  "publish e s = s\<lparr>events := events s @ [e]\<rparr>"

definition is_initialized :: "lob_state \<Rightarrow> bool" where
  "is_initialized s = (Admin s \<noteq> None)"
definition get_admin :: "lob_state \<Rightarrow> (lob_error, address) outcome" where
  "get_admin s = unwrap (Admin s)"
definition set_admin :: "address \<Rightarrow> lob_state \<Rightarrow> lob_state" where
  "set_admin admin s = s\<lparr>Admin := Some admin\<rparr>"
definition is_paused :: "lob_state \<Rightarrow> bool" where
  "is_paused s = unwrap_or False (Paused s)"
definition set_paused :: "bool \<Rightarrow> lob_state \<Rightarrow> lob_state" where
  "set_paused b s = s\<lparr>Paused := Some b\<rparr>"
definition get_order_count :: "lob_state \<Rightarrow> nat" where
  "get_order_count s = unwrap_or 0 (OrderCount s)"
definition set_order_count :: "nat \<Rightarrow> lob_state \<Rightarrow> lob_state" where
  "set_order_count n s = s\<lparr>OrderCount := Some n\<rparr>"
definition get_total_volume :: "lob_state \<Rightarrow> int" where
  "get_total_volume s = unwrap_or 0 (TotalVolume s)"
definition add_total_volume :: "int \<Rightarrow> lob_state \<Rightarrow> (lob_error, lob_state) outcome" where
  "add_total_volume amt s = and_then (i128_add (get_total_volume s) amt) (\<lambda>v. Ok (s\<lparr>TotalVolume := Some v\<rparr>))"
definition get_order :: "lob_state \<Rightarrow> nat \<Rightarrow> Order option" where
  "get_order s i = Orders s i"
definition set_order :: "Order \<Rightarrow> lob_state \<Rightarrow> lob_state" where
  "set_order r s = s\<lparr>Orders := (Orders s)(order_id r \<mapsto> r)\<rparr>"

lemmas lob_setters = set_admin_def set_paused_def set_order_count_def set_order_def publish_def

section \<open>Guards\<close>

definition assert_admin :: "env \<Rightarrow> address \<Rightarrow> lob_state \<Rightarrow> (lob_error, unit) outcome" where
  "assert_admin env caller s =
     (if \<not> is_initialized s then Err NotInitialized
      else and_then (require_auth env caller) (\<lambda>_.
        and_then (get_admin s) (\<lambda>admin. if admin \<noteq> caller then Err Unauthorized else Ok ())))"

definition assert_not_paused :: "lob_state \<Rightarrow> (lob_error, unit) outcome" where
  "assert_not_paused s =
     (if \<not> is_initialized s then Err NotInitialized else if is_paused s then Err ContractPaused else Ok ())"

section \<open>The matching engine\<close>

definition inactive :: "Order \<Rightarrow> bool" where
  "inactive r = (status r = Filled \<or> status r = Cancelled)"

definition price_matches :: "Order \<Rightarrow> Order \<Rightarrow> bool" where
  "price_matches aggressor resting =
     (case side aggressor of Buy \<Rightarrow> price aggressor \<ge> price resting | Sell \<Rightarrow> price aggressor \<le> price resting)"

definition candidate_better :: "Order \<Rightarrow> Order \<Rightarrow> (nat \<times> Order) option \<Rightarrow> bool" where
  "candidate_better aggressor resting best_match =
     (case best_match of
        None \<Rightarrow> True
      | Some (_, best) \<Rightarrow>
          (case side aggressor of
             Buy \<Rightarrow> price resting < price best \<or> (price resting = price best \<and> created_at resting < created_at best)
           | Sell \<Rightarrow> price resting > price best \<or> (price resting = price best \<and> created_at resting < created_at best)))"

text \<open>One turn of the inner loop over the ids of the orders, and the loop.\<close>

definition consider_order :: "lob_state \<Rightarrow> nat \<Rightarrow> Order \<Rightarrow> nat \<Rightarrow> (nat \<times> Order) option \<Rightarrow> (nat \<times> Order) option" where
  "consider_order s aggressor_id aggressor resting_id best_match =
     (if resting_id = aggressor_id then best_match
      else (case get_order s resting_id of
          None \<Rightarrow> best_match
        | Some resting \<Rightarrow>
            if inactive resting then best_match
            else if side resting = side aggressor then best_match
            else if \<not> price_matches aggressor resting then best_match
            else if candidate_better aggressor resting best_match then Some (resting_id, resting)
            else best_match))"

fun scan_loop :: "lob_state \<Rightarrow> nat \<Rightarrow> Order \<Rightarrow> nat list \<Rightarrow> (nat \<times> Order) option \<Rightarrow> (nat \<times> Order) option" where
  "scan_loop s i a [] best_match = best_match"
| "scan_loop s i a (j # js) best_match = scan_loop s i a js (consider_order s i a j best_match)"

text \<open>One fill: both orders, the volume, the trade.\<close>

definition fill ::
    "env \<Rightarrow> nat \<Rightarrow> Order \<Rightarrow> nat \<Rightarrow> Order \<Rightarrow> lob_state \<Rightarrow> (lob_error, Order \<times> Trade \<times> lob_state) outcome" where
  "fill env aggressor_id aggressor resting_id resting s =
     (let fill_qty = min (remaining aggressor) (remaining resting); exec_price = price resting in
      and_then (i128_sub (remaining aggressor) fill_qty) (\<lambda>ra.
      and_then (i128_sub (remaining resting) fill_qty) (\<lambda>rr.
      let aggressor' = aggressor\<lparr>remaining := ra, status := (if ra = 0 then Filled else PartiallyFilled)\<rparr>;
          resting' = resting\<lparr>remaining := rr, status := (if rr = 0 then Filled else PartiallyFilled)\<rparr>;
          s1 = set_order aggressor' s;
          s2 = set_order resting' s1 in
      and_then (add_total_volume fill_qty s2) (\<lambda>s3.
      let (buy_id, sell_id) = (case side aggressor' of Buy \<Rightarrow> (aggressor_id, resting_id) | Sell \<Rightarrow> (resting_id, aggressor_id));
          trade = \<lparr>buy_order_id = buy_id, sell_order_id = sell_id, trade_price = exec_price, trade_quantity = fill_qty,
            executed_at = sequence env\<rparr>
      in Ok (aggressor', trade, publish (Ev_trade buy_id sell_id exec_price fill_qty) s3)))))"

partial_function (option) match_loop ::
    "env \<Rightarrow> nat \<Rightarrow> nat list \<Rightarrow> Order \<Rightarrow> Trade list \<Rightarrow> lob_state \<Rightarrow> (lob_error, Trade list \<times> lob_state) outcome option" where
  "match_loop env i scan aggressor trades s =
     (if remaining aggressor > 0 then
        (case scan_loop s i aggressor scan None of
           None \<Rightarrow> Some (Ok (trades, s))
         | Some (j, resting) \<Rightarrow>
             (case fill env i aggressor j resting s of
                Ok (aggressor', trade, s') \<Rightarrow> match_loop env i scan aggressor' (trades @ [trade]) s'
              | Err e \<Rightarrow> Some (Err e)
              | Trap t \<Rightarrow> Some (Trap t)))
      else Some (Ok (trades, s)))"

declare match_loop.simps [code]

definition try_match :: "env \<Rightarrow> nat \<Rightarrow> lob_state \<Rightarrow> (lob_error, Trade list \<times> lob_state) outcome option" where
  "try_match env aggressor_id s =
     (case get_order s aggressor_id of
        None \<Rightarrow> Some (Err OrderNotFound)
      | Some aggressor \<Rightarrow>
          if inactive aggressor then Some (Ok ([], s))
          else
            let scan_limit = min (get_order_count s) 200
            in match_loop env aggressor_id [1..<Suc scan_limit] aggressor [] s)"

section \<open>Entry points\<close>

definition initialize :: "env \<Rightarrow> address \<Rightarrow> lob_state \<Rightarrow> (lob_error, unit \<times> lob_state) outcome" where
  "initialize env admin s =
     (if is_initialized s then Err AlreadyInitialized
      else and_then (require_auth env admin) (\<lambda>_.
        Ok ((), publish (Ev_init admin) (set_paused False (set_order_count 0 (set_admin admin s))))))"

definition pause :: "env \<Rightarrow> address \<Rightarrow> lob_state \<Rightarrow> (lob_error, unit \<times> lob_state) outcome" where
  "pause env admin s = and_then (assert_admin env admin s) (\<lambda>_. Ok ((), publish Ev_paused (set_paused True s)))"

definition unpause :: "env \<Rightarrow> address \<Rightarrow> lob_state \<Rightarrow> (lob_error, unit \<times> lob_state) outcome" where
  "unpause env admin s = and_then (assert_admin env admin s) (\<lambda>_. Ok ((), publish Ev_unpaused (set_paused False s)))"

definition pub_set_admin :: "env \<Rightarrow> address \<Rightarrow> address \<Rightarrow> lob_state \<Rightarrow> (lob_error, unit \<times> lob_state) outcome" where
  "pub_set_admin env admin new_admin s =
     and_then (assert_admin env admin s) (\<lambda>_.
     and_then (require_auth env new_admin) (\<lambda>_. Ok ((), publish (Ev_newadmin new_admin) (set_admin new_admin s))))"

definition place_order ::
    "env \<Rightarrow> address \<Rightarrow> Side \<Rightarrow> int \<Rightarrow> int \<Rightarrow> lob_state \<Rightarrow> (lob_error, nat \<times> lob_state) outcome option" where
  "place_order env who sd p q s =
     (case and_then (assert_not_paused s) (\<lambda>_.
           if p \<le> 0 then Err ZeroPrice
           else if q \<le> 0 then Err ZeroAmount
           else
             and_then (require_auth env who) (\<lambda>_.
             and_then (u64_add (get_order_count s) 1) (\<lambda>i.
             let s1 = set_order_count i s;
                 order = \<lparr>order_id = i, order_owner = who, side = sd, price = p, quantity = q, remaining = q, status = Open,
                   created_at = sequence env\<rparr>;
                 s2 = set_order order s1
             in Ok (i, publish (Ev_placed i who sd p q) s2)))) of
        Ok (i, s3) \<Rightarrow> map_option (\<lambda>r. and_then r (\<lambda>(_, s4). Ok (i, s4))) (try_match env i s3)
      | Err e \<Rightarrow> Some (Err e)
      | Trap t \<Rightarrow> Some (Trap t))"

definition cancel_order :: "env \<Rightarrow> address \<Rightarrow> nat \<Rightarrow> lob_state \<Rightarrow> (lob_error, unit \<times> lob_state) outcome" where
  "cancel_order env who i s =
     and_then (require_auth env who) (\<lambda>_.
     and_then (ok_or OrderNotFound (get_order s i)) (\<lambda>order.
     if order_owner order \<noteq> who then Err NotOrderOwner
     else if inactive order then Err OrderInactive
     else Ok ((), publish (Ev_cancelled i) (set_order (order\<lparr>status := Cancelled\<rparr>) s))))"

definition match_order :: "env \<Rightarrow> nat \<Rightarrow> lob_state \<Rightarrow> (lob_error, Trade list \<times> lob_state) outcome option" where
  "match_order env i s =
     (case assert_not_paused s of Ok _ \<Rightarrow> try_match env i s | Err e \<Rightarrow> Some (Err e) | Trap t \<Rightarrow> Some (Trap t))"

definition pub_get_order :: "nat \<Rightarrow> lob_state \<Rightarrow> (lob_error, Order) outcome" where
  "pub_get_order i s = ok_or OrderNotFound (get_order s i)"
definition pub_get_admin :: "lob_state \<Rightarrow> (lob_error, address) outcome" where
  "pub_get_admin s = (if \<not> is_initialized s then Err NotInitialized else get_admin s)"
definition pub_is_paused :: "lob_state \<Rightarrow> bool" where
  "pub_is_paused s = is_paused s"
definition total_volume :: "lob_state \<Rightarrow> int" where
  "total_volume s = get_total_volume s"
definition order_count :: "lob_state \<Rightarrow> nat" where
  "order_count s = get_order_count s"

section \<open>Public histories\<close>

text \<open>Prices and quantities are arguments of type \<open>i128\<close>.\<close>

inductive lob_call :: "env \<Rightarrow> lob_state \<Rightarrow> lob_state \<Rightarrow> bool" for env where
  initialize: "initialize env a s = Ok (u, t) \<Longrightarrow> lob_call env s t"
| pause: "pause env a s = Ok (u, t) \<Longrightarrow> lob_call env s t"
| unpause: "unpause env a s = Ok (u, t) \<Longrightarrow> lob_call env s t"
| set_admin: "pub_set_admin env a b s = Ok (u, t) \<Longrightarrow> lob_call env s t"
| place: "in_i128 p \<Longrightarrow> in_i128 q \<Longrightarrow> place_order env a sd p q s = Some (Ok (i, t)) \<Longrightarrow> lob_call env s t"
| cancel: "cancel_order env a i s = Ok (u, t) \<Longrightarrow> lob_call env s t"
| match: "match_order env i s = Some (Ok (l, t)) \<Longrightarrow> lob_call env s t"

definition lob_step :: "lob_state \<Rightarrow> lob_state \<Rightarrow> bool" where
  "lob_step s t \<longleftrightarrow> (\<exists>env. lob_call env s t)"

end
