(* ===== verification/Order_Book_Correct.thy ===== *)
theory Order_Book_Correct
  imports Limit_Order_Book
begin

text \<open>
  The order book: the scan finds the first order in price-time priority, the matching engine terminates on
  every reachable book, fills in that priority, conserves quantities, and leaves no crossing orders behind.
\<close>

section \<open>Priority\<close>

text \<open>
  The price as the aggressor sees it (less is better), and the order in which resting orders are to be
  filled: by price, then by ledger, then by id.
\<close>

definition cost :: "Order \<Rightarrow> Order \<Rightarrow> int" where
  "cost a r = (case side a of Buy \<Rightarrow> price r | Sell \<Rightarrow> - price r)"

definition before :: "Order \<Rightarrow> nat \<times> Order \<Rightarrow> nat \<times> Order \<Rightarrow> bool" where
  "before a x y \<longleftrightarrow> cost a (snd x) < cost a (snd y) \<or> cost a (snd x) = cost a (snd y) \<and>
     (created_at (snd x) < created_at (snd y) \<or> created_at (snd x) = created_at (snd y) \<and> fst x < fst y)"

lemma before_trans: "before a x y \<Longrightarrow> before a y z \<Longrightarrow> before a x z"
  by (auto simp: before_def)

lemma before_total: "fst x \<noteq> fst y \<Longrightarrow> before a x y \<or> before a y x"
  by (auto simp: before_def)

lemma before_irrefl: "\<not> before a x x"
  by (simp add: before_def)

text \<open>Two live orders that could trade with each other.\<close>

definition crosses :: "Order \<Rightarrow> Order \<Rightarrow> bool" where
  "crosses a r \<longleftrightarrow> side r \<noteq> side a \<and> price_matches a r"

lemma crosses_sym: "crosses a r \<longleftrightarrow> crosses r a"
  by (cases "side a"; cases "side r") (auto simp: crosses_def price_matches_def)

definition eligible :: "lob_state \<Rightarrow> nat \<Rightarrow> Order \<Rightarrow> nat \<Rightarrow> Order \<Rightarrow> bool" where
  "eligible s i a j r \<longleftrightarrow> j \<noteq> i \<and> Orders s j = Some r \<and> \<not> inactive r \<and> crosses a r"

lemma consider_order_eq:
  "consider_order s i a j m =
    (case Orders s j of None \<Rightarrow> m | Some r \<Rightarrow> if eligible s i a j r \<and> candidate_better a r m then Some (j, r) else m)"
  by (auto simp: consider_order_def get_order_def eligible_def crosses_def split: option.split)

lemma candidate_better_iff:
  assumes "b < j" shows "candidate_better a r (Some (b, rb)) \<longleftrightarrow> before a (j, r) (b, rb)"
  using assms by (auto simp: candidate_better_def before_def cost_def split: Side.split)

definition best_of :: "lob_state \<Rightarrow> nat \<Rightarrow> Order \<Rightarrow> nat set \<Rightarrow> (nat \<times> Order) option \<Rightarrow> (nat \<times> Order) option \<Rightarrow> bool" where
  "best_of s i a J m res \<longleftrightarrow> (case res of
       None \<Rightarrow> m = None \<and> (\<forall>k\<in>J. \<forall>rk. \<not> eligible s i a k rk)
     | Some x \<Rightarrow> (m = Some x \<or> fst x \<in> J \<and> eligible s i a (fst x) (snd x)) \<and>
         (\<forall>k\<in>J. \<forall>rk. eligible s i a k rk \<longrightarrow> k = fst x \<or> before a x (k, rk)) \<and>
         (\<forall>y. m = Some y \<longrightarrow> y = x \<or> before a x y))"

lemma scan_loop_best:
  "sorted_wrt (<) js \<Longrightarrow> (\<And>b rb. m = Some (b, rb) \<Longrightarrow> eligible s i a b rb \<and> (\<forall>k\<in>set js. b < k)) \<Longrightarrow>
   best_of s i a (set js) m (scan_loop s i a js m)"
proof (induction js arbitrary: m)
  case Nil
  then show ?case by (cases m) (simp_all add: best_of_def)
next
  case (Cons j js)
  define m' where "m' = consider_order s i a j m"
  have m': "m' = m \<or> (\<exists>r. m' = Some (j, r) \<and> eligible s i a j r \<and> candidate_better a r m)"
    by (auto simp: m'_def consider_order_eq split: option.split)
  have "best_of s i a (set js) m' (scan_loop s i a js m')"
  proof (rule Cons.IH)
    show "sorted_wrt (<) js" using Cons.prems(1) by simp
    fix b rb
    assume "m' = Some (b, rb)"
    then show "eligible s i a b rb \<and> (\<forall>k\<in>set js. b < k)" using m' Cons.prems by auto
  qed
  note ih = this
  have sl: "scan_loop s i a (j # js) m = scan_loop s i a js m'" by (simp add: m'_def)
  have less: "b < j" if "m = Some (b, rb)" for b rb using Cons.prems(2) that by simp
  have skip: "before a (b, rb) (j, r) \<or> (b, rb) = (j, r)" if "m' = Some (b, rb)" "eligible s i a j r" for b rb r
  proof (cases "m' = m")
    case True
    then have m: "m = Some (b, rb)" "\<not> candidate_better a r m" 
      using that less by (auto simp: m'_def consider_order_eq eligible_def split: if_splits)
    then show ?thesis using before_total [of "(b, rb)" "(j, r)" a] candidate_better_iff less [OF m(1)] by auto
  next
    case False
    then show ?thesis using m' that by (auto simp: eligible_def)
  qed
  have none: "\<not> eligible s i a j r" if "m' = None" for r
    using that by (auto simp: m'_def consider_order_eq eligible_def candidate_better_def split: if_splits option.splits)
  have old: "y = z \<or> before a z y" if "m' = Some z" "m = Some y" for y z
    using m' that candidate_better_iff less by (cases y) auto
  show ?case
  proof (cases "scan_loop s i a js m'")
    case None
    then show ?thesis using ih none m' unfolding sl by (auto simp: best_of_def)
  next
    case (Some x)
    note x = ih [unfolded best_of_def Some option.case]
    have lift: "y = x \<or> before a x y" if "m' = Some z" "z = y \<or> before a z y" for y z
      using x that before_trans by blast
    have "j = fst x \<or> before a x (j, rk)" if "eligible s i a j rk" for rk
      using skip [OF _ that] none that lift by (cases m') fastforce+
    moreover have "y = x \<or> before a x y" if "m = Some y" for y
      using old [OF _ that] lift that m' by (cases m') fastforce+
    moreover have "m = Some x \<or> fst x \<in> set (j # js) \<and> eligible s i a (fst x) (snd x)" using x m' by fastforce
    ultimately show ?thesis using x unfolding sl Some by (auto simp: best_of_def)
  qed
qed


text \<open>The scan of the engine: the ids from 1 to the limit.\<close>

lemma scan_None:
  "scan_loop s i a [1..<n] None = None \<Longrightarrow> k \<in> {1..<n} \<Longrightarrow> \<not> eligible s i a k r"
  using scan_loop_best [of "[1..<n]" None s i a] by (simp add: best_of_def)

lemma scan_Some:
  assumes "scan_loop s i a [1..<n] None = Some (j, r)"
  shows "j \<in> {1..<n}" "eligible s i a j r" "k \<in> {1..<n} \<Longrightarrow> eligible s i a k rk \<Longrightarrow> k \<noteq> j \<Longrightarrow> before a (j, r) (k, rk)"
  using scan_loop_best [of "[1..<n]" None s i a] assms by (auto simp: best_of_def)

section \<open>One fill\<close>

lemma fill_Ok:
  assumes "fill env i a j r s = Ok (a', tr, t)"
  shows "\<exists>q. q = min (remaining a) (remaining r) \<and>
    a' = a\<lparr>remaining := remaining a - q, status := (if remaining a - q = 0 then Filled else PartiallyFilled)\<rparr> \<and>
    in_i128 (get_total_volume s + q) \<and>
    tr = \<lparr>buy_order_id = (if side a = Buy then i else j), sell_order_id = (if side a = Buy then j else i),
      trade_price = price r, trade_quantity = q, executed_at = sequence env\<rparr> \<and>
    t = publish (Ev_trade (if side a = Buy then i else j) (if side a = Buy then j else i) (price r) q)
      (s\<lparr>Orders := (Orders s)(order_id a \<mapsto> a', order_id r \<mapsto>
          r\<lparr>remaining := remaining r - q, status := (if remaining r - q = 0 then Filled else PartiallyFilled)\<rparr>),
        TotalVolume := Some (get_total_volume s + q)\<rparr>)"
  using assms
  by (cases "side a") (auto simp: fill_def Let_def add_total_volume_def set_order_def get_total_volume_def)

definition same_terms :: "Order \<Rightarrow> Order \<Rightarrow> bool" where
  "same_terms r r' \<longleftrightarrow> order_id r' = order_id r \<and> order_owner r' = order_owner r \<and> side r' = side r \<and> price r' = price r \<and>
     quantity r' = quantity r \<and> created_at r' = created_at r"

lemma same_terms_refl [simp]: "same_terms r r"
  by (simp add: same_terms_def)

lemma same_terms_trans: "same_terms r r' \<Longrightarrow> same_terms r' r'' \<Longrightarrow> same_terms r r''"
  by (simp add: same_terms_def)

lemma same_terms_upd [simp]: "same_terms r (r'\<lparr>remaining := x, status := st\<rparr>) \<longleftrightarrow> same_terms r r'"
  by (simp add: same_terms_def)

lemma terms_decide:
  assumes "same_terms a a'" "same_terms r r'"
  shows "crosses a' r' \<longleftrightarrow> crosses a r" "cost a' r' = cost a r"
  using assms by (simp_all add: same_terms_def crosses_def price_matches_def cost_def split: Side.split)

lemma terms_before:
  assumes "same_terms a a'" "same_terms r r'" "same_terms q q'"
  shows "before a' (j, r') (k, q') \<longleftrightarrow> before a (j, r) (k, q)"
  using terms_decide(2) [OF assms(1,2)] terms_decide(2) [OF assms(1,3)] assms(2,3) by (simp add: before_def same_terms_def)

section \<open>The books\<close>

definition order_ok :: "nat \<Rightarrow> nat \<Rightarrow> Order \<Rightarrow> bool" where
  "order_ok n j r \<longleftrightarrow> order_id r = j \<and> 1 \<le> j \<and> j \<le> n \<and> 0 < price r \<and> quantity r \<le> i128_max \<and>
     0 \<le> remaining r \<and> remaining r \<le> quantity r \<and> (\<not> inactive r \<longrightarrow> 0 < remaining r) \<and> (status r = Filled \<longrightarrow> remaining r = 0)"

definition filled_of :: "Side \<Rightarrow> Order \<Rightarrow> int" where
  "filled_of sd r = (if side r = sd then quantity r - remaining r else 0)"

definition book_ok :: "lob_state \<Rightarrow> bool" where
  "book_ok s \<longleftrightarrow> finite (dom (Orders s)) \<and> (\<forall>j r. Orders s j = Some r \<longrightarrow> order_ok (get_order_count s) j r) \<and>
     (\<forall>sd. total_of (filled_of sd) (Orders s) = get_total_volume s) \<and> (Admin s = None \<longrightarrow> Orders s = Map.empty)"

lemma book_okD:
  assumes "book_ok s"
  shows "finite (dom (Orders s))" "Orders s j = Some r \<Longrightarrow> order_ok (get_order_count s) j r"
    "total_of (filled_of sd) (Orders s) = get_total_volume s" "Orders s j = Some r \<Longrightarrow> Admin s \<noteq> None"
  using assms unfolding book_ok_def by auto

lemma total_fill:
  assumes "finite (dom m)" "m i = Some a" "m j = Some r" "i \<noteq> j" "side r \<noteq> side a"
  shows "total_of (filled_of sd) (m(i \<mapsto> a\<lparr>remaining := remaining a - q, status := st\<rparr>, j \<mapsto> r\<lparr>remaining := remaining r - q, status := st'\<rparr>))
    = total_of (filled_of sd) m + q"
proof -
  let ?a = "a\<lparr>remaining := remaining a - q, status := st\<rparr>" and ?r = "r\<lparr>remaining := remaining r - q, status := st'\<rparr>"
  have "total_of (filled_of sd) (m(i \<mapsto> ?a, j \<mapsto> ?r)) =
      total_of (filled_of sd) m - filled_of sd a + filled_of sd ?a - filled_of sd r + filled_of sd ?r"
    using total_of_upd [of "m(i \<mapsto> ?a)" "filled_of sd" j "Some ?r"] total_of_upd [of m "filled_of sd" i "Some ?a"] assms(1-4)
    by simp
  moreover have "side a = sd \<or> side r = sd" "\<not> (side a = sd \<and> side r = sd)" using assms(5) by (cases sd; cases "side a"; cases "side r"; simp)+
  ultimately show ?thesis by (auto simp: filled_of_def)
qed

text \<open>A fill of two live crossing orders.\<close>

lemma fill_book:
  assumes ok: "book_ok s" and a: "Orders s i = Some a" "\<not> inactive a" and j: "eligible s i a j r"
    and f: "fill env i a j r s = Ok (a', tr, t)"
  defines "q \<equiv> min (remaining a) (remaining r)"
  shows "book_ok t" "Orders t = (Orders s)(i \<mapsto> a', j \<mapsto>
      r\<lparr>remaining := remaining r - q, status := (if remaining r - q = 0 then Filled else PartiallyFilled)\<rparr>)"
    "0 < q" "a' = a\<lparr>remaining := remaining a - q, status := (if remaining a - q = 0 then Filled else PartiallyFilled)\<rparr>"
    "get_order_count t = get_order_count s" "Admin t = Admin s" "Paused t = Paused s"
    "tr = \<lparr>buy_order_id = (if side a = Buy then i else j), sell_order_id = (if side a = Buy then j else i),
      trade_price = price r, trade_quantity = q, executed_at = sequence env\<rparr>" "get_total_volume t = get_total_volume s + q"
proof -
  have r: "Orders s j = Some r" "\<not> inactive r" "side r \<noteq> side a" "j \<noteq> i" using j by (simp_all add: eligible_def crosses_def)
  have oa: "order_ok (get_order_count s) i a" and orr: "order_ok (get_order_count s) j r" using book_okD(2) [OF ok] a(1) r(1) by simp_all
  show q: "0 < q" using oa orr a(2) r(2) by (simp add: order_ok_def q_def)
  have ids: "order_id a = i" "order_id r = j" using oa orr by (simp_all add: order_ok_def)
  show a': "a' = a\<lparr>remaining := remaining a - q, status := (if remaining a - q = 0 then Filled else PartiallyFilled)\<rparr>"
    "tr = \<lparr>buy_order_id = (if side a = Buy then i else j), sell_order_id = (if side a = Buy then j else i),
      trade_price = price r, trade_quantity = q, executed_at = sequence env\<rparr>"
    using fill_Ok [OF f] by (simp_all add: q_def)
  show O: "Orders t = (Orders s)(i \<mapsto> a', j \<mapsto>
      r\<lparr>remaining := remaining r - q, status := (if remaining r - q = 0 then Filled else PartiallyFilled)\<rparr>)"
    using fill_Ok [OF f] by (simp add: q_def ids publish_def)
  have V: "get_total_volume t = get_total_volume s + q" and N: "get_order_count t = get_order_count s" "Admin t = Admin s" "Paused t = Paused s"
    using fill_Ok [OF f] by (simp_all add: q_def publish_def get_total_volume_def get_order_count_def)
  show "get_total_volume t = get_total_volume s + q" "get_order_count t = get_order_count s" "Admin t = Admin s" "Paused t = Paused s"
    by (rule V N)+
  have qle: "q \<le> remaining a" "q \<le> remaining r" by (simp_all add: q_def)
  let ?r = "r\<lparr>remaining := remaining r - q, status := (if remaining r - q = 0 then Filled else PartiallyFilled)\<rparr>"
  have "order_ok (get_order_count s) i a'" "order_ok (get_order_count s) j ?r"
    using oa orr q qle by (auto simp: order_ok_def a' inactive_def)
  then have "order_ok (get_order_count t) k x" if "Orders t k = Some x" for k x
    using that book_okD(2) [OF ok] by (auto simp: O N split: if_splits)
  moreover have "total_of (filled_of sd) (Orders t) = get_total_volume t" for sd
    using total_fill [OF book_okD(1) [OF ok] a(1) r(1) _ r(3)] r(4) book_okD(3) [OF ok] unfolding O V a' by simp
  moreover have "finite (dom (Orders t))" using book_okD(1) [OF ok] by (simp add: O)
  ultimately show "book_ok t" using book_okD(4) [OF ok a(1)] by (auto simp: book_ok_def N)
qed


text \<open>A fill fails only where the volume leaves its type.\<close>

lemma fill_succeeds:
  assumes ok: "book_ok s" and a: "Orders s i = Some a" "\<not> inactive a" and r: "Orders s j = Some r" "\<not> inactive r"
    and v: "get_total_volume s + remaining a \<le> i128_max"
  shows "\<exists>a' tr t. fill env i a j r s = Ok (a', tr, t)"
proof -
  have oa: "order_ok (get_order_count s) i a" "order_ok (get_order_count s) j r" using book_okD(2) [OF ok] a(1) r(1) by simp_all
  have "0 \<le> total_of (filled_of Buy) (Orders s)"
    by (rule total_of_nonneg) (use book_okD(2) [OF ok] in \<open>fastforce simp: order_ok_def filled_of_def\<close>)
  then have "0 \<le> get_total_volume s" using book_okD(3) [OF ok] by simp
  then have f: "in_i128 (remaining a - min (remaining a) (remaining r))" "in_i128 (remaining r - min (remaining a) (remaining r))"
      "in_i128 (get_total_volume s + min (remaining a) (remaining r))"
    using oa a(2) r(2) v by (auto simp: order_ok_def in_i128_def i128_min_def)
  then show ?thesis
    by (cases "side a") (simp_all add: fill_def Let_def add_total_volume_def set_order_def get_total_volume_def i128_sub_def i128_add_def)
qed

section \<open>The engine\<close>

text \<open>
  A rule for the loop: an invariant of its rounds and a measure that every round lowers give that the loop
  returns, and that the invariant holds where it stops.
\<close>

lemma match_loop_rule:
  assumes "P a s trs"
    and step: "\<And>a s trs j r a' tr t. P a s trs \<Longrightarrow> 0 < remaining a \<Longrightarrow> scan_loop s i a scan None = Some (j, r) \<Longrightarrow>
      fill env i a j r s = Ok (a', tr, t) \<Longrightarrow> P a' t (trs @ [tr]) \<and> (M a' t :: nat) < M a s"
    and fits: "\<And>a s trs j r. safe \<Longrightarrow> P a s trs \<Longrightarrow> 0 < remaining a \<Longrightarrow> scan_loop s i a scan None = Some (j, r) \<Longrightarrow>
      \<exists>y. fill env i a j r s = Ok y"
  shows "\<exists>x. match_loop env i scan a trs s = Some x \<and> (safe \<longrightarrow> (\<exists>trs' t. x = Ok (trs', t))) \<and> (\<forall>trs' t. x = Ok (trs', t) \<longrightarrow>
    (\<exists>a'. P a' t trs' \<and> (remaining a' \<le> 0 \<or> scan_loop t i a' scan None = None)))"
  using assms(1)
proof (induction "M a s" arbitrary: a s trs rule: less_induct)
  case less
  show ?case
  proof (cases "0 < remaining a \<and> scan_loop s i a scan None \<noteq> None")
    case False
    then have "match_loop env i scan a trs s = Some (Ok (trs, s))"
      by (subst match_loop.simps) (cases "scan_loop s i a scan None"; auto)
    then show ?thesis using less.prems False by (auto simp: not_less)
  next
    case True
    then obtain j r where jr: "scan_loop s i a scan None = Some (j, r)" by auto
    have safe: "\<not> safe" if "\<And>y. fill env i a j r s \<noteq> Ok y" using fits [OF _ less.prems _ jr] True that by blast
    show ?thesis
    proof (cases "fill env i a j r s")
      case (Ok y)
      obtain a' tr t where y: "y = (a', tr, t)" by (cases y)
      have n: "P a' t (trs @ [tr])" "M a' t < M a s" using step [OF less.prems _ jr] True Ok y by auto
      have "match_loop env i scan a trs s = match_loop env i scan a' (trs @ [tr]) t"
        by (subst match_loop.simps) (use True jr Ok y in simp)
      then show ?thesis using less.hyps [OF n(2,1)] by simp
    qed (subst match_loop.simps, use True jr safe in simp)+
  qed
qed

text \<open>
  What the engine has done since it started in state \<open>s0\<close> with the aggressor \<open>a0\<close>: it changed only orders that
  were eligible, each by fills, in priority, and the quantities of the trades add up.
\<close>

definition touched :: "lob_state \<Rightarrow> nat \<Rightarrow> Order \<Rightarrow> nat set \<Rightarrow> nat \<Rightarrow> Order \<Rightarrow> Order \<Rightarrow> bool" where
  "touched s0 i a0 J k r0 r \<longleftrightarrow> k \<in> J \<and> eligible s0 i a0 k r0 \<and> same_terms r0 r \<and> remaining r < remaining r0 \<and>
     status r = (if remaining r = 0 then Filled else PartiallyFilled)"

definition trade_ok :: "lob_state \<Rightarrow> nat \<Rightarrow> Order \<Rightarrow> Trade \<Rightarrow> bool" where
  "trade_ok s0 i a0 tr \<longleftrightarrow> 0 < trade_quantity tr \<and> (\<exists>k r0. eligible s0 i a0 k r0 \<and> trade_price tr = price r0 \<and>
     buy_order_id tr = (if side a0 = Buy then i else k) \<and> sell_order_id tr = (if side a0 = Buy then k else i))"

definition traded :: "Trade list \<Rightarrow> int" where
  "traded trs = sum_list (map trade_quantity trs)"

lemma traded_simps [simp]: "traded [] = 0" "traded (trs @ [tr]) = traded trs + trade_quantity tr"
  by (simp_all add: traded_def)

definition in_priority :: "lob_state \<Rightarrow> nat \<Rightarrow> Order \<Rightarrow> nat set \<Rightarrow> lob_state \<Rightarrow> bool" where
  "in_priority s0 i a0 J s \<longleftrightarrow> (\<forall>k r0 k' r0'. k' \<in> J \<longrightarrow> eligible s0 i a0 k r0 \<longrightarrow> eligible s0 i a0 k' r0' \<longrightarrow>
     Orders s k \<noteq> Some r0 \<longrightarrow> before a0 (k', r0') (k, r0) \<longrightarrow> (\<exists>r'. Orders s k' = Some r' \<and> status r' = Filled))"

definition engine :: "lob_state \<Rightarrow> nat \<Rightarrow> Order \<Rightarrow> nat set \<Rightarrow> Order \<Rightarrow> lob_state \<Rightarrow> Trade list \<Rightarrow> bool" where
  "engine s0 i a0 J a s trs \<longleftrightarrow> book_ok s \<and> Orders s i = Some a \<and> same_terms a0 a \<and> (0 < remaining a \<longrightarrow> \<not> inactive a) \<and>
     get_order_count s = get_order_count s0 \<and> Admin s = Admin s0 \<and> Paused s = Paused s0 \<and>
     (\<forall>k. k \<noteq> i \<longrightarrow> Orders s k = Orders s0 k \<or>
        (\<exists>r0 r. Orders s0 k = Some r0 \<and> Orders s k = Some r \<and> touched s0 i a0 J k r0 r)) \<and>
     in_priority s0 i a0 J s \<and> traded trs = remaining a0 - remaining a \<and> (\<forall>tr\<in>set trs. trade_ok s0 i a0 tr) \<and>
     get_total_volume s = get_total_volume s0 + traded trs"

lemma engine_start:
  assumes "book_ok s" "Orders s i = Some a" "\<not> inactive a" shows "engine s i a J a s []"
  using assms by (auto simp: engine_def in_priority_def eligible_def)

lemma engineD:
  assumes "engine s0 i a0 J a s trs"
  shows "book_ok s" "Orders s i = Some a" "same_terms a0 a" "0 < remaining a \<Longrightarrow> \<not> inactive a"
    "get_order_count s = get_order_count s0" "Admin s = Admin s0" "Paused s = Paused s0"
    "k \<noteq> i \<Longrightarrow> Orders s k \<noteq> Orders s0 k \<Longrightarrow> \<exists>r0 r. Orders s0 k = Some r0 \<and> Orders s k = Some r \<and> touched s0 i a0 J k r0 r"
    "in_priority s0 i a0 J s" "traded trs = remaining a0 - remaining a" "tr \<in> set trs \<Longrightarrow> trade_ok s0 i a0 tr"
    "get_total_volume s = get_total_volume s0 + traded trs"
  using assms unfolding engine_def by blast+

text \<open>An order that is eligible now was eligible at the start; one eligible at the start is eligible, or filled.\<close>

lemma eligible_back:
  assumes "engine s0 i a0 J a s trs" "eligible s i a k r"
  shows "\<exists>r0. eligible s0 i a0 k r0 \<and> same_terms r0 r \<and> remaining r \<le> remaining r0"
proof -
  have k: "k \<noteq> i" "Orders s k = Some r" "\<not> inactive r" "crosses a r" using assms(2) by (simp_all add: eligible_def)
  show ?thesis
  proof (cases "Orders s k = Orders s0 k")
    case True
    then show ?thesis
      using k terms_decide(1) [OF engineD(3) [OF assms(1)], of r r] by (intro exI [of _ r]) (simp add: eligible_def)
  next
    case False
    then show ?thesis using engineD(8) [OF assms(1) k(1)] k(2) by (auto simp: touched_def)
  qed
qed

lemma eligible_forth:
  assumes "engine s0 i a0 J a s trs" "eligible s0 i a0 k r0"
  shows "\<exists>r. Orders s k = Some r \<and> same_terms r0 r \<and> (eligible s i a k r \<or> status r = Filled)"
proof -
  have k: "k \<noteq> i" "Orders s0 k = Some r0" "\<not> inactive r0" "crosses a0 r0" using assms(2) by (simp_all add: eligible_def)
  show ?thesis
  proof (cases "Orders s k = Orders s0 k")
    case True
    then show ?thesis using k terms_decide(1) [OF engineD(3) [OF assms(1)], of r0 r0] by (auto simp: eligible_def)
  next
    case False
    then obtain r where r: "Orders s k = Some r" "touched s0 i a0 J k r0 r" using engineD(8) [OF assms(1) k(1)] k(2) by auto
    then show ?thesis
      using k terms_decide(1) [OF engineD(3) [OF assms(1)], of r0 r] by (auto simp: eligible_def touched_def inactive_def)
  qed
qed

lemma engine_step:
  assumes e: "engine s0 i a0 J a s trs" and pos: "0 < remaining a"
    and best: "j \<in> J" "eligible s i a j r" "\<And>k rk. k \<in> J \<Longrightarrow> eligible s i a k rk \<Longrightarrow> k \<noteq> j \<Longrightarrow> before a (j, r) (k, rk)"
    and f: "fill env i a j r s = Ok (a', tr, t)"
  shows "engine s0 i a0 J a' t (trs @ [tr])"
proof -
  note D = engineD [OF e]
  define q where "q = min (remaining a) (remaining r)"
  define r' where "r' = r\<lparr>remaining := remaining r - q, status := (if remaining r - q = 0 then Filled else PartiallyFilled)\<rparr>"
  note fb = fill_book [OF D(1,2) D(4) [OF pos] best(2) f, folded q_def, folded r'_def]
  have j: "j \<noteq> i" "Orders s j = Some r" using best(2) by (simp_all add: eligible_def)
  obtain r0 where r0: "eligible s0 i a0 j r0" "same_terms r0 r" "remaining r \<le> remaining r0" using eligible_back [OF e best(2)] by blast
  have tj: "touched s0 i a0 J j r0 r'" using r0 best(1) fb(3) by (simp add: touched_def r'_def same_terms_def)
  have O: "Orders t j = Some r'" "Orders t i = Some a'" "k \<noteq> i \<Longrightarrow> k \<noteq> j \<Longrightarrow> Orders t k = Orders s k" for k
    using j(1) by (simp_all add: fb(2))
  have frame: "Orders t k = Orders s0 k \<or> (\<exists>x0 x. Orders s0 k = Some x0 \<and> Orders t k = Some x \<and> touched s0 i a0 J k x0 x)"
    if "k \<noteq> i" for k
    using D(8) [OF that] O(1,3) that tj r0(1) by (cases "k = j") (auto simp: eligible_def)
  have "\<exists>x. Orders t k' = Some x \<and> status x = Filled"
    if k: "k' \<in> J" "eligible s0 i a0 k x0" "eligible s0 i a0 k' x0'" "Orders t k \<noteq> Some x0" "before a0 (k', x0') (k, x0)" for k x0 k' x0'
  proof -
    obtain x' where x': "Orders s k' = Some x'" "same_terms x0' x'" "eligible s i a k' x' \<or> status x' = Filled"
      using eligible_forth [OF e k(3)] by blast
    have ne: "k' \<noteq> i" "k \<noteq> i" using k(2,3) by (simp_all add: eligible_def)
    show ?thesis
    proof (cases "status x' = Filled")
      case True
      moreover have "k' \<noteq> j" using True j x'(1) best(2) by (auto simp: eligible_def inactive_def)
      ultimately show ?thesis using O(3) ne(1) x'(1) by auto
    next
      case False
      then have el: "eligible s i a k' x'" using x'(3) by simp
      show ?thesis
      proof (cases "k = j")
        case True
        then have "x0 = r0" using k(2) r0(1) by (simp add: eligible_def)
        then have b: "before a (k', x') (j, r)" using k(5) True terms_before [OF D(3) x'(2) r0(2)] by simp
        then have "k' \<noteq> j" using x'(1) j(2) before_irrefl by auto
        then show ?thesis using best(3) [OF k(1) el] before_trans [OF b] before_irrefl by blast
      next
        case False
        then have "Orders s k \<noteq> Some x0" using k(4) O(3) ne(2) by simp
        then have "status x' = Filled" using D(9) k x'(1) by (fastforce simp: in_priority_def)
        then show ?thesis using \<open>status x' \<noteq> Filled\<close> by simp
      qed
    qed
  qed
  then have pr: "in_priority s0 i a0 J t" unfolding in_priority_def by blast
  have tro: "trade_ok s0 i a0 tr"
    unfolding trade_ok_def by (rule conjI, simp add: fb(3,8), rule exI [of _ j], rule exI [of _ r0])
      (use r0 D(3) in \<open>simp add: fb(8) same_terms_def\<close>)
  have "remaining a' = remaining a - q" "trade_quantity tr = q" by (simp_all add: fb(4,8))
  moreover have "0 < remaining a' \<longrightarrow> \<not> inactive a'" by (simp add: fb(4) inactive_def)
  ultimately show ?thesis
    using fb(1,5-7,9) D(3,5-7,10-12) O(2) frame pr tro
    unfolding engine_def by (simp add: fb(4))
qed


text \<open>Every round finishes the resting order or the aggressor.\<close>

definition rounds_left :: "nat \<Rightarrow> nat set \<Rightarrow> Order \<Rightarrow> lob_state \<Rightarrow> nat" where
  "rounds_left i J a s = card {k \<in> J. k \<noteq> i \<and> (\<exists>r. Orders s k = Some r \<and> \<not> inactive r)} + (if 0 < remaining a then 1 else 0)"

lemma engine_progress:
  assumes e: "engine s0 i a0 J a s trs" "finite J" and pos: "0 < remaining a"
    and best: "j \<in> J" "eligible s i a j r" and f: "fill env i a j r s = Ok (a', tr, t)"
  shows "rounds_left i J a' t < rounds_left i J a s"
proof -
  note D = engineD [OF e(1)]
  define q where "q = min (remaining a) (remaining r)"
  define r' where "r' = r\<lparr>remaining := remaining r - q, status := (if remaining r - q = 0 then Filled else PartiallyFilled)\<rparr>"
  note fb = fill_book [OF D(1,2) D(4) [OF pos] best(2) f, folded q_def, folded r'_def]
  have j: "j \<noteq> i" "Orders s j = Some r" "\<not> inactive r" using best(2) by (simp_all add: eligible_def)
  define L where "L u = {k \<in> J. k \<noteq> i \<and> (\<exists>r. Orders u k = Some r \<and> \<not> inactive r)}" for u :: lob_state
  have sub: "L t \<subseteq> L s" using j by (auto simp: L_def fb(2) split: if_splits)
  have fin: "finite (L s)" using e(2) by (simp add: L_def)
  have le: "card (L t) \<le> card (L s)" by (rule card_mono [OF fin sub])
  show ?thesis
  proof (cases "remaining r - q = 0")
    case True
    then have "j \<notin> L t" using j(1) by (simp add: L_def fb(2) r'_def inactive_def)
    moreover have "j \<in> L s" using j best(1) by (simp add: L_def)
    ultimately have "card (L t) < card (L s)" using sub fin by (intro psubset_card_mono) auto
    then show ?thesis using pos by (simp add: rounds_left_def flip: L_def)
  next
    case False
    then have "remaining a' = 0" by (simp add: fb(4) q_def min_def split: if_splits)
    then show ?thesis using le pos by (simp add: rounds_left_def flip: L_def)
  qed
qed

lemma try_match_spec:
  assumes "book_ok s" "Orders s i = Some a" "\<not> inactive a"
  defines "J \<equiv> {1..<Suc (min (get_order_count s) 200)}"
  shows "\<exists>x. try_match env i s = Some x \<and>
    (get_total_volume s + remaining a \<le> i128_max \<longrightarrow> (\<exists>trs t. x = Ok (trs, t))) \<and> (\<forall>trs t. x = Ok (trs, t) \<longrightarrow>
    (\<exists>a'. engine s i a J a' t trs \<and> (0 < remaining a' \<longrightarrow> (\<forall>k\<in>J. \<forall>r. \<not> eligible t i a' k r))))"
proof -
  let ?n = "Suc (min (get_order_count s) 200)"
  have tm: "try_match env i s = match_loop env i [1..<?n] a [] s"
    using assms(2,3) by (simp add: try_match_def get_order_def Let_def)
  let ?safe = "get_total_volume s + remaining a \<le> i128_max"
  have "\<exists>x. match_loop env i [1..<?n] a [] s = Some x \<and> (?safe \<longrightarrow> (\<exists>trs t. x = Ok (trs, t))) \<and> (\<forall>trs t. x = Ok (trs, t) \<longrightarrow>
      (\<exists>a'. engine s i a J a' t trs \<and> (remaining a' \<le> 0 \<or> scan_loop t i a' [1..<?n] None = None)))"
  proof (rule match_loop_rule [where M = "rounds_left i J"])
    show "engine s i a J a s []" by (rule engine_start [OF assms(1-3)])
    fix b u trs j r b' tr v
    assume h: "engine s i a J b u trs" "0 < remaining b" "scan_loop u i b [1..<?n] None = Some (j, r)" "fill env i b j r u = Ok (b', tr, v)"
    have best: "j \<in> J" "eligible u i b j r" "\<And>k rk. k \<in> J \<Longrightarrow> eligible u i b k rk \<Longrightarrow> k \<noteq> j \<Longrightarrow> before b (j, r) (k, rk)"
      using scan_Some [OF h(3)] by (simp_all add: J_def)
    show "engine s i a J b' v (trs @ [tr]) \<and> rounds_left i J b' v < rounds_left i J b u"
      using engine_step [OF h(1,2) best h(4)] engine_progress [OF h(1) _ h(2) best(1,2) h(4)] by (simp add: J_def)
  next
    fix b u trs j r
    assume h: ?safe "engine s i a J b u trs" "0 < remaining b" "scan_loop u i b [1..<?n] None = Some (j, r)"
    note D = engineD [OF h(2)]
    have "Orders u j = Some r" "\<not> inactive r" using scan_Some(2) [OF h(4)] by (simp_all add: eligible_def)
    then show "\<exists>y. fill env i b j r u = Ok y"
      using fill_succeeds [OF D(1,2) D(4) [OF h(3)], of j r env] h(1) D(10,12) by fastforce
  qed
  then obtain x where x: "match_loop env i [1..<?n] a [] s = Some x" "?safe \<longrightarrow> (\<exists>trs t. x = Ok (trs, t))" "\<And>trs t. x = Ok (trs, t) \<Longrightarrow>
      \<exists>a'. engine s i a J a' t trs \<and> (remaining a' \<le> 0 \<or> scan_loop t i a' [1..<?n] None = None)" by blast
  have "\<exists>a'. engine s i a J a' t trs \<and> (0 < remaining a' \<longrightarrow> (\<forall>k\<in>J. \<forall>r. \<not> eligible t i a' k r))" if "x = Ok (trs, t)" for trs t
    using x(3) [OF that] scan_None [of t i _ ?n] by (fastforce simp: J_def)
  then show ?thesis using tm x(1,2) by auto
qed

section \<open>No crossing orders\<close>

definition crossed :: "lob_state \<Rightarrow> nat \<Rightarrow> nat \<Rightarrow> bool" where
  "crossed s i j \<longleftrightarrow> (\<exists>r r'. Orders s i = Some r \<and> Orders s j = Some r' \<and> \<not> inactive r \<and> \<not> inactive r' \<and> crosses r r')"

definition book_inv :: "lob_state \<Rightarrow> bool" where
  "book_inv s \<longleftrightarrow> book_ok s \<and> (\<forall>i j. i \<le> 200 \<longrightarrow> \<not> crossed s i j)"

lemma crossed_sym: "crossed s i j \<longleftrightarrow> crossed s j i"
  using crosses_sym by (auto simp: crossed_def)

lemma crossed_irrefl: "\<not> crossed s i i"
  by (auto simp: crossed_def crosses_def)

text \<open>What is live after the engine was live before, with the same terms.\<close>

lemma live_back:
  assumes "engine s0 i a0 J a s trs" "\<not> inactive a0" "Orders s0 i = Some a0" "Orders s k = Some r" "\<not> inactive r"
  shows "\<exists>r0. Orders s0 k = Some r0 \<and> \<not> inactive r0 \<and> same_terms r0 r"
proof (cases "k = i")
  case True
  then show ?thesis using engineD(2,3) [OF assms(1)] assms(2-4) by auto
next
  case False
  then show ?thesis using engineD(8) [OF assms(1) False] assms(4,5) by (fastforce simp: touched_def eligible_def)
qed

lemma crossed_back:
  assumes "engine s0 i a0 J a s trs" "\<not> inactive a0" "Orders s0 i = Some a0" "crossed s k l"
  shows "crossed s0 k l"
proof -
  obtain r r' where h: "Orders s k = Some r" "Orders s l = Some r'" "\<not> inactive r" "\<not> inactive r'" "crosses r r'"
    using assms(4) by (auto simp: crossed_def)
  obtain r0 where r0: "Orders s0 k = Some r0" "\<not> inactive r0" "same_terms r0 r" using live_back [OF assms(1-3) h(1,3)] by blast
  obtain r0' where "Orders s0 l = Some r0'" "\<not> inactive r0'" "same_terms r0' r'" using live_back [OF assms(1-3) h(2,4)] by blast
  with r0 show ?thesis using h(5) terms_decide(1) [of r0 r r0' r'] by (auto simp: crossed_def)
qed

text \<open>A new order is matched until it crosses nothing that is scanned.\<close>

lemma placed_uncrossed:
  assumes e: "engine s0 i a0 J a s trs" and a0: "\<not> inactive a0" "Orders s0 i = Some a0"
    and J: "J = {1..<Suc (min (get_order_count s0) 200)}" and new: "i = get_order_count s0"
    and fin: "0 < remaining a \<longrightarrow> (\<forall>k\<in>J. \<forall>r. \<not> eligible s i a k r)"
    and old: "\<And>k l. k \<le> 200 \<Longrightarrow> k \<noteq> i \<Longrightarrow> l \<noteq> i \<Longrightarrow> \<not> crossed s0 k l"
  shows "book_inv s"
proof -
  note D = engineD [OF e]
  have own: "\<not> crossed s i l" if "i \<le> 200 \<or> l \<le> 200" for l
  proof
    assume c: "crossed s i l"
    then obtain r' where h: "Orders s l = Some r'" "\<not> inactive a" "\<not> inactive r'" "crosses a r'"
      using D(2) by (auto simp: crossed_def)
    have li: "l \<noteq> i" using c crossed_irrefl by blast
    have "order_ok (get_order_count s) i a" "order_ok (get_order_count s) l r'" using book_okD(2) [OF D(1)] D(2) h(1) by simp_all
    then have "0 < remaining a" "l \<in> J" using h(2) that D(5) new by (auto simp: order_ok_def J)
    then show False using fin h(1,3,4) li by (auto simp: eligible_def)
  qed
  have "\<not> crossed s k l" if "k \<le> 200" for k l
  proof (cases "k = i \<or> l = i")
    case True
    then show ?thesis using own that crossed_sym by metis
  next
    case False
    then show ?thesis using crossed_back [OF e a0] old that by blast
  qed
  then show ?thesis using D(1) by (simp add: book_inv_def)
qed


section \<open>Histories\<close>

definition new_order :: "env \<Rightarrow> address \<Rightarrow> Side \<Rightarrow> int \<Rightarrow> int \<Rightarrow> lob_state \<Rightarrow> Order" where
  "new_order env a sd p q s = \<lparr>order_id = Suc (get_order_count s), order_owner = a, side = sd, price = p, quantity = q, remaining = q,
     status = Open, created_at = sequence env\<rparr>"

definition placed :: "env \<Rightarrow> address \<Rightarrow> Side \<Rightarrow> int \<Rightarrow> int \<Rightarrow> lob_state \<Rightarrow> lob_state" where
  "placed env a sd p q s = publish (Ev_placed (Suc (get_order_count s)) a sd p q) (s\<lparr>OrderCount := Some (Suc (get_order_count s)),
     Orders := (Orders s)(Suc (get_order_count s) \<mapsto> new_order env a sd p q s)\<rparr>)"

lemma place_order_cases:
  "(\<exists>e. place_order env a sd p q s = Some (Err e)) \<or> (\<exists>e. place_order env a sd p q s = Some (Trap e)) \<or>
   (Admin s \<noteq> None \<and> 0 < p \<and> 0 < q \<and> auth env a \<and>
    place_order env a sd p q s = map_option (\<lambda>r. and_then r (\<lambda>(_, s'). Ok (Suc (get_order_count s), s')))
      (try_match env (Suc (get_order_count s)) (placed env a sd p q s)))"
  by (auto simp: place_order_def assert_not_paused_def is_initialized_def require_auth_def u64_add_def lob_setters
      placed_def new_order_def Let_def)

lemma order_ok_mono: "order_ok n j r \<Longrightarrow> n \<le> m \<Longrightarrow> order_ok m j r"
  by (simp add: order_ok_def)

lemma placed_ok:
  fixes env a sd p q s
  assumes inv: "book_inv s" and h: "Admin s \<noteq> None" "0 < p" "0 < q" "in_i128 q"
  defines "u \<equiv> placed env a sd p q s" and "i \<equiv> Suc (get_order_count s)"
  shows "book_ok u" "Orders u = (Orders s)(i \<mapsto> new_order env a sd p q s)" "get_order_count u = i" "Orders s i = None"
    "\<not> inactive (new_order env a sd p q s)" "k \<le> 200 \<Longrightarrow> k \<noteq> i \<Longrightarrow> l \<noteq> i \<Longrightarrow> \<not> crossed u k l"
proof -
  let ?n = "new_order env a sd p q s"
  have ok: "book_ok s" using inv by (simp add: book_inv_def)
  show O: "Orders u = (Orders s)(i \<mapsto> ?n)" and N: "get_order_count u = i"
    by (simp_all add: u_def i_def placed_def publish_def get_order_count_def)
  have V: "get_total_volume u = get_total_volume s" "Admin u = Admin s"
    by (simp_all add: u_def placed_def publish_def get_total_volume_def)
  show none: "Orders s i = None" using book_okD(2) [OF ok, of i] by (cases "Orders s i") (auto simp: order_ok_def i_def)
  show live: "\<not> inactive ?n" by (simp add: new_order_def inactive_def)
  have new: "order_ok i i ?n" using h by (simp add: order_ok_def new_order_def i_def in_i128_def)
  have "order_ok i k x" if "Orders u k = Some x" for k x
    using that new book_okD(2) [OF ok, of k x] order_ok_mono [of "get_order_count s" k x i] by (auto simp: O i_def split: if_splits)
  moreover have "total_of (filled_of d) (Orders u) = get_total_volume u" for d
    using total_of_upd [OF book_okD(1) [OF ok], of "filled_of d" i "Some ?n"] book_okD(3) [OF ok, of d] none
    by (simp add: O V filled_of_def new_order_def)
  ultimately show "book_ok u" using book_okD(1) [OF ok] h(1) by (simp add: book_ok_def N V) (simp add: O)
  show "\<not> crossed u k l" if "k \<le> 200" "k \<noteq> i" "l \<noteq> i"
    using inv that by (auto simp: book_inv_def crossed_def O)
qed

lemma place_order_spec:
  assumes "book_inv s" "in_i128 q"
  shows "\<exists>x. place_order env a sd p q s = Some x \<and> (\<forall>i t. x = Ok (i, t) \<longrightarrow> book_inv t \<and> i = Suc (get_order_count s) \<and>
    0 < p \<and> 0 < q \<and> auth env a \<and> Admin s \<noteq> None \<and>
    (\<exists>a' trs. engine (placed env a sd p q s) i (new_order env a sd p q s) {1..<Suc (min i 200)} a' t trs \<and>
      (0 < remaining a' \<longrightarrow> (\<forall>k\<in>{1..<Suc (min i 200)}. \<forall>r. \<not> eligible t i a' k r))))"
proof -
  let ?i = "Suc (get_order_count s)" and ?u = "placed env a sd p q s" and ?n = "new_order env a sd p q s"
  consider "\<exists>e. place_order env a sd p q s = Some (Err e)" | "\<exists>e. place_order env a sd p q s = Some (Trap e)"
    | "Admin s \<noteq> None" "0 < p" "0 < q" "auth env a"
      "place_order env a sd p q s = map_option (\<lambda>r. and_then r (\<lambda>(_, s'). Ok (?i, s'))) (try_match env ?i ?u)"
    using place_order_cases [of env a sd p q s] by blast
  then show ?thesis
  proof cases
    case 3
    note pl = placed_ok [OF assms(1) 3(1-3) assms(2)]
    have o: "Orders ?u ?i = Some ?n" by (simp add: pl(2))
    obtain x where x: "try_match env ?i ?u = Some x" "\<And>trs t. x = Ok (trs, t) \<Longrightarrow> \<exists>a'. engine ?u ?i ?n {1..<Suc (min ?i 200)} a' t trs \<and>
        (0 < remaining a' \<longrightarrow> (\<forall>k\<in>{1..<Suc (min ?i 200)}. \<forall>r. \<not> eligible t ?i a' k r))"
      using try_match_spec [where env = env, OF pl(1) [of env a sd] o pl(5) [of env a sd]] unfolding pl(3) by blast
    have inv: "book_inv t" if e: "engine ?u ?i ?n {1..<Suc (min ?i 200)} a' t trs"
        "0 < remaining a' \<longrightarrow> (\<forall>k\<in>{1..<Suc (min ?i 200)}. \<forall>r. \<not> eligible t ?i a' k r)" for a' t trs
    proof (rule placed_uncrossed [OF e(1) pl(5) o _ _ e(2)])
      show "{1..<Suc (min ?i 200)} = {1..<Suc (min (get_order_count ?u) 200)}" "?i = get_order_count ?u" unfolding pl(3) by (rule refl)+
      show "\<not> crossed ?u k l" if "k \<le> 200" "k \<noteq> ?i" "l \<noteq> ?i" for k l using that by (rule pl(6))
    qed
    show ?thesis
    proof (cases x)
      case (Ok y)
      obtain trs t where y: "y = (trs, t)" by (cases y)
      obtain a' where e: "engine ?u ?i ?n {1..<Suc (min ?i 200)} a' t trs"
        "0 < remaining a' \<longrightarrow> (\<forall>k\<in>{1..<Suc (min ?i 200)}. \<forall>r. \<not> eligible t ?i a' k r)" using x(2) Ok y by blast
      show ?thesis
        by (rule exI [of _ "Ok (?i, t)"]) (use 3 x(1) Ok y inv [OF e] e in auto)
    qed (use 3(5) x(1) in simp_all)
  qed auto
qed

text \<open>With the guards met and room for the volume, an order is accepted.\<close>

lemma place_order_succeeds:
  assumes "book_inv s" "in_i128 q"
    and h: "Admin s \<noteq> None" "\<not> is_paused s" "auth env a" "0 < p" "0 < q" "get_order_count s < u64_max" "get_total_volume s + q \<le> i128_max"
  shows "\<exists>t. place_order env a sd p q s = Some (Ok (Suc (get_order_count s), t))"
proof -
  let ?i = "Suc (get_order_count s)" and ?u = "placed env a sd p q s" and ?n = "new_order env a sd p q s"
  note pl = placed_ok [OF assms(1) h(1,4,5) assms(2)]
  have o: "Orders ?u ?i = Some ?n" by (simp add: pl(2))
  have "get_total_volume ?u + remaining ?n \<le> i128_max"
    using h(7) by (simp add: placed_def new_order_def publish_def get_total_volume_def)
  then obtain trs t where "try_match env ?i ?u = Some (Ok (trs, t))"
    using try_match_spec [where env = env, OF pl(1) [of env a sd] o pl(5) [of env a sd]] by blast
  moreover have "place_order env a sd p q s = map_option (\<lambda>r. and_then r (\<lambda>(_, s'). Ok (?i, s'))) (try_match env ?i ?u)"
    using h by (simp add: place_order_def assert_not_paused_def is_initialized_def require_auth_def u64_add_def lob_setters
        placed_def new_order_def Let_def)
  ultimately show ?thesis by simp
qed

text \<open>On such a book \<open>match_order\<close> has nothing to do.\<close>

lemma match_idle:
  assumes "book_inv s" shows "try_match env i s = Some (Ok ([], s)) \<or> try_match env i s = Some (Err OrderNotFound)"
proof (cases "Orders s i")
  case None
  then show ?thesis by (simp add: try_match_def get_order_def)
next
  case (Some a)
  show ?thesis
  proof (cases "inactive a")
    case True
    then show ?thesis using Some by (simp add: try_match_def get_order_def)
  next
    case False
    let ?js = "[1..<Suc (min (get_order_count s) 200)]"
    have "scan_loop s i a ?js None = None"
    proof (cases "scan_loop s i a ?js None")
      case (Some jr)
      obtain j r where jr: "jr = (j, r)" by (cases jr)
      have "j \<le> 200" "eligible s i a j r" using scan_Some(1,2) [OF Some [unfolded jr]] by auto
      then have "crossed s i j" "\<not> crossed s j i"
        using \<open>Orders s i = Some a\<close> False assms by (auto simp: eligible_def crossed_def book_inv_def)
      then show ?thesis using crossed_sym by blast
    qed
    moreover have "0 < remaining a" using book_okD(2) Some False assms by (auto simp: book_inv_def order_ok_def)
    ultimately show ?thesis using Some False by (simp add: try_match_def get_order_def Let_def match_loop.simps)
  qed
qed

lemma book_inv_frame:
  assumes "book_inv s" "Orders t = Orders s" "get_order_count t = get_order_count s" "get_total_volume t = get_total_volume s"
    "Admin t = None \<Longrightarrow> Admin s = None"
  shows "book_inv t"
  using assms by (auto simp: book_inv_def book_ok_def crossed_def)

lemma cancel_keeps:
  assumes "cancel_order env a i s = Ok (u, t)" "book_inv s"
  shows "book_inv t"
proof -
  obtain r where r: "Orders s i = Some r" "\<not> inactive r"
    and t: "t = publish (Ev_cancelled i) (s\<lparr>Orders := (Orders s)(order_id r \<mapsto> r\<lparr>status := Cancelled\<rparr>)\<rparr>)"
    using assms(1) by (auto simp: cancel_order_def get_order_def set_order_def split: if_splits)
  have ok: "book_ok s" using assms(2) by (simp add: book_inv_def)
  have o: "order_ok (get_order_count s) i r" by (rule book_okD(2) [OF ok r(1)])
  let ?r = "r\<lparr>status := Cancelled\<rparr>"
  have O: "Orders t = (Orders s)(i \<mapsto> ?r)" and V: "get_order_count t = get_order_count s" "get_total_volume t = get_total_volume s" "Admin t = Admin s"
    using o by (simp_all add: t publish_def order_ok_def get_order_count_def get_total_volume_def)
  have new: "order_ok (get_order_count s) i ?r" using o by (simp add: order_ok_def inactive_def)
  have "order_ok (get_order_count t) k x" if "Orders t k = Some x" for k x
    using that new book_okD(2) [OF ok, of k x] by (auto simp: O V split: if_splits)
  moreover have "total_of (filled_of d) (Orders t) = get_total_volume t" for d
    using total_of_upd [OF book_okD(1) [OF ok], of "filled_of d" i "Some ?r"] book_okD(3) [OF ok, of d] r(1)
    by (simp add: O V filled_of_def)
  moreover have "\<not> crossed t k l" if "k \<le> 200" for k l
    using assms(2) that by (auto simp: book_inv_def crossed_def O inactive_def split: if_splits)
  ultimately show ?thesis
    using book_okD(1) [OF ok] book_okD(4) [OF ok r(1)] by (simp add: book_inv_def book_ok_def V) (auto simp: O)
qed

lemma lob_call_inv: "lob_call env s t \<Longrightarrow> book_inv s \<Longrightarrow> book_inv t"
proof (induction rule: lob_call.induct)
  case (initialize a s u t)
  then have "Orders s = Map.empty" by (auto simp: initialize_def is_initialized_def book_inv_def book_ok_def split: if_splits)
  moreover have "Orders t = Orders s \<and> get_total_volume t = get_total_volume s \<and> Admin t \<noteq> None"
    using initialize by (auto simp: initialize_def lob_setters get_total_volume_def split: if_splits)
  ultimately show ?case using initialize.prems by (auto simp: book_inv_def book_ok_def crossed_def)
next
  case (place p q a sd s i t)
  then show ?case using place_order_spec [of s q env a sd p] by auto
next
  case (cancel a i s u t)
  then show ?case using cancel_keeps by blast
next
  case (match i s l t)
  then show ?case using match_idle [of s env i] by (auto simp: match_order_def split: outcome.splits)
qed (auto elim!: book_inv_frame simp: pause_def unpause_def pub_set_admin_def assert_admin_def is_initialized_def lob_setters
    get_order_count_def get_total_volume_def split: if_splits)

interpretation lob: contract_machine empty_book lob_step book_inv
proof unfold_locales
  show "book_inv empty_book"
    by (simp add: book_inv_def book_ok_def empty_book_def crossed_def get_total_volume_def)
qed (auto simp: lob_step_def intro: lob_call_inv)


section \<open>A concrete history\<close>

text \<open>
  Account 5 offers 5 units at 100, account 6 offers 4 units at 90, account 7 buys 7 units at up to 100: it gets the
  4 units at 90 and 3 of the units at 100.
\<close>

definition demo_order :: "nat \<Rightarrow> address \<Rightarrow> Side \<Rightarrow> int \<Rightarrow> int \<Rightarrow> Order" where
  "demo_order i a sd p q = \<lparr>order_id = i, order_owner = a, side = sd, price = p, quantity = q, remaining = q, status = Open, created_at = 10\<rparr>"

definition demo_book_new :: lob_state where
  "demo_book_new = empty_book\<lparr>Admin := Some 1, OrderCount := Some 0, Paused := Some False, events := [Ev_init 1]\<rparr>"

definition demo_book_one :: lob_state where
  "demo_book_one = demo_book_new\<lparr>OrderCount := Some 1, Orders := [1 \<mapsto> demo_order 1 5 Sell 100 5],
     events := [Ev_init 1, Ev_placed 1 5 Sell 100 5]\<rparr>"

definition demo_book :: lob_state where
  "demo_book = demo_book_one\<lparr>OrderCount := Some 2, Orders := [1 \<mapsto> demo_order 1 5 Sell 100 5, 2 \<mapsto> demo_order 2 6 Sell 90 4],
     events := [Ev_init 1, Ev_placed 1 5 Sell 100 5, Ev_placed 2 6 Sell 90 4]\<rparr>"

definition demo_book_bought :: lob_state where
  "demo_book_bought = demo_book\<lparr>OrderCount := Some 3, TotalVolume := Some 7,
     Orders := [1 \<mapsto> (demo_order 1 5 Sell 100 5)\<lparr>remaining := 2, status := PartiallyFilled\<rparr>,
       2 \<mapsto> (demo_order 2 6 Sell 90 4)\<lparr>remaining := 0, status := Filled\<rparr>, 3 \<mapsto> (demo_order 3 7 Buy 100 7)\<lparr>remaining := 0, status := Filled\<rparr>],
     events := [Ev_init 1, Ev_placed 1 5 Sell 100 5, Ev_placed 2 6 Sell 90 4, Ev_placed 3 7 Buy 100 7, Ev_trade 3 2 90 4, Ev_trade 3 1 100 3]\<rparr>"

lemmas demo_book_states = demo_book_bought_def demo_book_def demo_book_one_def demo_book_new_def demo_order_def empty_book_def
lemmas lob_eval = place_order_def try_match_def match_loop.simps fill_def consider_order_def candidate_better_def price_matches_def
  inactive_def get_order_def get_order_count_def add_total_volume_def get_total_volume_def lob_setters assert_not_paused_def
  is_initialized_def is_paused_def require_auth_def demo_env_def u64_add_def u64_max_def i128_sub_def i128_add_def in_i128_def
  i128_max_def i128_min_def Let_def

lemma demo_book_init: "initialize (demo_env 1) 1 empty_book = Ok ((), demo_book_new)"
  by (simp add: initialize_def demo_book_states lob_eval)

lemma demo_book_sells:
  "place_order (demo_env 2) 5 Sell 100 5 demo_book_new = Some (Ok (1, demo_book_one))"
  "place_order (demo_env 3) 6 Sell 90 4 demo_book_one = Some (Ok (2, demo_book))"
  by (simp_all add: demo_book_states lob_eval upt_rec numeral_2_eq_2)

lemma demo_book_buys: "place_order (demo_env 5) 7 Buy 100 7 demo_book = Some (Ok (3, demo_book_bought))"
  by (simp add: demo_book_states lob_eval upt_rec fun_upd_twist)

lemma demo_book_run: "lob_step\<^sup>*\<^sup>* empty_book demo_book" "lob_step\<^sup>*\<^sup>* empty_book demo_book_bought"
proof -
  have st: "lob_step s t" if "lob_call env s t" for s t env using that by (auto simp: lob_step_def)
  have "lob_step empty_book demo_book_new" by (rule st, rule lob_call.initialize, rule demo_book_init)
  moreover have "lob_step demo_book_new demo_book_one"
    by (rule st, rule lob_call.place [OF _ _ demo_book_sells(1)]) (simp_all add: in_i128_def i128_max_def i128_min_def)
  moreover have "lob_step demo_book_one demo_book"
    by (rule st, rule lob_call.place [OF _ _ demo_book_sells(2)]) (simp_all add: in_i128_def i128_max_def i128_min_def)
  moreover have "lob_step demo_book demo_book_bought"
    by (rule st, rule lob_call.place [OF _ _ demo_book_buys]) (simp_all add: in_i128_def i128_max_def i128_min_def)
  ultimately show "lob_step\<^sup>*\<^sup>* empty_book demo_book" "lob_step\<^sup>*\<^sup>* empty_book demo_book_bought"
    by (meson rtranclp.rtrancl_refl rtranclp.rtrancl_into_rtrancl)+
qed

section \<open>Properties\<close>

text \<open>
  C29. The book is consistent in every reachable state: what all buy orders have got is what all sell orders
  have given, and is the recorded volume; no order is filled beyond its quantity; and no two live
  orders of which one is among the first 200 cross each other.
\<close>

theorem order_book_consistent:
  assumes "lob_step\<^sup>*\<^sup>* empty_book s"
  shows "total_of (filled_of Buy) (Orders s) = total_volume s \<and> total_of (filled_of Sell) (Orders s) = total_volume s \<and>
    (\<forall>i r. pub_get_order i s = Ok r \<longrightarrow> 0 \<le> remaining r \<and> remaining r \<le> quantity r \<and> (status r = Filled \<longrightarrow> remaining r = 0)) \<and>
    (\<forall>i j r r'. i \<le> 200 \<and> pub_get_order i s = Ok r \<and> pub_get_order j s = Ok r' \<and> \<not> inactive r \<and> \<not> inactive r' \<longrightarrow> \<not> crosses r r')"
proof -
  have inv: "book_inv s" by (rule lob.reachable_Inv [OF assms])
  have get: "pub_get_order k s = Ok r \<longleftrightarrow> Orders s k = Some r" for k r by (simp add: pub_get_order_def get_order_def)
  have ok: "book_ok s" and nc: "\<And>i j. i \<le> 200 \<Longrightarrow> \<not> crossed s i j" using inv by (simp_all add: book_inv_def)
  show ?thesis
    unfolding get total_volume_def
    using book_okD(3) [OF ok] book_okD(2) [OF ok, unfolded order_ok_def] nc [unfolded crossed_def] by blast
qed

theorem order_book_consistent_witness:
  "total_of (filled_of Buy) (Orders demo_book_bought) = 7 \<and> total_of (filled_of Sell) (Orders demo_book_bought) = 7"
proof -
  have "total_volume demo_book_bought = 7" by (simp add: total_volume_def get_total_volume_def demo_book_states)
  then show ?thesis using order_book_consistent [OF demo_book_run(2)] by simp
qed

text \<open>The other entry of the engine: a separate \<open>match_order\<close> finds nothing left to trade on a reachable book.\<close>

lemma match_order_idle:
  assumes "lob_step\<^sup>*\<^sup>* empty_book s"
  shows "match_order env i s = Some (Ok ([], s)) \<or> (\<exists>e. match_order env i s = Some (Err e))"
  using match_idle [OF lob.reachable_Inv [OF assms], of env i] by (auto simp: match_order_def assert_not_paused_def)

definition matchable :: "lob_state \<Rightarrow> Order \<Rightarrow> nat \<Rightarrow> Order \<Rightarrow> bool" where
  "matchable s new k r \<longleftrightarrow> k \<le> 200 \<and> pub_get_order k s = Ok r \<and> \<not> inactive r \<and> crosses new r"

text \<open>What an accepted order has done to the book, in terms of the public views.\<close>

definition served :: "lob_state \<Rightarrow> Order \<Rightarrow> lob_state \<Rightarrow> bool" where
  "served s new t \<longleftrightarrow> total_volume t = total_volume s + (quantity new - remaining new) \<and>
    (\<forall>k r. pub_get_order k s = Ok r \<and> pub_get_order k t \<noteq> Ok r \<longrightarrow> matchable s new k r \<and>
       (\<exists>x. pub_get_order k t = Ok x \<and> same_terms r x \<and> remaining x < remaining r) \<and>
       (\<forall>k' r'. matchable s new k' r' \<and> before new (k', r') (k, r) \<longrightarrow> (\<exists>x. pub_get_order k' t = Ok x \<and> status x = Filled))) \<and>
    (0 < remaining new \<longrightarrow> (\<forall>k r. matchable s new k r \<longrightarrow> (\<exists>x. pub_get_order k t = Ok x \<and> status x = Filled)))"

lemma place_order_serves:
  assumes inv: "book_inv s" and "in_i128 q" "place_order env a sd p q s = Some (Ok (i, t))"
  shows "\<exists>new. pub_get_order i t = Ok new \<and> order_owner new = a \<and> side new = sd \<and> price new = p \<and> quantity new = q \<and> served s new t"
proof -
  let ?n = "new_order env a sd p q s" and ?u = "placed env a sd p q s" and ?J = "{1..<Suc (min i 200)}"
  obtain new trs where i: "i = Suc (get_order_count s)" "0 < p" "0 < q" "Admin s \<noteq> None" and e: "engine ?u i ?n ?J new t trs"
      and fin: "0 < remaining new \<longrightarrow> (\<forall>k\<in>?J. \<forall>r. \<not> eligible t i new k r)"
    using place_order_spec [OF inv assms(2), of env a sd p] assms(3) by auto
  note pl = placed_ok [OF inv i(4,2,3) assms(2), folded i(1)]
  have st: "same_terms ?n new" by (rule engineD(3) [OF e])
  have get: "pub_get_order k v = Ok r \<longleftrightarrow> Orders v k = Some r" for k v r by (simp add: pub_get_order_def get_order_def)
  have m: "matchable s new k r \<longleftrightarrow> k \<in> ?J \<and> eligible ?u i ?n k r" for k r
  proof -
    have "1 \<le> k \<and> k < i" if "Orders s k = Some r" using inv book_okD(2) [of s k r] that i(1) by (auto simp: book_inv_def order_ok_def)
    then show ?thesis using terms_decide(1) [OF st, of r r] pl(2,4) by (auto simp: matchable_def get eligible_def)
  qed
  have ch: "matchable s new k r \<and> (\<exists>x. Orders t k = Some x \<and> same_terms r x \<and> remaining x < remaining r) \<and> (\<forall>k' r'. matchable s new k' r' \<and> before new (k', r') (k, r) \<longrightarrow> (\<exists>x. Orders t k' = Some x \<and> status x = Filled))"
    if k: "Orders s k = Some r" "Orders t k \<noteq> Some r" for k r
  proof -
    have "k \<noteq> i" using k(1) pl(4) by auto
    then have u: "Orders ?u k = Some r" using k(1) pl(2) by simp
    then have "matchable s new k r" "\<exists>x. Orders t k = Some x \<and> same_terms r x \<and> remaining x < remaining r"
      using engineD(8) [OF e \<open>k \<noteq> i\<close>] k(2) by (auto simp: m touched_def)
    then show ?thesis
      using engineD(9) [OF e] k(2) unfolding in_priority_def m
      by (meson terms_before [OF st same_terms_refl same_terms_refl])
  qed
  have all: "\<exists>x. Orders t k = Some x \<and> status x = Filled" if "0 < remaining new" "matchable s new k r" for k r
    using eligible_forth [OF e, of k r] fin that unfolding m by blast
  have n: "order_owner new = a \<and> side new = sd \<and> price new = p \<and> quantity new = q" using st by (simp add: same_terms_def new_order_def)
  have "total_volume t = total_volume s + (quantity new - remaining new)"
    using n engineD(10,12) [OF e] by (simp add: total_volume_def placed_def new_order_def publish_def get_total_volume_def)
  then have "served s new t" unfolding served_def get using ch all by blast
  then show ?thesis unfolding get using engineD(2) [OF e] n by blast
qed

text \<open>
  C28. Price-time priority: \<open>place_order\<close> always returns, and accepts every signed order of positive price and
  quantity on a running book, unless the ids or the recorded volume run out. An accepted order trades
  only with live orders of the other side, among the first 200, that accept its price. An order it
  trades with keeps its terms and loses quantity. Whenever it trades with one of them, every such order
  that comes before it (by better price, then by earlier ledger, then by lower id) has been filled
  completely; and if the new order is not filled itself, all of them have been. The volume grows by
  what the new order got.
\<close>

theorem price_time_priority:
  assumes "lob_step\<^sup>*\<^sup>* empty_book s" "in_i128 q"
  shows "place_order env a sd p q s \<noteq> None \<and>
    (pub_get_admin s = Ok d \<and> \<not> pub_is_paused s \<and> auth env a \<and> 0 < p \<and> 0 < q \<and> order_count s < u64_max \<and>
       total_volume s + q \<le> i128_max \<longrightarrow> (\<exists>t. place_order env a sd p q s = Some (Ok (Suc (order_count s), t)))) \<and>
    (\<forall>i t. place_order env a sd p q s = Some (Ok (i, t)) \<longrightarrow>
       (\<exists>new. pub_get_order i t = Ok new \<and> order_owner new = a \<and> side new = sd \<and> price new = p \<and> quantity new = q \<and>
          served s new t))"
proof -
  have inv: "book_inv s" by (rule lob.reachable_Inv [OF assms(1)])
  have "place_order env a sd p q s \<noteq> None" using place_order_spec [OF inv assms(2)] by (metis option.distinct(1))
  moreover have "Admin s \<noteq> None" if "pub_get_admin s = Ok d" using that by (simp add: pub_get_admin_def is_initialized_def split: if_splits)
  ultimately show ?thesis
    using place_order_succeeds [OF inv assms(2), of env a p sd] place_order_serves [OF inv assms(2), of env a sd p]
    unfolding order_count_def total_volume_def pub_is_paused_def by blast
qed

theorem price_time_priority_witness:
  "\<exists>new. pub_get_order 3 demo_book_bought = Ok new \<and> quantity new = 7 \<and>
     matchable demo_book new 1 (demo_order 1 5 Sell 100 5) \<and> matchable demo_book new 2 (demo_order 2 6 Sell 90 4) \<and>
     before new (2, demo_order 2 6 Sell 90 4) (1, demo_order 1 5 Sell 100 5)"
proof -
  have q: "in_i128 7" by (simp add: in_i128_def i128_max_def i128_min_def)
  have o: "pub_get_order 1 demo_book = Ok (demo_order 1 5 Sell 100 5)" "pub_get_order 2 demo_book = Ok (demo_order 2 6 Sell 90 4)"
    "pub_get_order 1 demo_book_bought \<noteq> Ok (demo_order 1 5 Sell 100 5)" "pub_get_order 2 demo_book_bought \<noteq> Ok (demo_order 2 6 Sell 90 4)"
    by (simp_all add: pub_get_order_def get_order_def demo_book_states)
  obtain new where new: "pub_get_order 3 demo_book_bought = Ok new" "quantity new = 7" "side new = Buy" "served demo_book new demo_book_bought"
    using price_time_priority [OF demo_book_run(1) q, of "demo_env 5" 7 Buy 100 0] demo_book_buys by blast
  have "matchable demo_book new 1 (demo_order 1 5 Sell 100 5)" "matchable demo_book new 2 (demo_order 2 6 Sell 90 4)"
    using new(4) o unfolding served_def by blast+
  with new show ?thesis by (intro exI [of _ new]) (simp add: before_def cost_def demo_order_def)
qed

end
