(* ===== verification/Spec2Isabelle.thy ===== *)
theory Spec2Isabelle
  imports
    Amm_Pool_Correct
    Multisig_Correct
    Token_Correct
    Staking_Correct
    Interest_Rate_Model
    Governance_Correct
    Escrow_Swap_Correct
    Escrow_Work_Correct
    Stablecoin_Correct
    Farm_Correct
    Market_Correct
    Token_Refinement
    Perpetuals_Correct
    Synthetic_Correct
    Options_Correct
    Loan_Correct
    Nft_Fractional_Correct
    Order_Book_Correct
begin

text \<open>
  \<^bold>\<open>A verification of the Soroban contracts of this repository.\<close>

  The repository is a playground for Soroban smart contracts: its core is a collection of
  independent Rust contracts under \<open>contracts/\<close>, each with a \<open>lib.rs\<close> (the entry points), usually a
  \<open>storage.rs\<close> (typed access to the ledger entries of the contract) and a \<open>types.rs\<close> (its data). The
  web services and tools around them only compile, deploy and show contracts. The development
  models contracts as they are written and proves what their users rely on.

  \<^bold>\<open>How a contract is modelled.\<close> The ledger entries of a contract are one record, a field per storage
  key: an option for a single entry, a finite map for a keyed entry. An entry point is one
  definition that takes the invocation's environment (\<open>env\<close>: timestamp, ledger sequence, who
  authorised the call, the contract's own address), the arguments and the state, and returns an
  \<open>outcome\<close>: \<open>Ok\<close> with the result and the new state, \<open>Err\<close> with the contract's error code, or \<open>Trap\<close>
  for a panic. The host rolls a failed invocation back, so a failure carries no state. Statements
  are in the order of the code, every early return and every arithmetic trap included (the
  workspace compiles with \<open>overflow-checks\<close>). \<open>i128\<close> is \<open>int\<close> and the unsigned types are \<open>nat\<close>, with the
  range test of the type at every operation that can leave it. Entry points that read only and have
  the name of a storage accessor carry the prefix \<open>pub_\<close>. A public history is a path in an
  \<open>inductive\<close> relation with one rule per entry point; what is claimed for every reachable state is
  proved by rule induction over it.

  \<^bold>\<open>Theories.\<close>
  \<^item> \<open>Soroban_Prelude\<close>: outcomes, Rust integers, the environment, sums of balances, and the locales
    \<open>contract_machine\<close> and \<open>monotone_machine\<close> (a step relation with an invariant, and with a preorder
    its steps respect), interpreted for every contract that keeps to itself.
  \<^item> \<open>Amm_Pool\<close>, \<open>Amm_Pool_Correct\<close>: \<open>contracts/amm-pool\<close>, a constant-product pool with a dynamic fee.
  \<^item> \<open>Multisig_Wallet\<close>, \<open>Multisig_Correct\<close>: \<open>contracts/multisig-wallet\<close>, an M-of-N wallet with time lock.
  \<^item> \<open>Token_Contract\<close>, \<open>Token_Interface\<close>, \<open>Token_Correct\<close>: \<open>contracts/token_contract\<close>, the SEP-41 token.
    \<open>Token_Interface\<close> states as the locales \<open>sep41\<close> and \<open>token_host\<close> what a client contract relies on,
    \<open>Token_Correct\<close> interprets both on the model of the repository's own token, and \<open>Token_Refinement\<close>
    shows that every call of the token is one event of an abstract ledger of holdings and grants.
  \<^item> \<open>Staking\<close>, \<open>Staking_Correct\<close>: \<open>contracts/staking\<close>, a vault with delayed withdrawal, client of a token.
  \<^item> \<open>Interest_Rate_Model\<close>: \<open>contracts/interest-rate-model\<close>, rate curves and the log of rates.
  \<^item> \<open>Governance\<close>, \<open>Governance_Correct\<close>: \<open>contracts/governance\<close>, a DAO with delegation and timed upgrades.
  \<^item> \<open>Freelancer_Escrow\<close>, \<open>Escrow_Swap_Correct\<close>, \<open>Escrow_Work_Correct\<close>: \<open>contracts/escrow\<close>, hash-time-locked
    swaps of two tokens and milestone agreements.
  \<^item> \<open>Stablecoin\<close>, \<open>Stablecoin_Correct\<close>: \<open>contracts/stablecoin\<close>, a stablecoin with a peg stability module
    and rebasing.
  \<^item> \<open>Yield_Farming\<close>, \<open>Farm_Optimizer_Correct\<close>, \<open>Farm_Correct\<close>: \<open>contracts/yield-farming\<close>, pools with
    compounding rewards and the optimizer that spreads a portfolio over them.
  \<^item> \<open>Prediction_Market\<close>, \<open>Market_Quotes_Correct\<close>, \<open>Market_Books_Correct\<close>, \<open>Market_Bets_Correct\<close>,
    \<open>Market_Correct\<close>: \<open>contracts/prediction-market\<close>, outcome shares backed by collateral with a
    fixed-product market maker, disputed settlement, and parimutuel bets; client of a token. The
    theories show the arithmetic and the quotes, the books, the bets and settlements, and on top of
    them the properties.
  \<^item> \<open>Perpetuals\<close>, \<open>Perpetuals_Correct\<close>: \<open>contracts/perpetuals\<close>, perpetual futures priced by a virtual
    constant-product market, with funding payments and liquidation.
  \<^item> \<open>Synthetic_Assets\<close>, \<open>Synthetic_Books_Correct\<close>, \<open>Synthetic_Correct\<close>: \<open>contracts/synthetic-assets\<close>,
    synthetic assets minted against collateral, a guarded price feed, liquidation and leveraged trades;
    client of a token. The runs of \<open>synth_step\<close> carry the net profit paid to traders as a third
    component, which no definition of the code reads.
  \<^item> \<open>Options_Protocol\<close>, \<open>Options_Math_Correct\<close>, \<open>Options_Books_Correct\<close>, \<open>Options_Correct\<close>:
    \<open>contracts/options-protocol\<close>, plain and collateralised options on a margin pool and fixed-point
    Black-Scholes prices; client of a token. The theories show the arithmetic (no panic, parity), the
    books of the pool, and on top of them life cycle, widths and settlement.
  \<^item> \<open>Loan_Syndication\<close>, \<open>Loan_Books_Correct\<close>, \<open>Loan_Correct\<close>: \<open>contracts/loan-syndication\<close>, term loans of a
    senior and a junior tranche with a repayment waterfall; client of a token.
  \<^item> \<open>Erc721\<close>, \<open>Nft_Interface\<close>, \<open>Erc721_Correct\<close>: \<open>contracts/erc-721\<close>, the non-fungible token. \<open>Nft_Interface\<close>
    states as the locale \<open>nft_registry\<close> what a client relies on; \<open>Erc721_Correct\<close> interprets it on the model of
    the repository's own contract for a world that names the owner in every transfer (\<open>erc_fair\<close>), because
    the code does not check that. Outside such a world both the books of the token and the custody of the vault below can
    fail (\<open>theft_blocks_settlement\<close>), so the properties of both are claims about fair worlds, and say so.
  \<^item> \<open>Nft_Fractional\<close>, \<open>Nft_Books_Correct\<close>, \<open>Nft_Fractional_Correct\<close>: \<open>contracts/nft-fractional\<close>, a custody vault
    that issues fractions of an NFT and auctions it off; client of a payment token and of an NFT contract.
    Its invariant is proved in the locale \<open>fraction_vault\<close>, which combines \<open>token_host\<close> and \<open>nft_registry\<close>.
  \<^item> \<open>Limit_Order_Book\<close>, \<open>Order_Book_Correct\<close>: \<open>contracts/limit-order-book\<close>, a book of limit orders with a
    matching engine in price-time priority. The engine's outer loop \<open>match_loop\<close> has no bound in the code; it is a
    \<open>partial_function\<close> into options, and the properties include that it returns.
  \<^item> \<open>Reduced_Division\<close>: the locale of the gcd-reduced multiply-and-divide, interpreted for the markets
    (\<open>Market_Quotes_Correct\<close>) and for the loans (\<open>Loan_Books_Correct\<close>), which each have their own copy.

  \<^bold>\<open>Interaction.\<close> The vault, the swaps, the prediction markets, the synthetic assets, the options, the loans
  and the custody vault of NFT fractions call a token contract. The callee is a parameter \<open>tc\<close> of the
  client's definitions, of type \<open>'w token_transfer\<close> over an arbitrary world of tokens; the laws the
  client needs are the assumptions of \<open>token_host\<close>, and the properties are stated with the parameter
  instantiated by the repository's token (\<open>world_transfer\<close>) and the rest of the ledger free to make
  any call that the client did not sign. The custody vault also calls an NFT contract, with parameters
  \<open>nt\<close> (transfer) and \<open>no\<close> (owner) in the same way, instantiated by \<open>nft_world_move\<close> and \<open>nft_world_owner\<close>.
  \<open>sha256\<close> is the parameter \<open>sha\<close>, with no assumption.

  \<^bold>\<open>What the lemma groups show.\<close> Per contract: an \<open>_Ok\<close> lemma per entry point (exactly what a
  successful call did), an invariant with its preservation by every entry point, and the
  properties, each followed by a witness that applies it to a concrete run. The kinds: solvency and
  book-keeping invariants, safety along runs (immutability, time locks, one vote per holder),
  liveness (a claim or refund that cannot fail), exactness of integer arithmetic and absence of
  traps, and the places where the code does less than its comments promise.

  \<^bold>\<open>Bounds and fuel.\<close> \<open>isqrt_loop\<close> is Newton's iteration with a termination measure, no fuel.
  \<open>follow_delegates\<close> has the code's own bound of eight hops. \<open>fill_loop\<close> of the optimizer ends
  because each round lowers the amount still to be placed, \<open>gcd_loop\<close> because the remainder shrinks,
  \<open>search_loop\<close> because the interval does, \<open>sqrt_loop\<close> as \<open>isqrt_loop\<close>, \<open>ln_halve\<close> and \<open>ln_double\<close> because
  the value moves towards the scale. \<open>match_loop\<close> needs no fuel either: the rule \<open>match_loop_rule\<close> proves that it returns, because
  every round finishes the new order or one resting order. All other loops run over a list.

  \<^bold>\<open>Not modelled.\<close> Extension of storage time-to-live (no observable effect while entries live), the
  host itself (authorisation is the field \<open>auth\<close>, roll-back is the absence of a state in failures),
  \<open>update_collateral_token\<close> of the synthetic assets is modelled but left out of their runs (the
  properties speak of one collateral token, and say so),
  the services, tools and user interface around the contracts, and the contracts not listed above,
  which are independent of these.
\<close>

end
